(* ===== verification/Prelude.thy ===== *)
theory Prelude
  imports Main "HOL-Library.List_Lexorder" "HOL-Library.Char_ord" "HOL-Library.Multiset"
begin

text \<open>
  Shared vocabulary of the development: the error values and result type that stand for Go's
  \<open>(value, error)\<close> returns, two's complement wrap-around for Go's \<open>int\<close> and \<open>int64\<close>,
  generic lemmas on lists and association lists, and the \<open>named_theorems\<close> collections
  that the component theories extend and simplify with.
\<close>

named_theorems op_defs \<open>definitions of store operations, unfolded when an operation is analysed\<close>
named_theorems row_simps \<open>rewrite rules on table rows and their setters\<close>

section \<open>Results\<close>

text \<open>
  The errors the source distinguishes by identity (\<open>sql.ErrNoRows\<close>, the sentinels of
  package store, \<open>os.ErrNotExist\<close>) are constructors of their own; a UNIQUE constraint
  failure of the database carries the table's name, and every \<open>fmt.Errorf\<close> is an
  \<open>ErrMsg\<close> with the text that identifies it in the source.
\<close>

datatype go_error =
    ErrNoRows
  | ErrUnique string
  | ErrWrongTenant
  | ErrVersionInDeployment
  | ErrNotExist
  | ErrMsg string

type_synonym 'a res = "go_error + 'a"

definition is_ok :: "'a res \<Rightarrow> bool" where
  "is_ok r = (case r of Inl _ \<Rightarrow> False | Inr _ \<Rightarrow> True)"

lemma is_ok_simps [simp]: "is_ok (Inr x)" "\<not> is_ok (Inl e)"
  by (simp_all add: is_ok_def)

lemma is_ok_iff: "is_ok r \<longleftrightarrow> (\<exists>x. r = Inr x)"
  by (cases r) auto

lemma ok_pair: "is_ok (fst p) \<Longrightarrow> \<exists>x. p = (Inr x, snd p)"
  by (cases p) (auto simp: is_ok_iff)

lemma err_pair: "\<not> is_ok (fst p) \<Longrightarrow> \<exists>e. p = (Inl e, snd p)"
proof (cases p)
  case (Pair r s)
  assume "\<not> is_ok (fst p)"
  with Pair show ?thesis by (cases r) auto
qed

section \<open>Machine integers\<close>

text \<open>Go's \<open>int\<close> and \<open>int64\<close> on a 64-bit platform: arithmetic wraps modulo \<open>2^64\<close>.\<close>

definition max_int64 :: int where
  "max_int64 = 9223372036854775807"

definition wrap64 :: "int \<Rightarrow> int" where
  "wrap64 x = (x + 9223372036854775808) mod 18446744073709551616 - 9223372036854775808"

lemma wrap64_id: "- 9223372036854775808 \<le> x \<Longrightarrow> x \<le> max_int64 \<Longrightarrow> wrap64 x = x"
  by (simp add: wrap64_def max_int64_def)

lemma wrap64_range: "- 9223372036854775808 \<le> wrap64 x \<and> wrap64 x \<le> max_int64"
proof -
  have "0 \<le> (x + 9223372036854775808) mod 18446744073709551616"
    and "(x + 9223372036854775808) mod 18446744073709551616 < 18446744073709551616"
    by simp_all
  then show ?thesis by (simp add: wrap64_def max_int64_def)
qed

section \<open>Lists\<close>

lemma filter_id_conv_all: "(\<And>x. x \<in> set xs \<Longrightarrow> P x) \<Longrightarrow> filter P xs = xs"
  by (induction xs) auto

lemma find_Some_iff2: "find P xs = Some x \<Longrightarrow> P x \<and> x \<in> set xs"
  by (induction xs) (auto split: if_splits)

lemma find_None_all: "find P xs = None \<longleftrightarrow> (\<forall>x\<in>set xs. \<not> P x)"
  by (induction xs) auto

lemma find_append: "find P (xs @ ys) = (case find P xs of None \<Rightarrow> find P ys | Some x \<Rightarrow> Some x)"
  by (induction xs) auto

lemma find_filter_other: "(\<And>x. P x \<Longrightarrow> Q x) \<Longrightarrow> find P (filter Q xs) = find P xs"
  by (induction xs) auto

lemma find_filter_none: "(\<And>x. P x \<Longrightarrow> \<not> Q x) \<Longrightarrow> find P (filter Q xs) = None"
  by (induction xs) auto

lemma find_map: "find P (map f xs) = map_option f (find (P \<circ> f) xs)"
  by (induction xs) auto

lemma find_filter_hd: "find P xs = (case filter P xs of [] \<Rightarrow> None | x # _ \<Rightarrow> Some x)"
  by (induction xs) auto

lemma distinct_map_eq:
  "distinct (map f xs) \<Longrightarrow> x \<in> set xs \<Longrightarrow> y \<in> set xs \<Longrightarrow> f x = f y \<Longrightarrow> x = y"
  by (auto simp: distinct_map inj_on_def)

lemma distinct_same_key: "distinct (map f xs) \<Longrightarrow> (\<And>x. x \<in> set xs \<Longrightarrow> f x = k) \<Longrightarrow> length xs \<le> 1"
proof (cases xs rule: remdups_adj.cases)
  case (3 x y zs)
  assume "distinct (map f xs)" "\<And>x. x \<in> set xs \<Longrightarrow> f x = k"
  with 3 show ?thesis by simp
qed simp_all

lemma find_unique:
  "distinct (map f xs) \<Longrightarrow> x \<in> set xs \<Longrightarrow> find (\<lambda>r. f r = f x) xs = Some x"
  by (induction xs) (auto simp: image_iff)

lemma count_list_distinct: "distinct xs \<Longrightarrow> count_list xs x = (if x \<in> set xs then 1 else 0)"
  by (induction xs) auto

lemma list_all2_left: "list_all2 P xs ys \<Longrightarrow> x \<in> set xs \<Longrightarrow> \<exists>y\<in>set ys. P x y"
  by (induction rule: list_all2_induct) auto

lemma remdups_sort_eq:
  "set xs = set ys \<Longrightarrow> sort (remdups xs) = sort (remdups (ys :: 'a::linorder list))"
  by (metis distinct_remdups distinct_sort set_remdups set_sort sorted_distinct_set_unique
      sorted_sort)

lemma sort_id: "sorted xs \<Longrightarrow> sort xs = (xs :: 'a::linorder list)"
  by (simp add: sorted_sort_id)

lemma sort_Nil_iff [simp]: "sort xs = [] \<longleftrightarrow> xs = ([] :: 'a::linorder list)"
  by (metis set_empty set_sort)

lemma remdups_Nil_iff [simp]: "remdups xs = [] \<longleftrightarrow> xs = []"
  by (metis set_empty set_remdups)

section \<open>Association lists as Go maps\<close>

text \<open>
  A Go map is an association list with distinct keys; the order of the list is one of the
  orders in which a \<open>range\<close> loop may visit the map, so a claim that holds for every list
  holds for every iteration order.  \<open>al_put\<close> overwrites in place or appends.
\<close>

fun al_put :: "'k \<Rightarrow> 'v \<Rightarrow> ('k \<times> 'v) list \<Rightarrow> ('k \<times> 'v) list" where
  "al_put k v [] = [(k, v)]"
| "al_put k v ((k', v') # m) = (if k = k' then (k, v) # m else (k', v') # al_put k v m)"

definition al_del :: "'k \<Rightarrow> ('k \<times> 'v) list \<Rightarrow> ('k \<times> 'v) list" where
  "al_del k m = filter (\<lambda>p. fst p \<noteq> k) m"

abbreviation al_wf :: "('k \<times> 'v) list \<Rightarrow> bool" where
  "al_wf m \<equiv> distinct (map fst m)"

lemma map_of_al_put [simp]: "map_of (al_put k v m) = (map_of m)(k \<mapsto> v)"
  by (induction k v m rule: al_put.induct) (auto simp: fun_eq_iff)

lemma map_of_al_del: "map_of (al_del k m) = (map_of m)(k := None)"
proof (induction m)
  case Nil
  then show ?case by (simp add: al_del_def)
next
  case (Cons p m)
  then show ?case by (cases p) (auto simp: al_del_def fun_eq_iff)
qed

lemma keys_al_put [simp]: "fst ` set (al_put k v m) = insert k (fst ` set m)"
  by (induction k v m rule: al_put.induct) auto

lemma al_wf_put [simp]: "al_wf m \<Longrightarrow> al_wf (al_put k v m)"
  by (induction k v m rule: al_put.induct) (auto simp: image_iff)

lemma al_wf_del [simp]: "al_wf m \<Longrightarrow> al_wf (al_del k m)"
  by (simp add: al_del_def distinct_map_filter)

lemma al_put_not_Nil [simp]: "al_put k v m \<noteq> []"
  by (induction k v m rule: al_put.induct) auto

lemma al_put_same: "map_of m k = Some v \<Longrightarrow> al_wf m \<Longrightarrow> al_put k v m = m"
  by (induction k v m rule: al_put.induct) (auto split: if_splits)

lemma al_put_new: "map_of m k = None \<Longrightarrow> al_put k v m = m @ [(k, v)]"
  by (induction k v m rule: al_put.induct) (auto split: if_splits)

lemma map_keys_al_put:
  "map fst (al_put k v m) = (if k \<in> fst ` set m then map fst m else map fst m @ [k])"
  by (induction k v m rule: al_put.induct) auto

end
