(* ===== verification/GoStrings.thy ===== *)
theory GoStrings
  imports Prelude
begin

text \<open>
  What the source uses of Go's package strings.  A Go string is a sequence of bytes, a
  \<open>string\<close> of HOL.  White space is every UTF-8 sequence that \<open>unicode.IsSpace\<close> accepts;
  case folding is the ASCII part of \<open>strings.ToLower\<close> (letters outside ASCII are kept).
\<close>

section \<open>Prefixes, suffixes, separators\<close>

definition has_prefix :: "string \<Rightarrow> string \<Rightarrow> bool" where
  "has_prefix s p = (take (length p) s = p)"

definition has_suffix :: "string \<Rightarrow> string \<Rightarrow> bool" where
  "has_suffix s p = has_prefix (rev s) (rev p)"

lemma has_prefix_iff: "has_prefix s p \<longleftrightarrow> (\<exists>t. s = p @ t)"
proof
  assume "has_prefix s p"
  then have "s = p @ drop (length p) s"
    unfolding has_prefix_def by (metis append_take_drop_id)
  then show "\<exists>t. s = p @ t" ..
qed (auto simp: has_prefix_def)

lemma has_prefix_append_mono: "has_prefix s p \<Longrightarrow> has_prefix (s @ t) p"
  by (auto simp: has_prefix_iff)

fun split_by :: "(char \<Rightarrow> bool) \<Rightarrow> string \<Rightarrow> string list" where
  "split_by P [] = [[]]"
| "split_by P (c # s) =
     (if P c then [] # split_by P s
      else (case split_by P s of [] \<Rightarrow> [[c]] | w # ws \<Rightarrow> (c # w) # ws))"

abbreviation split_on :: "char \<Rightarrow> string \<Rightarrow> string list" where
  "split_on c \<equiv> split_by (\<lambda>x. x = c)"

text \<open>\<open>strings.FieldsFunc\<close>: maximal runs of bytes that are not separators.\<close>

definition fields_func :: "(char \<Rightarrow> bool) \<Rightarrow> string \<Rightarrow> string list" where
  "fields_func P s = filter (\<lambda>w. w \<noteq> []) (split_by P s)"

fun join_with :: "string \<Rightarrow> string list \<Rightarrow> string" where
  "join_with sep [] = []"
| "join_with sep [w] = w"
| "join_with sep (w # ws) = w @ sep @ join_with sep ws"

lemma split_by_not_Nil [simp]: "split_by P s \<noteq> []"
  by (induction s) (auto split: list.splits)

lemma split_by_clean: "w \<in> set (split_by P s) \<Longrightarrow> c \<in> set w \<Longrightarrow> \<not> P c"
proof (induction s arbitrary: w)
  case (Cons a s)
  then show ?case by (cases "split_by P s") (fastforce split: if_splits)+
qed simp

lemma split_by_none: "(\<forall>c\<in>set w. \<not> P c) \<Longrightarrow> split_by P w = [w]"
  by (induction w) auto

lemma split_by_append_sep:
  "(\<forall>c\<in>set w. \<not> P c) \<Longrightarrow> P c \<Longrightarrow> split_by P (w @ c # s) = w # split_by P s"
  by (induction w) auto

lemma split_by_join:
  assumes "P c" "ws \<noteq> []" "\<forall>w\<in>set ws. \<forall>x\<in>set w. \<not> P x"
  shows "split_by P (join_with [c] ws) = ws"
  using assms
proof (induction "[c]" ws rule: join_with.induct)
  case (3 w v vs)
  then show ?case by (simp add: split_by_append_sep)
qed (auto simp: split_by_none)

lemma join_split_on: "join_with [c] (split_on c s) = s"
proof (induction s)
  case (Cons a s)
  show ?case
  proof (cases "split_on c s")
    case Nil
    then show ?thesis by simp
  next
    case (Cons w ws)
    with Cons.IH show ?thesis by (cases ws) auto
  qed
qed simp

section \<open>White space\<close>

definition space_runes :: "string list" where
  "space_runes =
     [[CHR 0x09], [CHR 0x0A], [CHR 0x0B], [CHR 0x0C], [CHR 0x0D], [CHR 0x20],
      [CHR 0xC2, CHR 0x85], [CHR 0xC2, CHR 0xA0], [CHR 0xE1, CHR 0x9A, CHR 0x80],
      [CHR 0xE2, CHR 0x80, CHR 0x80], [CHR 0xE2, CHR 0x80, CHR 0x81],
      [CHR 0xE2, CHR 0x80, CHR 0x82], [CHR 0xE2, CHR 0x80, CHR 0x83],
      [CHR 0xE2, CHR 0x80, CHR 0x84], [CHR 0xE2, CHR 0x80, CHR 0x85],
      [CHR 0xE2, CHR 0x80, CHR 0x86], [CHR 0xE2, CHR 0x80, CHR 0x87],
      [CHR 0xE2, CHR 0x80, CHR 0x88], [CHR 0xE2, CHR 0x80, CHR 0x89],
      [CHR 0xE2, CHR 0x80, CHR 0x8A], [CHR 0xE2, CHR 0x80, CHR 0xA8],
      [CHR 0xE2, CHR 0x80, CHR 0xA9], [CHR 0xE2, CHR 0x80, CHR 0xAF],
      [CHR 0xE2, CHR 0x81, CHR 0x9F], [CHR 0xE3, CHR 0x80, CHR 0x80]]"

function strip_runes :: "string list \<Rightarrow> string \<Rightarrow> string" where
  "strip_runes ps s =
     (case find (\<lambda>p. p \<noteq> [] \<and> has_prefix s p) ps of
        None \<Rightarrow> s
      | Some p \<Rightarrow> strip_runes ps (drop (length p) s))"
  by pat_completeness auto
termination
proof (relation "measure (\<lambda>(ps, s). length s)", goal_cases)
  case (2 ps s p)
  then have "p \<noteq> []" "has_prefix s p" by (auto dest: find_Some_iff2)
  then show ?case by (auto simp: has_prefix_iff)
qed simp

declare strip_runes.simps [simp del]

definition trim_left :: "string \<Rightarrow> string" where
  "trim_left = strip_runes space_runes"

definition trim_right :: "string \<Rightarrow> string" where
  "trim_right s = rev (strip_runes (map rev space_runes) (rev s))"

definition trim_space :: "string \<Rightarrow> string" where
  "trim_space s = trim_right (trim_left s)"

text \<open>A string is clean when no rune of \<open>ps\<close> starts it; then stripping leaves it alone.\<close>

definition rune_free :: "string list \<Rightarrow> string \<Rightarrow> bool" where
  "rune_free ps s = (\<forall>p\<in>set ps. p \<noteq> [] \<longrightarrow> \<not> has_prefix s p)"

lemma strip_runes_id: "rune_free ps s \<Longrightarrow> strip_runes ps s = s"
proof -
  assume "rune_free ps s"
  then have "find (\<lambda>p. p \<noteq> [] \<and> has_prefix s p) ps = None"
    by (auto simp: find_None_all rune_free_def)
  then show ?thesis by (subst strip_runes.simps) simp
qed

lemma strip_runes_free: "rune_free ps (strip_runes ps s)"
proof (induction ps s rule: strip_runes.induct)
  case (1 ps s)
  show ?case
  proof (cases "find (\<lambda>p. p \<noteq> [] \<and> has_prefix s p) ps")
    case None
    then have "rune_free ps s" by (auto simp: find_None_all rune_free_def)
    with None show ?thesis by (subst strip_runes.simps) simp
  next
    case (Some p)
    with 1 show ?thesis by (subst strip_runes.simps) simp
  qed
qed

lemma strip_runes_suffix: "\<exists>u. s = u @ strip_runes ps s"
proof (induction ps s rule: strip_runes.induct)
  case (1 ps s)
  show ?case
  proof (cases "find (\<lambda>p. p \<noteq> [] \<and> has_prefix s p) ps")
    case None
    then show ?thesis by (subst strip_runes.simps) simp
  next
    case (Some p)
    with 1 obtain u where "drop (length p) s = u @ strip_runes ps (drop (length p) s)"
      by blast
    moreover from Some have "strip_runes ps s = strip_runes ps (drop (length p) s)"
      by (subst strip_runes.simps) simp
    ultimately have "s = (take (length p) s @ u) @ strip_runes ps s"
      by (metis append.assoc append_take_drop_id)
    then show ?thesis ..
  qed
qed

lemma rune_free_prefix: "rune_free ps (s @ t) \<Longrightarrow> rune_free ps s"
  by (auto simp: rune_free_def has_prefix_append_mono)

lemma trim_right_prefix: "\<exists>u. s = trim_right s @ u"
proof -
  obtain u where "rev s = u @ strip_runes (map rev space_runes) (rev s)"
    using strip_runes_suffix by blast
  then have "s = trim_right s @ rev u"
    unfolding trim_right_def by (metis rev_append rev_rev_ident)
  then show ?thesis ..
qed

definition trimmed :: "string \<Rightarrow> bool" where
  "trimmed s = (rune_free space_runes s \<and> rune_free (map rev space_runes) (rev s))"

lemma trimmed_trim_space [simp]: "trimmed (trim_space s)"
proof -
  let ?u = "trim_left s"
  have "rune_free space_runes ?u"
    by (simp add: trim_left_def strip_runes_free)
  moreover obtain v where "?u = trim_right ?u @ v"
    using trim_right_prefix by blast
  ultimately have "rune_free space_runes (trim_right ?u)"
    by (metis rune_free_prefix)
  then show ?thesis
    by (simp add: trimmed_def trim_space_def trim_right_def strip_runes_free)
qed

lemma trim_space_trimmed: "trimmed s \<Longrightarrow> trim_space s = s"
  by (simp add: trimmed_def trim_space_def trim_left_def trim_right_def strip_runes_id)

lemma trim_space_idem [simp]: "trim_space (trim_space s) = trim_space s"
  by (simp add: trim_space_trimmed)

lemma trimmed_Nil [simp]: "trimmed []"
  by (auto simp: trimmed_def rune_free_def has_prefix_def)

lemma trim_space_Nil [simp]: "trim_space [] = []"
  by (simp add: trim_space_trimmed)

lemma set_trim_space: "set (trim_space s) \<subseteq> set s"
proof -
  obtain u where "s = u @ trim_left s"
    using strip_runes_suffix unfolding trim_left_def by blast
  then have "set (trim_left s) \<subseteq> set s"
    by (metis Un_upper2 set_append)
  moreover obtain v where "trim_left s = trim_space s @ v"
    using trim_right_prefix unfolding trim_space_def by blast
  then have "set (trim_space s) \<subseteq> set (trim_left s)"
    by (metis Un_upper1 set_append)
  ultimately show ?thesis by blast
qed

section \<open>Case folding\<close>

definition lower_char :: "char \<Rightarrow> char" where
  "lower_char c = (if 65 \<le> (of_char c :: nat) \<and> (of_char c :: nat) \<le> 90
                   then char_of ((of_char c :: nat) + 32) else c)"

definition lower :: "string \<Rightarrow> string" where
  "lower = map lower_char"

definition is_lower :: "char \<Rightarrow> bool" where
  "is_lower c = (97 \<le> (of_char c :: nat) \<and> (of_char c :: nat) \<le> 122)"

definition is_upper :: "char \<Rightarrow> bool" where
  "is_upper c = (65 \<le> (of_char c :: nat) \<and> (of_char c :: nat) \<le> 90)"

definition is_digit :: "char \<Rightarrow> bool" where
  "is_digit c = (48 \<le> (of_char c :: nat) \<and> (of_char c :: nat) \<le> 57)"

definition is_alnum :: "char \<Rightarrow> bool" where
  "is_alnum c = (is_lower c \<or> is_upper c \<or> is_digit c)"

lemma lower_char_cases:
  "(is_upper c \<and> is_lower (lower_char c)) \<or> (\<not> is_upper c \<and> lower_char c = c)"
  by (auto simp: lower_char_def is_upper_def is_lower_def)

lemma lower_char_not_upper: "\<not> is_upper (lower_char c)"
  by (auto simp: lower_char_def is_upper_def)

lemma lower_char_idem [simp]: "lower_char (lower_char c) = lower_char c"
  using lower_char_cases [of "lower_char c"] lower_char_not_upper [of c] by blast

lemma lower_idem [simp]: "lower (lower s) = lower s"
  by (simp add: lower_def)

lemma lower_Nil_iff [simp]: "lower s = [] \<longleftrightarrow> s = []" "lower [] = []"
  by (simp_all add: lower_def)

lemma lower_char_eq_other: "lower_char c = x \<Longrightarrow> \<not> is_lower x \<Longrightarrow> c = x"
  using lower_char_cases [of c] by auto

lemma lower_map_prefix:
  "map lower_char s = p \<Longrightarrow> \<forall>x\<in>set p. \<not> is_lower x \<Longrightarrow> s = p"
proof (induction s arbitrary: p)
  case (Cons a s)
  then obtain x p' where "p = x # p'" "lower_char a = x" "map lower_char s = p'" by auto
  with Cons.IH [of p'] Cons.prems show ?case
    using lower_char_eq_other [of a x] by simp
qed simp

lemma has_prefix_lower:
  assumes "has_prefix (lower s) p" "\<forall>x\<in>set p. \<not> is_lower x"
  shows "has_prefix s p"
proof -
  have "map lower_char (take (length p) s) = p"
    using assms(1) by (simp add: has_prefix_def lower_def take_map)
  then have "take (length p) s = p" by (rule lower_map_prefix) (rule assms(2))
  then show ?thesis by (simp add: has_prefix_def)
qed

lemma space_runes_not_lower: "p \<in> set space_runes \<Longrightarrow> x \<in> set p \<Longrightarrow> \<not> is_lower x"
  by (auto simp: space_runes_def is_lower_def)

lemma trimmed_lower [simp]: "trimmed s \<Longrightarrow> trimmed (lower s)"
proof -
  assume a: "trimmed s"
  have 1: "\<not> has_prefix (lower s) p" if "p \<in> set space_runes" "p \<noteq> []" for p
    using a that has_prefix_lower [of s p] space_runes_not_lower [of p]
    by (auto simp: trimmed_def rune_free_def)
  have 2: "\<not> has_prefix (lower (rev s)) (rev p)" if "p \<in> set space_runes" "p \<noteq> []" for p
    using a that has_prefix_lower [of "rev s" "rev p"] space_runes_not_lower [of p]
    by (auto simp: trimmed_def rune_free_def)
  show ?thesis
    using 1 2 by (auto simp: trimmed_def rune_free_def lower_def rev_map)
qed

section \<open>Searching and replacing\<close>

fun contains :: "string \<Rightarrow> string \<Rightarrow> bool" where
  "contains [] p = (p = [])"
| "contains (c # s) p = (has_prefix (c # s) p \<or> contains s p)"

text \<open>\<open>strings.ReplaceAll\<close> for a non-empty \<open>old\<close>, and its one-byte case.\<close>

function replace_all :: "string \<Rightarrow> string \<Rightarrow> string \<Rightarrow> string" where
  "replace_all old new s =
     (case s of [] \<Rightarrow> []
      | c # s' \<Rightarrow>
          (if old \<noteq> [] \<and> has_prefix s old then new @ replace_all old new (drop (length old) s)
           else c # replace_all old new s'))"
  by pat_completeness auto
termination
  by (relation "measure (\<lambda>(old, new, s). length s)") auto

declare replace_all.simps [simp del]

definition replace_char :: "char \<Rightarrow> string \<Rightarrow> string \<Rightarrow> string" where
  "replace_char c r s = concat (map (\<lambda>x. if x = c then r else [x]) s)"

lemma replace_char_id: "c \<notin> set s \<Longrightarrow> replace_char c r s = s"
  by (induction s) (auto simp: replace_char_def)

lemma contains_iff: "contains s p \<longleftrightarrow> (\<exists>u v. s = u @ p @ v)"
proof (induction s)
  case Nil
  then show ?case by auto
next
  case (Cons c s)
  have "(\<exists>u v. c # s = u @ p @ v) \<longleftrightarrow> (\<exists>v. c # s = p @ v) \<or> (\<exists>u v. s = u @ p @ v)"
    by (metis append_Cons append_self_conv2 list.exhaust list.sel(3))
  with Cons show ?case by (auto simp: has_prefix_iff)
qed

lemma replace_all_absent: "\<not> contains s old \<Longrightarrow> replace_all old new s = s"
proof (induction s)
  case Nil
  then show ?case by (subst replace_all.simps) simp
next
  case (Cons c s)
  then show ?case by (subst replace_all.simps) auto
qed

text \<open>\<open>strings.Trim(s, cutset)\<close> and \<open>strings.TrimRight(s, "/")\<close>.\<close>

definition trim_right_set :: "char list \<Rightarrow> string \<Rightarrow> string" where
  "trim_right_set cs s = rev (dropWhile (\<lambda>c. c \<in> set cs) (rev s))"

definition trim_set :: "char list \<Rightarrow> string \<Rightarrow> string" where
  "trim_set cs s = trim_right_set cs (dropWhile (\<lambda>c. c \<in> set cs) s)"

text \<open>\<open>strings.SplitN(s, sep, 2)\<close>: the text before and after the first \<open>sep\<close>, if any.\<close>

fun cut :: "string \<Rightarrow> string \<Rightarrow> (string \<times> string) option" where
  "cut sep [] = (if sep = [] then Some ([], []) else None)"
| "cut sep (c # s) =
     (if has_prefix (c # s) sep then Some ([], drop (length sep) (c # s))
      else map_option (\<lambda>(a, b). (c # a, b)) (cut sep s))"

lemma cut_Some: "cut sep s = Some (a, b) \<Longrightarrow> s = a @ sep @ b"
proof (induction s arbitrary: a)
  case (Cons c s)
  then show ?case
    by (auto split: if_splits simp: has_prefix_iff)
qed (auto split: if_splits)

lemma cut_None_iff: "cut sep s = None \<longleftrightarrow> \<not> contains s sep"
  by (induction s) auto

section \<open>Decimal numbers\<close>

fun show_nat :: "nat \<Rightarrow> string" where
  "show_nat n = (if n < 10 then [char_of (48 + n)]
                 else show_nat (n div 10) @ [char_of (48 + n mod 10)])"

declare show_nat.simps [simp del]

definition show_int :: "int \<Rightarrow> string" where
  "show_int i = (if i < 0 then CHR 0x2D # show_nat (nat (- i)) else show_nat (nat i))"

definition digit_val :: "char \<Rightarrow> nat" where
  "digit_val c = of_char c - 48"

definition read_nat :: "string \<Rightarrow> nat" where
  "read_nat s = foldl (\<lambda>a c. 10 * a + digit_val c) 0 s"

lemma show_nat_digits: "c \<in> set (show_nat n) \<Longrightarrow> is_digit c"
proof (induction n rule: show_nat.induct)
  case (1 n)
  show ?case
  proof (cases "n < 10")
    case True
    with "1.prems" show ?thesis
      by (subst (asm) show_nat.simps) (auto simp: is_digit_def)
  next
    case False
    have "n mod 10 < 10" by simp
    with False 1 show ?thesis
      by (subst (asm) (2) show_nat.simps) (auto simp: is_digit_def)
  qed
qed

lemma show_nat_not_Nil [simp]: "show_nat n \<noteq> []"
  by (subst show_nat.simps) simp

lemma read_show_nat [simp]: "read_nat (show_nat n) = n"
proof (induction n rule: show_nat.induct)
  case (1 n)
  show ?case
  proof (cases "n < 10")
    case True
    then show ?thesis by (subst show_nat.simps) (simp add: read_nat_def digit_val_def)
  next
    case False
    have small: "n mod 10 < 10" by simp
    from False have "show_nat n = show_nat (n div 10) @ [char_of (48 + n mod 10)]"
      by (subst show_nat.simps) simp
    moreover have "read_nat (show_nat (n div 10)) = n div 10" using 1 False by simp
    ultimately show ?thesis using small by (simp add: read_nat_def digit_val_def)
  qed
qed

lemma show_nat_inject [simp]: "show_nat m = show_nat n \<longleftrightarrow> m = n"
  by (metis read_show_nat)

end
