(* ===== verification/FileTags.thy ===== *)
theory FileTags
  imports GoStrings
begin

text \<open>
  Package filetags (\<open>internal/filetags/tags.go\<close>): the platform tags of a version's files.
  The set \<open>seen\<close> of the source is the list of its tags; it is read only through membership
  and through the sorted, duplicate-free list at the end.
\<close>

definition AllTag :: string where
  "AllTag = ''*''"

definition AllAlias :: string where
  "AllAlias = ''all''"

definition tag_sep :: "char \<Rightarrow> bool" where
  "tag_sep r = (r = CHR '','' \<or> r = CHR '';'' \<or> r = CHR 0x0A \<or> r = CHR 0x09 \<or> r = CHR '' '')"

definition fold_tag :: "string \<Rightarrow> string" where
  "fold_tag part = (let tag = lower (trim_space part) in if tag = AllAlias then AllTag else tag)"

definition seen_tags :: "string list \<Rightarrow> string list" where
  "seen_tags input =
     filter (\<lambda>t. t \<noteq> []) (map fold_tag (concat (map (fields_func tag_sep) input)))"

definition Normalize :: "string list \<Rightarrow> string list" where
  "Normalize input =
     (let seen = seen_tags input
      in if seen = [] then [AllTag]
         else if AllTag \<in> set seen then [AllTag]
         else sort (remdups seen))"

definition Join :: "string list \<Rightarrow> string" where
  "Join tags = join_with '','' (Normalize tags)"

definition Split :: "string \<Rightarrow> string list" where
  "Split s = Normalize [s]"

definition Target :: "string \<Rightarrow> string \<Rightarrow> string list \<Rightarrow> string list" where
  "Target osName arch extra =
     (let os = lower (trim_space osName); ar = lower (trim_space arch);
          tags = extra @ (if os \<noteq> [] then [os] else []) @ (if ar \<noteq> [] then [ar] else [])
                 @ (if os \<noteq> [] \<and> ar \<noteq> [] then [os @ ''-'' @ ar] else [])
      in Normalize tags)"

definition Matches :: "string list \<Rightarrow> string list \<Rightarrow> bool" where
  "Matches fileTags targetTags =
     list_ex (\<lambda>tag. tag = AllTag \<or> list_ex (\<lambda>target. tag = target) targetTags) (Normalize fileTags)"

section \<open>Canonical form\<close>

text \<open>A canonical tag is what \<open>seen\<close> may hold.\<close>

definition canonical_tag :: "string \<Rightarrow> bool" where
  "canonical_tag t = (t \<noteq> [] \<and> trimmed t \<and> lower t = t \<and> t \<noteq> AllAlias \<and> (\<forall>c\<in>set t. \<not> tag_sep c))"

lemma tag_sep_not_lower: "tag_sep c \<Longrightarrow> \<not> is_lower c \<and> \<not> is_upper c"
  by (auto simp: tag_sep_def is_lower_def is_upper_def)

lemma tag_sep_lower_char: "tag_sep (lower_char c) \<longleftrightarrow> tag_sep c"
  using lower_char_cases [of c] tag_sep_not_lower [of c] tag_sep_not_lower [of "lower_char c"] by auto

lemma All_canonical: "canonical_tag AllTag"
  by (auto simp: canonical_tag_def AllTag_def AllAlias_def trimmed_def rune_free_def space_runes_def
      has_prefix_def lower_def lower_char_def tag_sep_def)

lemma fold_tag_canonical:
  assumes "\<forall>c\<in>set part. \<not> tag_sep c" and "fold_tag part \<noteq> []"
  shows "canonical_tag (fold_tag part)"
proof -
  have "\<forall>c\<in>set (lower (trim_space part)). \<not> tag_sep c"
    using assms(1) set_trim_space [of part] by (auto simp: lower_def tag_sep_lower_char)
  with assms(2) All_canonical show ?thesis
    by (auto simp: fold_tag_def canonical_tag_def Let_def)
qed

lemma fold_tag_id: "canonical_tag t \<Longrightarrow> fold_tag t = t"
  by (simp add: fold_tag_def canonical_tag_def trim_space_trimmed Let_def)

lemma seen_tags_canonical: "t \<in> set (seen_tags input) \<Longrightarrow> canonical_tag t"
  by (auto simp: seen_tags_def fields_func_def intro!: fold_tag_canonical dest: split_by_clean)

lemma fields_canonical: "canonical_tag t \<Longrightarrow> fields_func tag_sep t = [t]"
  by (simp add: fields_func_def canonical_tag_def split_by_none)

lemma seen_tags_id: "\<forall>t\<in>set ts. canonical_tag t \<Longrightarrow> seen_tags ts = ts"
  by (induction ts) (auto simp: seen_tags_def fields_canonical fold_tag_id canonical_tag_def)

lemma Normalize_canonical: "t \<in> set (Normalize input) \<Longrightarrow> canonical_tag t"
  using seen_tags_canonical All_canonical by (auto simp: Normalize_def Let_def split: if_splits)

lemma Normalize_not_Nil [simp]: "Normalize input \<noteq> []"
  by (simp add: Normalize_def Let_def)

lemma seen_tags_Normalize: "seen_tags (Normalize input) = Normalize input"
  by (rule seen_tags_id) (auto dest: Normalize_canonical)

lemma set_Normalize:
  "set (Normalize input) =
     (if seen_tags input = [] \<or> AllTag \<in> set (seen_tags input) then {AllTag} else set (seen_tags input))"
  by (auto simp: Normalize_def Let_def)

lemma Normalize_sorted: "sorted (Normalize input) \<and> distinct (Normalize input)"
  by (simp add: Normalize_def Let_def)

lemma Normalize_of_seen:
  "Normalize input = (if seen_tags input = [] then [AllTag]
     else if AllTag \<in> set (seen_tags input) then [AllTag] else sort (remdups (seen_tags input)))"
  by (simp add: Normalize_def Let_def)

lemma AllTag_in_Normalize: "AllTag \<in> set (Normalize input) \<longleftrightarrow> Normalize input = [AllTag]"
proof
  assume a: "AllTag \<in> set (Normalize input)"
  show "Normalize input = [AllTag]"
  proof (cases "AllTag \<in> set (seen_tags input) \<or> seen_tags input = []")
    case True
    then show ?thesis by (auto simp: Normalize_of_seen)
  next
    case False
    with a show ?thesis by (simp add: Normalize_of_seen)
  qed
qed simp

lemma Normalize_fixed:
  assumes "\<forall>t\<in>set ts. canonical_tag t" "sorted ts" "distinct ts" "ts \<noteq> []"
    and "AllTag \<in> set ts \<longrightarrow> ts = [AllTag]"
  shows "Normalize ts = ts"
  using assms by (auto simp: Normalize_of_seen seen_tags_id distinct_remdups_id sort_id)

lemma Normalize_idem: "Normalize (Normalize input) = Normalize input"
  by (rule Normalize_fixed)
    (use Normalize_sorted [of input] AllTag_in_Normalize [of input] in \<open>auto dest: Normalize_canonical\<close>)

lemma Normalize_cong_set:
  "set (seen_tags xs) = set (seen_tags ys) \<Longrightarrow> Normalize xs = Normalize ys"
proof -
  assume eq: "set (seen_tags xs) = set (seen_tags ys)"
  then have "seen_tags xs = [] \<longleftrightarrow> seen_tags ys = []" by (metis set_empty)
  with eq show ?thesis unfolding Normalize_of_seen using remdups_sort_eq [OF eq] by simp
qed

lemma seen_tags_append: "seen_tags (xs @ ys) = seen_tags xs @ seen_tags ys"
  by (simp add: seen_tags_def)

lemma seen_tags_Join: "seen_tags [Join tags] = Normalize tags"
proof -
  have "fields_func tag_sep (Join tags) = Normalize tags"
    unfolding fields_func_def Join_def
    by (subst split_by_join) (auto simp: tag_sep_def canonical_tag_def
        intro!: filter_id_conv_all dest!: Normalize_canonical)
  then have "seen_tags [Join tags] = filter (\<lambda>t. t \<noteq> []) (map fold_tag (Normalize tags))"
    by (simp add: seen_tags_def)
  also have "map fold_tag (Normalize tags) = Normalize tags"
    by (rule map_idI) (auto dest: Normalize_canonical simp: fold_tag_id)
  also have "filter (\<lambda>t. t \<noteq> []) (Normalize tags) = Normalize tags"
    by (rule filter_id_conv_all) (auto dest: Normalize_canonical simp: canonical_tag_def)
  finally show ?thesis .
qed

lemma Split_Join_eq: "Split (Join tags) = Normalize tags"
  using seen_tags_Normalize [of tags] seen_tags_Join [of tags] Normalize_idem [of tags]
    Normalize_cong_set [of "[Join tags]" "Normalize tags"]
  by (simp add: Split_def)

section \<open>Matching\<close>

lemma Matches_iff:
  "Matches fileTags targets \<longleftrightarrow>
     Normalize fileTags = [AllTag] \<or> (\<exists>t\<in>set (Normalize fileTags). t \<in> set targets)"
  using AllTag_in_Normalize [of fileTags] by (auto simp: Matches_def list_ex_iff)

lemma Matches_untagged: "Matches [] targets"
  by (simp add: Matches_iff Normalize_of_seen seen_tags_def)

end
