(* ===== verification/Tables.thy ===== *)
theory Tables
  imports Prelude "HOL-Library.Option_ord"
begin

text \<open>
  The part of SQL that the statements of package store rely on.  A table is the list of its rows in
  rowid order together with the next AUTOINCREMENT value; the functions are the four statements
  INSERT, UPDATE ... WHERE, DELETE ... WHERE and SELECT ... WHERE.  Uniqueness constraints are
  checked as SQLite does, failing the statement and leaving the table as it was.  Faults of the
  database engine itself (I/O, locking) are not modelled.

  The locales state what every AUTOINCREMENT table and every UNIQUE index promises; each table of
  the store interprets them.
\<close>

section \<open>Statements\<close>

record 'r table =
  trows :: "'r list"
  tnext :: int

definition empty_table :: "'r table" where
  "empty_table = \<lparr>trows = [], tnext = 1\<rparr>"

definition tbl_insert ::
  "('r \<Rightarrow> 'r \<Rightarrow> bool) \<Rightarrow> (int \<Rightarrow> 'r \<Rightarrow> 'r) \<Rightarrow> string \<Rightarrow> 'r \<Rightarrow> 'r table \<Rightarrow> int res \<times> 'r table"
where
  "tbl_insert conflict set_id name r t =
     (if list_ex (conflict r) (trows t) then (Inl (ErrUnique name), t)
      else (Inr (tnext t), \<lparr>trows = trows t @ [set_id (tnext t) r], tnext = tnext t + 1\<rparr>))"

definition tbl_update :: "('r \<Rightarrow> bool) \<Rightarrow> ('r \<Rightarrow> 'r) \<Rightarrow> 'r table \<Rightarrow> nat \<times> 'r table" where
  "tbl_update P f t =
     (length (filter P (trows t)), t\<lparr>trows := map (\<lambda>r. if P r then f r else r) (trows t)\<rparr>)"

definition tbl_delete :: "('r \<Rightarrow> bool) \<Rightarrow> 'r table \<Rightarrow> nat \<times> 'r table" where
  "tbl_delete P t = (length (filter P (trows t)), t\<lparr>trows := filter (\<lambda>r. \<not> P r) (trows t)\<rparr>)"

definition tbl_select :: "('r \<Rightarrow> bool) \<Rightarrow> 'r table \<Rightarrow> 'r list" where
  "tbl_select P t = filter P (trows t)"

text \<open>\<open>QueryRow(...).Scan\<close>: the first row, or \<open>sql.ErrNoRows\<close>.\<close>

definition tbl_row :: "('r \<Rightarrow> bool) \<Rightarrow> 'r table \<Rightarrow> 'r res" where
  "tbl_row P t = (case find P (trows t) of None \<Rightarrow> Inl ErrNoRows | Some r \<Rightarrow> Inr r)"

text \<open>An UPDATE that may violate a UNIQUE index: the whole statement fails.\<close>

fun conflict_free :: "('r \<Rightarrow> 'r \<Rightarrow> bool) \<Rightarrow> 'r list \<Rightarrow> bool" where
  "conflict_free c [] = True"
| "conflict_free c (r # rs) = (\<not> list_ex (c r) rs \<and> conflict_free c rs)"

definition tbl_update_checked ::
  "('r \<Rightarrow> 'r \<Rightarrow> bool) \<Rightarrow> string \<Rightarrow> ('r \<Rightarrow> bool) \<Rightarrow> ('r \<Rightarrow> 'r) \<Rightarrow> 'r table \<Rightarrow> nat res \<times> 'r table"
where
  "tbl_update_checked conflict name P f t =
     (let (n, t') = tbl_update P f t
      in if conflict_free conflict (trows t') then (Inr n, t') else (Inl (ErrUnique name), t))"

text \<open>\<open>LIMIT n\<close> with the clamp every list operation of the store applies first.\<close>

definition clamp_limit :: "int \<Rightarrow> int \<Rightarrow> int \<Rightarrow> nat" where
  "clamp_limit lo hi limit = (if limit \<le> 0 \<or> limit > hi then nat lo else nat limit)"

lemma clamp_limit_bounds: "0 < lo \<Longrightarrow> lo \<le> hi \<Longrightarrow> 0 < clamp_limit lo hi n \<and> int (clamp_limit lo hi n) \<le> hi"
  by (auto simp: clamp_limit_def)

section \<open>Generic facts\<close>

lemma tbl_row_Inr: "tbl_row P t = Inr r \<Longrightarrow> P r \<and> r \<in> set (trows t)"
  by (auto simp: tbl_row_def dest: find_Some_iff2 split: option.splits)

lemma tbl_row_Inl: "tbl_row P t = Inl e \<Longrightarrow> e = ErrNoRows \<and> (\<forall>r\<in>set (trows t). \<not> P r)"
  by (auto simp: tbl_row_def find_None_all split: option.splits)

lemma tbl_row_none: "(\<forall>r\<in>set (trows t). \<not> P r) \<Longrightarrow> tbl_row P t = Inl ErrNoRows"
  by (simp add: tbl_row_def find_None_all [THEN iffD2])

lemma tbl_row_ex: "r \<in> set (trows t) \<Longrightarrow> P r \<Longrightarrow> \<exists>r'. tbl_row P t = Inr r'"
  by (auto simp: tbl_row_def find_None_all split: option.splits)

lemma set_tbl_select [simp]: "set (tbl_select P t) = {r \<in> set (trows t). P r}"
  by (simp add: tbl_select_def)

lemma trows_tbl_update [simp]:
  "trows (snd (tbl_update P f t)) = map (\<lambda>r. if P r then f r else r) (trows t)"
  "tnext (snd (tbl_update P f t)) = tnext t"
  by (simp_all add: tbl_update_def)

lemma trows_tbl_delete [simp]:
  "trows (snd (tbl_delete P t)) = filter (\<lambda>r. \<not> P r) (trows t)"
  "tnext (snd (tbl_delete P t)) = tnext t"
  by (simp_all add: tbl_delete_def)

lemma fst_tbl_update: "fst (tbl_update P f t) = length (tbl_select P t)"
  by (simp add: tbl_update_def tbl_select_def)

lemma fst_tbl_delete: "fst (tbl_delete P t) = length (tbl_select P t)"
  by (simp add: tbl_delete_def tbl_select_def)

lemma tbl_delete_zero: "fst (tbl_delete P t) = 0 \<Longrightarrow> snd (tbl_delete P t) = t"
  by (auto simp: tbl_delete_def filter_empty_conv intro!: filter_id_conv_all)

lemma tbl_insert_cases:
  assumes "tbl_insert c s n r t = (res, t')"
  obtains (conflict) "res = Inl (ErrUnique n)" "t' = t" "list_ex (c r) (trows t)"
  | (ok) "res = Inr (tnext t)" "trows t' = trows t @ [s (tnext t) r]" "tnext t' = tnext t + 1"
      "\<not> list_ex (c r) (trows t)"
  using assms by (auto simp: tbl_insert_def split: if_splits)

lemma conflict_free_iff: "conflict_free c rs \<longleftrightarrow> sorted_wrt (\<lambda>a b. \<not> c a b) rs"
  by (induction rs) (auto simp: list_ex_iff)

section \<open>AUTOINCREMENT tables\<close>

text \<open>Row ids ascend along the table and stay below the next value, so no id is handed out twice.\<close>

definition tbl_ok :: "('r \<Rightarrow> int) \<Rightarrow> 'r table \<Rightarrow> bool" where
  "tbl_ok rid t =
     (sorted_wrt (<) (map rid (trows t)) \<and> (\<forall>r\<in>set (trows t). 0 < rid r \<and> rid r < tnext t) \<and> 0 < tnext t)"

locale autoinc =
  fixes rid :: "'r \<Rightarrow> int" and set_rid :: "int \<Rightarrow> 'r \<Rightarrow> 'r"
  assumes rid_set_rid: "rid (set_rid i r) = i"
begin

lemma ok_empty: "tbl_ok rid empty_table"
  by (simp add: tbl_ok_def empty_table_def)

lemma ok_insert: "tbl_ok rid t \<Longrightarrow> tbl_ok rid (snd (tbl_insert c set_rid n r t))"
  by (auto simp: tbl_insert_def tbl_ok_def rid_set_rid sorted_wrt_append)

lemma ok_update:
  assumes "tbl_ok rid t" "\<And>r. rid (f r) = rid r"
  shows "tbl_ok rid (snd (tbl_update P f t))"
proof -
  have "map rid (map (\<lambda>r. if P r then f r else r) (trows t)) = map rid (trows t)"
    using assms(2) by simp
  then show ?thesis using assms unfolding tbl_ok_def by (auto simp del: map_map)
qed

lemma ok_update_checked:
  "tbl_ok rid t \<Longrightarrow> (\<And>r. rid (f r) = rid r) \<Longrightarrow> tbl_ok rid (snd (tbl_update_checked c n P f t))"
  using ok_update [of t f P] by (auto simp: tbl_update_checked_def split: prod.splits)

lemma ok_delete: "tbl_ok rid t \<Longrightarrow> tbl_ok rid (snd (tbl_delete P t))"
  by (auto simp: tbl_ok_def sorted_wrt_filter sorted_wrt_map)

lemma ids_distinct: "tbl_ok rid t \<Longrightarrow> distinct (map rid (trows t))"
  by (simp add: tbl_ok_def strict_sorted_iff)

lemma id_unique:
  "tbl_ok rid t \<Longrightarrow> r \<in> set (trows t) \<Longrightarrow> r' \<in> set (trows t) \<Longrightarrow> rid r = rid r' \<Longrightarrow> r = r'"
  using distinct_map_eq [OF ids_distinct] by blast

lemma row_by_id: "tbl_ok rid t \<Longrightarrow> r \<in> set (trows t) \<Longrightarrow> tbl_row (\<lambda>x. rid x = rid r) t = Inr r"
  using find_unique [OF ids_distinct, of t r] by (simp add: tbl_row_def)

lemma row_by_id_and:
  assumes "tbl_ok rid t" "r \<in> set (trows t)" "P r" "\<And>x. P x \<Longrightarrow> rid x = rid r"
  shows "tbl_row P t = Inr r"
proof -
  obtain r' where r': "tbl_row P t = Inr r'" using tbl_row_ex [of r t P] assms(2,3) by blast
  then have "P r'" "r' \<in> set (trows t)" by (auto dest: tbl_row_Inr)
  with assms id_unique have "r' = r" by metis
  with r' show ?thesis by simp
qed

lemma update_one:
  assumes "tbl_ok rid t" "r \<in> set (trows t)" "P r" "\<And>x. x \<in> set (trows t) \<Longrightarrow> P x \<Longrightarrow> rid x = rid r"
  shows "tbl_update P f t = (1, t\<lparr>trows := map (\<lambda>x. if rid x = rid r then f x else x) (trows t)\<rparr>)"
proof -
  have P: "P x \<longleftrightarrow> rid x = rid r" if "x \<in> set (trows t)" for x
    using assms that id_unique [OF assms(1) that assms(2)] by metis
  have "filter P (trows t) = filter (\<lambda>x. rid x = rid r) (trows t)"
    by (rule filter_cong) (use P in auto)
  moreover have "length (filter (\<lambda>x. rid x = k) xs) = 1" if "distinct (map rid xs)" "k \<in> rid ` set xs" for k xs
    using that by (induction xs) (auto simp: filter_empty_conv image_iff)
  ultimately have "length (filter P (trows t)) = 1"
    using ids_distinct [OF assms(1)] assms(2) by auto
  then show ?thesis using P by (simp add: tbl_update_def)
qed

lemma insert_fresh:
  "tbl_ok rid t \<Longrightarrow> tbl_insert c set_rid n r t = (Inr i, t') \<Longrightarrow> i \<notin> rid ` set (trows t) \<and> 0 < i"
  by (auto simp: tbl_insert_def tbl_ok_def split: if_splits)

lemma insert_lookup:
  assumes "tbl_ok rid t" "tbl_insert c set_rid n r t = (Inr i, t')"
  shows "set_rid i r \<in> set (trows t') \<and> tbl_row (\<lambda>x. rid x = i) t' = Inr (set_rid i r)"
proof -
  have "tbl_ok rid t'" using ok_insert [OF assms(1), of c n r] assms(2) by simp
  moreover have "set_rid i r \<in> set (trows t')"
    using assms(2) by (auto simp: tbl_insert_def split: if_splits)
  ultimately show ?thesis using row_by_id [of t' "set_rid i r"] by (simp add: rid_set_rid)
qed

end

section \<open>UNIQUE indexes\<close>

text \<open>
  A (possibly partial) UNIQUE index: rows whose key is \<open>None\<close> are not in the index, two rows with the
  same key conflict.
\<close>

definition tbl_uniq :: "('r \<Rightarrow> 'k option) \<Rightarrow> 'r table \<Rightarrow> bool" where
  "tbl_uniq ukey t = distinct (map ukey (filter (\<lambda>r. ukey r \<noteq> None) (trows t)))"

locale unique_index = autoinc rid set_rid
  for rid :: "'r \<Rightarrow> int" and set_rid :: "int \<Rightarrow> 'r \<Rightarrow> 'r" +
  fixes ukey :: "'r \<Rightarrow> 'k option" and conflict :: "'r \<Rightarrow> 'r \<Rightarrow> bool"
  assumes ukey_set_rid: "ukey (set_rid i r) = ukey r"
    and ukey_conflict: "ukey r \<noteq> None \<Longrightarrow> ukey r = ukey r' \<Longrightarrow> conflict r r'"
begin

lemma uniq_empty: "tbl_uniq ukey empty_table"
  by (simp add: tbl_uniq_def empty_table_def)

lemma uniq_insert: "tbl_uniq ukey t \<Longrightarrow> tbl_uniq ukey (snd (tbl_insert conflict set_rid n r t))"
proof (cases "list_ex (conflict r) (trows t) \<or> ukey r = None")
  case True
  assume "tbl_uniq ukey t"
  with True show ?thesis by (auto simp: tbl_insert_def tbl_uniq_def ukey_set_rid)
next
  case False
  assume "tbl_uniq ukey t"
  moreover have "\<forall>r'\<in>set (trows t). ukey r' \<noteq> ukey r"
    using False ukey_conflict [of r] by (metis list_ex_iff)
  ultimately show ?thesis using False
    by (auto simp: tbl_insert_def tbl_uniq_def ukey_set_rid)
qed

lemma uniq_delete: "tbl_uniq ukey t \<Longrightarrow> tbl_uniq ukey (snd (tbl_delete P t))"
proof -
  assume "tbl_uniq ukey t"
  then have "distinct (map ukey (filter (\<lambda>r. \<not> P r) (filter (\<lambda>r. ukey r \<noteq> None) (trows t))))"
    unfolding tbl_uniq_def by (rule distinct_map_filter)
  then show ?thesis by (simp add: tbl_uniq_def conj_commute filter_filter)
qed

lemma uniq_update:
  assumes "tbl_uniq ukey t" "\<And>r. ukey (f r) = ukey r"
  shows "tbl_uniq ukey (snd (tbl_update P f t))"
proof -
  have "map ukey (filter (\<lambda>r. ukey r \<noteq> None) (map (\<lambda>r. if P r then f r else r) (trows t)))
        = filter (\<lambda>k. k \<noteq> None) (map ukey (map (\<lambda>r. if P r then f r else r) (trows t)))"
    by (simp add: filter_map o_def)
  also have "map ukey (map (\<lambda>r. if P r then f r else r) (trows t)) = map ukey (trows t)"
    using assms(2) by simp
  also have "filter (\<lambda>k. k \<noteq> None) (map ukey (trows t)) = map ukey (filter (\<lambda>r. ukey r \<noteq> None) (trows t))"
    by (simp add: filter_map o_def)
  finally show ?thesis using assms(1) by (simp add: tbl_uniq_def)
qed

lemma uniq_rows:
  assumes "tbl_uniq ukey t" "r \<in> set (trows t)" "r' \<in> set (trows t)" "ukey r = Some k" "ukey r' = Some k"
  shows "r = r'"
  using assms distinct_map_eq [of ukey "filter (\<lambda>r. ukey r \<noteq> None) (trows t)" r r']
  by (simp add: tbl_uniq_def)

lemma uniq_row:
  assumes "tbl_uniq ukey t" "r \<in> set (trows t)" "ukey r = Some k"
  shows "tbl_row (\<lambda>x. ukey x = Some k) t = Inr r"
proof -
  obtain r' where r': "tbl_row (\<lambda>x. ukey x = Some k) t = Inr r'"
    using tbl_row_ex [of r t "\<lambda>x. ukey x = Some k"] assms(2,3) by blast
  then have "ukey r' = Some k" "r' \<in> set (trows t)" by (auto dest: tbl_row_Inr)
  with uniq_rows [OF assms(1) assms(2) _ assms(3)] have "r = r'" by blast
  with r' show ?thesis by simp
qed

lemma insert_rejects_duplicate:
  assumes "r' \<in> set (trows t)" "ukey r \<noteq> None" "ukey r' = ukey r"
  shows "tbl_insert conflict set_rid n r t = (Inl (ErrUnique n), t)"
proof -
  have "conflict r r'" by (rule ukey_conflict [OF assms(2) assms(3) [symmetric]])
  with assms(1) have "list_ex (conflict r) (trows t)" unfolding list_ex_iff by blast
  then show ?thesis by (simp add: tbl_insert_def)
qed

end

end
