(* ===== verification/Paths.thy ===== *)
theory Paths
  imports GoStrings
begin

text \<open>
  What the source uses of Go's path/filepath (and path) on a POSIX system, where
  \<open>FromSlash\<close> and \<open>ToSlash\<close> are the identity: \<open>Clean\<close>, \<open>Join\<close>, \<open>Base\<close>, \<open>Ext\<close>.
  On top of them the guards that keep uploaded and extracted files inside their directory:
  \<open>SafeJoinVersion\<close> (\<open>internal/store/files.go\<close>) and \<open>safeExtractPath\<close>
  (\<open>internal/pull/bundle.go\<close>).
\<close>

section \<open>Clean and Join\<close>

abbreviation slash :: char where
  "slash \<equiv> CHR ''/''"

definition is_abs :: "string \<Rightarrow> bool" where
  "is_abs p = has_prefix p ''/''"

definition raw_comps :: "string \<Rightarrow> string list" where
  "raw_comps p = filter (\<lambda>w. w \<noteq> [] \<and> w \<noteq> ''.'') (split_on slash p)"

text \<open>
  The lexical walk of \<open>Clean\<close>: the second list is the cleaned prefix in reverse, \<open>rooted\<close> says
  whether the path starts with a slash.
\<close>

fun walk :: "bool \<Rightarrow> string list \<Rightarrow> string list \<Rightarrow> string list" where
  "walk rooted [] st = rev st"
| "walk rooted (w # ws) st =
     (if w = ''..'' then
        (case st of
           t # ts \<Rightarrow> if t \<noteq> ''..'' then walk rooted ws ts else walk rooted ws (w # st)
         | [] \<Rightarrow> if rooted then walk rooted ws [] else walk rooted ws [w])
      else walk rooted ws (w # st))"

definition path_comps :: "string \<Rightarrow> string list" where
  "path_comps p = walk (is_abs p) (raw_comps p) []"

definition render :: "bool \<Rightarrow> string list \<Rightarrow> string" where
  "render rooted ws =
     (if rooted then slash # join_with ''/'' ws else if ws = [] then ''.'' else join_with ''/'' ws)"

definition path_clean :: "string \<Rightarrow> string" where
  "path_clean p = render (is_abs p) (path_comps p)"

definition path_join :: "string \<Rightarrow> string \<Rightarrow> string" where
  "path_join a b =
     (if a \<noteq> [] then path_clean (a @ ''/'' @ b) else if b \<noteq> [] then path_clean b else [])"

text \<open>A path component: no slash in it, not empty, not a dot.\<close>

definition comp_ok :: "string \<Rightarrow> bool" where
  "comp_ok w = (w \<noteq> [] \<and> w \<noteq> ''.'' \<and> slash \<notin> set w)"

lemma raw_comps_ok: "w \<in> set (raw_comps p) \<Longrightarrow> comp_ok w"
  by (auto simp: raw_comps_def comp_ok_def dest: split_by_clean)

lemma walk_subset: "set (walk r ws st) \<subseteq> set ws \<union> set st"
  by (induction r ws st rule: walk.induct) (auto split: list.splits if_splits)

lemma path_comps_ok: "w \<in> set (path_comps p) \<Longrightarrow> comp_ok w"
  using walk_subset raw_comps_ok unfolding path_comps_def by fastforce

lemma walk_rooted_no_up: "''..'' \<notin> set st \<Longrightarrow> ''..'' \<notin> set (walk True ws st)"
  by (induction True ws st rule: walk.induct) (auto split: list.splits if_splits)

lemma walk_plain: "''..'' \<notin> set ws \<Longrightarrow> walk r ws st = rev st @ ws"
  by (induction r ws st rule: walk.induct) (auto split: list.splits)

lemma walk_append_plain:
  "walk r (ws @ vs) st = walk r vs (rev (walk r ws st))"
  by (induction r ws st rule: walk.induct) (auto split: list.splits)

lemma split_join_comps:
  assumes "\<forall>w\<in>set ws. slash \<notin> set w" "ws \<noteq> []"
  shows "split_on slash (join_with ''/'' ws) = ws"
  using assms by (intro split_by_join) auto

lemma split_on_append:
  "split_on c (s @ c # t) = split_on c s @ split_on c t"
proof (induction s)
  case (Cons a s)
  then show ?case by (cases "split_on c s") auto
qed simp

lemma raw_comps_append: "raw_comps (a @ ''/'' @ b) = raw_comps a @ raw_comps b"
  using split_on_append [of slash a b] by (simp add: raw_comps_def)

lemma raw_comps_Nil [simp]: "raw_comps [] = []"
  by (simp add: raw_comps_def)

lemma raw_comps_slash: "raw_comps (slash # s) = raw_comps s"
  using raw_comps_append [of "[]" s] by simp

lemma raw_comps_join: "\<forall>w\<in>set ws. comp_ok w \<Longrightarrow> raw_comps (join_with ''/'' ws) = ws"
proof (cases "ws = []")
  case False
  assume "\<forall>w\<in>set ws. comp_ok w"
  with False show ?thesis
    unfolding raw_comps_def
    by (subst split_join_comps) (auto simp: comp_ok_def intro!: filter_id_conv_all)
qed simp

lemma raw_comps_render: "\<forall>w\<in>set ws. comp_ok w \<Longrightarrow> raw_comps (render r ws) = ws"
  by (auto simp: render_def raw_comps_slash raw_comps_join) (simp add: raw_comps_def)

lemma is_abs_simps [simp]: "is_abs (slash # s)" "\<not> is_abs []"
  by (simp_all add: is_abs_def has_prefix_def)

lemma is_abs_append: "a \<noteq> [] \<Longrightarrow> is_abs (a @ b) = is_abs a"
  by (cases a) (simp_all add: is_abs_def has_prefix_def)

lemma is_abs_join: "\<forall>w\<in>set ws. comp_ok w \<Longrightarrow> \<not> is_abs (join_with ''/'' ws)"
proof (cases ws)
  case (Cons w ws')
  assume "\<forall>w\<in>set ws. comp_ok w"
  with Cons have "comp_ok w" by simp
  with Cons show ?thesis
    by (cases w; cases ws') (auto simp: comp_ok_def is_abs_def has_prefix_def)
qed simp

lemma is_abs_render: "\<forall>w\<in>set ws. comp_ok w \<Longrightarrow> is_abs (render r ws) = r"
  using is_abs_join [of ws]
  by (auto simp: render_def) (simp add: is_abs_def has_prefix_def)

lemma is_abs_clean [simp]: "is_abs (path_clean p) = is_abs p"
  by (simp add: path_clean_def is_abs_render path_comps_ok)

text \<open>The components of a clean path are already clean: nothing is left for \<open>walk\<close> to do.\<close>

definition ups_first :: "string list \<Rightarrow> bool" where
  "ups_first ws = (\<exists>n vs. ws = replicate n ''..'' @ vs \<and> ''..'' \<notin> set vs)"

lemma replicate_Cons_snoc: "x # replicate n x = replicate n x @ [x]"
  by (metis replicate_Suc replicate_append_same)

definition up_stack :: "string list \<Rightarrow> bool" where
  "up_stack st = ups_first (rev st)"

lemma up_stack_Nil: "up_stack []"
  by (auto simp: up_stack_def ups_first_def)

lemma up_stack_push: "up_stack st \<Longrightarrow> w \<noteq> ''..'' \<Longrightarrow> up_stack (w # st)"
proof -
  assume "up_stack st" "w \<noteq> ''..''"
  then obtain n vs where "rev st = replicate n ''..'' @ vs" "''..'' \<notin> set vs"
    by (auto simp: up_stack_def ups_first_def)
  then have "rev (w # st) = replicate n ''..'' @ (vs @ [w])" "''..'' \<notin> set (vs @ [w])"
    using \<open>w \<noteq> ''..''\<close> by auto
  then show ?thesis unfolding up_stack_def ups_first_def by blast
qed

lemma up_stack_up: "up_stack (''..'' # st) \<Longrightarrow> up_stack (''..'' # ''..'' # st)"
proof -
  assume "up_stack (''..'' # st)"
  then obtain n vs where r: "rev st @ [''..''] = replicate n ''..'' @ vs" "''..'' \<notin> set vs"
    by (auto simp: up_stack_def ups_first_def)
  then have "vs = []" by (cases vs rule: rev_cases) auto
  with r have "rev (''..'' # ''..'' # st) = replicate (Suc n) ''..'' @ []"
    by (simp add: replicate_append_same)
  then show ?thesis unfolding up_stack_def ups_first_def
    by (metis empty_iff empty_set)
qed

lemma up_stack_pop: "up_stack (t # ts) \<Longrightarrow> t \<noteq> ''..'' \<Longrightarrow> up_stack ts"
proof -
  assume "up_stack (t # ts)" "t \<noteq> ''..''"
  then obtain n vs where r: "rev ts @ [t] = replicate n ''..'' @ vs" "''..'' \<notin> set vs"
    by (auto simp: up_stack_def ups_first_def)
  have "vs \<noteq> []"
  proof
    assume "vs = []"
    then have "rev ts @ [t] = replicate n ''..''" using r by simp
    then have "t \<in> set (replicate n ''..'')" by (metis in_set_conv_decomp)
    with \<open>t \<noteq> ''..''\<close> show False by simp
  qed
  then obtain us where "vs = us @ [t]" "rev ts = replicate n ''..'' @ us"
    using r(1) by (cases vs rule: rev_cases) auto
  with r(2) show ?thesis unfolding up_stack_def ups_first_def by auto
qed

lemma up_stack_one: "up_stack [''..'']"
  unfolding up_stack_def ups_first_def
  by (rule exI [of _ 1], rule exI [of _ "[]"]) simp

lemma walk_unrooted_ups: "up_stack st \<Longrightarrow> ups_first (walk False ws st)"
proof (induction ws arbitrary: st)
  case (Cons w ws)
  show ?case
  proof (cases "w = ''..''")
    case False
    then show ?thesis using Cons by (simp add: up_stack_push)
  next
    case up: True
    show ?thesis
    proof (cases st)
      case Nil
      then show ?thesis using up Cons.IH [OF up_stack_one] by simp
    next
      case (Cons t ts)
      note st = this
      show ?thesis
      proof (cases "t = ''..''")
        case True
        then show ?thesis using up st Cons.prems Cons.IH [of "w # st"]
          by (simp add: up_stack_up)
      next
        case False
        then show ?thesis using up st Cons.IH [OF up_stack_pop [of t ts]] Cons.prems by simp
      qed
    qed
  qed
qed (simp add: up_stack_def)

lemma walk_ups_first:
  assumes "ups_first ws"
  shows "walk False ws [] = ws"
proof -
  obtain n vs where ws: "ws = replicate n ''..'' @ vs" "''..'' \<notin> set vs"
    using assms by (auto simp: ups_first_def)
  have "walk False (replicate n ''..'') (replicate m ''..'') = replicate (n + m) ''..''" for m
  proof (induction n arbitrary: m)
    case (Suc n)
    then show ?case using Suc.IH [of "Suc m"] by (cases m) auto
  qed simp
  from this [of 0] have "walk False (replicate n ''..'') [] = replicate n ''..''" by simp
  with ws show ?thesis by (simp add: walk_append_plain walk_plain)
qed

lemma path_comps_clean [simp]: "path_comps (path_clean p) = path_comps p"
proof -
  have ok: "\<forall>w\<in>set (path_comps p). comp_ok w" by (blast dest: path_comps_ok)
  have "path_comps (path_clean p) = walk (is_abs p) (path_comps p) []"
    using raw_comps_render [OF ok, of "is_abs p"] is_abs_clean [of p]
    by (simp add: path_comps_def path_clean_def)
  also have "\<dots> = path_comps p"
  proof (cases "is_abs p")
    case True
    then have "''..'' \<notin> set (path_comps p)" by (simp add: path_comps_def walk_rooted_no_up)
    then show ?thesis by (simp add: walk_plain)
  next
    case False
    have "ups_first (path_comps p)"
      using False walk_unrooted_ups [OF up_stack_Nil, of "raw_comps p"] by (simp add: path_comps_def)
    with False show ?thesis by (simp add: walk_ups_first)
  qed
  finally show ?thesis .
qed

lemma path_clean_idem: "path_clean (path_clean p) = path_clean p"
  by (simp add: path_clean_def [of "path_clean p"]) (simp add: path_clean_def)

section \<open>Base names and extensions\<close>

definition path_base :: "string \<Rightarrow> string" where
  "path_base p =
     (if p = [] then ''.''
      else let q = trim_right_set [slash] p in
           if q = [] then ''/'' else last (split_on slash q))"

definition path_ext :: "string \<Rightarrow> string" where
  "path_ext p =
     (let f = last (split_on slash p); r = takeWhile (\<lambda>c. c \<noteq> CHR ''.'') (rev f)
      in if length r = length f then [] else CHR ''.'' # rev r)"

section \<open>The containment guards\<close>

definition SafeJoinVersion :: "string \<Rightarrow> string \<Rightarrow> string res" where
  "SafeJoinVersion root relPath =
     (let root' = path_clean root; rel = path_clean relPath; dest = path_join root' rel
      in if \<not> has_prefix dest (root' @ ''/'') \<and> dest \<noteq> root' then Inl (ErrMsg ''invalid path'')
         else Inr dest)"

definition safeExtractPath :: "string \<Rightarrow> string \<Rightarrow> unit res" where
  "safeExtractPath dest name =
     (let target = path_join dest name; cleanDest = path_clean dest
      in if \<not> has_prefix (path_clean target) (cleanDest @ ''/'') \<and> path_clean target \<noteq> cleanDest
         then Inl (ErrMsg (''invalid tar path: '' @ name)) else Inr ())"

lemma path_clean_not_Nil [simp]: "path_clean p \<noteq> []"
  using path_comps_ok [of _ p]
  by (cases "path_comps p" rule: remdups_adj.cases) (auto simp: path_clean_def render_def comp_ok_def)

lemma path_join_clean: "a \<noteq> [] \<Longrightarrow> path_clean (path_join a b) = path_join a b"
  by (simp add: path_join_def path_clean_idem)

lemma path_comps_join:
  "a \<noteq> [] \<Longrightarrow> path_comps (path_join a b) = walk (is_abs a) (raw_comps b) (rev (path_comps a))"
proof -
  assume a: "a \<noteq> []"
  then have "path_comps (path_join a b) = path_comps (a @ ''/'' @ b)" by (simp add: path_join_def)
  also have "\<dots> = walk (is_abs a) (raw_comps a @ raw_comps b) []"
    by (simp only: path_comps_def is_abs_append [OF a] raw_comps_append)
  also have "\<dots> = walk (is_abs a) (raw_comps b) (rev (path_comps a))"
    by (simp add: walk_append_plain path_comps_def)
  finally show ?thesis .
qed

text \<open>Being textually below a clean absolute directory is being below it component by component.\<close>

lemma join_with_append:
  "ws \<noteq> [] \<Longrightarrow> vs \<noteq> [] \<Longrightarrow> join_with s (ws @ vs) = join_with s ws @ s @ join_with s vs"
  by (induction s ws rule: join_with.induct) (auto simp: neq_Nil_conv)

lemma below_comps:
  assumes "has_prefix (path_clean d) (path_clean r @ ''/'')" "is_abs r"
  shows "\<exists>cs. path_comps d = path_comps r @ cs"
proof -
  obtain t where t: "path_clean d = path_clean r @ ''/'' @ t"
    using assms(1) by (auto simp: has_prefix_iff)
  have abs: "is_abs d" using t assms(2) by (metis is_abs_append is_abs_clean path_clean_not_Nil)
  have okd: "\<forall>w\<in>set (path_comps d). comp_ok w" and okr: "\<forall>w\<in>set (path_comps r). comp_ok w"
    by (auto dest: path_comps_ok)
  have "path_comps d = raw_comps (path_clean d)"
    using raw_comps_render [OF okd] by (simp add: path_clean_def)
  also have "\<dots> = raw_comps (path_clean r) @ raw_comps t"
    by (simp add: t raw_comps_append del: append_Cons append_Nil)
  also have "raw_comps (path_clean r) = path_comps r"
    using raw_comps_render [OF okr] by (simp add: path_clean_def)
  finally show ?thesis by blast
qed

lemma abs_comps_no_up: "is_abs p \<Longrightarrow> ''..'' \<notin> set (path_comps p)"
  by (simp add: path_comps_def walk_rooted_no_up)

lemma SafeJoinVersion_below:
  assumes "SafeJoinVersion root rel = Inr dest" "is_abs root"
  shows "is_abs dest \<and> path_clean dest = dest \<and>
         (\<exists>cs. path_comps dest = path_comps root @ cs \<and> ''..'' \<notin> set cs)"
proof -
  let ?r = "path_clean root"
  have dest: "dest = path_join ?r (path_clean rel)"
    and guard: "has_prefix dest (?r @ ''/'') \<or> dest = ?r"
    using assms(1) by (auto simp: SafeJoinVersion_def Let_def split: if_splits)
  have clean: "path_clean dest = dest" by (simp add: dest path_join_clean)
  have abs: "is_abs dest"
    using guard assms(2) by (metis has_prefix_iff append.assoc is_abs_append is_abs_clean path_clean_not_Nil)
  from guard have "\<exists>cs. path_comps dest = path_comps root @ cs"
  proof
    assume "has_prefix dest (?r @ ''/'')"
    then show ?thesis using below_comps [of dest root] clean assms(2) by simp
  next
    assume "dest = ?r"
    then show ?thesis by simp
  qed
  then obtain cs where "path_comps dest = path_comps root @ cs" by blast
  moreover have "''..'' \<notin> set cs"
    using abs_comps_no_up [OF abs] calculation by auto
  ultimately show ?thesis using clean abs by blast
qed

lemma render_append:
  "ws \<noteq> [] \<Longrightarrow> vs \<noteq> [] \<Longrightarrow> render r (ws @ vs) = render r ws @ ''/'' @ join_with ''/'' vs"
  by (simp add: render_def join_with_append)

lemma SafeJoinVersion_complete:
  assumes "is_abs root" "path_comps root \<noteq> []" "''..'' \<notin> set (raw_comps rel)"
  shows "SafeJoinVersion root rel = Inr (render True (path_comps root @ raw_comps rel))"
proof -
  let ?r = "path_clean root"
  have ok: "\<forall>w\<in>set (raw_comps rel). comp_ok w" by (blast dest: raw_comps_ok)
  have rel: "path_comps rel = raw_comps rel" by (simp add: path_comps_def walk_plain assms(3))
  have rawrel: "raw_comps (path_clean rel) = raw_comps rel"
    by (simp add: path_clean_def rel raw_comps_render ok)
  have "path_comps (path_join ?r (path_clean rel)) = path_comps root @ raw_comps rel"
    by (simp add: path_comps_join rawrel walk_plain assms)
  moreover have "is_abs (path_join ?r (path_clean rel))"
    by (simp add: path_join_def is_abs_append assms)
  ultimately have dest: "path_join ?r (path_clean rel) = render True (path_comps root @ raw_comps rel)"
    using path_join_clean [of ?r "path_clean rel"] by (simp add: path_clean_def [of "path_join _ _"])
  have "?r = render True (path_comps root)" by (simp add: path_clean_def assms)
  then have "has_prefix (path_join ?r (path_clean rel)) (?r @ ''/'') \<or> path_join ?r (path_clean rel) = ?r"
    unfolding dest
    by (cases "raw_comps rel = []") (auto simp: render_append [OF assms(2)] has_prefix_iff)
  then show ?thesis by (auto simp: SafeJoinVersion_def Let_def dest)
qed

lemma safeExtractPath_below:
  assumes "safeExtractPath dest name = Inr ()" "is_abs dest"
  shows "\<exists>cs. path_comps (path_join dest name) = path_comps dest @ cs \<and> ''..'' \<notin> set cs"
proof -
  let ?t = "path_join dest name"
  have ne: "dest \<noteq> []" using assms(2) by auto
  have guard: "has_prefix (path_clean ?t) (path_clean dest @ ''/'') \<or> path_clean ?t = path_clean dest"
    using assms(1) by (auto simp: safeExtractPath_def Let_def split: if_splits)
  have abs: "is_abs ?t" by (simp add: path_join_def ne is_abs_append assms(2))
  from guard have "\<exists>cs. path_comps ?t = path_comps dest @ cs"
  proof
    assume "path_clean ?t = path_clean dest"
    then have "path_comps ?t = path_comps dest" by (metis path_comps_clean)
    then show ?thesis by simp
  qed (rule below_comps [OF _ assms(2)])
  then show ?thesis using abs_comps_no_up [OF abs] by auto
qed

text \<open>Joining plain components to an absolute path, and comparing the results.\<close>

lemma raw_comps_one: "comp_ok w \<Longrightarrow> raw_comps w = [w]"
  using raw_comps_join [of "[w]"] by simp

lemma path_join_plain:
  assumes "is_abs a" "''..'' \<notin> set (raw_comps b)"
  shows "path_join a b = render True (path_comps a @ raw_comps b)"
proof -
  have ne: "a \<noteq> []" using assms(1) by auto
  have "path_comps (path_join a b) = path_comps a @ raw_comps b"
    using path_comps_join [OF ne, of b] by (simp add: walk_plain assms(2))
  moreover have "is_abs (path_join a b)" by (simp add: path_join_def ne is_abs_append assms(1))
  ultimately show ?thesis
    using path_join_clean [OF ne, of b] by (simp add: path_clean_def [of "path_join a b"])
qed

lemma render_inject:
  "\<forall>w\<in>set ws. comp_ok w \<Longrightarrow> \<forall>w\<in>set vs. comp_ok w \<Longrightarrow> render r ws = render r vs \<Longrightarrow> ws = vs"
  by (metis raw_comps_render)

lemma path_comps_render:
  assumes "\<forall>w\<in>set ws. comp_ok w" "''..'' \<notin> set ws"
  shows "path_comps (render True ws) = ws"
  using assms by (simp add: path_comps_def raw_comps_render walk_plain is_abs_render)

end
