(* ===== verification/Store.thy ===== *)
theory Store
  imports Tables Paths
begin

text \<open>
  The persistent state of package store (\<open>internal/store\<close>): one record per table row, with the
  fields of the Go struct the rows are scanned into, the UNIQUE indexes of the schema, the files
  below the data directory, and the record \<open>store\<close> of all of it.

  Timestamps.  A \<open>time.Time\<close> is an integer number of nanoseconds.  The columns hold
  \<open>t.Format("2006-01-02 15:04:05")\<close>, which drops the fraction of the second and orders textually
  as the seconds do; a \<open>stamp\<close> is that second, and \<open>None\<close> is the empty string of an unset column,
  which orders before every other text.
\<close>

section \<open>Time\<close>

type_synonym go_time = int
type_synonym duration = int
type_synonym stamp = "int option"

definition Second :: duration where
  "Second = 1000000000"

definition Hour :: duration where
  "Hour = 3600 * Second"

definition format_time :: "go_time \<Rightarrow> stamp" where
  "format_time t = Some (t div 1000000000)"

lemma format_time_mono: "s \<le> t \<Longrightarrow> format_time s \<le> format_time t"
  by (simp add: format_time_def zdiv_mono1)

lemma format_time_not_None [simp]: "format_time t \<noteq> None" "None \<noteq> format_time t"
  by (simp_all add: format_time_def)

section \<open>Rows\<close>

record tenant =
  tn_ID :: int
  tn_Slug :: string
  tn_Name :: string
  tn_CreatedAt :: stamp

record user =
  u_ID :: int
  u_Username :: string
  u_PasswordHash :: string
  u_Role :: string
  u_IsAdmin :: int
  u_TenantID :: int
  u_Token :: string
  u_AuthVersion :: int
  u_CreatedAt :: stamp

record project =
  p_ID :: int
  p_TenantID :: int
  p_Name :: string
  p_MaxPublishedVersions :: int
  p_CreatedAt :: stamp

record vcs_provenance =
  vcs_Provider :: string
  vcs_Repository :: string
  vcs_Ref :: string
  vcs_Commit :: string
  vcs_RunURL :: string
  vcs_RunID :: string

record artifact_manifest =
  am_SHA256 :: string
  am_FileCount :: int
  am_Bytes :: int

record version =
  v_ID :: int
  v_ProjectID :: int
  v_Version :: string
  v_Status :: string
  v_CreatedAt :: stamp
  v_PublishedAt :: stamp
  v_VCS :: vcs_provenance
  v_Artifact :: artifact_manifest

record project_member =
  pm_ProjectID :: int
  pm_UserID :: int
  pm_Role :: string
  pm_JoinedAt :: stamp

record project_invite =
  pi_ID :: int
  pi_ProjectID :: int
  pi_Token :: string
  pi_Role :: string
  pi_CreatedBy :: int
  pi_ExpiresAt :: stamp
  pi_CreatedAt :: stamp

record push_host =
  ph_ID :: int
  ph_TenantID :: int
  ph_Name :: string
  ph_Address :: string
  ph_Port :: int
  ph_Username :: string
  ph_AuthMode :: string
  ph_HostKey :: string
  ph_HostKeyFingerprint :: string
  ph_EncryptedPrivateKey :: string
  ph_HealthCheckEnabled :: bool
  ph_HealthCheckIntervalSeconds :: int
  ph_LastCheckAt :: stamp
  ph_LastCheckStatus :: string
  ph_LastCheckError :: string
  ph_LastCheckLatencyMS :: int
  ph_NextCheckAt :: stamp
  ph_CreatedAt :: stamp
  ph_UpdatedAt :: stamp

record push_host_check =
  hc_ID :: int
  hc_TenantID :: int
  hc_HostID :: int
  hc_Status :: string
  hc_Error :: string
  hc_LatencyMS :: int
  hc_Trigger :: string
  hc_CheckedAt :: stamp

record push_binding =
  pb_PlanDigest :: string
  pb_ID :: int
  pb_TenantID :: int
  pb_HostID :: int
  pb_HostName :: string
  pb_ProjectName :: string
  pb_ServerID :: string
  pb_TargetTag :: string
  pb_Labels :: string
  pb_ContentTags :: string
  pb_RemoteRoot :: string
  pb_SkipBackup :: bool
  pb_OS :: string
  pb_Arch :: string
  pb_CreatedAt :: stamp
  pb_UpdatedAt :: stamp

record push_target =
  pt_PlanDigest :: string
  pt_ID :: int
  pt_DeploymentID :: int
  pt_HostID :: int
  pt_HostName :: string
  pt_BindingID :: int
  pt_ServerID :: string
  pt_Labels :: string
  pt_Status :: string
  pt_Output :: string
  pt_CreatedAt :: stamp
  pt_StartedAt :: stamp
  pt_CompletedAt :: stamp

record push_deployment =
  pd_ID :: int
  pd_TenantID :: int
  pd_ProjectID :: int
  pd_TaskID :: int
  pd_TaskName :: string
  pd_HookEventID :: int
  pd_IdempotencyKey :: string
  pd_Replayed :: bool
  pd_Version :: string
  pd_RequestedBy :: string
  pd_Selector :: string
  pd_Status :: string
  pd_CreatedAt :: stamp
  pd_StartedAt :: stamp
  pd_CompletedAt :: stamp
  pd_Targets :: "push_target list"

record push_task =
  tk_ID :: int
  tk_TenantID :: int
  tk_ProjectID :: int
  tk_Name :: string
  tk_Version :: string
  tk_ServerIDs :: "string list"
  tk_Tags :: "string list"
  tk_TagMatch :: string
  tk_CreatedBy :: string
  tk_RunCount :: int
  tk_LastRunAt :: stamp
  tk_CreatedAt :: stamp
  tk_UpdatedAt :: stamp

record release_hook =
  rh_ID :: int
  rh_TenantID :: int
  rh_ProjectID :: int
  rh_TaskID :: int
  rh_TaskName :: string
  rh_Name :: string
  rh_Enabled :: bool
  rh_DebounceSeconds :: int
  rh_PendingVersion :: string
  rh_PendingRequestedBy :: string
  rh_PendingSource :: string
  rh_PendingSince :: stamp
  rh_DueAt :: stamp
  rh_PendingEvents :: int
  rh_TriggerCount :: int
  rh_MergeCount :: int
  rh_RunCount :: int
  rh_LastTriggerAt :: stamp
  rh_LastRunAt :: stamp
  rh_LastDeploymentID :: int
  rh_LastStatus :: string
  rh_LastError :: string
  rh_CreatedBy :: string
  rh_CreatedAt :: stamp
  rh_UpdatedAt :: stamp

record hook_event =
  he_ID :: int
  he_TenantID :: int
  he_ProjectID :: int
  he_HookID :: int
  he_HookName :: string
  he_Kind :: string
  he_Source :: string
  he_Version :: string
  he_Status :: string
  he_MergedEvents :: int
  he_DeploymentID :: int
  he_Detail :: string
  he_CreatedAt :: stamp
  he_CompletedAt :: stamp
  he_RequestedBy :: string

record delivery_node =
  dn_ID :: int
  dn_TenantID :: int
  dn_ProjectID :: int
  dn_ServerID :: string
  dn_DeliveryMode :: string
  dn_Role :: string
  dn_Environment :: string
  dn_Labels :: string
  dn_OS :: string
  dn_Arch :: string
  dn_CurrentVersion :: string
  dn_DesiredVersion :: string
  dn_DesiredGeneration :: int
  dn_AppliedGeneration :: int
  dn_AutoFollow :: bool
  dn_Status :: string
  dn_LastError :: string
  dn_HeartbeatIntervalSeconds :: int
  dn_LastSeenAt :: stamp
  dn_CreatedAt :: stamp
  dn_UpdatedAt :: stamp

text \<open>The login table keeps its times in RFC 3339 with nanoseconds: a \<open>go_time\<close>, \<open>None\<close> for the empty text.\<close>

record login_ban =
  lb_IP :: string
  lb_Username :: string
  lb_Failures :: int
  lb_AttemptCount :: int
  lb_BanCount :: int
  lb_WindowStarted :: "go_time option"
  lb_BannedUntil :: "go_time option"
  lb_LastFailure :: "go_time option"
  lb_LastAttemptTimes :: "go_time list"

record file_tag_row =
  ft_TenantID :: int
  ft_ProjectName :: string
  ft_Version :: string
  ft_Path :: string
  ft_Tags :: string
  ft_UpdatedAt :: stamp

record file_mode_row =
  fm_TenantID :: int
  fm_ProjectName :: string
  fm_Version :: string
  fm_Path :: string
  fm_Mode :: int
  fm_UpdatedAt :: stamp

record blob =
  b_Hash :: string
  b_Size :: int
  b_RefCount :: int
  b_CreatedAt :: stamp

record audit_entry =
  al_ID :: int
  al_At :: stamp
  al_Username :: string
  al_Action :: string
  al_Detail :: string
  al_IP :: string

section \<open>The store\<close>

text \<open>
  Files: the absolute clean path of every regular file with its content, and the directories that
  were created (their ancestors exist with them).
\<close>

record store =
  st_dataDir :: string
  st_tenants :: "tenant table"
  st_users :: "user table"
  st_projects :: "project table"
  st_versions :: "version table"
  st_members :: "project_member list"
  st_invites :: "project_invite table"
  st_hosts :: "push_host table"
  st_checks :: "push_host_check table"
  st_bindings :: "push_binding table"
  st_deployments :: "push_deployment table"
  st_targets :: "push_target table"
  st_tasks :: "push_task table"
  st_hooks :: "release_hook table"
  st_events :: "hook_event table"
  st_nodes :: "delivery_node table"
  st_bans :: "login_ban list"
  st_loginProtection :: bool
  st_fileTags :: "file_tag_row list"
  st_fileModes :: "file_mode_row list"
  st_blobs :: "blob list"
  st_audit :: "audit_entry table"
  st_files :: "(string \<times> string) list"
  st_dirs :: "string list"

definition empty_store :: "string \<Rightarrow> store" where
  "empty_store d =
     \<lparr>st_dataDir = d, st_tenants = empty_table, st_users = empty_table, st_projects = empty_table,
      st_versions = empty_table, st_members = [], st_invites = empty_table, st_hosts = empty_table,
      st_checks = empty_table, st_bindings = empty_table, st_deployments = empty_table,
      st_targets = empty_table, st_tasks = empty_table, st_hooks = empty_table,
      st_events = empty_table, st_nodes = empty_table, st_bans = [], st_loginProtection = False,
      st_fileTags = [], st_fileModes = [], st_blobs = [], st_audit = empty_table, st_files = [],
      st_dirs = []\<rparr>"

section \<open>Row ids and UNIQUE indexes of the schema\<close>

abbreviation "set_tn_ID i r \<equiv> r\<lparr>tn_ID := i\<rparr>"
abbreviation "set_u_ID i r \<equiv> r\<lparr>u_ID := i\<rparr>"
abbreviation "set_p_ID i r \<equiv> r\<lparr>p_ID := i\<rparr>"
abbreviation "set_v_ID i r \<equiv> r\<lparr>v_ID := i\<rparr>"
abbreviation "set_pi_ID i r \<equiv> r\<lparr>pi_ID := i\<rparr>"
abbreviation "set_ph_ID i r \<equiv> r\<lparr>ph_ID := i\<rparr>"
abbreviation "set_hc_ID i r \<equiv> r\<lparr>hc_ID := i\<rparr>"
abbreviation "set_pb_ID i r \<equiv> r\<lparr>pb_ID := i\<rparr>"
abbreviation "set_pd_ID i r \<equiv> r\<lparr>pd_ID := i\<rparr>"
abbreviation "set_pt_ID i r \<equiv> r\<lparr>pt_ID := i\<rparr>"
abbreviation "set_tk_ID i r \<equiv> r\<lparr>tk_ID := i\<rparr>"
abbreviation "set_rh_ID i r \<equiv> r\<lparr>rh_ID := i\<rparr>"
abbreviation "set_he_ID i r \<equiv> r\<lparr>he_ID := i\<rparr>"
abbreviation "set_dn_ID i r \<equiv> r\<lparr>dn_ID := i\<rparr>"
abbreviation "set_al_ID i r \<equiv> r\<lparr>al_ID := i\<rparr>"

definition tenant_conflict :: "tenant \<Rightarrow> tenant \<Rightarrow> bool" where
  "tenant_conflict r s = (tn_Slug r = tn_Slug s)"

definition user_conflict :: "user \<Rightarrow> user \<Rightarrow> bool" where
  "user_conflict r s = (u_Username r = u_Username s)"

definition project_conflict :: "project \<Rightarrow> project \<Rightarrow> bool" where
  "project_conflict r s = (p_TenantID r = p_TenantID s \<and> p_Name r = p_Name s)"

definition version_conflict :: "version \<Rightarrow> version \<Rightarrow> bool" where
  "version_conflict r s = (v_ProjectID r = v_ProjectID s \<and> v_Version r = v_Version s)"

definition invite_conflict :: "project_invite \<Rightarrow> project_invite \<Rightarrow> bool" where
  "invite_conflict r s = (pi_Token r = pi_Token s)"

definition host_conflict :: "push_host \<Rightarrow> push_host \<Rightarrow> bool" where
  "host_conflict r s = (ph_TenantID r = ph_TenantID s \<and> ph_Name r = ph_Name s)"

definition binding_conflict :: "push_binding \<Rightarrow> push_binding \<Rightarrow> bool" where
  "binding_conflict r s =
     (pb_HostID r = pb_HostID s \<and> pb_ProjectName r = pb_ProjectName s
      \<and> pb_ServerID r = pb_ServerID s \<and> pb_Labels r = pb_Labels s)"

text \<open>The two partial indexes of \<open>push_deployments\<close>: on the hook event and on the idempotency key.\<close>

definition hook_event_key :: "push_deployment \<Rightarrow> int option" where
  "hook_event_key d = (if pd_HookEventID d > 0 then Some (pd_HookEventID d) else None)"

definition idem_key :: "push_deployment \<Rightarrow> (int \<times> int \<times> string) option" where
  "idem_key d =
     (if pd_IdempotencyKey d \<noteq> [] then Some (pd_TenantID d, pd_ProjectID d, pd_IdempotencyKey d)
      else None)"

definition deployment_conflict :: "push_deployment \<Rightarrow> push_deployment \<Rightarrow> bool" where
  "deployment_conflict r s =
     ((hook_event_key r \<noteq> None \<and> hook_event_key r = hook_event_key s)
      \<or> (idem_key r \<noteq> None \<and> idem_key r = idem_key s))"

definition task_conflict :: "push_task \<Rightarrow> push_task \<Rightarrow> bool" where
  "task_conflict r s = (tk_ProjectID r = tk_ProjectID s \<and> tk_Name r = tk_Name s)"

definition hook_conflict :: "release_hook \<Rightarrow> release_hook \<Rightarrow> bool" where
  "hook_conflict r s =
     ((rh_ProjectID r = rh_ProjectID s \<and> rh_Name r = rh_Name s)
      \<or> (rh_ProjectID r = rh_ProjectID s \<and> rh_TaskID r = rh_TaskID s))"

definition node_key :: "delivery_node \<Rightarrow> int \<times> int \<times> string \<times> string" where
  "node_key n = (dn_TenantID n, dn_ProjectID n, dn_ServerID n, dn_DeliveryMode n)"

definition node_conflict :: "delivery_node \<Rightarrow> delivery_node \<Rightarrow> bool" where
  "node_conflict r s = (node_key r = node_key s)"

definition no_conflict :: "'r \<Rightarrow> 'r \<Rightarrow> bool" where
  "no_conflict r s = False"

lemmas conflict_defs = tenant_conflict_def user_conflict_def project_conflict_def
  version_conflict_def invite_conflict_def host_conflict_def binding_conflict_def
  deployment_conflict_def task_conflict_def hook_conflict_def node_conflict_def no_conflict_def

interpretation tenant_rows: unique_index tn_ID "\<lambda>i r. set_tn_ID i r" "\<lambda>r. Some (tn_Slug r)" tenant_conflict
  by unfold_locales (auto simp: conflict_defs)

interpretation user_rows: unique_index u_ID "\<lambda>i r. set_u_ID i r" "\<lambda>r. Some (u_Username r)" user_conflict
  by unfold_locales (auto simp: conflict_defs)

interpretation project_rows:
  unique_index p_ID "\<lambda>i r. set_p_ID i r" "\<lambda>r. Some (p_TenantID r, p_Name r)" project_conflict
  by unfold_locales (auto simp: conflict_defs)

interpretation version_rows:
  unique_index v_ID "\<lambda>i r. set_v_ID i r" "\<lambda>r. Some (v_ProjectID r, v_Version r)" version_conflict
  by unfold_locales (auto simp: conflict_defs)

interpretation invite_rows:
  unique_index pi_ID "\<lambda>i r. set_pi_ID i r" "\<lambda>r. Some (pi_Token r)" invite_conflict
  by unfold_locales (auto simp: conflict_defs)

interpretation host_rows:
  unique_index ph_ID "\<lambda>i r. set_ph_ID i r" "\<lambda>r. Some (ph_TenantID r, ph_Name r)" host_conflict
  by unfold_locales (auto simp: conflict_defs)

interpretation check_rows: autoinc hc_ID "\<lambda>i r. set_hc_ID i r"
  by unfold_locales simp

interpretation binding_rows:
  unique_index pb_ID "\<lambda>i r. set_pb_ID i r"
    "\<lambda>r. Some (pb_HostID r, pb_ProjectName r, pb_ServerID r, pb_Labels r)" binding_conflict
  by unfold_locales (auto simp: conflict_defs)

interpretation deployment_events:
  unique_index pd_ID "\<lambda>i r. set_pd_ID i r" hook_event_key deployment_conflict
  by unfold_locales (auto simp: conflict_defs hook_event_key_def)

interpretation deployment_keys:
  unique_index pd_ID "\<lambda>i r. set_pd_ID i r" idem_key deployment_conflict
  by unfold_locales (auto simp: conflict_defs idem_key_def)

interpretation target_rows: autoinc pt_ID "\<lambda>i r. set_pt_ID i r"
  by unfold_locales simp

interpretation task_rows:
  unique_index tk_ID "\<lambda>i r. set_tk_ID i r" "\<lambda>r. Some (tk_ProjectID r, tk_Name r)" task_conflict
  by unfold_locales (auto simp: conflict_defs)

interpretation hook_names:
  unique_index rh_ID "\<lambda>i r. set_rh_ID i r" "\<lambda>r. Some (rh_ProjectID r, rh_Name r)" hook_conflict
  by unfold_locales (auto simp: conflict_defs)

interpretation hook_tasks:
  unique_index rh_ID "\<lambda>i r. set_rh_ID i r" "\<lambda>r. Some (rh_ProjectID r, rh_TaskID r)" hook_conflict
  by unfold_locales (auto simp: conflict_defs)

interpretation event_rows: autoinc he_ID "\<lambda>i r. set_he_ID i r"
  by unfold_locales simp

interpretation node_rows:
  unique_index dn_ID "\<lambda>i r. set_dn_ID i r" "\<lambda>r. Some (node_key r)" node_conflict
  by unfold_locales (auto simp: conflict_defs node_key_def)

interpretation audit_rows: autoinc al_ID "\<lambda>i r. set_al_ID i r"
  by unfold_locales simp

section \<open>Directories of a tenant\<close>

definition TenantByID :: "store \<Rightarrow> int \<Rightarrow> tenant res" where
  "TenantByID s i = tbl_row (\<lambda>t. tn_ID t = i) (st_tenants s)"

definition ProjectsRoot :: "store \<Rightarrow> int \<Rightarrow> string res" where
  "ProjectsRoot s tenantID =
     (case TenantByID s tenantID of
        Inl e \<Rightarrow> Inl e
      | Inr t \<Rightarrow> Inr (path_join (st_dataDir s) (''userdata/'' @ tn_Slug t @ ''/projects'')))"

definition VersionDir :: "store \<Rightarrow> int \<Rightarrow> string \<Rightarrow> string \<Rightarrow> string res" where
  "VersionDir s tenantID projectName version =
     (case TenantByID s tenantID of
        Inl e \<Rightarrow> Inl e
      | Inr t \<Rightarrow> Inr (path_join (st_dataDir s)
          (''userdata/'' @ tn_Slug t @ ''/projects/'' @ projectName @ ''/'' @ version)))"

definition ProjectBelongsToTenant :: "store \<Rightarrow> int \<Rightarrow> int \<Rightarrow> bool" where
  "ProjectBelongsToTenant s projectID tenantID =
     (case tbl_row (\<lambda>p. p_ID p = projectID) (st_projects s) of
        Inl _ \<Rightarrow> False
      | Inr p \<Rightarrow> p_TenantID p = tenantID)"

text \<open>The files below a directory, as paths relative to it, in table order.\<close>

definition under :: "string \<Rightarrow> string \<Rightarrow> bool" where
  "under d f = has_prefix f (d @ ''/'')"

definition rel_path :: "string \<Rightarrow> string \<Rightarrow> string" where
  "rel_path d f = drop (length d + 1) f"

definition dir_files :: "store \<Rightarrow> string \<Rightarrow> (string \<times> string) list" where
  "dir_files s d = map (\<lambda>(f, c). (rel_path d f, c)) (filter (\<lambda>(f, _). under d f) (st_files s))"

definition dir_exists :: "store \<Rightarrow> string \<Rightarrow> bool" where
  "dir_exists s d =
     (d \<in> set (st_dirs s) \<or> list_ex (under d) (st_dirs s) \<or> list_ex (\<lambda>(f, _). under d f) (st_files s))"

definition isDirEmpty :: "store \<Rightarrow> string \<Rightarrow> bool" where
  "isDirEmpty s d = (\<not> list_ex (under d) (st_dirs s) \<and> \<not> list_ex (\<lambda>(f, _). under d f) (st_files s))"

definition mkdir_all :: "string \<Rightarrow> store \<Rightarrow> store" where
  "mkdir_all d s = s\<lparr>st_dirs := List.insert d (st_dirs s)\<rparr>"

definition remove_all :: "string \<Rightarrow> store \<Rightarrow> store" where
  "remove_all d s =
     s\<lparr>st_files := filter (\<lambda>(f, _). f \<noteq> d \<and> \<not> under d f) (st_files s),
       st_dirs := filter (\<lambda>f. f \<noteq> d \<and> \<not> under d f) (st_dirs s)\<rparr>"

lemma rel_path_app: "under d f \<Longrightarrow> d @ ''/'' @ rel_path d f = f"
  by (auto simp: under_def rel_path_def has_prefix_iff)

lemma remove_all_empties: "isDirEmpty (remove_all d s) d"
  by (auto simp: isDirEmpty_def remove_all_def list_ex_iff)

end
