(* ===== verification/Hosts.thy ===== *)
theory Hosts
  imports Store
begin

text \<open>
  SSH hosts, their health checks and their server bindings (\<open>internal/store/push_deployments.go\<close>,
  the host, check and binding operations), with the label selector that a deployment resolves its
  targets by.  \<open>time.Now()\<close> is the argument \<open>now\<close> of an operation.
\<close>

section \<open>Hosts\<close>

definition defaultPushHealthCheckIntervalSeconds :: int where
  "defaultPushHealthCheckIntervalSeconds = 3600"

definition LogRetention :: duration where
  "LogRetention = 30 * 24 * Hour"

definition validPushHealthCheckInterval :: "int \<Rightarrow> bool" where
  "validPushHealthCheckInterval seconds = (seconds \<ge> 60 \<and> seconds \<le> 7 * 24 * 60 * 60)"

definition validPushAuthMode :: "string \<Rightarrow> bool" where
  "validPushAuthMode mode = (mode = ''password'' \<or> mode = ''private_key'' \<or> mode = ''agent'')"

text \<open>The defaults that creating and updating a host fill in before they validate it.\<close>

definition host_defaults :: "push_host \<Rightarrow> push_host" where
  "host_defaults h =
     h\<lparr>ph_Port := if ph_Port h = 0 then 22 else ph_Port h,
       ph_AuthMode := if ph_AuthMode h = [] then ''private_key'' else ph_AuthMode h,
       ph_HealthCheckIntervalSeconds :=
         if ph_HealthCheckIntervalSeconds h = 0 then defaultPushHealthCheckIntervalSeconds
         else ph_HealthCheckIntervalSeconds h\<rparr>"

definition host_named :: "push_host \<Rightarrow> bool" where
  "host_named h =
     (trim_space (ph_Name h) \<noteq> [] \<and> trim_space (ph_Address h) \<noteq> [] \<and> trim_space (ph_Username h) \<noteq> []
      \<and> validPushAuthMode (ph_AuthMode h))"

definition CreatePushHost :: "go_time \<Rightarrow> push_host \<Rightarrow> string \<Rightarrow> store \<Rightarrow> push_host res \<times> store" where
  "CreatePushHost now host0 key s =
     (let host = host_defaults host0; stamp = format_time now;
          next_at = (if ph_HealthCheckEnabled host then stamp else None);
          row = host\<lparr>ph_EncryptedPrivateKey := key, ph_LastCheckAt := None,
                     ph_LastCheckStatus := ''unknown'', ph_LastCheckError := [],
                     ph_LastCheckLatencyMS := 0, ph_NextCheckAt := next_at,
                     ph_CreatedAt := stamp, ph_UpdatedAt := stamp\<rparr>
      in if \<not> validPushHealthCheckInterval (ph_HealthCheckIntervalSeconds host)
         then (Inl (ErrMsg ''health_check_interval_seconds must be between 60 and 604800''), s)
         else if \<not> host_named host \<or> (ph_AuthMode host \<noteq> ''agent'' \<and> key = [])
         then (Inl (ErrMsg ''name, address, username, auth_mode and credential required''), s)
         else case tbl_insert host_conflict (\<lambda>i r. set_ph_ID i r) ''push_hosts'' row (st_hosts s) of
                (Inl e, _) \<Rightarrow> (Inl e, s)
              | (Inr i, t) \<Rightarrow>
                  (Inr (host\<lparr>ph_ID := i, ph_LastCheckStatus := ''unknown'', ph_NextCheckAt := next_at,
                             ph_CreatedAt := stamp, ph_UpdatedAt := stamp\<rparr>),
                   s\<lparr>st_hosts := t\<rparr>))"

definition is_host :: "int \<Rightarrow> int \<Rightarrow> push_host \<Rightarrow> bool" where
  "is_host tenantID i h = (ph_TenantID h = tenantID \<and> ph_ID h = i)"

definition GetPushHost :: "store \<Rightarrow> int \<Rightarrow> int \<Rightarrow> push_host res" where
  "GetPushHost s tenantID i = tbl_row (is_host tenantID i) (st_hosts s)"

definition ListPushHosts :: "store \<Rightarrow> int \<Rightarrow> push_host list" where
  "ListPushHosts s tenantID = sort_key ph_Name (tbl_select (\<lambda>h. ph_TenantID h = tenantID) (st_hosts s))"

text \<open>
  An update keeps the enrolled host key when the request has none, keeps the stored credential when
  no new one is given, and keeps the schedule unless checking was off or its interval changes.
\<close>

definition UpdatePushHost :: "go_time \<Rightarrow> push_host \<Rightarrow> string \<Rightarrow> store \<Rightarrow> unit res \<times> store" where
  "UpdatePushHost now host0 key s =
     (let host1 = host_defaults host0;
          cur = GetPushHost s (ph_TenantID host1) (ph_ID host1)
      in if \<not> validPushHealthCheckInterval (ph_HealthCheckIntervalSeconds host1)
         then (Inl (ErrMsg ''health_check_interval_seconds must be between 60 and 604800''), s)
         else if ph_HostKey host1 = [] \<and> \<not> is_ok cur then (Inl ErrNoRows, s)
         else
           (let host = (case cur of
                          Inr c \<Rightarrow> if ph_HostKey host1 = []
                                   then host1\<lparr>ph_HostKey := ph_HostKey c,
                                              ph_HostKeyFingerprint := ph_HostKeyFingerprint c\<rparr>
                                   else host1
                        | Inl _ \<Rightarrow> host1);
                stamp = format_time now;
                next_at =
                  (if ph_HealthCheckEnabled host
                   then case cur of
                          Inr c \<Rightarrow> if ph_HealthCheckEnabled c
                                     \<and> ph_HealthCheckIntervalSeconds c = ph_HealthCheckIntervalSeconds host
                                     \<and> ph_NextCheckAt c \<noteq> None
                                   then ph_NextCheckAt c else stamp
                        | Inl _ \<Rightarrow> stamp
                   else None);
                upd = (\<lambda>r. r\<lparr>ph_Name := ph_Name host, ph_Address := ph_Address host,
                             ph_Port := ph_Port host, ph_Username := ph_Username host,
                             ph_AuthMode := ph_AuthMode host, ph_HostKey := ph_HostKey host,
                             ph_HostKeyFingerprint := ph_HostKeyFingerprint host,
                             ph_EncryptedPrivateKey :=
                               if key \<noteq> [] then key else ph_EncryptedPrivateKey r,
                             ph_HealthCheckEnabled := ph_HealthCheckEnabled host,
                             ph_HealthCheckIntervalSeconds := ph_HealthCheckIntervalSeconds host,
                             ph_NextCheckAt := next_at, ph_UpdatedAt := stamp\<rparr>)
            in if \<not> host_named host
               then (Inl (ErrMsg ''name, address, username and auth_mode required''), s)
               else case tbl_update_checked host_conflict ''push_hosts''
                           (is_host (ph_TenantID host) (ph_ID host)) upd (st_hosts s) of
                      (Inl e, _) \<Rightarrow> (Inl e, s)
                    | (Inr n, t) \<Rightarrow>
                        if n = 0 then (Inl ErrNoRows, s) else (Inr (), s\<lparr>st_hosts := t\<rparr>)))"

definition DeletePushHost :: "int \<Rightarrow> int \<Rightarrow> store \<Rightarrow> unit res \<times> store" where
  "DeletePushHost tenantID i s =
     (let (n, t) = tbl_delete (is_host tenantID i) (st_hosts s)
      in if n = 0 then (Inl ErrNoRows, s) else (Inr (), s\<lparr>st_hosts := t\<rparr>))"

text \<open>
  Trust on first use: the UPDATE matches only an empty key, the transaction commits only when the
  enrolled key is the presented one.
\<close>

definition RecordPushHostKey :: "go_time \<Rightarrow> int \<Rightarrow> int \<Rightarrow> string \<Rightarrow> string \<Rightarrow> store \<Rightarrow> unit res \<times> store" where
  "RecordPushHostKey now tenantID hostID publicKey fingerprint s =
     (let (_, t) = tbl_update (\<lambda>h. is_host tenantID hostID h \<and> ph_HostKey h = [])
                     (\<lambda>h. h\<lparr>ph_HostKey := publicKey, ph_HostKeyFingerprint := fingerprint,
                           ph_UpdatedAt := format_time now\<rparr>) (st_hosts s)
      in case tbl_row (is_host tenantID hostID) t of
           Inl e \<Rightarrow> (Inl e, s)
         | Inr h \<Rightarrow> if trim_space (ph_HostKey h) \<noteq> trim_space publicKey
                    then (Inl (ErrMsg ''SSH host key conflicts with the enrolled key''), s)
                    else (Inr (), s\<lparr>st_hosts := t\<rparr>))"

section \<open>Health checks\<close>

definition due_host :: "stamp \<Rightarrow> push_host \<Rightarrow> bool" where
  "due_host now h = (ph_HealthCheckEnabled h \<and> (ph_NextCheckAt h = None \<or> ph_NextCheckAt h \<le> now))"

definition ListDuePushHosts :: "store \<Rightarrow> go_time \<Rightarrow> int \<Rightarrow> push_host list" where
  "ListDuePushHosts s now limit =
     take (clamp_limit 100 500 limit)
       (sort_key ph_NextCheckAt (sort_key ph_ID (tbl_select (due_host (format_time now)) (st_hosts s))))"

definition RecordPushHostCheck :: "go_time \<Rightarrow> push_host_check \<Rightarrow> store \<Rightarrow> push_host_check res \<times> store" where
  "RecordPushHostCheck now check0 s =
     (if hc_Status check0 \<noteq> ''ok'' \<and> hc_Status check0 \<noteq> ''failed''
      then (Inl (ErrMsg ''invalid SSH check status''), s)
      else if hc_Trigger check0 \<noteq> ''manual'' \<and> hc_Trigger check0 \<noteq> ''scheduled''
      then (Inl (ErrMsg ''invalid SSH check trigger''), s)
      else
        (let check = check0\<lparr>hc_Error := take 1000 (hc_Error check0), hc_CheckedAt := format_time now\<rparr>
         in case GetPushHost s (hc_TenantID check) (hc_HostID check) of
              Inl e \<Rightarrow> (Inl e, s)
            | Inr h \<Rightarrow>
                (case tbl_insert no_conflict (\<lambda>i r. set_hc_ID i r) ''push_host_checks'' check (st_checks s) of
                   (Inl e, _) \<Rightarrow> (Inl e, s)
                 | (Inr i, t) \<Rightarrow>
                     (let t' = snd (tbl_delete (\<lambda>c. hc_CheckedAt c < format_time (now - LogRetention)) t);
                          interval = (if validPushHealthCheckInterval (ph_HealthCheckIntervalSeconds h)
                                      then ph_HealthCheckIntervalSeconds h
                                      else defaultPushHealthCheckIntervalSeconds);
                          next_at = (if ph_HealthCheckEnabled h
                                     then format_time (now + interval * Second) else None);
                          hosts = snd (tbl_update (is_host (hc_TenantID check) (hc_HostID check))
                                    (\<lambda>r. r\<lparr>ph_LastCheckAt := hc_CheckedAt check,
                                          ph_LastCheckStatus := hc_Status check,
                                          ph_LastCheckError := hc_Error check,
                                          ph_LastCheckLatencyMS := hc_LatencyMS check,
                                          ph_NextCheckAt := next_at\<rparr>) (st_hosts s))
                      in (Inr (check\<lparr>hc_ID := i\<rparr>), s\<lparr>st_checks := t', st_hosts := hosts\<rparr>)))))"

definition ListPushHostChecks :: "store \<Rightarrow> int \<Rightarrow> int \<Rightarrow> int \<Rightarrow> push_host_check list res" where
  "ListPushHostChecks s tenantID hostID limit =
     (if tbl_select (is_host tenantID hostID) (st_hosts s) = [] then Inl ErrNoRows
      else Inr (take (clamp_limit 50 200 limit)
                  (rev (tbl_select (\<lambda>c. hc_TenantID c = tenantID \<and> hc_HostID c = hostID) (st_checks s)))))"

section \<open>Labels and selectors\<close>

definition splitLabels :: "string \<Rightarrow> string list" where
  "splitLabels s = filter (\<lambda>v. v \<noteq> []) (map trim_space (split_on (CHR '','') s))"

definition normaliseLabels :: "string \<Rightarrow> string" where
  "normaliseLabels s = join_with '','' (splitLabels s)"

text \<open>The loop of \<open>labelsMatch\<close> over the wanted labels, with the count of those matched.\<close>

fun labels_loop :: "string list \<Rightarrow> bool \<Rightarrow> string list \<Rightarrow> nat \<Rightarrow> bool" where
  "labels_loop have all [] matched = (matched > 0)"
| "labels_loop have all (v # want) matched =
     (if trim_space v \<in> set have then labels_loop have all want (matched + 1)
      else if all then False
      else labels_loop have all want matched)"

definition labelsMatch :: "string list \<Rightarrow> string list \<Rightarrow> bool \<Rightarrow> bool" where
  "labelsMatch have want all = (if want = [] then True else labels_loop have all want 0)"

definition pushTargetTag :: "string \<Rightarrow> string \<Rightarrow> string" where
  "pushTargetTag projectName serverID =
     (if trim_space projectName = [] then trim_space serverID
      else trim_space projectName @ ''|'' @ trim_space serverID)"

section \<open>Bindings\<close>

text \<open>Every SELECT of bindings joins the host, so a binding whose host is gone is not returned.\<close>

definition host_of :: "store \<Rightarrow> int \<Rightarrow> push_host option" where
  "host_of s hostID = find (\<lambda>h. ph_ID h = hostID) (trows (st_hosts s))"

definition joined_bindings :: "store \<Rightarrow> push_binding list" where
  "joined_bindings s =
     concat (map (\<lambda>b. case host_of s (pb_HostID b) of
                        None \<Rightarrow> []
                      | Some h \<Rightarrow> [b\<lparr>pb_HostName := ph_Name h,
                                     pb_TargetTag := pushTargetTag (pb_ProjectName b) (pb_ServerID b),
                                     pb_PlanDigest := []\<rparr>])
              (trows (st_bindings s)))"

definition binding_defaults :: "push_binding \<Rightarrow> push_binding" where
  "binding_defaults b =
     b\<lparr>pb_Labels := if pb_Labels b = [] then ''test'' else pb_Labels b,
       pb_OS := if pb_OS b = [] then ''linux'' else pb_OS b,
       pb_Arch := if pb_Arch b = [] then ''amd64'' else pb_Arch b\<rparr>"

definition CreatePushServerBinding :: "go_time \<Rightarrow> push_binding \<Rightarrow> store \<Rightarrow> push_binding res \<times> store" where
  "CreatePushServerBinding now b0 s =
     (if trim_space (pb_ServerID b0) = [] \<or> trim_space (pb_RemoteRoot b0) = []
      then (Inl (ErrMsg ''server_id and remote_root required''), s)
      else
        (let b = binding_defaults b0; stamp = format_time now;
             row = b\<lparr>pb_ProjectName := trim_space (pb_ProjectName b),
                     pb_Labels := normaliseLabels (pb_Labels b),
                     pb_ContentTags := normaliseLabels (pb_ContentTags b),
                     pb_CreatedAt := stamp, pb_UpdatedAt := stamp\<rparr>
         in if tbl_select (is_host (pb_TenantID b) (pb_HostID b)) (st_hosts s) = [] then (Inl ErrNoRows, s)
            else case tbl_insert binding_conflict (\<lambda>i r. set_pb_ID i r) ''push_server_bindings'' row (st_bindings s) of
                   (Inl e, _) \<Rightarrow> (Inl e, s)
                 | (Inr i, t) \<Rightarrow>
                     (Inr (b\<lparr>pb_ID := i, pb_CreatedAt := stamp, pb_UpdatedAt := stamp,
                             pb_TargetTag := pushTargetTag (pb_ProjectName b) (pb_ServerID b)\<rparr>),
                      s\<lparr>st_bindings := t\<rparr>)))"

definition binding_order :: "push_binding list \<Rightarrow> push_binding list" where
  "binding_order bs = sort_key pb_ProjectName (sort_key pb_ServerID bs)"

definition ListPushServerBindings :: "store \<Rightarrow> int \<Rightarrow> int \<Rightarrow> push_binding list" where
  "ListPushServerBindings s tenantID hostID =
     binding_order (filter (\<lambda>b. pb_TenantID b = tenantID \<and> pb_HostID b = hostID) (joined_bindings s))"

definition selected :: "string \<Rightarrow> string list \<Rightarrow> string list \<Rightarrow> bool \<Rightarrow> push_binding \<Rightarrow> bool" where
  "selected projectName serverIDs labels all b =
     (if projectName \<noteq> [] \<and> pb_ProjectName b \<noteq> projectName then False
      else if serverIDs \<noteq> [] \<and> pb_ServerID b \<notin> set (map trim_space serverIDs) then False
      else labelsMatch (splitLabels (pb_Labels b)) labels all)"

definition ListPushBindingsForSelector ::
  "store \<Rightarrow> int \<Rightarrow> string \<Rightarrow> string list \<Rightarrow> string list \<Rightarrow> bool \<Rightarrow> push_binding list" where
  "ListPushBindingsForSelector s tenantID projectName serverIDs labels all =
     filter (selected projectName serverIDs labels all)
       (sort_key pb_HostName (binding_order (filter (\<lambda>b. pb_TenantID b = tenantID) (joined_bindings s))))"

definition is_binding :: "int \<Rightarrow> int \<Rightarrow> int \<Rightarrow> push_binding \<Rightarrow> bool" where
  "is_binding tenantID hostID i b = (pb_TenantID b = tenantID \<and> pb_HostID b = hostID \<and> pb_ID b = i)"

definition UpdatePushServerBinding :: "go_time \<Rightarrow> push_binding \<Rightarrow> store \<Rightarrow> unit res \<times> store" where
  "UpdatePushServerBinding now b0 s =
     (if trim_space (pb_ServerID b0) = [] \<or> trim_space (pb_RemoteRoot b0) = []
      then (Inl (ErrMsg ''server_id and remote_root required''), s)
      else
        (let b = binding_defaults b0;
             upd = (\<lambda>r. r\<lparr>pb_ProjectName := trim_space (pb_ProjectName b), pb_ServerID := pb_ServerID b,
                          pb_Labels := normaliseLabels (pb_Labels b),
                          pb_ContentTags := normaliseLabels (pb_ContentTags b),
                          pb_RemoteRoot := pb_RemoteRoot b, pb_SkipBackup := pb_SkipBackup b,
                          pb_OS := pb_OS b, pb_Arch := pb_Arch b, pb_UpdatedAt := format_time now\<rparr>)
         in case tbl_update_checked binding_conflict ''push_server_bindings''
                   (is_binding (pb_TenantID b) (pb_HostID b) (pb_ID b)) upd (st_bindings s) of
              (Inl e, _) \<Rightarrow> (Inl e, s)
            | (Inr n, t) \<Rightarrow> if n = 0 then (Inl ErrNoRows, s) else (Inr (), s\<lparr>st_bindings := t\<rparr>)))"

definition DeletePushServerBinding :: "int \<Rightarrow> int \<Rightarrow> int \<Rightarrow> store \<Rightarrow> unit res \<times> store" where
  "DeletePushServerBinding tenantID hostID i s =
     (let (n, t) = tbl_delete (is_binding tenantID hostID i) (st_bindings s)
      in if n = 0 then (Inl ErrNoRows, s) else (Inr (), s\<lparr>st_bindings := t\<rparr>))"

definition GetPushBinding :: "store \<Rightarrow> int \<Rightarrow> int \<Rightarrow> push_binding res" where
  "GetPushBinding s tenantID i =
     (case find (\<lambda>b. pb_TenantID b = tenantID \<and> pb_ID b = i) (joined_bindings s) of
        None \<Rightarrow> Inl ErrNoRows
      | Some b \<Rightarrow> Inr b)"

end
