(* ===== verification/Deployments.thy ===== *)
theory Deployments
  imports Hosts
begin

text \<open>
  Push deployments, their targets and the reusable release tasks (\<open>internal/store/push_deployments.go\<close>,
  \<open>push_tasks.go\<close> and \<open>push_recovery.go\<close>): creation with its idempotency key, the claim of a queued
  deployment, the state of each target, completion, and the interruption of what a crashed controller
  left running.
\<close>

section \<open>Release tasks\<close>

fun normalize_values :: "string list \<Rightarrow> string list \<Rightarrow> string list" where
  "normalize_values seen [] = []"
| "normalize_values seen (v # vs) =
     (let value = trim_space v
      in if value = [] then normalize_values seen vs
         else if value \<in> set seen then normalize_values seen vs
         else value # normalize_values (value # seen) vs)"

definition normalizeTaskValues :: "string list \<Rightarrow> string list" where
  "normalizeTaskValues vs = normalize_values [] vs"

definition normalizePushTask :: "push_task \<Rightarrow> push_task res" where
  "normalizePushTask task0 =
     (let task = task0\<lparr>tk_Name := trim_space (tk_Name task0), tk_Version := trim_space (tk_Version task0)\<rparr>;
          match = (if tk_TagMatch task = [] then ''all'' else tk_TagMatch task);
          tags = normalizeTaskValues (tk_Tags task)
      in if tk_Name task = [] \<or> length (tk_Name task) > 100
         then Inl (ErrMsg ''task name is required and must not exceed 100 characters'')
         else if match \<noteq> ''all'' \<and> match \<noteq> ''any'' then Inl (ErrMsg ''tag_match must be all or any'')
         else Inr (task\<lparr>tk_TagMatch := match, tk_ServerIDs := normalizeTaskValues (tk_ServerIDs task),
                        tk_Tags := if tags = [] then [''test''] else tags\<rparr>))"

definition is_task :: "int \<Rightarrow> int \<Rightarrow> int \<Rightarrow> push_task \<Rightarrow> bool" where
  "is_task tenantID projectID i t = (tk_TenantID t = tenantID \<and> tk_ProjectID t = projectID \<and> tk_ID t = i)"

definition CreatePushDeploymentTask :: "go_time \<Rightarrow> push_task \<Rightarrow> store \<Rightarrow> push_task res \<times> store" where
  "CreatePushDeploymentTask now task0 s =
     (case normalizePushTask task0 of
        Inl e \<Rightarrow> (Inl e, s)
      | Inr task \<Rightarrow>
          (let stamp = format_time now;
               row = task\<lparr>tk_RunCount := 0, tk_LastRunAt := None, tk_CreatedAt := stamp, tk_UpdatedAt := stamp\<rparr>
           in case tbl_insert task_conflict (\<lambda>i r. set_tk_ID i r) ''push_deployment_tasks'' row (st_tasks s) of
                (Inl e, _) \<Rightarrow> (Inl e, s)
              | (Inr i, t) \<Rightarrow>
                  (Inr (task\<lparr>tk_ID := i, tk_CreatedAt := stamp, tk_UpdatedAt := stamp\<rparr>), s\<lparr>st_tasks := t\<rparr>)))"

definition ListPushDeploymentTasks :: "store \<Rightarrow> int \<Rightarrow> int \<Rightarrow> push_task list" where
  "ListPushDeploymentTasks s tenantID projectID =
     rev (tbl_select (\<lambda>t. tk_TenantID t = tenantID \<and> tk_ProjectID t = projectID) (st_tasks s))"

definition GetPushDeploymentTask :: "store \<Rightarrow> int \<Rightarrow> int \<Rightarrow> int \<Rightarrow> push_task res" where
  "GetPushDeploymentTask s tenantID projectID i = tbl_row (is_task tenantID projectID i) (st_tasks s)"

definition UpdatePushDeploymentTask :: "go_time \<Rightarrow> push_task \<Rightarrow> store \<Rightarrow> unit res \<times> store" where
  "UpdatePushDeploymentTask now task0 s =
     (case normalizePushTask task0 of
        Inl e \<Rightarrow> (Inl e, s)
      | Inr task \<Rightarrow>
          (case tbl_update_checked task_conflict ''push_deployment_tasks''
                  (is_task (tk_TenantID task) (tk_ProjectID task) (tk_ID task))
                  (\<lambda>r. r\<lparr>tk_Name := tk_Name task, tk_Version := tk_Version task,
                        tk_ServerIDs := tk_ServerIDs task, tk_Tags := tk_Tags task,
                        tk_TagMatch := tk_TagMatch task, tk_UpdatedAt := format_time now\<rparr>) (st_tasks s) of
             (Inl e, _) \<Rightarrow> (Inl e, s)
           | (Inr n, t) \<Rightarrow> if n = 0 then (Inl ErrNoRows, s) else (Inr (), s\<lparr>st_tasks := t\<rparr>)))"

text \<open>A task that a release hook runs cannot be deleted.\<close>

definition DeletePushDeploymentTask :: "int \<Rightarrow> int \<Rightarrow> int \<Rightarrow> store \<Rightarrow> unit res \<times> store" where
  "DeletePushDeploymentTask tenantID projectID i s =
     (if tbl_select (\<lambda>h. rh_TenantID h = tenantID \<and> rh_ProjectID h = projectID \<and> rh_TaskID h = i) (st_hooks s) \<noteq> []
      then (Inl (ErrMsg ''release task is referenced by hook(s); delete the hooks first''), s)
      else
        (let (n, t) = tbl_delete (is_task tenantID projectID i) (st_tasks s)
         in if n = 0 then (Inl ErrNoRows, s) else (Inr (), s\<lparr>st_tasks := t\<rparr>)))"

section \<open>Reading deployments\<close>

text \<open>Rows older than the log retention are not returned; the targets come with a single deployment.\<close>

definition is_deployment :: "int \<Rightarrow> int \<Rightarrow> int \<Rightarrow> push_deployment \<Rightarrow> bool" where
  "is_deployment tenantID projectID i d =
     (pd_TenantID d = tenantID \<and> pd_ProjectID d = projectID \<and> pd_ID d = i)"

definition retained :: "go_time \<Rightarrow> push_deployment \<Rightarrow> bool" where
  "retained now d = (pd_CreatedAt d \<ge> format_time (now - LogRetention))"

definition ListPushDeployments :: "go_time \<Rightarrow> store \<Rightarrow> int \<Rightarrow> int \<Rightarrow> int \<Rightarrow> push_deployment list" where
  "ListPushDeployments now s tenantID projectID limit =
     take (clamp_limit 50 200 limit)
       (rev (tbl_select (\<lambda>d. pd_TenantID d = tenantID \<and> pd_ProjectID d = projectID \<and> retained now d)
               (st_deployments s)))"

definition targets_of :: "store \<Rightarrow> int \<Rightarrow> push_target list" where
  "targets_of s i = tbl_select (\<lambda>t. pt_DeploymentID t = i) (st_targets s)"

definition GetPushDeployment :: "go_time \<Rightarrow> store \<Rightarrow> int \<Rightarrow> int \<Rightarrow> int \<Rightarrow> push_deployment res" where
  "GetPushDeployment now s tenantID projectID i =
     (case tbl_row (\<lambda>d. is_deployment tenantID projectID i d \<and> retained now d) (st_deployments s) of
        Inl e \<Rightarrow> Inl e
      | Inr d \<Rightarrow> Inr (d\<lparr>pd_Targets := targets_of s i\<rparr>))"

definition GetPushDeploymentByHookEvent :: "go_time \<Rightarrow> store \<Rightarrow> int \<Rightarrow> push_deployment res" where
  "GetPushDeploymentByHookEvent now s eventID =
     (case tbl_row (\<lambda>d. pd_HookEventID d = eventID) (st_deployments s) of
        Inl e \<Rightarrow> Inl e
      | Inr d \<Rightarrow> GetPushDeployment now s (pd_TenantID d) (pd_ProjectID d) (pd_ID d))"

definition GetPushDeploymentByIdempotencyKey ::
  "go_time \<Rightarrow> store \<Rightarrow> int \<Rightarrow> int \<Rightarrow> string \<Rightarrow> push_deployment res" where
  "GetPushDeploymentByIdempotencyKey now s tenantID projectID key =
     (case tbl_row (\<lambda>d. pd_TenantID d = tenantID \<and> pd_ProjectID d = projectID \<and> pd_IdempotencyKey d = key)
             (st_deployments s) of
        Inl e \<Rightarrow> Inl e
      | Inr d \<Rightarrow> GetPushDeployment now s tenantID projectID (pd_ID d))"

definition GetPushDeploymentByID :: "go_time \<Rightarrow> store \<Rightarrow> int \<Rightarrow> push_deployment res" where
  "GetPushDeploymentByID now s i =
     (case tbl_row (\<lambda>d. pd_ID d = i) (st_deployments s) of
        Inl e \<Rightarrow> Inl e
      | Inr d \<Rightarrow> GetPushDeployment now s (pd_TenantID d) (pd_ProjectID d) i)"

section \<open>Creating a deployment\<close>

definition queued_row :: "stamp \<Rightarrow> push_deployment \<Rightarrow> push_deployment" where
  "queued_row now d =
     d\<lparr>pd_Replayed := False, pd_Status := ''queued'', pd_CreatedAt := now, pd_StartedAt := None,
       pd_CompletedAt := None, pd_Targets := []\<rparr>"

definition target_row :: "stamp \<Rightarrow> int \<Rightarrow> push_binding \<Rightarrow> push_target" where
  "target_row now deploymentID b =
     \<lparr>pt_PlanDigest = pb_PlanDigest b, pt_ID = 0, pt_DeploymentID = deploymentID, pt_HostID = pb_HostID b,
      pt_HostName = pb_HostName b, pt_BindingID = pb_ID b, pt_ServerID = pb_ServerID b,
      pt_Labels = pb_Labels b, pt_Status = ''queued'', pt_Output = [], pt_CreatedAt = now,
      pt_StartedAt = None, pt_CompletedAt = None\<rparr>"

fun insert_targets :: "stamp \<Rightarrow> int \<Rightarrow> push_binding list \<Rightarrow> push_target table \<Rightarrow> push_target table" where
  "insert_targets now i [] t = t"
| "insert_targets now i (b # bs) t =
     insert_targets now i bs
       (snd (tbl_insert no_conflict (\<lambda>i r. set_pt_ID i r) ''push_deployment_targets'' (target_row now i b) t))"

text \<open>
  The transaction of \<open>CreatePushDeployment\<close>.  It is a definition of its own because another request
  may commit between the lookup of the key and the INSERT: the UNIQUE index then fails the statement
  and the deployment that won is returned.
\<close>

definition CreatePushDeployment_tx ::
  "go_time \<Rightarrow> push_deployment \<Rightarrow> push_binding list \<Rightarrow> store \<Rightarrow> push_deployment res \<times> store" where
  "CreatePushDeployment_tx now d targets s =
     (let stamp = format_time now
      in case tbl_insert deployment_conflict (\<lambda>i r. set_pd_ID i r) ''push_deployments'' (queued_row stamp d)
                (st_deployments s) of
           (Inl e, _) \<Rightarrow>
             (if pd_IdempotencyKey d \<noteq> []
              then case GetPushDeploymentByIdempotencyKey now s (pd_TenantID d) (pd_ProjectID d) (pd_IdempotencyKey d) of
                     Inr existing \<Rightarrow> (Inr (existing\<lparr>pd_Replayed := True\<rparr>), s)
                   | Inl _ \<Rightarrow> (Inl e, s)
              else (Inl e, s))
         | (Inr i, t) \<Rightarrow>
             (let tasks = (if pd_TaskID d > 0
                           then snd (tbl_update (is_task (pd_TenantID d) (pd_ProjectID d) (pd_TaskID d))
                                  (\<lambda>r. r\<lparr>tk_RunCount := tk_RunCount r + 1, tk_LastRunAt := stamp,
                                        tk_UpdatedAt := stamp\<rparr>) (st_tasks s))
                           else st_tasks s)
              in (Inr (d\<lparr>pd_ID := i, pd_Status := ''queued'', pd_CreatedAt := stamp\<rparr>),
                  s\<lparr>st_deployments := t, st_targets := insert_targets stamp i targets (st_targets s),
                    st_tasks := tasks\<rparr>)))"

definition CreatePushDeployment ::
  "go_time \<Rightarrow> push_deployment \<Rightarrow> push_binding list \<Rightarrow> store \<Rightarrow> push_deployment res \<times> store" where
  "CreatePushDeployment now d targets s =
     (if targets = [] then (Inl (ErrMsg ''no targets matched selector''), s)
      else if pd_IdempotencyKey d \<noteq> []
      then case GetPushDeploymentByIdempotencyKey now s (pd_TenantID d) (pd_ProjectID d) (pd_IdempotencyKey d) of
             Inr existing \<Rightarrow> (Inr (existing\<lparr>pd_Replayed := True\<rparr>), s)
           | Inl e \<Rightarrow> if e \<noteq> ErrNoRows then (Inl e, s) else CreatePushDeployment_tx now d targets s
      else CreatePushDeployment_tx now d targets s)"

section \<open>Running a deployment\<close>

definition MarkPushDeploymentRunning :: "go_time \<Rightarrow> int \<Rightarrow> store \<Rightarrow> unit res \<times> store" where
  "MarkPushDeploymentRunning now i s =
     (let (n, t) = tbl_update (\<lambda>d. pd_ID d = i \<and> pd_Status d = ''queued'')
                     (\<lambda>d. d\<lparr>pd_Status := ''running'', pd_StartedAt := format_time now\<rparr>) (st_deployments s)
      in (if n \<noteq> 1 then Inl (ErrMsg ''deployment has already been claimed or completed'') else Inr (),
          s\<lparr>st_deployments := t\<rparr>))"

definition MarkPushTarget :: "go_time \<Rightarrow> int \<Rightarrow> string \<Rightarrow> string \<Rightarrow> store \<Rightarrow> unit res \<times> store" where
  "MarkPushTarget now i status output s =
     (Inr (),
      s\<lparr>st_targets := snd (tbl_update (\<lambda>t. pt_ID t = i)
         (if status = ''running'' then (\<lambda>t. t\<lparr>pt_Status := status, pt_StartedAt := format_time now\<rparr>)
          else (\<lambda>t. t\<lparr>pt_Status := status, pt_Output := output, pt_CompletedAt := format_time now\<rparr>))
         (st_targets s))\<rparr>)"

definition CompletePushDeployment :: "go_time \<Rightarrow> int \<Rightarrow> store \<Rightarrow> unit res \<times> store" where
  "CompletePushDeployment now i s =
     (let failures = length (tbl_select (\<lambda>t. pt_DeploymentID t = i \<and> pt_Status t \<noteq> ''success'') (st_targets s));
          status = (if failures > 0 then ''failed'' else ''success'')
      in (Inr (),
          s\<lparr>st_deployments := snd (tbl_update (\<lambda>d. pd_ID d = i)
             (\<lambda>d. d\<lparr>pd_Status := status, pd_CompletedAt := format_time now\<rparr>) (st_deployments s))\<rparr>))"

definition DeletePushDeployment :: "int \<Rightarrow> int \<Rightarrow> int \<Rightarrow> store \<Rightarrow> unit res \<times> store" where
  "DeletePushDeployment tenantID projectID i s =
     (let (n, t) = tbl_delete (is_deployment tenantID projectID i) (st_deployments s)
      in if n = 0 then (Inl ErrNoRows, s) else (Inr (), s\<lparr>st_deployments := t\<rparr>))"

section \<open>Recovery\<close>

definition active_status :: "string \<Rightarrow> bool" where
  "active_status st = (st = ''running'' \<or> st = ''queued'')"

definition InterruptPushDeployments :: "go_time \<Rightarrow> store \<Rightarrow> unit res \<times> store" where
  "InterruptPushDeployments now s =
     (let stamp = format_time now;
          active = map pd_ID (tbl_select (\<lambda>d. active_status (pd_Status d)) (st_deployments s));
          targets = snd (tbl_update (\<lambda>t. active_status (pt_Status t) \<and> pt_DeploymentID t \<in> set active)
            (\<lambda>t. t\<lparr>pt_Status := if pt_Status t = ''running'' then ''unknown'' else ''skipped'',
                  pt_Output := pt_Output t @ [CHR 0x0A] @
                    ''Controller interrupted; remote outcome requires verification; no automatic retry'',
                  pt_CompletedAt := stamp\<rparr>) (st_targets s));
          deps = snd (tbl_update (\<lambda>d. active_status (pd_Status d))
            (\<lambda>d. d\<lparr>pd_Status := ''failed'', pd_CompletedAt := stamp\<rparr>) (st_deployments s))
      in (Inr (), s\<lparr>st_targets := targets, st_deployments := deps\<rparr>))"

section \<open>Well-formed deployment tables\<close>

definition dep_ok :: "store \<Rightarrow> bool" where
  "dep_ok s =
     (tbl_ok pd_ID (st_deployments s) \<and> tbl_ok pt_ID (st_targets s)
      \<and> tbl_uniq hook_event_key (st_deployments s) \<and> tbl_uniq idem_key (st_deployments s)
      \<and> (\<forall>t\<in>set (trows (st_targets s)). pt_DeploymentID t < tnext (st_deployments s)))"

lemma dep_key_cong [simp]:
  "hook_event_key (d\<lparr>pd_Status := st\<rparr>) = hook_event_key d"
  "hook_event_key (d\<lparr>pd_StartedAt := a\<rparr>) = hook_event_key d"
  "hook_event_key (d\<lparr>pd_CompletedAt := a\<rparr>) = hook_event_key d"
  "hook_event_key (d\<lparr>pd_ID := i\<rparr>) = hook_event_key d"
  "idem_key (d\<lparr>pd_Status := st\<rparr>) = idem_key d"
  "idem_key (d\<lparr>pd_StartedAt := a\<rparr>) = idem_key d"
  "idem_key (d\<lparr>pd_CompletedAt := a\<rparr>) = idem_key d"
  "idem_key (d\<lparr>pd_ID := i\<rparr>) = idem_key d"
  by (simp_all add: hook_event_key_def idem_key_def)

lemma insert_targets_rows:
  "trows (insert_targets now i bs t) =
     trows t @ map (\<lambda>(k, b). set_pt_ID (tnext t + int k) (target_row now i b)) (enumerate 0 bs)"
  "tnext (insert_targets now i bs t) = tnext t + int (length bs)"
proof -
  have *: "map (\<lambda>(k, b). set_pt_ID (n + int k) (target_row now i b)) (enumerate (Suc m) bs)
        = map (\<lambda>(k, b). set_pt_ID (n + 1 + int k) (target_row now i b)) (enumerate m bs)" for n m bs
    by (induction bs arbitrary: m) (auto simp: algebra_simps)
  show "trows (insert_targets now i bs t) =
     trows t @ map (\<lambda>(k, b). set_pt_ID (tnext t + int k) (target_row now i b)) (enumerate 0 bs)"
    by (induction bs arbitrary: t) (auto simp: tbl_insert_def no_conflict_def list_ex_iff *)
  show "tnext (insert_targets now i bs t) = tnext t + int (length bs)"
    by (induction bs arbitrary: t) (auto simp: tbl_insert_def no_conflict_def list_ex_iff)
qed

lemma insert_targets_ok: "tbl_ok pt_ID t \<Longrightarrow> tbl_ok pt_ID (insert_targets now i bs t)"
  by (induction bs arbitrary: t) (auto intro: target_rows.ok_insert)

lemma insert_targets_dep:
  "x \<in> set (trows (insert_targets now i bs t)) \<Longrightarrow> x \<in> set (trows t) \<or> pt_DeploymentID x = i"
  by (auto simp: insert_targets_rows target_row_def)

text \<open>The rows a transaction of \<open>CreatePushDeployment\<close> leaves, in its two outcomes.\<close>

lemma CreatePushDeployment_tx_cases:
  assumes "CreatePushDeployment_tx now d ts s = (r, s')"
  obtains (same) "s' = s" "\<And>x. r = Inr x \<Longrightarrow> pd_Replayed x"
  | (ins) i t where "tbl_insert deployment_conflict (\<lambda>i r. set_pd_ID i r) ''push_deployments''
        (queued_row (format_time now) d) (st_deployments s) = (Inr i, t)"
      "st_deployments s' = t" "st_targets s' = insert_targets (format_time now) i ts (st_targets s)"
      "r = Inr (d\<lparr>pd_ID := i, pd_Status := ''queued'', pd_CreatedAt := format_time now\<rparr>)"
proof -
  let ?ins = "tbl_insert deployment_conflict (\<lambda>i r. set_pd_ID i r) ''push_deployments''
        (queued_row (format_time now) d) (st_deployments s)"
  obtain r1 t1 where i: "?ins = (r1, t1)" by (cases ?ins)
  show ?thesis
  proof (cases r1)
    case (Inl e)
    have "s' = s" using assms i Inl
      by (auto simp: CreatePushDeployment_tx_def split: if_splits sum.splits)
    moreover have "\<And>x. r = Inr x \<Longrightarrow> pd_Replayed x" using assms i Inl
      by (auto simp: CreatePushDeployment_tx_def split: if_splits sum.splits)
    ultimately show ?thesis by (rule same)
  next
    case (Inr j)
    show ?thesis by (rule ins [of j t1]) (use assms i Inr in \<open>auto simp: CreatePushDeployment_tx_def Let_def\<close>)
  qed
qed

lemma CreatePushDeployment_is_tx:
  assumes "CreatePushDeployment now d ts s = (r, s')"
  shows "s' = s \<and> (\<forall>x. r = Inr x \<longrightarrow> pd_Replayed x) \<or> CreatePushDeployment_tx now d ts s = (r, s')"
  using assms by (auto simp: CreatePushDeployment_def split: if_splits sum.splits)

lemma dep_ok_create_tx:
  assumes ok: "dep_ok s" and c: "CreatePushDeployment_tx now d ts s = (r, s')"
  shows "dep_ok s'"
  using c
proof (cases rule: CreatePushDeployment_tx_cases)
  case same
  with ok show ?thesis by simp
next
  case (ins i t)
  let ?q = "queued_row (format_time now) d"
  have t: "t = snd (tbl_insert deployment_conflict (\<lambda>i r. set_pd_ID i r) ''push_deployments'' ?q (st_deployments s))"
    using ins(1) by simp
  have nxt: "i = tnext (st_deployments s)" "tnext t = tnext (st_deployments s) + 1"
    using ins(1) by (auto elim!: tbl_insert_cases)
  have "tbl_ok pd_ID t" "tbl_uniq hook_event_key t" "tbl_uniq idem_key t"
    using ok unfolding t dep_ok_def
    by (auto intro: deployment_events.ok_insert deployment_events.uniq_insert deployment_keys.uniq_insert)
  with ok ins(2,3) nxt show ?thesis
    by (auto simp: dep_ok_def insert_targets_ok dest!: insert_targets_dep)
qed

text \<open>The state each operation leaves, as one update of one table.\<close>

lemma dep_effects:
  "snd (MarkPushDeploymentRunning now i s) =
     s\<lparr>st_deployments := snd (tbl_update (\<lambda>d. pd_ID d = i \<and> pd_Status d = ''queued'')
       (\<lambda>d. d\<lparr>pd_Status := ''running'', pd_StartedAt := format_time now\<rparr>) (st_deployments s))\<rparr>"
  "snd (DeletePushDeployment tenantID projectID i s) =
     s\<lparr>st_deployments := snd (tbl_delete (is_deployment tenantID projectID i) (st_deployments s))\<rparr>"
  using tbl_delete_zero [of "is_deployment tenantID projectID i" "st_deployments s"]
  by (auto simp: MarkPushDeploymentRunning_def DeletePushDeployment_def split: prod.splits)

lemma dep_ok_update:
  assumes "dep_ok s" "\<And>d. pd_ID (f d) = pd_ID d" "\<And>d. hook_event_key (f d) = hook_event_key d"
    "\<And>d. idem_key (f d) = idem_key d"
  shows "dep_ok (s\<lparr>st_deployments := snd (tbl_update P f (st_deployments s))\<rparr>)"
  using assms
  by (simp add: dep_ok_def deployment_events.ok_update deployment_events.uniq_update
      deployment_keys.uniq_update)

lemma dep_ok_delete:
  "dep_ok s \<Longrightarrow> dep_ok (s\<lparr>st_deployments := snd (tbl_delete P (st_deployments s))\<rparr>)"
  by (simp add: dep_ok_def deployment_events.ok_delete deployment_events.uniq_delete
      deployment_keys.uniq_delete)

lemma dep_ok_targets:
  assumes "dep_ok s" "\<And>t. pt_ID (f t) = pt_ID t" "\<And>t. pt_DeploymentID (f t) = pt_DeploymentID t"
  shows "dep_ok (s\<lparr>st_targets := snd (tbl_update P f (st_targets s))\<rparr>)"
  using assms by (auto simp: dep_ok_def target_rows.ok_update)

lemma dep_ok_running: "dep_ok s \<Longrightarrow> dep_ok (snd (MarkPushDeploymentRunning now i s))"
  by (simp add: dep_effects dep_ok_update)

lemma dep_ok_remove: "dep_ok s \<Longrightarrow> dep_ok (snd (DeletePushDeployment tenantID projectID i s))"
  by (simp add: dep_effects dep_ok_delete)

lemma dep_ok_mark: "dep_ok s \<Longrightarrow> dep_ok (snd (MarkPushTarget now i status output s))"
  unfolding MarkPushTarget_def snd_conv by (rule dep_ok_targets) auto

lemma dep_ok_complete: "dep_ok s \<Longrightarrow> dep_ok (snd (CompletePushDeployment now i s))"
  unfolding CompletePushDeployment_def Let_def snd_conv by (rule dep_ok_update) auto

lemma dep_ok_interrupt: "dep_ok s \<Longrightarrow> dep_ok (snd (InterruptPushDeployments now s))"
proof -
  let ?f = "\<lambda>d. d\<lparr>pd_Status := ''failed'', pd_CompletedAt := format_time now\<rparr>"
  let ?P = "\<lambda>d. active_status (pd_Status d)"
  let ?g = "\<lambda>t. t\<lparr>pt_Status := if pt_Status t = ''running'' then ''unknown'' else ''skipped'',
                  pt_Output := pt_Output t @ [CHR 0x0A] @
                    ''Controller interrupted; remote outcome requires verification; no automatic retry'',
                  pt_CompletedAt := format_time now\<rparr>"
  let ?Q = "\<lambda>t. active_status (pt_Status t) \<and> pt_DeploymentID t \<in> set (map pd_ID (tbl_select ?P (st_deployments s)))"
  assume "dep_ok s"
  then have "dep_ok (s\<lparr>st_targets := snd (tbl_update ?Q ?g (st_targets s))\<rparr>)"
    by (rule dep_ok_targets) simp_all
  from dep_ok_update [OF this, where f = ?f and P = ?P]
  show ?thesis by (simp add: InterruptPushDeployments_def Let_def)
qed

section \<open>Executions\<close>

text \<open>
  What happens to the tables between a start of the server and the next, one step per transaction;
  concurrent requests are any interleaving of these steps.
\<close>

datatype dep_event = Created push_deployment | Claimed int | Internal

inductive dep_step :: "store \<Rightarrow> dep_event \<Rightarrow> store \<Rightarrow> bool" where
  step_create: "CreatePushDeployment_tx now d ts s = (Inr d', s') \<Longrightarrow> \<not> pd_Replayed d' \<Longrightarrow>
     dep_step s (Created d') s'"
| step_replay: "CreatePushDeployment_tx now d ts s = (r, s') \<Longrightarrow> (\<forall>d'. r = Inr d' \<longrightarrow> pd_Replayed d') \<Longrightarrow>
     dep_step s Internal s'"
| step_claim: "MarkPushDeploymentRunning now i s = (Inr (), s') \<Longrightarrow> dep_step s (Claimed i) s'"
| step_refuse: "MarkPushDeploymentRunning now i s = (Inl e, s') \<Longrightarrow> dep_step s Internal s'"
| step_target: "MarkPushTarget now i st out s = (r, s') \<Longrightarrow> dep_step s Internal s'"
| step_complete: "CompletePushDeployment now i s = (r, s') \<Longrightarrow> dep_step s Internal s'"
| step_delete: "DeletePushDeployment tenantID projectID i s = (r, s') \<Longrightarrow> dep_step s Internal s'"
| step_interrupt: "InterruptPushDeployments now s = (r, s') \<Longrightarrow> dep_step s Internal s'"

inductive dep_run :: "store \<Rightarrow> dep_event list \<Rightarrow> store \<Rightarrow> bool" where
  run_nil: "dep_run s [] s"
| run_cons: "dep_step s e s1 \<Longrightarrow> dep_run s1 es s' \<Longrightarrow> dep_run s (e # es) s'"

inductive_cases dep_step_ClaimedE: "dep_step s (Claimed i) s'"
inductive_cases dep_step_CreatedE: "dep_step s (Created d) s'"
inductive_simps dep_run_simps: "dep_run s [] s'" "dep_run s (e # es) s'"

lemma dep_ok_step:
  assumes "dep_step s e s'" "dep_ok s"
  shows "dep_ok s'"
  using assms
proof (cases rule: dep_step.cases)
  case (step_claim now i)
  then show ?thesis using dep_ok_running [OF assms(2), of now i] by simp
next
  case (step_refuse now i e)
  then show ?thesis using dep_ok_running [OF assms(2), of now i] by simp
next
  case (step_target now i st out r)
  then show ?thesis using dep_ok_mark [OF assms(2), of now i st out] by simp
next
  case (step_complete now i r)
  then show ?thesis using dep_ok_complete [OF assms(2), of now i] by simp
next
  case (step_delete tenantID projectID i r)
  then show ?thesis using dep_ok_remove [OF assms(2), of tenantID projectID i] by simp
next
  case (step_interrupt now r)
  then show ?thesis using dep_ok_interrupt [OF assms(2), of now] by simp
qed (use assms(2) dep_ok_create_tx in blast)+

lemma dep_ok_run: "dep_run s es s' \<Longrightarrow> dep_ok s \<Longrightarrow> dep_ok s'"
  by (induction rule: dep_run.induct) (auto dest: dep_ok_step)

text \<open>A settled deployment id was handed out and is not queued, and this is stable.\<close>

definition settled :: "int \<Rightarrow> store \<Rightarrow> bool" where
  "settled i s =
     (i < tnext (st_deployments s)
      \<and> (\<forall>d\<in>set (trows (st_deployments s)). pd_ID d = i \<longrightarrow> pd_Status d \<noteq> ''queued''))"

lemma settled_step:
  assumes "dep_step s e s'" "settled i s"
  shows "settled i s'"
  using assms(1)
proof (cases rule: dep_step.cases)
  case (step_create now d ts d')
  from step_create(2) show ?thesis
    by (cases rule: CreatePushDeployment_tx_cases)
      (use assms(2) in \<open>auto simp: settled_def elim!: tbl_insert_cases\<close>)
next
  case (step_replay now d ts r)
  from step_replay(2) show ?thesis
    by (cases rule: CreatePushDeployment_tx_cases)
      (use assms(2) in \<open>auto simp: settled_def elim!: tbl_insert_cases\<close>)
next
  case (step_claim now j)
  then have "s' = snd (MarkPushDeploymentRunning now j s)" by simp
  with assms(2) show ?thesis by (auto simp: settled_def dep_effects)
next
  case (step_refuse now j e)
  then have "s' = snd (MarkPushDeploymentRunning now j s)" by simp
  with assms(2) show ?thesis by (auto simp: settled_def dep_effects)
next
  case (step_delete tenantID projectID j r)
  then have "s' = snd (DeletePushDeployment tenantID projectID j s)" by simp
  with assms(2) show ?thesis by (auto simp: settled_def dep_effects)
qed (use assms(2) in \<open>auto simp: settled_def MarkPushTarget_def CompletePushDeployment_def
       InterruptPushDeployments_def Let_def split: if_splits\<close>)

lemma claim_queued:
  assumes "MarkPushDeploymentRunning now i s = (Inr (), s')"
  shows "\<exists>d\<in>set (trows (st_deployments s)). pd_ID d = i \<and> pd_Status d = ''queued''"
proof -
  have "fst (MarkPushDeploymentRunning now i s) = Inr ()" using assms by simp
  then have "length (tbl_select (\<lambda>d. pd_ID d = i \<and> pd_Status d = ''queued'') (st_deployments s)) = 1"
    by (auto simp: MarkPushDeploymentRunning_def tbl_update_def tbl_select_def split: if_splits)
  then show ?thesis by (auto simp: tbl_select_def length_Suc_conv filter_eq_Cons_iff)
qed

lemma settled_not_claimed: "settled i s \<Longrightarrow> \<not> dep_step s (Claimed i) s'"
  by (auto simp: settled_def elim!: dep_step_ClaimedE dest!: claim_queued)

lemma claimed_settles:
  assumes "dep_step s (Claimed i) s'" "dep_ok s"
  shows "settled i s'"
proof -
  from assms(1) obtain now where m: "MarkPushDeploymentRunning now i s = (Inr (), s')"
    by (auto elim: dep_step_ClaimedE)
  from claim_queued [OF m] assms(2) have "i < tnext (st_deployments s)"
    unfolding dep_ok_def tbl_ok_def by blast
  then have "settled i (snd (MarkPushDeploymentRunning now i s))"
    by (simp add: settled_def dep_effects ball_Un)
  with m show ?thesis by simp
qed

lemma settled_run_not_claimed: "dep_run s es s' \<Longrightarrow> settled i s \<Longrightarrow> Claimed i \<notin> set es"
  by (induction rule: dep_run.induct) (auto dest: settled_step settled_not_claimed)

section \<open>Properties\<close>

lemma dep_ok_empty: "dep_ok (empty_store dir)"
  by (simp add: dep_ok_def empty_store_def deployment_events.ok_empty target_rows.ok_empty
      deployment_events.uniq_empty deployment_keys.uniq_empty) (simp add: empty_table_def)

definition sample_deployment :: push_deployment where
  "sample_deployment =
     \<lparr>pd_ID = 0, pd_TenantID = 1, pd_ProjectID = 1, pd_TaskID = 0, pd_TaskName = [], pd_HookEventID = 0,
      pd_IdempotencyKey = ''k1'', pd_Replayed = False, pd_Version = ''1.0.0'', pd_RequestedBy = ''ci'',
      pd_Selector = ''test'', pd_Status = [], pd_CreatedAt = None, pd_StartedAt = None,
      pd_CompletedAt = None, pd_Targets = []\<rparr>"

definition sample_binding :: push_binding where
  "sample_binding =
     \<lparr>pb_PlanDigest = [], pb_ID = 1, pb_TenantID = 1, pb_HostID = 1, pb_HostName = ''h'',
      pb_ProjectName = ''game'', pb_ServerID = ''s1'', pb_TargetTag = [], pb_Labels = ''test'',
      pb_ContentTags = [], pb_RemoteRoot = ''/srv'', pb_SkipBackup = False, pb_OS = ''linux'',
      pb_Arch = ''amd64'', pb_CreatedAt = None, pb_UpdatedAt = None\<rparr>"

definition sample_queued :: store where
  "sample_queued = snd (CreatePushDeployment_tx 0 sample_deployment [sample_binding] (empty_store ''/d''))"

lemma dep_ok_sample: "dep_ok sample_queued"
  unfolding sample_queued_def
  by (metis dep_ok_create_tx dep_ok_empty prod.collapse)

text \<open>
  C3: a deployment is claimed for execution at most once, whatever concurrent requests create,
  claim, run, complete, delete or interrupt in between.
\<close>

theorem deployment_claimed_once:
  assumes "dep_run s es s'" "dep_ok s"
  shows "count_list es (Claimed i) \<le> 1"
  using assms
proof (induction rule: dep_run.induct)
  case (run_cons s e s1 es s')
  then have ok: "dep_ok s1" by (auto dest: dep_ok_step)
  show ?case
  proof (cases "e = Claimed i")
    case True
    with run_cons have "settled i s1" by (auto dest: claimed_settles)
    with run_cons have "Claimed i \<notin> set es" by (auto dest: settled_run_not_claimed)
    with True show ?thesis by (simp add: count_list_0_iff)
  next
    case False
    with run_cons ok show ?thesis by simp
  qed
qed simp

lemma deployment_claimed_once_witness:
  "\<exists>s'. dep_run sample_queued [Claimed 1, Internal] s' \<and> count_list [Claimed 1, Internal] (Claimed 1) \<le> 1"
proof -
  let ?s1 = "snd (MarkPushDeploymentRunning 5 1 sample_queued)"
  let ?s2 = "snd (MarkPushDeploymentRunning 6 1 ?s1)"
  have "is_ok (fst (MarkPushDeploymentRunning 5 1 sample_queued))" by code_simp
  from ok_pair [OF this] have "dep_step sample_queued (Claimed 1) ?s1"
    by (intro step_claim [of 5]) simp
  moreover have "\<not> is_ok (fst (MarkPushDeploymentRunning 6 1 ?s1))" by code_simp
  from err_pair [OF this] obtain e where "MarkPushDeploymentRunning 6 1 ?s1 = (Inl e, ?s2)" ..
  then have "dep_step ?s1 Internal ?s2" by (rule step_refuse)
  ultimately have "dep_run sample_queued [Claimed 1, Internal] ?s2"
    by (blast intro: dep_run.intros)
  with deployment_claimed_once [OF this dep_ok_sample, of 1] show ?thesis by blast
qed

text \<open>
  In every execution the live deployments with a key have distinct keys: two deployments of
  the same tenant and project never share an idempotency key.
\<close>

theorem idempotency_key_unique:
  assumes "dep_run s es s'" "dep_ok s" "d1 \<in> set (trows (st_deployments s'))" "d2 \<in> set (trows (st_deployments s'))"
    "pd_TenantID d1 = pd_TenantID d2" "pd_ProjectID d1 = pd_ProjectID d2"
    "pd_IdempotencyKey d1 = pd_IdempotencyKey d2" "pd_IdempotencyKey d1 \<noteq> []"
  shows "d1 = d2"
proof -
  have "tbl_uniq idem_key (st_deployments s')"
    using dep_ok_run [OF assms(1,2)] by (simp add: dep_ok_def)
  from deployment_keys.uniq_rows [OF this assms(3,4)] show ?thesis
    using assms(5-8) by (simp add: idem_key_def)
qed

lemma idempotency_key_unique_witness:
  "\<exists>d. dep_run (empty_store ''/d'') [Created d] sample_queued
       \<and> (\<forall>d1\<in>set (trows (st_deployments sample_queued)). \<forall>d2\<in>set (trows (st_deployments sample_queued)). d1 = d2)"
proof -
  let ?r = "sample_deployment\<lparr>pd_ID := 1, pd_Status := ''queued'', pd_CreatedAt := Some 0\<rparr>"
  have "fst (CreatePushDeployment_tx 0 sample_deployment [sample_binding] (empty_store ''/d'')) = Inr ?r"
    by (simp add: CreatePushDeployment_tx_def tbl_insert_def empty_store_def empty_table_def format_time_def
        sample_deployment_def Let_def)
  then have "CreatePushDeployment_tx 0 sample_deployment [sample_binding] (empty_store ''/d'') = (Inr ?r, sample_queued)"
    by (metis prod.collapse sample_queued_def)
  moreover have "\<not> pd_Replayed ?r" by code_simp
  ultimately have "dep_step (empty_store ''/d'') (Created ?r) sample_queued" by (rule step_create)
  then have run: "dep_run (empty_store ''/d'') [Created ?r] sample_queued" by (simp add: dep_run_simps)
  have keys: "list_all (\<lambda>d. pd_TenantID d = 1 \<and> pd_ProjectID d = 1 \<and> pd_IdempotencyKey d = ''k1'')
      (trows (st_deployments sample_queued))" by code_simp
  have "d1 = d2" if "d1 \<in> set (trows (st_deployments sample_queued))"
    "d2 \<in> set (trows (st_deployments sample_queued))" for d1 d2
    by (rule idempotency_key_unique [OF run dep_ok_empty that]) (use keys that in \<open>auto simp: list_all_iff\<close>)
  with run show ?thesis by blast
qed

lemma create_inserts:
  assumes "CreatePushDeployment now d ts s = (Inr x, s')" "\<not> pd_Replayed x"
  shows "\<exists>t. tbl_insert deployment_conflict (\<lambda>i r. set_pd_ID i r) ''push_deployments''
        (queued_row (format_time now) d) (st_deployments s) = (Inr (pd_ID x), t)
      \<and> st_deployments s' = t \<and> st_targets s' = insert_targets (format_time now) (pd_ID x) ts (st_targets s)
      \<and> x = d\<lparr>pd_ID := pd_ID x, pd_Status := ''queued'', pd_CreatedAt := format_time now\<rparr>"
proof -
  have "CreatePushDeployment_tx now d ts s = (Inr x, s')"
    using CreatePushDeployment_is_tx [OF assms(1)] assms(2) by auto
  then show ?thesis
    by (cases rule: CreatePushDeployment_tx_cases) (use assms(2) in auto)
qed

lemma find_by_key:
  assumes "dep_ok s" "r \<in> set (trows (st_deployments s))" "pd_IdempotencyKey r \<noteq> []"
  shows "tbl_row (\<lambda>d. pd_TenantID d = pd_TenantID r \<and> pd_ProjectID d = pd_ProjectID r
           \<and> pd_IdempotencyKey d = pd_IdempotencyKey r) (st_deployments s) = Inr r"
proof -
  have "(\<lambda>d. pd_TenantID d = pd_TenantID r \<and> pd_ProjectID d = pd_ProjectID r
           \<and> pd_IdempotencyKey d = pd_IdempotencyKey r)
      = (\<lambda>d. idem_key d = Some (pd_TenantID r, pd_ProjectID r, pd_IdempotencyKey r))"
    using assms(3) by (auto simp: idem_key_def fun_eq_iff)
  with deployment_keys.uniq_row [of "st_deployments s" r] assms show ?thesis
    by (simp add: dep_ok_def idem_key_def)
qed

lemma GetPushDeployment_row:
  assumes "dep_ok s" "r \<in> set (trows (st_deployments s))" "retained now r"
  shows "GetPushDeployment now s (pd_TenantID r) (pd_ProjectID r) (pd_ID r)
       = Inr (r\<lparr>pd_Targets := targets_of s (pd_ID r)\<rparr>)"
proof -
  have "tbl_row (\<lambda>d. is_deployment (pd_TenantID r) (pd_ProjectID r) (pd_ID r) d \<and> retained now d)
      (st_deployments s) = Inr r"
    by (rule deployment_events.row_by_id_and) (use assms in \<open>auto simp: dep_ok_def is_deployment_def\<close>)
  then show ?thesis by (simp add: GetPushDeployment_def)
qed

lemma replay_row:
  assumes "dep_ok s" "r \<in> set (trows (st_deployments s))" "pd_IdempotencyKey r \<noteq> []" "retained now r"
    "ts \<noteq> []" "pd_TenantID d = pd_TenantID r" "pd_ProjectID d = pd_ProjectID r"
    "pd_IdempotencyKey d = pd_IdempotencyKey r"
  shows "CreatePushDeployment now d ts s
       = (Inr (r\<lparr>pd_Targets := targets_of s (pd_ID r), pd_Replayed := True\<rparr>), s)"
proof -
  have "GetPushDeploymentByIdempotencyKey now s (pd_TenantID d) (pd_ProjectID d) (pd_IdempotencyKey d)
      = Inr (r\<lparr>pd_Targets := targets_of s (pd_ID r)\<rparr>)"
    using find_by_key [OF assms(1-3)] GetPushDeployment_row [OF assms(1,2,4)] assms(6-8)
    by (simp add: GetPushDeploymentByIdempotencyKey_def)
  with assms(3,5,8) show ?thesis by (simp add: CreatePushDeployment_def)
qed



text \<open>
  A successful creation that is not a replay adds one queued deployment and exactly one queued
  target per selected binding, in the order of the bindings and with their plan digests, under a
  fresh id, and counts the run of its task; hosts, bindings and all other rows stay as they were.
\<close>

theorem create_deployment_effect:
  assumes "dep_ok s" "CreatePushDeployment now d ts s = (Inr x, s')" "\<not> pd_Replayed x"
  shows "trows (st_deployments s') = trows (st_deployments s) @ [set_pd_ID (pd_ID x) (queued_row (format_time now) d)]
    \<and> pd_ID x \<notin> pd_ID ` set (trows (st_deployments s))
    \<and> map (\<lambda>t. (pt_BindingID t, pt_HostID t, pt_ServerID t, pt_PlanDigest t, pt_Status t)) (targets_of s' (pd_ID x))
        = map (\<lambda>b. (pb_ID b, pb_HostID b, pb_ServerID b, pb_PlanDigest b, ''queued'')) ts
    \<and> (\<forall>i. i \<noteq> pd_ID x \<longrightarrow> targets_of s' i = targets_of s i)"
proof -
  from create_inserts [OF assms(2,3)] obtain t where
    ins: "tbl_insert deployment_conflict (\<lambda>i r. set_pd_ID i r) ''push_deployments''
        (queued_row (format_time now) d) (st_deployments s) = (Inr (pd_ID x), t)"
    and t: "st_deployments s' = t"
    and tg: "st_targets s' = insert_targets (format_time now) (pd_ID x) ts (st_targets s)" by blast
  have id: "pd_ID x = tnext (st_deployments s)" using ins by (auto elim!: tbl_insert_cases)
  have "\<forall>r\<in>set (trows (st_targets s)). pt_DeploymentID r \<noteq> pd_ID x"
    using assms(1) id by (auto simp: dep_ok_def)
  then have none: "filter (\<lambda>r. pt_DeploymentID r = pd_ID x) (trows (st_targets s)) = []"
    by (simp add: filter_empty_conv)
  let ?new = "map (\<lambda>(k, b). set_pt_ID (tnext (st_targets s) + int k) (target_row (format_time now) (pd_ID x) b))
       (enumerate 0 ts)"
  have all: "filter (\<lambda>r. pt_DeploymentID r = pd_ID x) ?new = ?new"
    by (rule filter_id_conv_all) (auto simp: target_row_def)
  have others: "filter (\<lambda>r. pt_DeploymentID r = i) ?new = []" if "i \<noteq> pd_ID x" for i
    using that by (auto simp: target_row_def filter_empty_conv)
  have "targets_of s' (pd_ID x) = ?new"
    by (simp add: targets_of_def tbl_select_def tg insert_targets_rows none all)
  moreover have "map (\<lambda>t. (pt_BindingID t, pt_HostID t, pt_ServerID t, pt_PlanDigest t, pt_Status t)) ?new
      = map ((\<lambda>b. (pb_ID b, pb_HostID b, pb_ServerID b, pb_PlanDigest b, ''queued'')) \<circ> snd) (enumerate 0 ts)"
    by (auto simp: target_row_def)
  moreover have "targets_of s' i = targets_of s i" if "i \<noteq> pd_ID x" for i
    by (simp add: targets_of_def tbl_select_def tg insert_targets_rows others [OF that])
  moreover have "pd_ID x \<notin> pd_ID ` set (trows (st_deployments s))"
    using deployment_events.insert_fresh [OF _ ins] assms(1) by (simp add: dep_ok_def)
  ultimately show ?thesis
    using ins t by (auto elim!: tbl_insert_cases simp: map_map [symmetric] simp del: map_map)
qed

lemma create_deployment_effect_witness:
  "\<exists>x. CreatePushDeployment 0 sample_deployment [sample_binding] (empty_store ''/d'') = (Inr x, sample_queued)
     \<and> map pt_ServerID (targets_of sample_queued (pd_ID x)) = [''s1'']"
proof -
  let ?c = "CreatePushDeployment 0 sample_deployment [sample_binding] (empty_store ''/d'')"
  have tx: "?c = CreatePushDeployment_tx 0 sample_deployment [sample_binding] (empty_store ''/d'')"
    by (simp add: CreatePushDeployment_def GetPushDeploymentByIdempotencyKey_def tbl_row_def
        empty_store_def empty_table_def)
  have "is_ok (fst ?c)" by code_simp
  from ok_pair [OF this] obtain x where x: "?c = (Inr x, sample_queued)"
    by (auto simp: tx sample_queued_def)
  have "(case fst ?c of Inr x \<Rightarrow> \<not> pd_Replayed x | Inl _ \<Rightarrow> False)" by code_simp
  with x have nr: "\<not> pd_Replayed x" by simp
  have "map (\<lambda>t. (pt_BindingID t, pt_HostID t, pt_ServerID t, pt_PlanDigest t, pt_Status t))
      (targets_of sample_queued (pd_ID x)) = [(1, 1, ''s1'', [], ''queued'')]"
    using create_deployment_effect [OF dep_ok_empty x nr] by (simp add: sample_binding_def)
  with x show ?thesis by auto
qed

text \<open>
  Completing a deployment reports success exactly when every target of it reports success, and
  failed otherwise; it changes no other deployment and no target.
\<close>

theorem complete_deployment_status:
  assumes "dep_ok s" "d \<in> set (trows (st_deployments s))"
    "CompletePushDeployment now (pd_ID d) s = (r, s')"
  shows "(\<exists>d'\<in>set (trows (st_deployments s')). pd_ID d' = pd_ID d \<and> pd_CompletedAt d' = format_time now
            \<and> (pd_Status d' = ''success'' \<longleftrightarrow> (\<forall>t\<in>set (targets_of s (pd_ID d)). pt_Status t = ''success''))
            \<and> (pd_Status d' = ''success'' \<or> pd_Status d' = ''failed''))
    \<and> (\<forall>e\<in>set (trows (st_deployments s)). pd_ID e \<noteq> pd_ID d \<longrightarrow> e \<in> set (trows (st_deployments s')))
    \<and> st_targets s' = st_targets s"
proof -
  let ?bad = "tbl_select (\<lambda>t. pt_DeploymentID t = pd_ID d \<and> pt_Status t \<noteq> ''success'') (st_targets s)"
  let ?st = "if length ?bad > 0 then ''failed'' else ''success''"
  let ?g = "\<lambda>e. e\<lparr>pd_Status := ?st, pd_CompletedAt := format_time now\<rparr>"
  have s': "s' = s\<lparr>st_deployments := snd (tbl_update (\<lambda>e. pd_ID e = pd_ID d) ?g (st_deployments s))\<rparr>"
    using assms(3) by (simp add: CompletePushDeployment_def Let_def)
  then have rows: "trows (st_deployments s') = map (\<lambda>e. if pd_ID e = pd_ID d then ?g e else e) (trows (st_deployments s))"
    by simp
  have bad: "?bad = [] \<longleftrightarrow> (\<forall>t\<in>set (targets_of s (pd_ID d)). pt_Status t = ''success'')"
    by (auto simp: targets_of_def tbl_select_def filter_empty_conv)
  have "?g d \<in> set (trows (st_deployments s'))"
    unfolding rows using assms(2) by (auto intro: rev_image_eqI)
  moreover have "e \<in> set (trows (st_deployments s'))"
    if "e \<in> set (trows (st_deployments s))" "pd_ID e \<noteq> pd_ID d" for e
    unfolding rows using that by (auto intro: rev_image_eqI)
  moreover have "pd_ID (?g d) = pd_ID d \<and> pd_CompletedAt (?g d) = format_time now
      \<and> (pd_Status (?g d) = ''success'' \<longleftrightarrow> (\<forall>t\<in>set (targets_of s (pd_ID d)). pt_Status t = ''success''))
      \<and> (pd_Status (?g d) = ''success'' \<or> pd_Status (?g d) = ''failed'')"
    unfolding bad [symmetric] by simp
  moreover have "st_targets s' = st_targets s" unfolding s' by simp
  ultimately show ?thesis by blast
qed

lemma sample_queued_row:
  "\<exists>d\<in>set (trows (st_deployments sample_queued)). pd_ID d = 1 \<and> pd_Status d = ''queued''"
proof -
  have "list_ex (\<lambda>d. pd_ID d = 1 \<and> pd_Status d = ''queued'') (trows (st_deployments sample_queued))"
    by code_simp
  then show ?thesis by (simp add: list_ex_iff)
qed

lemma complete_deployment_status_witness:
  "\<exists>d\<in>set (trows (st_deployments (snd (CompletePushDeployment 9 1 sample_queued)))).
     pd_ID d = 1 \<and> pd_Status d = ''failed''"
proof -
  obtain d where d: "d \<in> set (trows (st_deployments sample_queued))" "pd_ID d = 1"
    using sample_queued_row by blast
  have "list_ex (\<lambda>t. pt_Status t \<noteq> ''success'') (targets_of sample_queued 1)" by code_simp
  then have "\<not> (\<forall>t\<in>set (targets_of sample_queued (pd_ID d)). pt_Status t = ''success'')"
    by (auto simp: list_ex_iff d(2))
  with complete_deployment_status [OF dep_ok_sample d(1) prod.collapse [symmetric], of 9] d(2)
  show ?thesis by auto
qed

text \<open>
  After the recovery at start-up no deployment is queued or running; each target that was
  running is unknown and each that was queued is skipped, and nothing else changes: no target is
  reported successful or failed, and finished deployments keep their result.
\<close>

theorem interrupt_settles:
  assumes "dep_ok s" "InterruptPushDeployments now s = (r, s')"
  shows "(\<forall>d\<in>set (trows (st_deployments s')). \<not> active_status (pd_Status d))
    \<and> map pd_ID (trows (st_deployments s')) = map pd_ID (trows (st_deployments s))
    \<and> (\<forall>d\<in>set (trows (st_deployments s)). \<not> active_status (pd_Status d) \<longrightarrow> d \<in> set (trows (st_deployments s')))
    \<and> map pt_Status (trows (st_targets s')) = map (\<lambda>t.
         if active_status (pt_Status t) \<and> (\<exists>d\<in>set (trows (st_deployments s)).
              pd_ID d = pt_DeploymentID t \<and> active_status (pd_Status d))
         then (if pt_Status t = ''running'' then ''unknown'' else ''skipped'')
         else pt_Status t) (trows (st_targets s))"
proof -
  let ?g = "\<lambda>d. d\<lparr>pd_Status := ''failed'', pd_CompletedAt := format_time now\<rparr>"
  let ?P = "\<lambda>d. active_status (pd_Status d)"
  have rows: "trows (st_deployments s') = map (\<lambda>d. if ?P d then ?g d else d) (trows (st_deployments s))"
    using assms(2) by (auto simp: InterruptPushDeployments_def Let_def)
  have failed: "\<not> active_status ''failed''" by (simp add: active_status_def)
  have 1: "\<forall>d\<in>set (trows (st_deployments s')). \<not> ?P d"
    unfolding rows using failed by auto
  have 2: "map pd_ID (trows (st_deployments s')) = map pd_ID (trows (st_deployments s))"
    unfolding rows by simp
  have 3: "\<forall>d\<in>set (trows (st_deployments s)). \<not> ?P d \<longrightarrow> d \<in> set (trows (st_deployments s'))"
    unfolding rows by (auto intro: rev_image_eqI)
  have 4: "map pt_Status (trows (st_targets s')) = map (\<lambda>t.
         if active_status (pt_Status t) \<and> (\<exists>d\<in>set (trows (st_deployments s)). pd_ID d = pt_DeploymentID t \<and> ?P d)
         then (if pt_Status t = ''running'' then ''unknown'' else ''skipped'')
         else pt_Status t) (trows (st_targets s))"
  proof -
    have "x \<in> pd_ID ` {r \<in> set (trows (st_deployments s)). ?P r}
        \<longleftrightarrow> (\<exists>d\<in>set (trows (st_deployments s)). pd_ID d = x \<and> ?P d)" for x
      unfolding image_iff by auto
    moreover have "s' = snd (InterruptPushDeployments now s)" using assms(2) by simp
    ultimately show ?thesis by (simp add: InterruptPushDeployments_def Let_def cong: if_cong) blast
  qed
  from 1 2 3 4 show ?thesis by blast
qed

lemma interrupt_settles_witness:
  "map pd_ID (trows (st_deployments (snd (InterruptPushDeployments 9 sample_queued)))) = [1]
   \<and> list_all (\<lambda>d. \<not> active_status (pd_Status d)) (trows (st_deployments (snd (InterruptPushDeployments 9 sample_queued))))"
proof -
  have "map pd_ID (trows (st_deployments sample_queued)) = [1]" by code_simp
  with interrupt_settles [OF dep_ok_sample prod.collapse [symmetric], of 9] show ?thesis by (simp add: list_all_iff)
qed

end
