(* ===== verification/ConfigTree.thy ===== *)
theory ConfigTree
  imports GoStrings
begin

text \<open>
  Configuration values and the deep merge of override trees (\<open>internal/template/merge.go\<close>).  A
  \<open>gval\<close> is a Go value of type \<open>any\<close> as the YAML and JSON decoders produce it.  The three kinds of
  maps are kept apart because the code treats them differently: \<open>map[string]any\<close> is updated in
  place, \<open>map[interface{}]interface{}\<close> and named map types such as \<open>config.FileOverrides\<close> are
  converted to a copy first.  Floats are held by their shortest decimal text, which determines them;
  values of other types (time stamps, unsigned numbers) are held by the text \<open>fmt.Sprint\<close> gives.
\<close>

section \<open>Values\<close>

datatype map_kind = StringMap | NamedMap

datatype gval =
    VNil
  | VBool bool
  | VInt int
  | VFloat string
  | VStr string
  | VOther string
  | VList "gval list"
  | VMap map_kind "(string \<times> gval) list"
  | VIface "(gval \<times> gval) list"

type_synonym gmap = "(string \<times> gval) list"

text \<open>\<open>fmt.Sprint\<close>: maps print with their keys sorted.\<close>

fun sprint :: "gval \<Rightarrow> string" where
  "sprint VNil = ''<nil>''"
| "sprint (VBool b) = (if b then ''true'' else ''false'')"
| "sprint (VInt i) = show_int i"
| "sprint (VFloat t) = t"
| "sprint (VStr t) = t"
| "sprint (VOther t) = t"
| "sprint (VList vs) = ''['' @ join_with '' '' (map sprint vs) @ '']''"
| "sprint (VMap _ m) =
     ''map['' @ join_with '' '' (map (\<lambda>(k, t). k @ '':'' @ t) (sort_key fst (map (\<lambda>(k, v). (k, sprint v)) m))) @ '']''"
| "sprint (VIface m) =
     ''map['' @ join_with '' '' (map (\<lambda>(k, t). k @ '':'' @ t) (sort_key fst (map (\<lambda>(k, v). (sprint k, sprint v)) m))) @ '']''"

definition IsScalar :: "gval \<Rightarrow> bool" where
  "IsScalar v = (case v of VStr _ \<Rightarrow> True | VBool _ \<Rightarrow> True | VInt _ \<Rightarrow> True | VFloat _ \<Rightarrow> True
                 | VNil \<Rightarrow> True | _ \<Rightarrow> False)"

text \<open>The number of nodes of a value: every conversion and every nested call shrinks it.\<close>

fun nodes :: "gval \<Rightarrow> nat" where
  "nodes (VMap _ m) = 1 + sum_list (map (\<lambda>(k, v). 1 + nodes v) m)"
| "nodes (VIface m) = 1 + sum_list (map (\<lambda>(k, v). 1 + nodes v) m)"
| "nodes _ = 1"

abbreviation map_nodes :: "gmap \<Rightarrow> nat" where
  "map_nodes m \<equiv> sum_list (map (\<lambda>(k, v). 1 + nodes v) m)"

lemma map_nodes_put: "map_nodes (al_put k v m) \<le> map_nodes m + 1 + nodes v"
  by (induction k v m rule: al_put.induct) auto

section \<open>Conversions\<close>

lemma iface_smaller:
  "(k, VIface t) \<in> set m \<Longrightarrow>
     sum_list (map (\<lambda>(k, v). Suc (nodes v)) t) < sum_list (map (\<lambda>(k, v). Suc (nodes v)) m)"
proof -
  assume "(k, VIface t) \<in> set m"
  then have "Suc (nodes (VIface t)) \<in> set (map (\<lambda>(k, v). Suc (nodes v)) m)" by force
  then have "Suc (nodes (VIface t)) \<le> sum_list (map (\<lambda>(k, v). Suc (nodes v)) m)"
    by (rule member_le_sum_list) simp_all
  then show ?thesis by simp
qed

text \<open>\<open>YAMLMapToStringMap\<close>: nested maps of the same kind are converted too, other values kept.\<close>

function YAMLMapToStringMap :: "(gval \<times> gval) list \<Rightarrow> gmap" where
  "YAMLMapToStringMap m =
     fold (\<lambda>(k, v) out. al_put (sprint k)
        (case v of VIface t \<Rightarrow> VMap StringMap (YAMLMapToStringMap t) | _ \<Rightarrow> v) out) m []"
  by pat_completeness auto
termination
proof (relation "measure (\<lambda>m. sum_list (map (\<lambda>(k, v). 1 + nodes v) m))", goal_cases)
  case 1
  then show ?case by simp
next
  case prems: 2
  then show ?case using iface_smaller by auto
qed

declare YAMLMapToStringMap.simps [simp del]

definition AsStringMap :: "gval \<Rightarrow> gmap res" where
  "AsStringMap v = (case v of VMap _ m \<Rightarrow> Inr m | VIface m \<Rightarrow> Inr (YAMLMapToStringMap m)
                    | _ \<Rightarrow> Inl (ErrMsg ''not a map''))"

lemma nodes_convert_bound:
  assumes "\<And>k t. (k, VIface t) \<in> set m \<Longrightarrow> map_nodes (YAMLMapToStringMap t) \<le> sum_list (map (\<lambda>(k, v). 1 + nodes v) t)"
  shows "map_nodes (fold (\<lambda>(k, v) out. al_put (sprint k)
        (case v of VIface t \<Rightarrow> VMap StringMap (YAMLMapToStringMap t) | _ \<Rightarrow> v) out) m acc)
      \<le> map_nodes acc + sum_list (map (\<lambda>(k, v). 1 + nodes v) m)"
  using assms
proof (induction m arbitrary: acc)
  case (Cons kv m)
  obtain k v where kv: "kv = (k, v)" by (cases kv)
  let ?w = "case v of VIface t \<Rightarrow> VMap StringMap (YAMLMapToStringMap t) | _ \<Rightarrow> v"
  have "nodes ?w \<le> nodes v" using Cons.prems kv by (cases v) auto
  then have "map_nodes (al_put (sprint k) ?w acc) \<le> map_nodes acc + 1 + nodes v"
    using map_nodes_put [of "sprint k" ?w acc] by linarith
  with Cons.IH [of "al_put (sprint k) ?w acc"] Cons.prems kv show ?case by fastforce
qed simp

lemma YAMLMapToStringMap_nodes: "map_nodes (YAMLMapToStringMap m) \<le> sum_list (map (\<lambda>(k, v). 1 + nodes v) m)"
proof (induction m rule: YAMLMapToStringMap.induct)
  case (1 m)
  have "map_nodes (YAMLMapToStringMap t) \<le> sum_list (map (\<lambda>(k, v). 1 + nodes v) t)" if "(k, VIface t) \<in> set m" for k t
    using "1.IH" [OF that refl refl] .
  from nodes_convert_bound [of m "[]", OF this] show ?case
    by (subst YAMLMapToStringMap.simps) simp
qed

lemma AsStringMap_nodes: "AsStringMap v = Inr m \<Longrightarrow> map_nodes m < nodes v"
  using YAMLMapToStringMap_nodes by (cases v) (auto simp: AsStringMap_def le_imp_less_Suc)

lemma nodes_in_map: "(k, v) \<in> set m \<Longrightarrow> nodes v < map_nodes m"
proof -
  assume "(k, v) \<in> set m"
  then have "1 + nodes v \<in> set (map (\<lambda>(k, v). 1 + nodes v) m)" by force
  then have "1 + nodes v \<le> map_nodes m" by (rule member_le_sum_list) simp_all
  then show ?thesis by simp
qed

text \<open>\<open>DeepCopyMap\<close>: every nested map becomes a fresh \<open>map[string]any\<close>.\<close>

function DeepCopyMap :: "gmap \<Rightarrow> gmap" where
  "DeepCopyMap src =
     map (\<lambda>(k, v). (k, case AsStringMap v of Inr sub \<Rightarrow> VMap StringMap (DeepCopyMap sub) | Inl _ \<Rightarrow> v)) src"
  by pat_completeness auto
termination
proof (relation "measure map_nodes", goal_cases)
  case prems: (2 src x k v sub)
  then have "map_nodes sub < nodes v" by (intro AsStringMap_nodes) simp
  moreover have "nodes v < map_nodes src" by (rule nodes_in_map [of k]) (use prems in simp)
  ultimately show ?case by simp
qed simp

declare DeepCopyMap.simps [simp del]

section \<open>Deep merge\<close>

definition placeholder_char :: "bool \<Rightarrow> char \<Rightarrow> bool" where
  "placeholder_char first c =
     (c = CHR ''_'' \<or> c = CHR ''-'' \<or> is_lower c \<or> is_upper c \<or> (\<not> first \<and> is_digit c))"

definition isYAMLScalarPlaceholder :: "gmap \<Rightarrow> bool" where
  "isYAMLScalarPlaceholder m =
     (case m of
        [(c # name, VNil)] \<Rightarrow> placeholder_char True c \<and> list_all (placeholder_char False) name
      | _ \<Rightarrow> False)"

definition insert_value :: "gval \<Rightarrow> gval" where
  "insert_value sv =
     (case sv of VMap StringMap sub \<Rightarrow> VMap StringMap (DeepCopyMap sub)
      | VIface sub \<Rightarrow> VMap StringMap (DeepCopyMap (YAMLMapToStringMap sub))
      | _ \<Rightarrow> sv)"

text \<open>
  \<open>DeepMergeInPlace\<close> loops over the source map; \<open>merge_value\<close> is what the body computes for one key.
  The destination of a failed merge is discarded by every caller, so the error is all that is
  returned.
\<close>

function (sequential) DeepMergeInPlace :: "gmap \<Rightarrow> gmap \<Rightarrow> gmap res"
  and merge_value :: "string \<Rightarrow> gval option \<Rightarrow> gval \<Rightarrow> gval res" where
  "DeepMergeInPlace dst [] = Inr dst"
| "DeepMergeInPlace dst ((k, sv) # src) =
     (case merge_value k (map_of dst k) sv of
        Inl e \<Rightarrow> Inl e
      | Inr v \<Rightarrow> DeepMergeInPlace (al_put k v dst) src)"
| "merge_value k None sv = Inr (insert_value sv)"
| "merge_value k (Some dv) sv =
     (case (AsStringMap dv, AsStringMap sv) of
        (Inr dstMap, Inr srcMap) \<Rightarrow>
          (case DeepMergeInPlace dstMap srcMap of
             Inl e \<Rightarrow> Inl e
           | Inr m \<Rightarrow> Inr (VMap StringMap m))
      | (Inr dstMap, Inl _) \<Rightarrow>
          (if isYAMLScalarPlaceholder dstMap then Inr sv else Inl (ErrMsg (''type mismatch at key '' @ k)))
      | (Inl _, Inr _) \<Rightarrow> Inl (ErrMsg (''type mismatch at key '' @ k))
      | (Inl _, Inl _) \<Rightarrow> Inr sv)"
  by pat_completeness auto
termination
  by (relation "measure (case_sum (\<lambda>(dst, src). map_nodes src) (\<lambda>(k, dv, sv). nodes sv))")
    (auto dest!: AsStringMap_nodes [OF sym])

lemmas merge_induct = DeepMergeInPlace_merge_value.induct

section \<open>Flattening and nested assignment\<close>

definition dotted :: "string \<Rightarrow> string \<Rightarrow> string" where
  "dotted pre k = (if pre \<noteq> [] then pre @ ''.'' @ k else k)"

function FlattenScalars :: "string \<Rightarrow> gmap \<Rightarrow> gmap" where
  "FlattenScalars pre m =
     fold (\<lambda>(k, v) out.
        (case v of
           VMap StringMap t \<Rightarrow> fold (\<lambda>(fk, fv) o'. al_put fk fv o') (FlattenScalars (dotted pre k) t) out
         | VIface t \<Rightarrow> fold (\<lambda>(fk, fv) o'. al_put fk fv o') (FlattenScalars (dotted pre k) (YAMLMapToStringMap t)) out
         | _ \<Rightarrow> al_put (dotted pre k) v out)) m []"
  by pat_completeness auto
termination
proof (relation "measure (\<lambda>(pre, m). map_nodes m)", goal_cases)
  case 1
  then show ?case by simp
next
  case prems: 2
  then show ?case by (auto dest!: nodes_in_map)
next
  case prems: (3 pre m x out k v t)
  then show ?case
    using YAMLMapToStringMap_nodes [of t] by (auto dest!: nodes_in_map)
qed

declare FlattenScalars.simps [simp del]

text \<open>
  \<open>SetNestedMap\<close> walks down the dotted path.  A nested \<open>map[string]any\<close> is updated in place; for the
  other kinds of maps \<open>AsStringMap\<close> returns a copy, and what is written into it is lost.
\<close>

fun set_path :: "string \<Rightarrow> gmap \<Rightarrow> string list \<Rightarrow> gval \<Rightarrow> gmap res" where
  "set_path dottedKey cur [] value = Inr cur"
| "set_path dottedKey cur [lst] value =
     (case map_of cur lst of
        Some (VMap StringMap _) \<Rightarrow>
          (case value of
             VMap StringMap _ \<Rightarrow> Inl (ErrMsg (''key '' @ dottedKey @ '': cannot replace map with scalar or vice versa''))
           | _ \<Rightarrow> Inr (al_put lst value cur))
      | _ \<Rightarrow> Inr (al_put lst value cur))"
| "set_path dottedKey cur (p # q # parts) value =
     (case map_of cur p of
        None \<Rightarrow>
          (case set_path dottedKey [] (q # parts) value of
             Inl e \<Rightarrow> Inl e
           | Inr child \<Rightarrow> Inr (al_put p (VMap StringMap child) cur))
      | Some next \<Rightarrow>
          (case AsStringMap next of
             Inl e \<Rightarrow> Inl e
           | Inr child \<Rightarrow>
               (case set_path dottedKey child (q # parts) value of
                  Inl e \<Rightarrow> Inl e
                | Inr child' \<Rightarrow>
                    (case next of VMap StringMap _ \<Rightarrow> Inr (al_put p (VMap StringMap child') cur)
                     | _ \<Rightarrow> Inr cur))))"

definition SetNestedMap :: "gmap \<Rightarrow> string \<Rightarrow> gval \<Rightarrow> gmap res" where
  "SetNestedMap root dottedKey value = set_path dottedKey root (split_on (CHR ''.'') dottedKey) value"

text \<open>\<open>getNested\<close> of \<open>keys.go\<close>, whose \<open>asMap\<close> knows the two generic map types only.\<close>

definition asMap :: "gval \<Rightarrow> gmap res" where
  "asMap v = (case v of VMap StringMap m \<Rightarrow> Inr m
              | VIface m \<Rightarrow> Inr (fold (\<lambda>(k, v) out. al_put (sprint k) v out) m [])
              | _ \<Rightarrow> Inl (ErrMsg ''not a map''))"

fun get_path :: "gval \<Rightarrow> string list \<Rightarrow> gval option" where
  "get_path cur [] = None"
| "get_path cur (p # parts) =
     (case asMap cur of
        Inl _ \<Rightarrow> None
      | Inr m \<Rightarrow>
          (case map_of m p of
             None \<Rightarrow> None
           | Some next \<Rightarrow> if parts = [] then Some next else get_path next parts))"

definition getNested :: "gval \<Rightarrow> string \<Rightarrow> gval option" where
  "getNested root dottedKey = get_path root (split_on (CHR ''.'') dottedKey)"

section \<open>What a merge computes\<close>

text \<open>
  One key at a time: the merge fails when some key of the source fails, and otherwise holds
  \<open>merge_value\<close> at the keys of the source and the old value everywhere else.
\<close>

lemma merge_pointwise:
  assumes "al_wf src" "DeepMergeInPlace dst src = Inr out"
  shows "(\<forall>k sv. map_of src k = Some sv \<longrightarrow>
            (\<exists>v. merge_value k (map_of dst k) sv = Inr v \<and> map_of out k = Some v))
       \<and> (\<forall>k. map_of src k = None \<longrightarrow> map_of out k = map_of dst k)"
  using assms
proof (induction src arbitrary: dst)
  case (Cons kv src)
  obtain k sv where kv: "kv = (k, sv)" by (cases kv)
  with Cons.prems(2) obtain v where
    v: "merge_value k (map_of dst k) sv = Inr v"
    and rest: "DeepMergeInPlace (al_put k v dst) src = Inr out"
    by (auto split: sum.splits)
  have k: "map_of src k = None" using Cons.prems(1) kv by (simp add: map_of_eq_None_iff)
  from Cons.IH [OF _ rest] Cons.prems(1) kv have
    ih: "\<And>j s. map_of src j = Some s \<Longrightarrow> \<exists>v'. merge_value j (map_of (al_put k v dst) j) s = Inr v' \<and> map_of out j = Some v'"
    and other: "\<And>j. map_of src j = None \<Longrightarrow> map_of out j = map_of (al_put k v dst) j" by auto
  have "\<exists>v'. merge_value j (map_of dst j) s = Inr v' \<and> map_of out j = Some v'"
    if "map_of (kv # src) j = Some s" for j s
  proof (cases "j = k")
    case True
    with that kv v other [OF k] show ?thesis by auto
  next
    case False
    with that kv ih [of j s] show ?thesis by auto
  qed
  moreover have "map_of out j = map_of dst j" if "map_of (kv # src) j = None" for j
    using that kv other [of j] by (auto split: if_splits)
  ultimately show ?case by blast
qed simp

lemma merge_ok_iff:
  assumes "al_wf src"
  shows "is_ok (DeepMergeInPlace dst src) \<longleftrightarrow>
         (\<forall>k sv. map_of src k = Some sv \<longrightarrow> is_ok (merge_value k (map_of dst k) sv))"
  using assms
proof (induction src arbitrary: dst)
  case (Cons kv src)
  obtain k sv where kv: "kv = (k, sv)" by (cases kv)
  have k: "map_of src k = None" using Cons.prems kv by (simp add: map_of_eq_None_iff)
  show ?case
  proof (cases "merge_value k (map_of dst k) sv")
    case (Inl e)
    with kv show ?thesis by (auto intro!: exI [of _ k])
  next
    case (Inr v)
    have "is_ok (DeepMergeInPlace dst (kv # src)) = is_ok (DeepMergeInPlace (al_put k v dst) src)"
      using kv Inr by simp
    also have "\<dots> \<longleftrightarrow> (\<forall>j s. map_of src j = Some s \<longrightarrow> is_ok (merge_value j (map_of (al_put k v dst) j) s))"
      using Cons by simp
    also have "\<dots> \<longleftrightarrow> (\<forall>j s. map_of (kv # src) j = Some s \<longrightarrow> is_ok (merge_value j (map_of dst j) s))"
      using kv Inr k by (auto split: if_splits)
    finally show ?thesis .
  qed
qed simp

lemma map_of_mset: "al_wf m \<Longrightarrow> mset m = mset m' \<Longrightarrow> map_of m = map_of m'"
proof -
  assume a: "al_wf m" "mset m = mset m'"
  then have "al_wf m'" by (metis mset_map mset_eq_imp_distinct_iff)
  with a show ?thesis by (metis map_of_inject_set mset_eq_setD)
qed

lemma map_of_perm_wf: "al_wf m \<Longrightarrow> mset m = mset m' \<Longrightarrow> al_wf m'"
  by (metis mset_map mset_eq_imp_distinct_iff)

text \<open>Values whose maps have distinct keys at every level, as every Go map has.\<close>

fun wf_val :: "gval \<Rightarrow> bool" where
  "wf_val (VMap _ m) = (al_wf m \<and> (\<forall>(k, v)\<in>set m. wf_val v))"
| "wf_val (VIface m) = (\<forall>(k, v)\<in>set m. wf_val v)"
| "wf_val _ = True"

abbreviation wf_map :: "gmap \<Rightarrow> bool" where
  "wf_map m \<equiv> al_wf m \<and> (\<forall>(k, v)\<in>set m. wf_val v)"

lemma wf_map_put: "wf_map m \<Longrightarrow> wf_val v \<Longrightarrow> wf_map (al_put k v m)"
proof -
  assume a: "wf_map m" "wf_val v"
  have "set (al_put k v m) \<subseteq> insert (k, v) (set m)" by (induction k v m rule: al_put.induct) auto
  with a show ?thesis by auto
qed

lemma wf_convert: "\<forall>(k, v)\<in>set m. wf_val v \<Longrightarrow> wf_map (YAMLMapToStringMap m)"
proof (induction m rule: YAMLMapToStringMap.induct)
  case (1 m)
  have "wf_map (fold (\<lambda>(k, v) out. al_put (sprint k)
        (case v of VIface t \<Rightarrow> VMap StringMap (YAMLMapToStringMap t) | _ \<Rightarrow> v) out) xs acc)"
    if "set xs \<subseteq> set m" "wf_map acc" for xs acc
    using that
  proof (induction xs arbitrary: acc)
    case (Cons kv xs)
    obtain k v where kv: "kv = (k, v)" by (cases kv)
    have mem: "(k, v) \<in> set m" using Cons.prems kv by auto
    have wfv: "wf_val v" using "1.prems" mem by auto
    have "wf_val (case v of VIface t \<Rightarrow> VMap StringMap (YAMLMapToStringMap t) | _ \<Rightarrow> v)"
    proof (cases v)
      case (VIface t)
      have "wf_map (YAMLMapToStringMap t)"
        by (rule "1.IH" [OF mem refl VIface]) (use wfv VIface in auto)
      with VIface show ?thesis by simp
    qed (use wfv in auto)
    from wf_map_put [OF Cons.prems(2) this, of "sprint k"] Cons.IH Cons.prems(1) kv show ?case by auto
  qed auto
  from this [of m "[]"] show ?case by (subst (1 2) YAMLMapToStringMap.simps) simp
qed

lemma wf_AsStringMap: "wf_val v \<Longrightarrow> AsStringMap v = Inr m \<Longrightarrow> wf_map m"
  using wf_convert by (cases v) (auto simp: AsStringMap_def)

lemma wf_map_of: "wf_map m \<Longrightarrow> map_of m k = Some v \<Longrightarrow> wf_val v"
  by (auto dest!: map_of_SomeD)

text \<open>Lookup along a path, through maps of every kind; a leaf is a value that is no map.\<close>

fun look :: "gmap \<Rightarrow> string list \<Rightarrow> gval option" where
  "look m [] = None"
| "look m (k # ps) =
     (case map_of m k of
        None \<Rightarrow> None
      | Some v \<Rightarrow>
          (if ps = [] then Some v
           else case AsStringMap v of Inl _ \<Rightarrow> None | Inr m' \<Rightarrow> look m' ps))"

definition leaf :: "gval \<Rightarrow> bool" where
  "leaf v = (\<not> is_ok (AsStringMap v))"

fun untouched :: "gmap \<Rightarrow> string list \<Rightarrow> bool" where
  "untouched src [] = False"
| "untouched src (k # ps) =
     (case map_of src k of
        None \<Rightarrow> True
      | Some sv \<Rightarrow> (case AsStringMap sv of Inl _ \<Rightarrow> False | Inr m \<Rightarrow> untouched m ps))"

lemma map_of_DeepCopyMap:
  "map_of (DeepCopyMap src) k = map_option (\<lambda>v. case AsStringMap v of
      Inr sub \<Rightarrow> VMap StringMap (DeepCopyMap sub) | Inl _ \<Rightarrow> v) (map_of src k)"
  by (subst DeepCopyMap.simps) (simp add: map_of_map_restrict [symmetric] map_of_map)

lemma look_DeepCopyMap: "look m p = Some v \<Longrightarrow> leaf v \<Longrightarrow> look (DeepCopyMap m) p = Some v"
proof (induction p arbitrary: m)
  case (Cons k ps)
  from Cons.prems(1) obtain w where w: "map_of m k = Some w" by (auto split: option.splits)
  show ?case
  proof (cases "AsStringMap w")
    case (Inl e)
    with Cons.prems w show ?thesis by (auto simp: map_of_DeepCopyMap split: if_splits)
  next
    case (Inr sub)
    with Cons.prems w have "ps \<noteq> []" "look sub ps = Some v" by (auto simp: leaf_def split: if_splits)
    with Cons.IH Cons.prems(2) w Inr show ?thesis by (simp add: map_of_DeepCopyMap AsStringMap_def)
  qed
qed simp

lemma insert_value_leaf: "leaf v \<Longrightarrow> insert_value v = v"
  by (auto simp: leaf_def AsStringMap_def insert_value_def split: gval.splits)

lemma insert_value_map:
  "AsStringMap v = Inr m \<Longrightarrow> \<exists>m'. AsStringMap (insert_value v) = Inr m' \<and> (m' = m \<or> m' = DeepCopyMap m)"
  by (cases v) (auto simp: AsStringMap_def insert_value_def split: map_kind.splits)

lemma merge_leaf_in:
  "DeepMergeInPlace dst src = Inr out \<Longrightarrow> wf_map src \<Longrightarrow> look src p = Some v \<Longrightarrow> leaf v \<Longrightarrow>
     look out p = Some v"
proof (induction p arbitrary: dst src out)
  case (Cons k ps)
  from Cons.prems(3) obtain sv where sv: "map_of src k = Some sv" by (auto split: option.splits)
  with merge_pointwise [OF _ Cons.prems(1)] Cons.prems(2) obtain w where
    w: "merge_value k (map_of dst k) sv = Inr w" "map_of out k = Some w" by blast
  show ?case
  proof (cases "AsStringMap sv")
    case (Inl e)
    then have "leaf sv" by (simp add: leaf_def)
    then have "w = sv"
      using w(1) Inl by (cases "map_of dst k") (auto simp: insert_value_leaf split: sum.splits if_splits)
    with Cons.prems(3) sv w(2) show ?thesis by simp
  next
    case (Inr srcMap)
    with Cons.prems(3,4) sv have ps: "ps \<noteq> []" "look srcMap ps = Some v"
      by (auto simp: leaf_def split: if_splits)
    have wf: "wf_map srcMap" using wf_AsStringMap [OF _ Inr] wf_map_of [OF Cons.prems(2) sv] by blast
    show ?thesis
    proof (cases "map_of dst k")
      case None
      with w(1) have "w = insert_value sv" by simp
      with insert_value_map [OF Inr] obtain m' where
        m': "AsStringMap w = Inr m'" "m' = srcMap \<or> m' = DeepCopyMap srcMap" by blast
      with look_DeepCopyMap [OF ps(2) Cons.prems(4)] ps w(2) show ?thesis by auto
    next
      case (Some dv)
      with w(1) Inr obtain dstMap m where
        "AsStringMap dv = Inr dstMap" "DeepMergeInPlace dstMap srcMap = Inr m" "w = VMap StringMap m"
        by (auto split: sum.splits)
      with Cons.IH [OF _ wf ps(2) Cons.prems(4)] ps(1) w(2) show ?thesis
        by (simp add: AsStringMap_def)
    qed
  qed
qed simp

lemma merge_leaf_kept:
  "DeepMergeInPlace dst src = Inr out \<Longrightarrow> wf_map src \<Longrightarrow> untouched src p \<Longrightarrow>
     look dst p = Some v \<Longrightarrow> leaf v \<Longrightarrow> look out p = Some v"
proof (induction p arbitrary: dst src out)
  case (Cons k ps)
  from Cons.prems(4) obtain dv where dv: "map_of dst k = Some dv" by (auto split: option.splits)
  show ?case
  proof (cases "map_of src k")
    case None
    with merge_pointwise [OF _ Cons.prems(1)] Cons.prems(2,4) show ?thesis by simp
  next
    case (Some sv)
    with Cons.prems(3) obtain srcMap where sm: "AsStringMap sv = Inr srcMap" "untouched srcMap ps"
      by (auto split: sum.splits)
    then have ps: "ps \<noteq> []" by auto
    with Cons.prems(4) dv obtain dstMap where dm: "AsStringMap dv = Inr dstMap" "look dstMap ps = Some v"
      by (auto split: sum.splits)
    from merge_pointwise [OF _ Cons.prems(1)] Cons.prems(2) Some obtain w where
      w: "merge_value k (map_of dst k) sv = Inr w" "map_of out k = Some w" by blast
    with dv sm dm obtain m where m: "DeepMergeInPlace dstMap srcMap = Inr m" "w = VMap StringMap m"
      by (auto split: sum.splits)
    have "wf_map srcMap" using wf_AsStringMap [OF _ sm(1)] wf_map_of [OF Cons.prems(2) Some] by blast
    from Cons.IH [OF m(1) this sm(2) dm(2) Cons.prems(5)] m(2) w(2) ps show ?thesis
      by (simp add: AsStringMap_def)
  qed
qed simp

section \<open>Properties\<close>

text \<open>
  After a successful merge every leaf of the override tree is found in the configuration at its
  path, and every leaf of the old configuration whose path the override does not reach is kept.
\<close>

theorem merge_leaves:
  assumes "DeepMergeInPlace dst src = Inr out" "wf_map src" "leaf v"
  shows "(look src p = Some v \<longrightarrow> look out p = Some v)
       \<and> (untouched src p \<and> look dst p = Some v \<longrightarrow> look out p = Some v)"
  using merge_leaf_in [OF assms(1,2) _ assms(3)] merge_leaf_kept [OF assms(1,2) _ _ assms(3)] by blast

definition sample_tree :: gmap where
  "sample_tree = [(''mysql'', VMap StringMap [(''url'', VStr ''a''), (''port'', VInt 1)]), (''debug'', VBool True)]"

definition sample_override :: gmap where
  "sample_override = [(''mysql'', VMap NamedMap [(''port'', VInt 2)]), (''name'', VStr ''n'')]"

definition sample_merged :: gmap where
  "sample_merged = [(''mysql'', VMap StringMap [(''url'', VStr ''a''), (''port'', VInt 2)]),
     (''debug'', VBool True), (''name'', VStr ''n'')]"

lemma sample_merge: "DeepMergeInPlace sample_tree sample_override = Inr sample_merged"
  by (simp add: sample_tree_def sample_override_def sample_merged_def AsStringMap_def insert_value_def)

lemma merge_leaves_witness:
  "look sample_merged [''mysql'', ''port''] = Some (VInt 2)
   \<and> look sample_merged [''mysql'', ''url''] = Some (VStr ''a'')"
proof -
  have wf: "wf_map sample_override" by (simp add: sample_override_def)
  have "leaf (VInt 2)" "leaf (VStr ''a'')" by (simp_all add: leaf_def AsStringMap_def)
  from merge_leaves [OF sample_merge wf this(1), of "[''mysql'', ''port'']"]
    merge_leaves [OF sample_merge wf this(2), of "[''mysql'', ''url'']"]
  show ?thesis by (simp add: sample_tree_def sample_override_def AsStringMap_def)
qed



end
