(* ===== verification/ConfigFiles.thy ===== *)
theory ConfigFiles
  imports ConfigTree Paths
begin

text \<open>
  The files a configuration override is applied to (\<open>internal/template\<close>): which base names are
  configuration files, the line editor of \<open>.properties\<close> files, the dispatch on the extension, the
  application of overrides to a version tree and the preview of what they change.  The YAML and JSON
  codecs are the argument \<open>formats\<close>.  A version tree is the list of its files, relative path and
  content, in the order \<open>filepath.Walk\<close> visits them.
\<close>

section \<open>Names\<close>

definition IsConfigFile :: "string \<Rightarrow> bool" where
  "IsConfigFile name =
     (let e = lower (path_ext name)
      in e = ''.yaml'' \<or> e = ''.yml'' \<or> e = ''.json'' \<or> e = ''.properties'')"

definition Basename :: "string \<Rightarrow> string" where
  "Basename name = path_base name"

text \<open>\<open>filepathExt\<close>: the text from the last dot of the whole name.\<close>

definition filepathExt :: "string \<Rightarrow> string" where
  "filepathExt name =
     (if CHR ''.'' \<in> set name then CHR ''.'' # rev (takeWhile (\<lambda>c. c \<noteq> CHR ''.'') (rev name)) else [])"

definition ConfigExt :: "string \<Rightarrow> string" where
  "ConfigExt basename = lower (filepathExt basename)"

section \<open>Properties files\<close>

abbreviation newline :: char where
  "newline \<equiv> CHR 0x0A"

text \<open>\<open>strings.IndexAny(line, "=:")\<close>: the key and the rest of a line at its first separator.\<close>

definition is_sep :: "char \<Rightarrow> bool" where
  "is_sep c = (c = CHR ''='' \<or> c = CHR '':'')"

definition cut_line :: "string \<Rightarrow> (string \<times> string) option" where
  "cut_line line =
     (case dropWhile (\<lambda>c. \<not> is_sep c) line of
        [] \<Rightarrow> None
      | _ # rest \<Rightarrow> Some (takeWhile (\<lambda>c. \<not> is_sep c) line, rest))"

text \<open>The key and new value of a line, when it is an assignment to one of the keys.\<close>

definition line_hit :: "(string \<times> string) list \<Rightarrow> string \<Rightarrow> (string \<times> string) option" where
  "line_hit keys line =
     (let trim = trim_space line
      in if trim = [] \<or> has_prefix trim ''#'' \<or> has_prefix trim ''!'' then None
         else case cut_line line of
                None \<Rightarrow> None
              | Some (k, _) \<Rightarrow> map_option (Pair (trim_space k)) (map_of keys (trim_space k)))"

fun replace_lines :: "(string \<times> string) list \<Rightarrow> string list \<Rightarrow> string list \<times> (string \<times> string) list" where
  "replace_lines keys [] = ([], keys)"
| "replace_lines keys (line # lines) =
     (case line_hit keys line of
        None \<Rightarrow> (let (ls, ks) = replace_lines keys lines in (line # ls, ks))
      | Some (k, v) \<Rightarrow> (let (ls, ks) = replace_lines (al_del k keys) lines in ((k @ ''='' @ v) # ls, ks)))"

definition replaceProperties :: "string \<Rightarrow> (string \<times> string) list \<Rightarrow> string" where
  "replaceProperties content kv =
     (let (lines, rest) = replace_lines kv (split_on newline content)
      in join_with [newline] (lines @ map (\<lambda>(k, v). k @ ''='' @ v) rest))"

fun read_lines :: "string \<Rightarrow> string list \<Rightarrow> string option" where
  "read_lines key [] = None"
| "read_lines key (line # lines) =
     (let trim = trim_space line
      in if trim = [] \<or> has_prefix trim ''#'' then read_lines key lines
         else case cut_line line of
                None \<Rightarrow> read_lines key lines
              | Some (k, v) \<Rightarrow> if trim_space k = key then Some (trim_space v) else read_lines key lines)"

definition readPropertiesKey :: "string \<Rightarrow> string \<Rightarrow> string option" where
  "readPropertiesKey content key = read_lines key (split_on newline content)"

section \<open>Merging a file\<close>

record formats =
  yaml_in :: "string \<Rightarrow> gval res"
  yaml_out :: "gval \<Rightarrow> string res"
  json_in :: "string \<Rightarrow> gval res"
  json_out :: "gval \<Rightarrow> string res"

definition merge_document :: "string \<Rightarrow> (string \<Rightarrow> gval res) \<Rightarrow> (gval \<Rightarrow> string res) \<Rightarrow> string \<Rightarrow> gmap \<Rightarrow> string res" where
  "merge_document msg inp outp data override =
     (case inp data of
        Inl e \<Rightarrow> Inl e
      | Inr root \<Rightarrow>
          (case AsStringMap root of
             Inl _ \<Rightarrow> Inl (ErrMsg msg)
           | Inr m \<Rightarrow>
               (case DeepMergeInPlace m override of
                  Inl e \<Rightarrow> Inl e
                | Inr m' \<Rightarrow> outp (VMap StringMap m'))))"

definition mergeYAML :: "formats \<Rightarrow> string \<Rightarrow> gmap \<Rightarrow> string res" where
  "mergeYAML fm = merge_document ''yaml root must be a mapping'' (yaml_in fm) (yaml_out fm)"

definition mergeJSON :: "formats \<Rightarrow> string \<Rightarrow> gmap \<Rightarrow> string res" where
  "mergeJSON fm = merge_document ''json root must be an object'' (json_in fm) (json_out fm)"

definition mergeProperties :: "string \<Rightarrow> gmap \<Rightarrow> string res" where
  "mergeProperties content override =
     Inr (replaceProperties content (map (\<lambda>(k, v). (k, sprint v)) (FlattenScalars [] override)))"

definition MergeBytes :: "formats \<Rightarrow> string \<Rightarrow> string \<Rightarrow> gmap \<Rightarrow> string res" where
  "MergeBytes fm basename data override =
     (if override = [] then Inr data
      else let ext = ConfigExt basename in
        if ext = ''.yaml'' \<or> ext = ''.yml'' then mergeYAML fm data override
        else if ext = ''.json'' then mergeJSON fm data override
        else if ext = ''.properties'' then mergeProperties data override
        else Inl (ErrMsg ''unsupported config type''))"

definition ReadKey :: "formats \<Rightarrow> string \<Rightarrow> string \<Rightarrow> string \<Rightarrow> string option" where
  "ReadKey fm filename data dottedKey =
     (let ext = lower (filepathExt filename);
          nested = (\<lambda>inp. case inp data of Inl _ \<Rightarrow> None
                          | Inr root \<Rightarrow> map_option sprint (getNested root dottedKey))
      in if ext = ''.yaml'' \<or> ext = ''.yml'' then nested (yaml_in fm)
         else if ext = ''.json'' then nested (json_in fm)
         else if ext = ''.properties'' then readPropertiesKey data dottedKey
         else None)"

section \<open>Version trees\<close>

type_synonym file_tree = "(string \<times> string) list"

definition multi_put :: "string \<Rightarrow> string \<Rightarrow> (string \<times> string list) list \<Rightarrow> (string \<times> string list) list" where
  "multi_put base rel m = al_put base ((case map_of m base of None \<Rightarrow> [] | Some ps \<Rightarrow> ps) @ [rel]) m"

definition FindConfigFilesByBasename :: "file_tree \<Rightarrow> (string \<times> string list) list" where
  "FindConfigFilesByBasename files =
     fold (\<lambda>(rel, _) out. if IsConfigFile (path_base rel) then multi_put (path_base rel) rel out else out) files []"

text \<open>Override trees by file name, the values of \<open>FileOverrides\<close> already normalised.\<close>

fun NormalizeFileOverrides_loop ::
  "(string \<times> gmap) list \<Rightarrow> (string \<times> gmap) list \<Rightarrow> (string \<times> gmap) list res" where
  "NormalizeFileOverrides_loop [] out = Inr out"
| "NormalizeFileOverrides_loop ((name, tree) # byFile) out =
     (let base = Basename name; dst = (case map_of out base of None \<Rightarrow> [] | Some m \<Rightarrow> m)
      in case DeepMergeInPlace dst tree of
           Inl e \<Rightarrow> Inl e
         | Inr m \<Rightarrow> NormalizeFileOverrides_loop byFile (al_put base m out))"

definition NormalizeFileOverrides :: "(string \<times> gmap) list \<Rightarrow> (string \<times> gmap) list res" where
  "NormalizeFileOverrides byFile = NormalizeFileOverrides_loop byFile []"

definition paths_of :: "(string \<times> string list) list \<Rightarrow> string \<Rightarrow> string list" where
  "paths_of m base = (case map_of m base of None \<Rightarrow> [] | Some ps \<Rightarrow> ps)"

fun apply_paths :: "formats \<Rightarrow> string \<Rightarrow> gmap \<Rightarrow> string list \<Rightarrow> file_tree \<Rightarrow> file_tree res" where
  "apply_paths fm base kv [] files = Inr files"
| "apply_paths fm base kv (rel # rels) files =
     (case map_of files rel of
        None \<Rightarrow> Inl ErrNotExist
      | Some data \<Rightarrow>
          (case MergeBytes fm base data kv of
             Inl e \<Rightarrow> Inl e
           | Inr out \<Rightarrow> apply_paths fm base kv rels (al_put rel out files)))"

fun apply_overrides ::
  "formats \<Rightarrow> (string \<times> string list) list \<Rightarrow> (string \<times> gmap) list \<Rightarrow> file_tree \<Rightarrow> file_tree res" where
  "apply_overrides fm matches [] files = Inr files"
| "apply_overrides fm matches ((base, kv) # rest) files =
     (if kv = [] then apply_overrides fm matches rest files
      else if paths_of matches base = []
      then Inl (ErrMsg (''replacement configured but no such file in version: '' @ base))
      else case apply_paths fm base kv (paths_of matches base) files of
             Inl e \<Rightarrow> Inl e
           | Inr files' \<Rightarrow> apply_overrides fm matches rest files')"

definition ApplyByBasename :: "formats \<Rightarrow> file_tree \<Rightarrow> (string \<times> gmap) list \<Rightarrow> file_tree res" where
  "ApplyByBasename fm files byFile =
     (case NormalizeFileOverrides byFile of
        Inl e \<Rightarrow> Inl e
      | Inr normalized \<Rightarrow> apply_overrides fm (FindConfigFilesByBasename files) normalized files)"

section \<open>Previews\<close>

record rendered_file =
  rf_Basename :: string
  rf_Path :: string
  rf_Before :: string
  rf_After :: string

fun render_files ::
  "formats \<Rightarrow> file_tree \<Rightarrow> (string \<times> string list) list \<Rightarrow> (string \<times> gmap) list \<Rightarrow> rendered_file list res" where
  "render_files fm files matches [] = Inr []"
| "render_files fm files matches ((base, tree) # rest) =
     (case paths_of matches base of
        [] \<Rightarrow> render_files fm files matches rest
      | rel # _ \<Rightarrow>
          (case map_of files rel of
             None \<Rightarrow> Inl ErrNotExist
           | Some before \<Rightarrow>
               (case MergeBytes fm base before tree of
                  Inl e \<Rightarrow> Inl e
                | Inr after \<Rightarrow>
                    (case render_files fm files matches rest of
                       Inl e \<Rightarrow> Inl e
                     | Inr out \<Rightarrow>
                         Inr (\<lparr>rf_Basename = base, rf_Path = rel, rf_Before = before, rf_After = after\<rparr> # out)))))"

definition BuildRenderedFiles :: "formats \<Rightarrow> file_tree \<Rightarrow> (string \<times> gmap) list \<Rightarrow> rendered_file list res" where
  "BuildRenderedFiles fm files byFile =
     (case NormalizeFileOverrides byFile of
        Inl e \<Rightarrow> Inl e
      | Inr normalized \<Rightarrow> render_files fm files (FindConfigFilesByBasename files) normalized)"

record key_change =
  kc_Key :: string
  kc_Before :: string
  kc_After :: string
  kc_Action :: string

definition treeToFlat :: "gmap \<Rightarrow> (string \<times> string) list" where
  "treeToFlat tree = map (\<lambda>(k, v). (k, sprint v)) (FlattenScalars [] tree)"

definition previewKeysWithoutFile :: "(string \<times> string) list \<Rightarrow> key_change list" where
  "previewKeysWithoutFile kv =
     map (\<lambda>(k, after). \<lparr>kc_Key = k, kc_Before = [], kc_After = after, kc_Action = ''add''\<rparr>) kv"

definition previewKeyChanges :: "formats \<Rightarrow> string \<Rightarrow> string \<Rightarrow> (string \<times> string) list \<Rightarrow> key_change list" where
  "previewKeyChanges fm basename data kv =
     map (\<lambda>(k, after).
       case ReadKey fm basename data k of
         Some before \<Rightarrow> \<lparr>kc_Key = k, kc_Before = before, kc_After = after,
                         kc_Action = if before = after then ''unchanged'' else ''replace''\<rparr>
       | None \<Rightarrow> \<lparr>kc_Key = k, kc_Before = [], kc_After = after, kc_Action = ''add''\<rparr>) kv"

definition previewKeyChangesFromTree :: "formats \<Rightarrow> string \<Rightarrow> string \<Rightarrow> gmap \<Rightarrow> key_change list" where
  "previewKeyChangesFromTree fm basename data tree =
     (case MergeBytes fm basename data tree of
        Inl _ \<Rightarrow> previewKeyChanges fm basename data (treeToFlat tree)
      | Inr merged \<Rightarrow>
          map (\<lambda>(k, after).
            let found = ReadKey fm basename data k;
                afterMerged = (case ReadKey fm basename merged k of None \<Rightarrow> [] | Some t \<Rightarrow> t);
                new = (if found = None \<and> afterMerged = [] then after else afterMerged)
            in case found of
                 Some before \<Rightarrow> \<lparr>kc_Key = k, kc_Before = before, kc_After = new,
                                 kc_Action = if before = new then ''unchanged'' else ''replace''\<rparr>
               | None \<Rightarrow> \<lparr>kc_Key = k, kc_Before = [], kc_After = new, kc_Action = ''add''\<rparr>)
            (treeToFlat tree))"

section \<open>Hook templates\<close>

definition RenderHookTemplate :: "string \<Rightarrow> (string \<times> string) list \<Rightarrow> string" where
  "RenderHookTemplate s vars =
     fold (\<lambda>(k, v) out. replace_all (''${'' @ k @ ''}'') v (replace_all (''{{'' @ k @ ''}}'') v out)) vars s"

definition HookTemplateVars :: "string \<Rightarrow> string \<Rightarrow> string \<Rightarrow> (string \<times> string) list \<Rightarrow> (string \<times> string) list" where
  "HookTemplateVars project version serverID extra =
     fold (\<lambda>(k, v) m. al_put k v m) extra
       [(''PROJECT'', project), (''VERSION'', version), (''SERVER_ID'', serverID),
        (''EXPRESS233_PROJECT'', project), (''EXPRESS233_VERSION'', version),
        (''EXPRESS233_SERVER_ID'', serverID)]"

section \<open>Reading back what was written\<close>

lemma strip_runes_takeWhile:
  "(\<forall>p\<in>set ps. \<forall>c\<in>set p. Q c) \<Longrightarrow> strip_runes ps (takeWhile Q s) = takeWhile Q (strip_runes ps s)"
proof (induction ps s rule: strip_runes.induct)
  case (1 ps s)
  have pre: "has_prefix (takeWhile Q s) p \<longleftrightarrow> has_prefix s p" if "p \<in> set ps" for p
  proof
    assume "has_prefix s p"
    then obtain t where "s = p @ t" by (auto simp: has_prefix_iff)
    moreover have "takeWhile Q (p @ t) = p @ takeWhile Q t" using "1.prems" that by (simp add: takeWhile_append2)
    ultimately show "has_prefix (takeWhile Q s) p" by (simp add: has_prefix_iff)
  next
    assume "has_prefix (takeWhile Q s) p"
    then show "has_prefix s p" by (metis has_prefix_append_mono takeWhile_dropWhile_id)
  qed
  then have find: "find (\<lambda>p. p \<noteq> [] \<and> has_prefix (takeWhile Q s) p) ps = find (\<lambda>p. p \<noteq> [] \<and> has_prefix s p) ps"
    by (intro find_cong) auto
  show ?case
  proof (cases "find (\<lambda>p. p \<noteq> [] \<and> has_prefix s p) ps")
    case None
    then show ?thesis using find by (subst (1 2) strip_runes.simps) simp
  next
    case (Some p)
    then have "p \<in> set ps" "has_prefix s p" by (auto dest: find_Some_iff2)
    then obtain t where "s = p @ t" by (auto simp: has_prefix_iff)
    moreover have "takeWhile Q (p @ t) = p @ takeWhile Q t"
      using "1.prems" \<open>p \<in> set ps\<close> by (simp add: takeWhile_append2)
    ultimately show ?thesis using Some find "1.IH" [OF Some "1.prems"] by (subst (1 2) strip_runes.simps) simp
  qed
qed

lemma strip_runes_keeps:
  "c \<in> set s \<Longrightarrow> (\<forall>p\<in>set ps. c \<notin> set p) \<Longrightarrow> c \<in> set (strip_runes ps s)"
proof (induction ps s rule: strip_runes.induct)
  case (1 ps s)
  show ?case
  proof (cases "find (\<lambda>p. p \<noteq> [] \<and> has_prefix s p) ps")
    case None
    then show ?thesis using "1.prems" by (subst strip_runes.simps) simp
  next
    case (Some p)
    then have "p \<in> set ps" "has_prefix s p" by (auto dest: find_Some_iff2)
    then obtain t where t: "s = p @ t" by (auto simp: has_prefix_iff)
    with "1.prems" \<open>p \<in> set ps\<close> have "c \<in> set (drop (length p) s)" by auto
    from "1.IH" [OF Some this "1.prems"(2)] Some show ?thesis by (subst strip_runes.simps) simp
  qed
qed

lemma space_runes_no_sep: "p \<in> set space_runes \<Longrightarrow> c \<in> set p \<Longrightarrow> \<not> is_sep c"
  by (auto simp: space_runes_def is_sep_def)

text \<open>A key as it may stand before the separator; the values must fit on a line.\<close>

definition clean_key :: "string \<Rightarrow> bool" where
  "clean_key k = (k \<noteq> [] \<and> trim_space k = k \<and> \<not> list_ex is_sep k \<and> newline \<notin> set k
                  \<and> \<not> has_prefix k ''#'' \<and> \<not> has_prefix k ''!'')"

definition clean_kv :: "(string \<times> string) list \<Rightarrow> bool" where
  "clean_kv kv = (\<forall>(k, v)\<in>set kv. clean_key k \<and> newline \<notin> set v)"

lemma cut_line_key: "\<not> list_ex is_sep k \<Longrightarrow> cut_line (k @ ''='' @ v) = Some (k, v)"
proof -
  assume "\<not> list_ex is_sep k"
  then have "\<forall>c\<in>set k. \<not> is_sep c" by (simp add: list_ex_iff)
  then show ?thesis by (simp add: cut_line_def dropWhile_append2 takeWhile_append2) (simp add: is_sep_def)
qed

lemma cut_line_prefix: "cut_line line = Some (k, v) \<Longrightarrow> k = takeWhile (\<lambda>c. \<not> is_sep c) line"
  by (auto simp: cut_line_def split: list.splits)

lemma comment_key:
  assumes "has_prefix (trim_space line) [c]" "\<not> is_sep c" "cut_line line = Some (k, v)"
  shows "trim_space k = [] \<or> has_prefix (trim_space k) [c]"
proof -
  obtain u where "trim_left line = trim_space line @ u"
    using trim_right_prefix unfolding trim_space_def by blast
  with assms(1) obtain r where r: "trim_left line = c # r" by (auto simp: has_prefix_iff)
  have "trim_left k = takeWhile (\<lambda>c. \<not> is_sep c) (trim_left line)"
    unfolding trim_left_def cut_line_prefix [OF assms(3)]
    by (rule strip_runes_takeWhile) (auto dest: space_runes_no_sep)
  with r assms(2) obtain r' where "trim_left k = c # r'" by simp
  moreover obtain w where "trim_left k = trim_space k @ w"
    using trim_right_prefix unfolding trim_space_def by blast
  ultimately show ?thesis by (cases "trim_space k") (auto simp: has_prefix_iff)
qed

lemma key_line_trim:
  assumes "clean_key k"
  shows "trim_space (k @ ''='' @ v) \<noteq> [] \<and> \<not> has_prefix (trim_space (k @ ''='' @ v)) ''#''"
proof -
  let ?l = "k @ ''='' @ v"
  have tk: "trimmed k" using assms trimmed_trim_space [of k] by (simp add: clean_key_def)
  have "\<not> has_prefix ?l p" if p: "p \<in> set space_runes" "p \<noteq> []" for p
  proof
    assume "has_prefix ?l p"
    then obtain t where t: "k @ ''='' @ v = p @ t" by (auto simp: has_prefix_iff)
    show False
    proof (cases "length p \<le> length k")
      case True
      with t have "take (length p) k = p" by (metis append_eq_conv_conj take_append diff_is_0_eq take_eq_Nil append_Nil2)
      then have "has_prefix k p" by (simp add: has_prefix_def)
      with tk p show False by (auto simp: trimmed_def rune_free_def)
    next
      case False
      then have "CHR ''='' \<in> set (take (length p) ?l)" by (cases "length p - length k") auto
      with t have "CHR ''='' \<in> set p" by simp
      with space_runes_no_sep [OF p(1)] show False by (auto simp: is_sep_def)
    qed
  qed
  then have left: "trim_left ?l = ?l"
    unfolding trim_left_def by (intro strip_runes_id) (auto simp: rune_free_def)
  have "CHR ''='' \<in> set (trim_space ?l)"
    unfolding trim_space_def left trim_right_def set_rev
    by (rule strip_runes_keeps) (auto simp: is_sep_def dest: space_runes_no_sep)
  then have ne: "trim_space ?l \<noteq> []" by auto
  have "\<exists>w. ?l = trim_space ?l @ w"
    unfolding trim_space_def left by (rule trim_right_prefix)
  then obtain w where w: "?l = trim_space ?l @ w" ..
  obtain c k' where k: "k = c # k'" using assms by (cases k) (auto simp: clean_key_def)
  from w k ne have "hd (trim_space ?l) = c" by (cases "trim_space ?l") auto
  moreover have "c \<noteq> CHR ''#''" using assms k by (auto simp: clean_key_def has_prefix_def)
  ultimately have "\<not> has_prefix (trim_space ?l) ''#''" by (auto simp: has_prefix_iff)
  with ne show ?thesis by simp
qed

lemma read_key_line:
  "clean_key k \<Longrightarrow> read_lines key ((k @ ''='' @ v) # ls) = (if k = key then Some (trim_space v) else read_lines key ls)"
  using key_line_trim [of k v] cut_line_key [of k v] by (simp add: clean_key_def Let_def)

lemma read_appended:
  "clean_kv rest \<Longrightarrow> read_lines key (map (\<lambda>(k, v). k @ ''='' @ v) rest) = map_option trim_space (map_of rest key)"
  by (induction rest) (auto simp: clean_kv_def read_key_line simp del: append_Cons append.simps read_lines.simps(2))

lemma read_lines_append:
  "read_lines key (a @ b) = (case read_lines key a of None \<Rightarrow> read_lines key b | Some v \<Rightarrow> Some v)"
  by (induction a) (auto simp: Let_def split: option.splits)

lemma al_del_clean: "clean_kv keys \<Longrightarrow> clean_kv (al_del k keys)"
  by (auto simp: clean_kv_def al_del_def)

lemma replace_lines_spec:
  assumes "replace_lines keys lines = (ls, rest)" "clean_kv keys" "al_wf keys"
  shows "(\<forall>k v. map_of keys k = Some v \<longrightarrow>
             map_of rest k = Some v \<and> read_lines k ls = None \<or> read_lines k ls = Some (trim_space v))
       \<and> (\<forall>k. map_of keys k = None \<longrightarrow> read_lines k ls = read_lines k lines)
       \<and> set rest \<subseteq> set keys \<and> length ls = length lines
       \<and> ((\<forall>l\<in>set lines. newline \<notin> set l) \<longrightarrow> (\<forall>l\<in>set ls. newline \<notin> set l))"
  using assms
proof (induction keys lines arbitrary: ls rest rule: replace_lines.induct)
  case (1 keys)
  then show ?case by auto
next
  case (2 keys line lines)
  let ?t = "trim_space line"
  show ?case
  proof (cases "line_hit keys line")
    case None
    obtain ls' where ls': "replace_lines keys lines = (ls', rest)" "ls = line # ls'"
      using None "2.prems"(1) by (cases "replace_lines keys lines") auto
    note ih = "2.IH"(1) [OF None ls'(1) "2.prems"(2,3)]
    have pass: "read_lines k ls = read_lines k ls'" if m: "map_of keys k = Some v" for k v
    proof (rule ccontr)
      assume ne: "read_lines k ls \<noteq> read_lines k ls'"
      then obtain a b where c: "cut_line line = Some (a, b)" "trim_space a = k" "?t \<noteq> []" "\<not> has_prefix ?t ''#''"
        unfolding ls'(2) by (auto simp: Let_def split: if_splits option.splits)
      with None m have "has_prefix ?t ''!''" by (auto simp: line_hit_def Let_def split: if_splits)
      from comment_key [OF this _ c(1)] c(2) have "k = [] \<or> has_prefix k ''!''" by (auto simp: is_sep_def)
      moreover have "clean_key k" using m "2.prems"(2) by (auto simp: clean_kv_def dest!: map_of_SomeD)
      ultimately show False by (auto simp: clean_key_def)
    qed
    have same: "read_lines k ls = read_lines k (line # lines)" if "map_of keys k = None" for k
      using ih that unfolding ls'(2) by (auto simp: Let_def split: option.splits)
    from ih ls'(2) pass same show ?thesis by (auto simp del: read_lines.simps(2))
  next
    case (Some kv)
    obtain k v where kv: "kv = (k, v)" by (cases kv)
    obtain a w where hit: "?t \<noteq> []" "\<not> has_prefix ?t ''#''" "cut_line line = Some (a, w)" "trim_space a = k"
      "map_of keys k = Some v"
      using Some kv by (auto simp: line_hit_def Let_def split: if_splits option.splits)
    obtain ls' where ls': "replace_lines (al_del k keys) lines = (ls', rest)" "ls = (k @ ''='' @ v) # ls'"
      using Some kv "2.prems"(1) by (cases "replace_lines (al_del k keys) lines") auto
    have ck: "clean_key k" "newline \<notin> set v"
      using hit(5) "2.prems"(2) by (auto simp: clean_kv_def dest!: map_of_SomeD)
    note ih = "2.IH"(2) [OF Some kv [symmetric] ls'(1) al_del_clean [OF "2.prems"(2)] al_wf_del [OF "2.prems"(3)]]
    have rd: "read_lines k' ls = (if k = k' then Some (trim_space v) else read_lines k' ls')" for k'
      unfolding ls'(2) by (rule read_key_line [OF ck(1)])
    have old: "read_lines k' (line # lines) = read_lines k' lines" if "map_of keys k' = None" for k'
    proof -
      have "k \<noteq> k'" using that hit(5) by auto
      with hit show ?thesis by (simp add: Let_def)
    qed
    have nl: "newline \<notin> set (k @ ''='' @ v)" using ck by (auto simp: clean_key_def)
    have sub: "set (al_del k keys) \<subseteq> set keys" by (auto simp: al_del_def)
    have 1: "map_of rest k' = Some v' \<and> read_lines k' ls = None \<or> read_lines k' ls = Some (trim_space v')"
      if "map_of keys k' = Some v'" for k' v'
      using ih rd [of k'] that hit(5) by (cases "k = k'") (simp_all add: map_of_al_del)
    have 2: "read_lines k' ls = read_lines k' (line # lines)" if "map_of keys k' = None" for k'
    proof -
      have "k \<noteq> k'" using that hit(5) by auto
      with ih rd [of k'] old [OF that] that show ?thesis by (simp add: map_of_al_del del: read_lines.simps(2))
    qed
    from 1 2 ih sub nl ls'(2) show ?thesis by (auto simp del: read_lines.simps(2))
  qed
qed



end
