(* ===== verification/Overrides.thy ===== *)
theory Overrides
  imports ConfigFiles
begin

text \<open>
  The per-server overrides of \<open>server.yaml\<close> (\<open>internal/config\<close>): normalisation of an override tree for
  a structured file or a \<open>.properties\<close> file, the validation of a server file and its list of server
  ids.  A \<open>FileOverrides\<close> is a \<open>gmap\<close>; parsing the YAML is not modelled.
\<close>

section \<open>Normalisation\<close>

text \<open>
  \<open>mergeSubtree\<close> merges in place when the existing value is a \<open>map[string]any\<close>; into the copy that
  \<open>AsStringMap\<close> makes of any other map the merge is checked but its result is not stored.
\<close>

definition mergeSubtree :: "gmap \<Rightarrow> string \<Rightarrow> gmap \<Rightarrow> gmap res" where
  "mergeSubtree dst key src =
     (case map_of dst key of
        None \<Rightarrow> Inr (al_put key (VMap StringMap (DeepCopyMap src)) dst)
      | Some existing \<Rightarrow>
          (case AsStringMap existing of
             Inl _ \<Rightarrow> Inl (ErrMsg (''override type mismatch: expected map at '' @ key))
           | Inr existMap \<Rightarrow>
               (case DeepMergeInPlace existMap src of
                  Inl e \<Rightarrow> Inl e
                | Inr m \<Rightarrow>
                    (case existing of VMap StringMap _ \<Rightarrow> Inr (al_put key (VMap StringMap m) dst)
                     | _ \<Rightarrow> Inr dst))))"

fun structured_loop :: "gmap \<Rightarrow> gmap \<Rightarrow> gmap res" where
  "structured_loop [] out = Inr out"
| "structured_loop ((k, v) # o') out =
     (let step =
        (if contains k ''.''
         then (case v of VMap StringMap _ \<Rightarrow> Inl (ErrMsg (''key mixes dotted path with nested map: '' @ k))
               | _ \<Rightarrow> SetNestedMap out k v)
         else (case AsStringMap v of
                 Inr sub \<Rightarrow> mergeSubtree out k sub
               | Inl _ \<Rightarrow> if \<not> IsScalar v then Inl (ErrMsg (''key must be scalar or nested map: '' @ k))
                          else Inr (al_put k v out)))
      in case step of Inl e \<Rightarrow> Inl e | Inr out' \<Rightarrow> structured_loop o' out')"

definition normalizeStructured :: "gmap \<Rightarrow> gmap res" where
  "normalizeStructured o' = structured_loop o' []"

fun properties_loop :: "gmap \<Rightarrow> gmap \<Rightarrow> gmap res" where
  "properties_loop [] flat = Inr flat"
| "properties_loop ((k, v) # o') flat =
     (case v of
        VMap StringMap t \<Rightarrow> properties_loop o' (fold (\<lambda>(dk, dv) f. al_put dk dv f) (FlattenScalars k t) flat)
      | VIface t \<Rightarrow>
          properties_loop o' (fold (\<lambda>(dk, dv) f. al_put dk dv f) (FlattenScalars k (YAMLMapToStringMap t)) flat)
      | _ \<Rightarrow> if \<not> IsScalar v then Inl (ErrMsg (''properties override must be scalar: '' @ k))
             else properties_loop o' (al_put k v flat))"

definition normalizeProperties :: "gmap \<Rightarrow> gmap res" where
  "normalizeProperties o' = properties_loop o' []"

definition Normalize :: "gmap \<Rightarrow> string \<Rightarrow> gmap res" where
  "Normalize o' basename =
     (if o' = [] then Inl (ErrMsg ''empty overrides'')
      else let ext = ConfigExt basename in
        if ext = ''.yaml'' \<or> ext = ''.yml'' \<or> ext = ''.json'' then normalizeStructured o'
        else if ext = ''.properties'' then normalizeProperties o'
        else Inl (ErrMsg ''unsupported config extension''))"

fun prepare_loop :: "(string \<times> gmap) list \<Rightarrow> (string \<times> gmap) list \<Rightarrow> (string \<times> gmap) list res" where
  "prepare_loop [] out = Inr out"
| "prepare_loop ((name, raw) # byFile) out =
     (case Normalize raw (Basename name) of
        Inl e \<Rightarrow> Inl e
      | Inr norm \<Rightarrow> prepare_loop byFile (al_put (Basename name) norm out))"

definition PrepareReplacements :: "(string \<times> gmap) list \<Rightarrow> (string \<times> gmap) list res" where
  "PrepareReplacements byFile = prepare_loop byFile []"

section \<open>Server files\<close>

record server_entry =
  se_Replacements :: "(string \<times> gmap) list"
  se_PostHook :: string
  se_PostHookEnv :: "(string \<times> string) list"

type_synonym server_file = "(string \<times> server_entry) list"

definition Entry :: "server_file \<Rightarrow> string \<Rightarrow> server_entry option" where
  "Entry sf serverID = map_of sf serverID"

definition check_replacement :: "string \<times> gmap \<Rightarrow> unit res" where
  "check_replacement r =
     (case r of (name, raw) \<Rightarrow>
        let base = Basename name
        in if base \<noteq> name \<or> contains name ''/'' \<or> contains name [CHR 0x5C]
           then Inl (ErrMsg ''key must be config filename only (basename), not a path'')
           else if \<not> IsConfigFile base then Inl (ErrMsg ''not a supported config extension'')
           else if raw = [] then Inl (ErrMsg ''at least one key required'')
           else case Normalize raw base of Inl e \<Rightarrow> Inl e | Inr _ \<Rightarrow> Inr ())"

fun check_all :: "('a \<Rightarrow> unit res) \<Rightarrow> 'a list \<Rightarrow> unit res" where
  "check_all f [] = Inr ()"
| "check_all f (x # xs) = (case f x of Inl e \<Rightarrow> Inl e | Inr _ \<Rightarrow> check_all f xs)"

definition Validate :: "server_file \<Rightarrow> unit res" where
  "Validate sf = check_all (\<lambda>(sid, entry). check_all check_replacement (se_Replacements entry)) sf"

definition ServerIDs :: "server_file \<Rightarrow> string list" where
  "ServerIDs sf = sort (map fst sf)"

section \<open>Lemmas\<close>

lemma check_all_ok: "is_ok (check_all f xs) \<longleftrightarrow> (\<forall>x\<in>set xs. is_ok (f x))"
  by (induction xs) (auto split: sum.splits)

lemma base_no_slash: "path_base p = p \<Longrightarrow> slash \<in> set p \<Longrightarrow> p = ''/''"
proof -
  assume a: "path_base p = p" "slash \<in> set p"
  show "p = ''/''"
  proof (cases "p = [] \<or> trim_right_set [slash] p = []")
    case True
    with a show ?thesis by (auto simp: path_base_def Let_def split: if_splits)
  next
    case False
    with a have "last (split_on slash (trim_right_set [slash] p)) = p"
      by (simp add: path_base_def Let_def)
    with a(2) have "\<exists>w\<in>set (split_on slash (trim_right_set [slash] p)). slash \<in> set w"
      by (metis last_in_set split_by_not_Nil)
    then show ?thesis by (auto dest: split_by_clean)
  qed
qed

lemma prepare_loop_ok:
  "(\<forall>(name, raw)\<in>set byFile. is_ok (Normalize raw (Basename name))) \<Longrightarrow> is_ok (prepare_loop byFile out)"
proof (induction byFile arbitrary: out)
  case (Cons r byFile)
  obtain name raw where r: "r = (name, raw)" by (cases r)
  with Cons.prems obtain norm where "Normalize raw (Basename name) = Inr norm"
    by (auto simp: is_ok_iff)
  with Cons r show ?case by simp
qed simp

lemma prepare_loop_keys:
  "prepare_loop byFile out = Inr out' \<Longrightarrow> fst ` set out' = fst ` set out \<union> Basename ` fst ` set byFile"
proof (induction byFile arbitrary: out)
  case (Cons r byFile)
  obtain name raw where "r = (name, raw)" by (cases r)
  with Cons show ?case by (auto split: sum.splits)
qed simp

text \<open>
  A server file that passes validation can be prepared for every server: each key is the base
  name of a configuration file, and the prepared overrides have exactly the keys written in the file,
  so no override is dropped or redirected to another file.
\<close>

theorem validated_servers_prepare:
  assumes "Validate sf = Inr ()" "(sid, entry) \<in> set sf"
  shows "\<exists>out. PrepareReplacements (se_Replacements entry) = Inr out
     \<and> fst ` set out = fst ` set (se_Replacements entry)
     \<and> (\<forall>name\<in>fst ` set out. IsConfigFile name \<and> slash \<notin> set name)"
proof -
  have ok: "is_ok (Validate sf)" using assms(1) by simp
  have each: "is_ok (check_replacement r)" if "r \<in> set (se_Replacements entry)" for r
  proof -
    from bspec [OF ok [unfolded Validate_def check_all_ok] assms(2)]
    have "is_ok (check_all check_replacement (se_Replacements entry))" by simp
    with that show ?thesis by (simp add: check_all_ok)
  qed
  have parts: "Basename name = name \<and> IsConfigFile name \<and> slash \<notin> set name \<and> is_ok (Normalize raw (Basename name))"
    if "(name, raw) \<in> set (se_Replacements entry)" for name raw
  proof -
    have "is_ok (check_replacement (name, raw))" by (rule each [OF that])
    then have c: "Basename name = name" "\<not> contains name ''/''" "IsConfigFile name" "is_ok (Normalize raw (Basename name))"
      by (auto simp: check_replacement_def Let_def split: if_splits sum.splits)
    have "slash \<notin> set name"
    proof
      assume "slash \<in> set name"
      then obtain u v where "name = u @ [slash] @ v" by (auto dest: split_list)
      with c(2) show False by (auto simp: contains_iff)
    qed
    with c show ?thesis by simp
  qed
  then have "is_ok (prepare_loop (se_Replacements entry) [])"
    by (intro prepare_loop_ok) auto
  then obtain out where out: "prepare_loop (se_Replacements entry) [] = Inr out" by (auto simp: is_ok_iff)
  have "Basename ` fst ` set (se_Replacements entry) = fst ` set (se_Replacements entry)"
    using parts by (force simp: image_iff)
  with prepare_loop_keys [OF out] have keys: "fst ` set out = fst ` set (se_Replacements entry)" by simp
  moreover have "\<forall>name\<in>fst ` set out. IsConfigFile name \<and> slash \<notin> set name"
    unfolding keys using parts by auto
  ultimately show ?thesis using out unfolding PrepareReplacements_def by blast
qed

lemma validated_servers_prepare_witness:
  "\<exists>out. PrepareReplacements [(''game.yaml'', [(''port'', VInt 1)])] = Inr out \<and> fst ` set out = {''game.yaml''}"
proof -
  let ?e = "\<lparr>se_Replacements = [(''game.yaml'', [(''port'', VInt 1)])], se_PostHook = [], se_PostHookEnv = []\<rparr>"
  have "is_ok (Validate [(''s1'', ?e)])" by code_simp
  then have "Validate [(''s1'', ?e)] = Inr ()" by (auto simp: is_ok_iff)
  from validated_servers_prepare [OF this, of "''s1''" ?e] show ?thesis by auto
qed

end
