(* ===== verification/HookSpec.thy ===== *)
theory HookSpec
  imports Paths
begin

text \<open>
  The post-hook declaration of a version (\<open>internal/hookspec\<close>): the first step that has a script and
  whose \<open>when\<close> matches the operating system is planned and executed.  Reading and parsing the YAML is
  not modelled; running the process is the environment's.
\<close>

record step =
  sp_When :: string
  sp_Else :: bool
  sp_Run :: string
  sp_Shell :: string

definition matches_when :: "string \<Rightarrow> step \<Rightarrow> bool res" where
  "matches_when goos st =
     (if sp_Else st then Inr True
      else if sp_When st = [] then Inr True
      else let w = trim_space (sp_When st)
        in case cut ''=='' w of
             None \<Rightarrow> Inl (ErrMsg ''unsupported when expression'')
           | Some (a, b) \<Rightarrow>
               (if trim_space a \<noteq> ''os'' then Inl (ErrMsg ''unsupported when key (only os supported)'')
                else Inr (goos = trim_set [CHR 0x22, CHR 0x27] (trim_space b))))"

text \<open>The loop shared by \<open>Plan\<close> and \<open>Execute\<close>.\<close>

fun first_match :: "string \<Rightarrow> step list \<Rightarrow> step option res" where
  "first_match goos [] = Inr None"
| "first_match goos (st # steps) =
     (if sp_Run st = [] then first_match goos steps
      else case matches_when goos st of
             Inl e \<Rightarrow> Inl e
           | Inr ok \<Rightarrow> if ok then Inr (Some st) else first_match goos steps)"

definition Plan :: "string \<Rightarrow> step list \<Rightarrow> string list res" where
  "Plan goos steps =
     (case first_match goos steps of
        Inl e \<Rightarrow> Inl e
      | Inr None \<Rightarrow> Inr []
      | Inr (Some st) \<Rightarrow> Inr [sp_Run st])"

definition PlanLines :: "string \<Rightarrow> step list \<Rightarrow> string list res" where
  "PlanLines goos steps =
     (case Plan goos steps of
        Inl e \<Rightarrow> Inl e
      | Inr paths \<Rightarrow> Inr (map (\<lambda>p. ''['' @ goos @ ''] '' @ p) paths))"

text \<open>\<open>runStep\<close>: the command line of a step; \<open>present\<close> tells which scripts are on disk.\<close>

definition step_command :: "string \<Rightarrow> (string \<Rightarrow> bool) \<Rightarrow> string \<Rightarrow> step \<Rightarrow> string list res" where
  "step_command goos present dest st =
     (let script = path_join dest (sp_Run st); shell = lower (trim_space (sp_Shell st));
          ps = [''powershell'', ''-NoProfile'', ''-ExecutionPolicy'', ''Bypass'', ''-File'', script]
      in if \<not> present script then Inl (ErrMsg ''post-hook script not found'')
         else if shell = ''powershell'' \<or> shell = ''ps1'' \<or> shell = ''pwsh'' then Inr ps
         else if shell = ''bash'' \<or> shell = ''sh'' then Inr [''bash'', script]
         else if shell = ''cmd'' then Inr [''cmd'', ''/c'', script]
         else if shell = [] then
           (if goos = ''windows'' \<and> has_suffix (lower script) ''.ps1'' then Inr ps
            else if goos = ''windows'' \<and> has_suffix (lower script) ''.sh'' then Inr [''bash'', script]
            else Inr [script])
         else Inl (ErrMsg ''unsupported shell''))"

text \<open>\<open>Execute\<close> yields the command line it runs, or nothing when no step matches.\<close>

definition Execute :: "string \<Rightarrow> (string \<Rightarrow> bool) \<Rightarrow> string \<Rightarrow> step list \<Rightarrow> string list option res" where
  "Execute goos present dest steps =
     (case first_match goos steps of
        Inl e \<Rightarrow> Inl e
      | Inr None \<Rightarrow> Inr None
      | Inr (Some st) \<Rightarrow> (case step_command goos present dest st of Inl e \<Rightarrow> Inl e | Inr c \<Rightarrow> Inr (Some c)))"

lemma first_match_Some:
  "first_match goos steps = Inr (Some st) \<Longrightarrow>
     \<exists>before after. steps = before @ st # after \<and> sp_Run st \<noteq> [] \<and> matches_when goos st = Inr True
       \<and> (\<forall>b\<in>set before. sp_Run b = [] \<or> matches_when goos b = Inr False)"
proof (induction steps)
  case (Cons a steps)
  show ?case
  proof (cases "sp_Run a \<noteq> [] \<and> matches_when goos a = Inr True")
    case True
    with Cons.prems show ?thesis by (intro exI [of _ "[]"] exI [of _ steps]) auto
  next
    case False
    with Cons.prems have "first_match goos steps = Inr (Some st)" "sp_Run a = [] \<or> matches_when goos a = Inr False"
      by (auto split: if_splits sum.splits)
    with Cons.IH obtain before after where "steps = before @ st # after" "sp_Run st \<noteq> []"
      "matches_when goos st = Inr True" "\<forall>b\<in>set (a # before). sp_Run b = [] \<or> matches_when goos b = Inr False"
      by auto
    then show ?thesis by (intro exI [of _ "a # before"] exI [of _ after]) simp
  qed
qed simp

lemma matches_when_os:
  "sp_Else st = False \<Longrightarrow> sp_When st \<noteq> [] \<Longrightarrow> matches_when goos st = Inr True \<Longrightarrow>
     matches_when other st = Inr True \<Longrightarrow> goos = other"
  by (auto simp: matches_when_def Let_def split: option.splits if_splits)

text \<open>
  A plan is the preview of the execution: the script that \<open>Execute\<close> runs is the one \<open>Plan\<close> shows, it
  belongs to the first step with a script that matches the operating system, and every earlier step
  with a script was evaluated and did not match.
\<close>

theorem plan_is_what_runs:
  assumes "Execute goos present dest steps = Inr (Some cmd)"
  shows "\<exists>before st after. steps = before @ st # after \<and> Plan goos steps = Inr [sp_Run st]
     \<and> last cmd = path_join dest (sp_Run st) \<and> present (last cmd)
     \<and> (\<forall>b\<in>set before. sp_Run b = [] \<or> matches_when goos b = Inr False)"
proof -
  from assms obtain st where st: "first_match goos steps = Inr (Some st)" "step_command goos present dest st = Inr cmd"
    by (auto simp: Execute_def split: sum.splits option.splits)
  from first_match_Some [OF st(1)] obtain before after where
    "steps = before @ st # after" "\<forall>b\<in>set before. sp_Run b = [] \<or> matches_when goos b = Inr False" by blast
  moreover have "last cmd = path_join dest (sp_Run st) \<and> present (path_join dest (sp_Run st))"
    using st(2) by (auto simp: step_command_def Let_def split: if_splits)
  moreover have "Plan goos steps = Inr [sp_Run st]" using st(1) by (simp add: Plan_def)
  ultimately show ?thesis by auto
qed

lemma plan_is_what_runs_witness:
  "\<exists>before st after. [\<lparr>sp_When = ''os == windows'', sp_Else = False, sp_Run = ''r.ps1'', sp_Shell = []\<rparr>,
     \<lparr>sp_When = [], sp_Else = True, sp_Run = ''r.sh'', sp_Shell = ''sh''\<rparr>] = before @ st # after
     \<and> sp_Run st = ''r.sh''"
proof -
  let ?w = "\<lparr>sp_When = ''os == windows'', sp_Else = False, sp_Run = ''r.ps1'', sp_Shell = []\<rparr>"
  let ?e = "\<lparr>sp_When = [], sp_Else = True, sp_Run = ''r.sh'', sp_Shell = ''sh''\<rparr>"
  have "(case Execute ''linux'' (\<lambda>_. True) ''/d'' [?w, ?e] of Inr (Some c) \<Rightarrow> c = [''bash'', ''/d/r.sh''] | _ \<Rightarrow> False)"
    by code_simp
  then have "Execute ''linux'' (\<lambda>_. True) ''/d'' [?w, ?e] = Inr (Some [''bash'', ''/d/r.sh''])"
    by (auto split: sum.splits option.splits)
  from plan_is_what_runs [OF this] obtain before st after where
    p: "[?w, ?e] = before @ st # after" "Plan ''linux'' [?w, ?e] = Inr [sp_Run st]" by blast
  have "(case Plan ''linux'' [?w, ?e] of Inr ps \<Rightarrow> ps = [''r.sh''] | _ \<Rightarrow> False)" by code_simp
  with p have "sp_Run st = ''r.sh''" by simp
  with p(1) show ?thesis by blast
qed

end
