(* ===== verification/Blobs.thy ===== *)
theory Blobs
  imports Store
begin

text \<open>
  The content-addressed file store (\<open>internal/store/blobs.go\<close>): a blob per content hash with a count of
  the version files that link to it.  \<open>sha\<close> is the hexadecimal SHA-256 of a content; what is assumed
  of it, where anything is, is the form of its result.  A hard link holds the content of its blob:
  the store removes and relinks version files and never writes through a link.
\<close>

section \<open>Operations\<close>

definition blobsRoot :: "store \<Rightarrow> string" where
  "blobsRoot s = path_join (st_dataDir s) ''blobs''"

definition blobPath :: "store \<Rightarrow> string \<Rightarrow> string" where
  "blobPath s hash =
     (if length hash < 2 then path_join (blobsRoot s) hash
      else path_join (blobsRoot s) (take 2 hash @ ''/'' @ hash))"

definition find_blob :: "store \<Rightarrow> string \<Rightarrow> blob option" where
  "find_blob s hash = find (\<lambda>b. b_Hash b = hash) (st_blobs s)"

definition writeBlobFile :: "string \<Rightarrow> string \<Rightarrow> store \<Rightarrow> store" where
  "writeBlobFile path data s =
     (case map_of (st_files s) path of
        Some _ \<Rightarrow> s
      | None \<Rightarrow> s\<lparr>st_files := al_put path data (st_files s)\<rparr>)"

definition ingestBlob :: "(string \<Rightarrow> string) \<Rightarrow> go_time \<Rightarrow> string \<Rightarrow> store \<Rightarrow> string res \<times> store" where
  "ingestBlob sha now data s =
     (let hash = sha data; s1 = writeBlobFile (blobPath s hash) data s
      in case find_blob s hash of
           None \<Rightarrow>
             (Inr hash, s1\<lparr>st_blobs := st_blobs s1 @
                [\<lparr>b_Hash = hash, b_Size = int (length data), b_RefCount = 1, b_CreatedAt = format_time now\<rparr>]\<rparr>)
         | Some _ \<Rightarrow>
             (Inr hash, s1\<lparr>st_blobs :=
                map (\<lambda>b. if b_Hash b = hash then b\<lparr>b_RefCount := b_RefCount b + 1\<rparr> else b) (st_blobs s1)\<rparr>))"

text \<open>The reader variant reads everything first and then does the same.\<close>

definition ingestBlobFromReader :: "(string \<Rightarrow> string) \<Rightarrow> go_time \<Rightarrow> string \<Rightarrow> store \<Rightarrow> string res \<times> store" where
  "ingestBlobFromReader sha now content s =
     (let hash = sha content; s1 = writeBlobFile (blobPath s hash) content s
      in case find_blob s hash of
           None \<Rightarrow>
             (Inr hash, s1\<lparr>st_blobs := st_blobs s1 @
                [\<lparr>b_Hash = hash, b_Size = int (length content), b_RefCount = 1, b_CreatedAt = format_time now\<rparr>]\<rparr>)
         | Some _ \<Rightarrow>
             (Inr hash, s1\<lparr>st_blobs :=
                map (\<lambda>b. if b_Hash b = hash then b\<lparr>b_RefCount := b_RefCount b + 1\<rparr> else b) (st_blobs s1)\<rparr>))"

definition linkBlobToVersion :: "string \<Rightarrow> string \<Rightarrow> store \<Rightarrow> unit res \<times> store" where
  "linkBlobToVersion hash path s =
     (let files = al_del path (st_files s)
      in case map_of files (blobPath s hash) of
           None \<Rightarrow> (Inl ErrNotExist, s\<lparr>st_files := files\<rparr>)
         | Some c \<Rightarrow> (Inr (), s\<lparr>st_files := al_put path c files\<rparr>))"

definition decrementBlobRef :: "string \<Rightarrow> store \<Rightarrow> unit res \<times> store" where
  "decrementBlobRef hash s =
     (case find_blob s hash of
        None \<Rightarrow> (Inr (), s)
      | Some b \<Rightarrow>
          if b_RefCount b - 1 \<le> 0
          then (Inr (), s\<lparr>st_blobs := filter (\<lambda>b. b_Hash b \<noteq> hash) (st_blobs s),
                          st_files := al_del (blobPath s hash) (st_files s)\<rparr>)
          else (Inr (), s\<lparr>st_blobs := map (\<lambda>r. if b_Hash r = hash then r\<lparr>b_RefCount := b_RefCount b - 1\<rparr> else r)
                                       (st_blobs s)\<rparr>))"

definition releaseBlobLink :: "(string \<Rightarrow> string) \<Rightarrow> string \<Rightarrow> store \<Rightarrow> unit res \<times> store" where
  "releaseBlobLink sha path s =
     (case map_of (st_files s) path of
        None \<Rightarrow> if dir_exists s path then (Inl (ErrMsg ''is a directory''), s) else (Inr (), s)
      | Some c \<Rightarrow> decrementBlobRef (sha c) (s\<lparr>st_files := al_del path (st_files s)\<rparr>))"

text \<open>\<open>filepath.Walk\<close> visits the entries of each directory in lexical order.\<close>

definition walk_paths :: "store \<Rightarrow> string \<Rightarrow> string list" where
  "walk_paths s root =
     sort_key (split_on slash) (map fst (filter (\<lambda>(f, _). f = root \<or> under root f) (st_files s)))"

fun release_all :: "(string \<Rightarrow> string) \<Rightarrow> string list \<Rightarrow> store \<Rightarrow> unit res \<times> store" where
  "release_all sha [] s = (Inr (), s)"
| "release_all sha (f # fs) s =
     (case releaseBlobLink sha f s of
        (Inl e, s') \<Rightarrow> (Inl e, s')
      | (Inr _, s') \<Rightarrow> release_all sha fs s')"

definition releaseVersionDir :: "(string \<Rightarrow> string) \<Rightarrow> string \<Rightarrow> store \<Rightarrow> unit res \<times> store" where
  "releaseVersionDir sha root s = release_all sha (walk_paths s root) s"

definition releaseProjectDir :: "(string \<Rightarrow> string) \<Rightarrow> string \<Rightarrow> store \<Rightarrow> unit res \<times> store" where
  "releaseProjectDir sha root s = releaseVersionDir sha root s"

record blob_stats =
  bs_BlobCount :: int
  bs_TotalBytes :: int
  bs_TotalRefs :: int

definition BlobStats :: "store \<Rightarrow> blob_stats" where
  "BlobStats s = \<lparr>bs_BlobCount = int (length (st_blobs s)),
     bs_TotalBytes = sum_list (map b_Size (st_blobs s)), bs_TotalRefs = sum_list (map b_RefCount (st_blobs s))\<rparr>"

section \<open>Counting references\<close>

lemma count_al_del:
  "al_wf m \<Longrightarrow> length (filter P m) =
     length (filter P (al_del f m)) + (case map_of m f of Some c \<Rightarrow> if P (f, c) then 1 else 0 | None \<Rightarrow> 0)"
proof (induction m)
  case (Cons x m)
  obtain g c where x: "x = (g, c)" by (cases x)
  show ?case
  proof (cases "g = f")
    case True
    with Cons.prems x have "map_of m f = None" by (simp add: map_of_eq_None_iff)
    moreover from this have "al_del f m = m" by (auto simp: al_del_def map_of_eq_None_iff intro!: filter_id_conv_all)
    ultimately show ?thesis using True x by (auto simp: al_del_def)
  next
    case False
    with Cons x show ?thesis by (auto simp: al_del_def)
  qed
qed (simp add: al_del_def)

lemma al_del_absent: "map_of m f = None \<Longrightarrow> al_del f m = m"
  by (auto simp: al_del_def map_of_eq_None_iff intro!: filter_id_conv_all)

lemma count_al_put:
  "al_wf m \<Longrightarrow> length (filter P (al_put f c m)) = length (filter P (al_del f m)) + (if P (f, c) then 1 else 0)"
  using count_al_del [of "al_put f c m" P f]
proof -
  assume w: "al_wf m"
  have "al_del f (al_put f c m) = al_del f m"
    by (induction f c m rule: al_put.induct) (auto simp: al_del_def)
  with count_al_del [of "al_put f c m" P f] w show ?thesis by simp
qed

definition refs :: "(string \<Rightarrow> string) \<Rightarrow> store \<Rightarrow> string \<Rightarrow> nat" where
  "refs sha s h = length (filter (\<lambda>(f, c). \<not> under (blobsRoot s) f \<and> sha c = h) (st_files s))"

definition ref_count :: "store \<Rightarrow> string \<Rightarrow> int" where
  "ref_count s h = (case find_blob s h of None \<Rightarrow> 0 | Some b \<Rightarrow> b_RefCount b)"

definition hex_hash :: "string \<Rightarrow> bool" where
  "hex_hash h = (length h = 64 \<and> list_all is_alnum h)"

text \<open>
  The invariant: the count of every hash is the number of version files with that content hash, and
  the file of every recorded blob is there, and a file at the path of a hash has content of that hash.
\<close>

definition blob_ok :: "(string \<Rightarrow> string) \<Rightarrow> store \<Rightarrow> bool" where
  "blob_ok sha s =
     (is_abs (st_dataDir s) \<and> al_wf (st_files s) \<and> distinct (map b_Hash (st_blobs s))
      \<and> (\<forall>h. int (refs sha s h) = ref_count s h)
      \<and> (\<forall>b\<in>set (st_blobs s). 0 < b_RefCount b \<and> hex_hash (b_Hash b)
           \<and> map_of (st_files s) (blobPath s (b_Hash b)) \<noteq> None)
      \<and> (\<forall>h c. hex_hash h \<and> map_of (st_files s) (blobPath s h) = Some c \<longrightarrow> sha c = h))"

section \<open>Blob paths\<close>

lemma alnum_comp: "list_all is_alnum w \<Longrightarrow> w \<noteq> [] \<Longrightarrow> comp_ok w \<and> w \<noteq> ''..''"
proof -
  assume a: "list_all is_alnum w" "w \<noteq> []"
  have "\<not> is_alnum slash" "\<not> is_alnum (CHR ''.'')" by code_simp+
  with a show ?thesis by (auto simp: comp_ok_def list_all_iff)
qed

lemma hex_hash_comps:
  assumes "hex_hash h"
  shows "raw_comps (take 2 h @ ''/'' @ h) = [take 2 h, h]" "''..'' \<notin> {take 2 h, h}"
proof -
  have t: "list_all is_alnum (take 2 h)" "take 2 h \<noteq> []" and h: "list_all is_alnum h" "h \<noteq> []"
    using assms by (auto simp: hex_hash_def list_all_iff dest: in_set_takeD)
  from alnum_comp [OF t] alnum_comp [OF h]
  show "raw_comps (take 2 h @ ''/'' @ h) = [take 2 h, h]" "''..'' \<notin> {take 2 h, h}"
    by (auto simp: raw_comps_append raw_comps_one simp del: append_Cons append_Nil)
qed

lemma blobsRoot_render:
  "is_abs (st_dataDir s) \<Longrightarrow> blobsRoot s = render True (path_comps (st_dataDir s) @ [''blobs''])"
proof -
  have "raw_comps ''blobs'' = [''blobs'']" by code_simp
  then show "is_abs (st_dataDir s) \<Longrightarrow> ?thesis" by (simp add: blobsRoot_def path_join_plain)
qed

lemma blobPath_render:
  assumes "is_abs (st_dataDir s)" "hex_hash h"
  shows "blobPath s h = render True (path_comps (st_dataDir s) @ [''blobs'', take 2 h, h])"
proof -
  have ok: "\<forall>w\<in>set (path_comps (st_dataDir s) @ [''blobs'']). comp_ok w"
    by (auto dest: path_comps_ok simp: comp_ok_def)
  have up: "''..'' \<notin> set (path_comps (st_dataDir s) @ [''blobs''])"
    using abs_comps_no_up [OF assms(1)] by simp
  have "\<not> length h < 2" using assms(2) by (simp add: hex_hash_def)
  then have "blobPath s h = path_join (blobsRoot s) (take 2 h @ ''/'' @ h)" by (simp add: blobPath_def)
  moreover have "is_abs (blobsRoot s)" using assms(1) ok by (simp add: blobsRoot_render is_abs_render)
  ultimately show ?thesis
    using hex_hash_comps [OF assms(2)] path_comps_render [OF ok up] assms(1)
    by (simp add: path_join_plain blobsRoot_render del: append_Cons append_Nil)
      simp
qed

lemma blobPath_inject:
  assumes "is_abs (st_dataDir s)" "hex_hash h" "hex_hash h'" "blobPath s h = blobPath s h'"
  shows "h = h'"
proof -
  have "\<forall>w\<in>set (path_comps (st_dataDir s) @ [''blobs'', take 2 x, x]). comp_ok w" if "hex_hash x" for x
    using that hex_hash_comps(1) [OF that] raw_comps_ok [of _ "take 2 x @ ''/'' @ x"]
    by (auto dest: path_comps_ok simp: comp_ok_def [of "''blobs''"])
  from render_inject [OF this [OF assms(2)] this [OF assms(3)]] assms show ?thesis
    by (simp add: blobPath_render)
qed

lemma under_blobsRoot:
  assumes "is_abs (st_dataDir s)" "hex_hash h"
  shows "under (blobsRoot s) (blobPath s h)"
  using render_append [of "path_comps (st_dataDir s) @ [''blobs'']" "[take 2 h, h]" True] assms
  by (simp add: under_def has_prefix_iff blobPath_render blobsRoot_render)

section \<open>Linking and releasing keep the counts\<close>

lemma root_update [simp]:
  "blobsRoot (s\<lparr>st_files := f\<rparr>) = blobsRoot s" "blobsRoot (s\<lparr>st_blobs := b\<rparr>) = blobsRoot s"
  "blobPath (s\<lparr>st_files := f\<rparr>) h = blobPath s h" "blobPath (s\<lparr>st_blobs := b\<rparr>) h = blobPath s h"
  by (simp_all add: blobsRoot_def blobPath_def)

lemma find_blob_row: "distinct (map b_Hash (st_blobs s)) \<Longrightarrow> find_blob s h = Some b \<Longrightarrow> b \<in> set (st_blobs s) \<and> b_Hash b = h"
  by (auto simp: find_blob_def dest: find_Some_iff2)

lemma find_bump:
  assumes "\<And>b. b_Hash (f b) = b_Hash b"
  shows "find (\<lambda>b. b_Hash b = h') (map (\<lambda>b. if b_Hash b = h then f b else b) bs)
       = map_option (\<lambda>b. if b_Hash b = h then f b else b) (find (\<lambda>b. b_Hash b = h') bs)"
  by (induction bs) (auto simp: assms)

lemma ref_count_update:
  "(\<And>x. find_blob s' x = (if x = h then f (find_blob s x) else find_blob s x)) \<Longrightarrow>
     ref_count s' x = (if x = h then (case f (find_blob s h) of None \<Rightarrow> 0 | Some b \<Rightarrow> b_RefCount b) else ref_count s x)"
  by (simp add: ref_count_def)

lemma ingest_blobs:
  assumes "ingestBlobFromReader sha now data s = (r, s1)"
  shows "r = Inr (sha data) \<and> st_dataDir s1 = st_dataDir s
    \<and> st_files s1 = st_files (writeBlobFile (blobPath s (sha data)) data s)
    \<and> ref_count s1 x = ref_count s x + (if x = sha data then 1 else 0)
    \<and> set (map b_Hash (st_blobs s1)) = insert (sha data) (set (map b_Hash (st_blobs s)))
    \<and> (distinct (map b_Hash (st_blobs s)) \<longrightarrow> distinct (map b_Hash (st_blobs s1)))
    \<and> ((\<forall>b\<in>set (st_blobs s). 0 < b_RefCount b) \<longrightarrow> (\<forall>b\<in>set (st_blobs s1). 0 < b_RefCount b))"
proof -
  let ?h = "sha data"
  let ?w = "writeBlobFile (blobPath s ?h) data s"
  have w: "st_blobs ?w = st_blobs s" "st_dataDir ?w = st_dataDir s"
    by (auto simp: writeBlobFile_def split: option.splits)
  have bump: "map b_Hash (map (\<lambda>b. if b_Hash b = ?h then b\<lparr>b_RefCount := b_RefCount b + 1\<rparr> else b) (st_blobs s))
      = map b_Hash (st_blobs s)" by simp
  show ?thesis
  proof (cases "find_blob s ?h")
    case None
    then have "?h \<notin> b_Hash ` set (st_blobs s)" by (auto simp: find_blob_def find_None_all)
    moreover have "find_blob s1 x = (if x = ?h then Some \<lparr>b_Hash = ?h, b_Size = int (length data), b_RefCount = 1,
        b_CreatedAt = format_time now\<rparr> else find_blob s x)"
      using assms None w
      by (auto simp: ingestBlobFromReader_def Let_def find_blob_def find_append split: option.splits)
    ultimately show ?thesis using assms None w
      by (auto simp: ingestBlobFromReader_def Let_def ref_count_def)
  next
    case (Some b)
    have s1: "s1 = ?w\<lparr>st_blobs := map (\<lambda>b. if b_Hash b = ?h then b\<lparr>b_RefCount := b_RefCount b + 1\<rparr> else b) (st_blobs s)\<rparr>"
      and r: "r = Inr ?h"
      using assms Some w by (auto simp: ingestBlobFromReader_def Let_def)
    have "?h \<in> set (map b_Hash (st_blobs s))" using Some by (force simp: find_blob_def dest!: find_Some_iff2)
    moreover have "find_blob s1 x = map_option (\<lambda>b. if b_Hash b = ?h then b\<lparr>b_RefCount := b_RefCount b + 1\<rparr> else b) (find_blob s x)"
      using find_bump [of "\<lambda>b. b\<lparr>b_RefCount := b_RefCount b + 1\<rparr>" x ?h "st_blobs s"] by (simp add: find_blob_def s1)
    then have "ref_count s1 x = ref_count s x + (if x = ?h then 1 else 0)"
      using Some by (auto simp: ref_count_def find_blob_def dest!: find_Some_iff2 split: option.splits)
    ultimately show ?thesis unfolding s1 r using bump w by (auto simp del: map_map)
  qed
qed

lemma blob_files:
  assumes "al_wf (st_files s)" "under (blobsRoot s) bp"
  shows "al_wf (st_files (writeBlobFile bp data s))
    \<and> length (filter (\<lambda>(f, c). \<not> under (blobsRoot s) f \<and> sha c = x) (st_files (writeBlobFile bp data s))) = refs sha s x
    \<and> (\<forall>f. map_of (st_files (writeBlobFile bp data s)) f =
         (if f = bp \<and> map_of (st_files s) bp = None then Some data else map_of (st_files s) f))"
proof (cases "map_of (st_files s) bp")
  case None
  then have "length (filter (\<lambda>(f, c). \<not> under (blobsRoot s) f \<and> sha c = x) (al_put bp data (st_files s))) = refs sha s x"
    using assms(2) by (simp add: refs_def al_put_new)
  with None assms(1) show ?thesis by (simp add: writeBlobFile_def)
next
  case (Some c)
  with assms(1) show ?thesis by (simp add: writeBlobFile_def refs_def)
qed

text \<open>Storing a content at a free path outside the blob directory, as an upload does.\<close>

lemma blob_okI:
  assumes "is_abs (st_dataDir s)" "al_wf (st_files s)" "distinct (map b_Hash (st_blobs s))"
    "\<And>h. int (refs sha s h) = ref_count s h"
    "\<And>b. b \<in> set (st_blobs s) \<Longrightarrow> 0 < b_RefCount b \<and> hex_hash (b_Hash b)
           \<and> map_of (st_files s) (blobPath s (b_Hash b)) \<noteq> None"
    "\<And>h c. hex_hash h \<Longrightarrow> map_of (st_files s) (blobPath s h) = Some c \<Longrightarrow> sha c = h"
  shows "blob_ok sha s"
  unfolding blob_ok_def using assms by blast

lemma link_new:
  assumes ok: "blob_ok sha s" and hex: "hex_hash (sha data)"
    and path: "\<not> under (blobsRoot s) path" "map_of (st_files s) path = None"
    and ing: "ingestBlobFromReader sha now data s = (Inr h, s1)"
    and lnk: "linkBlobToVersion h path s1 = (r, s2)"
  shows "r = Inr () \<and> blob_ok sha s2 \<and> (\<exists>c. map_of (st_files s2) path = Some c \<and> sha c = sha data)
    \<and> (\<forall>f. f \<noteq> path \<and> \<not> under (blobsRoot s) f \<longrightarrow> map_of (st_files s2) f = map_of (st_files s) f)"
proof -
  have abs: "is_abs (st_dataDir s)" and wf: "al_wf (st_files s)" and dist: "distinct (map b_Hash (st_blobs s))"
    and cnt: "\<And>x. int (refs sha s x) = ref_count s x"
    and rows: "\<And>b. b \<in> set (st_blobs s) \<Longrightarrow> 0 < b_RefCount b \<and> hex_hash (b_Hash b)
           \<and> map_of (st_files s) (blobPath s (b_Hash b)) \<noteq> None"
    and cont: "\<And>h c. hex_hash h \<Longrightarrow> map_of (st_files s) (blobPath s h) = Some c \<Longrightarrow> sha c = h"
    using ok by (auto simp: blob_ok_def)
  note i = ingest_blobs [OF ing]
  have h: "h = sha data" using i by simp
  let ?bp = "blobPath s h"
  let ?F = "st_files (writeBlobFile ?bp data s)"
  have bpu: "under (blobsRoot s) ?bp" using under_blobsRoot [OF abs hex] h by simp
  then have ne: "path \<noteq> ?bp" using path(1) by auto
  note f = blob_files [OF wf bpu, of data]
  have F: "st_files s1 = ?F" and D: "st_dataDir s1 = st_dataDir s" using i h by auto
  have roots: "blobsRoot s1 = blobsRoot s" "\<And>x. blobPath s1 x = blobPath s x"
    using D by (simp_all add: blobsRoot_def blobPath_def)
  have free: "map_of ?F path = None" using f path(2) ne by simp
  obtain c where c: "map_of ?F ?bp = Some c" "sha c = h"
  proof (cases "map_of (st_files s) ?bp")
    case None
    with f h that show ?thesis by auto
  next
    case (Some c)
    with f cont [of h c] hex h that show ?thesis by auto
  qed
  have s2: "r = Inr ()" "s2 = s1\<lparr>st_files := al_put path c ?F\<rparr>"
    using lnk c(1) free by (auto simp: linkBlobToVersion_def roots F al_del_absent)
  have roots2: "blobsRoot s2 = blobsRoot s" "\<And>x. blobPath s2 x = blobPath s x" by (simp_all add: s2 roots)
  have "refs sha s2 x = refs sha s x + (if x = h then 1 else 0)" for x
  proof -
    have "refs sha s2 x = length (filter (\<lambda>(f, c). \<not> under (blobsRoot s) f \<and> sha c = x) (al_put path c ?F))"
      by (simp add: refs_def s2 roots)
    with f count_al_put [of ?F "\<lambda>(f, c). \<not> under (blobsRoot s) f \<and> sha c = x" path c] free path(1) c(2)
    show ?thesis by (auto simp: al_del_absent)
  qed
  moreover have "ref_count s2 x = ref_count s x + (if x = h then 1 else 0)" for x
  proof -
    have "ref_count s1 x = ref_count s x + (if x = h then 1 else 0)"
      using ingest_blobs [OF ing, of x] h by blast
    then show ?thesis by (simp add: s2 ref_count_def find_blob_def)
  qed
  ultimately have counts: "int (refs sha s2 x) = ref_count s2 x" for x using cnt by simp
  have at: "map_of (st_files s2) g = (if g = path then Some c else if g = ?bp \<and> map_of (st_files s) ?bp = None
      then Some data else map_of (st_files s) g)" for g
    using f by (simp add: s2)
  have rows2: "0 < b_RefCount b \<and> hex_hash (b_Hash b) \<and> map_of (st_files s2) (blobPath s2 (b_Hash b)) \<noteq> None"
    if b: "b \<in> set (st_blobs s2)" for b
  proof -
    have b1: "b \<in> set (st_blobs s1)" using b by (simp add: s2)
    then have "b_Hash b \<in> set (map b_Hash (st_blobs s1))" by simp
    then have "b_Hash b = h \<or> b_Hash b \<in> set (map b_Hash (st_blobs s))" using i h by auto
    then have "hex_hash (b_Hash b) \<and> map_of (st_files s2) (blobPath s (b_Hash b)) \<noteq> None"
      using rows hex h by (auto simp: at)
    moreover have "0 < b_RefCount b" using i rows b1 by blast
    ultimately show ?thesis by (simp add: roots2)
  qed
  have cont2: "sha c' = h'" if "hex_hash h'" "map_of (st_files s2) (blobPath s2 h') = Some c'" for h' c'
  proof -
    have u: "under (blobsRoot s) (blobPath s h')" by (rule under_blobsRoot [OF abs that(1)])
    then have "blobPath s h' \<noteq> path" using path(1) by auto
    then have "(if blobPath s h' = ?bp \<and> map_of (st_files s) ?bp = None then Some data
        else map_of (st_files s) (blobPath s h')) = Some c'"
      using that(2) at [of "blobPath s h'"] by (simp only: roots2 if_False)
    then consider "blobPath s h' = ?bp" "c' = data" | "map_of (st_files s) (blobPath s h') = Some c'"
      by (metis option.inject)
    then show ?thesis
    proof cases
      case 1
      have "h' = h" by (rule blobPath_inject [OF abs that(1) _ 1(1)]) (simp add: h hex)
      then show ?thesis by (simp add: h 1(2))
    next
      case 2
      then show ?thesis by (rule cont [OF that(1)])
    qed
  qed
  have "al_wf (st_files s2)" using f by (simp add: s2)
  moreover have "distinct (map b_Hash (st_blobs s2))" using i dist by (simp add: s2)
  moreover have "is_abs (st_dataDir s2)" using abs D by (simp add: s2)
  ultimately have "blob_ok sha s2" using counts rows2 cont2 by (intro blob_okI)
  moreover have "map_of (st_files s2) g = map_of (st_files s) g" if "g \<noteq> path" "\<not> under (blobsRoot s) g" for g
    using that bpu by (auto simp: at)
  ultimately show ?thesis using s2 c(2) h at [of path] by auto
qed

text \<open>Releasing a version file: the count goes down, and the blob goes with the last reference.\<close>

lemma release_ok:
  assumes ok: "blob_ok sha s" and path: "\<not> under (blobsRoot s) path" and c: "map_of (st_files s) path = Some c"
    and rel: "releaseBlobLink sha path s = (r, s')"
  shows "r = Inr () \<and> blob_ok sha s' \<and> map_of (st_files s') path = None \<and> st_dataDir s' = st_dataDir s
    \<and> (\<forall>f. f \<noteq> path \<and> \<not> under (blobsRoot s) f \<longrightarrow> map_of (st_files s') f = map_of (st_files s) f)"
proof -
  let ?h = "sha c"
  let ?s1 = "s\<lparr>st_files := al_del path (st_files s)\<rparr>"
  have abs: "is_abs (st_dataDir s)" and wf: "al_wf (st_files s)" and dist: "distinct (map b_Hash (st_blobs s))"
    and cnt: "\<And>x. int (refs sha s x) = ref_count s x"
    and rows: "\<And>b. b \<in> set (st_blobs s) \<Longrightarrow> 0 < b_RefCount b \<and> hex_hash (b_Hash b)
           \<and> map_of (st_files s) (blobPath s (b_Hash b)) \<noteq> None"
    and cont: "\<And>h c. hex_hash h \<Longrightarrow> map_of (st_files s) (blobPath s h) = Some c \<Longrightarrow> sha c = h"
    using ok by (auto simp: blob_ok_def)
  have refs1: "refs sha s x = refs sha ?s1 x + (if x = ?h then 1 else 0)" for x
    using count_al_del [OF wf, of "\<lambda>(f, c). \<not> under (blobsRoot s) f \<and> sha c = x" path] c path
    by (simp add: refs_def)
  have "0 < refs sha s ?h" using refs1 [of ?h] by simp
  with cnt [of ?h] have "ref_count s ?h > 0" by simp
  then obtain b where b: "find_blob s ?h = Some b" by (auto simp: ref_count_def split: option.splits)
  have bh: "b \<in> set (st_blobs s)" "b_Hash b = ?h" using find_blob_row [OF dist b] by auto
  have hex: "hex_hash ?h" using rows [OF bh(1)] bh(2) by simp
  have rc: "ref_count s ?h = b_RefCount b" by (simp add: ref_count_def b)
  have bpu: "under (blobsRoot s) (blobPath s ?h)" by (rule under_blobsRoot [OF abs hex])
  have rel': "releaseBlobLink sha path s = decrementBlobRef ?h ?s1" using c by (simp add: releaseBlobLink_def)
  have fb1: "find_blob ?s1 ?h = Some b" using b by (simp add: find_blob_def)
  show ?thesis
  proof (cases "b_RefCount b - 1 \<le> 0")
    case True
    then have s': "r = Inr ()" "s' = ?s1\<lparr>st_blobs := filter (\<lambda>b. b_Hash b \<noteq> ?h) (st_blobs s),
        st_files := al_del (blobPath s ?h) (al_del path (st_files s))\<rparr>"
      using rel rel' fb1 by (auto simp: decrementBlobRef_def)
    have at: "map_of (st_files s') f = (if f = blobPath s ?h \<or> f = path then None else map_of (st_files s) f)" for f
      by (simp add: s' map_of_al_del)
    have roots: "blobsRoot s' = blobsRoot s" "\<And>x. blobPath s' x = blobPath s x"
      by (simp_all add: s' blobsRoot_def blobPath_def)
    have "al_wf (al_del path (st_files s))" using wf by simp
    from count_al_del [OF this, of "\<lambda>(f, c). \<not> under (blobsRoot s) f \<and> sha c = x" "blobPath s ?h" for x]
    have "refs sha ?s1 x = refs sha s' x" for x
      using bpu by (simp add: refs_def roots s' split: option.splits)
    moreover have "ref_count s' x = (if x = ?h then 0 else ref_count s x)" for x
      using find_filter_other [of "\<lambda>b. b_Hash b = x" "\<lambda>b. b_Hash b \<noteq> ?h" "st_blobs s"]
      by (cases "x = ?h") (simp_all add: ref_count_def find_blob_def s' find_filter_none)
    moreover have "b_RefCount b = 1" using True rows [OF bh(1)] by simp
    ultimately have counts: "int (refs sha s' x) = ref_count s' x" for x
      using cnt [of x] refs1 [of x] rc by auto
    have rows2: "0 < b_RefCount e \<and> hex_hash (b_Hash e) \<and> map_of (st_files s') (blobPath s' (b_Hash e)) \<noteq> None"
      if "e \<in> set (st_blobs s')" for e
    proof -
      have e: "e \<in> set (st_blobs s)" "b_Hash e \<noteq> ?h" using that by (auto simp: s')
      have "hex_hash (b_Hash e)" using rows [OF e(1)] by simp
      from blobPath_inject [OF abs this hex] e(2) have "blobPath s (b_Hash e) \<noteq> blobPath s ?h" by blast
      moreover have "blobPath s (b_Hash e) \<noteq> path" using under_blobsRoot [OF abs \<open>hex_hash (b_Hash e)\<close>] path by auto
      ultimately show ?thesis using rows [OF e(1)] by (simp add: at roots)
    qed
    have cont2: "sha d = x" if "hex_hash x" "map_of (st_files s') (blobPath s' x) = Some d" for x d
      using that cont [of x d] by (simp add: at roots split: if_splits)
    have "al_wf (st_files s')" "distinct (map b_Hash (st_blobs s'))" "st_dataDir s' = st_dataDir s"
      using wf dist by (simp_all add: s' distinct_map_filter)
    moreover from this(3) abs have "is_abs (st_dataDir s')" by simp
    ultimately have "blob_ok sha s'" using counts rows2 cont2 by (intro blob_okI)
    with s'(1) at bpu \<open>st_dataDir s' = st_dataDir s\<close> show ?thesis by auto
  next
    case False
    then have s': "r = Inr ()" "s' = ?s1\<lparr>st_blobs :=
        map (\<lambda>r. if b_Hash r = ?h then r\<lparr>b_RefCount := b_RefCount b - 1\<rparr> else r) (st_blobs s)\<rparr>"
      using rel rel' fb1 by (auto simp: decrementBlobRef_def)
    have at: "map_of (st_files s') f = (if f = path then None else map_of (st_files s) f)" for f
      by (simp add: s' map_of_al_del)
    have roots: "blobsRoot s' = blobsRoot s" "\<And>x. blobPath s' x = blobPath s x"
      by (simp_all add: s' blobsRoot_def blobPath_def)
    have "refs sha ?s1 x = refs sha s' x" for x by (simp add: refs_def roots s')
    moreover have "ref_count s' x = (if x = ?h then b_RefCount b - 1 else ref_count s x)" for x
    proof -
      have "find_blob s' x = map_option (\<lambda>r. if b_Hash r = ?h then r\<lparr>b_RefCount := b_RefCount b - 1\<rparr> else r) (find_blob s x)"
        using find_bump [of "\<lambda>r. r\<lparr>b_RefCount := b_RefCount b - 1\<rparr>" x ?h "st_blobs s"] by (simp add: find_blob_def s')
      with b bh(2) show ?thesis
        by (auto simp: ref_count_def find_blob_def dest!: find_Some_iff2 split: option.splits)
    qed
    ultimately have counts: "int (refs sha s' x) = ref_count s' x" for x
      using cnt [of x] refs1 [of x] rc by auto
    have rows2: "0 < b_RefCount e \<and> hex_hash (b_Hash e) \<and> map_of (st_files s') (blobPath s' (b_Hash e)) \<noteq> None"
      if "e \<in> set (st_blobs s')" for e
    proof -
      obtain e0 where e0: "e0 \<in> set (st_blobs s)" "e = (if b_Hash e0 = ?h then e0\<lparr>b_RefCount := b_RefCount b - 1\<rparr> else e0)"
        using \<open>e \<in> set (st_blobs s')\<close> by (auto simp: s')
      then have "b_Hash e = b_Hash e0" "0 < b_RefCount e" using False rows [OF e0(1)] by auto
      moreover have "blobPath s (b_Hash e0) \<noteq> path"
        using under_blobsRoot [OF abs, of "b_Hash e0"] rows [OF e0(1)] path by auto
      ultimately show ?thesis using rows [OF e0(1)] by (simp add: at roots)
    qed
    have cont2: "sha d = x" if "hex_hash x" "map_of (st_files s') (blobPath s' x) = Some d" for x d
      using that cont [of x d] by (simp add: at roots split: if_splits)
    have same: "map b_Hash (st_blobs s') = map b_Hash (st_blobs s)" by (simp add: s')
    have "al_wf (st_files s')" "distinct (map b_Hash (st_blobs s'))" "st_dataDir s' = st_dataDir s"
      unfolding same using wf dist by (simp_all add: s')
    moreover from this(3) abs have "is_abs (st_dataDir s')" by simp
    ultimately have "blob_ok sha s'" using counts rows2 cont2 by (intro blob_okI)
    with s'(1) at \<open>st_dataDir s' = st_dataDir s\<close> show ?thesis by auto
  qed
qed

end
