(* ===== verification/Files.thy ===== *)
theory Files
  imports Blobs FileTags ConfigFiles "HOL-Library.Word"
begin

unbundle bit_operations_syntax

text \<open>
  The files of a version (\<open>internal/store/files.go\<close>, \<open>file_modes.go\<close>, \<open>file_tags.go\<close>, \<open>unique.go\<close>,
  \<open>configfiles.go\<close>, \<open>archive.go\<close> and the manifest of \<open>version_provenance.go\<close>): upload, deletion,
  archive extraction, permission and tag metadata.  Archives are given as their entries, \<open>filepath.Match\<close>
  and the permission bits on disk are arguments.  Faults of the file system other than a missing file
  are not modelled.
\<close>

section \<open>Which versions may change\<close>

definition GetProjectByName :: "store \<Rightarrow> int \<Rightarrow> string \<Rightarrow> project res" where
  "GetProjectByName s tenantID name = tbl_row (\<lambda>p. p_TenantID p = tenantID \<and> p_Name p = name) (st_projects s)"

definition is_version :: "int \<Rightarrow> string \<Rightarrow> version \<Rightarrow> bool" where
  "is_version projectID version v = (v_ProjectID v = projectID \<and> v_Version v = version)"

definition getVersionStatus :: "store \<Rightarrow> int \<Rightarrow> string \<Rightarrow> string res" where
  "getVersionStatus s projectID version =
     map_sum id v_Status (tbl_row (is_version projectID version) (st_versions s))"

definition assertMutable :: "store \<Rightarrow> int \<Rightarrow> string \<Rightarrow> string \<Rightarrow> unit res" where
  "assertMutable s tenantID projectName version =
     (case GetProjectByName s tenantID projectName of
        Inl e \<Rightarrow> Inl e
      | Inr p \<Rightarrow>
          (case getVersionStatus s (p_ID p) version of
             Inl e \<Rightarrow> Inl e
           | Inr st \<Rightarrow>
               if st = ''draft'' \<or> st = ''rejected'' then Inr ()
               else if st = ''pending_review'' then Inl (ErrMsg ''version is pending review and immutable'')
               else Inl (ErrMsg ''version is published and immutable'')))"

definition assertDraft :: "store \<Rightarrow> int \<Rightarrow> string \<Rightarrow> string \<Rightarrow> unit res" where
  "assertDraft s tenantID projectName version = assertMutable s tenantID projectName version"

section \<open>Paths in a version\<close>

definition path_dir :: "string \<Rightarrow> string" where
  "path_dir p = path_clean (rev (dropWhile (\<lambda>c. c \<noteq> slash) (rev p)))"

definition cleanRelPath :: "string \<Rightarrow> string" where
  "cleanRelPath p = path_clean p"

definition bad_rel :: "string \<Rightarrow> bool" where
  "bad_rel relPath = (relPath = ''.'' \<or> has_prefix relPath ''../'' \<or> is_abs relPath)"

definition versionFilePath :: "store \<Rightarrow> int \<Rightarrow> string \<Rightarrow> string \<Rightarrow> string \<Rightarrow> string res" where
  "versionFilePath s tenantID projectName version relPath =
     (case VersionDir s tenantID projectName version of
        Inl e \<Rightarrow> Inl e
      | Inr root \<Rightarrow> SafeJoinVersion root relPath)"

definition walk_files :: "store \<Rightarrow> string \<Rightarrow> file_tree" where
  "walk_files s root = sort_key (\<lambda>(f, _). split_on slash f) (dir_files s root)"

definition ListVersionFiles :: "store \<Rightarrow> int \<Rightarrow> string \<Rightarrow> string \<Rightarrow> string list res" where
  "ListVersionFiles s tenantID projectName version =
     map_sum id (\<lambda>root. map fst (walk_files s root)) (VersionDir s tenantID projectName version)"

section \<open>Permission metadata\<close>

definition defaultFileMode :: int where "defaultFileMode = 420"
definition defaultExecMode :: int where "defaultExecMode = 493"

definition archiveFileMode :: "int \<Rightarrow> int" where
  "archiveFileMode mode = (if mode AND 511 AND 73 \<noteq> 0 then defaultExecMode else defaultFileMode)"

definition is_mode :: "int \<Rightarrow> string \<Rightarrow> string \<Rightarrow> string \<Rightarrow> file_mode_row \<Rightarrow> bool" where
  "is_mode tenantID projectName version path r =
     (fm_TenantID r = tenantID \<and> fm_ProjectName r = projectName \<and> fm_Version r = version \<and> fm_Path r = path)"

definition setVersionFileMode ::
  "go_time \<Rightarrow> int \<Rightarrow> string \<Rightarrow> string \<Rightarrow> string \<Rightarrow> int \<Rightarrow> store \<Rightarrow> unit res \<times> store" where
  "setVersionFileMode now tenantID projectName version relPath0 mode s =
     (let relPath = cleanRelPath relPath0; m = archiveFileMode mode; rows = st_fileModes s;
          key = is_mode tenantID projectName version relPath
      in if bad_rel relPath then (Inl (ErrMsg ''invalid path''), s)
         else (Inr (), s\<lparr>st_fileModes :=
           (if list_ex key rows
            then map (\<lambda>r. if key r then r\<lparr>fm_Mode := m, fm_UpdatedAt := format_time now\<rparr> else r) rows
            else rows @ [\<lparr>fm_TenantID = tenantID, fm_ProjectName = projectName, fm_Version = version,
                          fm_Path = relPath, fm_Mode = m, fm_UpdatedAt = format_time now\<rparr>])\<rparr>))"

definition ListVersionFileModes :: "store \<Rightarrow> int \<Rightarrow> string \<Rightarrow> string \<Rightarrow> (string \<times> int) list" where
  "ListVersionFileModes s tenantID projectName version =
     fold (\<lambda>r m. al_put (fm_Path r) (archiveFileMode (fm_Mode r)) m)
       (filter (\<lambda>r. fm_TenantID r = tenantID \<and> fm_ProjectName r = projectName \<and> fm_Version r = version)
          (st_fileModes s)) []"

definition deleteVersionFileMode :: "int \<Rightarrow> string \<Rightarrow> string \<Rightarrow> string \<Rightarrow> store \<Rightarrow> store" where
  "deleteVersionFileMode tenantID projectName version relPath s =
     s\<lparr>st_fileModes := filter (\<lambda>r. \<not> is_mode tenantID projectName version (cleanRelPath relPath) r) (st_fileModes s)\<rparr>"

definition deleteVersionFileModes :: "int \<Rightarrow> string \<Rightarrow> string \<Rightarrow> store \<Rightarrow> store" where
  "deleteVersionFileModes tenantID projectName version s =
     s\<lparr>st_fileModes := filter (\<lambda>r. \<not> (fm_TenantID r = tenantID \<and> fm_ProjectName r = projectName \<and> fm_Version r = version))
        (st_fileModes s)\<rparr>"

definition deleteProjectFileModes :: "int \<Rightarrow> string \<Rightarrow> store \<Rightarrow> store" where
  "deleteProjectFileModes tenantID projectName s =
     s\<lparr>st_fileModes := filter (\<lambda>r. \<not> (fm_TenantID r = tenantID \<and> fm_ProjectName r = projectName)) (st_fileModes s)\<rparr>"

section \<open>Unique configuration names\<close>

definition ValidateUniqueConfigBasenames :: "store \<Rightarrow> string \<Rightarrow> unit res" where
  "ValidateUniqueConfigBasenames s root =
     (if \<not> dir_exists s root then Inl ErrNotExist
      else if list_ex (\<lambda>(_, paths). length paths > 1) (FindConfigFilesByBasename (walk_files s root))
      then Inl (ErrMsg ''configuration file names must be globally unique'')
      else Inr ())"

definition CheckConfigBasenameConflict :: "store \<Rightarrow> string \<Rightarrow> string \<Rightarrow> unit res" where
  "CheckConfigBasenameConflict s root relPath =
     (let base = path_base relPath
      in if \<not> IsConfigFile base then Inr ()
         else if \<not> dir_exists s root then Inl ErrNotExist
         else if list_ex (\<lambda>p. p \<noteq> path_clean relPath) (paths_of (FindConfigFilesByBasename (walk_files s root)) base)
         then Inl (ErrMsg ''configuration file name already exists'')
         else Inr ())"

definition ListConfigFileEntries :: "store \<Rightarrow> int \<Rightarrow> string \<Rightarrow> string \<Rightarrow> (string \<times> string) list res" where
  "ListConfigFileEntries s tenantID projectName version =
     (case VersionDir s tenantID projectName version of
        Inl e \<Rightarrow> Inl e
      | Inr root \<Rightarrow>
          if \<not> dir_exists s root then Inl ErrNotExist
          else Inr (concat (map (\<lambda>(base, paths). map (Pair base) paths) (FindConfigFilesByBasename (walk_files s root)))))"

section \<open>Writing, deleting and reading files\<close>

definition file_exists :: "store \<Rightarrow> string \<Rightarrow> bool" where
  "file_exists s path = (map_of (st_files s) path \<noteq> None \<or> dir_exists s path)"

text \<open>What an upload and an archive entry have in common: replace the file at \<open>dest\<close> by a link to the blob.\<close>

definition store_content :: "(string \<Rightarrow> string) \<Rightarrow> go_time \<Rightarrow> string \<Rightarrow> string \<Rightarrow> store \<Rightarrow> unit res \<times> store" where
  "store_content sha now dest data s =
     (let s1 = mkdir_all (path_dir dest) s
      in case (if file_exists s1 dest then releaseBlobLink sha dest s1 else (Inr (), s1)) of
           (Inl e, s2) \<Rightarrow> (Inl e, s2)
         | (Inr _, s2) \<Rightarrow>
             (case ingestBlobFromReader sha now data s2 of
                (Inl e, s3) \<Rightarrow> (Inl e, s3)
              | (Inr hash, s3) \<Rightarrow> linkBlobToVersion hash dest s3))"

definition writeVersionBlob ::
  "(string \<Rightarrow> string) \<Rightarrow> go_time \<Rightarrow> int \<Rightarrow> string \<Rightarrow> string \<Rightarrow> string \<Rightarrow> string \<Rightarrow> store \<Rightarrow> unit res \<times> store" where
  "writeVersionBlob sha now tenantID projectName version relPath data s =
     (case versionFilePath s tenantID projectName version relPath of
        Inl e \<Rightarrow> (Inl e, s)
      | Inr path \<Rightarrow>
          (case store_content sha now path data s of
             (Inl e, s1) \<Rightarrow> (Inl e, s1)
           | (Inr _, s1) \<Rightarrow> setVersionFileMode now tenantID projectName version relPath defaultFileMode s1))"

definition WriteVersionFile ::
  "(string \<Rightarrow> string) \<Rightarrow> go_time \<Rightarrow> int \<Rightarrow> string \<Rightarrow> string \<Rightarrow> string \<Rightarrow> string \<Rightarrow> store \<Rightarrow> unit res \<times> store" where
  "WriteVersionFile sha now tenantID projectName version relPath data s =
     (case assertDraft s tenantID projectName version of
        Inl e \<Rightarrow> (Inl e, s)
      | Inr _ \<Rightarrow>
          (case VersionDir s tenantID projectName version of
             Inl e \<Rightarrow> (Inl e, s)
           | Inr root \<Rightarrow>
               (case CheckConfigBasenameConflict s root relPath of
                  Inl e \<Rightarrow> (Inl e, s)
                | Inr _ \<Rightarrow> writeVersionBlob sha now tenantID projectName version relPath data s)))"

definition is_tag_row :: "int \<Rightarrow> string \<Rightarrow> string \<Rightarrow> string \<Rightarrow> file_tag_row \<Rightarrow> bool" where
  "is_tag_row tenantID projectName version path r =
     (ft_TenantID r = tenantID \<and> ft_ProjectName r = projectName \<and> ft_Version r = version \<and> ft_Path r = path)"

definition DeleteVersionFileTags :: "int \<Rightarrow> string \<Rightarrow> string \<Rightarrow> string \<Rightarrow> store \<Rightarrow> store" where
  "DeleteVersionFileTags tenantID projectName version relPath s =
     s\<lparr>st_fileTags := filter (\<lambda>r. \<not> is_tag_row tenantID projectName version (cleanRelPath relPath) r) (st_fileTags s)\<rparr>"

definition DeleteVersionFile ::
  "(string \<Rightarrow> string) \<Rightarrow> int \<Rightarrow> string \<Rightarrow> string \<Rightarrow> string \<Rightarrow> store \<Rightarrow> unit res \<times> store" where
  "DeleteVersionFile sha tenantID projectName version relPath s =
     (case assertDraft s tenantID projectName version of
        Inl e \<Rightarrow> (Inl e, s)
      | Inr _ \<Rightarrow>
          (case versionFilePath s tenantID projectName version relPath of
             Inl e \<Rightarrow> (Inl e, s)
           | Inr path \<Rightarrow>
               (case releaseBlobLink sha path s of
                  (Inl e, s1) \<Rightarrow> (Inl e, s1)
                | (Inr _, s1) \<Rightarrow>
                    (Inr (), deleteVersionFileMode tenantID projectName version relPath
                       (DeleteVersionFileTags tenantID projectName version relPath s1)))))"

definition MaxPreviewFileBytes :: int where "MaxPreviewFileBytes = 2 ^ 20"

definition isLikelyText :: "string \<Rightarrow> bool" where
  "isLikelyText data = list_all (\<lambda>b. b \<noteq> CHR 0x00) data"

definition ReadVersionTextFile :: "store \<Rightarrow> int \<Rightarrow> string \<Rightarrow> string \<Rightarrow> string \<Rightarrow> (string \<times> int) res" where
  "ReadVersionTextFile s tenantID projectName version relPath =
     (case versionFilePath s tenantID projectName version relPath of
        Inl e \<Rightarrow> Inl e
      | Inr path \<Rightarrow>
          (case map_of (st_files s) path of
             None \<Rightarrow> Inl (if dir_exists s path then ErrMsg ''path is directory'' else ErrNotExist)
           | Some data \<Rightarrow>
               if int (length data) > MaxPreviewFileBytes then Inl (ErrMsg ''file too large for preview'')
               else if \<not> isLikelyText data then Inl (ErrMsg ''binary file preview not supported'')
               else Inr (data, int (length data))))"

section \<open>Archives\<close>

datatype entry_type = TypeDir | TypeReg | TypeOther

record archive_entry =
  ae_Name :: string
  ae_Type :: entry_type
  ae_Data :: string
  ae_Mode :: int

definition entry_escapes :: "string \<Rightarrow> bool" where
  "entry_escapes name = (has_prefix name ''..'' \<or> is_abs name)"

definition dest_escapes :: "string \<Rightarrow> string \<Rightarrow> bool" where
  "dest_escapes root dest =
     (\<not> has_prefix dest (path_clean root @ ''/'') \<and> dest \<noteq> path_clean root \<and> \<not> has_prefix dest root)"

fun zip_duplicate :: "archive_entry list \<Rightarrow> string list \<Rightarrow> bool" where
  "zip_duplicate [] seen = False"
| "zip_duplicate (f # fs) seen =
     (if ae_Type f = TypeDir then zip_duplicate fs seen
      else let base = path_base (ae_Name f)
        in if \<not> IsConfigFile base then zip_duplicate fs seen
           else if base \<in> set seen then True
           else zip_duplicate fs (base # seen))"

definition validateZipConfigBasenames :: "archive_entry list \<Rightarrow> unit res" where
  "validateZipConfigBasenames fs =
     (if zip_duplicate fs [] then Inl (ErrMsg ''zip contains duplicate config filename'') else Inr ())"

fun extract_zip ::
  "(string \<Rightarrow> string) \<Rightarrow> go_time \<Rightarrow> int \<Rightarrow> string \<Rightarrow> string \<Rightarrow> string \<Rightarrow> archive_entry list \<Rightarrow> store \<Rightarrow> unit res \<times> store"
where
  "extract_zip sha now tenantID projectName version root [] s = (ValidateUniqueConfigBasenames s root, s)"
| "extract_zip sha now tenantID projectName version root (f # fs) s =
     (if ae_Type f = TypeDir then extract_zip sha now tenantID projectName version root fs s
      else let name = path_clean (ae_Name f); dest = path_join root name
        in if entry_escapes name then (Inl (ErrMsg (''invalid zip entry: '' @ ae_Name f)), s)
           else if dest_escapes root dest then (Inl (ErrMsg (''zip path escape: '' @ ae_Name f)), s)
           else case store_content sha now dest (ae_Data f) s of
                  (Inl e, s1) \<Rightarrow> (Inl e, s1)
                | (Inr _, s1) \<Rightarrow>
                    (case setVersionFileMode now tenantID projectName version name (ae_Mode f) s1 of
                       (Inl e, s2) \<Rightarrow> (Inl e, s2)
                     | (Inr _, s2) \<Rightarrow> extract_zip sha now tenantID projectName version root fs s2))"

definition ExtractZipToVersion ::
  "(string \<Rightarrow> string) \<Rightarrow> go_time \<Rightarrow> int \<Rightarrow> string \<Rightarrow> string \<Rightarrow> archive_entry list \<Rightarrow> store \<Rightarrow> unit res \<times> store"
where
  "ExtractZipToVersion sha now tenantID projectName version fs s =
     (case assertDraft s tenantID projectName version of
        Inl e \<Rightarrow> (Inl e, s)
      | Inr _ \<Rightarrow>
          (case validateZipConfigBasenames fs of
             Inl e \<Rightarrow> (Inl e, s)
           | Inr _ \<Rightarrow>
               (case VersionDir s tenantID projectName version of
                  Inl e \<Rightarrow> (Inl e, s)
                | Inr root \<Rightarrow> extract_zip sha now tenantID projectName version root fs s)))"

fun extract_tar ::
  "(string \<Rightarrow> string) \<Rightarrow> go_time \<Rightarrow> int \<Rightarrow> string \<Rightarrow> string \<Rightarrow> string \<Rightarrow> string list \<Rightarrow> archive_entry list \<Rightarrow> store
     \<Rightarrow> unit res \<times> store"
where
  "extract_tar sha now tenantID projectName version root seen [] s = (ValidateUniqueConfigBasenames s root, s)"
| "extract_tar sha now tenantID projectName version root seen (h # hs) s =
     (let name = path_clean (ae_Name h); base = path_base name; dest = path_join root name;
          config = IsConfigFile base; seen' = (if config then base # seen else seen)
      in if name = ''.'' then extract_tar sha now tenantID projectName version root seen hs s
         else if entry_escapes name then (Inl (ErrMsg (''invalid tar entry: '' @ ae_Name h)), s)
         else if ae_Type h = TypeDir then extract_tar sha now tenantID projectName version root seen hs s
         else if ae_Type h \<noteq> TypeReg then (Inl (ErrMsg (''unsupported tar entry: '' @ ae_Name h)), s)
         else if config \<and> base \<in> set seen then (Inl (ErrMsg ''tar contains duplicate config filename''), s)
         else if dest_escapes root dest then (Inl (ErrMsg (''tar path escape: '' @ ae_Name h)), s)
         else case store_content sha now dest (ae_Data h) s of
                (Inl e, s1) \<Rightarrow> (Inl e, s1)
              | (Inr _, s1) \<Rightarrow>
                  (case setVersionFileMode now tenantID projectName version name (ae_Mode h) s1 of
                     (Inl e, s2) \<Rightarrow> (Inl e, s2)
                   | (Inr _, s2) \<Rightarrow> extract_tar sha now tenantID projectName version root seen' hs s2))"

definition ExtractTarToVersion ::
  "(string \<Rightarrow> string) \<Rightarrow> go_time \<Rightarrow> int \<Rightarrow> string \<Rightarrow> string \<Rightarrow> archive_entry list \<Rightarrow> store \<Rightarrow> unit res \<times> store"
where
  "ExtractTarToVersion sha now tenantID projectName version hs s =
     (case assertDraft s tenantID projectName version of
        Inl e \<Rightarrow> (Inl e, s)
      | Inr _ \<Rightarrow>
          (case VersionDir s tenantID projectName version of
             Inl e \<Rightarrow> (Inl e, s)
           | Inr root \<Rightarrow> extract_tar sha now tenantID projectName version root [] hs s))"

text \<open>\<open>StreamVersionArchive\<close>: the tar entries it writes.\<close>

definition StreamVersionArchive :: "store \<Rightarrow> int \<Rightarrow> string \<Rightarrow> string \<Rightarrow> archive_entry list res" where
  "StreamVersionArchive s tenantID projectName version =
     (case VersionDir s tenantID projectName version of
        Inl e \<Rightarrow> Inl e
      | Inr root \<Rightarrow>
          if \<not> dir_exists s root then Inl ErrNotExist
          else
            (let modes = ListVersionFileModes s tenantID projectName version
             in Inr (map (\<lambda>(rel, data). \<lparr>ae_Name = rel, ae_Type = TypeReg, ae_Data = data,
                  ae_Mode = (case map_of modes rel of Some m \<Rightarrow> m | None \<Rightarrow> defaultFileMode)\<rparr>) (walk_files s root))))"

section \<open>Artifact manifest\<close>

fun show_oct :: "nat \<Rightarrow> string" where
  "show_oct n = (if n < 8 then [char_of (48 + n)] else show_oct (n div 8) @ [char_of (48 + n mod 8)])"

declare show_oct.simps [simp del]

definition manifest_line :: "(string \<Rightarrow> string) \<Rightarrow> string \<Rightarrow> nat \<Rightarrow> string \<Rightarrow> string" where
  "manifest_line sha rel perm data =
     rel @ [CHR 0x00] @ show_oct perm @ [CHR 0x00] @ show_nat (length data) @ [CHR 0x00] @ sha data @ [newline]"

definition BuildArtifactManifest ::
  "(string \<Rightarrow> string) \<Rightarrow> (string \<Rightarrow> nat) \<Rightarrow> store \<Rightarrow> string \<Rightarrow> artifact_manifest res" where
  "BuildArtifactManifest sha perm s root =
     (if \<not> dir_exists s root then Inl ErrNotExist
      else
        (let files = sort_key (\<lambda>(f, _). root @ ''/'' @ f) (walk_files s root)
         in Inr \<lparr>am_SHA256 = sha (concat (map (\<lambda>(rel, data). manifest_line sha rel (perm (root @ ''/'' @ rel)) data) files)),
                 am_FileCount = int (length files),
                 am_Bytes = sum_list (map (\<lambda>(_, data). int (length data)) files)\<rparr>))"

section \<open>File tags\<close>

datatype batch_mode = FileTagSet | FileTagAdd | FileTagRemove | FileTagClear

definition ListVersionFileTags :: "store \<Rightarrow> int \<Rightarrow> string \<Rightarrow> string \<Rightarrow> (string \<times> string list) list res" where
  "ListVersionFileTags s tenantID projectName version =
     (case ListVersionFiles s tenantID projectName version of
        Inl e \<Rightarrow> Inl e
      | Inr files \<Rightarrow>
          (let byPath = fold (\<lambda>r m. al_put (ft_Path r) (Split (ft_Tags r)) m)
                 (filter (\<lambda>r. ft_TenantID r = tenantID \<and> ft_ProjectName r = projectName \<and> ft_Version r = version)
                    (st_fileTags s)) []
           in Inr (map (\<lambda>p. (p, case map_of byPath p of
                                   Some (t # ts) \<Rightarrow> t # ts
                                 | _ \<Rightarrow> [AllTag])) files)))"

definition TagsForVersionFile :: "store \<Rightarrow> int \<Rightarrow> string \<Rightarrow> string \<Rightarrow> string \<Rightarrow> string list" where
  "TagsForVersionFile s tenantID projectName version relPath =
     (case find (is_tag_row tenantID projectName version (cleanRelPath relPath)) (st_fileTags s) of
        Some r \<Rightarrow> Split (ft_Tags r)
      | None \<Rightarrow> [AllTag])"

definition SetVersionFileTags ::
  "go_time \<Rightarrow> int \<Rightarrow> string \<Rightarrow> string \<Rightarrow> string \<Rightarrow> string list \<Rightarrow> store \<Rightarrow> unit res \<times> store" where
  "SetVersionFileTags now tenantID projectName version relPath0 tags s =
     (case assertDraft s tenantID projectName version of
        Inl e \<Rightarrow> (Inl e, s)
      | Inr _ \<Rightarrow>
          (let relPath = cleanRelPath relPath0; rows = st_fileTags s;
               key = is_tag_row tenantID projectName version relPath
           in if bad_rel relPath then (Inl (ErrMsg ''invalid path''), s)
              else case versionFilePath s tenantID projectName version relPath of
                     Inl e \<Rightarrow> (Inl e, s)
                   | Inr fullPath \<Rightarrow>
                       if \<not> file_exists s fullPath then (Inl ErrNotExist, s)
                       else (Inr (), s\<lparr>st_fileTags :=
                         (if list_ex key rows
                          then map (\<lambda>r. if key r then r\<lparr>ft_Tags := Join tags, ft_UpdatedAt := format_time now\<rparr> else r) rows
                          else rows @ [\<lparr>ft_TenantID = tenantID, ft_ProjectName = projectName, ft_Version = version,
                                        ft_Path = relPath, ft_Tags = Join tags, ft_UpdatedAt = format_time now\<rparr>])\<rparr>)))"

definition ClearVersionFileTags :: "int \<Rightarrow> string \<Rightarrow> string \<Rightarrow> string \<Rightarrow> store \<Rightarrow> unit res \<times> store" where
  "ClearVersionFileTags tenantID projectName version relPath s =
     (case assertDraft s tenantID projectName version of
        Inl e \<Rightarrow> (Inl e, s)
      | Inr _ \<Rightarrow> (Inr (), DeleteVersionFileTags tenantID projectName version relPath s))"

text \<open>\<open>glob pattern file\<close> is \<open>filepath.Match\<close>, an invalid pattern matching nothing.\<close>

definition selectTagPaths ::
  "(string \<Rightarrow> string \<Rightarrow> bool) \<Rightarrow> string list \<Rightarrow> string list \<Rightarrow> string list \<Rightarrow> string list" where
  "selectTagPaths glob files paths patterns =
     filter (\<lambda>file.
       file \<in> set (map cleanRelPath paths)
       \<or> list_ex (\<lambda>p. let pattern = trim_space p
            in pattern \<noteq> [] \<and> (glob pattern file
               \<or> (has_suffix pattern ''/**'' \<and> has_prefix file (take (length pattern - 2) pattern)))) patterns) files"

definition mergeTags :: "string list \<Rightarrow> string list \<Rightarrow> batch_mode \<Rightarrow> string list" where
  "mergeTags current input mode =
     (case mode of
        FileTagClear \<Rightarrow> [AllTag]
      | FileTagAdd \<Rightarrow> Normalize (current @ input)
      | FileTagRemove \<Rightarrow> Normalize (filter (\<lambda>t. t \<notin> set (Normalize input)) (Normalize current))
      | FileTagSet \<Rightarrow> Normalize input)"

fun batch_loop ::
  "go_time \<Rightarrow> int \<Rightarrow> string \<Rightarrow> string \<Rightarrow> string list \<Rightarrow> batch_mode \<Rightarrow> string list \<Rightarrow> store \<Rightarrow> unit res \<times> store" where
  "batch_loop now tenantID projectName version tags mode [] s = (Inr (), s)"
| "batch_loop now tenantID projectName version tags mode (path # paths) s =
     (let new = mergeTags (TagsForVersionFile s tenantID projectName version path) tags mode
      in case (if mode = FileTagClear \<or> new = [] then ClearVersionFileTags tenantID projectName version path s
               else SetVersionFileTags now tenantID projectName version path new s) of
           (Inl e, s1) \<Rightarrow> (Inl e, s1)
         | (Inr _, s1) \<Rightarrow> batch_loop now tenantID projectName version tags mode paths s1)"

definition BatchUpdateVersionFileTags ::
  "(string \<Rightarrow> string \<Rightarrow> bool) \<Rightarrow> go_time \<Rightarrow> int \<Rightarrow> string \<Rightarrow> string \<Rightarrow> string list \<Rightarrow> string list \<Rightarrow> string list
     \<Rightarrow> batch_mode \<Rightarrow> store \<Rightarrow> (string \<times> string list) list res \<times> store" where
  "BatchUpdateVersionFileTags glob now tenantID projectName version paths patterns tags mode s =
     (case assertDraft s tenantID projectName version of
        Inl e \<Rightarrow> (Inl e, s)
      | Inr _ \<Rightarrow>
          (case ListVersionFiles s tenantID projectName version of
             Inl e \<Rightarrow> (Inl e, s)
           | Inr files \<Rightarrow>
               (let selected = selectTagPaths glob files paths patterns
                in if selected = [] then (Inr [], s)
                   else case batch_loop now tenantID projectName version tags mode selected s of
                          (Inl e, s1) \<Rightarrow> (Inl e, s1)
                        | (Inr _, s1) \<Rightarrow>
                            (case ListVersionFileTags s1 tenantID projectName version of
                               Inl e \<Rightarrow> (Inl e, s1)
                             | Inr all \<Rightarrow> (Inr (filter (\<lambda>(p, _). p \<in> set selected) all), s1)))))"

section \<open>Containment\<close>

lemma relative_no_up:
  assumes "\<not> entry_escapes (path_clean n)"
  shows "''..'' \<notin> set (raw_comps (path_clean n)) \<and> raw_comps (path_clean n) = path_comps n"
proof -
  have rel: "\<not> is_abs n" and dots: "\<not> has_prefix (path_clean n) ''..''"
    using assms by (auto simp: entry_escapes_def)
  have ok: "\<forall>w\<in>set (path_comps n). comp_ok w" by (blast dest: path_comps_ok)
  have raw: "raw_comps (path_clean n) = path_comps n"
    by (simp add: path_clean_def raw_comps_render [OF ok])
  have "ups_first (path_comps n)"
    using rel walk_unrooted_ups [OF up_stack_Nil, of "raw_comps n"] by (simp add: path_comps_def)
  then obtain k vs where kv: "path_comps n = replicate k ''..'' @ vs" "''..'' \<notin> set vs"
    by (auto simp: ups_first_def)
  have "k = 0"
  proof (rule ccontr)
    assume "k \<noteq> 0"
    then obtain us where us: "path_comps n = ''..'' # us" using kv(1) by (cases k) auto
    have "has_prefix (path_clean n) ''..''"
      by (cases us) (auto simp: path_clean_def rel us render_def has_prefix_iff)
    with dots show False by simp
  qed
  with kv raw show ?thesis by simp
qed

text \<open>The directory of a version: clean, absolute, and apart from the blobs.\<close>

definition version_root :: "store \<Rightarrow> string \<Rightarrow> bool" where
  "version_root s root =
     (is_abs root \<and> path_clean root = root \<and> path_comps root \<noteq> []
      \<and> (\<forall>f. f = root \<or> under root f \<longrightarrow> \<not> under (blobsRoot s) f))"

lemma join_below:
  assumes "version_root s root" "\<not> entry_escapes (path_clean n)"
  shows "path_join root (path_clean n) = root \<or> under root (path_join root (path_clean n))"
proof -
  have r: "root = render True (path_comps root)" using assms(1) by (metis version_root_def path_clean_def)
  have n: "''..'' \<notin> set (raw_comps (path_clean n))" "raw_comps (path_clean n) = path_comps n"
    using relative_no_up [OF assms(2)] by auto
  have j: "path_join root (path_clean n) = render True (path_comps root @ path_comps n)"
    using path_join_plain [OF _ n(1), of root] n(2) assms(1) by (simp add: version_root_def)
  show ?thesis
  proof (cases "path_comps n = []")
    case True
    with j r show ?thesis by simp
  next
    case False
    have "render True (path_comps root @ path_comps n) = root @ ''/'' @ join_with ''/'' (path_comps n)"
      using render_append [OF _ False, of "path_comps root" True] assms(1) r by (simp add: version_root_def)
    with j show ?thesis by (simp add: under_def has_prefix_iff)
  qed
qed

lemma version_root_cong: "st_dataDir s' = st_dataDir s \<Longrightarrow> version_root s' root = version_root s root"
  by (simp add: version_root_def blobsRoot_def)

lemma blob_ok_dirs: "blob_ok sha (mkdir_all d s) = blob_ok sha s"
  by (simp add: blob_ok_def mkdir_all_def refs_def ref_count_def find_blob_def blobsRoot_def blobPath_def)

lemma blob_ok_modes: "blob_ok sha (s\<lparr>st_fileModes := m\<rparr>) = blob_ok sha s"
  by (simp add: blob_ok_def refs_def ref_count_def find_blob_def blobsRoot_def blobPath_def)

lemma blob_ok_tags: "blob_ok sha (s\<lparr>st_fileTags := m\<rparr>) = blob_ok sha s"
  by (simp add: blob_ok_def refs_def ref_count_def find_blob_def blobsRoot_def blobPath_def)

lemma mode_frame:
  assumes "setVersionFileMode now t p v rel m s = (r, s')"
  shows "blob_ok sha s' = blob_ok sha s \<and> st_files s' = st_files s \<and> st_dataDir s' = st_dataDir s"
  using assms by (auto simp: setVersionFileMode_def Let_def blob_ok_modes split: if_splits)

definition files_apart :: "store \<Rightarrow> string \<Rightarrow> string \<Rightarrow> bool" where
  "files_apart s root f = (f \<noteq> root \<and> \<not> under root f \<and> \<not> under (blobsRoot s) f)"

text \<open>Storing a content keeps the blob counts and touches no other version file.\<close>

lemma store_content_ok:
  assumes ok: "blob_ok sha s" and hex: "hex_hash (sha data)" and path: "\<not> under (blobsRoot s) dest"
    and st: "store_content sha now dest data s = (r, s')"
  shows "blob_ok sha s' \<and> st_dataDir s' = st_dataDir s
    \<and> (is_ok r \<longrightarrow> (\<exists>c. map_of (st_files s') dest = Some c \<and> sha c = sha data))
    \<and> (\<forall>f. f \<noteq> dest \<and> \<not> under (blobsRoot s) f \<longrightarrow> map_of (st_files s') f = map_of (st_files s) f)"
proof -
  let ?s1 = "mkdir_all (path_dir dest) s"
  have s1: "st_files ?s1 = st_files s" "st_dataDir ?s1 = st_dataDir s" "blobsRoot ?s1 = blobsRoot s" "blob_ok sha ?s1"
    using ok blob_ok_dirs [of sha "path_dir dest" s] by (simp_all add: mkdir_all_def blobsRoot_def)
  obtain r2 s2 where rel: "(if file_exists ?s1 dest then releaseBlobLink sha dest ?s1 else (Inr (), ?s1)) = (r2, s2)"
    by fastforce
  have two: "blob_ok sha s2 \<and> st_dataDir s2 = st_dataDir s \<and> (is_ok r2 \<longrightarrow> map_of (st_files s2) dest = None)
    \<and> (\<forall>f. f \<noteq> dest \<and> \<not> under (blobsRoot s) f \<longrightarrow> map_of (st_files s2) f = map_of (st_files s) f)"
  proof (cases "map_of (st_files s) dest")
    case None
    with rel s1 show ?thesis by (auto simp: file_exists_def releaseBlobLink_def split: if_splits)
  next
    case (Some c)
    with rel s1 have "releaseBlobLink sha dest ?s1 = (r2, s2)" by (simp add: file_exists_def)
    from release_ok [OF s1(4) _ _ this, of c] Some path s1 show ?thesis by simp
  qed
  show ?thesis
  proof (cases r2)
    case (Inl e)
    with st rel two show ?thesis by (auto simp: store_content_def Let_def)
  next
    case (Inr u)
    obtain h s3 where ing: "ingestBlobFromReader sha now data s2 = (Inr h, s3)"
      using ingest_blobs by (metis surj_pair)
    have lnk: "linkBlobToVersion h dest s3 = (r, s')"
      using st rel Inr ing by (simp add: store_content_def Let_def)
    have root2: "blobsRoot s2 = blobsRoot s" using two by (simp add: blobsRoot_def)
    have "\<not> under (blobsRoot s2) dest" "map_of (st_files s2) dest = None" "blob_ok sha s2"
      using path root2 two Inr by auto
    from link_new [OF this(3) hex this(1,2) ing lnk]
    have l: "r = Inr ()" "blob_ok sha s'" "\<exists>c. map_of (st_files s') dest = Some c \<and> sha c = sha data"
      "\<And>f. f \<noteq> dest \<Longrightarrow> \<not> under (blobsRoot s2) f \<Longrightarrow> map_of (st_files s') f = map_of (st_files s2) f" by auto
    have "st_dataDir s3 = st_dataDir s2" using ingest_blobs [OF ing] by blast
    moreover have "st_dataDir s' = st_dataDir s3"
      using lnk by (auto simp: linkBlobToVersion_def Let_def split: option.splits)
    ultimately show ?thesis using l two root2 by simp
  qed
qed

text \<open>
  One archive entry that passes the checks: its file lands in the version directory, everything
  outside it stays.
\<close>

lemma entry_stored:
  assumes "blob_ok sha s" "\<And>d. hex_hash (sha d)" "version_root s root" "\<not> entry_escapes (path_clean n)"
    "store_content sha now (path_join root (path_clean n)) data s = (r, s1)"
    "files_apart s root f"
  shows "blob_ok sha s1 \<and> st_dataDir s1 = st_dataDir s \<and> map_of (st_files s1) f = map_of (st_files s) f"
proof -
  let ?d = "path_join root (path_clean n)"
  have below: "?d = root \<or> under root ?d" by (rule join_below [OF assms(3,4)])
  then have "\<not> under (blobsRoot s) ?d" using assms(3) by (auto simp: version_root_def)
  moreover have "f \<noteq> ?d" using below assms(6) by (auto simp: files_apart_def)
  ultimately show ?thesis
    using store_content_ok [OF assms(1,2) _ assms(5)] assms(6) by (simp add: files_apart_def)
qed

lemma apart_cong: "st_dataDir s' = st_dataDir s \<Longrightarrow> files_apart s' root f = files_apart s root f"
  by (simp add: files_apart_def blobsRoot_def)

lemma extract_tar_contained:
  assumes "\<And>d. hex_hash (sha d)"
  shows "blob_ok sha s \<Longrightarrow> version_root s root \<Longrightarrow> files_apart s root f \<Longrightarrow>
    extract_tar sha now t p v root seen hs s = (r, s') \<Longrightarrow>
    blob_ok sha s' \<and> map_of (st_files s') f = map_of (st_files s) f"
proof (induction hs arbitrary: seen s)
  case (Cons h hs)
  let ?n = "path_clean (ae_Name h)"
  note step = Cons.prems(4) [unfolded extract_tar.simps Let_def]
  consider (skip) seen' where "extract_tar sha now t p v root seen' hs s = (r, s')"
    | (stop) "s' = s"
    | (run) r1 s1 where "\<not> entry_escapes ?n" "store_content sha now (path_join root ?n) (ae_Data h) s = (r1, s1)"
        "s' = s1 \<or> (\<exists>r2 s2 seen'. setVersionFileMode now t p v ?n (ae_Mode h) s1 = (r2, s2)
           \<and> (s' = s2 \<or> extract_tar sha now t p v root seen' hs s2 = (r, s')))"
    using step by (fastforce split: if_splits prod.splits sum.splits)
  then show ?case
  proof cases
    case skip
    from Cons.IH [OF Cons.prems(1-3) this] show ?thesis .
  next
    case stop
    with Cons.prems show ?thesis by simp
  next
    case run
    from entry_stored [OF Cons.prems(1) assms Cons.prems(2) run(1,2) Cons.prems(3)]
    have s1: "blob_ok sha s1" "st_dataDir s1 = st_dataDir s" "map_of (st_files s1) f = map_of (st_files s) f" by auto
    from run(3) show ?thesis
    proof
      assume "s' = s1"
      with s1 show ?thesis by simp
    next
      assume "\<exists>r2 s2 seen'. setVersionFileMode now t p v ?n (ae_Mode h) s1 = (r2, s2)
           \<and> (s' = s2 \<or> extract_tar sha now t p v root seen' hs s2 = (r, s'))"
      then obtain r2 s2 seen' where m: "setVersionFileMode now t p v ?n (ae_Mode h) s1 = (r2, s2)"
        and rest: "s' = s2 \<or> extract_tar sha now t p v root seen' hs s2 = (r, s')" by blast
      from mode_frame [OF m] s1 have s2: "blob_ok sha s2" "st_dataDir s2 = st_dataDir s" "st_files s2 = st_files s1" by auto
      from rest show ?thesis
      proof
        assume "s' = s2"
        with s1 s2 show ?thesis by simp
      next
        assume e: "extract_tar sha now t p v root seen' hs s2 = (r, s')"
        from Cons.IH [OF s2(1) _ _ e] Cons.prems(2,3) version_root_cong [OF s2(2)] apart_cong [OF s2(2)] s1 s2
        show ?thesis by simp
      qed
    qed
  qed
qed simp

lemma extract_zip_contained:
  assumes "\<And>d. hex_hash (sha d)"
  shows "blob_ok sha s \<Longrightarrow> version_root s root \<Longrightarrow> files_apart s root f \<Longrightarrow>
    extract_zip sha now t p v root hs s = (r, s') \<Longrightarrow>
    blob_ok sha s' \<and> map_of (st_files s') f = map_of (st_files s) f"
proof (induction hs arbitrary: s)
  case (Cons h hs)
  let ?n = "path_clean (ae_Name h)"
  note step = Cons.prems(4) [unfolded extract_zip.simps Let_def]
  consider (skip) "extract_zip sha now t p v root hs s = (r, s')"
    | (stop) "s' = s"
    | (run) r1 s1 where "\<not> entry_escapes ?n" "store_content sha now (path_join root ?n) (ae_Data h) s = (r1, s1)"
        "s' = s1 \<or> (\<exists>r2 s2. setVersionFileMode now t p v ?n (ae_Mode h) s1 = (r2, s2)
           \<and> (s' = s2 \<or> extract_zip sha now t p v root hs s2 = (r, s')))"
    using step by (fastforce split: if_splits prod.splits sum.splits)
  then show ?case
  proof cases
    case skip
    from Cons.IH [OF Cons.prems(1-3) this] show ?thesis .
  next
    case stop
    with Cons.prems show ?thesis by simp
  next
    case run
    from entry_stored [OF Cons.prems(1) assms Cons.prems(2) run(1,2) Cons.prems(3)]
    have s1: "blob_ok sha s1" "st_dataDir s1 = st_dataDir s" "map_of (st_files s1) f = map_of (st_files s) f" by auto
    from run(3) show ?thesis
    proof
      assume "s' = s1"
      with s1 show ?thesis by simp
    next
      assume "\<exists>r2 s2. setVersionFileMode now t p v ?n (ae_Mode h) s1 = (r2, s2)
           \<and> (s' = s2 \<or> extract_zip sha now t p v root hs s2 = (r, s'))"
      then obtain r2 s2 where m: "setVersionFileMode now t p v ?n (ae_Mode h) s1 = (r2, s2)"
        and rest: "s' = s2 \<or> extract_zip sha now t p v root hs s2 = (r, s')" by blast
      from mode_frame [OF m] s1 have s2: "blob_ok sha s2" "st_dataDir s2 = st_dataDir s" "st_files s2 = st_files s1" by auto
      from rest show ?thesis
      proof
        assume "s' = s2"
        with s1 s2 show ?thesis by simp
      next
        assume e: "extract_zip sha now t p v root hs s2 = (r, s')"
        from Cons.IH [OF s2(1) _ _ e] Cons.prems(2,3) version_root_cong [OF s2(2)] apart_cong [OF s2(2)] s1 s2
        show ?thesis by simp
      qed
    qed
  qed
qed simp

section \<open>Version directories\<close>

definition plain_name :: "string \<Rightarrow> bool" where
  "plain_name w = (comp_ok w \<and> w \<noteq> ''..'')"

definition dir_prefix :: "string list \<Rightarrow> string" where
  "dir_prefix ds = (if ds = [] then ''/'' else render True ds @ ''/'')"

lemma render_under: "ws \<noteq> [] \<Longrightarrow> render True (ds @ ws) = dir_prefix ds @ join_with ''/'' ws"
  by (cases "ds = []") (auto simp: dir_prefix_def render_def join_with_append)

lemma version_dir_root:
  assumes "is_abs (st_dataDir s)" "TenantByID s t = Inr ten" "plain_name (tn_Slug ten)"
    "plain_name p" "plain_name v" "VersionDir s t p v = Inr root"
  shows "version_root s root"
proof -
  let ?D = "path_comps (st_dataDir s)"
  let ?ws = "[''userdata'', tn_Slug ten, ''projects'', p, v]"
  have ok: "\<forall>w\<in>set ?ws. comp_ok w" "''..'' \<notin> set ?ws"
    using assms(3-5) by (auto simp: plain_name_def comp_ok_def)
  have joined: "''userdata/'' @ tn_Slug ten @ ''/projects/'' @ p @ ''/'' @ v = join_with ''/'' ?ws" by simp
  have raw: "raw_comps (''userdata/'' @ tn_Slug ten @ ''/projects/'' @ p @ ''/'' @ v) = ?ws"
    unfolding joined by (rule raw_comps_join [OF ok(1)])
  have "root = path_join (st_dataDir s) (''userdata/'' @ tn_Slug ten @ ''/projects/'' @ p @ ''/'' @ v)"
    using assms(2,6) by (simp add: VersionDir_def)
  with path_join_plain [OF assms(1), of "''userdata/'' @ tn_Slug ten @ ''/projects/'' @ p @ ''/'' @ v"] raw ok(2)
  have root: "root = render True (?D @ ?ws)" by simp
  have okD: "\<forall>w\<in>set (?D @ ?ws). comp_ok w" using ok(1) by (auto dest: path_comps_ok)
  have upD: "''..'' \<notin> set (?D @ ?ws)" using ok(2) abs_comps_no_up [OF assms(1)] by simp
  have comps: "path_comps root = ?D @ ?ws" unfolding root by (rule path_comps_render [OF okD upD])
  have abs: "is_abs root" unfolding root using is_abs_render [OF okD] by blast
  have clean: "path_clean root = root" using abs comps root by (simp add: path_clean_def)
  have apart: "\<not> under (blobsRoot s) f" if f: "f = root \<or> under root f" for f
  proof
    assume "under (blobsRoot s) f"
    moreover have "blobsRoot s = dir_prefix ?D @ ''blobs''"
      using render_under [of "[''blobs'']" ?D] by (simp add: blobsRoot_render [OF assms(1)])
    ultimately obtain x where x: "f = dir_prefix ?D @ ''blobs'' @ x"
      by (auto simp: under_def has_prefix_iff)
    have "root = dir_prefix ?D @ join_with ''/'' ?ws"
      using render_under [of ?ws ?D] root by blast
    with f obtain y where "f = dir_prefix ?D @ ''userdata'' @ y"
      by (auto simp: under_def has_prefix_iff)
    with x show False by simp
  qed
  show ?thesis unfolding version_root_def using abs clean comps apart by auto
qed

section \<open>Properties\<close>

text \<open>
  Extracting a zip or tar archive, whatever names and types its entries have and wherever it
  fails, changes no file outside the version's directory and the blob directory, and keeps the blob
  counts equal to the number of version files with each content.
\<close>

theorem archive_extraction_contained:
  assumes "blob_ok sha s" "\<And>d. hex_hash (sha d)" "TenantByID s t = Inr ten" "plain_name (tn_Slug ten)"
    "plain_name p" "plain_name v" "VersionDir s t p v = Inr root" "files_apart s root f"
    "ExtractTarToVersion sha now t p v es s = (r, s') \<or> ExtractZipToVersion sha now t p v es s = (r, s')"
  shows "blob_ok sha s' \<and> map_of (st_files s') f = map_of (st_files s) f"
proof -
  have "is_abs (st_dataDir s)" using assms(1) by (simp add: blob_ok_def)
  from version_dir_root [OF this assms(3-7)] have root: "version_root s root" .
  from assms(9,7) consider "s' = s" | "extract_tar sha now t p v root [] es s = (r, s')"
    | "extract_zip sha now t p v root es s = (r, s')"
    by (auto simp: ExtractTarToVersion_def ExtractZipToVersion_def split: sum.splits)
  then show ?thesis
  proof cases
    case 1
    with assms(1) show ?thesis by simp
  next
    case 2
    from extract_tar_contained [OF assms(2,1) root assms(8) this] show ?thesis .
  next
    case 3
    from extract_zip_contained [OF assms(2,1) root assms(8) this] show ?thesis .
  qed
qed

definition sample_sha :: "string \<Rightarrow> string" where
  "sample_sha d = take 64 (filter is_alnum d @ replicate 64 (CHR ''0''))"

lemma hex_sample_sha: "hex_hash (sample_sha d)"
proof -
  have "is_alnum (CHR ''0'')" by code_simp
  then have "list_all is_alnum (filter is_alnum d @ replicate 64 (CHR ''0''))" by (auto simp: list_all_iff)
  then have "list_all is_alnum (sample_sha d)"
    unfolding sample_sha_def list_all_iff by (blast dest: in_set_takeD)
  then show ?thesis by (simp add: hex_hash_def sample_sha_def)
qed

definition sample_version :: version where
  "sample_version = \<lparr>v_ID = 1, v_ProjectID = 1, v_Version = ''1.0.0'', v_Status = ''draft'', v_CreatedAt = None,
     v_PublishedAt = None, v_VCS = \<lparr>vcs_Provider = [], vcs_Repository = [], vcs_Ref = [], vcs_Commit = [],
       vcs_RunURL = [], vcs_RunID = []\<rparr>,
     v_Artifact = \<lparr>am_SHA256 = [], am_FileCount = 0, am_Bytes = 0\<rparr>\<rparr>"

definition sample_draft :: store where
  "sample_draft = (empty_store ''/d'')\<lparr>
     st_tenants := \<lparr>trows = [\<lparr>tn_ID = 7, tn_Slug = ''acme'', tn_Name = ''Acme'', tn_CreatedAt = None\<rparr>], tnext = 8\<rparr>,
     st_projects := \<lparr>trows = [\<lparr>p_ID = 1, p_TenantID = 7, p_Name = ''game'', p_MaxPublishedVersions = 0,
       p_CreatedAt = None\<rparr>], tnext = 2\<rparr>,
     st_versions := \<lparr>trows = [sample_version], tnext = 2\<rparr>,
     st_dirs := [''/d/userdata/acme/projects/game/1.0.0'']\<rparr>"

lemma sample_draft_ok: "blob_ok sha sample_draft"
  by (simp add: blob_ok_def sample_draft_def empty_store_def refs_def ref_count_def find_blob_def is_abs_def has_prefix_def)

lemma sample_tenant:
  "TenantByID sample_draft 7 = Inr \<lparr>tn_ID = 7, tn_Slug = ''acme'', tn_Name = ''Acme'', tn_CreatedAt = None\<rparr>"
  by (simp add: TenantByID_def sample_draft_def empty_store_def tbl_row_def)

lemma sample_dir: "VersionDir sample_draft 7 ''game'' ''1.0.0'' = Inr ''/d/userdata/acme/projects/game/1.0.0''"
proof -
  have "path_join ''/d'' ''userdata/acme/projects/game/1.0.0'' = ''/d/userdata/acme/projects/game/1.0.0''"
    by code_simp
  moreover have "st_dataDir sample_draft = ''/d''" by (simp add: sample_draft_def empty_store_def)
  ultimately show ?thesis by (simp add: VersionDir_def sample_tenant)
qed

lemma sample_names: "plain_name ''acme'' \<and> plain_name ''game'' \<and> plain_name ''1.0.0''"
  by code_simp

lemma archive_extraction_contained_witness:
  "map_of (st_files (snd (ExtractTarToVersion sample_sha 0 7 ''game'' ''1.0.0''
     [\<lparr>ae_Name = ''a.txt'', ae_Type = TypeReg, ae_Data = ''x'', ae_Mode = 420\<rparr>,
      \<lparr>ae_Name = ''../../evil'', ae_Type = TypeReg, ae_Data = ''y'', ae_Mode = 420\<rparr>] sample_draft)))
     ''/d/userdata/acme/projects/evil'' = None"
proof -
  let ?es = "[\<lparr>ae_Name = ''a.txt'', ae_Type = TypeReg, ae_Data = ''x'', ae_Mode = 420\<rparr>,
      \<lparr>ae_Name = ''../../evil'', ae_Type = TypeReg, ae_Data = ''y'', ae_Mode = 420\<rparr>]"
  have "files_apart sample_draft ''/d/userdata/acme/projects/game/1.0.0'' ''/d/userdata/acme/projects/evil''"
    by code_simp
  from archive_extraction_contained [OF sample_draft_ok hex_sample_sha sample_tenant _ _ _ sample_dir this
      disjI1 [OF prod.collapse [symmetric]]] sample_names
  have "map_of (st_files (snd (ExtractTarToVersion sample_sha 0 7 ''game'' ''1.0.0'' ?es sample_draft)))
      ''/d/userdata/acme/projects/evil'' = map_of (st_files sample_draft) ''/d/userdata/acme/projects/evil''" by simp
  then show ?thesis by (simp add: sample_draft_def empty_store_def)
qed

text \<open>
  A version that is pending review or published is immutable: every operation on its files and
  tags fails and leaves the whole store as it was.
\<close>

theorem released_version_immutable:
  assumes "GetProjectByName s t p = Inr pr" "getVersionStatus s (p_ID pr) v = Inr st" "st \<noteq> ''draft''" "st \<noteq> ''rejected''"
  shows "\<exists>e. WriteVersionFile sha now t p v rel data s = (Inl e, s)
    \<and> DeleteVersionFile sha t p v rel s = (Inl e, s)
    \<and> ExtractZipToVersion sha now t p v es s = (Inl e, s)
    \<and> ExtractTarToVersion sha now t p v es s = (Inl e, s)
    \<and> SetVersionFileTags now t p v rel tags s = (Inl e, s)
    \<and> ClearVersionFileTags t p v rel s = (Inl e, s)
    \<and> BatchUpdateVersionFileTags glob now t p v paths patterns tags mode s = (Inl e, s)"
proof -
  have "\<not> is_ok (assertDraft s t p v)"
    using assms by (simp add: assertDraft_def assertMutable_def)
  then obtain e where "assertDraft s t p v = Inl e" by (cases "assertDraft s t p v") auto
  then show ?thesis
    by (simp add: WriteVersionFile_def DeleteVersionFile_def ExtractZipToVersion_def ExtractTarToVersion_def
        SetVersionFileTags_def ClearVersionFileTags_def BatchUpdateVersionFileTags_def)
qed

lemma released_version_immutable_witness:
  "\<exists>e. DeleteVersionFile sample_sha 7 ''game'' ''1.0.0'' ''a.txt''
     (sample_draft\<lparr>st_versions := \<lparr>trows = [sample_version\<lparr>v_Status := ''published''\<rparr>], tnext = 2\<rparr>\<rparr>)
   = (Inl e, sample_draft\<lparr>st_versions := \<lparr>trows = [sample_version\<lparr>v_Status := ''published''\<rparr>], tnext = 2\<rparr>\<rparr>)"
proof -
  let ?s = "sample_draft\<lparr>st_versions := \<lparr>trows = [sample_version\<lparr>v_Status := ''published''\<rparr>], tnext = 2\<rparr>\<rparr>"
  have pr: "GetProjectByName ?s 7 ''game'' = Inr \<lparr>p_ID = 1, p_TenantID = 7, p_Name = ''game'',
       p_MaxPublishedVersions = 0, p_CreatedAt = None\<rparr>"
    by (simp add: GetProjectByName_def sample_draft_def empty_store_def tbl_row_def)
  have st: "getVersionStatus ?s (p_ID \<lparr>p_ID = 1, p_TenantID = 7, p_Name = ''game'',
       p_MaxPublishedVersions = 0, p_CreatedAt = None\<rparr>) ''1.0.0'' = Inr ''published''"
    by (simp add: getVersionStatus_def sample_version_def tbl_row_def is_version_def)
  have ne: "''published'' \<noteq> ''draft''" "''published'' \<noteq> ''rejected''" by simp_all
  from released_version_immutable [OF pr st ne, where sha = sample_sha and rel = "''a.txt''" and now = 0
      and data = "[]" and es = "[]" and tags = "[]" and glob = "\<lambda>_ _. True" and paths = "[]"
      and patterns = "[]" and mode = FileTagClear]
  show ?thesis by blast
qed

text \<open>
  An upload that succeeds stores the content: the file of the version has the hash of what was
  uploaded, its path is below the version's directory, the blob counts stay exact and no other file
  of any version changes.
\<close>

theorem upload_stores_content:
  assumes "blob_ok sha s" "\<And>d. hex_hash (sha d)" "TenantByID s t = Inr ten" "plain_name (tn_Slug ten)"
    "plain_name p" "plain_name v" "VersionDir s t p v = Inr root"
    "WriteVersionFile sha now t p v rel data s = (Inr (), s')"
  shows "\<exists>path c. SafeJoinVersion root rel = Inr path \<and> (path = root \<or> under root path)
     \<and> map_of (st_files s') path = Some c \<and> sha c = sha data \<and> blob_ok sha s'
     \<and> (\<forall>f. f \<noteq> path \<and> \<not> under (blobsRoot s) f \<longrightarrow> map_of (st_files s') f = map_of (st_files s) f)"
proof -
  have "is_abs (st_dataDir s)" using assms(1) by (simp add: blob_ok_def)
  from version_dir_root [OF this assms(3-7)] have vr: "version_root s root" .
  from assms(7,8) obtain path s1 where path: "SafeJoinVersion root rel = Inr path"
    and st: "store_content sha now path data s = (Inr (), s1)"
    and m: "setVersionFileMode now t p v rel defaultFileMode s1 = (Inr (), s')"
    by (auto simp: WriteVersionFile_def writeVersionBlob_def versionFilePath_def split: sum.splits prod.splits)
  have below: "path = root \<or> under root path"
    using path vr by (auto simp: SafeJoinVersion_def Let_def under_def version_root_def split: if_splits)
  then have "\<not> under (blobsRoot s) path" using vr by (auto simp: version_root_def)
  from store_content_ok [OF assms(1,2) this st] mode_frame [OF m] path below show ?thesis by auto
qed

lemma upload_stores_content_witness:
  "\<exists>c. map_of (st_files (snd (WriteVersionFile sample_sha 0 7 ''game'' ''1.0.0'' ''conf/a.txt'' ''hi'' sample_draft)))
        ''/d/userdata/acme/projects/game/1.0.0/conf/a.txt'' = Some c \<and> sample_sha c = sample_sha ''hi''"
proof -
  let ?c = "WriteVersionFile sample_sha 0 7 ''game'' ''1.0.0'' ''conf/a.txt'' ''hi'' sample_draft"
  have "is_ok (fst ?c)" by code_simp
  from ok_pair [OF this] have c: "?c = (Inr (), snd ?c)" by auto
  have "(case SafeJoinVersion ''/d/userdata/acme/projects/game/1.0.0'' ''conf/a.txt'' of
      Inr q \<Rightarrow> q = ''/d/userdata/acme/projects/game/1.0.0/conf/a.txt'' | _ \<Rightarrow> False)" by code_simp
  then have "SafeJoinVersion ''/d/userdata/acme/projects/game/1.0.0'' ''conf/a.txt''
      = Inr ''/d/userdata/acme/projects/game/1.0.0/conf/a.txt''" by (auto split: sum.splits)
  with upload_stores_content [OF sample_draft_ok hex_sample_sha sample_tenant _ _ _ sample_dir c] sample_names
  show ?thesis by auto
qed

end
