(* ===== verification/Members.thy ===== *)
theory Members
  imports Store
begin

text \<open>
  Tenants, users, project members and invitations (\<open>internal/store/tenants.go\<close>, \<open>users.go\<close>,
  \<open>project_members.go\<close>, \<open>project_invites.go\<close> and the lookups of \<open>store.go\<close>) and the access
  decisions built on them (\<open>internal/api/rbac.go\<close>, \<open>project_access.go\<close>, \<open>pull_access.go\<close>).
  Random tokens and bcrypt hashes are arguments.
\<close>

section \<open>Tenants\<close>

definition CreateTenant :: "go_time \<Rightarrow> string \<Rightarrow> string \<Rightarrow> store \<Rightarrow> tenant res \<times> store" where
  "CreateTenant now slug name s =
     (if slug = [] \<or> name = [] then (Inl (ErrMsg ''slug and name required''), s)
      else
        (let row = \<lparr>tn_ID = 0, tn_Slug = slug, tn_Name = name, tn_CreatedAt = format_time now\<rparr>
         in case tbl_insert tenant_conflict (\<lambda>i r. set_tn_ID i r) ''tenants'' row (st_tenants s) of
              (Inl e, _) \<Rightarrow> (Inl e, s)
            | (Inr i, t) \<Rightarrow>
                (Inr (row\<lparr>tn_ID := i\<rparr>),
                 mkdir_all (path_join (path_join (st_dataDir s) (''userdata/'' @ slug)) ''projects'')
                   (s\<lparr>st_tenants := t\<rparr>))))"

definition ListTenants :: "store \<Rightarrow> tenant list" where
  "ListTenants s = sort_key tn_Slug (trows (st_tenants s))"

definition UserTenantID :: "store \<Rightarrow> int \<Rightarrow> int res" where
  "UserTenantID s userID = map_sum id u_TenantID (tbl_row (\<lambda>u. u_ID u = userID) (st_users s))"

definition TokenTenantID :: "store \<Rightarrow> string \<Rightarrow> int res" where
  "TokenTenantID s token = map_sum id u_TenantID (tbl_row (\<lambda>u. u_Token u = token) (st_users s))"

section \<open>Users\<close>

definition RoleAdmin :: string where "RoleAdmin = ''admin''"
definition RoleOperator :: string where "RoleOperator = ''operator''"
definition RoleViewer :: string where "RoleViewer = ''viewer''"

definition UserAuthVersion :: "store \<Rightarrow> int \<Rightarrow> int res" where
  "UserAuthVersion s userID = map_sum id u_AuthVersion (tbl_row (\<lambda>u. u_ID u = userID) (st_users s))"

definition ListUsers :: "store \<Rightarrow> int \<Rightarrow> user list" where
  "ListUsers s tenantID = tbl_select (\<lambda>u. u_TenantID u = tenantID) (st_users s)"

definition CreateUser ::
  "go_time \<Rightarrow> string \<Rightarrow> string \<Rightarrow> int \<Rightarrow> string \<Rightarrow> string \<Rightarrow> bool \<Rightarrow> store \<Rightarrow> user res \<times> store" where
  "CreateUser now hash token tenantID username role0 isAdmin s =
     (let role1 = (if role0 = [] then (if isAdmin then RoleAdmin else RoleOperator) else role0);
          admin = (if isAdmin \<or> role1 = RoleAdmin then 1 else 0);
          role = (if admin = 1 then RoleAdmin else role1);
          row = \<lparr>u_ID = 0, u_Username = username, u_PasswordHash = hash, u_Role = role, u_IsAdmin = admin,
                 u_TenantID = tenantID, u_Token = token, u_AuthVersion = 1, u_CreatedAt = format_time now\<rparr>
      in case tbl_insert user_conflict (\<lambda>i r. set_u_ID i r) ''users'' row (st_users s) of
           (Inl e, _) \<Rightarrow> (Inl e, s)
         | (Inr i, t) \<Rightarrow> (Inr (row\<lparr>u_ID := i\<rparr>), s\<lparr>st_users := t\<rparr>))"

definition DeleteUser :: "int \<Rightarrow> store \<Rightarrow> unit res \<times> store" where
  "DeleteUser i s =
     (let (n, t) = tbl_delete (\<lambda>u. u_ID u = i) (st_users s)
      in if n = 0 then (Inl ErrNoRows, s) else (Inr (), s\<lparr>st_users := t\<rparr>))"

definition RefreshUserToken :: "string \<Rightarrow> int \<Rightarrow> store \<Rightarrow> string res \<times> store" where
  "RefreshUserToken token i s =
     (let (n, t) = tbl_update (\<lambda>u. u_ID u = i) (\<lambda>u. u\<lparr>u_Token := token\<rparr>) (st_users s)
      in if n = 0 then (Inl ErrNoRows, s) else (Inr token, s\<lparr>st_users := t\<rparr>))"

definition UpdateUserPassword :: "string \<Rightarrow> int \<Rightarrow> store \<Rightarrow> unit res \<times> store" where
  "UpdateUserPassword hash i s =
     (let (n, t) = tbl_update (\<lambda>u. u_ID u = i)
                     (\<lambda>u. u\<lparr>u_PasswordHash := hash, u_AuthVersion := u_AuthVersion u + 1\<rparr>) (st_users s)
      in if n = 0 then (Inl ErrNoRows, s) else (Inr (), s\<lparr>st_users := t\<rparr>))"

definition GetUserByID :: "store \<Rightarrow> int \<Rightarrow> user res" where
  "GetUserByID s i = tbl_row (\<lambda>u. u_ID u = i) (st_users s)"

definition GetUserByNameInTenant :: "store \<Rightarrow> int \<Rightarrow> string \<Rightarrow> user res" where
  "GetUserByNameInTenant s tenantID username =
     tbl_row (\<lambda>u. u_TenantID u = tenantID \<and> u_Username u = username) (st_users s)"

definition UserRole :: "store \<Rightarrow> int \<Rightarrow> string res" where
  "UserRole s userID =
     (case tbl_row (\<lambda>u. u_ID u = userID) (st_users s) of
        Inl e \<Rightarrow> Inl e
      | Inr u \<Rightarrow> Inr (if u_IsAdmin u = 1 then RoleAdmin else if u_Role u = [] then RoleOperator else u_Role u))"

definition EnsureAdmin :: "store \<Rightarrow> int \<Rightarrow> unit res" where
  "EnsureAdmin s userID =
     (case UserRole s userID of
        Inl e \<Rightarrow> Inl e
      | Inr role \<Rightarrow> if role \<noteq> RoleAdmin then Inl (ErrMsg ''admin required'') else Inr ())"

text \<open>\<open>checkpw hash password\<close> is bcrypt's comparison.\<close>

definition Authenticate ::
  "(string \<Rightarrow> string \<Rightarrow> bool) \<Rightarrow> store \<Rightarrow> string \<Rightarrow> string \<Rightarrow> (int \<times> bool) res" where
  "Authenticate checkpw s username password =
     (case tbl_row (\<lambda>u. u_Username u = username) (st_users s) of
        Inl _ \<Rightarrow> Inl (ErrMsg ''invalid credentials'')
      | Inr u \<Rightarrow>
          if \<not> checkpw (u_PasswordHash u) password then Inl (ErrMsg ''invalid credentials'')
          else Inr (u_ID u, u_IsAdmin u = 1))"

definition LookupPullToken :: "store \<Rightarrow> string \<Rightarrow> (int \<times> int) res" where
  "LookupPullToken s token =
     map_sum id (\<lambda>u. (u_ID u, u_TenantID u)) (tbl_row (\<lambda>u. u_Token u = token) (st_users s))"

definition ValidatePullToken :: "store \<Rightarrow> string \<Rightarrow> bool res" where
  "ValidatePullToken s token =
     (case LookupPullToken s token of
        Inl e \<Rightarrow> if e = ErrNoRows then Inr False else Inl e
      | Inr _ \<Rightarrow> Inr True)"

section \<open>Project members\<close>

definition ProjectRoleAdmin :: string where "ProjectRoleAdmin = ''admin''"
definition ProjectRoleViewer :: string where "ProjectRoleViewer = ''viewer''"

definition is_member :: "int \<Rightarrow> int \<Rightarrow> project_member \<Rightarrow> bool" where
  "is_member projectID userID m = (pm_ProjectID m = projectID \<and> pm_UserID m = userID)"

definition valid_project_role :: "string \<Rightarrow> bool" where
  "valid_project_role role = (role = ProjectRoleAdmin \<or> role = ProjectRoleViewer)"

text \<open>The primary key is (project, user); a conflict overwrites the role.\<close>

definition AddProjectMember :: "go_time \<Rightarrow> int \<Rightarrow> int \<Rightarrow> string \<Rightarrow> store \<Rightarrow> unit res \<times> store" where
  "AddProjectMember now projectID userID role s =
     (if \<not> valid_project_role role then (Inl (ErrMsg (''invalid project role '' @ role)), s)
      else if list_ex (is_member projectID userID) (st_members s)
      then (Inr (), s\<lparr>st_members := map (\<lambda>m. if is_member projectID userID m then m\<lparr>pm_Role := role\<rparr> else m) (st_members s)\<rparr>)
      else (Inr (), s\<lparr>st_members := st_members s @
              [\<lparr>pm_ProjectID = projectID, pm_UserID = userID, pm_Role = role, pm_JoinedAt = format_time now\<rparr>]\<rparr>))"

definition ProjectMemberRole :: "store \<Rightarrow> int \<Rightarrow> int \<Rightarrow> string" where
  "ProjectMemberRole s projectID userID =
     (case find (is_member projectID userID) (st_members s) of None \<Rightarrow> [] | Some m \<Rightarrow> pm_Role m)"

definition ProjectAccess :: "store \<Rightarrow> int \<Rightarrow> int \<Rightarrow> string \<Rightarrow> string" where
  "ProjectAccess s projectID userID tenantRole =
     (if tenantRole = RoleAdmin then ProjectRoleAdmin else ProjectMemberRole s projectID userID)"

definition CanWriteProject :: "string \<Rightarrow> bool" where
  "CanWriteProject projectRole = (projectRole = ProjectRoleAdmin)"

text \<open>Only members whose user still exists are listed, with the user's name.\<close>

definition ListProjectMembers :: "store \<Rightarrow> int \<Rightarrow> (project_member \<times> string) list" where
  "ListProjectMembers s projectID =
     sort_key (\<lambda>(m, _). pm_JoinedAt m)
       (concat (map (\<lambda>m. map (\<lambda>u. (m, u_Username u)) (filter (\<lambda>u. u_ID u = pm_UserID m) (trows (st_users s))))
          (filter (\<lambda>m. pm_ProjectID m = projectID) (st_members s))))"

definition admin_count :: "int \<Rightarrow> store \<Rightarrow> nat" where
  "admin_count projectID s =
     length (filter (\<lambda>m. pm_ProjectID m = projectID \<and> pm_Role m = ProjectRoleAdmin) (st_members s))"

definition RemoveProjectMember :: "int \<Rightarrow> int \<Rightarrow> store \<Rightarrow> unit res \<times> store" where
  "RemoveProjectMember projectID userID s =
     (let role = ProjectMemberRole s projectID userID
      in if role = [] then (Inl ErrNoRows, s)
         else if role = ProjectRoleAdmin \<and> admin_count projectID s \<le> 1
         then (Inl (ErrMsg ''cannot remove the last project admin''), s)
         else (Inr (), s\<lparr>st_members := filter (\<lambda>m. \<not> is_member projectID userID m) (st_members s)\<rparr>))"

section \<open>Invitations\<close>

text \<open>
  An expiry is written with \<open>Format\<close> in the server's time zone and read with \<open>time.Parse\<close>, which takes
  the text for UTC.  \<open>zone\<close> is the offset of the server's zone from UTC in seconds: the instant read
  is later than the one written by the offset.
\<close>

definition parse_utc :: "int \<Rightarrow> stamp \<Rightarrow> go_time option" where
  "parse_utc zone st = map_option (\<lambda>sec. (sec + zone) * Second) st"

definition CreateProjectInvite ::
  "go_time \<Rightarrow> string \<Rightarrow> int \<Rightarrow> int \<Rightarrow> string \<Rightarrow> int \<Rightarrow> store \<Rightarrow> project_invite res \<times> store" where
  "CreateProjectInvite now token projectID createdBy role validHours0 s =
     (if \<not> valid_project_role role then (Inl (ErrMsg ''invalid role''), s)
      else
        (let validHours = (if validHours0 \<le> 0 then 168 else validHours0);
             row = \<lparr>pi_ID = 0, pi_ProjectID = projectID, pi_Token = token, pi_Role = role,
                    pi_CreatedBy = createdBy, pi_ExpiresAt = format_time (now + wrap64 (validHours * Hour)),
                    pi_CreatedAt = format_time now\<rparr>
         in case tbl_insert invite_conflict (\<lambda>i r. set_pi_ID i r) ''project_invites'' row (st_invites s) of
              (Inl e, _) \<Rightarrow> (Inl e, s)
            | (Inr i, t) \<Rightarrow> (Inr (row\<lparr>pi_ID := i\<rparr>), s\<lparr>st_invites := t\<rparr>)))"

definition GetProjectInviteByToken :: "store \<Rightarrow> string \<Rightarrow> project_invite res" where
  "GetProjectInviteByToken s token = tbl_row (\<lambda>i. pi_Token i = token) (st_invites s)"

definition invite_expired :: "int \<Rightarrow> go_time \<Rightarrow> project_invite \<Rightarrow> bool" where
  "invite_expired zone now iv =
     (case parse_utc zone (pi_ExpiresAt iv) of None \<Rightarrow> True | Some exp \<Rightarrow> now > exp)"

definition ProjectInvitePreview ::
  "int \<Rightarrow> go_time \<Rightarrow> store \<Rightarrow> string \<Rightarrow> (string \<times> string \<times> stamp \<times> bool) res" where
  "ProjectInvitePreview zone now s token =
     (case GetProjectInviteByToken s token of
        Inl e \<Rightarrow> Inl e
      | Inr iv \<Rightarrow>
          (case tbl_row (\<lambda>p. p_ID p = pi_ProjectID iv) (st_projects s) of
             Inl e \<Rightarrow> Inl e
           | Inr p \<Rightarrow> Inr (p_Name p, pi_Role iv, pi_ExpiresAt iv, invite_expired zone now iv)))"

definition AcceptProjectInvite :: "int \<Rightarrow> go_time \<Rightarrow> string \<Rightarrow> int \<Rightarrow> store \<Rightarrow> project res \<times> store" where
  "AcceptProjectInvite zone now token userID s =
     (case GetProjectInviteByToken s token of
        Inl e \<Rightarrow> (Inl e, s)
      | Inr iv \<Rightarrow>
          if invite_expired zone now iv then (Inl (ErrMsg ''invite expired''), s)
          else (case tbl_row (\<lambda>p. p_ID p = pi_ProjectID iv) (st_projects s) of
             Inl e \<Rightarrow> (Inl e, s)
           | Inr p \<Rightarrow>
               (case tbl_row (\<lambda>u. u_ID u = userID) (st_users s) of
                  Inl e \<Rightarrow> (Inl e, s)
                | Inr u \<Rightarrow>
                    if u_TenantID u \<noteq> p_TenantID p then (Inl (ErrMsg ''invite belongs to another tenant''), s)
                    else (case AddProjectMember now (pi_ProjectID iv) userID (pi_Role iv) s of
                            (Inl e, s') \<Rightarrow> (Inl e, s')
                          | (Inr _, s') \<Rightarrow> (Inr p, s')))))"

definition DeleteProjectInvite :: "int \<Rightarrow> int \<Rightarrow> store \<Rightarrow> unit res \<times> store" where
  "DeleteProjectInvite projectID inviteID s =
     (let (n, t) = tbl_delete (\<lambda>i. pi_ID i = inviteID \<and> pi_ProjectID i = projectID) (st_invites s)
      in if n = 0 then (Inl ErrNoRows, s) else (Inr (), s\<lparr>st_invites := t\<rparr>))"

definition ListProjectInvites :: "go_time \<Rightarrow> store \<Rightarrow> int \<Rightarrow> project_invite list" where
  "ListProjectInvites now s projectID =
     rev (sort_key pi_CreatedAt (rev
       (tbl_select (\<lambda>i. pi_ProjectID i = projectID \<and> pi_ExpiresAt i > format_time now) (st_invites s))))"

section \<open>Access decisions\<close>

definition sessionRole :: "store \<Rightarrow> int option \<Rightarrow> string option" where
  "sessionRole s userID =
     (case userID of
        None \<Rightarrow> None
      | Some u \<Rightarrow> (case UserRole s u of Inl _ \<Rightarrow> Some RoleViewer | Inr role \<Rightarrow> Some role))"

datatype access = Unauthorized | Forbidden | NotFound | Allowed

definition requireRole :: "store \<Rightarrow> string list \<Rightarrow> int option \<Rightarrow> access" where
  "requireRole s roles userID =
     (case sessionRole s userID of
        None \<Rightarrow> Unauthorized
      | Some role \<Rightarrow> if role \<notin> set roles \<and> role \<noteq> RoleAdmin then Forbidden else Allowed)"

definition requireMutator :: "store \<Rightarrow> string \<Rightarrow> int option \<Rightarrow> access" where
  "requireMutator s method userID =
     (if method = ''GET'' \<or> method = ''HEAD'' then Allowed
      else case sessionRole s userID of
             None \<Rightarrow> Unauthorized
           | Some role \<Rightarrow> if role = RoleViewer then Forbidden else Allowed)"

text \<open>\<open>projectCtxFromRequest\<close>: the project of the session's tenant, and the effective role in it.\<close>

record project_ctx =
  pc_TenantID :: int
  pc_ProjectID :: int
  pc_ProjectName :: string
  pc_ProjectRole :: string

definition ProjectNameInTenant :: "store \<Rightarrow> int \<Rightarrow> int \<Rightarrow> string res" where
  "ProjectNameInTenant s tenantID projectID =
     map_sum id p_Name (tbl_row (\<lambda>p. p_ID p = projectID \<and> p_TenantID p = tenantID) (st_projects s))"

definition projectCtxFromRequest :: "store \<Rightarrow> (int \<times> int) option \<Rightarrow> int \<Rightarrow> project_ctx option" where
  "projectCtxFromRequest s sess projectID =
     (case sess of
        None \<Rightarrow> None
      | Some (userID, tid) \<Rightarrow>
          (let tenantRole = (case UserRole s userID of Inl _ \<Rightarrow> [] | Inr r \<Rightarrow> r)
           in case ProjectNameInTenant s tid projectID of
                Inl _ \<Rightarrow> None
              | Inr name \<Rightarrow>
                  (let pRole = ProjectAccess s projectID userID tenantRole
                   in if pRole = [] then None
                      else Some \<lparr>pc_TenantID = tid, pc_ProjectID = projectID, pc_ProjectName = name,
                                 pc_ProjectRole = pRole\<rparr>)))"

definition requireProjectWriter :: "store \<Rightarrow> (int \<times> int) option \<Rightarrow> int \<Rightarrow> access" where
  "requireProjectWriter s sess projectID =
     (case projectCtxFromRequest s sess projectID of
        None \<Rightarrow> NotFound
      | Some pc \<Rightarrow> if \<not> CanWriteProject (pc_ProjectRole pc) then Forbidden else Allowed)"

definition pullCanAccessProject :: "store \<Rightarrow> int \<Rightarrow> int \<Rightarrow> bool res" where
  "pullCanAccessProject s userID projectID =
     (case UserRole s userID of
        Inl e \<Rightarrow> Inl e
      | Inr tenantRole \<Rightarrow> Inr (ProjectAccess s projectID userID tenantRole \<noteq> []))"

section \<open>Lemmas\<close>

text \<open>The primary key of the member table.\<close>

definition members_ok :: "store \<Rightarrow> bool" where
  "members_ok s = (distinct (map (\<lambda>m. (pm_ProjectID m, pm_UserID m)) (st_members s))
                   \<and> (\<forall>m\<in>set (st_members s). valid_project_role (pm_Role m)))"

lemma members_ok_add: "members_ok s \<Longrightarrow> members_ok (snd (AddProjectMember now p u role s))"
proof -
  assume ok: "members_ok s"
  show ?thesis
  proof (cases "list_ex (is_member p u) (st_members s)")
    case True
    have "map (\<lambda>m. (pm_ProjectID m, pm_UserID m)) (map (\<lambda>m. if is_member p u m then m\<lparr>pm_Role := role\<rparr> else m) (st_members s))
        = map (\<lambda>m. (pm_ProjectID m, pm_UserID m)) (st_members s)" by simp
    with True ok show ?thesis
      by (auto simp: AddProjectMember_def members_ok_def simp del: map_map)
  next
    case False
    then have "(p, u) \<notin> (\<lambda>m. (pm_ProjectID m, pm_UserID m)) ` set (st_members s)"
      by (auto simp: list_ex_iff is_member_def)
    with False ok show ?thesis by (auto simp: AddProjectMember_def members_ok_def)
  qed
qed

lemma members_ok_remove: "members_ok s \<Longrightarrow> members_ok (snd (RemoveProjectMember p u s))"
  by (auto simp: RemoveProjectMember_def members_ok_def Let_def distinct_map_filter)

lemma role_nonempty: "valid_project_role r \<Longrightarrow> r \<noteq> []"
  by (auto simp: valid_project_role_def ProjectRoleAdmin_def ProjectRoleViewer_def)

lemma member_role_row:
  assumes "members_ok s" "m \<in> set (st_members s)"
  shows "ProjectMemberRole s (pm_ProjectID m) (pm_UserID m) = pm_Role m"
proof -
  let ?k = "\<lambda>m. (pm_ProjectID m, pm_UserID m)"
  have "is_member (pm_ProjectID m) (pm_UserID m) = (\<lambda>x. ?k x = ?k m)"
    by (auto simp: is_member_def)
  with find_unique [of ?k "st_members s" m] assms show ?thesis
    by (simp add: ProjectMemberRole_def members_ok_def)
qed

text \<open>
  Removing a member either fails and changes nothing, or removes exactly that member's row and
  keeps at least one administrator in the project whenever the project had one.
\<close>

theorem remove_member_keeps_admin:
  assumes "members_ok s" "0 < admin_count p s" "RemoveProjectMember p u s = (r, s')"
  shows "0 < admin_count p s' \<and>
     (is_ok r \<longrightarrow> st_members s' = filter (\<lambda>m. \<not> is_member p u m) (st_members s)) \<and> (\<not> is_ok r \<longrightarrow> s' = s)"
proof (cases "is_ok r")
  case False
  with assms show ?thesis by (auto simp: RemoveProjectMember_def Let_def split: if_splits)
next
  case True
  let ?adm = "\<lambda>m. pm_ProjectID m = p \<and> pm_Role m = ProjectRoleAdmin"
  from True assms(3) have mem: "st_members s' = filter (\<lambda>m. \<not> is_member p u m) (st_members s)"
    and guard: "ProjectMemberRole s p u = ProjectRoleAdmin \<longrightarrow> admin_count p s > 1"
    by (auto simp: RemoveProjectMember_def Let_def split: if_splits)
  have "\<exists>m\<in>set (st_members s). ?adm m \<and> \<not> is_member p u m"
  proof (rule ccontr)
    assume none: "\<not> ?thesis"
    then have all: "\<forall>m\<in>set (filter ?adm (st_members s)). is_member p u m" by auto
    obtain m where m: "m \<in> set (st_members s)" "?adm m"
      using assms(2) by (auto simp: admin_count_def filter_empty_conv)
    with none have "is_member p u m" by auto
    with member_role_row [OF assms(1) m(1)] m(2) guard have "admin_count p s > 1" by (simp add: is_member_def)
    moreover have "distinct (map (\<lambda>m. (pm_ProjectID m, pm_UserID m)) (filter ?adm (st_members s)))"
      using assms(1) by (simp add: members_ok_def distinct_map_filter)
    from distinct_same_key [OF this, of "(p, u)"] have "admin_count p s \<le> 1"
      using all by (auto simp: admin_count_def is_member_def)
    ultimately show False by simp
  qed
  then have "0 < admin_count p s'"
    by (auto simp: admin_count_def mem filter_empty_conv)
  with True mem show ?thesis by simp
qed

definition sample_members :: store where
  "sample_members =
     snd (AddProjectMember 0 1 2 ''viewer'' (snd (AddProjectMember 0 1 1 ''admin'' (empty_store ''/d''))))"

lemma remove_member_keeps_admin_witness:
  "0 < admin_count 1 (snd (RemoveProjectMember 1 2 sample_members)) \<and> \<not> is_ok (fst (RemoveProjectMember 1 1 sample_members))"
proof -
  have "members_ok sample_members"
    unfolding sample_members_def by (intro members_ok_add) (simp add: members_ok_def empty_store_def)
  moreover have "0 < admin_count 1 sample_members" by code_simp
  ultimately have "0 < admin_count 1 (snd (RemoveProjectMember 1 2 sample_members))"
    using remove_member_keeps_admin [OF _ _ prod.collapse [symmetric]] by blast
  moreover have "\<not> is_ok (fst (RemoveProjectMember 1 1 sample_members))" by code_simp
  ultimately show ?thesis by blast
qed

text \<open>
  A request passes the project writer check only for a project of the session's own tenant, and
  only when the user is an administrator of the tenant or has the administrator role in the project.
\<close>

theorem project_writer_sound:
  assumes "requireProjectWriter s sess projectID = Allowed"
  shows "\<exists>userID tid p. sess = Some (userID, tid) \<and> p \<in> set (trows (st_projects s)) \<and> p_ID p = projectID
     \<and> p_TenantID p = tid
     \<and> (UserRole s userID = Inr RoleAdmin
        \<or> (\<exists>m\<in>set (st_members s). is_member projectID userID m \<and> pm_Role m = ProjectRoleAdmin))"
proof -
  from assms obtain userID tid where s: "sess = Some (userID, tid)"
    by (auto simp: requireProjectWriter_def projectCtxFromRequest_def split: option.splits)
  let ?role = "case UserRole s userID of Inl _ \<Rightarrow> [] | Inr r \<Rightarrow> r"
  from assms s obtain p where
    p: "tbl_row (\<lambda>p. p_ID p = projectID \<and> p_TenantID p = tid) (st_projects s) = Inr p"
    and w: "ProjectAccess s projectID userID ?role = ProjectRoleAdmin"
    by (auto simp: requireProjectWriter_def projectCtxFromRequest_def ProjectNameInTenant_def Let_def
        CanWriteProject_def map_sum_def split: option.splits sum.splits if_splits)
  have "UserRole s userID = Inr RoleAdmin
        \<or> (\<exists>m\<in>set (st_members s). is_member projectID userID m \<and> pm_Role m = ProjectRoleAdmin)"
  proof (cases "?role = RoleAdmin")
    case True
    then have "UserRole s userID = Inr RoleAdmin" by (auto simp: RoleAdmin_def split: sum.splits)
    then show ?thesis ..
  next
    case False
    with w have "ProjectMemberRole s projectID userID = ProjectRoleAdmin" by (simp add: ProjectAccess_def)
    then show ?thesis
      by (auto simp: ProjectMemberRole_def ProjectRoleAdmin_def dest!: find_Some_iff2 split: option.splits)
  qed
  with s tbl_row_Inr [OF p] show ?thesis by blast
qed

definition sample_project :: store where
  "sample_project = sample_members\<lparr>st_projects :=
     \<lparr>trows = [\<lparr>p_ID = 1, p_TenantID = 7, p_Name = ''game'', p_MaxPublishedVersions = 0, p_CreatedAt = None\<rparr>],
      tnext = 2\<rparr>\<rparr>"

lemma project_writer_sound_witness:
  "\<exists>m\<in>set (st_members sample_project). is_member 1 1 m \<and> pm_Role m = ProjectRoleAdmin"
proof -
  have "(case requireProjectWriter sample_project (Some (1, 7)) 1 of Allowed \<Rightarrow> True | _ \<Rightarrow> False)" by code_simp
  then have a: "requireProjectWriter sample_project (Some (1, 7)) 1 = Allowed"
    by (auto split: access.splits)
  have "\<not> is_ok (UserRole sample_project 1)" by code_simp
  then have "UserRole sample_project 1 \<noteq> Inr RoleAdmin" by auto
  with project_writer_sound [OF a] show ?thesis by auto
qed

text \<open>
  C39: an invitation in the viewer role that the only administrator of a project accepts takes the
  administrator role away and leaves the project without one, which \<open>RemoveProjectMember\<close> refuses
  to do: the upsert of \<open>AddProjectMember\<close> overwrites the role.
\<close>

theorem accept_invite_demotes_last_admin:
  assumes "members_ok s" "m \<in> set (st_members s)" "admin_count (pm_ProjectID m) s = 1"
    "pm_Role m = ProjectRoleAdmin" "GetProjectInviteByToken s token = Inr iv" "pi_ProjectID iv = pm_ProjectID m"
    "pi_Role iv = ProjectRoleViewer" "AcceptProjectInvite zone now token (pm_UserID m) s = (Inr p, s')"
  shows "admin_count (pm_ProjectID m) s' = 0"
proof -
  let ?P = "pm_ProjectID m" and ?U = "pm_UserID m"
  let ?adm = "\<lambda>x. pm_ProjectID x = ?P \<and> pm_Role x = ProjectRoleAdmin"
  have "list_ex (is_member ?P ?U) (st_members s)" using assms(2) by (auto simp: list_ex_iff is_member_def)
  with assms(5-8) have mem: "st_members s' =
      map (\<lambda>x. if is_member ?P ?U x then x\<lparr>pm_Role := ProjectRoleViewer\<rparr> else x) (st_members s)"
    by (auto simp: AcceptProjectInvite_def AddProjectMember_def split: if_splits sum.splits prod.splits)
  have one: "length (filter ?adm (st_members s)) = 1" using assms(3) by (simp add: admin_count_def)
  have "m \<in> set (filter ?adm (st_members s))" using assms(2,4) by simp
  moreover obtain y where "filter ?adm (st_members s) = [y]" using one by (auto simp: length_Suc_conv)
  ultimately have "filter ?adm (st_members s) = [m]" by (metis empty_iff empty_set set_ConsD)
  then have "set (filter ?adm (st_members s)) = {m}" by simp
  then have only: "x = m" if "x \<in> set (st_members s)" "?adm x" for x
    using that unfolding set_filter by blast
  have "\<not> ?adm x" if x: "x \<in> set (st_members s')" for x
  proof
    assume a: "?adm x"
    from x mem obtain y where y: "y \<in> set (st_members s)"
      "x = (if is_member ?P ?U y then y\<lparr>pm_Role := ProjectRoleViewer\<rparr> else y)" by auto
    then show False using a only [of y]
      by (auto simp: is_member_def ProjectRoleAdmin_def ProjectRoleViewer_def split: if_splits)
  qed
  then show ?thesis by (simp add: admin_count_def filter_empty_conv)
qed

definition sample_invite :: store where
  "sample_invite = (snd (AddProjectMember 0 1 1 ''admin'' (empty_store ''/d'')))
     \<lparr>st_projects := st_projects sample_project,
      st_users := \<lparr>trows = [\<lparr>u_ID = 1, u_Username = ''ada'', u_PasswordHash = [], u_Role = ''operator'',
        u_IsAdmin = 0, u_TenantID = 7, u_Token = ''t'', u_AuthVersion = 1, u_CreatedAt = None\<rparr>], tnext = 2\<rparr>,
      st_invites := \<lparr>trows = [\<lparr>pi_ID = 1, pi_ProjectID = 1, pi_Token = ''x'', pi_Role = ''viewer'',
        pi_CreatedBy = 1, pi_ExpiresAt = Some 100, pi_CreatedAt = Some 0\<rparr>], tnext = 2\<rparr>\<rparr>"

lemma accept_invite_demotes_last_admin_witness:
  "admin_count 1 sample_invite = 1 \<and> admin_count 1 (snd (AcceptProjectInvite 0 5 ''x'' 1 sample_invite)) = 0"
proof -
  let ?m = "\<lparr>pm_ProjectID = 1, pm_UserID = 1, pm_Role = ''admin'', pm_JoinedAt = Some 0\<rparr>"
  let ?iv = "\<lparr>pi_ID = 1, pi_ProjectID = 1, pi_Token = ''x'', pi_Role = ''viewer'',
        pi_CreatedBy = 1, pi_ExpiresAt = Some 100, pi_CreatedAt = Some 0\<rparr>"
  have rows: "st_members sample_invite = [?m]"
    by (simp add: sample_invite_def AddProjectMember_def valid_project_role_def ProjectRoleAdmin_def
        empty_store_def format_time_def)
  have ok: "members_ok sample_invite"
    by (simp add: members_ok_def rows valid_project_role_def ProjectRoleAdmin_def)
  have one: "admin_count 1 sample_invite = 1" by (simp add: admin_count_def rows ProjectRoleAdmin_def)
  have iv: "GetProjectInviteByToken sample_invite ''x'' = Inr ?iv"
    by (simp add: GetProjectInviteByToken_def sample_invite_def tbl_row_def)
  have "is_ok (fst (AcceptProjectInvite 0 5 ''x'' 1 sample_invite))" by code_simp
  then obtain p s' where acc: "AcceptProjectInvite 0 5 ''x'' 1 sample_invite = (Inr p, s')"
    by (metis ok_pair)
  have "admin_count 1 s' = 0"
    using accept_invite_demotes_last_admin [OF ok, of ?m "''x''" ?iv 0 5 p s'] one iv acc rows
    by (simp add: ProjectRoleAdmin_def ProjectRoleViewer_def)
  with one acc show ?thesis by simp
qed

end
