(* ===== verification/Projects.thy ===== *)
theory Projects
  imports Files Members Overrides
begin

text \<open>
  Projects and versions (\<open>internal/store/projects.go\<close>, \<open>review.go\<close>, \<open>version_provenance.go\<close>,
  \<open>versions_extra.go\<close>, \<open>validate_publish.go\<close>): creation and deletion with their directories, the
  review and publication states of a version, the automatic patch number and the retention of
  published versions.  \<open>sha\<close> is the hash, \<open>perm\<close> the permission bits of a file on disk and
  \<open>parse_url\<close> the scheme, the host and the presence of user info that \<open>url.Parse\<close> finds.
\<close>

section \<open>Projects\<close>

definition ListProjects :: "store \<Rightarrow> int \<Rightarrow> int \<Rightarrow> string \<Rightarrow> (project \<times> string) list" where
  "ListProjects s tenantID userID tenantRole =
     sort_key (\<lambda>(p, _). p_Name p)
       (if tenantRole = RoleAdmin
        then map (\<lambda>p. (p, ''admin'')) (tbl_select (\<lambda>p. p_TenantID p = tenantID) (st_projects s))
        else concat (map (\<lambda>p. map (\<lambda>m. (p, pm_Role m)) (filter (is_member (p_ID p) userID) (st_members s)))
               (tbl_select (\<lambda>p. p_TenantID p = tenantID) (st_projects s))))"

definition CreateProject :: "go_time \<Rightarrow> int \<Rightarrow> int \<Rightarrow> string \<Rightarrow> store \<Rightarrow> project res \<times> store" where
  "CreateProject now tenantID ownerUserID name0 s =
     (let name = trim_space name0;
          row = \<lparr>p_ID = 0, p_TenantID = tenantID, p_Name = name, p_MaxPublishedVersions = 0,
                 p_CreatedAt = format_time now\<rparr>
      in if name = [] then (Inl (ErrMsg ''project name required''), s)
         else if contains name ''|'' then (Inl (ErrMsg ''project name cannot contain |''), s)
         else case tbl_insert project_conflict (\<lambda>i r. set_p_ID i r) ''projects'' row (st_projects s) of
                (Inl e, _) \<Rightarrow> (Inl e, s)
              | (Inr i, t) \<Rightarrow>
                  (let s1 = s\<lparr>st_projects := t\<rparr>
                   in case ProjectsRoot s1 tenantID of
                        Inl e \<Rightarrow> (Inl e, s1)
                      | Inr root \<Rightarrow>
                          (case AddProjectMember now i ownerUserID ProjectRoleAdmin (mkdir_all (path_join root name) s1) of
                             (Inl e, s2) \<Rightarrow> (Inl e, s2)
                           | (Inr _, s2) \<Rightarrow> (Inr (row\<lparr>p_ID := i\<rparr>), s2))))"

definition is_project :: "int \<Rightarrow> int \<Rightarrow> project \<Rightarrow> bool" where
  "is_project tenantID i p = (p_ID p = i \<and> p_TenantID p = tenantID)"

text \<open>The result of releasing the blobs is ignored, the directory is removed in any case.\<close>

definition DeleteProject :: "(string \<Rightarrow> string) \<Rightarrow> int \<Rightarrow> int \<Rightarrow> store \<Rightarrow> unit res \<times> store" where
  "DeleteProject sha tenantID i s =
     (case tbl_row (is_project tenantID i) (st_projects s) of
        Inl e \<Rightarrow> (Inl e, s)
      | Inr p \<Rightarrow>
          (let s1 = s\<lparr>st_projects := snd (tbl_delete (is_project tenantID i) (st_projects s))\<rparr>;
               s2 = deleteProjectFileModes tenantID (p_Name p) s1
           in case ProjectsRoot s2 tenantID of
                Inl e \<Rightarrow> (Inl e, s2)
              | Inr root \<Rightarrow>
                  (let dir = path_join root (p_Name p)
                   in (Inr (), remove_all dir (snd (releaseProjectDir sha dir s2))))))"

definition ProjectMaxPublishedVersions :: "store \<Rightarrow> int \<Rightarrow> int \<Rightarrow> int res" where
  "ProjectMaxPublishedVersions s tenantID projectID =
     map_sum id p_MaxPublishedVersions (tbl_row (is_project tenantID projectID) (st_projects s))"

definition SetProjectMaxPublishedVersions :: "int \<Rightarrow> int \<Rightarrow> int \<Rightarrow> store \<Rightarrow> unit res \<times> store" where
  "SetProjectMaxPublishedVersions tenantID projectID n s =
     (if n < 0 then (Inl (ErrMsg ''max_published_versions must be greater than or equal to zero''), s)
      else
        (let (k, t) = tbl_update (is_project tenantID projectID) (\<lambda>p. p\<lparr>p_MaxPublishedVersions := n\<rparr>) (st_projects s)
         in if k \<noteq> 1 then (Inl ErrNoRows, s\<lparr>st_projects := t\<rparr>) else (Inr (), s\<lparr>st_projects := t\<rparr>)))"

section \<open>Versions\<close>

definition empty_vcs :: vcs_provenance where
  "empty_vcs = \<lparr>vcs_Provider = [], vcs_Repository = [], vcs_Ref = [], vcs_Commit = [], vcs_RunURL = [], vcs_RunID = []\<rparr>"

definition empty_artifact :: artifact_manifest where
  "empty_artifact = \<lparr>am_SHA256 = [], am_FileCount = 0, am_Bytes = 0\<rparr>"

definition ListVersions :: "store \<Rightarrow> int \<Rightarrow> version list" where
  "ListVersions s projectID = rev (sort_key v_CreatedAt (tbl_select (\<lambda>v. v_ProjectID v = projectID) (st_versions s)))"

definition CreateVersion :: "go_time \<Rightarrow> int \<Rightarrow> int \<Rightarrow> string \<Rightarrow> string \<Rightarrow> store \<Rightarrow> version res \<times> store" where
  "CreateVersion now tenantID projectID projectName version s =
     (if \<not> ProjectBelongsToTenant s projectID tenantID then (Inl ErrWrongTenant, s)
      else
        (let row = \<lparr>v_ID = 0, v_ProjectID = projectID, v_Version = version, v_Status = ''draft'',
                    v_CreatedAt = format_time now, v_PublishedAt = None, v_VCS = empty_vcs, v_Artifact = empty_artifact\<rparr>
         in case tbl_insert version_conflict (\<lambda>i r. set_v_ID i r) ''versions'' row (st_versions s) of
              (Inl e, _) \<Rightarrow> (Inl e, s)
            | (Inr i, t) \<Rightarrow>
                (let s1 = s\<lparr>st_versions := t\<rparr>
                 in case VersionDir s1 tenantID projectName version of
                      Inl e \<Rightarrow> (Inl e, s1)
                    | Inr dir \<Rightarrow> (Inr (row\<lparr>v_ID := i\<rparr>), mkdir_all dir s1))))"

text \<open>\<open>strconv.Atoi\<close> on digits: the largest \<open>int\<close> when out of range, the error being ignored.\<close>

definition atoi_digits :: "string \<Rightarrow> int" where
  "atoi_digits w = min (int (read_nat w)) max_int64"

definition parse_release :: "string \<Rightarrow> (string \<times> string \<times> string) option" where
  "parse_release version =
     (case split_on (CHR ''.'') version of
        [a, b, c] \<Rightarrow>
          if a \<noteq> [] \<and> b \<noteq> [] \<and> c \<noteq> [] \<and> list_all is_digit (a @ b @ c) then Some (a, b, c) else None
      | _ \<Rightarrow> None)"

definition IsReleaseVersion :: "string \<Rightarrow> bool" where
  "IsReleaseVersion version = (parse_release version \<noteq> None)"

definition release_number :: "string \<Rightarrow> (int \<times> int \<times> int) option" where
  "release_number version =
     map_option (\<lambda>(a, b, c). (atoi_digits a, atoi_digits b, atoi_digits c)) (parse_release version)"

definition newer :: "int \<times> int \<times> int \<Rightarrow> int \<times> int \<times> int \<Rightarrow> bool" where
  "newer n best =
     (case (n, best) of ((major, minor, patch), (bestMajor, bestMinor, bestPatch)) \<Rightarrow>
        major > bestMajor \<or> (major = bestMajor \<and> minor > bestMinor)
        \<or> (major = bestMajor \<and> minor = bestMinor \<and> patch > bestPatch))"

fun best_release :: "(int \<times> int \<times> int) option \<Rightarrow> string list \<Rightarrow> (int \<times> int \<times> int) option" where
  "best_release best [] = best"
| "best_release best (version # vs) =
     (case release_number version of
        None \<Rightarrow> best_release best vs
      | Some n \<Rightarrow>
          (case best of
             None \<Rightarrow> best_release (Some n) vs
           | Some b \<Rightarrow> best_release (if newer n b then Some n else best) vs))"

definition format_release :: "int \<Rightarrow> int \<Rightarrow> int \<Rightarrow> string" where
  "format_release a b c = show_int a @ ''.'' @ show_int b @ ''.'' @ show_int c"

definition NextPatchVersion :: "store \<Rightarrow> int \<Rightarrow> string" where
  "NextPatchVersion s projectID =
     (case best_release None (map v_Version (tbl_select (\<lambda>v. v_ProjectID v = projectID) (st_versions s))) of
        None \<Rightarrow> ''0.0.1''
      | Some (a, b, c) \<Rightarrow> format_release a b (wrap64 (c + 1)))"

fun create_next_attempts :: "nat \<Rightarrow> go_time \<Rightarrow> int \<Rightarrow> int \<Rightarrow> string \<Rightarrow> store \<Rightarrow> version res \<times> store" where
  "create_next_attempts 0 now tenantID projectID projectName s =
     (Inl (ErrMsg ''create next version: too many concurrent retries''), s)"
| "create_next_attempts (Suc n) now tenantID projectID projectName s =
     (case CreateVersion now tenantID projectID projectName (NextPatchVersion s projectID) s of
        (Inr v, s1) \<Rightarrow> (Inr v, s1)
      | (Inl e, s1) \<Rightarrow> if e = ErrUnique ''versions'' then create_next_attempts n now tenantID projectID projectName s1
                     else (Inl e, s1))"

definition CreateNextPatchVersion :: "go_time \<Rightarrow> int \<Rightarrow> int \<Rightarrow> string \<Rightarrow> store \<Rightarrow> version res \<times> store" where
  "CreateNextPatchVersion = create_next_attempts 8"

definition GetVersion :: "store \<Rightarrow> int \<Rightarrow> string \<Rightarrow> version res" where
  "GetVersion s projectID version = tbl_row (is_version projectID version) (st_versions s)"

definition set_status :: "int \<Rightarrow> string \<Rightarrow> string \<Rightarrow> store \<Rightarrow> store" where
  "set_status projectID version st s =
     s\<lparr>st_versions := snd (tbl_update (is_version projectID version) (\<lambda>v. v\<lparr>v_Status := st\<rparr>) (st_versions s))\<rparr>"

definition PublishVersion ::
  "(string \<Rightarrow> string) \<Rightarrow> (string \<Rightarrow> nat) \<Rightarrow> go_time \<Rightarrow> int \<Rightarrow> int \<Rightarrow> string \<Rightarrow> store \<Rightarrow> unit res \<times> store" where
  "PublishVersion sha perm now tenantID projectID version s =
     (if \<not> ProjectBelongsToTenant s projectID tenantID then (Inl ErrWrongTenant, s)
      else case GetVersion s projectID version of
        Inl e \<Rightarrow> (Inl e, s)
      | Inr v \<Rightarrow>
          if v_Status v = ''published'' then (Inl (ErrMsg ''already published''), s)
          else if \<not> IsReleaseVersion version then (Inl (ErrMsg ''formal release version must use X.Y.Z''), s)
          else if v_Status v \<noteq> ''draft'' \<and> v_Status v \<noteq> ''pending_review''
          then (Inl (ErrMsg ''version status cannot be published''), s)
          else case tbl_row (\<lambda>p. p_ID p = projectID) (st_projects s) of
            Inl e \<Rightarrow> (Inl e, s)
          | Inr p \<Rightarrow>
              (case VersionDir s tenantID (p_Name p) version of
                 Inl e \<Rightarrow> (Inl e, s)
               | Inr dir \<Rightarrow>
                   if isDirEmpty s dir then (Inl (ErrMsg ''version directory is empty; upload content before publish''), s)
                   else case ValidateUniqueConfigBasenames s dir of
                     Inl e \<Rightarrow> (Inl e, s)
                   | Inr _ \<Rightarrow>
                       (case BuildArtifactManifest sha perm s dir of
                          Inl e \<Rightarrow> (Inl e, s)
                        | Inr manifest \<Rightarrow>
                            (Inr (), s\<lparr>st_versions := snd (tbl_update (is_version projectID version)
                               (\<lambda>v. v\<lparr>v_Status := ''published'', v_PublishedAt := format_time now, v_Artifact := manifest\<rparr>)
                               (st_versions s))\<rparr>))))"

definition SubmitVersionReview :: "int \<Rightarrow> string \<Rightarrow> store \<Rightarrow> unit res \<times> store" where
  "SubmitVersionReview projectID version s =
     (case getVersionStatus s projectID version of
        Inl e \<Rightarrow> (Inl e, s)
      | Inr st \<Rightarrow>
          if st \<noteq> ''draft'' \<and> st \<noteq> ''rejected''
          then (Inl (ErrMsg ''only draft or rejected versions can be submitted''), s)
          else if tbl_select (is_version projectID version) (st_versions s) = []
          then (Inl (ErrMsg ''version not found''), s)
          else (Inr (), set_status projectID version ''pending_review'' s))"

definition RejectVersionReview :: "int \<Rightarrow> string \<Rightarrow> store \<Rightarrow> unit res \<times> store" where
  "RejectVersionReview projectID version s =
     (case getVersionStatus s projectID version of
        Inl e \<Rightarrow> (Inl e, s)
      | Inr st \<Rightarrow>
          if st \<noteq> ''pending_review'' then (Inl (ErrMsg ''version is not pending review''), s)
          else (Inr (), set_status projectID version ''rejected'' s))"

section \<open>Provenance\<close>

definition commit_ok :: "string \<Rightarrow> bool" where
  "commit_ok c = (7 \<le> length c \<and> length c \<le> 128
     \<and> list_all (\<lambda>x. is_digit x \<or> x \<in> set ''abcdefABCDEF'') c)"

definition ref_ok :: "string \<Rightarrow> bool" where
  "ref_ok r = (case r of [] \<Rightarrow> False
     | c # rest \<Rightarrow> is_alnum c \<and> length rest \<le> 255
         \<and> list_all (\<lambda>x. is_alnum x \<or> x \<in> set ''._/@:+-'') rest)"

definition https_url :: "(string \<Rightarrow> (string \<times> string \<times> bool) option) \<Rightarrow> string \<Rightarrow> bool" where
  "https_url parse_url u =
     (case parse_url u of
        None \<Rightarrow> False
      | Some (scheme, host, user) \<Rightarrow> scheme = ''https'' \<and> host \<noteq> [] \<and> \<not> user)"

definition trim_vcs :: "vcs_provenance \<Rightarrow> vcs_provenance" where
  "trim_vcs v = \<lparr>vcs_Provider = trim_space (vcs_Provider v), vcs_Repository = trim_space (vcs_Repository v),
     vcs_Ref = trim_space (vcs_Ref v), vcs_Commit = trim_space (vcs_Commit v),
     vcs_RunURL = trim_space (vcs_RunURL v), vcs_RunID = trim_space (vcs_RunID v)\<rparr>"

definition ValidateVCSProvenance :: "(string \<Rightarrow> (string \<times> string \<times> bool) option) \<Rightarrow> vcs_provenance \<Rightarrow> unit res" where
  "ValidateVCSProvenance parse_url vcs0 =
     (let vcs = trim_vcs vcs0
      in if vcs = empty_vcs then Inr ()
         else if vcs_Provider vcs \<notin> {''git'', ''github'', ''gitea''}
         then Inl (ErrMsg ''vcs.provider must be git, github, or gitea'')
         else if vcs_Repository vcs = [] \<or> vcs_Ref vcs = [] \<or> \<not> commit_ok (vcs_Commit vcs)
         then Inl (ErrMsg ''vcs.repository, vcs.ref, and a 7-128 character hexadecimal vcs.commit are required'')
         else if \<not> ref_ok (vcs_Ref vcs) \<or> length (vcs_Repository vcs) > 512 \<or> length (vcs_RunID vcs) > 128
         then Inl (ErrMsg ''invalid vcs reference metadata'')
         else if \<not> https_url parse_url (vcs_Repository vcs)
         then Inl (ErrMsg ''vcs.repository must be a credential-free HTTPS URL'')
         else if vcs_RunURL vcs \<noteq> [] \<and> \<not> https_url parse_url (vcs_RunURL vcs)
         then Inl (ErrMsg ''vcs.run_url must be a credential-free HTTPS URL'')
         else Inr ())"

definition SetVersionVCSProvenance ::
  "(string \<Rightarrow> (string \<times> string \<times> bool) option) \<Rightarrow> int \<Rightarrow> string \<Rightarrow> vcs_provenance \<Rightarrow> store \<Rightarrow> unit res \<times> store" where
  "SetVersionVCSProvenance parse_url projectID version vcs s =
     (case ValidateVCSProvenance parse_url vcs of
        Inl e \<Rightarrow> (Inl e, s)
      | Inr _ \<Rightarrow>
          (let (n, t) = tbl_update (\<lambda>v. is_version projectID version v \<and> v_Status v = ''draft'')
                          (\<lambda>v. v\<lparr>v_VCS := trim_vcs vcs\<rparr>) (st_versions s)
           in if n = 0 then (Inl ErrNoRows, s) else (Inr (), s\<lparr>st_versions := t\<rparr>)))"

section \<open>Deleting versions\<close>

definition version_pinned :: "store \<Rightarrow> int \<Rightarrow> string \<Rightarrow> bool" where
  "version_pinned s projectID version =
     list_ex (\<lambda>d. pd_ProjectID d = projectID \<and> pd_Version d = version
        \<and> (pd_Status d = ''queued'' \<or> pd_Status d = ''running'')) (trows (st_deployments s))"

definition DeleteVersion ::
  "(string \<Rightarrow> string) \<Rightarrow> int \<Rightarrow> int \<Rightarrow> string \<Rightarrow> string \<Rightarrow> store \<Rightarrow> unit res \<times> store" where
  "DeleteVersion sha tenantID projectID projectName version s =
     (if \<not> ProjectBelongsToTenant s projectID tenantID then (Inl ErrWrongTenant, s)
      else
        (let (n, t) = tbl_delete (\<lambda>v. is_version projectID version v \<and> \<not> version_pinned s projectID version) (st_versions s)
         in if n = 0
            then (if version_pinned s projectID version then (Inl ErrVersionInDeployment, s) else (Inl ErrNoRows, s))
            else
              (let s1 = deleteVersionFileModes tenantID projectName version (s\<lparr>st_versions := t\<rparr>)
               in case VersionDir s1 tenantID projectName version of
                    Inl _ \<Rightarrow> (Inr (), s1)
                  | Inr dir \<Rightarrow> (Inr (), remove_all dir (snd (releaseVersionDir sha dir s1))))))"

definition ListPublishedVersions :: "store \<Rightarrow> int \<Rightarrow> version list" where
  "ListPublishedVersions s projectID =
     rev (sort_key v_PublishedAt
       (tbl_select (\<lambda>v. v_ProjectID v = projectID \<and> v_Status v = ''published'') (st_versions s)))"

text \<open>The names removed so far are returned with the error that stopped the loop, if any.\<close>

fun prune_loop ::
  "(string \<Rightarrow> string) \<Rightarrow> int \<Rightarrow> int \<Rightarrow> string \<Rightarrow> version list \<Rightarrow> string list \<Rightarrow> store
     \<Rightarrow> (string list \<times> go_error option) \<times> store" where
  "prune_loop sha tenantID projectID projectName [] removed s = ((removed, None), s)"
| "prune_loop sha tenantID projectID projectName (v # vs) removed s =
     (case DeleteVersion sha tenantID projectID projectName (v_Version v) s of
        (Inr _, s1) \<Rightarrow> prune_loop sha tenantID projectID projectName vs (removed @ [v_Version v]) s1
      | (Inl e, s1) \<Rightarrow> if e = ErrVersionInDeployment then prune_loop sha tenantID projectID projectName vs removed s1
                     else ((removed, Some e), s1))"

definition PrunePublishedVersions ::
  "(string \<Rightarrow> string) \<Rightarrow> int \<Rightarrow> int \<Rightarrow> string \<Rightarrow> int \<Rightarrow> store \<Rightarrow> (string list \<times> go_error option) \<times> store" where
  "PrunePublishedVersions sha tenantID projectID projectName retainCount s =
     (if retainCount < 0 then (([], Some (ErrMsg ''retain count must be greater than or equal to zero'')), s)
      else if retainCount = 0 then (([], None), s)
      else
        (let versions = ListPublishedVersions s projectID
         in if int (length versions) \<le> retainCount then (([], None), s)
            else prune_loop sha tenantID projectID projectName (drop (nat retainCount) versions) [] s))"

definition LatestPublishedVersion :: "store \<Rightarrow> int \<Rightarrow> string res" where
  "LatestPublishedVersion s projectID =
     (case ListPublishedVersions s projectID of [] \<Rightarrow> Inl ErrNoRows | v # _ \<Rightarrow> Inr (v_Version v))"

definition PublishedVersionByOffset :: "store \<Rightarrow> int \<Rightarrow> int \<Rightarrow> string res" where
  "PublishedVersionByOffset s projectID offset =
     (case drop (nat offset) (ListPublishedVersions s projectID) of [] \<Rightarrow> Inl ErrNoRows | v # _ \<Rightarrow> Inr (v_Version v))"

definition CountPublishedVersions :: "store \<Rightarrow> int \<Rightarrow> nat" where
  "CountPublishedVersions s projectID =
     length (tbl_select (\<lambda>v. v_ProjectID v = projectID \<and> v_Status v = ''published'') (st_versions s))"

section \<open>Validation before publishing\<close>

record publish_validation =
  pv_OK :: bool
  pv_Errors :: "string list"
  pv_Warnings :: "(string \<times> string) list"

definition error_text :: "go_error \<Rightarrow> string" where
  "error_text e = (case e of ErrMsg m \<Rightarrow> m | ErrNoRows \<Rightarrow> ''sql: no rows in result set''
     | ErrNotExist \<Rightarrow> ''file does not exist'' | _ \<Rightarrow> ''error'')"

text \<open>A warning names the server and the configuration file that the version does not have.\<close>

definition ValidateBeforePublish ::
  "store \<Rightarrow> int \<Rightarrow> string \<Rightarrow> string \<Rightarrow> server_file option \<Rightarrow> publish_validation res" where
  "ValidateBeforePublish s tenantID projectName version sf =
     (case VersionDir s tenantID projectName version of
        Inl e \<Rightarrow> Inl e
      | Inr root \<Rightarrow>
          (let errs = (if isDirEmpty s root then [''version directory is empty''] else [])
                 @ (case ValidateUniqueConfigBasenames s root of Inl e \<Rightarrow> [error_text e] | Inr _ \<Rightarrow> [])
           in case sf of
                Some (se # ses) \<Rightarrow>
                  (case ListConfigFileEntries s tenantID projectName version of
                     Inl e \<Rightarrow> Inl e
                   | Inr entries \<Rightarrow>
                       Inr \<lparr>pv_OK = (errs = []), pv_Errors = errs,
                            pv_Warnings = concat (map (\<lambda>(sid, entry).
                              map (\<lambda>(name, _). (sid, Basename name))
                                (filter (\<lambda>(name, _). Basename name \<notin> fst ` set entries) (se_Replacements entry)))
                              (se # ses))\<rparr>)
              | _ \<Rightarrow> Inr \<lparr>pv_OK = (errs = []), pv_Errors = errs, pv_Warnings = []\<rparr>))"

section \<open>Version numbers\<close>

lemma newer_trans: "newer x y \<Longrightarrow> \<not> newer z y \<Longrightarrow> newer x z"
  by (auto simp: newer_def split: prod.splits)

lemma newer_irrefl: "\<not> newer x x"
  by (auto simp: newer_def split: prod.splits)

lemma best_release_best:
  "best_release best vs = Some b \<Longrightarrow>
     (\<forall>v\<in>set vs. \<forall>n. release_number v = Some n \<longrightarrow> \<not> newer n b)
     \<and> (\<forall>b0. best = Some b0 \<longrightarrow> \<not> newer b0 b)
     \<and> (best = Some b \<or> (\<exists>v\<in>set vs. release_number v = Some b))"
proof (induction vs arbitrary: best)
  case Nil
  then show ?case by (auto simp: newer_irrefl)
next
  case (Cons v vs)
  show ?case
  proof (cases "release_number v")
    case None
    with Cons show ?thesis by auto
  next
    case (Some n)
    define best' where "best' = (case best of None \<Rightarrow> Some n | Some b \<Rightarrow> if newer n b then Some n else best)"
    have "best_release best' vs = Some b" using Cons.prems Some by (auto simp: best'_def split: option.splits)
    from Cons.IH [OF this] have
      ih: "\<forall>w\<in>set vs. \<forall>m. release_number w = Some m \<longrightarrow> \<not> newer m b"
      "\<forall>b0. best' = Some b0 \<longrightarrow> \<not> newer b0 b" "best' = Some b \<or> (\<exists>w\<in>set vs. release_number w = Some b)" by auto
    have n: "\<not> newer n b"
    proof (cases best)
      case None
      with ih(2) show ?thesis by (simp add: best'_def)
    next
      case (Some b0)
      with ih(2) show ?thesis by (cases "newer n b0") (auto simp: best'_def newer_def split: prod.splits)
    qed
    moreover have "\<not> newer b0 b" if "best = Some b0" for b0
      using ih(2) that by (cases "newer n b0") (auto simp: best'_def newer_def split: prod.splits)
    moreover have "best = Some b \<or> (\<exists>w\<in>set (v # vs). release_number w = Some b)"
      using ih(3) Some by (auto simp: best'_def split: option.splits if_splits)
    ultimately show ?thesis using ih(1) Some by auto
  qed
qed

lemma best_release_some: "best_release (Some b) vs \<noteq> None"
  by (induction vs arbitrary: b) (simp_all split: option.split)

lemma best_release_none:
  "best_release best vs = None \<longleftrightarrow> best = None \<and> (\<forall>v\<in>set vs. release_number v = None)"
proof (cases best)
  case None
  then show ?thesis by (induction vs) (auto simp: best_release_some split: option.split)
qed (simp add: best_release_some)

lemma release_number_range: "release_number v = Some (a, b, c) \<Longrightarrow>
   0 \<le> a \<and> a \<le> max_int64 \<and> 0 \<le> b \<and> b \<le> max_int64 \<and> 0 \<le> c \<and> c \<le> max_int64"
  by (auto simp: release_number_def atoi_digits_def max_int64_def split: prod.splits)

lemma digits_no_dot: "list_all is_digit w \<Longrightarrow> \<forall>c\<in>set w. c \<noteq> CHR ''.''"
  by (auto simp: list_all_iff is_digit_def)

lemma show_int_digits: "0 \<le> i \<Longrightarrow> list_all is_digit (show_int i) \<and> show_int i \<noteq> [] \<and> read_nat (show_int i) = nat i"
  by (auto simp: show_int_def list_all_iff dest: show_nat_digits)

lemma release_number_format:
  assumes "0 \<le> a" "a \<le> max_int64" "0 \<le> b" "b \<le> max_int64" "0 \<le> c" "c \<le> max_int64"
  shows "release_number (format_release a b c) = Some (a, b, c)"
proof -
  have "format_release a b c = join_with [CHR ''.''] [show_int a, show_int b, show_int c]"
    by (simp add: format_release_def)
  then have "split_on (CHR ''.'') (format_release a b c) = [show_int a, show_int b, show_int c]"
    using split_by_join [of "\<lambda>x. x = CHR ''.''" "CHR ''.''" "[show_int a, show_int b, show_int c]"]
      digits_no_dot [of "show_int a"] digits_no_dot [of "show_int b"] digits_no_dot [of "show_int c"]
      show_int_digits assms by auto
  then show ?thesis using assms show_int_digits [of a] show_int_digits [of b] show_int_digits [of c]
    by (simp add: release_number_def parse_release_def atoi_digits_def)
qed

text \<open>
  The automatic patch version is newer than every release version of the project and is not
  taken, so that creating it cannot fail on the UNIQUE index, as long as the greatest release of the
  project does not have the largest machine integer as its patch number.
\<close>

theorem next_patch_is_newest:
  assumes "\<And>v a b c. v \<in> set (trows (st_versions s)) \<Longrightarrow> v_ProjectID v = p \<Longrightarrow>
             release_number (v_Version v) = Some (a, b, c) \<Longrightarrow> c < max_int64"
  shows "\<exists>n. release_number (NextPatchVersion s p) = Some n
    \<and> (\<forall>v\<in>set (trows (st_versions s)). v_ProjectID v = p \<longrightarrow>
         v_Version v \<noteq> NextPatchVersion s p
         \<and> (\<forall>m. release_number (v_Version v) = Some m \<longrightarrow> newer n m))"
proof -
  let ?vs = "map v_Version (tbl_select (\<lambda>v. v_ProjectID v = p) (st_versions s))"
  have mem: "v \<in> set (trows (st_versions s)) \<Longrightarrow> v_ProjectID v = p \<Longrightarrow> v_Version v \<in> set ?vs" for v by auto
  obtain n where n: "release_number (NextPatchVersion s p) = Some n"
    and new: "\<And>w m. w \<in> set ?vs \<Longrightarrow> release_number w = Some m \<Longrightarrow> newer n m"
  proof (cases "best_release None ?vs")
    case None
    have "format_release 0 0 1 = ''0.0.1''" by code_simp
    with None have "release_number (NextPatchVersion s p) = Some (0, 0, 1)"
      using release_number_format [of 0 0 1] by (simp add: NextPatchVersion_def max_int64_def)
    moreover have "release_number w = None" if "w \<in> set ?vs" for w
      using None that unfolding best_release_none by blast
    ultimately show ?thesis using that [of "(0, 0, 1)"] by auto
  next
    case (Some x)
    obtain a b c where x: "x = (a, b, c)" by (cases x)
    note best = best_release_best [OF Some]
    then obtain w where w: "w \<in> set ?vs" "release_number w = Some (a, b, c)" using x by auto
    with assms have "c < max_int64" by auto
    moreover note release_number_range [OF w(2)]
    ultimately have "wrap64 (c + 1) = c + 1" and r: "release_number (format_release a b (c + 1)) = Some (a, b, c + 1)"
      by (auto intro!: wrap64_id release_number_format simp: max_int64_def)
    then have "release_number (NextPatchVersion s p) = Some (a, b, c + 1)"
      using Some x by (simp add: NextPatchVersion_def)
    moreover have "newer (a, b, c + 1) m" if "w' \<in> set ?vs" "release_number w' = Some m" for w' m
      by (rule newer_trans [of _ "(a, b, c)"]) (use best that x in \<open>auto simp: newer_def\<close>)
    ultimately show ?thesis by (rule that)
  qed
  have "v_Version v \<noteq> NextPatchVersion s p" if "v \<in> set (trows (st_versions s))" "v_ProjectID v = p" for v
    using new [OF mem [OF that], of n] n newer_irrefl by auto
  with n new mem show ?thesis by blast
qed

lemma next_patch_is_newest_witness:
  "\<exists>n. release_number (NextPatchVersion sample_draft 1) = Some n \<and> newer n (1, 0, 0)"
proof -
  have v: "trows (st_versions sample_draft) = [sample_version]" by (simp add: sample_draft_def)
  have "(case release_number ''1.0.0'' of Some (a, b, c) \<Rightarrow> a = 1 \<and> b = 0 \<and> c = 0 | None \<Rightarrow> False)" by code_simp
  then have r: "release_number (v_Version sample_version) = Some (1, 0, 0)"
    by (auto simp: sample_version_def split: option.splits)
  have "v_ProjectID sample_version = 1" by (simp add: sample_version_def)
  with next_patch_is_newest [of sample_draft 1] v r show ?thesis by (auto simp: max_int64_def)
qed

section \<open>Life cycle of a version\<close>

definition ver_ok :: "store \<Rightarrow> bool" where
  "ver_ok s = (tbl_ok v_ID (st_versions s) \<and> tbl_uniq (\<lambda>r. Some (v_ProjectID r, v_Version r)) (st_versions s))"

inductive ver_step :: "store \<Rightarrow> store \<Rightarrow> bool" where
  vs_create: "CreateVersion now t p pn v s = (r, s') \<Longrightarrow> ver_step s s'"
| vs_submit: "SubmitVersionReview p v s = (r1, s') \<Longrightarrow> ver_step s s'"
| vs_reject: "RejectVersionReview p v s = (r1, s') \<Longrightarrow> ver_step s s'"
| vs_publish: "PublishVersion sha perm now t p v s = (r1, s') \<Longrightarrow> ver_step s s'"
| vs_vcs: "SetVersionVCSProvenance url p v vcs s = (r1, s') \<Longrightarrow> ver_step s s'"
| vs_delete: "DeleteVersion sha t p pn v s = (r1, s') \<Longrightarrow> ver_step s s'"

text \<open>Releasing blobs touches the files and the blob rows only.\<close>

definition rows_same :: "store \<Rightarrow> store \<Rightarrow> bool" where
  "rows_same s s' = (st_versions s' = st_versions s \<and> st_deployments s' = st_deployments s
     \<and> st_projects s' = st_projects s \<and> st_tenants s' = st_tenants s \<and> st_dataDir s' = st_dataDir s)"

lemma release_frame: "rows_same s (snd (releaseBlobLink sha path s))"
  by (auto simp: rows_same_def releaseBlobLink_def decrementBlobRef_def split: option.split)

lemma release_all_frame: "rows_same s (snd (release_all sha fs s))"
proof (induction fs arbitrary: s)
  case (Cons g fs)
  obtain r s1 where r: "releaseBlobLink sha g s = (r, s1)" by fastforce
  with release_frame [of s sha g] have "rows_same s s1" by simp
  with r Cons [of s1] show ?case by (cases r) (auto simp: rows_same_def)
qed (simp add: rows_same_def)

lemma DeleteVersion_effect:
  assumes "DeleteVersion sha t p pn v s = (Inr (), s')"
  shows "\<not> version_pinned s p v \<and> ProjectBelongsToTenant s p t
    \<and> st_versions s' = snd (tbl_delete (is_version p v) (st_versions s))
    \<and> st_deployments s' = st_deployments s \<and> st_projects s' = st_projects s"
proof -
  have belongs: "ProjectBelongsToTenant s p t" using assms by (auto simp: DeleteVersion_def split: if_splits)
  have np: "\<not> version_pinned s p v"
  proof
    assume "version_pinned s p v"
    then have "fst (tbl_delete (\<lambda>x. is_version p v x \<and> \<not> version_pinned s p v) (st_versions s)) = 0"
      by (simp add: tbl_delete_def)
    with assms belongs show False by (auto simp: DeleteVersion_def Let_def split: prod.splits if_splits)
  qed
  let ?t = "snd (tbl_delete (is_version p v) (st_versions s))"
  let ?s1 = "deleteVersionFileModes t pn v (s\<lparr>st_versions := ?t\<rparr>)"
  have "s' = ?s1 \<or> (\<exists>dir. s' = remove_all dir (snd (releaseVersionDir sha dir ?s1)))"
    using assms belongs np by (auto simp: DeleteVersion_def Let_def split: prod.splits if_splits sum.splits)
  moreover have "rows_same ?s1 (snd (releaseVersionDir sha dir ?s1))" for dir
    unfolding releaseVersionDir_def by (rule release_all_frame)
  ultimately have "st_versions s' = ?t \<and> st_deployments s' = st_deployments s \<and> st_projects s' = st_projects s"
    by (auto simp: rows_same_def remove_all_def deleteVersionFileModes_def)
  with np belongs show ?thesis by simp
qed

lemma DeleteVersion_refused: "DeleteVersion sha t p pn v s = (Inl e, s') \<Longrightarrow> s' = s"
  by (auto simp: DeleteVersion_def Let_def split: if_splits prod.splits sum.splits)

lemma ver_ok_update:
  assumes "ver_ok s" "\<And>v. v_ID (f v) = v_ID v" "\<And>v. v_ProjectID (f v) = v_ProjectID v" "\<And>v. v_Version (f v) = v_Version v"
  shows "ver_ok (s\<lparr>st_versions := snd (tbl_update P f (st_versions s))\<rparr>)"
  using assms by (simp add: ver_ok_def version_rows.ok_update version_rows.uniq_update)

lemma ver_ok_cong: "st_versions s' = st_versions s \<Longrightarrow> ver_ok s' = ver_ok s"
  by (simp add: ver_ok_def)

text \<open>The row of a published version, or its id once it is deleted.\<close>

definition frozen :: "version \<Rightarrow> store \<Rightarrow> bool" where
  "frozen v s = (v_ID v < tnext (st_versions s) \<and> (\<forall>w\<in>set (trows (st_versions s)). v_ID w = v_ID v \<longrightarrow> w = v))"

lemma table_of_version_update: "st_versions (s\<lparr>st_versions := t\<rparr>) = t"
  by simp

lemma frozen_cong: "st_versions s' = st_versions s \<Longrightarrow> frozen v s' = frozen v s"
  by (simp add: frozen_def)

lemma frozen_update:
  assumes "frozen v s" "v_Status v = ''published''" "\<And>r. v_ID (f r) = v_ID r"
    "\<And>r. r \<in> set (trows (st_versions s)) \<Longrightarrow> P r \<Longrightarrow> v_Status r \<noteq> ''published''"
  shows "frozen v (s\<lparr>st_versions := snd (tbl_update P f (st_versions s))\<rparr>)"
proof -
  let ?t = "snd (tbl_update P f (st_versions s))"
  have "w = v" if w: "w \<in> set (trows ?t)" and id: "v_ID w = v_ID v" for w
  proof -
    from w obtain r where r: "r \<in> set (trows (st_versions s))" and wr: "w = (if P r then f r else r)"
      unfolding trows_tbl_update set_map by blast
    have "v_ID r = v_ID v" using id assms(3) wr by (cases "P r") simp_all
    with assms(1) r have rv: "r = v" by (simp add: frozen_def)
    with assms(2) assms(4) [OF r] have "\<not> P r" by blast
    with rv wr show ?thesis by simp
  qed
  then have "\<forall>w\<in>set (trows ?t). v_ID w = v_ID v \<longrightarrow> w = v" by blast
  moreover have "v_ID v < tnext ?t" using assms(1) by (simp add: frozen_def)
  ultimately show ?thesis unfolding frozen_def table_of_version_update by blast
qed

lemma status_row:
  assumes "ver_ok s" "getVersionStatus s p v = Inr st" "r \<in> set (trows (st_versions s))" "is_version p v r"
  shows "v_Status r = st"
proof -
  from assms(2) obtain r0 where r0: "tbl_row (is_version p v) (st_versions s) = Inr r0" "v_Status r0 = st"
    by (auto simp: getVersionStatus_def map_sum_def split: sum.splits)
  from tbl_row_Inr [OF r0(1)] assms(3,4) have "r0 = r"
    using version_rows.uniq_rows [of "st_versions s" r0 r "(p, v)"] assms(1)
    by (auto simp: ver_ok_def is_version_def)
  with r0 show ?thesis by simp
qed

lemma set_status_effect: "st_versions (set_status p v st s) = snd (tbl_update (is_version p v) (\<lambda>v. v\<lparr>v_Status := st\<rparr>) (st_versions s))"
  by (simp add: set_status_def)

lemma unpublished_rows:
  assumes "ver_ok s" "getVersionStatus s p v = Inr st" "st \<noteq> ''published''"
    "r \<in> set (trows (st_versions s))" "is_version p v r"
  shows "v_Status r \<noteq> ''published''"
  using status_row [OF assms(1,2,4,5)] assms(3) by simp

lemma PublishVersion_effect:
  "snd (PublishVersion sha perm now t p v s) = s
   \<or> (\<exists>st m. getVersionStatus s p v = Inr st \<and> st \<noteq> ''published''
        \<and> st_versions (snd (PublishVersion sha perm now t p v s)) = snd (tbl_update (is_version p v)
         (\<lambda>v. v\<lparr>v_Status := ''published'', v_PublishedAt := format_time now, v_Artifact := m\<rparr>) (st_versions s)))"
proof (cases "GetVersion s p v")
  case (Inl e)
  then show ?thesis by (simp add: PublishVersion_def)
next
  case (Inr r)
  then have "getVersionStatus s p v = Inr (v_Status r)" by (simp add: getVersionStatus_def GetVersion_def)
  with Inr show ?thesis by (auto simp: PublishVersion_def split: sum.split)
qed

lemma SetVersionVCSProvenance_effect:
  "snd (SetVersionVCSProvenance url p v vcs s) = s
   \<or> st_versions (snd (SetVersionVCSProvenance url p v vcs s))
       = snd (tbl_update (\<lambda>r. is_version p v r \<and> v_Status r = ''draft'') (\<lambda>r. r\<lparr>v_VCS := trim_vcs vcs\<rparr>) (st_versions s))"
  by (auto simp: SetVersionVCSProvenance_def Let_def split: sum.split prod.split)

text \<open>Every step is an insertion, a deletion or an update of rows that are not published.\<close>

lemma ver_step_cases:
  assumes "ver_step s s'" "ver_ok s"
  obtains (ins) row n where "st_versions s' = snd (tbl_insert version_conflict (\<lambda>i r. set_v_ID i r) n row (st_versions s))"
  | (upd) P f where "st_versions s' = snd (tbl_update P f (st_versions s))"
      "\<And>v. v_ID (f v) = v_ID v \<and> v_ProjectID (f v) = v_ProjectID v \<and> v_Version (f v) = v_Version v"
      "\<And>r. r \<in> set (trows (st_versions s)) \<Longrightarrow> P r \<Longrightarrow> v_Status r \<noteq> ''published''"
  | (del) P where "st_versions s' = snd (tbl_delete P (st_versions s))"
proof -
  have none: thesis if "s' = s"
    by (rule del [of "\<lambda>_. False"]) (use that in \<open>simp add: tbl_delete_def\<close>)
  show thesis using assms(1)
  proof (cases rule: ver_step.cases)
    case (vs_create now t p pn v r)
    let ?row = "\<lparr>v_ID = 0, v_ProjectID = p, v_Version = v, v_Status = ''draft'',
                    v_CreatedAt = format_time now, v_PublishedAt = None, v_VCS = empty_vcs, v_Artifact = empty_artifact\<rparr>"
    have "s' = s \<or> st_versions s' = snd (tbl_insert version_conflict (\<lambda>i r. set_v_ID i r) ''versions'' ?row (st_versions s))"
      using vs_create by (auto simp: CreateVersion_def Let_def mkdir_all_def split: if_splits prod.splits sum.splits)
    then show thesis using none ins by blast
  next
    case (vs_submit p v r)
    then consider "s' = s" | st where "getVersionStatus s p v = Inr st" "st \<noteq> ''published''" "s' = set_status p v ''pending_review'' s"
      by (auto simp: SubmitVersionReview_def split: sum.splits if_splits)
    then show thesis
    proof cases
      case 2
      show thesis
      proof (rule upd)
        show "st_versions s' = snd (tbl_update (is_version p v) (\<lambda>v. v\<lparr>v_Status := ''pending_review''\<rparr>) (st_versions s))"
          unfolding 2(3) by (rule set_status_effect)
      qed (use unpublished_rows [OF assms(2) 2(1,2)] in simp_all)
    qed (rule none)
  next
    case (vs_reject p v r)
    then consider "s' = s" | st where "getVersionStatus s p v = Inr st" "st \<noteq> ''published''" "s' = set_status p v ''rejected'' s"
      by (auto simp: RejectVersionReview_def split: sum.splits if_splits)
    then show thesis
    proof cases
      case 2
      show thesis
      proof (rule upd)
        show "st_versions s' = snd (tbl_update (is_version p v) (\<lambda>v. v\<lparr>v_Status := ''rejected''\<rparr>) (st_versions s))"
          unfolding 2(3) by (rule set_status_effect)
      qed (use unpublished_rows [OF assms(2) 2(1,2)] in simp_all)
    qed (rule none)
  next
    case (vs_publish sha perm now t p v r)
    with PublishVersion_effect [of sha perm now t p v s]
    consider "s' = s" | st m where "getVersionStatus s p v = Inr st" "st \<noteq> ''published''"
      "st_versions s' = snd (tbl_update (is_version p v)
         (\<lambda>v. v\<lparr>v_Status := ''published'', v_PublishedAt := format_time now, v_Artifact := m\<rparr>) (st_versions s))"
      by auto
    then show thesis
    proof cases
      case 2
      show thesis by (rule upd [OF 2(3)]) (use unpublished_rows [OF assms(2) 2(1,2)] in simp_all)
    qed (rule none)
  next
    case (vs_vcs url p v vcs r)
    with SetVersionVCSProvenance_effect [of url p v vcs s]
    consider "s' = s" | "st_versions s' = snd (tbl_update (\<lambda>r. is_version p v r \<and> v_Status r = ''draft'')
        (\<lambda>r. r\<lparr>v_VCS := trim_vcs vcs\<rparr>) (st_versions s))"
      by auto
    then show thesis
    proof cases
      case 2
      show thesis by (rule upd [OF 2]) simp_all
    qed (rule none)
  next
    case (vs_delete sha t p pn v r)
    show thesis
    proof (cases r)
      case (Inl e)
      with vs_delete DeleteVersion_refused none show thesis by blast
    next
      case (Inr u)
      with vs_delete have "DeleteVersion sha t p pn v s = (Inr (), s')" by simp
      from DeleteVersion_effect [OF this] del show thesis by blast
    qed
  qed
qed

lemma ver_step_frozen:
  assumes "ver_step s s'" "ver_ok s"
  shows "ver_ok s' \<and> (frozen v s \<and> v_Status v = ''published'' \<longrightarrow> frozen v s')"
  using assms
proof (cases rule: ver_step_cases)
  case (ins row n)
  with assms(2) show ?thesis
    by (auto simp: ver_ok_def frozen_def intro: version_rows.ok_insert version_rows.uniq_insert)
      (auto simp: tbl_insert_def split: if_splits)
next
  case (upd P f)
  let ?s = "s\<lparr>st_versions := snd (tbl_update P f (st_versions s))\<rparr>"
  have "ver_ok ?s" by (rule ver_ok_update [OF assms(2)]) (use upd(2) in auto)
  moreover have "frozen v ?s" if "frozen v s" "v_Status v = ''published''"
    by (rule frozen_update [OF that]) (use upd(2,3) in auto)
  ultimately show ?thesis using ver_ok_cong [of s' ?s] frozen_cong [of s' ?s] upd(1) by simp
next
  case (del P)
  with assms(2) show ?thesis
    by (auto simp: ver_ok_def frozen_def version_rows.ok_delete version_rows.uniq_delete)
qed

text \<open>
  C30: publication is final: whatever operations on versions follow, in any order, a published version
  keeps its status, time of publication, provenance and artifact manifest for as long as it exists,
  and its id is never given to another version.
\<close>

theorem published_version_frozen:
  assumes "ver_step\<^sup>*\<^sup>* s s'" "ver_ok s" "v \<in> set (trows (st_versions s))" "v_Status v = ''published''"
  shows "\<forall>w\<in>set (trows (st_versions s')). v_ID w = v_ID v \<longrightarrow> w = v"
proof -
  have "frozen v s"
    using assms(2,3) version_rows.id_unique [of "st_versions s" _ v] by (auto simp: frozen_def ver_ok_def tbl_ok_def)
  with assms(1,2,4) have "ver_ok s' \<and> frozen v s'"
    by (induction rule: rtranclp_induct) (auto dest: ver_step_frozen)
  then show ?thesis by (simp add: frozen_def)
qed

definition sample_published :: store where
  "sample_published = sample_draft\<lparr>st_versions := \<lparr>trows = [sample_version\<lparr>v_Status := ''published''\<rparr>], tnext = 2\<rparr>\<rparr>"

lemma published_version_frozen_witness:
  "list_all (\<lambda>w. v_Status w = ''published'') (filter (\<lambda>w. v_ID w = 1)
     (trows (st_versions (snd (RejectVersionReview 1 ''1.0.0'' (snd (CreateVersion 5 7 1 ''game'' ''1.0.1'' sample_published)))))))"
proof -
  let ?s1 = "snd (CreateVersion 5 7 1 ''game'' ''1.0.1'' sample_published)"
  have "ver_step sample_published ?s1" by (rule vs_create) (rule prod.collapse [symmetric])
  moreover have "ver_step ?s1 (snd (RejectVersionReview 1 ''1.0.0'' ?s1))" by (rule vs_reject) (rule prod.collapse [symmetric])
  ultimately have run: "ver_step\<^sup>*\<^sup>* sample_published (snd (RejectVersionReview 1 ''1.0.0'' ?s1))" by simp
  have rows: "trows (st_versions sample_published) = [sample_version\<lparr>v_Status := ''published''\<rparr>]"
    by (simp add: sample_published_def)
  have ok: "ver_ok sample_published"
    by (simp add: ver_ok_def sample_published_def tbl_ok_def tbl_uniq_def sample_version_def)
  from published_version_frozen [OF run ok, of "sample_version\<lparr>v_Status := ''published''\<rparr>"] rows
  show ?thesis by (auto simp: list_all_iff sample_version_def)
qed

section \<open>Retention of published versions\<close>

lemma DeleteVersion_pinned:
  assumes "DeleteVersion sha t p pn v s = (Inl ErrVersionInDeployment, s')"
  shows "version_pinned s p v"
proof (rule ccontr)
  assume "\<not> version_pinned s p v"
  with assms show False by (auto simp: DeleteVersion_def Let_def split: if_splits prod.splits sum.splits)
qed

lemma prune_loop_effect:
  "prune_loop sha t p pn vs removed s = ((out, e), s') \<Longrightarrow>
   \<exists>del. out = removed @ del \<and> set del \<subseteq> v_Version ` set vs \<and> (\<forall>w\<in>set del. \<not> version_pinned s p w)
     \<and> trows (st_versions s') = filter (\<lambda>v. \<not> (v_ProjectID v = p \<and> v_Version v \<in> set del)) (trows (st_versions s))
     \<and> (e = None \<longrightarrow> (\<forall>v\<in>set vs. v_Version v \<in> set del \<or> version_pinned s p (v_Version v)))"
proof (induction vs arbitrary: removed s)
  case Nil
  then show ?case by simp
next
  case (Cons v vs)
  obtain r s1 where r: "DeleteVersion sha t p pn (v_Version v) s = (r, s1)" by fastforce
  show ?case
  proof (cases r)
    case (Inl err)
    have "s1 = s" using DeleteVersion_refused r Inl by blast
    show ?thesis
    proof (cases "err = ErrVersionInDeployment")
      case True
      have "prune_loop sha t p pn vs removed s = ((out, e), s')"
        using Cons.prems r Inl True \<open>s1 = s\<close> by simp
      from Cons.IH [OF this] DeleteVersion_pinned r Inl True show ?thesis by fastforce
    next
      case False
      with Cons.prems r Inl \<open>s1 = s\<close> have "out = removed" "e = Some err" "s' = s" by auto
      then show ?thesis by simp
    qed
  next
    case (Inr u)
    then have "DeleteVersion sha t p pn (v_Version v) s = (Inr (), s1)" using r by simp
    note eff = DeleteVersion_effect [OF this]
    have "prune_loop sha t p pn vs (removed @ [v_Version v]) s1 = ((out, e), s')"
      using Cons.prems r Inr by simp
    from Cons.IH [OF this] obtain del where del: "out = (removed @ [v_Version v]) @ del" "set del \<subseteq> v_Version ` set vs"
      "\<forall>w\<in>set del. \<not> version_pinned s1 p w"
      "trows (st_versions s') = filter (\<lambda>v. \<not> (v_ProjectID v = p \<and> v_Version v \<in> set del)) (trows (st_versions s1))"
      "e = None \<longrightarrow> (\<forall>v\<in>set vs. v_Version v \<in> set del \<or> version_pinned s1 p (v_Version v))" by blast
    have pin: "version_pinned s1 = version_pinned s" using eff by (simp add: version_pinned_def fun_eq_iff)
    have "trows (st_versions s') = filter (\<lambda>w. \<not> (v_ProjectID w = p \<and> v_Version w \<in> set (v_Version v # del))) (trows (st_versions s))"
      unfolding del(4) eff [THEN conjunct2, THEN conjunct2, THEN conjunct1] trows_tbl_delete
      by (simp add: filter_filter is_version_def) (rule filter_cong [OF refl], blast)
    with del eff pin show ?thesis by (intro exI [of _ "v_Version v # del"]) auto
  qed
qed

lemma published_distinct: "ver_ok s \<Longrightarrow> distinct (ListPublishedVersions s p)"
  using version_rows.ids_distinct [of "st_versions s"]
  by (simp add: ListPublishedVersions_def ver_ok_def tbl_select_def distinct_map)

text \<open>
  C31: pruning to a retention of \<open>n > 0\<close> removes exactly the versions it reports, and reports only
  published versions of that project that are older than the newest \<open>n\<close> and that no queued or running
  deployment uses; when it ends without an error, whatever is left beyond the newest \<open>n\<close> is in use.
\<close>

theorem prune_keeps_newest:
  assumes "ver_ok s" "0 < n" "PrunePublishedVersions sha t p pn n s = ((removed, e), s')"
  shows "trows (st_versions s') = filter (\<lambda>v. \<not> (v_ProjectID v = p \<and> v_Version v \<in> set removed)) (trows (st_versions s))
    \<and> (\<forall>v\<in>set (trows (st_versions s)). v_ProjectID v = p \<and> v_Version v \<in> set removed \<longrightarrow>
         v_Status v = ''published'' \<and> v \<notin> set (take (nat n) (ListPublishedVersions s p)) \<and> \<not> version_pinned s p (v_Version v))
    \<and> (e = None \<longrightarrow> (\<forall>v\<in>set (drop (nat n) (ListPublishedVersions s p)).
         v_Version v \<in> set removed \<or> version_pinned s p (v_Version v)))"
proof -
  let ?vs = "ListPublishedVersions s p"
  have rows: "w \<in> set (trows (st_versions s)) \<and> v_ProjectID w = p \<and> v_Status w = ''published''" if "w \<in> set ?vs" for w
    using that by (simp add: ListPublishedVersions_def)
  have loop: "prune_loop sha t p pn (drop (nat n) ?vs) [] s = ((removed, e), s')"
    using assms(2,3) by (auto simp: PrunePublishedVersions_def Let_def split: if_splits)
  from prune_loop_effect [OF this] have
    sub: "set removed \<subseteq> v_Version ` set (drop (nat n) ?vs)" and
    pin: "\<forall>w\<in>set removed. \<not> version_pinned s p w" and
    eff: "trows (st_versions s') = filter (\<lambda>v. \<not> (v_ProjectID v = p \<and> v_Version v \<in> set removed)) (trows (st_versions s))" and
    fin: "e = None \<longrightarrow> (\<forall>v\<in>set (drop (nat n) ?vs). v_Version v \<in> set removed \<or> version_pinned s p (v_Version v))"
    by auto
  have "v_Status v = ''published'' \<and> v \<notin> set (take (nat n) ?vs) \<and> \<not> version_pinned s p (v_Version v)"
    if v: "v \<in> set (trows (st_versions s))" "v_ProjectID v = p" "v_Version v \<in> set removed" for v
  proof -
    from sub v(3) obtain w where w: "w \<in> set (drop (nat n) ?vs)" "v_Version w = v_Version v" by fastforce
    note wr = rows [OF in_set_dropD [OF w(1)]]
    have "w = v" using version_rows.uniq_rows [of "st_versions s" w v "(p, v_Version v)"] assms(1) wr w(2) v
      by (simp add: ver_ok_def)
    moreover have "set (take (nat n) ?vs) \<inter> set (drop (nat n) ?vs) = {}"
      by (rule set_take_disj_set_drop_if_distinct [OF published_distinct [OF assms(1)]]) simp
    ultimately show ?thesis using w(1) wr pin v(3) by blast
  qed
  with eff fin show ?thesis by blast
qed

definition sample_three :: store where
  "sample_three = sample_draft\<lparr>st_versions := \<lparr>trows =
     [sample_version\<lparr>v_Status := ''published'', v_PublishedAt := Some 10\<rparr>,
      sample_version\<lparr>v_ID := 2, v_Version := ''1.0.1'', v_Status := ''published'', v_PublishedAt := Some 20\<rparr>,
      sample_version\<lparr>v_ID := 3, v_Version := ''1.0.2'', v_Status := ''published'', v_PublishedAt := Some 30\<rparr>], tnext = 4\<rparr>\<rparr>"

lemma prune_keeps_newest_witness:
  "let s' = snd (PrunePublishedVersions sample_sha 7 1 ''game'' 2 sample_three) in
   map v_Version (trows (st_versions s')) = [''1.0.1'', ''1.0.2'']
   \<and> (\<exists>removed e. trows (st_versions s') = filter (\<lambda>v. \<not> (v_ProjectID v = 1 \<and> v_Version v \<in> set removed)) (trows (st_versions sample_three))
        \<and> (e = (None :: go_error option) \<longrightarrow> (\<forall>v\<in>set (drop 2 (ListPublishedVersions sample_three 1)).
             v_Version v \<in> set removed \<or> version_pinned sample_three 1 (v_Version v))))"
proof -
  have ok: "ver_ok sample_three"
    by (simp add: ver_ok_def sample_three_def tbl_ok_def tbl_uniq_def sample_version_def)
  let ?r = "PrunePublishedVersions sample_sha 7 1 ''game'' 2 sample_three"
  have "?r = ((fst (fst ?r), snd (fst ?r)), snd ?r)" by simp
  note kept = prune_keeps_newest [OF ok _ this]
  have "map v_Version (trows (st_versions (snd ?r))) = [''1.0.1'', ''1.0.2'']" by code_simp
  with kept show ?thesis unfolding Let_def by fastforce
qed

end
