(* ===== verification/Bundle.thy ===== *)
theory Bundle
  imports Projects HookSpec
begin

text \<open>
  The bundle a server pulls (\<open>internal/pull/bundle.go\<close>): the files of a version whose tags match the
  target, with the overrides of the server entry applied, behind a manifest; and its extraction at the
  client.  A bundle is the list of its tar entries.  The codecs (YAML, JSON, the hook declaration) are
  the argument \<open>bundle_env\<close>, the permission bits on disk the argument \<open>perm\<close>.
\<close>

record bundle_options =
  bo_OS :: string
  bo_Arch :: string
  bo_Tags :: "string list"

record manifest =
  mf_Project :: string
  mf_Version :: string
  mf_ServerID :: string
  mf_OS :: string
  mf_Arch :: string
  mf_Tags :: "string list"
  mf_PostHook :: string
  mf_PostHookEnv :: "(string \<times> string) list"
  mf_PostHookSpec :: string
  mf_PostHookPlan :: "string list"

record bundle_env =
  be_formats :: formats
  be_steps :: "string \<Rightarrow> step list res"
  be_goos :: string
  be_manifest_out :: "manifest \<Rightarrow> string"
  be_manifest_in :: "string \<Rightarrow> manifest res"

definition manifest_path :: string where
  "manifest_path = ''.express233/manifest.json''"

definition DefaultPath :: string where
  "DefaultPath = ''.express233/post-hook.yaml''"

section \<open>Building\<close>

definition copyDir :: "(string \<Rightarrow> bool) option \<Rightarrow> file_tree \<Rightarrow> file_tree" where
  "copyDir flt files = (case flt of None \<Rightarrow> files | Some f \<Rightarrow> filter (\<lambda>(rel, _). f rel) files)"

definition writeTarEntry :: "string \<Rightarrow> string \<Rightarrow> int \<Rightarrow> archive_entry" where
  "writeTarEntry name data mode = \<lparr>ae_Name = name, ae_Type = TypeReg, ae_Data = data, ae_Mode = mode AND 511\<rparr>"

definition file_mode :: "(string \<times> int) list \<Rightarrow> (string \<Rightarrow> int) \<Rightarrow> string \<Rightarrow> int" where
  "file_mode modes perm rel = (case map_of modes rel of Some m \<Rightarrow> m | None \<Rightarrow> perm rel AND 511)"

definition bundle_manifest ::
  "bundle_env \<Rightarrow> server_entry \<Rightarrow> string \<Rightarrow> string \<Rightarrow> string \<Rightarrow> bundle_options \<Rightarrow> file_tree \<Rightarrow> manifest" where
  "bundle_manifest env entry projectName version serverID opts tmp =
     (let hookVars = HookTemplateVars projectName version serverID (se_PostHookEnv entry);
          spec = map_of tmp DefaultPath
      in \<lparr>mf_Project = projectName, mf_Version = version, mf_ServerID = serverID,
          mf_OS = bo_OS opts, mf_Arch = bo_Arch opts, mf_Tags = Target (bo_OS opts) (bo_Arch opts) (bo_Tags opts),
          mf_PostHook = RenderHookTemplate (se_PostHook entry) hookVars,
          mf_PostHookEnv = se_PostHookEnv entry,
          mf_PostHookSpec = (if spec = None then [] else DefaultPath),
          mf_PostHookPlan =
            (case spec of
               None \<Rightarrow> []
             | Some data \<Rightarrow>
                 (case be_steps env data of
                    Inl _ \<Rightarrow> []
                  | Inr steps \<Rightarrow> (case PlanLines (be_goos env) steps of Inl _ \<Rightarrow> [] | Inr plan \<Rightarrow> plan)))\<rparr>)"

definition apply_entry :: "bundle_env \<Rightarrow> server_entry \<Rightarrow> file_tree \<Rightarrow> file_tree res" where
  "apply_entry env entry tmp =
     (if se_Replacements entry = [] then Inr tmp
      else case PrepareReplacements (se_Replacements entry) of
        Inl e \<Rightarrow> Inl e
      | Inr rep \<Rightarrow> ApplyByBasename (be_formats env) tmp rep)"

definition buildBundleFromVersionDir ::
  "bundle_env \<Rightarrow> (string \<Rightarrow> int) \<Rightarrow> file_tree \<Rightarrow> server_file \<Rightarrow> string \<Rightarrow> string \<Rightarrow> string \<Rightarrow> bundle_options
     \<Rightarrow> (string \<Rightarrow> bool) option \<Rightarrow> (string \<times> int) list \<Rightarrow> archive_entry list res" where
  "buildBundleFromVersionDir env perm vfiles sf projectName version serverID opts flt modes =
     (case Entry sf serverID of
        None \<Rightarrow> Inl (ErrMsg ''unknown server_id in server.yaml'')
      | Some entry \<Rightarrow>
          (case apply_entry env entry (copyDir flt vfiles) of
             Inl e \<Rightarrow> Inl e
           | Inr tmp \<Rightarrow>
               Inr (writeTarEntry manifest_path
                      (be_manifest_out env (bundle_manifest env entry projectName version serverID opts tmp)) 420
                    # map (\<lambda>(rel, data). writeTarEntry rel data (file_mode modes perm rel)) tmp)))"

definition tag_filter :: "(string \<times> string list) list \<Rightarrow> bundle_options \<Rightarrow> string \<Rightarrow> bool" where
  "tag_filter tagRows opts rel =
     Matches (case map_of tagRows rel of Some ts \<Rightarrow> ts | None \<Rightarrow> []) (Target (bo_OS opts) (bo_Arch opts) (bo_Tags opts))"

definition BuildBundleWithOptions ::
  "bundle_env \<Rightarrow> (string \<Rightarrow> int) \<Rightarrow> store \<Rightarrow> int \<Rightarrow> server_file \<Rightarrow> string \<Rightarrow> string \<Rightarrow> string \<Rightarrow> bundle_options
     \<Rightarrow> archive_entry list res" where
  "BuildBundleWithOptions env perm s tenantID sf projectName version serverID opts =
     (case VersionDir s tenantID projectName version of
        Inl e \<Rightarrow> Inl e
      | Inr vdir \<Rightarrow>
          if \<not> dir_exists s vdir then Inl (ErrMsg ''version files'')
          else case ListVersionFileTags s tenantID projectName version of
            Inl e \<Rightarrow> Inl e
          | Inr tagRows \<Rightarrow>
              buildBundleFromVersionDir env perm (walk_files s vdir) sf projectName version serverID opts
                (Some (tag_filter tagRows opts)) (ListVersionFileModes s tenantID projectName version))"

definition BuildBundle ::
  "bundle_env \<Rightarrow> (string \<Rightarrow> int) \<Rightarrow> store \<Rightarrow> int \<Rightarrow> server_file \<Rightarrow> string \<Rightarrow> string \<Rightarrow> string \<Rightarrow> archive_entry list res" where
  "BuildBundle env perm s tenantID sf projectName version serverID =
     BuildBundleWithOptions env perm s tenantID sf projectName version serverID \<lparr>bo_OS = [], bo_Arch = [], bo_Tags = []\<rparr>"

definition BuildBundleFromDir ::
  "bundle_env \<Rightarrow> (string \<Rightarrow> int) \<Rightarrow> file_tree option \<Rightarrow> server_file \<Rightarrow> string \<Rightarrow> string \<Rightarrow> string \<Rightarrow> archive_entry list res" where
  "BuildBundleFromDir env perm versionRoot sf projectName version serverID =
     (case versionRoot of
        None \<Rightarrow> Inl (ErrMsg ''version files'')
      | Some files \<Rightarrow> buildBundleFromVersionDir env perm files sf projectName version serverID
          \<lparr>bo_OS = [], bo_Arch = [], bo_Tags = []\<rparr> None [])"

section \<open>Extraction\<close>

text \<open>
  The files of the client: absolute clean path, content and the mode the file was created with.  The
  destination is an existing directory.
\<close>

type_synonym client_fs = "(string \<times> (string \<times> int)) list"

definition bundle_mode :: "int \<Rightarrow> int" where
  "bundle_mode m = (let mode = m AND 511 AND NOT 18 in if mode = 0 then 420 else mode)"

text \<open>A directory cannot be opened for writing, and no directory can be made below a file.\<close>

definition blocked :: "client_fs \<Rightarrow> string \<Rightarrow> string \<Rightarrow> bool" where
  "blocked fs dest target =
     (target = path_clean dest
      \<or> list_ex (\<lambda>(f, _). has_prefix f (target @ ''/'') \<or> has_prefix target (f @ ''/'')) fs)"

definition write_client :: "string \<Rightarrow> string \<Rightarrow> int \<Rightarrow> client_fs \<Rightarrow> client_fs" where
  "write_client target data mode fs =
     al_put target (data, case map_of fs target of Some (_, m) \<Rightarrow> m | None \<Rightarrow> mode) fs"

fun extract_entries ::
  "(string \<Rightarrow> manifest res) \<Rightarrow> string \<Rightarrow> archive_entry list \<Rightarrow> manifest option \<Rightarrow> client_fs \<Rightarrow> manifest res \<times> client_fs"
where
  "extract_entries dec dest [] m fs =
     (case m of None \<Rightarrow> (Inl (ErrMsg ''missing manifest in bundle''), fs) | Some mf \<Rightarrow> (Inr mf, fs))"
| "extract_entries dec dest (h # hs) m fs =
     (if ae_Type h = TypeDir then extract_entries dec dest hs m fs
      else let name = path_clean (ae_Name h); target = path_join dest name
        in case safeExtractPath dest name of
             Inl e \<Rightarrow> (Inl e, fs)
           | Inr _ \<Rightarrow>
               if ae_Name h = manifest_path
               then (case dec (ae_Data h) of
                       Inl e \<Rightarrow> (Inl e, fs)
                     | Inr mf \<Rightarrow> extract_entries dec dest hs (Some mf) fs)
               else if blocked fs dest target then (Inl (ErrMsg ''open''), fs)
               else extract_entries dec dest hs m (write_client target (ae_Data h) (bundle_mode (ae_Mode h)) fs))"

definition ExtractBundle ::
  "(string \<Rightarrow> manifest res) \<Rightarrow> string \<Rightarrow> archive_entry list \<Rightarrow> client_fs \<Rightarrow> manifest res \<times> client_fs" where
  "ExtractBundle dec dest entries fs = extract_entries dec dest entries None fs"

section \<open>Containment\<close>

lemma extract_entries_frame:
  assumes "is_abs dest" "\<And>cs. p = render True (path_comps dest @ cs) \<Longrightarrow> ''..'' \<in> set cs \<or> cs = []"
  shows "map_of (snd (extract_entries dec dest es m fs)) p = map_of fs p"
proof (induction es arbitrary: m fs)
  case Nil
  then show ?case by (simp split: option.split)
next
  case (Cons h hs)
  let ?name = "path_clean (ae_Name h)" and ?target = "path_join dest (path_clean (ae_Name h))"
  have "p \<noteq> ?target" if "safeExtractPath dest ?name = Inr ()" "\<not> blocked fs dest ?target"
  proof
    assume p: "p = ?target"
    from safeExtractPath_below [OF that(1) assms(1)] obtain cs where
      cs: "path_comps ?target = path_comps dest @ cs" "''..'' \<notin> set cs" by blast
    have ne: "dest \<noteq> []" using assms(1) by auto
    have abs: "is_abs ?target" using ne by (simp add: path_join_def is_abs_append assms(1))
    have r: "?target = render True (path_comps dest @ cs)"
      using path_join_clean [OF ne, of ?name] abs cs(1) by (simp add: path_clean_def [of "path_join _ _"])
    with assms(2) [of cs] p cs(2) have "cs = []" by blast
    with r have "?target = path_clean dest" by (simp add: path_clean_def [of dest] assms(1))
    with that(2) show False by (simp add: blocked_def)
  qed
  then show ?case using Cons by (auto simp: Let_def write_client_def split: sum.splits)
qed

section \<open>Round trip\<close>

text \<open>Names of files in one directory tree: relative, clean, and no file is a directory of another.\<close>

definition tree_names :: "string list \<Rightarrow> bool" where
  "tree_names ns =
     (distinct ns \<and> (\<forall>n\<in>set ns. path_clean n = n \<and> \<not> entry_escapes n \<and> n \<noteq> ''.'')
      \<and> (\<forall>n\<in>set ns. \<forall>m\<in>set ns. \<not> has_prefix m (n @ ''/'')))"

lemma plain_join:
  assumes "is_abs dest" "path_comps dest \<noteq> []" "path_clean n = n" "\<not> entry_escapes n" "n \<noteq> ''.''"
  shows "path_join dest n = path_clean dest @ ''/'' @ n"
proof -
  have nn: "''..'' \<notin> set (raw_comps n) \<and> raw_comps n = path_comps n"
    using relative_no_up [of n] unfolding assms(3) using assms(4) by blast
  note n = nn [THEN conjunct1] nn [THEN conjunct2]
  have rel: "\<not> is_abs n" using assms(4) by (simp add: entry_escapes_def)
  have "n = render False (path_comps n)" using assms(3) rel by (simp add: path_clean_def)
  with assms(5) have ne: "path_comps n \<noteq> []" and nj: "n = join_with ''/'' (raw_comps n)"
    unfolding n(2) render_def by (auto split: if_splits)
  have "path_join dest n = render True (path_comps dest @ raw_comps n)"
    by (rule path_join_plain [OF assms(1) n(1)])
  also have "\<dots> = render True (path_comps dest) @ ''/'' @ join_with ''/'' (raw_comps n)"
    by (rule render_append [OF assms(2)]) (simp add: n(2) ne)
  finally show ?thesis using nj by (simp add: path_clean_def assms(1))
qed

lemma plain_extract:
  assumes "is_abs dest" "path_comps dest \<noteq> []" "path_clean n = n" "\<not> entry_escapes n" "n \<noteq> ''.''"
  shows "safeExtractPath dest n = Inr () \<and> path_join dest n \<noteq> path_clean dest"
proof -
  note j = plain_join [OF assms]
  have ne: "dest \<noteq> []" using assms(1) by auto
  have "path_clean (path_join dest n) = path_join dest n" by (rule path_join_clean [OF ne])
  then show ?thesis by (auto simp: safeExtractPath_def Let_def j has_prefix_iff)
qed

text \<open>What the client holds after extracting a tree into an empty directory.\<close>

definition placed :: "string \<Rightarrow> (string \<Rightarrow> int) \<Rightarrow> file_tree \<Rightarrow> client_fs" where
  "placed dest mode tree = map (\<lambda>(rel, data). (path_clean dest @ ''/'' @ rel, (data, bundle_mode (mode rel AND 511)))) tree"

lemma extract_tree:
  assumes "is_abs dest" "path_comps dest \<noteq> []"
  shows "tree_names (map fst (done' @ tree)) \<Longrightarrow> manifest_path \<notin> fst ` set tree \<Longrightarrow>
    extract_entries dec dest (map (\<lambda>(rel, data). writeTarEntry rel data (mode rel)) tree) (Some mf) (placed dest mode done')
    = (Inr mf, placed dest mode (done' @ tree))"
proof (induction tree arbitrary: done')
  case Nil
  then show ?case by simp
next
  case (Cons g tree)
  obtain rel data where g: "g = (rel, data)" by fastforce
  have all: "\<forall>n\<in>set (map fst (done' @ g # tree)). \<forall>m\<in>set (map fst (done' @ g # tree)). \<not> has_prefix m (n @ ''/'')"
    using Cons.prems(1) unfolding tree_names_def by blast
  have n: "path_clean rel = rel" "\<not> entry_escapes rel" "rel \<noteq> ''.''" and new: "rel \<notin> fst ` set done'"
    using Cons.prems(1) g by (auto simp: tree_names_def)
  have apart: "\<And>a b. (a, b) \<in> set done' \<Longrightarrow> \<not> has_prefix a (rel @ ''/'') \<and> \<not> has_prefix rel (a @ ''/'')"
  proof -
    fix a b assume "(a, b) \<in> set done'"
    then have "a \<in> set (map fst (done' @ g # tree))" by force
    moreover have "rel \<in> set (map fst (done' @ g # tree))" using g by simp
    ultimately show "\<not> has_prefix a (rel @ ''/'') \<and> \<not> has_prefix rel (a @ ''/'')" using all by blast
  qed
  note j = plain_join [OF assms n] and safe = plain_extract [OF assms n]
  have pre: "has_prefix (path_clean dest @ ''/'' @ a) ((path_clean dest @ ''/'' @ b) @ ''/'') \<longleftrightarrow> has_prefix a (b @ ''/'')" for a b
    by (auto simp: has_prefix_iff)
  have nb: "\<not> blocked (placed dest mode done') dest (path_join dest rel)"
    unfolding blocked_def j list_ex_iff placed_def
    using safe j by (auto simp: pre simp del: append_assoc append_Cons dest: apart)
  have none: "map_of (placed dest mode done') (path_clean dest @ ''/'' @ rel) = None"
    using new by (force simp: map_of_eq_None_iff placed_def)
  have "write_client (path_join dest rel) data (bundle_mode (mode rel AND 511)) (placed dest mode done')
      = placed dest mode (done' @ [(rel, data)])"
    unfolding write_client_def j none option.case al_put_new [OF none] by (simp add: placed_def)
  moreover have notm: "rel \<noteq> manifest_path" using Cons.prems(2) g by auto
  ultimately have "extract_entries dec dest (map (\<lambda>(rel, data). writeTarEntry rel data (mode rel)) (g # tree)) (Some mf) (placed dest mode done')
     = extract_entries dec dest (map (\<lambda>(rel, data). writeTarEntry rel data (mode rel)) tree) (Some mf) (placed dest mode (done' @ [(rel, data)]))"
    using notm g n safe nb by (simp add: writeTarEntry_def Let_def)
  also have "\<dots> = (Inr mf, placed dest mode ((done' @ [(rel, data)]) @ tree))"
    using Cons.prems g by (intro Cons.IH) auto
  finally show ?case using g by simp
qed

section \<open>Overrides keep the names\<close>

lemma apply_paths_names: "apply_paths fm base kv rels files = Inr files' \<Longrightarrow> map fst files' = map fst files"
proof (induction rels arbitrary: files)
  case (Cons r rels)
  then obtain data out where d: "map_of files r = Some data" "apply_paths fm base kv rels (al_put r out files) = Inr files'"
    by (auto split: option.splits sum.splits)
  have "r \<in> fst ` set files" using d(1) by (force dest: map_of_SomeD)
  with Cons.IH [OF d(2)] show ?case by (simp add: map_keys_al_put)
qed simp

lemma apply_overrides_names: "apply_overrides fm ms rs files = Inr files' \<Longrightarrow> map fst files' = map fst files"
proof (induction fm ms rs files rule: apply_overrides.induct)
  case (2 fm ms base kv rest files)
  then show ?case by (auto split: if_splits sum.splits dest: apply_paths_names)
qed simp

lemma apply_entry_names: "apply_entry env entry tmp = Inr tmp' \<Longrightarrow> map fst tmp' = map fst tmp"
  by (auto simp: apply_entry_def ApplyByBasename_def split: if_splits sum.splits dest: apply_overrides_names)

section \<open>Properties\<close>




definition sample_entry :: server_entry where
  "sample_entry = \<lparr>se_Replacements = [(''a.properties'', [(''port'', VInt 9)])], se_PostHook = ''run.sh'', se_PostHookEnv = []\<rparr>"

definition sample_manifest :: manifest where
  "sample_manifest = \<lparr>mf_Project = ''game'', mf_Version = ''1.0.0'', mf_ServerID = ''s1'', mf_OS = ''linux'', mf_Arch = [],
     mf_Tags = [''linux''], mf_PostHook = ''run.sh'', mf_PostHookEnv = [], mf_PostHookSpec = [], mf_PostHookPlan = []\<rparr>"

definition sample_env :: bundle_env where
  "sample_env = \<lparr>be_formats = \<lparr>yaml_in = (\<lambda>_. Inl ErrNotExist), yaml_out = (\<lambda>_. Inl ErrNotExist),
       json_in = (\<lambda>_. Inl ErrNotExist), json_out = (\<lambda>_. Inl ErrNotExist)\<rparr>,
     be_steps = (\<lambda>_. Inr []), be_goos = ''linux'', be_manifest_out = (\<lambda>_. ''m''), be_manifest_in = (\<lambda>_. Inr sample_manifest)\<rparr>"

definition bundle_tree :: file_tree where
  "bundle_tree = [(''a.properties'', ''port=1''), (''bin/win.exe'', ''MZ'')]"

abbreviation sample_filter :: "string \<Rightarrow> bool" where
  "sample_filter \<equiv> tag_filter [(''a.properties'', [''*'']), (''bin/win.exe'', [''windows''])] \<lparr>bo_OS = ''linux'', bo_Arch = [], bo_Tags = []\<rparr>"


lemma listed_tags:
  assumes "ListVersionFileTags s t p v = Inr rows" "VersionDir s t p v = Inr vdir"
  shows "\<exists>f. rows = map (\<lambda>p. (p, f p)) (map fst (walk_files s vdir))"
proof -
  have "\<exists>M. rows = map (\<lambda>p. (p, case map_of M p of Some (t # ts) \<Rightarrow> t # ts | _ \<Rightarrow> [AllTag])) (map fst (walk_files s vdir))"
    using assms by (simp add: ListVersionFileTags_def ListVersionFiles_def Let_def del: map_map) blast
  then obtain M where "rows = map (\<lambda>p. (p, case map_of M p of Some (t # ts) \<Rightarrow> t # ts | _ \<Rightarrow> [AllTag])) (map fst (walk_files s vdir))" ..
  then show ?thesis by (rule exI [of _ "\<lambda>p. case map_of M p of Some (t # ts) \<Rightarrow> t # ts | _ \<Rightarrow> [AllTag]"])
qed

text \<open>
  A bundle carries a file if and only if the tags of the file match the operating system,
  architecture and tags of the server that pulls it: for every file of the version and its tags as
  listed, and for no other file.
\<close>

theorem bundle_files_match_tags:
  assumes "BuildBundleWithOptions env perm s t sf projectName version serverID opts = Inr entries"
    and "VersionDir s t projectName version = Inr vdir"
    and "ListVersionFileTags s t projectName version = Inr rows"
  shows "map ae_Name entries = manifest_path # filter
      (\<lambda>rel. \<exists>ts. (rel, ts) \<in> set rows \<and> Matches ts (Target (bo_OS opts) (bo_Arch opts) (bo_Tags opts)))
      (map fst (walk_files s vdir))"
proof -
  let ?target = "Target (bo_OS opts) (bo_Arch opts) (bo_Tags opts)"
  obtain entry tmp where build: "apply_entry env entry (copyDir (Some (tag_filter rows opts)) (walk_files s vdir)) = Inr tmp"
    and names: "map ae_Name entries = manifest_path # map fst tmp"
    using assms by (auto simp: BuildBundleWithOptions_def buildBundleFromVersionDir_def writeTarEntry_def o_def case_prod_unfold
        split: if_splits option.splits sum.splits)
  have "tag_filter rows opts rel \<longleftrightarrow> (\<exists>ts. (rel, ts) \<in> set rows \<and> Matches ts ?target)"
    if "rel \<in> fst ` set (walk_files s vdir)" for rel
  proof -
    obtain f where rows: "rows = map (\<lambda>p. (p, f p)) (map fst (walk_files s vdir))"
      using listed_tags [OF assms(3,2)] by blast
    have "(rel, ts) \<in> set rows \<longleftrightarrow> ts = f rel" for ts using that by (auto simp: rows)
    moreover have "map_of rows rel = Some (f rel)"
    proof -
      have "map_of (map (\<lambda>p. (p, f p)) ps) rel = Some (f rel)" if "rel \<in> set ps" for ps
        using that by (induction ps) auto
      with that show ?thesis unfolding rows by (simp del: map_map)
    qed
    ultimately show ?thesis by (simp add: tag_filter_def)
  qed
  then have "filter (tag_filter rows opts) (map fst (walk_files s vdir))
      = filter (\<lambda>rel. \<exists>ts. (rel, ts) \<in> set rows \<and> Matches ts ?target) (map fst (walk_files s vdir))"
    by (intro filter_cong) auto
  moreover have "map fst tmp = filter (tag_filter rows opts) (map fst (walk_files s vdir))"
    unfolding apply_entry_names [OF build] by (simp add: copyDir_def filter_map o_def case_prod_unfold)
  ultimately show ?thesis using names by simp
qed

definition sample_tagged :: store where
  "sample_tagged = sample_draft\<lparr>st_files := [(''/d/userdata/acme/projects/game/1.0.0/a.txt'', ''A''),
       (''/d/userdata/acme/projects/game/1.0.0/w.exe'', ''MZ'')],
     st_fileTags := [\<lparr>ft_TenantID = 7, ft_ProjectName = ''game'', ft_Version = ''1.0.0'', ft_Path = ''w.exe'',
       ft_Tags = ''windows'', ft_UpdatedAt = None\<rparr>]\<rparr>"

lemma bundle_files_match_tags_witness:
  "\<exists>entries. BuildBundleWithOptions sample_env (\<lambda>_. 420) sample_tagged 7
       [(''s1'', sample_entry\<lparr>se_Replacements := []\<rparr>)] ''game'' ''1.0.0'' ''s1'' \<lparr>bo_OS = ''linux'', bo_Arch = [], bo_Tags = []\<rparr> = Inr entries
     \<and> map ae_Name entries = [manifest_path, ''a.txt'']"
proof -
  let ?b = "BuildBundleWithOptions sample_env (\<lambda>_. 420) sample_tagged 7
       [(''s1'', sample_entry\<lparr>se_Replacements := []\<rparr>)] ''game'' ''1.0.0'' ''s1'' \<lparr>bo_OS = ''linux'', bo_Arch = [], bo_Tags = []\<rparr>"
  let ?rows = "[(''a.txt'', [''*'']), (''w.exe'', [''windows''])]"
  have "is_ok ?b" by code_simp
  then obtain es where es: "?b = Inr es" by (auto simp: is_ok_iff)
  have "(case VersionDir sample_tagged 7 ''game'' ''1.0.0'' of Inr d \<Rightarrow> d = ''/d/userdata/acme/projects/game/1.0.0'' | _ \<Rightarrow> False)"
    by code_simp
  then have dir: "VersionDir sample_tagged 7 ''game'' ''1.0.0'' = Inr ''/d/userdata/acme/projects/game/1.0.0''"
    by (simp split: sum.splits)
  have "(case ListVersionFileTags sample_tagged 7 ''game'' ''1.0.0'' of Inr r \<Rightarrow> r = ?rows | _ \<Rightarrow> False)" by code_simp
  then have rows: "ListVersionFileTags sample_tagged 7 ''game'' ''1.0.0'' = Inr ?rows" by (simp split: sum.splits)
  have files: "map fst (walk_files sample_tagged ''/d/userdata/acme/projects/game/1.0.0'') = [''a.txt'', ''w.exe'']" by code_simp
  have "Matches [''*''] (Target ''linux'' [] [])" "\<not> Matches [''windows''] (Target ''linux'' [] [])" by code_simp+
  with bundle_files_match_tags [OF es dir rows] files es show ?thesis by simp
qed

end
