(* ===== verification/Compare.thy ===== *)
theory Compare
  imports Overrides
begin

text \<open>
  The comparison of two versions as one server sees them (\<open>internal/compare/diff.go\<close>): both trees are
  rendered with the overrides of the server entry and compared key by key and file by file.  A version
  tree is the list of its files in the order of \<open>filepath.WalkDir\<close>; the YAML and JSON codecs are the
  argument \<open>formats\<close>.
\<close>

section \<open>Rendering\<close>

definition byte :: "char \<Rightarrow> nat" where
  "byte c = of_char c"

definition cont_byte :: "char \<Rightarrow> bool" where
  "cont_byte c = (128 \<le> byte c \<and> byte c < 192)"

text \<open>\<open>utf8.Valid\<close>\<close>

fun utf8_valid :: "string \<Rightarrow> bool" where
  "utf8_valid [] = True"
| "utf8_valid (a # s) =
     (if byte a < 128 then utf8_valid s
      else if 194 \<le> byte a \<and> byte a \<le> 223
      then (case s of b # t \<Rightarrow> cont_byte b \<and> utf8_valid t | _ \<Rightarrow> False)
      else if 224 \<le> byte a \<and> byte a \<le> 239
      then (case s of b # c # t \<Rightarrow> cont_byte b \<and> cont_byte c \<and> (byte a = 224 \<longrightarrow> 160 \<le> byte b)
                \<and> (byte a = 237 \<longrightarrow> byte b < 160) \<and> utf8_valid t | _ \<Rightarrow> False)
      else if 240 \<le> byte a \<and> byte a \<le> 244
      then (case s of b # c # d # t \<Rightarrow> cont_byte b \<and> cont_byte c \<and> cont_byte d \<and> (byte a = 240 \<longrightarrow> 144 \<le> byte b)
                \<and> (byte a = 244 \<longrightarrow> byte b < 144) \<and> utf8_valid t | _ \<Rightarrow> False)
      else False)"

definition displayContent :: "string \<Rightarrow> string" where
  "displayContent data =
     (if utf8_valid data then data else ''[binary file, '' @ show_nat (length data) @ '' bytes]'')"

definition entry_replacements :: "server_entry option \<Rightarrow> (string \<times> gmap) list res" where
  "entry_replacements entry = (case entry of None \<Rightarrow> Inr [] | Some e \<Rightarrow> PrepareReplacements (se_Replacements e))"

definition tree_for :: "(string \<times> gmap) list \<Rightarrow> string \<Rightarrow> gmap" where
  "tree_for replacements base = (case map_of replacements base of None \<Rightarrow> [] | Some t \<Rightarrow> t)"

text \<open>A file whose overrides do not merge is shown as it is.\<close>

definition render_file :: "formats \<Rightarrow> (string \<times> gmap) list \<Rightarrow> string \<Rightarrow> string \<Rightarrow> string" where
  "render_file fm replacements rel data =
     (let tree = tree_for replacements (path_base rel)
      in displayContent
           (if tree = [] then data
            else case MergeBytes fm (path_base rel) data tree of Inl _ \<Rightarrow> data | Inr merged \<Rightarrow> merged))"

definition renderEffectiveFiles :: "formats \<Rightarrow> file_tree \<Rightarrow> server_entry option \<Rightarrow> (string \<times> string) list res" where
  "renderEffectiveFiles fm files entry =
     (case entry_replacements entry of
        Inl e \<Rightarrow> Inl e
      | Inr reps \<Rightarrow>
          (case NormalizeFileOverrides reps of
             Inl e \<Rightarrow> Inl e
           | Inr replacements \<Rightarrow> Inr (fold (\<lambda>(rel, data). al_put rel (render_file fm replacements rel data)) files [])))"

definition properties_line :: "string \<Rightarrow> (string \<times> string) list \<Rightarrow> (string \<times> string) list" where
  "properties_line line out =
     (let trim = trim_space line
      in if trim = [] \<or> has_prefix trim ''#'' then out
         else case cut_line line of None \<Rightarrow> out | Some (k, v) \<Rightarrow> al_put (trim_space k) (trim_space v) out)"

definition flattenProperties :: "string \<Rightarrow> (string \<times> string) list" where
  "flattenProperties content = fold properties_line (split_on newline content) []"

definition flattenStructured :: "gval \<Rightarrow> (string \<times> string) list res" where
  "flattenStructured root =
     (case AsStringMap root of
        Inl e \<Rightarrow> Inl e
      | Inr m \<Rightarrow> Inr (fold (\<lambda>(k, v). al_put k (sprint v)) (FlattenScalars [] m) []))"

definition flattenConfig :: "formats \<Rightarrow> string \<Rightarrow> string \<Rightarrow> (string \<times> string) list res" where
  "flattenConfig fm basename data =
     (let ext = lower (path_ext basename)
      in if ext = ''.properties'' then Inr (flattenProperties data)
         else if ext = ''.yaml'' \<or> ext = ''.yml''
         then (case yaml_in fm data of Inl e \<Rightarrow> Inl e | Inr root \<Rightarrow> flattenStructured root)
         else if ext = ''.json''
         then (case json_in fm data of Inl e \<Rightarrow> Inl e | Inr root \<Rightarrow> flattenStructured root)
         else Inl (ErrMsg ''unsupported config type''))"

definition effective_config ::
  "formats \<Rightarrow> file_tree \<Rightarrow> (string \<times> gmap) list \<Rightarrow> string \<Rightarrow> string \<Rightarrow> (string \<times> string) list res" where
  "effective_config fm files replacements base rel =
     (case map_of files rel of
        None \<Rightarrow> Inl ErrNotExist
      | Some data \<Rightarrow>
          (let tree = tree_for replacements base
           in case (if tree = [] then Inr data else MergeBytes fm base data tree) of
                Inl e \<Rightarrow> Inl e
              | Inr data' \<Rightarrow> flattenConfig fm base data'))"

fun effective_configs ::
  "formats \<Rightarrow> file_tree \<Rightarrow> (string \<times> gmap) list \<Rightarrow> (string \<times> string list) list \<Rightarrow> (string \<times> (string \<times> string) list) list
     \<Rightarrow> (string \<times> (string \<times> string) list) list res" where
  "effective_configs fm files reps [] out = Inr out"
| "effective_configs fm files reps ((base, paths) # ms) out =
     (case paths of
        [] \<Rightarrow> effective_configs fm files reps ms out
      | rel # _ \<Rightarrow>
          (case effective_config fm files reps base rel of
             Inl e \<Rightarrow> Inl e
           | Inr flat \<Rightarrow> effective_configs fm files reps ms (al_put base flat out)))"

definition renderEffectiveConfig ::
  "formats \<Rightarrow> file_tree \<Rightarrow> server_entry option \<Rightarrow> (string \<times> (string \<times> string) list) list res" where
  "renderEffectiveConfig fm files entry =
     (case entry_replacements entry of
        Inl e \<Rightarrow> Inl e
      | Inr reps \<Rightarrow> effective_configs fm files reps (FindConfigFilesByBasename files) [])"

section \<open>Comparison\<close>

record key_delta =
  kd_Key :: string
  kd_From :: string
  kd_To :: string
  kd_Change :: string

record file_delta =
  fd_Basename :: string
  fd_Keys :: "key_delta list"

record rendered_file_delta =
  rd_Path :: string
  rd_Basename :: string
  rd_From :: string
  rd_To :: string
  rd_Change :: string

record version_diff_report =
  vr_Project :: string
  vr_FromVersion :: string
  vr_ToVersion :: string
  vr_ServerID :: string
  vr_Files :: "file_delta list"
  vr_FileDiffs :: "rendered_file_delta list"

definition all_keys :: "(string \<times> 'a) list \<Rightarrow> (string \<times> 'a) list \<Rightarrow> string list" where
  "all_keys a b = remdups (map fst a @ map fst b)"

definition text_at :: "(string \<times> string) list \<Rightarrow> string \<Rightarrow> string" where
  "text_at m k = (case map_of m k of None \<Rightarrow> [] | Some v \<Rightarrow> v)"

definition change_of :: "string option \<Rightarrow> string option \<Rightarrow> string option" where
  "change_of from to =
     (if from = None \<and> to \<noteq> None then Some ''added''
      else if from \<noteq> None \<and> to = None then Some ''removed''
      else if from \<noteq> to then Some ''modified''
      else None)"

definition key_deltas :: "(string \<times> string) list \<Rightarrow> (string \<times> string) list \<Rightarrow> key_delta list" where
  "key_deltas from to =
     concat (map (\<lambda>k. case change_of (map_of from k) (map_of to k) of
         None \<Rightarrow> []
       | Some c \<Rightarrow> [\<lparr>kd_Key = k, kd_From = text_at from k, kd_To = text_at to k, kd_Change = c\<rparr>])
       (sort (all_keys from to)))"

definition file_deltas :: "(string \<times> string) list \<Rightarrow> (string \<times> string) list \<Rightarrow> rendered_file_delta list" where
  "file_deltas from to =
     concat (map (\<lambda>p. case change_of (map_of from p) (map_of to p) of
         None \<Rightarrow> []
       | Some c \<Rightarrow> [\<lparr>rd_Path = p, rd_Basename = path_base p, rd_From = text_at from p, rd_To = text_at to p, rd_Change = c\<rparr>])
       (sort (all_keys from to)))"

definition diffEffectiveFiles ::
  "formats \<Rightarrow> file_tree \<Rightarrow> file_tree \<Rightarrow> server_entry option \<Rightarrow> rendered_file_delta list res" where
  "diffEffectiveFiles fm fromRoot toRoot entry =
     (case renderEffectiveFiles fm fromRoot entry of
        Inl e \<Rightarrow> Inl e
      | Inr from \<Rightarrow>
          (case renderEffectiveFiles fm toRoot entry of
             Inl e \<Rightarrow> Inl e
           | Inr to \<Rightarrow> Inr (file_deltas from to)))"

definition keys_of :: "(string \<times> (string \<times> string) list) list \<Rightarrow> string \<Rightarrow> (string \<times> string) list" where
  "keys_of m base = (case map_of m base of None \<Rightarrow> [] | Some kv \<Rightarrow> kv)"

definition config_deltas ::
  "(string \<times> (string \<times> string) list) list \<Rightarrow> (string \<times> (string \<times> string) list) list \<Rightarrow> file_delta list" where
  "config_deltas from to =
     filter (\<lambda>fd. fd_Keys fd \<noteq> [])
       (map (\<lambda>base. \<lparr>fd_Basename = base, fd_Keys = key_deltas (keys_of from base) (keys_of to base)\<rparr>) (all_keys from to))"

definition DiffVersions ::
  "formats \<Rightarrow> file_tree \<Rightarrow> file_tree \<Rightarrow> string \<Rightarrow> string \<Rightarrow> string \<Rightarrow> string \<Rightarrow> server_entry option \<Rightarrow> version_diff_report res"
where
  "DiffVersions fm fromRoot toRoot project fromVer toVer serverID entry =
     (case renderEffectiveConfig fm fromRoot entry of
        Inl e \<Rightarrow> Inl e
      | Inr byBaseFrom \<Rightarrow>
          (case renderEffectiveConfig fm toRoot entry of
             Inl e \<Rightarrow> Inl e
           | Inr byBaseTo \<Rightarrow>
               (case diffEffectiveFiles fm fromRoot toRoot entry of
                  Inl e \<Rightarrow> Inl e
                | Inr rendered \<Rightarrow>
                    Inr \<lparr>vr_Project = project, vr_FromVersion = fromVer, vr_ToVersion = toVer, vr_ServerID = serverID,
                         vr_Files = config_deltas byBaseFrom byBaseTo, vr_FileDiffs = rendered\<rparr>)))"

section \<open>The report determines the target\<close>

text \<open>Applying the reported change of one path or key to a map.\<close>

definition patch :: "string \<Rightarrow> string \<Rightarrow> string \<Rightarrow> (string \<rightharpoonup> string) \<Rightarrow> (string \<rightharpoonup> string)" where
  "patch k to c m = (if c = ''removed'' then m(k := None) else m(k \<mapsto> to))"

lemma patch_change:
  "change_of (map_of from k) (map_of to k) = Some c \<Longrightarrow> patch k (text_at to k) c m = m(k := map_of to k)"
  by (auto simp: change_of_def patch_def text_at_def fun_eq_iff split: if_splits option.splits)

lemma change_none: "change_of x y = None \<longleftrightarrow> x = y"
  by (auto simp: change_of_def)

lemma change_same [simp]: "change_of x x = None"
  by (simp add: change_none)

lemma change_some: "change_of x y = Some c \<Longrightarrow> x \<noteq> y"
  by auto

lemma keys_outside: "k \<notin> set (all_keys from to) \<Longrightarrow> map_of from k = map_of to k"
  by (auto simp: all_keys_def map_of_eq_None_iff [THEN iffD2])

lemma fold_overlay:
  "fold (\<lambda>k m. if map_of from k = map_of to k then m else m(k := map_of to k)) ks m0 k
   = (if k \<in> set ks \<and> map_of from k \<noteq> map_of to k then map_of to k else m0 k)"
  by (induction ks arbitrary: m0) auto

lemma overlay_all:
  "fold (\<lambda>k m. if map_of from k = map_of to k then m else m(k := map_of to k)) (sort (all_keys from to)) (map_of from) = map_of to"
  using keys_outside [of _ "from" to] by (auto simp: fun_eq_iff fold_overlay)

lemma fold_concat_map: "fold g (concat (map f ks)) m = fold (\<lambda>k. fold g (f k)) ks m"
  by (induction ks arbitrary: m) auto

lemma file_deltas_patch:
  "fold (\<lambda>d. patch (rd_Path d) (rd_To d) (rd_Change d)) (file_deltas from to) (map_of from) = map_of to"
proof -
  have "(\<lambda>k. fold (\<lambda>d. patch (rd_Path d) (rd_To d) (rd_Change d)) (case change_of (map_of from k) (map_of to k) of
         None \<Rightarrow> []
       | Some c \<Rightarrow> [\<lparr>rd_Path = k, rd_Basename = path_base k, rd_From = text_at from k, rd_To = text_at to k, rd_Change = c\<rparr>]))
    = (\<lambda>k m. if map_of from k = map_of to k then m else m(k := map_of to k))"
    by (auto simp: fun_eq_iff change_none patch_change split: option.split)
  then show ?thesis unfolding file_deltas_def fold_concat_map by (simp add: overlay_all)
qed

lemma key_deltas_patch:
  "fold (\<lambda>d. patch (kd_Key d) (kd_To d) (kd_Change d)) (key_deltas from to) (map_of from) = map_of to"
proof -
  have "(\<lambda>k. fold (\<lambda>d. patch (kd_Key d) (kd_To d) (kd_Change d)) (case change_of (map_of from k) (map_of to k) of
         None \<Rightarrow> []
       | Some c \<Rightarrow> [\<lparr>kd_Key = k, kd_From = text_at from k, kd_To = text_at to k, kd_Change = c\<rparr>]))
    = (\<lambda>k m. if map_of from k = map_of to k then m else m(k := map_of to k))"
    by (auto simp: fun_eq_iff change_none patch_change split: option.split)
  then show ?thesis unfolding key_deltas_def fold_concat_map by (simp add: overlay_all)
qed

lemma file_deltas_only: "d \<in> set (file_deltas from to) \<Longrightarrow>
    map_of from (rd_Path d) \<noteq> map_of to (rd_Path d) \<and> rd_From d = text_at from (rd_Path d) \<and> rd_To d = text_at to (rd_Path d)"
  by (auto simp: file_deltas_def dest: change_some split: option.splits)

lemma deltas_paths: "map rd_Path (file_deltas from to) = filter (\<lambda>p. map_of from p \<noteq> map_of to p) (sort (all_keys from to))"
proof -
  have "map rd_Path (concat (map (\<lambda>p. case change_of (map_of from p) (map_of to p) of
         None \<Rightarrow> []
       | Some c \<Rightarrow> [\<lparr>rd_Path = p, rd_Basename = path_base p, rd_From = text_at from p, rd_To = text_at to p, rd_Change = c\<rparr>]) ks))
    = filter (\<lambda>p. map_of from p \<noteq> map_of to p) ks" for ks
    by (induction ks) (auto split: option.split simp: change_none dest: change_some)
  then show ?thesis unfolding file_deltas_def .
qed

lemma file_deltas_sorted: "sorted (map rd_Path (file_deltas from to)) \<and> distinct (map rd_Path (file_deltas from to))"
  unfolding deltas_paths by (simp add: all_keys_def sorted_filter [of "\<lambda>x. x", simplified])

text \<open>
  The file report of a comparison is exact: applying the reported additions, removals and
  modifications to the rendered files of the first version gives the rendered files of the second; it
  names each differing path once, in order, with its two contents, and no path whose rendering is equal.
\<close>

theorem file_report_exact:
  assumes "diffEffectiveFiles fm fromRoot toRoot entry = Inr ds"
    and "renderEffectiveFiles fm fromRoot entry = Inr from" "renderEffectiveFiles fm toRoot entry = Inr to"
  shows "fold (\<lambda>d. patch (rd_Path d) (rd_To d) (rd_Change d)) ds (map_of from) = map_of to
    \<and> sorted (map rd_Path ds) \<and> distinct (map rd_Path ds)
    \<and> (\<forall>d\<in>set ds. map_of from (rd_Path d) \<noteq> map_of to (rd_Path d)
         \<and> rd_From d = text_at from (rd_Path d) \<and> rd_To d = text_at to (rd_Path d))"
proof -
  have "ds = file_deltas from to" using assms by (simp add: diffEffectiveFiles_def)
  then show ?thesis using file_deltas_patch file_deltas_sorted file_deltas_only by blast
qed

definition sample_formats :: formats where
  "sample_formats = \<lparr>yaml_in = (\<lambda>_. Inl ErrNotExist), yaml_out = (\<lambda>_. Inl ErrNotExist),
     json_in = (\<lambda>_. Inl ErrNotExist), json_out = (\<lambda>_. Inl ErrNotExist)\<rparr>"

definition old_tree :: file_tree where
  "old_tree = [(''a.properties'', ''port=1''), (''gone.txt'', ''x'')]"

definition new_tree :: file_tree where
  "new_tree = [(''a.properties'', ''port=2'' @ [newline] @ ''host=h'')]"

lemma file_report_exact_witness:
  "\<exists>ds. diffEffectiveFiles sample_formats old_tree new_tree None = Inr ds
     \<and> fold (\<lambda>d. patch (rd_Path d) (rd_To d) (rd_Change d)) ds (map_of old_tree) = map_of new_tree"
proof -
  have "is_ok (diffEffectiveFiles sample_formats old_tree new_tree None)" by code_simp
  then obtain ds where ds: "diffEffectiveFiles sample_formats old_tree new_tree None = Inr ds" by (auto simp: is_ok_iff)
  have "(case renderEffectiveFiles sample_formats old_tree None of Inr t \<Rightarrow> t = old_tree | _ \<Rightarrow> False)"
    and "(case renderEffectiveFiles sample_formats new_tree None of Inr t \<Rightarrow> t = new_tree | _ \<Rightarrow> False)" by code_simp+
  then have r: "renderEffectiveFiles sample_formats old_tree None = Inr old_tree"
    "renderEffectiveFiles sample_formats new_tree None = Inr new_tree" by (simp_all split: sum.splits)
  from file_report_exact [OF ds r] ds show ?thesis by blast
qed

text \<open>
  The key report is exact as well: for every configuration file, patching the keys of the first
  version with the reported changes gives the keys of the second, and a file is left out exactly when
  nothing in it changed.
\<close>

theorem config_report_exact:
  assumes "DiffVersions fm fromRoot toRoot project fromVer toVer serverID entry = Inr report"
    and "renderEffectiveConfig fm fromRoot entry = Inr from" "renderEffectiveConfig fm toRoot entry = Inr to"
  shows "\<forall>base. (case find (\<lambda>fd. fd_Basename fd = base) (vr_Files report) of
      Some fd \<Rightarrow> fold (\<lambda>d. patch (kd_Key d) (kd_To d) (kd_Change d)) (fd_Keys fd) (map_of (keys_of from base))
                   = map_of (keys_of to base)
                 \<and> map_of (keys_of from base) \<noteq> map_of (keys_of to base)
    | None \<Rightarrow> map_of (keys_of from base) = map_of (keys_of to base))"
proof (rule allI)
  fix base
  let ?kd = "\<lambda>b. key_deltas (keys_of from b) (keys_of to b)"
  let ?F = "\<lambda>b. \<lparr>fd_Basename = b, fd_Keys = ?kd b\<rparr>"
  have files: "vr_Files report = filter (\<lambda>fd. fd_Keys fd \<noteq> []) (map ?F (all_keys from to))"
    using assms by (auto simp: DiffVersions_def config_deltas_def split: sum.splits)
  have empty: "?kd base = [] \<longleftrightarrow> map_of (keys_of from base) = map_of (keys_of to base)"
  proof
    assume "?kd base = []"
    then show "map_of (keys_of from base) = map_of (keys_of to base)"
      using key_deltas_patch [of "keys_of from base" "keys_of to base"] by simp
  next
    assume "map_of (keys_of from base) = map_of (keys_of to base)"
    then show "?kd base = []" by (simp add: key_deltas_def change_of_def)
  qed
  have find: "find (\<lambda>fd. fd_Basename fd = base) (filter (\<lambda>fd. fd_Keys fd \<noteq> []) (map ?F bs))
      = (if base \<in> set bs \<and> ?kd base \<noteq> [] then Some (?F base) else None)" for bs
    by (induction bs) auto
  have "?kd base = []" if "base \<notin> set (all_keys from to)"
  proof -
    have "keys_of from base = []" "keys_of to base = []"
      using that by (auto simp: keys_of_def all_keys_def map_of_eq_None_iff [THEN iffD2] split: option.split dest: map_of_SomeD)
    then show ?thesis by (simp add: key_deltas_def all_keys_def)
  qed
  then show "case find (\<lambda>fd. fd_Basename fd = base) (vr_Files report) of
      Some fd \<Rightarrow> fold (\<lambda>d. patch (kd_Key d) (kd_To d) (kd_Change d)) (fd_Keys fd) (map_of (keys_of from base))
                   = map_of (keys_of to base)
                 \<and> map_of (keys_of from base) \<noteq> map_of (keys_of to base)
    | None \<Rightarrow> map_of (keys_of from base) = map_of (keys_of to base)"
    unfolding files find using empty key_deltas_patch [of "keys_of from base" "keys_of to base"] by auto
qed

lemma config_report_exact_witness:
  "\<exists>report. DiffVersions sample_formats old_tree new_tree ''game'' ''1'' ''2'' ''s'' None = Inr report
     \<and> (case find (\<lambda>fd. fd_Basename fd = ''a.properties'') (vr_Files report) of
          Some fd \<Rightarrow> fold (\<lambda>d. patch (kd_Key d) (kd_To d) (kd_Change d)) (fd_Keys fd) (map_of [(''port'', ''1'')])
                       = map_of [(''port'', ''2''), (''host'', ''h'')]
        | None \<Rightarrow> False)"
proof -
  have "is_ok (DiffVersions sample_formats old_tree new_tree ''game'' ''1'' ''2'' ''s'' None)" by code_simp
  then obtain report where rep: "DiffVersions sample_formats old_tree new_tree ''game'' ''1'' ''2'' ''s'' None = Inr report"
    by (auto simp: is_ok_iff)
  have "(case renderEffectiveConfig sample_formats old_tree None of Inr t \<Rightarrow> t = [(''a.properties'', [(''port'', ''1'')])] | _ \<Rightarrow> False)"
    and "(case renderEffectiveConfig sample_formats new_tree None of
            Inr t \<Rightarrow> t = [(''a.properties'', [(''port'', ''2''), (''host'', ''h'')])] | _ \<Rightarrow> False)" by code_simp+
  then have r: "renderEffectiveConfig sample_formats old_tree None = Inr [(''a.properties'', [(''port'', ''1'')])]"
    "renderEffectiveConfig sample_formats new_tree None = Inr [(''a.properties'', [(''port'', ''2''), (''host'', ''h'')])]"
    by (simp_all split: sum.splits)
  have "map_of [(''port'', ''1'')] ''port'' \<noteq> map_of [(''port'', ''2''), (''host'', ''h'')] ''port''" by simp
  then have ne: "map_of [(''port'', ''1'')] \<noteq> map_of [(''port'', ''2''), (''host'', ''h'')]" by metis
  from config_report_exact [OF rep r] have "case find (\<lambda>fd. fd_Basename fd = ''a.properties'') (vr_Files report) of
      Some fd \<Rightarrow> fold (\<lambda>d. patch (kd_Key d) (kd_To d) (kd_Change d)) (fd_Keys fd) (map_of [(''port'', ''1'')])
                   = map_of [(''port'', ''2''), (''host'', ''h'')] \<and> True
    | None \<Rightarrow> map_of [(''port'', ''1'')] = map_of [(''port'', ''2''), (''host'', ''h'')]"
    by (auto simp: keys_of_def split: option.splits dest!: spec [of _ "''a.properties''"])
  with ne rep show ?thesis by (cases "find (\<lambda>fd. fd_Basename fd = ''a.properties'') (vr_Files report)") simp_all
qed

end
