(* ===== verification/Shell.thy ===== *)
theory Shell
  imports Hosts
begin

text \<open>
  What runs on a target (\<open>internal/api/push_executor.go\<close>): the shell script of a deployment and the
  quoting of its values, the bounded output buffer, the retry of the connection and the check of the
  controller's public URL.  The script is judged by a lexer of the POSIX shell grammar: \<open>sh_lex\<close> gives
  the words and operators of a text that has no expansions outside quotes, and nothing otherwise.
\<close>

section \<open>The words of a shell command\<close>

datatype sh_token = Word string | Op char

datatype sh_mode = Plain | Single | Double

definition sh_blank :: "char \<Rightarrow> bool" where
  "sh_blank c = (c = CHR '' '' \<or> c = CHR 0x09)"

definition sh_op :: "char \<Rightarrow> bool" where
  "sh_op c = (c \<in> set [CHR 0x0A, CHR '';'', CHR ''&'', CHR ''|'', CHR ''('', CHR '')'', CHR ''<'', CHR ''>''])"

text \<open>Characters that start an expansion, a glob or a comment, or that are not covered.\<close>

definition sh_special :: "char \<Rightarrow> bool" where
  "sh_special c = (c \<in> set [CHR ''$'', CHR 0x60, CHR ''*'', CHR ''?'', CHR ''['', CHR ''#'', CHR ''~'', CHR ''{'', CHR ''}'',
     CHR ''!''])"

definition end_word :: "string option \<Rightarrow> sh_token list \<Rightarrow> sh_token list" where
  "end_word w ts = (case w of None \<Rightarrow> ts | Some v \<Rightarrow> Word v # ts)"

definition add_char :: "string option \<Rightarrow> char \<Rightarrow> string option" where
  "add_char w c = Some ((case w of None \<Rightarrow> [] | Some v \<Rightarrow> v) @ [c])"

definition open_word :: "string option \<Rightarrow> string option" where
  "open_word w = Some (case w of None \<Rightarrow> [] | Some v \<Rightarrow> v)"

fun sh_lex :: "sh_mode \<Rightarrow> string option \<Rightarrow> string \<Rightarrow> sh_token list option" where
  "sh_lex Plain w [] = Some (end_word w [])"
| "sh_lex Single w [] = None"
| "sh_lex Double w [] = None"
| "sh_lex Plain w (c # s) =
     (if c = CHR 0x27 then sh_lex Single (open_word w) s
      else if c = CHR 0x22 then sh_lex Double (open_word w) s
      else if c = CHR 0x5C then (case s of [] \<Rightarrow> None
                              | d # t \<Rightarrow> sh_lex Plain (if d = CHR 0x0A then w else add_char w d) t)
      else if sh_blank c then map_option (end_word w) (sh_lex Plain None s)
      else if sh_op c then map_option (\<lambda>ts. end_word w (Op c # ts)) (sh_lex Plain None s)
      else if sh_special c then None
      else sh_lex Plain (add_char w c) s)"
| "sh_lex Single w (c # s) =
     (if c = CHR 0x27 then sh_lex Plain w s else sh_lex Single (add_char w c) s)"
| "sh_lex Double w (c # s) =
     (if c = CHR 0x22 then sh_lex Plain w s
      else if c = CHR ''$'' \<or> c = CHR 0x60 \<or> c = CHR 0x5C then None
      else sh_lex Double (add_char w c) s)"

section \<open>The script\<close>

text \<open>Every quote of the value is replaced by the seven characters \<open>'\"'\"'\<close>.\<close>

definition shellQuote :: "string \<Rightarrow> string" where
  "shellQuote value =
     [CHR 0x27] @ replace_all [CHR 0x27]
       [CHR 0x27, CHR 0x5C, CHR 0x22, CHR 0x27, CHR 0x5C, CHR 0x22, CHR 0x27] value @ [CHR 0x27]"

fun env_name_tail :: "string \<Rightarrow> bool" where
  "env_name_tail [] = True"
| "env_name_tail (c # s) = ((c = CHR ''_'' \<or> is_alnum c) \<and> env_name_tail s)"

definition validPushHookEnvName :: "string \<Rightarrow> bool" where
  "validPushHookEnvName name =
     (case name of [] \<Rightarrow> False | c # s \<Rightarrow> (c = CHR ''_'' \<or> is_lower c \<or> is_upper c) \<and> env_name_tail s)"

definition splitCSV :: "string \<Rightarrow> string list" where
  "splitCSV v = filter (\<lambda>w. w \<noteq> []) (map trim_space (split_on (CHR '','') v))"

record push_command =
  pc_CentralURL :: string
  pc_Project :: string
  pc_Version :: string
  pc_ServerID :: string
  pc_PullToken :: string
  pc_DeploymentID :: string
  pc_IdempotencyKey :: string
  pc_TargetTag :: string
  pc_HookEnv :: "(string \<times> string) list"

definition env_at :: "(string \<times> string) list \<Rightarrow> string \<Rightarrow> string" where
  "env_at env k = (case map_of env k of None \<Rightarrow> [] | Some v \<Rightarrow> v)"

definition bad_env :: "(string \<times> string) list \<Rightarrow> bool" where
  "bad_env env = list_ex (\<lambda>(k, _). \<not> validPushHookEnvName k \<or> CHR 0x00 \<in> set (env_at env k)) env"

text \<open>The assignments before \<open>safe-deploy.sh\<close> on the command line of the script, name and value.\<close>

definition script_settings :: "push_command \<Rightarrow> push_binding \<Rightarrow> (string \<times> string) list" where
  "script_settings command binding =
     [(''EXPRESS233_SERVER'', pc_CentralURL command), (''EXPRESS233_TOKEN'', pc_PullToken command),
      (''EXPRESS233_PROJECT'', pc_Project command), (''EXPRESS233_SERVER_ID'', pc_ServerID command),
      (''VERSION'', pc_Version command),
      (''EXPRESS233_TAGS'', join_with '','' (splitCSV (pb_ContentTags binding))),
      (''GAME_ROOT'', pb_RemoteRoot binding), (''EXPRESS233_DEPLOYMENT_ID'', pc_DeploymentID command),
      (''EXPRESS233_IDEMPOTENCY_KEY'', pc_IdempotencyKey command), (''EXPRESS233_TARGET_TAG'', pc_TargetTag command)]"

definition script_env :: "(string \<times> string) list \<Rightarrow> string" where
  "script_env env = concat (map (\<lambda>key. shellQuote (key @ ''='' @ env_at env key) @ '' '') (sort (map fst env)))"

definition deploy_line :: "push_command \<Rightarrow> push_binding \<Rightarrow> string" where
  "deploy_line command binding =
     ''env '' @ script_env (pc_HookEnv command)
     @ concat (map (\<lambda>(name, v). name @ ''='' @ shellQuote v @ '' '') (script_settings command binding))
     @ ''safe-deploy.sh '' @ (if pb_SkipBackup binding then [] else ''--backup '')
     @ ''--server-id '' @ shellQuote (pc_ServerID command) @ [CHR 0x0A]"

definition script_preamble :: "push_command \<Rightarrow> string" where
  "script_preamble command =
     ''set -eu'' @ [CHR 0x0A]
     @ ''command -v safe-deploy.sh >/dev/null 2>&1 || { echo '' @ [CHR 0x27] @ ''safe-deploy.sh is required on the target''
     @ [CHR 0x27] @ ''; exit 127; }'' @ [CHR 0x0A]
     @ ''test '' @ [CHR 0x22] @ ''$(safe-deploy.sh --capabilities)'' @ [CHR 0x22] @ '' = '' @ [CHR 0x27]
     @ ''express233.safe-deploy/v2'' @ [CHR 0x27] @ '' || { echo '' @ [CHR 0x27]
     @ ''safe-deploy.sh v2 is required; no deployment started'' @ [CHR 0x27] @ ''; exit 78; }'' @ [CHR 0x0A]
     @ (let feature = env_at (pc_HookEnv command) ''EXPRESS233_REQUIRED_DEPLOY_FEATURE''
        in if feature = [] then []
           else ''safe-deploy.sh --supports-feature '' @ shellQuote feature @ '' >/dev/null 2>&1 || { echo '' @ [CHR 0x27]
             @ ''required safe-deploy feature is unavailable; no deployment started'' @ [CHR 0x27] @ ''; exit 78; }'' @ [CHR 0x0A])"

definition buildPushDeployScript :: "push_command \<Rightarrow> push_binding \<Rightarrow> string res" where
  "buildPushDeployScript command binding =
     (if bad_env (pc_HookEnv command) then Inl (ErrMsg ''invalid post-hook environment variable name'')
      else Inr (script_preamble command @ deploy_line command binding))"

section \<open>Output\<close>

definition output_limit :: nat where
  "output_limit = 8 * 1024 * 1024"

definition deploymentOutput_Write :: "nat \<Rightarrow> string \<Rightarrow> string \<Rightarrow> string" where
  "deploymentOutput_Write limit buffer p =
     (let n = length p
      in if n \<ge> limit then drop (n - limit) p
         else if length buffer + n > limit then drop (length buffer + n - limit) buffer @ p
         else buffer @ p)"

definition appendDeploymentError :: "string \<Rightarrow> string \<Rightarrow> string" where
  "appendDeploymentError output err = (if output \<noteq> [] then output @ [CHR 0x0A] else []) @ ''ERROR: '' @ err"

section \<open>Connecting\<close>

text \<open>
  \<open>dial n\<close> is the result of attempt \<open>n\<close>, a connection or an error with its being transient;
  \<open>cancelled n\<close> says whether the context is done after it and \<open>interrupted n\<close> whether it ends while the
  retry waits.  The result is returned with the number of attempts.
\<close>

datatype 'c dial_result = Dialed 'c | DialError string bool

function dial_loop ::
  "(nat \<Rightarrow> 'c dial_result) \<Rightarrow> (nat \<Rightarrow> bool) \<Rightarrow> (nat \<Rightarrow> bool) \<Rightarrow> nat \<Rightarrow> nat \<Rightarrow> 'c res \<times> nat" where
  "dial_loop dial cancelled interrupted delays attempt =
     (case dial attempt of
        Dialed c \<Rightarrow> (Inr c, attempt + 1)
      | DialError e transient \<Rightarrow>
          if cancelled attempt then (Inl (ErrMsg ''context done''), attempt + 1)
          else if \<not> transient \<or> attempt \<ge> delays then (Inl (ErrMsg e), attempt + 1)
          else if interrupted attempt then (Inl (ErrMsg ''context done''), attempt + 1)
          else dial_loop dial cancelled interrupted delays (attempt + 1))"
  by pat_completeness auto
termination
  by (relation "measure (\<lambda>(_, _, _, delays, attempt). delays - attempt)") auto

declare dial_loop.simps [simp del]

definition dialPushSSHWithRetry ::
  "(nat \<Rightarrow> 'c dial_result) \<Rightarrow> (nat \<Rightarrow> bool) \<Rightarrow> (nat \<Rightarrow> bool) \<Rightarrow> nat \<Rightarrow> 'c res \<times> nat" where
  "dialPushSSHWithRetry dial cancelled interrupted delays = dial_loop dial cancelled interrupted delays 0"

text \<open>\<open>pushPublicURL\<close>: the environment variables and \<open>url.Parse\<close> (scheme, host, user present) are arguments.\<close>

definition pushPublicURL :: "(string \<Rightarrow> (string \<times> string \<times> bool) option) \<Rightarrow> string \<Rightarrow> bool \<Rightarrow> string res" where
  "pushPublicURL parse_url env_url allow_insecure =
     (let raw = trim_right_set [CHR ''/''] env_url
      in if raw = [] then Inl (ErrMsg ''EXPRESS233_PUBLIC_URL is required for SSH push deployment'')
         else case parse_url raw of
           None \<Rightarrow> Inl (ErrMsg ''EXPRESS233_PUBLIC_URL must be an absolute http(s) URL without credentials'')
         | Some (scheme, host, user) \<Rightarrow>
             if host = [] \<or> user \<or> (scheme \<noteq> ''https'' \<and> scheme \<noteq> ''http'')
             then Inl (ErrMsg ''EXPRESS233_PUBLIC_URL must be an absolute http(s) URL without credentials'')
             else if scheme \<noteq> ''https'' \<and> \<not> allow_insecure then Inl (ErrMsg ''EXPRESS233_PUBLIC_URL must use https'')
             else Inr raw)"

section \<open>Quoting\<close>

lemma replace_all_char: "replace_all [c] new s = replace_char c new s"
proof (induction s)
  case Nil
  then show ?case by (subst replace_all.simps) (simp add: replace_char_def)
next
  case (Cons a s)
  then show ?case by (subst replace_all.simps) (simp add: replace_char_def has_prefix_def)
qed

lemma replace_char_append: "replace_char c new (s @ t) = replace_char c new s @ replace_char c new t"
  by (simp add: replace_char_def)

abbreviation quote_char :: char where
  "quote_char \<equiv> CHR 0x27"

definition plain_char :: "char \<Rightarrow> bool" where
  "plain_char c = (c \<noteq> CHR 0x27 \<and> c \<noteq> CHR 0x22 \<and> c \<noteq> CHR 0x5C \<and> \<not> sh_blank c \<and> \<not> sh_op c \<and> \<not> sh_special c)"

lemma lex_single:
  "quote_char \<notin> set v \<Longrightarrow> sh_lex Single (Some u) (v @ quote_char # rest) = sh_lex Plain (Some (u @ v)) rest"
  by (induction v arbitrary: u) (auto simp: add_char_def)

lemma lex_plain:
  "list_all plain_char v \<Longrightarrow> sh_lex Plain (Some u) (v @ rest) = sh_lex Plain (Some (u @ v)) rest"
  by (induction v arbitrary: u) (auto simp: plain_char_def add_char_def)

lemma lex_plain_start:
  assumes "list_all plain_char v" "v \<noteq> []"
  shows "sh_lex Plain None (v @ rest) = sh_lex Plain (Some v) rest"
proof -
  obtain c v' where v: "v = c # v'" using assms(2) by (cases v) auto
  then have "sh_lex Plain None (v @ rest) = sh_lex Plain (Some [c]) (v' @ rest)"
    using assms(1) by (simp add: plain_char_def add_char_def)
  with lex_plain [of v' "[c]" rest] assms(1) v show ?thesis by simp
qed

lemma lex_quoted:
  "quote_char \<notin> set v \<Longrightarrow> sh_lex Plain w (shellQuote v @ rest) = sh_lex Plain (Some (the (open_word w) @ v)) rest"
  by (simp add: shellQuote_def replace_all_char replace_char_id lex_single open_word_def)

lemma lex_blank: "sh_lex Plain (Some u) (CHR '' '' # rest) = map_option ((#) (Word u)) (sh_lex Plain None rest)"
  by (simp add: sh_blank_def end_word_def map_option_case fun_eq_iff split: option.split)

lemma lex_word:
  "list_all plain_char v \<Longrightarrow> v \<noteq> [] \<Longrightarrow>
     sh_lex Plain None (v @ CHR '' '' # rest) = map_option ((#) (Word v)) (sh_lex Plain None rest)"
  using lex_plain_start [of v "CHR '' '' # rest"] lex_blank [of v rest] by simp

lemma lex_assign:
  assumes "list_all plain_char name" "name \<noteq> []" "quote_char \<notin> set v"
  shows "sh_lex Plain None (name @ ''='' @ shellQuote v @ CHR '' '' # rest)
       = map_option ((#) (Word (name @ ''='' @ v))) (sh_lex Plain None rest)"
proof -
  have "list_all plain_char (name @ ''='')" using assms(1) by (simp add: plain_char_def sh_blank_def sh_op_def sh_special_def)
  from lex_plain_start [OF this] have
    "sh_lex Plain None ((name @ ''='') @ shellQuote v @ CHR '' '' # rest) = sh_lex Plain (Some (name @ ''='')) (shellQuote v @ CHR '' '' # rest)"
    by simp
  then show ?thesis using lex_quoted [OF assms(3), of "Some (name @ ''='')"] lex_blank [of "name @ ''='' @ v" rest]
    by (simp add: open_word_def)
qed

lemma lex_assigns:
  "\<forall>(name, v)\<in>set ps. list_all plain_char name \<and> name \<noteq> [] \<and> quote_char \<notin> set v \<Longrightarrow>
   sh_lex Plain None (concat (map (\<lambda>(name, v). name @ ''='' @ shellQuote v @ '' '') ps) @ rest)
     = map_option (\<lambda>ts. map (\<lambda>(name, v). Word (name @ ''='' @ v)) ps @ ts) (sh_lex Plain None rest)"
proof (induction ps)
  case (Cons p ps)
  obtain name v where p: "p = (name, v)" by fastforce
  with Cons show ?case
    using lex_assign [of name v "concat (map (\<lambda>(name, v). name @ ''='' @ shellQuote v @ '' '') ps) @ rest"]
    by (simp add: option.map_comp o_def)
qed (cases "sh_lex Plain None rest", simp_all)

lemma lex_quotes:
  "\<forall>v\<in>set vs. quote_char \<notin> set v \<Longrightarrow>
   sh_lex Plain None (concat (map (\<lambda>v. shellQuote v @ '' '') vs) @ rest)
     = map_option (\<lambda>ts. map Word vs @ ts) (sh_lex Plain None rest)"
proof (induction vs)
  case (Cons v vs)
  then show ?case
    using lex_quoted [of v None "CHR '' '' # concat (map (\<lambda>v. shellQuote v @ '' '') vs) @ rest"]
      lex_blank [of v "concat (map (\<lambda>v. shellQuote v @ '' '') vs) @ rest"]
    by (simp add: option.map_comp o_def open_word_def)
qed (cases "sh_lex Plain None rest", simp_all)

text \<open>
  When no value contains a single quote, the command line of the script is exactly the intended
  command: each hook variable and each setting reaches \<open>env\<close> as one word with its value unchanged,
  whatever blanks, newlines or shell characters it holds, and nothing else is executed on that line.
\<close>

theorem deploy_line_words:
  assumes "\<forall>k\<in>set (map fst (pc_HookEnv command)). quote_char \<notin> set (k @ ''='' @ env_at (pc_HookEnv command) k)"
    and "\<forall>(name, v)\<in>set (script_settings command binding). quote_char \<notin> set v"
  shows "sh_lex Plain None (deploy_line command binding) = Some (map Word ([''env'']
     @ map (\<lambda>k. k @ ''='' @ env_at (pc_HookEnv command) k) (sort (map fst (pc_HookEnv command)))
     @ map (\<lambda>(name, v). name @ ''='' @ v) (script_settings command binding)
     @ [''safe-deploy.sh''] @ (if pb_SkipBackup binding then [] else [''--backup''])
     @ [''--server-id'', pc_ServerID command]) @ [Op (CHR 0x0A)])"
proof -
  let ?env = "map (\<lambda>k. k @ ''='' @ env_at (pc_HookEnv command) k) (sort (map fst (pc_HookEnv command)))"
  let ?id = "shellQuote (pc_ServerID command) @ [CHR 0x0A]"
  have plain: "list_all plain_char ''env''" "list_all plain_char ''safe-deploy.sh''" "list_all plain_char ''--backup''"
    "list_all plain_char ''--server-id''"
    "\<forall>(name, v)\<in>set (script_settings command binding). list_all plain_char name \<and> name \<noteq> []"
    by (simp_all add: script_settings_def plain_char_def sh_blank_def sh_op_def sh_special_def)
  have sid: "quote_char \<notin> set (pc_ServerID command)" using assms(2) by (simp add: script_settings_def)
  have last_: "sh_lex Plain None ?id = Some [Word (pc_ServerID command), Op (CHR 0x0A)]"
    using lex_quoted [OF sid, of None "[CHR 0x0A]"] by (simp add: open_word_def sh_blank_def sh_op_def end_word_def)
  have flags: "sh_lex Plain None (''safe-deploy.sh '' @ (if pb_SkipBackup binding then [] else ''--backup '') @ ''--server-id '' @ ?id)
     = Some (map Word ([''safe-deploy.sh''] @ (if pb_SkipBackup binding then [] else [''--backup'']) @ [''--server-id'', pc_ServerID command])
         @ [Op (CHR 0x0A)])"
    using lex_word [OF plain(2), of "(if pb_SkipBackup binding then [] else ''--backup '') @ ''--server-id '' @ ?id"]
      lex_word [OF plain(3), of "''--server-id '' @ ?id"] lex_word [OF plain(4), of ?id] last_
    by simp
  have settings: "\<forall>(name, v)\<in>set (script_settings command binding). list_all plain_char name \<and> name \<noteq> [] \<and> quote_char \<notin> set v"
    using assms(2) plain(5) by blast
  have env: "script_env (pc_HookEnv command) = concat (map (\<lambda>v. shellQuote v @ '' '') ?env)"
    by (simp add: script_env_def o_def)
  have "\<forall>v\<in>set ?env. quote_char \<notin> set v" using assms(1) by auto
  note quotes = lex_quotes [OF this] and assigns = lex_assigns [OF settings]
  show ?thesis unfolding deploy_line_def env
    using lex_word [OF plain(1), of "concat (map (\<lambda>v. shellQuote v @ '' '') ?env)
        @ concat (map (\<lambda>(name, v). name @ ''='' @ shellQuote v @ '' '') (script_settings command binding))
        @ ''safe-deploy.sh '' @ (if pb_SkipBackup binding then [] else ''--backup '') @ ''--server-id '' @ ?id"]
    by (simp only: quotes assigns flags) (simp add: case_prod_unfold o_def)
qed

definition sample_command :: push_command where
  "sample_command = \<lparr>pc_CentralURL = ''https://ci'', pc_Project = ''game; reboot'', pc_Version = ''$(id)'', pc_ServerID = ''s1'',
     pc_PullToken = ''t'', pc_DeploymentID = ''1'', pc_IdempotencyKey = [], pc_TargetTag = ''game|s1'', pc_HookEnv = [(''A'', ''x y'')]\<rparr>"

definition shell_binding :: push_binding where
  "shell_binding =
     \<lparr>pb_PlanDigest = [], pb_ID = 1, pb_TenantID = 1, pb_HostID = 1, pb_HostName = ''h'',
      pb_ProjectName = ''game'', pb_ServerID = ''s1'', pb_TargetTag = [], pb_Labels = ''test'',
      pb_ContentTags = ''linux'', pb_RemoteRoot = ''/srv'', pb_SkipBackup = False, pb_OS = ''linux'',
      pb_Arch = ''amd64'', pb_CreatedAt = None, pb_UpdatedAt = None\<rparr>"

lemma deploy_line_words_witness:
  "\<exists>ts. sh_lex Plain None (deploy_line sample_command shell_binding) = Some ts
     \<and> Word ''EXPRESS233_PROJECT=game; reboot'' \<in> set ts \<and> Word ''A=x y'' \<in> set ts \<and> Op (CHR '';'') \<notin> set ts"
proof -
  have 1: "\<forall>k\<in>set (map fst (pc_HookEnv sample_command)). quote_char \<notin> set (k @ ''='' @ env_at (pc_HookEnv sample_command) k)"
    by (simp add: sample_command_def env_at_def)
  have 2: "list_all (\<lambda>(name, v). quote_char \<notin> set v) (script_settings sample_command shell_binding)" by code_simp
  then have 2: "\<forall>(name, v)\<in>set (script_settings sample_command shell_binding). quote_char \<notin> set v" by (simp add: list_all_iff)
  have p: "(''EXPRESS233_PROJECT'', ''game; reboot'') \<in> set (script_settings sample_command shell_binding)"
    by (simp add: script_settings_def sample_command_def)
  have "map (\<lambda>k. k @ ''='' @ env_at (pc_HookEnv sample_command) k) (sort (map fst (pc_HookEnv sample_command))) = [''A=x y'']"
    by (simp add: sample_command_def env_at_def)
  with deploy_line_words [OF 1 2] p show ?thesis by (force simp: image_iff)
qed

text \<open>
  A single quote in a value ends the quoting: the text between two quotes of one value is read by
  the shell as a command of its own, so a value \<open>a';c;'b\<close> makes the target execute \<open>c\<close>.
\<close>

theorem shellQuote_breaks_out:
  assumes "quote_char \<notin> set a" "quote_char \<notin> set b" "list_all plain_char c" "c \<noteq> []"
  shows "sh_lex Plain None (shellQuote (a @ [quote_char] @ '';'' @ c @ '';'' @ [quote_char] @ b))
     = Some [Word (a @ [CHR 0x22, CHR 0x5C, CHR 0x22]), Op (CHR '';''), Word c, Op (CHR '';''),
             Word ([CHR 0x5C, CHR 0x22, CHR 0x22] @ b)]"
proof -
  let ?r = "[quote_char, CHR 0x5C, CHR 0x22, quote_char, CHR 0x5C, CHR 0x22, quote_char]"
  have "quote_char \<notin> set c" using assms(3) by (auto simp: list_all_iff plain_char_def)
  then have q: "shellQuote (a @ [quote_char] @ '';'' @ c @ '';'' @ [quote_char] @ b)
      = quote_char # a @ ?r @ '';'' @ c @ '';'' @ ?r @ b @ [quote_char]"
    unfolding shellQuote_def replace_all_char replace_char_append replace_char_id [OF assms(1)]
      replace_char_id [OF assms(2)] replace_char_id [OF \<open>quote_char \<notin> set c\<close>]
    by (simp add: replace_char_def)
  have tail: "sh_lex Plain None (?r @ b @ [quote_char]) = Some [Word ([CHR 0x5C, CHR 0x22, CHR 0x22] @ b)]"
    using lex_single [OF assms(2), of "[CHR 0x5C, CHR 0x22, CHR 0x22]" "[]"]
    by (simp add: open_word_def add_char_def end_word_def)
  have semi: "sh_lex Plain (Some u) (CHR '';'' # s) = map_option (\<lambda>ts. Word u # Op (CHR '';'') # ts) (sh_lex Plain None s)" for u s
    by (simp add: sh_op_def sh_blank_def end_word_def)
  have mid: "sh_lex Plain None (c @ CHR '';'' # ?r @ b @ [quote_char])
      = Some [Word c, Op (CHR '';''), Word ([CHR 0x5C, CHR 0x22, CHR 0x22] @ b)]"
    unfolding lex_plain_start [OF assms(3,4)] semi tail by simp
  have "sh_lex Plain None (quote_char # a @ ?r @ CHR '';'' # c @ CHR '';'' # ?r @ b @ [quote_char])
      = sh_lex Plain (Some a) (tl ?r @ CHR '';'' # c @ CHR '';'' # ?r @ b @ [quote_char])"
    using lex_single [OF assms(1), of "[]" "tl ?r @ CHR '';'' # c @ CHR '';'' # ?r @ b @ [quote_char]"]
    by (simp add: open_word_def)
  also have "\<dots> = sh_lex Plain (Some (a @ [CHR 0x22, CHR 0x5C, CHR 0x22])) (CHR '';'' # c @ CHR '';'' # ?r @ b @ [quote_char])"
    by (simp add: open_word_def add_char_def)
  finally show ?thesis unfolding q using semi mid by simp
qed

lemma shellQuote_breaks_out_witness:
  "sh_lex Plain None (shellQuote (''x'' @ [quote_char] @ '';'' @ ''reboot'' @ '';'' @ [quote_char] @ []))
     = Some [Word (''x'' @ [CHR 0x22, CHR 0x5C, CHR 0x22]), Op (CHR '';''), Word ''reboot'', Op (CHR '';''),
             Word ([CHR 0x5C, CHR 0x22, CHR 0x22] @ [])]"
  by (rule shellQuote_breaks_out) (simp_all add: plain_char_def sh_blank_def sh_op_def sh_special_def)

section \<open>Bounded output and bounded retry\<close>

definition last_bytes :: "nat \<Rightarrow> string \<Rightarrow> string" where
  "last_bytes n xs = drop (length xs - n) xs"

lemma write_last_bytes: "deploymentOutput_Write limit (last_bytes limit xs) p = last_bytes limit (xs @ p)"
proof (cases "length xs \<le> limit")
  case False
  then show ?thesis by (cases p) (auto simp: deploymentOutput_Write_def last_bytes_def Let_def Suc_diff_le add.commute)
qed (auto simp: deploymentOutput_Write_def last_bytes_def Let_def)

text \<open>
  However the two output streams of a session are cut into writes, the buffer holds the last
  8 MiB of everything written, in order, and never more.
\<close>

theorem output_keeps_tail:
  "fold (\<lambda>p buffer. deploymentOutput_Write output_limit buffer p) ps [] = last_bytes output_limit (concat ps)
   \<and> length (fold (\<lambda>p buffer. deploymentOutput_Write output_limit buffer p) ps []) \<le> output_limit"
proof -
  have "fold (\<lambda>p buffer. deploymentOutput_Write output_limit buffer p) ps (last_bytes output_limit xs)
      = last_bytes output_limit (xs @ concat ps)" for xs
    by (induction ps arbitrary: xs) (simp_all add: write_last_bytes)
  from this [of "[]"] have "fold (\<lambda>p buffer. deploymentOutput_Write output_limit buffer p) ps []
      = last_bytes output_limit (concat ps)" by (simp add: last_bytes_def)
  then show ?thesis by (simp add: last_bytes_def)
qed

lemma dial_loop_spec:
  "dial_loop dial cancelled interrupted delays attempt = (r, n) \<Longrightarrow> attempt \<le> delays \<Longrightarrow>
     attempt < n \<and> n \<le> delays + 1
     \<and> (\<forall>k. attempt \<le> k \<and> k < n - 1 \<longrightarrow> (\<exists>e. dial k = DialError e True) \<and> \<not> cancelled k \<and> \<not> interrupted k)
     \<and> (\<forall>c. r = Inr c \<longleftrightarrow> dial (n - 1) = Dialed c)"
proof (induction dial cancelled interrupted delays attempt arbitrary: n rule: dial_loop.induct)
  case (1 dial cancelled interrupted delays attempt)
  show ?case
  proof (cases "dial attempt")
    case (Dialed c)
    with "1.prems" show ?thesis by (subst (asm) dial_loop.simps) auto
  next
    case (DialError e transient)
    show ?thesis
    proof (cases "cancelled attempt \<or> \<not> transient \<or> attempt \<ge> delays \<or> interrupted attempt")
      case True
      with DialError "1.prems" show ?thesis by (subst (asm) dial_loop.simps) (auto split: if_splits)
    next
      case False
      with DialError "1.prems"(1) have rec: "dial_loop dial cancelled interrupted delays (attempt + 1) = (r, n)"
        by (subst (asm) dial_loop.simps) simp
      from False have "\<not> cancelled attempt" "\<not> (\<not> transient \<or> delays \<le> attempt)" "\<not> interrupted attempt" by auto
      from "1.IH" [OF DialError this rec] False have
        ih: "attempt + 1 < n \<and> n \<le> delays + 1
          \<and> (\<forall>k. attempt + 1 \<le> k \<and> k < n - 1 \<longrightarrow> (\<exists>e. dial k = DialError e True) \<and> \<not> cancelled k \<and> \<not> interrupted k)
          \<and> (\<forall>c. r = Inr c \<longleftrightarrow> dial (n - 1) = Dialed c)" by simp
      have "(\<exists>e. dial k = DialError e True) \<and> \<not> cancelled k \<and> \<not> interrupted k" if "attempt \<le> k" "k < n - 1" for k
        using ih that False DialError by (cases "k = attempt") auto
      with ih show ?thesis by auto
    qed
  qed
qed

text \<open>
  Connecting makes at most one attempt more than there are delays, retries only after a transient
  error and while the task is not cancelled, and reports success exactly when its last attempt connected.
\<close>

theorem dial_retry_bounded:
  assumes "dialPushSSHWithRetry dial cancelled interrupted delays = (r, n)"
  shows "1 \<le> n \<and> n \<le> delays + 1
    \<and> (\<forall>k < n - 1. (\<exists>e. dial k = DialError e True) \<and> \<not> cancelled k \<and> \<not> interrupted k)
    \<and> (\<forall>c. r = Inr c \<longleftrightarrow> dial (n - 1) = Dialed c)"
  using dial_loop_spec [of dial cancelled interrupted delays 0 r n] assms
  by (simp add: dialPushSSHWithRetry_def Suc_le_eq)

lemma dial_retry_bounded_witness:
  "\<exists>n. dialPushSSHWithRetry (\<lambda>n. if n < 2 then DialError ''reset'' True else Dialed ()) (\<lambda>_. False) (\<lambda>_. False) 4 = (Inr (), n)
     \<and> n \<le> 5"
proof -
  let ?p = "dialPushSSHWithRetry (\<lambda>n. if n < 2 then DialError ''reset'' True else Dialed ()) (\<lambda>_. False) (\<lambda>_. False) 4"
  have "is_ok (fst ?p)" by code_simp
  from ok_pair [OF this] obtain n where n: "?p = (Inr (), n)" by auto
  with dial_retry_bounded [OF n] show ?thesis by auto
qed

end
