(* ===== verification/PushRun.thy ===== *)
theory PushRun
  imports Deployments Projects Shell
begin

text \<open>
  Creating and running a push deployment (\<open>internal/api/handlers_push.go\<close>, \<open>push_plan.go\<close>, the SSH
  executor of \<open>push_executor.go\<close>).  The plan is frozen when the deployment is created: one digest per
  target over everything that decides what runs there; the run recomputes every digest before the first
  connection.  Runs are serialised by a mutex of the server, so a run is one function on the store.
  The executor is an interface of the source; the locale \<open>executor\<close> states what the run relies on and
  the SSH executor interprets it.  JSON and SHA-256 (\<open>pe_digest\<close>) and the SSH library are arguments.
\<close>

section \<open>Requests\<close>

record create_request =
  rq_Version :: string
  rq_ServerIDs :: "string list"
  rq_Tags :: "string list"
  rq_TagMatch :: string
  rq_AllProjectTargets :: bool
  rq_DryRun :: bool
  rq_IdempotencyKey :: string

definition key_char :: "char \<Rightarrow> bool" where
  "key_char c = (is_alnum c \<or> c \<in> set ''-_.:'')"

definition applyDeploymentIdempotencyKey :: "string \<Rightarrow> string \<Rightarrow> string res" where
  "applyDeploymentIdempotencyKey header destination =
     (let hkey = trim_space header; bodyKey = trim_space destination;
          key = (if hkey = [] then bodyKey else hkey)
      in if hkey \<noteq> [] \<and> bodyKey \<noteq> [] \<and> hkey \<noteq> bodyKey then Inl (ErrMsg ''Idempotency-Key header and body must match'')
         else if key = [] then Inr []
         else if length key < 8 \<or> length key > 128 then Inl (ErrMsg ''idempotency key must be 8-128 characters'')
         else if list_all key_char key then Inr key
         else Inl (ErrMsg ''idempotency key contains invalid characters''))"

section \<open>The frozen plan\<close>

record plan_data =
  pl_Project :: string
  pl_Version :: string
  pl_Artifact :: string
  pl_HostID :: int
  pl_Address :: string
  pl_Port :: int
  pl_Username :: string
  pl_AuthMode :: string
  pl_HostKey :: string
  pl_Binding :: push_binding
  pl_Environment :: "(string \<times> string) list"
  pl_Configuration :: "server_entry option"

text \<open>What the server holds beside the store: configuration, public URL, the drain flag.\<close>

record push_env =
  pe_digest :: "plan_data \<Rightarrow> string res"
  pe_server_file :: "int \<Rightarrow> server_file option"
  pe_public_url :: "string res"
  pe_draining :: bool

definition safeAPIIdentifier :: "string \<Rightarrow> bool" where
  "safeAPIIdentifier v =
     (case v of [] \<Rightarrow> False
      | c # rest \<Rightarrow> is_alnum c \<and> length rest \<le> 127 \<and> list_all (\<lambda>x. is_alnum x \<or> x \<in> set ''._:-'') rest)"

definition plan_binding_ok :: "string \<Rightarrow> push_binding \<Rightarrow> bool" where
  "plan_binding_ok projectName b =
     (pb_ProjectName b = projectName \<and> safeAPIIdentifier (pb_ServerID b) \<and> is_abs (pb_RemoteRoot b)
      \<and> path_clean (pb_RemoteRoot b) \<noteq> ''/'' \<and> CHR 0x00 \<notin> set (pb_RemoteRoot b) \<and> pb_OS b = ''linux'')"

definition server_entry_of :: "push_env \<Rightarrow> int \<Rightarrow> string \<Rightarrow> server_entry option" where
  "server_entry_of env tenantID serverID =
     (case pe_server_file env tenantID of None \<Rightarrow> None | Some sf \<Rightarrow> Entry sf serverID)"

definition plan_of ::
  "push_env \<Rightarrow> int \<Rightarrow> string \<Rightarrow> string \<Rightarrow> version \<Rightarrow> push_host \<Rightarrow> push_binding \<Rightarrow> plan_data" where
  "plan_of env tenantID projectName version v host binding =
     (let entry = server_entry_of env tenantID (pb_ServerID binding)
      in \<lparr>pl_Project = projectName, pl_Version = version, pl_Artifact = am_SHA256 (v_Artifact v), pl_HostID = ph_ID host,
          pl_Address = ph_Address host, pl_Port = ph_Port host, pl_Username = ph_Username host,
          pl_AuthMode = ph_AuthMode host, pl_HostKey = ph_HostKey host, pl_Binding = binding,
          pl_Environment = (case entry of None \<Rightarrow> [] | Some e \<Rightarrow> se_PostHookEnv e), pl_Configuration = entry\<rparr>)"

definition pushPlanDigest ::
  "push_env \<Rightarrow> store \<Rightarrow> int \<Rightarrow> int \<Rightarrow> string \<Rightarrow> string \<Rightarrow> push_host \<Rightarrow> push_binding \<Rightarrow> (string \<times> (string \<times> string) list) res" where
  "pushPlanDigest env s tenantID projectID projectName version host binding =
     (if \<not> plan_binding_ok projectName binding
      then Inl (ErrMsg ''deployment target identity, Linux platform or remote root invalid'')
      else case GetVersion s projectID version of
        Inl _ \<Rightarrow> Inl (ErrMsg ''fixed deployment version is no longer published'')
      | Inr v \<Rightarrow>
          if v_Status v \<noteq> ''published'' then Inl (ErrMsg ''fixed deployment version is no longer published'')
          else (let plan = plan_of env tenantID projectName version v host binding
                in case pe_digest env plan of Inl e \<Rightarrow> Inl e | Inr digest \<Rightarrow> Inr (digest, pl_Environment plan)))"

definition physical_key :: "push_host \<Rightarrow> push_binding \<Rightarrow> string" where
  "physical_key host b =
     lower (ph_Address host) @ '':'' @ show_int (ph_Port host) @ ''/'' @ path_clean (pb_RemoteRoot b) @ ''/'' @ pb_ServerID b"

fun freeze_loop ::
  "push_env \<Rightarrow> store \<Rightarrow> int \<Rightarrow> int \<Rightarrow> string \<Rightarrow> string \<Rightarrow> push_binding list \<Rightarrow> string list \<Rightarrow> push_binding list res" where
  "freeze_loop env s tenantID projectID projectName version [] seen = Inr []"
| "freeze_loop env s tenantID projectID projectName version (b0 # bs) seen =
     (case GetPushBinding s tenantID (pb_ID b0) of
        Inl _ \<Rightarrow> Inl (ErrMsg ''deployment binding unavailable'')
      | Inr b \<Rightarrow>
          (case GetPushHost s tenantID (pb_HostID b) of
             Inl _ \<Rightarrow> Inl (ErrMsg ''deployment host unavailable'')
           | Inr host \<Rightarrow>
               (let key = physical_key host b
                in if key \<in> set seen then Inl (ErrMsg ''duplicate physical deployment target'')
                   else case pushPlanDigest env s tenantID projectID projectName version host b of
                     Inl e \<Rightarrow> Inl e
                   | Inr (digest, _) \<Rightarrow>
                       (case freeze_loop env s tenantID projectID projectName version bs (key # seen) of
                          Inl e \<Rightarrow> Inl e
                        | Inr plan \<Rightarrow> Inr (b\<lparr>pb_PlanDigest := digest\<rparr> # plan)))))"

definition freezePushPlan ::
  "push_env \<Rightarrow> store \<Rightarrow> int \<Rightarrow> int \<Rightarrow> string \<Rightarrow> string \<Rightarrow> push_binding list \<Rightarrow> push_binding list res" where
  "freezePushPlan env s tenantID projectID projectName version targets =
     freeze_loop env s tenantID projectID projectName version targets []"

section \<open>Creating\<close>

definition completePushDryRun :: "go_time \<Rightarrow> int \<Rightarrow> store \<Rightarrow> store" where
  "completePushDryRun now i s =
     (case MarkPushDeploymentRunning now i s of
        (Inl _, s1) \<Rightarrow> s1
      | (Inr _, s1) \<Rightarrow>
          (case GetPushDeploymentByID now s1 i of
             Inl _ \<Rightarrow> s1
           | Inr d \<Rightarrow>
               snd (CompletePushDeployment now i
                 (fold (\<lambda>t st. snd (MarkPushTarget now (pt_ID t) ''success''
                     ''dry-run: target selected; no SSH connection made'' st)) (pd_Targets d) s1))))"

definition default_tags :: "create_request \<Rightarrow> string list res" where
  "default_tags req =
     (if rq_AllProjectTargets req
      then (if rq_ServerIDs req \<noteq> [] \<or> rq_Tags req \<noteq> []
            then Inl (ErrMsg ''all_project_targets cannot be combined with server_ids or tags'') else Inr [])
      else if rq_Tags req = [] then Inr [''test''] else Inr (rq_Tags req))"

definition plan_targets ::
  "push_env \<Rightarrow> store \<Rightarrow> int \<Rightarrow> int \<Rightarrow> string \<Rightarrow> create_request \<Rightarrow> (create_request \<times> push_binding list) res" where
  "plan_targets env s tenantID pid projectName req0 =
     (let match = (if rq_TagMatch req0 = [] then ''all'' else rq_TagMatch req0)
      in if match \<noteq> ''all'' \<and> match \<noteq> ''any'' then Inl (ErrMsg ''tag_match must be all or any'')
         else case default_tags req0 of
           Inl e \<Rightarrow> Inl e
         | Inr tags \<Rightarrow>
             (case (if rq_Version req0 = [] then LatestPublishedVersion s pid else Inr (rq_Version req0)) of
                Inl _ \<Rightarrow> Inl (ErrMsg ''version required when no published version exists'')
              | Inr version \<Rightarrow>
                  (let req = req0\<lparr>rq_TagMatch := match, rq_Tags := tags, rq_Version := version\<rparr>
                   in case GetVersion s pid version of
                        Inl _ \<Rightarrow> Inl (ErrMsg ''version must be published'')
                      | Inr v \<Rightarrow>
                          if v_Status v \<noteq> ''published'' then Inl (ErrMsg ''version must be published'')
                          else
                            (let targets = ListPushBindingsForSelector s tenantID projectName (rq_ServerIDs req) tags (match = ''all'')
                             in if list_ex (\<lambda>serverID. \<not> list_ex (\<lambda>t. pb_ServerID t = trim_space serverID) targets) (rq_ServerIDs req)
                                then Inl (ErrMsg ''requested server_id is not in the resolved deployment plan'')
                                else map_sum id (Pair req) (freezePushPlan env s tenantID pid projectName version targets)))))"

text \<open>
  The selector column is the JSON of the request, given by \<open>json\<close>.  The second component of the result
  tells whether a run of the deployment is started.
\<close>

definition createPushDeployment ::
  "push_env \<Rightarrow> (create_request \<Rightarrow> string) \<Rightarrow> go_time \<Rightarrow> int \<Rightarrow> int \<Rightarrow> string \<Rightarrow> string \<Rightarrow> create_request \<Rightarrow> int \<Rightarrow> string
     \<Rightarrow> store \<Rightarrow> (push_deployment \<times> bool) res \<times> store" where
  "createPushDeployment env json now tenantID pid projectName username req0 taskID taskName s =
     (case plan_targets env s tenantID pid projectName req0 of
        Inl e \<Rightarrow> (Inl e, s)
      | Inr (req, targets) \<Rightarrow>
          (let d0 = \<lparr>pd_ID = 0, pd_TenantID = tenantID, pd_ProjectID = pid, pd_TaskID = taskID, pd_TaskName = taskName,
                     pd_HookEventID = 0, pd_IdempotencyKey = rq_IdempotencyKey req, pd_Replayed = False,
                     pd_Version = rq_Version req, pd_RequestedBy = username, pd_Selector = json req,
                     pd_Status = [], pd_CreatedAt = None, pd_StartedAt = None, pd_CompletedAt = None, pd_Targets = []\<rparr>
           in case CreatePushDeployment now d0 targets s of
                (Inl e, s1) \<Rightarrow> (Inl e, s1)
              | (Inr d, s1) \<Rightarrow>
                  if pd_Replayed d then (Inr (d, False), s1)
                  else if rq_DryRun req
                  then (Inr (d\<lparr>pd_Status := ''success''\<rparr>, False), completePushDryRun now (pd_ID d) s1)
                  else (Inr (d, True), s1)))"

section \<open>Executors\<close>

datatype deploy_error = CtxDone string | OutcomeUnknown | DeployFailed string

definition deploy_error_text :: "deploy_error \<Rightarrow> string" where
  "deploy_error_text e =
     (case e of CtxDone m \<Rightarrow> m
      | OutcomeUnknown \<Rightarrow> ''remote deployment outcome unknown; verify runtime before retry''
      | DeployFailed m \<Rightarrow> m)"

type_synonym deploy_fun =
  "go_time \<Rightarrow> push_command \<Rightarrow> push_host \<Rightarrow> push_binding \<Rightarrow> store \<Rightarrow> (string \<times> deploy_error option) \<times> store"

text \<open>
  The SSH side: whether the stored credential can be used, the handshake (the host's public key line and
  fingerprint, or an error), the session, and whether two key lines denote the same key.
\<close>

record ssh_world =
  sw_auth :: "push_host \<Rightarrow> string option"
  sw_dial :: "push_host \<Rightarrow> deploy_error + (string \<times> string)"
  sw_same_key :: "string \<Rightarrow> string \<Rightarrow> bool res"
  sw_tofu :: bool
  sw_run :: "push_host \<Rightarrow> string \<Rightarrow> string \<times> deploy_error option"

definition hostKeyCallback :: "ssh_world \<Rightarrow> go_time \<Rightarrow> push_host \<Rightarrow> string \<Rightarrow> string \<Rightarrow> store \<Rightarrow> unit res \<times> store" where
  "hostKeyCallback w now host key fingerprint s =
     (if ph_HostKey host \<noteq> []
      then case sw_same_key w (ph_HostKey host) key of
             Inl _ \<Rightarrow> (Inl (ErrMsg ''parse stored SSH host key''), s)
           | Inr same \<Rightarrow> if same then (Inr (), s) else (Inl (ErrMsg ''SSH host key mismatch''), s)
      else if \<not> sw_tofu w then (Inl (ErrMsg ''SSH host key is not enrolled''), s)
      else RecordPushHostKey now (ph_TenantID host) (ph_ID host) (trim_space key) fingerprint s)"

definition sshDeploy :: "ssh_world \<Rightarrow> deploy_fun" where
  "sshDeploy w now command host binding s =
     (case GetPushHost s (ph_TenantID host) (ph_ID host) of
        Inl _ \<Rightarrow> (([], Some (DeployFailed ''no such host'')), s)
      | Inr _ \<Rightarrow>
          (case sw_auth w host of
             Some e \<Rightarrow> (([], Some (DeployFailed e)), s)
           | None \<Rightarrow>
               (case sw_dial w host of
                  Inl e \<Rightarrow> (([], Some e), s)
                | Inr (key, fingerprint) \<Rightarrow>
                    (case hostKeyCallback w now host key fingerprint s of
                       (Inl _, s1) \<Rightarrow> (([], Some (DeployFailed ''connect'')), s1)
                     | (Inr _, s1) \<Rightarrow>
                         (case buildPushDeployScript command binding of
                            Inl _ \<Rightarrow> (([], Some (DeployFailed ''invalid post-hook environment variable name'')), s1)
                          | Inr script \<Rightarrow> (sw_run w host script, s1))))))"

section \<open>Running\<close>

record prepared_target =
  pp_target :: push_target
  pp_host :: push_host
  pp_binding :: push_binding
  pp_environment :: "(string \<times> string) list"

fun prepare_targets ::
  "push_env \<Rightarrow> store \<Rightarrow> int \<Rightarrow> int \<Rightarrow> string \<Rightarrow> string \<Rightarrow> push_target list \<Rightarrow> prepared_target list res" where
  "prepare_targets env s tenantID projectID projectName version [] = Inr []"
| "prepare_targets env s tenantID projectID projectName version (t # ts) =
     (case (GetPushBinding s tenantID (pt_BindingID t), GetPushHost s tenantID (pt_HostID t)) of
        (Inr binding, Inr host) \<Rightarrow>
          if pb_HostID binding \<noteq> pt_HostID t \<or> pb_ServerID binding \<noteq> pt_ServerID t
          then Inl (ErrMsg ''deployment target changed or disappeared'')
          else (case pushPlanDigest env s tenantID projectID projectName version host binding of
                  Inl _ \<Rightarrow> Inl (ErrMsg ''frozen deployment plan changed; create a new deployment'')
                | Inr (digest, environment) \<Rightarrow>
                    if pt_PlanDigest t = [] \<or> pt_PlanDigest t \<noteq> digest
                    then Inl (ErrMsg ''frozen deployment plan changed; create a new deployment'')
                    else (case prepare_targets env s tenantID projectID projectName version ts of
                            Inl e \<Rightarrow> Inl e
                          | Inr ps \<Rightarrow> Inr (\<lparr>pp_target = t, pp_host = host, pp_binding = binding,
                                             pp_environment = environment\<rparr> # ps)))
      | _ \<Rightarrow> Inl (ErrMsg ''deployment target changed or disappeared''))"

definition mark_all :: "go_time \<Rightarrow> string \<Rightarrow> string \<Rightarrow> int list \<Rightarrow> store \<Rightarrow> store" where
  "mark_all now status output ids s = fold (\<lambda>i st. snd (MarkPushTarget now i status output st)) ids s"

definition failPushBeforeExecution :: "go_time \<Rightarrow> push_deployment \<Rightarrow> string \<Rightarrow> store \<Rightarrow> store" where
  "failPushBeforeExecution now d message s =
     snd (CompletePushDeployment now (pd_ID d)
       (mark_all now ''failed'' (message @ ''; no SSH command executed'') (map pt_ID (pd_Targets d)) s))"

definition failure_status :: "deploy_error \<Rightarrow> string" where
  "failure_status e = (case e of DeployFailed _ \<Rightarrow> ''failed'' | _ \<Rightarrow> ''unknown'')"

definition push_command_for ::
  "string \<Rightarrow> string \<Rightarrow> push_deployment \<Rightarrow> string \<Rightarrow> prepared_target \<Rightarrow> push_command" where
  "push_command_for centralURL projectName d token p =
     \<lparr>pc_CentralURL = centralURL, pc_Project = projectName, pc_Version = pd_Version d, pc_ServerID = pb_ServerID (pp_binding p),
      pc_PullToken = token, pc_DeploymentID = show_int (pd_ID d), pc_IdempotencyKey = pd_IdempotencyKey d,
      pc_TargetTag = trim_space projectName @ ''|'' @ trim_space (pb_ServerID (pp_binding p)),
      pc_HookEnv = pp_environment p\<rparr>"

text \<open>The loop over the prepared targets; the first component is the list of commands that were executed.\<close>

fun run_targets ::
  "deploy_fun \<Rightarrow> (nat \<Rightarrow> go_time) \<Rightarrow> (prepared_target \<Rightarrow> push_command) \<Rightarrow> nat \<Rightarrow> prepared_target list \<Rightarrow> store
     \<Rightarrow> push_command list \<times> store" where
  "run_targets deploy clock mk i [] s = ([], s)"
| "run_targets deploy clock mk i (p # ps) s =
     (let t = pt_ID (pp_target p);
          s1 = snd (MarkPushTarget (clock i) t ''running'' [] s)
      in case deploy (clock i) (mk p) (pp_host p) (pp_binding p) s1 of
           ((output, None), s2) \<Rightarrow>
             (let (cs, s4) = run_targets deploy clock mk (i + 1) ps (snd (MarkPushTarget (clock i) t ''success'' output s2))
              in (mk p # cs, s4))
         | ((output, Some e), s2) \<Rightarrow>
             ([mk p],
              mark_all (clock i) ''skipped'' ''previous target failed; no SSH command executed''
                (map (\<lambda>r. pt_ID (pp_target r)) ps)
                (snd (MarkPushTarget (clock i) t (failure_status e) (appendDeploymentError output (deploy_error_text e)) s2))))"

definition runPushDeployment ::
  "push_env \<Rightarrow> deploy_fun \<Rightarrow> (nat \<Rightarrow> go_time) \<Rightarrow> int \<Rightarrow> int \<Rightarrow> string \<Rightarrow> store \<Rightarrow> push_command list \<times> store" where
  "runPushDeployment env deploy clock i tenantID projectName s =
     (if pe_draining env then ([], s)
      else case MarkPushDeploymentRunning (clock 0) i s of
        (Inl _, s1) \<Rightarrow> ([], s1)
      | (Inr _, s1) \<Rightarrow>
          (case GetPushDeploymentByID (clock 0) s1 i of
             Inl _ \<Rightarrow> ([], s1)
           | Inr d \<Rightarrow>
               (case pe_public_url env of
                  Inl e \<Rightarrow> ([], snd (CompletePushDeployment (clock 0) i
                      (mark_all (clock 0) ''failed'' (appendDeploymentError [] (error_text e)) (map pt_ID (pd_Targets d)) s1)))
                | Inr centralURL \<Rightarrow>
                    (case prepare_targets env s1 tenantID (pd_ProjectID d) projectName (pd_Version d) (pd_Targets d) of
                       Inl e \<Rightarrow> ([], failPushBeforeExecution (clock 0) d (error_text e) s1)
                     | Inr prepared \<Rightarrow>
                         (case GetUserByNameInTenant s1 tenantID (pd_RequestedBy d) of
                            Inl _ \<Rightarrow> ([], failPushBeforeExecution (clock 0) d ''deployment requester is no longer available'' s1)
                          | Inr user \<Rightarrow>
                              (let (cs, s2) = run_targets deploy clock (push_command_for centralURL projectName d (u_Token user)) 0 prepared s1
                               in (cs, snd (CompletePushDeployment (clock (length (pd_Targets d))) i s2))))))))"

section \<open>Target statuses\<close>

definition target_status :: "store \<Rightarrow> int \<Rightarrow> string option" where
  "target_status s i = map_option pt_Status (find (\<lambda>t. pt_ID t = i) (trows (st_targets s)))"

definition same_targets :: "store \<Rightarrow> store \<Rightarrow> bool" where
  "same_targets s s' =
     (map (\<lambda>t. (pt_ID t, pt_DeploymentID t)) (trows (st_targets s')) = map (\<lambda>t. (pt_ID t, pt_DeploymentID t)) (trows (st_targets s))
      \<and> tnext (st_targets s') = tnext (st_targets s) \<and> st_deployments s' = st_deployments s)"

lemma same_targets_refl: "same_targets s s"
  by (simp add: same_targets_def)

lemma same_targets_trans: "same_targets s s1 \<Longrightarrow> same_targets s1 s2 \<Longrightarrow> same_targets s s2"
  by (simp add: same_targets_def)

lemma mark_same: "same_targets s (snd (MarkPushTarget now i st out s))"
  by (simp add: same_targets_def MarkPushTarget_def)

lemma find_update:
  "find P (map (\<lambda>r. if Q r then f r else r) rows) = map_option (\<lambda>r. if Q r then f r else r) (find P rows)"
  if "\<And>r. P (f r) = P r" for P Q f rows
  using that by (induction rows) auto

lemma mark_status:
  "target_status (snd (MarkPushTarget now i st out s)) j = (if j = i then map_option (\<lambda>_. st) (target_status s j) else target_status s j)"
proof -
  obtain f where f: "\<And>t. pt_ID (f t) = pt_ID t" "\<And>t. pt_Status (f t) = st"
    and rows: "trows (st_targets (snd (MarkPushTarget now i st out s))) = map (\<lambda>t. if pt_ID t = i then f t else t) (trows (st_targets s))"
    by (rule that [of "if st = ''running'' then (\<lambda>t. t\<lparr>pt_Status := st, pt_StartedAt := format_time now\<rparr>)
          else (\<lambda>t. t\<lparr>pt_Status := st, pt_Output := out, pt_CompletedAt := format_time now\<rparr>)"])
      (auto simp: MarkPushTarget_def)
  have "target_status (snd (MarkPushTarget now i st out s)) j
      = map_option (\<lambda>t. pt_Status (if pt_ID t = i then f t else t)) (find (\<lambda>t. pt_ID t = j) (trows (st_targets s)))"
  proof -
    have "find (\<lambda>t. pt_ID t = j) (map (\<lambda>t. if pt_ID t = i then f t else t) (trows (st_targets s)))
        = map_option (\<lambda>t. if pt_ID t = i then f t else t) (find (\<lambda>t. pt_ID t = j) (trows (st_targets s)))"
      by (rule find_update) (simp add: f(1))
    then show ?thesis unfolding target_status_def rows by (simp only: option.map_comp o_def)
  qed
  then show ?thesis using f(2)
    by (cases "find (\<lambda>t. pt_ID t = j) (trows (st_targets s))") (auto simp: target_status_def dest: find_Some_iff2)
qed

lemma mark_all_same: "same_targets s (mark_all now st out ids s)"
proof (induction ids arbitrary: s)
  case (Cons i ids)
  from same_targets_trans [OF mark_same Cons] show ?case by (simp add: mark_all_def)
qed (simp add: mark_all_def same_targets_refl)

lemma mark_all_status:
  "target_status (mark_all now st out ids s) j
     = (if j \<in> set ids then map_option (\<lambda>_. st) (target_status s j) else target_status s j)"
  by (induction ids arbitrary: s) (auto simp: mark_all_def mark_status option.map_comp o_def)

lemma same_targets_ids:
  assumes "same_targets s s'"
  shows "map pt_ID (targets_of s' i) = map pt_ID (targets_of s i)"
proof -
  have *: "map pt_ID (filter (\<lambda>t. pt_DeploymentID t = i) ts)
      = map fst (filter (\<lambda>p. snd p = i) (map (\<lambda>t. (pt_ID t, pt_DeploymentID t)) ts))" for ts
    by (induction ts) auto
  show ?thesis
    unfolding targets_of_def tbl_select_def * assms [unfolded same_targets_def, THEN conjunct1] ..
qed

lemma statuses_by_id:
  assumes "tbl_ok pt_ID (st_targets s)"
  shows "map (target_status s) (map pt_ID (targets_of s i)) = map Some (map pt_Status (targets_of s i))"
proof -
  have "target_status s (pt_ID t) = Some (pt_Status t)" if "t \<in> set (trows (st_targets s))" for t
    using find_unique [OF target_rows.ids_distinct [OF assms] that] by (simp add: target_status_def)
  then show ?thesis by (simp add: targets_of_def)
qed

lemma tbl_ok_same: "same_targets s s' \<Longrightarrow> tbl_ok pt_ID (st_targets s) \<Longrightarrow> tbl_ok pt_ID (st_targets s')"
proof -
  assume same: "same_targets s s'" and ok: "tbl_ok pt_ID (st_targets s)"
  have ids: "map pt_ID (trows (st_targets s')) = map pt_ID (trows (st_targets s))"
    using arg_cong [of _ _ "map fst", OF same [unfolded same_targets_def, THEN conjunct1]] by (simp add: o_def)
  have alt: "tbl_ok pt_ID t \<longleftrightarrow> sorted_wrt (<) (map pt_ID (trows t)) \<and> (\<forall>i\<in>set (map pt_ID (trows t)). 0 < i \<and> i < tnext t) \<and> 0 < tnext t" for t
    by (auto simp: tbl_ok_def)
  have "tnext (st_targets s') = tnext (st_targets s)" using same by (simp add: same_targets_def)
  with ok show ?thesis unfolding alt ids by simp
qed

section \<open>The executor interface\<close>

text \<open>
  The outcome of a run that executed \<open>k\<close> commands: every target succeeded, or the \<open>k\<close>-th failed or is
  unknown, the ones before it succeeded and the ones after it were skipped.
\<close>

definition fail_fast :: "nat \<Rightarrow> string list \<Rightarrow> bool" where
  "fail_fast k sts =
     (sts = replicate k ''success''
      \<or> (\<exists>st\<in>{''failed'', ''unknown''}. \<exists>n. 0 < k \<and> sts = replicate (k - 1) ''success'' @ st # replicate n ''skipped''))"

lemma fail_fast_first: "st \<in> {''failed'', ''unknown''} \<Longrightarrow> fail_fast 1 (st # replicate n ''skipped'')"
  unfolding fail_fast_def by (rule disjI2, rule bexI [of _ st], rule exI [of _ n]) simp_all

lemma fail_fast_step:
  assumes "fail_fast k sts"
  shows "fail_fast (Suc k) (''success'' # sts)"
  using assms unfolding fail_fast_def
proof (elim disjE bexE exE conjE)
  fix st n assume "st \<in> {''failed'', ''unknown''}" "0 < k" "sts = replicate (k - 1) ''success'' @ st # replicate n ''skipped''"
  moreover from this(2,3) have "''success'' # sts = replicate (Suc k - 1) ''success'' @ st # replicate n ''skipped''"
    by (cases k) simp_all
  ultimately show "''success'' # sts = replicate (Suc k) ''success''
      \<or> (\<exists>st\<in>{''failed'', ''unknown''}. \<exists>n. 0 < Suc k \<and> ''success'' # sts = replicate (Suc k - 1) ''success'' @ st # replicate n ''skipped'')"
    by blast
qed simp

lemma fail_fast_settled:
  assumes "fail_fast k sts" "st \<in> set sts"
  shows "\<not> active_status st"
proof -
  have "set sts \<subseteq> {''success'', ''failed'', ''unknown'', ''skipped''}"
    using assms(1) unfolding fail_fast_def by (elim disjE bexE exE conjE) auto
  with assms(2) show ?thesis by (auto simp: active_status_def)
qed

lemma fail_fast_length: "fail_fast k sts \<Longrightarrow> k \<le> length sts"
  unfolding fail_fast_def by (elim disjE bexE exE conjE) simp_all

locale executor =
  fixes deploy :: deploy_fun
  assumes deploy_frame: "st_targets (snd (deploy now c h b s)) = st_targets s
    \<and> st_deployments (snd (deploy now c h b s)) = st_deployments s"
begin

lemma deploy_same: "same_targets s (snd (deploy now c h b s))"
  using deploy_frame by (simp add: same_targets_def)

lemma deploy_status: "target_status (snd (deploy now c h b s)) j = target_status s j"
  using deploy_frame by (simp add: target_status_def)

lemma run_targets_fail_fast:
  "run_targets deploy clock mk i ps s = (cs, s') \<Longrightarrow> distinct (map (\<lambda>p. pt_ID (pp_target p)) ps) \<Longrightarrow>
   (\<And>p. p \<in> set ps \<Longrightarrow> target_status s (pt_ID (pp_target p)) \<noteq> None) \<Longrightarrow>
   same_targets s s' \<and> cs = map mk (take (length cs) ps)
   \<and> (\<exists>sts. map (\<lambda>p. target_status s' (pt_ID (pp_target p))) ps = map Some sts \<and> fail_fast (length cs) sts)
   \<and> (\<forall>j. j \<notin> (\<lambda>p. pt_ID (pp_target p)) ` set ps \<longrightarrow> target_status s' j = target_status s j)"
proof (induction ps arbitrary: i s cs)
  case Nil
  then show ?case by (auto simp: same_targets_refl fail_fast_def)
next
  case (Cons p ps)
  let ?t = "pt_ID (pp_target p)" and ?id = "\<lambda>p. pt_ID (pp_target p)"
  let ?s1 = "snd (MarkPushTarget (clock i) ?t ''running'' [] s)"
  obtain outp err s2 where d: "deploy (clock i) (mk p) (pp_host p) (pp_binding p) ?s1 = ((outp, err), s2)"
    by (metis surj_pair)
  have same2: "same_targets s s2"
  proof -
    have "same_targets ?s1 s2" using deploy_same [of ?s1 "clock i" "mk p" "pp_host p" "pp_binding p"] d by simp
    with mark_same show ?thesis by (rule same_targets_trans)
  qed
  have st2: "target_status s2 j = (if j = ?t then map_option (\<lambda>_. ''running'') (target_status s j) else target_status s j)" for j
    using deploy_status [of "clock i" "mk p" "pp_host p" "pp_binding p" ?s1 j] d by (simp add: mark_status)
  have has: "target_status s ?t \<noteq> None" using Cons.prems(3) by simp
  have new: "?t \<notin> ?id ` set ps" using Cons.prems(2) by auto
  show ?case
  proof (cases err)
    case None
    let ?s3 = "snd (MarkPushTarget (clock i) ?t ''success'' outp s2)"
    obtain cs' where r: "run_targets deploy clock mk (i + 1) ps ?s3 = (cs', s')" and cs: "cs = mk p # cs'"
      using Cons.prems(1) d None by (auto simp: Let_def split: prod.splits)
    have st3: "target_status ?s3 j = (if j = ?t then map_option (\<lambda>_. ''success'') (target_status s j) else target_status s j)" for j
      by (auto simp: mark_status st2 option.map_comp o_def)
    have "target_status ?s3 (?id q) \<noteq> None" if "q \<in> set ps" for q
      using that new Cons.prems(3) [of q] by (auto simp: st3)
    note ih = Cons.IH [OF r _ this]
    obtain sts where ih: "same_targets ?s3 s'" "cs' = map mk (take (length cs') ps)"
      "map (\<lambda>p. target_status s' (?id p)) ps = map Some sts" "fail_fast (length cs') sts"
      "\<forall>j. j \<notin> ?id ` set ps \<longrightarrow> target_status s' j = target_status ?s3 j"
      using ih Cons.prems(2) by auto
    have "target_status s' ?t = Some ''success''" using ih(5) new has st3 [of ?t] by auto
    moreover have "target_status s' j = target_status s j" if "j \<notin> ?id ` set (p # ps)" for j
      using that ih(5) st3 [of j] by simp
    moreover have "same_targets s s'"
      using same_targets_trans [OF same_targets_trans [OF same2 mark_same] ih(1)] .
    ultimately show ?thesis using ih fail_fast_step [OF ih(4)] cs
      by (auto intro!: exI [of _ "''success'' # sts"])
  next
    case (Some e)
    let ?s3 = "snd (MarkPushTarget (clock i) ?t (failure_status e) (appendDeploymentError outp (deploy_error_text e)) s2)"
    let ?s' = "mark_all (clock i) ''skipped'' ''previous target failed; no SSH command executed'' (map ?id ps) ?s3"
    have cs: "cs = [mk p]" "s' = ?s'" using Cons.prems(1) d Some by (auto simp: Let_def)
    have st3: "target_status ?s3 j = (if j = ?t then map_option (\<lambda>_. failure_status e) (target_status s j) else target_status s j)" for j
      by (auto simp: mark_status st2 option.map_comp o_def)
    have st': "target_status s' j = (if j \<in> ?id ` set ps then map_option (\<lambda>_. ''skipped'') (target_status ?s3 j) else target_status ?s3 j)" for j
      by (simp add: cs mark_all_status)
    have "target_status s' ?t = Some (failure_status e)" using new has by (auto simp: st' st3)
    moreover have "target_status s' (?id q) = Some ''skipped''" if "q \<in> set ps" for q
      using that Cons.prems(3) [of q] new by (auto simp: st' st3)
    then have "map (\<lambda>p. target_status s' (?id p)) ps = map (\<lambda>_. Some ''skipped'') ps" by (intro map_cong) auto
    then have "map (\<lambda>p. target_status s' (?id p)) ps = map Some (replicate (length ps) ''skipped'')"
      by (simp add: map_replicate_const)
    moreover have "fail_fast 1 (failure_status e # replicate (length ps) ''skipped'')"
      by (rule fail_fast_first) (simp add: failure_status_def split: deploy_error.split)
    moreover have "target_status s' j = target_status s j" if "j \<notin> ?id ` set (p # ps)" for j
      using that by (simp add: st' st3)
    moreover have "same_targets s s'"
      unfolding cs(2) by (rule same_targets_trans [OF same_targets_trans [OF same2 mark_same] mark_all_same])
    ultimately show ?thesis using cs(1)
      by (auto intro!: exI [of _ "failure_status e # replicate (length ps) ''skipped''"])
  qed
qed

end

lemma callback_frame:
  "st_targets (snd (hostKeyCallback w now host key fp s)) = st_targets s
   \<and> st_deployments (snd (hostKeyCallback w now host key fp s)) = st_deployments s"
  by (auto simp: hostKeyCallback_def RecordPushHostKey_def Let_def split: sum.split prod.split)

interpretation ssh: executor "sshDeploy w" for w
proof unfold_locales
  fix now c h b s
  show "st_targets (snd (sshDeploy w now c h b s)) = st_targets s
    \<and> st_deployments (snd (sshDeploy w now c h b s)) = st_deployments s"
    unfolding sshDeploy_def
    using callback_frame [of w now h _ _ s]
    by (auto split: sum.split option.split prod.split simp: prod_eq_iff)
qed

section \<open>A run as a whole\<close>

lemma prepare_targets_cong:
  assumes "st_hosts s1 = st_hosts s" "st_bindings s1 = st_bindings s" "st_versions s1 = st_versions s"
  shows "prepare_targets env s1 tenantID pid projectName v ts = prepare_targets env s tenantID pid projectName v ts"
proof -
  have "joined_bindings s1 = joined_bindings s" by (simp add: joined_bindings_def host_of_def assms)
  then have b: "GetPushBinding s1 t i = GetPushBinding s t i" for t i by (simp add: GetPushBinding_def)
  have h: "GetPushHost s1 t i = GetPushHost s t i" for t i by (simp add: GetPushHost_def assms)
  have "GetVersion s1 p w = GetVersion s p w" for p w by (simp add: GetVersion_def assms)
  then have p: "pushPlanDigest env s1 tenantID pid projectName v host b = pushPlanDigest env s tenantID pid projectName v host b" for host b
    by (simp add: pushPlanDigest_def)
  show ?thesis
  proof (induction ts)
    case (Cons t ts)
    show ?case unfolding prepare_targets.simps b h p Cons ..
  qed simp
qed

lemma prepare_targets_spec:
  "prepare_targets env s tenantID projectID projectName version ts = Inr ps \<Longrightarrow>
     map pp_target ps = ts
     \<and> (\<forall>p\<in>set ps. GetPushBinding s tenantID (pt_BindingID (pp_target p)) = Inr (pp_binding p)
          \<and> GetPushHost s tenantID (pt_HostID (pp_target p)) = Inr (pp_host p)
          \<and> pb_HostID (pp_binding p) = pt_HostID (pp_target p) \<and> pb_ServerID (pp_binding p) = pt_ServerID (pp_target p)
          \<and> pushPlanDigest env s tenantID projectID projectName version (pp_host p) (pp_binding p)
              = Inr (pt_PlanDigest (pp_target p), pp_environment p))"
proof (induction ts arbitrary: ps)
  case (Cons t ts)
  obtain b h digest envr ps' where
    r: "GetPushBinding s tenantID (pt_BindingID t) = Inr b" "GetPushHost s tenantID (pt_HostID t) = Inr h"
      "pb_HostID b = pt_HostID t" "pb_ServerID b = pt_ServerID t"
      "pushPlanDigest env s tenantID projectID projectName version h b = Inr (digest, envr)" "pt_PlanDigest t = digest"
      "prepare_targets env s tenantID projectID projectName version ts = Inr ps'"
      "ps = \<lparr>pp_target = t, pp_host = h, pp_binding = b, pp_environment = envr\<rparr> # ps'"
    using Cons.prems by (auto split: sum.splits if_splits prod.splits)
  from Cons.IH [OF r(7)] r show ?case by simp
qed simp

definition claimed :: "go_time \<Rightarrow> push_deployment \<Rightarrow> push_deployment" where
  "claimed now d = d\<lparr>pd_Status := ''running'', pd_StartedAt := format_time now\<rparr>"

lemma claim_rows:
  assumes "dep_ok s" "MarkPushDeploymentRunning now i s = (Inr (), s1)"
  obtains d where "d \<in> set (trows (st_deployments s))" "pd_ID d = i" "pd_Status d = ''queued''"
    "claimed now d \<in> set (trows (st_deployments s1))" "dep_ok s1"
    "st_targets s1 = st_targets s" "st_hosts s1 = st_hosts s" "st_bindings s1 = st_bindings s" "st_versions s1 = st_versions s"
proof -
  from claim_queued [OF assms(2)] obtain d where d: "d \<in> set (trows (st_deployments s))" "pd_ID d = i" "pd_Status d = ''queued''"
    by blast
  have s1: "s1 = s\<lparr>st_deployments := snd (tbl_update (\<lambda>d. pd_ID d = i \<and> pd_Status d = ''queued'')
       (\<lambda>d. d\<lparr>pd_Status := ''running'', pd_StartedAt := format_time now\<rparr>) (st_deployments s))\<rparr>"
    using assms(2) dep_effects(1) [of now i s] by simp
  have "claimed now d \<in> (\<lambda>r. if pd_ID r = i \<and> pd_Status r = ''queued''
      then r\<lparr>pd_Status := ''running'', pd_StartedAt := format_time now\<rparr> else r) ` set (trows (st_deployments s))"
    by (rule rev_image_eqI [OF d(1)]) (simp add: claimed_def d)
  then have "claimed now d \<in> set (trows (st_deployments s1))" unfolding s1 by (simp del: if_image_distrib)
  moreover have "dep_ok s1" using dep_ok_running [OF assms(1), of now i] assms(2) by simp
  ultimately show ?thesis using d by (intro that [of d]) (simp_all add: s1)
qed

lemma deployment_read:
  assumes "dep_ok s" "r \<in> set (trows (st_deployments s))"
  shows "GetPushDeploymentByID now s (pd_ID r) = Inr d \<Longrightarrow> d = r\<lparr>pd_Targets := targets_of s (pd_ID r)\<rparr>"
    and "retained now r \<Longrightarrow> GetPushDeploymentByID now s (pd_ID r) = Inr (r\<lparr>pd_Targets := targets_of s (pd_ID r)\<rparr>)"
proof -
  have ok: "tbl_ok pd_ID (st_deployments s)" using assms(1) by (simp add: dep_ok_def)
  have row: "tbl_row (\<lambda>d. pd_ID d = pd_ID r) (st_deployments s) = Inr r"
    by (rule deployment_events.row_by_id [OF ok assms(2)])
  show "d = r\<lparr>pd_Targets := targets_of s (pd_ID r)\<rparr>" if "GetPushDeploymentByID now s (pd_ID r) = Inr d"
  proof -
    from that row obtain x where x: "tbl_row (\<lambda>d. is_deployment (pd_TenantID r) (pd_ProjectID r) (pd_ID r) d \<and> retained now d)
        (st_deployments s) = Inr x" "d = x\<lparr>pd_Targets := targets_of s (pd_ID r)\<rparr>"
      by (auto simp: GetPushDeploymentByID_def GetPushDeployment_def split: sum.splits)
    from tbl_row_Inr [OF x(1)] have "x = r"
      using deployment_events.id_unique [OF ok _ assms(2)] by (auto simp: is_deployment_def)
    with x(2) show ?thesis by simp
  qed
  show "GetPushDeploymentByID now s (pd_ID r) = Inr (r\<lparr>pd_Targets := targets_of s (pd_ID r)\<rparr>)" if "retained now r"
    using GetPushDeployment_row [OF assms that] row by (simp add: GetPushDeploymentByID_def)
qed

lemma targets_of_cong: "st_targets s' = st_targets s \<Longrightarrow> targets_of s' i = targets_of s i"
  by (simp add: targets_of_def)

lemma complete_status:
  assumes "dep_ok s" "d \<in> set (trows (st_deployments s))" "same_targets s s2"
  shows "\<exists>d'\<in>set (trows (st_deployments (snd (CompletePushDeployment now (pd_ID d) s2)))). pd_ID d' = pd_ID d
    \<and> (pd_Status d' = ''success'' \<longleftrightarrow> (\<forall>t\<in>set (targets_of s2 (pd_ID d)). pt_Status t = ''success''))
    \<and> (pd_Status d' = ''success'' \<or> pd_Status d' = ''failed'')"
proof -
  let ?bad = "tbl_select (\<lambda>t. pt_DeploymentID t = pd_ID d \<and> pt_Status t \<noteq> ''success'') (st_targets s2)"
  let ?st = "if length ?bad > 0 then ''failed'' else ''success''"
  let ?g = "\<lambda>e. e\<lparr>pd_Status := ?st, pd_CompletedAt := format_time now\<rparr>"
  have rows: "trows (st_deployments (snd (CompletePushDeployment now (pd_ID d) s2)))
      = map (\<lambda>e. if pd_ID e = pd_ID d then ?g e else e) (trows (st_deployments s))"
    using assms(3) by (simp add: CompletePushDeployment_def Let_def same_targets_def)
  have bad: "?bad = [] \<longleftrightarrow> (\<forall>t\<in>set (targets_of s2 (pd_ID d)). pt_Status t = ''success'')"
    by (auto simp: targets_of_def tbl_select_def filter_empty_conv)
  have "?g d \<in> set (trows (st_deployments (snd (CompletePushDeployment now (pd_ID d) s2))))"
    unfolding rows set_map by (rule rev_image_eqI [OF assms(2)]) simp
  then show ?thesis by (rule bexI [rotated]) (simp add: bad [symmetric])
qed

lemma complete_targets: "targets_of (snd (CompletePushDeployment now i s)) j = targets_of s j"
  by (simp add: CompletePushDeployment_def Let_def targets_of_def)

lemma marked_statuses:
  assumes "dep_ok s" "\<And>t. t \<in> set (targets_of s i) \<Longrightarrow> target_status s2 (pt_ID t) = Some st" "same_targets s s2"
  shows "map pt_Status (targets_of s2 i) = map (\<lambda>_. st) (targets_of s i)"
proof -
  have "tbl_ok pt_ID (st_targets s2)" using tbl_ok_same [OF assms(3)] assms(1) by (simp add: dep_ok_def)
  then have "map Some (map pt_Status (targets_of s2 i)) = map (target_status s2) (map pt_ID (targets_of s2 i))"
    by (rule statuses_by_id [symmetric])
  also have "\<dots> = map (target_status s2) (map pt_ID (targets_of s i))"
    unfolding same_targets_ids [OF assms(3)] ..
  also have "\<dots> = map Some (map (\<lambda>_. st) (targets_of s i))" using assms(2) by simp
  finally show ?thesis by (simp only: inj_map_eq_map [OF inj_Some])
qed

lemma known_status: "dep_ok s \<Longrightarrow> t \<in> set (targets_of s i) \<Longrightarrow> target_status s (pt_ID t) = Some (pt_Status t)"
  using find_unique [OF target_rows.ids_distinct, of "st_targets s" t] by (simp add: target_status_def dep_ok_def targets_of_def)

lemma mark_all_statuses:
  "dep_ok s \<Longrightarrow> map pt_Status (targets_of (mark_all now st out (map pt_ID (targets_of s i)) s) i) = map (\<lambda>_. st) (targets_of s i)"
  by (rule marked_statuses) (auto simp: mark_all_status mark_all_same known_status)

context executor
begin

text \<open>Everything a run that got past the claim can do.\<close>

lemma run_cases:
  assumes "dep_ok s" "runPushDeployment env deploy clock i tenantID projectName s = (cs, s')"
  obtains (idle) "cs = []" "pe_draining env \<or> (\<exists>e. fst (MarkPushDeploymentRunning (clock 0) i s) = Inl e)"
  | (unread) d where "cs = []" "d \<in> set (trows (st_deployments s))" "pd_ID d = i" "\<not> retained (clock 0) d"
  | (failed) d where "cs = []" "d \<in> set (trows (st_deployments s))" "pd_ID d = i" "pd_Status d = ''queued''"
      "map pt_Status (targets_of s' i) = map (\<lambda>_. ''failed'') (targets_of s i)"
      "\<exists>d'\<in>set (trows (st_deployments s')). pd_ID d' = i \<and> (pd_Status d' = ''success'' \<or> pd_Status d' = ''failed'')"
  | (ran) d ps mk sts where "d \<in> set (trows (st_deployments s))" "pd_ID d = i" "pd_Status d = ''queued''"
      "prepare_targets env s tenantID (pd_ProjectID d) projectName (pd_Version d) (targets_of s i) = Inr ps"
      "\<And>p. pc_ServerID (mk p) = pb_ServerID (pp_binding p)" "\<And>p. pc_Version (mk p) = pd_Version d"
      "cs = map mk (take (length cs) ps)" "map pt_Status (targets_of s' i) = sts" "fail_fast (length cs) sts"
      "\<exists>d'\<in>set (trows (st_deployments s')). pd_ID d' = i \<and> (pd_Status d' = ''success'' \<or> pd_Status d' = ''failed'')
         \<and> (pd_Status d' = ''success'' \<longleftrightarrow> (\<forall>st\<in>set sts. st = ''success''))"
proof (cases "pe_draining env \<or> (\<exists>e. fst (MarkPushDeploymentRunning (clock 0) i s) = Inl e)")
  case True
  then have "cs = []" using assms(2) by (auto simp: runPushDeployment_def split: prod.splits sum.splits if_splits)
  with True show ?thesis by (rule idle [rotated])
next
  case False
  then obtain s1 where m: "MarkPushDeploymentRunning (clock 0) i s = (Inr (), s1)"
    by (cases "MarkPushDeploymentRunning (clock 0) i s") (auto, metis old.unit.exhaust sum.exhaust)
  obtain d where d: "d \<in> set (trows (st_deployments s))" "pd_ID d = i" "pd_Status d = ''queued''"
    and r1: "claimed (clock 0) d \<in> set (trows (st_deployments s1))" and ok1: "dep_ok s1"
    and same: "st_targets s1 = st_targets s" "st_hosts s1 = st_hosts s" "st_bindings s1 = st_bindings s" "st_versions s1 = st_versions s"
    by (rule claim_rows [OF assms(1) m])
  have tg: "targets_of s1 i = targets_of s i" by (rule targets_of_cong [OF same(1)])
  have id1: "pd_ID (claimed (clock 0) d) = i" using d(2) by (simp add: claimed_def)
  show ?thesis
  proof (cases "GetPushDeploymentByID (clock 0) s1 i")
    case (Inl e)
    have "\<not> retained (clock 0) (claimed (clock 0) d)"
      using deployment_read(2) [OF ok1 r1, of "clock 0"] Inl id1 by auto
    then have "\<not> retained (clock 0) d" by (simp add: retained_def claimed_def)
    moreover have "cs = []" using assms(2) m Inl False by (simp add: runPushDeployment_def)
    ultimately show ?thesis using d by (intro unread)
  next
    case (Inr d1)
    have d1: "d1 = claimed (clock 0) d\<lparr>pd_Targets := targets_of s i\<rparr>"
      using deployment_read(1) [OF ok1 r1, of "clock 0" d1] Inr id1 tg by simp
    have fail: thesis if "cs = []" "s' = snd (CompletePushDeployment (clock 0) i
        (mark_all (clock 0) ''failed'' out (map pt_ID (targets_of s i)) s1))" for out
    proof (rule failed [OF that(1) d])
      have "map pt_Status (targets_of s' i) = map (\<lambda>_. ''failed'') (targets_of s1 i)"
        unfolding that(2) complete_targets tg [symmetric] by (rule mark_all_statuses [OF ok1])
      then show "map pt_Status (targets_of s' i) = map (\<lambda>_. ''failed'') (targets_of s i)" unfolding tg .
      show "\<exists>d'\<in>set (trows (st_deployments s')). pd_ID d' = i \<and> (pd_Status d' = ''success'' \<or> pd_Status d' = ''failed'')"
        using complete_status [OF ok1 r1 mark_all_same, of "clock 0" "clock 0"] unfolding id1 that(2) by blast
    qed
    show ?thesis
    proof (cases "pe_public_url env")
      case (Inl e)
      then show ?thesis using assms(2) m Inr False d1 by (intro fail) (auto simp: runPushDeployment_def)
    next
      case url: (Inr centralURL)
      have prep: "prepare_targets env s1 tenantID pid projectName v ts = prepare_targets env s tenantID pid projectName v ts" for pid v ts
        by (rule prepare_targets_cong [OF same(2-4)])
      show ?thesis
      proof (cases "prepare_targets env s tenantID (pd_ProjectID d) projectName (pd_Version d) (targets_of s i)")
        case (Inl e)
        then show ?thesis using assms(2) m Inr False url d d1
          by (intro fail) (auto simp: runPushDeployment_def failPushBeforeExecution_def claimed_def prep)
      next
        case ps: (Inr ps)
        show ?thesis
        proof (cases "GetUserByNameInTenant s1 tenantID (pd_RequestedBy d)")
          case (Inl e)
          then show ?thesis using assms(2) m Inr False url d d1 ps
            by (intro fail) (auto simp: runPushDeployment_def failPushBeforeExecution_def claimed_def prep)
        next
          case user: (Inr user)
          let ?mk = "push_command_for centralURL projectName d1 (u_Token user)"
          obtain s2 where run: "run_targets deploy clock ?mk 0 ps s1 = (cs, s2)"
            and s': "s' = snd (CompletePushDeployment (clock (length (targets_of s i))) i s2)"
            using assms(2) m Inr False url d d1 ps user
            by (auto simp: runPushDeployment_def claimed_def prep split: prod.splits)
          have ts: "map pp_target ps = targets_of s1 i" using prepare_targets_spec [OF ps] tg by simp
          then have ids: "map (\<lambda>p. pt_ID (pp_target p)) ps = map pt_ID (targets_of s1 i)"
            by (metis (no_types, lifting) list.map_comp map_eq_conv comp_apply)
          have "distinct (map pt_ID (targets_of s1 i))"
            using target_rows.ids_distinct [of "st_targets s1"] ok1
            by (simp add: dep_ok_def targets_of_def tbl_select_def distinct_map_filter)
          then have dist: "distinct (map (\<lambda>p. pt_ID (pp_target p)) ps)" unfolding ids .
          have known: "target_status s1 (pt_ID (pp_target p)) \<noteq> None" if "p \<in> set ps" for p
          proof -
            have "pp_target p \<in> set (targets_of s1 i)" using that ts [symmetric] by simp
            from known_status [OF ok1 this] show ?thesis by simp
          qed
          from run_targets_fail_fast [OF run dist known] obtain sts where
            same2: "same_targets s1 s2" and cs: "cs = map ?mk (take (length cs) ps)"
            and st: "map (\<lambda>p. target_status s2 (pt_ID (pp_target p))) ps = map Some sts" "fail_fast (length cs) sts" by blast
          have "tbl_ok pt_ID (st_targets s2)" using tbl_ok_same [OF same2] ok1 by (simp add: dep_ok_def)
          from statuses_by_id [OF this, of i] have "map Some (map pt_Status (targets_of s2 i)) = map (target_status s2) (map pt_ID (targets_of s1 i))"
            unfolding same_targets_ids [OF same2] by (rule sym)
          also have "\<dots> = map Some sts" using st(1) unfolding ids [symmetric] by (simp add: o_def)
          finally have sts: "map pt_Status (targets_of s2 i) = sts" by (simp only: inj_map_eq_map [OF inj_Some])
          show ?thesis
          proof (rule ran [OF d ps])
            show "pc_ServerID (?mk p) = pb_ServerID (pp_binding p)" for p by (simp add: push_command_for_def)
            show "pc_Version (?mk p) = pd_Version d" for p by (simp add: push_command_for_def d1 claimed_def)
            show "cs = map ?mk (take (length cs) ps)" by (rule cs)
            show "map pt_Status (targets_of s' i) = sts" unfolding s' complete_targets by (rule sts)
            show "fail_fast (length cs) sts" by (rule st(2))
            show "\<exists>d'\<in>set (trows (st_deployments s')). pd_ID d' = i \<and> (pd_Status d' = ''success'' \<or> pd_Status d' = ''failed'')
               \<and> (pd_Status d' = ''success'' \<longleftrightarrow> (\<forall>st\<in>set sts. st = ''success''))"
              using complete_status [OF ok1 r1 same2, of "clock (length (targets_of s i))"] unfolding id1 s' sts [symmetric] by auto
          qed
        qed
      qed
    qed
  qed
qed

end

section \<open>Properties\<close>

text \<open>
  C2: a run stops at the first target that does not succeed: the commands that were executed are those
  of the first targets in order, the targets before the last executed one succeeded, that one
  succeeded, failed or is unknown, and every target after a failure is skipped; the deployment is
  reported successful exactly when all its targets are.
\<close>

theorem run_fail_fast:
  assumes "dep_ok s" "runPushDeployment env (sshDeploy w) clock i tenantID projectName s = (cs, s')" "cs \<noteq> []"
  shows "fail_fast (length cs) (map pt_Status (targets_of s' i))
    \<and> map pc_ServerID cs = map pt_ServerID (take (length cs) (targets_of s i))
    \<and> (\<exists>d'\<in>set (trows (st_deployments s')). pd_ID d' = i
         \<and> (pd_Status d' = ''success'' \<longleftrightarrow> (\<forall>t\<in>set (targets_of s' i). pt_Status t = ''success'')))"
  using assms(1,2)
proof (cases rule: ssh.run_cases)
  case (ran d ps mk sts)
  note ps = prepare_targets_spec [OF ran(4)]
  have e: "map pp_target ps = targets_of s i" using ps by blast
  have "map (\<lambda>p. pb_ServerID (pp_binding p)) ps = map pt_ServerID (targets_of s i)"
    unfolding e [symmetric] map_map by (rule map_cong [OF refl]) (use ps in \<open>simp add: o_def\<close>)
  then have "take (length cs) (map (\<lambda>p. pb_ServerID (pp_binding p)) ps) = take (length cs) (map pt_ServerID (targets_of s i))"
    by simp
  moreover have "map pc_ServerID cs = map (\<lambda>p. pb_ServerID (pp_binding p)) (take (length cs) ps)"
    by (subst ran(7)) (simp add: ran(5) o_def)
  moreover have "(\<forall>st\<in>set sts. st = ''success'') \<longleftrightarrow> (\<forall>t\<in>set (targets_of s' i). pt_Status t = ''success'')"
    unfolding ran(8) [symmetric] by simp
  ultimately show ?thesis using ran(8,9,10) by (auto simp: take_map)
qed (use assms(3) in simp_all)

text \<open>
  C1: nothing runs on a changed plan: when a run executes any command at all, then for every target of
  the deployment the binding and the host recorded at creation still exist, the version is still
  published, and the digest over the host's identity, the binding, the artifact and the configuration
  as they are now is the digest that was frozen.
\<close>

theorem run_only_frozen_plan:
  assumes "dep_ok s" "runPushDeployment env (sshDeploy w) clock i tenantID projectName s = (cs, s')" "cs \<noteq> []"
  shows "\<exists>d\<in>set (trows (st_deployments s)). pd_ID d = i \<and> pd_Status d = ''queued''
    \<and> (\<forall>t\<in>set (targets_of s i). \<exists>b h v.
         GetPushBinding s tenantID (pt_BindingID t) = Inr b \<and> GetPushHost s tenantID (pt_HostID t) = Inr h
         \<and> pb_HostID b = pt_HostID t \<and> pb_ServerID b = pt_ServerID t
         \<and> GetVersion s (pd_ProjectID d) (pd_Version d) = Inr v \<and> v_Status v = ''published''
         \<and> pe_digest env (plan_of env tenantID projectName (pd_Version d) v h b) = Inr (pt_PlanDigest t))"
  using assms(1,2)
proof (cases rule: ssh.run_cases)
  case (ran d ps mk sts)
  note ps = prepare_targets_spec [OF ran(4)]
  have digest: "\<exists>v. GetVersion s (pd_ProjectID d) (pd_Version d) = Inr v \<and> v_Status v = ''published''
      \<and> pe_digest env (plan_of env tenantID projectName (pd_Version d) v h b) = Inr x"
    if "pushPlanDigest env s tenantID (pd_ProjectID d) projectName (pd_Version d) h b = Inr (x, e)" for h b x e
    using that by (auto simp: pushPlanDigest_def Let_def split: if_splits sum.splits)
  have "\<exists>b h v. GetPushBinding s tenantID (pt_BindingID t) = Inr b \<and> GetPushHost s tenantID (pt_HostID t) = Inr h
         \<and> pb_HostID b = pt_HostID t \<and> pb_ServerID b = pt_ServerID t
         \<and> GetVersion s (pd_ProjectID d) (pd_Version d) = Inr v \<and> v_Status v = ''published''
         \<and> pe_digest env (plan_of env tenantID projectName (pd_Version d) v h b) = Inr (pt_PlanDigest t)"
    if "t \<in> set (targets_of s i)" for t
  proof -
    from that ps obtain p where p: "p \<in> set ps" "t = pp_target p" by (metis imageE list.set_map)
    with ps digest [of "pp_host p" "pp_binding p" "pt_PlanDigest t" "pp_environment p"] show ?thesis by blast
  qed
  with ran(1-3) show ?thesis by blast
qed (use assms(3) in simp_all)

lemma claim_succeeds:
  assumes "dep_ok s" "d \<in> set (trows (st_deployments s))" "pd_Status d = ''queued''"
  shows "fst (MarkPushDeploymentRunning now (pd_ID d) s) = Inr ()"
proof -
  let ?fs = "filter (\<lambda>e. pd_ID e = pd_ID d \<and> pd_Status e = ''queued'') (trows (st_deployments s))"
  have "distinct (map pd_ID ?fs)"
    using deployment_events.ids_distinct [of "st_deployments s"] assms(1) by (simp add: dep_ok_def distinct_map_filter)
  then have "length ?fs \<le> 1" by (rule distinct_same_key [where k = "pd_ID d"]) simp
  moreover have "d \<in> set ?fs" using assms(2,3) by simp
  then have "?fs \<noteq> []" by (cases ?fs) (auto simp del: set_filter)
  then have "length ?fs \<noteq> 0" by simp
  ultimately have "length ?fs = 1" by linarith
  then show ?thesis by (simp add: MarkPushDeploymentRunning_def tbl_update_def)
qed

text \<open>
  C4: a run always settles its deployment: unless the server is draining, running a queued deployment
  that is within the log retention leaves it successful or failed and none of its targets queued or
  running, whatever fails on the way.
\<close>

theorem run_settles:
  assumes "dep_ok s" "d \<in> set (trows (st_deployments s))" "pd_Status d = ''queued''" "retained (clock 0) d"
    and "\<not> pe_draining env"
    and "runPushDeployment env (sshDeploy w) clock (pd_ID d) tenantID projectName s = (cs, s')"
  shows "(\<exists>d'\<in>set (trows (st_deployments s')). pd_ID d' = pd_ID d \<and> (pd_Status d' = ''success'' \<or> pd_Status d' = ''failed''))
    \<and> (\<forall>t\<in>set (targets_of s' (pd_ID d)). \<not> active_status (pt_Status t))"
  using assms(1,6)
proof (cases rule: ssh.run_cases)
  case idle
  with claim_succeeds [OF assms(1-3), of "clock 0"] assms(5) show ?thesis by auto
next
  case (unread d2)
  with deployment_events.id_unique [of "st_deployments s" d2 d] assms(1,2,4) show ?thesis by (auto simp: dep_ok_def)
next
  case (failed d2)
  have "pt_Status t = ''failed''" if "t \<in> set (targets_of s' (pd_ID d))" for t
    using arg_cong [OF failed(5), of set] that by auto
  with failed(6) show ?thesis by (auto simp: active_status_def)
next
  case (ran d2 ps mk sts)
  have "\<not> active_status (pt_Status t)" if "t \<in> set (targets_of s' (pd_ID d))" for t
    using fail_fast_settled [OF ran(9), of "pt_Status t"] that unfolding ran(8) [symmetric] by simp
  with ran(10) show ?thesis by blast
qed

lemma freeze_loop_spec:
  "freeze_loop env s tenantID projectID projectName version bs seen = Inr out \<Longrightarrow>
     map pb_ID out = map pb_ID bs
     \<and> (\<forall>b\<in>set out. \<exists>cur h e. GetPushBinding s tenantID (pb_ID b) = Inr cur \<and> GetPushHost s tenantID (pb_HostID b) = Inr h
          \<and> b = cur\<lparr>pb_PlanDigest := pb_PlanDigest b\<rparr> \<and> physical_key h b \<notin> set seen
          \<and> pushPlanDigest env s tenantID projectID projectName version h cur = Inr (pb_PlanDigest b, e))
     \<and> sorted_wrt (\<lambda>b b'. \<forall>h h'. GetPushHost s tenantID (pb_HostID b) = Inr h \<longrightarrow> GetPushHost s tenantID (pb_HostID b') = Inr h'
          \<longrightarrow> physical_key h b \<noteq> physical_key h' b') out"
proof (induction bs arbitrary: seen out)
  case (Cons b0 bs)
  obtain b h digest e plan where
    r: "GetPushBinding s tenantID (pb_ID b0) = Inr b" "GetPushHost s tenantID (pb_HostID b) = Inr h"
      "physical_key h b \<notin> set seen" "pushPlanDigest env s tenantID projectID projectName version h b = Inr (digest, e)"
      "freeze_loop env s tenantID projectID projectName version bs (physical_key h b # seen) = Inr plan"
      "out = b\<lparr>pb_PlanDigest := digest\<rparr> # plan"
    using Cons.prems by (auto simp: Let_def split: sum.splits if_splits prod.splits)
  have id: "pb_ID b = pb_ID b0"
    using r(1) by (auto simp: GetPushBinding_def dest: find_Some_iff2 split: option.splits)
  have key: "physical_key h' (b\<lparr>pb_PlanDigest := x\<rparr>) = physical_key h' b" for h' x by (simp add: physical_key_def)
  note ih = Cons.IH [OF r(5)]
  have new: "physical_key h' b' \<noteq> physical_key h b" if "b' \<in> set plan" "GetPushHost s tenantID (pb_HostID b') = Inr h'" for b' h'
    using ih that by fastforce
  have head: "\<exists>cur h' e'. GetPushBinding s tenantID (pb_ID b) = Inr cur \<and> GetPushHost s tenantID (pb_HostID b) = Inr h'
      \<and> b\<lparr>pb_PlanDigest := digest\<rparr> = cur\<lparr>pb_PlanDigest := digest\<rparr> \<and> physical_key h' b \<notin> set seen
      \<and> pushPlanDigest env s tenantID projectID projectName version h' cur = Inr (digest, e')"
    by (intro exI [of _ b] exI [of _ h] exI [of _ e]) (simp add: r(1-4) id)
  have "sorted_wrt (\<lambda>b b'. \<forall>h h'. GetPushHost s tenantID (pb_HostID b) = Inr h \<longrightarrow> GetPushHost s tenantID (pb_HostID b') = Inr h'
          \<longrightarrow> physical_key h b \<noteq> physical_key h' b') out"
  proof -
    have "\<forall>b'\<in>set plan. \<forall>h1 h'. GetPushHost s tenantID (pb_HostID b) = Inr h1 \<longrightarrow> GetPushHost s tenantID (pb_HostID b') = Inr h'
          \<longrightarrow> physical_key h1 b \<noteq> physical_key h' b'" using new r(2) by fastforce
    with ih show ?thesis by (simp add: r(6) key)
  qed
  moreover have "map pb_ID out = map pb_ID (b0 # bs)" using ih id by (simp add: r(6))
  moreover have "\<forall>b\<in>set out. \<exists>cur h e. GetPushBinding s tenantID (pb_ID b) = Inr cur \<and> GetPushHost s tenantID (pb_HostID b) = Inr h
          \<and> b = cur\<lparr>pb_PlanDigest := pb_PlanDigest b\<rparr> \<and> physical_key h b \<notin> set seen
          \<and> pushPlanDigest env s tenantID projectID projectName version h cur = Inr (pb_PlanDigest b, e)"
    unfolding r(6) list.set(2) ball_simps(7)
  proof (intro conjI)
    show "\<exists>cur h e. GetPushBinding s tenantID (pb_ID (b\<lparr>pb_PlanDigest := digest\<rparr>)) = Inr cur
        \<and> GetPushHost s tenantID (pb_HostID (b\<lparr>pb_PlanDigest := digest\<rparr>)) = Inr h
        \<and> b\<lparr>pb_PlanDigest := digest\<rparr> = cur\<lparr>pb_PlanDigest := pb_PlanDigest (b\<lparr>pb_PlanDigest := digest\<rparr>)\<rparr>
        \<and> physical_key h (b\<lparr>pb_PlanDigest := digest\<rparr>) \<notin> set seen
        \<and> pushPlanDigest env s tenantID projectID projectName version h cur = Inr (pb_PlanDigest (b\<lparr>pb_PlanDigest := digest\<rparr>), e)"
      using head by (simp add: key)
    show "\<forall>b\<in>set plan. \<exists>cur h e. GetPushBinding s tenantID (pb_ID b) = Inr cur \<and> GetPushHost s tenantID (pb_HostID b) = Inr h
          \<and> b = cur\<lparr>pb_PlanDigest := pb_PlanDigest b\<rparr> \<and> physical_key h b \<notin> set seen
          \<and> pushPlanDigest env s tenantID projectID projectName version h cur = Inr (pb_PlanDigest b, e)"
      using ih [THEN conjunct2, THEN conjunct1] unfolding list.set(2) by blast
  qed
  ultimately show ?case by blast
qed simp

text \<open>
  A frozen plan holds the current rows of the selected bindings, in order, each with the digest of
  its present plan, and no two of its targets are the same instance: the same server id under the same
  directory of the same address and port.
\<close>

theorem freeze_distinct_targets:
  assumes "freezePushPlan env s tenantID projectID projectName version bs = Inr out"
  shows "map pb_ID out = map pb_ID bs
    \<and> (\<forall>b\<in>set out. \<exists>cur h e. GetPushBinding s tenantID (pb_ID b) = Inr cur \<and> GetPushHost s tenantID (pb_HostID b) = Inr h
         \<and> b = cur\<lparr>pb_PlanDigest := pb_PlanDigest b\<rparr>
         \<and> pushPlanDigest env s tenantID projectID projectName version h cur = Inr (pb_PlanDigest b, e))
    \<and> sorted_wrt (\<lambda>b b'. \<forall>h h'. GetPushHost s tenantID (pb_HostID b) = Inr h \<longrightarrow> GetPushHost s tenantID (pb_HostID b') = Inr h'
         \<longrightarrow> \<not> (lower (ph_Address h) = lower (ph_Address h') \<and> ph_Port h = ph_Port h'
                \<and> path_clean (pb_RemoteRoot b) = path_clean (pb_RemoteRoot b') \<and> pb_ServerID b = pb_ServerID b')) out"
proof -
  note spec = freeze_loop_spec [OF assms [unfolded freezePushPlan_def]]
  have "physical_key h b = physical_key h' b'"
    if "lower (ph_Address h) = lower (ph_Address h') \<and> ph_Port h = ph_Port h'
      \<and> path_clean (pb_RemoteRoot b) = path_clean (pb_RemoteRoot b') \<and> pb_ServerID b = pb_ServerID b'" for h b h' b'
    using that by (simp add: physical_key_def)
  with spec show ?thesis by (blast intro: sorted_wrt_mono_rel [rotated])
qed

section \<open>Witnesses\<close>

definition run_host :: push_host where
  "run_host = \<lparr>ph_ID = 1, ph_TenantID = 1, ph_Name = ''h'', ph_Address = ''10.0.0.1'', ph_Port = 22, ph_Username = ''u'',
     ph_AuthMode = ''agent'', ph_HostKey = ''k'', ph_HostKeyFingerprint = ''f'', ph_EncryptedPrivateKey = [],
     ph_HealthCheckEnabled = False, ph_HealthCheckIntervalSeconds = 3600, ph_LastCheckAt = None, ph_LastCheckStatus = [],
     ph_LastCheckError = [], ph_LastCheckLatencyMS = 0, ph_NextCheckAt = None, ph_CreatedAt = None, ph_UpdatedAt = None\<rparr>"

definition run_bindings :: "push_binding list" where
  "run_bindings = [sample_binding, sample_binding\<lparr>pb_ID := 2, pb_ServerID := ''s2''\<rparr>]"

definition run_base :: store where
  "run_base = (empty_store ''/d'')\<lparr>
     st_hosts := \<lparr>trows = [run_host], tnext = 2\<rparr>, st_bindings := \<lparr>trows = run_bindings, tnext = 3\<rparr>,
     st_versions := \<lparr>trows = [sample_version\<lparr>v_Status := ''published''\<rparr>], tnext = 2\<rparr>,
     st_users := \<lparr>trows = [\<lparr>u_ID = 1, u_Username = ''ci'', u_PasswordHash = [], u_Role = ''admin'', u_IsAdmin = 1,
       u_TenantID = 1, u_Token = ''t'', u_AuthVersion = 1, u_CreatedAt = None\<rparr>], tnext = 2\<rparr>\<rparr>"

definition run_env :: push_env where
  "run_env = \<lparr>pe_digest = (\<lambda>_. Inr ''d''), pe_server_file = (\<lambda>_. None), pe_public_url = Inr ''https://c'', pe_draining = False\<rparr>"

definition run_world :: ssh_world where
  "run_world = \<lparr>sw_auth = (\<lambda>_. None), sw_dial = (\<lambda>_. Inr (''k'', ''f'')), sw_same_key = (\<lambda>a b. Inr (a = b)), sw_tofu = False,
     sw_run = (\<lambda>_ _. (''out'', Some (DeployFailed ''exit 1'')))\<rparr>"

definition run_store :: store where
  "run_store = snd (CreatePushDeployment_tx 0 sample_deployment (map (\<lambda>b. b\<lparr>pb_PlanDigest := ''d''\<rparr>) run_bindings) run_base)"

definition run_result :: "push_command list \<times> store" where
  "run_result = runPushDeployment run_env (sshDeploy run_world) (\<lambda>_. 0) 1 1 ''game'' run_store"

lemma run_store_ok: "dep_ok run_store"
proof -
  have "dep_ok run_base" using dep_ok_empty [of "''/d''"] by (simp add: dep_ok_def run_base_def)
  then show ?thesis unfolding run_store_def by (metis dep_ok_create_tx prod.collapse)
qed

lemma run_result_eq: "runPushDeployment run_env (sshDeploy run_world) (\<lambda>_. 0) 1 1 ''game'' run_store = (fst run_result, snd run_result)"
  by (simp add: run_result_def)

lemma run_executes: "fst run_result \<noteq> []"
  by code_simp

lemma run_row: "\<exists>d\<in>set (trows (st_deployments run_store)). pd_ID d = 1 \<and> pd_Status d = ''queued'' \<and> pd_CreatedAt d = Some 0"
proof -
  have "list_ex (\<lambda>d. pd_ID d = 1 \<and> pd_Status d = ''queued'' \<and> pd_CreatedAt d = Some 0) (trows (st_deployments run_store))" by code_simp
  then show ?thesis by (simp add: list_ex_iff)
qed

lemma run_fail_fast_witness:
  "map pt_Status (targets_of (snd run_result) 1) = [''failed'', ''skipped''] \<and> fail_fast (length (fst run_result)) [''failed'', ''skipped'']"
proof -
  have "map pt_Status (targets_of (snd run_result) 1) = [''failed'', ''skipped'']" by code_simp
  with run_fail_fast [OF run_store_ok run_result_eq run_executes] show ?thesis by simp
qed

lemma run_only_frozen_plan_witness:
  "\<exists>d\<in>set (trows (st_deployments run_store)). pd_ID d = 1 \<and> pd_Status d = ''queued''
    \<and> (\<forall>t\<in>set (targets_of run_store 1). \<exists>b. GetPushBinding run_store 1 (pt_BindingID t) = Inr b)"
  using run_only_frozen_plan [OF run_store_ok run_result_eq run_executes] by blast

lemma run_settles_witness:
  "list_all (\<lambda>t. \<not> active_status (pt_Status t)) (targets_of (snd run_result) 1)"
proof -
  obtain d where d: "d \<in> set (trows (st_deployments run_store))" "pd_ID d = 1" "pd_Status d = ''queued''" "pd_CreatedAt d = Some 0"
    using run_row by blast
  have ret: "retained ((\<lambda>_. 0) 0) d" using d(4) by (simp add: retained_def format_time_def LogRetention_def Hour_def Second_def)
  have "\<not> pe_draining run_env" by (simp add: run_env_def)
  from run_settles [OF run_store_ok d(1,3) ret this, of run_world 1 "''game''" "fst run_result" "snd run_result"] d(2) run_result_eq
  show ?thesis by (simp add: list_all_iff)
qed

lemma freeze_distinct_targets_witness:
  "\<exists>out. freezePushPlan run_env run_base 1 1 ''game'' ''1.0.0'' run_bindings = Inr out \<and> map pb_ID out = [1, 2]"
proof -
  have "is_ok (freezePushPlan run_env run_base 1 1 ''game'' ''1.0.0'' run_bindings)" by code_simp
  then obtain out where out: "freezePushPlan run_env run_base 1 1 ''game'' ''1.0.0'' run_bindings = Inr out" by (auto simp: is_ok_iff)
  from freeze_distinct_targets [OF out] out show ?thesis by (simp add: run_bindings_def sample_binding_def)
qed

end
