(* ===== verification/ReleaseHooks.thy ===== *)
theory ReleaseHooks
  imports Deployments
begin

text \<open>
  Release hooks (\<open>internal/store/release_hooks.go\<close>): a hook connects the publication of a version to
  one release task.  Triggers within the debounce time of a hook are merged into one pending run,
  which becomes due when the hook has been quiet for that time; claiming a due hook records a
  dispatch event and empties the pending fields.  Rendering a timestamp as text, which only the
  detail column of an event uses, is the parameter \<open>stamp_text\<close>.
\<close>

section \<open>Rows and validation\<close>

record hook_run =
  hr_Hook :: release_hook
  hr_Version :: string
  hr_RequestedBy :: string
  hr_Source :: string
  hr_EventCount :: int
  hr_EventID :: int

definition defaultReleaseHookDebounceSeconds :: int where
  "defaultReleaseHookDebounceSeconds = 30"

definition safeReleaseHookSource :: "string \<Rightarrow> bool" where
  "safeReleaseHookSource v = (v \<noteq> [] \<and> length v \<le> 40 \<and> list_all (\<lambda>c. is_alnum c \<or> c \<in> set ''_.:-'') v)"

definition normalizeReleaseHook :: "release_hook \<Rightarrow> release_hook res" where
  "normalizeReleaseHook hook =
     (let name = trim_space (rh_Name hook);
          debounce = (if rh_DebounceSeconds hook = 0 then defaultReleaseHookDebounceSeconds else rh_DebounceSeconds hook)
      in if name = [] \<or> length name > 100 then Inl (ErrMsg ''hook name is required and must not exceed 100 characters'')
         else if rh_TaskID hook \<le> 0 then Inl (ErrMsg ''release task is required'')
         else if debounce < 1 \<or> debounce > 3600 then Inl (ErrMsg ''debounce_seconds must be between 1 and 3600'')
         else Inr (hook\<lparr>rh_Name := name, rh_DebounceSeconds := debounce\<rparr>))"

definition validateHookTask :: "store \<Rightarrow> int \<Rightarrow> int \<Rightarrow> int \<Rightarrow> unit res" where
  "validateHookTask s tenantID projectID taskID =
     (case GetPushDeploymentTask s tenantID projectID taskID of
        Inl _ \<Rightarrow> Inl (ErrMsg ''release task not found'') | Inr _ \<Rightarrow> Inr ())"

text \<open>The LEFT JOIN of the read statements: the name of the task, empty when the task is gone.\<close>

definition with_task :: "store \<Rightarrow> release_hook \<Rightarrow> release_hook" where
  "with_task s h =
     h\<lparr>rh_TaskName := (case tbl_row (\<lambda>t. tk_ID t = rh_TaskID h) (st_tasks s) of Inl _ \<Rightarrow> [] | Inr t \<Rightarrow> tk_Name t)\<rparr>"

definition is_hook :: "int \<Rightarrow> int \<Rightarrow> int \<Rightarrow> release_hook \<Rightarrow> bool" where
  "is_hook tenantID projectID i h = (rh_TenantID h = tenantID \<and> rh_ProjectID h = projectID \<and> rh_ID h = i)"

definition GetReleaseHook :: "store \<Rightarrow> int \<Rightarrow> int \<Rightarrow> int \<Rightarrow> release_hook res" where
  "GetReleaseHook s tenantID projectID i =
     (case tbl_row (is_hook tenantID projectID i) (st_hooks s) of Inl e \<Rightarrow> Inl e | Inr h \<Rightarrow> Inr (with_task s h))"

definition ListReleaseHooks :: "store \<Rightarrow> int \<Rightarrow> int \<Rightarrow> release_hook list" where
  "ListReleaseHooks s tenantID projectID =
     map (with_task s) (rev (tbl_select (\<lambda>h. rh_TenantID h = tenantID \<and> rh_ProjectID h = projectID) (st_hooks s)))"

section \<open>Creating, changing and deleting hooks\<close>

definition fresh_hook :: "stamp \<Rightarrow> release_hook \<Rightarrow> release_hook" where
  "fresh_hook now hook =
     \<lparr>rh_ID = 0, rh_TenantID = rh_TenantID hook, rh_ProjectID = rh_ProjectID hook, rh_TaskID = rh_TaskID hook,
      rh_TaskName = [], rh_Name = rh_Name hook, rh_Enabled = rh_Enabled hook,
      rh_DebounceSeconds = rh_DebounceSeconds hook, rh_PendingVersion = [], rh_PendingRequestedBy = [],
      rh_PendingSource = [], rh_PendingSince = None, rh_DueAt = None, rh_PendingEvents = 0, rh_TriggerCount = 0,
      rh_MergeCount = 0, rh_RunCount = 0, rh_LastTriggerAt = None, rh_LastRunAt = None, rh_LastDeploymentID = 0,
      rh_LastStatus = [], rh_LastError = [], rh_CreatedBy = rh_CreatedBy hook, rh_CreatedAt = now, rh_UpdatedAt = now\<rparr>"

definition CreateReleaseHook :: "go_time \<Rightarrow> release_hook \<Rightarrow> store \<Rightarrow> release_hook res \<times> store" where
  "CreateReleaseHook now hook0 s =
     (case normalizeReleaseHook hook0 of
        Inl e \<Rightarrow> (Inl e, s)
      | Inr hook \<Rightarrow>
          (case validateHookTask s (rh_TenantID hook) (rh_ProjectID hook) (rh_TaskID hook) of
             Inl e \<Rightarrow> (Inl e, s)
           | Inr _ \<Rightarrow>
               (case tbl_insert hook_conflict (\<lambda>i r. set_rh_ID i r) ''release_hooks'' (fresh_hook (format_time now) hook)
                       (st_hooks s) of
                  (Inl e, _) \<Rightarrow> (Inl e, s)
                | (Inr i, t) \<Rightarrow>
                    (let s' = s\<lparr>st_hooks := t\<rparr>
                     in (GetReleaseHook s' (rh_TenantID hook) (rh_ProjectID hook) i, s')))))"

text \<open>The SET list of the UPDATE: disabling a hook drops what is pending.\<close>

definition updated_hook :: "stamp \<Rightarrow> release_hook \<Rightarrow> release_hook \<Rightarrow> release_hook" where
  "updated_hook now hook r =
     (let on = rh_Enabled hook
      in r\<lparr>rh_TaskID := rh_TaskID hook, rh_Name := rh_Name hook, rh_Enabled := on,
           rh_DebounceSeconds := rh_DebounceSeconds hook,
           rh_PendingVersion := (if on then rh_PendingVersion r else []),
           rh_PendingRequestedBy := (if on then rh_PendingRequestedBy r else []),
           rh_PendingSource := (if on then rh_PendingSource r else []),
           rh_PendingSince := (if on then rh_PendingSince r else None),
           rh_DueAt := (if on then rh_DueAt r else None),
           rh_PendingEvents := (if on then rh_PendingEvents r else 0),
           rh_LastStatus := (if on then rh_LastStatus r else ''disabled''),
           rh_UpdatedAt := now\<rparr>)"

definition UpdateReleaseHook :: "go_time \<Rightarrow> release_hook \<Rightarrow> store \<Rightarrow> unit res \<times> store" where
  "UpdateReleaseHook now hook0 s =
     (case normalizeReleaseHook hook0 of
        Inl e \<Rightarrow> (Inl e, s)
      | Inr hook \<Rightarrow>
          (case validateHookTask s (rh_TenantID hook) (rh_ProjectID hook) (rh_TaskID hook) of
             Inl e \<Rightarrow> (Inl e, s)
           | Inr _ \<Rightarrow>
               (case tbl_update_checked hook_conflict ''release_hooks''
                       (is_hook (rh_TenantID hook) (rh_ProjectID hook) (rh_ID hook))
                       (updated_hook (format_time now) hook) (st_hooks s) of
                  (Inl e, _) \<Rightarrow> (Inl e, s)
                | (Inr n, t) \<Rightarrow> if n = 0 then (Inl ErrNoRows, s) else (Inr (), s\<lparr>st_hooks := t\<rparr>))))"

definition DeleteReleaseHook :: "int \<Rightarrow> int \<Rightarrow> int \<Rightarrow> store \<Rightarrow> unit res \<times> store" where
  "DeleteReleaseHook tenantID projectID i s =
     (let (n, t) = tbl_delete (is_hook tenantID projectID i) (st_hooks s)
      in if n = 0 then (Inl ErrNoRows, s) else (Inr (), s\<lparr>st_hooks := t\<rparr>))"

section \<open>Triggers\<close>

definition triggered_hook :: "string \<Rightarrow> string \<Rightarrow> string \<Rightarrow> stamp \<Rightarrow> stamp \<Rightarrow> release_hook \<Rightarrow> release_hook" where
  "triggered_hook version requestedBy source createdAt dueAt h =
     h\<lparr>rh_PendingVersion := version, rh_PendingRequestedBy := requestedBy, rh_PendingSource := source,
       rh_PendingSince := (if rh_PendingEvents h = 0 then createdAt else rh_PendingSince h), rh_DueAt := dueAt,
       rh_PendingEvents := rh_PendingEvents h + 1, rh_TriggerCount := rh_TriggerCount h + 1,
       rh_MergeCount := rh_MergeCount h + (if rh_PendingEvents h > 0 then 1 else 0),
       rh_LastTriggerAt := createdAt, rh_LastStatus := ''waiting'', rh_LastError := [], rh_UpdatedAt := createdAt\<rparr>"

definition due_at :: "go_time \<Rightarrow> release_hook \<Rightarrow> stamp" where
  "due_at now h = format_time (now + rh_DebounceSeconds h * Second)"

definition trigger_event ::
  "(stamp \<Rightarrow> string) \<Rightarrow> int \<Rightarrow> int \<Rightarrow> string \<Rightarrow> string \<Rightarrow> go_time \<Rightarrow> release_hook \<Rightarrow> hook_event" where
  "trigger_event stamp_text tenantID projectID version source now h =
     \<lparr>he_ID = 0, he_TenantID = tenantID, he_ProjectID = projectID, he_HookID = rh_ID h, he_HookName = rh_Name h,
      he_Kind = ''trigger'', he_Source = source, he_Version = version,
      he_Status = (if rh_PendingEvents h > 0 then ''merged'' else ''scheduled''),
      he_MergedEvents = rh_PendingEvents h + 1, he_DeploymentID = 0,
      he_Detail = ''due_at='' @ stamp_text (due_at now h), he_CreatedAt = format_time now, he_CompletedAt = None,
      he_RequestedBy = []\<rparr>"

definition add_event :: "hook_event \<Rightarrow> store \<Rightarrow> store" where
  "add_event ev s =
     s\<lparr>st_events := snd (tbl_insert no_conflict (\<lambda>i r. set_he_ID i r) ''release_hook_events'' ev (st_events s))\<rparr>"

fun queue_selected ::
  "(stamp \<Rightarrow> string) \<Rightarrow> int \<Rightarrow> int \<Rightarrow> string \<Rightarrow> string \<Rightarrow> string \<Rightarrow> go_time \<Rightarrow> release_hook list \<Rightarrow> store \<Rightarrow> store"
where
  "queue_selected stamp_text tenantID projectID version requestedBy source now [] s = s"
| "queue_selected stamp_text tenantID projectID version requestedBy source now (item # items) s =
     queue_selected stamp_text tenantID projectID version requestedBy source now items
       (add_event (trigger_event stamp_text tenantID projectID version source now item)
         (s\<lparr>st_hooks := snd (tbl_update (\<lambda>h. rh_ID h = rh_ID item \<and> rh_Enabled h)
            (triggered_hook version requestedBy source (format_time now) (due_at now item)) (st_hooks s))\<rparr>))"

fun get_hooks :: "store \<Rightarrow> int \<Rightarrow> int \<Rightarrow> release_hook list \<Rightarrow> release_hook list res" where
  "get_hooks s tenantID projectID [] = Inr []"
| "get_hooks s tenantID projectID (item # items) =
     (case GetReleaseHook s tenantID projectID (rh_ID item) of
        Inl e \<Rightarrow> Inl e
      | Inr h \<Rightarrow> map_sum id ((#) h) (get_hooks s tenantID projectID items))"

definition QueueProjectReleaseHooks ::
  "(stamp \<Rightarrow> string) \<Rightarrow> int \<Rightarrow> int \<Rightarrow> string \<Rightarrow> string \<Rightarrow> string \<Rightarrow> go_time \<Rightarrow> store \<Rightarrow> release_hook list res \<times> store"
where
  "QueueProjectReleaseHooks stamp_text tenantID projectID version0 requestedBy0 source0 now s =
     (let version = trim_space version0; requestedBy = trim_space requestedBy0; source = trim_space source0
      in if version = [] \<or> requestedBy = [] \<or> \<not> safeReleaseHookSource source
         then (Inl (ErrMsg ''version, requested_by, and a safe source are required''), s)
         else
           (let selected = tbl_select (\<lambda>h. rh_TenantID h = tenantID \<and> rh_ProjectID h = projectID \<and> rh_Enabled h) (st_hooks s);
                s' = queue_selected stamp_text tenantID projectID version requestedBy source now selected s
            in (get_hooks s' tenantID projectID selected, s')))"

definition QueueReleaseHook ::
  "(stamp \<Rightarrow> string) \<Rightarrow> int \<Rightarrow> int \<Rightarrow> int \<Rightarrow> string \<Rightarrow> string \<Rightarrow> string \<Rightarrow> go_time \<Rightarrow> store \<Rightarrow> release_hook res \<times> store"
where
  "QueueReleaseHook stamp_text tenantID projectID i version0 requestedBy0 source0 now s =
     (let version = trim_space version0; requestedBy = trim_space requestedBy0;
          source = (if trim_space source0 = [] then ''manual'' else trim_space source0)
      in if version = [] \<or> requestedBy = [] then (Inl (ErrMsg ''version and requested_by are required''), s)
         else if \<not> safeReleaseHookSource source
         then (Inl (ErrMsg ''source must contain only letters, digits, dot, underscore, colon, or dash''), s)
         else case tbl_row (\<lambda>h. is_hook tenantID projectID i h \<and> rh_Enabled h) (st_hooks s) of
                Inl e \<Rightarrow> (Inl e, s)
              | Inr item \<Rightarrow>
                  (let s' = add_event (trigger_event stamp_text tenantID projectID version source now item)
                         (s\<lparr>st_hooks := snd (tbl_update (\<lambda>h. is_hook tenantID projectID i h \<and> rh_Enabled h)
                            (triggered_hook version requestedBy source (format_time now) (due_at now item)) (st_hooks s))\<rparr>)
                   in (GetReleaseHook s' tenantID projectID i, s')))"

section \<open>Claiming and completing runs\<close>

definition due_hook :: "stamp \<Rightarrow> release_hook \<Rightarrow> bool" where
  "due_hook now h = (rh_Enabled h \<and> rh_DueAt h \<noteq> None \<and> rh_DueAt h \<le> now)"

definition claimed_hook :: "stamp \<Rightarrow> release_hook \<Rightarrow> release_hook" where
  "claimed_hook now h =
     h\<lparr>rh_PendingVersion := [], rh_PendingRequestedBy := [], rh_PendingSource := [], rh_PendingSince := None,
       rh_DueAt := None, rh_PendingEvents := 0, rh_RunCount := rh_RunCount h + 1, rh_LastRunAt := now,
       rh_LastStatus := ''running'', rh_LastError := [], rh_UpdatedAt := now\<rparr>"

definition dispatch_event :: "stamp \<Rightarrow> release_hook \<Rightarrow> hook_event" where
  "dispatch_event now h =
     \<lparr>he_ID = 0, he_TenantID = rh_TenantID h, he_ProjectID = rh_ProjectID h, he_HookID = rh_ID h, he_HookName = rh_Name h,
      he_Kind = ''dispatch'', he_Source = rh_PendingSource h, he_Version = rh_PendingVersion h, he_Status = ''running'',
      he_MergedEvents = rh_PendingEvents h, he_DeploymentID = 0,
      he_Detail = ''coalesced_triggers='' @ show_int (rh_PendingEvents h), he_CreatedAt = now, he_CompletedAt = None,
      he_RequestedBy = rh_PendingRequestedBy h\<rparr>"

text \<open>The hook of a run holds only its identity; the other fields are Go's zero values.\<close>

definition run_hook_of :: "int \<Rightarrow> int \<Rightarrow> int \<Rightarrow> int \<Rightarrow> string \<Rightarrow> release_hook" where
  "run_hook_of i tenantID projectID taskID name =
     \<lparr>rh_ID = i, rh_TenantID = tenantID, rh_ProjectID = projectID, rh_TaskID = taskID, rh_TaskName = [], rh_Name = name,
      rh_Enabled = False, rh_DebounceSeconds = 0, rh_PendingVersion = [], rh_PendingRequestedBy = [],
      rh_PendingSource = [], rh_PendingSince = None, rh_DueAt = None, rh_PendingEvents = 0, rh_TriggerCount = 0,
      rh_MergeCount = 0, rh_RunCount = 0, rh_LastTriggerAt = None, rh_LastRunAt = None, rh_LastDeploymentID = 0,
      rh_LastStatus = [], rh_LastError = [], rh_CreatedBy = [], rh_CreatedAt = None, rh_UpdatedAt = None\<rparr>"

definition run_of :: "release_hook \<Rightarrow> int \<Rightarrow> hook_run" where
  "run_of h eventID =
     \<lparr>hr_Hook = run_hook_of (rh_ID h) (rh_TenantID h) (rh_ProjectID h) (rh_TaskID h) (rh_Name h),
      hr_Version = rh_PendingVersion h, hr_RequestedBy = rh_PendingRequestedBy h, hr_Source = rh_PendingSource h,
      hr_EventCount = rh_PendingEvents h, hr_EventID = eventID\<rparr>"

fun claim_loop :: "stamp \<Rightarrow> release_hook list \<Rightarrow> store \<Rightarrow> hook_run list \<times> store" where
  "claim_loop now [] s = ([], s)"
| "claim_loop now (item # items) s =
     (let (n, t) = tbl_update (\<lambda>h. rh_ID h = rh_ID item \<and> rh_Enabled h \<and> rh_DueAt h = rh_DueAt item)
                     (claimed_hook now) (st_hooks s);
          s1 = s\<lparr>st_hooks := t\<rparr>
      in if n \<noteq> 1 then claim_loop now items s1
         else
           (let (runs, s2) = claim_loop now items (add_event (dispatch_event now item) s1)
            in (run_of item (tnext (st_events s)) # runs, s2)))"

definition due_hooks :: "go_time \<Rightarrow> int \<Rightarrow> store \<Rightarrow> release_hook list" where
  "due_hooks now limit s =
     take (clamp_limit 10 50 limit) (sort_key rh_DueAt (sort_key rh_ID (tbl_select (due_hook (format_time now)) (st_hooks s))))"

definition ClaimDueReleaseHooks :: "go_time \<Rightarrow> int \<Rightarrow> store \<Rightarrow> hook_run list \<times> store" where
  "ClaimDueReleaseHooks now limit s = claim_loop (format_time now) (due_hooks now limit s) s"

definition ListStaleReleaseHookRuns :: "go_time \<Rightarrow> duration \<Rightarrow> int \<Rightarrow> store \<Rightarrow> hook_run list" where
  "ListStaleReleaseHookRuns now staleAfter limit s =
     take (clamp_limit 10 50 limit)
       (concat (map (\<lambda>e. case tbl_row (\<lambda>h. rh_ID h = he_HookID e) (st_hooks s) of
            Inl _ \<Rightarrow> []
          | Inr h \<Rightarrow> [\<lparr>hr_Hook = run_hook_of (he_HookID e) (rh_TenantID h) (rh_ProjectID h) (rh_TaskID h) (rh_Name h),
                       hr_Version = he_Version e, hr_RequestedBy = he_RequestedBy e, hr_Source = he_Source e,
                       hr_EventCount = he_MergedEvents e, hr_EventID = he_ID e\<rparr>])
        (tbl_select (\<lambda>e. he_Kind e = ''dispatch'' \<and> he_Status e = ''running'' \<and> he_CompletedAt e = None
            \<and> he_CreatedAt e \<le> format_time (now - staleAfter)) (st_events s))))"

definition CompleteReleaseHookRun :: "hook_run \<Rightarrow> int \<Rightarrow> string \<Rightarrow> string \<Rightarrow> go_time \<Rightarrow> store \<Rightarrow> unit res \<times> store" where
  "CompleteReleaseHookRun run deploymentID status detail now s =
     (let completedAt = (if status = ''running'' then None else format_time now)
      in (Inr (),
          s\<lparr>st_events := snd (tbl_update (\<lambda>e. he_ID e = hr_EventID run \<and> he_HookID e = rh_ID (hr_Hook run))
               (\<lambda>e. e\<lparr>he_Status := status, he_DeploymentID := deploymentID, he_Detail := detail, he_CompletedAt := completedAt\<rparr>)
               (st_events s)),
            st_hooks := snd (tbl_update (\<lambda>h. rh_ID h = rh_ID (hr_Hook run))
               (\<lambda>h. h\<lparr>rh_LastDeploymentID := deploymentID, rh_LastStatus := status,
                     rh_LastError := (if status = ''failed'' then detail else []), rh_UpdatedAt := completedAt\<rparr>)
               (st_hooks s))\<rparr>))"

definition RecordReleaseHookCancellation :: "go_time \<Rightarrow> release_hook \<Rightarrow> store \<Rightarrow> unit res \<times> store" where
  "RecordReleaseHookCancellation now hook s =
     (if rh_PendingEvents hook \<le> 0 then (Inr (), s)
      else (Inr (), add_event
        \<lparr>he_ID = 0, he_TenantID = rh_TenantID hook, he_ProjectID = rh_ProjectID hook, he_HookID = rh_ID hook,
         he_HookName = rh_Name hook, he_Kind = ''dispatch'', he_Source = rh_PendingSource hook,
         he_Version = rh_PendingVersion hook, he_Status = ''cancelled'', he_MergedEvents = rh_PendingEvents hook,
         he_DeploymentID = 0, he_Detail = ''disabled before debounce window elapsed'',
         he_CreatedAt = format_time now, he_CompletedAt = format_time now, he_RequestedBy = []\<rparr> s))"

text \<open>The events of the retention period, newest first, each with the status of its deployment.\<close>

definition ListReleaseHookEvents :: "go_time \<Rightarrow> store \<Rightarrow> int \<Rightarrow> int \<Rightarrow> int \<Rightarrow> (hook_event \<times> string) list" where
  "ListReleaseHookEvents now s tenantID projectID limit =
     map (\<lambda>e. (e, case tbl_row (\<lambda>d. pd_ID d = he_DeploymentID e) (st_deployments s) of Inl _ \<Rightarrow> [] | Inr d \<Rightarrow> pd_Status d))
       (take (clamp_limit 100 200 limit)
         (rev (tbl_select (\<lambda>e. he_TenantID e = tenantID \<and> he_ProjectID e = projectID
              \<and> he_CreatedAt e \<ge> format_time (now - LogRetention)) (st_events s))))"

section \<open>The hook tables\<close>

definition hook_ok :: "release_hook \<Rightarrow> bool" where
  "hook_ok h =
     (0 \<le> rh_PendingEvents h \<and> (rh_DueAt h = None \<longleftrightarrow> rh_PendingEvents h = 0)
      \<and> (rh_PendingEvents h \<noteq> 0 \<longrightarrow> rh_Enabled h))"

definition hooks_ok :: "store \<Rightarrow> bool" where
  "hooks_ok s = (tbl_ok rh_ID (st_hooks s) \<and> (\<forall>h\<in>set (trows (st_hooks s)). hook_ok h))"

lemma add_event_hooks [simp]: "st_hooks (add_event ev s) = st_hooks s"
  by (simp add: add_event_def)

lemma hook_id_simps [simp]:
  "rh_ID (triggered_hook v b src c d h) = rh_ID h" "rh_ID (claimed_hook c h) = rh_ID h"
  "rh_ID (updated_hook c k h) = rh_ID h" "rh_ID (with_task s h) = rh_ID h"
  by (simp_all add: triggered_hook_def claimed_hook_def updated_hook_def Let_def with_task_def)

lemma hook_ok_effects:
  "hook_ok h \<Longrightarrow> rh_Enabled h \<Longrightarrow> hook_ok (triggered_hook v b src c (Some d) h)"
  "hook_ok h \<Longrightarrow> hook_ok (claimed_hook c h)"
  "hook_ok h \<Longrightarrow> hook_ok (updated_hook c k h)"
  "hook_ok (fresh_hook c k)"
  by (auto simp: hook_ok_def triggered_hook_def claimed_hook_def updated_hook_def fresh_hook_def Let_def)

text \<open>An UPDATE that changes one row, and an UPDATE that keeps what the invariant reads.\<close>

lemma hooks_ok_update:
  assumes "hooks_ok s" "\<And>h. rh_ID (f h) = rh_ID h" "\<And>h. h \<in> set (trows (st_hooks s)) \<Longrightarrow> P h \<Longrightarrow> hook_ok (f h)"
    and "st_hooks s' = snd (tbl_update P f (st_hooks s))"
  shows "hooks_ok s'"
  using assms hook_names.ok_update [of "st_hooks s" f P] by (auto simp: hooks_ok_def)

lemma due_at_Some: "\<exists>d. due_at now h = Some d"
  by (simp add: due_at_def format_time_def)

text \<open>Claiming: the selected hooks are emptied, each giving one run with what was pending.\<close>

definition claims :: "hook_run \<Rightarrow> release_hook \<Rightarrow> bool" where
  "claims r h =
     (rh_ID (hr_Hook r) = rh_ID h \<and> hr_Version r = rh_PendingVersion h \<and> hr_RequestedBy r = rh_PendingRequestedBy h
      \<and> hr_Source r = rh_PendingSource h \<and> hr_EventCount r = rh_PendingEvents h)"

lemma claims_run_of [simp]: "claims (run_of h i) h"
  by (simp add: claims_def run_of_def run_hook_of_def)

lemma claims_ids: "list_all2 claims runs items \<Longrightarrow> r \<in> set runs \<Longrightarrow> rh_ID (hr_Hook r) \<in> rh_ID ` set items"
  by (auto simp: claims_def dest: list_all2_left)

lemma claim_loop_spec:
  assumes "claim_loop now items s = (runs, s')" "tbl_ok rh_ID (st_hooks s)" "set items \<subseteq> set (trows (st_hooks s))"
    and "distinct (map rh_ID items)" "\<forall>h\<in>set items. rh_Enabled h"
  shows "list_all2 claims runs items
    \<and> trows (st_hooks s') = map (\<lambda>h. if rh_ID h \<in> rh_ID ` set items then claimed_hook now h else h) (trows (st_hooks s))
    \<and> tnext (st_hooks s') = tnext (st_hooks s)"
  using assms
proof (induction items arbitrary: s runs s')
  case Nil
  then show ?case by simp
next
  case (Cons item items)
  let ?P = "\<lambda>h. rh_ID h = rh_ID item \<and> rh_Enabled h \<and> rh_DueAt h = rh_DueAt item"
  let ?rows = "map (\<lambda>x. if rh_ID x = rh_ID item then claimed_hook now x else x) (trows (st_hooks s))"
  let ?s1 = "add_event (dispatch_event now item) (s\<lparr>st_hooks := (st_hooks s)\<lparr>trows := ?rows\<rparr>\<rparr>)"
  have u: "tbl_update ?P (claimed_hook now) (st_hooks s) = (1, (st_hooks s)\<lparr>trows := ?rows\<rparr>)"
    by (rule hook_names.update_one) (use Cons.prems in auto)
  obtain rs s2 where rec: "claim_loop now items ?s1 = (rs, s2)" by fastforce
  have s': "runs = run_of item (tnext (st_events s)) # rs" "s' = s2"
    using Cons.prems(1) u rec by (auto simp: Let_def)
  have ok: "tbl_ok rh_ID (st_hooks ?s1)"
    using hook_names.ok_update [OF Cons.prems(2), of "claimed_hook now" ?P] u by simp
  have "set items \<subseteq> set (trows (st_hooks ?s1))"
  proof
    fix h assume h: "h \<in> set items"
    then have "rh_ID h \<noteq> rh_ID item" using Cons.prems(4) by (auto simp: image_iff)
    moreover have "h \<in> set (trows (st_hooks s))" using h Cons.prems(3) by auto
    ultimately show "h \<in> set (trows (st_hooks ?s1))" by (auto simp: image_iff)
  qed
  from Cons.IH [OF rec ok this] Cons.prems(4,5) have IH: "list_all2 claims rs items"
    "trows (st_hooks s2) = map (\<lambda>h. if rh_ID h \<in> rh_ID ` set items then claimed_hook now h else h) (trows (st_hooks ?s1))"
    "tnext (st_hooks s2) = tnext (st_hooks s)" by auto
  have "trows (st_hooks s2) = map (\<lambda>h. if rh_ID h \<in> rh_ID ` set (item # items) then claimed_hook now h else h) (trows (st_hooks s))"
    using IH(2) Cons.prems(4) by auto
  with IH s' show ?case by simp
qed

lemma due_hooks_rows:
  "set (due_hooks now limit s) \<subseteq> {h \<in> set (trows (st_hooks s)). due_hook (format_time now) h}"
  by (auto simp: due_hooks_def dest!: in_set_takeD)

lemma due_hooks_distinct:
  assumes "tbl_ok rh_ID (st_hooks s)"
  shows "distinct (map rh_ID (due_hooks now limit s))"
proof -
  have "distinct (map rh_ID (tbl_select (due_hook (format_time now)) (st_hooks s)))"
    using hook_names.ids_distinct [OF assms] by (simp add: tbl_select_def distinct_map_filter)
  then have "distinct (map rh_ID (sort_key rh_DueAt (sort_key rh_ID (tbl_select (due_hook (format_time now)) (st_hooks s)))))"
    by (simp add: distinct_map)
  then show ?thesis by (simp add: due_hooks_def take_map [symmetric])
qed

lemma claim_spec:
  assumes "ClaimDueReleaseHooks now limit s = (runs, s')" "tbl_ok rh_ID (st_hooks s)"
  shows "list_all2 claims runs (due_hooks now limit s)
    \<and> trows (st_hooks s') = map (\<lambda>h. if rh_ID h \<in> rh_ID ` set (due_hooks now limit s) then claimed_hook (format_time now) h else h)
        (trows (st_hooks s)) \<and> tnext (st_hooks s') = tnext (st_hooks s)"
proof (rule claim_loop_spec)
  show "claim_loop (format_time now) (due_hooks now limit s) s = (runs, s')"
    using assms(1) by (simp add: ClaimDueReleaseHooks_def)
  show "\<forall>h\<in>set (due_hooks now limit s). rh_Enabled h"
    using due_hooks_rows [of now limit s] by (auto simp: due_hook_def)
qed (use assms(2) due_hooks_rows [of now limit s] due_hooks_distinct in auto)

text \<open>Queueing: each selected hook records one more trigger, every other hook is kept.\<close>

definition rows_updated :: "(release_hook \<Rightarrow> bool) \<Rightarrow> (release_hook \<Rightarrow> release_hook) \<Rightarrow> store \<Rightarrow> store \<Rightarrow> bool" where
  "rows_updated P f s s' =
     (trows (st_hooks s') = map (\<lambda>h. if P h then f h else h) (trows (st_hooks s)) \<and> tnext (st_hooks s') = tnext (st_hooks s))"

lemma rows_updated_row:
  "rows_updated P f s s' \<Longrightarrow> h' \<in> set (trows (st_hooks s'))
   \<Longrightarrow> \<exists>h\<in>set (trows (st_hooks s)). h' = (if P h then f h else h)"
  by (simp only: rows_updated_def set_map image_iff)

lemma hooks_ok_rows_updated:
  assumes "hooks_ok s" "rows_updated P f s s'" "\<And>h. rh_ID (f h) = rh_ID h"
    "\<And>h. h \<in> set (trows (st_hooks s)) \<Longrightarrow> P h \<Longrightarrow> hook_ok (f h)"
  shows "hooks_ok s'"
proof -
  have "st_hooks s' = snd (tbl_update P f (st_hooks s))"
    using assms(2) unfolding rows_updated_def by (intro table.equality) auto
  from hooks_ok_update [OF assms(1,3,4) this] show ?thesis .
qed

lemma QueueReleaseHook_cases:
  assumes "QueueReleaseHook tx t p i v b src now s = (r, s')" "hooks_ok s"
  obtains (refused) e where "r = Inl e" "s' = s"
  | (queued) h src' where "h \<in> set (trows (st_hooks s))" "is_hook t p i h" "rh_Enabled h"
      "rows_updated (\<lambda>x. rh_ID x = i)
         (\<lambda>x. triggered_hook (trim_space v) (trim_space b) src' (format_time now) (due_at now x) x) s s'"
      "is_ok r" "\<And>x. r = Inr x \<Longrightarrow> rh_ID x = i"
proof -
  let ?src = "if trim_space src = [] then ''manual'' else trim_space src"
  let ?P = "\<lambda>h. is_hook t p i h \<and> rh_Enabled h"
  show ?thesis
  proof (cases "trim_space v = [] \<or> trim_space b = [] \<or> \<not> safeReleaseHookSource ?src")
    case True
    then have "\<exists>e. (r, s') = (Inl e, s)"
      unfolding assms(1) [symmetric] QueueReleaseHook_def Let_def by (cases "trim_space v = [] \<or> trim_space b = []") simp_all
    then show ?thesis using refused by blast
  next
    case valid: False
    show ?thesis
    proof (cases "tbl_row ?P (st_hooks s)")
      case (Inl e)
      with valid have "(r, s') = (Inl e, s)"
        unfolding assms(1) [symmetric] QueueReleaseHook_def Let_def by simp
      then show ?thesis using refused by blast
    next
      case (Inr h)
      have h: "?P h" "h \<in> set (trows (st_hooks s))" using Inr by (auto dest: tbl_row_Inr)
      let ?f = "triggered_hook (trim_space v) (trim_space b) ?src (format_time now) (due_at now h)"
      have u: "tbl_update ?P ?f (st_hooks s)
          = (1, (st_hooks s)\<lparr>trows := map (\<lambda>x. if rh_ID x = rh_ID h then ?f x else x) (trows (st_hooks s))\<rparr>)"
        by (rule hook_names.update_one) (use assms(2) h in \<open>auto simp: hooks_ok_def is_hook_def\<close>)
      have same: "x = h" if "x \<in> set (trows (st_hooks s))" "rh_ID x = i" for x
        using hook_names.id_unique [of "st_hooks s" x h] that h assms(2) by (auto simp: hooks_ok_def is_hook_def)
      have i: "rh_ID h = i" using h by (simp add: is_hook_def)
      let ?s' = "add_event (trigger_event tx t p (trim_space v) ?src now h) (s\<lparr>st_hooks := snd (tbl_update ?P ?f (st_hooks s))\<rparr>)"
      have "(r, s') = (GetReleaseHook ?s' t p i, ?s')"
        unfolding assms(1) [symmetric] QueueReleaseHook_def Let_def using valid Inr by simp
      then have rs: "r = GetReleaseHook ?s' t p i" "s' = ?s'" by (simp_all only: prod.inject)
      have rows: "trows (st_hooks s') = map (\<lambda>x. if rh_ID x = i then
          triggered_hook (trim_space v) (trim_space b) ?src (format_time now) (due_at now x) x else x) (trows (st_hooks s))"
      proof -
        have "trows (st_hooks s') = map (\<lambda>x. if rh_ID x = rh_ID h then ?f x else x) (trows (st_hooks s))"
          unfolding rs(2) add_event_hooks using u by simp
        also have "\<dots> = map (\<lambda>x. if rh_ID x = i then
          triggered_hook (trim_space v) (trim_space b) ?src (format_time now) (due_at now x) x else x) (trows (st_hooks s))"
          using same i by (intro map_cong refl) auto
        finally show ?thesis .
      qed
      have found: "is_hook t p i (?f h)" using h by (simp add: is_hook_def triggered_hook_def)
      have "?f h \<in> set (trows (st_hooks s'))"
        unfolding rows set_map by (rule image_eqI [OF _ h(2)]) (simp add: i)
      with found obtain x where x: "tbl_row (is_hook t p i) (st_hooks s') = Inr x"
        using tbl_row_ex [of "?f h" "st_hooks s'" "is_hook t p i"] by blast
      then have r: "r = Inr (with_task s' x)" using rs(1) [folded rs(2)] by (simp add: GetReleaseHook_def)
      have "rh_ID x = i" using tbl_row_Inr [OF x] by (simp add: is_hook_def)
      then have "is_ok r" "\<And>y. r = Inr y \<Longrightarrow> rh_ID y = i" using r by simp_all
      moreover have "tnext (st_hooks s') = tnext (st_hooks s)" unfolding rs(2) by simp
      ultimately show ?thesis using queued [of h ?src] h rows unfolding rows_updated_def by blast
    qed
  qed
qed

lemma queue_selected_rows:
  assumes "tbl_ok rh_ID (st_hooks s)" "set items \<subseteq> set (trows (st_hooks s))"
    and "distinct (map rh_ID items)" "\<forall>h\<in>set items. rh_Enabled h"
  shows "rows_updated (\<lambda>h. rh_ID h \<in> rh_ID ` set items) (\<lambda>h. triggered_hook v b src (format_time now) (due_at now h) h)
    s (queue_selected tx t p v b src now items s)"
  using assms
proof (induction items arbitrary: s)
  case Nil
  then show ?case by (simp add: rows_updated_def)
next
  case (Cons item items)
  let ?P = "\<lambda>h. rh_ID h = rh_ID item \<and> rh_Enabled h"
  let ?f = "triggered_hook v b src (format_time now) (due_at now item)"
  let ?rows = "map (\<lambda>x. if rh_ID x = rh_ID item then ?f x else x) (trows (st_hooks s))"
  let ?s1 = "add_event (trigger_event tx t p v src now item) (s\<lparr>st_hooks := snd (tbl_update ?P ?f (st_hooks s))\<rparr>)"
  have u: "tbl_update ?P ?f (st_hooks s) = (1, (st_hooks s)\<lparr>trows := ?rows\<rparr>)"
    by (rule hook_names.update_one) (use Cons.prems in auto)
  have ok: "tbl_ok rh_ID (st_hooks ?s1)"
    using hook_names.ok_update [OF Cons.prems(1), of ?f ?P] by simp
  have "set items \<subseteq> set (trows (st_hooks ?s1))"
  proof
    fix h assume h: "h \<in> set items"
    then have "rh_ID h \<noteq> rh_ID item" using Cons.prems(3) by (auto simp: image_iff)
    moreover have "h \<in> set (trows (st_hooks s))" using h Cons.prems(2) by auto
    ultimately show "h \<in> set (trows (st_hooks ?s1))" using u by (auto simp: image_iff)
  qed
  from Cons.IH [OF ok this] Cons.prems(3,4)
  have IH: "rows_updated (\<lambda>h. rh_ID h \<in> rh_ID ` set items) (\<lambda>h. triggered_hook v b src (format_time now) (due_at now h) h)
    ?s1 (queue_selected tx t p v b src now items ?s1)" by auto
  have same: "x = item" if "x \<in> set (trows (st_hooks s))" "rh_ID x = rh_ID item" for x
    using hook_names.id_unique [OF Cons.prems(1) that(1)] that(2) Cons.prems(2) by auto
  have r1: "trows (st_hooks ?s1) = ?rows" using u by simp
  have "trows (st_hooks (queue_selected tx t p v b src now items ?s1))
      = map (\<lambda>h. if rh_ID h \<in> rh_ID ` set (item # items)
          then triggered_hook v b src (format_time now) (due_at now h) h else h) (trows (st_hooks s))"
    using IH [unfolded rows_updated_def r1] Cons.prems(3) by (auto dest: same)
  with IH show ?case by (simp add: rows_updated_def)
qed

lemma get_hooks_ok:
  "\<forall>h\<in>set items. \<exists>x\<in>set (trows (st_hooks s)). is_hook t p (rh_ID h) x
   \<Longrightarrow> \<exists>hs. get_hooks s t p items = Inr hs \<and> map rh_ID hs = map rh_ID items"
proof (induction items)
  case (Cons item items)
  then obtain x where "x \<in> set (trows (st_hooks s))" "is_hook t p (rh_ID item) x" by auto
  then obtain y where y: "tbl_row (is_hook t p (rh_ID item)) (st_hooks s) = Inr y"
    using tbl_row_ex [of x "st_hooks s" "is_hook t p (rh_ID item)"] by blast
  then have "rh_ID y = rh_ID item" using tbl_row_Inr [OF y] by (simp add: is_hook_def)
  with y Cons show ?case by (auto simp: GetReleaseHook_def)
qed simp

lemma QueueProjectReleaseHooks_cases:
  assumes "QueueProjectReleaseHooks tx t p v b src now s = (r, s')" "hooks_ok s"
  obtains (refused) e where "r = Inl e" "s' = s"
  | (queued) hs items where "r = Inr hs" "map rh_ID hs = map rh_ID items" "distinct (map rh_ID items)"
      "set items = {h \<in> set (trows (st_hooks s)). rh_TenantID h = t \<and> rh_ProjectID h = p \<and> rh_Enabled h}"
      "rows_updated (\<lambda>h. rh_ID h \<in> rh_ID ` set items)
         (\<lambda>h. triggered_hook (trim_space v) (trim_space b) (trim_space src) (format_time now) (due_at now h) h) s s'"
proof (cases "trim_space v = [] \<or> trim_space b = [] \<or> \<not> safeReleaseHookSource (trim_space src)")
  case True
  then have "\<exists>e. (r, s') = (Inl e, s)"
    unfolding assms(1) [symmetric] QueueProjectReleaseHooks_def Let_def by simp
  then show ?thesis using refused by blast
next
  case False
  let ?items = "tbl_select (\<lambda>h. rh_TenantID h = t \<and> rh_ProjectID h = p \<and> rh_Enabled h) (st_hooks s)"
  let ?f = "\<lambda>h. triggered_hook (trim_space v) (trim_space b) (trim_space src) (format_time now) (due_at now h) h"
  have "(r, s') = (get_hooks s' t p ?items, queue_selected tx t p (trim_space v) (trim_space b) (trim_space src) now ?items s)"
    using assms(1) False by (auto simp: QueueProjectReleaseHooks_def Let_def)
  then have rs: "r = get_hooks s' t p ?items"
    "s' = queue_selected tx t p (trim_space v) (trim_space b) (trim_space src) now ?items s" by (simp_all only: prod.inject)
  have ids: "distinct (map rh_ID ?items)"
    using hook_names.ids_distinct [of "st_hooks s"] assms(2) by (simp add: hooks_ok_def tbl_select_def distinct_map_filter)
  have rows: "rows_updated (\<lambda>h. rh_ID h \<in> rh_ID ` set ?items) ?f s s'"
    unfolding rs(2) by (rule queue_selected_rows) (use assms(2) ids in \<open>auto simp: hooks_ok_def\<close>)
  have "\<exists>x\<in>set (trows (st_hooks s')). is_hook t p (rh_ID h) x" if "h \<in> set ?items" for h
  proof
    show "?f h \<in> set (trows (st_hooks s'))"
      using rows that unfolding rows_updated_def by (force simp: image_iff)
    show "is_hook t p (rh_ID h) (?f h)" using that by (simp add: is_hook_def triggered_hook_def)
  qed
  then obtain hs where "get_hooks s' t p ?items = Inr hs" "map rh_ID hs = map rh_ID ?items"
    using get_hooks_ok [of ?items s' t p] by blast
  with rs(1) ids rows show ?thesis using queued [of hs ?items] by auto
qed

lemma UpdateReleaseHook_cases:
  assumes "UpdateReleaseHook now hook s = (r, s')"
  obtains (refused) e where "r = Inl e" "s' = s"
  | (changed) hook' where "r = Inr ()" "normalizeReleaseHook hook = Inr hook'"
      "rows_updated (is_hook (rh_TenantID hook) (rh_ProjectID hook) (rh_ID hook)) (updated_hook (format_time now) hook') s s'"
      "rh_Enabled hook' = rh_Enabled hook"
proof -
  show ?thesis
  proof (cases r)
    case (Inl e)
    with assms have "s' = s"
      by (auto simp: UpdateReleaseHook_def Let_def split: sum.splits prod.splits if_splits)
    with Inl show ?thesis by (rule refused)
  next
    case (Inr u)
    obtain hook' where n: "normalizeReleaseHook hook = Inr hook'"
      using assms Inr by (cases "normalizeReleaseHook hook") (auto simp: UpdateReleaseHook_def)
    have id': "rh_TenantID hook' = rh_TenantID hook" "rh_ProjectID hook' = rh_ProjectID hook" "rh_ID hook' = rh_ID hook"
      "rh_Enabled hook' = rh_Enabled hook"
      using n by (auto simp: normalizeReleaseHook_def Let_def split: if_splits)
    let ?u = "tbl_update (is_hook (rh_TenantID hook) (rh_ProjectID hook) (rh_ID hook)) (updated_hook (format_time now) hook') (st_hooks s)"
    have "s' = s\<lparr>st_hooks := snd ?u\<rparr>"
      using assms Inr n id'
      by (auto simp: UpdateReleaseHook_def tbl_update_checked_def Let_def split: sum.splits prod.splits if_splits)
    then have "rows_updated (is_hook (rh_TenantID hook) (rh_ProjectID hook) (rh_ID hook)) (updated_hook (format_time now) hook') s s'"
      by (simp add: rows_updated_def)
    with Inr n id'(4) show ?thesis by (intro changed [of hook']) simp_all
  qed
qed

section \<open>Executions\<close>

text \<open>
  A step of the server as the hook tables see it, labelled with the triggers it accepted, the runs it
  claimed, or the pending triggers it dropped by disabling a hook.  Every other operation of the
  store leaves the hooks as they are.
\<close>

datatype hook_label = Triggered "int list" | Claimed "hook_run list" | Dropped int int | Quiet

definition pending_of :: "store \<Rightarrow> int \<Rightarrow> int \<Rightarrow> int \<Rightarrow> int" where
  "pending_of s t p i =
     (case tbl_row (is_hook t p i) (st_hooks s) of Inl _ \<Rightarrow> 0 | Inr h \<Rightarrow> rh_PendingEvents h)"

inductive hook_step :: "store \<Rightarrow> hook_label \<Rightarrow> store \<Rightarrow> bool" where
  hs_create: "CreateReleaseHook now h s = (r, s') \<Longrightarrow> hook_step s Quiet s'"
| hs_update: "UpdateReleaseHook now h s = (r, s')
    \<Longrightarrow> l = (if is_ok r \<and> \<not> rh_Enabled h then Dropped (rh_ID h) (pending_of s (rh_TenantID h) (rh_ProjectID h) (rh_ID h)) else Quiet)
    \<Longrightarrow> hook_step s l s'"
| hs_delete: "DeleteReleaseHook t p i s = (r, s') \<Longrightarrow> hook_step s Quiet s'"
| hs_queue: "QueueReleaseHook tx t p i v b src now s = (r, s')
    \<Longrightarrow> l = (case r of Inl _ \<Rightarrow> Quiet | Inr h \<Rightarrow> Triggered [rh_ID h]) \<Longrightarrow> hook_step s l s'"
| hs_project: "QueueProjectReleaseHooks tx t p v b src now s = (r', s')
    \<Longrightarrow> l = (case r' of Inl _ \<Rightarrow> Quiet | Inr hs \<Rightarrow> Triggered (map rh_ID hs)) \<Longrightarrow> hook_step s l s'"
| hs_claim: "ClaimDueReleaseHooks now limit s = (runs, s') \<Longrightarrow> hook_step s (Claimed runs) s'"
| hs_complete: "CompleteReleaseHookRun run d st detail now s = (r, s') \<Longrightarrow> hook_step s Quiet s'"
| hs_cancel: "RecordReleaseHookCancellation now h s = (r, s') \<Longrightarrow> hook_step s Quiet s'"
| hs_other: "st_hooks s' = st_hooks s \<Longrightarrow> hook_step s Quiet s'"

inductive hook_trace :: "store \<Rightarrow> hook_label list \<Rightarrow> store \<Rightarrow> bool" for s0 where
  hr_nil: "hook_trace s0 [] s0"
| hr_step: "hook_trace s0 ls s \<Longrightarrow> hook_step s l s' \<Longrightarrow> hook_trace s0 (ls @ [l]) s'"

fun label_triggers :: "int \<Rightarrow> hook_label \<Rightarrow> int" where
  "label_triggers i (Triggered is) = int (count_list is i)"
| "label_triggers i _ = 0"

fun label_claims :: "int \<Rightarrow> hook_label \<Rightarrow> int" where
  "label_claims i (Claimed runs) = sum_list (map hr_EventCount (filter (\<lambda>r. rh_ID (hr_Hook r) = i) runs))"
| "label_claims i _ = 0"

fun label_drops :: "int \<Rightarrow> hook_label \<Rightarrow> int" where
  "label_drops i (Dropped j n) = (if i = j then n else 0)"
| "label_drops i _ = 0"

abbreviation total :: "(hook_label \<Rightarrow> int) \<Rightarrow> hook_label list \<Rightarrow> int" where
  "total f ls \<equiv> sum_list (map f ls)"

text \<open>What one step may do to the rows: each row it leaves is an old row with its counters moved, or a new row.\<close>

definition row_step :: "store \<Rightarrow> hook_label \<Rightarrow> release_hook \<Rightarrow> bool" where
  "row_step s l h' \<longleftrightarrow>
     (\<exists>h\<in>set (trows (st_hooks s)). rh_ID h' = rh_ID h
        \<and> rh_TriggerCount h' = rh_TriggerCount h + label_triggers (rh_ID h) l
        \<and> rh_PendingEvents h' + label_claims (rh_ID h) l + label_drops (rh_ID h) l
            = rh_PendingEvents h + label_triggers (rh_ID h) l)
     \<or> rh_ID h' = tnext (st_hooks s) \<and> rh_TriggerCount h' = 0 \<and> rh_PendingEvents h' = 0"

definition fresh_label :: "store \<Rightarrow> hook_label \<Rightarrow> bool" where
  "fresh_label s l \<longleftrightarrow> (\<forall>i\<ge>tnext (st_hooks s). label_triggers i l = 0 \<and> label_claims i l = 0 \<and> label_drops i l = 0)"

definition good_step :: "store \<Rightarrow> hook_label \<Rightarrow> store \<Rightarrow> bool" where
  "good_step s l s' \<longleftrightarrow> hooks_ok s' \<and> tnext (st_hooks s) \<le> tnext (st_hooks s')
     \<and> (\<forall>h'\<in>set (trows (st_hooks s')). row_step s l h') \<and> fresh_label s l"

lemma fresh_quiet [simp]: "fresh_label s Quiet"
  by (simp add: fresh_label_def)

lemma row_quiet:
  "h \<in> set (trows (st_hooks s)) \<Longrightarrow> rh_ID h' = rh_ID h \<Longrightarrow> rh_TriggerCount h' = rh_TriggerCount h
   \<Longrightarrow> rh_PendingEvents h' = rh_PendingEvents h \<Longrightarrow> row_step s Quiet h'"
  unfolding row_step_def by auto

lemma good_quiet:
  assumes "hooks_ok s" "rows_updated P f s s'"
    "\<And>h. rh_ID (f h) = rh_ID h \<and> rh_TriggerCount (f h) = rh_TriggerCount h \<and> rh_PendingEvents (f h) = rh_PendingEvents h
       \<and> (hook_ok h \<longrightarrow> hook_ok (f h))"
  shows "good_step s Quiet s'"
proof -
  have "hooks_ok s'"
    by (rule hooks_ok_rows_updated [OF assms(1,2)]) (use assms(1,3) in \<open>auto simp: hooks_ok_def\<close>)
  moreover have "row_step s Quiet h'" if h': "h' \<in> set (trows (st_hooks s'))" for h'
  proof -
    obtain h where "h \<in> set (trows (st_hooks s))" "h' = (if P h then f h else h)"
      using rows_updated_row [OF assms(2) h'] by blast
    with assms(3) [of h] show ?thesis by (intro row_quiet [of h]) auto
  qed
  ultimately show ?thesis using assms(2) by (simp add: good_step_def rows_updated_def)
qed

lemma good_same: "hooks_ok s \<Longrightarrow> st_hooks s' = st_hooks s \<Longrightarrow> good_step s Quiet s'"
  by (rule good_quiet [of s "\<lambda>_. False" id]) (simp_all add: rows_updated_def)

lemma good_queue:
  assumes "hooks_ok s" "distinct ids" "set ids \<subseteq> rh_ID ` {h \<in> set (trows (st_hooks s)). rh_Enabled h}"
    "rows_updated (\<lambda>h. rh_ID h \<in> set ids) (\<lambda>h. triggered_hook v b src c (due_at now h) h) s s'"
  shows "good_step s (Triggered ids) s'"
proof -
  let ?f = "\<lambda>h. triggered_hook v b src c (due_at now h) h"
  have uniq: "rh_Enabled h" if "h \<in> set (trows (st_hooks s))" "rh_ID h \<in> set ids" for h
    using that assms(1,3) hook_names.id_unique [of "st_hooks s"] by (auto simp: hooks_ok_def)
  have "hook_ok (?f h)" if "h \<in> set (trows (st_hooks s))" "rh_ID h \<in> set ids" for h
    using due_at_Some [of now h] hook_ok_effects(1) [of h] uniq [OF that] assms(1) that(1) by (auto simp: hooks_ok_def)
  then have "hooks_ok s'" by (intro hooks_ok_rows_updated [OF assms(1,4)]) simp_all
  moreover have "row_step s (Triggered ids) h'" if h': "h' \<in> set (trows (st_hooks s'))" for h'
  proof -
    obtain h where h: "h \<in> set (trows (st_hooks s))" "h' = (if rh_ID h \<in> set ids then ?f h else h)"
      using rows_updated_row [OF assms(4) h'] by blast
    have "count_list ids (rh_ID h) = (if rh_ID h \<in> set ids then 1 else 0)"
      using assms(2) by (rule count_list_distinct)
    then have "rh_ID h' = rh_ID h \<and> rh_TriggerCount h' = rh_TriggerCount h + label_triggers (rh_ID h) (Triggered ids)
        \<and> rh_PendingEvents h' = rh_PendingEvents h + label_triggers (rh_ID h) (Triggered ids)"
      using h(2) by (simp add: triggered_hook_def)
    with h(1) show ?thesis unfolding row_step_def by (intro disjI1 bexI [of _ h]) simp_all
  qed
  moreover have "i \<notin> set ids" if "tnext (st_hooks s) \<le> i" for i
    using assms(1,3) that by (fastforce simp: hooks_ok_def tbl_ok_def)
  then have "fresh_label s (Triggered ids)" by (simp add: fresh_label_def count_list_0_iff)
  ultimately show ?thesis using assms(4) by (simp add: good_step_def rows_updated_def)
qed

lemma claimed_count:
  assumes "list_all2 claims runs items" "distinct (map rh_ID items)"
  shows "label_claims i (Claimed runs) = (case find (\<lambda>h. rh_ID h = i) items of None \<Rightarrow> 0 | Some h \<Rightarrow> rh_PendingEvents h)"
  using assms
proof (induction runs items rule: list_all2_induct)
  case (Cons r runs h items)
  have "rh_ID h \<notin> rh_ID ` set items" using Cons.prems by simp
  then have "filter (\<lambda>r. rh_ID (hr_Hook r) = rh_ID h) runs = []"
    using claims_ids [OF Cons.hyps(2)] unfolding filter_empty_conv by metis
  with Cons show ?case by (auto simp: claims_def)
qed simp

lemma good_claim:
  assumes "hooks_ok s" "ClaimDueReleaseHooks now limit s = (runs, s')"
  shows "good_step s (Claimed runs) s'"
proof -
  have ok: "tbl_ok rh_ID (st_hooks s)" using assms(1) by (simp add: hooks_ok_def)
  let ?due = "due_hooks now limit s"
  note spec = claim_spec [OF assms(2) ok]
  have upd: "rows_updated (\<lambda>h. rh_ID h \<in> rh_ID ` set ?due) (claimed_hook (format_time now)) s s'"
    using spec by (simp add: rows_updated_def)
  have "hooks_ok s'"
    by (rule hooks_ok_rows_updated [OF assms(1) upd]) (use assms(1) hook_ok_effects(2) in \<open>auto simp: hooks_ok_def\<close>)
  moreover have cnt: "label_claims i (Claimed runs)
      = (case find (\<lambda>h. rh_ID h = i) ?due of None \<Rightarrow> 0 | Some h \<Rightarrow> rh_PendingEvents h)" for i
    using claimed_count [of runs ?due i] spec due_hooks_distinct [OF ok] by simp
  have "row_step s (Claimed runs) h'" if h': "h' \<in> set (trows (st_hooks s'))" for h'
  proof -
    obtain h where h: "h \<in> set (trows (st_hooks s))"
      "h' = (if rh_ID h \<in> rh_ID ` set ?due then claimed_hook (format_time now) h else h)"
      using rows_updated_row [OF upd h'] by blast
    have "label_claims (rh_ID h) (Claimed runs) = (if rh_ID h \<in> rh_ID ` set ?due then rh_PendingEvents h else 0)"
    proof (cases "find (\<lambda>x. rh_ID x = rh_ID h) ?due")
      case None
      then have "rh_ID h \<notin> rh_ID ` set ?due" by (auto simp: find_None_all)
      with None cnt [of "rh_ID h"] show ?thesis by simp
    next
      case (Some x)
      then have x: "x \<in> set ?due" "rh_ID x = rh_ID h" by (auto dest: find_Some_iff2)
      then have "x = h" using hook_names.id_unique [OF ok, of x h] due_hooks_rows [of now limit s] h(1) by auto
      with Some x cnt [of "rh_ID h"] show ?thesis by auto
    qed
    with h show ?thesis unfolding row_step_def by (intro disjI1 bexI [of _ h]) (auto simp: claimed_hook_def)
  qed
  moreover have "fresh_label s (Claimed runs)"
  proof -
    have "find (\<lambda>h. rh_ID h = i) ?due = None" if "tnext (st_hooks s) \<le> i" for i
      unfolding find_None_all using due_hooks_rows [of now limit s] ok that by (fastforce simp: tbl_ok_def)
    then show ?thesis using cnt by (simp add: fresh_label_def)
  qed
  ultimately show ?thesis using upd by (simp add: good_step_def rows_updated_def)
qed

lemma good_drop:
  assumes "hooks_ok s" "rows_updated (is_hook t p i) (updated_hook c k) s s'" "\<not> rh_Enabled k"
  shows "good_step s (Dropped i (pending_of s t p i)) s'"
proof -
  have ok: "tbl_ok rh_ID (st_hooks s)" using assms(1) by (simp add: hooks_ok_def)
  have "hooks_ok s'"
    by (rule hooks_ok_rows_updated [OF assms(1,2)]) (use assms(1) hook_ok_effects(3) in \<open>auto simp: hooks_ok_def\<close>)
  moreover have pend: "pending_of s t p (rh_ID h) = (if is_hook t p (rh_ID h) h then rh_PendingEvents h else 0)"
    if "h \<in> set (trows (st_hooks s))" for h
  proof (cases "tbl_row (is_hook t p (rh_ID h)) (st_hooks s)")
    case (Inl e)
    with that show ?thesis by (auto simp: pending_of_def dest: tbl_row_Inl)
  next
    case (Inr x)
    then have x: "x \<in> set (trows (st_hooks s))" "is_hook t p (rh_ID h) x" by (auto dest: tbl_row_Inr)
    then have "x = h" using hook_names.id_unique [OF ok, of x h] that by (auto simp: is_hook_def)
    with Inr x show ?thesis by (simp add: pending_of_def)
  qed
  have "row_step s (Dropped i (pending_of s t p i)) h'" if h': "h' \<in> set (trows (st_hooks s'))" for h'
  proof -
    obtain h where h: "h \<in> set (trows (st_hooks s))" "h' = (if is_hook t p i h then updated_hook c k h else h)"
      using rows_updated_row [OF assms(2) h'] by blast
    have "is_hook t p i h \<Longrightarrow> rh_ID h = i" by (simp add: is_hook_def)
    with h pend [OF h(1)] assms(3) show ?thesis
      unfolding row_step_def by (intro disjI1 bexI [of _ h]) (auto simp: updated_hook_def Let_def)
  qed
  moreover have "pending_of s t p j = 0" if "tnext (st_hooks s) \<le> j" for j
  proof -
    have "\<forall>x\<in>set (trows (st_hooks s)). \<not> is_hook t p j x" using ok that by (fastforce simp: tbl_ok_def is_hook_def)
    then show ?thesis using tbl_row_none [of "st_hooks s" "is_hook t p j"] by (simp add: pending_of_def)
  qed
  ultimately show ?thesis using assms(2) by (simp add: good_step_def rows_updated_def fresh_label_def)
qed

lemma hook_step_good:
  assumes "hook_step s l s'" "hooks_ok s"
  shows "good_step s l s'"
  using assms(1)
proof cases
  case (hs_create now h r)
  show ?thesis
  proof (cases "st_hooks s' = st_hooks s")
    case True
    with assms(2) hs_create(1) show ?thesis by (simp add: good_same)
  next
    case False
    then obtain k i t where
      "tbl_insert hook_conflict (\<lambda>i r. set_rh_ID i r) ''release_hooks'' (fresh_hook (format_time now) k) (st_hooks s) = (Inr i, t)"
      "st_hooks s' = t"
      using hs_create(2) by (auto simp: CreateReleaseHook_def Let_def split: sum.splits prod.splits)
    then have rows: "trows (st_hooks s') = trows (st_hooks s) @ [set_rh_ID (tnext (st_hooks s)) (fresh_hook (format_time now) k)]"
      "tnext (st_hooks s') = tnext (st_hooks s) + 1"
      and ins: "st_hooks s' = snd (tbl_insert hook_conflict (\<lambda>i r. set_rh_ID i r) ''release_hooks'' (fresh_hook (format_time now) k) (st_hooks s))"
      by (auto elim!: tbl_insert_cases)
    have "hook_ok (set_rh_ID j (fresh_hook c k))" for j c by (simp add: hook_ok_def fresh_hook_def)
    then have "hooks_ok s'" using assms(2) rows(1) hook_names.ok_insert ins by (auto simp: hooks_ok_def)
    moreover have "row_step s Quiet x" if "x \<in> set (trows (st_hooks s))" for x using that by (rule row_quiet) simp_all
    moreover have "row_step s Quiet (set_rh_ID (tnext (st_hooks s)) (fresh_hook (format_time now) k))"
      by (simp add: row_step_def fresh_hook_def)
    ultimately show ?thesis using rows hs_create(1) by (auto simp: good_step_def)
  qed
next
  case (hs_update now h r)
  from hs_update(1) show ?thesis
  proof (cases rule: UpdateReleaseHook_cases)
    case refused
    with assms(2) hs_update(2) show ?thesis by (simp add: good_same)
  next
    case (changed hook')
    show ?thesis
    proof (cases "rh_Enabled h")
      case True
      have "good_step s Quiet s'"
        by (rule good_quiet [OF assms(2) changed(3)])
          (use True changed(4) hook_ok_effects(3) in \<open>auto simp: updated_hook_def Let_def hook_ok_def\<close>)
      with True hs_update(2) show ?thesis by simp
    next
      case False
      with good_drop [OF assms(2) changed(3)] changed(1,4) hs_update(2) show ?thesis by simp
    qed
  qed
next
  case (hs_delete t p i r)
  then have del: "st_hooks s' = st_hooks s \<or> st_hooks s' = snd (tbl_delete (is_hook t p i) (st_hooks s))"
    by (auto simp: DeleteReleaseHook_def Let_def split: prod.splits if_splits)
  then have rows: "set (trows (st_hooks s')) \<subseteq> set (trows (st_hooks s))" "tnext (st_hooks s') = tnext (st_hooks s)" by auto
  from del have "hooks_ok s'" using assms(2) hook_names.ok_delete [of "st_hooks s" "is_hook t p i"] by (auto simp: hooks_ok_def)
  moreover have "row_step s Quiet x" if "x \<in> set (trows (st_hooks s'))" for x
    by (rule row_quiet [of x]) (use that rows in auto)
  ultimately show ?thesis using rows(2) hs_delete(1) by (simp add: good_step_def)
next
  case (hs_queue tx t p i v b src now r)
  from hs_queue(1) assms(2) show ?thesis
  proof (cases rule: QueueReleaseHook_cases)
    case refused
    with assms(2) hs_queue(2) show ?thesis by (simp add: good_same)
  next
    case (queued h src')
    then obtain x where x: "r = Inr x" "rh_ID x = i" by (auto simp: is_ok_iff)
    have "rows_updated (\<lambda>h. rh_ID h \<in> set [i]) (\<lambda>h. triggered_hook (trim_space v) (trim_space b) src' (format_time now) (due_at now h) h) s s'"
      using queued(4) by simp
    moreover have "set [i] \<subseteq> rh_ID ` {h \<in> set (trows (st_hooks s)). rh_Enabled h}"
      using queued(1-3) by (auto simp: is_hook_def)
    ultimately have "good_step s (Triggered [i]) s'" by (intro good_queue [OF assms(2)]) simp_all
    with x hs_queue(2) show ?thesis by simp
  qed
next
  case (hs_project tx t p v b src now r')
  from hs_project(1) assms(2) show ?thesis
  proof (cases rule: QueueProjectReleaseHooks_cases)
    case refused
    with assms(2) hs_project(2) show ?thesis by (simp add: good_same)
  next
    case (queued hs items)
    have "rows_updated (\<lambda>h. rh_ID h \<in> set (map rh_ID items))
        (\<lambda>h. triggered_hook (trim_space v) (trim_space b) (trim_space src) (format_time now) (due_at now h) h) s s'"
      using queued(5) by simp
    from good_queue [OF assms(2) queued(3) _ this] queued(1,2,4) hs_project(2) show ?thesis by auto
  qed
next
  case (hs_claim now limit runs)
  then show ?thesis using good_claim [OF assms(2)] by simp
next
  case (hs_complete run d st detail now r)
  let ?f = "\<lambda>h. h\<lparr>rh_LastDeploymentID := d, rh_LastStatus := st,
      rh_LastError := (if st = ''failed'' then detail else []), rh_UpdatedAt := (if st = ''running'' then None else format_time now)\<rparr>"
  have "rows_updated (\<lambda>h. rh_ID h = rh_ID (hr_Hook run)) ?f s s'"
    using hs_complete(2) by (auto simp: CompleteReleaseHookRun_def Let_def rows_updated_def)
  from good_quiet [OF assms(2) this] hs_complete(1) show ?thesis by (simp add: hook_ok_def)
next
  case (hs_cancel now h r)
  then show ?thesis using assms(2) by (auto simp: RecordReleaseHookCancellation_def good_same split: if_splits)
next
  case hs_other
  then show ?thesis using assms(2) by (simp add: good_same)
qed

definition accounted :: "hook_label list \<Rightarrow> store \<Rightarrow> bool" where
  "accounted ls s \<longleftrightarrow>
     (\<forall>h\<in>set (trows (st_hooks s)). let i = rh_ID h in
        rh_TriggerCount h = total (label_triggers i) ls
        \<and> total (label_triggers i) ls = total (label_claims i) ls + total (label_drops i) ls + rh_PendingEvents h)
     \<and> (\<forall>i\<ge>tnext (st_hooks s). total (label_triggers i) ls = 0 \<and> total (label_claims i) ls = 0 \<and> total (label_drops i) ls = 0)"

lemma accounted_step:
  assumes "good_step s l s'" "accounted ls s"
  shows "accounted (ls @ [l]) s'"
proof -
  have fresh: "total (label_triggers i) (ls @ [l]) = 0 \<and> total (label_claims i) (ls @ [l]) = 0 \<and> total (label_drops i) (ls @ [l]) = 0"
    if "tnext (st_hooks s) \<le> i" for i
    using assms that by (simp add: good_step_def fresh_label_def accounted_def)
  have "rh_TriggerCount h' = total (label_triggers i) (ls @ [l])
        \<and> total (label_triggers i) (ls @ [l]) = total (label_claims i) (ls @ [l]) + total (label_drops i) (ls @ [l]) + rh_PendingEvents h'"
    if "h' \<in> set (trows (st_hooks s'))" "i = rh_ID h'" for h' i
  proof -
    have "row_step s l h'" using assms(1) that(1) by (simp add: good_step_def)
    then show ?thesis unfolding row_step_def
    proof (elim disjE bexE conjE)
      fix h assume "h \<in> set (trows (st_hooks s))" "rh_ID h' = rh_ID h"
        "rh_TriggerCount h' = rh_TriggerCount h + label_triggers (rh_ID h) l"
        "rh_PendingEvents h' + label_claims (rh_ID h) l + label_drops (rh_ID h) l = rh_PendingEvents h + label_triggers (rh_ID h) l"
      moreover from this(1) assms(2) have "rh_TriggerCount h = total (label_triggers (rh_ID h)) ls
        \<and> total (label_triggers (rh_ID h)) ls = total (label_claims (rh_ID h)) ls + total (label_drops (rh_ID h)) ls + rh_PendingEvents h"
        by (simp add: accounted_def Let_def)
      ultimately show ?thesis using that(2) by simp
    next
      assume "rh_ID h' = tnext (st_hooks s)" "rh_TriggerCount h' = 0" "rh_PendingEvents h' = 0"
      with fresh [of i] that(2) show ?thesis by simp
    qed
  qed
  with fresh assms(1) show ?thesis by (auto simp: accounted_def good_step_def Let_def)
qed

lemma hook_trace_accounted:
  "hook_trace s0 ls s \<Longrightarrow> hooks_ok s0 \<Longrightarrow> accounted [] s0 \<Longrightarrow> hooks_ok s \<and> accounted ls s"
  by (induction rule: hook_trace.induct) (auto dest: hook_step_good accounted_step simp: good_step_def)

text \<open>
  C6: no trigger of a release hook is lost and none is dispatched twice: in every interleaving of
  hook operations from an empty table, the triggers a hook has accepted are exactly those of the
  runs claimed for it, those dropped by disabling it, and those still pending, and its trigger
  counter counts them.
\<close>

theorem hook_triggers_accounted:
  assumes "hook_trace s0 ls s" "st_hooks s0 = empty_table" "h \<in> set (trows (st_hooks s))"
  shows "rh_TriggerCount h = total (label_triggers (rh_ID h)) ls
    \<and> total (label_triggers (rh_ID h)) ls
        = total (label_claims (rh_ID h)) ls + total (label_drops (rh_ID h)) ls + rh_PendingEvents h"
proof -
  have "hooks_ok s0" using assms(2) by (simp add: hooks_ok_def hook_names.ok_empty empty_table_def tbl_ok_def)
  moreover have "accounted [] s0" using assms(2) by (simp add: accounted_def empty_table_def)
  ultimately have "accounted ls s" using hook_trace_accounted [OF assms(1)] by simp
  with assms(3) show ?thesis by (simp add: accounted_def Let_def)
qed

section \<open>Debouncing\<close>

type_synonym trigger = "string \<times> string \<times> string \<times> go_time"

definition valid_trigger :: "trigger \<Rightarrow> bool" where
  "valid_trigger tr =
     (case tr of (v, b, src, now) \<Rightarrow>
        trim_space v \<noteq> [] \<and> trim_space b \<noteq> []
        \<and> safeReleaseHookSource (if trim_space src = [] then ''manual'' else trim_space src))"

fun queue_all :: "(stamp \<Rightarrow> string) \<Rightarrow> int \<Rightarrow> int \<Rightarrow> int \<Rightarrow> trigger list \<Rightarrow> store \<Rightarrow> store" where
  "queue_all tx t p i [] s = s"
| "queue_all tx t p i ((v, b, src, now) # trs) s =
     queue_all tx t p i trs (snd (QueueReleaseHook tx t p i v b src now s))"

lemma queue_all_append: "queue_all tx t p i (trs @ trs') s = queue_all tx t p i trs' (queue_all tx t p i trs s)"
  by (induction trs arbitrary: s) auto

definition waits :: "release_hook \<Rightarrow> trigger \<Rightarrow> release_hook \<Rightarrow> bool" where
  "waits h tr h1 =
     (case tr of (v, b, src, now) \<Rightarrow>
        rh_PendingVersion h1 = trim_space v \<and> rh_PendingRequestedBy h1 = trim_space b \<and> rh_DueAt h1 = due_at now h)"

lemma queue_all_row:
  assumes "hooks_ok s" "h \<in> set (trows (st_hooks s))" "is_hook t p i h" "rh_Enabled h" "list_all valid_trigger trs"
  shows "hooks_ok (queue_all tx t p i trs s)
    \<and> (\<exists>h1\<in>set (trows (st_hooks (queue_all tx t p i trs s))). is_hook t p i h1 \<and> rh_Enabled h1
        \<and> rh_DebounceSeconds h1 = rh_DebounceSeconds h
        \<and> rh_PendingEvents h1 = rh_PendingEvents h + int (length trs) \<and> (trs \<noteq> [] \<longrightarrow> waits h (last trs) h1))"
  using assms(5)
proof (induction trs rule: rev_induct)
  case Nil
  with assms show ?case by auto
next
  case (snoc tr trs)
  obtain v b src now where tr: "tr = (v, b, src, now)" by (cases tr)
  let ?s = "queue_all tx t p i trs s"
  obtain r s' where q: "QueueReleaseHook tx t p i v b src now ?s = (r, s')" by fastforce
  from snoc obtain h1 where IH: "hooks_ok ?s" "h1 \<in> set (trows (st_hooks ?s))" "is_hook t p i h1" "rh_Enabled h1"
    "rh_DebounceSeconds h1 = rh_DebounceSeconds h" "rh_PendingEvents h1 = rh_PendingEvents h + int (length trs)" by auto
  have s': "queue_all tx t p i (trs @ [tr]) s = s'" using q by (simp add: queue_all_append tr)
  have ok: "hooks_ok s'" using hook_step_good [OF hs_queue [OF q refl] IH(1)] by (simp add: good_step_def)
  have row: "\<exists>x. tbl_row (\<lambda>h. is_hook t p i h \<and> rh_Enabled h) (st_hooks ?s) = Inr x"
    using tbl_row_ex [of h1 "st_hooks ?s" "\<lambda>h. is_hook t p i h \<and> rh_Enabled h"] IH by blast
  from q IH(1) show ?case
  proof (cases rule: QueueReleaseHook_cases)
    case (refused e)
    have "is_ok (fst (QueueReleaseHook tx t p i v b src now ?s)) \<or> st_events s' \<noteq> st_events ?s"
    proof -
      obtain x where "tbl_row (\<lambda>h. is_hook t p i h \<and> rh_Enabled h) (st_hooks ?s) = Inr x" using row by blast
      with snoc.prems tr have "st_events (snd (QueueReleaseHook tx t p i v b src now ?s)) \<noteq> st_events ?s"
        by (auto simp: QueueReleaseHook_def valid_trigger_def Let_def add_event_def tbl_insert_def no_conflict_def list_ex_iff
            dest: arg_cong [where f = trows])
      with q show ?thesis by simp
    qed
    with refused q show ?thesis by simp
  next
    case (queued h2 src')
    let ?f = "triggered_hook (trim_space v) (trim_space b) src' (format_time now) (due_at now h1) h1"
    have "?f \<in> set (trows (st_hooks s'))"
      using queued(4) IH(2,3) unfolding rows_updated_def by (force simp: is_hook_def image_iff)
    moreover have "due_at now h1 = due_at now h" using IH(5) by (simp add: due_at_def)
    ultimately show ?thesis using ok IH unfolding s'
      by (intro conjI bexI [of _ ?f]) (auto simp: tr waits_def triggered_hook_def is_hook_def)
  qed
qed

lemma claimed_due:
  assumes "ClaimDueReleaseHooks now limit s = (runs, s')" "tbl_ok rh_ID (st_hooks s)" "r \<in> set runs"
  shows "\<exists>x\<in>set (trows (st_hooks s)). due_hook (format_time now) x \<and> rh_ID (hr_Hook r) = rh_ID x"
proof -
  have "list_all2 claims runs (due_hooks now limit s)" using claim_spec [OF assms(1,2)] by simp
  from claims_ids [OF this assms(3)] due_hooks_rows [of now limit s] show ?thesis by auto
qed

lemma claimed_one:
  assumes "list_all2 claims runs items" "distinct (map rh_ID items)" "h \<in> set items"
  shows "\<exists>r. filter (\<lambda>r. rh_ID (hr_Hook r) = rh_ID h) runs = [r] \<and> claims r h"
  using assms
proof (induction runs items rule: list_all2_induct)
  case (Cons r runs x items)
  show ?case
  proof (cases "h = x")
    case True
    have "rh_ID x \<notin> rh_ID ` set items" using Cons.prems(1) by simp
    then have "filter (\<lambda>r. rh_ID (hr_Hook r) = rh_ID x) runs = []"
      using claims_ids [OF Cons.hyps(2)] unfolding filter_empty_conv by metis
    with True Cons.hyps(1) show ?thesis by (simp add: claims_def)
  next
    case False
    then have "h \<in> set items" using Cons.prems(2) by simp
    moreover from this have "rh_ID (hr_Hook r) \<noteq> rh_ID h"
      using Cons.hyps(1) Cons.prems(1) by (auto simp: claims_def)
    ultimately show ?thesis using Cons.IH Cons.prems(1) by simp
  qed
qed simp

text \<open>
  C7: a burst of triggers becomes one run on its trailing edge: after any number of triggers of an idle
  hook, no claim before the debounce time of the last one has passed returns the hook; a claim after
  it, if its limit admits all due hooks, returns the hook in exactly one run, with the version and
  requester of the last trigger and the number of triggers, and claiming again returns nothing for it.
\<close>

theorem debounce_coalesces:
  assumes "hooks_ok s" "h \<in> set (trows (st_hooks s))" "is_hook t p i h" "rh_Enabled h" "rh_PendingEvents h = 0"
    and "list_all valid_trigger (trs @ [(v, b, src, tn)])"
    and "s1 = queue_all tx t p i (trs @ [(v, b, src, tn)]) s" "ClaimDueReleaseHooks now limit s1 = (runs, s2)"
  shows "(format_time now < due_at tn h \<longrightarrow> (\<forall>r\<in>set runs. rh_ID (hr_Hook r) \<noteq> i))
    \<and> (due_at tn h \<le> format_time now \<and> length (tbl_select (due_hook (format_time now)) (st_hooks s1)) \<le> clamp_limit 10 50 limit
        \<longrightarrow> (\<exists>r. filter (\<lambda>r. rh_ID (hr_Hook r) = i) runs = [r] \<and> hr_Version r = trim_space v
              \<and> hr_RequestedBy r = trim_space b \<and> hr_EventCount r = int (length trs) + 1)
            \<and> (\<forall>now' limit'. \<forall>r\<in>set (fst (ClaimDueReleaseHooks now' limit' s2)). rh_ID (hr_Hook r) \<noteq> i))"
proof -
  from queue_all_row [OF assms(1-4,6), of tx] assms(5) obtain h1 where ok: "hooks_ok s1"
    and h1: "h1 \<in> set (trows (st_hooks s1))" "is_hook t p i h1" "rh_Enabled h1" "rh_PendingEvents h1 = int (length trs) + 1"
    "rh_PendingVersion h1 = trim_space v" "rh_PendingRequestedBy h1 = trim_space b" "rh_DueAt h1 = due_at tn h"
    unfolding assms(7) by (auto simp: waits_def)
  have t1: "tbl_ok rh_ID (st_hooks s1)" using ok by (simp add: hooks_ok_def)
  have i: "rh_ID h1 = i" using h1(2) by (simp add: is_hook_def)
  have only: "x = h1" if "x \<in> set (trows (st_hooks s1))" "rh_ID x = i" for x
    using hook_names.id_unique [OF t1 that(1) h1(1)] that(2) i by simp
  note spec = claim_spec [OF assms(8) t1]
  let ?due = "due_hooks now limit s1"
  have early: "rh_ID (hr_Hook r) \<noteq> i" if r: "format_time now < due_at tn h" "r \<in> set runs" for r
  proof
    assume "rh_ID (hr_Hook r) = i"
    with claimed_due [OF assms(8) t1 r(2)] only have "due_hook (format_time now) h1" by metis
    with r(1) h1(7) show False by (auto simp: due_hook_def dest: leD)
  qed
  have late: "(\<exists>r. filter (\<lambda>r. rh_ID (hr_Hook r) = i) runs = [r] \<and> hr_Version r = trim_space v
              \<and> hr_RequestedBy r = trim_space b \<and> hr_EventCount r = int (length trs) + 1)
            \<and> (\<forall>now' limit'. \<forall>r\<in>set (fst (ClaimDueReleaseHooks now' limit' s2)). rh_ID (hr_Hook r) \<noteq> i)"
    if "due_at tn h \<le> format_time now" "length (tbl_select (due_hook (format_time now)) (st_hooks s1)) \<le> clamp_limit 10 50 limit"
  proof -
    have "due_hook (format_time now) h1" using h1(3,7) that(1) due_at_Some [of tn h] by (auto simp: due_hook_def)
    then have h1_due: "h1 \<in> set ?due" using h1(1) that(2) by (simp add: due_hooks_def)
    from claimed_one [of runs ?due h1] spec due_hooks_distinct [OF t1] h1_due
    obtain r where "filter (\<lambda>r. rh_ID (hr_Hook r) = rh_ID h1) runs = [r]" "claims r h1" by blast
    moreover have t2: "tbl_ok rh_ID (st_hooks s2)"
      using hook_step_good [OF hs_claim [OF assms(8)] ok] by (simp add: good_step_def hooks_ok_def)
    have "rh_ID (hr_Hook r) \<noteq> i" if r: "r \<in> set (fst (ClaimDueReleaseHooks now' limit' s2))" for r now' limit'
    proof
      assume "rh_ID (hr_Hook r) = i"
      with claimed_due [OF prod.collapse [symmetric] t2 r] obtain x where
        x: "x \<in> set (trows (st_hooks s2))" "rh_DueAt x \<noteq> None" "rh_ID x = i" by (auto simp: due_hook_def)
      have "rh_ID h1 \<in> rh_ID ` set ?due" using h1_due by simp
      with x spec i show False by (auto simp: claimed_hook_def)
    qed
    ultimately show ?thesis using h1(4-6) i by (auto simp: claims_def)
  qed
  from early late show ?thesis by blast
qed

section \<open>Witnesses\<close>

definition sample_task :: push_task where
  "sample_task = \<lparr>tk_ID = 1, tk_TenantID = 1, tk_ProjectID = 1, tk_Name = ''rollout'', tk_Version = [],
     tk_ServerIDs = [''s1''], tk_Tags = [''test''], tk_TagMatch = ''all'', tk_CreatedBy = ''ci'', tk_RunCount = 0,
     tk_LastRunAt = None, tk_CreatedAt = None, tk_UpdatedAt = None\<rparr>"

definition sample_hook :: release_hook where
  "sample_hook = (run_hook_of 1 1 1 1 ''on publish'')\<lparr>rh_Enabled := True, rh_DebounceSeconds := 30\<rparr>"

definition hook_base :: store where
  "hook_base = (empty_store ''/d'')\<lparr>st_tasks := \<lparr>trows = [sample_task], tnext = 2\<rparr>\<rparr>"

definition hook_created :: store where
  "hook_created = snd (CreateReleaseHook 0 sample_hook hook_base)"

definition two_triggers :: "trigger list" where
  "two_triggers = [(''1.0.0'', ''ci'', ''gitea'', 5 * Second), (''1.0.1'', ''ci'', [], 20 * Second)]"

definition hook_queued :: store where
  "hook_queued = queue_all (\<lambda>_. []) 1 1 1 two_triggers hook_created"

lemma hook_trace_queue:
  "hook_trace s0 ls s \<Longrightarrow> \<exists>ls'. hook_trace s0 ls' (queue_all tx t p i trs s)"
proof (induction trs arbitrary: s ls)
  case (Cons tr trs)
  obtain v b src now where tr: "tr = (v, b, src, now)" by (cases tr)
  from hr_step [OF Cons.prems hs_queue [OF prod.collapse [symmetric] refl]] Cons.IH show ?case
    unfolding tr by simp blast
qed auto

lemma hook_triggers_accounted_witness:
  "\<exists>ls. hook_trace hook_base ls (snd (ClaimDueReleaseHooks (60 * Second) 10 hook_queued))
     \<and> total (label_triggers 1) ls = 2 \<and> total (label_claims 1) ls + total (label_drops 1) ls = 2"
proof -
  let ?s = "snd (ClaimDueReleaseHooks (60 * Second) 10 hook_queued)"
  have "hook_trace hook_base ([] @ [Quiet]) hook_created"
    unfolding hook_created_def by (rule hr_step [OF hr_nil hs_create [OF prod.collapse [symmetric]]])
  then obtain ls where "hook_trace hook_base ls hook_queued" unfolding hook_queued_def using hook_trace_queue by blast
  from hr_step [OF this hs_claim [OF prod.collapse [symmetric]]]
  obtain ls' where run: "hook_trace hook_base ls' ?s" by blast
  have "map (\<lambda>h. (rh_ID h, rh_TriggerCount h, rh_PendingEvents h)) (trows (st_hooks ?s)) = [(1, 2, 0)]" by code_simp
  then obtain h where "h \<in> set (trows (st_hooks ?s))" "rh_ID h = 1" "rh_TriggerCount h = 2" "rh_PendingEvents h = 0" by auto
  with hook_triggers_accounted [OF run, of h] have "total (label_triggers 1) ls' = 2"
    "total (label_claims 1) ls' + total (label_drops 1) ls' = 2" by (auto simp: hook_base_def empty_store_def)
  with run show ?thesis by blast
qed

lemma debounce_coalesces_witness:
  "list_all (\<lambda>r. rh_ID (hr_Hook r) \<noteq> 1) (fst (ClaimDueReleaseHooks (40 * Second) 10 hook_queued))
   \<and> (\<exists>r. filter (\<lambda>r. rh_ID (hr_Hook r) = 1) (fst (ClaimDueReleaseHooks (50 * Second) 10 hook_queued)) = [r]
        \<and> hr_Version r = ''1.0.1'' \<and> hr_EventCount r = 2)"
proof -
  have "map (\<lambda>h. (is_hook 1 1 1 h, rh_Enabled h, rh_PendingEvents h, rh_DebounceSeconds h)) (trows (st_hooks hook_created)) = [(True, True, 0, 30)]"
    by code_simp
  then obtain h where h: "h \<in> set (trows (st_hooks hook_created))" "is_hook 1 1 1 h" "rh_Enabled h" "rh_PendingEvents h = 0"
    "rh_DebounceSeconds h = 30" by auto
  have "hooks_ok hook_base" by (simp add: hooks_ok_def hook_base_def empty_store_def hook_names.ok_empty) (simp add: empty_table_def)
  then have ok: "hooks_ok hook_created"
    using hook_step_good [OF hs_create [OF prod.collapse [symmetric]]] unfolding hook_created_def good_step_def by blast
  have trs: "two_triggers = [(''1.0.0'', ''ci'', ''gitea'', 5 * Second)] @ [(''1.0.1'', ''ci'', [], 20 * Second)]"
    by (simp add: two_triggers_def)
  have valid: "list_all valid_trigger two_triggers" by code_simp
  have due: "due_at (20 * Second) h = Some 50" by (simp add: due_at_def h(5) Second_def format_time_def)
  have len: "length (tbl_select (due_hook (format_time (50 * Second))) (st_hooks hook_queued)) \<le> clamp_limit 10 50 10" by code_simp
  have times: "format_time (40 * Second) < Some 50" "Some 50 \<le> format_time (50 * Second)"
    by (simp_all add: format_time_def Second_def)
  have v: "trim_space ''1.0.1'' = ''1.0.1''" by code_simp
  note use = debounce_coalesces [OF ok h(1-4) valid [unfolded trs] hook_queued_def [unfolded trs] prod.collapse [symmetric]]
  from use [of "40 * Second" 10] use [of "50 * Second" 10] len times show ?thesis unfolding due v list_all_iff by auto
qed

end
