(* ===== verification/AuditLog.thy ===== *)
theory AuditLog
  imports Hosts
begin

text \<open>
  The audit log (\<open>internal/store/audit.go\<close>, \<open>internal/api/audit.go\<close>).  An entry is written for the user of the
  session, so an operation without a session writes none; listings show the retention period only.
\<close>

definition RecordAudit :: "go_time \<Rightarrow> string \<Rightarrow> string \<Rightarrow> string \<Rightarrow> string \<Rightarrow> store \<Rightarrow> store" where
  "RecordAudit now username action detail ip s =
     s\<lparr>st_audit := snd (tbl_insert no_conflict (\<lambda>i r. set_al_ID i r) ''audit_logs''
        \<lparr>al_ID = 0, al_At = format_time now, al_Username = username, al_Action = action, al_Detail = detail, al_IP = ip\<rparr>
        (st_audit s))\<rparr>"

definition ListAuditLogs :: "go_time \<Rightarrow> store \<Rightarrow> int \<Rightarrow> audit_entry list" where
  "ListAuditLogs now s limit =
     take (clamp_limit 100 500 limit)
       (rev (tbl_select (\<lambda>e. al_At e \<ge> format_time (now - LogRetention)) (st_audit s)))"

definition UsernameForToken :: "store \<Rightarrow> string \<Rightarrow> string" where
  "UsernameForToken s token =
     (case tbl_row (\<lambda>u. u_Token u = token) (st_users s) of Inl _ \<Rightarrow> ''token:*'' | Inr u \<Rightarrow> u_Username u)"

text \<open>The session of a request, as far as the handlers of the model read it: user id, name and address.\<close>

record api_session =
  as_UserID :: int
  as_Username :: string
  as_TenantID :: int

definition auditSession :: "go_time \<Rightarrow> api_session option \<Rightarrow> string \<Rightarrow> string \<Rightarrow> string \<Rightarrow> store \<Rightarrow> store" where
  "auditSession now sess ip action detail s =
     (case sess of None \<Rightarrow> s | Some u \<Rightarrow> RecordAudit now (as_Username u) action detail ip s)"

lemma RecordAudit_frame [simp]:
  "st_users (RecordAudit now u a d ip s) = st_users s"
  "st_hooks (RecordAudit now u a d ip s) = st_hooks s"
  "st_events (RecordAudit now u a d ip s) = st_events s"
  "st_nodes (RecordAudit now u a d ip s) = st_nodes s"
  "st_deployments (RecordAudit now u a d ip s) = st_deployments s"
  "st_targets (RecordAudit now u a d ip s) = st_targets s"
  "st_tasks (RecordAudit now u a d ip s) = st_tasks s"
  "st_versions (RecordAudit now u a d ip s) = st_versions s"
  "st_bans (RecordAudit now u a d ip s) = st_bans s"
  "st_loginProtection (RecordAudit now u a d ip s) = st_loginProtection s"
  by (simp_all add: RecordAudit_def)

end
