(* ===== verification/HookWorker.thy ===== *)
theory HookWorker
  imports ReleaseHooks PushRun AuditLog Members
begin

text \<open>
  The worker that dispatches due release hooks (\<open>internal/api/release_hook_worker.go\<close>).  Dispatching a
  claimed run finds the deployment of its event or creates it, runs it when it is still open, and
  records the outcome with the event.  A run whose worker died is found again as stale and dispatched
  a second time.  \<open>clock\<close> gives the times of the dispatch, \<open>later\<close> the time after it, \<open>now\<close> the tick.
\<close>

section \<open>Dispatching a run\<close>

definition fail_hook_run :: "go_time \<Rightarrow> hook_run \<Rightarrow> int \<Rightarrow> string \<Rightarrow> store \<Rightarrow> store" where
  "fail_hook_run later run deploymentID message s =
     RecordAudit later (hr_RequestedBy run) ''release.hook.failed''
       (''hook_id='' @ show_int (rh_ID (hr_Hook run)) @ '' version='' @ hr_Version run @ '' error='' @ message) []
       (snd (CompleteReleaseHookRun run deploymentID ''failed'' message later s))"

definition hook_selector :: "hook_run \<Rightarrow> push_task \<Rightarrow> create_request" where
  "hook_selector run task =
     \<lparr>rq_Version = hr_Version run, rq_ServerIDs = tk_ServerIDs task, rq_Tags = tk_Tags task,
      rq_TagMatch = tk_TagMatch task, rq_AllProjectTargets = False, rq_DryRun = False, rq_IdempotencyKey = []\<rparr>"

definition new_hook_deployment :: "(create_request \<Rightarrow> string) \<Rightarrow> hook_run \<Rightarrow> push_task \<Rightarrow> push_deployment" where
  "new_hook_deployment json run task =
     \<lparr>pd_ID = 0, pd_TenantID = rh_TenantID (hr_Hook run), pd_ProjectID = rh_ProjectID (hr_Hook run),
      pd_TaskID = tk_ID task, pd_TaskName = tk_Name task, pd_HookEventID = hr_EventID run, pd_IdempotencyKey = [],
      pd_Replayed = False, pd_Version = hr_Version run, pd_RequestedBy = hr_RequestedBy run,
      pd_Selector = json (hook_selector run task), pd_Status = [], pd_CreatedAt = None, pd_StartedAt = None,
      pd_CompletedAt = None, pd_Targets = []\<rparr>"

text \<open>The deployment of the event, created when there is none; the flag tells whether it was created.\<close>

definition hook_deployment ::
  "push_env \<Rightarrow> (create_request \<Rightarrow> string) \<Rightarrow> go_time \<Rightarrow> hook_run \<Rightarrow> push_task \<Rightarrow> string \<Rightarrow> store
     \<Rightarrow> (push_deployment \<times> bool) res \<times> store" where
  "hook_deployment env json t run task projectName s =
     (case GetPushDeploymentByHookEvent t s (hr_EventID run) of
        Inr d \<Rightarrow> (Inr (d, False), s)
      | Inl e \<Rightarrow>
          if e \<noteq> ErrNoRows then (Inl e, s)
          else
            (let tenantID = rh_TenantID (hr_Hook run);
                 targets = ListPushBindingsForSelector s tenantID projectName (tk_ServerIDs task) (tk_Tags task)
                             (tk_TagMatch task = ''all'')
             in case freezePushPlan env s tenantID (rh_ProjectID (hr_Hook run)) projectName (hr_Version run) targets of
                  Inl e \<Rightarrow> (Inl e, s)
                | Inr plan \<Rightarrow>
                    (case CreatePushDeployment t (new_hook_deployment json run task) plan s of
                       (Inl e, s1) \<Rightarrow> (Inl e, s1) | (Inr d, s1) \<Rightarrow> (Inr (d, True), s1))))"

definition hook_counts :: "hook_run \<Rightarrow> int \<Rightarrow> string" where
  "hook_counts run deploymentID =
     ''coalesced_triggers='' @ show_int (hr_EventCount run) @ '' deployment_id='' @ show_int deploymentID"

definition run_hook_deployment ::
  "push_env \<Rightarrow> deploy_fun \<Rightarrow> (nat \<Rightarrow> go_time) \<Rightarrow> go_time \<Rightarrow> go_time \<Rightarrow> hook_run \<Rightarrow> push_task \<Rightarrow> string
     \<Rightarrow> push_deployment \<Rightarrow> bool \<Rightarrow> store \<Rightarrow> push_command list \<times> store" where
  "run_hook_deployment env deploy clock later now run task projectName d created s =
     (let i = pd_ID d; hook = hr_Hook run;
          s1 = snd (CompleteReleaseHookRun run i ''running'' (hook_counts run i) now s);
          s2 = (if created
                then RecordAudit (clock 0) (hr_RequestedBy run) ''release.hook.dispatched''
                       (''project_id='' @ show_int (rh_ProjectID hook) @ '' hook_id='' @ show_int (rh_ID hook)
                         @ '' task_id='' @ show_int (tk_ID task) @ '' version='' @ hr_Version run
                         @ '' triggers='' @ show_int (hr_EventCount run) @ '' deployment_id='' @ show_int i) [] s1
                else s1);
          (cs, s3) = (if pd_Status d = ''queued'' \<or> pd_Status d = ''running''
                      then runPushDeployment env deploy clock i (rh_TenantID hook) projectName s2 else ([], s2))
      in (cs, case GetPushDeployment later s3 (rh_TenantID hook) (rh_ProjectID hook) i of
                Inl e \<Rightarrow> fail_hook_run later run i (error_text e) s3
              | Inr completed \<Rightarrow>
                  snd (CompleteReleaseHookRun run i (if pd_Status completed \<noteq> ''success'' then ''failed'' else pd_Status completed)
                         (hook_counts run i @ '' deployment_status='' @ pd_Status completed) later s3)))"

definition dispatchReleaseHook ::
  "push_env \<Rightarrow> deploy_fun \<Rightarrow> (create_request \<Rightarrow> string) \<Rightarrow> (nat \<Rightarrow> go_time) \<Rightarrow> go_time \<Rightarrow> hook_run \<Rightarrow> go_time \<Rightarrow> store
     \<Rightarrow> push_command list \<times> store" where
  "dispatchReleaseHook env deploy json clock later run now s =
     (let hook = hr_Hook run
      in case GetPushDeploymentTask s (rh_TenantID hook) (rh_ProjectID hook) (rh_TaskID hook) of
           Inl e \<Rightarrow> ([], fail_hook_run later run 0 (''release task not found: '' @ error_text e) s)
         | Inr task \<Rightarrow>
             if \<not> (case GetVersion s (rh_ProjectID hook) (hr_Version run) of
                     Inl _ \<Rightarrow> False | Inr v \<Rightarrow> v_Status v = ''published'')
             then ([], fail_hook_run later run 0 ''triggered version is not published'' s)
             else case ProjectNameInTenant s (rh_TenantID hook) (rh_ProjectID hook) of
               Inl e \<Rightarrow> ([], fail_hook_run later run 0 (error_text e) s)
             | Inr projectName \<Rightarrow>
                 (case hook_deployment env json (clock 0) run task projectName s of
                    (Inl e, s1) \<Rightarrow> ([], fail_hook_run later run 0 (error_text e) s1)
                  | (Inr (d, created), s1) \<Rightarrow>
                      run_hook_deployment env deploy clock later now run task projectName d created s1))"

text \<open>The loops of one tick: the stale runs first, then the runs claimed now.\<close>

fun dispatch_runs ::
  "push_env \<Rightarrow> deploy_fun \<Rightarrow> (create_request \<Rightarrow> string) \<Rightarrow> (nat \<Rightarrow> go_time) \<Rightarrow> go_time \<Rightarrow> hook_run list \<Rightarrow> go_time \<Rightarrow> store
     \<Rightarrow> push_command list \<times> store" where
  "dispatch_runs env deploy json clock later [] now s = ([], s)"
| "dispatch_runs env deploy json clock later (run # runs) now s =
     (let (cs, s1) = dispatchReleaseHook env deploy json clock later run now s;
          (cs', s2) = dispatch_runs env deploy json clock later runs now s1
      in (cs @ cs', s2))"

definition processDueReleaseHooks ::
  "push_env \<Rightarrow> deploy_fun \<Rightarrow> (create_request \<Rightarrow> string) \<Rightarrow> (nat \<Rightarrow> go_time) \<Rightarrow> go_time \<Rightarrow> go_time \<Rightarrow> store
     \<Rightarrow> push_command list \<times> store" where
  "processDueReleaseHooks env deploy json clock later now s =
     (let staleRuns = ListStaleReleaseHookRuns now (120 * Second) 20 s;
          (runs, s1) = ClaimDueReleaseHooks now 20 s
      in dispatch_runs env deploy json clock later (staleRuns @ runs) now s1)"

section \<open>The outcome of a dispatch\<close>

definition is_event_of :: "hook_run \<Rightarrow> hook_event \<Rightarrow> bool" where
  "is_event_of run e = (he_ID e = hr_EventID run \<and> he_HookID e = rh_ID (hr_Hook run))"

lemma complete_run_effect:
  "st_deployments (snd (CompleteReleaseHookRun run i st detail now s)) = st_deployments s"
  "st_targets (snd (CompleteReleaseHookRun run i st detail now s)) = st_targets s"
  "e \<in> set (trows (st_events (snd (CompleteReleaseHookRun run i st detail now s)))) \<Longrightarrow> is_event_of run e \<Longrightarrow>
     he_Status e = st \<and> he_DeploymentID e = i \<and> he_CompletedAt e = (if st = ''running'' then None else format_time now)"
  by (auto simp: CompleteReleaseHookRun_def Let_def is_event_of_def split: if_splits)

lemma fail_run_effect:
  "st_deployments (fail_hook_run later run i m s) = st_deployments s"
  "st_targets (fail_hook_run later run i m s) = st_targets s"
  "e \<in> set (trows (st_events (fail_hook_run later run i m s))) \<Longrightarrow> is_event_of run e \<Longrightarrow>
     he_Status e = ''failed'' \<and> he_CompletedAt e = format_time later"
  using complete_run_effect [where st = "''failed''" and run = run and i = i and detail = m and now = later and s = s]
  by (auto simp: fail_hook_run_def)

definition event_settled :: "hook_run \<Rightarrow> store \<Rightarrow> bool" where
  "event_settled run s =
     (\<forall>e\<in>set (trows (st_events s)). is_event_of run e \<longrightarrow>
        he_CompletedAt e \<noteq> None
        \<and> (he_Status e = ''failed''
           \<or> he_Status e = ''success'' \<and> (\<exists>d\<in>set (trows (st_deployments s)). pd_ID d = he_DeploymentID e \<and> pd_Status d = ''success'')))"

lemma fail_settles: "event_settled run (fail_hook_run later run i m s)"
  using fail_run_effect(3) [of _ later run i m s] by (auto simp: event_settled_def format_time_def)

lemma run_hook_settles: "event_settled run (snd (run_hook_deployment env deploy clock later now run task p d c s))"
proof -
  have "\<exists>s3. snd (run_hook_deployment env deploy clock later now run task p d c s)
      = (case GetPushDeployment later s3 (rh_TenantID (hr_Hook run)) (rh_ProjectID (hr_Hook run)) (pd_ID d) of
                Inl e \<Rightarrow> fail_hook_run later run (pd_ID d) (error_text e) s3
              | Inr completed \<Rightarrow>
                  snd (CompleteReleaseHookRun run (pd_ID d) (if pd_Status completed \<noteq> ''success'' then ''failed'' else pd_Status completed)
                         (hook_counts run (pd_ID d) @ '' deployment_status='' @ pd_Status completed) later s3))"
    unfolding run_hook_deployment_def Let_def case_prod_beta snd_conv by (rule exI, rule refl)
  then obtain s3 where eq: "snd (run_hook_deployment env deploy clock later now run task p d c s)
      = (case GetPushDeployment later s3 (rh_TenantID (hr_Hook run)) (rh_ProjectID (hr_Hook run)) (pd_ID d) of
                Inl e \<Rightarrow> fail_hook_run later run (pd_ID d) (error_text e) s3
              | Inr completed \<Rightarrow>
                  snd (CompleteReleaseHookRun run (pd_ID d) (if pd_Status completed \<noteq> ''success'' then ''failed'' else pd_Status completed)
                         (hook_counts run (pd_ID d) @ '' deployment_status='' @ pd_Status completed) later s3))" ..
  show ?thesis
  proof (cases "GetPushDeployment later s3 (rh_TenantID (hr_Hook run)) (rh_ProjectID (hr_Hook run)) (pd_ID d)")
    case (Inl e)
    with eq show ?thesis by (simp add: fail_settles)
  next
    case (Inr x)
    let ?st = "if pd_Status x \<noteq> ''success'' then ''failed'' else pd_Status x"
    have "\<exists>r\<in>set (trows (st_deployments s3)). pd_ID r = pd_ID d \<and> pd_Status r = pd_Status x"
      using Inr by (auto simp: GetPushDeployment_def is_deployment_def dest!: tbl_row_Inr split: sum.splits)
    then show ?thesis unfolding eq Inr sum.case event_settled_def
      using complete_run_effect(3) [of _ run "pd_ID d" ?st _ later s3]
      by (auto simp: format_time_def complete_run_effect(1))
  qed
qed

section \<open>What is kept\<close>

text \<open>Deployments stay, with their event, and one that is no longer queued never is again.\<close>

definition dep_kept :: "store \<Rightarrow> store \<Rightarrow> bool" where
  "dep_kept s s' =
     (dep_ok s'
      \<and> (\<forall>d\<in>set (trows (st_deployments s)). \<exists>d'\<in>set (trows (st_deployments s')).
           pd_ID d' = pd_ID d \<and> pd_HookEventID d' = pd_HookEventID d
           \<and> (pd_Status d \<noteq> ''queued'' \<longrightarrow> pd_Status d' \<noteq> ''queued'')))"

lemma dep_kept_trans: "dep_kept s s1 \<Longrightarrow> dep_kept s1 s2 \<Longrightarrow> dep_kept s s2"
  unfolding dep_kept_def by metis

lemma dep_ok_same: "same_targets s s' \<Longrightarrow> dep_ok s \<Longrightarrow> dep_ok s'"
proof -
  assume same: "same_targets s s'" and ok: "dep_ok s"
  have "pt_DeploymentID t < tnext (st_deployments s)" if "t \<in> set (trows (st_targets s'))" for t
  proof -
    have "set (map (\<lambda>t. (pt_ID t, pt_DeploymentID t)) (trows (st_targets s')))
        = set (map (\<lambda>t. (pt_ID t, pt_DeploymentID t)) (trows (st_targets s)))"
      using same by (simp only: same_targets_def)
    then have "(pt_ID t, pt_DeploymentID t) \<in> (\<lambda>t. (pt_ID t, pt_DeploymentID t)) ` set (trows (st_targets s))"
      unfolding set_map using that by blast
    with ok show ?thesis by (auto simp: dep_ok_def)
  qed
  with tbl_ok_same [OF same] ok same show ?thesis by (simp add: dep_ok_def same_targets_def)
qed

lemma dep_kept_same: "same_targets s s' \<Longrightarrow> dep_ok s \<Longrightarrow> dep_kept s s'"
  using dep_ok_same [of s s'] by (auto simp: dep_kept_def same_targets_def)

lemma dep_kept_frame:
  "st_deployments s' = st_deployments s \<Longrightarrow> st_targets s' = st_targets s \<Longrightarrow> dep_ok s \<Longrightarrow> dep_kept s s'"
  by (rule dep_kept_same) (simp_all add: same_targets_def)

lemma dep_kept_update:
  assumes "dep_ok s" "dep_ok (s\<lparr>st_deployments := snd (tbl_update P f (st_deployments s))\<rparr>)"
    "\<And>d. pd_ID (f d) = pd_ID d" "\<And>d. pd_HookEventID (f d) = pd_HookEventID d" "\<And>d. pd_Status (f d) \<noteq> ''queued''"
  shows "dep_kept s (s\<lparr>st_deployments := snd (tbl_update P f (st_deployments s))\<rparr>)"
  unfolding dep_kept_def
proof (intro conjI ballI)
  fix d assume d: "d \<in> set (trows (st_deployments s))"
  let ?d = "if P d then f d else d"
  have "?d \<in> set (trows (st_deployments (s\<lparr>st_deployments := snd (tbl_update P f (st_deployments s))\<rparr>)))"
    using rev_image_eqI [OF d refl, of "\<lambda>d. if P d then f d else d"] by (simp del: if_image_distrib)
  then show "\<exists>d'\<in>set (trows (st_deployments (s\<lparr>st_deployments := snd (tbl_update P f (st_deployments s))\<rparr>))).
      pd_ID d' = pd_ID d \<and> pd_HookEventID d' = pd_HookEventID d \<and> (pd_Status d \<noteq> ''queued'' \<longrightarrow> pd_Status d' \<noteq> ''queued'')"
    by (rule bexI [rotated]) (simp add: assms(3-5))
qed (rule assms(2))

lemma dep_kept_running: "dep_ok s \<Longrightarrow> dep_kept s (snd (MarkPushDeploymentRunning now i s))"
  unfolding dep_effects using dep_ok_running [of s now i]
  by (intro dep_kept_update) (simp_all add: dep_effects)

lemma dep_kept_complete: "dep_ok s \<Longrightarrow> dep_kept s (snd (CompletePushDeployment now i s))"
  unfolding CompletePushDeployment_def Let_def snd_conv using dep_ok_complete [of s now i]
  by (intro dep_kept_update) (simp_all add: CompletePushDeployment_def Let_def)

lemma dep_kept_mark_complete:
  assumes "dep_ok s" "same_targets s s1"
  shows "dep_kept s (snd (CompletePushDeployment now i s1))"
  by (rule dep_kept_trans [OF dep_kept_same [OF assms(2,1)] dep_kept_complete [OF dep_ok_same [OF assms(2,1)]]])

context executor
begin

lemma run_targets_same: "same_targets s (snd (run_targets deploy clock mk i ps s))"
proof (induction ps arbitrary: i s)
  case (Cons p ps)
  let ?s1 = "snd (MarkPushTarget (clock i) (pt_ID (pp_target p)) ''running'' [] s)"
  obtain outp err s2 where d: "deploy (clock i) (mk p) (pp_host p) (pp_binding p) ?s1 = ((outp, err), s2)"
    by (metis surj_pair)
  have 2: "same_targets s s2"
    using same_targets_trans [OF mark_same deploy_same [of ?s1 "clock i" "mk p" "pp_host p" "pp_binding p"]] d by simp
  show ?case
  proof (cases err)
    case None
    show ?thesis unfolding run_targets.simps Let_def d None
      by (simp add: case_prod_beta) (rule same_targets_trans [OF same_targets_trans [OF 2 mark_same] Cons])
  next
    case (Some e)
    with d show ?thesis using same_targets_trans [OF same_targets_trans [OF 2 mark_same] mark_all_same]
      by (simp add: Let_def)
  qed
qed (simp add: same_targets_refl)

lemma run_kept:
  assumes "dep_ok s" "runPushDeployment env deploy clock i tenantID projectName s = (cs, s')"
  shows "dep_kept s s'"
proof -
  let ?m = "MarkPushDeploymentRunning (clock 0) i s"
  note m = dep_kept_running [OF assms(1), of "clock 0" i]
  then have ok1: "dep_ok (snd ?m)" by (simp add: dep_kept_def)
  have all: "dep_kept s (snd (CompletePushDeployment t i (mark_all t' st msg ids (snd ?m))))" for t t' st msg ids
    by (rule dep_kept_trans [OF m dep_kept_mark_complete [OF ok1 mark_all_same]])
  have run: "dep_kept s (snd (CompletePushDeployment t i (snd (run_targets deploy c mk k ps (snd ?m)))))" for t c mk k ps
    by (rule dep_kept_trans [OF m dep_kept_mark_complete [OF ok1 run_targets_same]])
  have id: "pd_ID d = i" if "GetPushDeploymentByID t s1 i = Inr d" for t s1 d
    using that by (auto simp: GetPushDeploymentByID_def GetPushDeployment_def is_deployment_def dest!: tbl_row_Inr split: sum.splits)
  have refl: "dep_kept s s" by (rule dep_kept_same [OF same_targets_refl assms(1)])
  obtain r1 s1 where m1: "?m = (r1, s1)" by fastforce
  have s1: "snd ?m = s1" by (simp add: m1)
  show ?thesis
    using assms(2) m refl all run id unfolding runPushDeployment_def m1 s1
    by (auto simp: failPushBeforeExecution_def Let_def split: if_splits sum.splits prod.splits)
       (metis snd_conv)+
qed

end

section \<open>A dispatch runs a deployment at most once\<close>

text \<open>What \<open>hook_deployment\<close> hands on: the deployment of the event, found or just created.\<close>

definition event_row :: "int \<Rightarrow> store \<Rightarrow> push_deployment \<Rightarrow> bool" where
  "event_row ev s d = (d \<in> set (trows (st_deployments s)) \<and> pd_HookEventID d = ev)"

lemma event_row_unique:
  "dep_ok s \<Longrightarrow> 0 < ev \<Longrightarrow> event_row ev s d \<Longrightarrow> event_row ev s d' \<Longrightarrow> d' = d"
  using deployment_events.uniq_rows [of "st_deployments s" d' d ev]
  by (simp add: dep_ok_def event_row_def hook_event_key_def)

lemma created_kept:
  assumes "dep_ok s" "CreatePushDeployment t d0 plan s = (r, s1)"
  shows "dep_kept s s1"
proof -
  from CreatePushDeployment_is_tx [OF assms(2)] consider "s1 = s" | "CreatePushDeployment_tx t d0 plan s = (r, s1)" by blast
  then show ?thesis
  proof cases
    case 1
    with dep_kept_same [OF same_targets_refl assms(1)] show ?thesis by simp
  next
    case 2
    then show ?thesis
      using dep_ok_create_tx [OF assms(1) 2] dep_kept_same [OF same_targets_refl assms(1)]
      by (cases rule: CreatePushDeployment_tx_cases) (auto simp: dep_kept_def elim!: tbl_insert_cases)
  qed
qed

lemma hook_deployment_kept:
  assumes "dep_ok s" "hook_deployment env json t run task projectName s = (r, s1)"
  shows "dep_kept s s1"
  using assms dep_kept_same [OF same_targets_refl assms(1)] created_kept [OF assms(1)]
  by (auto simp: hook_deployment_def Let_def split: sum.splits if_splits prod.splits)

lemma hook_deployment_row:
  assumes "dep_ok s" "0 < hr_EventID run" "hook_deployment env json t run task projectName s = (Inr (d, created), s1)"
  shows "(\<exists>r. event_row (hr_EventID run) s1 r \<and> pd_ID r = pd_ID d)
    \<and> (\<forall>r. event_row (hr_EventID run) s r \<longrightarrow> event_row (hr_EventID run) s1 r)"
proof (cases "GetPushDeploymentByHookEvent t s (hr_EventID run)")
  case (Inr x)
  then have "s1 = s" "d = x" using assms(3) by (auto simp: hook_deployment_def)
  moreover from Inr obtain y where y: "event_row (hr_EventID run) s y" "GetPushDeployment t s (pd_TenantID y) (pd_ProjectID y) (pd_ID y) = Inr x"
    by (auto simp: GetPushDeploymentByHookEvent_def event_row_def dest!: tbl_row_Inr split: sum.splits)
  from y(2) have "pd_ID x = pd_ID y"
    by (auto simp: GetPushDeployment_def is_deployment_def dest!: tbl_row_Inr split: sum.splits)
  ultimately show ?thesis using y(1) by auto
next
  case (Inl e)
  then obtain plan where c: "CreatePushDeployment t (new_hook_deployment json run task) plan s = (Inr d, s1)"
    using assms(3) by (auto simp: hook_deployment_def Let_def split: if_splits sum.splits prod.splits)
  have "CreatePushDeployment_tx t (new_hook_deployment json run task) plan s = (Inr d, s1)"
    using c by (simp add: CreatePushDeployment_def new_hook_deployment_def split: if_splits)
  moreover have "\<not> pd_Replayed d"
    using c by (auto simp: CreatePushDeployment_def CreatePushDeployment_tx_def new_hook_deployment_def Let_def
        split: if_splits sum.splits prod.splits)
  ultimately show ?thesis
    by (cases rule: CreatePushDeployment_tx_cases)
      (auto simp: event_row_def queued_row_def new_hook_deployment_def elim!: tbl_insert_cases)
qed

lemma run_hook_deployment_frame:
  assumes "dep_ok s" "run_hook_deployment env (sshDeploy w) clock later now run task projectName d created s = (cs, s')"
  shows "\<exists>s2 s3. st_deployments s2 = st_deployments s \<and> dep_ok s2 \<and> st_deployments s' = st_deployments s3
    \<and> st_targets s' = st_targets s3
    \<and> (cs = [] \<and> s3 = s2 \<or> runPushDeployment env (sshDeploy w) clock (pd_ID d) (rh_TenantID (hr_Hook run)) projectName s2 = (cs, s3))"
proof -
  let ?s1 = "snd (CompleteReleaseHookRun run (pd_ID d) ''running'' (hook_counts run (pd_ID d)) now s)"
  obtain s2 where s2: "s2 = (if created
                then RecordAudit (clock 0) (hr_RequestedBy run) ''release.hook.dispatched''
                       (''project_id='' @ show_int (rh_ProjectID (hr_Hook run)) @ '' hook_id='' @ show_int (rh_ID (hr_Hook run))
                         @ '' task_id='' @ show_int (tk_ID task) @ '' version='' @ hr_Version run
                         @ '' triggers='' @ show_int (hr_EventCount run) @ '' deployment_id='' @ show_int (pd_ID d)) [] ?s1
                else ?s1)" by blast
  have frame: "st_deployments s2 = st_deployments s" "st_targets s2 = st_targets s"
    using complete_run_effect(1,2) [of run "pd_ID d" "''running''"] by (simp_all add: s2)
  have ok: "dep_ok s2" by (rule dep_ok_same [OF _ assms(1)]) (simp add: same_targets_def frame)
  obtain cs3 s3 where r: "(if pd_Status d = ''queued'' \<or> pd_Status d = ''running''
      then runPushDeployment env (sshDeploy w) clock (pd_ID d) (rh_TenantID (hr_Hook run)) projectName s2 else ([], s2)) = (cs3, s3)"
    by fastforce
  have "cs = cs3" "st_deployments s' = st_deployments s3" "st_targets s' = st_targets s3"
    using assms(2) complete_run_effect(1,2) fail_run_effect(1,2)
    unfolding run_hook_deployment_def Let_def s2 [symmetric] r by (auto split: sum.splits)
  with frame(1) ok r show ?thesis by (intro exI [of _ s2] exI [of _ s3]) (auto split: if_splits)
qed

lemma run_executed:
  assumes "dep_ok s" "runPushDeployment env (sshDeploy w) clock i tenantID projectName s = (cs, s')" "cs \<noteq> []"
  shows "(\<exists>d\<in>set (trows (st_deployments s)). pd_ID d = i \<and> pd_Status d = ''queued'')
    \<and> (\<forall>d\<in>set (trows (st_deployments s')). pd_ID d = i \<longrightarrow> pd_Status d \<noteq> ''queued'')"
  using assms(1,2)
proof (cases rule: ssh.run_cases)
  case (ran d ps mk sts)
  have ok: "tbl_ok pd_ID (st_deployments s')" using ssh.run_kept [OF assms(1,2)] by (simp add: dep_kept_def dep_ok_def)
  obtain d' where d': "d' \<in> set (trows (st_deployments s'))" "pd_ID d' = i" "pd_Status d' = ''success'' \<or> pd_Status d' = ''failed''"
    using ran(10) by blast
  have "pd_Status r \<noteq> ''queued''" if "r \<in> set (trows (st_deployments s'))" "pd_ID r = i" for r
  proof -
    have "r = d'" by (rule deployment_events.id_unique [OF ok that(1) d'(1)]) (simp add: that(2) d'(2))
    with d'(3) show ?thesis by auto
  qed
  with ran(1-3) show ?thesis by blast
qed (use assms(3) in simp_all)

text \<open>The two facts about one dispatch the properties rest on.\<close>

lemma dispatch_cases:
  assumes "dispatchReleaseHook env deploy json clock later run now s = (cs, s')"
  obtains (failed) msg s1 where "cs = []" "s' = fail_hook_run later run 0 msg s1" "s1 = s \<or> (\<exists>t task p e. hook_deployment env json t run task p s = (Inl e, s1))"
  | (dispatched) task p d created s1 where "hook_deployment env json (clock 0) run task p s = (Inr (d, created), s1)"
      "run_hook_deployment env deploy clock later now run task p d created s1 = (cs, s')"
  using assms unfolding dispatchReleaseHook_def Let_def
  by (auto split: sum.splits if_splits prod.splits) blast

lemma dispatch_kept:
  assumes "dep_ok s" "dispatchReleaseHook env (sshDeploy w) json clock later run now s = (cs, s')"
  shows "dep_kept s s'"
  using assms(2)
proof (cases rule: dispatch_cases)
  case (failed msg s1)
  have 1: "dep_kept s s1" using failed(3) hook_deployment_kept [OF assms(1)] dep_kept_same [OF same_targets_refl assms(1)] by blast
  then have "dep_kept s1 s'" using failed(2) fail_run_effect(1,2) by (intro dep_kept_frame) (simp_all add: dep_kept_def)
  with 1 show ?thesis by (rule dep_kept_trans)
next
  case (dispatched task p d created s1)
  have 1: "dep_kept s s1" by (rule hook_deployment_kept [OF assms(1) dispatched(1)])
  then have ok1: "dep_ok s1" by (simp add: dep_kept_def)
  from run_hook_deployment_frame [OF ok1 dispatched(2)] obtain s2 s3 where
    f: "st_deployments s2 = st_deployments s1" "dep_ok s2" "st_deployments s' = st_deployments s3" "st_targets s' = st_targets s3"
    and r: "cs = [] \<and> s3 = s2 \<or> runPushDeployment env (sshDeploy w) clock (pd_ID d) (rh_TenantID (hr_Hook run)) p s2 = (cs, s3)" by blast
  from r have 3: "dep_kept s2 s3" using ssh.run_kept [OF f(2)] dep_kept_same [OF same_targets_refl f(2)] by blast
  then have "dep_kept s3 s'" using f(3,4) by (intro dep_kept_frame) (simp_all add: dep_kept_def)
  with 3 have "dep_kept s2 s'" by (rule dep_kept_trans)
  then have "dep_kept s1 s'" using f(1) by (simp add: dep_kept_def)
  with 1 show ?thesis by (rule dep_kept_trans)
qed

definition event_open :: "int \<Rightarrow> store \<Rightarrow> bool" where
  "event_open ev s = (\<forall>d. event_row ev s d \<longrightarrow> pd_Status d = ''queued'')"

lemma dispatch_executes:
  assumes "dep_ok s" "0 < hr_EventID run" "dispatchReleaseHook env (sshDeploy w) json clock later run now s = (cs, s')" "cs \<noteq> []"
  shows "event_open (hr_EventID run) s \<and> (\<exists>d. event_row (hr_EventID run) s' d \<and> pd_Status d \<noteq> ''queued'')"
  using assms(3)
proof (cases rule: dispatch_cases)
  case (dispatched task p d created s1)
  let ?ev = "hr_EventID run"
  have ok1: "dep_ok s1" using hook_deployment_kept [OF assms(1) dispatched(1)] by (simp add: dep_kept_def)
  from hook_deployment_row [OF assms(1,2) dispatched(1)] obtain r where
    r: "event_row ?ev s1 r" "pd_ID r = pd_ID d" and old: "\<And>x. event_row ?ev s x \<Longrightarrow> event_row ?ev s1 x" by blast
  from run_hook_deployment_frame [OF ok1 dispatched(2)] assms(4) obtain s2 s3 where
    f: "st_deployments s2 = st_deployments s1" "dep_ok s2" "st_deployments s' = st_deployments s3"
    and run: "runPushDeployment env (sshDeploy w) clock (pd_ID d) (rh_TenantID (hr_Hook run)) p s2 = (cs, s3)" by blast
  note ex = run_executed [OF f(2) run assms(4)]
  from ex obtain q where q: "q \<in> set (trows (st_deployments s2))" "pd_ID q = pd_ID d" "pd_Status q = ''queued''" by blast
  have tbl: "tbl_ok pd_ID (st_deployments s1)" using ok1 by (simp add: dep_ok_def)
  have "q = r" by (rule deployment_events.id_unique [OF tbl]) (use q r f(1) in \<open>auto simp: event_row_def\<close>)
  with q(3) old event_row_unique [OF ok1 assms(2) r(1)] have "event_open ?ev s" by (auto simp: event_open_def)
  moreover have "dep_kept s2 s3" by (rule ssh.run_kept [OF f(2) run])
  then have "\<exists>x\<in>set (trows (st_deployments s3)). pd_ID x = pd_ID r \<and> pd_HookEventID x = pd_HookEventID r"
    using r(1) unfolding dep_kept_def event_row_def f(1) by blast
  then have "\<exists>x. event_row ?ev s' x \<and> pd_Status x \<noteq> ''queued''" using ex r f(3) by (auto simp: event_row_def)
  ultimately show ?thesis ..
qed (use assms(4) in simp)

section \<open>Histories of the worker\<close>

text \<open>
  Dispatches with any environment, SSH world and times, interleaved with any step of the deployment
  tables that does not delete the deployment of an event.
\<close>

datatype worker_label = Dispatched int "push_command list" | Other

inductive worker_step :: "store \<Rightarrow> worker_label \<Rightarrow> store \<Rightarrow> bool" where
  dispatch_step: "dispatchReleaseHook env (sshDeploy w) json clock later run now s = (cs, s') \<Longrightarrow>
     worker_step s (Dispatched (hr_EventID run) cs) s'"
| other_step: "dep_step s e s' \<Longrightarrow>
     \<forall>d\<in>set (trows (st_deployments s)). \<exists>d'\<in>set (trows (st_deployments s')). pd_ID d' = pd_ID d \<and> pd_HookEventID d' = pd_HookEventID d \<Longrightarrow>
     worker_step s Other s'"

inductive worker_trace :: "store \<Rightarrow> worker_label list \<Rightarrow> store \<Rightarrow> bool" where
  trace_nil: "worker_trace s [] s"
| trace_cons: "worker_step s l s1 \<Longrightarrow> worker_trace s1 ls s' \<Longrightarrow> worker_trace s (l # ls) s'"

inductive_cases worker_stepE: "worker_step s l s'"

lemma worker_kept: "worker_step s l s' \<Longrightarrow> dep_ok s \<Longrightarrow> dep_kept s s'"
proof (erule worker_stepE)
  fix e assume ok: "dep_ok s" and e: "dep_step s e s'"
    and keep: "\<forall>d\<in>set (trows (st_deployments s)). \<exists>d'\<in>set (trows (st_deployments s')). pd_ID d' = pd_ID d \<and> pd_HookEventID d' = pd_HookEventID d"
  have "pd_Status d' \<noteq> ''queued''" if d: "d \<in> set (trows (st_deployments s))" "pd_Status d \<noteq> ''queued''"
    "d' \<in> set (trows (st_deployments s'))" "pd_ID d' = pd_ID d" for d d'
  proof -
    have tbl: "tbl_ok pd_ID (st_deployments s)" using ok by (simp add: dep_ok_def)
    have "settled (pd_ID d) s"
      using deployment_events.id_unique [OF tbl _ d(1)] d(1,2) tbl by (auto simp: settled_def tbl_ok_def)
    from settled_step [OF e this] d show ?thesis by (auto simp: settled_def)
  qed
  with keep dep_ok_step [OF e ok] show "dep_kept s s'" unfolding dep_kept_def by metis
qed (auto dest: dispatch_kept)

fun executes :: "int \<Rightarrow> worker_label \<Rightarrow> bool" where
  "executes ev (Dispatched i cs) = (i = ev \<and> cs \<noteq> [])"
| "executes ev Other = False"

lemma worker_executes:
  assumes "worker_step s l s'" "dep_ok s" "0 < ev" "executes ev l"
  shows "event_open ev s \<and> \<not> event_open ev s'"
  using assms dispatch_executes [OF assms(2)] by (elim worker_stepE) (auto simp: event_open_def)

lemma kept_closed: "dep_kept s s' \<Longrightarrow> \<not> event_open ev s \<Longrightarrow> \<not> event_open ev s'"
  by (fastforce simp: event_open_def dep_kept_def event_row_def)

lemma closed_trace:
  "worker_trace s ls s' \<Longrightarrow> dep_ok s \<Longrightarrow> 0 < ev \<Longrightarrow> \<not> event_open ev s \<Longrightarrow> filter (executes ev) ls = []"
proof (induction rule: worker_trace.induct)
  case (trace_cons s l s1 ls s')
  have k: "dep_kept s s1" by (rule worker_kept [OF trace_cons(1,4)])
  have "\<not> executes ev l" using worker_executes [OF trace_cons(1,4,5)] trace_cons(6) by blast
  with trace_cons.IH trace_cons(5) kept_closed [OF k trace_cons(6)] k show ?case by (simp add: dep_kept_def)
qed simp


text \<open>
  A dispatch always settles the event of its run: whatever fails, the event ends as successful or
  failed with a completion time, successful only when the deployment it names is, so a dispatched run
  is never found as stale again.
\<close>

theorem dispatch_settles_event:
  assumes "dispatchReleaseHook env deploy json clock later run now s = (cs, s')"
  shows "(\<forall>e\<in>set (trows (st_events s')). he_ID e = hr_EventID run \<and> he_HookID e = rh_ID (hr_Hook run) \<longrightarrow>
      he_CompletedAt e \<noteq> None
      \<and> (he_Status e = ''failed''
         \<or> he_Status e = ''success'' \<and> (\<exists>d\<in>set (trows (st_deployments s')). pd_ID d = he_DeploymentID e \<and> pd_Status d = ''success'')))
    \<and> (\<forall>r\<in>set (ListStaleReleaseHookRuns now' stale limit s'). (hr_EventID r, rh_ID (hr_Hook r)) \<noteq> (hr_EventID run, rh_ID (hr_Hook run)))"
proof -
  have settled: "event_settled run s'"
    using assms
  proof (cases rule: dispatch_cases)
    case (failed msg s1)
    then show ?thesis by (simp add: fail_settles)
  next
    case (dispatched task p d created s1)
    with run_hook_settles [of run env deploy clock later now task p d created s1] show ?thesis by simp
  qed
  moreover have "False" if "r \<in> set (ListStaleReleaseHookRuns now' stale limit s')"
    "hr_EventID r = hr_EventID run" "rh_ID (hr_Hook r) = rh_ID (hr_Hook run)" for r
  proof -
    from that(1) obtain e where "e \<in> set (trows (st_events s'))" "he_CompletedAt e = None" "hr_EventID r = he_ID e" "rh_ID (hr_Hook r) = he_HookID e"
      by (auto simp: ListStaleReleaseHookRuns_def run_hook_of_def dest!: in_set_takeD split: sum.splits)
    with that(2,3) settled show False by (auto simp: event_settled_def is_event_of_def)
  qed
  ultimately show ?thesis by (auto simp: event_settled_def is_event_of_def)
qed

section \<open>Witnesses\<close>

definition worker_task :: push_task where
  "worker_task =
     \<lparr>tk_ID = 1, tk_TenantID = 1, tk_ProjectID = 1, tk_Name = ''nightly'', tk_Version = [], tk_ServerIDs = [],
      tk_Tags = [''test''], tk_TagMatch = ''all'', tk_CreatedBy = ''ci'', tk_RunCount = 0, tk_LastRunAt = None,
      tk_CreatedAt = None, tk_UpdatedAt = None\<rparr>"

definition worker_hook :: release_hook where
  "worker_hook = (run_hook_of 1 1 1 1 ''h'')\<lparr>rh_Enabled := True, rh_PendingVersion := ''1.0.0'',
     rh_PendingRequestedBy := ''ci'', rh_PendingSource := ''manual'', rh_DueAt := Some 0, rh_PendingEvents := 1\<rparr>"

definition worker_store :: store where
  "worker_store = run_base\<lparr>
     st_projects := \<lparr>trows = [\<lparr>p_ID = 1, p_TenantID = 1, p_Name = ''game'', p_MaxPublishedVersions = 0, p_CreatedAt = None\<rparr>], tnext = 2\<rparr>,
     st_tasks := \<lparr>trows = [worker_task], tnext = 2\<rparr>, st_hooks := \<lparr>trows = [worker_hook], tnext = 2\<rparr>\<rparr>"

definition worker_run :: hook_run where
  "worker_run = run_of worker_hook 1"

definition worker_first :: "push_command list \<times> store" where
  "worker_first = dispatchReleaseHook run_env (sshDeploy run_world) rq_Version (\<lambda>_. 0) 0 worker_run 0
     (snd (ClaimDueReleaseHooks 0 20 worker_store))"

lemma worker_first_runs: "fst worker_first \<noteq> []"
  by code_simp


lemma dispatch_settles_event_witness:
  "map hr_EventID (ListStaleReleaseHookRuns 0 0 20 (snd (ClaimDueReleaseHooks 0 20 worker_store))) = [1]
   \<and> list_all (\<lambda>r. (hr_EventID r, rh_ID (hr_Hook r)) \<noteq> (1, 1)) (ListStaleReleaseHookRuns 0 0 20 (snd worker_first))"
proof -
  have "dispatchReleaseHook run_env (sshDeploy run_world) rq_Version (\<lambda>_. 0) 0 worker_run 0
     (snd (ClaimDueReleaseHooks 0 20 worker_store)) = (fst worker_first, snd worker_first)" by (simp add: worker_first_def)
  from dispatch_settles_event [OF this, of 0 0 20]
  have "list_all (\<lambda>r. (hr_EventID r, rh_ID (hr_Hook r)) \<noteq> (1, 1)) (ListStaleReleaseHookRuns 0 0 20 (snd worker_first))"
    by (simp add: worker_run_def run_of_def run_hook_of_def worker_hook_def list_all_iff)
  moreover have "map hr_EventID (ListStaleReleaseHookRuns 0 0 20 (snd (ClaimDueReleaseHooks 0 20 worker_store))) = [1]" by code_simp
  ultimately show ?thesis by blast
qed

end
