(* ===== verification/LoginGuard.thy ===== *)
theory LoginGuard
  imports AuditLog
begin

text \<open>
  Protection of the login and of the agent credentials against guessing (\<open>internal/store/login_protection.go\<close>
  and \<open>internal/api/login_protection.go\<close>): a row per source address counts failures in a window and carries
  the ban, whose length doubles with every ban up to a maximum.  The table keeps its times as RFC 3339
  text with nanoseconds, parsed back when they are compared in Go; two statements compare the texts
  themselves, which \<open>rfc_less\<close> orders as SQLite does.  The environment variables enter as the values
  \<open>Atoi\<close> and \<open>ParseDuration\<close> return; \<open>net.ParseIP\<close> and \<open>Duration.String\<close> are parameters, and the clock
  readings of one request are one reading.
\<close>

section \<open>RFC 3339 texts\<close>

definition drop_zeros :: "string \<Rightarrow> string" where
  "drop_zeros ds = rev (dropWhile (\<lambda>c. c = CHR ''0'') (rev ds))"

definition rfc_suffix :: "go_time \<Rightarrow> string" where
  "rfc_suffix t =
     (let f = show_nat (nat (t mod 1000000000))
      in if t mod 1000000000 = 0 then ''Z''
         else ''.'' @ drop_zeros (replicate (9 - length f) (CHR ''0'') @ f) @ ''Z'')"

definition rfc_less :: "go_time \<Rightarrow> go_time \<Rightarrow> bool" where
  "rfc_less t u =
     (t div 1000000000 < u div 1000000000 \<or> t div 1000000000 = u div 1000000000 \<and> rfc_suffix t < rfc_suffix u)"

text \<open>The comparison of columns that may hold the empty text, which precedes every time.\<close>

fun text_less :: "go_time option \<Rightarrow> go_time option \<Rightarrow> bool" where
  "text_less None (Some _) = True"
| "text_less (Some t) (Some u) = rfc_less t u"
| "text_less _ None = False"

lemma rfc_less_seconds: "rfc_less t u \<Longrightarrow> t div 1000000000 \<le> u div 1000000000"
  by (auto simp: rfc_less_def)

lemma rfc_less_later: "t div 1000000000 < u div 1000000000 \<Longrightarrow> rfc_less t u \<and> \<not> rfc_less u t"
  by (auto simp: rfc_less_def)

section \<open>Store\<close>

record login_policy =
  lp_FailureLimit :: int
  lp_Window :: duration
  lp_BaseBan :: duration
  lp_MaxBan :: duration

definition LoginProtectionEnabled :: "store \<Rightarrow> bool" where
  "LoginProtectionEnabled s = st_loginProtection s"

definition SetLoginProtectionEnabled :: "bool \<Rightarrow> store \<Rightarrow> unit res \<times> store" where
  "SetLoginProtectionEnabled enabled s = (Inr (), s\<lparr>st_loginProtection := enabled\<rparr>)"

definition ban_row :: "store \<Rightarrow> string \<Rightarrow> login_ban option" where
  "ban_row s ip = find (\<lambda>b. lb_IP b = ip) (st_bans s)"

text \<open>\<open>Duration.Round(time.Second)\<close>: to the nearest second, halves away from zero.\<close>

definition round_second :: "duration \<Rightarrow> duration" where
  "round_second d =
     (if 0 \<le> d then (d + 500000000) div 1000000000 * 1000000000
      else - ((- d + 500000000) div 1000000000 * 1000000000))"

text \<open>\<open>at\<close> is the clock reading of \<open>time.Until\<close>, taken after the one of the caller.\<close>

definition LoginIPBlocked :: "string \<Rightarrow> go_time \<Rightarrow> go_time \<Rightarrow> store \<Rightarrow> duration \<times> bool" where
  "LoginIPBlocked ip now at s =
     (case ban_row s ip of
        None \<Rightarrow> (0, False)
      | Some b \<Rightarrow>
          (case lb_BannedUntil b of
             None \<Rightarrow> (0, False)
           | Some t \<Rightarrow> if \<not> t > now then (0, False) else (round_second (t - at), True)))"

text \<open>The doubling loop, with \<open>int64\<close> arithmetic: \<open>k\<close> rounds at most, while below the maximum.\<close>

fun ban_loop :: "nat \<Rightarrow> duration \<Rightarrow> duration \<Rightarrow> duration" where
  "ban_loop 0 ban limit = ban"
| "ban_loop (Suc k) ban limit = (if ban < limit then ban_loop k (wrap64 (ban * 2)) limit else ban)"

definition ban_duration :: "int \<Rightarrow> login_policy \<Rightarrow> duration" where
  "ban_duration banCount policy =
     (let ban = ban_loop (nat (banCount - 1)) (lp_BaseBan policy) (lp_MaxBan policy)
      in if ban > lp_MaxBan policy then lp_MaxBan policy else ban)"

definition counted_failure :: "string \<Rightarrow> go_time \<Rightarrow> login_policy \<Rightarrow> login_ban \<Rightarrow> login_ban" where
  "counted_failure username now policy b =
     (let reset = (case lb_WindowStarted b of None \<Rightarrow> True | Some started \<Rightarrow> now - started \<ge> lp_Window policy);
          attempts = lb_LastAttemptTimes b @ [now]
      in b\<lparr>lb_Username := username, lb_Failures := (if reset then 0 else lb_Failures b) + 1,
           lb_AttemptCount := lb_AttemptCount b + 1,
           lb_WindowStarted := (if reset then Some now else lb_WindowStarted b), lb_LastFailure := Some now,
           lb_LastAttemptTimes := drop (length attempts - 3) attempts\<rparr>)"

definition applied_ban :: "go_time \<Rightarrow> login_policy \<Rightarrow> login_ban \<Rightarrow> login_ban" where
  "applied_ban now policy b =
     (if lp_FailureLimit policy > 0 \<and> lb_Failures b \<ge> lp_FailureLimit policy
      then b\<lparr>lb_BanCount := lb_BanCount b + 1, lb_BannedUntil := Some (now + ban_duration (lb_BanCount b + 1) policy),
             lb_Failures := 0, lb_WindowStarted := Some now\<rparr>
      else b)"

definition new_ban_row :: "string \<Rightarrow> string \<Rightarrow> go_time \<Rightarrow> login_ban" where
  "new_ban_row ip username now =
     \<lparr>lb_IP = ip, lb_Username = username, lb_Failures = 0, lb_AttemptCount = 0, lb_BanCount = 0,
      lb_WindowStarted = Some now, lb_BannedUntil = None, lb_LastFailure = None, lb_LastAttemptTimes = []\<rparr>"

definition RecordLoginIPFailure :: "string \<Rightarrow> string \<Rightarrow> go_time \<Rightarrow> login_policy \<Rightarrow> store \<Rightarrow> login_ban \<times> store" where
  "RecordLoginIPFailure ip username now policy s =
     (let old = (case ban_row s ip of None \<Rightarrow> new_ban_row ip username now | Some b \<Rightarrow> b);
          out = applied_ban now policy (counted_failure username now policy old)
      in (out, s\<lparr>st_bans := (if ban_row s ip = None then st_bans s @ [out]
                             else map (\<lambda>b. if lb_IP b = ip then out else b) (st_bans s))\<rparr>))"

definition ClearLoginIPFailures :: "string \<Rightarrow> store \<Rightarrow> unit res \<times> store" where
  "ClearLoginIPFailures ip s =
     (Inr (), s\<lparr>st_bans := map (\<lambda>b. if lb_IP b = ip then b\<lparr>lb_Failures := 0, lb_BannedUntil := None\<rparr> else b) (st_bans s)\<rparr>)"

definition DeleteLoginIPHistory :: "string \<Rightarrow> store \<Rightarrow> unit res \<times> store" where
  "DeleteLoginIPHistory ip s = (Inr (), s\<lparr>st_bans := filter (\<lambda>b. lb_IP b \<noteq> ip) (st_bans s)\<rparr>)"

text \<open>\<open>ORDER BY last_failure DESC\<close> on the texts: an insertion sort with the textual order.\<close>

fun insert_ban :: "login_ban \<Rightarrow> login_ban list \<Rightarrow> login_ban list" where
  "insert_ban b [] = [b]"
| "insert_ban b (c # cs) =
     (if text_less (lb_LastFailure b) (lb_LastFailure c) then c # insert_ban b cs else b # c # cs)"

definition ListLoginIPBans :: "go_time \<Rightarrow> int \<Rightarrow> store \<Rightarrow> login_ban list" where
  "ListLoginIPBans now limit s =
     take (clamp_limit 100 500 limit)
       (foldr insert_ban (filter (\<lambda>b. \<not> text_less (lb_LastFailure b) (Some (now - LogRetention))) (st_bans s)) [])"

section \<open>API\<close>

definition envPositiveInt :: "int option \<Rightarrow> int \<Rightarrow> int" where
  "envPositiveInt v fallback = (case v of Some n \<Rightarrow> if n > 0 then n else fallback | None \<Rightarrow> fallback)"

definition envPositiveDuration :: "duration option \<Rightarrow> duration \<Rightarrow> duration" where
  "envPositiveDuration v fallback = (case v of Some d \<Rightarrow> if d > 0 then d else fallback | None \<Rightarrow> fallback)"

record login_env =
  le_FailureLimit :: "int option"
  le_FailureWindow :: "duration option"
  le_BanBase :: "duration option"
  le_BanMax :: "duration option"
  le_TrustProxy :: bool
  le_ParseIP :: "string \<Rightarrow> string option"
  le_IsLoopback :: "string \<Rightarrow> bool"
  le_DurationText :: "duration \<Rightarrow> string"

definition loginIPPolicy :: "login_env \<Rightarrow> login_policy" where
  "loginIPPolicy env =
     \<lparr>lp_FailureLimit = envPositiveInt (le_FailureLimit env) 5,
      lp_Window = envPositiveDuration (le_FailureWindow env) (60 * Second),
      lp_BaseBan = envPositiveDuration (le_BanBase env) (10 * Second),
      lp_MaxBan = envPositiveDuration (le_BanMax env) (10 * Second)\<rparr>"

text \<open>The parts of a request the protection reads: the peer address (without its port) and two headers.\<close>

record peer_request =
  pr_Host :: string
  pr_RealIP :: string
  pr_ForwardedFor :: string

fun last_address :: "(string \<Rightarrow> string option) \<Rightarrow> string list \<Rightarrow> string option" where
  "last_address parse [] = None"
| "last_address parse (p # ps) =
     (case last_address parse ps of Some ip \<Rightarrow> Some ip | None \<Rightarrow> parse (trim_space p))"

definition loginProtectionIP :: "login_env \<Rightarrow> peer_request \<Rightarrow> string \<times> bool" where
  "loginProtectionIP env r =
     (let peer = le_ParseIP env (pr_Host r)
      in if \<not> le_TrustProxy env \<or> peer = None \<or> \<not> le_IsLoopback env (pr_Host r) then (pr_Host r, peer \<noteq> None)
         else case le_ParseIP env (trim_space (pr_RealIP r)) of
                Some ip \<Rightarrow> (ip, True)
              | None \<Rightarrow>
                  (case last_address (le_ParseIP env) (split_on (CHR '','') (pr_ForwardedFor r)) of
                     Some ip \<Rightarrow> (ip, True)
                   | None \<Rightarrow> ([], False)))"

definition clientIP :: "login_env \<Rightarrow> peer_request \<Rightarrow> string" where
  "clientIP env r = (case loginProtectionIP env r of (ip, reliable) \<Rightarrow> if reliable then ip else pr_Host r)"

text \<open>\<open>Some n\<close>: the request is rejected with status 429 and \<open>Retry-After: n\<close>.\<close>

definition rejectBlockedLogin :: "login_env \<Rightarrow> peer_request \<Rightarrow> go_time \<Rightarrow> store \<Rightarrow> int option" where
  "rejectBlockedLogin env r now s =
     (if \<not> LoginProtectionEnabled s then None
      else case loginProtectionIP env r of (ip, reliable) \<Rightarrow>
        if \<not> reliable then None
        else case LoginIPBlocked ip now now s of (retry, blocked) \<Rightarrow>
          if \<not> blocked then None
          else Some ((if retry < Second then Second else retry) div Second))"

definition recordLoginFailure ::
  "login_env \<Rightarrow> peer_request \<Rightarrow> string \<Rightarrow> go_time \<Rightarrow> store \<Rightarrow> (bool \<times> duration \<times> int) \<times> store" where
  "recordLoginFailure env r username now s =
     (case loginProtectionIP env r of (ip, reliable) \<Rightarrow>
        if \<not> reliable then ((False, 0, 0), s)
        else
          (let enabled = LoginProtectionEnabled s;
               policy0 = loginIPPolicy env;
               policy = (if enabled then policy0 else policy0\<lparr>lp_FailureLimit := 0\<rparr>);
               (ban, s') = RecordLoginIPFailure ip username now policy s
           in if \<not> enabled then ((False, 0, 0), s')
              else
                (let remaining = max 0 (lp_FailureLimit policy - lb_Failures ban)
                 in case lb_BannedUntil ban of
                      Some t \<Rightarrow>
                        if t > now
                        then ((True, round_second (t - now), remaining),
                              RecordAudit now username ''login.ban''
                                (''ip='' @ ip @ '' duration='' @ le_DurationText env (round_second (t - now))) (clientIP env r) s')
                        else ((False, 0, remaining), s')
                    | None \<Rightarrow> ((False, 0, remaining), s'))))"

definition recordAgentTokenFailure ::
  "login_env \<Rightarrow> peer_request \<Rightarrow> go_time \<Rightarrow> store \<Rightarrow> (bool \<times> duration \<times> int) \<times> store" where
  "recordAgentTokenFailure env r now s =
     (case loginProtectionIP env r of (ip, reliable) \<Rightarrow>
        if \<not> reliable then ((False, 0, 0), s)
        else
          (let policy = loginIPPolicy env;
               (ban, s') = RecordLoginIPFailure ip ''agent-token'' now policy s;
               remaining = max 0 (lp_FailureLimit policy - lb_Failures ban)
           in case lb_BannedUntil ban of
                Some t \<Rightarrow> if t > now then ((True, round_second (t - now), remaining), s') else ((False, 0, remaining), s')
              | None \<Rightarrow> ((False, 0, remaining), s')))"

definition clearLoginFailures :: "login_env \<Rightarrow> peer_request \<Rightarrow> store \<Rightarrow> store" where
  "clearLoginFailures env r s =
     (case loginProtectionIP env r of (ip, reliable) \<Rightarrow> if reliable then snd (ClearLoginIPFailures ip s) else s)"

section \<open>Lock-out\<close>

lemma ban_loop_double:
  assumes "0 < b" "m \<le> 4611686018427387904"
  shows "min m (ban_loop k b m) = min m (b * 2 ^ k)"
  using assms
proof (induction k arbitrary: b)
  case (Suc k)
  show ?case
  proof (cases "b < m")
    case True
    then have "wrap64 (b * 2) = b * 2" using Suc.prems by (intro wrap64_id) (auto simp: max_int64_def)
    with True Suc show ?thesis by (simp add: mult.assoc)
  next
    case False
    have "(1::int) \<le> 2 ^ Suc k" by (rule one_le_power) simp
    then have "b * 1 \<le> b * 2 ^ Suc k" using Suc.prems(1) by (intro mult_left_mono) simp_all
    with False show ?thesis by simp
  qed
qed simp

lemma ban_duration_eq:
  assumes "0 < lp_BaseBan policy" "lp_MaxBan policy \<le> 4611686018427387904"
  shows "ban_duration n policy = min (lp_MaxBan policy) (lp_BaseBan policy * 2 ^ nat (n - 1))"
  using ban_loop_double [OF assms, of "nat (n - 1)"] by (auto simp: ban_duration_def Let_def min_def split: if_splits)

lemma record_row:
  assumes "ban_row s ip = Some b"
  shows "ban_row (snd (RecordLoginIPFailure ip u now policy s)) ip = Some (applied_ban now policy (counted_failure u now policy b))"
proof -
  let ?out = "applied_ban now policy (counted_failure u now policy b)"
  have "lb_IP ?out = lb_IP b" by (simp add: applied_ban_def counted_failure_def Let_def)
  moreover have "lb_IP b = ip" using assms find_Some_iff2 [of "\<lambda>b. lb_IP b = ip" "st_bans s" b] by (simp add: ban_row_def)
  ultimately have ip: "lb_IP ?out = ip" by simp
  then have "find (\<lambda>b. lb_IP b = ip) (map (\<lambda>x. if lb_IP x = ip then ?out else x) xs)
      = (if find (\<lambda>b. lb_IP b = ip) xs = None then None else Some ?out)" for xs
    by (induction xs) auto
  with assms show ?thesis by (simp add: RecordLoginIPFailure_def Let_def ban_row_def)
qed

fun fail_all :: "string \<Rightarrow> string \<Rightarrow> login_policy \<Rightarrow> go_time list \<Rightarrow> store \<Rightarrow> store" where
  "fail_all ip u policy [] s = s"
| "fail_all ip u policy (t # ts) s = fail_all ip u policy ts (snd (RecordLoginIPFailure ip u t policy s))"

lemma fail_all_append: "fail_all ip u policy (ts @ ts') s = fail_all ip u policy ts' (fail_all ip u policy ts s)"
  by (induction ts arbitrary: s) auto

text \<open>Failures below the limit, all in the window of the row, are only counted.\<close>

lemma fail_all_counts:
  assumes "ban_row s ip = Some b" "lb_WindowStarted b = Some w" "\<forall>t\<in>set ts. t - w < lp_Window policy"
    and "lb_Failures b + int (length ts) < lp_FailureLimit policy"
  shows "\<exists>b'. ban_row (fail_all ip u policy ts s) ip = Some b' \<and> lb_WindowStarted b' = Some w
    \<and> lb_Failures b' = lb_Failures b + int (length ts) \<and> lb_BanCount b' = lb_BanCount b \<and> lb_BannedUntil b' = lb_BannedUntil b"
  using assms
proof (induction ts arbitrary: s b)
  case (Cons t ts)
  let ?b = "applied_ban t policy (counted_failure u t policy b)"
  have row: "lb_WindowStarted ?b = Some w" "lb_Failures ?b = lb_Failures b + 1" "lb_BanCount ?b = lb_BanCount b"
    "lb_BannedUntil ?b = lb_BannedUntil b"
    using Cons.prems by (auto simp: applied_ban_def counted_failure_def Let_def)
  from Cons.IH [OF record_row [OF Cons.prems(1)] row(1)] Cons.prems(3,4) row show ?case by (simp add: add.assoc)
qed auto

text \<open>
  C35: failed logins lock an address out when they reach the limit and not before: with failures that all
  fall in the window of the address, every shorter run leaves its ban as it was, and the one that
  reaches the limit blocks the address for the base time doubled with every earlier ban, up to the
  maximum, and for no longer, as long as the maximum is below half the range of \<open>int64\<close>.
\<close>

theorem login_lockout:
  assumes "ban_row s ip = Some b" "lb_WindowStarted b = Some w" "0 \<le> lb_BanCount b"
    and "ts \<noteq> []" "\<forall>t\<in>set ts. t - w < lp_Window policy" "lb_Failures b + int (length ts) = lp_FailureLimit policy"
    and "0 < lp_FailureLimit policy" "0 < lp_BaseBan policy" "lp_MaxBan policy \<le> 4611686018427387904"
  shows "(\<forall>k<length ts. map_option lb_BannedUntil (ban_row (fail_all ip u policy (take k ts) s) ip) = Some (lb_BannedUntil b))
    \<and> (\<forall>now at. snd (LoginIPBlocked ip now at (fail_all ip u policy ts s))
         \<longleftrightarrow> now < last ts + min (lp_MaxBan policy) (lp_BaseBan policy * 2 ^ nat (lb_BanCount b)))"
proof -
  have early: "map_option lb_BannedUntil (ban_row (fail_all ip u policy (take k ts) s) ip) = Some (lb_BannedUntil b)"
    if "k < length ts" for k
  proof -
    have "\<forall>t\<in>set (take k ts). t - w < lp_Window policy" using assms(5) by (auto dest: in_set_takeD)
    moreover have "lb_Failures b + int (length (take k ts)) < lp_FailureLimit policy" using assms(6) that by simp
    ultimately show ?thesis using fail_all_counts [OF assms(1,2)] by fastforce
  qed
  have split: "ts = butlast ts @ [last ts]" using assms(4) by simp
  have "\<forall>t\<in>set (butlast ts). t - w < lp_Window policy" using assms(5) by (auto dest: in_set_butlastD)
  moreover have len: "lb_Failures b + int (length (butlast ts)) = lp_FailureLimit policy - 1"
    using assms(4,6) by (simp add: of_nat_diff Suc_le_eq)
  ultimately have "\<exists>b'. ban_row (fail_all ip u policy (butlast ts) s) ip = Some b' \<and> lb_WindowStarted b' = Some w
    \<and> lb_Failures b' = lp_FailureLimit policy - 1 \<and> lb_BanCount b' = lb_BanCount b"
    using fail_all_counts [OF assms(1,2), of "butlast ts" policy u] by force
  then obtain b' where b': "ban_row (fail_all ip u policy (butlast ts) s) ip = Some b'" "lb_WindowStarted b' = Some w"
    "lb_Failures b' = lp_FailureLimit policy - 1" "lb_BanCount b' = lb_BanCount b" by blast
  have "last ts - w < lp_Window policy" using assms(4,5) by simp
  then have "lb_BannedUntil (applied_ban (last ts) policy (counted_failure u (last ts) policy b'))
      = Some (last ts + ban_duration (lb_BanCount b + 1) policy)"
    using b' assms(7) by (simp add: applied_ban_def counted_failure_def Let_def)
  moreover have "ban_row (fail_all ip u policy ts s) ip = Some (applied_ban (last ts) policy (counted_failure u (last ts) policy b'))"
    using record_row [OF b'(1)] by (subst split) (simp add: fail_all_append)
  ultimately show ?thesis using early ban_duration_eq [OF assms(8,9), of "lb_BanCount b + 1"]
    by (auto simp: LoginIPBlocked_def)
qed

definition sample_policy :: login_policy where
  "sample_policy = loginIPPolicy \<lparr>le_FailureLimit = Some 3, le_FailureWindow = None, le_BanBase = None,
     le_BanMax = Some (25 * Second), le_TrustProxy = False, le_ParseIP = Some, le_IsLoopback = (\<lambda>_. False),
     le_DurationText = (\<lambda>_. [])\<rparr>"

definition sample_bans :: store where
  "sample_bans = (empty_store ''/d'')\<lparr>st_bans := [(new_ban_row ''10.0.0.9'' ''root'' 0)\<lparr>lb_Failures := 1, lb_BanCount := 2\<rparr>]\<rparr>"

lemma login_lockout_witness:
  "snd (LoginIPBlocked ''10.0.0.9'' (26 * Second) 0 (fail_all ''10.0.0.9'' ''root'' sample_policy [Second, 2 * Second] sample_bans))
   \<and> \<not> snd (LoginIPBlocked ''10.0.0.9'' (27 * Second) 0 (fail_all ''10.0.0.9'' ''root'' sample_policy [Second, 2 * Second] sample_bans))"
proof -
  have row: "ban_row sample_bans ''10.0.0.9'' = Some ((new_ban_row ''10.0.0.9'' ''root'' 0)\<lparr>lb_Failures := 1, lb_BanCount := 2\<rparr>)"
    by (simp add: ban_row_def sample_bans_def new_ban_row_def)
  have pol: "lp_FailureLimit sample_policy = 3" "lp_Window sample_policy = 60 * Second"
    "lp_BaseBan sample_policy = 10 * Second" "lp_MaxBan sample_policy = 25 * Second"
    by (simp_all add: sample_policy_def loginIPPolicy_def envPositiveInt_def envPositiveDuration_def Second_def)
  have "snd (LoginIPBlocked ''10.0.0.9'' now u (fail_all ''10.0.0.9'' ''root'' sample_policy [Second, 2 * Second] sample_bans))
      \<longleftrightarrow> now < 2 * Second + min (lp_MaxBan sample_policy) (lp_BaseBan sample_policy * 2 ^ nat 2)" for now u
    using login_lockout [OF row, of 0 "[Second, 2 * Second]" sample_policy "''root''"]
    by (simp add: pol new_ban_row_def Second_def)
  then show ?thesis by (simp add: pol Second_def)
qed

end
