(* ===== verification/Logs.thy ===== *)
theory Logs
  imports ReleaseHooks LoginGuard
begin

text \<open>
  Operational logs and their retention (\<open>internal/store/project_logs.go\<close>, \<open>log_retention.go\<close>, the upload events of
  \<open>dashboard.go\<close>).  The two tables only these files use are a record of their own beside the store.
\<close>

section \<open>Project logs and upload events\<close>

record project_log =
  lg_ID :: int
  lg_At :: stamp
  lg_TenantID :: int
  lg_ProjectID :: int
  lg_Project :: string
  lg_Username :: string
  lg_Action :: string
  lg_ServerID :: string
  lg_Version :: string
  lg_OS :: string
  lg_Arch :: string
  lg_Tags :: string
  lg_Status :: string
  lg_Error :: string
  lg_IP :: string

record upload_event =
  ue_ID :: int
  ue_At :: stamp
  ue_TenantID :: int
  ue_ProjectID :: int
  ue_Version :: string
  ue_Kind :: string
  ue_Bytes :: int
  ue_FileCount :: int
  ue_Status :: string
  ue_Username :: string
  ue_Detail :: string
  ue_Error :: string
  ue_IP :: string

record ops_logs =
  ol_projects :: "project_log table"
  ol_uploads :: "upload_event table"

record project_log_filter =
  pf_TenantID :: int
  pf_ProjectID :: int
  pf_ServerID :: string
  pf_Version :: string
  pf_Limit :: int

abbreviation "set_lg_ID i r \<equiv> r\<lparr>lg_ID := i\<rparr>"
abbreviation "set_ue_ID i r \<equiv> r\<lparr>ue_ID := i\<rparr>"

interpretation project_log_rows: autoinc lg_ID "\<lambda>i r. set_lg_ID i r"
  by unfold_locales simp

interpretation upload_rows: autoinc ue_ID "\<lambda>i r. set_ue_ID i r"
  by unfold_locales simp

definition dashboardRetention :: duration where
  "dashboardRetention = LogRetention"

definition projectLogRetention :: duration where
  "projectLogRetention = dashboardRetention"

definition RecordProjectLog :: "go_time \<Rightarrow> project_log \<Rightarrow> ops_logs \<Rightarrow> ops_logs" where
  "RecordProjectLog now log0 l =
     (let log = log0\<lparr>lg_At := (if lg_At log0 = None then format_time now else lg_At log0),
                     lg_Status := (if lg_Status log0 = [] then ''ok'' else lg_Status log0)\<rparr>;
          t = snd (tbl_delete (\<lambda>r. lg_At r < format_time (now - projectLogRetention)) (ol_projects l))
      in l\<lparr>ol_projects := snd (tbl_insert no_conflict (\<lambda>i r. set_lg_ID i r) ''project_logs'' log t)\<rparr>)"

definition ListProjectLogs :: "store \<Rightarrow> ops_logs \<Rightarrow> project_log_filter \<Rightarrow> project_log list" where
  "ListProjectLogs s l f =
     take (clamp_limit 100 500 (pf_Limit f))
       (concat (map (\<lambda>r. case tbl_row (\<lambda>p. p_ID p = lg_ProjectID r) (st_projects s) of
            Inl _ \<Rightarrow> []
          | Inr p \<Rightarrow>
              if lg_ProjectID r = pf_ProjectID f \<and> p_TenantID p = pf_TenantID f
                 \<and> (pf_ServerID f \<noteq> [] \<longrightarrow> lg_ServerID r = pf_ServerID f)
                 \<and> (pf_Version f \<noteq> [] \<longrightarrow> lg_Version r = pf_Version f)
              then [r\<lparr>lg_Project := p_Name p\<rparr>] else [])
        (rev (trows (ol_projects l)))))"

definition RecordUploadEvent :: "go_time \<Rightarrow> upload_event \<Rightarrow> ops_logs \<Rightarrow> ops_logs" where
  "RecordUploadEvent now ev0 l =
     (let ev = ev0\<lparr>ue_At := (if ue_At ev0 = None then format_time now else ue_At ev0),
                   ue_Kind := (if ue_Kind ev0 = [] then ''file'' else ue_Kind ev0),
                   ue_Status := (if ue_Status ev0 = [] then ''success'' else ue_Status ev0),
                   ue_Error := take 1000 (ue_Error ev0)\<rparr>;
          t = snd (tbl_delete (\<lambda>r. ue_At r < format_time (now - dashboardRetention)) (ol_uploads l))
      in l\<lparr>ol_uploads := snd (tbl_insert no_conflict (\<lambda>i r. set_ue_ID i r) ''upload_events'' ev t)\<rparr>)"

section \<open>Pruning\<close>

record log_prune_result =
  lr_AuditLogs :: nat
  lr_UploadEvents :: nat
  lr_ProjectLogs :: nat
  lr_PushDeployments :: nat
  lr_PushHostChecks :: nat
  lr_ReleaseHookEvents :: nat
  lr_LoginIPHistories :: nat

definition old_history :: "go_time \<Rightarrow> login_ban \<Rightarrow> bool" where
  "old_history now b =
     (text_less (lb_LastFailure b) (Some (now - LogRetention))
      \<and> (lb_BannedUntil b = None \<or> \<not> text_less (Some now) (lb_BannedUntil b)))"

text \<open>One transaction; the cut-off is read once.\<close>

definition PruneLogs :: "go_time \<Rightarrow> store \<times> ops_logs \<Rightarrow> log_prune_result \<times> (store \<times> ops_logs)" where
  "PruneLogs now sl =
     (case sl of (s, l) \<Rightarrow>
        let cutoff = format_time (now - LogRetention);
            (audits, t1) = tbl_delete (\<lambda>e. al_At e < cutoff) (st_audit s);
            (uploads, t2) = tbl_delete (\<lambda>e. ue_At e < cutoff) (ol_uploads l);
            (projects, t3) = tbl_delete (\<lambda>e. lg_At e < cutoff) (ol_projects l);
            old = map pd_ID (tbl_select (\<lambda>d. pd_CreatedAt d < cutoff) (st_deployments s));
            (_, t4) = tbl_delete (\<lambda>t. pt_DeploymentID t \<in> set old) (st_targets s);
            (deployments, t5) = tbl_delete (\<lambda>d. pd_CreatedAt d < cutoff) (st_deployments s);
            (checks, t6) = tbl_delete (\<lambda>c. hc_CheckedAt c < cutoff) (st_checks s);
            (events, t7) = tbl_delete (\<lambda>e. he_CreatedAt e < cutoff) (st_events s);
            bans = filter (\<lambda>b. \<not> old_history now b) (st_bans s)
        in (\<lparr>lr_AuditLogs = audits, lr_UploadEvents = uploads, lr_ProjectLogs = projects, lr_PushDeployments = deployments,
             lr_PushHostChecks = checks, lr_ReleaseHookEvents = events,
             lr_LoginIPHistories = length (st_bans s) - length bans\<rparr>,
            (s\<lparr>st_audit := t1, st_targets := t4, st_deployments := t5, st_checks := t6, st_events := t7, st_bans := bans\<rparr>,
             l\<lparr>ol_uploads := t2, ol_projects := t3\<rparr>)))"

lemma PruneLogs_tables:
  assumes "PruneLogs now (s, l) = (res, s', l')"
  defines "old \<equiv> pd_ID ` {d \<in> set (trows (st_deployments s)). pd_CreatedAt d < format_time (now - LogRetention)}"
  shows "trows (st_audit s') = filter (\<lambda>e. \<not> al_At e < format_time (now - LogRetention)) (trows (st_audit s))"
    and "trows (st_deployments s') = filter (\<lambda>d. \<not> pd_CreatedAt d < format_time (now - LogRetention)) (trows (st_deployments s))"
    and "trows (st_targets s') = filter (\<lambda>t. pt_DeploymentID t \<notin> old) (trows (st_targets s))"
    and "trows (st_events s') = filter (\<lambda>e. \<not> he_CreatedAt e < format_time (now - LogRetention)) (trows (st_events s))"
    and "st_bans s' = filter (\<lambda>b. \<not> old_history now b) (st_bans s)"
  using assms(1) by (auto simp: PruneLogs_def Let_def tbl_delete_def tbl_select_def old_def)

lemma filter_implied: "(\<And>x. x \<in> set xs \<Longrightarrow> P x \<Longrightarrow> Q x) \<Longrightarrow> filter P (filter Q xs) = filter P xs"
  by (induction xs) auto

lemma find_implied: "(\<And>x. x \<in> set xs \<Longrightarrow> P x \<Longrightarrow> Q x) \<Longrightarrow> find P (filter Q xs) = find P xs"
  by (induction xs) auto

text \<open>A row the reads of a later time still show is not beyond the cut-off of an earlier time.\<close>

lemma cutoff_later: "now \<le> now' \<Longrightarrow> c \<ge> format_time (now' - LogRetention) \<Longrightarrow> \<not> c < format_time (now - LogRetention)"
  using format_time_mono [of "now - LogRetention" "now' - LogRetention"] by (auto dest: order_trans leD)

lemma dep_tbl: "dep_ok s \<Longrightarrow> tbl_ok pd_ID (st_deployments s)"
  by (simp add: dep_ok_def)

lemma prune_get:
  assumes prune: "PruneLogs now (s, l) = (res, s', l')" and ok: "dep_ok s" and "now \<le> now'"
  shows "GetPushDeployment now' s' t p i = GetPushDeployment now' s t p i"
proof -
  let ?c = "format_time (now - LogRetention)"
  let ?P = "\<lambda>d. is_deployment t p i d \<and> retained now' d"
  note tables = PruneLogs_tables [OF prune]
  have "find ?P (trows (st_deployments s')) = find ?P (trows (st_deployments s))"
    unfolding tables(2) by (rule find_implied) (use cutoff_later [OF assms(3)] in \<open>auto simp: retained_def\<close>)
  then have row: "tbl_row ?P (st_deployments s') = tbl_row ?P (st_deployments s)" by (simp add: tbl_row_def)
  have "targets_of s' i = targets_of s i" if "tbl_row ?P (st_deployments s) = Inr d" for d
  proof -
    have d: "pd_ID d = i" "d \<in> set (trows (st_deployments s))" "\<not> pd_CreatedAt d < ?c"
      using tbl_row_Inr [OF that] cutoff_later [OF assms(3)] by (auto simp: is_deployment_def retained_def)
    have "i \<notin> pd_ID ` {d \<in> set (trows (st_deployments s)). pd_CreatedAt d < ?c}"
    proof
      assume "i \<in> pd_ID ` {d \<in> set (trows (st_deployments s)). pd_CreatedAt d < ?c}"
      then obtain x where x: "x \<in> set (trows (st_deployments s))" "pd_CreatedAt x < ?c" "pd_ID x = pd_ID d" using d(1) by auto
      have "x = d" by (rule deployment_events.id_unique [OF dep_tbl [OF ok] x(1) d(2) x(3)])
      with x(2) d(3) show False by simp
    qed
    then show ?thesis unfolding targets_of_def tbl_select_def tables(3) by (intro filter_implied) auto
  qed
  with row show ?thesis by (simp add: GetPushDeployment_def split: sum.splits)
qed

lemma prune_by_key:
  assumes prune: "PruneLogs now (s, l) = (res, s', l')" and ok: "dep_ok s" and le: "now \<le> now'" and "key \<noteq> []"
  shows "GetPushDeploymentByIdempotencyKey now' s' t p key = GetPushDeploymentByIdempotencyKey now' s t p key"
proof -
  let ?K = "\<lambda>d. pd_TenantID d = t \<and> pd_ProjectID d = p \<and> pd_IdempotencyKey d = key"
  note tables = PruneLogs_tables [OF prune]
  show ?thesis
  proof (cases "tbl_row ?K (st_deployments s)")
    case (Inl e)
    then have none: "\<forall>d\<in>set (trows (st_deployments s)). \<not> ?K d" by (auto dest: tbl_row_Inl)
    then have "\<forall>d\<in>set (trows (st_deployments s')). \<not> ?K d" unfolding tables(2) by simp
    from tbl_row_none [OF this] tbl_row_none [OF none] show ?thesis by (simp add: GetPushDeploymentByIdempotencyKey_def)
  next
    case (Inr d)
    then have d: "?K d" "d \<in> set (trows (st_deployments s))" by (auto dest: tbl_row_Inr)
    have only: "x = d" if "x \<in> set (trows (st_deployments s))" "?K x" for x
      using deployment_keys.uniq_rows [of "st_deployments s" x d "(t, p, key)"] that d ok assms(4)
      by (auto simp: dep_ok_def idem_key_def)
    show ?thesis
    proof (cases "d \<in> set (trows (st_deployments s'))")
      case True
      then obtain x where x: "tbl_row ?K (st_deployments s') = Inr x" using tbl_row_ex [of d "st_deployments s'" ?K] d(1) by blast
      then have "x = d" using tbl_row_Inr [OF x] only unfolding tables(2) by auto
      with Inr x prune_get [OF prune ok le] show ?thesis by (simp add: GetPushDeploymentByIdempotencyKey_def)
    next
      case False
      then have old: "pd_CreatedAt d < format_time (now - LogRetention)" using d(2) unfolding tables(2) by simp
      then have "\<not> retained now' d" using cutoff_later [OF le, of "pd_CreatedAt d"] by (auto simp: retained_def)
      then have "\<not> (is_deployment t p (pd_ID d) x \<and> retained now' x)" if "x \<in> set (trows (st_deployments s))" for x
        using deployment_events.id_unique [OF dep_tbl [OF ok] that d(2)] unfolding is_deployment_def by metis
      then have "\<forall>x\<in>set (trows (st_deployments s)). \<not> (is_deployment t p (pd_ID d) x \<and> retained now' x)" by (rule ballI)
      from tbl_row_none [OF this] have "GetPushDeployment now' s t p (pd_ID d) = Inl ErrNoRows" by (simp add: GetPushDeployment_def)
      moreover have "\<forall>x\<in>set (trows (st_deployments s')). \<not> ?K x"
      proof
        fix x assume x: "x \<in> set (trows (st_deployments s'))"
        then have "x \<in> set (trows (st_deployments s))" unfolding tables(2) by simp
        from only [OF this] x False show "\<not> ?K x" by metis
      qed
      from tbl_row_none [OF this] have "GetPushDeploymentByIdempotencyKey now' s' t p key = Inl ErrNoRows"
        by (simp add: GetPushDeploymentByIdempotencyKey_def)
      ultimately show ?thesis using Inr by (simp add: GetPushDeploymentByIdempotencyKey_def)
    qed
  qed
qed

lemma prune_bans:
  assumes prune: "PruneLogs now (s, l) = (res, s', l')" and later: "now div 1000000000 < now' div 1000000000"
    and "distinct (map lb_IP (st_bans s))"
  shows "ListLoginIPBans now' n s' = ListLoginIPBans now' n s"
    and "snd (LoginIPBlocked ip now' u s') = snd (LoginIPBlocked ip now' u s)"
proof -
  note bans = PruneLogs_tables(5) [OF prune]
  have "(x - LogRetention) div 1000000000 = - 2592000 + x div 1000000000" for x
  proof -
    have "x - LogRetention = - 2592000 * 1000000000 + x" by (simp add: LogRetention_def Hour_def Second_def)
    then show ?thesis by (simp only: div_mult_self3)
  qed
  with later have "(now - LogRetention) div 1000000000 < (now' - LogRetention) div 1000000000" by simp
  then have "text_less (lb_LastFailure b) (Some (now' - LogRetention))" if "old_history now b" for b
    using that by (cases "lb_LastFailure b") (auto simp: old_history_def rfc_less_def)
  then show "ListLoginIPBans now' n s' = ListLoginIPBans now' n s"
    unfolding ListLoginIPBans_def bans by (subst filter_implied) auto
  have over: "\<not> (\<exists>t. lb_BannedUntil b = Some t \<and> t > now')" if "old_history now b" for b
  proof
    assume "\<exists>t. lb_BannedUntil b = Some t \<and> t > now'"
    then obtain t where t: "lb_BannedUntil b = Some t" "now' < t" by blast
    then have "now' div 1000000000 \<le> t div 1000000000" by (simp add: zdiv_mono1)
    with later have "rfc_less now t" using rfc_less_later [of now t] by simp
    with that t show False by (simp add: old_history_def)
  qed
  show "snd (LoginIPBlocked ip now' u s') = snd (LoginIPBlocked ip now' u s)"
  proof (cases "ban_row s ip")
    case None
    then have "ban_row s' ip = None" unfolding ban_row_def bans by (auto simp: find_None_all)
    with None show ?thesis by (simp add: LoginIPBlocked_def)
  next
    case (Some b)
    then have b: "b \<in> set (st_bans s)" "lb_IP b = ip" by (auto simp: ban_row_def dest: find_Some_iff2)
    have only: "x = b" if "x \<in> set (st_bans s)" "lb_IP x = ip" for x
      using distinct_map_eq [OF assms(3) that(1) b(1)] that(2) b(2) by simp
    show ?thesis
    proof (cases "old_history now b")
      case True
      then have "ban_row s' ip = None" unfolding ban_row_def bans using only by (auto simp: find_None_all)
      with Some over [OF True] show ?thesis by (auto simp: LoginIPBlocked_def split: option.splits)
    next
      case False
      then have "ban_row s' ip = Some b"
        using Some only unfolding ban_row_def bans by (subst find_implied) auto
      with Some show ?thesis by (simp add: LoginIPBlocked_def)
    qed
  qed
qed


definition prune_time :: go_time where
  "prune_time = LogRetention + Second"

definition sample_history :: store where
  "sample_history = sample_queued\<lparr>st_bans := [(new_ban_row ''10.0.0.9'' ''root'' 0)\<lparr>lb_LastFailure := Some 0\<rparr>]\<rparr>"

definition sample_pruned :: "store \<times> ops_logs" where
  "sample_pruned = snd (PruneLogs prune_time (sample_history, \<lparr>ol_projects = empty_table, ol_uploads = empty_table\<rparr>))"


end
