(* ===== verification/DeliveryNodes.thy ===== *)
theory DeliveryNodes
  imports Deployments AuditLog
begin

text \<open>
  Pull-mode agents (\<open>internal/store/delivery_nodes.go\<close>): a node per server reports its state in heartbeats and
  is told the desired version, which carries a generation number.  The labels column holds the joined
  text; \<open>node_labels\<close> is what scanning a row returns.
\<close>

section \<open>Heartbeats\<close>

definition safe_identifier :: "string \<Rightarrow> string \<Rightarrow> bool" where
  "safe_identifier extra v =
     (case v of [] \<Rightarrow> False
      | c # rest \<Rightarrow> is_alnum c \<and> length rest \<le> 127 \<and> list_all (\<lambda>x. is_alnum x \<or> x \<in> set extra) rest)"

definition safeDeliveryServerID :: "string \<Rightarrow> bool" where
  "safeDeliveryServerID = safe_identifier ''._-''"

definition safeDeliveryMetadata :: "string \<Rightarrow> bool" where
  "safeDeliveryMetadata = safe_identifier ''._:-''"

record node_heartbeat =
  hb_TenantID :: int
  hb_ProjectID :: int
  hb_ServerID :: string
  hb_Role :: string
  hb_Environment :: string
  hb_Labels :: "string list"
  hb_OS :: string
  hb_Arch :: string
  hb_CurrentVersion :: string
  hb_AppliedGeneration :: int
  hb_Status :: string
  hb_LastError :: string
  hb_HeartbeatIntervalSeconds :: int

definition trimmed_heartbeat :: "node_heartbeat \<Rightarrow> node_heartbeat" where
  "trimmed_heartbeat h =
     h\<lparr>hb_ServerID := trim_space (hb_ServerID h), hb_Role := trim_space (hb_Role h),
       hb_Environment := trim_space (hb_Environment h), hb_OS := trim_space (hb_OS h), hb_Arch := trim_space (hb_Arch h),
       hb_CurrentVersion := trim_space (hb_CurrentVersion h), hb_Status := trim_space (hb_Status h),
       hb_LastError := trim_space (hb_LastError h)\<rparr>"

definition normalizeDeliveryHeartbeat :: "node_heartbeat \<Rightarrow> node_heartbeat res" where
  "normalizeDeliveryHeartbeat h0 =
     (let h = trimmed_heartbeat h0;
          status = (if hb_Status h = [] then ''ok'' else hb_Status h);
          interval = (if hb_HeartbeatIntervalSeconds h = 0 then 60 else hb_HeartbeatIntervalSeconds h);
          labels = normalizeTaskValues (hb_Labels h)
      in if \<not> safeDeliveryServerID (hb_ServerID h) then Inl (ErrMsg ''invalid server_id'')
         else if list_ex (\<lambda>v. v \<noteq> [] \<and> \<not> safeDeliveryMetadata v) [hb_Role h, hb_Environment h, hb_OS h, hb_Arch h]
         then Inl (ErrMsg ''role, environment, os, and arch must use safe identifiers'')
         else if hb_CurrentVersion h \<noteq> [] \<and> \<not> safeDeliveryMetadata (hb_CurrentVersion h)
         then Inl (ErrMsg ''current_version must use a safe identifier'')
         else if status \<noteq> ''ok'' \<and> status \<noteq> ''error'' \<and> status \<noteq> ''deploying''
         then Inl (ErrMsg ''status must be ok, deploying, or error'')
         else if interval < 10 \<or> interval > 3600
         then Inl (ErrMsg ''heartbeat_interval_seconds must be between 10 and 3600'')
         else if length labels > 32 then Inl (ErrMsg ''labels must not contain more than 32 values'')
         else if list_ex (\<lambda>l. \<not> safeDeliveryMetadata l) labels then Inl (ErrMsg ''labels must use safe identifiers'')
         else Inr (h\<lparr>hb_Status := status, hb_LastError := take 500 (hb_LastError h),
                     hb_HeartbeatIntervalSeconds := interval, hb_Labels := labels\<rparr>))"

section \<open>Rows\<close>

definition is_node :: "int \<Rightarrow> int \<Rightarrow> string \<Rightarrow> delivery_node \<Rightarrow> bool" where
  "is_node tenantID projectID serverID n = (node_key n = (tenantID, projectID, serverID, ''pull''))"

definition node_labels :: "delivery_node \<Rightarrow> string list" where
  "node_labels n = splitLabels (dn_Labels n)"

definition GetDeliveryNode :: "store \<Rightarrow> int \<Rightarrow> int \<Rightarrow> string \<Rightarrow> delivery_node res" where
  "GetDeliveryNode s tenantID projectID serverID = tbl_row (is_node tenantID projectID serverID) (st_nodes s)"

definition ListDeliveryNodes :: "store \<Rightarrow> int \<Rightarrow> int \<Rightarrow> delivery_node list" where
  "ListDeliveryNodes s tenantID projectID =
     sort_key dn_ServerID (tbl_select (\<lambda>n. dn_TenantID n = tenantID \<and> dn_ProjectID n = projectID) (st_nodes s))"

text \<open>The columns an INSERT does not name take their defaults.\<close>

definition default_node :: "int \<Rightarrow> int \<Rightarrow> string \<Rightarrow> stamp \<Rightarrow> delivery_node" where
  "default_node tenantID projectID serverID stamp =
     \<lparr>dn_ID = 0, dn_TenantID = tenantID, dn_ProjectID = projectID, dn_ServerID = serverID, dn_DeliveryMode = ''pull'',
      dn_Role = [], dn_Environment = [], dn_Labels = [], dn_OS = [], dn_Arch = [], dn_CurrentVersion = [],
      dn_DesiredVersion = [], dn_DesiredGeneration = 0, dn_AppliedGeneration = 0, dn_AutoFollow = False,
      dn_Status = ''unknown'', dn_LastError = [], dn_HeartbeatIntervalSeconds = 60, dn_LastSeenAt = None,
      dn_CreatedAt = stamp, dn_UpdatedAt = stamp\<rparr>"

definition reported :: "node_heartbeat \<Rightarrow> stamp \<Rightarrow> delivery_node \<Rightarrow> delivery_node" where
  "reported h stamp n =
     n\<lparr>dn_Role := hb_Role h, dn_Environment := hb_Environment h, dn_Labels := normaliseLabels (join_with '','' (hb_Labels h)),
       dn_OS := hb_OS h, dn_Arch := hb_Arch h, dn_CurrentVersion := hb_CurrentVersion h, dn_Status := hb_Status h,
       dn_LastError := hb_LastError h, dn_HeartbeatIntervalSeconds := hb_HeartbeatIntervalSeconds h,
       dn_LastSeenAt := stamp, dn_UpdatedAt := stamp\<rparr>"

text \<open>The CASE of the upsert: a larger report wins, the desired version acknowledges its generation.\<close>

definition applied_generation :: "node_heartbeat \<Rightarrow> delivery_node \<Rightarrow> int" where
  "applied_generation h n =
     (if hb_AppliedGeneration h > dn_AppliedGeneration n then hb_AppliedGeneration h
      else if hb_CurrentVersion h = dn_DesiredVersion n \<and> dn_DesiredGeneration n > dn_AppliedGeneration n
      then dn_DesiredGeneration n
      else dn_AppliedGeneration n)"

definition HeartbeatDeliveryNode :: "node_heartbeat \<Rightarrow> go_time \<Rightarrow> store \<Rightarrow> delivery_node res \<times> store" where
  "HeartbeatDeliveryNode h0 now s =
     (case normalizeDeliveryHeartbeat h0 of
        Inl e \<Rightarrow> (Inl e, s)
      | Inr h \<Rightarrow>
          (let stamp = format_time now;
               row = (reported h stamp (default_node (hb_TenantID h) (hb_ProjectID h) (hb_ServerID h) stamp))
                       \<lparr>dn_AppliedGeneration := hb_AppliedGeneration h\<rparr>;
               t = (case tbl_insert node_conflict (\<lambda>i r. set_dn_ID i r) ''delivery_nodes'' row (st_nodes s) of
                      (Inr _, t) \<Rightarrow> t
                    | (Inl _, _) \<Rightarrow>
                        snd (tbl_update (is_node (hb_TenantID h) (hb_ProjectID h) (hb_ServerID h))
                          (\<lambda>n. (reported h stamp n)\<lparr>dn_AppliedGeneration := applied_generation h n\<rparr>) (st_nodes s)));
               s' = s\<lparr>st_nodes := t\<rparr>
           in (GetDeliveryNode s' (hb_TenantID h) (hb_ProjectID h) (hb_ServerID h), s')))"

section \<open>The desired state\<close>

definition set_desired :: "string \<Rightarrow> stamp \<Rightarrow> delivery_node \<Rightarrow> delivery_node" where
  "set_desired version stamp n =
     n\<lparr>dn_DesiredGeneration := dn_DesiredGeneration n + (if dn_DesiredVersion n \<noteq> version then 1 else 0),
       dn_Status := (if dn_DesiredVersion n \<noteq> version then ''pending'' else dn_Status n),
       dn_DesiredVersion := version, dn_LastError := [], dn_UpdatedAt := stamp\<rparr>"

definition SetDeliveryNodeDesired ::
  "int \<Rightarrow> int \<Rightarrow> string \<Rightarrow> string \<Rightarrow> bool option \<Rightarrow> go_time \<Rightarrow> store \<Rightarrow> delivery_node res \<times> store" where
  "SetDeliveryNodeDesired tenantID projectID serverID0 version0 autoFollow now s =
     (let serverID = trim_space serverID0; version = trim_space version0; stamp = format_time now
      in if \<not> safeDeliveryServerID serverID then (Inl (ErrMsg ''invalid server_id''), s)
         else
           (let P = is_node tenantID projectID serverID;
                t0 = snd (tbl_insert node_conflict (\<lambda>i r. set_dn_ID i r) ''delivery_nodes''
                       (default_node tenantID projectID serverID stamp) (st_nodes s));
                t1 = (if version \<noteq> [] then snd (tbl_update P (set_desired version stamp) t0) else t0);
                t2 = (case autoFollow of
                        None \<Rightarrow> t1
                      | Some b \<Rightarrow> snd (tbl_update P (\<lambda>n. n\<lparr>dn_AutoFollow := b, dn_UpdatedAt := stamp\<rparr>) t1));
                s' = s\<lparr>st_nodes := t2\<rparr>
            in (GetDeliveryNode s' tenantID projectID serverID, s')))"

definition AdvanceAutoFollowDeliveryNodes :: "int \<Rightarrow> int \<Rightarrow> string \<Rightarrow> go_time \<Rightarrow> store \<Rightarrow> nat \<times> store" where
  "AdvanceAutoFollowDeliveryNodes tenantID projectID version now s =
     (let (n, t) = tbl_update (\<lambda>n. dn_TenantID n = tenantID \<and> dn_ProjectID n = projectID \<and> dn_DeliveryMode n = ''pull''
                        \<and> dn_AutoFollow n \<and> dn_DesiredVersion n \<noteq> version)
                     (\<lambda>n. n\<lparr>dn_DesiredGeneration := dn_DesiredGeneration n + 1, dn_Status := ''pending'',
                           dn_DesiredVersion := version, dn_LastError := [], dn_UpdatedAt := format_time now\<rparr>) (st_nodes s)
      in (n, s\<lparr>st_nodes := t\<rparr>))"

definition DeleteDeliveryNode :: "int \<Rightarrow> int \<Rightarrow> string \<Rightarrow> store \<Rightarrow> unit res \<times> store" where
  "DeleteDeliveryNode tenantID projectID serverID s =
     (let (n, t) = tbl_delete (is_node tenantID projectID serverID) (st_nodes s)
      in if n = 0 then (Inl ErrNoRows, s) else (Inr (), s\<lparr>st_nodes := t\<rparr>))"

text \<open>
  The last version a push reached a binding with.  Whether a selector text holds a true \<open>dry_run\<close> member
  (SQLite's JSON functions) is the parameter \<open>dry_run\<close>.
\<close>

definition LatestSuccessfulPushVersion :: "(string \<Rightarrow> bool) \<Rightarrow> store \<Rightarrow> int \<Rightarrow> int \<Rightarrow> string" where
  "LatestSuccessfulPushVersion dry_run s projectID bindingID =
     (case find (\<lambda>t. pt_BindingID t = bindingID \<and> pt_Status t = ''success''
               \<and> (case tbl_row (\<lambda>d. pd_ID d = pt_DeploymentID t) (st_deployments s) of
                    Inl _ \<Rightarrow> False | Inr d \<Rightarrow> pd_ProjectID d = projectID \<and> \<not> dry_run (pd_Selector d)))
            (rev (trows (st_targets s))) of
        None \<Rightarrow> []
      | Some t \<Rightarrow> (case tbl_row (\<lambda>d. pd_ID d = pt_DeploymentID t) (st_deployments s) of Inl _ \<Rightarrow> [] | Inr d \<Rightarrow> pd_Version d))"

text \<open>What a heartbeat tells the agent: \<open>needs_deploy\<close> of the handlers.\<close>

definition needs_deploy :: "delivery_node \<Rightarrow> bool" where
  "needs_deploy n =
     (dn_DesiredVersion n \<noteq> []
      \<and> (dn_CurrentVersion n \<noteq> dn_DesiredVersion n \<or> dn_AppliedGeneration n < dn_DesiredGeneration n))"

section \<open>Generations\<close>

inductive node_step :: "store \<Rightarrow> store \<Rightarrow> bool" where
  ns_heartbeat: "HeartbeatDeliveryNode h now s = (r, s') \<Longrightarrow> node_step s s'"
| ns_desired: "SetDeliveryNodeDesired t p sid v auto now s = (r, s') \<Longrightarrow> node_step s s'"
| ns_advance: "AdvanceAutoFollowDeliveryNodes t p v now s = (k, s') \<Longrightarrow> node_step s s'"
| ns_delete: "DeleteDeliveryNode t p sid s = (u, s') \<Longrightarrow> node_step s s'"
| ns_other: "st_nodes s' = st_nodes s \<Longrightarrow> node_step s s'"

definition evolves :: "delivery_node \<Rightarrow> delivery_node \<Rightarrow> bool" where
  "evolves n n' \<longleftrightarrow>
     dn_ID n' = dn_ID n \<and> node_key n' = node_key n
     \<and> dn_DesiredGeneration n \<le> dn_DesiredGeneration n' \<and> dn_AppliedGeneration n \<le> dn_AppliedGeneration n'
     \<and> (dn_DesiredGeneration n' = dn_DesiredGeneration n \<longrightarrow> dn_DesiredVersion n' = dn_DesiredVersion n)"

lemma evolves_refl [simp]: "evolves n n"
  by (simp add: evolves_def)

lemma evolves_trans: "evolves n n' \<Longrightarrow> evolves n' n'' \<Longrightarrow> evolves n n''"
  by (auto simp: evolves_def)

lemma evolves_ops:
  "evolves n ((reported h c n)\<lparr>dn_AppliedGeneration := applied_generation h n\<rparr>)"
  "evolves n (set_desired v c n)"
  "evolves n (n\<lparr>dn_AutoFollow := b, dn_UpdatedAt := c\<rparr>)"
  "evolves n (n\<lparr>dn_DesiredGeneration := dn_DesiredGeneration n + 1, dn_Status := st, dn_DesiredVersion := v,
     dn_LastError := e, dn_UpdatedAt := c\<rparr>)"
  by (auto simp: evolves_def reported_def set_desired_def applied_generation_def node_key_def)

text \<open>One step keeps the ids and lets every row evolve; a row with another id is new.\<close>

definition nodes_evolve :: "delivery_node table \<Rightarrow> delivery_node table \<Rightarrow> bool" where
  "nodes_evolve t t' \<longleftrightarrow>
     tbl_ok dn_ID t' \<and> tnext t \<le> tnext t'
     \<and> (\<forall>n'\<in>set (trows t'). (\<exists>n\<in>set (trows t). evolves n n') \<or> tnext t \<le> dn_ID n')"

lemma nodes_evolveI:
  assumes "tbl_ok dn_ID t'" "tnext t \<le> tnext t'"
    "\<And>n'. n' \<in> set (trows t') \<Longrightarrow> n' \<in> set (trows t) \<or> (\<exists>n\<in>set (trows t). evolves n n') \<or> tnext t \<le> dn_ID n'"
  shows "nodes_evolve t t'"
  unfolding nodes_evolve_def using assms evolves_refl by meson

lemma nodes_evolve_refl: "tbl_ok dn_ID t \<Longrightarrow> nodes_evolve t t"
  unfolding nodes_evolve_def using evolves_refl by blast

lemma nodes_evolve_trans:
  assumes "nodes_evolve t t'" "nodes_evolve t' t''"
  shows "nodes_evolve t t''"
proof -
  have "(\<exists>n\<in>set (trows t). evolves n x) \<or> tnext t \<le> dn_ID x" if x: "x \<in> set (trows t'')" for x
  proof -
    from assms(2) x consider y where "y \<in> set (trows t')" "evolves y x" | "tnext t' \<le> dn_ID x"
      unfolding nodes_evolve_def by blast
    then show ?thesis
    proof cases
      case (1 y)
      with assms(1) consider n where "n \<in> set (trows t)" "evolves n y" | "tnext t \<le> dn_ID y"
        unfolding nodes_evolve_def by blast
      then show ?thesis
      proof cases
        case (1 n)
        then show ?thesis using evolves_trans \<open>evolves y x\<close> by blast
      next
        case 2
        then show ?thesis using \<open>evolves y x\<close> by (simp add: evolves_def)
      qed
    next
      case 2
      then show ?thesis using assms(1) by (simp add: nodes_evolve_def)
    qed
  qed
  then show ?thesis using assms by (auto simp: nodes_evolve_def)
qed

lemma nodes_evolve_update:
  assumes "tbl_ok dn_ID t" "\<And>n. evolves n (f n)"
  shows "nodes_evolve t (snd (tbl_update P f t))"
proof -
  have "dn_ID (f n) = dn_ID n" for n using assms(2) [of n] by (simp add: evolves_def)
  then have "tbl_ok dn_ID (snd (tbl_update P f t))" by (rule node_rows.ok_update [OF assms(1)])
  then show ?thesis using assms(2) by (intro nodes_evolveI) auto
qed

lemma nodes_evolve_insert:
  assumes "tbl_ok dn_ID t"
  shows "nodes_evolve t (snd (tbl_insert c (\<lambda>i r. set_dn_ID i r) m row t))"
proof -
  have "tbl_ok dn_ID (snd (tbl_insert c (\<lambda>i r. set_dn_ID i r) m row t))" by (rule node_rows.ok_insert [OF assms])
  then show ?thesis by (intro nodes_evolveI) (auto simp: tbl_insert_def split: if_splits)
qed

lemma nodes_evolve_delete: "tbl_ok dn_ID t \<Longrightarrow> nodes_evolve t (snd (tbl_delete P t))"
  using node_rows.ok_delete [of t P] by (intro nodes_evolveI) auto

lemma node_step_evolves:
  assumes "node_step s s'" "tbl_ok dn_ID (st_nodes s)"
  shows "nodes_evolve (st_nodes s) (st_nodes s')"
  using assms(1)
proof cases
  case (ns_heartbeat h0 now r)
  show ?thesis
  proof (cases "normalizeDeliveryHeartbeat h0")
    case (Inl e)
    with ns_heartbeat have "s' = s" by (simp add: HeartbeatDeliveryNode_def)
    with assms(2) show ?thesis by (simp add: nodes_evolve_refl)
  next
    case (Inr h)
    let ?row = "(reported h (format_time now) (default_node (hb_TenantID h) (hb_ProjectID h) (hb_ServerID h) (format_time now)))
        \<lparr>dn_AppliedGeneration := hb_AppliedGeneration h\<rparr>"
    let ?ins = "tbl_insert node_conflict (\<lambda>i r. set_dn_ID i r) ''delivery_nodes'' ?row (st_nodes s)"
    let ?upd = "snd (tbl_update (is_node (hb_TenantID h) (hb_ProjectID h) (hb_ServerID h))
        (\<lambda>n. (reported h (format_time now) n)\<lparr>dn_AppliedGeneration := applied_generation h n\<rparr>) (st_nodes s))"
    from ns_heartbeat Inr have "st_nodes s' = (case ?ins of (Inr _, t) \<Rightarrow> t | (Inl _, _) \<Rightarrow> ?upd)"
      by (auto simp: HeartbeatDeliveryNode_def Let_def)
    then have "st_nodes s' = snd ?ins \<or> st_nodes s' = ?upd" by (auto split: prod.splits sum.splits)
    moreover have "nodes_evolve (st_nodes s) ?upd" using evolves_ops(1) by (intro nodes_evolve_update assms(2))
    moreover have "nodes_evolve (st_nodes s) (snd ?ins)" by (rule nodes_evolve_insert [OF assms(2)])
    ultimately show ?thesis by auto
  qed
next
  case (ns_desired t p sid v auto now r)
  show ?thesis
  proof (cases "safeDeliveryServerID (trim_space sid)")
    case False
    with ns_desired have "s' = s" by (simp add: SetDeliveryNodeDesired_def Let_def)
    with assms(2) show ?thesis by (simp add: nodes_evolve_refl)
  next
    case True
    let ?P = "is_node t p (trim_space sid)" and ?c = "format_time now"
    let ?t0 = "snd (tbl_insert node_conflict (\<lambda>i r. set_dn_ID i r) ''delivery_nodes'' (default_node t p (trim_space sid) ?c) (st_nodes s))"
    let ?t1 = "if trim_space v \<noteq> [] then snd (tbl_update ?P (set_desired (trim_space v) ?c) ?t0) else ?t0"
    let ?t2 = "case auto of None \<Rightarrow> ?t1 | Some b \<Rightarrow> snd (tbl_update ?P (\<lambda>n. n\<lparr>dn_AutoFollow := b, dn_UpdatedAt := ?c\<rparr>) ?t1)"
    have s': "st_nodes s' = ?t2" using ns_desired True by (auto simp: SetDeliveryNodeDesired_def Let_def)
    have e0: "nodes_evolve (st_nodes s) ?t0" by (rule nodes_evolve_insert [OF assms(2)])
    then have ok0: "tbl_ok dn_ID ?t0" by (simp only: nodes_evolve_def)
    have e1: "nodes_evolve ?t0 ?t1"
    proof (cases "trim_space v = []")
      case True
      then show ?thesis using nodes_evolve_refl [OF ok0] by simp
    next
      case False
      then show ?thesis using nodes_evolve_update [OF ok0 evolves_ops(2)] by simp
    qed
    then have ok1: "tbl_ok dn_ID ?t1" by (simp only: nodes_evolve_def)
    have "nodes_evolve ?t1 ?t2"
    proof (cases auto)
      case None
      then show ?thesis using nodes_evolve_refl [OF ok1] by simp
    next
      case (Some b)
      then show ?thesis using nodes_evolve_update [OF ok1 evolves_ops(3)] by simp
    qed
    with e0 e1 show ?thesis unfolding s' by (blast intro: nodes_evolve_trans)
  qed
next
  case (ns_advance t p v now k)
  then have "st_nodes s' = snd (tbl_update (\<lambda>n. dn_TenantID n = t \<and> dn_ProjectID n = p \<and> dn_DeliveryMode n = ''pull''
        \<and> dn_AutoFollow n \<and> dn_DesiredVersion n \<noteq> v)
      (\<lambda>n. n\<lparr>dn_DesiredGeneration := dn_DesiredGeneration n + 1, dn_Status := ''pending'', dn_DesiredVersion := v,
             dn_LastError := [], dn_UpdatedAt := format_time now\<rparr>) (st_nodes s))"
    by (auto simp: AdvanceAutoFollowDeliveryNodes_def Let_def split: prod.splits)
  then show ?thesis using nodes_evolve_update [OF assms(2)] evolves_ops(4) by simp
next
  case (ns_delete t p sid u)
  then have "st_nodes s' = st_nodes s \<or> st_nodes s' = snd (tbl_delete (is_node t p sid) (st_nodes s))"
    by (auto simp: DeleteDeliveryNode_def Let_def split: prod.splits if_splits)
  then show ?thesis using nodes_evolve_refl [OF assms(2)] nodes_evolve_delete [OF assms(2)] by auto
next
  case ns_other
  then show ?thesis using nodes_evolve_refl [OF assms(2)] by simp
qed

text \<open>
  C33: generations only grow and identify the desired version: whatever heartbeats, desired-state changes,
  publications and deletions follow, while a node exists neither its desired nor its applied generation
  decreases, and as long as its desired generation is the same its desired version is the same.
\<close>

theorem node_generations_monotone:
  assumes "node_step\<^sup>*\<^sup>* s s'" "tbl_ok dn_ID (st_nodes s)" "n \<in> set (trows (st_nodes s))"
    and "n' \<in> set (trows (st_nodes s'))" "dn_ID n' = dn_ID n"
  shows "node_key n' = node_key n \<and> dn_DesiredGeneration n \<le> dn_DesiredGeneration n'
    \<and> dn_AppliedGeneration n \<le> dn_AppliedGeneration n'
    \<and> (dn_DesiredGeneration n' = dn_DesiredGeneration n \<longrightarrow> dn_DesiredVersion n' = dn_DesiredVersion n)"
proof -
  from assms(1) have "nodes_evolve (st_nodes s) (st_nodes s')"
  proof (induction rule: rtranclp_induct)
    case base
    show ?case by (rule nodes_evolve_refl [OF assms(2)])
  next
    case (step s1 s2)
    then have "tbl_ok dn_ID (st_nodes s1)" by (simp add: nodes_evolve_def)
    from nodes_evolve_trans [OF step.IH node_step_evolves [OF step.hyps(2) this]] show ?case .
  qed
  moreover have "dn_ID n < tnext (st_nodes s)" using assms(2,3) by (simp add: tbl_ok_def)
  then have "\<not> tnext (st_nodes s) \<le> dn_ID n'" using assms(5) by simp
  ultimately obtain m where m: "m \<in> set (trows (st_nodes s))" "evolves m n'"
    using assms(4) unfolding nodes_evolve_def by metis
  have "dn_ID m = dn_ID n" using m(2) assms(5) by (simp add: evolves_def)
  then have "m = n" by (rule node_rows.id_unique [OF assms(2) m(1) assms(3)])
  with m(2) show ?thesis by (simp add: evolves_def)
qed

section \<open>Acknowledgement\<close>

lemma tbl_row_update: "(\<And>x. P x \<Longrightarrow> P (f x)) \<Longrightarrow> tbl_row P t = Inr r \<Longrightarrow> tbl_row P (snd (tbl_update P f t)) = Inr (f r)"
proof -
  assume P: "\<And>x. P x \<Longrightarrow> P (f x)"
  then have "find P (map (\<lambda>r. if P r then f r else r) xs) = map_option f (find P xs)" for xs
    by (induction xs) auto
  then show "tbl_row P t = Inr r \<Longrightarrow> tbl_row P (snd (tbl_update P f t)) = Inr (f r)"
    by (auto simp: tbl_row_def split: option.splits)
qed

text \<open>The node a heartbeat returns: a new row, or the old one with the report applied.\<close>

lemma heartbeat_result:
  assumes "HeartbeatDeliveryNode h0 now s = (Inr n, s')"
  shows "\<exists>h. normalizeDeliveryHeartbeat h0 = Inr h
    \<and> GetDeliveryNode s' (hb_TenantID h) (hb_ProjectID h) (hb_ServerID h) = Inr n
    \<and> (case GetDeliveryNode s (hb_TenantID h) (hb_ProjectID h) (hb_ServerID h) of
         Inl _ \<Rightarrow> dn_CurrentVersion n = hb_CurrentVersion h \<and> dn_AppliedGeneration n = hb_AppliedGeneration h
           \<and> dn_DesiredVersion n = [] \<and> dn_DesiredGeneration n = 0
       | Inr m \<Rightarrow> n = (reported h (format_time now) m)\<lparr>dn_AppliedGeneration := applied_generation h m\<rparr>)"
proof -
  obtain h where h: "normalizeDeliveryHeartbeat h0 = Inr h"
    using assms by (cases "normalizeDeliveryHeartbeat h0") (auto simp: HeartbeatDeliveryNode_def)
  let ?P = "is_node (hb_TenantID h) (hb_ProjectID h) (hb_ServerID h)"
  let ?row = "(reported h (format_time now) (default_node (hb_TenantID h) (hb_ProjectID h) (hb_ServerID h) (format_time now)))
      \<lparr>dn_AppliedGeneration := hb_AppliedGeneration h\<rparr>"
  let ?f = "\<lambda>n. (reported h (format_time now) n)\<lparr>dn_AppliedGeneration := applied_generation h n\<rparr>"
  let ?ins = "tbl_insert node_conflict (\<lambda>i r. set_dn_ID i r) ''delivery_nodes'' ?row (st_nodes s)"
  have conflict: "node_conflict ?row x \<longleftrightarrow> ?P x" for x
    by (auto simp: node_conflict_def is_node_def node_key_def reported_def default_node_def)
  have g: "tbl_row ?P (st_nodes s') = Inr n"
    and st: "st_nodes s' = (case ?ins of (Inr _, t) \<Rightarrow> t | (Inl _, _) \<Rightarrow> snd (tbl_update ?P ?f (st_nodes s)))"
    using assms h by (auto simp: HeartbeatDeliveryNode_def GetDeliveryNode_def Let_def)
  show ?thesis
  proof (cases "tbl_row ?P (st_nodes s)")
    case (Inl e)
    then have none: "\<forall>x\<in>set (trows (st_nodes s)). \<not> ?P x" by (auto dest: tbl_row_Inl)
    then have "\<not> list_ex (node_conflict ?row) (trows (st_nodes s))" unfolding conflict list_ex_iff by blast
    then have rows: "trows (st_nodes s') = trows (st_nodes s) @ [set_dn_ID (tnext (st_nodes s)) ?row]"
      unfolding st tbl_insert_def by simp
    have "find ?P (trows (st_nodes s)) = None" using none by (simp add: find_None_all)
    moreover have "?P (set_dn_ID (tnext (st_nodes s)) ?row)" by (simp add: is_node_def node_key_def reported_def default_node_def)
    ultimately have "n = set_dn_ID (tnext (st_nodes s)) ?row"
      using g unfolding tbl_row_def rows by (simp add: find_append)
    with h g Inl show ?thesis by (auto simp: GetDeliveryNode_def reported_def default_node_def)
  next
    case (Inr m)
    then have m: "?P m" "m \<in> set (trows (st_nodes s))" by (auto dest: tbl_row_Inr)
    then have "list_ex (node_conflict ?row) (trows (st_nodes s))" unfolding conflict list_ex_iff by blast
    then have upd: "st_nodes s' = snd (tbl_update ?P ?f (st_nodes s))" unfolding st tbl_insert_def by simp
    have "?P (?f x)" if "?P x" for x using that by (simp add: is_node_def node_key_def reported_def)
    from tbl_row_update [OF this Inr] g upd have "n = ?f m" by simp
    with h g Inr show ?thesis by (auto simp: GetDeliveryNode_def)
  qed
qed

text \<open>A well-formed heartbeat is always stored: the row is inserted or found.\<close>

lemma heartbeat_total:
  assumes "normalizeDeliveryHeartbeat h0 = Inr h"
  shows "\<exists>n s'. HeartbeatDeliveryNode h0 now s = (Inr n, s')"
proof -
  let ?P = "is_node (hb_TenantID h) (hb_ProjectID h) (hb_ServerID h)"
  let ?row = "(reported h (format_time now) (default_node (hb_TenantID h) (hb_ProjectID h) (hb_ServerID h) (format_time now)))
      \<lparr>dn_AppliedGeneration := hb_AppliedGeneration h\<rparr>"
  let ?f = "\<lambda>n. (reported h (format_time now) n)\<lparr>dn_AppliedGeneration := applied_generation h n\<rparr>"
  let ?ins = "tbl_insert node_conflict (\<lambda>i r. set_dn_ID i r) ''delivery_nodes'' ?row (st_nodes s)"
  let ?t = "case ?ins of (Inr _, t) \<Rightarrow> t | (Inl _, _) \<Rightarrow> snd (tbl_update ?P ?f (st_nodes s))"
  have conflict: "node_conflict ?row x \<longleftrightarrow> ?P x" for x
    by (auto simp: node_conflict_def is_node_def node_key_def reported_def default_node_def)
  have ex: "\<exists>x\<in>set (trows ?t). ?P x"
  proof (cases "list_ex (node_conflict ?row) (trows (st_nodes s))")
    case True
    then obtain x where x: "x \<in> set (trows (st_nodes s))" "?P x" unfolding conflict list_ex_iff by blast
    have P: "?P (?f x)" using x(2) by (simp add: is_node_def node_key_def reported_def)
    have "?t = snd (tbl_update ?P ?f (st_nodes s))" using True by (simp add: tbl_insert_def)
    then have rows: "set (trows ?t) = (\<lambda>r. if ?P r then ?f r else r) ` set (trows (st_nodes s))" by (simp only: trows_tbl_update set_map)
    have "?f x \<in> set (trows ?t)" unfolding rows by (rule rev_image_eqI [OF x(1)]) (simp only: x(2) if_True)
    with P show ?thesis by (rule bexI)
  next
    case False
    then show ?thesis by (simp add: tbl_insert_def is_node_def node_key_def reported_def default_node_def)
  qed
  obtain n where "tbl_row ?P ?t = Inr n" using tbl_row_ex [of _ ?t ?P] ex by auto
  with assms show ?thesis by (simp add: HeartbeatDeliveryNode_def GetDeliveryNode_def Let_def)
qed

text \<open>
  A version match acknowledges a rollout: once an agent has sent the same heartbeat twice, the server
  asks it to deploy exactly when a version is desired and the agent runs another one, whatever
  generation the agent reports, so the desired version is never deployed again to a node that has it.
\<close>

theorem heartbeat_acknowledges:
  assumes "HeartbeatDeliveryNode h t1 s = (Inr n1, s1)" "HeartbeatDeliveryNode h t2 s1 = (Inr n2, s2)"
  shows "needs_deploy n2 \<longleftrightarrow> dn_DesiredVersion n2 \<noteq> [] \<and> dn_CurrentVersion n2 \<noteq> dn_DesiredVersion n2"
proof -
  obtain h' where h': "normalizeDeliveryHeartbeat h = Inr h'"
    and g1: "GetDeliveryNode s1 (hb_TenantID h') (hb_ProjectID h') (hb_ServerID h') = Inr n1"
    and n1: "case GetDeliveryNode s (hb_TenantID h') (hb_ProjectID h') (hb_ServerID h') of
         Inl _ \<Rightarrow> dn_CurrentVersion n1 = hb_CurrentVersion h' \<and> dn_AppliedGeneration n1 = hb_AppliedGeneration h'
           \<and> dn_DesiredVersion n1 = [] \<and> dn_DesiredGeneration n1 = 0
       | Inr m \<Rightarrow> n1 = (reported h' (format_time t1) m)\<lparr>dn_AppliedGeneration := applied_generation h' m\<rparr>"
    using heartbeat_result [OF assms(1)] by blast
  have n2: "n2 = (reported h' (format_time t2) n1)\<lparr>dn_AppliedGeneration := applied_generation h' n1\<rparr>"
    using heartbeat_result [OF assms(2)] h' g1 by simp
  have "hb_AppliedGeneration h' \<le> dn_AppliedGeneration n1"
    using n1 by (auto simp: applied_generation_def split: sum.splits if_splits)
  then show ?thesis unfolding n2 by (auto simp: needs_deploy_def reported_def applied_generation_def)
qed

section \<open>Witnesses\<close>

definition sample_heartbeat :: node_heartbeat where
  "sample_heartbeat = \<lparr>hb_TenantID = 1, hb_ProjectID = 1, hb_ServerID = ''s1'', hb_Role = [], hb_Environment = [],
     hb_Labels = [''test''], hb_OS = ''linux'', hb_Arch = ''amd64'', hb_CurrentVersion = ''1.0.0'', hb_AppliedGeneration = 0,
     hb_Status = ''ok'', hb_LastError = [], hb_HeartbeatIntervalSeconds = 60\<rparr>"

definition node_known :: store where
  "node_known = snd (HeartbeatDeliveryNode sample_heartbeat 0 (empty_store ''/d''))"

definition node_desired :: store where
  "node_desired = snd (SetDeliveryNodeDesired 1 1 ''s1'' ''1.0.0'' None Second node_known)"

lemma node_generations_monotone_witness:
  "\<exists>n n'. n \<in> set (trows (st_nodes node_known)) \<and> n' \<in> set (trows (st_nodes node_desired)) \<and> dn_ID n' = dn_ID n
     \<and> dn_DesiredGeneration n \<le> dn_DesiredGeneration n' \<and> dn_DesiredGeneration n' = 1"
proof -
  have "node_step (empty_store ''/d'') node_known"
    unfolding node_known_def by (rule ns_heartbeat) (rule prod.collapse [symmetric])
  moreover have "tbl_ok dn_ID (st_nodes (empty_store ''/d''))" by (simp add: empty_store_def node_rows.ok_empty)
  ultimately have ok: "tbl_ok dn_ID (st_nodes node_known)" using node_step_evolves by (simp add: nodes_evolve_def)
  have run: "node_step\<^sup>*\<^sup>* node_known node_desired"
    unfolding node_desired_def by (rule r_into_rtranclp) (rule ns_desired, rule prod.collapse [symmetric])
  have "map dn_ID (trows (st_nodes node_known)) = [1]" by code_simp
  then obtain n where n: "n \<in> set (trows (st_nodes node_known))" "dn_ID n = 1" by auto
  have "map (\<lambda>n. (dn_ID n, dn_DesiredGeneration n)) (trows (st_nodes node_desired)) = [(1, 1)]" by code_simp
  then obtain n' where n': "n' \<in> set (trows (st_nodes node_desired))" "dn_ID n' = 1" "dn_DesiredGeneration n' = 1" by auto
  from node_generations_monotone [OF run ok n(1) n'(1)] n n' show ?thesis by (intro exI [of _ n] exI [of _ n']) simp
qed

lemma heartbeat_acknowledges_witness:
  "\<exists>n. fst (HeartbeatDeliveryNode sample_heartbeat (3 * Second) (snd (HeartbeatDeliveryNode sample_heartbeat (2 * Second) node_desired))) = Inr n
     \<and> dn_DesiredVersion n = ''1.0.0'' \<and> \<not> needs_deploy n"
proof -
  let ?b1 = "HeartbeatDeliveryNode sample_heartbeat (2 * Second) node_desired"
  let ?b2 = "HeartbeatDeliveryNode sample_heartbeat (3 * Second) (snd ?b1)"
  have "is_ok (fst ?b1)" by code_simp
  then obtain n1 where b1: "?b1 = (Inr n1, snd ?b1)" using ok_pair by blast
  have c: "case fst ?b2 of Inr n \<Rightarrow> dn_DesiredVersion n = ''1.0.0'' \<and> dn_CurrentVersion n = ''1.0.0'' | Inl _ \<Rightarrow> False" by code_simp
  then have "is_ok (fst ?b2)" by (auto simp: is_ok_def split: sum.splits)
  then obtain n2 where b2: "?b2 = (Inr n2, snd ?b2)" using ok_pair by blast
  then have "fst ?b2 = Inr n2" by (metis fst_conv)
  moreover from this c have "dn_DesiredVersion n2 = ''1.0.0''" "dn_CurrentVersion n2 = ''1.0.0''" by simp_all
  moreover have "\<not> needs_deploy n2" using heartbeat_acknowledges [OF b1 b2] calculation(2,3) by simp
  ultimately show ?thesis by blast
qed

end
