(* ===== verification/VersionTypes.thy ===== *)
theory VersionTypes
  imports Projects
begin

text \<open>What every row of \<open>versions\<close> looks like, whatever operations of \<open>projects.go\<close> and \<open>review.go\<close> wrote it.\<close>

definition version_typed :: "version \<Rightarrow> bool" where
  "version_typed v \<longleftrightarrow>
     v_Status v \<in> {''draft'', ''pending_review'', ''rejected'', ''published''}
     \<and> (v_Status v = ''published'' \<longleftrightarrow> v_PublishedAt v \<noteq> None)
     \<and> (v_Status v = ''published'' \<longrightarrow> IsReleaseVersion (v_Version v))
     \<and> (v_Status v \<noteq> ''published'' \<longrightarrow> v_Artifact v = empty_artifact)"

definition versions_typed :: "store \<Rightarrow> bool" where
  "versions_typed s \<longleftrightarrow> (\<forall>v\<in>set (trows (st_versions s)). version_typed v)"

lemma typed_update:
  assumes "versions_typed s" "st_versions s' = snd (tbl_update P f (st_versions s))"
    "\<And>v. v \<in> set (trows (st_versions s)) \<Longrightarrow> P v \<Longrightarrow> version_typed v \<Longrightarrow> version_typed (f v)"
  shows "versions_typed s'"
  using assms by (auto simp: versions_typed_def)

lemma typed_status:
  assumes "versions_typed s" "ver_ok s" "getVersionStatus s p v = Inr st" "st \<noteq> ''published''"
    and "new \<in> {''draft'', ''pending_review'', ''rejected''}"
  shows "versions_typed (set_status p v new s)"
proof (rule typed_update [OF assms(1) set_status_effect])
  fix r assume r: "r \<in> set (trows (st_versions s))" "is_version p v r" "version_typed r"
  from status_row [OF assms(2,3) r(1,2)] assms(4) have "v_Status r \<noteq> ''published''" by simp
  with r(3) assms(5) show "version_typed (r\<lparr>v_Status := new\<rparr>)" by (auto simp: version_typed_def)
qed

lemma published_name: "snd (PublishVersion sha perm now t p v s) = s \<or> IsReleaseVersion v"
  by (auto simp: PublishVersion_def split: sum.split)

lemma typed_publish:
  assumes "versions_typed s"
  shows "versions_typed (snd (PublishVersion sha perm now t p v s))"
proof (cases "snd (PublishVersion sha perm now t p v s) = s")
  case True
  with assms show ?thesis by simp
next
  case False
  with PublishVersion_effect [of sha perm now t p v s] obtain m where
    m: "st_versions (snd (PublishVersion sha perm now t p v s)) = snd (tbl_update (is_version p v)
         (\<lambda>v. v\<lparr>v_Status := ''published'', v_PublishedAt := format_time now, v_Artifact := m\<rparr>) (st_versions s))" by blast
  from False published_name have "IsReleaseVersion v" by blast
  then show ?thesis
    by (intro typed_update [OF assms m]) (auto simp: version_typed_def is_version_def format_time_def)
qed

lemma typed_create: "versions_typed s \<Longrightarrow> versions_typed (snd (CreateVersion now t p pn v s))"
proof -
  assume ok: "versions_typed s"
  have "versions_typed (s\<lparr>st_versions := tbl\<rparr>)"
    if "tbl_insert version_conflict (\<lambda>i r. set_v_ID i r) n
      \<lparr>v_ID = 0, v_ProjectID = p, v_Version = v, v_Status = ''draft'', v_CreatedAt = format_time now,
       v_PublishedAt = None, v_VCS = empty_vcs, v_Artifact = empty_artifact\<rparr> (st_versions s) = (Inr i, tbl)" for n i tbl
    using ok that by (auto simp: versions_typed_def version_typed_def elim!: tbl_insert_cases)
  moreover have "versions_typed (mkdir_all d x) = versions_typed x" for d x by (simp add: versions_typed_def mkdir_all_def)
  ultimately show ?thesis using ok by (auto simp: CreateVersion_def Let_def split: sum.split prod.split)
qed

lemma typed_step:
  assumes "ver_step s s'" "ver_ok s" "versions_typed s"
  shows "versions_typed s'"
  using assms(1)
proof (cases rule: ver_step.cases)
  case (vs_create now t p pn v r)
  with typed_create [OF assms(3), of now t p pn v] show ?thesis by simp
next
  case (vs_submit p v r)
  with typed_status [OF assms(3,2)] assms(3) show ?thesis by (auto simp: SubmitVersionReview_def split: sum.splits if_splits)
next
  case (vs_reject p v r)
  with typed_status [OF assms(3,2)] assms(3) show ?thesis by (auto simp: RejectVersionReview_def split: sum.splits if_splits)
next
  case (vs_publish sha perm now t p v r)
  with typed_publish [OF assms(3), of sha perm now t p v] show ?thesis by simp
next
  case (vs_vcs url p v vcs r)
  with SetVersionVCSProvenance_effect [of url p v vcs s] consider "s' = s"
    | "st_versions s' = snd (tbl_update (\<lambda>r. is_version p v r \<and> v_Status r = ''draft'') (\<lambda>r. r\<lparr>v_VCS := trim_vcs vcs\<rparr>) (st_versions s))"
    by auto
  then show ?thesis
  proof cases
    case 2
    show ?thesis by (rule typed_update [OF assms(3) 2]) (simp add: version_typed_def)
  qed (use assms(3) in simp)
next
  case (vs_delete sha t p pn v r)
  show ?thesis
  proof (cases r)
    case (Inl e)
    with vs_delete DeleteVersion_refused assms(3) show ?thesis by metis
  next
    case (Inr u)
    with vs_delete have "DeleteVersion sha t p pn v s = (Inr (), s')" by simp
    from DeleteVersion_effect [OF this] assms(3) show ?thesis by (auto simp: versions_typed_def tbl_delete_def)
  qed
qed

text \<open>
  C24: the rows of versions stay well formed under every sequence of operations: a version is a draft, in review, rejected
  or published; it has a time of publication exactly when it is published; what is published has a name of three numbers;
  and only what is published has an artifact manifest.  Ids and names per project stay unique.
\<close>

theorem version_rows_typed:
  assumes "ver_step\<^sup>*\<^sup>* s s'" "ver_ok s" "versions_typed s"
  shows "ver_ok s' \<and> versions_typed s'"
  using assms by (induction rule: rtranclp_induct) (auto dest: ver_step_frozen typed_step)

lemma version_rows_typed_witness:
  "versions_typed (snd (RejectVersionReview 1 ''1.0.0'' (snd (SubmitVersionReview 1 ''1.0.0'' sample_draft))))"
proof -
  let ?s1 = "snd (SubmitVersionReview 1 ''1.0.0'' sample_draft)"
  have "ver_step sample_draft ?s1" by (rule vs_submit) (rule prod.collapse [symmetric])
  moreover have "ver_step ?s1 (snd (RejectVersionReview 1 ''1.0.0'' ?s1))" by (rule vs_reject) (rule prod.collapse [symmetric])
  ultimately have run: "ver_step\<^sup>*\<^sup>* sample_draft (snd (RejectVersionReview 1 ''1.0.0'' ?s1))" by simp
  have "ver_ok sample_draft" "versions_typed sample_draft"
    by (simp_all add: ver_ok_def versions_typed_def version_typed_def sample_draft_def tbl_ok_def tbl_uniq_def sample_version_def
        empty_artifact_def)
  from version_rows_typed [OF run this] show ?thesis by blast
qed

end
