(* ===== verification/Storage.thy ===== *)
theory Storage
  imports Projects AuditLog
begin

text \<open>
  The storage browser (\<open>internal/store/storage.go\<close>): the tree below a path of
  the data directory, the plan of a deletion with its permission checks, and the deletion itself; the search index and the handlers follow in
  theory StorageIndex.  Paths
  are relative to the data directory, which is not the root directory; the free disk space and the size
  of the database file, which is not a file of the model, are parameters.
\<close>

section \<open>Sizes and scopes\<close>

definition dirSize :: "store \<Rightarrow> string \<Rightarrow> int" where
  "dirSize s root = sum_list (map (\<lambda>(f, c). if f = root \<or> under root f then int (length c) else 0) (st_files s))"

text \<open>\<open>os.Stat\<close>: whether the path is a directory, and the size of a file.\<close>

definition stat_path :: "store \<Rightarrow> string \<Rightarrow> (bool \<times> int) option" where
  "stat_path s path =
     (case map_of (st_files s) path of
        Some c \<Rightarrow> Some (False, int (length c))
      | None \<Rightarrow> if dir_exists s path then Some (True, dirSize s path) else None)"

fun drop_common :: "'a list \<Rightarrow> 'a list \<Rightarrow> 'a list \<times> 'a list" where
  "drop_common (x # xs) (y # ys) = (if x = y then drop_common xs ys else (x # xs, y # ys))"
| "drop_common xs ys = (xs, ys)"

text \<open>\<open>filepath.Rel\<close>, on the components of the two cleaned paths.\<close>

definition path_rel :: "string \<Rightarrow> string \<Rightarrow> string option" where
  "path_rel base target =
     (if is_abs base \<noteq> is_abs target then None
      else case drop_common (path_comps base) (path_comps target) of
        (b, t) \<Rightarrow>
          if b \<noteq> [] \<and> hd b = ''..'' then None
          else if b = [] \<and> t = [] then Some ''.''
          else Some (join_with ''/'' (replicate (length b) ''..'' @ t)))"

definition pathWithin :: "string \<Rightarrow> string \<Rightarrow> bool" where
  "pathWithin base target =
     (case path_rel (path_clean base) (path_clean target) of
        None \<Rightarrow> False
      | Some rel \<Rightarrow> rel \<noteq> ''..'' \<and> \<not> has_prefix rel ''../'')"

definition inferTreeKind :: "string \<Rightarrow> bool \<Rightarrow> string" where
  "inferTreeKind relPath isDir =
     (let parts = split_on slash relPath
      in if parts ! 0 = ''blobs'' then (if isDir then ''folder'' else ''blob'')
         else if length parts \<ge> 5 \<and> parts ! 0 = ''userdata'' \<and> parts ! 2 = ''projects''
           \<and> (length parts = 3 \<or> length parts = 4 \<and> isDir \<or> length parts = 5 \<and> isDir \<or> \<not> isDir)
         then (if length parts = 3 then ''folder''
               else if length parts = 4 \<and> isDir then ''project''
               else if length parts = 5 \<and> isDir then ''version''
               else ''file'')
         else if isDir then ''folder'' else ''file'')"

section \<open>The tree\<close>

datatype storage_node =
  StorageNode (sn_Name: string) (sn_Path: string) (sn_Kind: string) (sn_SizeBytes: int)
    (sn_Meta: "(string \<times> string) list") (sn_Children: "storage_node list")

definition mustListVersions :: "store \<Rightarrow> int \<Rightarrow> version list" where
  "mustListVersions s projectID = ListVersions s projectID"

definition mustProjectID :: "store \<Rightarrow> int \<Rightarrow> string \<Rightarrow> int" where
  "mustProjectID s tenantID name = (case GetProjectByName s tenantID name of Inl _ \<Rightarrow> 0 | Inr p \<Rightarrow> p_ID p)"

definition node_meta :: "store \<Rightarrow> int \<Rightarrow> string \<Rightarrow> string \<Rightarrow> string \<Rightarrow> (string \<times> string) list \<Rightarrow> (string \<times> string) list" where
  "node_meta s tenantID name path kind meta =
     (let parts = split_on slash path
      in if kind = ''project''
         then (case GetProjectByName s tenantID name of
                 Inl _ \<Rightarrow> meta
               | Inr p \<Rightarrow> al_put ''version_count'' (show_int (int (length (ListVersions s (p_ID p)))))
                            (al_put ''project_id'' (show_int (p_ID p)) meta))
         else if kind = ''version'' \<and> length parts \<ge> 5
         then (let meta1 = al_put ''project_name'' (parts ! 3) meta
               in case GetProjectByName s tenantID (parts ! 3) of
                    Inl _ \<Rightarrow> meta1
                  | Inr p \<Rightarrow>
                      (case find (\<lambda>v. v_Version v = parts ! 4) (mustListVersions s (p_ID p)) of
                         None \<Rightarrow> meta1
                       | Some v \<Rightarrow> al_put ''version_id'' (show_int (v_ID v)) (al_put ''status'' (v_Status v) meta1)))
         else meta)"

fun enrichTreeMeta :: "store \<Rightarrow> int \<Rightarrow> storage_node \<Rightarrow> storage_node" where
  "enrichTreeMeta s tenantID (StorageNode name path kind bytes meta children) =
     StorageNode name path kind bytes (node_meta s tenantID name path kind meta) (map (enrichTreeMeta s tenantID) children)"

text \<open>The entries of a directory in the order of \<open>os.ReadDir\<close>.\<close>

definition known_paths :: "store \<Rightarrow> string list" where
  "known_paths s = map fst (st_files s) @ st_dirs s"

definition read_dir :: "store \<Rightarrow> string \<Rightarrow> string list" where
  "read_dir s d = sort (remdups (map (\<lambda>f. takeWhile (\<lambda>c. c \<noteq> slash) (rel_path d f)) (filter (under d) (known_paths s))))"

definition longest_path :: "store \<Rightarrow> nat" where
  "longest_path s = Max (insert 0 (length ` set (known_paths s)))"

lemma read_dir_shorter:
  assumes "e \<in> set (read_dir s d)"
  shows "length d < length (d @ slash # e)" "length (d @ slash # e) \<le> longest_path s"
proof -
  from assms obtain f where f: "f \<in> set (known_paths s)" "under d f" "e = takeWhile (\<lambda>c. c \<noteq> slash) (rel_path d f)"
    by (auto simp: read_dir_def)
  obtain r where r: "f = d @ slash # r" using f(2) by (auto simp: under_def has_prefix_iff)
  then have "e = takeWhile (\<lambda>c. c \<noteq> slash) r" using f(3) by (simp add: rel_path_def)
  then have "length e \<le> length r" by (simp add: length_takeWhile_le)
  then have "length (d @ slash # e) \<le> length f" by (simp add: r)
  also have "\<dots> \<le> longest_path s" unfolding longest_path_def by (rule Max_ge) (use f(1) in auto)
  finally show "length (d @ slash # e) \<le> longest_path s" .
qed simp

text \<open>A child that cannot be read is left out.  Below a clean directory \<open>Join\<close> of an entry is concatenation.\<close>

function buildTreeNode :: "store \<Rightarrow> string \<Rightarrow> string \<Rightarrow> int \<Rightarrow> storage_node res" where
  "buildTreeNode s relPath full tenantID =
     (let name = (if relPath = ''userdata'' \<or> has_suffix relPath ''/userdata'' then ''userdata'' else path_base full)
      in case stat_path s full of
           None \<Rightarrow> Inl ErrNotExist
         | Some (isDir, bytes) \<Rightarrow>
             if isDir
             then Inr (enrichTreeMeta s tenantID
                    (StorageNode name relPath (inferTreeKind relPath True) (dirSize s full) []
                      (concat (map (\<lambda>e. case buildTreeNode s (path_join relPath e) (full @ slash # e) tenantID of
                          Inl _ \<Rightarrow> [] | Inr child \<Rightarrow> [child]) (read_dir s full)))))
             else Inr (StorageNode name relPath (inferTreeKind relPath False) bytes [] []))"
  by pat_completeness auto
termination
proof (relation "measure (\<lambda>(s, _, full, _). longest_path s + 1 - length full)")
  fix s relPath full tenantID name x2 x y e
  assume "e \<in> set (read_dir s full)"
  from read_dir_shorter [OF this]
  show "((s, path_join relPath e, full @ slash # e, tenantID), s, relPath, full, tenantID)
      \<in> measure (\<lambda>(s, _, full, _). longest_path s + 1 - length full)" by simp
qed simp

declare buildTreeNode.simps [simp del]

definition StorageTreeAt :: "store \<Rightarrow> int \<Rightarrow> string \<Rightarrow> storage_node res" where
  "StorageTreeAt s tenantID relPath0 =
     (case TenantByID s tenantID of
        Inl e \<Rightarrow> Inl e
      | Inr t \<Rightarrow>
          (let trimmed = trim_set [slash] (trim_space relPath0);
               tenantPrefix = path_join ''userdata'' (tn_Slug t);
               relPath = (if trimmed = [] then tenantPrefix else trimmed);
               full = path_join (st_dataDir s) relPath
           in if relPath \<noteq> tenantPrefix \<and> \<not> has_prefix relPath (tenantPrefix @ ''/'')
                \<and> relPath \<noteq> ''blobs'' \<and> \<not> has_prefix relPath ''blobs/''
              then Inl (ErrMsg ''path out of tenant scope'')
              else if \<not> pathWithin (st_dataDir s) full then Inl (ErrMsg ''invalid path'')
              else buildTreeNode s relPath full tenantID))"

section \<open>Deleting\<close>

datatype storage_warning = UnindexedBlob | OrphanBlob | PublishedVersion | WholeProject

datatype deny_reason = Deny string | BlobReferenced int

record storage_plan =
  sp_Path :: string
  sp_Kind :: string
  sp_SizeBytes :: int
  sp_Allowed :: bool
  sp_DenyReason :: "deny_reason option"
  sp_Warnings :: "storage_warning list"
  sp_Related :: "string list"

definition deny_text :: "storage_plan \<Rightarrow> string" where
  "deny_text plan =
     (case sp_DenyReason plan of
        None \<Rightarrow> []
      | Some (Deny m) \<Rightarrow> m
      | Some (BlobReferenced n) \<Rightarrow> ''blob is still referenced by '' @ show_int n @ '' version files'')"

definition denied :: "string \<Rightarrow> storage_plan \<Rightarrow> storage_plan" where
  "denied reason plan = plan\<lparr>sp_DenyReason := Some (Deny reason)\<rparr>"

definition plan_blob :: "store \<Rightarrow> string \<Rightarrow> string \<Rightarrow> storage_plan \<Rightarrow> storage_plan" where
  "plan_blob s full tenantRole plan =
     (if tenantRole \<noteq> RoleAdmin then denied ''admin required for blob storage'' plan
      else if sp_Kind plan = ''orphan_blob'' \<or> sp_Kind plan = ''blob''
      then (case find_blob s (path_base full) of
              None \<Rightarrow> plan\<lparr>sp_Allowed := True, sp_Warnings := [UnindexedBlob]\<rparr>
            | Some b \<Rightarrow>
                if b_RefCount b > 0
                then plan\<lparr>sp_DenyReason := Some (BlobReferenced (b_RefCount b)),
                          sp_Related := [''ref_count='' @ show_int (b_RefCount b)]\<rparr>
                else plan\<lparr>sp_Allowed := True, sp_Warnings := [OrphanBlob]\<rparr>)
      else denied ''cannot delete blob folder directly'' plan)"

definition plan_tenant :: "store \<Rightarrow> int \<Rightarrow> string \<Rightarrow> storage_plan \<Rightarrow> storage_plan" where
  "plan_tenant s tenantID relPath plan =
     (let parts = split_on slash relPath
      in if sp_Kind plan = ''version''
         then (if length parts < 5 then denied ''invalid version path'' plan
               else case GetProjectByName s tenantID (parts ! 3) of
                 Inl _ \<Rightarrow> denied ''project not found'' plan
               | Inr p \<Rightarrow>
                   (let status = (case find (\<lambda>v. v_Version v = parts ! 4) (ListVersions s (p_ID p)) of
                                    None \<Rightarrow> [] | Some v \<Rightarrow> v_Status v)
                    in plan\<lparr>sp_Related := [''project='' @ parts ! 3],
                            sp_Warnings := (if status = ''published'' then [PublishedVersion] else []), sp_Allowed := True\<rparr>))
         else if sp_Kind plan = ''project''
         then (let vers = ListVersions s (mustProjectID s tenantID (parts ! 3))
               in plan\<lparr>sp_Related := (''versions='' @ show_int (int (length vers)))
                          # map (\<lambda>v. v_Version v @ '' ('' @ v_Status v @ '')'') vers,
                       sp_Warnings := [WholeProject], sp_Allowed := True\<rparr>)
         else if sp_Kind plan = ''file''
         then (if length parts < 6 then denied ''invalid file path'' plan
               else if list_ex (\<lambda>v. v_Version v = parts ! 4 \<and> v_Status v \<noteq> ''draft'')
                         (mustListVersions s (mustProjectID s tenantID (parts ! 3)))
               then denied ''only draft version files can be deleted'' plan
               else plan\<lparr>sp_Related := [''file='' @ join_with ''/'' (drop 5 parts)], sp_Allowed := True\<rparr>)
         else denied ''unsupported delete target'' plan)"

definition PlanStorageDelete :: "store \<Rightarrow> int \<Rightarrow> string \<Rightarrow> string \<Rightarrow> storage_plan res" where
  "PlanStorageDelete s tenantID relPath0 tenantRole =
     (let relPath = trim_set [slash] (trim_space relPath0);
          plan = \<lparr>sp_Path = relPath, sp_Kind = [], sp_SizeBytes = 0, sp_Allowed = False, sp_DenyReason = None,
                  sp_Warnings = [], sp_Related = []\<rparr>;
          full = path_join (st_dataDir s) relPath
      in if \<not> pathWithin (st_dataDir s) full then Inr (denied ''invalid path'' plan)
         else case stat_path s full of
           None \<Rightarrow> Inr (denied ''not found'' plan)
         | Some (isDir, bytes) \<Rightarrow>
             (let plan1 = plan\<lparr>sp_SizeBytes := bytes, sp_Kind := inferTreeKind relPath isDir\<rparr>
              in case TenantByID s tenantID of
                   Inl e \<Rightarrow> Inl e
                 | Inr t \<Rightarrow>
                     if has_prefix relPath ''blobs/'' \<or> relPath = ''blobs'' then Inr (plan_blob s full tenantRole plan1)
                     else if \<not> has_prefix relPath (path_join ''userdata'' (tn_Slug t))
                     then Inr (denied ''path out of tenant scope'' plan1)
                     else Inr (plan_tenant s tenantID relPath plan1)))"

text \<open>\<open>os.Remove\<close>: a file, or an empty directory.\<close>

definition os_remove :: "string \<Rightarrow> store \<Rightarrow> unit res \<times> store" where
  "os_remove path s =
     (if map_of (st_files s) path \<noteq> None then (Inr (), s\<lparr>st_files := al_del path (st_files s)\<rparr>)
      else if dir_exists s path
      then (if isDirEmpty s path then (Inr (), s\<lparr>st_dirs := removeAll path (st_dirs s)\<rparr>)
            else (Inl (ErrMsg ''directory not empty''), s))
      else (Inl ErrNotExist, s))"

text \<open>The path is used as given here: \<open>PlanStorageDelete\<close> trims its own copy.\<close>

definition ExecuteStorageDelete :: "(string \<Rightarrow> string) \<Rightarrow> int \<Rightarrow> string \<Rightarrow> store \<Rightarrow> unit res \<times> store" where
  "ExecuteStorageDelete sha tenantID relPath s =
     (case PlanStorageDelete s tenantID relPath RoleAdmin of
        Inl e \<Rightarrow> (Inl e, s)
      | Inr plan \<Rightarrow>
          if \<not> sp_Allowed plan
          then (Inl (ErrMsg (if deny_text plan \<noteq> [] then deny_text plan else ''delete not allowed'')), s)
          else
            (let full = path_join (st_dataDir s) relPath; parts = split_on slash relPath
             in if sp_Kind plan = ''version''
                then (case GetProjectByName s tenantID (parts ! 3) of
                        Inl e \<Rightarrow> (Inl e, s)
                      | Inr p \<Rightarrow> DeleteVersion sha tenantID (p_ID p) (parts ! 3) (parts ! 4) s)
                else if sp_Kind plan = ''project''
                then (case GetProjectByName s tenantID (parts ! 3) of
                        Inl e \<Rightarrow> (Inl e, s)
                      | Inr p \<Rightarrow> DeleteProject sha tenantID (p_ID p) s)
                else if sp_Kind plan = ''file''
                then DeleteVersionFile sha tenantID (parts ! 3) (parts ! 4) (join_with ''/'' (drop 5 parts)) s
                else if sp_Kind plan = ''blob'' \<or> sp_Kind plan = ''orphan_blob''
                then (case os_remove full s of
                        (Inl e, s1) \<Rightarrow> (Inl e, s1)
                      | (Inr _, s1) \<Rightarrow>
                          (Inr (), s1\<lparr>st_blobs := filter (\<lambda>b. \<not> (b_Hash b = path_base full \<and> b_RefCount b = 0)) (st_blobs s1)\<rparr>))
                else (Inl (ErrMsg (''unsupported kind '' @ sp_Kind plan)), s)))"

section \<open>Paths of a request\<close>

lemma drop_common_append: "drop_common xs (xs @ ys) = ([], ys)"
  by (induction xs) simp_all

lemma split_comps: "\<forall>w\<in>set ws. comp_ok w \<Longrightarrow> ws \<noteq> [] \<Longrightarrow> split_on slash (join_with ''/'' ws) = ws"
  by (rule split_join_comps) (auto simp: comp_ok_def)

lemma join_not_Nil: "\<forall>w\<in>set ws. comp_ok w \<Longrightarrow> ws \<noteq> [] \<Longrightarrow> join_with ''/'' ws \<noteq> []"
proof
  assume ok: "\<forall>w\<in>set ws. comp_ok w" "ws \<noteq> []" and "join_with ''/'' ws = []"
  then have "ws = [[]]" using split_comps [OF ok] by simp
  with ok(1) show False by (simp add: comp_ok_def)
qed

lemma last_join: "\<forall>w\<in>set ws. comp_ok w \<Longrightarrow> ws \<noteq> [] \<Longrightarrow> last (join_with ''/'' ws) = last (last ws)"
proof (induction ws)
  case (Cons w ws)
  show ?case
  proof (cases ws)
    case Nil
    then show ?thesis by simp
  next
    case (Cons v vs)
    have ok: "\<forall>w\<in>set ws. comp_ok w" "ws \<noteq> []" using Cons.prems Cons by simp_all
    have "join_with ''/'' (w # ws) = (w @ ''/'') @ join_with ''/'' ws" using Cons by simp
    then have "last (join_with ''/'' (w # ws)) = last (join_with ''/'' ws)"
      using join_not_Nil [OF ok] by (simp only: last_append if_False)
    with Cons.IH [OF ok] ok(2) show ?thesis by simp
  qed
qed simp

lemma last_no_slash: "comp_ok w \<Longrightarrow> last w \<noteq> slash"
proof -
  assume "comp_ok w"
  then have "w \<noteq> []" "slash \<notin> set w" by (simp_all add: comp_ok_def)
  then show ?thesis using last_in_set [of w] by (metis (no_types))
qed

lemma trim_set_id: "p \<noteq> [] \<Longrightarrow> hd p \<notin> set cs \<Longrightarrow> last p \<notin> set cs \<Longrightarrow> trim_set cs p = p"
proof -
  assume a: "p \<noteq> []" "hd p \<notin> set cs" "last p \<notin> set cs"
  then have "dropWhile (\<lambda>c. c \<in> set cs) p = p" by (cases p) auto
  moreover have "dropWhile (\<lambda>c. c \<in> set cs) (rev p) = rev p"
    using a(1,3) by (cases p rule: rev_cases) auto
  ultimately show ?thesis by (simp add: trim_set_def trim_right_set_def)
qed

lemma path_base_render:
  assumes "\<forall>w\<in>set ws. comp_ok w" "ws \<noteq> []"
  shows "path_base (render True ws) = last ws"
proof -
  have ne: "join_with ''/'' ws \<noteq> []" by (rule join_not_Nil [OF assms])
  have "last (join_with ''/'' ws) \<noteq> slash"
    using last_join [OF assms] last_no_slash [of "last ws"] assms by simp
  then have trim: "trim_right_set [slash] (slash # join_with ''/'' ws) = slash # join_with ''/'' ws"
    using ne by (cases "join_with ''/'' ws" rule: rev_cases) (auto simp: trim_right_set_def)
  have "split_on slash (slash # join_with ''/'' ws) = [] # ws"
    using split_on_append [of slash "[]" "join_with ''/'' ws"] split_comps [OF assms] by simp
  with trim assms(2) show ?thesis by (simp add: path_base_def render_def Let_def)
qed

text \<open>A clean path below the data directory is within it.\<close>

lemma within_below:
  assumes "is_abs d" "\<forall>w\<in>set ws. comp_ok w \<and> w \<noteq> ''..''"
  shows "pathWithin d (render True (path_comps d @ ws))"
proof -
  have ok: "\<forall>w\<in>set (path_comps d @ ws). comp_ok w" using assms(2) path_comps_ok by auto
  have up: "''..'' \<notin> set (path_comps d @ ws)" using assms(2) abs_comps_no_up [OF assms(1)] by auto
  let ?p = "render True (path_comps d @ ws)"
  have p: "is_abs ?p" "path_comps ?p = path_comps d @ ws" using is_abs_render [OF ok] path_comps_render [OF ok up] by simp_all
  have rel: "path_rel (path_clean d) (path_clean ?p) = Some (if ws = [] then ''.'' else join_with ''/'' ws)"
    using p assms(1) by (simp add: path_rel_def drop_common_append)
  have "join_with ''/'' ws \<noteq> ''..'' \<and> \<not> has_prefix (join_with ''/'' ws) ''../''" if "ws \<noteq> []"
  proof -
    have s: "split_on slash (join_with ''/'' ws) = ws" using split_comps [of ws] assms(2) that by auto
    have "join_with ''/'' ws \<noteq> ''..''"
    proof
      assume "join_with ''/'' ws = ''..''"
      moreover have "split_on slash ''..'' = [''..'']" by code_simp
      ultimately have "ws = [''..'']" using s by simp
      with assms(2) show False by simp
    qed
    moreover have "\<not> has_prefix (join_with ''/'' ws) ''../''"
    proof
      assume "has_prefix (join_with ''/'' ws) ''../''"
      then obtain x where "join_with ''/'' ws = ''..'' @ slash # x" by (auto simp: has_prefix_iff)
      moreover have "split_on slash (''..'' @ slash # x) = split_on slash ''..'' @ split_on slash x" by (rule split_on_append)
      moreover have "split_on slash ''..'' = [''..'']" by code_simp
      ultimately have "ws = ''..'' # split_on slash x" using s by simp
      with assms(2) show False by simp
    qed
    ultimately show ?thesis ..
  qed
  with rel show ?thesis by (auto simp: pathWithin_def has_prefix_def)
qed

definition blob_escape :: "string list \<Rightarrow> string" where
  "blob_escape ws = ''blobs/../'' @ join_with ''/'' ws"

lemma blob_escape_path:
  assumes "is_abs d" "ws \<noteq> []" "\<forall>w\<in>set ws. comp_ok w \<and> w \<noteq> ''..''"
  shows "path_join d (blob_escape ws) = render True (path_comps d @ ws)" "trim_set [slash] (blob_escape ws) = blob_escape ws"
    "split_on slash (blob_escape ws) = [''blobs'', ''..''] @ ws"
proof -
  let ?all = "[''blobs'', ''..''] @ ws"
  have ok: "\<forall>w\<in>set ?all. comp_ok w" using assms(3) by (auto simp: comp_ok_def)
  have esc: "blob_escape ws = join_with ''/'' ?all" using assms(2) by (cases ws) (simp_all add: blob_escape_def)
  have ne: "d \<noteq> []" using assms(1) by auto
  have raw: "raw_comps (blob_escape ws) = ?all" unfolding esc by (rule raw_comps_join [OF ok])
  have up: "''..'' \<notin> set ws" using assms(3) by auto
  have "path_comps (path_join d (blob_escape ws)) = path_comps d @ ws"
    using path_comps_join [OF ne, of "blob_escape ws"] assms(1) up by (simp add: raw walk_plain)
  moreover have "is_abs (path_join d (blob_escape ws))" using assms(1) ne by (simp add: path_join_def is_abs_append)
  ultimately show "path_join d (blob_escape ws) = render True (path_comps d @ ws)"
    using path_join_clean [OF ne, of "blob_escape ws"] by (simp add: path_clean_def)
  show "split_on slash (blob_escape ws) = ?all" unfolding esc by (rule split_comps [OF ok]) simp
  have "last (blob_escape ws) \<noteq> slash"
    unfolding esc using last_join [OF ok] last_no_slash [of "last ws"] assms(2,3) by simp
  then show "trim_set [slash] (blob_escape ws) = blob_escape ws"
    by (intro trim_set_id) (simp_all add: blob_escape_def)
qed

end
