(* ===== verification/StorageIndex.thy ===== *)
theory StorageIndex
  imports Storage
begin

text \<open>
  The search index of the storage browser (\<open>internal/store/storage_index.go\<close>) and the handlers of both
  (\<open>internal/api/handlers_storage.go\<close>, the overview of \<open>storage.go\<close>).  The index is a table of its own beside
  the store; a rebuild is not a transaction, so a failing rebuild leaves the rows written so far.  Only
  rows and searches read the index: no decision of the server depends on it.
\<close>

section \<open>SQLite's LIKE\<close>

text \<open>
  \<open>LIKE\<close> folds the case of ASCII letters.  The wildcard for one character is a byte here; the patterns of
  the code escape it, so no search depends on it.
\<close>

abbreviation like_any :: char where "like_any \<equiv> CHR ''%''"
abbreviation like_one :: char where "like_one \<equiv> CHR ''_''"
abbreviation like_esc :: char where "like_esc \<equiv> CHR 0x5C"

fun sql_like :: "char option \<Rightarrow> string \<Rightarrow> string \<Rightarrow> bool" where
  "sql_like esc [] s = (s = [])"
| "sql_like esc (p # ps) s =
     (if esc = Some p
      then (case (ps, s) of
              (q # qs, c # cs) \<Rightarrow> lower_char q = lower_char c \<and> sql_like esc qs cs
            | _ \<Rightarrow> False)
      else if p = like_any then list_ex (\<lambda>n. sql_like esc ps (drop n s)) [0..<Suc (length s)]
      else (case s of
              [] \<Rightarrow> False
            | c # cs \<Rightarrow> (p = like_one \<or> lower_char p = lower_char c) \<and> sql_like esc ps cs))"

definition escapeLike :: "string \<Rightarrow> string" where
  "escapeLike s =
     replace_char like_one [like_esc, like_one]
       (replace_char like_any [like_esc, like_any] (replace_char like_esc [like_esc, like_esc] s))"

section \<open>The index\<close>

text \<open>NULL columns are read as the empty text, so they are stored as such.\<close>

record index_row =
  ix_ID :: int
  ix_TenantID :: int
  ix_RelPath :: string
  ix_Name :: string
  ix_Kind :: string
  ix_SizeBytes :: int
  ix_ProjectName :: string
  ix_Version :: string
  ix_FileRel :: string
  ix_UpdatedAt :: stamp

type_synonym index = "index_row table"

definition index_insert :: "index_row \<Rightarrow> index \<Rightarrow> index" where
  "index_insert row idx = snd (tbl_insert no_conflict (\<lambda>i r. r\<lparr>ix_ID := i\<rparr>) ''storage_index'' row idx)"

definition StorageIndexMeta :: "index \<Rightarrow> int \<times> stamp" where
  "StorageIndexMeta idx = (int (length (trows idx)), Max (insert None (ix_UpdatedAt ` set (trows idx))))"

definition index_entry ::
  "int \<Rightarrow> stamp \<Rightarrow> string \<Rightarrow> string \<Rightarrow> string \<Rightarrow> int \<Rightarrow> string \<Rightarrow> string \<Rightarrow> string \<Rightarrow> index_row" where
  "index_entry tenantID now relPath name kind bytes project ver fileRel =
     \<lparr>ix_ID = 0, ix_TenantID = tenantID, ix_RelPath = relPath, ix_Name = name, ix_Kind = kind, ix_SizeBytes = bytes,
      ix_ProjectName = project, ix_Version = ver, ix_FileRel = fileRel, ix_UpdatedAt = now\<rparr>"

text \<open>\<open>filepath.Walk\<close>: the regular files below a directory in lexical order of every directory.\<close>

function walk_tree :: "store \<Rightarrow> string \<Rightarrow> string list" where
  "walk_tree s full =
     (case stat_path s full of
        None \<Rightarrow> []
      | Some (isDir, _) \<Rightarrow> if isDir then concat (map (\<lambda>e. walk_tree s (full @ slash # e)) (read_dir s full)) else [full])"
  by pat_completeness auto
termination
proof (relation "measure (\<lambda>(s, full). longest_path s + 1 - length full)")
  fix s full x2 x y e
  assume "e \<in> set (read_dir s full)"
  from read_dir_shorter [OF this]
  show "((s, full @ slash # e), s, full) \<in> measure (\<lambda>(s, full). longest_path s + 1 - length full)" by simp
qed simp

declare walk_tree.simps [simp del]

text \<open>
  The rows of one version.  \<open>Walk\<close> reports a missing version directory as an error, which ends the whole
  rebuild after the row of the version was written.
\<close>

definition version_entries :: "store \<Rightarrow> int \<Rightarrow> stamp \<Rightarrow> string \<Rightarrow> string \<Rightarrow> string \<Rightarrow> string \<Rightarrow> index_row list \<times> bool" where
  "version_entries s tenantID now projDir relProj pname ver =
     (let verDir = path_join projDir ver;
          row = index_entry tenantID now (relProj @ ''/'' @ ver) ver ''version'' (dirSize s verDir) pname ver [];
          entry = (\<lambda>f. index_entry tenantID now (the (path_rel (st_dataDir s) f)) (path_base f) ''file''
                     (case stat_path s f of None \<Rightarrow> 0 | Some (_, n) \<Rightarrow> n) pname ver (the (path_rel verDir f)))
      in if stat_path s verDir = None then ([row], False)
         else (row # map entry (walk_tree s verDir), True))"

fun until_error :: "('a \<Rightarrow> 'b list \<times> bool) \<Rightarrow> 'a list \<Rightarrow> 'b list \<times> bool" where
  "until_error f [] = ([], True)"
| "until_error f (x # xs) =
     (case f x of
        (ys, False) \<Rightarrow> (ys, False)
      | (ys, True) \<Rightarrow> (case until_error f xs of (zs, done) \<Rightarrow> (ys @ zs, done)))"

definition project_entries :: "store \<Rightarrow> int \<Rightarrow> stamp \<Rightarrow> string \<Rightarrow> string \<Rightarrow> project \<Rightarrow> index_row list \<times> bool" where
  "project_entries s tenantID now projectsRoot relProjects p =
     (let projDir = path_join projectsRoot (p_Name p); relProj = relProjects @ ''/'' @ p_Name p
      in case until_error (\<lambda>v. version_entries s tenantID now projDir relProj (p_Name p) (v_Version v)) (ListVersions s (p_ID p)) of
           (rows, ok) \<Rightarrow>
             (index_entry tenantID now relProj (p_Name p) ''project'' (dirSize s projDir) (p_Name p) [] [] # rows, ok))"

text \<open>The rows that \<open>indexTenantTree\<close> inserts, and whether it reached its end.\<close>

definition tenant_entries :: "store \<Rightarrow> int \<Rightarrow> stamp \<Rightarrow> string \<Rightarrow> index_row list \<times> bool" where
  "tenant_entries s tenantID now slug =
     (let userRoot = path_join (st_dataDir s) (''userdata/'' @ slug);
          relUser = path_join ''userdata'' slug;
          projectsRoot = path_join userRoot ''projects'';
          relProjects = relUser @ ''/projects'';
          top = index_entry tenantID now relUser slug ''tenant'' (dirSize s userRoot) [] [] [];
          folder = (case stat_path s projectsRoot of
                      Some (True, _) \<Rightarrow> [index_entry tenantID now relProjects ''projects'' ''folder'' (dirSize s projectsRoot) [] [] []]
                    | _ \<Rightarrow> [])
      in case until_error (project_entries s tenantID now projectsRoot relProjects) (map fst (ListProjects s tenantID 0 RoleAdmin)) of
           (rows, ok) \<Rightarrow> (top # folder @ rows, ok))"

definition insert_all :: "index_row list \<Rightarrow> index \<Rightarrow> index" where
  "insert_all rows idx = fold index_insert rows idx"

definition indexTenantTree :: "store \<Rightarrow> int \<Rightarrow> stamp \<Rightarrow> index \<Rightarrow> int res \<times> index" where
  "indexTenantTree s tenantID now idx =
     (case TenantByID s tenantID of
        Inl e \<Rightarrow> (Inl e, idx)
      | Inr t \<Rightarrow>
          (case tenant_entries s tenantID now (tn_Slug t) of
             (rows, ok) \<Rightarrow> (if ok then Inr (int (length rows)) else Inl ErrNotExist, insert_all rows idx)))"

text \<open>The ellipsis of a shortened hash is U+2026, three bytes.\<close>

definition blob_entry :: "store \<Rightarrow> stamp \<Rightarrow> blob \<Rightarrow> index_row" where
  "blob_entry s now b =
     index_entry 0 now (case path_rel (st_dataDir s) (blobPath s (b_Hash b)) of None \<Rightarrow> [] | Some r \<Rightarrow> r)
       (take 12 (b_Hash b) @ [CHR 0xE2, CHR 0x80, CHR 0xA6])
       (if b_RefCount b = 0 then ''orphan_blob'' else ''blob'') (b_Size b) [] [] []"

definition blob_entries :: "store \<Rightarrow> stamp \<Rightarrow> index_row list" where
  "blob_entries s now =
     (case stat_path s (blobsRoot s) of
        Some (True, _) \<Rightarrow> [index_entry 0 now ''blobs'' ''blobs'' ''folder'' (dirSize s (blobsRoot s)) [] [] []]
      | _ \<Rightarrow> [])
     @ map (blob_entry s now) (sort_key b_Hash (st_blobs s))"

definition indexBlobs :: "store \<Rightarrow> stamp \<Rightarrow> index \<Rightarrow> int res \<times> index" where
  "indexBlobs s now idx = (let rows = blob_entries s now in (Inr (int (length rows)), insert_all rows idx))"

definition shared_blob_row :: "index_row \<Rightarrow> bool" where
  "shared_blob_row r = (ix_TenantID r = 0 \<and> sql_like None ''blob%'' (ix_Kind r))"

definition RebuildStorageIndex :: "go_time \<Rightarrow> store \<Rightarrow> int \<Rightarrow> index \<Rightarrow> int res \<times> index" where
  "RebuildStorageIndex now s tenantID idx =
     (let idx1 = snd (tbl_delete (\<lambda>r. ix_TenantID r = tenantID) idx);
          idx2 = snd (tbl_delete shared_blob_row idx1)
      in case indexTenantTree s tenantID (format_time now) idx2 of
           (Inl e, idx3) \<Rightarrow> (Inl e, idx3)
         | (Inr entries, idx3) \<Rightarrow>
             (case indexBlobs s (format_time now) idx3 of
                (Inl e, idx4) \<Rightarrow> (Inl e, idx4)
              | (Inr blobCount, idx4) \<Rightarrow> (Inr (entries + blobCount), idx4)))"

record search_hit =
  sh_Path :: string
  sh_Name :: string
  sh_Kind :: string
  sh_SizeBytes :: int
  sh_ProjectName :: string
  sh_Version :: string
  sh_FileRel :: string

definition search_hit_of :: "index_row \<Rightarrow> search_hit" where
  "search_hit_of r = \<lparr>sh_Path = ix_RelPath r, sh_Name = ix_Name r, sh_Kind = ix_Kind r, sh_SizeBytes = ix_SizeBytes r,
     sh_ProjectName = ix_ProjectName r, sh_Version = ix_Version r, sh_FileRel = ix_FileRel r\<rparr>"

definition row_visible :: "int \<Rightarrow> index_row \<Rightarrow> bool" where
  "row_visible tenantID r = (ix_TenantID r = tenantID \<or> shared_blob_row r)"

definition SearchStorageIndex :: "index \<Rightarrow> int \<Rightarrow> string \<Rightarrow> int \<Rightarrow> search_hit list" where
  "SearchStorageIndex idx tenantID query0 limit0 =
     (let query = trim_space query0
      in if query = [] then []
         else
           (let limit = (if limit0 \<le> 0 \<or> limit0 > 200 then 50 else nat limit0);
                pat = [like_any] @ escapeLike query @ [like_any];
                like = sql_like (Some like_esc) pat
            in map search_hit_of (take limit
                 (sort_key ix_Kind (sort_key ix_RelPath
                   (tbl_select (\<lambda>r. row_visible tenantID r
                      \<and> (like (ix_Name r) \<or> like (ix_RelPath r) \<or> like (ix_FileRel r))) idx))))))"

section \<open>Handlers\<close>

text \<open>
  The overview.  The free space of the disk is a parameter and so is the size of the database file, which
  is not one of the files of the store.
\<close>

record storage_overview =
  so_DataDir :: string
  so_TotalBytes :: int
  so_AvailableBytes :: int
  so_Categories :: "(string \<times> int) list"
  so_BlobStats :: blob_stats
  so_IndexEntryCount :: int
  so_IndexUpdatedAt :: stamp
  so_ProjectCount :: int
  so_VersionCount :: int

definition StorageOverviewForTenant :: "int \<Rightarrow> int \<Rightarrow> store \<Rightarrow> index \<Rightarrow> int \<Rightarrow> storage_overview" where
  "StorageOverviewForTenant available dbBytes s idx tenantID =
     (let bytes = (\<lambda>path. case stat_path s path of None \<Rightarrow> 0 | Some (_, n) \<Rightarrow> n);
          cats = [(''userdata'', bytes (path_join (st_dataDir s) ''userdata'')), (''blobs'', bytes (blobsRoot s)),
                  (''database'', dbBytes), (''run'', bytes (path_join (st_dataDir s) ''run''))];
          projects = map fst (ListProjects s tenantID 0 RoleAdmin)
      in \<lparr>so_DataDir = st_dataDir s, so_TotalBytes = sum_list (map snd cats), so_AvailableBytes = available,
          so_Categories = cats, so_BlobStats = BlobStats s,
          so_IndexEntryCount = fst (StorageIndexMeta idx), so_IndexUpdatedAt = snd (StorageIndexMeta idx),
          so_ProjectCount = int (length projects),
          so_VersionCount = sum_list (map (\<lambda>p. int (length (ListVersions s (p_ID p)))) projects)\<rparr>)"

definition handleStorageOverview ::
  "int \<Rightarrow> int \<Rightarrow> go_time \<Rightarrow> api_session option \<Rightarrow> store \<Rightarrow> index \<Rightarrow> storage_overview res \<times> index" where
  "handleStorageOverview available dbBytes now sess s idx =
     (case sess of
        None \<Rightarrow> (Inl (ErrMsg ''login required''), idx)
      | Some u \<Rightarrow>
          (let ov = StorageOverviewForTenant available dbBytes s idx (as_TenantID u)
           in if so_IndexEntryCount ov \<noteq> 0 then (Inr ov, idx)
              else case RebuildStorageIndex now s (as_TenantID u) idx of
                (Inl _, idx1) \<Rightarrow> (Inr ov, idx1)
              | (Inr n, idx1) \<Rightarrow>
                  (Inr (ov\<lparr>so_IndexEntryCount := n, so_IndexUpdatedAt := snd (StorageIndexMeta idx1)\<rparr>), idx1)))"

definition handleStorageTree :: "api_session option \<Rightarrow> string \<Rightarrow> store \<Rightarrow> storage_node res" where
  "handleStorageTree sess path s =
     (case sess of
        None \<Rightarrow> Inl (ErrMsg ''login required'')
      | Some u \<Rightarrow> StorageTreeAt s (as_TenantID u) (trim_space path))"

definition handleStorageSearch :: "go_time \<Rightarrow> api_session option \<Rightarrow> string \<Rightarrow> store \<Rightarrow> index \<Rightarrow> search_hit list res \<times> index" where
  "handleStorageSearch now sess q0 s idx =
     (case sess of
        None \<Rightarrow> (Inl (ErrMsg ''login required''), idx)
      | Some u \<Rightarrow>
          (let q = trim_space q0
           in if q = [] then (Inr [], idx)
              else
                (let idx1 = (if fst (StorageIndexMeta idx) = 0 then snd (RebuildStorageIndex now s (as_TenantID u) idx) else idx)
                 in (Inr (SearchStorageIndex idx1 (as_TenantID u) q 80), idx1))))"

definition handleStorageReindex ::
  "go_time \<Rightarrow> string \<Rightarrow> api_session option \<Rightarrow> store \<Rightarrow> index \<Rightarrow> (int \<times> stamp) res \<times> store \<times> index" where
  "handleStorageReindex now ip sess s idx =
     (case sess of
        None \<Rightarrow> (Inl (ErrMsg ''login required''), s, idx)
      | Some u \<Rightarrow>
          (case RebuildStorageIndex now s (as_TenantID u) idx of
             (Inl e, idx1) \<Rightarrow> (Inl e, s, idx1)
           | (Inr n, idx1) \<Rightarrow>
               (Inr (n, snd (StorageIndexMeta idx1)),
                auditSession now sess ip ''storage.reindex'' (''entries='' @ show_int n) s, idx1)))"

text \<open>Whether the project named in the path exists and refuses the session the right to write it.\<close>

definition project_write_refused :: "store \<Rightarrow> api_session \<Rightarrow> string \<Rightarrow> bool" where
  "project_write_refused s u path =
     (let parts = split_on slash path
      in length parts \<ge> 4
         \<and> (case GetProjectByName s (as_TenantID u) (parts ! 3) of
              Inl _ \<Rightarrow> False
            | Inr p \<Rightarrow> requireProjectWriter s (Some (as_UserID u, as_TenantID u)) (p_ID p) \<noteq> Allowed))"

definition scoped_kind :: "string \<Rightarrow> bool" where
  "scoped_kind kind = (kind = ''version'' \<or> kind = ''project'' \<or> kind = ''file'')"

definition tenant_role :: "store \<Rightarrow> api_session \<Rightarrow> string" where
  "tenant_role s u = (case UserRole s (as_UserID u) of Inl _ \<Rightarrow> [] | Inr r \<Rightarrow> r)"

definition handleStorageDeletePlan :: "api_session option \<Rightarrow> string \<Rightarrow> store \<Rightarrow> storage_plan res" where
  "handleStorageDeletePlan sess path0 s =
     (case sess of
        None \<Rightarrow> Inl (ErrMsg ''login required'')
      | Some u \<Rightarrow>
          (let path = trim_space path0
           in if path = [] then Inl (ErrMsg ''path required'')
              else case PlanStorageDelete s (as_TenantID u) path (tenant_role s u) of
                Inl e \<Rightarrow> Inl e
              | Inr plan \<Rightarrow>
                  Inr (if scoped_kind (sp_Kind plan) \<and> sp_Allowed plan \<and> project_write_refused s u path
                       then plan\<lparr>sp_Allowed := False, sp_DenyReason := Some (Deny ''project write access required'')\<rparr>
                       else plan)))"

definition handleStorageDelete ::
  "(string \<Rightarrow> string) \<Rightarrow> go_time \<Rightarrow> string \<Rightarrow> api_session option \<Rightarrow> string \<Rightarrow> store \<Rightarrow> index \<Rightarrow> unit res \<times> store \<times> index" where
  "handleStorageDelete sha now ip sess path s idx =
     (case sess of
        None \<Rightarrow> (Inl (ErrMsg ''login required''), s, idx)
      | Some u \<Rightarrow>
          if path = [] then (Inl (ErrMsg ''path required''), s, idx)
          else case PlanStorageDelete s (as_TenantID u) path (tenant_role s u) of
            Inl e \<Rightarrow> (Inl e, s, idx)
          | Inr plan \<Rightarrow>
              if scoped_kind (sp_Kind plan) \<and> project_write_refused s u path
              then (Inl (ErrMsg ''project write access required''), s, idx)
              else if \<not> scoped_kind (sp_Kind plan) \<and> tenant_role s u \<noteq> RoleAdmin
              then (Inl (ErrMsg ''admin required''), s, idx)
              else if \<not> sp_Allowed plan then (Inl (ErrMsg (deny_text plan)), s, idx)
              else case ExecuteStorageDelete sha (as_TenantID u) path s of
                (Inl e, s1) \<Rightarrow> (Inl e, s1, idx)
              | (Inr _, s1) \<Rightarrow>
                  (Inr (), auditSession now sess ip ''storage.delete'' (''path='' @ path) s1,
                   snd (RebuildStorageIndex now s1 (as_TenantID u) idx)))"

section \<open>Lemmas\<close>

lemma sql_like_any: "esc \<noteq> Some like_any \<Longrightarrow> sql_like esc (like_any # ps) s \<longleftrightarrow> (\<exists>u v. s = u @ v \<and> sql_like esc ps v)"
proof
  assume "esc \<noteq> Some like_any" "sql_like esc (like_any # ps) s"
  then have "\<exists>n\<in>set [0..<Suc (length s)]. sql_like esc ps (drop n s)" by (simp only: sql_like.simps list_ex_iff if_False simp_thms if_True)
  then obtain n where "sql_like esc ps (drop n s)" by blast
  then show "\<exists>u v. s = u @ v \<and> sql_like esc ps v" using append_take_drop_id [of n s] by metis
next
  assume e: "esc \<noteq> Some like_any" and "\<exists>u v. s = u @ v \<and> sql_like esc ps v"
  then obtain u v where "s = u @ v" "sql_like esc ps v" by blast
  with e show "sql_like esc (like_any # ps) s"
    by (auto simp: list_ex_iff intro!: bexI [of _ "length u"])
qed

lemma sql_like_all: "esc \<noteq> Some like_any \<Longrightarrow> sql_like esc [like_any] s"
  using sql_like_any [of esc "[]" s] by auto

definition like_quote :: "char \<Rightarrow> string" where
  "like_quote c = (if c = like_esc \<or> c = like_any \<or> c = like_one then [like_esc, c] else [c])"

lemma escapeLike_quote: "escapeLike s = concat (map like_quote s)"
  by (induction s) (simp_all add: escapeLike_def replace_char_def like_quote_def)

lemma sql_like_quoted:
  "sql_like (Some like_esc) (concat (map like_quote q) @ ps) s \<longleftrightarrow>
     (\<exists>u v. s = u @ v \<and> lower u = lower q \<and> sql_like (Some like_esc) ps v)"
proof (induction q arbitrary: s)
  case (Cons c q)
  let ?ps = "concat (map like_quote q) @ ps"
  have "sql_like (Some like_esc) (like_quote c @ ?ps) s \<longleftrightarrow>
      (\<exists>d s'. s = d # s' \<and> lower_char d = lower_char c \<and> sql_like (Some like_esc) ?ps s')"
    by (cases s) (auto simp: like_quote_def)
  also have "\<dots> \<longleftrightarrow> (\<exists>d u v. s = d # u @ v \<and> lower (d # u) = lower (c # q) \<and> sql_like (Some like_esc) ps v)"
    unfolding Cons.IH by (auto simp: lower_def)
  also have "\<dots> \<longleftrightarrow> (\<exists>u v. s = u @ v \<and> lower u = lower (c # q) \<and> sql_like (Some like_esc) ps v)"
  proof
    assume "\<exists>u v. s = u @ v \<and> lower u = lower (c # q) \<and> sql_like (Some like_esc) ps v"
    then obtain u v where u: "s = u @ v" "lower u = lower (c # q)" "sql_like (Some like_esc) ps v" by blast
    then obtain d u' where "u = d # u'" by (cases u) (simp_all add: lower_def)
    with u show "\<exists>d u v. s = d # u @ v \<and> lower (d # u) = lower (c # q) \<and> sql_like (Some like_esc) ps v" by auto
  next
    assume "\<exists>d u v. s = d # u @ v \<and> lower (d # u) = lower (c # q) \<and> sql_like (Some like_esc) ps v"
    then show "\<exists>u v. s = u @ v \<and> lower u = lower (c # q) \<and> sql_like (Some like_esc) ps v"
      by (metis append_Cons)
  qed
  finally show ?case by simp
qed (simp add: lower_def)

text \<open>The pattern of a search matches the texts that contain the query up to the case of ASCII letters.\<close>

lemma like_search: "sql_like (Some like_esc) ([like_any] @ escapeLike q @ [like_any]) s \<longleftrightarrow> contains (lower s) (lower q)"
proof -
  have rest: "sql_like (Some like_esc) (escapeLike q @ [like_any]) v \<longleftrightarrow> (\<exists>x y. v = x @ y \<and> lower x = lower q)" for v
    unfolding escapeLike_quote sql_like_quoted using sql_like_all [of "Some like_esc"] by simp
  have "sql_like (Some like_esc) ([like_any] @ escapeLike q @ [like_any]) s \<longleftrightarrow>
      (\<exists>u v w. s = u @ v @ w \<and> lower v = lower q)"
    using sql_like_any [of "Some like_esc" "escapeLike q @ [like_any]" s] unfolding rest by auto
  also have "\<dots> \<longleftrightarrow> (\<exists>u w. lower s = u @ lower q @ w)"
  proof
    assume "\<exists>u w. lower s = u @ lower q @ w"
    then obtain u w where "map lower_char s = u @ lower q @ w" by (auto simp: lower_def)
    then obtain a r where "s = a @ r" "map lower_char r = lower q @ w" by (metis map_eq_append_conv)
    moreover from this(2) obtain b c where "r = b @ c" "lower q = map lower_char b" by (metis map_eq_append_conv)
    ultimately have "s = a @ b @ c \<and> lower b = lower q" by (simp add: lower_def)
    then show "\<exists>u v w. s = u @ v @ w \<and> lower v = lower q" by blast
  next
    assume "\<exists>u v w. s = u @ v @ w \<and> lower v = lower q"
    then obtain u v w where "s = u @ v @ w" "lower v = lower q" by blast
    then have "lower s = lower u @ lower q @ lower w" by (simp add: lower_def)
    then show "\<exists>u w. lower s = u @ lower q @ w" by blast
  qed
  finally show ?thesis by (simp add: contains_iff)
qed

text \<open>Which of the shared rows a rebuild removes and a search shows: only those of kind \<open>blob\<close>.\<close>

lemma shared_kinds:
  "sql_like None ''blob%'' ''blob''" "\<not> sql_like None ''blob%'' ''orphan_blob''" "\<not> sql_like None ''blob%'' ''folder''"
  by code_simp+

lemma trows_insert_all:
  "\<exists>rs. trows (insert_all rows idx) = trows idx @ rs \<and> map (\<lambda>r. r\<lparr>ix_ID := 0\<rparr>) rs = map (\<lambda>r. r\<lparr>ix_ID := 0\<rparr>) rows"
proof (induction rows arbitrary: idx)
  case (Cons r rows)
  have one: "trows (index_insert r idx) = trows idx @ [r\<lparr>ix_ID := tnext idx\<rparr>]"
    by (simp add: index_insert_def tbl_insert_def no_conflict_def list_ex_iff)
  from Cons.IH [of "index_insert r idx"] obtain rs where
    rs: "trows (insert_all (r # rows) idx) = trows (index_insert r idx) @ rs"
      "map (\<lambda>r. r\<lparr>ix_ID := 0\<rparr>) rs = map (\<lambda>r. r\<lparr>ix_ID := 0\<rparr>) rows"
    by (auto simp: insert_all_def)
  show ?case by (rule exI [of _ "r\<lparr>ix_ID := tnext idx\<rparr> # rs"]) (use one rs in simp)
qed (simp add: insert_all_def)

definition sans_id :: "index_row \<Rightarrow> index_row" where
  "sans_id r = r\<lparr>ix_ID := 0\<rparr>"

lemma map_sans_id_insert_all: "map sans_id (trows (insert_all rows idx)) = map sans_id (trows idx) @ map sans_id rows"
  using trows_insert_all [of rows idx] by (auto simp: sans_id_def [abs_def])

lemma rebuild_rows:
  assumes "RebuildStorageIndex now s tenantID idx = (Inr n, idx')"
  obtains t rows where "TenantByID s tenantID = Inr t" "tenant_entries s tenantID (format_time now) (tn_Slug t) = (rows, True)"
    "map sans_id (trows idx') = map sans_id (filter (\<lambda>r. \<not> row_visible tenantID r) (trows idx))
       @ map sans_id rows @ map sans_id (blob_entries s (format_time now))"
    "n = int (length rows + length (blob_entries s (format_time now)))"
proof -
  let ?kept = "snd (tbl_delete shared_blob_row (snd (tbl_delete (\<lambda>r. ix_TenantID r = tenantID) idx)))"
  obtain t where t: "TenantByID s tenantID = Inr t"
    using assms by (auto simp: RebuildStorageIndex_def indexTenantTree_def Let_def split: sum.splits)
  obtain rows ok where rows: "tenant_entries s tenantID (format_time now) (tn_Slug t) = (rows, ok)" by fastforce
  from assms t rows have ok: ok and n: "n = int (length rows) + int (length (blob_entries s (format_time now)))"
    and idx': "idx' = insert_all (blob_entries s (format_time now)) (insert_all rows ?kept)"
    by (auto simp: RebuildStorageIndex_def indexTenantTree_def indexBlobs_def Let_def split: if_splits)
  have "trows ?kept = filter (\<lambda>r. \<not> row_visible tenantID r) (trows idx)"
    by (simp add: row_visible_def filter_filter conj_commute)
  then show thesis using that [OF t] rows ok n by (simp add: idx' map_sans_id_insert_all)
qed

section \<open>Properties\<close>

text \<open>
  C29: deleting a blob is not confined to the blobs: an administrator of any tenant deletes any regular
  file below the data directory, such as a file of another tenant's published version, by naming it
  behind \<open>blobs/..\<close>; only the name of a blob that is in use is refused.
\<close>

theorem storage_delete_escapes:
  assumes "is_abs (st_dataDir s)" "TenantByID s (as_TenantID u) = Inr ten" "UserRole s (as_UserID u) = Inr RoleAdmin"
    and "ws \<noteq> []" "\<forall>w\<in>set ws. comp_ok w \<and> w \<noteq> ''..''" "trim_space (blob_escape ws) = blob_escape ws"
    and "path = render True (path_comps (st_dataDir s) @ ws)" "map_of (st_files s) path = Some c" "ref_count s (last ws) \<le> 0"
  shows "\<exists>s' idx'. handleStorageDelete sha now ip (Some u) (blob_escape ws) s idx = (Inr (), s', idx')
    \<and> st_files s' = al_del path (st_files s)"
proof -
  note esc = blob_escape_path [OF assms(1,4,5)]
  have full: "path_join (st_dataDir s) (blob_escape ws) = path" using esc(1) assms(7) by simp
  have within: "pathWithin (st_dataDir s) path" unfolding assms(7) by (rule within_below [OF assms(1,5)])
  have stat: "stat_path s path = Some (False, int (length c))" using assms(8) by (simp add: stat_path_def)
  have kind: "inferTreeKind (blob_escape ws) False = ''blob''" by (simp add: inferTreeKind_def esc(3) Let_def)
  have prefix: "has_prefix (blob_escape ws) ''blobs/''" by (simp add: blob_escape_def has_prefix_def)
  have base: "path_base path = last ws"
    unfolding assms(7) using assms(4,5) path_comps_ok [of _ "st_dataDir s"] by (subst path_base_render) auto
  have plan: "\<exists>plan. PlanStorageDelete s (as_TenantID u) (blob_escape ws) RoleAdmin = Inr plan
      \<and> sp_Kind plan = ''blob'' \<and> sp_Allowed plan"
    using assms(9) within stat prefix
    by (cases "find_blob s (last ws)")
      (simp_all add: PlanStorageDelete_def assms(2,6) esc(2) full kind base plan_blob_def Let_def ref_count_def)
  then obtain plan where plan: "PlanStorageDelete s (as_TenantID u) (blob_escape ws) RoleAdmin = Inr plan"
    "sp_Kind plan = ''blob''" "sp_Allowed plan" by blast
  let ?s1 = "s\<lparr>st_files := al_del path (st_files s),
      st_blobs := filter (\<lambda>b. \<not> (b_Hash b = path_base path \<and> b_RefCount b = 0)) (st_blobs s)\<rparr>"
  have exec: "ExecuteStorageDelete sha (as_TenantID u) (blob_escape ws) s = (Inr (), ?s1)"
    using plan assms(8) by (simp add: ExecuteStorageDelete_def full os_remove_def Let_def)
  have "blob_escape ws \<noteq> []" by (simp add: blob_escape_def)
  then show ?thesis
    using plan exec by (simp add: handleStorageDelete_def tenant_role_def scoped_kind_def assms(3) Let_def auditSession_def RecordAudit_def)
qed

definition sample_shared :: store where
  "sample_shared = (empty_store ''/d'')\<lparr>
     st_tenants := \<lparr>trows = [\<lparr>tn_ID = 7, tn_Slug = ''acme'', tn_Name = ''Acme'', tn_CreatedAt = None\<rparr>], tnext = 8\<rparr>,
     st_users := \<lparr>trows = [\<lparr>u_ID = 3, u_Username = ''ann'', u_PasswordHash = [], u_Role = [], u_IsAdmin = 1, u_TenantID = 7,
       u_Token = [], u_AuthVersion = 0, u_CreatedAt = None\<rparr>], tnext = 4\<rparr>,
     st_blobs := [\<lparr>b_Hash = ''aa'', b_Size = 5, b_RefCount = 0, b_CreatedAt = None\<rparr>],
     st_files := [(''/d/userdata/other/projects/p/1.0.0/app.yaml'', ''a: 1'')]\<rparr>"

definition sample_session :: api_session where
  "sample_session = \<lparr>as_UserID = 3, as_Username = ''ann'', as_TenantID = 7\<rparr>"

lemma storage_delete_escapes_witness:
  "st_files (fst (snd (handleStorageDelete sample_sha 0 [] (Some sample_session)
     ''blobs/../userdata/other/projects/p/1.0.0/app.yaml'' sample_shared empty_table))) = []"
proof -
  let ?ws = "[''userdata'', ''other'', ''projects'', ''p'', ''1.0.0'', ''app.yaml'']"
  have esc: "blob_escape ?ws = ''blobs/../userdata/other/projects/p/1.0.0/app.yaml''" by (simp add: blob_escape_def)
  have dir: "st_dataDir sample_shared = ''/d''" by (simp add: sample_shared_def empty_store_def)
  have "TenantByID sample_shared (as_TenantID sample_session)
      = Inr \<lparr>tn_ID = 7, tn_Slug = ''acme'', tn_Name = ''Acme'', tn_CreatedAt = None\<rparr>"
    by (simp add: TenantByID_def sample_shared_def sample_session_def empty_store_def tbl_row_def)
  moreover have "UserRole sample_shared (as_UserID sample_session) = Inr RoleAdmin"
    by (simp add: UserRole_def sample_shared_def sample_session_def empty_store_def tbl_row_def)
  moreover have "is_abs (st_dataDir sample_shared)" unfolding dir by code_simp
  moreover have "list_all (\<lambda>w. comp_ok w \<and> w \<noteq> ''..'') ?ws" by code_simp
  then have "\<forall>w\<in>set ?ws. comp_ok w \<and> w \<noteq> ''..''" by (simp only: list_all_iff)
  moreover have "trim_space (blob_escape ?ws) = blob_escape ?ws" unfolding esc by code_simp
  moreover have "''/d/userdata/other/projects/p/1.0.0/app.yaml'' = render True (path_comps (st_dataDir sample_shared) @ ?ws)"
    unfolding dir by code_simp
  moreover have "map_of (st_files sample_shared) ''/d/userdata/other/projects/p/1.0.0/app.yaml'' = Some ''a: 1''"
    by (simp add: sample_shared_def)
  moreover have "ref_count sample_shared (last ?ws) \<le> 0"
    by (simp add: ref_count_def find_blob_def sample_shared_def)
  ultimately obtain s' idx' where
    "handleStorageDelete sample_sha 0 [] (Some sample_session) (blob_escape ?ws) sample_shared empty_table = (Inr (), s', idx')"
    "st_files s' = al_del ''/d/userdata/other/projects/p/1.0.0/app.yaml'' (st_files sample_shared)"
    using storage_delete_escapes [of sample_shared sample_session _ ?ws "''/d/userdata/other/projects/p/1.0.0/app.yaml''" "''a: 1''"
        sample_sha 0 "[]" empty_table] by blast
  then show ?thesis by (simp add: esc sample_shared_def al_del_def)
qed

text \<open>
  A search returns, of the rows the tenant may see, the first ones in the order of kind and path whose
  name, path or file name contains the query literally up to the case of ASCII letters, whatever wildcards
  and escapes the query holds.
\<close>

theorem search_is_substring:
  "SearchStorageIndex idx tenantID query limit =
     (let q = lower (trim_space query);
          hit = (\<lambda>r. contains (lower (ix_Name r)) q \<or> contains (lower (ix_RelPath r)) q \<or> contains (lower (ix_FileRel r)) q)
      in if q = [] then []
         else map search_hit_of (take (if limit \<le> 0 \<or> limit > 200 then 50 else nat limit)
           (sort_key ix_Kind (sort_key ix_RelPath (filter (\<lambda>r. row_visible tenantID r \<and> hit r) (trows idx))))))"
  unfolding SearchStorageIndex_def like_search Let_def tbl_select_def by simp

definition stale_row :: "index_row \<Rightarrow> bool" where
  "stale_row r = (ix_TenantID r = 0 \<and> \<not> shared_blob_row r)"

lemma stale_sans_id: "length (filter stale_row rows) = length (filter stale_row (map sans_id rows))"
proof -
  have "stale_row (sans_id r) = stale_row r" for r by (simp add: stale_row_def shared_blob_row_def sans_id_def)
  then have "filter stale_row (map sans_id rows) = map sans_id (filter stale_row rows)" by (simp add: filter_map o_def)
  then show ?thesis by simp
qed

lemma blob_entries_stale:
  "length (filter stale_row (map sans_id (blob_entries s now))) =
     (case stat_path s (blobsRoot s) of Some (True, _) \<Rightarrow> 1 | _ \<Rightarrow> 0) + length (filter (\<lambda>b. b_RefCount b = 0) (st_blobs s))"
proof -
  have one: "stale_row (sans_id (blob_entry s now b)) = (b_RefCount b = 0)" for b
    using shared_kinds by (simp add: stale_row_def shared_blob_row_def sans_id_def blob_entry_def index_entry_def del: sql_like.simps)
  have "length (filter stale_row (map sans_id (map (blob_entry s now) bs))) = length (filter (\<lambda>b. b_RefCount b = 0) bs)" for bs
    by (induction bs) (simp_all add: one)
  moreover have "length (filter P (sort_key f bs)) = length (filter P bs)" for P and f :: "blob \<Rightarrow> string" and bs
    by (simp add: filter_sort)
  moreover have "stale_row (sans_id (index_entry 0 now ''blobs'' ''blobs'' ''folder'' n [] [] []))" for n
    using shared_kinds by (simp add: stale_row_def shared_blob_row_def sans_id_def index_entry_def del: sql_like.simps)
  ultimately show ?thesis by (simp add: blob_entries_def del: map_map split: option.split bool.split)
qed

lemma until_error_all:
  assumes "until_error f xs = (zs, ok)" "\<And>x ys b z. f x = (ys, b) \<Longrightarrow> z \<in> set ys \<Longrightarrow> P z" "z \<in> set zs"
  shows "P z"
  using assms(1,3)
proof (induction xs arbitrary: zs ok)
  case (Cons x xs)
  obtain ys b where f: "f x = (ys, b)" by fastforce
  obtain ws c where u: "until_error f xs = (ws, c)" by fastforce
  from Cons.prems f u have "z \<in> set ys \<or> z \<in> set ws" by (auto split: bool.splits)
  with assms(2) [OF f] Cons.IH [OF u] show ?case by blast
qed simp

lemma tenant_entries_tenant:
  assumes "tenant_entries s tenantID now slug = (rows, ok)" "r \<in> set rows"
  shows "ix_TenantID r = tenantID"
proof -
  have v: "ix_TenantID z = tenantID" if "version_entries s tenantID now d rp pn ver = (ys, b)" "z \<in> set ys" for d rp pn ver ys b z
    using that by (auto simp: version_entries_def index_entry_def Let_def split: if_splits)
  have p: "ix_TenantID z = tenantID" if "project_entries s tenantID now pr rp p = (ys, b)" "z \<in> set ys" for pr rp p ys b z
  proof -
    obtain vs c where vs: "until_error (\<lambda>v. version_entries s tenantID now (path_join pr (p_Name p)) (rp @ ''/'' @ p_Name p) (p_Name p)
        (v_Version v)) (ListVersions s (p_ID p)) = (vs, c)" by fastforce
    have "w \<in> set vs \<Longrightarrow> ix_TenantID w = tenantID" for w by (rule until_error_all [OF vs]) (rule v)
    with that vs show ?thesis by (auto simp: project_entries_def index_entry_def Let_def)
  qed
  obtain ps c where ps: "until_error (project_entries s tenantID now (path_join (path_join (st_dataDir s) (''userdata/'' @ slug)) ''projects'')
      (path_join ''userdata'' slug @ ''/projects'')) (map fst (ListProjects s tenantID 0 RoleAdmin)) = (ps, c)" by fastforce
  have "w \<in> set ps \<Longrightarrow> ix_TenantID w = tenantID" for w by (rule until_error_all [OF ps]) (rule p)
  with assms ps show ?thesis
    by (auto simp: tenant_entries_def index_entry_def Let_def split: option.splits bool.splits)
qed

text \<open>
  Every rebuild of the search index leaves the rows of unreferenced blobs and of the blob directory of all
  rebuilds before it and writes them anew, so that the index grows without bound; and no search of a tenant
  ever shows them.
\<close>

theorem index_leaks:
  assumes "RebuildStorageIndex now s tenantID idx = (Inr n, idx')" "tenantID \<noteq> 0"
  shows "length (filter stale_row (trows idx')) = length (filter stale_row (trows idx))
       + (case stat_path s (blobsRoot s) of Some (True, _) \<Rightarrow> 1 | _ \<Rightarrow> 0)
       + length (filter (\<lambda>b. b_RefCount b = 0) (st_blobs s))
     \<and> (\<forall>r\<in>set (trows idx'). stale_row r \<longrightarrow> \<not> row_visible tenantID r)"
proof -
  obtain t :: tenant and rows where
    rows: "tenant_entries s tenantID (format_time now) (tn_Slug t) = (rows, True)" and
    idx': "map sans_id (trows idx') = map sans_id (filter (\<lambda>r. \<not> row_visible tenantID r) (trows idx))
       @ map sans_id rows @ map sans_id (blob_entries s (format_time now))"
    using that by (rule rebuild_rows [OF assms(1)])
  have hidden: "stale_row r \<Longrightarrow> \<not> row_visible tenantID r" for r using assms(2) by (auto simp: stale_row_def row_visible_def)
  then have kept: "filter stale_row (filter (\<lambda>r. \<not> row_visible tenantID r) xs) = filter stale_row xs" for xs
    by (induction xs) auto
  have "length (filter stale_row (map sans_id rows)) = 0"
    using tenant_entries_tenant [OF rows] assms(2) by (auto simp: filter_empty_conv stale_row_def sans_id_def)
  moreover have "length (filter stale_row (map sans_id (filter (\<lambda>r. \<not> row_visible tenantID r) (trows idx))))
      = length (filter stale_row (trows idx))"
    unfolding stale_sans_id [symmetric] kept ..
  ultimately have "length (filter stale_row (trows idx')) = length (filter stale_row (trows idx))
       + length (filter stale_row (map sans_id (blob_entries s (format_time now))))"
    unfolding stale_sans_id [of "trows idx'"] idx' filter_append length_append by linarith
  with hidden show ?thesis unfolding blob_entries_stale by auto
qed

lemma index_leaks_witness:
  "length (filter stale_row (trows (snd (RebuildStorageIndex 0 sample_shared 7
     (snd (RebuildStorageIndex 0 sample_shared 7 empty_table)))))) = 2"
proof -
  let ?i1 = "snd (RebuildStorageIndex 0 sample_shared 7 empty_table)"
  have "is_ok (fst (RebuildStorageIndex 0 sample_shared 7 empty_table))" by code_simp
  then obtain n1 where 1: "RebuildStorageIndex 0 sample_shared 7 empty_table = (Inr n1, ?i1)"
    by (cases "RebuildStorageIndex 0 sample_shared 7 empty_table") (auto simp: is_ok_def split: sum.splits)
  let ?i2 = "snd (RebuildStorageIndex 0 sample_shared 7 ?i1)"
  have "is_ok (fst (RebuildStorageIndex 0 sample_shared 7 ?i1))" by code_simp
  then obtain n2 where 2: "RebuildStorageIndex 0 sample_shared 7 ?i1 = (Inr n2, ?i2)"
    by (cases "RebuildStorageIndex 0 sample_shared 7 ?i1") (auto simp: is_ok_def split: sum.splits)
  have "stat_path sample_shared (blobsRoot sample_shared) = None" by code_simp
  with index_leaks [OF 1] index_leaks [OF 2] show ?thesis by (simp add: sample_shared_def empty_table_def)
qed

end
