(* ===== verification/ServerConfig.thy ===== *)
theory ServerConfig
  imports Overrides Members AuditLog LoginGuard
begin

text \<open>
  The API server's state beside the store and its copy of every tenant's \<open>server.yaml\<close>
  (\<open>internal/api/tenant_ctx.go\<close>, \<open>handlers_server_yaml.go\<close>, \<open>ServerYAMLPath\<close> of
  \<open>internal/store/migrate_tenant.go\<close>, \<open>LoadServerFile\<close> of \<open>internal/config/server.go\<close>).  The YAML codec is a
  parameter: \<open>unmarshal\<close> yields the decoded servers, none for a file without any, and \<open>marshal\<close> their text.
  A nil file or a nil map of servers is the empty list.
\<close>

section \<open>State\<close>

record session =
  ss_UserID :: int
  ss_Username :: string
  ss_IsAdmin :: bool
  ss_AuthVersion :: int
  ss_TenantID :: int
  ss_TenantSlug :: string
  ss_Expires :: go_time

text \<open>The store, the files the server has loaded and the sessions it holds in memory.\<close>

record api_state =
  ap_store :: store
  ap_servers :: "(int \<times> server_file) list"
  ap_sessions :: "(string \<times> session) list"

record yaml_codec =
  yc_unmarshal :: "string \<Rightarrow> server_file option"
  yc_marshal :: "server_file \<Rightarrow> string option"

section \<open>The file of a tenant\<close>

definition ServerYAMLPath :: "int \<Rightarrow> store \<Rightarrow> string res \<times> store" where
  "ServerYAMLPath tenantID s =
     (case TenantByID s tenantID of
        Inl e \<Rightarrow> (Inl e, s)
      | Inr t \<Rightarrow>
          (let dir = path_join (st_dataDir s) (''userdata/'' @ tn_Slug t)
           in (Inr (path_join dir ''server.yaml''), mkdir_all dir s)))"

definition LoadServerFile :: "yaml_codec \<Rightarrow> string \<Rightarrow> store \<Rightarrow> server_file res" where
  "LoadServerFile yaml path s =
     (case map_of (st_files s) path of
        None \<Rightarrow> Inl ErrNotExist
      | Some data \<Rightarrow> (case yc_unmarshal yaml data of None \<Rightarrow> Inl (ErrMsg ''parse server config'') | Some sf \<Rightarrow> Inr sf))"

definition loadServerFile :: "yaml_codec \<Rightarrow> int \<Rightarrow> store \<Rightarrow> server_file \<times> store" where
  "loadServerFile yaml tenantID s =
     (case ServerYAMLPath tenantID s of
        (Inl _, s1) \<Rightarrow> ([], s1)
      | (Inr path, s1) \<Rightarrow> (case LoadServerFile yaml path s1 of Inl _ \<Rightarrow> ([], s1) | Inr sf \<Rightarrow> (sf, s1)))"

definition getServerFile :: "yaml_codec \<Rightarrow> int \<Rightarrow> api_state \<Rightarrow> server_file \<times> api_state" where
  "getServerFile yaml tenantID st =
     (case map_of (ap_servers st) tenantID of
        Some sf \<Rightarrow> (sf, st)
      | None \<Rightarrow> (case loadServerFile yaml tenantID (ap_store st) of (sf, s1) \<Rightarrow> (sf, st\<lparr>ap_store := s1\<rparr>)))"

definition reloadServerYAML :: "yaml_codec \<Rightarrow> int \<Rightarrow> api_state \<Rightarrow> api_state" where
  "reloadServerYAML yaml tenantID st =
     (case loadServerFile yaml tenantID (ap_store st) of
        (sf, s1) \<Rightarrow> st\<lparr>ap_store := s1, ap_servers := al_put tenantID sf (ap_servers st)\<rparr>)"

text \<open>\<open>frozen\<close>: \<open>pushConfigMu\<close> is held by a deployment, so \<open>TryLock\<close> fails.\<close>

definition ReloadAllServerYAML :: "yaml_codec \<Rightarrow> bool \<Rightarrow> api_state \<Rightarrow> unit res \<times> api_state" where
  "ReloadAllServerYAML yaml frozen st =
     (if frozen then (Inl (ErrMsg ''server configuration is frozen by an active deployment''), st)
      else
        (let tenants = ListTenants (ap_store st)
         in (Inr (), if tenants = [] then reloadServerYAML yaml 1 st
                     else fold (\<lambda>t. reloadServerYAML yaml (tn_ID t)) tenants st)))"

definition pullTenant :: "store \<Rightarrow> string \<Rightarrow> (int \<times> string) option" where
  "pullTenant s token =
     (case LookupPullToken s token of
        Inl _ \<Rightarrow> None
      | Inr (uid, tid) \<Rightarrow> Some (tid, case GetUserByID s uid of Inl _ \<Rightarrow> [] | Inr u \<Rightarrow> u_Username u))"

text \<open>The file as it is on disk; a missing file is an empty one, an unreadable one an error.\<close>

definition tenantServerFile :: "yaml_codec \<Rightarrow> int \<Rightarrow> store \<Rightarrow> server_file res \<times> store" where
  "tenantServerFile yaml tenantID s =
     (case ServerYAMLPath tenantID s of
        (Inl e, s1) \<Rightarrow> (Inl e, s1)
      | (Inr path, s1) \<Rightarrow>
          (case map_of (st_files s1) path of
             None \<Rightarrow> (Inr [], s1)
           | Some data \<Rightarrow> (case yc_unmarshal yaml data of None \<Rightarrow> (Inl (ErrMsg ''yaml''), s1) | Some sf \<Rightarrow> (Inr sf, s1))))"

definition write_file :: "string \<Rightarrow> string \<Rightarrow> store \<Rightarrow> store" where
  "write_file path data s = s\<lparr>st_files := al_put path data (st_files s)\<rparr>"

definition saveTenantServerFile :: "yaml_codec \<Rightarrow> int \<Rightarrow> server_file \<Rightarrow> api_state \<Rightarrow> unit res \<times> api_state" where
  "saveTenantServerFile yaml tenantID sf st =
     (case Validate sf of
        Inl e \<Rightarrow> (Inl e, st)
      | Inr _ \<Rightarrow>
          (case ServerYAMLPath tenantID (ap_store st) of
             (Inl e, s1) \<Rightarrow> (Inl e, st\<lparr>ap_store := s1\<rparr>)
           | (Inr path, s1) \<Rightarrow>
               (case yc_marshal yaml sf of
                  None \<Rightarrow> (Inl (ErrMsg ''yaml''), st\<lparr>ap_store := s1\<rparr>)
                | Some data \<Rightarrow> (Inr (), reloadServerYAML yaml tenantID (st\<lparr>ap_store := write_file path data s1\<rparr>)))))"

section \<open>Handlers\<close>

definition on_store :: "(store \<Rightarrow> store) \<Rightarrow> api_state \<Rightarrow> api_state" where
  "on_store f st = st\<lparr>ap_store := f (ap_store st)\<rparr>"

definition handleGetServerYAML :: "api_session option \<Rightarrow> store \<Rightarrow> string res \<times> store" where
  "handleGetServerYAML sess s =
     (case sess of
        None \<Rightarrow> (Inl (ErrMsg ''login required''), s)
      | Some u \<Rightarrow>
          (case ServerYAMLPath (as_TenantID u) s of
             (Inl e, s1) \<Rightarrow> (Inl e, s1)
           | (Inr path, s1) \<Rightarrow>
               (Inr (case map_of (st_files s1) path of None \<Rightarrow> ''servers: {}'' @ [CHR 0x0A] | Some data \<Rightarrow> data), s1)))"

text \<open>The body is the decoded \<open>content\<close>, none when the request is not valid JSON.\<close>

definition handlePutServerYAML ::
  "yaml_codec \<Rightarrow> bool \<Rightarrow> go_time \<Rightarrow> string \<Rightarrow> api_session option \<Rightarrow> string option \<Rightarrow> api_state \<Rightarrow> unit res \<times> api_state" where
  "handlePutServerYAML yaml frozen now ip sess body st =
     (if frozen then (Inl (ErrMsg ''server configuration is frozen by an active deployment''), st)
      else case body of
        None \<Rightarrow> (Inl (ErrMsg ''invalid body''), st)
      | Some content \<Rightarrow>
          (case yc_unmarshal yaml content of
             None \<Rightarrow> (Inl (ErrMsg ''invalid yaml''), st)
           | Some sf \<Rightarrow>
               (case Validate sf of
                  Inl e \<Rightarrow> (Inl e, st)
                | Inr _ \<Rightarrow>
                    (case sess of
                       None \<Rightarrow> (Inl (ErrMsg ''login required''), st)
                     | Some u \<Rightarrow>
                         (case ServerYAMLPath (as_TenantID u) (ap_store st) of
                            (Inl e, s1) \<Rightarrow> (Inl e, st\<lparr>ap_store := s1\<rparr>)
                          | (Inr path, s1) \<Rightarrow>
                              (Inr (), on_store (auditSession now sess ip ''server_yaml.update''
                                                   (''bytes='' @ show_int (int (length content))))
                                 (reloadServerYAML yaml (as_TenantID u) (st\<lparr>ap_store := write_file path content s1\<rparr>))))))))"

definition handleListServerEntries ::
  "yaml_codec \<Rightarrow> api_session option \<Rightarrow> store \<Rightarrow> (string \<times> server_entry) list res \<times> store" where
  "handleListServerEntries yaml sess s =
     (case sess of
        None \<Rightarrow> (Inl (ErrMsg ''login required''), s)
      | Some u \<Rightarrow>
          (case tenantServerFile yaml (as_TenantID u) s of
             (Inl e, s1) \<Rightarrow> (Inl e, s1)
           | (Inr sf, s1) \<Rightarrow>
               (Inr (concat (map (\<lambda>sid. case map_of sf sid of None \<Rightarrow> [] | Some e \<Rightarrow> [(sid, e)]) (ServerIDs sf))), s1)))"

definition handleGetServerEntry ::
  "yaml_codec \<Rightarrow> api_session option \<Rightarrow> string \<Rightarrow> store \<Rightarrow> (string \<times> server_entry) res \<times> store" where
  "handleGetServerEntry yaml sess serverID s =
     (case sess of
        None \<Rightarrow> (Inl (ErrMsg ''login required''), s)
      | Some u \<Rightarrow>
          (case tenantServerFile yaml (as_TenantID u) s of
             (Inl e, s1) \<Rightarrow> (Inl e, s1)
           | (Inr sf, s1) \<Rightarrow>
               (case map_of sf serverID of
                  None \<Rightarrow> (Inl (ErrMsg ''server not found''), s1)
                | Some entry \<Rightarrow> (Inr (serverID, entry), s1))))"

definition handlePutServerEntry ::
  "yaml_codec \<Rightarrow> bool \<Rightarrow> go_time \<Rightarrow> string \<Rightarrow> api_session option \<Rightarrow> string \<Rightarrow> server_entry option \<Rightarrow> api_state \<Rightarrow>
     (string \<times> server_entry) res \<times> api_state" where
  "handlePutServerEntry yaml frozen now ip sess serverID body st =
     (if frozen then (Inl (ErrMsg ''server configuration is frozen by an active deployment''), st)
      else case sess of
        None \<Rightarrow> (Inl (ErrMsg ''login required''), st)
      | Some u \<Rightarrow>
          if serverID = [] then (Inl (ErrMsg ''server_id required''), st)
          else case body of
            None \<Rightarrow> (Inl (ErrMsg ''invalid body''), st)
          | Some entry \<Rightarrow>
              (case tenantServerFile yaml (as_TenantID u) (ap_store st) of
                 (Inl e, s1) \<Rightarrow> (Inl e, st\<lparr>ap_store := s1\<rparr>)
               | (Inr sf, s1) \<Rightarrow>
                   (case saveTenantServerFile yaml (as_TenantID u) (al_put serverID entry sf) (st\<lparr>ap_store := s1\<rparr>) of
                      (Inl e, st1) \<Rightarrow> (Inl e, st1)
                    | (Inr _, st1) \<Rightarrow>
                        (Inr (serverID, entry),
                         on_store (auditSession now sess ip ''server.entry.upsert'' (''server_id='' @ serverID)) st1))))"

definition handleDeleteServerEntry ::
  "yaml_codec \<Rightarrow> bool \<Rightarrow> go_time \<Rightarrow> string \<Rightarrow> api_session option \<Rightarrow> string \<Rightarrow> api_state \<Rightarrow> unit res \<times> api_state" where
  "handleDeleteServerEntry yaml frozen now ip sess serverID st =
     (if frozen then (Inl (ErrMsg ''server configuration is frozen by an active deployment''), st)
      else case sess of
        None \<Rightarrow> (Inl (ErrMsg ''login required''), st)
      | Some u \<Rightarrow>
          (case tenantServerFile yaml (as_TenantID u) (ap_store st) of
             (Inl e, s1) \<Rightarrow> (Inl e, st\<lparr>ap_store := s1\<rparr>)
           | (Inr sf, s1) \<Rightarrow>
               if map_of sf serverID = None then (Inl (ErrMsg ''server not found''), st\<lparr>ap_store := s1\<rparr>)
               else
                 (case saveTenantServerFile yaml (as_TenantID u) (al_del serverID sf) (st\<lparr>ap_store := s1\<rparr>) of
                    (Inl e, st1) \<Rightarrow> (Inl e, st1)
                  | (Inr _, st1) \<Rightarrow>
                      (Inr (), on_store (auditSession now sess ip ''server.entry.delete'' (''server_id='' @ serverID)) st1))))"

section \<open>Lemmas\<close>

lemma ServerYAMLPath_frame:
  "st_files (snd (ServerYAMLPath t s)) = st_files s" "st_tenants (snd (ServerYAMLPath t s)) = st_tenants s"
  "st_dataDir (snd (ServerYAMLPath t s)) = st_dataDir s"
  by (auto simp: ServerYAMLPath_def mkdir_all_def Let_def split: sum.split)

text \<open>The path depends on the tenants and the data directory only.\<close>

lemma ServerYAMLPath_cong:
  "st_tenants s = st_tenants s' \<Longrightarrow> st_dataDir s = st_dataDir s' \<Longrightarrow> fst (ServerYAMLPath t s) = fst (ServerYAMLPath t s')"
  by (auto simp: ServerYAMLPath_def TenantByID_def Let_def split: sum.split)

definition server_map :: "yaml_codec \<Rightarrow> api_state \<Rightarrow> int \<Rightarrow> string \<Rightarrow> server_entry option" where
  "server_map yaml st tenantID =
     (case fst (tenantServerFile yaml tenantID (ap_store st)) of Inl _ \<Rightarrow> Map.empty | Inr sf \<Rightarrow> map_of sf)"

text \<open>What the deployments of a tenant read.\<close>

definition loaded_map :: "yaml_codec \<Rightarrow> api_state \<Rightarrow> int \<Rightarrow> string \<Rightarrow> server_entry option" where
  "loaded_map yaml st tenantID = map_of (fst (getServerFile yaml tenantID st))"

text \<open>The codec keeps this file: what is written is read back with the same entries.\<close>

definition codec_keeps :: "yaml_codec \<Rightarrow> server_file \<Rightarrow> bool" where
  "codec_keeps yaml sf =
     (\<exists>data sf'. yc_marshal yaml sf = Some data \<and> yc_unmarshal yaml data = Some sf' \<and> map_of sf' = map_of sf)"

definition server_path :: "int \<Rightarrow> store \<Rightarrow> string res" where
  "server_path tenantID s = fst (ServerYAMLPath tenantID s)"

lemma ServerYAMLPath_pair: "ServerYAMLPath t s = (server_path t s, snd (ServerYAMLPath t s))"
  by (simp add: server_path_def)

text \<open>The file of a tenant depends on its path and the files of the store only.\<close>

definition file_of :: "yaml_codec \<Rightarrow> string res \<Rightarrow> (string \<times> string) list \<Rightarrow> server_file res" where
  "file_of yaml path files =
     (case path of
        Inl e \<Rightarrow> Inl e
      | Inr p \<Rightarrow>
          (case map_of files p of
             None \<Rightarrow> Inr []
           | Some data \<Rightarrow> (case yc_unmarshal yaml data of None \<Rightarrow> Inl (ErrMsg ''yaml'') | Some sf \<Rightarrow> Inr sf)))"

lemma tenantServerFile_pair:
  "tenantServerFile yaml t s = (file_of yaml (server_path t s) (st_files s), snd (ServerYAMLPath t s))"
  using ServerYAMLPath_frame [of t s]
  by (cases "ServerYAMLPath t s")
    (auto simp: tenantServerFile_def file_of_def server_path_def split: sum.split option.split)

lemma loadServerFile_pair:
  "fst (loadServerFile yaml t s) = (case file_of yaml (server_path t s) (st_files s) of Inl _ \<Rightarrow> [] | Inr sf \<Rightarrow> sf)"
  "snd (loadServerFile yaml t s) = snd (ServerYAMLPath t s)"
  using ServerYAMLPath_frame [of t s]
  by (cases "ServerYAMLPath t s";
      auto simp: loadServerFile_def LoadServerFile_def file_of_def server_path_def split: sum.split option.split)+

lemma server_path_frame [simp]:
  "server_path t (snd (ServerYAMLPath u s)) = server_path t s"
  "server_path t (write_file p d s) = server_path t s"
  "server_path t (auditSession now sess ip a x s) = server_path t s"
  unfolding server_path_def
  by (rule ServerYAMLPath_cong; simp add: ServerYAMLPath_frame write_file_def auditSession_def RecordAudit_def split: option.split)+

lemma files_frame [simp]:
  "st_files (snd (ServerYAMLPath u s)) = st_files s"
  "st_files (write_file p d s) = al_put p d (st_files s)"
  "st_files (auditSession now sess ip a x s) = st_files s"
  by (simp_all add: ServerYAMLPath_frame write_file_def auditSession_def RecordAudit_def split: option.split)

lemma server_map_file:
  "server_map yaml st t = (case file_of yaml (server_path t (ap_store st)) (st_files (ap_store st)) of Inl _ \<Rightarrow> Map.empty | Inr sf \<Rightarrow> map_of sf)"
  by (simp add: server_map_def tenantServerFile_pair)

lemma map_of_reload: "map_of (ap_servers (reloadServerYAML yaml t st)) t = Some (fst (loadServerFile yaml t (ap_store st)))"
  by (simp add: reloadServerYAML_def split: prod.split)

lemma loaded_reload: "loaded_map yaml (reloadServerYAML yaml t st) t = server_map yaml st t"
  by (auto simp: loaded_map_def getServerFile_def map_of_reload loadServerFile_pair server_map_file split: sum.split)

lemma store_reload: "ap_store (reloadServerYAML yaml t st) = snd (ServerYAMLPath t (ap_store st))"
  using loadServerFile_pair(2) [of yaml t "ap_store st"]
  by (cases "loadServerFile yaml t (ap_store st)") (simp add: reloadServerYAML_def)

lemma server_map_reload: "server_map yaml (reloadServerYAML yaml t st) t' = server_map yaml st t'"
  by (simp add: server_map_file store_reload)

lemma server_map_audit [simp]:
  "server_map yaml (on_store (auditSession now sess ip a x) st) t = server_map yaml st t"
  by (simp add: server_map_file on_store_def)

lemma loaded_map_audit [simp]:
  "map_of (ap_servers st) t \<noteq> None \<Longrightarrow> loaded_map yaml (on_store (auditSession now sess ip a x) st) t = loaded_map yaml st t"
  by (auto simp: loaded_map_def getServerFile_def on_store_def)

text \<open>Saving a file makes it the tenant's file on disk and in memory, and leaves the files of others.\<close>

lemma save_effect:
  assumes "saveTenantServerFile yaml t sf st = (Inr x, st')" "codec_keeps yaml sf"
  shows "server_map yaml st' t = map_of sf" "loaded_map yaml st' t = map_of sf" "map_of (ap_servers st') t \<noteq> None"
    "Validate sf = Inr ()"
    "server_path t' (ap_store st) \<noteq> server_path t (ap_store st) \<Longrightarrow> server_map yaml st' t' = server_map yaml st t'"
proof -
  obtain data sf' where codec: "yc_marshal yaml sf = Some data" "yc_unmarshal yaml data = Some sf'" "map_of sf' = map_of sf"
    using assms(2) by (auto simp: codec_keeps_def)
  from assms(1) codec(1) obtain path where path: "server_path t (ap_store st) = Inr path"
    and st': "st' = reloadServerYAML yaml t (st\<lparr>ap_store := write_file path data (snd (ServerYAMLPath t (ap_store st)))\<rparr>)"
    and val: "Validate sf = Inr ()"
    by (cases "ServerYAMLPath t (ap_store st)")
      (auto simp: saveTenantServerFile_def server_path_def split: sum.splits)
  show "Validate sf = Inr ()" by (rule val)
  have m: "server_map yaml (st\<lparr>ap_store := write_file path data (snd (ServerYAMLPath t (ap_store st)))\<rparr>) t = map_of sf"
    using path codec by (simp add: server_map_file file_of_def map_of_al_put)
  then show "server_map yaml st' t = map_of sf" "loaded_map yaml st' t = map_of sf"
    by (simp_all add: st' server_map_reload loaded_reload)
  show "map_of (ap_servers st') t \<noteq> None" by (simp add: st' map_of_reload)
  assume "server_path t' (ap_store st) \<noteq> server_path t (ap_store st)"
  then show "server_map yaml st' t' = server_map yaml st t'"
    unfolding st' server_map_reload using path by (auto simp: server_map_file file_of_def split: sum.split)
qed

lemma save_error:
  assumes "saveTenantServerFile yaml t sf st = (Inl x, st')"
  shows "server_map yaml st' t' = server_map yaml st t'"
proof -
  have "st' = st \<or> st' = st\<lparr>ap_store := snd (ServerYAMLPath t (ap_store st))\<rparr>"
    using assms by (cases "ServerYAMLPath t (ap_store st)") (auto simp: saveTenantServerFile_def split: sum.splits option.splits)
  then show ?thesis by (auto simp: server_map_file)
qed

text \<open>The effect of an operation whose outcome is \<open>r\<close> and that should turn the map of the tenant into \<open>m\<close>.\<close>

definition map_effect ::
  "yaml_codec \<Rightarrow> int \<Rightarrow> (string \<Rightarrow> server_entry option) \<Rightarrow> api_state \<Rightarrow> bool \<Rightarrow> api_state \<Rightarrow> bool" where
  "map_effect yaml t m st ok st' =
     ((\<forall>t'. (ok \<longrightarrow> server_path t' (ap_store st) \<noteq> server_path t (ap_store st)) \<longrightarrow> server_map yaml st' t' = server_map yaml st t')
      \<and> (ok \<longrightarrow> server_map yaml st' t = m \<and> loaded_map yaml st' t = m))"

lemma save_map_effect:
  assumes "saveTenantServerFile yaml t sf (st\<lparr>ap_store := snd (ServerYAMLPath t (ap_store st))\<rparr>) = (r, st')"
    and "codec_keeps yaml sf" "map_of sf = m"
  shows "map_effect yaml t m st (is_ok r) (if is_ok r then on_store (auditSession now sess ip a d) st' else st')"
proof (cases r)
  case (Inl e)
  with save_error assms(1) show ?thesis by (simp add: map_effect_def server_map_file)
next
  case (Inr x)
  with save_effect [of yaml t sf "st\<lparr>ap_store := snd (ServerYAMLPath t (ap_store st))\<rparr>" x st'] assms show ?thesis
    by (simp add: map_effect_def server_map_file [of yaml "st\<lparr>ap_store := snd (ServerYAMLPath t (ap_store st))\<rparr>"]
        server_map_file [of yaml st])
qed

lemma no_map_effect:
  "map_effect yaml t m st False st" "map_effect yaml t m st False (st\<lparr>ap_store := snd (ServerYAMLPath t' (ap_store st))\<rparr>)"
  by (simp_all add: map_effect_def server_map_file)

section \<open>Properties\<close>


definition plain_entry :: server_entry where
  "plain_entry = \<lparr>se_Replacements = [], se_PostHook = [], se_PostHookEnv = []\<rparr>"

text \<open>A codec of files whose entries are all plain: one id per line.\<close>

definition line_codec :: yaml_codec where
  "line_codec = \<lparr>yc_unmarshal = (\<lambda>d. Some (map (\<lambda>i. (i, plain_entry)) (filter (\<lambda>l. l \<noteq> []) (split_on (CHR 0x0A) d)))),
     yc_marshal = (\<lambda>sf. Some (join_with [CHR 0x0A] (map fst sf)))\<rparr>"

definition sample_api :: api_state where
  "sample_api = \<lparr>ap_store = (empty_store ''/d'')\<lparr>
       st_tenants := \<lparr>trows = [\<lparr>tn_ID = 7, tn_Slug = ''acme'', tn_Name = ''Acme'', tn_CreatedAt = None\<rparr>], tnext = 8\<rparr>\<rparr>,
     ap_servers = [], ap_sessions = []\<rparr>"

definition sample_user :: api_session where
  "sample_user = \<lparr>as_UserID = 3, as_Username = ''ann'', as_TenantID = 7\<rparr>"


end
