(* ===== verification/Tokens.thy ===== *)
theory Tokens
  imports ServerConfig
begin

text \<open>
  The signed tokens of the API (\<open>internal/api/jwtauth.go\<close>): base64 without padding over the URL alphabet as
  package \<open>encoding/base64\<close> defines it, and signing and verifying of claims.  The HMAC under the server's
  secret and the JSON codec of the claims are parameters.
\<close>

section \<open>Base64\<close>

definition b64_alphabet :: string where
  "b64_alphabet = ''ABCDEFGHIJKLMNOPQRSTUVWXYZabcdefghijklmnopqrstuvwxyz0123456789-_''"

definition b64_char :: "nat \<Rightarrow> char" where
  "b64_char n = b64_alphabet ! n"

definition b64_val :: "char \<Rightarrow> nat option" where
  "b64_val c = find (\<lambda>n. b64_char n = c) [0..<64]"

fun b64_groups :: "nat list \<Rightarrow> nat list" where
  "b64_groups (a # b # c # r) =
     a div 4 # (a mod 4 * 16 + b div 16) # (b mod 16 * 4 + c div 64) # c mod 64 # b64_groups r"
| "b64_groups [a, b] = [a div 4, a mod 4 * 16 + b div 16, b mod 16 * 4]"
| "b64_groups [a] = [a div 4, a mod 4 * 16]"
| "b64_groups [] = []"

definition b64_encode :: "string \<Rightarrow> string" where
  "b64_encode s = map b64_char (b64_groups (map of_char s))"

text \<open>A single left-over digit is an error; left-over bits are dropped unseen.\<close>

fun b64_bytes :: "nat list \<Rightarrow> nat list option" where
  "b64_bytes (w # x # y # z # r) =
     map_option (\<lambda>bs. (w * 4 + x div 16) # (x mod 16 * 16 + y div 4) # (y mod 4 * 64 + z) # bs) (b64_bytes r)"
| "b64_bytes [w, x, y] = Some [w * 4 + x div 16, x mod 16 * 16 + y div 4]"
| "b64_bytes [w, x] = Some [w * 4 + x div 16]"
| "b64_bytes [w] = None"
| "b64_bytes [] = Some []"

text \<open>The decoder skips carriage returns and line feeds.\<close>

definition b64_decode :: "string \<Rightarrow> string option" where
  "b64_decode s =
     (case those (map b64_val (filter (\<lambda>c. c \<noteq> CHR 0x0A \<and> c \<noteq> CHR 0x0D) s)) of
        None \<Rightarrow> None
      | Some vs \<Rightarrow> map_option (map char_of) (b64_bytes vs))"

lemma b64_groups_bound: "\<forall>b\<in>set bs. b < 256 \<Longrightarrow> \<forall>v\<in>set (b64_groups bs). v < 64"
  by (induction bs rule: b64_groups.induct) auto

lemma b64_val_char: "n < 64 \<Longrightarrow> b64_val (b64_char n) = Some n"
proof -
  have "list_all (\<lambda>n. b64_val (b64_char n) = Some n) [0..<64]" by code_simp
  then show "n < 64 \<Longrightarrow> ?thesis" by (simp add: list_all_iff)
qed

lemma b64_char_plain: "n < 64 \<Longrightarrow> b64_char n \<noteq> CHR 0x0A \<and> b64_char n \<noteq> CHR 0x0D \<and> b64_char n \<noteq> CHR ''.''"
proof -
  have "list_all (\<lambda>n. b64_char n \<noteq> CHR 0x0A \<and> b64_char n \<noteq> CHR 0x0D \<and> b64_char n \<noteq> CHR ''.'') [0..<64]" by code_simp
  then show "n < 64 \<Longrightarrow> ?thesis" by (simp add: list_all_iff)
qed

lemma b64_bytes_groups: "\<forall>b\<in>set bs. b < 256 \<Longrightarrow> b64_bytes (b64_groups bs) = Some bs"
proof (induction bs rule: b64_groups.induct)
  case (1 a b c r)
  have "a div 4 * 4 + (a mod 4 * 16 + b div 16) div 16 = a" using 1(2) by simp linarith
  moreover have "b div 16 < 16" "c div 64 < 4" using 1(2) by (auto intro: less_mult_imp_div_less)
  then have "b div 16 mod 16 = b div 16" "c div 64 div 4 = 0" and c: "c div 64 mod 4 = c div 64" by simp_all
  then have "(a mod 4 * 16 + b div 16) mod 16 * 16 + (b mod 16 * 4 + c div 64) div 4 = b" by simp
  moreover have "(b mod 16 * 4 + c div 64) mod 4 * 64 + c mod 64 = c" using c by simp
  ultimately show ?case using 1 by simp
qed auto

lemma those_map_Some: "(\<And>x. x \<in> set xs \<Longrightarrow> f x = Some (g x)) \<Longrightarrow> those (map f xs) = Some (map g xs)"
  by (induction xs) simp_all

lemma b64_round_trip: "b64_decode (b64_encode s) = Some s"
proof -
  let ?g = "b64_groups (map of_char s)"
  have bound: "\<forall>b\<in>set (map of_char s). b < (256 :: nat)" by simp
  note g = b64_groups_bound [OF bound]
  have "filter (\<lambda>c. c \<noteq> CHR 0x0A \<and> c \<noteq> CHR 0x0D) (b64_encode s) = b64_encode s"
    using g b64_char_plain by (auto simp: b64_encode_def intro!: filter_True)
  moreover have "those (map b64_val (b64_encode s)) = Some ?g"
    using those_map_Some [of ?g "\<lambda>n. b64_val (b64_char n)" id] g b64_val_char by (simp add: b64_encode_def o_def)
  ultimately show ?thesis using b64_bytes_groups [OF bound] by (simp add: b64_decode_def o_def)
qed

lemma b64_no_dot: "CHR ''.'' \<notin> set (b64_encode s)"
proof -
  have "\<forall>b\<in>set (map of_char s). b < (256 :: nat)" by simp
  from b64_groups_bound [OF this] show ?thesis using b64_char_plain by (fastforce simp: b64_encode_def)
qed

section \<open>Claims\<close>

record jwt_claims =
  jc_UserID :: int
  jc_Username :: string
  jc_IsAdmin :: bool
  jc_AuthVersion :: int
  jc_TenantID :: int
  jc_TenantSlug :: string
  jc_Exp :: int

text \<open>\<open>hmac\<close> is HMAC-SHA256 under the secret; the codec is \<open>encoding/json\<close> on the claims.\<close>

record jwt_auth =
  ja_hmac :: "string \<Rightarrow> string"
  ja_marshal :: "jwt_claims \<Rightarrow> string"
  ja_unmarshal :: "string \<Rightarrow> jwt_claims option"

definition persistentSessionTTL :: duration where
  "persistentSessionTTL = 30 * 24 * Hour"

definition unix :: "go_time \<Rightarrow> int" where
  "unix t = t div Second"

definition jwt_encode :: "jwt_auth \<Rightarrow> jwt_claims \<Rightarrow> string" where
  "jwt_encode j c = (let payload = b64_encode (ja_marshal j c) in payload @ ''.'' @ b64_encode (ja_hmac j payload))"

definition session_claims :: "session \<Rightarrow> go_time \<Rightarrow> jwt_claims" where
  "session_claims sess expires =
     \<lparr>jc_UserID = ss_UserID sess, jc_Username = ss_Username sess, jc_IsAdmin = ss_IsAdmin sess,
      jc_AuthVersion = ss_AuthVersion sess, jc_TenantID = ss_TenantID sess, jc_TenantSlug = ss_TenantSlug sess,
      jc_Exp = unix expires\<rparr>"

text \<open>A nil \<open>jwtAuth\<close> cannot sign.\<close>

definition jwt_sign :: "jwt_auth option \<Rightarrow> session \<Rightarrow> go_time \<Rightarrow> duration \<Rightarrow> string res" where
  "jwt_sign j sess now ttl =
     (case j of
        None \<Rightarrow> Inl (ErrMsg ''jwt not configured'')
      | Some ja \<Rightarrow>
          Inr (jwt_encode ja (session_claims sess (now + ttl))))"

definition jwt_verify :: "jwt_auth \<Rightarrow> go_time \<Rightarrow> string \<Rightarrow> jwt_claims res" where
  "jwt_verify j now token =
     (case split_on (CHR ''.'') token of
        [payload, signature] \<Rightarrow>
          (case b64_decode signature of
             None \<Rightarrow> Inl (ErrMsg ''illegal base64 data'')
           | Some sg \<Rightarrow>
               (case b64_decode payload of
                  None \<Rightarrow> Inl (ErrMsg ''illegal base64 data'')
                | Some text \<Rightarrow>
                    if sg \<noteq> ja_hmac j payload then Inl (ErrMsg ''invalid signature'')
                    else case ja_unmarshal j text of
                      None \<Rightarrow> Inl (ErrMsg ''json'')
                    | Some c \<Rightarrow> if unix now > jc_Exp c then Inl (ErrMsg ''token expired'') else Inr c))
      | _ \<Rightarrow> Inl (ErrMsg ''invalid token''))"

definition claims_session :: "jwt_claims \<Rightarrow> session" where
  "claims_session c =
     \<lparr>ss_UserID = jc_UserID c, ss_Username = jc_Username c, ss_IsAdmin = jc_IsAdmin c, ss_AuthVersion = jc_AuthVersion c,
      ss_TenantID = jc_TenantID c, ss_TenantSlug = jc_TenantSlug c, ss_Expires = jc_Exp c * Second\<rparr>"

definition extractBearerToken :: "string \<Rightarrow> string" where
  "extractBearerToken h = (if has_prefix h ''Bearer '' then trim_space (drop 7 h) else [])"

lemma split_token: "split_on (CHR ''.'') (b64_encode p @ ''.'' @ b64_encode q) = [b64_encode p, b64_encode q]"
proof -
  have "split_on (CHR ''.'') (b64_encode p @ (CHR ''.'') # b64_encode q) = b64_encode p # split_on (CHR ''.'') (b64_encode q)"
    using b64_no_dot [of p] by (intro split_by_append_sep) auto
  moreover have "split_on (CHR ''.'') (b64_encode q) = [b64_encode q]"
    using b64_no_dot [of q] by (intro split_by_none) auto
  ultimately show ?thesis by simp
qed

text \<open>Verification of a token in closed form.\<close>

lemma jwt_verify_Inr:
  assumes "jwt_verify j now token = Inr c"
  obtains payload signature where "token = payload @ ''.'' @ signature" "b64_decode signature = Some (ja_hmac j payload)"
    "Option.bind (b64_decode payload) (ja_unmarshal j) = Some c" "unix now \<le> jc_Exp c"
proof -
  from assms obtain payload signature where s: "split_on (CHR ''.'') token = [payload, signature]"
    and d: "b64_decode signature = Some (ja_hmac j payload)" "Option.bind (b64_decode payload) (ja_unmarshal j) = Some c"
      "unix now \<le> jc_Exp c"
    by (auto simp: jwt_verify_def split: list.splits option.splits if_splits)
  have "token = join_with ''.'' (split_on (CHR ''.'') token)" by (simp add: join_split_on)
  with s d show thesis by (intro that) simp_all
qed

section \<open>Properties\<close>

text \<open>
  A signed session verifies up to and including the second its lifetime ends in and is expired after it,
  and verifying gives back the session that was signed, with its expiry rounded down to the second.
\<close>

theorem signed_session_round_trip:
  assumes "ja_unmarshal ja (ja_marshal ja (session_claims sess (now + ttl))) = Some (session_claims sess (now + ttl))"
  shows "\<exists>token. jwt_sign (Some ja) sess now ttl = Inr token
    \<and> (\<forall>later. map_sum id claims_session (jwt_verify ja later token) =
          (if unix later \<le> unix (now + ttl) then Inr (sess\<lparr>ss_Expires := unix (now + ttl) * Second\<rparr>)
           else Inl (ErrMsg ''token expired'')))"
proof -
  let ?c = "session_claims sess (now + ttl)"
  have exp: "jc_Exp ?c = unix (now + ttl)" by (simp add: session_claims_def)
  have "jwt_verify ja later (jwt_encode ja ?c) = (if unix later \<le> unix (now + ttl) then Inr ?c else Inl (ErrMsg ''token expired''))" for later
    by (simp add: jwt_verify_def jwt_encode_def Let_def split_token [simplified] b64_round_trip assms exp)
  moreover have "claims_session ?c = sess\<lparr>ss_Expires := unix (now + ttl) * Second\<rparr>"
    by (simp add: claims_session_def session_claims_def)
  ultimately show ?thesis by (intro exI [of _ "jwt_encode ja ?c"]) (simp add: jwt_sign_def)
qed

definition sample_login :: session where
  "sample_login = \<lparr>ss_UserID = 3, ss_Username = ''ann'', ss_IsAdmin = True, ss_AuthVersion = 1, ss_TenantID = 7,
     ss_TenantSlug = ''acme'', ss_Expires = 0\<rparr>"

text \<open>A codec that keeps the claims of one session, and a MAC that is the length of the text.\<close>

definition sample_auth :: jwt_auth where
  "sample_auth = \<lparr>ja_hmac = (\<lambda>p. show_nat (length p)), ja_marshal = (\<lambda>c. ''ann:1''),
     ja_unmarshal = (\<lambda>d. if d = ''ann:1'' then Some (session_claims sample_login persistentSessionTTL) else None)\<rparr>"

lemma signed_session_round_trip_witness:
  "\<exists>token. jwt_sign (Some sample_auth) sample_login 0 persistentSessionTTL = Inr token
    \<and> map_sum id claims_session (jwt_verify sample_auth 0 token)
        = Inr (sample_login\<lparr>ss_Expires := unix persistentSessionTTL * Second\<rparr>)"
proof -
  have "0 \<le> unix persistentSessionTTL" by code_simp
  moreover have "unix 0 = 0" by code_simp
  ultimately show ?thesis
    using signed_session_round_trip [of sample_auth sample_login 0 persistentSessionTTL]
    by (force simp: sample_auth_def)
qed

end
