(* ===== verification/Sessions.thy ===== *)
theory Sessions
  imports Tokens
begin

text \<open>
  Sessions of the API (\<open>internal/api/auth.go\<close>, the cookies and request part of \<open>jwtauth.go\<close>,
  \<open>handlers_auth.go\<close>, \<open>handlers_password.go\<close>, \<open>handlers_users.go\<close>): which session a request carries, when it
  is still live, login, logout, renewal, and the changes to accounts.  A request is the parts the code reads;
  what \<open>net/http\<close> makes of the Basic header is a field.  bcrypt, hashes and random identifiers are arguments.
\<close>

record auth_request =
  ar_Peer :: peer_request
  ar_Authorization :: string
  ar_Basic :: "(string \<times> string) option"
  ar_JWT :: "string option"
  ar_SessionID :: "string option"

record auth_env =
  ae_Login :: login_env
  ae_CheckPassword :: "string \<Rightarrow> string \<Rightarrow> bool"
  ae_JWT :: jwt_auth
  ae_Yaml :: yaml_codec

section \<open>Sessions held in memory\<close>

definition session_create :: "string option \<Rightarrow> session \<Rightarrow> go_time \<Rightarrow> (string \<times> session) list \<Rightarrow> string res \<times> (string \<times> session) list" where
  "session_create rand sess now data =
     (case rand of
        None \<Rightarrow> (Inl (ErrMsg ''rand''), data)
      | Some i \<Rightarrow> (Inr i, al_put i (sess\<lparr>ss_Expires := now + persistentSessionTTL\<rparr>) data))"

definition session_get :: "go_time \<Rightarrow> (string \<times> session) list \<Rightarrow> string \<Rightarrow> session option" where
  "session_get now data i =
     (case map_of data i of None \<Rightarrow> None | Some sess \<Rightarrow> if now > ss_Expires sess then None else Some sess)"

definition session_delete :: "string \<Rightarrow> (string \<times> session) list \<Rightarrow> (string \<times> session) list" where
  "session_delete i data = al_del i data"

definition getFromRequest :: "go_time \<Rightarrow> auth_request \<Rightarrow> (string \<times> session) list \<Rightarrow> session option" where
  "getFromRequest now r data = (case ar_SessionID r of None \<Rightarrow> None | Some i \<Rightarrow> session_get now data i)"

section \<open>The session of a request\<close>

text \<open>A failed Basic login is counted like one of the login page; a successful one clears the counter.\<close>

definition basicAuthSession :: "auth_env \<Rightarrow> go_time \<Rightarrow> auth_request \<Rightarrow> store \<Rightarrow> session option \<times> store" where
  "basicAuthSession env now r s =
     (case ar_Basic r of
        None \<Rightarrow> (None, s)
      | Some (user, pass) \<Rightarrow>
          if user = [] then (None, s)
          else
            (let (ip, reliable) = loginProtectionIP (ae_Login env) (ar_Peer r)
             in if LoginProtectionEnabled s \<and> reliable \<and> snd (LoginIPBlocked ip now now s) then (None, s)
                else case Authenticate (ae_CheckPassword env) s user pass of
                  Inl _ \<Rightarrow> (None, snd (recordLoginFailure (ae_Login env) (ar_Peer r) user now s))
                | Inr (uid, admin) \<Rightarrow>
                    (let s1 = clearLoginFailures (ae_Login env) (ar_Peer r) s
                     in case UserTenantID s1 uid of
                          Inl _ \<Rightarrow> (None, s1)
                        | Inr tid \<Rightarrow>
                            (case UserAuthVersion s1 uid of
                               Inl _ \<Rightarrow> (None, s1)
                             | Inr ver \<Rightarrow>
                                 (Some \<lparr>ss_UserID = uid, ss_Username = user, ss_IsAdmin = admin, ss_AuthVersion = ver,
                                    ss_TenantID = tid,
                                    ss_TenantSlug = (case TenantByID s1 tid of Inl _ \<Rightarrow> [] | Inr t \<Rightarrow> tn_Slug t),
                                    ss_Expires = now + Hour\<rparr>, s1)))))"

definition bearer_session :: "auth_env \<Rightarrow> go_time \<Rightarrow> string \<Rightarrow> session option" where
  "bearer_session env now token =
     (if token = [] then None
      else case jwt_verify (ae_JWT env) now token of Inl _ \<Rightarrow> None | Inr c \<Rightarrow> Some (claims_session c))"

definition sessionFromRequest :: "auth_env \<Rightarrow> go_time \<Rightarrow> auth_request \<Rightarrow> api_state \<Rightarrow> session option \<times> api_state" where
  "sessionFromRequest env now r st =
     (case bearer_session env now (extractBearerToken (ar_Authorization r)) of
        Some sess \<Rightarrow> (Some sess, st)
      | None \<Rightarrow>
          (case basicAuthSession env now r (ap_store st) of
             (Some sess, s1) \<Rightarrow> (Some sess, st\<lparr>ap_store := s1\<rparr>)
           | (None, s1) \<Rightarrow>
               (case (case ar_JWT r of None \<Rightarrow> None | Some token \<Rightarrow> bearer_session env now token) of
                  Some sess \<Rightarrow> (Some sess, st\<lparr>ap_store := s1\<rparr>)
                | None \<Rightarrow> (getFromRequest now r (ap_sessions st), st\<lparr>ap_store := s1\<rparr>))))"

text \<open>A session is live while its user exists with the same authentication version.\<close>

definition session_live :: "store \<Rightarrow> session \<Rightarrow> bool" where
  "session_live s sess = (case UserAuthVersion s (ss_UserID sess) of Inl _ \<Rightarrow> False | Inr ver \<Rightarrow> ver = ss_AuthVersion sess)"

definition currentSession :: "auth_env \<Rightarrow> go_time \<Rightarrow> auth_request \<Rightarrow> api_state \<Rightarrow> session option \<times> api_state" where
  "currentSession env now r st =
     (case sessionFromRequest env now r st of
        (None, st1) \<Rightarrow> (None, st1)
      | (Some sess, st1) \<Rightarrow> (if session_live (ap_store st1) sess then Some sess else None, st1))"

definition tenantFromSession :: "auth_env \<Rightarrow> go_time \<Rightarrow> auth_request \<Rightarrow> api_state \<Rightarrow> int option \<times> api_state" where
  "tenantFromSession env now r st =
     (case currentSession env now r st of
        (None, st1) \<Rightarrow> (None, st1)
      | (Some sess, st1) \<Rightarrow>
          if ss_TenantID sess > 0 then (Some (ss_TenantID sess), st1)
          else case UserTenantID (ap_store st1) (ss_UserID sess) of Inl _ \<Rightarrow> (None, st1) | Inr tid \<Rightarrow> (Some tid, st1))"

text \<open>\<open>s.auditSession\<close>: the entry of the request's session, which is determined anew.\<close>

definition audit_request :: "auth_env \<Rightarrow> go_time \<Rightarrow> auth_request \<Rightarrow> string \<Rightarrow> string \<Rightarrow> api_state \<Rightarrow> api_state" where
  "audit_request env now r action detail st =
     (case currentSession env now r st of
        (None, st1) \<Rightarrow> st1
      | (Some sess, st1) \<Rightarrow>
          on_store (RecordAudit now (ss_Username sess) action detail (clientIP (ae_Login env) (ar_Peer r))) st1)"

section \<open>Gates\<close>

datatype gate = LoginBlocked int | LoginRequired | AdminRequired | Passed session

definition requireLogin :: "auth_env \<Rightarrow> go_time \<Rightarrow> auth_request \<Rightarrow> api_state \<Rightarrow> gate \<times> api_state" where
  "requireLogin env now r st =
     (case (if ar_Basic r = None then None else rejectBlockedLogin (ae_Login env) (ar_Peer r) now (ap_store st)) of
        Some retry \<Rightarrow> (LoginBlocked retry, st)
      | None \<Rightarrow>
          (case currentSession env now r st of
             (None, st1) \<Rightarrow> (LoginRequired, st1)
           | (Some sess, st1) \<Rightarrow> (Passed sess, st1)))"

definition requireAdmin :: "auth_env \<Rightarrow> go_time \<Rightarrow> auth_request \<Rightarrow> api_state \<Rightarrow> gate \<times> api_state" where
  "requireAdmin env now r st =
     (case currentSession env now r st of
        (None, st1) \<Rightarrow> (LoginRequired, st1)
      | (Some sess, st1) \<Rightarrow> (if ss_IsAdmin sess then Passed sess else AdminRequired, st1))"

section \<open>Login, renewal and logout\<close>

datatype login_reply =
  LoginOK session string "string option"
| LoginRetryAfter int
| LoginDenied "int option"
| LoginError string

definition handleLogin ::
  "auth_env \<Rightarrow> go_time \<Rightarrow> string option \<Rightarrow> auth_request \<Rightarrow> (string \<times> string) option \<Rightarrow> api_state \<Rightarrow> login_reply \<times> api_state" where
  "handleLogin env now rand r body st =
     (case body of
        None \<Rightarrow> (LoginError ''invalid body'', st)
      | Some (username, password) \<Rightarrow>
          (let s = ap_store st; peer = ar_Peer r
           in case rejectBlockedLogin (ae_Login env) peer now s of
                Some retry \<Rightarrow> (LoginRetryAfter retry, st)
              | None \<Rightarrow>
                  (case Authenticate (ae_CheckPassword env) s username password of
                     Inl _ \<Rightarrow>
                       (case recordLoginFailure (ae_Login env) peer username now s of
                          ((banned, retry, remaining), s1) \<Rightarrow>
                            (if banned then LoginRetryAfter (max 1 (retry div Second))
                             else LoginDenied (if LoginProtectionEnabled s1 then Some remaining else None), st\<lparr>ap_store := s1\<rparr>))
                   | Inr (uid, admin) \<Rightarrow>
                       (let s1 = RecordAudit now username ''login'' ''success'' (clientIP (ae_Login env) peer)
                                   (clearLoginFailures (ae_Login env) peer s);
                            st1 = st\<lparr>ap_store := s1\<rparr>
                        in case UserTenantID s1 uid of
                             Inl _ \<Rightarrow> (LoginError ''tenant error'', st1)
                           | Inr tid \<Rightarrow>
                               (case TenantByID s1 tid of
                                  Inl _ \<Rightarrow> (LoginError ''tenant error'', st1)
                                | Inr t \<Rightarrow>
                                    (case UserAuthVersion s1 uid of
                                       Inl _ \<Rightarrow> (LoginError ''authentication state error'', st1)
                                     | Inr ver \<Rightarrow>
                                         (let sess = \<lparr>ss_UserID = uid, ss_Username = username, ss_IsAdmin = admin,
                                                ss_AuthVersion = ver, ss_TenantID = tid, ss_TenantSlug = tn_Slug t, ss_Expires = 0\<rparr>
                                          in case jwt_sign (Some (ae_JWT env)) sess now persistentSessionTTL of
                                               Inl _ \<Rightarrow> (LoginError ''token error'', st1)
                                             | Inr token \<Rightarrow>
                                                 (case session_create rand sess now (ap_sessions st1) of
                                                    (sid, data) \<Rightarrow>
                                                      (LoginOK sess token (case sid of Inl _ \<Rightarrow> None | Inr i \<Rightarrow> Some i),
                                                       reloadServerYAML (ae_Yaml env) tid (st1\<lparr>ap_sessions := data\<rparr>))))))))))"

text \<open>The cookies are cleared in the browser; the token itself stays valid until it expires.\<close>

definition handleLogout :: "auth_request \<Rightarrow> api_state \<Rightarrow> api_state" where
  "handleLogout r st =
     (case ar_SessionID r of None \<Rightarrow> st | Some i \<Rightarrow> st\<lparr>ap_sessions := session_delete i (ap_sessions st)\<rparr>)"

definition handleMe :: "auth_env \<Rightarrow> go_time \<Rightarrow> auth_request \<Rightarrow> api_state \<Rightarrow> (session \<times> string) res \<times> api_state" where
  "handleMe env now r st =
     (case currentSession env now r st of
        (None, st1) \<Rightarrow> (Inl (ErrMsg ''not logged in''), st1)
      | (Some sess, st1) \<Rightarrow>
          (case jwt_sign (Some (ae_JWT env)) sess now persistentSessionTTL of
             Inl _ \<Rightarrow> (Inl (ErrMsg ''token error''), st1)
           | Inr token \<Rightarrow> (Inr (sess, token), st1)))"

record me_payload =
  mp_Username :: string
  mp_IsAdmin :: bool
  mp_IsRoot :: bool
  mp_Role :: string
  mp_TenantID :: int
  mp_TenantSlug :: string
  mp_Token :: string

definition mePayload :: "store \<Rightarrow> session \<Rightarrow> string \<Rightarrow> me_payload" where
  "mePayload s sess token =
     \<lparr>mp_Username = ss_Username sess, mp_IsAdmin = ss_IsAdmin sess, mp_IsRoot = (ss_Username sess = ''root''),
      mp_Role = (case UserRole s (ss_UserID sess) of Inl _ \<Rightarrow> [] | Inr r \<Rightarrow> r), mp_TenantID = ss_TenantID sess,
      mp_TenantSlug = (if ss_TenantSlug sess \<noteq> [] then ss_TenantSlug sess
                       else case TenantByID s (ss_TenantID sess) of Inl _ \<Rightarrow> [] | Inr t \<Rightarrow> tn_Slug t),
      mp_Token = token\<rparr>"

section \<open>Accounts\<close>

text \<open>\<open>hash\<close> is the bcrypt hash of the new password; the body is none when it does not decode.\<close>

definition handleChangeMyPassword ::
  "auth_env \<Rightarrow> go_time \<Rightarrow> string \<Rightarrow> auth_request \<Rightarrow> (string \<times> string) option \<Rightarrow> api_state \<Rightarrow> unit res \<times> api_state" where
  "handleChangeMyPassword env now hash r body st =
     (case currentSession env now r st of
        (None, st1) \<Rightarrow> (Inl (ErrMsg ''login required''), st1)
      | (Some sess, st1) \<Rightarrow>
          (case body of
             None \<Rightarrow> (Inl (ErrMsg ''new_password required''), st1)
           | Some (oldPassword, newPassword) \<Rightarrow>
               if newPassword = [] then (Inl (ErrMsg ''new_password required''), st1)
               else case Authenticate (ae_CheckPassword env) (ap_store st1) (ss_Username sess) oldPassword of
                 Inl _ \<Rightarrow> (Inl (ErrMsg ''invalid old password''), st1)
               | Inr _ \<Rightarrow>
                   (case UpdateUserPassword hash (ss_UserID sess) (ap_store st1) of
                      (Inl e, s2) \<Rightarrow> (Inl e, st1\<lparr>ap_store := s2\<rparr>)
                    | (Inr _, s2) \<Rightarrow>
                        (Inr (), st1\<lparr>ap_store := RecordAudit now (ss_Username sess) ''password.change'' ''self''
                           (clientIP (ae_Login env) (ar_Peer r)) s2\<rparr>))))"

text \<open>The routes below are behind \<open>requireAdmin\<close>; \<open>param\<close> is the \<open>id\<close> of the path and \<open>i\<close> its number.\<close>

definition account_change ::
  "auth_env \<Rightarrow> go_time \<Rightarrow> auth_request \<Rightarrow> (store \<Rightarrow> 'a res \<times> store) \<Rightarrow> string \<Rightarrow> string \<Rightarrow> api_state \<Rightarrow> 'a res \<times> api_state" where
  "account_change env now r change action detail st =
     (case requireAdmin env now r st of
        (Passed _, st1) \<Rightarrow>
          (case change (ap_store st1) of
             (Inl e, s2) \<Rightarrow> (Inl (ErrMsg ''user not found''), st1\<lparr>ap_store := s2\<rparr>)
           | (Inr x, s2) \<Rightarrow> (Inr x, audit_request env now r action detail (st1\<lparr>ap_store := s2\<rparr>)))
      | (_, st1) \<Rightarrow> (Inl (ErrMsg ''admin required''), st1))"

definition handleAdminChangePassword ::
  "auth_env \<Rightarrow> go_time \<Rightarrow> string \<Rightarrow> auth_request \<Rightarrow> string \<Rightarrow> int \<Rightarrow> string option \<Rightarrow> api_state \<Rightarrow> unit res \<times> api_state" where
  "handleAdminChangePassword env now hash r param i body st =
     (if body = None \<or> body = Some []
      then (case requireAdmin env now r st of
              (Passed _, st1) \<Rightarrow> (Inl (ErrMsg ''password required''), st1)
            | (_, st1) \<Rightarrow> (Inl (ErrMsg ''admin required''), st1))
      else account_change env now r (UpdateUserPassword hash i) ''password.reset'' (''user_id='' @ param) st)"

definition handleDeleteUser :: "auth_env \<Rightarrow> go_time \<Rightarrow> auth_request \<Rightarrow> string \<Rightarrow> int \<Rightarrow> api_state \<Rightarrow> unit res \<times> api_state" where
  "handleDeleteUser env now r param i st =
     account_change env now r (DeleteUser i) ''user.delete'' (''id='' @ param) st"

definition handleRefreshToken ::
  "auth_env \<Rightarrow> go_time \<Rightarrow> string \<Rightarrow> auth_request \<Rightarrow> string \<Rightarrow> int \<Rightarrow> api_state \<Rightarrow> string res \<times> api_state" where
  "handleRefreshToken env now token r param i st =
     account_change env now r (RefreshUserToken token i) ''user.refresh_token'' (''id='' @ param) st"

definition handleListUsers :: "auth_env \<Rightarrow> go_time \<Rightarrow> auth_request \<Rightarrow> api_state \<Rightarrow> user list res \<times> api_state" where
  "handleListUsers env now r st =
     (case requireAdmin env now r st of
        (Passed _, st1) \<Rightarrow>
          (case tenantFromSession env now r st1 of
             (None, st2) \<Rightarrow> (Inl (ErrMsg ''login required''), st2)
           | (Some tid, st2) \<Rightarrow> (Inr (ListUsers (ap_store st2) tid), st2))
      | (_, st1) \<Rightarrow> (Inl (ErrMsg ''admin required''), st1))"

record create_user_req =
  cu_Username :: string
  cu_Password :: string
  cu_Role :: string
  cu_IsAdmin :: bool

definition handleCreateUser ::
  "auth_env \<Rightarrow> go_time \<Rightarrow> string \<Rightarrow> string \<Rightarrow> auth_request \<Rightarrow> create_user_req option \<Rightarrow> api_state \<Rightarrow> user res \<times> api_state" where
  "handleCreateUser env now hash token r body st =
     (case requireAdmin env now r st of
        (Passed _, st1) \<Rightarrow>
          (case body of
             None \<Rightarrow> (Inl (ErrMsg ''username and password required''), st1)
           | Some req \<Rightarrow>
               if cu_Username req = [] \<or> cu_Password req = [] then (Inl (ErrMsg ''username and password required''), st1)
               else
                 (case tenantFromSession env now r st1 of
                    (None, st2) \<Rightarrow> (Inl (ErrMsg ''login required''), st2)
                  | (Some tid, st2) \<Rightarrow>
                      (case CreateUser now hash token tid (cu_Username req) (cu_Role req) (cu_IsAdmin req) (ap_store st2) of
                         (Inl e, s3) \<Rightarrow> (Inl e, st2\<lparr>ap_store := s3\<rparr>)
                       | (Inr u, s3) \<Rightarrow>
                           (Inr u, audit_request env now r ''user.create'' (''username='' @ cu_Username req) (st2\<lparr>ap_store := s3\<rparr>)))))
      | (_, st1) \<Rightarrow> (Inl (ErrMsg ''admin required''), st1))"

definition handleListTenants :: "auth_env \<Rightarrow> go_time \<Rightarrow> auth_request \<Rightarrow> api_state \<Rightarrow> tenant list res \<times> api_state" where
  "handleListTenants env now r st =
     (case currentSession env now r st of
        (Some sess, st1) \<Rightarrow>
          if ss_Username sess \<noteq> ''root'' then (Inl (ErrMsg ''system root required''), st1)
          else (Inr (ListTenants (ap_store st1)), st1)
      | (None, st1) \<Rightarrow> (Inl (ErrMsg ''system root required''), st1))"

definition handleCreateTenant ::
  "auth_env \<Rightarrow> go_time \<Rightarrow> auth_request \<Rightarrow> (string \<times> string) option \<Rightarrow> api_state \<Rightarrow> tenant res \<times> api_state" where
  "handleCreateTenant env now r body st =
     (case currentSession env now r st of
        (Some sess, st1) \<Rightarrow>
          if ss_Username sess \<noteq> ''root'' then (Inl (ErrMsg ''system root required''), st1)
          else
            (case body of
               None \<Rightarrow> (Inl (ErrMsg ''slug and name required''), st1)
             | Some (slug, name) \<Rightarrow>
                 if slug = [] \<or> name = [] then (Inl (ErrMsg ''slug and name required''), st1)
                 else
                   (case CreateTenant now slug name (ap_store st1) of
                      (Inl e, s2) \<Rightarrow> (Inl e, st1\<lparr>ap_store := s2\<rparr>)
                    | (Inr t, s2) \<Rightarrow> (Inr t, audit_request env now r ''tenant.create'' (''slug='' @ slug) (st1\<lparr>ap_store := s2\<rparr>))))
      | (None, st1) \<Rightarrow> (Inl (ErrMsg ''system root required''), st1))"

section \<open>Revocation\<close>

text \<open>The steps that change the table of users.\<close>

inductive user_step :: "store \<Rightarrow> store \<Rightarrow> bool" where
  us_create: "CreateUser now hash token tid name role admin s = (r, s') \<Longrightarrow> user_step s s'"
| us_delete: "DeleteUser i s = (r, s') \<Longrightarrow> user_step s s'"
| us_token: "RefreshUserToken token i s = (r, s') \<Longrightarrow> user_step s s'"
| us_password: "UpdateUserPassword hash i s = (r, s') \<Longrightarrow> user_step s s'"
| us_other: "st_users s' = st_users s \<Longrightarrow> user_step s s'"

text \<open>The id is not of a user that is still to come, and its user has at least the version.\<close>

definition version_reached :: "int \<Rightarrow> int \<Rightarrow> store \<Rightarrow> bool" where
  "version_reached uid ver s =
     (uid < tnext (st_users s) \<and> (\<forall>u\<in>set (trows (st_users s)). u_ID u = uid \<longrightarrow> ver \<le> u_AuthVersion u))"

text \<open>Every user is one of before with at least the version it had, or has a new id.\<close>

definition users_grow :: "store \<Rightarrow> store \<Rightarrow> bool" where
  "users_grow s s' =
     (tnext (st_users s) \<le> tnext (st_users s')
      \<and> (\<forall>u'\<in>set (trows (st_users s')).
           (\<exists>u\<in>set (trows (st_users s)). u_ID u' = u_ID u \<and> u_AuthVersion u \<le> u_AuthVersion u') \<or> tnext (st_users s) \<le> u_ID u'))"

lemma users_grow_ops:
  "users_grow s (snd (CreateUser now hash token tid name role admin s))"
  "users_grow s (snd (DeleteUser i s))"
  "users_grow s (snd (RefreshUserToken token i s))"
  "users_grow s (snd (UpdateUserPassword hash i s))"
  by (force simp: users_grow_def CreateUser_def DeleteUser_def RefreshUserToken_def UpdateUserPassword_def
      tbl_insert_def tbl_delete_def tbl_update_def Let_def)+

lemma user_step_grows: "user_step s s' \<Longrightarrow> users_grow s s'"
proof (induction rule: user_step.induct)
  case (us_other s' s)
  then show ?case by (force simp: users_grow_def)
qed (metis users_grow_ops snd_conv)+

lemma version_reached_step:
  assumes "user_step s s'" "version_reached uid ver s"
  shows "version_reached uid ver s'"
proof -
  have "users_grow s s'" using assms(1) by (rule user_step_grows)
  with assms(2) show ?thesis unfolding users_grow_def version_reached_def by fastforce
qed

lemma version_reached_steps: "user_step\<^sup>*\<^sup>* s s' \<Longrightarrow> version_reached uid ver s \<Longrightarrow> version_reached uid ver s'"
  by (induction rule: rtranclp_induct) (auto intro: version_reached_step)

lemma session_liveD:
  assumes "session_live s sess"
  obtains u where "u \<in> set (trows (st_users s))" "u_ID u = ss_UserID sess" "u_AuthVersion u = ss_AuthVersion sess"
  using assms tbl_row_Inr [of "\<lambda>u. u_ID u = ss_UserID sess" "st_users s"]
  by (auto simp: session_live_def UserAuthVersion_def map_sum_def split: sum.splits)

lemma version_reached_dead:
  assumes "version_reached (ss_UserID sess) ver s" "ss_AuthVersion sess < ver"
  shows "\<not> session_live s sess"
proof
  assume "session_live s sess"
  then obtain u where "u \<in> set (trows (st_users s))" "u_ID u = ss_UserID sess" "u_AuthVersion u = ss_AuthVersion sess"
    by (rule session_liveD)
  with assms show False by (auto simp: version_reached_def)
qed

lemma password_reaches:
  assumes "UpdateUserPassword hash uid s = (Inr x, s')" "tbl_ok u_ID (st_users s)" "u \<in> set (trows (st_users s))" "u_ID u = uid"
  shows "version_reached uid (u_AuthVersion u + 1) s'"
proof -
  have same: "v = u" if "v \<in> set (trows (st_users s))" "u_ID v = uid" for v
    by (rule user_rows.id_unique [OF assms(2) that(1) assms(3)]) (use that(2) assms(4) in simp)
  have s': "st_users s' = snd (tbl_update (\<lambda>u. u_ID u = uid)
      (\<lambda>u. u\<lparr>u_PasswordHash := hash, u_AuthVersion := u_AuthVersion u + 1\<rparr>) (st_users s))"
    using assms(1) by (auto simp: UpdateUserPassword_def split: prod.splits if_splits)
  have "uid < tnext (st_users s')" using assms(2-4) by (auto simp: tbl_ok_def s')
  moreover have "u_AuthVersion u + 1 \<le> u_AuthVersion w" if "w \<in> set (trows (st_users s'))" "u_ID w = uid" for w
  proof -
    from that(1) obtain v where v: "v \<in> set (trows (st_users s))"
      "w = (if u_ID v = uid then v\<lparr>u_PasswordHash := hash, u_AuthVersion := u_AuthVersion v + 1\<rparr> else v)"
      by (auto simp: s' tbl_update_def)
    with that(2) have "u_ID v = uid" by (simp split: if_splits)
    with v same [of v] show ?thesis by simp
  qed
  ultimately show ?thesis unfolding version_reached_def by blast
qed

section \<open>What a request leaves of the accounts\<close>

lemma login_frame [simp]:
  "st_users (snd (recordLoginFailure le p u now s)) = st_users s"
  "st_users (clearLoginFailures le p s) = st_users s"
  by (auto simp: recordLoginFailure_def clearLoginFailures_def RecordLoginIPFailure_def ClearLoginIPFailures_def Let_def
      split: prod.split option.split if_splits)

lemma basic_frame [simp]: "st_users (snd (basicAuthSession env now r s)) = st_users s"
  by (auto simp: basicAuthSession_def Let_def split: option.split prod.split sum.split)

lemma request_frame [simp]: "st_users (ap_store (snd (sessionFromRequest env now r st))) = st_users (ap_store st)"
  using basic_frame [of env now r "ap_store st"]
  by (cases "basicAuthSession env now r (ap_store st)") (auto simp: sessionFromRequest_def split: option.split)

lemma current_frame [simp]: "st_users (ap_store (snd (currentSession env now r st))) = st_users (ap_store st)"
  using request_frame [of env now r st]
  by (cases "sessionFromRequest env now r st") (auto simp: currentSession_def split: option.split)

lemma audit_frame [simp]: "st_users (ap_store (audit_request env now r a d st)) = st_users (ap_store st)"
  using current_frame [of env now r st]
  by (cases "currentSession env now r st") (auto simp: audit_request_def on_store_def split: option.split)

lemma session_live_users: "st_users s = st_users s' \<Longrightarrow> session_live s sess = session_live s' sess"
  by (simp add: session_live_def UserAuthVersion_def)

lemma currentSession_live:
  assumes "fst (currentSession env now r st) = Some sess"
  shows "session_live (ap_store st) sess"
proof -
  obtain x st1 where x: "sessionFromRequest env now r st = (x, st1)" by fastforce
  with assms have "session_live (ap_store st1) sess" by (auto simp: currentSession_def split: option.splits if_splits)
  moreover have "st_users (ap_store st1) = st_users (ap_store st)" using request_frame [of env now r st] x by simp
  ultimately show ?thesis using session_live_users by blast
qed

section \<open>Properties\<close>

text \<open>
  C23: changing the password ends every session of the account: whatever is done to accounts afterwards, no
  request of any kind is answered with a session that was live before the change.
\<close>

theorem password_change_revokes_sessions:
  assumes "tbl_ok u_ID (st_users (ap_store st))"
    and "fst (currentSession env now r st) = Some cur" "handleChangeMyPassword env now hash r body st = (Inr x, st')"
    and "fst (currentSession env now0 r0 st) = Some sess" "ss_UserID sess = ss_UserID cur"
    and "user_step\<^sup>*\<^sup>* (ap_store st') (ap_store st'')"
  shows "fst (currentSession env now' r' st'') \<noteq> Some sess"
proof
  assume "fst (currentSession env now' r' st'') = Some sess"
  then have live: "session_live (ap_store st'') sess" by (rule currentSession_live)
  obtain st1 where cur: "currentSession env now r st = (Some cur, st1)" using assms(2) by (cases "currentSession env now r st") auto
  have users: "st_users (ap_store st1) = st_users (ap_store st)" using current_frame [of env now r st] cur by simp
  from assms(3) cur obtain s2 y where upd: "UpdateUserPassword hash (ss_UserID cur) (ap_store st1) = (Inr y, s2)"
    and s2: "st_users (ap_store st') = st_users s2"
    by (auto simp: handleChangeMyPassword_def split: option.splits prod.splits sum.splits if_splits)
  from currentSession_live [OF assms(4)] obtain u where
    u: "u \<in> set (trows (st_users (ap_store st)))" "u_ID u = ss_UserID sess" "u_AuthVersion u = ss_AuthVersion sess"
    by (rule session_liveD)
  have "version_reached (ss_UserID cur) (u_AuthVersion u + 1) s2"
    using password_reaches [OF upd, of u] u assms(1,5) users by simp
  then have "version_reached (ss_UserID sess) (u_AuthVersion u + 1) (ap_store st')"
    using assms(5) by (simp add: version_reached_def s2)
  from version_reached_dead [OF version_reached_steps [OF assms(6) this]] u(3) live show False by simp
qed

text \<open>
  Resetting a password does not look at the tenant of the account: an administrator of one tenant sets the
  password of an account of another, the system root's too, and can then log in as it.
\<close>

theorem admin_resets_foreign_password:
  assumes "fst (requireAdmin env now r st) = Passed sess" "u \<in> set (trows (st_users (ap_store st)))"
    and "\<forall>v\<in>set (trows (st_users (ap_store st))). v \<noteq> u \<longrightarrow> u_ID v \<noteq> u_ID u \<and> u_Username v \<noteq> u_Username u"
    and "ss_TenantID sess \<noteq> u_TenantID u" "pw \<noteq> []" "ae_CheckPassword env hash pw"
  shows "\<exists>st'. handleAdminChangePassword env now hash r param (u_ID u) (Some pw) st = (Inr (), st')
    \<and> Authenticate (ae_CheckPassword env) (ap_store st') (u_Username u) pw = Inr (u_ID u, u_IsAdmin u = 1)"
proof -
  obtain st1 where gate: "requireAdmin env now r st = (Passed sess, st1)" using assms(1) by (cases "requireAdmin env now r st") auto
  have "st1 = snd (currentSession env now r st)"
    using gate by (cases "currentSession env now r st") (auto simp: requireAdmin_def split: option.splits if_splits)
  then have users: "st_users (ap_store st1) = st_users (ap_store st)" by simp
  let ?f = "\<lambda>v. if u_ID v = u_ID u then v\<lparr>u_PasswordHash := hash, u_AuthVersion := u_AuthVersion v + 1\<rparr> else v"
  let ?rows = "trows (st_users (ap_store st))"
  have "filter (\<lambda>v. u_ID v = u_ID u) ?rows \<noteq> []" using assms(2) by (auto simp: filter_empty_conv)
  then obtain s2 where upd: "UpdateUserPassword hash (u_ID u) (ap_store st1) = (Inr (), s2)"
    and s2: "trows (st_users s2) = map ?f ?rows"
    by (simp add: UpdateUserPassword_def tbl_update_def users)
  let ?st' = "audit_request env now r ''password.reset'' (''user_id='' @ param) (st1\<lparr>ap_store := s2\<rparr>)"
  have res: "handleAdminChangePassword env now hash r param (u_ID u) (Some pw) st = (Inr (), ?st')"
    using gate upd assms(5) by (simp add: handleAdminChangePassword_def account_change_def)
  have "find (\<lambda>v. u_Username v = u_Username u) (map ?f rows) = Some (?f u)"
    if "set rows \<subseteq> set ?rows" "u \<in> set rows" for rows
    using that
  proof (induction rows)
    case (Cons v rows)
    show ?case
    proof (cases "v = u")
      case False
      with assms(3) Cons.prems(1) have "u_Username v \<noteq> u_Username u" "u_ID v \<noteq> u_ID u" by auto
      with Cons False show ?thesis by simp
    qed simp
  qed simp
  then have "Authenticate (ae_CheckPassword env) (ap_store ?st') (u_Username u) pw = Inr (u_ID u, u_IsAdmin u = 1)"
    using assms(2,6) s2 by (simp add: Authenticate_def tbl_row_def)
  with res show ?thesis by blast
qed

section \<open>Witnesses\<close>

definition sample_auth_env :: auth_env where
  "sample_auth_env = \<lparr>ae_Login = \<lparr>le_FailureLimit = None, le_FailureWindow = None, le_BanBase = None, le_BanMax = None,
       le_TrustProxy = False, le_ParseIP = Some, le_IsLoopback = (\<lambda>_. False), le_DurationText = (\<lambda>_. [])\<rparr>,
     ae_CheckPassword = (\<lambda>h p. h = p), ae_JWT = sample_auth, ae_Yaml = line_codec\<rparr>"

definition sample_accounts :: api_state where
  "sample_accounts = \<lparr>ap_store = (empty_store ''/d'')\<lparr>
       st_users := \<lparr>trows = [
         \<lparr>u_ID = 1, u_Username = ''root'', u_PasswordHash = ''r'', u_Role = ''admin'', u_IsAdmin = 1, u_TenantID = 1,
          u_Token = ''t1'', u_AuthVersion = 1, u_CreatedAt = None\<rparr>,
         \<lparr>u_ID = 3, u_Username = ''ann'', u_PasswordHash = ''a'', u_Role = ''admin'', u_IsAdmin = 1, u_TenantID = 7,
          u_Token = ''t3'', u_AuthVersion = 1, u_CreatedAt = None\<rparr>], tnext = 4\<rparr>\<rparr>,
     ap_servers = [], ap_sessions = [(''sid'', sample_login\<lparr>ss_Expires := 9\<rparr>)]\<rparr>"

definition sample_request :: auth_request where
  "sample_request = \<lparr>ar_Peer = \<lparr>pr_Host = ''10.0.0.1'', pr_RealIP = [], pr_ForwardedFor = []\<rparr>, ar_Authorization = [],
     ar_Basic = None, ar_JWT = None, ar_SessionID = Some ''sid''\<rparr>"

lemma sample_live: "fst (currentSession sample_auth_env 0 sample_request sample_accounts) = Some (sample_login\<lparr>ss_Expires := 9\<rparr>)"
proof -
  have "(case fst (currentSession sample_auth_env 0 sample_request sample_accounts) of
      Some x \<Rightarrow> x = sample_login\<lparr>ss_Expires := 9\<rparr> | None \<Rightarrow> False)" by code_simp
  then show ?thesis by (auto split: option.splits)
qed

lemma password_change_revokes_sessions_witness:
  "fst (currentSession sample_auth_env 0 sample_request
     (snd (handleChangeMyPassword sample_auth_env 0 ''b'' sample_request (Some (''a'', ''b'')) sample_accounts)))
     \<noteq> Some (sample_login\<lparr>ss_Expires := 9\<rparr>)"
proof -
  let ?p = "handleChangeMyPassword sample_auth_env 0 ''b'' sample_request (Some (''a'', ''b'')) sample_accounts"
  have "is_ok (fst ?p)" by code_simp
  then obtain x where p: "?p = (Inr x, snd ?p)" using ok_pair by blast
  have ok: "tbl_ok u_ID (st_users (ap_store sample_accounts))" by (simp add: tbl_ok_def sample_accounts_def)
  show ?thesis by (rule password_change_revokes_sessions [OF ok sample_live p sample_live refl rtranclp.rtrancl_refl])
qed

lemma admin_resets_foreign_password_witness:
  "\<exists>st'. handleAdminChangePassword sample_auth_env 0 ''x'' sample_request ''1'' 1 (Some ''x'') sample_accounts = (Inr (), st')
    \<and> Authenticate (ae_CheckPassword sample_auth_env) (ap_store st') ''root'' ''x'' = Inr (1, True)"
proof -
  let ?root = "\<lparr>u_ID = 1, u_Username = ''root'', u_PasswordHash = ''r'', u_Role = ''admin'', u_IsAdmin = 1, u_TenantID = 1,
          u_Token = ''t1'', u_AuthVersion = 1, u_CreatedAt = None\<rparr>"
  have "(case fst (requireAdmin sample_auth_env 0 sample_request sample_accounts) of
      Passed x \<Rightarrow> x = sample_login\<lparr>ss_Expires := 9\<rparr> | _ \<Rightarrow> False)" by code_simp
  then have "fst (requireAdmin sample_auth_env 0 sample_request sample_accounts) = Passed (sample_login\<lparr>ss_Expires := 9\<rparr>)"
    by (auto split: gate.splits)
  from admin_resets_foreign_password [OF this, of ?root "''x''" "''x''" "''1''"] show ?thesis
    by (simp add: sample_accounts_def sample_login_def sample_auth_env_def)
qed

end
