(* ===== verification/PullApi.thy ===== *)
theory PullApi
  imports Sessions Bundle Compare Logs DeliveryNodes PushRun
begin

text \<open>
  The API that nodes pull from (\<open>internal/api/handlers_pull*.go\<close>, \<open>handlers_preview.go\<close>, \<open>handlers_diff.go\<close>,
  the heartbeat of \<open>handlers_delivery_nodes.go\<close>, \<open>BuildPreview\<close> of \<open>internal/template/preview.go\<close>): who may
  pull, which version and server a pull is for, what it records, and the deploy previews and comparisons.
  The bundle is the list of its archive entries; counters of \<open>metrics.go\<close> are left out.
\<close>

section \<open>Previews\<close>

datatype preview_warning = MissingFile string | DuplicateFiles string "string list"

record file_preview =
  fp_Basename :: string
  fp_Paths :: "string list"
  fp_Changes :: "key_change list"

record preview_report =
  pv_Project :: string
  pv_Version :: string
  pv_ServerID :: string
  pv_Files :: "file_preview list"
  pv_RenderedFiles :: "rendered_file list"
  pv_Warnings :: "preview_warning list"
  pv_PostHook :: string
  pv_PostHookEnv :: "(string \<times> string) list"
  pv_PostHookPlan :: "string list"

fun preview_files ::
  "formats \<Rightarrow> file_tree \<Rightarrow> (string \<times> string list) list \<Rightarrow> (string \<times> gmap) list \<Rightarrow> (file_preview \<times> preview_warning list) list res" where
  "preview_files fm root matches [] = Inr []"
| "preview_files fm root matches ((base, kv) # rest) =
     (let paths = paths_of matches base
      in case paths of
           [] \<Rightarrow>
             map_sum id (\<lambda>out. (\<lparr>fp_Basename = base, fp_Paths = [], fp_Changes = previewKeysWithoutFile (treeToFlat kv)\<rparr>,
                                [MissingFile base]) # out)
               (preview_files fm root matches rest)
         | rel # others \<Rightarrow>
             (case map_of root rel of
                None \<Rightarrow> Inl ErrNotExist
              | Some data \<Rightarrow>
                  map_sum id (\<lambda>out. (\<lparr>fp_Basename = base, fp_Paths = paths, fp_Changes = previewKeyChangesFromTree fm base data kv\<rparr>,
                                     if others = [] then [] else [DuplicateFiles base paths]) # out)
                    (preview_files fm root matches rest)))"

definition BuildPreview ::
  "formats \<Rightarrow> file_tree \<Rightarrow> string \<Rightarrow> string \<Rightarrow> string \<Rightarrow> (string \<times> gmap) list \<Rightarrow> string \<Rightarrow> (string \<times> string) list \<Rightarrow> preview_report res" where
  "BuildPreview fm root project version serverID byFile postHook postHookEnv =
     (case NormalizeFileOverrides byFile of
        Inl e \<Rightarrow> Inl e
      | Inr normalized \<Rightarrow>
          (case preview_files fm root (FindConfigFilesByBasename root) normalized of
             Inl e \<Rightarrow> Inl e
           | Inr files \<Rightarrow>
               (case BuildRenderedFiles fm root byFile of
                  Inl e \<Rightarrow> Inl e
                | Inr rendered \<Rightarrow>
                    Inr \<lparr>pv_Project = project, pv_Version = version, pv_ServerID = serverID, pv_Files = map fst files,
                         pv_RenderedFiles = rendered, pv_Warnings = concat (map snd files),
                         pv_PostHook = RenderHookTemplate postHook (HookTemplateVars project version serverID postHookEnv),
                         pv_PostHookEnv = postHookEnv, pv_PostHookPlan = []\<rparr>)))"

section \<open>State and identity\<close>

text \<open>The state of a pull request: the server's state and the tables of logs.\<close>

record pull_state =
  ps_api :: api_state
  ps_logs :: ops_logs

abbreviation ps_store :: "pull_state \<Rightarrow> store" where
  "ps_store w \<equiv> ap_store (ps_api w)"

definition on_api :: "(api_state \<Rightarrow> api_state) \<Rightarrow> pull_state \<Rightarrow> pull_state" where
  "on_api f w = w\<lparr>ps_api := f (ps_api w)\<rparr>"

record pull_env =
  pe_auth :: auth_env
  pe_bundle :: bundle_env
  pe_perm :: "string \<Rightarrow> int"

definition pullUserID :: "store \<Rightarrow> string \<Rightarrow> (int \<times> int) option" where
  "pullUserID s token = (case LookupPullToken s token of Inl _ \<Rightarrow> None | Inr p \<Rightarrow> Some p)"

definition user_name :: "store \<Rightarrow> int \<Rightarrow> string" where
  "user_name s uid = (case GetUserByID s uid of Inl _ \<Rightarrow> [] | Inr u \<Rightarrow> u_Username u)"

text \<open>A token decides alone; without one the session of the request does.\<close>

definition pullIdentity ::
  "auth_env \<Rightarrow> go_time \<Rightarrow> auth_request \<Rightarrow> string \<Rightarrow> api_state \<Rightarrow> (int \<times> int \<times> string) option \<times> api_state" where
  "pullIdentity env now r token st =
     (if token \<noteq> []
      then (case pullUserID (ap_store st) token of
              None \<Rightarrow> (None, st)
            | Some (uid, tid) \<Rightarrow> (Some (uid, tid, user_name (ap_store st) uid), st))
      else (case currentSession env now r st of
              (None, st1) \<Rightarrow> (None, st1)
            | (Some sess, st1) \<Rightarrow> (Some (ss_UserID sess, ss_TenantID sess, ss_Username sess), st1)))"

definition can_pull :: "store \<Rightarrow> int \<Rightarrow> int \<Rightarrow> bool" where
  "can_pull s uid projectID = (pullCanAccessProject s uid projectID = Inr True)"

section \<open>Pulling a bundle\<close>

record pull_query =
  pq_Token :: string
  pq_Project :: string
  pq_ServerID :: string
  pq_Version :: string
  pq_OS :: string
  pq_Arch :: string
  pq_Tags :: "string list"

definition recordPullProjectLog ::
  "go_time \<Rightarrow> string \<Rightarrow> int \<Rightarrow> int \<Rightarrow> string \<Rightarrow> pull_query \<Rightarrow> string \<Rightarrow> string \<Rightarrow> string \<Rightarrow> ops_logs \<Rightarrow> ops_logs" where
  "recordPullProjectLog now remote tenantID projectID username q version status msg l =
     RecordProjectLog now
       \<lparr>lg_ID = 0, lg_At = None, lg_TenantID = tenantID, lg_ProjectID = projectID, lg_Project = pq_Project q,
        lg_Username = username, lg_Action = ''pull'', lg_ServerID = pq_ServerID q, lg_Version = version, lg_OS = pq_OS q,
        lg_Arch = pq_Arch q, lg_Tags = join_with '','' (pq_Tags q), lg_Status = status, lg_Error = msg, lg_IP = remote\<rparr> l"

text \<open>The heartbeat of a one-shot pull.\<close>

definition pull_heartbeat :: "int \<Rightarrow> int \<Rightarrow> pull_query \<Rightarrow> string \<Rightarrow> node_heartbeat" where
  "pull_heartbeat tid projectID q version =
     \<lparr>hb_TenantID = tid, hb_ProjectID = projectID, hb_ServerID = pq_ServerID q, hb_Role = [], hb_Environment = [],
      hb_Labels = pq_Tags q, hb_OS = pq_OS q, hb_Arch = pq_Arch q, hb_CurrentVersion = version, hb_AppliedGeneration = 0,
      hb_Status = ''ok'', hb_LastError = [], hb_HeartbeatIntervalSeconds = 3600\<rparr>"

definition pull_options :: "pull_query \<Rightarrow> bundle_options" where
  "pull_options q = \<lparr>bo_OS = pq_OS q, bo_Arch = pq_Arch q, bo_Tags = pq_Tags q\<rparr>"

text \<open>The end of the handler, when project, version and access are settled.\<close>

definition serve_bundle ::
  "pull_env \<Rightarrow> go_time \<Rightarrow> string \<Rightarrow> auth_request \<Rightarrow> pull_query \<Rightarrow> int \<Rightarrow> int \<Rightarrow> string \<Rightarrow> string \<Rightarrow> pull_state \<Rightarrow>
     archive_entry list res \<times> pull_state" where
  "serve_bundle env now remote r q tid projectID username version w =
     (let log = (\<lambda>status msg w. w\<lparr>ps_logs := recordPullProjectLog now remote tid projectID username q version status msg (ps_logs w)\<rparr>);
          yaml = ae_Yaml (pe_auth env)
      in case getServerFile yaml tid (ps_api w) of
           (sf, st1) \<Rightarrow>
             (let w1 = w\<lparr>ps_api := st1\<rparr>
              in if Entry sf (pq_ServerID q) = None
                 then (Inl (ErrMsg ''server_id not configured in server.yaml''), log ''error'' ''server_id not configured'' w1)
                 else
                   (case BuildBundleWithOptions (pe_bundle env) (pe_perm env) (ps_store w1) tid sf (pq_Project q) version
                           (pq_ServerID q) (pull_options q) of
                      Inl e \<Rightarrow> (Inl e, log ''error'' ''bundle'' w1)
                    | Inr entries \<Rightarrow>
                        (let w2 = on_api (on_store (\<lambda>s. snd (HeartbeatDeliveryNode (pull_heartbeat tid projectID q version) now s))) w1;
                             w3 = log ''ok'' [] w2
                         in (Inr entries,
                             on_api (on_store (RecordAudit now username ''pull''
                               (''project='' @ pq_Project q @ '' version='' @ version @ '' server_id='' @ pq_ServerID q
                                 @ '' os='' @ pq_OS q @ '' arch='' @ pq_Arch q)
                               (clientIP (ae_Login (pe_auth env)) (ar_Peer r)))) w3)))))"

definition handlePull ::
  "pull_env \<Rightarrow> go_time \<Rightarrow> string \<Rightarrow> auth_request \<Rightarrow> pull_query \<Rightarrow> pull_state \<Rightarrow> archive_entry list res \<times> pull_state" where
  "handlePull env now remote r q w =
     (if pq_Project q = [] \<or> pq_ServerID q = [] then (Inl (ErrMsg ''project, server_id required''), w)
      else case pullIdentity (pe_auth env) now r (pq_Token q) (ps_api w) of
        (None, st1) \<Rightarrow> (Inl (ErrMsg ''invalid pull credentials''), w\<lparr>ps_api := st1\<rparr>)
      | (Some (uid, tid, username), st1) \<Rightarrow>
          (let w1 = w\<lparr>ps_api := st1\<rparr>; s = ap_store st1
           in case GetProjectByName s tid (pq_Project q) of
                Inl _ \<Rightarrow> (Inl (ErrMsg ''project not found''), w1)
              | Inr p \<Rightarrow>
                  if \<not> can_pull s uid (p_ID p) then (Inl (ErrMsg ''no access to project''), w1)
                  else
                    (let log = (\<lambda>version msg. w1\<lparr>ps_logs :=
                                  recordPullProjectLog now remote tid (p_ID p) username q version ''error'' msg (ps_logs w1)\<rparr>)
                     in case (if pq_Version q = [] then LatestPublishedVersion s (p_ID p) else Inr (pq_Version q)) of
                          Inl _ \<Rightarrow> (Inl (ErrMsg ''no published version''), log [] ''no published version'')
                        | Inr version \<Rightarrow>
                            (case GetVersion s (p_ID p) version of
                               Inl _ \<Rightarrow> (Inl (ErrMsg ''version not found''), log version ''version not found'')
                             | Inr v \<Rightarrow>
                                 if v_Status v \<noteq> ''published''
                                 then (Inl (ErrMsg ''version not published''), log version ''version not published'')
                                 else serve_bundle env now remote r q tid (p_ID p) username version w1))))"

section \<open>What a token may list\<close>

definition handlePullServerIDs :: "yaml_codec \<Rightarrow> string \<Rightarrow> api_state \<Rightarrow> string list res \<times> api_state" where
  "handlePullServerIDs yaml token st =
     (if token = [] then (Inl (ErrMsg ''token required''), st)
      else case pullTenant (ap_store st) token of
        None \<Rightarrow> (Inl (ErrMsg ''invalid token''), st)
      | Some (tid, _) \<Rightarrow> (case getServerFile yaml tid st of (sf, st1) \<Rightarrow> (Inr (ServerIDs sf), st1)))"

definition handlePullVersions :: "store \<Rightarrow> string \<Rightarrow> string \<Rightarrow> (string \<times> version list) res" where
  "handlePullVersions s token project =
     (if token = [] \<or> project = [] then Inl (ErrMsg ''token, project required'')
      else case pullUserID s token of
        None \<Rightarrow> Inl (ErrMsg ''invalid token'')
      | Some (uid, tid) \<Rightarrow>
          (case GetProjectByName s tid project of
             Inl _ \<Rightarrow> Inl (ErrMsg ''project not found'')
           | Inr p \<Rightarrow>
               if \<not> can_pull s uid (p_ID p) then Inl (ErrMsg ''no access to project'')
               else Inr (project, ListPublishedVersions s (p_ID p))))"

section \<open>Deploy previews\<close>

definition buildDeployPreview ::
  "bundle_env \<Rightarrow> yaml_codec \<Rightarrow> int \<Rightarrow> string \<Rightarrow> string \<Rightarrow> string \<Rightarrow> api_state \<Rightarrow> preview_report res \<times> api_state" where
  "buildDeployPreview be yaml tenantID project version0 serverID st =
     (case getServerFile yaml tenantID st of
        (sf, st1) \<Rightarrow>
          (let s = ap_store st1
           in case Entry sf serverID of
                None \<Rightarrow> (Inl (ErrMsg ''server_id not in server.yaml''), st1)
              | Some entry \<Rightarrow>
                  (case GetProjectByName s tenantID project of
                     Inl _ \<Rightarrow> (Inl (ErrMsg ''project not found''), st1)
                   | Inr p \<Rightarrow>
                       (case (if version0 = [] then LatestPublishedVersion s (p_ID p) else Inr version0) of
                          Inl _ \<Rightarrow> (Inl (ErrMsg ''no published version''), st1)
                        | Inr version \<Rightarrow>
                            (case GetVersion s (p_ID p) version of
                               Inl _ \<Rightarrow> (Inl (ErrMsg ''version not found''), st1)
                             | Inr _ \<Rightarrow>
                                 (case PrepareReplacements (se_Replacements entry) of
                                    Inl e \<Rightarrow> (Inl e, st1)
                                  | Inr rep \<Rightarrow>
                                      (case VersionDir s tenantID project version of
                                         Inl e \<Rightarrow> (Inl e, st1)
                                       | Inr dir \<Rightarrow>
                                           (let root = walk_files s dir
                                            in case BuildPreview (be_formats be) root project version serverID rep (se_PostHook entry) (se_PostHookEnv entry) of
                                                 Inl e \<Rightarrow> (Inl e, st1)
                                               | Inr report \<Rightarrow>
                                                   (let plan = (case map_of root DefaultPath of
                                                          None \<Rightarrow> []
                                                        | Some data \<Rightarrow>
                                                            (case be_steps be data of
                                                               Inl _ \<Rightarrow> []
                                                             | Inr steps \<Rightarrow> (case PlanLines (be_goos be) steps of Inl _ \<Rightarrow> [] | Inr lines \<Rightarrow> lines)))
                                                    in (Inr (report\<lparr>pv_PostHookPlan := plan\<rparr>), st1))))))))))"

definition handlePullPreview ::
  "pull_env \<Rightarrow> go_time \<Rightarrow> auth_request \<Rightarrow> string \<Rightarrow> string \<Rightarrow> string \<Rightarrow> string \<Rightarrow> api_state \<Rightarrow> preview_report res \<times> api_state" where
  "handlePullPreview env now r token project version serverID st =
     (if token = [] \<or> project = [] \<or> serverID = [] then (Inl (ErrMsg ''token, project, server_id required''), st)
      else case pullUserID (ap_store st) token of
        None \<Rightarrow> (Inl (ErrMsg ''invalid token''), st)
      | Some (uid, tid) \<Rightarrow>
          (case GetProjectByName (ap_store st) tid project of
             Inl _ \<Rightarrow> (Inl (ErrMsg ''project not found''), st)
           | Inr p \<Rightarrow>
               if \<not> can_pull (ap_store st) uid (p_ID p) then (Inl (ErrMsg ''no access to project''), st)
               else
                 (case buildDeployPreview (pe_bundle env) (ae_Yaml (pe_auth env)) tid project version serverID st of
                    (Inl e, st1) \<Rightarrow> (Inl e, st1)
                  | (Inr report, st1) \<Rightarrow>
                      (Inr report,
                       on_store (RecordAudit now (user_name (ap_store st) uid) ''pull.preview''
                         (''project='' @ project @ '' server_id='' @ serverID)
                         (clientIP (ae_Login (pe_auth env)) (ar_Peer r))) st1))))"

definition handleDeployPreview ::
  "pull_env \<Rightarrow> go_time \<Rightarrow> auth_request \<Rightarrow> string \<Rightarrow> string \<Rightarrow> string \<Rightarrow> api_state \<Rightarrow> preview_report res \<times> api_state" where
  "handleDeployPreview env now r project version serverID st =
     (if project = [] \<or> version = [] \<or> serverID = [] then (Inl (ErrMsg ''project, version, server_id required''), st)
      else case tenantFromSession (pe_auth env) now r st of
        (None, st1) \<Rightarrow> (Inl (ErrMsg ''login required''), st1)
      | (Some tid, st1) \<Rightarrow> buildDeployPreview (pe_bundle env) (ae_Yaml (pe_auth env)) tid project version serverID st1)"

section \<open>Comparisons\<close>

definition serveDeployDiff ::
  "pull_env \<Rightarrow> int \<Rightarrow> int \<Rightarrow> string \<Rightarrow> string \<Rightarrow> string \<Rightarrow> string \<Rightarrow> api_state \<Rightarrow> version_diff_report res \<times> api_state" where
  "serveDeployDiff env tenantID userID project from to serverID st =
     (let s = ap_store st
      in if project = [] \<or> from = [] \<or> to = [] \<or> serverID = [] then (Inl (ErrMsg ''project, from, to, server_id required''), st)
         else case GetProjectByName s tenantID project of
           Inl _ \<Rightarrow> (Inl (ErrMsg ''project not found''), st)
         | Inr p \<Rightarrow>
             if \<not> can_pull s userID (p_ID p) then (Inl (ErrMsg ''no access to project''), st)
             else
               (case GetVersion s (p_ID p) from of
                  Inl _ \<Rightarrow> (Inl (ErrMsg (''version not found: '' @ from)), st)
                | Inr _ \<Rightarrow>
                    (case GetVersion s (p_ID p) to of
                       Inl _ \<Rightarrow> (Inl (ErrMsg (''version not found: '' @ to)), st)
                     | Inr _ \<Rightarrow>
                         (case getServerFile (ae_Yaml (pe_auth env)) tenantID st of
                            (sf, st1) \<Rightarrow>
                              (case Entry sf serverID of
                                 None \<Rightarrow> (Inl (ErrMsg ''server_id not in server.yaml''), st1)
                               | Some entry \<Rightarrow>
                                   (case (VersionDir s tenantID project from, VersionDir s tenantID project to) of
                                      (Inl e, _) \<Rightarrow> (Inl e, st1)
                                    | (_, Inl e) \<Rightarrow> (Inl e, st1)
                                    | (Inr fromRoot, Inr toRoot) \<Rightarrow>
                                        (DiffVersions (be_formats (pe_bundle env)) (walk_files s fromRoot) (walk_files s toRoot)
                                           project from to serverID (Some entry), st1)))))))"

definition handlePullDiff ::
  "pull_env \<Rightarrow> string \<Rightarrow> string \<Rightarrow> string \<Rightarrow> string \<Rightarrow> string \<Rightarrow> api_state \<Rightarrow> version_diff_report res \<times> api_state" where
  "handlePullDiff env token project from to serverID st =
     (if token = [] then (Inl (ErrMsg ''token required''), st)
      else case pullUserID (ap_store st) token of
        None \<Rightarrow> (Inl (ErrMsg ''invalid token''), st)
      | Some (uid, tid) \<Rightarrow> serveDeployDiff env tid uid project from to serverID st)"

definition handleDeployDiff ::
  "pull_env \<Rightarrow> go_time \<Rightarrow> auth_request \<Rightarrow> string \<Rightarrow> string \<Rightarrow> string \<Rightarrow> string \<Rightarrow> api_state \<Rightarrow> version_diff_report res \<times> api_state" where
  "handleDeployDiff env now r project from to serverID st =
     (case tenantFromSession (pe_auth env) now r st of
        (None, st1) \<Rightarrow> (Inl (ErrMsg ''login required''), st1)
      | (Some tid, st1) \<Rightarrow>
          (case currentSession (pe_auth env) now r st1 of
             (sess, st2) \<Rightarrow>
               serveDeployDiff env tid (case sess of None \<Rightarrow> 0 | Some u \<Rightarrow> ss_UserID u) project from to serverID st2))"

section \<open>Heartbeats\<close>

record heartbeat_request =
  hr_Project :: string
  hr_ServerID :: string
  hr_Role :: string
  hr_Environment :: string
  hr_Labels :: "string list"
  hr_OS :: string
  hr_Arch :: string
  hr_CurrentVersion :: string
  hr_AppliedGeneration :: int
  hr_Status :: string
  hr_ErrorCode :: string
  hr_HeartbeatIntervalSeconds :: int

record desired_response =
  de_Version :: string
  de_Generation :: int
  de_NeedsDeploy :: bool

datatype heartbeat_reply =
  HeartbeatOK delivery_node desired_response
| HeartbeatRetryAfter int
| HeartbeatDenied "int option"
| HeartbeatError go_error

definition safeAgentErrorCode :: "string \<Rightarrow> bool" where
  "safeAgentErrorCode value0 = (let v = trim_space value0 in length v \<le> 64 \<and> safeAPIIdentifier v)"

definition request_heartbeat :: "heartbeat_request \<Rightarrow> int \<Rightarrow> int \<Rightarrow> node_heartbeat" where
  "request_heartbeat req tid projectID =
     \<lparr>hb_TenantID = tid, hb_ProjectID = projectID, hb_ServerID = hr_ServerID req, hb_Role = hr_Role req,
      hb_Environment = hr_Environment req, hb_Labels = hr_Labels req, hb_OS = hr_OS req, hb_Arch = hr_Arch req,
      hb_CurrentVersion = hr_CurrentVersion req, hb_AppliedGeneration = hr_AppliedGeneration req, hb_Status = hr_Status req,
      hb_LastError = hr_ErrorCode req, hb_HeartbeatIntervalSeconds = hr_HeartbeatIntervalSeconds req\<rparr>"

definition desired_of :: "delivery_node \<Rightarrow> desired_response" where
  "desired_of n = \<lparr>de_Version = dn_DesiredVersion n, de_Generation = dn_DesiredGeneration n, de_NeedsDeploy = needs_deploy n\<rparr>"

text \<open>The body is none when it does not decode; \<open>header\<close> is the \<open>X-Express233-Token\<close> header.\<close>

definition handleDeliveryNodeHeartbeat ::
  "auth_env \<Rightarrow> go_time \<Rightarrow> auth_request \<Rightarrow> string \<Rightarrow> heartbeat_request option \<Rightarrow> api_state \<Rightarrow> heartbeat_reply \<times> api_state" where
  "handleDeliveryNodeHeartbeat env now r header body st =
     (case body of
        None \<Rightarrow> (HeartbeatError (ErrMsg ''invalid heartbeat body''), st)
      | Some req \<Rightarrow>
          (let token = trim_space header; le = ae_Login env; peer = ar_Peer r
           in case pullIdentity env now r token st of
                (None, st1) \<Rightarrow>
                  if token \<noteq> []
                  then (case recordAgentTokenFailure le peer now (ap_store st1) of
                          ((banned, retry, remaining), s2) \<Rightarrow>
                            (if banned then HeartbeatRetryAfter (max 1 (retry div Second)) else HeartbeatDenied (Some remaining),
                             st1\<lparr>ap_store := s2\<rparr>))
                  else (HeartbeatDenied None, st1)
              | (Some (uid, tid, username), st1) \<Rightarrow>
                  (let st2 = (if token \<noteq> [] then on_store (clearLoginFailures le peer) st1 else st1); s = ap_store st2
                   in if hr_Project req = [] \<or> hr_ServerID req = []
                      then (HeartbeatError (ErrMsg ''project and server_id required''), st2)
                      else case GetProjectByName s tid (hr_Project req) of
                        Inl _ \<Rightarrow> (HeartbeatError (ErrMsg ''project not found''), st2)
                      | Inr p \<Rightarrow>
                          if \<not> can_pull s uid (p_ID p) then (HeartbeatError (ErrMsg ''no access to project''), st2)
                          else
                            (case getServerFile (ae_Yaml env) tid st2 of
                               (sf, st3) \<Rightarrow>
                                 if Entry sf (hr_ServerID req) = None
                                 then (HeartbeatError (ErrMsg ''server_id not configured in server.yaml''), st3)
                                 else if hr_ErrorCode req \<noteq> [] \<and> \<not> safeAgentErrorCode (hr_ErrorCode req)
                                 then (HeartbeatError (ErrMsg ''error_code must be a safe identifier''), st3)
                                 else
                                   (case HeartbeatDeliveryNode (request_heartbeat req tid (p_ID p)) now (ap_store st3) of
                                      (Inl e, s4) \<Rightarrow> (HeartbeatError e, st3\<lparr>ap_store := s4\<rparr>)
                                    | (Inr node, s4) \<Rightarrow>
                                        (HeartbeatOK node (desired_of node),
                                         st3\<lparr>ap_store := RecordAudit now username ''delivery.agent.heartbeat''
                                           (''project='' @ hr_Project req @ '' server_id='' @ hr_ServerID req @ '' status='' @ dn_Status node)
                                           (clientIP le peer) s4\<rparr>))))))"

section \<open>Lemmas\<close>

lemma pullIdentity_frame:
  "st_users (ap_store (snd (pullIdentity env now r token st))) = st_users (ap_store st)"
  using current_frame [of env now r st]
  by (cases "currentSession env now r st") (auto simp: pullIdentity_def split: option.split prod.split)

text \<open>What a served bundle went through.\<close>

lemma serve_bundle_Inr:
  assumes "serve_bundle env now remote r q tid projectID username version w = (Inr entries, w')"
  obtains sf st1 entry where "getServerFile (ae_Yaml (pe_auth env)) tid (ps_api w) = (sf, st1)"
    "Entry sf (pq_ServerID q) = Some entry"
    "BuildBundleWithOptions (pe_bundle env) (pe_perm env) (ap_store st1) tid sf (pq_Project q) version (pq_ServerID q)
       (pull_options q) = Inr entries"
  using assms by (auto simp: serve_bundle_def Let_def split: prod.splits sum.splits if_splits)

section \<open>Properties\<close>

text \<open>
  C13: a bundle is only ever served to a known user or token, from a project of that user's tenant the user is
  a member of or administrates as the tenant's administrator, in a published version, for a server id that the
  tenant's \<open>server.yaml\<close> configures; and the entries are the bundle of exactly that version.
\<close>

theorem pull_serves_published_only:
  assumes "handlePull env now remote r q w = (Inr entries, w')"
  shows "\<exists>uid tid username st1 p version v sf st2 entry.
     pullIdentity (pe_auth env) now r (pq_Token q) (ps_api w) = (Some (uid, tid, username), st1)
   \<and> p \<in> set (trows (st_projects (ap_store st1))) \<and> p_TenantID p = tid \<and> p_Name p = pq_Project q
   \<and> (UserRole (ap_store st1) uid = Inr RoleAdmin
      \<or> (\<exists>m\<in>set (st_members (ap_store st1)). is_member (p_ID p) uid m))
   \<and> v \<in> set (trows (st_versions (ap_store st1))) \<and> v_ProjectID v = p_ID p \<and> v_Version v = version
   \<and> v_Status v = ''published'' \<and> (pq_Version q \<noteq> [] \<longrightarrow> version = pq_Version q)
   \<and> getServerFile (ae_Yaml (pe_auth env)) tid st1 = (sf, st2) \<and> Entry sf (pq_ServerID q) = Some entry
   \<and> BuildBundleWithOptions (pe_bundle env) (pe_perm env) (ap_store st2) tid sf (pq_Project q) version (pq_ServerID q)
        (pull_options q) = Inr entries"
proof -
  from assms obtain uid tid username st1 p version v where
    ident: "pullIdentity (pe_auth env) now r (pq_Token q) (ps_api w) = (Some (uid, tid, username), st1)" and
    proj: "GetProjectByName (ap_store st1) tid (pq_Project q) = Inr p" and
    pull: "can_pull (ap_store st1) uid (p_ID p)" and
    ver: "(if pq_Version q = [] then LatestPublishedVersion (ap_store st1) (p_ID p) else Inr (pq_Version q)) = Inr version" and
    row: "GetVersion (ap_store st1) (p_ID p) version = Inr v" "v_Status v = ''published''" and
    serve: "serve_bundle env now remote r q tid (p_ID p) username version (w\<lparr>ps_api := st1\<rparr>) = (Inr entries, w')"
    by (auto simp: handlePull_def Let_def split: if_splits prod.splits option.splits sum.splits)
  have p: "p \<in> set (trows (st_projects (ap_store st1)))" "p_TenantID p = tid" "p_Name p = pq_Project q"
    using proj tbl_row_Inr by (fastforce simp: GetProjectByName_def)+
  have member: "UserRole (ap_store st1) uid = Inr RoleAdmin \<or> (\<exists>m\<in>set (st_members (ap_store st1)). is_member (p_ID p) uid m)"
    using pull
    by (auto simp: can_pull_def pullCanAccessProject_def ProjectAccess_def ProjectMemberRole_def
        dest!: find_Some_iff2 split: sum.splits if_splits option.splits)
  have v: "v \<in> set (trows (st_versions (ap_store st1)))" "v_ProjectID v = p_ID p" "v_Version v = version"
    using row(1) tbl_row_Inr by (fastforce simp: GetVersion_def is_version_def)+
  have "pq_Version q \<noteq> [] \<longrightarrow> version = pq_Version q" using ver by auto
  moreover obtain sf st2 entry where "getServerFile (ae_Yaml (pe_auth env)) tid st1 = (sf, st2)"
    "Entry sf (pq_ServerID q) = Some entry"
    "BuildBundleWithOptions (pe_bundle env) (pe_perm env) (ap_store st2) tid sf (pq_Project q) version (pq_ServerID q)
        (pull_options q) = Inr entries"
    using serve_bundle_Inr [OF serve] by auto
  ultimately show ?thesis using ident p member v row(2) by blast
qed

definition sample_pull_store :: store where
  "sample_pull_store = sample_published\<lparr>
     st_users := \<lparr>trows = [\<lparr>u_ID = 3, u_Username = ''ann'', u_PasswordHash = ''a'', u_Role = [], u_IsAdmin = 0, u_TenantID = 7,
       u_Token = ''t3'', u_AuthVersion = 1, u_CreatedAt = None\<rparr>], tnext = 4\<rparr>,
     st_members := [\<lparr>pm_ProjectID = 1, pm_UserID = 3, pm_Role = ''viewer'', pm_JoinedAt = None\<rparr>],
     st_files := [(''/d/userdata/acme/projects/game/1.0.0/a.txt'', ''A'')]\<rparr>"

definition sample_pull :: pull_state where
  "sample_pull = \<lparr>ps_api = \<lparr>ap_store = sample_pull_store, ap_servers = [(7, [(''s1'', plain_entry)])], ap_sessions = []\<rparr>,
     ps_logs = \<lparr>ol_projects = empty_table, ol_uploads = empty_table\<rparr>\<rparr>"

definition sample_query :: pull_query where
  "sample_query = \<lparr>pq_Token = ''t3'', pq_Project = ''game'', pq_ServerID = ''s1'', pq_Version = [], pq_OS = ''linux'',
     pq_Arch = [], pq_Tags = []\<rparr>"

definition sample_pull_env :: pull_env where
  "sample_pull_env = \<lparr>pe_auth = sample_auth_env, pe_bundle = sample_env, pe_perm = (\<lambda>_. 420)\<rparr>"

lemma pull_serves_published_only_witness:
  "\<exists>entries. fst (handlePull sample_pull_env 0 [] sample_request sample_query sample_pull) = Inr entries
     \<and> (\<exists>v\<in>set (trows (st_versions sample_pull_store)). v_Status v = ''published'')"
proof -
  let ?p = "handlePull sample_pull_env 0 [] sample_request sample_query sample_pull"
  have "is_ok (fst ?p)" by code_simp
  then obtain entries w' where p: "?p = (Inr entries, w')" using ok_pair by blast
  have "pullIdentity (pe_auth sample_pull_env) 0 sample_request (pq_Token sample_query) (ps_api sample_pull)
      = (Some (3, 7, ''ann''), ps_api sample_pull)"
    by (simp add: pullIdentity_def pullUserID_def LookupPullToken_def user_name_def GetUserByID_def tbl_row_def
        sample_query_def sample_pull_def sample_pull_store_def)
  with pull_serves_published_only [OF p] p show ?thesis by (auto simp: sample_pull_def)
qed

end
