(* ===== verification/Agent.thy ===== *)
theory Agent
  imports PullApi
begin

text \<open>
  The agent of a node (\<open>internal/cli/agent.go\<close>, with \<open>MergePullOptions\<close> of \<open>configfile.go\<close>): options, the
  local state file, heartbeats, one reconciliation cycle and the loop around it.  The deployment runner and
  the transport to the server act on a world of their own; the runner is a program outside the repository and
  the transport carries the body of a heartbeat and the reply.  The JSON codec of the state file is a parameter, and
  so is writing a file, which replaces the old content or leaves it (the code renames a temporary file).
\<close>

section \<open>Options\<close>

record user_config =
  uc_Server :: string
  uc_Token :: string
  uc_Username :: string
  uc_Password :: string
  uc_Project :: string
  uc_Dest :: string

record pull_opts =
  po_ServerURL :: string
  po_Project :: string
  po_ServerID :: string
  po_Token :: string
  po_Username :: string
  po_Password :: string
  po_Version :: string
  po_DestDir :: string
  po_OS :: string
  po_Arch :: string
  po_Tags :: "string list"
  po_Retries :: int
  po_SkipHook :: bool

definition or_else :: "string \<Rightarrow> string \<Rightarrow> string" where
  "or_else a b = (if a = [] then b else a)"

text \<open>The configuration file fills what the command line left out; an unreadable one is ignored.\<close>

definition MergePullOptions :: "user_config option \<Rightarrow> pull_opts \<Rightarrow> pull_opts" where
  "MergePullOptions cfg opts =
     (case cfg of
        None \<Rightarrow> opts
      | Some c \<Rightarrow>
          opts\<lparr>po_ServerURL := or_else (po_ServerURL opts) (uc_Server c), po_Token := or_else (po_Token opts) (uc_Token c),
               po_Username := or_else (po_Username opts) (uc_Username c), po_Password := or_else (po_Password opts) (uc_Password c),
               po_Project := or_else (po_Project opts) (uc_Project c),
               po_DestDir := (if (po_DestDir opts = [] \<or> po_DestDir opts = ''.'') \<and> uc_Dest c \<noteq> [] then uc_Dest c
                              else po_DestDir opts)\<rparr>)"

record agent_options =
  ag_ServerURL :: string
  ag_Project :: string
  ag_ServerID :: string
  ag_Token :: string
  ag_Username :: string
  ag_Password :: string
  ag_RootDir :: string
  ag_Runner :: string
  ag_Role :: string
  ag_Environment :: string
  ag_Labels :: "string list"
  ag_OS :: string
  ag_Arch :: string
  ag_Interval :: duration
  ag_Once :: bool

definition empty_pull_opts :: pull_opts where
  "empty_pull_opts = \<lparr>po_ServerURL = [], po_Project = [], po_ServerID = [], po_Token = [], po_Username = [], po_Password = [],
     po_Version = [], po_DestDir = [], po_OS = [], po_Arch = [], po_Tags = [], po_Retries = 0, po_SkipHook = False\<rparr>"

definition mergeAgentOptions :: "user_config option \<Rightarrow> string \<Rightarrow> string \<Rightarrow> agent_options \<Rightarrow> agent_options" where
  "mergeAgentOptions cfg goos goarch opts =
     (let p = MergePullOptions cfg
                (empty_pull_opts\<lparr>po_ServerURL := ag_ServerURL opts, po_Project := ag_Project opts, po_ServerID := ag_ServerID opts,
                   po_Token := ag_Token opts, po_Username := ag_Username opts, po_Password := ag_Password opts\<rparr>);
          windows = (goos = ''windows'')
      in opts\<lparr>ag_ServerURL := po_ServerURL p, ag_Project := po_Project p, ag_ServerID := po_ServerID p, ag_Token := po_Token p,
              ag_Username := po_Username p, ag_Password := po_Password p,
              ag_OS := or_else (ag_OS opts) goos, ag_Arch := or_else (ag_Arch opts) goarch,
              ag_Interval := (if ag_Interval opts = 0 then 60 * Second else ag_Interval opts),
              ag_Runner := or_else (ag_Runner opts) (if windows then ''safe-deploy.ps1'' else ''safe-deploy.sh''),
              ag_RootDir := or_else (ag_RootDir opts)
                (if windows then ''C:'' @ [CHR 0x5C] @ ''express233'' @ [CHR 0x5C] @ ''game-servers'' else ''/opt/game-servers'')\<rparr>)"

text \<open>\<open>url_ok\<close>: the text is an absolute http or https URL with a host, as package \<open>net/url\<close> parses it.\<close>

definition validateAgentOptions :: "(string \<Rightarrow> bool) \<Rightarrow> agent_options \<Rightarrow> unit res" where
  "validateAgentOptions url_ok opts =
     (if ag_ServerURL opts = [] \<or> ag_Project opts = [] \<or> ag_ServerID opts = []
      then Inl (ErrMsg ''agent requires --server, --project, and --server-id'')
      else if ag_Token opts = [] \<and> (ag_Username opts = [] \<or> ag_Password opts = [])
      then Inl (ErrMsg ''agent requires --token or --username/--password'')
      else if ag_Interval opts < 10 * Second \<or> ag_Interval opts > Hour
      then Inl (ErrMsg ''agent interval must be between 10s and 1h'')
      else if \<not> url_ok (ag_ServerURL opts) then Inl (ErrMsg ''invalid server URL'')
      else Inr ())"

section \<open>The state file\<close>

record agent_state =
  as_CurrentVersion :: string
  as_AppliedGeneration :: int

definition agentStatePath :: "string \<Rightarrow> string \<Rightarrow> string" where
  "agentStatePath root serverID =
     path_join (path_join root ''.express233-agent'')
       (map (\<lambda>c. if c = slash \<or> c = CHR 0x5C \<or> c = CHR '':'' then CHR ''_'' else c) serverID @ ''.json'')"

text \<open>The machine's files and the world behind the runner and the transport.\<close>

record 'w agent_node =
  an_files :: "(string \<times> string) list"
  an_world :: 'w

record agent_response =
  ar_Version :: string
  ar_Generation :: int
  ar_NeedsDeploy :: bool

text \<open>A runner is given its program, arguments and the variables added to its environment.\<close>

record runner_command =
  rc_Program :: string
  rc_Args :: "string list"
  rc_Env :: "(string \<times> string) list"

record 'w agent_env =
  ae_unmarshal :: "string \<Rightarrow> agent_state option"
  ae_marshal :: "agent_state \<Rightarrow> string"
  ae_write :: "string \<Rightarrow> string \<Rightarrow> (string \<times> string) list \<Rightarrow> (string \<times> string) list option"
  ae_look_path :: "string \<Rightarrow> bool"
  ae_run :: "runner_command \<Rightarrow> 'w \<Rightarrow> bool \<times> 'w"
  ae_post :: "heartbeat_request \<Rightarrow> 'w \<Rightarrow> agent_response option \<times> 'w"

definition loadAgentState :: "'w agent_env \<Rightarrow> string \<Rightarrow> (string \<times> string) list \<Rightarrow> agent_state res" where
  "loadAgentState env path files =
     (case map_of files path of
        None \<Rightarrow> Inr \<lparr>as_CurrentVersion = [], as_AppliedGeneration = 0\<rparr>
      | Some data \<Rightarrow> (case ae_unmarshal env data of None \<Rightarrow> Inl (ErrMsg ''json'') | Some st \<Rightarrow> Inr st))"

definition saveAgentState :: "'w agent_env \<Rightarrow> string \<Rightarrow> agent_state \<Rightarrow> 'w agent_node \<Rightarrow> unit res \<times> 'w agent_node" where
  "saveAgentState env path st n =
     (case ae_write env path (ae_marshal env st) (an_files n) of
        None \<Rightarrow> (Inl (ErrMsg ''write''), n)
      | Some files \<Rightarrow> (Inr (), n\<lparr>an_files := files\<rparr>))"

section \<open>Heartbeats and deployments\<close>

definition agent_heartbeat :: "agent_options \<Rightarrow> agent_state \<Rightarrow> string \<Rightarrow> string \<Rightarrow> heartbeat_request" where
  "agent_heartbeat opts st status errorCode =
     \<lparr>hr_Project = ag_Project opts, hr_ServerID = ag_ServerID opts, hr_Role = ag_Role opts, hr_Environment = ag_Environment opts,
      hr_Labels = ag_Labels opts, hr_OS = ag_OS opts, hr_Arch = ag_Arch opts, hr_CurrentVersion = as_CurrentVersion st,
      hr_AppliedGeneration = as_AppliedGeneration st, hr_Status = status, hr_ErrorCode = errorCode,
      hr_HeartbeatIntervalSeconds = ag_Interval opts div Second\<rparr>"

definition sendAgentHeartbeat ::
  "'w agent_env \<Rightarrow> agent_options \<Rightarrow> agent_state \<Rightarrow> string \<Rightarrow> string \<Rightarrow> 'w agent_node \<Rightarrow> agent_response option \<times> 'w agent_node" where
  "sendAgentHeartbeat env opts st status errorCode n =
     (case ae_post env (agent_heartbeat opts st status errorCode) (an_world n) of (reply, w) \<Rightarrow> (reply, n\<lparr>an_world := w\<rparr>))"

definition runAgentDeployment :: "'w agent_env \<Rightarrow> agent_options \<Rightarrow> string \<Rightarrow> 'w agent_node \<Rightarrow> bool \<times> 'w agent_node" where
  "runAgentDeployment env opts version n =
     (let args = [''--backup'', ''--server-id'', ag_ServerID opts, ''--version'', version, ''--root'', ag_RootDir opts];
          ps = (lower (path_ext (ag_Runner opts)) = ''.ps1'');
          command =
            \<lparr>rc_Program = (if ps then (if ae_look_path env ''pwsh'' then ''pwsh'' else ''powershell'') else ag_Runner opts),
             rc_Args = (if ps then [''-NoProfile'', ''-NonInteractive'', ''-File'', ag_Runner opts] @ args else args),
             rc_Env = [(''EXPRESS233_SERVER'', ag_ServerURL opts), (''EXPRESS233_PROJECT'', ag_Project opts),
                       (''EXPRESS233_SERVER_ID'', ag_ServerID opts), (''EXPRESS233_TOKEN'', ag_Token opts),
                       (''EXPRESS233_USERNAME'', ag_Username opts), (''EXPRESS233_PASSWORD'', ag_Password opts),
                       (''EXPRESS233_TAGS'', join_with '','' (ag_Labels opts))]\<rparr>
      in case ae_run env command (an_world n) of (ok, w) \<Rightarrow> (ok, n\<lparr>an_world := w\<rparr>))"

text \<open>
  One cycle: a heartbeat, and when the server asks for it a deployment of the desired version, framed by
  heartbeats that report it.  The state file is written only after the runner has succeeded.
\<close>

definition runAgentCycle :: "'w agent_env \<Rightarrow> agent_options \<Rightarrow> 'w agent_node \<Rightarrow> unit res \<times> 'w agent_node" where
  "runAgentCycle env opts n =
     (let path = agentStatePath (ag_RootDir opts) (ag_ServerID opts)
      in case loadAgentState env path (an_files n) of
           Inl e \<Rightarrow> (Inl e, n)
         | Inr st \<Rightarrow>
             (case sendAgentHeartbeat env opts st ''ok'' [] n of
                (None, n1) \<Rightarrow> (Inl (ErrMsg ''heartbeat''), n1)
              | (Some reply, n1) \<Rightarrow>
                  if \<not> ar_NeedsDeploy reply \<or> ar_Version reply = [] then (Inr (), n1)
                  else
                    (let n2 = snd (sendAgentHeartbeat env opts st ''deploying'' [] n1)
                     in case runAgentDeployment env opts (ar_Version reply) n2 of
                          (False, n3) \<Rightarrow>
                            (Inl (ErrMsg ''deployment runner failed''),
                             snd (sendAgentHeartbeat env opts st ''error'' ''deployment_failed'' n3))
                        | (True, n3) \<Rightarrow>
                            (let next = \<lparr>as_CurrentVersion = ar_Version reply, as_AppliedGeneration = ar_Generation reply\<rparr>
                             in case saveAgentState env path next n3 of
                                  (Inl e, n4) \<Rightarrow>
                                    (Inl (ErrMsg ''persist applied generation''),
                                     snd (sendAgentHeartbeat env opts st ''error'' ''state_persist_failed'' n4))
                                | (Inr _, n4) \<Rightarrow>
                                    (case sendAgentHeartbeat env opts next ''ok'' [] n4 of
                                       (None, n5) \<Rightarrow> (Inl (ErrMsg ''deployment succeeded but acknowledgement failed''), n5)
                                     | (Some _, n5) \<Rightarrow> (Inr (), n5))))))"

text \<open>The loop runs until it is cancelled: after the given number of cycles.\<close>

fun agent_cycles :: "'w agent_env \<Rightarrow> agent_options \<Rightarrow> nat \<Rightarrow> 'w agent_node \<Rightarrow> 'w agent_node" where
  "agent_cycles env opts 0 n = n"
| "agent_cycles env opts (Suc k) n = agent_cycles env opts k (snd (runAgentCycle env opts n))"

definition RunAgent ::
  "'w agent_env \<Rightarrow> user_config option \<Rightarrow> string \<Rightarrow> string \<Rightarrow> (string \<Rightarrow> bool) \<Rightarrow> nat \<Rightarrow> agent_options \<Rightarrow> 'w agent_node \<Rightarrow> unit res \<times> 'w agent_node" where
  "RunAgent env cfg goos goarch url_ok cycles opts0 n =
     (let opts = mergeAgentOptions cfg goos goarch opts0
      in case validateAgentOptions url_ok opts of
           Inl e \<Rightarrow> (Inl e, n)
         | Inr _ \<Rightarrow> if ag_Once opts then runAgentCycle env opts n else (Inr (), agent_cycles env opts cycles n))"

section \<open>Jitter\<close>

definition agent_hash :: "string \<Rightarrow> 32 word" where
  "agent_hash serverID = fold (\<lambda>b h. (h XOR word_of_nat (of_char b)) * 16777619) serverID 2166136261"

definition agentJitteredInterval :: "duration \<Rightarrow> string \<Rightarrow> duration" where
  "agentJitteredInterval interval serverID =
     (let percent = uint (agent_hash serverID mod 21) - 10; x = wrap64 (percent * interval)
      in wrap64 (interval + (if 0 \<le> x then x div 100 else - ((- x) div 100))))"

section \<open>The control plane the agent relies on\<close>

text \<open>
  What one cycle needs from the server: heartbeats of this agent do not change what is desired of it, a reply
  tells the desired version and generation and whether there is drift, and a heartbeat that reports the desired
  version with its generation ends the drift.  \<open>ready\<close> are the worlds and \<open>fit\<close> the reports in which heartbeats
  are accepted.
\<close>

locale control_plane =
  fixes post :: "heartbeat_request \<Rightarrow> 'w \<Rightarrow> agent_response option \<times> 'w"
    and desired :: "'w \<Rightarrow> string \<times> int"
    and drift :: "'w \<Rightarrow> bool"
    and ready :: "'w \<Rightarrow> bool"
    and fit :: "heartbeat_request \<Rightarrow> bool"
  assumes accepted: "ready w \<Longrightarrow> fit h \<Longrightarrow> \<exists>reply w'. post h w = (Some reply, w')"
    and reply_desired: "ready w \<Longrightarrow> fit h \<Longrightarrow> post h w = (Some reply, w') \<Longrightarrow>
      desired w' = desired w \<and> ready w' \<and> (ar_Version reply, ar_Generation reply) = desired w' \<and> ar_NeedsDeploy reply = drift w'"
    and nothing_desired: "fst (desired w) = [] \<Longrightarrow> \<not> drift w"
    and acknowledged: "ready w \<Longrightarrow> fit h \<Longrightarrow> post h w = (Some reply, w') \<Longrightarrow> hr_CurrentVersion h = fst (desired w) \<Longrightarrow>
      snd (desired w) \<le> hr_AppliedGeneration h \<Longrightarrow> \<not> drift w'"
begin

text \<open>The runner succeeds for the desired version and leaves what is desired, and the state file can be kept.\<close>

definition runner_ok :: "'w agent_env \<Rightarrow> agent_options \<Rightarrow> bool" where
  "runner_ok env opts =
     ((\<forall>w c. ready w \<longrightarrow> (\<exists>w'. ae_run env c w = (True, w') \<and> ready w' \<and> desired w' = desired w))
      \<and> (\<forall>path st files. \<exists>files'. ae_write env path (ae_marshal env st) files = Some files'
           \<and> map_of files' path = Some (ae_marshal env st)))"

definition reports_fit :: "agent_options \<Rightarrow> agent_state \<Rightarrow> string \<times> int \<Rightarrow> bool" where
  "reports_fit opts st want =
     (fit (agent_heartbeat opts st ''ok'' []) \<and> fit (agent_heartbeat opts st ''deploying'' [])
      \<and> fit (agent_heartbeat opts \<lparr>as_CurrentVersion = fst want, as_AppliedGeneration = snd want\<rparr> ''ok'' []))"

lemma cycle_converges:
  assumes "ae_post env = post" "runner_ok env opts" "ready (an_world n)"
    and "loadAgentState env (agentStatePath (ag_RootDir opts) (ag_ServerID opts)) (an_files n) = Inr st"
    and "reports_fit opts st (desired (an_world n))"
  shows "\<exists>n'. runAgentCycle env opts n = (Inr (), n') \<and> \<not> drift (an_world n') \<and> ready (an_world n')
    \<and> desired (an_world n') = desired (an_world n)
    \<and> (an_files n' = an_files n \<or> map_of (an_files n') (agentStatePath (ag_RootDir opts) (ag_ServerID opts))
         = Some (ae_marshal env \<lparr>as_CurrentVersion = fst (desired (an_world n)), as_AppliedGeneration = snd (desired (an_world n))\<rparr>))"
proof -
  let ?w = "an_world n" and ?hb = "agent_heartbeat opts" and ?path = "agentStatePath (ag_RootDir opts) (ag_ServerID opts)"
  let ?next = "\<lparr>as_CurrentVersion = fst (desired ?w), as_AppliedGeneration = snd (desired ?w)\<rparr>"
  from assms(5) have fit: "fit (?hb st ''ok'' [])" "fit (?hb st ''deploying'' [])" "fit (?hb ?next ''ok'' [])"
    by (simp_all add: reports_fit_def)
  obtain reply w1 where p1: "post (?hb st ''ok'' []) ?w = (Some reply, w1)" using accepted [OF assms(3) fit(1)] by blast
  note l1 = reply_desired [OF assms(3) fit(1) p1]
  have s1: "sendAgentHeartbeat env opts st ''ok'' [] n = (Some reply, n\<lparr>an_world := w1\<rparr>)"
    by (simp add: sendAgentHeartbeat_def assms(1) p1)
  show ?thesis
  proof (cases "\<not> ar_NeedsDeploy reply \<or> ar_Version reply = []")
    case True
    then have "\<not> drift w1" using l1 nothing_desired [of w1] by (metis fst_conv)
    with True s1 l1 assms(4) show ?thesis by (simp add: runAgentCycle_def Let_def)
  next
    case False
    from l1 have ver: "ar_Version reply = fst (desired ?w)" "ar_Generation reply = snd (desired ?w)" by (metis fst_conv snd_conv)+
    obtain reply2 w2 where p2: "post (?hb st ''deploying'' []) w1 = (Some reply2, w2)" using accepted l1 fit(2) by blast
    note l2 = reply_desired [OF _ fit(2) p2]
    have s2: "snd (sendAgentHeartbeat env opts st ''deploying'' [] (n\<lparr>an_world := w1\<rparr>)) = n\<lparr>an_world := w2\<rparr>"
      by (simp add: sendAgentHeartbeat_def assms(1) p2)
    obtain w3 where run: "runAgentDeployment env opts (ar_Version reply) (n\<lparr>an_world := w2\<rparr>) = (True, n\<lparr>an_world := w3\<rparr>)"
      and l3: "ready w3" "desired w3 = desired w2"
    proof -
      have r2: "ready w2" using l1 l2 by simp
      obtain c where c: "runAgentDeployment env opts (ar_Version reply) (n\<lparr>an_world := w2\<rparr>)
          = (case ae_run env c w2 of (ok, w) \<Rightarrow> (ok, n\<lparr>an_world := w\<rparr>))"
        unfolding runAgentDeployment_def Let_def by simp
      obtain w3 where w3: "ae_run env c w2 = (True, w3)" "ready w3" "desired w3 = desired w2"
        using assms(2) r2 unfolding runner_ok_def by blast
      show thesis by (rule that [of w3]) (use c w3 in simp_all)
    qed
    obtain files where wr: "ae_write env ?path (ae_marshal env ?next) (an_files n) = Some files"
      "map_of files ?path = Some (ae_marshal env ?next)"
      using assms(2) unfolding runner_ok_def by blast
    have sv: "saveAgentState env ?path ?next (n\<lparr>an_world := w3\<rparr>) = (Inr (), n\<lparr>an_world := w3, an_files := files\<rparr>)"
      by (simp add: saveAgentState_def wr)
    have want: "desired w3 = desired ?w" using l1 l2 l3 by simp
    obtain reply4 w4 where p4: "post (?hb ?next ''ok'' []) w3 = (Some reply4, w4)" using accepted [OF l3(1) fit(3)] by blast
    have s4: "sendAgentHeartbeat env opts ?next ''ok'' [] (n\<lparr>an_world := w3, an_files := files\<rparr>)
        = (Some reply4, n\<lparr>an_world := w4, an_files := files\<rparr>)"
      by (simp add: sendAgentHeartbeat_def assms(1) p4)
    have "\<not> drift w4" by (rule acknowledged [OF l3(1) fit(3) p4]) (simp_all add: agent_heartbeat_def want)
    moreover have "desired w4 = desired ?w" "ready w4" using reply_desired [OF l3(1) fit(3) p4] want by simp_all
    ultimately show ?thesis
      using False s1 s2 run sv s4 ver assms(4) wr(2) by (simp add: runAgentCycle_def Let_def)
  qed
qed

end

end
