(* ===== verification/ControlPlane.thy ===== *)
theory ControlPlane
  imports Agent
begin

text \<open>
  The server as the control plane of an agent: the transport hands a heartbeat to the handler of
  \<open>internal/api/handlers_delivery_nodes.go\<close> under the agent's token, and the reply is what the handler answers.  The
  handler keeps the contract the agent's cycle relies on, so an agent with a working runner converges.
\<close>

section \<open>Transport\<close>

record plane =
  pl_api :: api_state
  pl_now :: go_time

text \<open>\<open>header\<close> is the token header of the request \<open>r\<close>; every exchange takes the time \<open>delay\<close>.\<close>

definition plane_post ::
  "auth_env \<Rightarrow> auth_request \<Rightarrow> string \<Rightarrow> duration \<Rightarrow> heartbeat_request \<Rightarrow> plane \<Rightarrow> agent_response option \<times> plane" where
  "plane_post env r header delay h w =
     (case handleDeliveryNodeHeartbeat env (pl_now w) r header (Some h) (pl_api w) of
        (reply, st) \<Rightarrow>
          (case reply of
             HeartbeatOK node d \<Rightarrow> Some \<lparr>ar_Version = de_Version d, ar_Generation = de_Generation d, ar_NeedsDeploy = de_NeedsDeploy d\<rparr>
           | _ \<Rightarrow> None,
           \<lparr>pl_api = st, pl_now = pl_now w + delay\<rparr>))"

text \<open>Who the agent is: user, tenant, project and server id.\<close>

record agent_id =
  id_User :: int
  id_Tenant :: int
  id_Project :: int
  id_Name :: string
  id_Server :: string

abbreviation plane_store :: "plane \<Rightarrow> store" where
  "plane_store w \<equiv> ap_store (pl_api w)"

definition plane_node :: "agent_id \<Rightarrow> plane \<Rightarrow> delivery_node res" where
  "plane_node a w = GetDeliveryNode (plane_store w) (id_Tenant a) (id_Project a) (id_Server a)"

definition plane_desired :: "agent_id \<Rightarrow> plane \<Rightarrow> string \<times> int" where
  "plane_desired a w = (case plane_node a w of Inl _ \<Rightarrow> ([], 0) | Inr n \<Rightarrow> (dn_DesiredVersion n, dn_DesiredGeneration n))"

definition plane_drift :: "agent_id \<Rightarrow> plane \<Rightarrow> bool" where
  "plane_drift a w = (case plane_node a w of Inl _ \<Rightarrow> False | Inr n \<Rightarrow> needs_deploy n)"

text \<open>The token, the project and the server id of the agent are known and what is desired carries no white space.\<close>

definition known_agent :: "auth_env \<Rightarrow> string \<Rightarrow> agent_id \<Rightarrow> api_state \<Rightarrow> bool" where
  "known_agent env header a st =
     (trim_space header \<noteq> [] \<and> pullUserID (ap_store st) (trim_space header) = Some (id_User a, id_Tenant a)
      \<and> (\<exists>p. GetProjectByName (ap_store st) (id_Tenant a) (id_Name a) = Inr p \<and> p_ID p = id_Project a)
      \<and> can_pull (ap_store st) (id_User a) (id_Project a)
      \<and> Entry (fst (getServerFile (ae_Yaml env) (id_Tenant a) st)) (id_Server a) \<noteq> None)"

definition plane_ready :: "auth_env \<Rightarrow> string \<Rightarrow> agent_id \<Rightarrow> plane \<Rightarrow> bool" where
  "plane_ready env header a w =
     (known_agent env header a (pl_api w) \<and> trim_space (fst (plane_desired a w)) = fst (plane_desired a w))"

definition plane_fit :: "agent_id \<Rightarrow> heartbeat_request \<Rightarrow> bool" where
  "plane_fit a h =
     (hr_Project h = id_Name a \<and> id_Name a \<noteq> [] \<and> hr_ServerID h = id_Server a \<and> id_Server a \<noteq> []
      \<and> trim_space (id_Server a) = id_Server a
      \<and> (hr_ErrorCode h = [] \<or> safeAgentErrorCode (hr_ErrorCode h))
      \<and> is_ok (normalizeDeliveryHeartbeat (request_heartbeat h (id_Tenant a) (id_Project a))))"

section \<open>What a heartbeat leaves\<close>

definition same_base :: "store \<Rightarrow> store \<Rightarrow> bool" where
  "same_base s s' =
     (st_users s' = st_users s \<and> st_projects s' = st_projects s \<and> st_members s' = st_members s
      \<and> st_tenants s' = st_tenants s \<and> st_dataDir s' = st_dataDir s \<and> st_files s' = st_files s)"

lemma same_base_refl [simp]: "same_base s s"
  by (simp add: same_base_def)

lemma same_base_trans: "same_base s s' \<Longrightarrow> same_base s' s'' \<Longrightarrow> same_base s s''"
  by (simp add: same_base_def)

lemma same_base_steps:
  "same_base s (clearLoginFailures le p s)" "same_base s (RecordAudit now u a d ip s)" "same_base s (snd (ServerYAMLPath t s))"
  "same_base s (snd (HeartbeatDeliveryNode h now s))"
  using ServerYAMLPath_frame [of t s]
  by (auto simp: same_base_def clearLoginFailures_def ClearLoginIPFailures_def RecordAudit_def HeartbeatDeliveryNode_def
      ServerYAMLPath_def mkdir_all_def Let_def split: prod.split sum.split)

lemma getServerFile_pair:
  "getServerFile yaml t st = (fst (getServerFile yaml t st),
     if map_of (ap_servers st) t = None then st\<lparr>ap_store := snd (ServerYAMLPath t (ap_store st))\<rparr> else st)"
  using loadServerFile_pair(2) [of yaml t "ap_store st"]
  by (cases "loadServerFile yaml t (ap_store st)") (auto simp: getServerFile_def split: option.split)

lemma getServerFile_cong:
  assumes "same_base (ap_store st) (ap_store st')" "ap_servers st' = ap_servers st"
  shows "fst (getServerFile yaml t st') = fst (getServerFile yaml t st)"
proof -
  have "server_path t (ap_store st') = server_path t (ap_store st)"
    unfolding server_path_def using assms(1) by (intro ServerYAMLPath_cong) (simp_all add: same_base_def)
  then have "fst (loadServerFile yaml t (ap_store st')) = fst (loadServerFile yaml t (ap_store st))"
    using assms(1) by (simp add: loadServerFile_pair same_base_def)
  with assms(2) show ?thesis by (auto simp: getServerFile_def split: option.split prod.split)
qed

lemma known_agent_cong:
  assumes "same_base (ap_store st) (ap_store st')" "ap_servers st' = ap_servers st"
  shows "known_agent env header a st' = known_agent env header a st"
proof -
  have "pullUserID (ap_store st') = pullUserID (ap_store st)"
    using assms(1) by (auto simp: pullUserID_def LookupPullToken_def same_base_def)
  moreover have "GetProjectByName (ap_store st') = GetProjectByName (ap_store st)"
    using assms(1) by (auto simp: GetProjectByName_def same_base_def fun_eq_iff)
  moreover have "UserRole (ap_store st') = UserRole (ap_store st)" "ProjectAccess (ap_store st') = ProjectAccess (ap_store st)"
    using assms(1) by (auto simp: UserRole_def ProjectAccess_def ProjectMemberRole_def same_base_def intro!: ext)
  then have "can_pull (ap_store st') = can_pull (ap_store st)"
    by (intro ext) (simp only: can_pull_def pullCanAccessProject_def)
  ultimately show ?thesis by (simp add: known_agent_def getServerFile_cong [OF assms])
qed

text \<open>The handler on the heartbeat of a known agent: the store's heartbeat on a store with the same nodes.\<close>

lemma handler_known:
  assumes "known_agent env header a st" "plane_fit a h"
  obtains s node s' st' where
    "st_nodes s = st_nodes (ap_store st)" "same_base (ap_store st) s"
    "HeartbeatDeliveryNode (request_heartbeat h (id_Tenant a) (id_Project a)) now s = (Inr node, s')"
    "handleDeliveryNodeHeartbeat env now r header (Some h) st = (HeartbeatOK node (desired_of node), st')"
    "st_nodes (ap_store st') = st_nodes s'" "same_base s' (ap_store st')" "ap_servers st' = ap_servers st"
proof -
  let ?t = "id_Tenant a" and ?le = "ae_Login env" and ?peer = "ar_Peer r"
  let ?st2 = "on_store (clearLoginFailures ?le ?peer) st"
  let ?s2 = "clearLoginFailures ?le ?peer (ap_store st)"
  have b2: "same_base (ap_store st) (ap_store ?st2)" "ap_servers ?st2 = ap_servers st"
    by (simp_all add: on_store_def same_base_steps)
  have n2: "st_nodes ?s2 = st_nodes (ap_store st)"
    by (simp add: clearLoginFailures_def ClearLoginIPFailures_def split: prod.split)
  have known: "known_agent env header a ?st2" using known_agent_cong [OF b2] assms(1) by blast
  then obtain p where p: "GetProjectByName ?s2 ?t (id_Name a) = Inr p" "p_ID p = id_Project a"
    "can_pull ?s2 (id_User a) (id_Project a)"
    by (auto simp: known_agent_def on_store_def)
  define st3 where "st3 = snd (getServerFile (ae_Yaml env) ?t ?st2)"
  have file': "getServerFile (ae_Yaml env) ?t ?st2 = (fst (getServerFile (ae_Yaml env) ?t ?st2), st3)" by (simp add: st3_def)
  have st3: "st3 = (if map_of (ap_servers st) ?t = None then ?st2\<lparr>ap_store := snd (ServerYAMLPath ?t ?s2)\<rparr> else ?st2)"
    unfolding st3_def by (subst getServerFile_pair) (simp add: on_store_def)
  have entry: "Entry (fst (getServerFile (ae_Yaml env) ?t ?st2)) (id_Server a) \<noteq> None" using known by (simp add: known_agent_def)
  have b3: "same_base (ap_store st) (ap_store st3)" "ap_servers st3 = ap_servers st"
    using b2 same_base_trans [OF _ same_base_steps(3) [of ?s2 ?t]] by (auto simp: st3 on_store_def)
  have n3: "st_nodes (ap_store st3) = st_nodes (ap_store st)"
    using n2 by (auto simp: st3 on_store_def ServerYAMLPath_def mkdir_all_def Let_def split: sum.split)
  obtain node s' where hb: "HeartbeatDeliveryNode (request_heartbeat h ?t (id_Project a)) now (ap_store st3) = (Inr node, s')"
    using assms(2) heartbeat_total by (metis is_ok_iff plane_fit_def)
  let ?st' = "st3\<lparr>ap_store := RecordAudit now (user_name (ap_store st) (id_User a)) ''delivery.agent.heartbeat''
     (''project='' @ hr_Project h @ '' server_id='' @ hr_ServerID h @ '' status='' @ dn_Status node) (clientIP ?le ?peer) s'\<rparr>"
  obtain sf e where sf: "getServerFile (ae_Yaml env) ?t ?st2 = (sf, st3)" "Entry sf (id_Server a) = Some e"
    using file' entry by (metis fst_conv option.exhaust)
  have s2: "ap_store ?st2 = ?s2" by (simp add: on_store_def)
  have ident: "pullIdentity env now r (trim_space header) st = (Some (id_User a, ?t, user_name (ap_store st) (id_User a)), st)"
    using assms(1) by (simp add: pullIdentity_def known_agent_def)
  have err: "\<not> (hr_ErrorCode h \<noteq> [] \<and> \<not> safeAgentErrorCode (hr_ErrorCode h))" using assms(2) by (auto simp: plane_fit_def)
  have "handleDeliveryNodeHeartbeat env now r header (Some h) st = (HeartbeatOK node (desired_of node), ?st')"
    using assms(1,2) p(1,3) sf hb err
    by (simp add: handleDeliveryNodeHeartbeat_def Let_def ident known_agent_def plane_fit_def s2 p(2))
  then show thesis
    using that [of "ap_store st3" node s' ?st'] n3 b3 hb same_base_steps(2) by simp
qed

lemma normalize_Inr:
  assumes "normalizeDeliveryHeartbeat h0 = Inr h"
  shows "\<exists>status err interval labels. h = (trimmed_heartbeat h0)
    \<lparr>hb_Status := status, hb_LastError := err, hb_HeartbeatIntervalSeconds := interval, hb_Labels := labels\<rparr>"
  using assms unfolding normalizeDeliveryHeartbeat_def Let_def
  by (simp only: sum.distinct sum.inject simp_thms split: if_split_asm) (drule sym, simp only:, (rule exI)+, rule refl)+

lemma normalize_fields:
  assumes "normalizeDeliveryHeartbeat h0 = Inr h"
  shows "hb_TenantID h = hb_TenantID h0" "hb_ProjectID h = hb_ProjectID h0" "hb_ServerID h = trim_space (hb_ServerID h0)"
    "hb_CurrentVersion h = trim_space (hb_CurrentVersion h0)" "hb_AppliedGeneration h = hb_AppliedGeneration h0"
  using normalize_Inr [OF assms] by (auto simp: trimmed_heartbeat_def)

lemma post_known:
  assumes "plane_ready env header a w" "plane_fit a h"
  shows "\<exists>node w'. plane_post env r header delay h w
      = (Some \<lparr>ar_Version = dn_DesiredVersion node, ar_Generation = dn_DesiredGeneration node, ar_NeedsDeploy = needs_deploy node\<rparr>, w')
    \<and> plane_node a w' = Inr node \<and> plane_desired a w' = plane_desired a w \<and> plane_ready env header a w'
    \<and> (hr_CurrentVersion h = fst (plane_desired a w) \<longrightarrow> snd (plane_desired a w) \<le> hr_AppliedGeneration h \<longrightarrow> \<not> needs_deploy node)"
proof -
  have known: "known_agent env header a (pl_api w)" and trim: "trim_space (fst (plane_desired a w)) = fst (plane_desired a w)"
    using assms(1) by (simp_all add: plane_ready_def)
  obtain s node s' st' where
    s: "st_nodes s = st_nodes (plane_store w)" "same_base (plane_store w) s" and
    hb: "HeartbeatDeliveryNode (request_heartbeat h (id_Tenant a) (id_Project a)) (pl_now w) s = (Inr node, s')" and
    res: "handleDeliveryNodeHeartbeat env (pl_now w) r header (Some h) (pl_api w) = (HeartbeatOK node (desired_of node), st')" and
    st': "st_nodes (ap_store st') = st_nodes s'" "same_base s' (ap_store st')" "ap_servers st' = ap_servers (pl_api w)"
    by (rule handler_known [OF known assms(2)])
  let ?w' = "\<lparr>pl_api = st', pl_now = pl_now w + delay\<rparr>"
  obtain h' where h': "normalizeDeliveryHeartbeat (request_heartbeat h (id_Tenant a) (id_Project a)) = Inr h'"
    and g: "GetDeliveryNode s' (hb_TenantID h') (hb_ProjectID h') (hb_ServerID h') = Inr node"
    and old: "case GetDeliveryNode s (hb_TenantID h') (hb_ProjectID h') (hb_ServerID h') of
         Inl _ \<Rightarrow> dn_CurrentVersion node = hb_CurrentVersion h' \<and> dn_AppliedGeneration node = hb_AppliedGeneration h'
           \<and> dn_DesiredVersion node = [] \<and> dn_DesiredGeneration node = 0
       | Inr m \<Rightarrow> node = (reported h' (format_time (pl_now w)) m)\<lparr>dn_AppliedGeneration := applied_generation h' m\<rparr>"
    using heartbeat_result [OF hb] by blast
  have ids: "hb_TenantID h' = id_Tenant a" "hb_ProjectID h' = id_Project a" "hb_ServerID h' = id_Server a"
    "hb_CurrentVersion h' = trim_space (hr_CurrentVersion h)" "hb_AppliedGeneration h' = hr_AppliedGeneration h"
    using normalize_fields [OF h'] assms(2) by (simp_all add: request_heartbeat_def plane_fit_def)
  have node: "plane_node a ?w' = Inr node" using g ids st'(1) by (simp add: plane_node_def GetDeliveryNode_def)
  have before: "plane_node a w = GetDeliveryNode s (hb_TenantID h') (hb_ProjectID h') (hb_ServerID h')"
    using ids s(1) by (simp add: plane_node_def GetDeliveryNode_def)
  have desired: "plane_desired a ?w' = plane_desired a w"
    using old by (auto simp: plane_desired_def node before reported_def split: sum.splits)
  have "same_base (plane_store w) (ap_store st')"
    using same_base_trans [OF s(2) same_base_trans [OF _ st'(2)]] same_base_steps(4) hb by (metis snd_conv)
  then have "known_agent env header a st'" using known_agent_cong st'(3) known by blast
  then have ready: "plane_ready env header a ?w'" using trim desired by (simp add: plane_ready_def)
  have ack: "\<not> needs_deploy node"
    if "hr_CurrentVersion h = fst (plane_desired a w)" "snd (plane_desired a w) \<le> hr_AppliedGeneration h"
    using old that trim ids(4,5)
    by (auto simp: needs_deploy_def plane_desired_def before reported_def applied_generation_def split: sum.splits)
  show ?thesis
    by (rule exI [of _ node], rule exI [of _ ?w'])
      (use res node desired ready ack in \<open>simp add: plane_post_def desired_of_def\<close>)
qed

text \<open>The server is a control plane for every agent it knows.\<close>

interpretation agent_plane: control_plane "plane_post env r header delay" "plane_desired a" "plane_drift a"
  "plane_ready env header a" "plane_fit a" for env r header delay a
proof
  fix w h
  assume "plane_ready env header a w" "plane_fit a h"
  then show "\<exists>reply w'. plane_post env r header delay h w = (Some reply, w')" using post_known by blast
next
  fix w h reply w'
  assume "plane_ready env header a w" "plane_fit a h" "plane_post env r header delay h w = (Some reply, w')"
  then show "plane_desired a w' = plane_desired a w \<and> plane_ready env header a w'
      \<and> (ar_Version reply, ar_Generation reply) = plane_desired a w' \<and> ar_NeedsDeploy reply = plane_drift a w'"
    using post_known [of env header a w h r delay] by (auto simp: plane_desired_def plane_drift_def)
next
  fix w
  assume "fst (plane_desired a w) = []"
  then show "\<not> plane_drift a w" by (auto simp: plane_desired_def plane_drift_def needs_deploy_def split: sum.splits)
next
  fix w h reply w'
  assume "plane_ready env header a w" "plane_fit a h" "plane_post env r header delay h w = (Some reply, w')"
    "hr_CurrentVersion h = fst (plane_desired a w)" "snd (plane_desired a w) \<le> hr_AppliedGeneration h"
  then show "\<not> plane_drift a w'" using post_known [of env header a w h r delay] by (auto simp: plane_drift_def)
qed

section \<open>Convergence\<close>

text \<open>
  The machine works: its runner succeeds whatever it is given, leaving the agent known to the server and what is desired
  of it, and a state file that is written can be looked up again.
\<close>

definition machine_ok :: "auth_env \<Rightarrow> string \<Rightarrow> agent_id \<Rightarrow> plane agent_env \<Rightarrow> bool" where
  "machine_ok env header a ag =
     ((\<forall>w c. plane_ready env header a w \<longrightarrow>
         (\<exists>w'. ae_run ag c w = (True, w') \<and> plane_ready env header a w' \<and> plane_desired a w' = plane_desired a w))
      \<and> (\<forall>path st files. \<exists>files'. ae_write ag path (ae_marshal ag st) files = Some files'
           \<and> map_of files' path = Some (ae_marshal ag st)))"

definition agent_fits :: "agent_id \<Rightarrow> agent_options \<Rightarrow> agent_state \<Rightarrow> string \<times> int \<Rightarrow> bool" where
  "agent_fits a opts st want =
     (plane_fit a (agent_heartbeat opts st ''ok'' []) \<and> plane_fit a (agent_heartbeat opts st ''deploying'' [])
      \<and> plane_fit a (agent_heartbeat opts \<lparr>as_CurrentVersion = fst want, as_AppliedGeneration = snd want\<rparr> ''ok'' []))"

lemma runner_ok_machine: "machine_ok env header a ag \<Longrightarrow> agent_plane.runner_ok a env header ag opts"
  by (simp add: machine_ok_def agent_plane.runner_ok_def)

lemma reports_fit_agent: "agent_fits a opts st want \<Longrightarrow> agent_plane.reports_fit a opts st want"
  by (simp add: agent_fits_def agent_plane.reports_fit_def)

text \<open>
  C15: one cycle of an agent against the server's own heartbeat handler converges: whatever the node's state was, with
  a runner that works the cycle ends without error, the node no longer drifts from what is desired, the desired version
  and generation are the ones before the cycle, and the state file is unchanged or names exactly them.
\<close>

theorem agent_converges:
  assumes "ae_post ag = plane_post env r header delay" "machine_ok env header a ag" "plane_ready env header a (an_world n)"
    and "loadAgentState ag (agentStatePath (ag_RootDir opts) (ag_ServerID opts)) (an_files n) = Inr st"
    and "agent_fits a opts st (plane_desired a (an_world n))"
  shows "\<exists>n'. runAgentCycle ag opts n = (Inr (), n') \<and> \<not> plane_drift a (an_world n')
    \<and> plane_desired a (an_world n') = plane_desired a (an_world n)
    \<and> (an_files n' = an_files n \<or> map_of (an_files n') (agentStatePath (ag_RootDir opts) (ag_ServerID opts))
         = Some (ae_marshal ag \<lparr>as_CurrentVersion = fst (plane_desired a (an_world n)),
                                as_AppliedGeneration = snd (plane_desired a (an_world n))\<rparr>))"
  using agent_plane.cycle_converges [OF assms(1) runner_ok_machine [OF assms(2)] assms(3,4) reports_fit_agent [OF assms(5)]]
  by blast

definition sample_node :: delivery_node where
  "sample_node = (default_node 7 1 ''s1'' None)\<lparr>dn_ID := 1, dn_DesiredVersion := ''1.0.0'', dn_DesiredGeneration := 3\<rparr>"

definition sample_plane :: plane where
  "sample_plane = \<lparr>pl_api = (ps_api sample_pull)\<lparr>ap_store := sample_pull_store\<lparr>st_nodes := \<lparr>trows = [sample_node], tnext = 2\<rparr>\<rparr>\<rparr>,
     pl_now = 0\<rparr>"

definition sample_agent :: agent_id where
  "sample_agent = \<lparr>id_User = 3, id_Tenant = 7, id_Project = 1, id_Name = ''game'', id_Server = ''s1''\<rparr>"

definition sample_agent_opts :: agent_options where
  "sample_agent_opts = \<lparr>ag_ServerURL = ''http://h'', ag_Project = ''game'', ag_ServerID = ''s1'', ag_Token = ''t3'',
     ag_Username = [], ag_Password = [], ag_RootDir = ''/g'', ag_Runner = ''safe-deploy.sh'', ag_Role = [], ag_Environment = [],
     ag_Labels = [], ag_OS = ''linux'', ag_Arch = [], ag_Interval = 60 * Second, ag_Once = True\<rparr>"

definition sample_agent_env :: "plane agent_env" where
  "sample_agent_env = \<lparr>ae_unmarshal = (\<lambda>_. None), ae_marshal = as_CurrentVersion, ae_write = (\<lambda>p d fs. Some (al_put p d fs)),
     ae_look_path = (\<lambda>_. False), ae_run = (\<lambda>_ w. (True, w)), ae_post = plane_post sample_auth_env sample_request ''t3'' Second\<rparr>"

lemma agent_converges_witness:
  "plane_drift sample_agent sample_plane
   \<and> (\<exists>n'. runAgentCycle sample_agent_env sample_agent_opts \<lparr>an_files = [], an_world = sample_plane\<rparr> = (Inr (), n')
        \<and> \<not> plane_drift sample_agent (an_world n'))"
proof
  show "plane_drift sample_agent sample_plane" by code_simp
  let ?n = "\<lparr>an_files = [], an_world = sample_plane\<rparr>"
  have post: "ae_post sample_agent_env = plane_post sample_auth_env sample_request ''t3'' Second" by (simp add: sample_agent_env_def)
  have machine: "machine_ok sample_auth_env ''t3'' sample_agent sample_agent_env" by (simp add: machine_ok_def sample_agent_env_def)
  have "known_agent sample_auth_env ''t3'' sample_agent (pl_api sample_plane)"
  proof -
    have "trim_space ''t3'' \<noteq> []" "pullUserID (plane_store sample_plane) (trim_space ''t3'') = Some (3, 7)"
      "map_sum id p_ID (GetProjectByName (plane_store sample_plane) 7 ''game'') = Inr 1"
      "can_pull (plane_store sample_plane) 3 1"
      "Entry (fst (getServerFile (ae_Yaml sample_auth_env) 7 (pl_api sample_plane))) ''s1'' \<noteq> None"
      by code_simp+
    then show ?thesis by (cases "GetProjectByName (plane_store sample_plane) 7 ''game''") (simp_all add: known_agent_def sample_agent_def)
  qed
  moreover have "trim_space (fst (plane_desired sample_agent sample_plane)) = fst (plane_desired sample_agent sample_plane)" by code_simp
  ultimately have ready: "plane_ready sample_auth_env ''t3'' sample_agent (an_world ?n)" by (simp add: plane_ready_def)
  have load: "loadAgentState sample_agent_env (agentStatePath (ag_RootDir sample_agent_opts) (ag_ServerID sample_agent_opts)) (an_files ?n)
      = Inr \<lparr>as_CurrentVersion = [], as_AppliedGeneration = 0\<rparr>"
    by (simp add: loadAgentState_def)
  have "agent_fits sample_agent sample_agent_opts \<lparr>as_CurrentVersion = [], as_AppliedGeneration = 0\<rparr> (plane_desired sample_agent sample_plane)"
    by code_simp
  then have fits: "agent_fits sample_agent sample_agent_opts \<lparr>as_CurrentVersion = [], as_AppliedGeneration = 0\<rparr>
      (plane_desired sample_agent (an_world ?n))" by simp
  from agent_converges [OF post machine ready load fits]
  show "\<exists>n'. runAgentCycle sample_agent_env sample_agent_opts ?n = (Inr (), n') \<and> \<not> plane_drift sample_agent (an_world n')"
    by blast
qed

section \<open>The interval between cycles\<close>

lemma percent_div:
  fixes x i :: int
  assumes "- 10 * i \<le> x" "x \<le> 10 * i" "0 \<le> i"
  shows "- i \<le> 10 * (if 0 \<le> x then x div 100 else - ((- x) div 100))"
    "10 * (if 0 \<le> x then x div 100 else - ((- x) div 100)) \<le> i"
proof -
  have "100 * (x div 100) \<le> x" "100 * ((- x) div 100) \<le> - x" "0 \<le> x \<Longrightarrow> 0 \<le> x div 100" "\<not> 0 \<le> x \<Longrightarrow> 0 \<le> (- x) div 100"
    by linarith+
  then show "- i \<le> 10 * (if 0 \<le> x then x div 100 else - ((- x) div 100))"
    "10 * (if 0 \<le> x then x div 100 else - ((- x) div 100)) \<le> i"
    using assms by (cases "0 \<le> x"; simp only: if_True if_False; linarith)+
qed

text \<open>
  The jitter an agent adds to its interval keeps it within a tenth of the configured one, for every server id and every
  interval the options allow, with no overflow of the 64-bit duration.
\<close>

theorem jitter_bounds:
  assumes "validateAgentOptions url_ok opts = Inr ()"
  shows "9 * ag_Interval opts \<le> 10 * agentJitteredInterval (ag_Interval opts) server
    \<and> 10 * agentJitteredInterval (ag_Interval opts) server \<le> 11 * ag_Interval opts"
proof -
  let ?i = "ag_Interval opts" and ?p = "uint (agent_hash server mod 21) - 10"
  have i: "10 * Second \<le> ?i" "?i \<le> Hour" using assms by (auto simp: validateAgentOptions_def split: if_splits)
  have p: "-10 \<le> ?p" "?p \<le> 10" by (simp_all add: uint_mod)
  have i': "0 \<le> ?i" "?i \<le> 3600 * 1000000000" using i by (simp_all add: Second_def Hour_def)
  have lo: "- 10 * ?i \<le> ?p * ?i" "?p * ?i \<le> 10 * ?i"
    using mult_right_mono [OF p(1) i'(1)] mult_right_mono [OF p(2) i'(1)] by simp_all
  then have w: "wrap64 (?p * ?i) = ?p * ?i" using i' by (intro wrap64_id) (simp_all add: max_int64_def)
  define d where "d = (if 0 \<le> ?p * ?i then ?p * ?i div 100 else - ((- (?p * ?i)) div 100))"
  have d: "- ?i \<le> 10 * d" "10 * d \<le> ?i" using percent_div [OF lo] i'(1) by (simp_all add: d_def)
  then have "wrap64 (?i + d) = ?i + d" using i' by (intro wrap64_id) (simp_all add: max_int64_def)
  then have "agentJitteredInterval ?i server = ?i + d" unfolding agentJitteredInterval_def Let_def w d_def by simp
  with d show ?thesis by simp
qed

lemma jitter_bounds_witness:
  "validateAgentOptions (\<lambda>_. True) sample_agent_opts = Inr ()
   \<and> 54 * Second \<le> agentJitteredInterval (60 * Second) ''s1'' \<and> agentJitteredInterval (60 * Second) ''s1'' \<le> 66 * Second"
proof -
  have v: "validateAgentOptions (\<lambda>_. True) sample_agent_opts = Inr ()" by code_simp
  from jitter_bounds [OF v, of "''s1''"] v show ?thesis by (simp add: sample_agent_opts_def Second_def)
qed

end
