(* ===== verification/ProjectApi.thy ===== *)
theory ProjectApi
  imports PullApi
begin

text \<open>
  The handlers of projects, versions, files and file tags (\<open>internal/api/handlers_projects.go\<close>, \<open>handlers_review.go\<close>,
  \<open>handlers_file_tags.go\<close>, \<open>handlers_validate.go\<close>, \<open>handlers_download.go\<close>, \<open>handlers_project_logs.go\<close>,
  \<open>handlers_project_invites.go\<close>, \<open>project_access.go\<close>, \<open>version_mutability.go\<close>).  A handler gets the parsed
  numbers of its path and its decoded body, none when the body does not decode; its answer is the value it encodes, or
  the message of the error.  What \<open>archive/zip\<close>, \<open>archive/tar\<close>, \<open>filepath.Match\<close>, \<open>url.Parse\<close> and the hash
  compute are fields of the environment.
\<close>

record web_env =
  we_auth :: auth_env
  we_sha :: "string \<Rightarrow> string"
  we_perm :: "string \<Rightarrow> nat"
  we_url :: "string \<Rightarrow> (string \<times> string \<times> bool) option"
  we_stamp :: "stamp \<Rightarrow> string"
  we_glob :: "string \<Rightarrow> string \<Rightarrow> bool"
  we_zip :: "string \<Rightarrow> archive_entry list option"
  we_tar :: "bool \<Rightarrow> string \<Rightarrow> archive_entry list \<times> bool"
  we_zone :: int

abbreviation we_yaml :: "web_env \<Rightarrow> yaml_codec" where
  "we_yaml env \<equiv> ae_Yaml (we_auth env)"

abbreviation web_session :: "web_env \<Rightarrow> go_time \<Rightarrow> auth_request \<Rightarrow> api_state \<Rightarrow> session option \<times> api_state" where
  "web_session env \<equiv> currentSession (we_auth env)"

abbreviation web_audit :: "web_env \<Rightarrow> go_time \<Rightarrow> auth_request \<Rightarrow> string \<Rightarrow> string \<Rightarrow> api_state \<Rightarrow> api_state" where
  "web_audit env \<equiv> audit_request (we_auth env)"

section \<open>The project of a request\<close>

text \<open>\<open>sess, _ := s.currentSession(r)\<close>: the zero session when there is none.\<close>

definition session_user :: "session option \<Rightarrow> int" where
  "session_user sess = (case sess of None \<Rightarrow> 0 | Some u \<Rightarrow> ss_UserID u)"

definition session_name :: "session option \<Rightarrow> string" where
  "session_name sess = (case sess of None \<Rightarrow> [] | Some u \<Rightarrow> ss_Username u)"

definition api_role :: "store \<Rightarrow> int \<Rightarrow> string" where
  "api_role s uid = (case UserRole s uid of Inl _ \<Rightarrow> [] | Inr role \<Rightarrow> role)"

definition projectByID :: "web_env \<Rightarrow> go_time \<Rightarrow> auth_request \<Rightarrow> int \<Rightarrow> api_state \<Rightarrow> project_ctx option \<times> api_state" where
  "projectByID env now r pid st =
     (case tenantFromSession (we_auth env) now r st of
        (None, st1) \<Rightarrow> (None, st1)
      | (Some tid, st1) \<Rightarrow>
          (case web_session env now r st1 of
             (None, st2) \<Rightarrow> (None, st2)
           | (Some sess, st2) \<Rightarrow> (projectCtxFromRequest (ap_store st2) (Some (ss_UserID sess, tid)) pid, st2)))"

text \<open>The common beginnings of the handlers: a project, a project its caller administrates, a version that is a draft.\<close>

definition with_project ::
  "web_env \<Rightarrow> go_time \<Rightarrow> auth_request \<Rightarrow> int \<Rightarrow> (project_ctx \<Rightarrow> api_state \<Rightarrow> 'a res \<times> api_state) \<Rightarrow> api_state \<Rightarrow> 'a res \<times> api_state" where
  "with_project env now r pid f st =
     (case projectByID env now r pid st of
        (None, st1) \<Rightarrow> (Inl (ErrMsg ''project not found''), st1)
      | (Some pc, st1) \<Rightarrow> f pc st1)"

definition with_writer ::
  "web_env \<Rightarrow> go_time \<Rightarrow> auth_request \<Rightarrow> int \<Rightarrow> (project_ctx \<Rightarrow> api_state \<Rightarrow> 'a res \<times> api_state) \<Rightarrow> api_state \<Rightarrow> 'a res \<times> api_state" where
  "with_writer env now r pid f =
     with_project env now r pid (\<lambda>pc st.
       if \<not> CanWriteProject (pc_ProjectRole pc) then (Inl (ErrMsg ''project admin required''), st) else f pc st)"

definition requireMutableVersion :: "store \<Rightarrow> project_ctx \<Rightarrow> string \<Rightarrow> unit res" where
  "requireMutableVersion s pc version =
     (case GetVersion s (pc_ProjectID pc) version of
        Inl _ \<Rightarrow> Inl (ErrMsg ''version not found'')
      | Inr v \<Rightarrow> if v_Status v = ''draft'' then Inr ()
                 else Inl (ErrMsg ''published or pending-review versions are immutable; create a new version for changes''))"

definition with_draft ::
  "web_env \<Rightarrow> go_time \<Rightarrow> auth_request \<Rightarrow> int \<Rightarrow> string \<Rightarrow> (project_ctx \<Rightarrow> api_state \<Rightarrow> 'a res \<times> api_state) \<Rightarrow> api_state \<Rightarrow>
     'a res \<times> api_state" where
  "with_draft env now r pid version f =
     with_project env now r pid (\<lambda>pc st.
       case requireMutableVersion (ap_store st) pc version of Inl e \<Rightarrow> (Inl e, st) | Inr _ \<Rightarrow> f pc st)"

text \<open>A store operation as an operation of the server, and an operation of the store followed by an audit entry.\<close>

definition on_store_res :: "(store \<Rightarrow> 'a res \<times> store) \<Rightarrow> api_state \<Rightarrow> 'a res \<times> api_state" where
  "on_store_res f st = (case f (ap_store st) of (x, s) \<Rightarrow> (x, st\<lparr>ap_store := s\<rparr>))"

definition audited ::
  "web_env \<Rightarrow> go_time \<Rightarrow> auth_request \<Rightarrow> string \<Rightarrow> string \<Rightarrow> 'a res \<times> api_state \<Rightarrow> 'a res \<times> api_state" where
  "audited env now r action detail x =
     (case x of (Inl e, st) \<Rightarrow> (Inl e, st) | (Inr v, st) \<Rightarrow> (Inr v, web_audit env now r action detail st))"

section \<open>Projects\<close>

definition handleListProjects :: "web_env \<Rightarrow> go_time \<Rightarrow> auth_request \<Rightarrow> api_state \<Rightarrow> (project \<times> string) list res \<times> api_state" where
  "handleListProjects env now r st =
     (case tenantFromSession (we_auth env) now r st of
        (None, st1) \<Rightarrow> (Inl (ErrMsg ''login required''), st1)
      | (Some tid, st1) \<Rightarrow>
          (case web_session env now r st1 of
             (sess, st2) \<Rightarrow>
               (Inr (ListProjects (ap_store st2) tid (session_user sess) (api_role (ap_store st2) (session_user sess))), st2)))"

text \<open>Creating a project that exists already answers with it when the caller may write it.\<close>

definition handleCreateProject ::
  "web_env \<Rightarrow> go_time \<Rightarrow> auth_request \<Rightarrow> string option \<Rightarrow> api_state \<Rightarrow> project res \<times> api_state" where
  "handleCreateProject env now r body st =
     (case body of
        None \<Rightarrow> (Inl (ErrMsg ''name required''), st)
      | Some name \<Rightarrow>
          if name = [] then (Inl (ErrMsg ''name required''), st)
          else case tenantFromSession (we_auth env) now r st of
            (None, st1) \<Rightarrow> (Inl (ErrMsg ''login required''), st1)
          | (Some tid, st1) \<Rightarrow>
              (case web_session env now r st1 of
                 (sess, st2) \<Rightarrow>
                   (case on_store_res (CreateProject now tid (session_user sess) name) st2 of
                      (Inr p, st3) \<Rightarrow> (Inr p, web_audit env now r ''project.create'' (''name='' @ name) st3)
                    | (Inl e, st3) \<Rightarrow>
                        (case GetProjectByName (ap_store st3) tid name of
                           Inl _ \<Rightarrow> (Inl e, st3)
                         | Inr existing \<Rightarrow>
                             if CanWriteProject (ProjectAccess (ap_store st3) (p_ID existing) (session_user sess)
                                  (api_role (ap_store st2) (session_user sess)))
                             then (Inr existing, st3) else (Inl e, st3)))))"

definition handleDeleteProject :: "web_env \<Rightarrow> go_time \<Rightarrow> auth_request \<Rightarrow> int \<Rightarrow> api_state \<Rightarrow> unit res \<times> api_state" where
  "handleDeleteProject env now r i st =
     (case tenantFromSession (we_auth env) now r st of
        (None, st1) \<Rightarrow> (Inl (ErrMsg ''login required''), st1)
      | (Some tid, st1) \<Rightarrow>
          (case projectByID env now r i st1 of
             (None, st2) \<Rightarrow> (Inl (ErrMsg ''project admin required''), st2)
           | (Some pc, st2) \<Rightarrow>
               if \<not> CanWriteProject (pc_ProjectRole pc) then (Inl (ErrMsg ''project admin required''), st2)
               else (case on_store_res (DeleteProject (we_sha env) tid i) st2 of
                       (Inl _, st3) \<Rightarrow> (Inl (ErrMsg ''not found''), st3)
                     | (Inr _, st3) \<Rightarrow> (Inr (), web_audit env now r ''project.delete'' (''id='' @ show_int i) st3))))"

definition handlePutProjectVersionRetention ::
  "web_env \<Rightarrow> go_time \<Rightarrow> auth_request \<Rightarrow> int \<Rightarrow> int option \<Rightarrow> api_state \<Rightarrow> project res \<times> api_state" where
  "handlePutProjectVersionRetention env now r pid body =
     with_writer env now r pid (\<lambda>pc st.
       case body of
         None \<Rightarrow> (Inl (ErrMsg ''invalid version retention settings''), st)
       | Some n \<Rightarrow>
           (case on_store_res (SetProjectMaxPublishedVersions (pc_TenantID pc) pid n) st of
              (Inl e, st1) \<Rightarrow> (Inl e, st1)
            | (Inr _, st1) \<Rightarrow>
                (case PrunePublishedVersions (we_sha env) (pc_TenantID pc) pid (pc_ProjectName pc) n (ap_store st1) of
                   ((removed, Some e), s2) \<Rightarrow> (Inl e, st1\<lparr>ap_store := s2\<rparr>)
                 | ((removed, None), s2) \<Rightarrow>
                     (let st3 = web_audit env now r ''project.version_retention.update''
                            (''project_id='' @ show_int pid @ '' retained='' @ show_int n @ '' removed='' @ join_with '','' removed)
                            (st1\<lparr>ap_store := s2\<rparr>)
                      in (GetProjectByName (ap_store st3) (pc_TenantID pc) (pc_ProjectName pc), st3)))))"

section \<open>Versions\<close>

definition handleListVersions :: "web_env \<Rightarrow> go_time \<Rightarrow> auth_request \<Rightarrow> int \<Rightarrow> api_state \<Rightarrow> version list res \<times> api_state" where
  "handleListVersions env now r pid = with_project env now r pid (\<lambda>pc st. (Inr (ListVersions (ap_store st) pid), st))"

text \<open>The body may be empty; it is the name and the provenance.\<close>

definition handleCreateVersion ::
  "web_env \<Rightarrow> go_time \<Rightarrow> auth_request \<Rightarrow> int \<Rightarrow> (string \<times> vcs_provenance) option \<Rightarrow> api_state \<Rightarrow> version res \<times> api_state" where
  "handleCreateVersion env now r pid body =
     with_writer env now r pid (\<lambda>pc st.
       case body of
         None \<Rightarrow> (Inl (ErrMsg ''json''), st)
       | Some (name, vcs) \<Rightarrow>
           (case ValidateVCSProvenance (we_url env) vcs of
              Inl e \<Rightarrow> (Inl e, st)
            | Inr _ \<Rightarrow>
                (case on_store_res
                   (if trim_space name = [] then CreateNextPatchVersion now (pc_TenantID pc) pid (pc_ProjectName pc)
                    else CreateVersion now (pc_TenantID pc) pid (pc_ProjectName pc) (trim_space name)) st of
                   (Inl e, st1) \<Rightarrow> (Inl e, st1)
                 | (Inr v, st1) \<Rightarrow>
                     (case on_store_res (SetVersionVCSProvenance (we_url env) pid (v_Version v) vcs) st1 of
                        (Inl e, st2) \<Rightarrow> (Inl e, st2)
                      | (Inr _, st2) \<Rightarrow> (GetVersion (ap_store st2) pid (v_Version v), st2)))))"

definition handlePutVersionVCS ::
  "web_env \<Rightarrow> go_time \<Rightarrow> auth_request \<Rightarrow> int \<Rightarrow> string \<Rightarrow> vcs_provenance option \<Rightarrow> api_state \<Rightarrow> version res \<times> api_state" where
  "handlePutVersionVCS env now r pid version body =
     with_draft env now r pid version (\<lambda>pc st.
       case body of
         None \<Rightarrow> (Inl (ErrMsg ''invalid VCS metadata''), st)
       | Some vcs \<Rightarrow>
           (case on_store_res (SetVersionVCSProvenance (we_url env) pid version vcs) st of
              (Inl e, st1) \<Rightarrow> (Inl e, st1)
            | (Inr _, st1) \<Rightarrow>
                (let st2 = web_audit env now r ''version.vcs.update''
                       (''project_id='' @ show_int pid @ '' version='' @ version @ '' provider='' @ vcs_Provider vcs
                        @ '' commit='' @ vcs_Commit vcs) st1
                 in (GetVersion (ap_store st2) pid version, st2))))"

text \<open>
  Publishing: the store's publication and the retention that follows it, unless the version is published already, then
  the release hooks and the nodes that follow the project.  The answer is none when the version is gone by then.
\<close>

definition after_publish ::
  "web_env \<Rightarrow> go_time \<Rightarrow> auth_request \<Rightarrow> int \<Rightarrow> string \<Rightarrow> project_ctx \<Rightarrow> bool \<Rightarrow> api_state \<Rightarrow> version option res \<times> api_state" where
  "after_publish env now r pid ver pc replay st =
     (let note = ''project_id='' @ show_int pid @ '' version='' @ ver
      in case web_session env now r st of
           (sess, st1) \<Rightarrow>
             (case on_store_res (QueueProjectReleaseHooks (we_stamp env) (pc_TenantID pc) pid ver (session_name sess) ''version_publish'' now) st1 of
                (Inl e, st2) \<Rightarrow>
                  (Inl (ErrMsg ''version is published but release hooks could not be queued; retry this publish request''),
                   web_audit env now r ''release.hook.queue_failed'' (note @ '' error='' @ error_text e) st2)
              | (Inr hooks, st2) \<Rightarrow>
                  (case AdvanceAutoFollowDeliveryNodes (pc_TenantID pc) pid ver now (ap_store st2) of
                     (advanced, s3) \<Rightarrow>
                       (let st4 = web_audit env now r ''version.publish''
                              (note @ '' replay='' @ (if replay then ''true'' else ''false'') @ '' queued_hooks='' @ show_nat (length hooks)
                               @ '' advanced_pull_nodes='' @ show_nat advanced) (st2\<lparr>ap_store := s3\<rparr>)
                        in (Inr (case GetVersion (ap_store st4) pid ver of Inl _ \<Rightarrow> None | Inr v \<Rightarrow> Some v), st4)))))"

definition publish_new ::
  "web_env \<Rightarrow> go_time \<Rightarrow> auth_request \<Rightarrow> int \<Rightarrow> string \<Rightarrow> project_ctx \<Rightarrow> api_state \<Rightarrow> unit res \<times> api_state" where
  "publish_new env now r pid ver pc st =
     (case on_store_res (PublishVersion (we_sha env) (we_perm env) now (pc_TenantID pc) pid ver) st of
        (Inl e, st1) \<Rightarrow> (Inl e, st1)
      | (Inr _, st1) \<Rightarrow>
          (case ProjectMaxPublishedVersions (ap_store st1) (pc_TenantID pc) pid of
             Inl e \<Rightarrow> (Inl e, st1)
           | Inr n \<Rightarrow>
               (case PrunePublishedVersions (we_sha env) (pc_TenantID pc) pid (pc_ProjectName pc) n (ap_store st1) of
                  ((removed, Some e), s2) \<Rightarrow>
                    (Inl (ErrMsg ''version is published but old artifact cleanup failed; verify storage before retrying''),
                     web_audit env now r ''version.retention.prune_failed'' (''project_id='' @ show_int pid @ '' error='' @ error_text e)
                       (st1\<lparr>ap_store := s2\<rparr>))
                | ((removed, None), s2) \<Rightarrow>
                    (Inr (),
                     if removed = [] then st1\<lparr>ap_store := s2\<rparr>
                     else web_audit env now r ''version.retention.prune''
                            (''project_id='' @ show_int pid @ '' retained='' @ show_int n @ '' removed='' @ join_with '','' removed)
                            (st1\<lparr>ap_store := s2\<rparr>)))))"

definition handlePublishVersion ::
  "web_env \<Rightarrow> go_time \<Rightarrow> auth_request \<Rightarrow> int \<Rightarrow> string \<Rightarrow> api_state \<Rightarrow> version option res \<times> api_state" where
  "handlePublishVersion env now r pid ver =
     with_writer env now r pid (\<lambda>pc st.
       case GetVersion (ap_store st) pid ver of
         Inl _ \<Rightarrow> (Inl (ErrMsg ''version not found''), st)
       | Inr v \<Rightarrow>
           if v_Status v = ''published'' then after_publish env now r pid ver pc True st
           else (case publish_new env now r pid ver pc st of
                   (Inl e, st1) \<Rightarrow> (Inl e, st1)
                 | (Inr _, st1) \<Rightarrow> after_publish env now r pid ver pc False st1))"

definition handleDeleteVersion ::
  "web_env \<Rightarrow> go_time \<Rightarrow> auth_request \<Rightarrow> int \<Rightarrow> string \<Rightarrow> string \<Rightarrow> api_state \<Rightarrow> unit res \<times> api_state" where
  "handleDeleteVersion env now r pid ver confirm st =
     (if confirm \<noteq> ''yes'' then (Inl (ErrMsg ''add ?confirm=yes to confirm version deletion''), st)
      else with_writer env now r pid (\<lambda>pc st.
        audited env now r ''version.delete'' (''project='' @ pc_ProjectName pc @ '' version='' @ ver)
          (on_store_res (DeleteVersion (we_sha env) (pc_TenantID pc) pid (pc_ProjectName pc) ver) st)) st)"

definition handleValidateVersion ::
  "web_env \<Rightarrow> go_time \<Rightarrow> auth_request \<Rightarrow> int \<Rightarrow> string \<Rightarrow> api_state \<Rightarrow> publish_validation res \<times> api_state" where
  "handleValidateVersion env now r pid ver =
     with_project env now r pid (\<lambda>pc st.
       case GetVersion (ap_store st) pid ver of
         Inl _ \<Rightarrow> (Inl (ErrMsg ''version not found''), st)
       | Inr _ \<Rightarrow>
           (case getServerFile (we_yaml env) (pc_TenantID pc) st of
              (sf, st1) \<Rightarrow>
                (ValidateBeforePublish (ap_store st1) (pc_TenantID pc) (pc_ProjectName pc) ver (Some sf), st1)))"

text \<open>A report with errors is answered as it is, with the status of a bad request.\<close>

definition handleSubmitReview ::
  "web_env \<Rightarrow> go_time \<Rightarrow> auth_request \<Rightarrow> int \<Rightarrow> string \<Rightarrow> api_state \<Rightarrow> publish_validation option res \<times> api_state" where
  "handleSubmitReview env now r pid ver =
     with_writer env now r pid (\<lambda>pc st.
       case getServerFile (we_yaml env) (pc_TenantID pc) st of
         (sf, st1) \<Rightarrow>
           (case ValidateBeforePublish (ap_store st1) (pc_TenantID pc) (pc_ProjectName pc) ver (Some sf) of
              Inl e \<Rightarrow> (Inl e, st1)
            | Inr report \<Rightarrow>
                if \<not> pv_OK report then (Inr (Some report), st1)
                else (case on_store_res (SubmitVersionReview pid ver) st1 of
                        (Inl e, st2) \<Rightarrow> (Inl e, st2)
                      | (Inr _, st2) \<Rightarrow>
                          (Inr None, web_audit env now r ''version.submit_review'' (''version='' @ ver) st2))))"

definition handleRejectReview ::
  "web_env \<Rightarrow> go_time \<Rightarrow> auth_request \<Rightarrow> int \<Rightarrow> string \<Rightarrow> api_state \<Rightarrow> unit res \<times> api_state" where
  "handleRejectReview env now r pid ver =
     with_writer env now r pid (\<lambda>pc st.
       audited env now r ''version.reject'' (''version='' @ ver) (on_store_res (RejectVersionReview pid ver) st))"

section \<open>Files of a version\<close>

definition handleListConfigFiles ::
  "web_env \<Rightarrow> go_time \<Rightarrow> auth_request \<Rightarrow> int \<Rightarrow> string \<Rightarrow> api_state \<Rightarrow>
     ((string \<times> string) list \<times> (string \<Rightarrow> nat)) res \<times> api_state" where
  "handleListConfigFiles env now r pid ver =
     with_project env now r pid (\<lambda>pc st.
       (map_sum id (\<lambda>entries. (entries, \<lambda>base. count_list (map fst entries) base))
          (ListConfigFileEntries (ap_store st) (pc_TenantID pc) (pc_ProjectName pc) ver), st))"

definition handleListVersionFiles ::
  "web_env \<Rightarrow> go_time \<Rightarrow> auth_request \<Rightarrow> int \<Rightarrow> string \<Rightarrow> api_state \<Rightarrow> string list res \<times> api_state" where
  "handleListVersionFiles env now r pid ver =
     with_project env now r pid (\<lambda>pc st. (ListVersionFiles (ap_store st) (pc_TenantID pc) (pc_ProjectName pc) ver, st))"

definition handleReadVersionFile ::
  "web_env \<Rightarrow> go_time \<Rightarrow> auth_request \<Rightarrow> int \<Rightarrow> string \<Rightarrow> string \<Rightarrow> api_state \<Rightarrow> (string \<times> int \<times> string) res \<times> api_state" where
  "handleReadVersionFile env now r pid ver rel st =
     (if rel = [] then (Inl (ErrMsg ''path query required''), st)
      else with_project env now r pid (\<lambda>pc st.
        (map_sum id (\<lambda>(data, n). (rel, n, data))
           (ReadVersionTextFile (ap_store st) (pc_TenantID pc) (pc_ProjectName pc) ver rel), st)) st)"

definition handleDownloadVersion ::
  "web_env \<Rightarrow> go_time \<Rightarrow> auth_request \<Rightarrow> int \<Rightarrow> string \<Rightarrow> api_state \<Rightarrow> archive_entry list res \<times> api_state" where
  "handleDownloadVersion env now r pid ver =
     with_project env now r pid (\<lambda>pc st.
       case GetVersion (ap_store st) pid ver of
         Inl _ \<Rightarrow> (Inl (ErrMsg ''version not found''), st)
       | Inr v \<Rightarrow>
           if v_Status v \<noteq> ''published'' then (Inl (ErrMsg ''only published versions can be downloaded''), st)
           else audited env now r ''version.download'' (''project='' @ pc_ProjectName pc @ '' version='' @ ver)
                  (StreamVersionArchive (ap_store st) (pc_TenantID pc) (pc_ProjectName pc) ver, st))"

definition handleDeleteVersionFile ::
  "web_env \<Rightarrow> go_time \<Rightarrow> auth_request \<Rightarrow> int \<Rightarrow> string \<Rightarrow> string \<Rightarrow> api_state \<Rightarrow> unit res \<times> api_state" where
  "handleDeleteVersionFile env now r pid ver rel st =
     (if rel = [] then (Inl (ErrMsg ''path query required''), st)
      else with_draft env now r pid ver (\<lambda>pc.
        on_store_res (DeleteVersionFile (we_sha env) (pc_TenantID pc) (pc_ProjectName pc) ver rel)) st)"

section \<open>Uploads\<close>

text \<open>The state of an upload has the operational logs beside the server's state (\<open>pull_state\<close>).\<close>

definition recordUploadEvent ::
  "web_env \<Rightarrow> go_time \<Rightarrow> auth_request \<Rightarrow> project_ctx \<Rightarrow> string \<Rightarrow> string \<Rightarrow> int \<Rightarrow> int \<Rightarrow> string \<Rightarrow> go_error option \<Rightarrow> pull_state \<Rightarrow> pull_state" where
  "recordUploadEvent env now r pc version kind bytes files detail err w =
     (case web_session env now r (ps_api w) of
        (sess, st1) \<Rightarrow>
          w\<lparr>ps_api := st1,
            ps_logs := RecordUploadEvent now
              \<lparr>ue_ID = 0, ue_At = None, ue_TenantID = pc_TenantID pc, ue_ProjectID = pc_ProjectID pc, ue_Version = version,
               ue_Kind = kind, ue_Bytes = max 0 bytes, ue_FileCount = files,
               ue_Status = (if err = None then ''success'' else ''failed''), ue_Username = session_name sess,
               ue_Detail = detail, ue_Error = (case err of None \<Rightarrow> [] | Some e \<Rightarrow> error_text e),
               ue_IP = clientIP (ae_Login (we_auth env)) (ar_Peer r)\<rparr> (ps_logs w)\<rparr>)"

record upload_form =
  uf_path :: string
  uf_file :: "(string \<times> string) option"
  uf_tags :: "string list"

definition zipFilePaths :: "archive_entry list \<Rightarrow> string list" where
  "zipFilePaths fs = map ae_Name (filter (\<lambda>f. ae_Type f \<noteq> TypeDir) fs)"

definition tarFilePaths :: "archive_entry list \<Rightarrow> string list" where
  "tarFilePaths hs = map ae_Name (filter (\<lambda>h. ae_Type h = TypeReg) hs)"

text \<open>Tags are set file by file; a failure is ignored.\<close>

definition tag_all :: "go_time \<Rightarrow> int \<Rightarrow> string \<Rightarrow> string \<Rightarrow> string list \<Rightarrow> string list \<Rightarrow> store \<Rightarrow> store" where
  "tag_all now tid pname ver tags paths s =
     (if tags = [] then s else fold (\<lambda>path s. snd (SetVersionFileTags now tid pname ver path tags s)) paths s)"

text \<open>A damaged archive is extracted up to the damage.\<close>

definition extract_upload ::
  "web_env \<Rightarrow> go_time \<Rightarrow> string \<Rightarrow> int \<Rightarrow> string \<Rightarrow> string \<Rightarrow> string \<Rightarrow> store \<Rightarrow> (string list res \<times> store)" where
  "extract_upload env now kind tid pname ver data s =
     (if kind = ''zip''
      then (case we_zip env data of
              None \<Rightarrow> (Inl (ErrMsg ''zip''), s)
            | Some fs \<Rightarrow> (case ExtractZipToVersion (we_sha env) now tid pname ver fs s of
                            (res, s1) \<Rightarrow> (map_sum id (\<lambda>_. zipFilePaths fs) res, s1)))
      else (case we_tar env (kind = ''tgz'') data of
              (hs, complete) \<Rightarrow>
                (case ExtractTarToVersion (we_sha env) now tid pname ver hs s of
                   (Inl e, s1) \<Rightarrow> (Inl e, s1)
                 | (Inr _, s1) \<Rightarrow> (if complete then Inr (tarFilePaths hs) else Inl (ErrMsg ''tar''), s1))))"

definition upload_kind :: "string \<Rightarrow> string" where
  "upload_kind filename0 =
     (let filename = lower filename0
      in if has_suffix filename ''.zip'' then ''zip''
         else if has_suffix filename ''.tar.gz'' \<or> has_suffix filename ''.tgz'' then ''tgz''
         else if has_suffix filename ''.tar'' then ''tar'' else ''file'')"

definition upload_archive ::
  "web_env \<Rightarrow> go_time \<Rightarrow> auth_request \<Rightarrow> project_ctx \<Rightarrow> string \<Rightarrow> string \<Rightarrow> string \<Rightarrow> string \<Rightarrow> string list \<Rightarrow> pull_state \<Rightarrow>
     string res \<times> pull_state" where
  "upload_archive env now r pc ver kind rel data tags w =
     (let tid = pc_TenantID pc; pname = pc_ProjectName pc; label = (if kind = ''zip'' then ''zip'' else ''tar'')
      in case extract_upload env now kind tid pname ver data (ps_store w) of
           (Inl e, s1) \<Rightarrow>
             (Inl e, recordUploadEvent env now r pc ver label (int (length data)) 0 rel (Some e)
                (on_api (\<lambda>st. st\<lparr>ap_store := s1\<rparr>) w))
         | (Inr paths, s1) \<Rightarrow>
             (let w1 = recordUploadEvent env now r pc ver label (int (length data)) (int (length paths)) rel None
                    (on_api (\<lambda>st. st\<lparr>ap_store := tag_all now tid pname ver tags paths s1\<rparr>) w)
              in (Inr (if kind = ''zip'' then ''zip extracted'' else ''archive extracted''),
                  on_api (web_audit env now r (''version.upload.'' @ label)
                    (''project='' @ pname @ '' version='' @ ver @ '' file='' @ rel)) w1)))"

definition upload_file ::
  "web_env \<Rightarrow> go_time \<Rightarrow> auth_request \<Rightarrow> project_ctx \<Rightarrow> string \<Rightarrow> string \<Rightarrow> string \<Rightarrow> string list \<Rightarrow> pull_state \<Rightarrow>
     string res \<times> pull_state" where
  "upload_file env now r pc ver rel data tags w =
     (let tid = pc_TenantID pc; pname = pc_ProjectName pc
      in case WriteVersionFile (we_sha env) now tid pname ver rel data (ps_store w) of
           (Inl e, s1) \<Rightarrow>
             (Inl e, recordUploadEvent env now r pc ver ''file'' (int (length data)) 0 rel (Some e)
                (on_api (\<lambda>st. st\<lparr>ap_store := s1\<rparr>) w))
         | (Inr _, s1) \<Rightarrow>
             (let w1 = recordUploadEvent env now r pc ver ''file'' (int (length data)) 1 rel None
                    (on_api (\<lambda>st. st\<lparr>ap_store := tag_all now tid pname ver tags [rel] s1\<rparr>) w)
              in (Inr rel, on_api (web_audit env now r ''version.upload''
                    (''project='' @ pname @ '' version='' @ ver @ '' file='' @ rel)) w1)))"

definition handleUploadFile ::
  "web_env \<Rightarrow> go_time \<Rightarrow> auth_request \<Rightarrow> int \<Rightarrow> string \<Rightarrow> upload_form option \<Rightarrow> pull_state \<Rightarrow> string res \<times> pull_state" where
  "handleUploadFile env now r pid ver body w =
     (case projectByID env now r pid (ps_api w) of
        (None, st1) \<Rightarrow> (Inl (ErrMsg ''project not found''), w\<lparr>ps_api := st1\<rparr>)
      | (Some pc, st1) \<Rightarrow>
          (let w1 = w\<lparr>ps_api := st1\<rparr>
           in case requireMutableVersion (ap_store st1) pc ver of
                Inl e \<Rightarrow> (Inl e, w1)
              | Inr _ \<Rightarrow>
                  (case body of
                     None \<Rightarrow> (Inl (ErrMsg ''multipart''), w1)
                   | Some form \<Rightarrow>
                       (case uf_file form of
                          None \<Rightarrow> (Inl (ErrMsg ''file required''), w1)
                        | Some (filename, data) \<Rightarrow>
                            (let rel = (if uf_path form = [] then filename else uf_path form); kind = upload_kind filename
                             in if kind = ''file'' then upload_file env now r pc ver rel data (uf_tags form) w1
                                else upload_archive env now r pc ver kind rel data (uf_tags form) w1)))))"

section \<open>File tags\<close>

definition handleListVersionFileTags ::
  "web_env \<Rightarrow> go_time \<Rightarrow> auth_request \<Rightarrow> int \<Rightarrow> string \<Rightarrow> api_state \<Rightarrow> (string \<times> string list) list res \<times> api_state" where
  "handleListVersionFileTags env now r pid ver =
     with_project env now r pid (\<lambda>pc st. (ListVersionFileTags (ap_store st) (pc_TenantID pc) (pc_ProjectName pc) ver, st))"

definition handlePutVersionFileTags ::
  "web_env \<Rightarrow> go_time \<Rightarrow> auth_request \<Rightarrow> int \<Rightarrow> string \<Rightarrow> (string \<times> string list) option \<Rightarrow> api_state \<Rightarrow>
     (string \<times> string list) res \<times> api_state" where
  "handlePutVersionFileTags env now r pid ver body =
     with_draft env now r pid ver (\<lambda>pc st.
       case body of
         None \<Rightarrow> (Inl (ErrMsg ''path required''), st)
       | Some (path, tags) \<Rightarrow>
           if path = [] then (Inl (ErrMsg ''path required''), st)
           else (case on_store_res (SetVersionFileTags now (pc_TenantID pc) (pc_ProjectName pc) ver path tags) st of
                   (Inl e, st1) \<Rightarrow> (Inl e, st1)
                 | (Inr _, st1) \<Rightarrow>
                     (Inr (path, TagsForVersionFile (ap_store st1) (pc_TenantID pc) (pc_ProjectName pc) ver path),
                      web_audit env now r ''version.file_tags.set''
                        (''project='' @ pc_ProjectName pc @ '' version='' @ ver @ '' path='' @ path) st1)))"

definition handleDeleteVersionFileTags ::
  "web_env \<Rightarrow> go_time \<Rightarrow> auth_request \<Rightarrow> int \<Rightarrow> string \<Rightarrow> string \<Rightarrow> api_state \<Rightarrow> unit res \<times> api_state" where
  "handleDeleteVersionFileTags env now r pid ver path st =
     (if path = [] then (Inl (ErrMsg ''path query required''), st)
      else with_draft env now r pid ver (\<lambda>pc st.
        audited env now r ''version.file_tags.clear''
          (''project='' @ pc_ProjectName pc @ '' version='' @ ver @ '' path='' @ path)
          (on_store_res (ClearVersionFileTags (pc_TenantID pc) (pc_ProjectName pc) ver path) st)) st)"

record tags_batch =
  tb_Paths :: "string list"
  tb_Patterns :: "string list"
  tb_Tags :: "string list"
  tb_Mode :: string

definition batch_mode_of :: "string \<Rightarrow> batch_mode option" where
  "batch_mode_of m =
     (if m = [] \<or> m = ''set'' then Some FileTagSet else if m = ''add'' then Some FileTagAdd
      else if m = ''remove'' then Some FileTagRemove else if m = ''clear'' then Some FileTagClear else None)"

definition handleBatchVersionFileTags ::
  "web_env \<Rightarrow> go_time \<Rightarrow> auth_request \<Rightarrow> int \<Rightarrow> string \<Rightarrow> tags_batch option \<Rightarrow> api_state \<Rightarrow>
     (string \<times> string list) list res \<times> api_state" where
  "handleBatchVersionFileTags env now r pid ver body =
     with_draft env now r pid ver (\<lambda>pc st.
       case body of
         None \<Rightarrow> (Inl (ErrMsg ''invalid json''), st)
       | Some req \<Rightarrow>
           (case batch_mode_of (tb_Mode req) of
              None \<Rightarrow> (Inl (ErrMsg ''mode must be set/add/remove/clear''), st)
            | Some mode \<Rightarrow>
                audited env now r ''version.file_tags.batch''
                  (''project='' @ pc_ProjectName pc @ '' version='' @ ver @ '' mode='' @ (if tb_Mode req = [] then ''set'' else tb_Mode req))
                  (on_store_res (BatchUpdateVersionFileTags (we_glob env) now (pc_TenantID pc) (pc_ProjectName pc) ver
                     (tb_Paths req) (tb_Patterns req) (tb_Tags req) mode) st)))"

section \<open>Invitations and members\<close>

definition handleCreateProjectInvite ::
  "web_env \<Rightarrow> go_time \<Rightarrow> string \<Rightarrow> auth_request \<Rightarrow> int \<Rightarrow> (string \<times> int) option \<Rightarrow> api_state \<Rightarrow> project_invite res \<times> api_state" where
  "handleCreateProjectInvite env now token r pid body =
     with_writer env now r pid (\<lambda>pc st.
       case body of
         None \<Rightarrow> (Inl (ErrMsg ''invalid body''), st)
       | Some (role, hours) \<Rightarrow>
           (case web_session env now r st of
              (sess, st1) \<Rightarrow>
                on_store_res (CreateProjectInvite now token pid (session_user sess) (if role = [] then ProjectRoleViewer else role) hours) st1))"

definition handleListProjectInvites ::
  "web_env \<Rightarrow> go_time \<Rightarrow> auth_request \<Rightarrow> int \<Rightarrow> api_state \<Rightarrow> project_invite list res \<times> api_state" where
  "handleListProjectInvites env now r pid =
     with_project env now r pid (\<lambda>pc st. (Inr (ListProjectInvites now (ap_store st) pid), st))"

definition handleListProjectMembers ::
  "web_env \<Rightarrow> go_time \<Rightarrow> auth_request \<Rightarrow> int \<Rightarrow> api_state \<Rightarrow> (project_member \<times> string) list res \<times> api_state" where
  "handleListProjectMembers env now r pid = with_project env now r pid (\<lambda>pc st. (Inr (ListProjectMembers (ap_store st) pid), st))"

definition handleRemoveProjectMember ::
  "web_env \<Rightarrow> go_time \<Rightarrow> auth_request \<Rightarrow> int \<Rightarrow> int \<Rightarrow> api_state \<Rightarrow> unit res \<times> api_state" where
  "handleRemoveProjectMember env now r pid uid = with_writer env now r pid (\<lambda>pc. on_store_res (RemoveProjectMember pid uid))"

definition handlePreviewProjectInvite ::
  "web_env \<Rightarrow> go_time \<Rightarrow> string \<Rightarrow> api_state \<Rightarrow> (string \<times> string \<times> stamp \<times> bool) res" where
  "handlePreviewProjectInvite env now token st =
     (case ProjectInvitePreview (we_zone env) now (ap_store st) token of
        Inl _ \<Rightarrow> Inl (ErrMsg ''invite not found'') | Inr info \<Rightarrow> Inr info)"

definition handleAcceptProjectInvite ::
  "web_env \<Rightarrow> go_time \<Rightarrow> string \<Rightarrow> auth_request \<Rightarrow> api_state \<Rightarrow> project res \<times> api_state" where
  "handleAcceptProjectInvite env now token r st =
     (case web_session env now r st of
        (None, st1) \<Rightarrow> (Inl (ErrMsg ''login required''), st1)
      | (Some sess, st1) \<Rightarrow>
          (case on_store_res (AcceptProjectInvite (we_zone env) now token (ss_UserID sess)) st1 of
             (Inl e, st2) \<Rightarrow> (Inl e, st2)
           | (Inr p, st2) \<Rightarrow> (Inr p, web_audit env now r ''project.invite.accept'' (''project='' @ p_Name p) st2)))"

section \<open>Logs of a project\<close>

definition handleListProjectLogs ::
  "web_env \<Rightarrow> go_time \<Rightarrow> auth_request \<Rightarrow> int option \<Rightarrow> string \<Rightarrow> string \<Rightarrow> int \<Rightarrow> pull_state \<Rightarrow> project_log list res \<times> pull_state" where
  "handleListProjectLogs env now r pid serverID version limit w =
     (case web_session env now r (ps_api w) of
        (None, st1) \<Rightarrow> (Inl (ErrMsg ''login required''), w\<lparr>ps_api := st1\<rparr>)
      | (Some sess, st1) \<Rightarrow>
          (case pid of
             None \<Rightarrow> Inl (ErrMsg ''invalid project id'')
           | Some i \<Rightarrow>
               if i \<le> 0 then Inl (ErrMsg ''invalid project id'')
               else if \<not> can_pull (ap_store st1) (ss_UserID sess) i then Inl (ErrMsg ''no access to project'')
               else Inr (ListProjectLogs (ap_store st1) (ps_logs w)
                      \<lparr>pf_TenantID = ss_TenantID sess, pf_ProjectID = i, pf_ServerID = serverID, pf_Version = version, pf_Limit = limit\<rparr>),
           w\<lparr>ps_api := st1\<rparr>))"

section \<open>What a request leaves of the store\<close>

text \<open>Finding out who calls, and the audit log, touch the login counters and the audit table only.\<close>

definition core :: "store \<Rightarrow> store" where
  "core s = s\<lparr>st_bans := [], st_audit := empty_table\<rparr>"

lemma core_steps [simp]:
  "core (RecordAudit now u a d ip s) = core s" "core (snd (recordLoginFailure le p u now s)) = core s"
  "core (clearLoginFailures le p s) = core s"
  by (auto simp: core_def RecordAudit_def recordLoginFailure_def clearLoginFailures_def RecordLoginIPFailure_def ClearLoginIPFailures_def
      Let_def split: prod.split option.split if_splits)

lemma core_basic [simp]: "core (snd (basicAuthSession env now r s)) = core s"
  by (auto simp: basicAuthSession_def Let_def split: option.split prod.split sum.split)

lemma core_request [simp]: "core (ap_store (snd (sessionFromRequest env now r st))) = core (ap_store st)"
  using core_basic [of env now r "ap_store st"]
  by (cases "basicAuthSession env now r (ap_store st)") (auto simp: sessionFromRequest_def split: option.split)

lemma core_session [simp]: "core (ap_store (snd (currentSession env now r st))) = core (ap_store st)"
  using core_request [of env now r st]
  by (cases "sessionFromRequest env now r st") (auto simp: currentSession_def split: option.split)

lemma core_audit [simp]: "core (ap_store (audit_request env now r a d st)) = core (ap_store st)"
  using core_session [of env now r st]
  by (cases "currentSession env now r st") (auto simp: audit_request_def on_store_def split: option.split)

lemma core_tenant [simp]: "core (ap_store (snd (tenantFromSession env now r st))) = core (ap_store st)"
  using core_session [of env now r st]
  by (cases "currentSession env now r st") (auto simp: tenantFromSession_def split: option.split sum.split)

lemma core_project [simp]: "core (ap_store (snd (projectByID env now r pid st))) = core (ap_store st)"
proof -
  obtain t st1 where t: "tenantFromSession (we_auth env) now r st = (t, st1)" by fastforce
  obtain sess st2 where c: "web_session env now r st1 = (sess, st2)" by fastforce
  show ?thesis
    using core_tenant [of "we_auth env" now r st] core_session [of "we_auth env" now r st1] t c
    by (auto simp: projectByID_def split: option.split)
qed

text \<open>The tables two stores with the same core share.\<close>

lemma core_sel:
  "st_tenants (core s) = st_tenants s" "st_users (core s) = st_users s" "st_projects (core s) = st_projects s"
  "st_versions (core s) = st_versions s" "st_members (core s) = st_members s" "st_hooks (core s) = st_hooks s"
  "st_nodes (core s) = st_nodes s" "st_files (core s) = st_files s" "st_fileTags (core s) = st_fileTags s"
  "st_deployments (core s) = st_deployments s" "st_tasks (core s) = st_tasks s"
  by (simp_all add: core_def)

lemma core_tables:
  assumes "core s' = core s"
  shows "st_tenants s' = st_tenants s" "st_users s' = st_users s" "st_projects s' = st_projects s" "st_versions s' = st_versions s"
    "st_members s' = st_members s" "st_hooks s' = st_hooks s" "st_nodes s' = st_nodes s" "st_files s' = st_files s"
    "st_fileTags s' = st_fileTags s" "st_deployments s' = st_deployments s" "st_tasks s' = st_tasks s"
  by (metis assms core_sel(1), metis assms core_sel(2), metis assms core_sel(3), metis assms core_sel(4), metis assms core_sel(5), metis assms core_sel(6), metis assms core_sel(7), metis assms core_sel(8), metis assms core_sel(9), metis assms core_sel(10), metis assms core_sel(11))

text \<open>Publication and retention leave hooks and nodes alone.\<close>

definition delivery :: "store \<Rightarrow> release_hook table \<times> delivery_node table" where
  "delivery s = (st_hooks s, st_nodes s)"

lemma delivery_core: "core s' = core s \<Longrightarrow> delivery s' = delivery s"
  using core_tables(6) core_tables(7) unfolding delivery_def by metis

lemma delivery_release: "delivery (snd (release_all sha fs s)) = delivery s"
proof (induction fs arbitrary: s)
  case (Cons g fs)
  have one: "delivery (snd (releaseBlobLink sha g s)) = delivery s"
    by (auto simp: delivery_def releaseBlobLink_def decrementBlobRef_def split: option.split)
  obtain r s1 where r: "releaseBlobLink sha g s = (r, s1)" by fastforce
  with one Cons [of s1] show ?case by (cases r) auto
qed simp

lemma delivery_delete: "delivery (snd (DeleteVersion sha t p pn v s)) = delivery s"
proof -
  have *: "delivery (remove_all dir s') = delivery s'" "delivery (deleteVersionFileModes t pn v s') = delivery s'"
    "delivery (s'\<lparr>st_versions := x\<rparr>) = delivery s'" for dir s' x
    by (simp_all add: delivery_def remove_all_def deleteVersionFileModes_def)
  show ?thesis
    by (auto simp: DeleteVersion_def Let_def * releaseVersionDir_def delivery_release split: prod.split sum.split)
qed

lemma delivery_prune_loop: "delivery (snd (prune_loop sha t p pn vs removed s)) = delivery s"
proof (induction vs arbitrary: removed s)
  case (Cons v vs)
  obtain r s1 where r: "DeleteVersion sha t p pn (v_Version v) s = (r, s1)" by fastforce
  have "delivery s1 = delivery s" using delivery_delete [of sha t p pn "v_Version v" s] r by simp
  with r Cons show ?case by (cases r) auto
qed simp

lemma delivery_prune: "delivery (snd (PrunePublishedVersions sha t p pn n s)) = delivery s"
  by (simp add: PrunePublishedVersions_def Let_def delivery_prune_loop)

lemma delivery_publish: "delivery (snd (PublishVersion sha perm now t p v s)) = delivery s"
  by (auto simp: delivery_def PublishVersion_def split: sum.split)

lemma delivery_publish_new: "delivery (ap_store (snd (publish_new env now r pid ver pc st))) = delivery (ap_store st)"
proof -
  obtain x s1 where x: "PublishVersion (we_sha env) (we_perm env) now (pc_TenantID pc) pid ver (ap_store st) = (x, s1)" by fastforce
  have d1: "delivery s1 = delivery (ap_store st)" using delivery_publish x by (metis snd_conv)
  have d2: "delivery s2 = delivery s1"
    if "PrunePublishedVersions (we_sha env) (pc_TenantID pc) pid (pc_ProjectName pc) n s1 = ((rem, e), s2)" for n rem e s2
    using delivery_prune that by (metis snd_conv)
  show ?thesis
    using d1 by (auto simp: publish_new_def on_store_res_def x d2 delivery_core [OF core_audit] split: sum.split prod.split option.split)
qed

section \<open>Publishing reaches hooks and nodes\<close>

text \<open>Every enabled hook of the project is due with the version, and every node that follows the project wants it.\<close>

definition delivers :: "int \<Rightarrow> int \<Rightarrow> string \<Rightarrow> go_time \<Rightarrow> store \<Rightarrow> bool" where
  "delivers tid pid ver now s =
     ((\<forall>h\<in>set (trows (st_hooks s)). rh_TenantID h = tid \<and> rh_ProjectID h = pid \<and> rh_Enabled h \<longrightarrow>
         rh_PendingVersion h = trim_space ver \<and> rh_PendingSource h = ''version_publish'' \<and> rh_PendingEvents h > 0
         \<and> rh_DueAt h = format_time (now + rh_DebounceSeconds h * Second))
      \<and> (\<forall>n\<in>set (trows (st_nodes s)). dn_TenantID n = tid \<and> dn_ProjectID n = pid \<and> dn_DeliveryMode n = ''pull''
           \<and> dn_AutoFollow n \<longrightarrow> dn_DesiredVersion n = ver))"

lemma delivers_cong: "delivery s' = delivery s \<Longrightarrow> delivers tid pid ver now s' = delivers tid pid ver now s"
  by (simp add: delivers_def delivery_def)

lemma updated_row: "x \<in> set (trows (snd (tbl_update P f t))) \<Longrightarrow> (\<exists>r. x = f r) \<or> \<not> P x"
  by (auto simp only: trows_tbl_update set_map split: if_split_asm)

lemma advance_nodes:
  assumes "AdvanceAutoFollowDeliveryNodes tid pid ver now s = (k, s')"
  shows "st_hooks s' = st_hooks s \<and> (\<forall>n\<in>set (trows (st_nodes s')). dn_TenantID n = tid \<and> dn_ProjectID n = pid
    \<and> dn_DeliveryMode n = ''pull'' \<and> dn_AutoFollow n \<longrightarrow> dn_DesiredVersion n = ver)"
proof -
  let ?P = "\<lambda>n. dn_TenantID n = tid \<and> dn_ProjectID n = pid \<and> dn_DeliveryMode n = ''pull'' \<and> dn_AutoFollow n \<and> dn_DesiredVersion n \<noteq> ver"
  let ?f = "\<lambda>n. n\<lparr>dn_DesiredGeneration := dn_DesiredGeneration n + 1, dn_Status := ''pending'', dn_DesiredVersion := ver,
    dn_LastError := [], dn_UpdatedAt := format_time now\<rparr>"
  have s': "s' = s\<lparr>st_nodes := snd (tbl_update ?P ?f (st_nodes s))\<rparr>"
    using assms by (simp add: AdvanceAutoFollowDeliveryNodes_def Let_def split: prod.splits)
  have "dn_DesiredVersion n = ver"
    if n: "n \<in> set (trows (snd (tbl_update ?P ?f (st_nodes s))))" "dn_TenantID n = tid" "dn_ProjectID n = pid"
      "dn_DeliveryMode n = ''pull''" "dn_AutoFollow n" for n
  proof -
    from updated_row [OF n(1)] have "(\<exists>m. n = ?f m) \<or> \<not> ?P n" .
    then show ?thesis
    proof
      assume "\<exists>m. n = ?f m"
      then obtain m where "n = ?f m" by blast
      then show ?thesis by simp
    next
      assume "\<not> ?P n"
      with n(2-5) show ?thesis by blast
    qed
  qed
  moreover have "st_hooks s' = st_hooks s" "st_nodes s' = snd (tbl_update ?P ?f (st_nodes s))" by (simp_all add: s' del: trows_tbl_update)
  ultimately show ?thesis by (simp only: simp_thms) blast
qed

lemma queue_hooks:
  assumes "QueueProjectReleaseHooks tx tid pid ver b ''version_publish'' now s = (Inr hs, s')" "hooks_ok s"
    and "h \<in> set (trows (st_hooks s'))" "rh_TenantID h = tid" "rh_ProjectID h = pid" "rh_Enabled h"
  shows "rh_PendingVersion h = trim_space ver \<and> rh_PendingSource h = ''version_publish'' \<and> rh_PendingEvents h > 0
    \<and> rh_DueAt h = format_time (now + rh_DebounceSeconds h * Second)"
  using assms(1,2)
proof (cases rule: QueueProjectReleaseHooks_cases)
  case (queued hs' items)
  let ?f = "\<lambda>h. triggered_hook (trim_space ver) (trim_space b) (trim_space ''version_publish'') (format_time now) (due_at now h) h"
  from rows_updated_row [OF queued(5) assms(3)] obtain g where g: "g \<in> set (trows (st_hooks s))"
    "h = (if rh_ID g \<in> rh_ID ` set items then ?f g else g)" by blast
  have "rh_ID g \<in> rh_ID ` set items"
  proof (rule ccontr)
    assume "rh_ID g \<notin> rh_ID ` set items"
    with g assms(4-6) have "g \<in> set items" unfolding queued(4) by simp
    with \<open>rh_ID g \<notin> rh_ID ` set items\<close> show False by blast
  qed
  with g have h: "h = ?f g" by simp
  have "0 \<le> rh_PendingEvents g" using g(1) assms(2) by (simp add: hooks_ok_def hook_ok_def)
  moreover have "trim_space ''version_publish'' = ''version_publish''" by code_simp
  ultimately show ?thesis unfolding h by (simp add: triggered_hook_def due_at_def)
qed simp

lemma after_publish_delivers:
  assumes "after_publish env now r pid ver pc replay st = (Inr res, st')" "hooks_ok (ap_store st)"
  shows "delivers (pc_TenantID pc) pid ver now (ap_store st')"
proof -
  obtain sess st1 where c: "web_session env now r st = (sess, st1)" by fastforce
  have ok: "hooks_ok (ap_store st1)"
    using core_session [of "we_auth env" now r st] c assms(2) core_tables(6) [of "ap_store st1" "ap_store st"] by (simp add: hooks_ok_def)
  from assms(1) c obtain hs s2 where
    q: "QueueProjectReleaseHooks (we_stamp env) (pc_TenantID pc) pid ver (session_name sess) ''version_publish'' now (ap_store st1) = (Inr hs, s2)"
    by (auto simp: after_publish_def Let_def on_store_res_def split: prod.splits sum.splits)
  obtain k s3 where a: "AdvanceAutoFollowDeliveryNodes (pc_TenantID pc) pid ver now s2 = (k, s3)" by fastforce
  from assms(1) c q a obtain action detail where "st' = web_audit env now r action detail (st1\<lparr>ap_store := s3\<rparr>)"
    by (auto simp: after_publish_def Let_def on_store_res_def)
  then have "core (ap_store st') = core s3" by simp
  then have "delivers (pc_TenantID pc) pid ver now (ap_store st') = delivers (pc_TenantID pc) pid ver now s3"
    by (intro delivers_cong delivery_core)
  also have "delivers (pc_TenantID pc) pid ver now s3"
    using advance_nodes [OF a] queue_hooks [OF q ok] by (simp add: delivers_def)
  finally show ?thesis .
qed


section \<open>Witnesses\<close>

definition sample_web_env :: web_env where
  "sample_web_env = \<lparr>we_auth = sample_auth_env, we_sha = sample_sha, we_perm = (\<lambda>_. 420), we_url = (\<lambda>_. None), we_stamp = (\<lambda>_. []),
     we_glob = (\<lambda>_ _. False), we_zip = (\<lambda>_. None), we_tar = (\<lambda>_ _. ([], False)), we_zone = 0\<rparr>"

definition sample_release_store :: store where
  "sample_release_store = sample_draft\<lparr>
     st_users := st_users (ap_store sample_accounts),
     st_files := [(''/d/userdata/acme/projects/game/1.0.0/a.txt'', ''A'')],
     st_hooks := \<lparr>trows = [sample_hook\<lparr>rh_TenantID := 7, rh_ProjectID := 1\<rparr>], tnext = 2\<rparr>,
     st_nodes := \<lparr>trows = [(default_node 7 1 ''s1'' None)\<lparr>dn_ID := 1, dn_AutoFollow := True\<rparr>], tnext = 2\<rparr>\<rparr>"

definition sample_release :: api_state where
  "sample_release = sample_accounts\<lparr>ap_store := sample_release_store\<rparr>"


end
