(* ===== verification/DeliveryApi.thy ===== *)
theory DeliveryApi
  imports ProjectApi
begin

text \<open>
  The handlers of SSH hosts, bindings, deployments, release tasks, release hooks and pull nodes
  (\<open>internal/api/handlers_push.go\<close>, \<open>push_validation.go\<close>, \<open>push_credentials.go\<close>, \<open>push_health.go\<close>, \<open>handlers_push_tasks.go\<close>,
  \<open>handlers_release_hooks.go\<close>, \<open>handlers_delivery_nodes.go\<close>).  AES-GCM, the parsers of package \<open>ssh\<close>, \<open>net.ParseIP\<close> and
  the JSON of a selector are parameters.  A handler that starts a deployment in the background says so in its
  answer; the run itself is \<open>runPushDeployment\<close>.
\<close>

section \<open>Credentials\<close>

text \<open>\<open>seal\<close> and \<open>unseal\<close> are AES-GCM with the given key and nonce; a nonce has twelve bytes.\<close>

record aead =
  ad_seal :: "string \<Rightarrow> string \<Rightarrow> string \<Rightarrow> string"
  ad_unseal :: "string \<Rightarrow> string \<Rightarrow> string \<Rightarrow> string option"

text \<open>\<open>enc\<close> and \<open>dec\<close> are the standard base64 of package \<open>encoding/base64\<close>.\<close>

record b64_codec =
  bc_enc :: "string \<Rightarrow> string"
  bc_dec :: "string \<Rightarrow> string option"

definition newPushCredentialCipher :: "b64_codec \<Rightarrow> string \<Rightarrow> string res" where
  "newPushCredentialCipher b64 raw =
     (if raw = [] then Inl (ErrMsg ''EXPRESS233_PUSH_CREDENTIAL_KEY must be configured before adding SSH private keys'')
      else case bc_dec b64 raw of
        None \<Rightarrow> Inl (ErrMsg ''EXPRESS233_PUSH_CREDENTIAL_KEY must be base64 encoded 32-byte key'')
      | Some key \<Rightarrow>
          if length key \<noteq> 32 then Inl (ErrMsg ''EXPRESS233_PUSH_CREDENTIAL_KEY must be base64 encoded 32-byte key'')
          else Inr key)"

definition nonce_size :: nat where
  "nonce_size = 12"

text \<open>The nonce is drawn by the caller; none when the random source fails.\<close>

definition encrypt_credential :: "aead \<Rightarrow> b64_codec \<Rightarrow> string \<Rightarrow> string option \<Rightarrow> string \<Rightarrow> string res" where
  "encrypt_credential ad b64 key rand plain =
     (case rand of
        None \<Rightarrow> Inl (ErrMsg ''rand'')
      | Some nonce \<Rightarrow> Inr (bc_enc b64 (nonce @ ad_seal ad key nonce plain)))"

definition decrypt_credential :: "aead \<Rightarrow> b64_codec \<Rightarrow> string \<Rightarrow> string \<Rightarrow> string res" where
  "decrypt_credential ad b64 key encoded =
     (case bc_dec b64 encoded of
        None \<Rightarrow> Inl (ErrMsg ''base64'')
      | Some data \<Rightarrow>
          if length data < nonce_size then Inl (ErrMsg ''invalid encrypted credential'')
          else case ad_unseal ad key (take nonce_size data) (drop nonce_size data) of
            None \<Rightarrow> Inl (ErrMsg ''cipher: message authentication failed'')
          | Some plain \<Rightarrow> Inr plain)"

section \<open>Environment\<close>

record delivery_env =
  dl_web :: web_env
  dl_push :: push_env
  dl_json :: "create_request \<Rightarrow> string"
  dl_dry_run :: "string \<Rightarrow> bool"
  dl_aead :: aead
  dl_b64 :: b64_codec
  dl_key :: string
  dl_nonce :: "string option"
  dl_tofu :: bool
  dl_host_key :: "string \<Rightarrow> bool"
  dl_private_key :: "string \<Rightarrow> bool"
  dl_parse_ip :: "string \<Rightarrow> bool"

abbreviation dl_session :: "delivery_env \<Rightarrow> go_time \<Rightarrow> auth_request \<Rightarrow> api_state \<Rightarrow> session option \<times> api_state" where
  "dl_session env \<equiv> web_session (dl_web env)"

abbreviation dl_audit :: "delivery_env \<Rightarrow> go_time \<Rightarrow> auth_request \<Rightarrow> string \<Rightarrow> string \<Rightarrow> api_state \<Rightarrow> api_state" where
  "dl_audit env \<equiv> web_audit (dl_web env)"

definition dl_encrypt :: "delivery_env \<Rightarrow> string \<Rightarrow> string res" where
  "dl_encrypt env secret =
     (case newPushCredentialCipher (dl_b64 env) (dl_key env) of
        Inl e \<Rightarrow> Inl e
      | Inr key \<Rightarrow> encrypt_credential (dl_aead env) (dl_b64 env) key (dl_nonce env) secret)"

text \<open>\<open>tid, _ := s.tenantFromSession(r)\<close>: tenant zero when there is none.\<close>

definition with_tenant ::
  "delivery_env \<Rightarrow> go_time \<Rightarrow> auth_request \<Rightarrow> (int \<Rightarrow> api_state \<Rightarrow> 'a res \<times> api_state) \<Rightarrow> api_state \<Rightarrow> 'a res \<times> api_state" where
  "with_tenant env now r f st =
     (case tenantFromSession (we_auth (dl_web env)) now r st of
        (tid, st1) \<Rightarrow> f (case tid of None \<Rightarrow> 0 | Some t \<Rightarrow> t) st1)"

section \<open>Hosts\<close>

record host_request =
  ho_Name :: string
  ho_Address :: string
  ho_Username :: string
  ho_HostKey :: string
  ho_PrivateKey :: string
  ho_Credential :: string
  ho_AuthMode :: string
  ho_Port :: int
  ho_HealthCheckEnabled :: "bool option"
  ho_HealthCheckIntervalSeconds :: int

definition username_ok :: "string \<Rightarrow> bool" where
  "username_ok u = (1 \<le> length u \<and> length u \<le> 64 \<and> list_all (\<lambda>c. is_alnum c \<or> c \<in> set ''._-'') u)"

definition hostname_ok :: "string \<Rightarrow> bool" where
  "hostname_ok a = (1 \<le> length a \<and> length a \<le> 253 \<and> list_all (\<lambda>c. is_alnum c \<or> c \<in> set ''.-'') a)"

definition host_secret :: "host_request \<Rightarrow> string" where
  "host_secret req = (if ho_Credential req = [] then ho_PrivateKey req else ho_Credential req)"

text \<open>The request is passed by value: what is trimmed here is not what the caller stores.\<close>

definition validatePushHostRequest :: "delivery_env \<Rightarrow> host_request \<Rightarrow> bool \<Rightarrow> unit res" where
  "validatePushHostRequest env req requireCredential =
     (let name = trim_space (ho_Name req); address = trim_space (ho_Address req); username = trim_space (ho_Username req);
          mode = (if ho_AuthMode req = [] then ''private_key'' else ho_AuthMode req); secret = host_secret req
      in if name = [] \<or> address = [] \<or> \<not> username_ok username
         then Inl (ErrMsg ''host name, address and a valid SSH username are required'')
         else if ho_Port req \<noteq> 0 \<and> (ho_Port req < 1 \<or> ho_Port req > 65535)
         then Inl (ErrMsg ''SSH port must be between 1 and 65535'')
         else if list_ex (\<lambda>c. c = slash \<or> c = CHR 0x5C \<or> c = CHR 0x40 \<or> c = CHR '' '') address
              \<or> (\<not> dl_parse_ip env address \<and> \<not> hostname_ok address)
         then Inl (ErrMsg ''SSH address must be a hostname or IP address, without a scheme or port'')
         else if mode \<noteq> ''password'' \<and> mode \<noteq> ''private_key'' \<and> mode \<noteq> ''agent''
         then Inl (ErrMsg ''auth_mode must be password, private_key, or agent'')
         else if ho_HostKey req = [] \<and> \<not> dl_tofu env
         then Inl (ErrMsg ''host_key is required; set EXPRESS233_PUSH_ALLOW_TOFU=1 only for controlled first enrollment'')
         else if ho_HostKey req \<noteq> [] \<and> \<not> dl_host_key env (ho_HostKey req) then Inl (ErrMsg ''invalid SSH host_key'')
         else if requireCredential \<and> mode \<noteq> ''agent'' \<and> trim_space secret = [] then Inl (ErrMsg ''SSH credential is required'')
         else if secret \<noteq> [] \<and> mode = ''password'' \<and> length secret < 8
         then Inl (ErrMsg ''SSH password must contain at least 8 characters'')
         else if secret \<noteq> [] \<and> mode = ''private_key'' \<and> \<not> dl_private_key env secret then Inl (ErrMsg ''invalid SSH private key'')
         else Inr ())"

definition request_host :: "int \<Rightarrow> int \<Rightarrow> host_request \<Rightarrow> bool \<Rightarrow> push_host" where
  "request_host i tid req enabled =
     \<lparr>ph_ID = i, ph_TenantID = tid, ph_Name = ho_Name req, ph_Address = ho_Address req, ph_Port = ho_Port req,
      ph_Username = ho_Username req, ph_AuthMode = ho_AuthMode req, ph_HostKey = ho_HostKey req, ph_HostKeyFingerprint = [],
      ph_EncryptedPrivateKey = [], ph_HealthCheckEnabled = enabled, ph_HealthCheckIntervalSeconds = ho_HealthCheckIntervalSeconds req,
      ph_LastCheckAt = None, ph_LastCheckStatus = [], ph_LastCheckError = [], ph_LastCheckLatencyMS = 0, ph_NextCheckAt = None,
      ph_CreatedAt = None, ph_UpdatedAt = None\<rparr>"

definition handleListPushHosts :: "delivery_env \<Rightarrow> go_time \<Rightarrow> auth_request \<Rightarrow> api_state \<Rightarrow> push_host list res \<times> api_state" where
  "handleListPushHosts env now r = with_tenant env now r (\<lambda>tid st. (Inr (ListPushHosts (ap_store st) tid), st))"

definition handleCreatePushHost ::
  "delivery_env \<Rightarrow> go_time \<Rightarrow> auth_request \<Rightarrow> host_request option \<Rightarrow> api_state \<Rightarrow> push_host res \<times> api_state" where
  "handleCreatePushHost env now r body st =
     (case body of
        None \<Rightarrow> (Inl (ErrMsg ''invalid body''), st)
      | Some req \<Rightarrow>
          (case validatePushHostRequest env req True of
             Inl e \<Rightarrow> (Inl e, st)
           | Inr _ \<Rightarrow>
               (case (if ho_AuthMode req \<noteq> ''agent'' then dl_encrypt env (host_secret req) else Inr []) of
                  Inl e \<Rightarrow> (Inl e, st)
                | Inr secret \<Rightarrow>
                    with_tenant env now r (\<lambda>tid st1.
                      case on_store_res (CreatePushHost now (request_host 0 tid req (case ho_HealthCheckEnabled req of None \<Rightarrow> True | Some b \<Rightarrow> b)) secret) st1 of
                        (Inl e, st2) \<Rightarrow> (Inl e, st2)
                      | (Inr host, st2) \<Rightarrow> (Inr host, dl_audit env now r ''push.host.create'' (''name='' @ ph_Name host) st2)) st)))"

definition handleGetPushHost :: "delivery_env \<Rightarrow> go_time \<Rightarrow> auth_request \<Rightarrow> int \<Rightarrow> api_state \<Rightarrow> push_host res \<times> api_state" where
  "handleGetPushHost env now r hostID =
     with_tenant env now r (\<lambda>tid st.
       (case GetPushHost (ap_store st) tid hostID of Inl _ \<Rightarrow> Inl (ErrMsg ''host not found'') | Inr h \<Rightarrow> Inr h, st))"

text \<open>What the request leaves out is taken from the host; a credential is changed only when one is given.\<close>

definition handleUpdatePushHost ::
  "delivery_env \<Rightarrow> go_time \<Rightarrow> auth_request \<Rightarrow> int \<Rightarrow> host_request option \<Rightarrow> api_state \<Rightarrow> unit res \<times> api_state" where
  "handleUpdatePushHost env now r hostID body st =
     (case body of
        None \<Rightarrow> (Inl (ErrMsg ''invalid body''), st)
      | Some req0 \<Rightarrow>
          with_tenant env now r (\<lambda>tid st1.
            case GetPushHost (ap_store st1) tid hostID of
              Inl _ \<Rightarrow> (Inl (ErrMsg ''host not found''), st1)
            | Inr current \<Rightarrow>
                (let req = req0\<lparr>ho_HostKey := (if ho_HostKey req0 = [] then ph_HostKey current else ho_HostKey req0),
                                ho_AuthMode := (if ho_AuthMode req0 = [] then ph_AuthMode current else ho_AuthMode req0),
                                ho_HealthCheckIntervalSeconds := (if ho_HealthCheckIntervalSeconds req0 = 0
                                   then ph_HealthCheckIntervalSeconds current else ho_HealthCheckIntervalSeconds req0)\<rparr>;
                     enabled = (case ho_HealthCheckEnabled req of None \<Rightarrow> ph_HealthCheckEnabled current | Some b \<Rightarrow> b)
                 in case validatePushHostRequest env req False of
                      Inl e \<Rightarrow> (Inl e, st1)
                    | Inr _ \<Rightarrow>
                        (case (if host_secret req \<noteq> [] then dl_encrypt env (host_secret req) else Inr []) of
                           Inl e \<Rightarrow> (Inl e, st1)
                         | Inr key \<Rightarrow> on_store_res (UpdatePushHost now (request_host hostID tid req enabled) key) st1))) st)"

definition handleDeletePushHost :: "delivery_env \<Rightarrow> go_time \<Rightarrow> auth_request \<Rightarrow> int \<Rightarrow> api_state \<Rightarrow> unit res \<times> api_state" where
  "handleDeletePushHost env now r hostID =
     with_tenant env now r (\<lambda>tid st.
       case on_store_res (DeletePushHost tid hostID) st of
         (Inl _, st1) \<Rightarrow> (Inl (ErrMsg ''host not found''), st1) | (Inr _, st1) \<Rightarrow> (Inr (), st1))"

section \<open>Bindings\<close>

record binding_request =
  br_ProjectName :: string
  br_ServerID :: string
  br_Labels :: string
  br_ContentTags :: string
  br_RemoteRoot :: string
  br_SkipBackup :: bool
  br_OS :: string
  br_Arch :: string

definition validatePushBindingRequest :: "binding_request \<Rightarrow> unit res" where
  "validatePushBindingRequest req =
     (if trim_space (br_ProjectName req) = [] then Inl (ErrMsg ''project_name is required'')
      else if trim_space (br_ServerID req) = [] \<or> trim_space (br_RemoteRoot req) = []
      then Inl (ErrMsg ''server_id and remote_root are required'')
      else if \<not> has_prefix (br_RemoteRoot req) ''/'' \<or> CHR 0x00 \<in> set (br_RemoteRoot req)
      then Inl (ErrMsg ''remote_root must be an absolute POSIX path'')
      else if br_OS req \<noteq> [] \<and> br_OS req \<noteq> ''linux''
      then Inl (ErrMsg ''SSH push currently supports linux targets only; use pull mode for Windows targets'')
      else Inr ())"

definition request_binding :: "int \<Rightarrow> int \<Rightarrow> int \<Rightarrow> binding_request \<Rightarrow> push_binding" where
  "request_binding i tid hostID req =
     \<lparr>pb_PlanDigest = [], pb_ID = i, pb_TenantID = tid, pb_HostID = hostID, pb_HostName = [], pb_ProjectName = br_ProjectName req,
      pb_ServerID = br_ServerID req, pb_TargetTag = [], pb_Labels = br_Labels req, pb_ContentTags = br_ContentTags req,
      pb_RemoteRoot = br_RemoteRoot req, pb_SkipBackup = br_SkipBackup req, pb_OS = br_OS req, pb_Arch = br_Arch req,
      pb_CreatedAt = None, pb_UpdatedAt = None\<rparr>"

definition handleListPushBindings ::
  "delivery_env \<Rightarrow> go_time \<Rightarrow> auth_request \<Rightarrow> int \<Rightarrow> api_state \<Rightarrow> push_binding list res \<times> api_state" where
  "handleListPushBindings env now r hostID =
     with_tenant env now r (\<lambda>tid st. (Inr (ListPushServerBindings (ap_store st) tid hostID), st))"

definition handleCreatePushBinding ::
  "delivery_env \<Rightarrow> go_time \<Rightarrow> auth_request \<Rightarrow> int \<Rightarrow> binding_request option \<Rightarrow> api_state \<Rightarrow> push_binding res \<times> api_state" where
  "handleCreatePushBinding env now r hostID body st =
     (case body of
        None \<Rightarrow> (Inl (ErrMsg ''invalid body''), st)
      | Some req \<Rightarrow>
          (case validatePushBindingRequest req of
             Inl e \<Rightarrow> (Inl e, st)
           | Inr _ \<Rightarrow>
               with_tenant env now r (\<lambda>tid. on_store_res (CreatePushServerBinding now (request_binding 0 tid hostID req))) st))"

definition handleUpdatePushBinding ::
  "delivery_env \<Rightarrow> go_time \<Rightarrow> auth_request \<Rightarrow> int \<Rightarrow> int \<Rightarrow> binding_request option \<Rightarrow> api_state \<Rightarrow> unit res \<times> api_state" where
  "handleUpdatePushBinding env now r hostID i body st =
     (case body of
        None \<Rightarrow> (Inl (ErrMsg ''invalid body''), st)
      | Some req \<Rightarrow>
          (case validatePushBindingRequest req of
             Inl e \<Rightarrow> (Inl e, st)
           | Inr _ \<Rightarrow>
               with_tenant env now r (\<lambda>tid. on_store_res (UpdatePushServerBinding now (request_binding i tid hostID req))) st))"

definition handleDeletePushBinding ::
  "delivery_env \<Rightarrow> go_time \<Rightarrow> auth_request \<Rightarrow> int \<Rightarrow> int \<Rightarrow> api_state \<Rightarrow> unit res \<times> api_state" where
  "handleDeletePushBinding env now r hostID i =
     with_tenant env now r (\<lambda>tid st.
       case on_store_res (DeletePushServerBinding tid hostID i) st of
         (Inl _, st1) \<Rightarrow> (Inl (ErrMsg ''binding not found''), st1) | (Inr _, st1) \<Rightarrow> (Inr (), st1))"

section \<open>Health checks\<close>

text \<open>One connection attempt: the error, if any.  The host key is checked or enrolled as for a deployment.\<close>

definition sshCheck :: "ssh_world \<Rightarrow> go_time \<Rightarrow> push_host \<Rightarrow> store \<Rightarrow> string option \<times> store" where
  "sshCheck w now host s =
     (case GetPushHost s (ph_TenantID host) (ph_ID host) of
        Inl _ \<Rightarrow> (Some ''no such host'', s)
      | Inr _ \<Rightarrow>
          (case sw_auth w host of
             Some e \<Rightarrow> (Some e, s)
           | None \<Rightarrow>
               (case sw_dial w host of
                  Inl e \<Rightarrow> (Some (''connect '' @ ph_Name host @ '': '' @ deploy_error_text e), s)
                | Inr (key, fingerprint) \<Rightarrow>
                    (case hostKeyCallback w now host key fingerprint s of
                       (Inl _, s1) \<Rightarrow> (Some (''SSH handshake '' @ ph_Name host), s1)
                     | (Inr _, s1) \<Rightarrow> (None, s1)))))"

definition sanitizeSSHCheckError :: "string \<Rightarrow> string" where
  "sanitizeSSHCheckError message = take 1000 (trim_space (filter (\<lambda>c. c \<noteq> CHR 0x00) message))"

text \<open>\<open>latency\<close> is what the clock measured, in milliseconds.\<close>

definition checkPushHost ::
  "ssh_world \<Rightarrow> go_time \<Rightarrow> int \<Rightarrow> push_host \<Rightarrow> string \<Rightarrow> store \<Rightarrow> push_host_check res \<times> store" where
  "checkPushHost w now latency host trigger s =
     (case sshCheck w now host s of
        (err, s1) \<Rightarrow>
          RecordPushHostCheck now
            \<lparr>hc_ID = 0, hc_TenantID = ph_TenantID host, hc_HostID = ph_ID host,
             hc_Status = (if err = None then ''ok'' else ''failed''),
             hc_Error = (case err of None \<Rightarrow> [] | Some m \<Rightarrow> sanitizeSSHCheckError m),
             hc_LatencyMS = latency, hc_Trigger = trigger, hc_CheckedAt = None\<rparr> s1)"

text \<open>The due hosts one after the other; a check that cannot be recorded is logged and the rest goes on.\<close>

definition runDuePushHealthChecks :: "ssh_world \<Rightarrow> go_time \<Rightarrow> int \<Rightarrow> store \<Rightarrow> store" where
  "runDuePushHealthChecks w now latency s =
     fold (\<lambda>host s. snd (checkPushHost w now latency host ''scheduled'' s)) (ListDuePushHosts s now 100) s"

definition handleCheckPushHost ::
  "delivery_env \<Rightarrow> ssh_world \<Rightarrow> go_time \<Rightarrow> int \<Rightarrow> auth_request \<Rightarrow> int \<Rightarrow> api_state \<Rightarrow> push_host_check res \<times> api_state" where
  "handleCheckPushHost env w now latency r hostID =
     with_tenant env now r (\<lambda>tid st.
       case GetPushHost (ap_store st) tid hostID of
         Inl _ \<Rightarrow> (Inl (ErrMsg ''host not found''), st)
       | Inr host \<Rightarrow>
           (case on_store_res (checkPushHost w now latency host ''manual'') st of
              (Inl _, st1) \<Rightarrow> (Inl (ErrMsg ''failed to record SSH check''), st1)
            | (Inr check, st1) \<Rightarrow>
                (Inr check, dl_audit env now r ''push.host.check''
                   (''host_id='' @ show_int (ph_ID host) @ '' status='' @ hc_Status check) st1)))"

definition handleListPushHostChecks ::
  "delivery_env \<Rightarrow> go_time \<Rightarrow> auth_request \<Rightarrow> int \<Rightarrow> int \<Rightarrow> api_state \<Rightarrow> push_host_check list res \<times> api_state" where
  "handleListPushHostChecks env now r hostID limit =
     with_tenant env now r (\<lambda>tid st.
       (case ListPushHostChecks (ap_store st) tid hostID limit of Inl _ \<Rightarrow> Inl (ErrMsg ''host not found'') | Inr cs \<Rightarrow> Inr cs, st))"

section \<open>Deployments\<close>

text \<open>
  Creation with its audit entry.  The answer has the deployment and whether a run of it starts in the background.
\<close>

definition create_push ::
  "delivery_env \<Rightarrow> go_time \<Rightarrow> auth_request \<Rightarrow> project_ctx \<Rightarrow> create_request \<Rightarrow> int \<Rightarrow> string \<Rightarrow> api_state \<Rightarrow>
     (push_deployment \<times> bool) res \<times> api_state" where
  "create_push env now r pc req taskID taskName st =
     (let tid = pc_TenantID pc; pid = pc_ProjectID pc; pname = pc_ProjectName pc
      in case plan_targets (dl_push env) (ap_store st) tid pid pname req of
           Inl e \<Rightarrow> (Inl e, st)
         | Inr (planned, targets) \<Rightarrow>
             (case dl_session env now r st of
                (sess, st1) \<Rightarrow>
                  (case on_store_res (createPushDeployment (dl_push env) (dl_json env) now tid pid pname (session_name sess) req taskID taskName) st1 of
                     (Inl e, st2) \<Rightarrow> (Inl e, st2)
                   | (Inr (d, start), st2) \<Rightarrow>
                       (Inr (d, start),
                        dl_audit env now r ''push.deploy.create''
                          (''project_id='' @ show_int pid @ '' task_id='' @ show_int taskID @ '' task='' @ taskName
                           @ '' version='' @ rq_Version planned @ '' targets='' @ show_nat (length targets)
                           @ '' dry_run='' @ (if rq_DryRun req then ''true'' else ''false'')
                           @ '' replay='' @ (if pd_Replayed d then ''true'' else ''false'')) st2))))"

text \<open>\<open>header\<close> is the \<open>Idempotency-Key\<close> header.\<close>

definition handleCreatePushDeployment ::
  "delivery_env \<Rightarrow> go_time \<Rightarrow> string \<Rightarrow> auth_request \<Rightarrow> int \<Rightarrow> create_request option \<Rightarrow> api_state \<Rightarrow>
     (push_deployment \<times> bool) res \<times> api_state" where
  "handleCreatePushDeployment env now header r pid body =
     with_project (dl_web env) now r pid (\<lambda>pc st.
       case body of
         None \<Rightarrow> (Inl (ErrMsg ''invalid body''), st)
       | Some req \<Rightarrow>
           (case applyDeploymentIdempotencyKey header (rq_IdempotencyKey req) of
              Inl e \<Rightarrow> (Inl e, st)
            | Inr key \<Rightarrow> create_push env now r pc (req\<lparr>rq_IdempotencyKey := key\<rparr>) 0 [] st))"

definition handleListPushDeployments ::
  "delivery_env \<Rightarrow> go_time \<Rightarrow> auth_request \<Rightarrow> int \<Rightarrow> int \<Rightarrow> api_state \<Rightarrow> push_deployment list res \<times> api_state" where
  "handleListPushDeployments env now r pid limit =
     with_project (dl_web env) now r pid (\<lambda>pc st. (Inr (ListPushDeployments now (ap_store st) (pc_TenantID pc) pid limit), st))"

definition handleGetPushDeployment ::
  "delivery_env \<Rightarrow> go_time \<Rightarrow> auth_request \<Rightarrow> int \<Rightarrow> int \<Rightarrow> api_state \<Rightarrow> push_deployment res \<times> api_state" where
  "handleGetPushDeployment env now r pid i =
     with_project (dl_web env) now r pid (\<lambda>pc st.
       (case GetPushDeployment now (ap_store st) (pc_TenantID pc) pid i of
          Inl _ \<Rightarrow> Inl (ErrMsg ''deployment not found'') | Inr d \<Rightarrow> Inr d, st))"

definition handleDeletePushDeployment :: "unit res" where
  "handleDeletePushDeployment = Inl (ErrMsg ''release logs are immutable and retained for 30 days'')"

section \<open>Release tasks\<close>

record task_request =
  tr_Name :: string
  tr_Version :: string
  tr_ServerIDs :: "string list"
  tr_Tags :: "string list"
  tr_TagMatch :: string

definition validateTaskVersion :: "store \<Rightarrow> int \<Rightarrow> string \<Rightarrow> unit res" where
  "validateTaskVersion s projectID version0 =
     (let version = trim_space version0
      in if version = [] then Inr ()
         else case GetVersion s projectID version of
           Inl _ \<Rightarrow> Inl (ErrMsg ''task version must be published or empty for latest'')
         | Inr v \<Rightarrow> if v_Status v = ''published'' then Inr ()
                    else Inl (ErrMsg ''task version must be published or empty for latest''))"

definition request_task :: "int \<Rightarrow> int \<Rightarrow> int \<Rightarrow> string \<Rightarrow> task_request \<Rightarrow> push_task" where
  "request_task i tid pid user req =
     \<lparr>tk_ID = i, tk_TenantID = tid, tk_ProjectID = pid, tk_Name = tr_Name req, tk_Version = tr_Version req,
      tk_ServerIDs = tr_ServerIDs req, tk_Tags = tr_Tags req, tk_TagMatch = tr_TagMatch req, tk_CreatedBy = user, tk_RunCount = 0,
      tk_LastRunAt = None, tk_CreatedAt = None, tk_UpdatedAt = None\<rparr>"

definition handleCreatePushTask ::
  "delivery_env \<Rightarrow> go_time \<Rightarrow> auth_request \<Rightarrow> int \<Rightarrow> task_request option \<Rightarrow> api_state \<Rightarrow> push_task res \<times> api_state" where
  "handleCreatePushTask env now r pid body =
     with_project (dl_web env) now r pid (\<lambda>pc st.
       case body of
         None \<Rightarrow> (Inl (ErrMsg ''invalid body''), st)
       | Some req \<Rightarrow>
           (case validateTaskVersion (ap_store st) pid (tr_Version req) of
              Inl e \<Rightarrow> (Inl e, st)
            | Inr _ \<Rightarrow>
                (case dl_session env now r st of
                   (sess, st1) \<Rightarrow>
                     (case on_store_res (CreatePushDeploymentTask now (request_task 0 (pc_TenantID pc) pid (session_name sess) req)) st1 of
                        (Inl e, st2) \<Rightarrow> (Inl e, st2)
                      | (Inr task, st2) \<Rightarrow>
                          (Inr task, dl_audit env now r ''push.task.create''
                             (''project_id='' @ show_int pid @ '' task_id='' @ show_int (tk_ID task) @ '' name='' @ tk_Name task) st2)))))"

definition handleListPushTasks :: "delivery_env \<Rightarrow> go_time \<Rightarrow> auth_request \<Rightarrow> int \<Rightarrow> api_state \<Rightarrow> push_task list res \<times> api_state" where
  "handleListPushTasks env now r pid =
     with_project (dl_web env) now r pid (\<lambda>pc st. (Inr (ListPushDeploymentTasks (ap_store st) (pc_TenantID pc) pid), st))"

definition handleGetPushTask ::
  "delivery_env \<Rightarrow> go_time \<Rightarrow> auth_request \<Rightarrow> int \<Rightarrow> int \<Rightarrow> api_state \<Rightarrow> push_task res \<times> api_state" where
  "handleGetPushTask env now r pid i =
     with_project (dl_web env) now r pid (\<lambda>pc st.
       (case GetPushDeploymentTask (ap_store st) (pc_TenantID pc) pid i of
          Inl _ \<Rightarrow> Inl (ErrMsg ''release task not found'') | Inr t \<Rightarrow> Inr t, st))"

definition handleUpdatePushTask ::
  "delivery_env \<Rightarrow> go_time \<Rightarrow> auth_request \<Rightarrow> int \<Rightarrow> int \<Rightarrow> task_request option \<Rightarrow> api_state \<Rightarrow> unit res \<times> api_state" where
  "handleUpdatePushTask env now r pid i body =
     with_project (dl_web env) now r pid (\<lambda>pc st.
       case body of
         None \<Rightarrow> (Inl (ErrMsg ''invalid body''), st)
       | Some req \<Rightarrow>
           (case validateTaskVersion (ap_store st) pid (tr_Version req) of
              Inl e \<Rightarrow> (Inl e, st)
            | Inr _ \<Rightarrow>
                audited (dl_web env) now r ''push.task.update'' (''project_id='' @ show_int pid @ '' task_id='' @ show_int i)
                  (on_store_res (UpdatePushDeploymentTask now (request_task i (pc_TenantID pc) pid [] req)) st)))"

definition handleDeletePushTask ::
  "delivery_env \<Rightarrow> go_time \<Rightarrow> auth_request \<Rightarrow> int \<Rightarrow> int \<Rightarrow> api_state \<Rightarrow> unit res \<times> api_state" where
  "handleDeletePushTask env now r pid i =
     with_project (dl_web env) now r pid (\<lambda>pc st.
       case on_store_res (DeletePushDeploymentTask (pc_TenantID pc) pid i) st of
         (Inl _, st1) \<Rightarrow> (Inl (ErrMsg ''release task not found''), st1)
       | (Inr _, st1) \<Rightarrow>
           (Inr (), dl_audit env now r ''push.task.delete''
              (''project_id='' @ show_int pid @ '' task_id='' @ show_int i @ '' logs=retained'') st1))"

record run_task_request =
  rt_Version :: string
  rt_DryRun :: bool
  rt_IdempotencyKey :: string

text \<open>An empty body is the zero request.\<close>

definition handleRunPushTask ::
  "delivery_env \<Rightarrow> go_time \<Rightarrow> string \<Rightarrow> auth_request \<Rightarrow> int \<Rightarrow> int \<Rightarrow> run_task_request option \<Rightarrow> api_state \<Rightarrow>
     (push_deployment \<times> bool) res \<times> api_state" where
  "handleRunPushTask env now header r pid i body =
     with_project (dl_web env) now r pid (\<lambda>pc st.
       case GetPushDeploymentTask (ap_store st) (pc_TenantID pc) pid i of
         Inl _ \<Rightarrow> (Inl (ErrMsg ''release task not found''), st)
       | Inr task \<Rightarrow>
           (case body of
              None \<Rightarrow> (Inl (ErrMsg ''invalid body''), st)
            | Some req \<Rightarrow>
                (case applyDeploymentIdempotencyKey header (rt_IdempotencyKey req) of
                   Inl e \<Rightarrow> (Inl e, st)
                 | Inr key \<Rightarrow>
                     create_push env now r pc
                       \<lparr>rq_Version = (if trim_space (rt_Version req) \<noteq> [] then rt_Version req else tk_Version task),
                        rq_ServerIDs = tk_ServerIDs task, rq_Tags = tk_Tags task, rq_TagMatch = tk_TagMatch task,
                        rq_AllProjectTargets = False, rq_DryRun = rt_DryRun req, rq_IdempotencyKey = key\<rparr>
                       (tk_ID task) (tk_Name task) st)))"

section \<open>Release hooks\<close>

record hook_request =
  hq_Name :: string
  hq_TaskID :: int
  hq_Enabled :: "bool option"
  hq_DebounceSeconds :: int

definition request_hook :: "int \<Rightarrow> int \<Rightarrow> int \<Rightarrow> string \<Rightarrow> bool \<Rightarrow> hook_request \<Rightarrow> release_hook" where
  "request_hook i tid pid user enabled req =
     \<lparr>rh_ID = i, rh_TenantID = tid, rh_ProjectID = pid, rh_TaskID = hq_TaskID req, rh_TaskName = [],
        rh_Name = hq_Name req, rh_Enabled = enabled, rh_DebounceSeconds = hq_DebounceSeconds req, rh_PendingVersion = [],
        rh_PendingRequestedBy = [], rh_PendingSource = [], rh_PendingSince = None, rh_DueAt = None, rh_PendingEvents = 0,
        rh_TriggerCount = 0, rh_MergeCount = 0, rh_RunCount = 0, rh_LastTriggerAt = None, rh_LastRunAt = None,
        rh_LastDeploymentID = 0, rh_LastStatus = [], rh_LastError = [], rh_CreatedBy = user, rh_CreatedAt = None,
        rh_UpdatedAt = None\<rparr>"

definition hook_note :: "int \<Rightarrow> int \<Rightarrow> int \<Rightarrow> bool \<Rightarrow> int \<Rightarrow> string" where
  "hook_note pid i task enabled debounce =
     ''project_id='' @ show_int pid @ '' hook_id='' @ show_int i @ '' task_id='' @ show_int task
       @ '' enabled='' @ (if enabled then ''true'' else ''false'') @ '' debounce='' @ show_int debounce @ ''s''"

definition handleCreateReleaseHook ::
  "delivery_env \<Rightarrow> go_time \<Rightarrow> auth_request \<Rightarrow> int \<Rightarrow> hook_request option \<Rightarrow> api_state \<Rightarrow> release_hook res \<times> api_state" where
  "handleCreateReleaseHook env now r pid body =
     with_project (dl_web env) now r pid (\<lambda>pc st.
       case body of
         None \<Rightarrow> (Inl (ErrMsg ''invalid body''), st)
       | Some req \<Rightarrow>
           (case dl_session env now r st of
              (sess, st1) \<Rightarrow>
                (case on_store_res (CreateReleaseHook now (request_hook 0 (pc_TenantID pc) pid (session_name sess)
                        (case hq_Enabled req of None \<Rightarrow> True | Some b \<Rightarrow> b) req)) st1 of
                   (Inl e, st2) \<Rightarrow> (Inl e, st2)
                 | (Inr hook, st2) \<Rightarrow>
                     (Inr hook, dl_audit env now r ''release.hook.create''
                        (hook_note pid (rh_ID hook) (rh_TaskID hook) (rh_Enabled hook) (rh_DebounceSeconds hook)) st2))))"

definition handleListReleaseHooks ::
  "delivery_env \<Rightarrow> go_time \<Rightarrow> auth_request \<Rightarrow> int \<Rightarrow> api_state \<Rightarrow> release_hook list res \<times> api_state" where
  "handleListReleaseHooks env now r pid =
     with_project (dl_web env) now r pid (\<lambda>pc st. (Inr (ListReleaseHooks (ap_store st) (pc_TenantID pc) pid), st))"

text \<open>Disabling a hook with triggers pending records that they were cancelled.\<close>

definition handleUpdateReleaseHook ::
  "delivery_env \<Rightarrow> go_time \<Rightarrow> auth_request \<Rightarrow> int \<Rightarrow> int \<Rightarrow> hook_request option \<Rightarrow> api_state \<Rightarrow> unit res \<times> api_state" where
  "handleUpdateReleaseHook env now r pid hookID body =
     with_project (dl_web env) now r pid (\<lambda>pc st.
       case GetReleaseHook (ap_store st) (pc_TenantID pc) pid hookID of
         Inl _ \<Rightarrow> (Inl (ErrMsg ''release hook not found''), st)
       | Inr current \<Rightarrow>
           (case body of
              None \<Rightarrow> (Inl (ErrMsg ''invalid body''), st)
            | Some req0 \<Rightarrow>
                (let req = req0\<lparr>hq_Name := (if trim_space (hq_Name req0) = [] then rh_Name current else hq_Name req0),
                                hq_TaskID := (if hq_TaskID req0 = 0 then rh_TaskID current else hq_TaskID req0),
                                hq_DebounceSeconds := (if hq_DebounceSeconds req0 = 0 then rh_DebounceSeconds current
                                                       else hq_DebounceSeconds req0)\<rparr>;
                     enabled = (case hq_Enabled req of None \<Rightarrow> rh_Enabled current | Some b \<Rightarrow> b);
                     note = hook_note pid (rh_ID current) (hq_TaskID req) enabled (hq_DebounceSeconds req)
                 in case on_store_res (UpdateReleaseHook now (request_hook (rh_ID current) (pc_TenantID pc) pid [] enabled req)) st of
                      (Inl e, st1) \<Rightarrow> (Inl e, st1)
                    | (Inr _, st1) \<Rightarrow>
                        audited (dl_web env) now r ''release.hook.update'' note
                          (if \<not> enabled \<and> rh_Enabled current \<and> rh_PendingEvents current > 0
                           then on_store_res (RecordReleaseHookCancellation now current) st1 else (Inr (), st1)))))"

definition handleDeleteReleaseHook ::
  "delivery_env \<Rightarrow> go_time \<Rightarrow> auth_request \<Rightarrow> int \<Rightarrow> int \<Rightarrow> api_state \<Rightarrow> unit res \<times> api_state" where
  "handleDeleteReleaseHook env now r pid hookID =
     with_project (dl_web env) now r pid (\<lambda>pc st.
       case on_store_res (DeleteReleaseHook (pc_TenantID pc) pid hookID) st of
         (Inl _, st1) \<Rightarrow> (Inl (ErrMsg ''release hook not found''), st1)
       | (Inr _, st1) \<Rightarrow>
           (Inr (), dl_audit env now r ''release.hook.delete'' (''project_id='' @ show_int pid @ '' hook_id='' @ show_int hookID) st1))"

text \<open>The body is the version and the source; an empty one is the zero request.\<close>

definition handleTriggerReleaseHook ::
  "delivery_env \<Rightarrow> go_time \<Rightarrow> auth_request \<Rightarrow> int \<Rightarrow> int \<Rightarrow> (string \<times> string) option \<Rightarrow> api_state \<Rightarrow> release_hook res \<times> api_state" where
  "handleTriggerReleaseHook env now r pid hookID body =
     with_project (dl_web env) now r pid (\<lambda>pc st.
       case body of
         None \<Rightarrow> (Inl (ErrMsg ''invalid body''), st)
       | Some (version0, source0) \<Rightarrow>
           (case (if trim_space version0 = [] then LatestPublishedVersion (ap_store st) pid else Inr version0) of
              Inl _ \<Rightarrow> (Inl (ErrMsg ''no published version exists''), st)
            | Inr version \<Rightarrow>
                (case GetVersion (ap_store st) pid version of
                   Inl _ \<Rightarrow> (Inl (ErrMsg ''version must be published''), st)
                 | Inr v \<Rightarrow>
                     if v_Status v \<noteq> ''published'' then (Inl (ErrMsg ''version must be published''), st)
                     else (case dl_session env now r st of
                       (sess, st1) \<Rightarrow>
                         (let source = (if trim_space source0 = [] then ''manual'' else trim_space source0)
                          in case on_store_res (QueueReleaseHook (we_stamp (dl_web env)) (pc_TenantID pc) pid hookID version (session_name sess) source now) st1 of
                               (Inl e, st2) \<Rightarrow> (Inl e, st2)
                             | (Inr hook, st2) \<Rightarrow>
                                 (Inr hook, dl_audit env now r ''release.hook.trigger''
                                    (''project_id='' @ show_int pid @ '' hook_id='' @ show_int (rh_ID hook) @ '' version='' @ version
                                     @ '' source='' @ source @ '' due_at='' @ we_stamp (dl_web env) (rh_DueAt hook)
                                     @ '' pending='' @ show_int (rh_PendingEvents hook)) st2))))))"

definition handleListReleaseHookEvents ::
  "delivery_env \<Rightarrow> go_time \<Rightarrow> auth_request \<Rightarrow> int \<Rightarrow> int \<Rightarrow> api_state \<Rightarrow> (hook_event \<times> string) list res \<times> api_state" where
  "handleListReleaseHookEvents env now r pid limit =
     with_project (dl_web env) now r pid (\<lambda>pc st. (Inr (ListReleaseHookEvents now (ap_store st) (pc_TenantID pc) pid limit), st))"

section \<open>Nodes\<close>

definition splitAPILabels :: "string \<Rightarrow> string list" where
  "splitAPILabels value =
     filter (\<lambda>v. v \<noteq> []) (map trim_space (concat (map (split_on (CHR '' '')) (split_on (CHR '','') value))))"

definition deliveryDimensions :: "string list \<Rightarrow> string \<times> string" where
  "deliveryDimensions labels =
     fold (\<lambda>label (role, environment).
       (if has_prefix label ''role:'' then drop 5 label else role,
        if has_prefix label ''env:'' then drop 4 label else environment)) labels ([], [])"

record node_view =
  nv_ID :: string
  nv_DeliveryMode :: string
  nv_ServerID :: string
  nv_Role :: string
  nv_Environment :: string
  nv_Labels :: "string list"
  nv_OS :: string
  nv_Arch :: string
  nv_CurrentVersion :: string
  nv_DesiredVersion :: string
  nv_DesiredGeneration :: int
  nv_AppliedGeneration :: int
  nv_AutoFollow :: bool
  nv_Status :: string
  nv_LastError :: string
  nv_LastSeenAt :: stamp
  nv_Online :: bool
  nv_Drift :: bool
  nv_HostID :: int
  nv_HostName :: string
  nv_SkipBackup :: bool

text \<open>A node is online for twice its heartbeat interval, at least thirty seconds.\<close>

definition node_online :: "go_time \<Rightarrow> delivery_node \<Rightarrow> bool" where
  "node_online now n =
     (case dn_LastSeenAt n of
        None \<Rightarrow> False
      | Some sec \<Rightarrow> now - sec * Second \<le> max 30 (dn_HeartbeatIntervalSeconds n * 2) * Second)"

definition pull_view :: "go_time \<Rightarrow> delivery_node \<Rightarrow> node_view" where
  "pull_view now n =
     \<lparr>nv_ID = ''pull:'' @ show_int (dn_ID n), nv_DeliveryMode = ''pull'', nv_ServerID = dn_ServerID n, nv_Role = dn_Role n,
      nv_Environment = dn_Environment n, nv_Labels = node_labels n, nv_OS = dn_OS n, nv_Arch = dn_Arch n,
      nv_CurrentVersion = dn_CurrentVersion n, nv_DesiredVersion = dn_DesiredVersion n,
      nv_DesiredGeneration = dn_DesiredGeneration n, nv_AppliedGeneration = dn_AppliedGeneration n,
      nv_AutoFollow = dn_AutoFollow n, nv_Status = dn_Status n, nv_LastError = dn_LastError n, nv_LastSeenAt = dn_LastSeenAt n,
      nv_Online = node_online now n, nv_Drift = needs_deploy n, nv_HostID = 0, nv_HostName = [], nv_SkipBackup = False\<rparr>"

definition push_view :: "(string \<Rightarrow> bool) \<Rightarrow> store \<Rightarrow> int \<Rightarrow> push_host option \<Rightarrow> push_binding \<Rightarrow> node_view" where
  "push_view dry_run s projectID host b =
     (let labels = splitAPILabels (pb_Labels b); (role, environment) = deliveryDimensions labels;
          field = (\<lambda>f d. case host of None \<Rightarrow> d | Some h \<Rightarrow> f h);
          checked = (case host of None \<Rightarrow> [] | Some h \<Rightarrow> ph_LastCheckStatus h);
          status = (if checked = [] then ''unknown'' else checked)
      in \<lparr>nv_ID = ''push:'' @ show_int (pb_ID b), nv_DeliveryMode = ''push'', nv_ServerID = pb_ServerID b, nv_Role = role,
          nv_Environment = environment, nv_Labels = labels, nv_OS = pb_OS b, nv_Arch = pb_Arch b,
          nv_CurrentVersion = LatestSuccessfulPushVersion dry_run s projectID (pb_ID b), nv_DesiredVersion = [],
          nv_DesiredGeneration = 0, nv_AppliedGeneration = 0, nv_AutoFollow = False, nv_Status = status,
          nv_LastError = field ph_LastCheckError [], nv_LastSeenAt = (case host of None \<Rightarrow> None | Some h \<Rightarrow> ph_LastCheckAt h),
          nv_Online = (status = ''ok''), nv_Drift = False, nv_HostID = (case host of None \<Rightarrow> 0 | Some h \<Rightarrow> ph_ID h),
          nv_HostName = field ph_Name [], nv_SkipBackup = pb_SkipBackup b\<rparr>)"

definition handleListDeliveryNodes ::
  "delivery_env \<Rightarrow> go_time \<Rightarrow> auth_request \<Rightarrow> int \<Rightarrow> api_state \<Rightarrow> node_view list res \<times> api_state" where
  "handleListDeliveryNodes env now r pid =
     with_project (dl_web env) now r pid (\<lambda>pc st.
       let s = ap_store st; hosts = ListPushHosts s (pc_TenantID pc)
       in (Inr (map (pull_view now) (ListDeliveryNodes s (pc_TenantID pc) pid)
            @ map (\<lambda>b. push_view (dl_dry_run env) s pid (find (\<lambda>h. ph_ID h = pb_HostID b) hosts) b)
                (ListPushBindingsForSelector s (pc_TenantID pc) (pc_ProjectName pc) [] [] True)), st))"

text \<open>The body is the version and whether the node follows the project.\<close>

definition handleSetDeliveryNodeDesired ::
  "delivery_env \<Rightarrow> go_time \<Rightarrow> auth_request \<Rightarrow> int \<Rightarrow> string \<Rightarrow> (string \<times> bool option) option \<Rightarrow> api_state \<Rightarrow>
     delivery_node res \<times> api_state" where
  "handleSetDeliveryNodeDesired env now r pid serverID body =
     with_project (dl_web env) now r pid (\<lambda>pc st.
       case getServerFile (we_yaml (dl_web env)) (pc_TenantID pc) st of
         (sf, st1) \<Rightarrow>
           if Entry sf serverID = None then (Inl (ErrMsg ''server_id not configured in server.yaml''), st1)
           else (case body of
             None \<Rightarrow> (Inl (ErrMsg ''invalid body''), st1)
           | Some (version0, autoFollow) \<Rightarrow>
               (let given = trim_space version0;
                    version = (if given = [] \<and> autoFollow = Some True
                               then (case LatestPublishedVersion (ap_store st1) pid of Inl _ \<Rightarrow> [] | Inr v \<Rightarrow> v) else given)
                in if version \<noteq> [] \<and> \<not> (case GetVersion (ap_store st1) pid version of
                        Inl _ \<Rightarrow> False | Inr v \<Rightarrow> v_Status v = ''published'')
                   then (Inl (ErrMsg ''desired version must be published''), st1)
                   else audited (dl_web env) now r ''delivery.desired.update''
                          (''project_id='' @ show_int pid @ '' server_id='' @ serverID @ '' version='' @ version)
                          (on_store_res (SetDeliveryNodeDesired (pc_TenantID pc) pid serverID version autoFollow now) st1))))"

definition handleDeleteDeliveryNode ::
  "delivery_env \<Rightarrow> go_time \<Rightarrow> auth_request \<Rightarrow> int \<Rightarrow> string \<Rightarrow> api_state \<Rightarrow> unit res \<times> api_state" where
  "handleDeleteDeliveryNode env now r pid serverID =
     with_project (dl_web env) now r pid (\<lambda>pc st.
       case on_store_res (DeleteDeliveryNode (pc_TenantID pc) pid serverID) st of
         (Inl _, st1) \<Rightarrow> (Inl (ErrMsg ''pull node not found''), st1)
       | (Inr _, st1) \<Rightarrow>
           (Inr (), dl_audit env now r ''delivery.node.delete''
              (''project_id='' @ show_int pid @ '' server_id='' @ serverID) st1))"

section \<open>Credentials can be read back\<close>

text \<open>What the code relies on of \<open>crypto/cipher\<close> and \<open>encoding/base64\<close>: what was sealed opens again under the same key and nonce, and what was encoded decodes.\<close>

definition codec_laws :: "delivery_env \<Rightarrow> bool" where
  "codec_laws env \<longleftrightarrow>
     (\<forall>x. bc_dec (dl_b64 env) (bc_enc (dl_b64 env) x) = Some x) \<and> bc_enc (dl_b64 env) [] = []
     \<and> (\<forall>k n p. ad_unseal (dl_aead env) k n (ad_seal (dl_aead env) k n p) = Some p)
     \<and> (\<forall>n. dl_nonce env = Some n \<longrightarrow> length n = nonce_size)"

lemma decrypt_encrypt:
  assumes "codec_laws env" "dl_encrypt env plain = Inr ct"
  shows "ct \<noteq> [] \<and> (\<exists>key. newPushCredentialCipher (dl_b64 env) (dl_key env) = Inr key
    \<and> decrypt_credential (dl_aead env) (dl_b64 env) key ct = Inr plain)"
proof -
  obtain key where key: "newPushCredentialCipher (dl_b64 env) (dl_key env) = Inr key"
    and enc: "encrypt_credential (dl_aead env) (dl_b64 env) key (dl_nonce env) plain = Inr ct"
    using assms(2) by (auto simp: dl_encrypt_def split: sum.splits)
  obtain nonce where nonce: "dl_nonce env = Some nonce" and ct: "ct = bc_enc (dl_b64 env) (nonce @ ad_seal (dl_aead env) key nonce plain)"
    using enc by (auto simp: encrypt_credential_def split: option.splits)
  have len: "length nonce = nonce_size" using assms(1) nonce by (simp add: codec_laws_def)
  have dec: "bc_dec (dl_b64 env) ct = Some (nonce @ ad_seal (dl_aead env) key nonce plain)"
    and open_law: "ad_unseal (dl_aead env) key nonce (ad_seal (dl_aead env) key nonce plain) = Some plain"
    using assms(1) by (simp_all add: codec_laws_def ct)
  have "ct \<noteq> []"
  proof
    assume "ct = []"
    then have "bc_dec (dl_b64 env) ct = Some []" using assms(1) unfolding codec_laws_def by metis
    with dec len show False by (simp add: nonce_size_def)
  qed
  moreover have "decrypt_credential (dl_aead env) (dl_b64 env) key ct = Inr plain"
    using len by (simp add: decrypt_credential_def dec open_law)
  ultimately show ?thesis using key by blast
qed

lemma create_host_row:
  assumes "CreatePushHost now h key s = (Inr host, s')"
  shows "(\<exists>row\<in>set (trows (st_hosts s')). ph_ID row = ph_ID host \<and> ph_EncryptedPrivateKey row = key)
    \<and> ph_EncryptedPrivateKey host = ph_EncryptedPrivateKey h"
proof -
  have keep: "ph_EncryptedPrivateKey (host_defaults h) = ph_EncryptedPrivateKey h" by (simp add: host_defaults_def Let_def)
  show ?thesis using assms keep
    by (auto simp: CreatePushHost_def Let_def split: if_split_asm sum.split_asm prod.split_asm elim!: tbl_insert_cases)
qed

lemma core_hosts: "core s' = core s \<Longrightarrow> st_hosts s' = st_hosts s"
proof -
  have "st_hosts (core x) = st_hosts x" for x by (simp add: core_def)
  then show "core s' = core s \<Longrightarrow> ?thesis" by metis
qed

text \<open>
  C27: when a host with a password or a private key is created through the API, the row of the host holds a cipher ct
  that the configured key decrypts to exactly the credential of the request, and the answer holds none; given that AES-GCM
  opens what it sealed and base64 decodes what it encoded.
\<close>

theorem credential_round_trip:
  assumes "codec_laws env" and "ho_AuthMode req \<noteq> ''agent''"
    and "handleCreatePushHost env now r (Some req) st = (Inr host, st')"
  shows "ph_EncryptedPrivateKey host = [] \<and>
    (\<exists>key. \<exists>row\<in>set (trows (st_hosts (ap_store st'))). newPushCredentialCipher (dl_b64 env) (dl_key env) = Inr key
       \<and> ph_ID row = ph_ID host \<and> ph_EncryptedPrivateKey row \<noteq> []
       \<and> decrypt_credential (dl_aead env) (dl_b64 env) key (ph_EncryptedPrivateKey row) = Inr (host_secret req))"
proof -
  obtain ct where ct: "dl_encrypt env (host_secret req) = Inr ct"
    using assms(2,3) by (auto simp: handleCreatePushHost_def split: sum.splits)
  obtain t st1 where t: "tenantFromSession (we_auth (dl_web env)) now r st = (t, st1)" by fastforce
  define h where "h = request_host 0 (case t of None \<Rightarrow> 0 | Some x \<Rightarrow> x) req (case ho_HealthCheckEnabled req of None \<Rightarrow> True | Some b \<Rightarrow> b)"
  obtain res s2 where create: "CreatePushHost now h ct (ap_store st1) = (res, s2)" by fastforce
  have res: "res = Inr host" and st': "st' = dl_audit env now r ''push.host.create'' (''name='' @ ph_Name host) (st1\<lparr>ap_store := s2\<rparr>)"
    using assms(2,3) ct t create
    by (auto simp: handleCreatePushHost_def with_tenant_def on_store_res_def h_def[symmetric] split: sum.splits)
  have hosts: "st_hosts (ap_store st') = st_hosts s2" unfolding st' by (rule core_hosts) simp
  from decrypt_encrypt [OF assms(1) ct] create_host_row [OF create [unfolded res]] hosts
  show ?thesis by (auto simp: h_def request_host_def)
qed

section \<open>Nodes are steered to published versions\<close>

lemma tbl_insert_set: "n \<in> set (trows (snd (tbl_insert c setid nm r t))) \<Longrightarrow> n \<in> set (trows t) \<or> n = setid (tnext t) r"
  by (cases "tbl_insert c setid nm r t") (auto elim!: tbl_insert_cases)

lemma set_desired_outcome:
  assumes "SetDeliveryNodeDesired t p sid version auto now s = (Inr n, s')"
  shows "n \<in> set (trows (st_nodes s')) \<and> dn_ProjectID n = p
    \<and> (if trim_space version \<noteq> [] then dn_DesiredVersion n = trim_space version
       else dn_DesiredVersion n = [] \<or> (\<exists>m\<in>set (trows (st_nodes s)). node_key m = node_key n \<and> dn_DesiredVersion m = dn_DesiredVersion n))"
proof -
  let ?P = "is_node t p (trim_space sid)" and ?stamp = "format_time now"
  let ?t0 = "snd (tbl_insert node_conflict (\<lambda>i r. set_dn_ID i r) ''delivery_nodes'' (default_node t p (trim_space sid) ?stamp) (st_nodes s))"
  let ?t1 = "if trim_space version \<noteq> [] then snd (tbl_update ?P (set_desired (trim_space version) ?stamp) ?t0) else ?t0"
  let ?t2 = "case auto of None \<Rightarrow> ?t1 | Some b \<Rightarrow> snd (tbl_update ?P (\<lambda>n. n\<lparr>dn_AutoFollow := b, dn_UpdatedAt := ?stamp\<rparr>) ?t1)"
  have get: "tbl_row ?P ?t2 = Inr n" and s': "s' = s\<lparr>st_nodes := ?t2\<rparr>"
    using assms by (simp_all add: SetDeliveryNodeDesired_def GetDeliveryNode_def Let_def split: if_splits)
  from tbl_row_Inr [OF get] have n: "?P n" "n \<in> set (trows ?t2)" by blast+
  then obtain m where m: "m \<in> set (trows ?t1)" "node_key m = node_key n" "dn_DesiredVersion m = dn_DesiredVersion n"
  proof (cases auto)
    case None
    with n(2) that show ?thesis by (metis (no_types, lifting) option.case(1))
  next
    case (Some b)
    with n(2) obtain k where "k \<in> set (trows ?t1)" "n = (if ?P k then k\<lparr>dn_AutoFollow := b, dn_UpdatedAt := ?stamp\<rparr> else k)"
      by (simp only: option.case trows_tbl_update set_map) blast
    with that [of k] show ?thesis by (simp add: node_key_def split: if_split_asm)
  qed
  then have Pm: "?P m" using n(1) by (simp add: is_node_def)
  have "if trim_space version \<noteq> [] then dn_DesiredVersion m = trim_space version
    else dn_DesiredVersion m = [] \<or> (\<exists>o'\<in>set (trows (st_nodes s)). node_key o' = node_key m \<and> dn_DesiredVersion o' = dn_DesiredVersion m)"
  proof (cases "trim_space version = []")
    case True
    with m(1) have "m \<in> set (trows ?t0)" by simp
    from tbl_insert_set [OF this] True show ?thesis by (auto simp: default_node_def)
  next
    case False
    from m(1) obtain k where "m = (if ?P k then set_desired (trim_space version) ?stamp k else k)"
      unfolding if_P [OF False] trows_tbl_update set_map by (elim imageE)
    with Pm False show ?thesis by (auto simp: set_desired_def is_node_def node_key_def split: if_split_asm)
  qed
  moreover have "n \<in> set (trows (st_nodes s'))" using n(2) by (simp add: s')
  moreover have "dn_ProjectID n = p" using n(1) by (simp add: is_node_def node_key_def)
  ultimately show ?thesis using m(2,3) by (simp split: if_splits)
qed

lemma getServerFile_tables: "st_nodes (ap_store (snd (getServerFile yaml t st))) = st_nodes (ap_store st)"
proof -
  have "st_nodes (snd (ServerYAMLPath t s)) = st_nodes s" for s
    by (auto simp: ServerYAMLPath_def mkdir_all_def Let_def split: sum.split)
  with loadServerFile_pair(2) [of yaml t "ap_store st"] show ?thesis
    by (cases "loadServerFile yaml t (ap_store st)") (auto simp: getServerFile_def split: option.split)
qed

text \<open>
  C26: after a request that sets the desired version of a pull node succeeds, the node desires nothing, or what it desired
  before, or a version of the project that is published: an agent is never steered to a draft or a rejected version.
\<close>

theorem desired_is_published:
  assumes "handleSetDeliveryNodeDesired env now r pid sid body st = (Inr n, st')"
  shows "n \<in> set (trows (st_nodes (ap_store st'))) \<and> dn_ProjectID n = pid \<and>
    (dn_DesiredVersion n = []
     \<or> (\<exists>m\<in>set (trows (st_nodes (ap_store st))). node_key m = node_key n \<and> dn_DesiredVersion m = dn_DesiredVersion n)
     \<or> (\<exists>v\<in>set (trows (st_versions (ap_store st'))). v_ProjectID v = pid \<and> v_Status v = ''published''
          \<and> trim_space (v_Version v) = dn_DesiredVersion n))"
proof -
  obtain c st1 where c: "projectByID (dl_web env) now r pid st = (Some c, st1)"
    using assms by (auto simp: handleSetDeliveryNodeDesired_def with_project_def split: prod.splits option.splits)
  obtain sf st2 where sf: "getServerFile (we_yaml (dl_web env)) (pc_TenantID c) st1 = (sf, st2)" by fastforce
  have "Entry sf sid \<noteq> None" "body \<noteq> None"
    using assms c sf by (auto simp: handleSetDeliveryNodeDesired_def with_project_def split: option.splits if_splits)
  then obtain version0 auto where body: "body = Some (version0, auto)" by (cases body) auto
  let ?given = "trim_space version0"
  define version where "version = (if ?given = [] \<and> auto = Some True
    then (case LatestPublishedVersion (ap_store st2) pid of Inl _ \<Rightarrow> [] | Inr v \<Rightarrow> v) else ?given)"
  let ?pub = "case GetVersion (ap_store st2) pid version of Inl _ \<Rightarrow> False | Inr v \<Rightarrow> v_Status v = ''published''"
  obtain x s3 where x: "SetDeliveryNodeDesired (pc_TenantID c) pid sid version auto now (ap_store st2) = (x, s3)" by fastforce
  have pub: "version = [] \<or> ?pub" and st': "x = Inr n" "\<exists>a d. st' = dl_audit env now r a d (st2\<lparr>ap_store := s3\<rparr>)"
    using assms c sf body x \<open>Entry sf sid \<noteq> None\<close> unfolding version_def
    by (auto simp: handleSetDeliveryNodeDesired_def with_project_def Let_def on_store_res_def audited_def
        split: if_split_asm sum.split_asm cong: if_cong)
  have s3: "st_versions s3 = st_versions (ap_store st2)"
    using x by (auto simp: SetDeliveryNodeDesired_def Let_def split: if_split_asm)
  have "core (ap_store st') = core s3" using st'(2) by auto
  note after = core_tables(4,7) [OF this]
  have "core (ap_store st1) = core (ap_store st)" using core_project [of "dl_web env" now r pid st] c by simp
  note before = core_tables(7) [OF this]
  have same: "st_nodes (ap_store st2) = st_nodes (ap_store st1)"
    using getServerFile_tables [of "we_yaml (dl_web env)" "pc_TenantID c" st1] sf by simp
  note row = set_desired_outcome [OF x [unfolded st'(1)]]
  show ?thesis
  proof (cases "trim_space version = []")
    case True
    with row show ?thesis using after same before by auto
  next
    case False
    then have ?pub using pub by auto
    then obtain v where v: "GetVersion (ap_store st2) pid version = Inr v" "v_Status v = ''published''" by (auto split: sum.splits)
    from tbl_row_Inr [OF v(1) [unfolded GetVersion_def]] have "v \<in> set (trows (st_versions (ap_store st2)))"
      "v_ProjectID v = pid" "v_Version v = version" by (simp_all add: is_version_def)
    with row False v(2) show ?thesis using after s3 by auto
  qed
qed

section \<open>Witnesses\<close>

definition sample_key :: string where
  "sample_key = replicate 32 (CHR ''k'')"

text \<open>A codec that leaves texts as they are and a cipher that only prepends the nonce obey the laws.\<close>

definition sample_delivery_env :: delivery_env where
  "sample_delivery_env = \<lparr>dl_web = sample_web_env,
     dl_push = \<lparr>pe_digest = (\<lambda>_. Inr []), pe_server_file = (\<lambda>_. None), pe_public_url = Inr [], pe_draining = False\<rparr>,
     dl_json = (\<lambda>_. []), dl_dry_run = (\<lambda>_. False), dl_aead = \<lparr>ad_seal = (\<lambda>k n p. p), ad_unseal = (\<lambda>k n p. Some p)\<rparr>,
     dl_b64 = \<lparr>bc_enc = (\<lambda>x. x), bc_dec = Some\<rparr>, dl_key = sample_key, dl_nonce = Some ''0123456789ab'', dl_tofu = False,
     dl_host_key = (\<lambda>_. True), dl_private_key = (\<lambda>_. True), dl_parse_ip = (\<lambda>_. True)\<rparr>"

definition sample_host_request :: host_request where
  "sample_host_request = \<lparr>ho_Name = ''h1'', ho_Address = ''10.0.0.9'', ho_Username = ''deploy'', ho_HostKey = ''ssh-ed25519 AAAA'',
     ho_PrivateKey = [], ho_Credential = ''secret-key'', ho_AuthMode = ''password'', ho_Port = 22, ho_HealthCheckEnabled = None,
     ho_HealthCheckIntervalSeconds = 0\<rparr>"

definition sample_fleet :: api_state where
  "sample_fleet = sample_release\<lparr>
     ap_store := sample_release_store\<lparr>st_versions := \<lparr>trows = [sample_version\<lparr>v_Status := ''published''\<rparr>], tnext = 2\<rparr>\<rparr>,
     ap_servers := [(7, [(''s1'', plain_entry)])]\<rparr>"

lemma sample_codec_laws: "codec_laws sample_delivery_env"
  by (simp add: codec_laws_def sample_delivery_env_def nonce_size_def)

lemma credential_round_trip_witness:
  "\<exists>host st'. handleCreatePushHost sample_delivery_env 0 sample_request (Some sample_host_request) sample_fleet = (Inr host, st')
     \<and> (\<exists>key. \<exists>row\<in>set (trows (st_hosts (ap_store st'))).
          decrypt_credential (dl_aead sample_delivery_env) (dl_b64 sample_delivery_env) key (ph_EncryptedPrivateKey row) = Inr ''secret-key'')"
proof -
  let ?p = "handleCreatePushHost sample_delivery_env 0 sample_request (Some sample_host_request) sample_fleet"
  have "is_ok (fst ?p)" by code_simp
  then obtain host st' where p: "?p = (Inr host, st')" using ok_pair by blast
  have "ho_AuthMode sample_host_request \<noteq> ''agent''" "host_secret sample_host_request = ''secret-key''"
    by (simp_all add: sample_host_request_def host_secret_def)
  with credential_round_trip [OF sample_codec_laws _ p] p show ?thesis by fastforce
qed

lemma desired_is_published_witness:
  "\<exists>n st'. handleSetDeliveryNodeDesired sample_delivery_env 0 sample_request 1 ''s1'' (Some ('' 1.0.0'', None)) sample_fleet = (Inr n, st')
     \<and> dn_DesiredVersion n = ''1.0.0'' \<and> dn_ProjectID n = 1"
proof -
  let ?p = "handleSetDeliveryNodeDesired sample_delivery_env 0 sample_request 1 ''s1'' (Some ('' 1.0.0'', None)) sample_fleet"
  have "case fst ?p of Inr n \<Rightarrow> dn_DesiredVersion n = ''1.0.0'' | Inl _ \<Rightarrow> False" by code_simp
  then obtain n where n: "fst ?p = Inr n" "dn_DesiredVersion n = ''1.0.0''" by (auto split: sum.splits)
  then obtain st' where p: "?p = (Inr n, st')" by (metis prod.collapse)
  from desired_is_published [OF p] n(2) p show ?thesis by blast
qed

end
