(* ===== verification/Router.thy ===== *)
theory Router
  imports DeliveryApi
begin

text \<open>
  The routes of a project (\<open>Router\<close> of \<open>internal/api/server.go\<close>): the middleware in front of the handlers that change a
  project, and which handler a request reaches.  A request comes with what its path, query and body decode to; the
  answer is reduced to the error, if any, the payload being that of the handler.
\<close>

section \<open>Middleware\<close>

definition mutator_gate :: "web_env \<Rightarrow> go_time \<Rightarrow> auth_request \<Rightarrow> string \<Rightarrow> api_state \<Rightarrow> access \<times> api_state" where
  "mutator_gate env now r method st =
     (if method = ''GET'' \<or> method = ''HEAD'' then (Allowed, st)
      else case web_session env now r st of
        (sess, st1) \<Rightarrow> (requireMutator (ap_store st1) method (map_option ss_UserID sess), st1))"

definition writer_gate :: "web_env \<Rightarrow> go_time \<Rightarrow> auth_request \<Rightarrow> int \<Rightarrow> api_state \<Rightarrow> access \<times> api_state" where
  "writer_gate env now r pid st =
     (case projectByID env now r pid st of
        (None, st1) \<Rightarrow> (NotFound, st1)
      | (Some pc, st1) \<Rightarrow> (if \<not> CanWriteProject (pc_ProjectRole pc) then Forbidden else Allowed, st1))"

section \<open>Routes\<close>

datatype project_route =
  CreateInviteRoute "(string \<times> int) option"
| ListInvitesRoute
| RemoveMemberRoute int
| PutRetentionRoute "int option"
| CreateVersionRoute "(string \<times> vcs_provenance) option"
| SubmitReviewRoute string
| PublishRoute string
| PutVCSRoute string "vcs_provenance option"
| RejectRoute string
| DeleteVersionRoute string string
| UploadRoute string "upload_form option"
| DeleteFileRoute string string
| PutTagsRoute string "(string \<times> string list) option"
| DeleteTagsRoute string string
| BatchTagsRoute string "tags_batch option"
| CreateDeploymentRoute "create_request option"
| DeleteDeploymentRoute
| CreateTaskRoute "task_request option"
| UpdateTaskRoute int "task_request option"
| DeleteTaskRoute int
| RunTaskRoute int "run_task_request option"
| CreateHookRoute "hook_request option"
| UpdateHookRoute int "hook_request option"
| DeleteHookRoute int
| TriggerHookRoute int "(string \<times> string) option"
| SetDesiredRoute string "(string \<times> bool option) option"
| DeleteNodeRoute string

definition route_method :: "project_route \<Rightarrow> string" where
  "route_method route =
     (case route of
        ListInvitesRoute \<Rightarrow> ''GET''
      | PutRetentionRoute _ \<Rightarrow> ''PUT'' | PutVCSRoute _ _ \<Rightarrow> ''PUT'' | PutTagsRoute _ _ \<Rightarrow> ''PUT'' | UpdateTaskRoute _ _ \<Rightarrow> ''PUT''
      | UpdateHookRoute _ _ \<Rightarrow> ''PUT'' | SetDesiredRoute _ _ \<Rightarrow> ''PUT''
      | RemoveMemberRoute _ \<Rightarrow> ''DELETE'' | DeleteVersionRoute _ _ \<Rightarrow> ''DELETE'' | DeleteFileRoute _ _ \<Rightarrow> ''DELETE''
      | DeleteTagsRoute _ _ \<Rightarrow> ''DELETE'' | DeleteDeploymentRoute \<Rightarrow> ''DELETE'' | DeleteTaskRoute _ \<Rightarrow> ''DELETE''
      | DeleteHookRoute _ \<Rightarrow> ''DELETE'' | DeleteNodeRoute _ \<Rightarrow> ''DELETE''
      | _ \<Rightarrow> ''POST'')"

definition answer :: "'a res \<times> api_state \<Rightarrow> pull_state \<Rightarrow> go_error option \<times> pull_state" where
  "answer x w = (case x of (Inl e, st) \<Rightarrow> (Some e, w\<lparr>ps_api := st\<rparr>) | (Inr _, st) \<Rightarrow> (None, w\<lparr>ps_api := st\<rparr>))"

text \<open>\<open>token\<close> is the random token of an invitation, \<open>header\<close> the \<open>Idempotency-Key\<close> header.\<close>

fun project_handler ::
  "delivery_env \<Rightarrow> go_time \<Rightarrow> string \<Rightarrow> string \<Rightarrow> auth_request \<Rightarrow> int \<Rightarrow> pull_state \<Rightarrow> project_route \<Rightarrow> go_error option \<times> pull_state" where
  "project_handler env now token header r pid w (CreateInviteRoute body) =
     answer (handleCreateProjectInvite (dl_web env) now token r pid body (ps_api w)) w"
| "project_handler env now token header r pid w ListInvitesRoute =
     answer (handleListProjectInvites (dl_web env) now r pid (ps_api w)) w"
| "project_handler env now token header r pid w (RemoveMemberRoute uid) =
     answer (handleRemoveProjectMember (dl_web env) now r pid uid (ps_api w)) w"
| "project_handler env now token header r pid w (PutRetentionRoute body) =
     answer (handlePutProjectVersionRetention (dl_web env) now r pid body (ps_api w)) w"
| "project_handler env now token header r pid w (CreateVersionRoute body) =
     answer (handleCreateVersion (dl_web env) now r pid body (ps_api w)) w"
| "project_handler env now token header r pid w (SubmitReviewRoute ver) =
     answer (handleSubmitReview (dl_web env) now r pid ver (ps_api w)) w"
| "project_handler env now token header r pid w (PublishRoute ver) =
     answer (handlePublishVersion (dl_web env) now r pid ver (ps_api w)) w"
| "project_handler env now token header r pid w (PutVCSRoute ver body) =
     answer (handlePutVersionVCS (dl_web env) now r pid ver body (ps_api w)) w"
| "project_handler env now token header r pid w (RejectRoute ver) =
     answer (handleRejectReview (dl_web env) now r pid ver (ps_api w)) w"
| "project_handler env now token header r pid w (DeleteVersionRoute ver confirm) =
     answer (handleDeleteVersion (dl_web env) now r pid ver confirm (ps_api w)) w"
| "project_handler env now token header r pid w (UploadRoute ver body) =
     (case handleUploadFile (dl_web env) now r pid ver body w of (Inl e, w1) \<Rightarrow> (Some e, w1) | (Inr _, w1) \<Rightarrow> (None, w1))"
| "project_handler env now token header r pid w (DeleteFileRoute ver path) =
     answer (handleDeleteVersionFile (dl_web env) now r pid ver path (ps_api w)) w"
| "project_handler env now token header r pid w (PutTagsRoute ver body) =
     answer (handlePutVersionFileTags (dl_web env) now r pid ver body (ps_api w)) w"
| "project_handler env now token header r pid w (DeleteTagsRoute ver path) =
     answer (handleDeleteVersionFileTags (dl_web env) now r pid ver path (ps_api w)) w"
| "project_handler env now token header r pid w (BatchTagsRoute ver body) =
     answer (handleBatchVersionFileTags (dl_web env) now r pid ver body (ps_api w)) w"
| "project_handler env now token header r pid w (CreateDeploymentRoute body) =
     answer (handleCreatePushDeployment env now header r pid body (ps_api w)) w"
| "project_handler env now token header r pid w DeleteDeploymentRoute = answer (handleDeletePushDeployment, ps_api w) w"
| "project_handler env now token header r pid w (CreateTaskRoute body) =
     answer (handleCreatePushTask env now r pid body (ps_api w)) w"
| "project_handler env now token header r pid w (UpdateTaskRoute i body) =
     answer (handleUpdatePushTask env now r pid i body (ps_api w)) w"
| "project_handler env now token header r pid w (DeleteTaskRoute i) =
     answer (handleDeletePushTask env now r pid i (ps_api w)) w"
| "project_handler env now token header r pid w (RunTaskRoute i body) =
     answer (handleRunPushTask env now header r pid i body (ps_api w)) w"
| "project_handler env now token header r pid w (CreateHookRoute body) =
     answer (handleCreateReleaseHook env now r pid body (ps_api w)) w"
| "project_handler env now token header r pid w (UpdateHookRoute i body) =
     answer (handleUpdateReleaseHook env now r pid i body (ps_api w)) w"
| "project_handler env now token header r pid w (DeleteHookRoute i) =
     answer (handleDeleteReleaseHook env now r pid i (ps_api w)) w"
| "project_handler env now token header r pid w (TriggerHookRoute i body) =
     answer (handleTriggerReleaseHook env now r pid i body (ps_api w)) w"
| "project_handler env now token header r pid w (SetDesiredRoute sid body) =
     answer (handleSetDeliveryNodeDesired env now r pid sid body (ps_api w)) w"
| "project_handler env now token header r pid w (DeleteNodeRoute sid) =
     answer (handleDeleteDeliveryNode env now r pid sid (ps_api w)) w"

definition serve_project ::
  "delivery_env \<Rightarrow> go_time \<Rightarrow> string \<Rightarrow> string \<Rightarrow> auth_request \<Rightarrow> int \<Rightarrow> project_route \<Rightarrow> pull_state \<Rightarrow> go_error option \<times> pull_state" where
  "serve_project env now token header r pid route w =
     (case requireLogin (we_auth (dl_web env)) now r (ps_api w) of
        (Passed _, st1) \<Rightarrow>
          (case mutator_gate (dl_web env) now r (route_method route) st1 of
             (Allowed, st2) \<Rightarrow>
               (case writer_gate (dl_web env) now r pid st2 of
                  (Allowed, st3) \<Rightarrow> project_handler env now token header r pid (w\<lparr>ps_api := st3\<rparr>) route
                | (NotFound, st3) \<Rightarrow> (Some (ErrMsg ''project not found''), w\<lparr>ps_api := st3\<rparr>)
                | (_, st3) \<Rightarrow> (Some (ErrMsg ''project admin required''), w\<lparr>ps_api := st3\<rparr>))
           | (Unauthorized, st2) \<Rightarrow> (Some (ErrMsg ''login required''), w\<lparr>ps_api := st2\<rparr>)
           | (_, st2) \<Rightarrow> (Some (ErrMsg ''viewer cannot modify''), w\<lparr>ps_api := st2\<rparr>))
      | (LoginBlocked _, st1) \<Rightarrow> (Some (ErrMsg ''too many login attempts''), w\<lparr>ps_api := st1\<rparr>)
      | (_, st1) \<Rightarrow> (Some (ErrMsg ''login required''), w\<lparr>ps_api := st1\<rparr>))"

section \<open>The session of a request does not change while it is served\<close>

lemma cleared_not_blocked: "\<not> snd (LoginIPBlocked ip now at (snd (ClearLoginIPFailures ip s)))"
proof -
  have f: "find (\<lambda>b. lb_IP b = ip) (map (\<lambda>b. if lb_IP b = ip then b\<lparr>lb_Failures := 0, lb_BannedUntil := None\<rparr> else b) bs)
      = map_option (\<lambda>b. b\<lparr>lb_Failures := 0, lb_BannedUntil := None\<rparr>) (find (\<lambda>b. lb_IP b = ip) bs)" for bs :: "login_ban list"
    by (induction bs) auto
  show ?thesis
    by (cases "find (\<lambda>b. lb_IP b = ip) (st_bans s)") (simp_all add: LoginIPBlocked_def ClearLoginIPFailures_def ban_row_def f)
qed

lemma accounts_core:
  assumes "core s' = core s"
  shows "Authenticate chk s' = Authenticate chk s" "UserTenantID s' = UserTenantID s" "UserAuthVersion s' = UserAuthVersion s"
    "TenantByID s' = TenantByID s" "UserRole s' = UserRole s" "LoginProtectionEnabled s' = LoginProtectionEnabled s"
proof -
  have "st_loginProtection (core x) = st_loginProtection x" for x by (simp add: core_def)
  then have "st_loginProtection s' = st_loginProtection s" using assms by metis
  with core_tables [OF assms] show "Authenticate chk s' = Authenticate chk s" "UserTenantID s' = UserTenantID s"
    "UserAuthVersion s' = UserAuthVersion s" "TenantByID s' = TenantByID s" "UserRole s' = UserRole s"
    "LoginProtectionEnabled s' = LoginProtectionEnabled s"
    by (simp_all add: fun_eq_iff Authenticate_def UserTenantID_def UserAuthVersion_def TenantByID_def UserRole_def
        LoginProtectionEnabled_def)
qed

text \<open>The session a Basic login grants, from the accounts.\<close>

definition granted :: "go_time \<Rightarrow> string \<Rightarrow> int \<Rightarrow> bool \<Rightarrow> store \<Rightarrow> session option" where
  "granted now user uid admin s =
     (case UserTenantID s uid of
        Inl _ \<Rightarrow> None
      | Inr tid \<Rightarrow>
          (case UserAuthVersion s uid of
             Inl _ \<Rightarrow> None
           | Inr ver \<Rightarrow>
               Some \<lparr>ss_UserID = uid, ss_Username = user, ss_IsAdmin = admin, ss_AuthVersion = ver, ss_TenantID = tid,
                 ss_TenantSlug = (case TenantByID s tid of Inl _ \<Rightarrow> [] | Inr t \<Rightarrow> tn_Slug t), ss_Expires = now + Hour\<rparr>))"

lemma granted_core:
  assumes "core s' = core s"
  shows "granted now user uid admin s' = granted now user uid admin s"
  by (simp only: granted_def accounts_core [OF assms])

lemma basic_granted:
  assumes "ar_Basic r = Some (user, pass)" "user \<noteq> []" "loginProtectionIP (ae_Login env) (ar_Peer r) = (ip, reliable)"
    and "\<not> (LoginProtectionEnabled s \<and> reliable \<and> snd (LoginIPBlocked ip now now s))"
    and "Authenticate (ae_CheckPassword env) s user pass = Inr (uid, admin)"
  shows "basicAuthSession env now r s = (granted now user uid admin s, clearLoginFailures (ae_Login env) (ar_Peer r) s)"
proof -
  let ?s1 = "clearLoginFailures (ae_Login env) (ar_Peer r) s"
  have free: "(LoginProtectionEnabled s \<and> reliable \<and> snd (LoginIPBlocked ip now now s)) = False" using assms(4) by blast
  have "basicAuthSession env now r s = (granted now user uid admin ?s1, ?s1)"
    by (cases "UserTenantID ?s1 uid"; cases "UserAuthVersion ?s1 uid")
      (simp_all only: basicAuthSession_def granted_def Let_def assms(1,2,3,5) option.case prod.case sum.case if_False free)
  moreover have "core ?s1 = core s" by simp
  ultimately show ?thesis using granted_core by metis
qed

lemma basic_stable:
  "fst (basicAuthSession env now r (snd (basicAuthSession env now r s))) = fst (basicAuthSession env now r s)"
proof (cases "ar_Basic r")
  case (Some up)
  obtain user pass where up: "ar_Basic r = Some (user, pass)" using Some by (cases up) simp
  obtain ip reliable where ip: "loginProtectionIP (ae_Login env) (ar_Peer r) = (ip, reliable)" by fastforce
  let ?blocked = "\<lambda>s. LoginProtectionEnabled s \<and> reliable \<and> snd (LoginIPBlocked ip now now s)"
  let ?s1 = "snd (basicAuthSession env now r s)"
  note same = accounts_core [OF core_basic [of env now r s]]
  show ?thesis
  proof (cases "user = [] \<or> ?blocked s")
    case True
    then show ?thesis by (auto simp: basicAuthSession_def up ip)
  next
    case False
    show ?thesis
    proof (cases "Authenticate (ae_CheckPassword env) s user pass")
      case (Inl e)
      have none: "fst (basicAuthSession env now r x) = None" if "Authenticate (ae_CheckPassword env) x user pass = Inl e" for x
        using that by (auto simp: basicAuthSession_def up ip)
      from none [of s] none [of ?s1] Inl same(1) show ?thesis by simp
    next
      case (Inr ua)
      obtain uid admin where auth: "Authenticate (ae_CheckPassword env) s user pass = Inr (uid, admin)" using Inr by (cases ua) simp
      have first: "basicAuthSession env now r s = (granted now user uid admin s, clearLoginFailures (ae_Login env) (ar_Peer r) s)"
        by (rule basic_granted [OF up _ ip _ auth]) (use False in auto)
      have free: "\<not> ?blocked ?s1"
        using cleared_not_blocked [of ip now now s] by (cases reliable) (simp_all add: first clearLoginFailures_def ip)
      have "basicAuthSession env now r ?s1 = (granted now user uid admin ?s1, clearLoginFailures (ae_Login env) (ar_Peer r) ?s1)"
        by (rule basic_granted [OF up _ ip free]) (use False auth same(1) in auto)
      then show ?thesis using granted_core [OF core_basic [of env now r s]] first by (simp only: fst_conv)
    qed
  qed
qed (simp add: basicAuthSession_def)

lemma request_stable:
  "fst (sessionFromRequest env now r (snd (sessionFromRequest env now r st))) = fst (sessionFromRequest env now r st)"
proof -
  obtain x s1 where b: "basicAuthSession env now r (ap_store st) = (x, s1)" by fastforce
  obtain s2 where b2: "basicAuthSession env now r s1 = (x, s2)"
    using basic_stable [of env now r "ap_store st"] b by (metis fst_conv prod.collapse snd_conv)
  show ?thesis
    by (cases "bearer_session env now (extractBearerToken (ar_Authorization r))"; cases x)
      (simp_all add: sessionFromRequest_def b b2 split: option.split)
qed

lemma session_stable:
  "fst (currentSession env now r (snd (currentSession env now r st))) = fst (currentSession env now r st)"
proof -
  obtain x st1 where a: "sessionFromRequest env now r st = (x, st1)" by fastforce
  obtain st2 where b: "sessionFromRequest env now r st1 = (x, st2)"
    using request_stable [of env now r st] a by (metis fst_conv prod.collapse snd_conv)
  have "core (ap_store st2) = core (ap_store st1)" using core_request [of env now r st1] b by simp
  from accounts_core(3) [OF this] have "session_live (ap_store st2) = session_live (ap_store st1)"
    by (simp add: fun_eq_iff session_live_def)
  then show ?thesis by (cases x) (simp_all add: currentSession_def a b)
qed

section \<open>Who may change a project\<close>

lemma core_login [simp]: "core (ap_store (snd (requireLogin env now r st))) = core (ap_store st)"
proof -
  obtain x st1 where "currentSession env now r st = (x, st1)" by fastforce
  with core_session [of env now r st] show ?thesis by (auto simp: requireLogin_def split: option.split)
qed

lemma core_mutator [simp]: "core (ap_store (snd (mutator_gate env now r m st))) = core (ap_store st)"
proof -
  obtain x st1 where "web_session env now r st = (x, st1)" by fastforce
  with core_session [of "we_auth env" now r st] show ?thesis by (auto simp: mutator_gate_def)
qed

lemma core_writer [simp]: "core (ap_store (snd (writer_gate env now r pid st))) = core (ap_store st)"
proof -
  obtain x st1 where "projectByID env now r pid st = (x, st1)" by fastforce
  with core_project [of env now r pid st] show ?thesis by (auto simp: writer_gate_def split: option.split)
qed

text \<open>
  The caller of a request that passed the gates, over the tables of the store: a user whose role in the tenant is not the
  viewer's, and who administrates the project as tenant administrator or as an administrator among its members.
\<close>

definition may_write :: "store \<Rightarrow> int \<Rightarrow> int \<Rightarrow> int \<Rightarrow> bool" where
  "may_write s uid tid pid =
     ((\<exists>p\<in>set (trows (st_projects s)). p_ID p = pid \<and> p_TenantID p = tid)
      \<and> (UserRole s uid = Inr RoleAdmin
         \<or> (\<exists>m\<in>set (st_members s). is_member pid uid m \<and> pm_Role m = ProjectRoleAdmin)))"

lemma may_write_core: "core s' = core s \<Longrightarrow> may_write s' uid tid pid = may_write s uid tid pid"
  using core_tables(2) [of s' s] core_tables(3) [of s' s] core_tables(5) [of s' s] by (simp add: may_write_def UserRole_def)

lemma ctx_may_write:
  assumes "projectCtxFromRequest s (Some (uid, tid)) pid = Some pc" "CanWriteProject (pc_ProjectRole pc)"
  shows "may_write s uid tid pid"
proof -
  obtain name where name: "ProjectNameInTenant s tid pid = Inr name" and
    role: "pc_ProjectRole pc = ProjectAccess s pid uid (case UserRole s uid of Inl _ \<Rightarrow> [] | Inr x \<Rightarrow> x)"
    using assms(1) by (auto simp: projectCtxFromRequest_def Let_def split: sum.splits if_splits)
  have "\<exists>p\<in>set (trows (st_projects s)). p_ID p = pid \<and> p_TenantID p = tid"
  proof (cases "tbl_row (\<lambda>p. p_ID p = pid \<and> p_TenantID p = tid) (st_projects s)")
    case (Inl e)
    with name show ?thesis by (simp add: ProjectNameInTenant_def)
  next
    case (Inr p)
    from tbl_row_Inr [OF Inr] show ?thesis by blast
  qed
  moreover have "UserRole s uid = Inr RoleAdmin
      \<or> (\<exists>m\<in>set (st_members s). is_member pid uid m \<and> pm_Role m = ProjectRoleAdmin)"
  proof (cases "UserRole s uid = Inr RoleAdmin")
    case False
    then have "(case UserRole s uid of Inl _ \<Rightarrow> [] | Inr x \<Rightarrow> x) \<noteq> RoleAdmin" by (cases "UserRole s uid") (auto simp: RoleAdmin_def)
    then have "ProjectMemberRole s pid uid = ProjectRoleAdmin"
      using role assms(2) by (simp add: CanWriteProject_def ProjectAccess_def)
    then obtain m where "find (is_member pid uid) (st_members s) = Some m" "pm_Role m = ProjectRoleAdmin"
      by (auto simp: ProjectMemberRole_def ProjectRoleAdmin_def split: option.splits)
    moreover from this have "m \<in> set (st_members s) \<and> is_member pid uid m" by (auto simp: find_Some_iff)
    ultimately show ?thesis by blast
  qed simp
  ultimately show ?thesis by (simp add: may_write_def)
qed

definition session_tenant :: "store \<Rightarrow> session \<Rightarrow> int option" where
  "session_tenant s sess =
     (if ss_TenantID sess > 0 then Some (ss_TenantID sess)
      else case UserTenantID s (ss_UserID sess) of Inl _ \<Rightarrow> None | Inr tid \<Rightarrow> Some tid)"

lemma tenant_of_session:
  assumes "fst (currentSession env now r st) = Some sess"
  shows "fst (tenantFromSession env now r st) = session_tenant (ap_store st) sess"
    "snd (tenantFromSession env now r st) = snd (currentSession env now r st)"
proof -
  obtain st1 where c: "currentSession env now r st = (Some sess, st1)" using assms by (metis prod.collapse)
  have "UserTenantID (ap_store st1) = UserTenantID (ap_store st)"
    using accounts_core(2) [OF core_session [of env now r st]] c by simp
  then show "fst (tenantFromSession env now r st) = session_tenant (ap_store st) sess"
    "snd (tenantFromSession env now r st) = snd (currentSession env now r st)"
    by (auto simp: tenantFromSession_def session_tenant_def c split: sum.split)
qed

lemma ctx_core:
  assumes "core s' = core s"
  shows "projectCtxFromRequest s' sess pid = projectCtxFromRequest s sess pid"
proof -
  have "ProjectNameInTenant s' = ProjectNameInTenant s" "ProjectAccess s' = ProjectAccess s"
    using core_tables(3,5) [OF assms] by (simp_all add: fun_eq_iff ProjectNameInTenant_def ProjectAccess_def ProjectMemberRole_def)
  then show ?thesis by (simp only: projectCtxFromRequest_def accounts_core(5) [OF assms])
qed

lemma project_of_session:
  assumes "fst (projectByID env now r pid st) = Some pc"
  shows "\<exists>sess tid. fst (web_session env now r st) = Some sess \<and> session_tenant (ap_store st) sess = Some tid
    \<and> projectCtxFromRequest (ap_store st) (Some (ss_UserID sess, tid)) pid = Some pc"
proof (cases "fst (web_session env now r st)")
  case None
  then have "fst (tenantFromSession (we_auth env) now r st) = None"
    by (cases "web_session env now r st") (auto simp: tenantFromSession_def)
  with assms have False by (cases "tenantFromSession (we_auth env) now r st") (simp add: projectByID_def)
  then show ?thesis ..
next
  case (Some sess)
  obtain st1 where c1: "web_session env now r st = (Some sess, st1)" using Some by (metis prod.collapse)
  obtain st2 where c2: "web_session env now r st1 = (Some sess, st2)"
    using session_stable [of "we_auth env" now r st] c1 by (metis fst_conv prod.collapse snd_conv)
  have t: "tenantFromSession (we_auth env) now r st = (session_tenant (ap_store st) sess, st1)"
    using tenant_of_session [OF Some] c1 by (metis prod.collapse snd_conv)
  have "fst (projectByID env now r pid st) = (case session_tenant (ap_store st) sess of None \<Rightarrow> None
      | Some tid \<Rightarrow> projectCtxFromRequest (ap_store st2) (Some (ss_UserID sess, tid)) pid)"
    by (simp add: projectByID_def t c2 split: option.split)
  moreover have "core (ap_store st2) = core (ap_store st)"
    using core_session [of "we_auth env" now r st] core_session [of "we_auth env" now r st1] c1 c2 by simp
  ultimately show ?thesis using assms Some ctx_core [of "ap_store st2" "ap_store st"] by (auto split: option.splits)
qed

lemma session_tenant_core: "core s' = core s \<Longrightarrow> session_tenant s' sess = session_tenant s sess"
  using accounts_core(2) [of s' s] by (simp add: session_tenant_def)

text \<open>
  C8: a request to change a project that succeeds, or that changes anything but the login counters and the audit log, is
  made under a live session whose user is not a viewer, for a project of that session's tenant which the user administrates
  as the tenant's administrator or as an administrator among the project's members.
\<close>

theorem project_writes_need_admin:
  assumes "serve_project env now token header r pid route w = (reply, w')"
    and "reply = None \<or> core (ps_store w') \<noteq> core (ps_store w) \<or> ps_logs w' \<noteq> ps_logs w"
  shows "\<exists>sess tid. fst (web_session (dl_web env) now r (ps_api w)) = Some sess \<and> session_live (ps_store w) sess
    \<and> session_tenant (ps_store w) sess = Some tid \<and> may_write (ps_store w) (ss_UserID sess) tid pid
    \<and> (route \<noteq> ListInvitesRoute \<longrightarrow> sessionRole (ps_store w) (Some (ss_UserID sess)) \<noteq> Some RoleViewer)"
proof -
  let ?we = "dl_web env" and ?st = "ps_api w"
  obtain g st1 where g: "requireLogin (we_auth ?we) now r ?st = (g, st1)" by fastforce
  obtain m st2 where m: "mutator_gate ?we now r (route_method route) st1 = (m, st2)" by fastforce
  obtain x st3 where x: "writer_gate ?we now r pid st2 = (x, st3)" by fastforce
  have c: "core (ap_store st1) = core (ap_store ?st)" "core (ap_store st2) = core (ap_store st1)" "core (ap_store st3) = core (ap_store st2)"
    using core_login [of "we_auth ?we" now r ?st] core_mutator [of ?we now r "route_method route" st1]
      core_writer [of ?we now r pid st2] g m x by simp_all
  have "\<exists>sess. g = Passed sess \<and> m = Allowed \<and> x = Allowed"
  proof (rule ccontr)
    assume "\<not> ?thesis"
    with assms(1) g m x have "reply \<noteq> None \<and> core (ps_store w') = core (ps_store w) \<and> ps_logs w' = ps_logs w"
      using c by (cases g; cases m; cases x) (auto simp: serve_project_def)
    with assms(2) show False by simp
  qed
  then obtain sess where pass: "g = Passed sess" "m = Allowed" "x = Allowed" by blast
  have s1: "web_session ?we now r ?st = (Some sess, st1)"
    using g pass(1) by (auto simp: requireLogin_def split: option.splits prod.splits)
  have s2: "fst (web_session ?we now r st1) = Some sess" using session_stable [of "we_auth ?we" now r ?st] s1 by simp
  have s3: "fst (web_session ?we now r st2) = Some sess"
    using m s2 session_stable [of "we_auth ?we" now r st1] by (auto simp: mutator_gate_def split: prod.splits if_splits)
  have role: "sessionRole (ps_store w) (Some (ss_UserID sess)) \<noteq> Some RoleViewer" if "route \<noteq> ListInvitesRoute"
  proof -
    have "route_method route \<noteq> ''GET'' \<and> route_method route \<noteq> ''HEAD''" using that by (cases route) (simp_all add: route_method_def)
    moreover have "core (ap_store (snd (web_session ?we now r st1))) = core (ap_store ?st)" using c(1) by simp
    ultimately show ?thesis
      using m pass(2) s2 accounts_core(5) [of "ap_store (snd (web_session ?we now r st1))" "ap_store ?st"]
      by (auto simp: mutator_gate_def requireMutator_def sessionRole_def split: prod.splits if_splits option.splits sum.splits)
  qed
  obtain pc where pc: "fst (projectByID ?we now r pid st2) = Some pc" "CanWriteProject (pc_ProjectRole pc)"
    using x pass(3) by (auto simp: writer_gate_def split: prod.splits option.splits if_splits)
  from project_of_session [OF pc(1)] s3 obtain tid where
    tid: "session_tenant (ap_store st2) sess = Some tid" "projectCtxFromRequest (ap_store st2) (Some (ss_UserID sess, tid)) pid = Some pc"
    by auto
  have core2: "core (ap_store st2) = core (ap_store ?st)" using c by simp
  have "may_write (ps_store w) (ss_UserID sess) tid pid"
    using ctx_may_write [OF tid(2) pc(2)] may_write_core [OF core2] by simp
  moreover have "session_live (ps_store w) sess" using currentSession_live [of "we_auth ?we" now r ?st sess] s1 by simp
  ultimately show ?thesis using role s1 tid(1) session_tenant_core [OF core2] by auto
qed

section \<open>Witness\<close>

definition sample_site :: pull_state where
  "sample_site = \<lparr>ps_api = sample_fleet, ps_logs = \<lparr>ol_projects = empty_table, ol_uploads = empty_table\<rparr>\<rparr>"

lemma project_writes_need_admin_witness:
  "\<exists>w'. serve_project sample_delivery_env 0 [] [] sample_request 1 (PublishRoute ''1.0.0'') sample_site = (None, w')
     \<and> (\<exists>(sess::session) tid. may_write (ps_store sample_site) (ss_UserID sess) tid 1)"
proof -
  let ?p = "serve_project sample_delivery_env 0 [] [] sample_request 1 (PublishRoute ''1.0.0'') sample_site"
  have "fst ?p = None" by code_simp
  then obtain w' where p: "?p = (None, w')" by (metis prod.collapse)
  from project_writes_need_admin [OF p] have "\<exists>(sess::session) tid. may_write (ps_store sample_site) (ss_UserID sess) tid 1" by auto
  with p show ?thesis by blast
qed

end
