(* ===== verification/Isolation.thy ===== *)
theory Isolation
  imports Router
begin

text \<open>
  Projects do not interfere: a request to change one project leaves what the tables hold of every other project, the
  accounts, the tenants, the hosts and their bindings as they are.
\<close>

section \<open>File operations leave the tables alone\<close>

text \<open>The store without its files: blobs, modes and tags of files are left out with them.\<close>

definition tables :: "store \<Rightarrow> store" where
  "tables s = s\<lparr>st_files := [], st_dirs := [], st_blobs := [], st_fileModes := [], st_fileTags := []\<rparr>"

lemma tables_blobs [simp]:
  "tables (snd (ingestBlobFromReader sha now data s)) = tables s" "tables (snd (linkBlobToVersion h path s)) = tables s"
  "tables (snd (decrementBlobRef h s)) = tables s" "tables (snd (releaseBlobLink sha path s)) = tables s"
  "tables (mkdir_all d s) = tables s" "tables (remove_all d s) = tables s"
  by (auto simp: tables_def ingestBlobFromReader_def ingestBlob_def writeBlobFile_def linkBlobToVersion_def decrementBlobRef_def releaseBlobLink_def
      mkdir_all_def remove_all_def Let_def split: option.split sum.split prod.split)

lemma tables_modes [simp]:
  "tables (snd (setVersionFileMode now t p v rel m s)) = tables s" "tables (deleteVersionFileMode t p v rel s) = tables s"
  "tables (deleteVersionFileModes t p v s) = tables s" "tables (DeleteVersionFileTags t p v rel s) = tables s"
  by (auto simp: tables_def setVersionFileMode_def deleteVersionFileMode_def deleteVersionFileModes_def DeleteVersionFileTags_def Let_def)

lemma tables_store_content [simp]: "tables (snd (store_content sha now dest data s)) = tables s"
proof -
  obtain x s2 where x: "(if file_exists (mkdir_all (path_dir dest) s) dest then releaseBlobLink sha dest (mkdir_all (path_dir dest) s)
      else (Inr (), mkdir_all (path_dir dest) s)) = (x, s2)" by fastforce
  obtain y s3 where y: "ingestBlobFromReader sha now data s2 = (y, s3)" by fastforce
  have "tables (snd (if file_exists (mkdir_all (path_dir dest) s) dest then releaseBlobLink sha dest (mkdir_all (path_dir dest) s)
      else (Inr (), mkdir_all (path_dir dest) s))) = tables s" by simp
  then have "tables s2 = tables s" unfolding x by simp
  moreover have "tables s3 = tables s2" using tables_blobs(1) [of sha now data s2] y by simp
  ultimately show ?thesis by (cases x; cases y) (simp_all add: store_content_def Let_def x y)
qed

lemma tables_release_all [simp]: "tables (snd (release_all sha fs s)) = tables s"
proof (induction fs arbitrary: s)
  case (Cons f fs)
  obtain x s1 where x: "releaseBlobLink sha f s = (x, s1)" by fastforce
  with tables_blobs(4) [of sha f s] Cons show ?case by (cases x) auto
qed simp

lemma tables_WriteVersionFile [simp]: "tables (snd (WriteVersionFile sha now t p v rel data s)) = tables s"
proof -
  have "tables s1 = tables s" if "store_content sha now path data s = (x, s1)" for path x s1
    using tables_store_content that by (metis snd_conv)
  then show ?thesis by (auto simp: WriteVersionFile_def writeVersionBlob_def Let_def split: sum.split prod.split)
qed

lemma tables_extract_zip [simp]: "tables (snd (extract_zip sha now t p v root fs s)) = tables s"
proof (induction fs arbitrary: s)
  case (Cons f fs)
  obtain x s1 where x: "store_content sha now (path_join root (path_clean (ae_Name f))) (ae_Data f) s = (x, s1)" by fastforce
  obtain y s2 where y: "setVersionFileMode now t p v (path_clean (ae_Name f)) (ae_Mode f) s1 = (y, s2)" by fastforce
  have "tables s1 = tables s" using tables_store_content x by (metis snd_conv)
  moreover have "tables s2 = tables s1" using tables_modes(1) y by (metis snd_conv)
  ultimately show ?case using Cons by (cases x; cases y) (simp_all add: Let_def x y)
qed simp

lemma tables_extract_tar [simp]: "tables (snd (extract_tar sha now t p v root seen hs s)) = tables s"
proof (induction hs arbitrary: seen s)
  case (Cons h hs)
  obtain x s1 where x: "store_content sha now (path_join root (path_clean (ae_Name h))) (ae_Data h) s = (x, s1)" by fastforce
  obtain y s2 where y: "setVersionFileMode now t p v (path_clean (ae_Name h)) (ae_Mode h) s1 = (y, s2)" by fastforce
  have "tables s1 = tables s" using tables_store_content x by (metis snd_conv)
  moreover have "tables s2 = tables s1" using tables_modes(1) y by (metis snd_conv)
  ultimately show ?case using Cons by (cases x; cases y) (simp_all add: Let_def x y)
qed simp

lemma tables_uploads [simp]:
  "tables (snd (ExtractZipToVersion sha now t p v fs s)) = tables s" "tables (snd (ExtractTarToVersion sha now t p v hs s)) = tables s"
  by (auto simp: ExtractZipToVersion_def ExtractTarToVersion_def split: sum.split)

lemma tables_DeleteVersionFile [simp]: "tables (snd (DeleteVersionFile sha t p v rel s)) = tables s"
proof -
  have "tables s1 = tables s" if "releaseBlobLink sha path s = (x, s1)" for path x s1
    using tables_blobs(4) that by (metis snd_conv)
  then show ?thesis by (auto simp: DeleteVersionFile_def split: sum.split prod.split)
qed

lemma tables_tags [simp]:
  "tables (snd (SetVersionFileTags now t p v rel tags s)) = tables s" "tables (snd (ClearVersionFileTags t p v rel s)) = tables s"
  by (auto simp: tables_def SetVersionFileTags_def ClearVersionFileTags_def DeleteVersionFileTags_def Let_def split: sum.split)

lemma tables_tag_all [simp]: "tables (tag_all now t p v tags paths s) = tables s"
proof -
  have "tables (fold (\<lambda>path s. snd (SetVersionFileTags now t p v path tags s)) paths s) = tables s"
    by (induction paths arbitrary: s) simp_all
  then show ?thesis by (simp add: tag_all_def)
qed

lemma tables_batch_loop [simp]: "tables (snd (batch_loop now t p v tags mode paths s)) = tables s"
proof (induction paths arbitrary: s)
  case (Cons path paths)
  let ?new = "mergeTags (TagsForVersionFile s t p v path) tags mode"
  obtain x s1 where x: "(if mode = FileTagClear \<or> ?new = [] then ClearVersionFileTags t p v path s
      else SetVersionFileTags now t p v path ?new s) = (x, s1)" by fastforce
  have "tables (snd (if mode = FileTagClear \<or> ?new = [] then ClearVersionFileTags t p v path s
      else SetVersionFileTags now t p v path ?new s)) = tables s" by simp
  then have "tables s1 = tables s" unfolding x by simp
  with Cons x show ?case by (cases x) (simp_all add: Let_def)
qed simp

lemma tables_batch [simp]: "tables (snd (BatchUpdateVersionFileTags glob now t p v paths pats tags mode s)) = tables s"
proof -
  have "tables s1 = tables s" if "batch_loop now t p v tags mode sel s = (x, s1)" for sel x s1
    using tables_batch_loop that by (metis snd_conv)
  then show ?thesis by (auto simp: BatchUpdateVersionFileTags_def Let_def split: sum.split prod.split)
qed

section \<open>Rows of other projects\<close>

definition away :: "('r \<Rightarrow> bool) \<Rightarrow> 'r table \<Rightarrow> 'r list" where
  "away Q t = filter (\<lambda>r. \<not> Q r) (trows t)"

lemma filter_update:
  assumes "\<And>r. r \<in> set rows \<Longrightarrow> P r \<Longrightarrow> Q r \<and> Q (f r)"
  shows "filter (\<lambda>r. \<not> Q r) (map (\<lambda>r. if P r then f r else r) rows) = filter (\<lambda>r. \<not> Q r) rows"
  using assms
proof (induction rows)
  case (Cons r rows)
  then have "filter (\<lambda>r. \<not> Q r) (map (\<lambda>r. if P r then f r else r) rows) = filter (\<lambda>r. \<not> Q r) rows" by simp
  with Cons.prems [of r] show ?case by (cases "P r") auto
qed simp

lemma away_update: "(\<And>r. r \<in> set (trows t) \<Longrightarrow> P r \<Longrightarrow> Q r \<and> Q (f r)) \<Longrightarrow> away Q (snd (tbl_update P f t)) = away Q t"
  unfolding away_def trows_tbl_update by (rule filter_update)

lemma away_update_checked:
  assumes "\<And>r. r \<in> set (trows t) \<Longrightarrow> P r \<Longrightarrow> Q r \<and> Q (f r)"
  shows "away Q (snd (tbl_update_checked c n P f t)) = away Q t"
proof -
  have "snd (tbl_update_checked c n P f t) = t \<or> snd (tbl_update_checked c n P f t) = snd (tbl_update P f t)"
    by (auto simp: tbl_update_checked_def Let_def split: prod.split)
  then show ?thesis using away_update [of t P Q f] assms by auto
qed

lemma away_delete:
  assumes "\<And>r. P r \<Longrightarrow> Q r"
  shows "away Q (snd (tbl_delete P t)) = away Q t"
  unfolding away_def trows_tbl_delete filter_filter using assms by (intro filter_cong) auto

lemma away_insert: "(\<And>i. Q (set_id i r)) \<Longrightarrow> away Q (snd (tbl_insert c set_id n r t)) = away Q t"
  by (auto simp: away_def tbl_insert_def)

definition rest :: "int \<Rightarrow> store \<Rightarrow> _" where
  "rest pid s =
     ((st_users s, st_tenants s, st_hosts s, st_bindings s, st_dataDir s),
      away (\<lambda>p. p_ID p = pid) (st_projects s), away (\<lambda>v. v_ProjectID v = pid) (st_versions s),
      filter (\<lambda>m. pm_ProjectID m \<noteq> pid) (st_members s), away (\<lambda>i. pi_ProjectID i = pid) (st_invites s),
      away (\<lambda>t. tk_ProjectID t = pid) (st_tasks s), away (\<lambda>h. rh_ProjectID h = pid) (st_hooks s),
      away (\<lambda>n. dn_ProjectID n = pid) (st_nodes s), away (\<lambda>d. pd_ProjectID d = pid) (st_deployments s))"

lemma rest_tables: "tables s' = tables s \<Longrightarrow> rest pid s' = rest pid s"
proof -
  have "rest pid (tables x) = rest pid x" for x by (simp add: rest_def tables_def)
  then show "tables s' = tables s \<Longrightarrow> ?thesis" by metis
qed

lemma rest_core: "core s' = core s \<Longrightarrow> rest pid s' = rest pid s"
proof -
  have "rest pid (core x) = rest pid x" for x by (simp add: rest_def core_def)
  then show "core s' = core s \<Longrightarrow> ?thesis" by metis
qed

lemma rest_away:
  "away (\<lambda>p. p_ID p = pid) t1 = away (\<lambda>p. p_ID p = pid) (st_projects s) \<Longrightarrow> rest pid (s\<lparr>st_projects := t1\<rparr>) = rest pid s"
  "away (\<lambda>v. v_ProjectID v = pid) t2 = away (\<lambda>v. v_ProjectID v = pid) (st_versions s) \<Longrightarrow> rest pid (s\<lparr>st_versions := t2\<rparr>) = rest pid s"
  "filter (\<lambda>m. pm_ProjectID m \<noteq> pid) ms = filter (\<lambda>m. pm_ProjectID m \<noteq> pid) (st_members s) \<Longrightarrow> rest pid (s\<lparr>st_members := ms\<rparr>) = rest pid s"
  "away (\<lambda>i. pi_ProjectID i = pid) t3 = away (\<lambda>i. pi_ProjectID i = pid) (st_invites s) \<Longrightarrow> rest pid (s\<lparr>st_invites := t3\<rparr>) = rest pid s"
  "away (\<lambda>t. tk_ProjectID t = pid) t4 = away (\<lambda>t. tk_ProjectID t = pid) (st_tasks s) \<Longrightarrow> rest pid (s\<lparr>st_tasks := t4\<rparr>) = rest pid s"
  "away (\<lambda>h. rh_ProjectID h = pid) t5 = away (\<lambda>h. rh_ProjectID h = pid) (st_hooks s) \<Longrightarrow> rest pid (s\<lparr>st_hooks := t5\<rparr>) = rest pid s"
  "away (\<lambda>n. dn_ProjectID n = pid) t6 = away (\<lambda>n. dn_ProjectID n = pid) (st_nodes s) \<Longrightarrow> rest pid (s\<lparr>st_nodes := t6\<rparr>) = rest pid s"
  "away (\<lambda>d. pd_ProjectID d = pid) t7 = away (\<lambda>d. pd_ProjectID d = pid) (st_deployments s) \<Longrightarrow> rest pid (s\<lparr>st_deployments := t7\<rparr>) = rest pid s"
  "rest pid (s\<lparr>st_events := ev\<rparr>) = rest pid s" "rest pid (s\<lparr>st_targets := tg\<rparr>) = rest pid s"
  by (simp_all add: rest_def)

lemma away_pairs:
  "tbl_update P f tb = (n, t) \<Longrightarrow> (\<And>r. r \<in> set (trows tb) \<Longrightarrow> P r \<Longrightarrow> Q r \<and> Q (f r)) \<Longrightarrow> away Q t = away Q tb"
  "tbl_update_checked c nm P f tb = (x, t) \<Longrightarrow> (\<And>r. r \<in> set (trows tb) \<Longrightarrow> P r \<Longrightarrow> Q r \<and> Q (f r)) \<Longrightarrow> away Q t = away Q tb"
  "tbl_delete P tb = (n, t) \<Longrightarrow> (\<And>r. P r \<Longrightarrow> Q r) \<Longrightarrow> away Q t = away Q tb"
  "tbl_insert c setid nm row tb = (y, t) \<Longrightarrow> (\<And>i. Q (setid i row)) \<Longrightarrow> away Q t = away Q tb"
  by (metis away_update snd_conv, metis away_update_checked snd_conv, metis away_delete snd_conv, metis away_insert snd_conv)

section \<open>Operations on one project\<close>

lemma rest_members [simp]:
  "rest pid (snd (RemoveProjectMember pid uid s)) = rest pid s"
  "rest pid (snd (CreateProjectInvite now token pid uid role h s)) = rest pid s"
proof -
  have "filter (\<lambda>m. pm_ProjectID m \<noteq> pid) (filter (\<lambda>m. \<not> is_member pid uid m) ms) = filter (\<lambda>m. pm_ProjectID m \<noteq> pid) ms" for ms
    by (induction ms) (auto simp: is_member_def)
  then show "rest pid (snd (RemoveProjectMember pid uid s)) = rest pid s"
    by (simp add: RemoveProjectMember_def Let_def rest_away(3))
  show "rest pid (snd (CreateProjectInvite now token pid uid role h s)) = rest pid s"
    by (auto simp: CreateProjectInvite_def Let_def split: sum.split prod.split intro!: rest_away elim!: away_pairs)
qed

lemma rest_retention [simp]: "rest pid (snd (SetProjectMaxPublishedVersions t pid n s)) = rest pid s"
  by (auto simp: SetProjectMaxPublishedVersions_def Let_def is_project_def split: prod.split intro!: rest_away elim!: away_pairs)

lemma rest_versions [simp]:
  "rest pid (snd (CreateVersion now t pid pn v s)) = rest pid s"
  "rest pid (snd (SetVersionVCSProvenance url pid v vcs s)) = rest pid s"
  "rest pid (set_status pid v x s) = rest pid s"
  "rest pid (snd (PublishVersion sha perm now t pid v s)) = rest pid s"
proof -
  have dir: "rest pid (mkdir_all d x) = rest pid x" for d x by (rule rest_tables) simp
  show "rest pid (snd (CreateVersion now t pid pn v s)) = rest pid s"
    by (auto simp: CreateVersion_def Let_def dir split: sum.split prod.split intro!: rest_away elim!: away_pairs)
  show "rest pid (snd (SetVersionVCSProvenance url pid v vcs s)) = rest pid s"
    by (auto simp: SetVersionVCSProvenance_def Let_def is_version_def split: sum.split prod.split intro!: rest_away elim!: away_pairs)
  show "rest pid (set_status pid v x s) = rest pid s"
    by (auto simp: set_status_def is_version_def simp del: trows_tbl_update intro!: rest_away away_update)
  show "rest pid (snd (PublishVersion sha perm now t pid v s)) = rest pid s"
    by (auto simp: PublishVersion_def is_version_def simp del: trows_tbl_update split: sum.split intro!: rest_away away_update)
qed

lemma rest_review [simp]:
  "rest pid (snd (SubmitVersionReview pid v s)) = rest pid s" "rest pid (snd (RejectVersionReview pid v s)) = rest pid s"
  by (auto simp: SubmitVersionReview_def RejectVersionReview_def split: sum.split)

lemma rest_next_patch [simp]: "rest pid (snd (CreateNextPatchVersion now t pid pn s)) = rest pid s"
proof -
  have "rest pid (snd (create_next_attempts n now t pid pn s)) = rest pid s" for n
  proof (induction n arbitrary: s)
    case (Suc n)
    obtain x s1 where x: "CreateVersion now t pid pn (NextPatchVersion s pid) s = (x, s1)" by fastforce
    have "rest pid s1 = rest pid s" using rest_versions(1) x by (metis snd_conv)
    with x Suc show ?case by (cases x) auto
  qed simp
  then show ?thesis by (simp add: CreateNextPatchVersion_def)
qed

lemma rest_delete [simp]: "rest pid (snd (DeleteVersion sha t pid pn v s)) = rest pid s"
proof -
  have files: "rest pid (remove_all d x) = rest pid x" "rest pid (deleteVersionFileModes t pn v x) = rest pid x"
    "rest pid (snd (release_all sha fs x)) = rest pid x" for d x fs by (rule rest_tables, simp)+
  show ?thesis
    by (auto simp: DeleteVersion_def Let_def releaseVersionDir_def files is_version_def split: sum.split prod.split
        intro!: rest_away elim!: away_pairs)
qed

lemma rest_prune [simp]: "rest pid (snd (PrunePublishedVersions sha t pid pn n s)) = rest pid s"
proof -
  have "rest pid (snd (prune_loop sha t pid pn vs removed s)) = rest pid s" for vs removed
  proof (induction vs arbitrary: removed s)
    case (Cons v vs)
    obtain x s1 where x: "DeleteVersion sha t pid pn (v_Version v) s = (x, s1)" by fastforce
    have "rest pid s1 = rest pid s" using rest_delete x by (metis snd_conv)
    with x Cons show ?case by (cases x) auto
  qed simp
  then show ?thesis by (simp add: PrunePublishedVersions_def Let_def)
qed

lemma rest_tasks [simp]:
  "tk_ProjectID task = pid \<Longrightarrow> rest pid (snd (CreatePushDeploymentTask now task s)) = rest pid s"
  "tk_ProjectID task = pid \<Longrightarrow> rest pid (snd (UpdatePushDeploymentTask now task s)) = rest pid s"
  "rest pid (snd (DeletePushDeploymentTask t pid i s)) = rest pid s"
proof -
  have same: "tk_ProjectID x = tk_ProjectID task" if "normalizePushTask task = Inr x" for x
    using that by (auto simp: normalizePushTask_def Let_def split: if_splits sum.splits)
  show "tk_ProjectID task = pid \<Longrightarrow> rest pid (snd (CreatePushDeploymentTask now task s)) = rest pid s"
    by (auto simp: CreatePushDeploymentTask_def Let_def dest!: same split: sum.split prod.split intro!: rest_away elim!: away_pairs)
  show "tk_ProjectID task = pid \<Longrightarrow> rest pid (snd (UpdatePushDeploymentTask now task s)) = rest pid s"
    by (auto simp: UpdatePushDeploymentTask_def is_task_def dest!: same split: sum.split prod.split intro!: rest_away elim!: away_pairs)
  show "rest pid (snd (DeletePushDeploymentTask t pid i s)) = rest pid s"
    by (auto simp: DeletePushDeploymentTask_def is_task_def Let_def split: prod.split intro!: rest_away elim!: away_pairs)
qed

lemma rest_event [simp]: "rest pid (add_event ev s) = rest pid s"
  by (simp add: add_event_def rest_away)

lemma rest_hooks [simp]:
  "rh_ProjectID hook = pid \<Longrightarrow> rest pid (snd (CreateReleaseHook now hook s)) = rest pid s"
  "rh_ProjectID hook = pid \<Longrightarrow> rest pid (snd (UpdateReleaseHook now hook s)) = rest pid s"
  "rest pid (snd (DeleteReleaseHook t pid i s)) = rest pid s"
  "rest pid (snd (QueueReleaseHook tx t pid i v b src now s)) = rest pid s"
  "rest pid (snd (RecordReleaseHookCancellation now hook s)) = rest pid s"
proof -
  have same: "rh_ProjectID x = rh_ProjectID hook" if "normalizeReleaseHook hook = Inr x" for x
    using that by (auto simp: normalizeReleaseHook_def Let_def split: if_splits sum.splits)
  have kept: "rh_ProjectID (updated_hook c k h) = rh_ProjectID h" "rh_ProjectID (triggered_hook v b src c d h) = rh_ProjectID h"
    "rh_ProjectID (fresh_hook c h) = rh_ProjectID h" for c k h v b src d
    by (simp_all add: updated_hook_def triggered_hook_def fresh_hook_def Let_def)
  show "rh_ProjectID hook = pid \<Longrightarrow> rest pid (snd (CreateReleaseHook now hook s)) = rest pid s"
    by (auto simp: CreateReleaseHook_def Let_def kept dest!: same split: sum.split prod.split intro!: rest_away elim!: away_pairs)
  show "rh_ProjectID hook = pid \<Longrightarrow> rest pid (snd (UpdateReleaseHook now hook s)) = rest pid s"
    by (auto simp: UpdateReleaseHook_def is_hook_def kept dest!: same split: sum.split prod.split intro!: rest_away elim!: away_pairs)
  show "rest pid (snd (DeleteReleaseHook t pid i s)) = rest pid s"
    by (auto simp: DeleteReleaseHook_def is_hook_def Let_def split: prod.split intro!: rest_away elim!: away_pairs)
  show "rest pid (snd (QueueReleaseHook tx t pid i v b src now s)) = rest pid s"
    by (auto simp: QueueReleaseHook_def is_hook_def Let_def kept simp del: trows_tbl_update split: sum.split
        intro!: rest_away away_update)
  show "rest pid (snd (RecordReleaseHookCancellation now hook s)) = rest pid s"
    by (auto simp: RecordReleaseHookCancellation_def)
qed

lemma rest_nodes [simp]:
  "rest pid (snd (SetDeliveryNodeDesired t pid sid v auto now s)) = rest pid s"
  "rest pid (snd (AdvanceAutoFollowDeliveryNodes t pid v now s)) = rest pid s"
  "rest pid (snd (DeleteDeliveryNode t pid sid s)) = rest pid s"
proof -
  let ?Q = "\<lambda>n. dn_ProjectID n = pid" and ?P = "is_node t pid (trim_space sid)"
  have upd: "away ?Q (snd (tbl_update ?P f tb)) = away ?Q tb" if "\<And>n. dn_ProjectID (f n) = dn_ProjectID n" for f tb
    by (rule away_update) (simp add: is_node_def node_key_def that)
  have keep: "dn_ProjectID (set_desired x c n) = dn_ProjectID n" "dn_ProjectID (n\<lparr>dn_AutoFollow := b, dn_UpdatedAt := c\<rparr>) = dn_ProjectID n"
    for x c n b by (simp_all add: set_desired_def)
  have ins: "away ?Q (snd (tbl_insert c (\<lambda>i r. set_dn_ID i r) nm (default_node t pid x st) tb)) = away ?Q tb" for c nm x st tb
    by (rule away_insert) (simp add: default_node_def)
  show "rest pid (snd (SetDeliveryNodeDesired t pid sid v auto now s)) = rest pid s"
    by (auto simp: SetDeliveryNodeDesired_def Let_def ins upd [OF keep(1)] upd [OF keep(2)] simp del: trows_tbl_update
        split: option.split intro!: rest_away)
  show "rest pid (snd (AdvanceAutoFollowDeliveryNodes t pid v now s)) = rest pid s"
    by (auto simp: AdvanceAutoFollowDeliveryNodes_def split: prod.split intro!: rest_away elim!: away_pairs)
  show "rest pid (snd (DeleteDeliveryNode t pid sid s)) = rest pid s"
    by (auto simp: DeleteDeliveryNode_def is_node_def node_key_def Let_def split: prod.split intro!: rest_away elim!: away_pairs)
qed

text \<open>What triggers by row id rests on: ids name one row.\<close>

lemma rest_queue_selected:
  assumes "\<forall>h\<in>set (trows (st_hooks s)). rh_ID h \<in> rh_ID ` set items \<longrightarrow> rh_ProjectID h = pid"
  shows "rest pid (queue_selected tx t p v b src now items s) = rest pid s"
  using assms
proof (induction items arbitrary: s)
  case (Cons item items)
  let ?f = "triggered_hook v b src (format_time now) (due_at now item)" and ?P = "\<lambda>h. rh_ID h = rh_ID item \<and> rh_Enabled h"
  let ?s1 = "add_event (trigger_event tx t p v src now item) (s\<lparr>st_hooks := snd (tbl_update ?P ?f (st_hooks s))\<rparr>)"
  have kept: "rh_ProjectID (?f h) = rh_ProjectID h" for h by (simp add: triggered_hook_def)
  have "rest pid ?s1 = rest pid s"
    using Cons.prems by (auto simp: kept simp del: trows_tbl_update intro!: rest_away away_update)
  moreover have "\<forall>h\<in>set (trows (st_hooks ?s1)). rh_ID h \<in> rh_ID ` set items \<longrightarrow> rh_ProjectID h = pid"
    using Cons.prems by (auto simp: kept)
  ultimately show ?case using Cons.IH by simp
qed simp

lemma rest_queue_project:
  assumes "tbl_ok rh_ID (st_hooks s)"
  shows "rest pid (snd (QueueProjectReleaseHooks tx t pid v b src now s)) = rest pid s"
proof -
  let ?items = "tbl_select (\<lambda>h. rh_TenantID h = t \<and> rh_ProjectID h = pid \<and> rh_Enabled h) (st_hooks s)"
  have "\<forall>h\<in>set (trows (st_hooks s)). rh_ID h \<in> rh_ID ` set ?items \<longrightarrow> rh_ProjectID h = pid"
    using hook_names.id_unique [OF assms] by (auto simp: tbl_select_def)
  from rest_queue_selected [OF this] show ?thesis by (simp add: QueueProjectReleaseHooks_def Let_def)
qed

definition own_deployment :: "int \<Rightarrow> int \<Rightarrow> store \<Rightarrow> bool" where
  "own_deployment pid i s \<longleftrightarrow> (\<forall>d\<in>set (trows (st_deployments s)). pd_ID d = i \<longrightarrow> pd_ProjectID d = pid)"

lemma rest_mark_running:
  assumes "own_deployment pid i s"
  shows "rest pid (snd (MarkPushDeploymentRunning now i s)) = rest pid s" "own_deployment pid i (snd (MarkPushDeploymentRunning now i s))"
proof -
  show "rest pid (snd (MarkPushDeploymentRunning now i s)) = rest pid s"
    using assms by (auto simp: MarkPushDeploymentRunning_def own_deployment_def split: prod.split intro!: rest_away elim!: away_pairs)
  let ?f = "\<lambda>d. if pd_ID d = i \<and> pd_Status d = ''queued'' then d\<lparr>pd_Status := ''running'', pd_StartedAt := format_time now\<rparr> else d"
  have rows: "trows (st_deployments (snd (MarkPushDeploymentRunning now i s))) = map ?f (trows (st_deployments s))"
    by (simp add: MarkPushDeploymentRunning_def tbl_update_def)
  show "own_deployment pid i (snd (MarkPushDeploymentRunning now i s))" unfolding own_deployment_def rows
  proof (intro ballI impI)
    fix x assume "x \<in> set (map ?f (trows (st_deployments s)))" "pd_ID x = i"
    then obtain d where d: "d \<in> set (trows (st_deployments s))" "x = ?f d" unfolding set_map by (elim imageE)
    have e: "pd_ID x = pd_ID d" "pd_ProjectID x = pd_ProjectID d" unfolding d(2) by simp_all
    have "pd_ID d = i" using \<open>pd_ID x = i\<close> unfolding e(1) .
    with assms d(1) have "pd_ProjectID d = pid" unfolding own_deployment_def by blast
    then show "pd_ProjectID x = pid" unfolding e(2) .
  qed
qed

lemma rest_dry_run:
  assumes "own_deployment pid i s"
  shows "rest pid (completePushDryRun now i s) = rest pid s"
proof -
  obtain x s1 where x: "MarkPushDeploymentRunning now i s = (x, s1)" by fastforce
  have s1: "rest pid s1 = rest pid s" "own_deployment pid i s1" using rest_mark_running [OF assms, of now] x by simp_all
  have mark: "rest pid (fold (\<lambda>t st. snd (MarkPushTarget now (pt_ID t) a b st)) ts s2) = rest pid s2
      \<and> st_deployments (fold (\<lambda>t st. snd (MarkPushTarget now (pt_ID t) a b st)) ts s2) = st_deployments s2" for ts :: "push_target list" and a b s2
    by (induction ts arbitrary: s2) (simp_all add: MarkPushTarget_def rest_away)
  have compl: "rest pid (snd (CompletePushDeployment now i s2)) = rest pid s2" if "own_deployment pid i s2" for s2
    using that by (auto simp: CompletePushDeployment_def Let_def own_deployment_def simp del: trows_tbl_update intro!: rest_away away_update)
  show ?thesis
  proof (cases x)
    case (Inr u)
    show ?thesis
    proof (cases "GetPushDeploymentByID now s1 i")
      case (Inr d)
      let ?s2 = "fold (\<lambda>t st. snd (MarkPushTarget now (pt_ID t) ''success'' ''dry-run: target selected; no SSH connection made'' st)) (pd_Targets d) s1"
      have "own_deployment pid i ?s2" using s1(2) mark by (simp add: own_deployment_def)
      from compl [OF this] mark s1(1) \<open>x = Inr u\<close> Inr x show ?thesis by (simp add: completePushDryRun_def)
    qed (use \<open>x = Inr u\<close> x s1 in \<open>simp add: completePushDryRun_def\<close>)
  qed (use x s1 in \<open>simp add: completePushDryRun_def\<close>)
qed

lemma rest_create_deployment:
  assumes "pd_ProjectID d = pid" "tbl_ok pd_ID (st_deployments s)"
  shows "rest pid (snd (CreatePushDeployment now d targets s)) = rest pid s
    \<and> (\<forall>d'. fst (CreatePushDeployment now d targets s) = Inr d' \<longrightarrow> \<not> pd_Replayed d' \<longrightarrow> own_deployment pid (pd_ID d') (snd (CreatePushDeployment now d targets s)))"
proof -
  have row: "pd_ProjectID (queued_row st d) = pid" for st using assms(1) by (simp add: queued_row_def)
  have old: "\<forall>x\<in>set (trows (st_deployments s)). pd_ID x < tnext (st_deployments s)" using assms(2) by (simp add: tbl_ok_def)
  have tx: "rest pid (snd (CreatePushDeployment_tx now d targets s)) = rest pid s
    \<and> (\<forall>d'. fst (CreatePushDeployment_tx now d targets s) = Inr d' \<longrightarrow> \<not> pd_Replayed d' \<longrightarrow> own_deployment pid (pd_ID d') (snd (CreatePushDeployment_tx now d targets s)))"
  proof (cases "tbl_insert deployment_conflict (\<lambda>i r. set_pd_ID i r) ''push_deployments'' (queued_row (format_time now) d) (st_deployments s)")
    case (Pair y t)
    let ?tasks = "if pd_TaskID d > 0 then snd (tbl_update (is_task (pd_TenantID d) (pd_ProjectID d) (pd_TaskID d))
      (\<lambda>r. r\<lparr>tk_RunCount := tk_RunCount r + 1, tk_LastRunAt := format_time now, tk_UpdatedAt := format_time now\<rparr>) (st_tasks s)) else st_tasks s"
    have tasks: "away (\<lambda>r. tk_ProjectID r = pid) ?tasks = away (\<lambda>r. tk_ProjectID r = pid) (st_tasks s)"
      using assms(1) by (auto simp: is_task_def simp del: trows_tbl_update intro!: away_update)
    have deps: "away (\<lambda>r. pd_ProjectID r = pid) t = away (\<lambda>r. pd_ProjectID r = pid) (st_deployments s)"
      by (rule away_pairs(4) [OF Pair]) (simp add: row)
    show ?thesis
    proof (cases y)
      case (Inl e)
      with Pair show ?thesis by (auto simp: CreatePushDeployment_tx_def Let_def split: sum.split)
    next
      case (Inr i)
      from Pair Inr have "i = tnext (st_deployments s)" "trows t = trows (st_deployments s) @ [set_pd_ID i (queued_row (format_time now) d)]"
        by (auto elim!: tbl_insert_cases)
      then have own: "\<forall>x\<in>set (trows t). pd_ID x = i \<longrightarrow> pd_ProjectID x = pid" using old row by auto
      have "rest pid (s\<lparr>st_deployments := t, st_targets := tg, st_tasks := ?tasks\<rparr>) = rest pid s" for tg
        unfolding rest_def using deps tasks by simp
      with own Pair Inr show ?thesis by (simp add: CreatePushDeployment_tx_def Let_def own_deployment_def)
    qed
  qed
  then show ?thesis by (auto simp: CreatePushDeployment_def split: sum.split)
qed

lemma rest_create_push:
  assumes "tbl_ok pd_ID (st_deployments s)"
  shows "rest pid (snd (createPushDeployment env json now t pid pn user req taskID taskName s)) = rest pid s"
proof -
  have "rest pid s1 = rest pid s \<and> (\<forall>d'. x = Inr d' \<longrightarrow> \<not> pd_Replayed d' \<longrightarrow> rest pid (completePushDryRun now (pd_ID d') s1) = rest pid s)"
    if "CreatePushDeployment now d targets s = (x, s1)" "pd_ProjectID d = pid" for d targets x s1
    using rest_create_deployment [OF that(2) assms, of now targets] that(1) rest_dry_run by simp
  then show ?thesis by (auto simp: createPushDeployment_def Let_def split: sum.split prod.split)
qed

section \<open>Handlers\<close>

text \<open>A handler step that leaves the rest of the store at \<open>A\<close>; one rule for each way the handlers are put together.\<close>

definition stays :: "int \<Rightarrow> _ \<Rightarrow> 'a \<times> api_state \<Rightarrow> bool" where
  "stays pid A p \<longleftrightarrow> rest pid (ap_store (snd p)) = A"

lemma rest_requests [simp]:
  "rest pid (ap_store (web_audit env now r a d st)) = rest pid (ap_store st)"
  "rest pid (ap_store (snd (web_session env now r st))) = rest pid (ap_store st)"
  "rest pid (ap_store (snd (projectByID env now r pid' st))) = rest pid (ap_store st)"
  by (rule rest_core, simp)+

lemma rest_on_store [simp]: "rest pid (ap_store (snd (on_store_res f st))) = rest pid (snd (f (ap_store st)))"
  by (simp add: on_store_res_def split: prod.split)

lemma rest_server_file [simp]: "rest pid (ap_store (snd (getServerFile yaml t st))) = rest pid (ap_store st)"
proof -
  have "rest pid (snd (ServerYAMLPath t s)) = rest pid s" for s
    by (rule rest_tables) (auto simp: ServerYAMLPath_def Let_def split: sum.split)
  with loadServerFile_pair(2) [of yaml t "ap_store st"] show ?thesis
    by (cases "loadServerFile yaml t (ap_store st)") (auto simp: getServerFile_def split: option.split)
qed

lemma frame_return: "rest pid (ap_store st) = A \<Longrightarrow> stays pid A (x, st)"
  by (simp add: stays_def)

lemma frame_bind:
  fixes p :: "'x \<times> api_state"
  shows "rest pid (ap_store (snd p)) = A \<Longrightarrow> (\<And>x st. rest pid (ap_store st) = A \<Longrightarrow> stays pid A (g x st)) \<Longrightarrow> stays pid A (case_prod g p)"
  by (cases p) simp

lemma frame_store:
  fixes p :: "'x \<times> store"
  shows "rest pid (snd p) = A \<Longrightarrow> (\<And>x s. rest pid s = A \<Longrightarrow> stays pid A (g x s)) \<Longrightarrow> stays pid A (case_prod g p)"
  by (cases p) simp

lemma frame_cases:
  "(\<And>a b. stays pid A (g a b)) \<Longrightarrow> stays pid A (case_prod g q)"
  "(\<And>e. stays pid A (g1 e)) \<Longrightarrow> (\<And>x. stays pid A (g2 x)) \<Longrightarrow> stays pid A (case_sum g1 g2 y)"
  "stays pid A p1 \<Longrightarrow> (\<And>x. stays pid A (g2 x)) \<Longrightarrow> stays pid A (case_option p1 g2 o')"
  "stays pid A p1 \<Longrightarrow> stays pid A p2 \<Longrightarrow> stays pid A (if b then p1 else p2)"
  "stays pid A (h v) \<Longrightarrow> stays pid A (Let v h)"
  by (cases q, simp, cases y, simp_all, cases o', simp_all)

lemma frame_audited: "stays pid A p \<Longrightarrow> stays pid A (audited env now r a d p)"
  by (auto simp: stays_def audited_def split: prod.split sum.split)

lemma frame_op: "rest pid (snd (f (ap_store st))) = A \<Longrightarrow> stays pid A (on_store_res f st)"
  by (simp add: stays_def)

lemma ctx_project: "projectCtxFromRequest s sess pid = Some pc \<Longrightarrow> pc_ProjectID pc = pid"
  by (auto simp: projectCtxFromRequest_def Let_def split: option.splits prod.splits sum.splits if_splits)

lemma frame_project:
  assumes "rest pid (ap_store st) = A"
    and "\<And>pc x. pc_ProjectID pc = pid \<Longrightarrow> rest pid (ap_store x) = A \<Longrightarrow> core (ap_store x) = core (ap_store st) \<Longrightarrow> stays pid A (f pc x)"
  shows "stays pid A (with_project env now r pid f st)"
proof -
  obtain c x where c: "projectByID env now r pid st = (c, x)" by fastforce
  have x: "rest pid (ap_store x) = A" "core (ap_store x) = core (ap_store st)"
    using assms(1) rest_requests(3) [of pid env now r pid st] core_project [of env now r pid st] c by simp_all
  show ?thesis
  proof (cases c)
    case (Some pc)
    have "pc_ProjectID pc = pid"
      using project_of_session [of env now r pid st pc] ctx_project c Some by auto
    with assms(2) x c Some show ?thesis by (simp add: with_project_def)
  qed (use c x in \<open>simp add: with_project_def frame_return\<close>)
qed

lemma frame_writer:
  assumes "rest pid (ap_store st) = A"
    and "\<And>pc x. pc_ProjectID pc = pid \<Longrightarrow> rest pid (ap_store x) = A \<Longrightarrow> core (ap_store x) = core (ap_store st) \<Longrightarrow> stays pid A (f pc x)"
  shows "stays pid A (with_writer env now r pid f st)"
  unfolding with_writer_def by (rule frame_project [OF assms(1)]) (simp add: assms(2) frame_return)

lemma frame_draft:
  assumes "rest pid (ap_store st) = A"
    and "\<And>pc x. pc_ProjectID pc = pid \<Longrightarrow> rest pid (ap_store x) = A \<Longrightarrow> core (ap_store x) = core (ap_store st) \<Longrightarrow> stays pid A (f pc x)"
  shows "stays pid A (with_draft env now r pid v f st)"
  unfolding with_draft_def by (rule frame_project [OF assms(1)]) (simp add: assms(2) frame_return split: sum.split)

lemmas frames = frame_return frame_project frame_writer frame_draft frame_audited frame_op frame_bind frame_store frame_cases

lemma rest_files [simp]:
  "rest pid (snd (DeleteVersionFile sha t pn v rel s)) = rest pid s" "rest pid (snd (SetVersionFileTags now t pn v rel tags s)) = rest pid s"
  "rest pid (snd (ClearVersionFileTags t pn v rel s)) = rest pid s"
  "rest pid (snd (BatchUpdateVersionFileTags glob now t pn v paths pats tags mode s)) = rest pid s"
  by (rule rest_tables, simp)+

lemma stays_members:
  "stays pid (rest pid (ap_store st)) (handleCreateProjectInvite env now token r pid body st)"
  "stays pid (rest pid (ap_store st)) (handleListProjectInvites env now r pid st)"
  "stays pid (rest pid (ap_store st)) (handleRemoveProjectMember env now r pid uid st)"
  unfolding handleCreateProjectInvite_def handleListProjectInvites_def handleRemoveProjectMember_def
  by ((rule frames | simp)+)

lemma stays_versions:
  "stays pid (rest pid (ap_store st)) (handlePutProjectVersionRetention env now r pid n st)"
  "stays pid (rest pid (ap_store st)) (handleCreateVersion env now r pid bc st)"
  "stays pid (rest pid (ap_store st)) (handlePutVersionVCS env now r pid ver bv st)"
  "stays pid (rest pid (ap_store st)) (handleSubmitReview env now r pid ver st)"
  "stays pid (rest pid (ap_store st)) (handleRejectReview env now r pid ver st)"
  "stays pid (rest pid (ap_store st)) (handleDeleteVersion env now r pid ver confirm st)"
  unfolding handlePutProjectVersionRetention_def handleCreateVersion_def handlePutVersionVCS_def handleSubmitReview_def
    handleRejectReview_def handleDeleteVersion_def
  by ((rule frames | simp)+)

lemma stays_files:
  "stays pid (rest pid (ap_store st)) (handleDeleteVersionFile env now r pid ver rel st)"
  "stays pid (rest pid (ap_store st)) (handlePutVersionFileTags env now r pid ver bp st)"
  "stays pid (rest pid (ap_store st)) (handleDeleteVersionFileTags env now r pid ver rel st)"
  "stays pid (rest pid (ap_store st)) (handleBatchVersionFileTags env now r pid ver bb st)"
  unfolding handleDeleteVersionFile_def handlePutVersionFileTags_def handleDeleteVersionFileTags_def handleBatchVersionFileTags_def
  by ((rule frames | simp)+)

lemma stays_tasks:
  "stays pid (rest pid (ap_store st)) (handleCreatePushTask env now r pid bc st)"
  "stays pid (rest pid (ap_store st)) (handleUpdatePushTask env now r pid i bc st)"
  "stays pid (rest pid (ap_store st)) (handleDeletePushTask env now r pid i st)"
  unfolding handleCreatePushTask_def handleUpdatePushTask_def handleDeletePushTask_def
  by ((rule frames | simp add: request_task_def)+)

lemma stays_hooks:
  "stays pid (rest pid (ap_store st)) (handleCreateReleaseHook env now r pid bh st)"
  "stays pid (rest pid (ap_store st)) (handleUpdateReleaseHook env now r pid i bh st)"
  "stays pid (rest pid (ap_store st)) (handleDeleteReleaseHook env now r pid i st)"
  "stays pid (rest pid (ap_store st)) (handleTriggerReleaseHook env now r pid i bt st)"
  unfolding handleCreateReleaseHook_def handleUpdateReleaseHook_def handleDeleteReleaseHook_def handleTriggerReleaseHook_def
  by ((rule frames | simp add: request_hook_def)+)

lemma stays_nodes:
  "stays pid (rest pid (ap_store st)) (handleSetDeliveryNodeDesired env now r pid sid bd st)"
  "stays pid (rest pid (ap_store st)) (handleDeleteDeliveryNode env now r pid sid st)"
  unfolding handleSetDeliveryNodeDesired_def handleDeleteDeliveryNode_def
  by ((rule frames | simp)+)

lemma stays_create_push:
  assumes "pc_ProjectID pc = pid" "tbl_ok pd_ID (st_deployments (ap_store st))"
  shows "stays pid (rest pid (ap_store st)) (create_push env now r pc req taskID taskName st)"
proof -
  obtain sess st1 where s1: "dl_session env now r st = (sess, st1)" by fastforce
  have same: "rest pid (ap_store st1) = rest pid (ap_store st)" "tbl_ok pd_ID (st_deployments (ap_store st1))"
    using rest_requests(2) [of pid "dl_web env" now r st] core_tables(10) [OF core_session [of "we_auth (dl_web env)" now r st]] s1 assms(2)
    by simp_all
  have "stays pid (rest pid (ap_store st)) (on_store_res (createPushDeployment (dl_push env) (dl_json env) now t pid pn u req taskID taskName) st1)" for t pn u
    by (rule frame_op) (simp add: rest_create_push [OF same(2)] same(1))
  then have op: "rest pid (ap_store (snd (on_store_res (createPushDeployment (dl_push env) (dl_json env) now t pid pn u req taskID taskName) st1)))
      = rest pid (ap_store st)" for t pn u by (simp add: stays_def)
  show ?thesis unfolding create_push_def Let_def assms(1) s1 prod.case
    by (rule frame_cases(2), rule frame_return, rule refl, rule frame_cases(1), rule frame_bind, rule op, (rule frames | simp)+)
qed

lemma stays_deployments:
  assumes "tbl_ok pd_ID (st_deployments (ap_store st))"
  shows "stays pid (rest pid (ap_store st)) (handleCreatePushDeployment env now header r pid body st)"
    "stays pid (rest pid (ap_store st)) (handleRunPushTask env now header r pid i bt st)"
proof -
  have push: "stays pid (rest pid (ap_store st)) (create_push env now r pc req taskID taskName x)"
    if "pc_ProjectID pc = pid" "rest pid (ap_store x) = rest pid (ap_store st)" "core (ap_store x) = core (ap_store st)"
    for pc req taskID taskName x
    using stays_create_push [OF that(1), of x] core_tables(10) [OF that(3)] assms that(2) by simp
  show "stays pid (rest pid (ap_store st)) (handleCreatePushDeployment env now header r pid body st)"
    unfolding handleCreatePushDeployment_def
    by (rule frame_project, rule refl) ((rule push frame_return frame_cases | assumption)+)
  show "stays pid (rest pid (ap_store st)) (handleRunPushTask env now header r pid i bt st)"
    unfolding handleRunPushTask_def
    by (rule frame_project, rule refl) ((rule push frame_return frame_cases | assumption)+)
qed

lemma stays_after_publish:
  assumes "tbl_ok rh_ID (st_hooks (ap_store st))"
  shows "stays pid (rest pid (ap_store st)) (after_publish env now r pid ver pc replay st)"
proof -
  obtain sess st1 where s1: "web_session env now r st = (sess, st1)" by fastforce
  have same: "rest pid (ap_store st1) = rest pid (ap_store st)" "tbl_ok rh_ID (st_hooks (ap_store st1))"
    using rest_requests(2) [of pid env now r st] core_tables(6) [OF core_session [of "we_auth env" now r st]] s1 assms by simp_all
  have op: "rest pid (ap_store (snd (on_store_res (QueueProjectReleaseHooks (we_stamp env) t pid ver u src now) st1))) = rest pid (ap_store st)"
    for t u src by (simp add: rest_queue_project [OF same(2)] same(1))
  show ?thesis unfolding after_publish_def Let_def s1 prod.case
    by (rule frame_bind, rule op, (rule frames | simp)+)
qed

lemma stays_publish_new: "stays pid (rest pid (ap_store st)) (publish_new env now r pid ver pc st)"
  unfolding publish_new_def by ((rule frames | simp)+)

lemma stays_publish:
  assumes "tbl_ok rh_ID (st_hooks (ap_store st))"
  shows "stays pid (rest pid (ap_store st)) (handlePublishVersion env now r pid ver st)"
  unfolding handlePublishVersion_def
proof (rule frame_writer, rule refl)
  fix pc :: project_ctx and x :: api_state assume x: "rest pid (ap_store x) = rest pid (ap_store st)" "core (ap_store x) = core (ap_store st)"
  have ok: "tbl_ok rh_ID (st_hooks (ap_store x))" using core_tables(6) [OF x(2)] assms by simp
  obtain y x1 where y: "publish_new env now r pid ver pc x = (y, x1)" by fastforce
  have "st_hooks (ap_store x1) = st_hooks (ap_store x)"
    using delivery_publish_new [of env now r pid ver pc x] y by (simp add: delivery_def)
  moreover have "rest pid (ap_store x1) = rest pid (ap_store x)"
    using stays_publish_new [of pid x env now r ver pc] y by (simp add: stays_def)
  ultimately show "stays pid (rest pid (ap_store st)) (case GetVersion (ap_store x) pid ver of Inl _ \<Rightarrow> (Inl (ErrMsg ''version not found''), x)
      | Inr v \<Rightarrow> if v_Status v = ''published'' then after_publish env now r pid ver pc True x
        else (case publish_new env now r pid ver pc x of (Inl e, st1) \<Rightarrow> (Inl e, st1)
              | (Inr _, st1) \<Rightarrow> after_publish env now r pid ver pc False st1))"
    using stays_after_publish [of x pid env now r ver pc] stays_after_publish [of x1 pid env now r ver pc] ok x(1)
    by (auto simp: y frame_return split: sum.split)
qed

lemma rest_upload [simp]: "rest pid (ps_store (recordUploadEvent env now r pc v k b f d e w)) = rest pid (ps_store w)"
  using rest_requests(2) [of pid env now r "ps_api w"]
  by (cases "web_session env now r (ps_api w)") (simp add: recordUploadEvent_def)

lemma rest_extract_upload: "rest pid (snd (extract_upload env now kind t pn ver data s)) = rest pid s"
proof -
  have "rest pid s1 = rest pid s" if "ExtractZipToVersion (we_sha env) now t pn ver fs s = (x, s1)" for fs x s1
    using rest_tables [OF tables_uploads(1)] that by (metis snd_conv)
  moreover have "rest pid s1 = rest pid s" if "ExtractTarToVersion (we_sha env) now t pn ver fs s = (x, s1)" for fs x s1
    using rest_tables [OF tables_uploads(2)] that by (metis snd_conv)
  ultimately show ?thesis by (auto simp: extract_upload_def split: option.split prod.split sum.split)
qed

lemma rest_upload_steps:
  "rest pid (ps_store (snd (upload_archive env now r pc ver kind rel data tags w))) = rest pid (ps_store w)"
  "rest pid (ps_store (snd (upload_file env now r pc ver rel data tags w))) = rest pid (ps_store w)"
proof -
  have tag: "rest pid (tag_all now t pn ver tags paths s) = rest pid s" for t pn paths s by (rule rest_tables) simp
  have "rest pid s1 = rest pid (ps_store w)"
    if "extract_upload env now kind t pn ver data (ps_store w) = (x, s1)" for t pn x s1
    using rest_extract_upload that by (metis snd_conv)
  then show "rest pid (ps_store (snd (upload_archive env now r pc ver kind rel data tags w))) = rest pid (ps_store w)"
    by (auto simp: upload_archive_def Let_def on_api_def tag split: prod.split sum.split)
  have "rest pid s1 = rest pid (ps_store w)"
    if "WriteVersionFile (we_sha env) now t pn ver rel data (ps_store w) = (x, s1)" for t pn x s1
    using rest_tables [OF tables_WriteVersionFile] that by (metis snd_conv)
  then show "rest pid (ps_store (snd (upload_file env now r pc ver rel data tags w))) = rest pid (ps_store w)"
    by (auto simp: upload_file_def Let_def on_api_def tag split: prod.split sum.split)
qed

lemma rest_handle_upload: "rest pid (ps_store (snd (handleUploadFile env now r pid ver body w))) = rest pid (ps_store w)"
proof -
  obtain c st1 where c: "projectByID env now r pid (ps_api w) = (c, st1)" by fastforce
  have "rest pid (ap_store st1) = rest pid (ps_store w)" using rest_requests(3) [of pid env now r pid "ps_api w"] c by simp
  then show ?thesis
    by (auto simp: handleUploadFile_def c Let_def rest_upload_steps split: option.split sum.split)
qed

lemma rest_answer: "rest pid (ps_store (snd (answer x w))) = rest pid (ap_store (snd x))"
  by (cases x) (auto simp: answer_def split: sum.split)

lemma rest_project_handler:
  assumes "tbl_ok rh_ID (st_hooks (ps_store w))" "tbl_ok pd_ID (st_deployments (ps_store w))"
  shows "rest pid (ps_store (snd (project_handler env now token header r pid w route))) = rest pid (ps_store w)"
proof (cases route)
  case (UploadRoute ver body)
  with rest_handle_upload [of pid "dl_web env" now r ver body w] show ?thesis by (auto split: prod.split sum.split)
next
  case DeleteDeploymentRoute
  then show ?thesis by (simp add: rest_answer)
qed (use stays_members stays_versions stays_files stays_tasks stays_hooks stays_nodes stays_deployments [OF assms(2)]
      stays_publish [OF assms(1)] in \<open>simp add: rest_answer stays_def\<close>)+

text \<open>
  C9: projects do not interfere: whatever a request to change one project answers and whatever it does, the rows of every
  other project (its versions, members, invitations, tasks, hooks, pull nodes and deployments) and all users, tenants, hosts
  and bindings are as before, given that the ids of hooks and of deployments are unique.  (Files are not compared.)
\<close>

theorem project_isolation:
  assumes "serve_project env now token header r pid route w = (reply, w')"
    and "tbl_ok rh_ID (st_hooks (ps_store w))" "tbl_ok pd_ID (st_deployments (ps_store w))"
  shows "rest pid (ps_store w') = rest pid (ps_store w)"
proof -
  let ?we = "dl_web env" and ?st = "ps_api w"
  obtain g st1 where g: "requireLogin (we_auth ?we) now r ?st = (g, st1)" by fastforce
  obtain m st2 where m: "mutator_gate ?we now r (route_method route) st1 = (m, st2)" by fastforce
  obtain x st3 where x: "writer_gate ?we now r pid st2 = (x, st3)" by fastforce
  have c: "core (ap_store st1) = core (ap_store ?st)" "core (ap_store st2) = core (ap_store ?st)" "core (ap_store st3) = core (ap_store ?st)"
    using core_login [of "we_auth ?we" now r ?st] core_mutator [of ?we now r "route_method route" st1]
      core_writer [of ?we now r pid st2] g m x by simp_all
  note same = rest_core [OF c(1), of pid] rest_core [OF c(2), of pid] rest_core [OF c(3), of pid]
  have ids: "tbl_ok rh_ID (st_hooks (ap_store st3))" "tbl_ok pd_ID (st_deployments (ap_store st3))"
    using assms(2,3) core_tables(6,10) [OF c(3)] by simp_all
  have "rest pid (ps_store (snd (project_handler env now token header r pid (w\<lparr>ps_api := st3\<rparr>) route))) = rest pid (ap_store st3)"
    using rest_project_handler [of "w\<lparr>ps_api := st3\<rparr>" pid env now token header r route] ids by simp
  with same have "rest pid (ps_store (snd (serve_project env now token header r pid route w))) = rest pid (ps_store w)"
    by (auto simp: serve_project_def g m x split: gate.split access.split)
  with assms(1) show ?thesis by simp
qed

lemma project_isolation_witness:
  "rest 1 (ps_store (snd (serve_project sample_delivery_env 0 [] [] sample_request 1 (PublishRoute ''1.0.0'') sample_site)))
     = rest 1 (ps_store sample_site)"
proof -
  have "tbl_ok rh_ID (st_hooks (ps_store sample_site))" "tbl_ok pd_ID (st_deployments (ps_store sample_site))"
    by (simp_all add: tbl_ok_def sample_site_def sample_fleet_def sample_release_store_def sample_release_def sample_draft_def empty_store_def
        sample_hook_def run_hook_of_def empty_table_def)
  from project_isolation [OF prod.collapse [symmetric] this] show ?thesis .
qed

end
