(* ===== verification/Flags.thy ===== *)
theory Flags
  imports Store
begin

text \<open>
  The command lines of the two programs: what \<open>cmd/express233-server/main.go\<close> and \<open>cmd/express233-cli/main.go\<close> use of Go's
  package flag (\<open>FlagSet.Parse\<close>) and of \<open>strconv\<close> for the values of its flags.  A flag set is the list of its flags with
  their kinds; parsing gives the assignments in the order of the command line and the arguments that follow the flags.
\<close>

section \<open>Values\<close>

datatype flag_kind = StringFlag | BoolFlag | IntFlag

definition parse_bool :: "string \<Rightarrow> bool option" where
  "parse_bool s =
     (if s \<in> set [''1'', ''t'', ''T'', ''true'', ''TRUE'', ''True''] then Some True
      else if s \<in> set [''0'', ''f'', ''F'', ''false'', ''FALSE'', ''False''] then Some False
      else None)"

text \<open>\<open>strconv.Atoi\<close>: digits with an optional sign, within 64 bits.\<close>

definition atoi :: "string \<Rightarrow> int option" where
  "atoi s =
     (let neg = (case s of [] \<Rightarrow> False | c # _ \<Rightarrow> c = CHR ''-'');
          ds = (case s of [] \<Rightarrow> [] | c # t \<Rightarrow> if c = CHR ''-'' \<or> c = CHR ''+'' then t else s)
      in if ds \<noteq> [] \<and> list_all is_digit ds \<and> int (read_nat ds) \<le> (if neg then max_int64 + 1 else max_int64)
         then Some (if neg then - int (read_nat ds) else int (read_nat ds)) else None)"

lemma atoi_show_nat: "int n \<le> max_int64 \<Longrightarrow> atoi (show_nat n) = Some (int n)"
proof -
  assume n: "int n \<le> max_int64"
  obtain c t where c: "show_nat n = c # t" by (cases "show_nat n") simp_all
  have "is_digit c" using show_nat_digits [of c n] c by simp
  then have "c \<noteq> CHR ''-'' \<and> c \<noteq> CHR ''+''" by (auto simp: is_digit_def)
  moreover have "list_all is_digit (show_nat n)" using show_nat_digits by (auto simp: list_all_iff)
  ultimately show ?thesis using n read_show_nat [of n] c by (simp add: atoi_def Let_def)
qed

text \<open>\<open>strconv.ParseInt\<close> with base 0: the prefix gives the base, and underscores may separate digits.\<close>

definition digit_of :: "char \<Rightarrow> nat option" where
  "digit_of c =
     (if is_digit c then Some (of_char c - 48)
      else if is_lower c then Some (of_char c - 87)
      else if is_upper c then Some (of_char c - 55)
      else None)"

fun read_base :: "nat \<Rightarrow> nat \<Rightarrow> string \<Rightarrow> nat option" where
  "read_base b n [] = Some n"
| "read_base b n (c # s) =
     (if c = CHR ''_'' then read_base b n s
      else case digit_of c of None \<Rightarrow> None | Some d \<Rightarrow> if d \<ge> b then None else read_base b (n * b + d) s)"

fun underscores_ok :: "bool \<Rightarrow> char \<Rightarrow> string \<Rightarrow> bool" where
  "underscores_ok hex i [] = (i \<noteq> CHR ''_'')"
| "underscores_ok hex i (c # s) =
     (if is_digit c \<or> (hex \<and> (case digit_of c of None \<Rightarrow> False | Some d \<Rightarrow> d < 16)) then underscores_ok hex (CHR ''0'') s
      else if c = CHR ''_'' then i = CHR ''0'' \<and> underscores_ok hex c s
      else i \<noteq> CHR ''_'' \<and> underscores_ok hex (CHR ''!'') s)"

definition base_prefix :: "string \<Rightarrow> nat option" where
  "base_prefix s =
     (case s of a # c # _ \<Rightarrow> if a \<noteq> CHR ''0'' then None
        else if lower_char c = CHR ''b'' then Some 2 else if lower_char c = CHR ''o'' then Some 8
        else if lower_char c = CHR ''x'' then Some 16 else None
      | _ \<Rightarrow> None)"

definition parse_uint :: "string \<Rightarrow> nat option" where
  "parse_uint s =
     (if s = [] then None
      else let (b, ds) = (if has_prefix s ''0'' then
                            (case base_prefix s of Some b \<Rightarrow> if length s \<ge> 3 then (b, drop 2 s) else (8, drop 1 s) | None \<Rightarrow> (8, drop 1 s))
                          else (10, s));
               ok = (CHR ''_'' \<notin> set ds \<or>
                      (case base_prefix s of Some b' \<Rightarrow> underscores_ok (b' = 16) (CHR ''0'') (drop 2 s)
                       | None \<Rightarrow> underscores_ok False (CHR ''^'') s))
           in if ok then read_base b 0 ds else None)"

definition parse_int :: "string \<Rightarrow> int option" where
  "parse_int s =
     (let neg = has_prefix s ''-'';
          u = (if neg \<or> has_prefix s ''+'' then drop 1 s else s)
      in case parse_uint u of None \<Rightarrow> None
         | Some n \<Rightarrow> if neg then (if int n \<le> max_int64 + 1 then Some (- int n) else None)
                    else if int n \<le> max_int64 then Some (int n) else None)"

section \<open>Parsing\<close>

text \<open>The name and the value of an argument that starts with a dash.\<close>

definition flag_name :: "string \<Rightarrow> (string \<times> string option) option" where
  "flag_name s =
     (let name = (if has_prefix s ''--'' then drop 2 s else drop 1 s)
      in if name = [] \<or> has_prefix name ''-'' \<or> has_prefix name ''='' then None
         else case cut ''='' name of None \<Rightarrow> Some (name, None) | Some (n, v) \<Rightarrow> Some (n, Some v))"

definition flag_value :: "flag_kind \<Rightarrow> string option \<Rightarrow> string list \<Rightarrow> (string \<times> nat) res" where
  "flag_value kind given args =
     (if kind = BoolFlag then
        (let v = (case given of None \<Rightarrow> ''true'' | Some v \<Rightarrow> v)
         in if parse_bool v = None then Inl (ErrMsg ''invalid boolean value'') else Inr (v, 0))
      else case (case given of Some v \<Rightarrow> Some (v, 0) | None \<Rightarrow> (case args of [] \<Rightarrow> None | a # _ \<Rightarrow> Some (a, 1))) of
          None \<Rightarrow> Inl (ErrMsg ''flag needs an argument'')
        | Some (v, n) \<Rightarrow> if kind = IntFlag \<and> parse_int v = None then Inl (ErrMsg ''invalid value'') else Inr (v, n))"

type_synonym flag_spec = "(string \<times> flag_kind) list"
type_synonym flag_args = "(string \<times> string) list \<times> string list"

fun parse_flags :: "flag_spec \<Rightarrow> string list \<Rightarrow> flag_args res" where
  "parse_flags spec [] = Inr ([], [])"
| "parse_flags spec (s # args) =
     (if length s < 2 \<or> \<not> has_prefix s ''-'' then Inr ([], s # args)
      else if s = ''--'' then Inr ([], args)
      else case flag_name s of
          None \<Rightarrow> Inl (ErrMsg ''bad flag syntax'')
        | Some (name, given) \<Rightarrow>
            (case map_of spec name of
               None \<Rightarrow> Inl (ErrMsg (if name = ''help'' \<or> name = ''h'' then ''flag: help requested'' else ''flag provided but not defined''))
             | Some kind \<Rightarrow>
                 (case flag_value kind given args of
                    Inl e \<Rightarrow> Inl e
                  | Inr (v, n) \<Rightarrow>
                      (case parse_flags spec (drop n args) of
                         Inl e \<Rightarrow> Inl e
                       | Inr (vs, rest) \<Rightarrow> Inr ((name, v) # vs, rest)))))"

definition flag_given :: "flag_args \<Rightarrow> string \<Rightarrow> bool" where
  "flag_given fa name = (name \<in> set (map fst (fst fa)))"

text \<open>The last assignment of a flag counts; a flag that may be repeated collects all of them.\<close>

definition flag_string :: "flag_args \<Rightarrow> string \<Rightarrow> string \<Rightarrow> string" where
  "flag_string fa name d = (case map_of (rev (fst fa)) name of None \<Rightarrow> d | Some v \<Rightarrow> v)"

definition flag_all :: "flag_args \<Rightarrow> string \<Rightarrow> string list" where
  "flag_all fa name = map snd (filter (\<lambda>(n, _). n = name) (fst fa))"

definition flag_bool :: "flag_args \<Rightarrow> string \<Rightarrow> bool \<Rightarrow> bool" where
  "flag_bool fa name d =
     (case map_of (rev (fst fa)) name of None \<Rightarrow> d | Some v \<Rightarrow> (case parse_bool v of None \<Rightarrow> d | Some b \<Rightarrow> b))"

definition flag_int :: "flag_args \<Rightarrow> string \<Rightarrow> int \<Rightarrow> int" where
  "flag_int fa name d =
     (case map_of (rev (fst fa)) name of None \<Rightarrow> d | Some v \<Rightarrow> (case parse_int v of None \<Rightarrow> d | Some i \<Rightarrow> i))"

section \<open>Arguments that are written as flag and value\<close>

definition flag_ident :: "string \<Rightarrow> bool" where
  "flag_ident n \<longleftrightarrow> n \<noteq> [] \<and> CHR ''-'' \<notin> set n \<and> CHR ''='' \<notin> set n"

lemma flag_name_ident: "flag_ident n \<Longrightarrow> flag_name (CHR ''-'' # n) = Some (n, None)"
proof -
  assume n: "flag_ident n"
  then obtain c t where c: "n = c # t" "c \<noteq> CHR ''-''" "c \<noteq> CHR ''=''" by (cases n) (auto simp: flag_ident_def)
  have "\<not> contains n ''=''" using n by (fastforce simp: contains_iff flag_ident_def)
  then have "cut ''='' n = None" by (simp add: cut_None_iff)
  with c show ?thesis by (simp add: flag_name_def has_prefix_def)
qed

text \<open>A flag that takes a value takes the argument after it, whatever that is.\<close>

lemma parse_pair:
  assumes "flag_ident n" "map_of spec n = Some StringFlag"
  shows "parse_flags spec ((CHR ''-'' # n) # v # args) =
     (case parse_flags spec args of Inl e \<Rightarrow> Inl e | Inr (vs, rest) \<Rightarrow> Inr ((n, v) # vs, rest))"
proof -
  have "CHR ''-'' # n \<noteq> ''--''" "n \<noteq> []" using assms(1) by (auto simp: flag_ident_def)
  with assms(2) flag_name_ident [OF assms(1)] show ?thesis by (simp add: has_prefix_def flag_value_def)
qed

lemma parse_pairs:
  "\<forall>(n, v)\<in>set ps. flag_ident n \<and> map_of spec n = Some StringFlag \<Longrightarrow>
   parse_flags spec (concat (map (\<lambda>(n, v). [CHR ''-'' # n, v]) ps) @ args) =
     (case parse_flags spec args of Inl e \<Rightarrow> Inl e | Inr (vs, rest) \<Rightarrow> Inr (ps @ vs, rest))"
proof (induction ps)
  case Nil
  show ?case by (cases "parse_flags spec args") (auto split: prod.splits)
next
  case (Cons p ps)
  obtain n v where p: "p = (n, v)" by fastforce
  with Cons.prems have n: "flag_ident n" "map_of spec n = Some StringFlag"
    and ps: "\<forall>(n, v)\<in>set ps. flag_ident n \<and> map_of spec n = Some StringFlag" by auto
  show ?case
    using parse_pair [OF n, of v "concat (map (\<lambda>(n, v). [CHR ''-'' # n, v]) ps) @ args"] Cons.IH [OF ps]
    by (cases "parse_flags spec args") (auto simp: p simp del: parse_flags.simps)
qed

end
