(* ===== verification/LogFiles.thy ===== *)
theory LogFiles
  imports Flags "HOL-Library.Sublist"
begin

text \<open>
  The server's own log file (\<open>rotatingFileWriter\<close> of \<open>cmd/express233-server/control.go\<close>): it rotates when it would exceed
  its size or a new day begins, keeps numbered backups, and removes backups that are too old.  The files are a map from
  paths to contents and times of modification; \<open>zone\<close> is the offset of the local time in seconds.  Renaming and removing
  are taken to succeed, and the path to have no characters that are special in a glob pattern.
\<close>

section \<open>The writer\<close>

type_synonym log_fs = "(string \<times> (string \<times> go_time)) list"

record rotating_writer =
  rw_path :: string
  rw_open :: bool
  rw_size :: int
  rw_maxSize :: int
  rw_maxBackups :: int
  rw_maxAge :: go_time
  rw_openedDay :: int

definition defaultLogMaxSizeBytes :: int where
  "defaultLogMaxSizeBytes = 10 * 1024 * 1024"

definition defaultLogMaxBackups :: int where
  "defaultLogMaxBackups = 30"

definition defaultLogMaxAge :: go_time where
  "defaultLogMaxAge = 30 * 24 * 3600 * Second"

definition local_day :: "int \<Rightarrow> go_time \<Rightarrow> int" where
  "local_day zone t = (t div Second + zone) div 86400"

definition backup_path :: "string \<Rightarrow> nat \<Rightarrow> string" where
  "backup_path path index = path @ ''.'' @ show_nat index"

definition pruneExpired :: "rotating_writer \<Rightarrow> go_time \<Rightarrow> log_fs \<Rightarrow> log_fs" where
  "pruneExpired w now fs =
     filter (\<lambda>(p, _, modified). \<not> (has_prefix p (rw_path w @ ''.'') \<and> atoi (drop (length (rw_path w) + 1) p) \<noteq> None
        \<and> modified < now - rw_maxAge w)) fs"

fun shift_backups :: "nat \<Rightarrow> string \<Rightarrow> log_fs \<Rightarrow> log_fs" where
  "shift_backups 0 path fs = fs"
| "shift_backups (Suc i) path fs =
     shift_backups i path
       (case map_of fs (backup_path path (Suc i)) of
          None \<Rightarrow> fs
        | Some f \<Rightarrow> al_put (backup_path path (Suc i + 1)) f (al_del (backup_path path (Suc i)) fs))"

definition rotate_files :: "rotating_writer \<Rightarrow> go_time \<Rightarrow> log_fs \<Rightarrow> log_fs" where
  "rotate_files w now fs =
     (let path = rw_path w; first = backup_path path 1;
          fs1 = al_del first (shift_backups (nat (rw_maxBackups w - 1)) path fs);
          fs2 = (case map_of fs1 path of None \<Rightarrow> fs1 | Some f \<Rightarrow> al_put first f (al_del path fs1))
      in al_put path ([], now) fs2)"

definition rotateIfNeeded :: "int \<Rightarrow> go_time \<Rightarrow> int \<Rightarrow> rotating_writer \<Rightarrow> log_fs \<Rightarrow> unit res \<times> rotating_writer \<times> log_fs" where
  "rotateIfNeeded zone now incoming w fs =
     (if \<not> rw_open w then (Inl (ErrMsg ''log writer is closed''), w, fs)
      else if rw_size w + incoming \<le> rw_maxSize w \<and> rw_openedDay w = local_day zone now then (Inr (), w, fs)
      else (let w' = w\<lparr>rw_size := 0, rw_openedDay := local_day zone now\<rparr>
            in (Inr (), w', pruneExpired w' now (rotate_files w now fs))))"

definition rw_write :: "int \<Rightarrow> go_time \<Rightarrow> string \<Rightarrow> rotating_writer \<Rightarrow> log_fs \<Rightarrow> int res \<times> rotating_writer \<times> log_fs" where
  "rw_write zone now p w fs =
     (case rotateIfNeeded zone now (int (length p)) w fs of
        (Inl e, w1, fs1) \<Rightarrow> (Inl e, w1, fs1)
      | (Inr _, w1, fs1) \<Rightarrow>
          (Inr (int (length p)), w1\<lparr>rw_size := rw_size w1 + int (length p)\<rparr>,
           case map_of fs1 (rw_path w1) of
             None \<Rightarrow> fs1 | Some (old, _) \<Rightarrow> al_put (rw_path w1) (old @ p, now) fs1))"

definition rw_close :: "rotating_writer \<Rightarrow> rotating_writer" where
  "rw_close w = w\<lparr>rw_open := False\<rparr>"

definition newRotatingFileWriter :: "int \<Rightarrow> go_time \<Rightarrow> string \<Rightarrow> int \<Rightarrow> int \<Rightarrow> log_fs \<Rightarrow> rotating_writer \<times> log_fs" where
  "newRotatingFileWriter zone now path maxSize maxBackups fs =
     (let file = (case map_of fs path of None \<Rightarrow> ([], now) | Some f \<Rightarrow> f);
          w = \<lparr>rw_path = path, rw_open = True, rw_size = int (length (fst file)),
               rw_maxSize = (if maxSize \<le> 0 then defaultLogMaxSizeBytes else maxSize),
               rw_maxBackups = (if maxBackups \<le> 0 then defaultLogMaxBackups else maxBackups),
               rw_maxAge = defaultLogMaxAge, rw_openedDay = local_day zone (snd file)\<rparr>
      in (w, pruneExpired w now (al_put path file fs)))"

text \<open>A sequence of writes, each with its time.\<close>

fun rw_writes :: "int \<Rightarrow> (go_time \<times> string) list \<Rightarrow> rotating_writer \<Rightarrow> log_fs \<Rightarrow> rotating_writer \<times> log_fs" where
  "rw_writes zone [] w fs = (w, fs)"
| "rw_writes zone ((now, p) # ps) w fs = (case rw_write zone now p w fs of (_, w1, fs1) \<Rightarrow> rw_writes zone ps w1 fs1)"

section \<open>The files in the order they were written\<close>

definition slot :: "string \<Rightarrow> log_fs \<Rightarrow> nat \<Rightarrow> (string \<times> go_time) option" where
  "slot path fs i = map_of fs (if i = 0 then path else backup_path path i)"

definition content :: "(string \<times> go_time) option \<Rightarrow> string" where
  "content f = (case f of None \<Rightarrow> [] | Some (d, _) \<Rightarrow> d)"

fun chain :: "(nat \<Rightarrow> (string \<times> go_time) option) \<Rightarrow> nat \<Rightarrow> string" where
  "chain f 0 = content (f 0)"
| "chain f (Suc n) = content (f (Suc n)) @ chain f n"

text \<open>What the log holds, the oldest backup first.\<close>

definition log_text :: "rotating_writer \<Rightarrow> log_fs \<Rightarrow> string" where
  "log_text w fs = chain (slot (rw_path w) fs) (nat (rw_maxBackups w))"

lemma slot_names [simp]:
  "backup_path path i = backup_path path j \<longleftrightarrow> i = j" "backup_path path i \<noteq> path" "path \<noteq> backup_path path i"
  by (simp_all add: backup_path_def)

lemma slot_put:
  "slot path (al_put (backup_path path (Suc j)) f fs) i = (if i = Suc j then Some f else slot path fs i)"
  "slot path (al_put path f fs) i = (if i = 0 then Some f else slot path fs i)"
  by (auto simp: slot_def)

lemma slot_del:
  "slot path (al_del (backup_path path (Suc j)) fs) i = (if i = Suc j then None else slot path fs i)"
  "slot path (al_del path fs) i = (if i = 0 then None else slot path fs i)"
  by (auto simp: slot_def map_of_al_del)

lemma slot_shift:
  "slot path (shift_backups n path fs) i =
     (if n = 0 \<or> i = 0 \<or> i > Suc n then slot path fs i
      else if i = 1 then None
      else if i = Suc n \<and> slot path fs n = None then slot path fs i
      else slot path fs (i - 1))"
proof (induction n arbitrary: fs)
  case (Suc n)
  let ?fs = "case slot path fs (Suc n) of None \<Rightarrow> fs
    | Some f \<Rightarrow> al_put (backup_path path (Suc (Suc n))) f (al_del (backup_path path (Suc n)) fs)"
  have fs: "shift_backups (Suc n) path fs = shift_backups n path ?fs" by (simp add: slot_def cong: option.case_cong)
  have s: "slot path ?fs j = (if j = Suc (Suc n) \<and> slot path fs (Suc n) \<noteq> None then slot path fs (Suc n)
      else if j = Suc n then None else slot path fs j)" for j
    by (cases "slot path fs (Suc n)") (simp_all add: slot_put slot_del)
  show ?case unfolding fs Suc.IH s by (cases "slot path fs (Suc n)"; cases "i = Suc (Suc n)"; cases n) auto
qed simp

lemma slot_rotate:
  "slot (rw_path w) (rotate_files w now fs) i =
     (if i = 0 then Some ([], now)
      else if i = 1 then slot (rw_path w) fs 0
      else if i > nat (rw_maxBackups w) then slot (rw_path w) fs i
      else if i = nat (rw_maxBackups w) \<and> slot (rw_path w) fs (i - 1) = None then slot (rw_path w) fs i
      else slot (rw_path w) fs (i - 1))"
proof -
  let ?p = "rw_path w" and ?n = "nat (rw_maxBackups w - 1)"
  let ?fs1 = "al_del (backup_path ?p (Suc 0)) (shift_backups ?n ?p fs)"
  have one: "backup_path ?p 1 = backup_path ?p (Suc 0)" by simp
  have live: "map_of ?fs1 ?p = slot ?p fs 0"
    using slot_del(1) [of ?p 0 "shift_backups ?n ?p fs" 0] slot_shift [of ?p ?n fs 0] by (simp add: slot_def)
  have r: "slot ?p (rotate_files w now fs) i = (if i = 0 then Some ([], now) else if i = 1 then slot ?p fs 0 else slot ?p (shift_backups ?n ?p fs) i)"
    unfolding rotate_files_def Let_def one live
    by (cases "slot ?p fs 0") (simp_all add: slot_put slot_del)
  have n: "?n = nat (rw_maxBackups w) - 1" by linarith
  show ?thesis unfolding r slot_shift n by (cases "nat (rw_maxBackups w)"; cases "i = 0"; cases "i = 1") auto
qed

lemma chain_shifted: "(\<forall>i. 1 \<le> i \<longrightarrow> i \<le> Suc n \<longrightarrow> f' i = f (i - 1)) \<Longrightarrow> content (f' 0) = [] \<Longrightarrow> chain f' (Suc n) = chain f n"
  by (induction n) simp_all

lemma chain_rotated:
  assumes "content (f' 0) = []" "f' 1 = f 0" "1 \<le> n"
    and "\<And>i. 2 \<le> i \<Longrightarrow> i \<le> n \<Longrightarrow> f' i = (if i = n \<and> f (i - 1) = None then f i else f (i - 1))"
  shows "suffix (chain f' n) (chain f n)"
proof (cases "n = 1")
  case True
  then show ?thesis using assms(1,2) by (simp add: suffix_def)
next
  case False
  then obtain k where n: "n = Suc (Suc k)" using assms(3) by (metis One_nat_def Suc_le_D le_0_eq not0_implies_Suc)
  have "f' i = f (i - 1)" if "1 \<le> i" "i \<le> Suc k" for i
    using assms(2) assms(4) [of i] that n by (cases "i = 1") auto
  then have tail: "chain f' (Suc k) = chain f k" using chain_shifted assms(1) by blast
  have last: "f' n = (if f (Suc k) = None then f n else f (Suc k))" using assms(4) [of n] n by simp
  show ?thesis
  proof (cases "f (Suc k)")
    case None
    with tail last show ?thesis by (simp add: n content_def)
  next
    case (Some x)
    with tail last show ?thesis by (simp add: n suffix_def)
  qed
qed

lemma chain_pruned:
  assumes "\<And>i. i \<le> n \<Longrightarrow> f' i = f i \<or> f' i = None"
    and "\<And>i j. i < j \<Longrightarrow> j \<le> n \<Longrightarrow> f' i \<noteq> f i \<Longrightarrow> f' j = None"
  shows "suffix (chain f' n) (chain f n) \<and> ((\<forall>i\<le>n. f' i = f i) \<longrightarrow> chain f' n = chain f n)"
  using assms
proof (induction n)
  case (Suc n)
  have ih: "suffix (chain f' n) (chain f n) \<and> ((\<forall>i\<le>n. f' i = f i) \<longrightarrow> chain f' n = chain f n)"
    using Suc.IH Suc.prems by (metis le_Suc_eq)
  show ?case
  proof (cases "f' (Suc n) = None")
    case True
    with ih show ?thesis by (auto simp: content_def suffix_def)
  next
    case False
    then have "\<forall>i\<le>n. f' i = f i" using Suc.prems(2) by (metis le_imp_less_Suc order_refl)
    with ih False Suc.prems(1) [of "Suc n"] show ?thesis by auto
  qed
qed (auto simp: content_def)

lemma map_of_kept: "al_wf m \<Longrightarrow> map_of (filter (\<lambda>(k, v). P k v) m) k = (case map_of m k of None \<Rightarrow> None | Some v \<Rightarrow> if P k v then Some v else None)"
proof (induction m)
  case (Cons kv m)
  obtain k' v' where kv: "kv = (k', v')" by fastforce
  have "map_of m k' = None" using Cons.prems kv by (auto simp: map_of_eq_None_iff)
  with Cons kv show ?case by auto
qed simp

section \<open>Nothing but the oldest text is lost\<close>

definition older :: "(string \<times> go_time) option \<Rightarrow> (string \<times> go_time) option \<Rightarrow> bool" where
  "older g f \<longleftrightarrow> (\<forall>x y. f = Some x \<longrightarrow> g = Some y \<longrightarrow> snd y \<le> snd x)"

text \<open>An open writer whose live file is as long as it believes and whose backups are numbered from young to old.\<close>

definition log_ok :: "go_time \<Rightarrow> rotating_writer \<Rightarrow> log_fs \<Rightarrow> bool" where
  "log_ok t w fs \<longleftrightarrow>
     rw_open w \<and> 1 \<le> rw_maxBackups w \<and> rw_maxBackups w \<le> max_int64 \<and> al_wf fs
     \<and> (\<exists>d m. slot (rw_path w) fs 0 = Some (d, m) \<and> rw_size w = int (length d))
     \<and> (\<forall>i\<le>nat (rw_maxBackups w). \<forall>d m. slot (rw_path w) fs i = Some (d, m) \<longrightarrow> m \<le> t)
     \<and> (\<forall>i j. i < j \<longrightarrow> j \<le> nat (rw_maxBackups w) \<longrightarrow> older (slot (rw_path w) fs j) (slot (rw_path w) fs i))"

lemma wf_rotate: "al_wf fs \<Longrightarrow> al_wf (rotate_files w now fs)"
proof -
  have shift: "al_wf fs \<Longrightarrow> al_wf (shift_backups n path fs)" for n path fs
    by (induction n arbitrary: fs) (auto split: option.split)
  assume "al_wf fs"
  then show ?thesis by (auto simp: rotate_files_def Let_def shift split: option.split)
qed

lemma slot_prune:
  assumes "al_wf fs" "int i \<le> max_int64"
  shows "slot (rw_path w) (pruneExpired w now fs) i =
    (case slot (rw_path w) fs i of None \<Rightarrow> None
     | Some (d, m) \<Rightarrow> if i \<noteq> 0 \<and> m < now - rw_maxAge w then None else Some (d, m))"
proof -
  let ?P = "\<lambda>p (d :: string, m). \<not> (has_prefix p (rw_path w @ ''.'') \<and> atoi (drop (length (rw_path w) + 1) p) \<noteq> None \<and> m < now - rw_maxAge w)"
  have f: "pruneExpired w now fs = filter (\<lambda>(k, v). ?P k v) fs" by (auto simp: pruneExpired_def intro!: filter_cong)
  show ?thesis
  proof (cases "i = 0")
    case True
    have "\<not> has_prefix (rw_path w) (rw_path w @ ''.'')" by (simp add: has_prefix_def)
    with True map_of_kept [OF assms(1), of ?P "rw_path w"] show ?thesis
      by (auto simp: slot_def f split: option.split)
  next
    case False
    have "has_prefix (backup_path (rw_path w) i) (rw_path w @ ''.'')" "drop (length (rw_path w) + 1) (backup_path (rw_path w) i) = show_nat i"
      by (simp_all add: has_prefix_def backup_path_def)
    with False atoi_show_nat [OF assms(2)] map_of_kept [OF assms(1), of ?P "backup_path (rw_path w) i"] show ?thesis
      by (auto simp: slot_def f split: option.split)
  qed
qed

lemma rotate_step:
  assumes "log_ok t w fs" "t \<le> now" "0 \<le> rw_maxAge w"
  shows "\<exists>w' fs'. rotateIfNeeded zone now n w fs = (Inr (), w', fs') \<and> log_ok now w' fs' \<and> suffix (log_text w' fs') (log_text w fs)
    \<and> rw_path w' = rw_path w \<and> rw_maxAge w' = rw_maxAge w \<and> rw_maxBackups w' = rw_maxBackups w \<and> rw_maxSize w' = rw_maxSize w
    \<and> (rw_size w' + n \<le> rw_maxSize w \<or> rw_size w' = 0)"
proof (cases "rw_size w + n \<le> rw_maxSize w \<and> rw_openedDay w = local_day zone now")
  case True
  have "log_ok now w fs" using assms(1,2) by (auto simp: log_ok_def)
  with True assms(1) show ?thesis by (auto simp: rotateIfNeeded_def log_ok_def)
next
  case False
  let ?p = "rw_path w" and ?M = "nat (rw_maxBackups w)"
  let ?w = "w\<lparr>rw_size := 0, rw_openedDay := local_day zone now\<rparr>"
  let ?g = "rotate_files w now fs" and ?f' = "pruneExpired ?w now (rotate_files w now fs)"
  have M: "1 \<le> ?M" "\<And>i. i \<le> ?M \<Longrightarrow> int i \<le> max_int64" and open_w: "rw_open w" and wf: "al_wf fs"
    using assms(1) by (auto simp: log_ok_def)
  have young: "\<And>i d m. i \<le> ?M \<Longrightarrow> slot ?p fs i = Some (d, m) \<Longrightarrow> m \<le> t"
    and ord: "\<And>i j. i < j \<Longrightarrow> j \<le> ?M \<Longrightarrow> older (slot ?p fs j) (slot ?p fs i)"
    using assms(1) by (auto simp: log_ok_def)
  note rot = slot_rotate [of w now fs]
  have gyoung: "m \<le> now" if "i \<le> ?M" "slot ?p ?g i = Some (d, m)" for i d m
  proof (cases "i = 0")
    case False
    have "slot ?p ?g i = slot ?p fs (i - 1) \<or> slot ?p ?g i = slot ?p fs i" using that(1) False unfolding rot by auto
    moreover have "i - 1 \<le> ?M" using that(1) by simp
    ultimately have "m \<le> t" using that young by metis
    with assms(2) show ?thesis by simp
  qed (use that in \<open>simp add: rot\<close>)
  have gord: "older (slot ?p ?g j) (slot ?p ?g i)" if ij: "i < j" "j \<le> ?M" for i j
  proof (cases "i = 0")
    case True
    then show ?thesis using gyoung [OF ij(2)] by (auto simp: older_def rot [of 0])
  next
    case False
    have j: "slot ?p ?g j = slot ?p fs (j - 1) \<or> slot ?p ?g j = slot ?p fs j" using ij False unfolding rot by auto
    have i: "slot ?p ?g i = slot ?p fs (i - 1)" using ij False unfolding rot by auto
    have "i - 1 < j - 1" "j - 1 \<le> ?M" "i - 1 < j" using ij False by auto
    with j i ord ij(2) show ?thesis by metis
  qed
  note prune = slot_prune [OF wf_rotate [OF wf] M(2), of _ ?w now w now]
  have psub: "slot ?p ?f' i = slot ?p ?g i \<or> slot ?p ?f' i = None" if "i \<le> ?M" for i
    using prune [OF that] by (auto split: option.splits)
  have pdrop: "slot ?p ?f' j = None" if ij: "i < j" "j \<le> ?M" "slot ?p ?f' i \<noteq> slot ?p ?g i" for i j
  proof -
    from ij prune [of i] obtain d m where i: "slot ?p ?g i = Some (d, m)" "m < now - rw_maxAge w"
      by (auto split: option.splits if_splits)
    have "m' < now - rw_maxAge w" if "slot ?p ?g j = Some (d', m')" for d' m'
      using gord [OF ij(1,2)] i that by (auto simp: older_def)
    with prune [OF ij(2)] ij(1) show ?thesis by (auto split: option.splits)
  qed
  have s1: "suffix (chain (slot ?p ?g) ?M) (chain (slot ?p fs) ?M)"
    by (rule chain_rotated [OF _ _ M(1)]) (use M(1) in \<open>auto simp: rot content_def\<close>)
  have "suffix (chain (slot ?p ?f') ?M) (chain (slot ?p ?g) ?M)" 
    using chain_pruned [of ?M "slot ?p ?f'" "slot ?p ?g", OF psub pdrop] by (rule conjunct1)
  with s1 have suf: "suffix (log_text ?w ?f') (log_text w fs)" by (auto simp: log_text_def intro: suffix_order.trans)
  have zero: "slot ?p ?f' 0 = Some ([], now)" using prune [of 0] M by (simp add: rot [of 0])
  have "older (slot ?p ?f' j) (slot ?p ?f' i)" if "i < j" "j \<le> ?M" for i j
  proof -
    from psub [OF that(2)] psub [of i] that gord [OF that] show ?thesis by (auto simp: older_def)
  qed
  moreover have "m \<le> now" if "i \<le> ?M" "slot ?p ?f' i = Some (d, m)" for i d m
    using psub [OF that(1)] gyoung [OF that(1), of d m] that(2) by auto
  moreover have "al_wf ?f'" using wf_rotate [OF wf] by (simp add: pruneExpired_def distinct_map_filter)
  ultimately have "log_ok now ?w ?f'" using assms(1) zero by (simp add: log_ok_def)
  moreover have "rotateIfNeeded zone now n w fs = (Inr (), ?w, ?f')"
    unfolding rotateIfNeeded_def Let_def if_not_P [OF False] using open_w by simp
  ultimately show ?thesis using suf by simp
qed

lemma chain_append:
  assumes "f' 0 = Some (d @ p, m')" "f 0 = Some (d, m)" "\<And>i. 1 \<le> i \<Longrightarrow> f' i = f i"
  shows "chain f' n = chain f n @ p"
  using assms by (induction n) (simp_all add: content_def)

lemma log_ok_append:
  assumes ok: "log_ok t w fs" and d: "slot (rw_path w) fs 0 = Some (d, m)" "rw_size w = int (length d)"
    and s: "slot (rw_path w) fs' 0 = Some (d @ p, t)" "\<And>i. 1 \<le> i \<Longrightarrow> slot (rw_path w) fs' i = slot (rw_path w) fs i" and wf: "al_wf fs'"
  shows "log_ok t (w\<lparr>rw_size := rw_size w + int (length p)\<rparr>) fs'"
proof -
  let ?M = "nat (rw_maxBackups w)"
  have young: "n \<le> t" if "i \<le> ?M" "slot (rw_path w) fs i = Some (e, n)" for i e n using ok that by (simp add: log_ok_def)
  have young': "n \<le> t" if "i \<le> ?M" "slot (rw_path w) fs' i = Some (e, n)" for i e n
    using that young [of i e n] s by (cases "i = 0") simp_all
  have "older (slot (rw_path w) fs' j) (slot (rw_path w) fs' i)" if ij: "i < j" "j \<le> ?M" for i j
  proof (cases "i = 0")
    case True
    then show ?thesis using young' [OF ij(2)] s(1) by (auto simp: older_def)
  next
    case False
    then have "older (slot (rw_path w) fs j) (slot (rw_path w) fs i)" using ok ij by (simp add: log_ok_def)
    with False ij s(2) [of i] s(2) [of j] show ?thesis by simp
  qed
  with ok d s(1) young' wf show ?thesis by (simp add: log_ok_def)
qed

lemma write_step:
  assumes "log_ok t w fs" "t \<le> now" "0 \<le> rw_maxAge w"
  shows "\<exists>w' fs'. rw_write zone now p w fs = (Inr (int (length p)), w', fs') \<and> log_ok now w' fs'
    \<and> rw_path w' = rw_path w \<and> rw_maxAge w' = rw_maxAge w \<and> rw_maxBackups w' = rw_maxBackups w \<and> rw_maxSize w' = rw_maxSize w
    \<and> (\<exists>old. log_text w' fs' = old @ p \<and> suffix old (log_text w fs))
    \<and> rw_size w' \<le> max (rw_maxSize w) (int (length p))"
proof -
  from rotate_step [OF assms, of zone "int (length p)"] obtain w1 fs1 where
    r: "rotateIfNeeded zone now (int (length p)) w fs = (Inr (), w1, fs1)" "log_ok now w1 fs1"
      "suffix (log_text w1 fs1) (log_text w fs)" "rw_path w1 = rw_path w" "rw_maxAge w1 = rw_maxAge w"
      "rw_maxBackups w1 = rw_maxBackups w" "rw_maxSize w1 = rw_maxSize w" "rw_size w1 + int (length p) \<le> rw_maxSize w \<or> rw_size w1 = 0"
    by blast
  obtain d m where d: "slot (rw_path w1) fs1 0 = Some (d, m)" "rw_size w1 = int (length d)" using r(2) by (auto simp: log_ok_def)
  let ?w = "w1\<lparr>rw_size := rw_size w1 + int (length p)\<rparr>" and ?fs = "al_put (rw_path w1) (d @ p, now) fs1"
  have run: "rw_write zone now p w fs = (Inr (int (length p)), ?w, ?fs)" using r(1) d(1) by (simp add: rw_write_def slot_def)
  have s: "slot (rw_path w1) ?fs i = (if i = 0 then Some (d @ p, now) else slot (rw_path w1) fs1 i)" for i by (rule slot_put)
  have s0: "slot (rw_path w1) ?fs 0 = Some (d @ p, now)" and s1: "\<And>i. 1 \<le> i \<Longrightarrow> slot (rw_path w1) ?fs i = slot (rw_path w1) fs1 i"
    unfolding s by simp_all
  have "log_text ?w ?fs = log_text w1 fs1 @ p"
    using chain_append [of "slot (rw_path w1) ?fs" d p now "slot (rw_path w1) fs1", OF s0 d(1) s1] by (simp add: log_text_def)
  moreover have "log_ok now ?w ?fs" by (rule log_ok_append [OF r(2) d s0 s1]) (use r(2) in \<open>simp_all add: log_ok_def\<close>)
  ultimately show ?thesis using run r d(2) by auto
qed

text \<open>
  C34: rotating the server's log loses only its oldest text: after any sequence of writes at increasing times every write was
  taken in full, the backups from the oldest to the first followed by the live file are the last part of what was there
  before followed by all that was written, without a gap, a repetition or a change of order, and the live file is no
  longer than the limit or the longest single write.
\<close>

theorem log_tail_kept:
  assumes "log_ok t w fs" "0 \<le> rw_maxAge w" "sorted (t # map fst ps)" "rw_writes zone ps w fs = (w', fs')"
  shows "log_ok (last (t # map fst ps)) w' fs' \<and> suffix (log_text w' fs') (log_text w fs @ concat (map snd ps))
    \<and> (\<forall>now p. ps \<noteq> [] \<and> last ps = (now, p) \<longrightarrow> suffix p (log_text w' fs') \<and> rw_size w' \<le> max (rw_maxSize w) (int (length p)))"
  using assms
proof (induction ps arbitrary: t w fs)
  case (Cons x ps)
  obtain now p where x: "x = (now, p)" by fastforce
  have t: "t \<le> now" "sorted (now # map fst ps)" using Cons.prems(3) by (simp_all add: x)
  from write_step [OF Cons.prems(1) t(1) Cons.prems(2), of zone p] obtain w1 fs1 old where
    s: "rw_write zone now p w fs = (Inr (int (length p)), w1, fs1)" "log_ok now w1 fs1" "rw_maxAge w1 = rw_maxAge w"
      "rw_maxSize w1 = rw_maxSize w" "log_text w1 fs1 = old @ p" "suffix old (log_text w fs)"
      "rw_size w1 \<le> max (rw_maxSize w) (int (length p))" by blast
  have rest: "rw_writes zone ps w1 fs1 = (w', fs')" using Cons.prems(4) by (simp add: x s(1))
  note ih = Cons.IH [OF s(2) _ t(2) rest]
  have "suffix (log_text w1 fs1 @ concat (map snd ps)) (log_text w fs @ p @ concat (map snd ps))"
    using s(5,6) by (auto simp: suffix_def)
  with ih Cons.prems(2) s(3) have "suffix (log_text w' fs') (log_text w fs @ concat (map snd (x # ps)))"
    by (auto simp: x intro: suffix_order.trans)
  moreover have "suffix q (log_text w' fs') \<and> rw_size w' \<le> max (rw_maxSize w) (int (length q))"
    if "last (x # ps) = (now', q)" for now' q
  proof (cases "ps = []")
    case True
    with that rest x s(5,7) show ?thesis by (auto simp: suffix_def)
  next
    case False
    with that ih Cons.prems(2) s(3,4) show ?thesis by simp
  qed
  ultimately show ?case using ih Cons.prems(2) s(3) x by (auto split: if_splits)
qed simp

lemma log_tail_kept_witness:
  "suffix (log_text (fst (rw_writes 0 [(1, ''abcdef''), (2, ''ghijkl''), (3, ''mnopqr'')] \<lparr>rw_path = ''/r/server.log'', rw_open = True, rw_size = 2,
       rw_maxSize = 8, rw_maxBackups = 2, rw_maxAge = 10, rw_openedDay = 0\<rparr> [(''/r/server.log'', (''xy'', 0))]))
     (snd (rw_writes 0 [(1, ''abcdef''), (2, ''ghijkl''), (3, ''mnopqr'')] \<lparr>rw_path = ''/r/server.log'', rw_open = True, rw_size = 2,
       rw_maxSize = 8, rw_maxBackups = 2, rw_maxAge = 10, rw_openedDay = 0\<rparr> [(''/r/server.log'', (''xy'', 0))])))
     ''xyabcdefghijklmnopqr''"
proof -
  let ?w = "\<lparr>rw_path = ''/r/server.log'', rw_open = True, rw_size = 2, rw_maxSize = 8, rw_maxBackups = 2, rw_maxAge = 10, rw_openedDay = 0\<rparr>"
  let ?fs = "[(''/r/server.log'', (''xy'', 0 :: go_time))]" and ?ps = "[(1 :: go_time, ''abcdef''), (2, ''ghijkl''), (3, ''mnopqr'')]"
  have "log_ok 0 ?w ?fs"
    by (auto simp: log_ok_def slot_def backup_path_def older_def max_int64_def split: if_splits)
  moreover have "log_text ?w ?fs = ''xy''" by code_simp
  ultimately show ?thesis
    using log_tail_kept [of 0 ?w ?fs ?ps 0 "fst (rw_writes 0 ?ps ?w ?fs)" "snd (rw_writes 0 ?ps ?w ?fs)"] by simp
qed

end
