(* ===== verification/ServerText.thy ===== *)
theory ServerText
  imports Shell Files LogFiles
begin

text \<open>
  The texts the server command works with (\<open>cmd/express233-server/control.go\<close>, \<open>service.go\<close>): listen addresses
  and ports, release names, the quoting of values for a shell, a unit file and a property list, the script that replaces
  the binary, and the files of the services.  \<open>SplitHostPort\<close> and \<open>JoinHostPort\<close> are those of Go's package net.
\<close>

section \<open>Addresses\<close>

definition cut_last :: "char \<Rightarrow> string \<Rightarrow> (string \<times> string) option" where
  "cut_last c s = (case cut [c] (rev s) of None \<Rightarrow> None | Some (a, b) \<Rightarrow> Some (rev b, rev a))"

abbreviation colon :: char where "colon \<equiv> CHR '':''"

definition SplitHostPort :: "string \<Rightarrow> (string \<times> string) res" where
  "SplitHostPort hostport =
     (case cut_last colon hostport of
        None \<Rightarrow> Inl (ErrMsg ''missing port in address'')
      | Some (before, port) \<Rightarrow>
          if has_prefix hostport ''['' then
            (case cut '']'' hostport of
               None \<Rightarrow> Inl (ErrMsg ''missing ']' in address'')
             | Some (host, rest) \<Rightarrow>
                 if rest = [] then Inl (ErrMsg ''missing port in address'')
                 else if length host + 1 = length before then
                   (if CHR ''['' \<in> set (drop 1 hostport) then Inl (ErrMsg ''unexpected '['  in address'')
                    else if CHR '']'' \<in> set rest then Inl (ErrMsg ''unexpected ']' in address'')
                    else Inr (drop 1 host, port))
                 else if hd rest = colon then Inl (ErrMsg ''too many colons in address'')
                 else Inl (ErrMsg ''missing port in address''))
          else if colon \<in> set before then Inl (ErrMsg ''too many colons in address'')
          else if CHR ''['' \<in> set hostport then Inl (ErrMsg ''unexpected '[' in address'')
          else if CHR '']'' \<in> set hostport then Inl (ErrMsg ''unexpected ']' in address'')
          else Inr (before, port))"

definition JoinHostPort :: "string \<Rightarrow> string \<Rightarrow> string" where
  "JoinHostPort host port =
     (if colon \<in> set host then ''['' @ host @ '']:'' @ port else host @ '':'' @ port)"

definition defaultListenAddr :: string where
  "defaultListenAddr = ''127.0.0.1:23380''"

definition defaultPort :: string where
  "defaultPort = ''23380''"

definition normalizeListenAddr :: "string \<Rightarrow> string" where
  "normalizeListenAddr addr = (if has_prefix addr '':'' then ''127.0.0.1'' @ addr else addr)"

definition browserURL :: "string \<Rightarrow> string" where
  "browserURL listen =
     (case SplitHostPort listen of
        Inl _ \<Rightarrow> ''http://'' @ listen
      | Inr (host, port) \<Rightarrow>
          ''http://'' @ (if host \<in> set [[], ''0.0.0.0'', ''::''] then ''127.0.0.1'' else host) @ '':'' @ port)"

definition normalizePortValue :: "string \<Rightarrow> string \<Rightarrow> string res" where
  "normalizePortValue currentAddr value =
     (let v = trim_space value
      in if v = [] then Inl (ErrMsg ''port value is required'')
         else if contains v '':'' then Inr (normalizeListenAddr v)
         else case atoi v of
             None \<Rightarrow> Inl (ErrMsg ''invalid port'')
           | Some port \<Rightarrow>
               if port \<le> 0 \<or> port > 65535 then Inl (ErrMsg ''invalid port'')
               else let host = (case SplitHostPort (normalizeListenAddr currentAddr) of
                                  Inl _ \<Rightarrow> ''127.0.0.1''
                                | Inr (host, _) \<Rightarrow> if trim_space host = [] then ''127.0.0.1'' else host)
                    in Inr (JoinHostPort host (show_int port)))"

text \<open>
  Another program on the port: \<open>dial\<close> tells whether something accepts a connection, \<open>get\<close> what it answers (status and body).
\<close>

definition warnIfPortBlocked :: "(string \<Rightarrow> bool) \<Rightarrow> (string \<Rightarrow> (int \<times> string) option) \<Rightarrow> string \<Rightarrow> unit res" where
  "warnIfPortBlocked dial get listen =
     (case SplitHostPort listen of
        Inl _ \<Rightarrow> Inr ()
      | Inr (_, port) \<Rightarrow>
          let probe = JoinHostPort ''127.0.0.1'' port
          in if \<not> dial probe then Inr ()
             else case get (''http://'' @ probe @ ''/healthz'') of
                 None \<Rightarrow> Inl (ErrMsg ''port is used by another program'')
               | Some (status, body) \<Rightarrow>
                   if status = 200 \<and> trim_space body = ''ok'' then Inl (ErrMsg ''express233-server is already running'')
                   else Inl (ErrMsg ''port is used by another program''))"

section \<open>Releases, log levels, control requests\<close>

definition githubRepo :: string where
  "githubRepo = ''neko233-com/express233''"

definition resolveReleaseTag :: "string res \<Rightarrow> string \<Rightarrow> string res" where
  "resolveReleaseTag latest raw =
     (let value = trim_space raw
      in if value = [] \<or> lower value = ''latest'' then latest
         else if has_prefix (lower value) ''v'' then Inr value
         else Inr (''v'' @ value))"

definition releaseAssetName :: "string \<Rightarrow> string \<Rightarrow> string" where
  "releaseAssetName goos goarch =
     (let name = ''express233-server-'' @ goos @ ''-'' @ goarch
      in if goos = ''windows'' then name @ ''.exe'' else name)"

definition release_url :: "string \<Rightarrow> string \<Rightarrow> string \<Rightarrow> string" where
  "release_url goos goarch tag =
     ''https://github.com/'' @ githubRepo @ ''/releases/download/'' @ tag @ ''/'' @ releaseAssetName goos goarch"

datatype log_level = LevelDebug | LevelInfo | LevelWarn | LevelError

definition parseLogLevel :: "string \<Rightarrow> log_level" where
  "parseLogLevel raw =
     (let v = lower (trim_space raw)
      in if v = ''debug'' then LevelDebug
         else if v = ''warn'' \<or> v = ''warning'' then LevelWarn
         else if v = ''error'' then LevelError
         else LevelInfo)"

record control_request =
  cr_Method :: string
  cr_RemoteAddr :: string
  cr_Token :: string

definition authorizeControlRequest :: "control_request \<Rightarrow> string \<Rightarrow> bool" where
  "authorizeControlRequest r token =
     (cr_Method r = ''POST''
      \<and> (let host = (case SplitHostPort (cr_RemoteAddr r) of Inl _ \<Rightarrow> cr_RemoteAddr r | Inr (h, _) \<Rightarrow> h)
         in host = ''127.0.0.1'' \<or> host = ''::1'' \<or> host = ''localhost'')
      \<and> cr_Token r = token)"

section \<open>Paths\<close>

definition runtimeDir :: "string \<Rightarrow> string" where
  "runtimeDir dataDir = path_join dataDir ''run''"

definition serverRuntimeConfigPath :: "string \<Rightarrow> string" where
  "serverRuntimeConfigPath dataDir = path_join (runtimeDir dataDir) ''server-runtime.json''"

definition runtimeLogPath :: "string \<Rightarrow> string" where
  "runtimeLogPath dataDir = path_join (runtimeDir dataDir) ''server.log''"

definition systemdServiceName :: string where
  "systemdServiceName = ''express233-server.service''"

definition launchdLabel :: string where
  "launchdLabel = ''com.neko233.express233-server''"

definition windowsTaskName :: string where
  "windowsTaskName = ''express233-server''"

definition systemdUnitPath :: string where
  "systemdUnitPath = ''/etc/systemd/system/'' @ systemdServiceName"

definition launchdPlistPath :: string where
  "launchdPlistPath = ''/Library/LaunchDaemons/'' @ launchdLabel @ ''.plist''"

section \<open>Quoting\<close>

text \<open>A quote is written as a quoted quote between two quoted parts: four characters.\<close>

definition shellEscape :: "string \<Rightarrow> string" where
  "shellEscape value =
     [CHR 0x27] @ replace_all [CHR 0x27] [CHR 0x27, CHR 0x5C, CHR 0x27, CHR 0x27] value @ [CHR 0x27]"

definition escapeBatchValue :: "string \<Rightarrow> string" where
  "escapeBatchValue value = replace_all [CHR 0x22] [CHR 0x22, CHR 0x22] value"

definition systemdEscapeArg :: "string \<Rightarrow> string" where
  "systemdEscapeArg value =
     replace_all '' '' [CHR 0x5C, CHR ''x'', CHR ''2'', CHR ''0''] (replace_all [CHR 0x5C] [CHR 0x5C, CHR 0x5C] value)"

definition xml_char :: "char \<Rightarrow> string" where
  "xml_char c =
     (if c = CHR ''&'' then ''&amp;'' else if c = CHR ''<'' then ''&lt;'' else if c = CHR ''>'' then ''&gt;''
      else if c = CHR 0x22 then ''&quot;'' else if c = CHR 0x27 then ''&apos;'' else [c])"

definition xmlEscape :: "string \<Rightarrow> string" where
  "xmlEscape value = concat (map xml_char value)"

section \<open>Scripts and service files\<close>

definition dquote :: "string \<Rightarrow> string" where
  "dquote s = [CHR 0x22] @ s @ [CHR 0x22]"

definition text_lines :: "string list \<Rightarrow> string" where
  "text_lines ls = concat (map (\<lambda>l. l @ [CHR 0x0A]) ls)"

definition dos_lines :: "string list \<Rightarrow> string" where
  "dos_lines ls = concat (map (\<lambda>l. l @ [CHR 0x0D, CHR 0x0A]) ls)"

definition restart_line :: "string \<Rightarrow> string \<Rightarrow> string \<Rightarrow> string" where
  "restart_line exe dataDir listen =
     dquote (shellEscape exe) @ '' start -data '' @ shellEscape dataDir @ '' -addr '' @ shellEscape listen @ '' >/dev/null 2>&1 &''"

definition windows_restart_line :: string where
  "windows_restart_line =
     ''start '' @ dquote [] @ '' '' @ dquote ''%TARGET%'' @ '' start -data '' @ dquote ''%DATA%'' @ '' -addr '' @ dquote ''%ADDR%''"

definition updaterScriptName :: "string \<Rightarrow> string" where
  "updaterScriptName goos = (if goos = ''windows'' then ''apply-update.cmd'' else ''apply-update.sh'')"

definition updaterScriptContent ::
  "string \<Rightarrow> string \<Rightarrow> string \<Rightarrow> string \<Rightarrow> string \<Rightarrow> int \<Rightarrow> bool \<Rightarrow> string \<Rightarrow> string" where
  "updaterScriptContent goos targetExe downloadedPath dataDir listen selfPID restart restartCommand =
     (if goos = ''windows'' then
        dos_lines [''@echo off'', ''setlocal'',
          ''set '' @ dquote (''TARGET='' @ escapeBatchValue targetExe), ''set '' @ dquote (''SOURCE='' @ escapeBatchValue downloadedPath),
          ''set '' @ dquote (''DATA='' @ escapeBatchValue dataDir), ''set '' @ dquote (''ADDR='' @ escapeBatchValue listen),
          ''set '' @ dquote (''WAITPID='' @ show_int selfPID), ''set '' @ dquote (''RESTART='' @ (if restart then ''1'' else ''0'')),
          ''set '' @ dquote (''LOG=%DATA%'' @ [CHR 0x5C] @ ''run'' @ [CHR 0x5C] @ ''apply-update.log''),
          ''echo [%date% %time%] waiting for updater pid=%WAITPID% >> '' @ dquote ''%LOG%'' @ '' 2>&1'',
          ''for /L %%i in (1,1,30) do ('',
          ''  tasklist /FI '' @ dquote ''PID eq %WAITPID%'' @ '' 2>NUL | find '' @ dquote ''%WAITPID%'' @ '' >NUL'',
          ''  if errorlevel 1 goto COPY'', ''  timeout /t 1 /nobreak >NUL'', '')'', '':COPY'',
          ''copy /Y '' @ dquote ''%SOURCE%'' @ '' '' @ dquote ''%TARGET%'' @ '' >> '' @ dquote ''%LOG%''
            @ '' 2>&1 || (echo [%date% %time%] binary replacement failed >> '' @ dquote ''%LOG%'' @ '' & exit /b 1)'',
          ''del /F /Q '' @ dquote ''%SOURCE%'' @ '' >NUL 2>NUL'',
          ''echo [%date% %time%] binary replacement completed >> '' @ dquote ''%LOG%'',
          ''if '' @ dquote ''%RESTART%'' @ ''=='' @ dquote ''1'' @ '' '' @ restartCommand,
          ''del /F /Q '' @ dquote ''%~f0'' @ '' >NUL 2>NUL'']
      else
        text_lines ([''#!/bin/sh'', ''TARGET='' @ shellEscape targetExe, ''SOURCE='' @ shellEscape downloadedPath,
          ''DATA='' @ shellEscape dataDir, ''WAITPID='' @ show_int selfPID,
          ''LOG='' @ dquote ''$DATA/run/apply-update.log'', ''exec >>'' @ dquote ''$LOG'' @ '' 2>&1'',
          ''echo '' @ dquote ''[$(date -Iseconds)] waiting for updater pid=$WAITPID'',
          ''for _ in $(seq 1 30); do'', ''  if ! kill -0 '' @ dquote ''$WAITPID'' @ '' 2>/dev/null; then'', ''    break'', ''  fi'',
          ''  sleep 1'', ''done'',
          ''if ! cp '' @ dquote ''$SOURCE'' @ '' '' @ dquote ''$TARGET'' @ ''; then'',
          ''  echo '' @ dquote ''[$(date -Iseconds)] binary replacement failed'', ''  exit 1'', ''fi'',
          ''chmod +x '' @ dquote ''$TARGET'', ''rm -f '' @ dquote ''$SOURCE'',
          ''echo '' @ dquote ''[$(date -Iseconds)] binary replacement completed'']
          @ (if restart then [restartCommand] else []) @ [''rm -f '' @ dquote ''$0'']))"

definition systemdUnitContent :: "string \<Rightarrow> string \<Rightarrow> string \<Rightarrow> string" where
  "systemdUnitContent exePath dataDir listen =
     text_lines [''[Unit]'', ''Description=express233-server'', ''After=network-online.target'', ''Wants=network-online.target'', [],
       ''[Service]'', ''Type=simple'',
       ''ExecStart='' @ systemdEscapeArg exePath @ '' serve -data '' @ systemdEscapeArg dataDir @ '' -addr '' @ systemdEscapeArg listen,
       ''Restart=on-failure'', ''RestartSec=5'',
       ''# Self-update uses a short-lived child to replace the stopped executable.'', ''KillMode=process'',
       ''WorkingDirectory='' @ systemdEscapeArg (path_dir exePath), [], ''[Install]'', ''WantedBy=multi-user.target'']"

definition launchdPlistContent :: "string \<Rightarrow> string \<Rightarrow> string \<Rightarrow> string" where
  "launchdPlistContent exePath dataDir listen =
     text_lines [''<?xml version='' @ dquote ''1.0'' @ '' encoding='' @ dquote ''UTF-8'' @ ''?>'',
       ''<!DOCTYPE plist PUBLIC '' @ dquote ''-//Apple//DTD PLIST 1.0//EN'' @ '' ''
         @ dquote ''http://www.apple.com/DTDs/PropertyList-1.0.dtd'' @ ''>'',
       ''<plist version='' @ dquote ''1.0'' @ ''>'', ''<dict>'', ''  <key>Label</key>'',
       ''  <string>'' @ launchdLabel @ ''</string>'', ''  <key>ProgramArguments</key>'', ''  <array>'',
       ''    <string>'' @ xmlEscape exePath @ ''</string>'', ''    <string>serve</string>'', ''    <string>-data</string>'',
       ''    <string>'' @ xmlEscape dataDir @ ''</string>'', ''    <string>-addr</string>'',
       ''    <string>'' @ xmlEscape listen @ ''</string>'', ''  </array>'', ''  <key>RunAtLoad</key>'', ''  <true/>'',
       ''  <key>KeepAlive</key>'', ''  <true/>'', ''  <key>WorkingDirectory</key>'',
       ''  <string>'' @ xmlEscape (path_dir exePath) @ ''</string>'', ''</dict>'', ''</plist>'']"

definition windowsTaskCommand :: "string \<Rightarrow> string \<Rightarrow> string \<Rightarrow> string" where
  "windowsTaskCommand exePath dataDir listen =
     dquote exePath @ '' serve -data '' @ dquote dataDir @ '' -addr '' @ dquote listen"

section \<open>Quoted values are read back\<close>

lemma lex_escaped_rest:
  "sh_lex Single (Some u) (replace_char quote_char [CHR 0x27, CHR 0x5C, CHR 0x27, CHR 0x27] v @ quote_char # rest) = sh_lex Plain (Some (u @ v)) rest"
proof (induction v arbitrary: u)
  case (Cons c v)
  show ?case
  proof (cases "c = quote_char")
    case True
    then show ?thesis using Cons [of "u @ [quote_char]"] by (simp add: replace_char_def open_word_def add_char_def)
  next
    case False
    then show ?thesis using Cons [of "u @ [c]"] by (simp add: replace_char_def add_char_def)
  qed
qed (simp add: replace_char_def)

lemma lex_escaped: "sh_lex Plain w (shellEscape v @ rest) = sh_lex Plain (Some (the (open_word w) @ v)) rest"
  using lex_escaped_rest [of "the (open_word w)" v rest] by (simp add: shellEscape_def replace_all_char open_word_def)

lemma lex_op: "sh_op c \<Longrightarrow> c \<noteq> CHR 0x27 \<Longrightarrow> c \<noteq> CHR 0x22 \<Longrightarrow> c \<noteq> CHR 0x5C \<Longrightarrow> \<not> sh_blank c \<Longrightarrow>
  sh_lex Plain (Some w) (c # rest) = map_option (\<lambda>ts. Word w # Op c # ts) (sh_lex Plain None rest)"
  by (simp add: end_word_def)

lemma lex_newline: "sh_lex Plain (Some w) (CHR 0x0A # rest) = map_option (\<lambda>ts. Word w # Op (CHR 0x0A) # ts) (sh_lex Plain None rest)"
  by (rule lex_op) (simp_all add: sh_op_def sh_blank_def)

lemma lex_setting:
  assumes "list_all plain_char name" "name \<noteq> []"
  shows "sh_lex Plain None (name @ shellEscape v @ CHR 0x0A # rest)
       = map_option (\<lambda>ts. Word (name @ v) # Op (CHR 0x0A) # ts) (sh_lex Plain None rest)"
  using lex_plain_start [OF assms, of "shellEscape v @ CHR 0x0A # rest"] lex_escaped [of "Some name" v "CHR 0x0A # rest"]
    lex_newline [of "name @ v" rest] by (simp add: open_word_def)

text \<open>
  The script that replaces the binary assigns exactly the given paths, whatever they hold: after the first line, its text
  starts with lines the shell reads as one assignment each, of the installed file, the downloaded file and the data
  directory, and no part of a path is read as anything else.
\<close>

theorem updater_assigns_paths:
  assumes "goos \<noteq> ''windows''"
  shows "\<exists>assigns rest. updaterScriptContent goos target source dataDir listen pid restart command
       = text_lines [''#!/bin/sh''] @ assigns @ rest
     \<and> sh_lex Plain None assigns = Some [Word (''TARGET='' @ target), Op (CHR 0x0A), Word (''SOURCE='' @ source), Op (CHR 0x0A),
         Word (''DATA='' @ dataDir), Op (CHR 0x0A)]"
proof -
  let ?assigns = "text_lines [''TARGET='' @ shellEscape target, ''SOURCE='' @ shellEscape source, ''DATA='' @ shellEscape dataDir]"
  have plain: "list_all plain_char ''TARGET=''" "list_all plain_char ''SOURCE=''" "list_all plain_char ''DATA=''"
    by (simp_all add: plain_char_def sh_blank_def sh_op_def sh_special_def)
  have "\<exists>rest. updaterScriptContent goos target source dataDir listen pid restart command = text_lines [''#!/bin/sh''] @ ?assigns @ rest"
    using assms by (simp add: updaterScriptContent_def text_lines_def)
  moreover have "sh_lex Plain None ?assigns = Some [Word (''TARGET='' @ target), Op (CHR 0x0A), Word (''SOURCE='' @ source),
      Op (CHR 0x0A), Word (''DATA='' @ dataDir), Op (CHR 0x0A)]"
    using lex_setting [OF plain(1), of target "''SOURCE='' @ shellEscape source @ CHR 0x0A # ''DATA='' @ shellEscape dataDir @ [CHR 0x0A]"]
      lex_setting [OF plain(2), of source "''DATA='' @ shellEscape dataDir @ [CHR 0x0A]"] lex_setting [OF plain(3), of dataDir "[]"]
    by (simp add: text_lines_def end_word_def)
  ultimately show ?thesis by blast
qed

lemma updater_assigns_paths_witness:
  "\<exists>assigns rest. updaterScriptContent ''linux'' [CHR 0x27, CHR '';''] ''/tmp/new'' ''/a b'' ''127.0.0.1:80'' 7 True ''x''
       = text_lines [''#!/bin/sh''] @ assigns @ rest
     \<and> sh_lex Plain None assigns = Some [Word (''TARGET='' @ [CHR 0x27, CHR '';'']), Op (CHR 0x0A), Word (''SOURCE='' @ ''/tmp/new''),
         Op (CHR 0x0A), Word (''DATA='' @ ''/a b''), Op (CHR 0x0A)]"
  by (rule updater_assigns_paths) simp

section \<open>The restart after an update\<close>

lemma lex_double:
  "(\<forall>c\<in>set v. c \<noteq> CHR 0x22 \<and> c \<noteq> CHR ''$'' \<and> c \<noteq> CHR 0x60 \<and> c \<noteq> CHR 0x5C) \<Longrightarrow>
   sh_lex Double (Some u) (v @ CHR 0x22 # rest) = sh_lex Plain (Some (u @ v)) rest"
  by (induction v arbitrary: u) (auto simp: add_char_def)

text \<open>
  The line that restarts the server after an update puts the quoted path of the binary between double quotes: for every
  path without quotes, backslashes and expansions, the shell takes the path with the single quotes as part of it for the
  name of the command, so it starts no file of the given name.
\<close>

theorem restart_line_names_no_file:
  assumes "\<forall>c\<in>set exe. c \<notin> set [CHR 0x27, CHR 0x22, CHR ''$'', CHR 0x60, CHR 0x5C]"
  shows "\<exists>ts. sh_lex Plain None (restart_line exe dataDir listen)
      = Some (Word (CHR 0x27 # exe @ [CHR 0x27]) # map Word [''start'', ''-data'', dataDir, ''-addr'', listen] @ ts)
    \<and> CHR 0x27 # exe @ [CHR 0x27] \<noteq> exe"
proof -
  have esc: "shellEscape exe = CHR 0x27 # exe @ [CHR 0x27]"
    using assms by (auto simp: shellEscape_def replace_all_char intro: replace_char_id)
  let ?redirect = "''>/dev/null 2>&1 &''"
  let ?args = "''start -data '' @ shellEscape dataDir @ '' -addr '' @ shellEscape listen @ '' '' @ ?redirect"
  have line: "restart_line exe dataDir listen = CHR 0x22 # (CHR 0x27 # exe @ [CHR 0x27]) @ CHR 0x22 # CHR '' '' # ?args"
    by (simp add: restart_line_def dquote_def esc)
  have "sh_lex Plain None (restart_line exe dataDir listen) = sh_lex Plain (Some (CHR 0x27 # exe @ [CHR 0x27])) (CHR '' '' # ?args)"
    unfolding line using lex_double [of "CHR 0x27 # exe @ [CHR 0x27]" "[]" "CHR '' '' # ?args"] assms by (simp add: open_word_def)
  also have "\<dots> = map_option ((#) (Word (CHR 0x27 # exe @ [CHR 0x27]))) (sh_lex Plain None ?args)" by (rule lex_blank)
  finally have command: "sh_lex Plain None (restart_line exe dataDir listen)
      = map_option ((#) (Word (CHR 0x27 # exe @ [CHR 0x27]))) (sh_lex Plain None ?args)" .
  have plain: "list_all plain_char ''start''" "list_all plain_char ''-data''" "list_all plain_char ''-addr''"
    by (simp_all add: plain_char_def sh_blank_def sh_op_def sh_special_def)
  obtain ts where ts: "sh_lex Plain None ?redirect = Some ts" by (simp add: sh_blank_def sh_op_def sh_special_def add_char_def end_word_def)
  have "sh_lex Plain None ?args = Some (map Word [''start'', ''-data'', dataDir, ''-addr'', listen] @ ts)"
    using lex_word [OF plain(1), of "''-data '' @ shellEscape dataDir @ '' -addr '' @ shellEscape listen @ '' '' @ ?redirect"]
      lex_word [OF plain(2), of "shellEscape dataDir @ '' -addr '' @ shellEscape listen @ '' '' @ ?redirect"]
      lex_escaped [of None dataDir "CHR '' '' # ''-addr '' @ shellEscape listen @ '' '' @ ?redirect"]
      lex_blank [of dataDir "''-addr '' @ shellEscape listen @ '' '' @ ?redirect"]
      lex_word [OF plain(3), of "shellEscape listen @ '' '' @ ?redirect"]
      lex_escaped [of None listen "CHR '' '' # ?redirect"] lex_blank [of listen ?redirect] ts
    by (simp add: open_word_def del: sh_lex.simps)
  with command show ?thesis by (auto dest: arg_cong [of _ _ length])
qed

lemma restart_line_names_no_file_witness:
  "\<exists>ts. sh_lex Plain None (restart_line ''/opt/express233-server'' ''/data'' ''127.0.0.1:23380'')
      = Some (Word (CHR 0x27 # ''/opt/express233-server'' @ [CHR 0x27])
          # map Word [''start'', ''-data'', ''/data'', ''-addr'', ''127.0.0.1:23380''] @ ts)
    \<and> CHR 0x27 # ''/opt/express233-server'' @ [CHR 0x27] \<noteq> ''/opt/express233-server''"
  by (rule restart_line_names_no_file) simp

section \<open>Property lists\<close>

text \<open>The text of an XML element, with its five predefined references; nothing for markup or another reference.\<close>

function xml_text :: "string \<Rightarrow> string option" where
  "xml_text s =
     (case s of
        [] \<Rightarrow> Some []
      | c # t \<Rightarrow>
          if c = CHR ''<'' then None
          else if c = CHR ''&'' then
            (case find (\<lambda>(name, _). has_prefix t name) [(''amp;'', CHR ''&''), (''lt;'', CHR ''<''), (''gt;'', CHR ''>''),
               (''quot;'', CHR 0x22), (''apos;'', CHR 0x27)] of
               None \<Rightarrow> None
             | Some (name, d) \<Rightarrow> map_option ((#) d) (xml_text (drop (length name) t)))
          else map_option ((#) c) (xml_text t))"
  by pat_completeness auto
termination
  by (relation "measure length") auto

declare xml_text.simps [simp del]

lemma xml_text_plain: "c \<noteq> CHR ''<'' \<Longrightarrow> c \<noteq> CHR ''&'' \<Longrightarrow> xml_text (c # t) = map_option ((#) c) (xml_text t)"
  by (subst xml_text.simps) simp

lemma xml_text_references:
  "xml_text (''&amp;'' @ t) = map_option ((#) (CHR ''&'')) (xml_text t)"
  "xml_text (''&lt;'' @ t) = map_option ((#) (CHR ''<'')) (xml_text t)"
  "xml_text (''&gt;'' @ t) = map_option ((#) (CHR ''>'')) (xml_text t)"
  "xml_text (''&quot;'' @ t) = map_option ((#) (CHR 0x22)) (xml_text t)"
  "xml_text (''&apos;'' @ t) = map_option ((#) (CHR 0x27)) (xml_text t)"
  by (subst xml_text.simps, simp add: has_prefix_def)+

lemma xml_text_char: "xml_text (xml_char c @ t) = map_option ((#) c) (xml_text t)"
proof -
  consider "c = CHR ''&''" | "c = CHR ''<''" | "c = CHR ''>''" | "c = CHR 0x22" | "c = CHR 0x27"
    | "c \<noteq> CHR ''&''" "c \<noteq> CHR ''<''" "c \<noteq> CHR ''>''" "c \<noteq> CHR 0x22" "c \<noteq> CHR 0x27" by blast
  then show ?thesis
  proof cases
    case 1
    show ?thesis unfolding 1 using xml_text_references(1) [of t] by (simp add: xml_char_def)
  next
    case 2
    show ?thesis unfolding 2 using xml_text_references(2) [of t] by (simp add: xml_char_def)
  next
    case 3
    show ?thesis unfolding 3 using xml_text_references(3) [of t] by (simp add: xml_char_def)
  next
    case 4
    show ?thesis unfolding 4 using xml_text_references(4) [of t] by (simp add: xml_char_def)
  next
    case 5
    show ?thesis unfolding 5 using xml_text_references(5) [of t] by (simp add: xml_char_def)
  qed (simp add: xml_char_def xml_text_plain)
qed

text \<open>
  A value in the property list of the service is read back as it was written, and no value can add elements to the file:
  its escaped form is plain text of an element.
\<close>

theorem plist_value_round_trip: "xml_text (xmlEscape v) = Some v"
proof (induction v)
  case Nil
  then show ?case by (subst xml_text.simps) (simp add: xmlEscape_def)
next
  case (Cons c v)
  then show ?case using xml_text_char [of c "xmlEscape v"] by (simp add: xmlEscape_def)
qed

section \<open>Addresses\<close>

lemma cut_last_Some: "cut_last c s = Some (a, b) \<Longrightarrow> s = a @ c # b"
proof -
  assume "cut_last c s = Some (a, b)"
  then have "cut [c] (rev s) = Some (rev b, rev a)" by (auto simp: cut_last_def split: option.splits)
  from cut_Some [OF this] have "rev (rev s) = rev (rev b @ [c] @ rev a)" by simp
  then show ?thesis by simp
qed

lemma cut_first: "c \<notin> set a \<Longrightarrow> cut [c] (a @ c # b) = Some (a, b)"
  by (induction a) (auto simp: has_prefix_def)

lemma cut_last_join: "c \<notin> set b \<Longrightarrow> cut_last c (a @ c # b) = Some (a, b)"
  using cut_first [of c "rev b" "rev a"] by (simp add: cut_last_def)

lemma cut_before: "cut [c] s = Some (a, b) \<Longrightarrow> c \<notin> set a"
proof (induction s arbitrary: a)
  case (Cons d s)
  then show ?case by (cases "d = c"; cases "cut [c] s") (auto simp: has_prefix_def)
qed simp

definition host_ok :: "string \<Rightarrow> bool" where
  "host_ok h \<longleftrightarrow> CHR ''['' \<notin> set h \<and> CHR '']'' \<notin> set h"

lemma split_join_host_port:
  assumes "host_ok host" "colon \<notin> set port" "host_ok port"
  shows "SplitHostPort (JoinHostPort host port) = Inr (host, port)"
proof (cases "colon \<in> set host")
  case True
  have last: "cut_last colon (''['' @ host @ '']:'' @ port) = Some (''['' @ host @ '']'', port)"
    using cut_last_join [OF assms(2), of "''['' @ host @ '']''"] by simp
  have first: "cut '']'' (''['' @ host @ '']:'' @ port) = Some (''['' @ host, '':'' @ port)"
    using cut_first [of "CHR '']''" "''['' @ host" "'':'' @ port"] assms(1) by (simp add: host_ok_def)
  from True assms last first show ?thesis by (simp add: JoinHostPort_def SplitHostPort_def has_prefix_def host_ok_def)
next
  case False
  have "cut_last colon (host @ '':'' @ port) = Some (host, port)" using cut_last_join [OF assms(2), of host] by simp
  moreover have "\<not> has_prefix (host @ '':'' @ port) ''[''"
    using assms(1) by (cases host) (auto simp: has_prefix_def host_ok_def)
  ultimately show ?thesis using False assms by (simp add: JoinHostPort_def SplitHostPort_def host_ok_def)
qed

lemma split_host_ok: "SplitHostPort s = Inr (h, p) \<Longrightarrow> host_ok h"
proof -
  assume s: "SplitHostPort s = Inr (h, p)"
  then obtain before port where b: "cut_last colon s = Some (before, port)" by (auto simp: SplitHostPort_def split: option.splits)
  then have t: "s = before @ colon # port" by (rule cut_last_Some)
  show ?thesis
  proof (cases "has_prefix s ''[''")
    case True
    with s b obtain host rest where c: "cut '']'' s = Some (host, rest)" "h = drop 1 host" "CHR ''['' \<notin> set (drop 1 s)"
      by (auto simp: SplitHostPort_def split: option.splits if_splits)
    have "CHR '']'' \<notin> set h" using cut_before [OF c(1)] c(2) by (auto dest: in_set_dropD)
    moreover from cut_Some [OF c(1)] c(2,3) have "CHR ''['' \<notin> set h" by (cases host) auto
    ultimately show ?thesis by (simp add: host_ok_def)
  next
    case False
    with s b t show ?thesis by (auto simp: SplitHostPort_def host_ok_def split: if_splits)
  qed
qed

text \<open>
  A port given to \<open>set-port\<close> becomes an address with that port between 1 and 65535, at the host that was configured before
  where it had one and at the loopback address otherwise; the address splits into exactly these two parts, so an address
  of the IPv6 form stays one.
\<close>

theorem set_port_keeps_host:
  assumes "normalizePortValue current value = Inr addr" "\<not> contains (trim_space value) '':''"
  shows "\<exists>port host. atoi (trim_space value) = Some port \<and> 1 \<le> port \<and> port \<le> 65535
    \<and> SplitHostPort addr = Inr (host, show_int port)
    \<and> host = (case SplitHostPort (normalizeListenAddr current) of Inl _ \<Rightarrow> ''127.0.0.1''
               | Inr (h, _) \<Rightarrow> if trim_space h = [] then ''127.0.0.1'' else h)"
proof -
  let ?host = "case SplitHostPort (normalizeListenAddr current) of Inl _ \<Rightarrow> ''127.0.0.1''
    | Inr (h, _) \<Rightarrow> if trim_space h = [] then ''127.0.0.1'' else h"
  from assms obtain port where p: "atoi (trim_space value) = Some port" "1 \<le> port" "port \<le> 65535" "addr = JoinHostPort ?host (show_int port)"
    by (auto simp: normalizePortValue_def Let_def split: option.splits if_splits)
  have host: "host_ok ?host" using split_host_ok [of "normalizeListenAddr current"] by (auto simp: host_ok_def split: sum.split)
  have "is_digit c" if "c \<in> set (show_int port)" for c using that p(2) show_nat_digits by (simp add: show_int_def)
  moreover have "\<not> is_digit colon" "\<not> is_digit (CHR ''['')" "\<not> is_digit (CHR '']'')" by (simp_all add: is_digit_def)
  ultimately have "colon \<notin> set (show_int port)" "host_ok (show_int port)" by (auto simp: host_ok_def)
  then have "SplitHostPort addr = Inr (?host, show_int port)"
    using host unfolding p(4) by (intro split_join_host_port)
  with p show ?thesis by blast
qed

lemma set_port_keeps_host_witness:
  "normalizePortValue ''[::1]:23380'' '' 80 '' = Inr ''[::1]:80'' \<and> SplitHostPort ''[::1]:80'' = Inr (''::1'', ''80'')"
proof -
  have n: "normalizePortValue ''[::1]:23380'' '' 80 '' = Inr ''[::1]:80''" by code_simp
  moreover have "\<not> contains (trim_space '' 80 '') '':''" by code_simp
  ultimately obtain port host where p: "atoi (trim_space '' 80 '') = Some port" "SplitHostPort ''[::1]:80'' = Inr (host, show_int port)"
    "host = (case SplitHostPort (normalizeListenAddr ''[::1]:23380'') of Inl _ \<Rightarrow> ''127.0.0.1''
               | Inr (h, _) \<Rightarrow> if trim_space h = [] then ''127.0.0.1'' else h)"
    using set_port_keeps_host by blast
  have "atoi (trim_space '' 80 '') = Some 80" "SplitHostPort (normalizeListenAddr ''[::1]:23380'') = Inr (''::1'', ''23380'')"
    "trim_space ''::1'' = ''::1''" "show_int 80 = ''80''" by code_simp+
  with n p show ?thesis by simp
qed

end
