(* ===== verification/ConfigBackup.thy ===== *)
theory ConfigBackup
  imports ServerText ServerConfig Deployments
begin

text \<open>
  The operations of the server command on a store that is not served (\<open>cmd/express233-server/control.go\<close>): the
  default \<open>server.yaml\<close>, its backup and restore, and the reset of the root password.  \<open>example\<close> is the example file
  beside the working directory, where there is one; \<open>stamp\<close> is the formatted local time.
\<close>

section \<open>Operations\<close>

definition copyFile :: "string \<Rightarrow> string \<Rightarrow> store \<Rightarrow> unit res \<times> store" where
  "copyFile src dst s =
     (case map_of (st_files s) src of None \<Rightarrow> (Inl ErrNotExist, s) | Some b \<Rightarrow> (Inr (), write_file dst b s))"

definition serverConfigPath :: "store \<Rightarrow> string res \<times> store" where
  "serverConfigPath s = ServerYAMLPath 1 s"

definition defaultServerYAML :: "string option \<Rightarrow> string" where
  "defaultServerYAML example = (case example of Some b \<Rightarrow> b | None \<Rightarrow> ''servers: {}'' @ [CHR 0x0A])"

definition ensureServerYAML :: "string option \<Rightarrow> store \<Rightarrow> store" where
  "ensureServerYAML example s =
     (case serverConfigPath s of
        (Inl _, s1) \<Rightarrow> s1
      | (Inr path, s1) \<Rightarrow> if file_exists s1 path then s1 else write_file path (defaultServerYAML example) s1)"

definition validateServerConfig :: "yaml_codec \<Rightarrow> store \<Rightarrow> unit res \<times> store" where
  "validateServerConfig yaml s =
     (case serverConfigPath s of
        (Inl e, s1) \<Rightarrow> (Inl e, s1)
      | (Inr path, s1) \<Rightarrow> (case LoadServerFile yaml path s1 of Inl e \<Rightarrow> (Inl e, s1) | Inr _ \<Rightarrow> (Inr (), s1)))"

text \<open>The directory of the backups.\<close>

definition backup_dir :: "string \<Rightarrow> string" where
  "backup_dir dataDir = path_join dataDir ''backup''"

definition backupServerConfig :: "string \<Rightarrow> string \<Rightarrow> store \<Rightarrow> string res \<times> store" where
  "backupServerConfig stamp dataDir s =
     (case serverConfigPath s of
        (Inl e, s1) \<Rightarrow> (Inl e, s1)
      | (Inr path, s1) \<Rightarrow>
          if \<not> file_exists s1 path then (Inl ErrNotExist, s1)
          else (let backupDir = backup_dir dataDir;
                    target = path_join backupDir (''server-'' @ stamp @ ''.yaml'')
                in case copyFile path target (mkdir_all backupDir s1) of
                     (Inl e, s2) \<Rightarrow> (Inl e, s2)
                   | (Inr _, s2) \<Rightarrow>
                       (case copyFile path (path_join backupDir ''server-latest.yaml'') s2 of
                          (Inl e, s3) \<Rightarrow> (Inl e, s3)
                        | (Inr _, s3) \<Rightarrow> (Inr target, s3))))"

text \<open>The files directly in a directory, and those that are backups.\<close>

definition files_in :: "string \<Rightarrow> store \<Rightarrow> string list" where
  "files_in dir s =
     map (drop (length dir + 1)) (filter (\<lambda>f. has_prefix f (dir @ ''/'') \<and> slash \<notin> set (drop (length dir + 1) f)) (map fst (st_files s)))"

definition is_backup :: "string \<Rightarrow> bool" where
  "is_backup name = (has_prefix name ''server-'' \<and> has_suffix name ''.yaml'')"

definition restoreServerConfig :: "string option \<Rightarrow> string \<Rightarrow> bool \<Rightarrow> store \<Rightarrow> string res \<times> store" where
  "restoreServerConfig example dataDir fromDefault s =
     (case serverConfigPath s of
        (Inl e, s1) \<Rightarrow> (Inl e, s1)
      | (Inr path, s1) \<Rightarrow>
          let s2 = mkdir_all (path_dir path) s1
          in if fromDefault then (Inr ''default example'', write_file path (defaultServerYAML example) s2)
             else
               (let backupDir = backup_dir dataDir
                in if \<not> dir_exists s2 backupDir then (Inl ErrNotExist, s2)
                   else
                     (let found = map (path_join backupDir) (filter is_backup (files_in backupDir s2));
                          latest = path_join backupDir ''server-latest.yaml'';
                          candidates = (if found = [] \<and> file_exists s2 latest then [latest] else found)
                      in if candidates = [] then (Inl (ErrMsg ''no server config backup found''), s2)
                         else (let source = last (sort candidates)
                               in case copyFile source path s2 of (Inl e, s3) \<Rightarrow> (Inl e, s3) | (Inr _, s3) \<Rightarrow> (Inr source, s3)))))"

definition resetRootPassword :: "go_time \<Rightarrow> string \<Rightarrow> string \<Rightarrow> string \<Rightarrow> store \<Rightarrow> unit res \<times> store" where
  "resetRootPassword now hash hash2 token s =
     (case find (\<lambda>u. u_Username u = ''root'') (ListUsers s 1) of
        Some u \<Rightarrow> UpdateUserPassword hash (u_ID u) s
      | None \<Rightarrow>
          (case CreateUser now hash token 1 ''root'' RoleAdmin True s of
             (Inl e, s1) \<Rightarrow> (Inl e, s1)
           | (Inr u, s1) \<Rightarrow> UpdateUserPassword hash2 (u_ID u) s1))"

section \<open>A backup is what is restored\<close>

text \<open>The backups in the directory are those of the command: dated ones and the latest.\<close>

definition dated :: "string \<Rightarrow> bool" where
  "dated name = (case drop 7 name of [] \<Rightarrow> False | c # _ \<Rightarrow> is_digit c)"

definition backups_dated :: "string \<Rightarrow> store \<Rightarrow> bool" where
  "backups_dated dir s = list_all (\<lambda>name. is_backup name \<longrightarrow> name = ''server-latest.yaml'' \<or> dated name) (files_in dir s)"

lemma prefix_le: "(p @ a \<le> p @ b) = (a \<le> (b :: string))"
  by (induction p) simp_all

lemma dated_before_latest: "is_backup name \<Longrightarrow> dated name \<Longrightarrow> name \<le> ''server-latest.yaml''"
proof -
  assume b: "is_backup name" and d: "dated name"
  obtain t where t: "name = ''server-'' @ t" using b by (auto simp: is_backup_def has_prefix_iff)
  with d obtain c u where u: "t = c # u" "is_digit c" by (auto simp: dated_def split: list.splits)
  then have "c < CHR ''l''" by (simp add: is_digit_def less_char_def)
  then have "t \<le> ''latest.yaml''" by (simp add: u)
  with prefix_le [of "''server-''" t "''latest.yaml''"] t show ?thesis by simp
qed

lemma last_sorted: "x \<in> set xs \<Longrightarrow> (\<And>y. y \<in> set xs \<Longrightarrow> y \<le> x) \<Longrightarrow> last (sort xs) = (x :: string)"
proof -
  assume x: "x \<in> set xs" and max: "\<And>y. y \<in> set xs \<Longrightarrow> y \<le> x"
  obtain ys z where s: "sort xs = ys @ [z]" using x by (cases "sort xs" rule: rev_cases) auto
  then have "sorted (ys @ [z])" using sorted_sort [of xs] by simp
  then have "\<forall>y\<in>set (sort xs). y \<le> z" unfolding s by (auto simp: sorted_append)
  then have "x \<le> z" using x by simp
  moreover have "z \<in> set (sort xs)" by (simp add: s)
  then have "z \<le> x" using max by simp
  ultimately show ?thesis by (simp add: s)
qed

lemma files_in_put: "set (files_in dir (write_file f d s)) = set (files_in dir s) \<union> (if has_prefix f (dir @ ''/'') \<and> slash \<notin> set (drop (length dir + 1) f)
    then {drop (length dir + 1) f} else {})"
proof -
  have "set (map fst (st_files (write_file f d s))) = insert f (set (map fst (st_files s)))"
    using keys_al_put [of f d "st_files s"] by (simp add: write_file_def)
  then show ?thesis unfolding files_in_def set_map set_filter by auto
qed

lemma join_name:
  assumes "is_abs dir" "path_clean dir = dir" "path_comps dir \<noteq> []" "comp_ok name" "name \<noteq> ''..''"
  shows "path_join dir name = dir @ ''/'' @ name"
proof -
  have raw: "raw_comps name = [name]" using assms(4) by (simp add: raw_comps_one)
  have "path_join dir name = render True (path_comps dir @ [name])"
    using path_join_plain [OF assms(1), of name] raw assms(5) by simp
  moreover have "dir = render True (path_comps dir)" using assms(1,2) by (simp add: path_clean_def)
  ultimately show ?thesis using assms(3) by (metis render_append [of "path_comps dir" "[name]" True] join_with.simps(2) not_Cons_self2)
qed


lemma backup_dir_clean:
  assumes "is_abs dataDir"
  shows "is_abs (backup_dir dataDir)" "path_clean (backup_dir dataDir) = backup_dir dataDir" "path_comps (backup_dir dataDir) \<noteq> []"
proof -
  have ne: "dataDir \<noteq> []" using assms by auto
  have raw: "raw_comps ''backup'' = [''backup'']" by (rule raw_comps_one) (simp add: comp_ok_def)
  show "is_abs (backup_dir dataDir)" using assms ne by (simp add: backup_dir_def path_join_def is_abs_append)
  show "path_clean (backup_dir dataDir) = backup_dir dataDir" using ne by (simp add: backup_dir_def path_join_clean)
  show "path_comps (backup_dir dataDir) \<noteq> []"
    using path_comps_join [OF ne, of "''backup''"] raw by (simp add: backup_dir_def walk_plain)
qed

lemma join_backup:
  assumes "is_abs dataDir" "comp_ok name" "name \<noteq> ''..''"
  shows "path_join (backup_dir dataDir) name = backup_dir dataDir @ ''/'' @ name"
  using join_name [OF backup_dir_clean [OF assms(1)] assms(2,3)] .

lemma backup_name: "is_backup name \<Longrightarrow> slash \<notin> set name \<Longrightarrow> comp_ok name \<and> name \<noteq> ''..''"
  by (auto simp: is_backup_def has_prefix_iff comp_ok_def)

lemma found_latest:
  assumes "is_abs dataDir" "backups_dated (backup_dir dataDir) s" "''server-latest.yaml'' \<in> set (files_in (backup_dir dataDir) s)"
  shows "last (sort (map (path_join (backup_dir dataDir)) (filter is_backup (files_in (backup_dir dataDir) s))))
    = path_join (backup_dir dataDir) ''server-latest.yaml''"
proof (rule last_sorted)
  have b: "is_backup ''server-latest.yaml''" by code_simp
  with assms(3) show "path_join (backup_dir dataDir) ''server-latest.yaml''
      \<in> set (map (path_join (backup_dir dataDir)) (filter is_backup (files_in (backup_dir dataDir) s)))" by simp
  fix y
  assume "y \<in> set (map (path_join (backup_dir dataDir)) (filter is_backup (files_in (backup_dir dataDir) s)))"
  then obtain name where n: "name \<in> set (files_in (backup_dir dataDir) s)" "is_backup name" "y = path_join (backup_dir dataDir) name" by auto
  have "slash \<notin> set name" using n(1) by (auto simp: files_in_def)
  with n(2) have y: "y = backup_dir dataDir @ ''/'' @ name" unfolding n(3) using backup_name join_backup [OF assms(1)] by blast
  have "path_join (backup_dir dataDir) ''server-latest.yaml'' = backup_dir dataDir @ ''/'' @ ''server-latest.yaml''"
    using join_backup [OF assms(1)] backup_name [OF b] by simp
  moreover have "name \<le> ''server-latest.yaml''"
    using assms(2) n(1,2) dated_before_latest [of name] by (auto simp: backups_dated_def list_all_iff)
  ultimately show "y \<le> path_join (backup_dir dataDir) ''server-latest.yaml''" by (simp add: y prefix_le)
qed

lemma backup_effect:
  assumes "backupServerConfig stamp dataDir s = (Inr target, s1)" "serverConfigPath s = (Inr path, s0)"
    "path \<noteq> path_join (backup_dir dataDir) (''server-'' @ stamp @ ''.yaml'')"
  obtains c where "map_of (st_files s0) path = Some c"
    "s1 = write_file (path_join (backup_dir dataDir) ''server-latest.yaml'') c
        (write_file (path_join (backup_dir dataDir) (''server-'' @ stamp @ ''.yaml'')) c (mkdir_all (backup_dir dataDir) s0))"
proof -
  have files: "st_files (mkdir_all d x) = st_files x" for d x by (simp add: mkdir_all_def)
  from assms(1,2) obtain c where c: "map_of (st_files s0) path = Some c"
    by (auto simp: backupServerConfig_def copyFile_def Let_def files split: if_splits option.splits)
  moreover have "map_of (st_files (write_file (path_join (backup_dir dataDir) (''server-'' @ stamp @ ''.yaml'')) c (mkdir_all (backup_dir dataDir) s0))) path
      = Some c" using c assms(3) by (simp add: write_file_def files)
  ultimately show ?thesis using assms(1,2) that
    by (auto simp: backupServerConfig_def copyFile_def Let_def files split: if_splits)
qed

text \<open>
  C21: restoring the configuration brings back the one that was backed up last: whatever was written to \<open>server.yaml\<close> since, the
  restore succeeds and leaves the file with the contents it had at the time of the backup, although it chooses the last
  candidate by name among all the dated backups.
\<close>

theorem backup_restores:
  assumes "backupServerConfig stamp dataDir s = (Inr target, s1)" "serverConfigPath s = (Inr path, s0)" "is_abs dataDir"
    and "stamp \<noteq> []" "is_digit (hd stamp)" "slash \<notin> set stamp" "backups_dated (backup_dir dataDir) s"
    and "\<not> has_prefix path (backup_dir dataDir @ ''/'')"
  shows "\<exists>src s2. restoreServerConfig example dataDir False (write_file path edited s1) = (Inr src, s2)
    \<and> map_of (st_files s2) path = map_of (st_files s) path"
proof -
  let ?dir = "backup_dir dataDir" and ?name = "''server-'' @ stamp @ ''.yaml''" and ?s = "write_file path edited s1"
  let ?latest = "path_join ?dir ''server-latest.yaml''"
  have names: "path_join ?dir ?name = ?dir @ ''/'' @ ?name" "?latest = ?dir @ ''/'' @ ''server-latest.yaml''"
    using assms(6) by (simp_all add: join_backup [OF assms(3)] comp_ok_def)
  have ne: "path \<noteq> path_join ?dir ?name" "path \<noteq> ?latest" using assms(8) unfolding names by (auto simp: has_prefix_def)
  from backup_effect [OF assms(1,2) ne(1)] obtain c where c: "map_of (st_files s0) path = Some c"
    "s1 = write_file ?latest c (write_file (path_join ?dir ?name) c (mkdir_all ?dir s0))" .
  obtain t where t: "TenantByID s 1 = Inr t" "path = path_join (path_join (st_dataDir s) (''userdata/'' @ tn_Slug t)) ''server.yaml''"
    "s0 = mkdir_all (path_join (st_dataDir s) (''userdata/'' @ tn_Slug t)) s"
    using assms(2) by (auto simp: serverConfigPath_def ServerYAMLPath_def Let_def split: sum.splits)
  let ?root = "path_join (st_dataDir s) (''userdata/'' @ tn_Slug t)"
  have s0: "st_files s0 = st_files s" "st_tenants s0 = st_tenants s" "st_dataDir s0 = st_dataDir s" by (simp_all add: t(3) mkdir_all_def)
  have "TenantByID ?s 1 = Inr t" using t(1) by (simp add: TenantByID_def write_file_def c(2) mkdir_all_def s0)
  moreover have "st_dataDir ?s = st_dataDir s" by (simp add: write_file_def c(2) mkdir_all_def s0)
  ultimately have path: "serverConfigPath ?s = (Inr path, mkdir_all ?root ?s)"
    unfolding serverConfigPath_def ServerYAMLPath_def Let_def by (simp add: t(2))
  let ?s2 = "mkdir_all (path_dir path) (mkdir_all ?root ?s)"
  have files: "st_files ?s2 = st_files ?s" by (simp add: mkdir_all_def)
  have ex: "dir_exists ?s2 ?dir" by (simp add: dir_exists_def mkdir_all_def write_file_def c(2))
  have listed: "set (files_in ?dir ?s2) = set (files_in ?dir s) \<union> {?name, ''server-latest.yaml''}"
  proof -
    have "files_in ?dir ?s2 = files_in ?dir ?s" "files_in ?dir (mkdir_all ?dir s0) = files_in ?dir s"
      using files by (simp_all add: files_in_def mkdir_all_def s0)
    then show ?thesis using assms(6,8) unfolding c(2) files_in_put names by (auto simp: files_in_put has_prefix_def)
  qed
  have "dated ?name" using assms(4,5) by (cases stamp) (simp_all add: dated_def)
  then have "backups_dated ?dir ?s2" using assms(7) listed by (auto simp: backups_dated_def list_all_iff)
  from found_latest [OF assms(3) this] listed have last: "last (sort (map (path_join ?dir) (filter is_backup (files_in ?dir ?s2)))) = ?latest"
    by simp
  have "is_backup ''server-latest.yaml''" by code_simp
  with listed have found: "filter is_backup (files_in ?dir ?s2) \<noteq> []" by (auto simp: filter_empty_conv)
  have "map_of (st_files ?s2) ?latest = Some c" using ne(2) unfolding files by (simp add: write_file_def c(2))
  then have "copyFile ?latest path ?s2 = (Inr (), write_file path c ?s2)" by (simp add: copyFile_def)
  then have "restoreServerConfig example dataDir False ?s = (Inr ?latest, write_file path c ?s2)"
    using path ex found last by (simp add: restoreServerConfig_def Let_def)
  moreover have "map_of (st_files (write_file path c ?s2)) path = map_of (st_files s) path" using c(1) by (simp add: write_file_def s0)
  ultimately show ?thesis by blast
qed

definition sample_config :: store where
  "sample_config = (empty_store ''/d'')\<lparr>st_tenants := \<lparr>trows = [\<lparr>tn_ID = 1, tn_Slug = ''default'', tn_Name = ''Default'', tn_CreatedAt = None\<rparr>],
     tnext = 2\<rparr>, st_files := [(''/d/userdata/default/server.yaml'', ''servers: {}''), (''/d/backup/server-20250101-000000.yaml'', ''old'')]\<rparr>"

lemma backup_restores_witness:
  "\<exists>src s2. restoreServerConfig None ''/d'' False (write_file ''/d/userdata/default/server.yaml'' ''broken''
       (snd (backupServerConfig ''20260101-120000'' ''/d'' sample_config))) = (Inr src, s2)
    \<and> map_of (st_files s2) ''/d/userdata/default/server.yaml'' = Some ''servers: {}''"
proof -
  have "fst (backupServerConfig ''20260101-120000'' ''/d'' sample_config) = Inr ''/d/backup/server-20260101-120000.yaml''"
    "fst (serverConfigPath sample_config) = Inr ''/d/userdata/default/server.yaml''" "is_abs ''/d''"
    "backups_dated (backup_dir ''/d'') sample_config" "\<not> has_prefix ''/d/userdata/default/server.yaml'' (backup_dir ''/d'' @ ''/'')"
    "map_of (st_files sample_config) ''/d/userdata/default/server.yaml'' = Some ''servers: {}''" "is_digit (CHR ''2'')"
    by code_simp+
  then show ?thesis
    using backup_restores [of "''20260101-120000''" "''/d''" sample_config "''/d/backup/server-20260101-120000.yaml''"
        "snd (backupServerConfig ''20260101-120000'' ''/d'' sample_config)" "''/d/userdata/default/server.yaml''"
        "snd (serverConfigPath sample_config)" None "''broken''"]
    by (simp add: prod_eq_iff)
qed

end
