(* ===== verification/ServerControl.thy ===== *)
theory ServerControl
  imports ConfigBackup
begin

text \<open>
  The server command (\<open>cmd/express233-server/main.go\<close>, \<open>control.go\<close>, \<open>service.go\<close>, \<open>internal/instancelock\<close>): a machine with
  data directories, the servers that run on it and its service manager, and the commands that start, stop, move and update
  a server.  The service manager, the release host, and how a new process fares are the parameters \<open>ctl_env\<close>; a server that
  runs answers at the URL of its listen address.
\<close>

section \<open>The machine\<close>

record runtime_state =
  rs_PID :: int
  rs_Addr :: string
  rs_DataDir :: string
  rs_ControlToken :: string
  rs_StartedAt :: string
  rs_Version :: string

text \<open>
  Per data directory the address in \<open>server-runtime.json\<close>, the contents of \<open>server-state.json\<close> and of \<open>server.pid\<close>, and the
  store; an unreadable file holds an error.  Beside them the service files and scripts, and the servers that run, each
  with its copies of \<open>server.yaml\<close>.
\<close>

record machine =
  mc_config :: "(string \<times> string res) list"
  mc_state :: "(string \<times> runtime_state res) list"
  mc_pid :: "(string \<times> string) list"
  mc_store :: "string \<Rightarrow> store"
  mc_files :: "(string \<times> string) list"
  mc_servers :: "(runtime_state \<times> (int \<times> server_file) list) list"

text \<open>A process about to be started: its number, its random control token, its time, and what else is on its port.\<close>

record process =
  pr_PID :: int
  pr_Token :: string
  pr_Now :: go_time
  pr_StartedAt :: string
  pr_Dial :: "string \<Rightarrow> bool"
  pr_Get :: "string \<Rightarrow> (int \<times> string) option"

record ctl_env =
  ce_goos :: string
  ce_goarch :: string
  ce_getenv :: "string \<Rightarrow> string"
  ce_home :: string
  ce_exe :: string
  ce_version :: string
  ce_PID :: int
  ce_example :: "string option"
  ce_yaml :: yaml_codec
  ce_remote :: "string \<Rightarrow> string"
  ce_next :: "machine \<Rightarrow> process"
  ce_stops :: "runtime_state \<Rightarrow> bool"
  ce_frozen :: "runtime_state \<Rightarrow> bool"
  ce_query :: "string list \<Rightarrow> machine \<Rightarrow> bool"
  ce_run :: "string list \<Rightarrow> machine \<Rightarrow> unit res \<times> machine"
  ce_latest :: "string res"
  ce_download :: "string \<Rightarrow> string res"
  ce_script :: "string list \<Rightarrow> unit res"
  ce_stamp :: string
  ce_now :: go_time
  ce_hash :: "string \<Rightarrow> string"
  ce_userToken :: string

text \<open>Sequencing of fallible steps: an error ends the command.\<close>

definition after_step :: "'a res \<times> machine \<Rightarrow> ('a \<Rightarrow> machine \<Rightarrow> 'b res \<times> machine) \<Rightarrow> 'b res \<times> machine" where
  "after_step r f = (case r of (Inl e, m) \<Rightarrow> (Inl e, m) | (Inr x, m) \<Rightarrow> f x m)"

lemma after_step_simps [simp]: "after_step (Inl e, m) f = (Inl e, m)" "after_step (Inr x, m) f = f x m"
  by (simp_all add: after_step_def)

definition on_dir_store :: "string \<Rightarrow> (store \<Rightarrow> 'a res \<times> store) \<Rightarrow> machine \<Rightarrow> 'a res \<times> machine" where
  "on_dir_store d f m = (case f (mc_store m d) of (r, s) \<Rightarrow> (r, m\<lparr>mc_store := (mc_store m)(d := s)\<rparr>))"

section \<open>Files of a data directory\<close>

definition resolveDataDir :: "ctl_env \<Rightarrow> string \<Rightarrow> bool \<Rightarrow> string" where
  "resolveDataDir env flagValue flagSet =
     (if flagSet \<and> trim_space flagValue \<noteq> [] then flagValue
      else if ce_getenv env ''EXPRESS233_DATA'' \<noteq> [] then ce_getenv env ''EXPRESS233_DATA''
      else path_join (ce_home env) ''.express233-server'')"

definition loadRuntimeConfig :: "string \<Rightarrow> machine \<Rightarrow> string res" where
  "loadRuntimeConfig d m = (case map_of (mc_config m) d of None \<Rightarrow> Inr [] | Some c \<Rightarrow> c)"

definition saveRuntimeConfig :: "string \<Rightarrow> string \<Rightarrow> machine \<Rightarrow> machine" where
  "saveRuntimeConfig d addr m = m\<lparr>mc_config := al_put d (Inr addr) (mc_config m)\<rparr>"

definition resolveListenAddr :: "ctl_env \<Rightarrow> machine \<Rightarrow> string \<Rightarrow> string \<Rightarrow> bool \<Rightarrow> string res" where
  "resolveListenAddr env m d flagValue flagSet =
     (if flagSet \<and> trim_space flagValue \<noteq> [] then Inr flagValue
      else if ce_getenv env ''EXPRESS233_ADDR'' \<noteq> [] then Inr (ce_getenv env ''EXPRESS233_ADDR'')
      else case loadRuntimeConfig d m of
          Inl e \<Rightarrow> Inl e
        | Inr addr \<Rightarrow> Inr (if trim_space addr \<noteq> [] then addr else defaultListenAddr))"

definition saveRuntimeState :: "string \<Rightarrow> runtime_state \<Rightarrow> machine \<Rightarrow> machine" where
  "saveRuntimeState d st m =
     m\<lparr>mc_state := al_put d (Inr st) (mc_state m), mc_pid := al_put d (show_int (rs_PID st) @ [CHR 0x0A]) (mc_pid m)\<rparr>"

definition removeRuntimeState :: "string \<Rightarrow> machine \<Rightarrow> machine" where
  "removeRuntimeState d m = m\<lparr>mc_state := al_del d (mc_state m), mc_pid := al_del d (mc_pid m)\<rparr>"

definition healthzOK :: "string \<Rightarrow> machine \<Rightarrow> bool" where
  "healthzOK addr m = list_ex (\<lambda>(s, _). browserURL (rs_Addr s) = browserURL addr) (mc_servers m)"

definition no_state :: runtime_state where
  "no_state = \<lparr>rs_PID = 0, rs_Addr = [], rs_DataDir = [], rs_ControlToken = [], rs_StartedAt = [], rs_Version = []\<rparr>"

definition loadRuntimeState :: "string \<Rightarrow> machine \<Rightarrow> (runtime_state \<times> bool) res" where
  "loadRuntimeState d m =
     (case map_of (mc_state m) d of
        None \<Rightarrow> Inr (no_state, False)
      | Some (Inl e) \<Rightarrow> Inl e
      | Some (Inr st) \<Rightarrow> Inr (st, trim_space (rs_Addr st) \<noteq> [] \<and> healthzOK (rs_Addr st) m))"

definition cleanupRuntimeState :: "string \<Rightarrow> int \<Rightarrow> machine \<Rightarrow> machine" where
  "cleanupRuntimeState d pid m =
     (case map_of (mc_pid m) d of
        Some text_ \<Rightarrow> if trim_space text_ \<noteq> show_int pid then m else removeRuntimeState d m
      | None \<Rightarrow> removeRuntimeState d m)"

section \<open>A server's life\<close>

text \<open>\<open>instancelock.Acquire\<close>: the lock of a data directory is held by the process that serves it.\<close>

definition Acquire :: "string \<Rightarrow> machine \<Rightarrow> unit res" where
  "Acquire d m =
     (if list_ex (\<lambda>(s, _). rs_DataDir s = d) (mc_servers m) then Inl (ErrMsg ''another controller owns this data directory'')
      else Inr ())"

definition new_state :: "ctl_env \<Rightarrow> process \<Rightarrow> string \<Rightarrow> string \<Rightarrow> runtime_state" where
  "new_state env p listen d =
     \<lparr>rs_PID = pr_PID p, rs_Addr = listen, rs_DataDir = d, rs_ControlToken = pr_Token p, rs_StartedAt = pr_StartedAt p,
      rs_Version = ce_version env\<rparr>"

text \<open>\<open>serve\<close> up to the moment it listens: from there on the server runs.\<close>

definition serve :: "ctl_env \<Rightarrow> process \<Rightarrow> string \<Rightarrow> string \<Rightarrow> machine \<Rightarrow> unit res \<times> machine" where
  "serve env p listen d m =
     (case Acquire d m of
        Inl e \<Rightarrow> (Inl e, m)
      | Inr _ \<Rightarrow>
          after_step (on_dir_store d (\<lambda>s. (Inr (), ensureServerYAML (ce_example env) s)) m) (\<lambda>_ m1.
          after_step (on_dir_store d (InterruptPushDeployments (pr_Now p)) (saveRuntimeConfig d listen m1)) (\<lambda>_ m2.
            let st = new_state env p listen d;
                m3 = saveRuntimeState d st m2
            in case warnIfPortBlocked (pr_Dial p) (pr_Get p) listen of
                 Inl e \<Rightarrow> (Inl e, cleanupRuntimeState d (pr_PID p) m3)
               | Inr _ \<Rightarrow>
                   if \<not> is_ok (SplitHostPort listen) then (Inl (ErrMsg ''listen tcp: invalid address''), cleanupRuntimeState d (pr_PID p) m3)
                   else if healthzOK listen m then (Inl (ErrMsg ''bind: address already in use''), cleanupRuntimeState d (pr_PID p) m3)
                   else (Inr (), m3\<lparr>mc_servers := (st, []) # mc_servers m3\<rparr>))))"

text \<open>The end of \<open>serve\<close>, after a graceful shutdown.\<close>

definition serve_exit :: "runtime_state \<Rightarrow> machine \<Rightarrow> machine" where
  "serve_exit s m = cleanupRuntimeState (rs_DataDir s) (rs_PID s) (m\<lparr>mc_servers := filter (\<lambda>(x, _). x \<noteq> s) (mc_servers m)\<rparr>)"

text \<open>A process that is killed leaves its files behind.\<close>

definition serve_killed :: "runtime_state \<Rightarrow> machine \<Rightarrow> machine" where
  "serve_killed s m = m\<lparr>mc_servers := filter (\<lambda>(x, _). x \<noteq> s) (mc_servers m)\<rparr>"

section \<open>Control requests\<close>

text \<open>The server that a control request for an address reaches, if it lets it pass.\<close>

definition postControl :: "ctl_env \<Rightarrow> runtime_state \<Rightarrow> machine \<Rightarrow> (runtime_state \<times> (int \<times> server_file) list) res" where
  "postControl env st m =
     (case find (\<lambda>(s, _). browserURL (rs_Addr s) = browserURL (rs_Addr st)) (mc_servers m) of
        None \<Rightarrow> Inl (ErrMsg ''connection refused'')
      | Some (s, loaded) \<Rightarrow>
          if authorizeControlRequest \<lparr>cr_Method = ''POST'', cr_RemoteAddr = ce_remote env (browserURL (rs_Addr st)),
               cr_Token = rs_ControlToken st\<rparr> (rs_ControlToken s)
          then Inr (s, loaded)
          else Inl (ErrMsg ''control request failed: forbidden''))"

definition stopServer :: "ctl_env \<Rightarrow> runtime_state \<Rightarrow> machine \<Rightarrow> unit res \<times> machine" where
  "stopServer env st m =
     (if rs_ControlToken st = [] then (Inl (ErrMsg ''runtime control token missing''), m)
      else case postControl env st m of
          Inl e \<Rightarrow> (Inl e, m)
        | Inr (s, _) \<Rightarrow> if ce_stops env s then (Inr (), serve_exit s m) else (Inl (ErrMsg ''timeout waiting for shutdown''), m))"

text \<open>The handler of \<open>/__admin/reload-config\<close> in the server that is reached.\<close>

definition reloadServer :: "ctl_env \<Rightarrow> runtime_state \<Rightarrow> machine \<Rightarrow> unit res \<times> machine" where
  "reloadServer env st m =
     (case postControl env st m of
        Inl e \<Rightarrow> (Inl e, m)
      | Inr (s, loaded) \<Rightarrow>
          (case ReloadAllServerYAML (ce_yaml env) (ce_frozen env s) \<lparr>ap_store = mc_store m (rs_DataDir s), ap_servers = loaded, ap_sessions = []\<rparr> of
             (Inl e, _) \<Rightarrow> (Inl (ErrMsg ''control request failed''), m)
           | (Inr _, a) \<Rightarrow>
               (Inr (), m\<lparr>mc_store := (mc_store m)(rs_DataDir s := ap_store a),
                          mc_servers := map (\<lambda>(x, l). if x = s then (x, ap_servers a) else (x, l)) (mc_servers m)\<rparr>)))"

text \<open>The background server: a process that is given the command line \<open>serve -data d -addr listen\<close>.\<close>

definition serve_flags :: flag_spec where
  "serve_flags = [(''version'', BoolFlag), (''addr'', StringFlag), (''data'', StringFlag)]"

definition runServe :: "ctl_env \<Rightarrow> process \<Rightarrow> string list \<Rightarrow> machine \<Rightarrow> string res \<times> machine" where
  "runServe env p args m =
     (case parse_flags serve_flags args of
        Inl e \<Rightarrow> (Inl e, m)
      | Inr fa \<Rightarrow>
          if flag_bool fa ''version'' False then (Inr (ce_version env @ [CHR 0x0A]), m)
          else (let d = resolveDataDir env (flag_string fa ''data'' []) (flag_given fa ''data'')
                in case resolveListenAddr env m d (flag_string fa ''addr'' []) (flag_given fa ''addr'') of
                     Inl e \<Rightarrow> (Inl e, m)
                   | Inr listen \<Rightarrow> after_step (serve env p (normalizeListenAddr listen) d m) (\<lambda>_ m1. (Inr [], m1))))"

definition startDetachedServer :: "ctl_env \<Rightarrow> string \<Rightarrow> string \<Rightarrow> machine \<Rightarrow> runtime_state res \<times> machine" where
  "startDetachedServer env d listen m =
     (let m1 = snd (runServe env (ce_next env m) [''-data'', d, ''-addr'', listen] m)
      in case loadRuntimeState d m1 of
           Inr (st, True) \<Rightarrow> (Inr st, m1)
         | _ \<Rightarrow> (Inl (ErrMsg ''server started but runtime state was not published in time''), m1))"

section \<open>One controller per data directory\<close>

text \<open>
  Running servers have directories and addresses of their own, and the files of a directory name the server that runs in
  it; a state file is of its directory, and its token belongs to no other server.
\<close>

definition control_ok :: "(string \<times> runtime_state res) list \<Rightarrow> (string \<times> string) list \<Rightarrow> runtime_state list \<Rightarrow> bool" where
  "control_ok S P V \<longleftrightarrow>
     distinct (map rs_DataDir V)
     \<and> (\<forall>s\<in>set V. map_of S (rs_DataDir s) = Some (Inr s) \<and> map_of P (rs_DataDir s) = Some (show_int (rs_PID s) @ [CHR 0x0A])
          \<and> is_ok (SplitHostPort (rs_Addr s)))
     \<and> (\<forall>d st. map_of S d = Some (Inr st) \<longrightarrow> rs_DataDir st = d \<and> (\<forall>s\<in>set V. rs_ControlToken s = rs_ControlToken st \<longrightarrow> s = st))"

definition servers_ok :: "machine \<Rightarrow> bool" where
  "servers_ok m \<longleftrightarrow> control_ok (mc_state m) (mc_pid m) (map fst (mc_servers m))"

text \<open>What the invariant is about.\<close>

definition control_core :: "machine \<Rightarrow> (string \<times> runtime_state res) list \<times> (string \<times> string) list \<times> runtime_state list" where
  "control_core m = (mc_state m, mc_pid m, map fst (mc_servers m))"

lemma servers_ok_cong: "control_core m = control_core m' \<Longrightarrow> servers_ok m = servers_ok m'"
  by (simp add: servers_ok_def control_core_def)

lemma core_simps [simp]:
  "control_core (saveRuntimeConfig d a m) = control_core m"
  "control_core (snd (on_dir_store d f m)) = control_core m"
  by (simp_all add: control_core_def saveRuntimeConfig_def on_dir_store_def split: prod.split)

lemma core_store: "on_dir_store d f m = (r, m') \<Longrightarrow> control_core m' = control_core m"
  using core_simps(2) [of d f m] by simp

lemma core_files: "on_dir_store d f m = (r, m') \<Longrightarrow> mc_files m' = mc_files m \<and> mc_servers m' = mc_servers m \<and> mc_config m' = mc_config m"
  by (auto simp: on_dir_store_def split: prod.splits)

text \<open>A token that no server and no state file has.\<close>

definition fresh_token :: "string \<Rightarrow> machine \<Rightarrow> bool" where
  "fresh_token token m \<longleftrightarrow> token \<noteq> [] \<and> (\<forall>s\<in>set (map fst (mc_servers m)). rs_ControlToken s \<noteq> token)
     \<and> (\<forall>d st. map_of (mc_state m) d = Some (Inr st) \<longrightarrow> rs_ControlToken st \<noteq> token)"

lemma free_head: "\<forall>p\<in>set ps. p = [] \<or> hd p \<noteq> c \<Longrightarrow> rune_free ps (c # t)"
proof -
  assume h: "\<forall>p\<in>set ps. p = [] \<or> hd p \<noteq> c"
  have "\<not> has_prefix (c # t) p" if "p \<in> set ps" "p \<noteq> []" for p
    using h that by (cases p) (auto simp: has_prefix_def)
  then show ?thesis by (auto simp: rune_free_def)
qed

definition number_char :: "char \<Rightarrow> bool" where
  "number_char c \<longleftrightarrow> is_digit c \<or> c = CHR ''-''"

lemma number_char_no_space:
  assumes "number_char c"
  shows "rune_free space_runes (c # t)" "rune_free (map rev space_runes) (c # t)"
proof -
  have "c \<notin> set [CHR 0x09, CHR 0x0A, CHR 0x0B, CHR 0x0C, CHR 0x0D, CHR 0x20, CHR 0xC2, CHR 0xE1, CHR 0xE2, CHR 0xE3]"
    using assms by (auto simp: number_char_def is_digit_def)
  then show "rune_free space_runes (c # t)" by (intro free_head) (auto simp: space_runes_def)
  have "c \<notin> set [CHR 0x09, CHR 0x0A, CHR 0x0B, CHR 0x0C, CHR 0x0D, CHR 0x20, CHR 0x85, CHR 0xA0, CHR 0x80, CHR 0x81, CHR 0x82, CHR 0x83,
      CHR 0x84, CHR 0x86, CHR 0x87, CHR 0x88, CHR 0x89, CHR 0x8A, CHR 0xA8, CHR 0xA9, CHR 0xAF, CHR 0x9F]"
    using assms by (auto simp: number_char_def is_digit_def)
  then show "rune_free (map rev space_runes) (c # t)" by (intro free_head) (auto simp: space_runes_def)
qed

lemma trim_number_line: "trim_space (show_int i @ [CHR 0x0A]) = show_int i"
proof -
  have num: "\<forall>c\<in>set (show_int i). number_char c" using show_nat_digits by (auto simp: show_int_def number_char_def)
  have ne: "show_int i \<noteq> []" by (simp add: show_int_def)
  obtain c t where c: "show_int i = c # t" using ne by (cases "show_int i") auto
  obtain e u where e: "rev (show_int i) = e # u" using ne by (cases "rev (show_int i)") auto
  have cn: "number_char c" using num c by simp
  have "e \<in> set (show_int i)" using e by (metis list.set_intros(1) set_rev)
  then have en: "number_char e" using num by blast
  have left: "trim_left (show_int i @ [CHR 0x0A]) = show_int i @ [CHR 0x0A]"
    unfolding trim_left_def c append_Cons by (rule strip_runes_id, rule number_char_no_space, rule cn)
  have "strip_runes (map rev space_runes) (CHR 0x0A # rev (show_int i)) = strip_runes (map rev space_runes) (rev (show_int i))"
    by (subst strip_runes.simps) (simp add: space_runes_def has_prefix_def)
  also have "\<dots> = rev (show_int i)" unfolding e by (rule strip_runes_id, rule number_char_no_space, rule en)
  finally show ?thesis by (simp add: trim_space_def left trim_right_def)
qed

lemma cleanup_saved [simp]:
  "rs_PID st = pid \<Longrightarrow> cleanupRuntimeState d pid (saveRuntimeState d st m) = removeRuntimeState d (saveRuntimeState d st m)"
  by (simp add: cleanupRuntimeState_def saveRuntimeState_def trim_number_line)

lemma ok_files:
  assumes "control_ok S P V" "s \<in> set V"
  shows "map_of S (rs_DataDir s) = Some (Inr s)" "map_of P (rs_DataDir s) = Some (show_int (rs_PID s) @ [CHR 0x0A])"
    "is_ok (SplitHostPort (rs_Addr s))"
  using assms by (simp_all add: control_ok_def)

lemma ok_state:
  assumes "control_ok S P V" "map_of S d = Some (Inr st)"
  shows "rs_DataDir st = d" "s \<in> set V \<Longrightarrow> rs_ControlToken s = rs_ControlToken st \<Longrightarrow> s = st"
  using assms by (simp_all add: control_ok_def)

lemma ok_forget:
  assumes "control_ok S P V" "d \<notin> rs_DataDir ` set V"
    and "map_of S' d = None" "\<And>x. x \<noteq> d \<Longrightarrow> map_of S' x = map_of S x" "\<And>x. x \<noteq> d \<Longrightarrow> map_of P' x = map_of P x"
  shows "control_ok S' P' V"
proof -
  have own: "rs_DataDir s \<noteq> d" if "s \<in> set V" for s using that assms(2) by auto
  have kept: "map_of S x = Some (Inr st)" if "map_of S' x = Some (Inr st)" for x st using assms(3,4) that by (cases "x = d") auto
  show ?thesis
    unfolding control_ok_def
  proof (intro conjI ballI allI impI)
    show "distinct (map rs_DataDir V)" using assms(1) by (simp add: control_ok_def)
    fix s
    assume s: "s \<in> set V"
    note files = ok_files [OF assms(1) s]
    show "map_of S' (rs_DataDir s) = Some (Inr s)" using files(1) assms(4) [OF own [OF s]] by simp
    show "map_of P' (rs_DataDir s) = Some (show_int (rs_PID s) @ [CHR 0x0A])" using files(2) assms(5) [OF own [OF s]] by simp
    show "is_ok (SplitHostPort (rs_Addr s))" by (rule files(3))
  next
    fix x st
    assume "map_of S' x = Some (Inr st)"
    note old = ok_state [OF assms(1) kept [OF this]]
    show "rs_DataDir st = x" by (rule old(1))
    show "s = st" if "s \<in> set V" "rs_ControlToken s = rs_ControlToken st" for s by (rule old(2) [OF that])
  qed
qed

lemma ok_start:
  assumes "control_ok S P V" "rs_DataDir st \<notin> rs_DataDir ` set V" "is_ok (SplitHostPort (rs_Addr st))"
    and "\<And>s. s \<in> set V \<Longrightarrow> rs_ControlToken s \<noteq> rs_ControlToken st"
    and "\<And>x st'. map_of S x = Some (Inr st') \<Longrightarrow> rs_ControlToken st' \<noteq> rs_ControlToken st"
  shows "control_ok (al_put (rs_DataDir st) (Inr st) S) (al_put (rs_DataDir st) (show_int (rs_PID st) @ [CHR 0x0A]) P) (st # V)"
proof -
  have own: "rs_DataDir s \<noteq> rs_DataDir st" if "s \<in> set V" for s using that assms(2) by (metis imageI)
  show ?thesis
    unfolding control_ok_def
  proof (intro conjI allI impI ballI)
    show "distinct (map rs_DataDir (st # V))" using assms(1,2) by (simp add: control_ok_def)
    fix s
    assume "s \<in> set (st # V)"
    then show "map_of (al_put (rs_DataDir st) (Inr st) S) (rs_DataDir s) = Some (Inr s)"
      "map_of (al_put (rs_DataDir st) (show_int (rs_PID st) @ [CHR 0x0A]) P) (rs_DataDir s) = Some (show_int (rs_PID s) @ [CHR 0x0A])"
      "is_ok (SplitHostPort (rs_Addr s))"
      using assms(1,3) own by (auto simp: control_ok_def)
  next
    fix d x
    assume x: "map_of (al_put (rs_DataDir st) (Inr st) S) d = Some (Inr x)"
    then show "rs_DataDir x = d" using assms(1) by (auto simp: control_ok_def split: if_splits)
    fix s
    assume s: "s \<in> set (st # V)" "rs_ControlToken s = rs_ControlToken x"
    show "s = x"
    proof (cases "d = rs_DataDir st")
      case True
      with x have "x = st" by simp
      with s assms(4) show ?thesis by auto
    next
      case False
      with x have d: "map_of S d = Some (Inr x)" by simp
      have "s \<in> set V" using s assms(5) [OF d] by auto
      from ok_state(2) [OF assms(1) d this s(2)] show ?thesis .
    qed
  qed
qed

lemma ok_stopped: "control_ok S P V \<Longrightarrow> control_ok S P (filter Q V)"
  by (auto simp: control_ok_def distinct_map_filter)

lemma ok_own: "control_ok S P V \<Longrightarrow> s \<in> set V \<Longrightarrow> rs_DataDir s \<notin> rs_DataDir ` set (filter (\<lambda>x. x \<noteq> s) V)"
  by (auto simp: control_ok_def distinct_map inj_on_def)

lemma servers_stopped: "map fst (filter (\<lambda>(x, _). Q x) l) = filter Q (map fst l)"
  by (induction l) auto

lemma exit_servers: "map fst (mc_servers (serve_exit s m)) = filter (\<lambda>x. x \<noteq> s) (map fst (mc_servers m))"
  "mc_files (serve_exit s m) = mc_files m"
  by (simp_all add: serve_exit_def cleanupRuntimeState_def removeRuntimeState_def servers_stopped split: option.split)

text \<open>A server that ends removes the files of its directory.\<close>

lemma exit_ok:
  assumes "servers_ok m" "s \<in> set (map fst (mc_servers m))"
  shows "servers_ok (serve_exit s m) \<and> map_of (mc_state (serve_exit s m)) (rs_DataDir s) = None"
proof -
  let ?m = "m\<lparr>mc_servers := filter (\<lambda>(x, _). x \<noteq> s) (mc_servers m)\<rparr>"
  have pid: "map_of (mc_pid m) (rs_DataDir s) = Some (show_int (rs_PID s) @ [CHR 0x0A])"
    using ok_files(2) assms unfolding servers_ok_def by blast
  have e: "serve_exit s m = removeRuntimeState (rs_DataDir s) ?m"
    by (simp add: serve_exit_def cleanupRuntimeState_def pid trim_number_line)
  have "control_ok (mc_state m) (mc_pid m) (filter (\<lambda>x. x \<noteq> s) (map fst (mc_servers m)))"
    using assms(1) ok_stopped by (simp add: servers_ok_def)
  moreover have "rs_DataDir s \<notin> rs_DataDir ` set (filter (\<lambda>x. x \<noteq> s) (map fst (mc_servers m)))"
    using assms ok_own unfolding servers_ok_def by blast
  ultimately have "control_ok (al_del (rs_DataDir s) (mc_state m)) (al_del (rs_DataDir s) (mc_pid m)) (filter (\<lambda>x. x \<noteq> s) (map fst (mc_servers m)))"
    by (rule ok_forget) (simp_all add: map_of_al_del)
  then show ?thesis unfolding e by (simp add: servers_ok_def removeRuntimeState_def servers_stopped map_of_al_del)
qed

lemma killed_ok: "servers_ok m \<Longrightarrow> servers_ok (serve_killed s m)"
  by (simp add: servers_ok_def serve_killed_def servers_stopped ok_stopped)

lemma remove_ok: "servers_ok m \<Longrightarrow> d \<notin> rs_DataDir ` set (map fst (mc_servers m)) \<Longrightarrow> servers_ok (removeRuntimeState d m)"
  unfolding servers_ok_def removeRuntimeState_def by simp (rule ok_forget, auto simp: map_of_al_del)

lemma new_state_simps [simp]:
  "rs_PID (new_state env p listen d) = pr_PID p" "rs_Addr (new_state env p listen d) = listen" "rs_DataDir (new_state env p listen d) = d"
  "rs_ControlToken (new_state env p listen d) = pr_Token p"
  by (simp_all add: new_state_def)

text \<open>How \<open>serve\<close> ends: refused, failed with the files of its directory removed, or listening.\<close>

lemma serve_cases:
  assumes "serve env p listen d m = (r, m')"
  obtains (refused) e where "r = Inl e" "control_core m' = control_core m" "mc_files m' = mc_files m" "mc_servers m' = mc_servers m"
    | (failed) e m2 where "r = Inl e" "control_core m2 = control_core m" "mc_files m2 = mc_files m" "mc_servers m2 = mc_servers m"
        "d \<notin> rs_DataDir ` set (map fst (mc_servers m))" "m' = removeRuntimeState d (saveRuntimeState d (new_state env p listen d) m2)"
    | (listening) m2 where "r = Inr ()" "control_core m2 = control_core m" "mc_files m2 = mc_files m" "mc_servers m2 = mc_servers m"
        "d \<notin> rs_DataDir ` set (map fst (mc_servers m))" "is_ok (SplitHostPort listen)" "\<not> healthzOK listen m"
        "m' = (saveRuntimeState d (new_state env p listen d) m2)\<lparr>mc_servers := (new_state env p listen d, []) # mc_servers m\<rparr>"
        "map_of (mc_config m') d = Some (Inr listen)"
proof (cases "Acquire d m")
  case (Inl e)
  then have "r = Inl e" "m' = m" using assms by (simp_all add: serve_def)
  with refused show ?thesis by simp
next
  case (Inr u)
  let ?st = "new_state env p listen d"
  have free: "d \<notin> rs_DataDir ` set (map fst (mc_servers m))" using Inr by (auto simp: Acquire_def list_ex_iff split: if_splits)
  obtain r1 m1 where m1: "on_dir_store d (\<lambda>s. (Inr (), ensureServerYAML (ce_example env) s)) m = (r1, m1)" by fastforce
  then have r1: "r1 = Inr ()" by (simp add: on_dir_store_def)
  obtain r2 m2 where m2: "on_dir_store d (InterruptPushDeployments (pr_Now p)) (saveRuntimeConfig d listen m1) = (r2, m2)" by fastforce
  have core: "control_core m2 = control_core m" using core_store [OF m2] core_store [OF m1] by simp
  have files: "mc_files m2 = mc_files m" "mc_servers m2 = mc_servers m"
    using core_files [OF m2] core_files [OF m1] by (simp_all add: saveRuntimeConfig_def)
  have config: "map_of (mc_config m2) d = Some (Inr listen)" using core_files [OF m2] by (simp add: saveRuntimeConfig_def)
  let ?m3 = "saveRuntimeState d ?st m2"
  have s3: "mc_servers ?m3 = mc_servers m" using files by (simp add: saveRuntimeState_def)
  show ?thesis
  proof (cases r2)
    case (Inl e)
    then have "r = Inl e" "m' = m2" using assms by (simp_all add: serve_def Inr m1 r1 m2)
    with refused core files show ?thesis by simp
  next
    case r2: (Inr u2)
    have run: "(r, m') = (case warnIfPortBlocked (pr_Dial p) (pr_Get p) listen of
        Inl e \<Rightarrow> (Inl e, removeRuntimeState d ?m3)
      | Inr _ \<Rightarrow> if \<not> is_ok (SplitHostPort listen) then (Inl (ErrMsg ''listen tcp: invalid address''), removeRuntimeState d ?m3)
          else if healthzOK listen m then (Inl (ErrMsg ''bind: address already in use''), removeRuntimeState d ?m3)
          else (Inr (), ?m3\<lparr>mc_servers := (?st, []) # mc_servers m\<rparr>))"
      unfolding assms [symmetric] serve_def
      by (cases "warnIfPortBlocked (pr_Dial p) (pr_Get p) listen") (simp_all add: Inr m1 r1 m2 r2 Let_def s3)
    show ?thesis
    proof (cases "is_ok r")
      case False
      then have "\<exists>e. r = Inl e \<and> m' = removeRuntimeState d ?m3" using run by (cases r) (auto split: sum.splits if_splits)
      then show ?thesis using failed core files free by blast
    next
      case True
      then have "r = Inr () \<and> is_ok (SplitHostPort listen) \<and> \<not> healthzOK listen m \<and> m' = ?m3\<lparr>mc_servers := (?st, []) # mc_servers m\<rparr>"
        using run by (auto split: sum.splits if_splits)
      moreover from this have "map_of (mc_config m') d = Some (Inr listen)" using config by (simp add: saveRuntimeState_def)
      ultimately show ?thesis using listening core files free by blast
    qed
  qed
qed

lemma serve_ok:
  assumes "servers_ok m" "fresh_token (pr_Token p) m" "serve env p listen d m = (r, m')"
  shows "servers_ok m' \<and> mc_files m' = mc_files m"
  using assms(3)
proof (cases rule: serve_cases)
  case (refused e)
  with assms(1) servers_ok_cong show ?thesis by blast
next
  case (failed e m2)
  have "control_ok (mc_state m) (mc_pid m) (map fst (mc_servers m))" using assms(1) by (simp add: servers_ok_def)
  then have "control_ok (mc_state m') (mc_pid m') (map fst (mc_servers m))"
    by (rule ok_forget [OF _ failed(5)])
      (use failed in \<open>simp_all add: control_core_def removeRuntimeState_def saveRuntimeState_def map_of_al_del\<close>)
  with failed show ?thesis by (simp add: servers_ok_def removeRuntimeState_def saveRuntimeState_def)
next
  case (listening m2)
  let ?st = "new_state env p listen d"
  have "control_ok (mc_state m) (mc_pid m) (map fst (mc_servers m))" using assms(1) by (simp add: servers_ok_def)
  then have "control_ok (al_put (rs_DataDir ?st) (Inr ?st) (mc_state m)) (al_put (rs_DataDir ?st) (show_int (rs_PID ?st) @ [CHR 0x0A]) (mc_pid m))
      (?st # map fst (mc_servers m))"
    by (rule ok_start) (use listening assms(2) in \<open>auto simp: fresh_token_def\<close>)
  with listening show ?thesis by (simp add: servers_ok_def saveRuntimeState_def control_core_def)
qed

section \<open>Stopping\<close>

text \<open>A control request that passes reaches the server whose token it carries.\<close>

lemma post_server:
  assumes "servers_ok m" "map_of (mc_state m) d = Some (Inr st)" "postControl env st m = Inr (s, loaded)"
  shows "s = st" "st \<in> set (map fst (mc_servers m))" "rs_DataDir st = d"
proof -
  from assms(3) have "find (\<lambda>(s, _). browserURL (rs_Addr s) = browserURL (rs_Addr st)) (mc_servers m) = Some (s, loaded)"
    and token: "rs_ControlToken s = rs_ControlToken st"
    by (auto simp: postControl_def authorizeControlRequest_def split: option.splits if_splits)
  then have "(s, loaded) \<in> set (mc_servers m)" using find_Some_iff2 by fast
  then have s: "s \<in> set (map fst (mc_servers m))" by force
  have ok: "control_ok (mc_state m) (mc_pid m) (map fst (mc_servers m))" using assms(1) by (simp add: servers_ok_def)
  show "s = st" by (rule ok_state(2) [OF ok assms(2) s token])
  with s show "st \<in> set (map fst (mc_servers m))" by simp
  show "rs_DataDir st = d" by (rule ok_state(1) [OF ok assms(2)])
qed

lemma stop_cases:
  assumes "servers_ok m" "map_of (mc_state m) d = Some (Inr st)" "stopServer env st m = (r, m')"
  shows "(\<exists>e. r = Inl e \<and> m' = m) \<or> (r = Inr () \<and> m' = serve_exit st m \<and> st \<in> set (map fst (mc_servers m)) \<and> rs_DataDir st = d)"
proof (cases "postControl env st m")
  case (Inl e)
  with assms(3) show ?thesis by (auto simp: stopServer_def split: if_splits)
next
  case (Inr p)
  obtain s loaded where p: "p = (s, loaded)" by fastforce
  note server = post_server [OF assms(1,2) Inr [unfolded p]]
  with assms(3) Inr p show ?thesis by (auto simp: stopServer_def split: if_splits)
qed

lemma running_state:
  assumes "servers_ok m" "loadRuntimeState d m = Inr (st, True)"
  shows "map_of (mc_state m) d = Some (Inr st)"
  using assms(2) by (auto simp: loadRuntimeState_def split: option.splits sum.splits)

lemma colon_not_blank: "colon \<in> set s \<Longrightarrow> trim_space s \<noteq> []"
proof -
  have strip: "colon \<in> set t \<Longrightarrow> \<forall>p\<in>set ps. colon \<notin> set p \<Longrightarrow> colon \<in> set (strip_runes ps t)" for ps t
  proof (induction ps t rule: strip_runes.induct)
    case (1 ps t)
    show ?case
    proof (cases "find (\<lambda>p. p \<noteq> [] \<and> has_prefix t p) ps")
      case None
      with 1 show ?thesis by (subst strip_runes.simps) simp
    next
      case (Some p)
      then have "p \<in> set ps" "has_prefix t p" by (auto dest: find_Some_iff2)
      then have "colon \<in> set (drop (length p) t)" using "1.prems" by (auto simp: has_prefix_iff)
      with 1 Some show ?thesis by (subst strip_runes.simps) simp
    qed
  qed
  have free: "\<forall>p\<in>set space_runes. colon \<notin> set p" by (simp add: space_runes_def)
  assume "colon \<in> set s"
  then have "colon \<in> set (trim_left s)" using strip [of s space_runes] free by (simp add: trim_left_def)
  then have "colon \<in> set (trim_space s)" using strip [of "rev (trim_left s)" "map rev space_runes"] free
    by (simp add: trim_space_def trim_right_def)
  then show ?thesis by auto
qed

text \<open>A directory's state names the server that runs in it.\<close>

lemma running_loaded:
  assumes "servers_ok m" "s \<in> set (map fst (mc_servers m))"
  shows "loadRuntimeState (rs_DataDir s) m = Inr (s, True)"
proof -
  have ok: "control_ok (mc_state m) (mc_pid m) (map fst (mc_servers m))" using assms(1) by (simp add: servers_ok_def)
  obtain h p where "SplitHostPort (rs_Addr s) = Inr (h, p)" using ok_files(3) [OF ok assms(2)] by (auto simp: is_ok_iff)
  then obtain a b where "cut_last colon (rs_Addr s) = Some (a, b)" by (auto simp: SplitHostPort_def split: option.splits)
  then have "colon \<in> set (rs_Addr s)" using cut_last_Some by fastforce
  then have "trim_space (rs_Addr s) \<noteq> []" by (rule colon_not_blank)
  moreover have "healthzOK (rs_Addr s) m" using assms(2) by (force simp: healthzOK_def list_ex_iff)
  ultimately show ?thesis using ok_files(1) [OF ok assms(2)] by (simp add: loadRuntimeState_def)
qed

end
