(* ===== verification/ServerCommands.thy ===== *)
theory ServerCommands
  imports ServerControl
begin

text \<open>
  The operating system's service manager as the server command uses it (\<open>cmd/express233-server/service.go\<close>) and the commands
  themselves (\<open>main.go\<close>, \<open>runUpdate\<close> of \<open>control.go\<close>).  A command takes its arguments and the machine and returns what it
  prints, or its error, and the machine.
\<close>

section \<open>Autostart\<close>

record autostart_status =
  as_Backend :: string
  as_Enabled :: bool
  as_Active :: bool
  as_Detail :: string

definition off_status :: "string \<Rightarrow> autostart_status" where
  "off_status backend = \<lparr>as_Backend = backend, as_Enabled = False, as_Active = False, as_Detail = []\<rparr>"

definition has_file :: "string \<Rightarrow> machine \<Rightarrow> bool" where
  "has_file path m = (map_of (mc_files m) path \<noteq> None)"

definition detectAutostartStatus :: "ctl_env \<Rightarrow> string \<Rightarrow> machine \<Rightarrow> autostart_status res" where
  "detectAutostartStatus env d m =
     (if ce_goos env = ''linux'' then
        Inr (if has_file systemdUnitPath m
             then \<lparr>as_Backend = ''systemd'', as_Enabled = True,
                   as_Active = ce_query env [''systemctl'', ''is-active'', ''--quiet'', systemdServiceName] m, as_Detail = systemdUnitPath\<rparr>
             else off_status ''systemd'')
      else if ce_goos env = ''darwin'' then
        Inr (if has_file launchdPlistPath m
             then \<lparr>as_Backend = ''launchd'', as_Enabled = True,
                   as_Active = ce_query env [''launchctl'', ''print'', ''system/'' @ launchdLabel] m, as_Detail = launchdPlistPath\<rparr>
             else off_status ''launchd'')
      else if ce_goos env = ''windows'' then
        (if \<not> ce_query env [''schtasks'', ''/Query'', ''/TN'', windowsTaskName] m
         then Inr ((off_status ''schtasks'')\<lparr>as_Detail := windowsTaskName\<rparr>)
         else case loadRuntimeState d m of
             Inl e \<Rightarrow> Inl e
           | Inr (_, running) \<Rightarrow> Inr \<lparr>as_Backend = ''schtasks'', as_Enabled = True, as_Active = running, as_Detail = windowsTaskName\<rparr>)
      else Inr (off_status (ce_goos env)))"

definition enabled_backend :: "ctl_env \<Rightarrow> string \<Rightarrow> machine \<Rightarrow> string option" where
  "enabled_backend env d m =
     (case detectAutostartStatus env d m of Inl _ \<Rightarrow> None | Inr status \<Rightarrow> if as_Enabled status then Some (as_Backend status) else None)"

definition write_machine_file :: "string \<Rightarrow> string \<Rightarrow> machine \<Rightarrow> machine" where
  "write_machine_file path b m = m\<lparr>mc_files := al_put path b (mc_files m)\<rparr>"

definition remove_machine_file :: "string \<Rightarrow> machine \<Rightarrow> machine" where
  "remove_machine_file path m = m\<lparr>mc_files := al_del path (mc_files m)\<rparr>"

definition enableNativeAutostart :: "ctl_env \<Rightarrow> string \<Rightarrow> string \<Rightarrow> string \<Rightarrow> machine \<Rightarrow> unit res \<times> machine" where
  "enableNativeAutostart env exePath d listen m =
     (if ce_goos env = ''linux'' then
        after_step (ce_run env [''systemctl'', ''daemon-reload''] (write_machine_file systemdUnitPath (systemdUnitContent exePath d listen) m))
          (\<lambda>_. ce_run env [''systemctl'', ''enable'', ''--now'', systemdServiceName])
      else if ce_goos env = ''darwin'' then
        (let m1 = snd (ce_run env [''launchctl'', ''bootout'', ''system/'' @ launchdLabel]
                     (write_machine_file launchdPlistPath (launchdPlistContent exePath d listen) m))
         in after_step (ce_run env [''launchctl'', ''bootstrap'', ''system'', launchdPlistPath] m1)
              (\<lambda>_ m2. ce_run env [''launchctl'', ''kickstart'', ''-k'', ''system/'' @ launchdLabel]
                 (snd (ce_run env [''launchctl'', ''enable'', ''system/'' @ launchdLabel] m2))))
      else if ce_goos env = ''windows'' then
        after_step (ce_run env [''schtasks'', ''/Create'', ''/F'', ''/TN'', windowsTaskName, ''/SC'', ''ONSTART'', ''/RL'', ''HIGHEST'',
             ''/RU'', ''SYSTEM'', ''/TR'', windowsTaskCommand exePath d listen] m)
          (\<lambda>_. ce_run env [''schtasks'', ''/Run'', ''/TN'', windowsTaskName])
      else (Inl (ErrMsg (''autostart unsupported on '' @ ce_goos env)), m))"

definition bootstrapped :: "go_error \<Rightarrow> bool" where
  "bootstrapped e = (case e of ErrMsg t \<Rightarrow> contains t ''already bootstrapped'' | _ \<Rightarrow> False)"

definition startManagedAutostart :: "ctl_env \<Rightarrow> string \<Rightarrow> machine \<Rightarrow> unit res \<times> machine" where
  "startManagedAutostart env d m =
     (case detectAutostartStatus env d m of
        Inl e \<Rightarrow> (Inl e, m)
      | Inr status \<Rightarrow>
          if \<not> as_Enabled status then (Inl (ErrMsg ''autostart is not enabled''), m)
          else if ce_goos env = ''linux'' then ce_run env [''systemctl'', ''start'', systemdServiceName] m
          else if ce_goos env = ''darwin'' then
            (case ce_run env [''launchctl'', ''bootstrap'', ''system'', launchdPlistPath] m of
               (Inl e, m1) \<Rightarrow> if bootstrapped e
                 then ce_run env [''launchctl'', ''kickstart'', ''-k'', ''system/'' @ launchdLabel] m1 else (Inl e, m1)
             | (Inr _, m1) \<Rightarrow> ce_run env [''launchctl'', ''kickstart'', ''-k'', ''system/'' @ launchdLabel] m1)
          else if ce_goos env = ''windows'' then ce_run env [''schtasks'', ''/Run'', ''/TN'', windowsTaskName] m
          else (Inl (ErrMsg (''autostart unsupported on '' @ ce_goos env)), m))"

definition stopManagedAutostart :: "ctl_env \<Rightarrow> string \<Rightarrow> machine \<Rightarrow> unit res \<times> machine" where
  "stopManagedAutostart env d m =
     (case detectAutostartStatus env d m of
        Inl e \<Rightarrow> (Inl e, m)
      | Inr status \<Rightarrow>
          if \<not> as_Enabled status then (Inl (ErrMsg ''autostart is not enabled''), m)
          else if ce_goos env = ''linux'' then ce_run env [''systemctl'', ''stop'', systemdServiceName] m
          else if ce_goos env = ''darwin'' then ce_run env [''launchctl'', ''bootout'', ''system/'' @ launchdLabel] m
          else if ce_goos env = ''windows'' then
            (case ce_run env [''schtasks'', ''/End'', ''/TN'', windowsTaskName] m of
               (Inr _, m1) \<Rightarrow> (Inr (), m1)
             | (Inl _, m1) \<Rightarrow>
                 (case loadRuntimeState d m1 of
                    Inl e \<Rightarrow> (Inl e, m1)
                  | Inr (st, ok) \<Rightarrow> if \<not> ok then (Inr (), m1)
                      else after_step (stopServer env st m1) (\<lambda>_ m2. (Inr (), removeRuntimeState d m2))))
          else (Inl (ErrMsg (''autostart unsupported on '' @ ce_goos env)), m))"

definition restartManagedAutostart :: "ctl_env \<Rightarrow> string \<Rightarrow> machine \<Rightarrow> unit res \<times> machine" where
  "restartManagedAutostart env d m =
     (case detectAutostartStatus env d m of
        Inl e \<Rightarrow> (Inl e, m)
      | Inr status \<Rightarrow>
          if \<not> as_Enabled status then (Inl (ErrMsg ''autostart is not enabled''), m)
          else if ce_goos env = ''linux'' then ce_run env [''systemctl'', ''restart'', systemdServiceName] m
          else if ce_goos env = ''darwin'' then
            (case ce_run env [''launchctl'', ''bootstrap'', ''system'', launchdPlistPath]
                    (snd (ce_run env [''launchctl'', ''bootout'', ''system/'' @ launchdLabel] m)) of
               (Inl e, m1) \<Rightarrow> if bootstrapped e
                 then ce_run env [''launchctl'', ''kickstart'', ''-k'', ''system/'' @ launchdLabel] m1 else (Inl e, m1)
             | (Inr _, m1) \<Rightarrow> ce_run env [''launchctl'', ''kickstart'', ''-k'', ''system/'' @ launchdLabel] m1)
          else if ce_goos env = ''windows'' then after_step (stopManagedAutostart env d m) (\<lambda>_. startManagedAutostart env d)
          else (Inl (ErrMsg (''autostart unsupported on '' @ ce_goos env)), m))"

definition disableNativeAutostart :: "ctl_env \<Rightarrow> string \<Rightarrow> machine \<Rightarrow> unit res \<times> machine" where
  "disableNativeAutostart env d m =
     (case detectAutostartStatus env d m of
        Inl e \<Rightarrow> (Inl e, m)
      | Inr status \<Rightarrow>
          if \<not> as_Enabled status then (Inr (), m)
          else if ce_goos env = ''linux'' then
            ce_run env [''systemctl'', ''daemon-reload'']
              (remove_machine_file systemdUnitPath (snd (ce_run env [''systemctl'', ''disable'', ''--now'', systemdServiceName] m)))
          else if ce_goos env = ''darwin'' then
            (Inr (), remove_machine_file launchdPlistPath (snd (ce_run env [''launchctl'', ''bootout'', ''system/'' @ launchdLabel] m)))
          else if ce_goos env = ''windows'' then
            ce_run env [''schtasks'', ''/Delete'', ''/F'', ''/TN'', windowsTaskName]
              (snd (stopManagedAutostart env d (snd (ce_run env [''schtasks'', ''/End'', ''/TN'', windowsTaskName] m))))
          else (Inl (ErrMsg (''autostart unsupported on '' @ ce_goos env)), m))"

definition restartStrategyCommand :: "ctl_env \<Rightarrow> string \<Rightarrow> string \<Rightarrow> machine \<Rightarrow> string" where
  "restartStrategyCommand env d listen m =
     (if enabled_backend env d m \<noteq> None \<and> ce_goos env = ''linux'' then ''systemctl start '' @ systemdServiceName
      else if enabled_backend env d m \<noteq> None \<and> ce_goos env = ''darwin'' then ''launchctl kickstart -k system/'' @ launchdLabel
      else if enabled_backend env d m \<noteq> None \<and> ce_goos env = ''windows'' then ''schtasks /Run /TN '' @ windowsTaskName
      else if ce_goos env = ''windows'' then windows_restart_line
      else restart_line (ce_exe env) d listen)"

section \<open>Commands\<close>

definition data_flags :: flag_spec where
  "data_flags = [(''data'', StringFlag)]"

definition listen_flags :: flag_spec where
  "listen_flags = [(''addr'', StringFlag), (''data'', StringFlag)]"

definition data_dir :: "ctl_env \<Rightarrow> flag_args \<Rightarrow> string" where
  "data_dir env fa = resolveDataDir env (flag_string fa ''data'' []) (flag_given fa ''data'')"

definition listen_addr :: "ctl_env \<Rightarrow> machine \<Rightarrow> flag_args \<Rightarrow> string res" where
  "listen_addr env m fa =
     (case resolveListenAddr env m (data_dir env fa) (flag_string fa ''addr'' []) (flag_given fa ''addr'') of
        Inl e \<Rightarrow> Inl e | Inr listen \<Rightarrow> Inr (normalizeListenAddr listen))"

text \<open>A command parses its flags first and reports their errors.\<close>

definition with_flags :: "flag_spec \<Rightarrow> string list \<Rightarrow> (flag_args \<Rightarrow> machine \<Rightarrow> string res \<times> machine) \<Rightarrow> machine \<Rightarrow> string res \<times> machine" where
  "with_flags spec args f m = (case parse_flags spec args of Inl e \<Rightarrow> (Inl e, m) | Inr fa \<Rightarrow> f fa m)"

text \<open>A server of this data directory that runs is stopped.\<close>

definition stop_running :: "ctl_env \<Rightarrow> string \<Rightarrow> machine \<Rightarrow> unit res \<times> machine" where
  "stop_running env d m =
     (case loadRuntimeState d m of
        Inl e \<Rightarrow> (Inl e, m)
      | Inr (st, ok) \<Rightarrow> if ok then stopServer env st m else (Inr (), m))"

definition runStart :: "ctl_env \<Rightarrow> string list \<Rightarrow> machine \<Rightarrow> string res \<times> machine" where
  "runStart env args = with_flags listen_flags args (\<lambda>fa m.
     let d = data_dir env fa
     in case listen_addr env m fa of
          Inl e \<Rightarrow> (Inl e, m)
        | Inr listen \<Rightarrow>
            (case enabled_backend env d m of
               Some backend \<Rightarrow>
                 if flag_given fa ''addr'' \<or> flag_given fa ''data''
                 then (Inl (ErrMsg (''autostart is enabled via '' @ backend @ ''; rerun enable-autostart to change addr/data'')), m)
                 else after_step (startManagedAutostart env d m) (\<lambda>_ m1.
                   (Inr (''started express233-server via '' @ backend @ '' url='' @ browserURL listen @ '' addr='' @ listen @ '' data='' @ d @ [CHR 0x0A]), m1))
             | None \<Rightarrow>
                 (case loadRuntimeState d m of
                    Inl e \<Rightarrow> (Inl e, m)
                  | Inr (st, ok) \<Rightarrow>
                      if ok then (Inl (ErrMsg ''express233-server already running''), m)
                      else after_step (startDetachedServer env d listen (saveRuntimeConfig d listen m)) (\<lambda>state m1.
                        (Inr (''started express233-server pid='' @ show_int (rs_PID state) @ '' url='' @ browserURL (rs_Addr state)
                              @ '' data='' @ rs_DataDir state @ [CHR 0x0A]), m1)))))"

definition runStop :: "ctl_env \<Rightarrow> string list \<Rightarrow> machine \<Rightarrow> string res \<times> machine" where
  "runStop env args = with_flags data_flags args (\<lambda>fa m.
     let d = data_dir env fa
     in case enabled_backend env d m of
          Some backend \<Rightarrow> after_step (stopManagedAutostart env d m) (\<lambda>_ m1. (Inr (''stopped express233-server via '' @ backend @ [CHR 0x0A]), m1))
        | None \<Rightarrow>
            (case loadRuntimeState d m of
               Inl e \<Rightarrow> (Inl e, m)
             | Inr (st, ok) \<Rightarrow>
                 if \<not> ok then (Inr (''express233-server is not running'' @ [CHR 0x0A]), m)
                 else after_step (stopServer env st m) (\<lambda>_ m1.
                   (Inr (''stopped express233-server pid='' @ show_int (rs_PID st) @ [CHR 0x0A]), removeRuntimeState d m1))))"

definition runRestart :: "ctl_env \<Rightarrow> string list \<Rightarrow> machine \<Rightarrow> string res \<times> machine" where
  "runRestart env args = with_flags listen_flags args (\<lambda>fa m.
     let d = data_dir env fa
     in case enabled_backend env d m of
          Some backend \<Rightarrow>
            if flag_given fa ''addr'' \<or> flag_given fa ''data''
            then (Inl (ErrMsg (''autostart is enabled via '' @ backend @ ''; rerun enable-autostart to change addr/data'')), m)
            else after_step (restartManagedAutostart env d m) (\<lambda>_ m1. (Inr (''restarted express233-server via '' @ backend @ [CHR 0x0A]), m1))
        | None \<Rightarrow>
            (case listen_addr env m fa of
               Inl e \<Rightarrow> (Inl e, m)
             | Inr listen \<Rightarrow>
                 after_step (stop_running env d m) (\<lambda>_ m1.
                 after_step (startDetachedServer env d listen (saveRuntimeConfig d listen m1)) (\<lambda>state m2.
                   (Inr (''restarted express233-server pid='' @ show_int (rs_PID state) @ '' url='' @ browserURL (rs_Addr state) @ [CHR 0x0A]), m2)))))"

definition show_bool :: "bool \<Rightarrow> string" where
  "show_bool b = (if b then ''true'' else ''false'')"

definition autostart_lines :: "autostart_status \<Rightarrow> string list" where
  "autostart_lines auto =
     [''autostart_backend='' @ as_Backend auto, ''autostart_enabled='' @ show_bool (as_Enabled auto), ''autostart_active='' @ show_bool (as_Active auto)]"

definition runStatus :: "ctl_env \<Rightarrow> string list \<Rightarrow> machine \<Rightarrow> string res \<times> machine" where
  "runStatus env args = with_flags data_flags args (\<lambda>fa m.
     let d = data_dir env fa;
         auto = (case detectAutostartStatus env d m of Inl _ \<Rightarrow> [] | Inr a \<Rightarrow> autostart_lines a)
     in case resolveListenAddr env m d [] False of
          Inl e \<Rightarrow> (Inl e, m)
        | Inr configured0 \<Rightarrow>
            (case loadRuntimeState d m of
               Inl e \<Rightarrow> (Inl e, m)
             | Inr (st, ok) \<Rightarrow>
                 if ok then
                   (Inr (text_lines ([''status=running'', ''pid='' @ show_int (rs_PID st), ''addr='' @ rs_Addr st, ''url='' @ browserURL (rs_Addr st),
                      ''data='' @ rs_DataDir st, ''config='' @ serverRuntimeConfigPath d, ''default_port='' @ defaultPort] @ auto)), m)
                 else (let configured = normalizeListenAddr configured0
                       in (Inr (text_lines ([''status=stopped'', ''configured_addr='' @ configured, ''url='' @ browserURL configured,
                             ''data='' @ d, ''config='' @ serverRuntimeConfigPath d, ''default_port='' @ defaultPort] @ auto)), m))))"

definition runPort :: "ctl_env \<Rightarrow> string list \<Rightarrow> machine \<Rightarrow> string res \<times> machine" where
  "runPort env args = with_flags data_flags args (\<lambda>fa m.
     case resolveListenAddr env m (data_dir env fa) [] False of
       Inl e \<Rightarrow> (Inl e, m)
     | Inr listen0 \<Rightarrow>
         let listen = normalizeListenAddr listen0
         in case SplitHostPort listen of
              Inl e \<Rightarrow> (Inl e, m)
            | Inr (_, port) \<Rightarrow>
                (Inr (text_lines [''default_port='' @ defaultPort, ''configured_addr='' @ listen, ''configured_port='' @ port]), m))"

definition runSetPort :: "ctl_env \<Rightarrow> string list \<Rightarrow> machine \<Rightarrow> string res \<times> machine" where
  "runSetPort env args = with_flags [(''restart'', BoolFlag), (''data'', StringFlag)] args (\<lambda>fa m.
     case snd fa of
       [value] \<Rightarrow>
         let d = data_dir env fa
         in (case resolveListenAddr env m d [] False of
               Inl e \<Rightarrow> (Inl e, m)
             | Inr current \<Rightarrow>
                 (case normalizePortValue current value of
                    Inl e \<Rightarrow> (Inl e, m)
                  | Inr listen \<Rightarrow>
                      let m1 = saveRuntimeConfig d listen m; saved = ''saved configured_addr='' @ listen @ [CHR 0x0A]
                      in if \<not> flag_bool fa ''restart'' True then (Inr saved, m1)
                         else case loadRuntimeState d m1 of
                             Inl e \<Rightarrow> (Inl e, m1)
                           | Inr (st, ok) \<Rightarrow>
                               if \<not> ok then (Inr saved, m1)
                               else after_step (stopServer env st m1) (\<lambda>_ m2.
                                 after_step (startDetachedServer env d listen m2) (\<lambda>state m3.
                                   (Inr (saved @ ''restarted express233-server pid='' @ show_int (rs_PID state) @ '' url=''
                                         @ browserURL (rs_Addr state) @ [CHR 0x0A]), m3)))))
     | _ \<Rightarrow> (Inl (ErrMsg ''usage: express233-server set-port [--data DIR] [--restart=true] <port|host:port>''), m))"

definition runReloadConfig :: "ctl_env \<Rightarrow> string list \<Rightarrow> machine \<Rightarrow> string res \<times> machine" where
  "runReloadConfig env args = with_flags data_flags args (\<lambda>fa m.
     let d = data_dir env fa
     in after_step (on_dir_store d (validateServerConfig (ce_yaml env)) m) (\<lambda>_ m1.
          case loadRuntimeState d m1 of
            Inl e \<Rightarrow> (Inl e, m1)
          | Inr (st, ok) \<Rightarrow>
              if \<not> ok then (Inr (''config is valid; server not running, reload skipped'' @ [CHR 0x0A]), m1)
              else after_step (reloadServer env st m1) (\<lambda>_ m2. (Inr (''reloaded server.yaml from disk'' @ [CHR 0x0A]), m2))))"

definition runBackupConfig :: "ctl_env \<Rightarrow> string list \<Rightarrow> machine \<Rightarrow> string res \<times> machine" where
  "runBackupConfig env args = with_flags data_flags args (\<lambda>fa m.
     let d = data_dir env fa
     in after_step (on_dir_store d (backupServerConfig (ce_stamp env) d) m) (\<lambda>backup m1. (Inr (''backup created at '' @ backup @ [CHR 0x0A]), m1)))"

definition runRestoreConfig :: "ctl_env \<Rightarrow> string list \<Rightarrow> machine \<Rightarrow> string res \<times> machine" where
  "runRestoreConfig env args = with_flags [(''default'', BoolFlag), (''data'', StringFlag)] args (\<lambda>fa m.
     let d = data_dir env fa
     in after_step (on_dir_store d (restoreServerConfig (ce_example env) d (flag_bool fa ''default'' False)) m) (\<lambda>restored m1.
          let out = ''restored server config from '' @ restored @ [CHR 0x0A]
          in case loadRuntimeState d m1 of
               Inl e \<Rightarrow> (Inl e, m1)
             | Inr (st, ok) \<Rightarrow>
                 if \<not> ok then (Inr out, m1)
                 else after_step (reloadServer env st m1) (\<lambda>_ m2. (Inr (out @ ''reloaded restored config'' @ [CHR 0x0A]), m2))))"

definition runResetRootPassword :: "ctl_env \<Rightarrow> string list \<Rightarrow> machine \<Rightarrow> string res \<times> machine" where
  "runResetRootPassword env args = with_flags [(''data'', StringFlag), (''password'', StringFlag)] args (\<lambda>fa m.
     let password = flag_string fa ''password'' []; hash = ce_hash env password
     in if trim_space password = [] then (Inl (ErrMsg ''--password is required''), m)
        else after_step (on_dir_store (data_dir env fa) (resetRootPassword (ce_now env) hash hash (ce_userToken env)) m)
               (\<lambda>_ m1. (Inr (''root password updated'' @ [CHR 0x0A]), m1)))"

definition scheduleBinarySwap :: "ctl_env \<Rightarrow> string \<Rightarrow> string \<Rightarrow> string \<Rightarrow> bool \<Rightarrow> machine \<Rightarrow> unit res \<times> machine" where
  "scheduleBinarySwap env downloaded d listen restart m =
     (let scriptPath = path_join (runtimeDir d) (updaterScriptName (ce_goos env));
          content = updaterScriptContent (ce_goos env) (ce_exe env) downloaded d listen (ce_PID env) restart (restartStrategyCommand env d listen m);
          m1 = write_machine_file scriptPath content m
      in (ce_script env (if ce_goos env = ''windows'' then [''cmd'', ''/c'', scriptPath] else [''/bin/sh'', scriptPath]), m1))"

definition runUpdate :: "ctl_env \<Rightarrow> string list \<Rightarrow> machine \<Rightarrow> string res \<times> machine" where
  "runUpdate env args = with_flags [(''version'', StringFlag), (''restart'', BoolFlag), (''data'', StringFlag)] args (\<lambda>fa m.
     let d = data_dir env fa; restart = flag_bool fa ''restart'' True
     in case resolveListenAddr env m d [] False of
          Inl e \<Rightarrow> (Inl e, m)
        | Inr listen0 \<Rightarrow>
            (case resolveReleaseTag (ce_latest env) (flag_string fa ''version'' ''latest'') of
               Inl e \<Rightarrow> (Inl e, m)
             | Inr target \<Rightarrow>
                 (case loadRuntimeState d m of
                    Inl e \<Rightarrow> (Inl e, m)
                  | Inr (st, running) \<Rightarrow>
                      (case ce_download env (release_url (ce_goos env) (ce_goarch env) target) of
                         Inl e \<Rightarrow> (Inl e, m)
                       | Inr downloaded \<Rightarrow>
                           after_step (if running then stopServer env st m else (Inr (), m)) (\<lambda>_ m1.
                           after_step (scheduleBinarySwap env downloaded d (normalizeListenAddr listen0) restart m1) (\<lambda>_ m2.
                             (Inr (''scheduled update to '' @ target @ '' from '' @ downloaded @ [CHR 0x0A]
                               @ (if restart then ''the binary will be replaced and the server will restart automatically'' @ [CHR 0x0A] else [])), m2)))))))"

definition runEnableAutostart :: "ctl_env \<Rightarrow> string list \<Rightarrow> machine \<Rightarrow> string res \<times> machine" where
  "runEnableAutostart env args = with_flags listen_flags args (\<lambda>fa m.
     let d = data_dir env fa
     in case listen_addr env m fa of
          Inl e \<Rightarrow> (Inl e, m)
        | Inr listen \<Rightarrow>
            after_step (case loadRuntimeState d m of Inr (st, True) \<Rightarrow> stopServer env st m | _ \<Rightarrow> (Inr (), m)) (\<lambda>_ m1.
            after_step (enableNativeAutostart env (ce_exe env) d listen (saveRuntimeConfig d listen m1)) (\<lambda>_ m2.
              case detectAutostartStatus env d m2 of
                Inl e \<Rightarrow> (Inl e, m2)
              | Inr status \<Rightarrow> (Inr (''autostart enabled via '' @ as_Backend status @ [CHR 0x0A]
                  @ (if as_Detail status \<noteq> [] then ''detail='' @ as_Detail status @ [CHR 0x0A] else [])), m2))))"

definition runDisableAutostart :: "ctl_env \<Rightarrow> string list \<Rightarrow> machine \<Rightarrow> string res \<times> machine" where
  "runDisableAutostart env args = with_flags data_flags args (\<lambda>fa m.
     after_step (disableNativeAutostart env (data_dir env fa) m) (\<lambda>_ m1. (Inr (''autostart disabled'' @ [CHR 0x0A]), m1)))"

definition runAutostartStatus :: "ctl_env \<Rightarrow> string list \<Rightarrow> machine \<Rightarrow> string res \<times> machine" where
  "runAutostartStatus env args = with_flags data_flags args (\<lambda>fa m.
     case detectAutostartStatus env (data_dir env fa) m of
       Inl e \<Rightarrow> (Inl e, m)
     | Inr status \<Rightarrow> (Inr (text_lines (autostart_lines status @ (if as_Detail status \<noteq> [] then [''autostart_detail='' @ as_Detail status] else []))), m))"

text \<open>The dispatcher of the command line; \<open>usage\<close> is the text of the help.\<close>

definition run :: "ctl_env \<Rightarrow> string \<Rightarrow> string list \<Rightarrow> machine \<Rightarrow> string res \<times> machine" where
  "run env usage args m =
     (case args of
        [] \<Rightarrow> runServe env (ce_next env m) args m
      | command # rest \<Rightarrow>
          if has_prefix command ''-'' then runServe env (ce_next env m) args m
          else if command = ''run'' \<or> command = ''serve'' then runServe env (ce_next env m) rest m
          else if command = ''start'' then runStart env rest m
          else if command = ''stop'' then runStop env rest m
          else if command = ''restart'' then runRestart env rest m
          else if command = ''enable-autostart'' then runEnableAutostart env rest m
          else if command = ''disable-autostart'' then runDisableAutostart env rest m
          else if command = ''autostart-status'' then runAutostartStatus env rest m
          else if command = ''status'' then runStatus env rest m
          else if command = ''port'' then runPort env rest m
          else if command = ''set-port'' then runSetPort env rest m
          else if command = ''update'' then runUpdate env rest m
          else if command = ''reload-config'' then runReloadConfig env rest m
          else if command = ''backup-config'' then runBackupConfig env rest m
          else if command = ''restore-config'' then runRestoreConfig env rest m
          else if command = ''reset-root-password'' then runResetRootPassword env rest m
          else if command = ''version'' then (Inr (ce_version env @ [CHR 0x0A]), m)
          else if command = ''help'' then (Inr usage, m)
          else (Inl (ErrMsg ''unknown command''), m))"

section \<open>Every command keeps the machine in order\<close>

text \<open>
  What is relied on: control tokens are random, so a new one is in use nowhere; and the service manager, whatever it is
  asked to do, starts and stops servers the way the program does, so that it keeps the invariant.
\<close>

definition manager_ok :: "ctl_env \<Rightarrow> bool" where
  "manager_ok env \<longleftrightarrow> (\<forall>m. fresh_token (pr_Token (ce_next env m)) m) \<and> (\<forall>args m. servers_ok m \<longrightarrow> servers_ok (snd (ce_run env args m)))"

named_theorems keeps \<open>steps that keep the invariant of the machine\<close>

lemma keeps_after [keeps]:
  "servers_ok (snd r) \<Longrightarrow> (\<And>x m. r = (Inr x, m) \<Longrightarrow> servers_ok m \<Longrightarrow> servers_ok (snd (f x m))) \<Longrightarrow> servers_ok (snd (after_step r f))"
  by (cases r; cases "fst r") (auto simp: after_step_def)

lemma keeps_core [keeps]:
  "servers_ok m \<Longrightarrow> servers_ok (saveRuntimeConfig d a m)" "servers_ok m \<Longrightarrow> servers_ok (snd (on_dir_store d f m))"
  "servers_ok m \<Longrightarrow> servers_ok (write_machine_file p b m)" "servers_ok m \<Longrightarrow> servers_ok (remove_machine_file p m)"
  by (erule servers_ok_cong [THEN iffD1, rotated], simp add: control_core_def write_machine_file_def remove_machine_file_def
      saveRuntimeConfig_def on_dir_store_def split: prod.split)+

lemma keeps_run [keeps]: "manager_ok env \<Longrightarrow> servers_ok m \<Longrightarrow> servers_ok (snd (ce_run env args m))"
  by (simp add: manager_ok_def)

lemma keeps_with_flags [keeps]:
  "servers_ok m \<Longrightarrow> (\<And>fa. servers_ok (snd (f fa m))) \<Longrightarrow> servers_ok (snd (with_flags spec args f m))"
  by (simp add: with_flags_def split: sum.split)

lemma keeps_serve [keeps]: "servers_ok m \<Longrightarrow> fresh_token (pr_Token p) m \<Longrightarrow> servers_ok (snd (runServe env p args m))"
proof -
  assume m: "servers_ok m" and p: "fresh_token (pr_Token p) m"
  have "servers_ok (snd (serve env p listen d m))" for listen d using serve_ok [OF m p prod.collapse [symmetric]] by blast
  with m show ?thesis by (auto simp: runServe_def Let_def split: sum.split intro!: keeps_after)
qed

lemma keeps_detached [keeps]: "manager_ok env \<Longrightarrow> servers_ok m \<Longrightarrow> servers_ok (snd (startDetachedServer env d listen m))"
  using keeps_serve [of m "ce_next env m" env "[''-data'', d, ''-addr'', listen]"]
  by (auto simp: manager_ok_def startDetachedServer_def Let_def split: sum.split bool.split)

lemma stop_ok:
  assumes "servers_ok m" "loadRuntimeState d m = Inr (st, True)" "stopServer env st m = (r, m')"
  shows "servers_ok m'" "is_ok r \<Longrightarrow> map fst (mc_servers m') = filter (\<lambda>s. rs_DataDir s \<noteq> d) (map fst (mc_servers m))"
proof -
  from stop_cases [OF assms(1) running_state [OF assms(1,2)] assms(3)] consider
    e where "r = Inl e" "m' = m" | "r = Inr ()" "m' = serve_exit st m" "st \<in> set (map fst (mc_servers m))" "rs_DataDir st = d" by blast
  then show "servers_ok m'" using exit_ok [OF assms(1), of st] assms(1) by cases auto
  assume "is_ok r"
  then have st: "m' = serve_exit st m" "st \<in> set (map fst (mc_servers m))" "rs_DataDir st = d"
    using stop_cases [OF assms(1) running_state [OF assms(1,2)] assms(3)] by auto
  have "inj_on rs_DataDir (set (map fst (mc_servers m)))"
    using assms(1) unfolding servers_ok_def control_ok_def distinct_map by blast
  then have "filter (\<lambda>s. s \<noteq> st) (map fst (mc_servers m)) = filter (\<lambda>s. rs_DataDir s \<noteq> d) (map fst (mc_servers m))"
    using st(2,3) by (intro filter_cong) (auto dest: inj_onD)
  then show "map fst (mc_servers m') = filter (\<lambda>s. rs_DataDir s \<noteq> d) (map fst (mc_servers m))" by (simp add: st(1) exit_servers)
qed

lemma keeps_stop [keeps]: "servers_ok m \<Longrightarrow> loadRuntimeState d m = Inr (st, True) \<Longrightarrow> servers_ok (snd (stopServer env st m))"
  using stop_ok(1) [OF _ _ prod.collapse [symmetric]] by blast

lemma keeps_stopped:
  assumes "servers_ok m" "loadRuntimeState d m = Inr (st, True)" "stopServer env st m = (Inr x, m')"
  shows "servers_ok (removeRuntimeState d m')"
proof (rule remove_ok)
  show "servers_ok m'" using stop_ok(1) [OF assms] .
  have "map fst (mc_servers m') = filter (\<lambda>s. rs_DataDir s \<noteq> d) (map fst (mc_servers m))" by (rule stop_ok(2) [OF assms]) simp
  then show "d \<notin> rs_DataDir ` set (map fst (mc_servers m'))" by auto
qed

lemma keeps_reload [keeps]: "servers_ok m \<Longrightarrow> servers_ok (snd (reloadServer env st m))"
proof -
  have s: "map fst (map (\<lambda>(x, l). if x = t then (x, k) else (x, l)) ss) = map fst ss" for t :: runtime_state and k :: "(int \<times> server_file) list" and ss
    by (induction ss) auto
  assume "servers_ok m"
  moreover have "control_core (snd (reloadServer env st m)) = control_core m"
    using s by (auto simp: reloadServer_def control_core_def split: sum.split prod.split)
  ultimately show ?thesis using servers_ok_cong by blast
qed

lemma keeps_stop_running [keeps]: "servers_ok m \<Longrightarrow> servers_ok (snd (stop_running env d m))"
  using keeps_stop by (auto simp: stop_running_def split: sum.split)

lemma keeps_case [keeps]:
  "servers_ok (snd r) \<Longrightarrow> (\<And>e m. r = (Inl e, m) \<Longrightarrow> servers_ok m \<Longrightarrow> servers_ok (snd (f e m))) \<Longrightarrow>
   (\<And>x m. r = (Inr x, m) \<Longrightarrow> servers_ok m \<Longrightarrow> servers_ok (snd (g x m))) \<Longrightarrow>
   servers_ok (snd (case r of (Inl e, m) \<Rightarrow> f e m | (Inr x, m) \<Rightarrow> g x m))"
  "servers_ok (snd r) \<Longrightarrow> (\<And>x m. r = (Inr x, m) \<Longrightarrow> servers_ok m \<Longrightarrow> servers_ok (snd (g x m))) \<Longrightarrow>
   (\<And>e m. r = (Inl e, m) \<Longrightarrow> servers_ok m \<Longrightarrow> servers_ok (snd (f e m))) \<Longrightarrow>
   servers_ok (snd (case r of (Inr x, m) \<Rightarrow> g x m | (Inl e, m) \<Rightarrow> f e m))"
  by (cases r; cases "fst r"; auto)+

lemma keeps_if [keeps]: "(b \<Longrightarrow> servers_ok (snd x)) \<Longrightarrow> (\<not> b \<Longrightarrow> servers_ok (snd y)) \<Longrightarrow> servers_ok (snd (if b then x else y))"
  by simp

lemma keeps_result [keeps]:
  "(\<And>e. r = Inl e \<Longrightarrow> servers_ok (snd (f e))) \<Longrightarrow> (\<And>x. r = Inr x \<Longrightarrow> servers_ok (snd (g x))) \<Longrightarrow>
   servers_ok (snd (case r of Inl e \<Rightarrow> f e | Inr x \<Rightarrow> g x))"
  by (simp split: sum.split)

lemma keeps_option [keeps]:
  "(r = None \<Longrightarrow> servers_ok (snd f)) \<Longrightarrow> (\<And>x. r = Some x \<Longrightarrow> servers_ok (snd (g x))) \<Longrightarrow>
   servers_ok (snd (case r of None \<Rightarrow> f | Some x \<Rightarrow> g x))"
  by (simp split: option.split)

lemma keeps_prod [keeps]: "(\<And>a b. p = (a, b) \<Longrightarrow> servers_ok (snd (f a b))) \<Longrightarrow> servers_ok (snd (case p of (a, b) \<Rightarrow> f a b))"
  by (simp split: prod.split)

lemma keeps_single [keeps]:
  "(\<And>v. l = [v] \<Longrightarrow> servers_ok (snd (f v))) \<Longrightarrow> servers_ok (snd g) \<Longrightarrow> servers_ok (snd (case l of [v] \<Rightarrow> f v | _ \<Rightarrow> g))"
  by (simp split: list.split)

lemma keeps_pair [keeps]: "servers_ok m \<Longrightarrow> servers_ok (snd (r, m))"
  by simp

text \<open>The state that is loaded and the server that is stopped are of the same machine.\<close>

lemma keeps_loaded_stop:
  "servers_ok m \<Longrightarrow> loadRuntimeState d m = Inr (st, ok) \<Longrightarrow> ok \<Longrightarrow> servers_ok (snd (stopServer env st m))"
  using keeps_stop by simp

lemma keeps_managed_start [keeps]: "manager_ok env \<Longrightarrow> servers_ok m \<Longrightarrow> servers_ok (snd (startManagedAutostart env d m))"
  unfolding startManagedAutostart_def by (intro keeps; assumption)

lemma keeps_managed_stop [keeps]: "manager_ok env \<Longrightarrow> servers_ok m \<Longrightarrow> servers_ok (snd (stopManagedAutostart env d m))"
  unfolding stopManagedAutostart_def by (intro keeps; (assumption | auto intro: keeps_stopped keeps_loaded_stop)?)

lemma keeps_managed_restart [keeps]: "manager_ok env \<Longrightarrow> servers_ok m \<Longrightarrow> servers_ok (snd (restartManagedAutostart env d m))"
  unfolding restartManagedAutostart_def by (intro keeps; assumption)

lemma keeps_enable [keeps]: "manager_ok env \<Longrightarrow> servers_ok m \<Longrightarrow> servers_ok (snd (enableNativeAutostart env exe d listen m))"
  unfolding enableNativeAutostart_def Let_def by (intro keeps; assumption)

lemma keeps_disable [keeps]: "manager_ok env \<Longrightarrow> servers_ok m \<Longrightarrow> servers_ok (snd (disableNativeAutostart env d m))"
  unfolding disableNativeAutostart_def by (intro keeps; assumption)
lemma keeps_swap [keeps]: "servers_ok m \<Longrightarrow> servers_ok (snd (scheduleBinarySwap env downloaded d listen restart m))"
  unfolding scheduleBinarySwap_def Let_def by (intro keeps)

lemma keeps_commands:
  assumes "manager_ok env" "servers_ok m"
  shows "servers_ok (snd (runStart env args m))" "servers_ok (snd (runStop env args m))" "servers_ok (snd (runRestart env args m))"
    "servers_ok (snd (runStatus env args m))" "servers_ok (snd (runPort env args m))" "servers_ok (snd (runSetPort env args m))"
    "servers_ok (snd (runReloadConfig env args m))" "servers_ok (snd (runBackupConfig env args m))"
    "servers_ok (snd (runRestoreConfig env args m))" "servers_ok (snd (runResetRootPassword env args m))"
    "servers_ok (snd (runUpdate env args m))" "servers_ok (snd (runEnableAutostart env args m))"
    "servers_ok (snd (runDisableAutostart env args m))" "servers_ok (snd (runAutostartStatus env args m))"
proof -
  show "servers_ok (snd (runStart env args m))"
    unfolding runStart_def Let_def using assms by (intro keeps) (assumption+)
  show "servers_ok (snd (runStop env args m))"
    unfolding runStop_def Let_def using assms by (intro keeps) (assumption | auto intro: keeps_stopped keeps_loaded_stop)+
  show "servers_ok (snd (runRestart env args m))"
    unfolding runRestart_def Let_def using assms by (intro keeps) (assumption+)
  show "servers_ok (snd (runStatus env args m))"
    unfolding runStatus_def Let_def using assms by (intro keeps) (assumption+)
  show "servers_ok (snd (runPort env args m))"
    unfolding runPort_def Let_def using assms by (intro keeps) (assumption+)
  show "servers_ok (snd (runReloadConfig env args m))"
    unfolding runReloadConfig_def Let_def using assms by (intro keeps) (assumption+)
  show "servers_ok (snd (runBackupConfig env args m))"
    unfolding runBackupConfig_def Let_def using assms by (intro keeps) (assumption+)
  show "servers_ok (snd (runRestoreConfig env args m))"
    unfolding runRestoreConfig_def Let_def using assms by (intro keeps) (assumption+)
  show "servers_ok (snd (runResetRootPassword env args m))"
    unfolding runResetRootPassword_def Let_def using assms by (intro keeps) (assumption+)
  show "servers_ok (snd (runUpdate env args m))"
    unfolding runUpdate_def Let_def using assms by (intro keeps) (assumption | auto intro: keeps_loaded_stop)+
  show "servers_ok (snd (runDisableAutostart env args m))"
    unfolding runDisableAutostart_def Let_def using assms by (intro keeps) (assumption+)
  show "servers_ok (snd (runAutostartStatus env args m))"
    unfolding runAutostartStatus_def Let_def using assms by (intro keeps) (assumption+)
  show "servers_ok (snd (runEnableAutostart env args m))"
    unfolding runEnableAutostart_def Let_def using assms by (intro keeps) (assumption | auto intro: keeps_stop split: bool.split)+
  show "servers_ok (snd (runSetPort env args m))"
    unfolding runSetPort_def Let_def using assms by (intro keeps) (assumption | auto intro: keeps_loaded_stop keeps_core)+
qed

text \<open>What happens on a machine: commands, servers that end or are killed, and requests that servers handle.\<close>

inductive ctl_step :: "ctl_env \<Rightarrow> string \<Rightarrow> machine \<Rightarrow> machine \<Rightarrow> bool" for env usage where
  command: "ctl_step env usage m (snd (run env usage args m))"
| ended: "s \<in> set (map fst (mc_servers m)) \<Longrightarrow> ctl_step env usage m (serve_exit s m)"
| killed: "ctl_step env usage m (serve_killed s m)"
| handled: "ctl_step env usage m (m\<lparr>mc_store := (mc_store m)(d := s)\<rparr>)"

lemma step_ok: "ctl_step env usage m m' \<Longrightarrow> manager_ok env \<Longrightarrow> servers_ok m \<Longrightarrow> servers_ok m'"
proof (induction rule: ctl_step.induct)
  case (command m args)
  have serve: "servers_ok (snd (runServe env (ce_next env m) a m))" for a
    using keeps_serve command by (simp add: manager_ok_def)
  show ?case unfolding run_def
    using keeps_commands [OF command] serve command(2) by (cases args) (simp_all add: Let_def)
next
  case (handled m d s)
  then show ?case by (simp add: servers_ok_def)
qed (simp_all add: exit_ok killed_ok)


section \<open>Starting and stopping\<close>

text \<open>
  Without autostart, a stop that reports success has ended the server of its data directory and no other: the servers that run
  afterwards are those of the other directories, also where a stale state file names an address that another server uses.
\<close>

theorem stop_ends_own_server:
  assumes "runStop env args m = (Inr out, m')" "parse_flags data_flags args = Inr fa" "servers_ok m"
    and "enabled_backend env (data_dir env fa) m = None"
  shows "map fst (mc_servers m') = filter (\<lambda>s. rs_DataDir s \<noteq> data_dir env fa) (map fst (mc_servers m))"
proof -
  let ?d = "data_dir env fa"
  obtain st ok where load: "loadRuntimeState ?d m = Inr (st, ok)"
    using assms by (auto simp: runStop_def with_flags_def Let_def split: sum.splits)
  show ?thesis
  proof (cases ok)
    case True
    obtain r m1 where stop: "stopServer env st m = (r, m1)" by fastforce
    with assms load True have m': "r = Inr ()" "m' = removeRuntimeState ?d m1"
      by (cases r; simp add: runStop_def with_flags_def Let_def)+
    have "map fst (mc_servers m1) = filter (\<lambda>s. rs_DataDir s \<noteq> ?d) (map fst (mc_servers m))"
      using stop_ok(2) [OF assms(3) _ stop, of ?d] load True m'(1) by simp
    then show ?thesis by (simp add: m'(2) removeRuntimeState_def)
  next
    case False
    with assms load have "m' = m" by (simp add: runStop_def with_flags_def Let_def)
    moreover have "rs_DataDir s \<noteq> ?d" if "s \<in> set (map fst (mc_servers m))" for s
      using running_loaded [OF assms(3) that] load False by auto
    ultimately show ?thesis by (simp add: filter_id_conv)
  qed
qed

lemma serve_args:
  assumes "trim_space d \<noteq> []" "trim_space listen \<noteq> []"
  shows "runServe env p [''-data'', d, ''-addr'', listen] m = after_step (serve env p (normalizeListenAddr listen) d m) (\<lambda>_ m1. (Inr [], m1))"
proof -
  have flags: "parse_flags serve_flags [''-data'', d, ''-addr'', listen] = Inr ([(''data'', d), (''addr'', listen)], [])"
    using parse_pairs [of "[(''data'', d), (''addr'', listen)]" serve_flags "[]"]
    by (simp add: serve_flags_def flag_ident_def del: parse_flags.simps(2))
  show ?thesis using assms
    by (simp add: runServe_def flags flag_bool_def flag_string_def flag_given_def resolveDataDir_def resolveListenAddr_def
        del: parse_flags.simps(2))
qed


section \<open>Updating\<close>

lemma stop_servers: "stopServer env st m = (Inl e, m') \<Longrightarrow> m' = m"
  by (auto simp: stopServer_def split: sum.splits prod.splits if_splits)


section \<open>Where the commands fall short\<close>

text \<open>
  A control request is only accepted from a loopback address, but it is sent to the listen address: where the machine
  reaches that address from itself, a server that listens on an address of the network can be neither stopped nor reloaded.
\<close>

lemma stop_refused_off_loopback:
  assumes "SplitHostPort (ce_remote env (browserURL (rs_Addr st))) = Inr (host, port)" "host \<notin> {''127.0.0.1'', ''::1'', ''localhost''}"
  shows "\<exists>e. stopServer env st m = (Inl e, m)" "\<exists>e. reloadServer env st m = (Inl e, m)"
proof -
  have "\<not> authorizeControlRequest \<lparr>cr_Method = ''POST'', cr_RemoteAddr = ce_remote env (browserURL (rs_Addr st)), cr_Token = token\<rparr> t" for token t
    using assms by (auto simp: authorizeControlRequest_def)
  then have "\<exists>e. postControl env st m = Inl e" by (auto simp: postControl_def split: option.split)
  then show "\<exists>e. stopServer env st m = (Inl e, m)" "\<exists>e. reloadServer env st m = (Inl e, m)"
    by (auto simp: stopServer_def reloadServer_def)
qed

text \<open>\<open>set-port\<close> leaves the service files alone: with autostart, the next start of the service uses the old address.\<close>

lemma detached_files: "mc_files (snd (startDetachedServer env d listen m)) = mc_files m"
proof -
  have serve: "mc_files (snd (serve env p a x m)) = mc_files m" for p a x
  proof -
    obtain r m1 where r: "serve env p a x m = (r, m1)" by fastforce
    then have "mc_files m1 = mc_files m"
      by (cases rule: serve_cases) (simp_all add: removeRuntimeState_def saveRuntimeState_def)
    with r show ?thesis by simp
  qed
  have after: "mc_files (snd (after_step r (\<lambda>_ m1. (Inr x, m1)))) = mc_files (snd r)" for r :: "unit res \<times> machine" and x :: string
    by (cases r; cases "fst r") auto
  have "mc_files (snd (runServe env p args m)) = mc_files m" for p args
    using serve after by (auto simp: runServe_def Let_def split: sum.split)
  then show ?thesis by (auto simp: startDetachedServer_def Let_def split: sum.split bool.split)
qed

lemma set_port_keeps_service_files: "mc_files (snd (runSetPort env args m)) = mc_files m"
proof -
  have stop: "mc_files (snd (stopServer env st x)) = mc_files x" for st x
    by (auto simp: stopServer_def exit_servers split: sum.split)
  have after: "(\<And>x y. mc_files (snd (f x y)) = mc_files y) \<Longrightarrow> mc_files (snd (after_step r f)) = mc_files (snd r)"
    for f :: "'x \<Rightarrow> machine \<Rightarrow> string res \<times> machine" and r by (cases r; cases "fst r") auto
  have saved: "mc_files (saveRuntimeConfig d a x) = mc_files x" for d a x by (simp add: saveRuntimeConfig_def)
  show ?thesis
    unfolding runSetPort_def with_flags_def Let_def
    by (simp add: after stop detached_files saved split: sum.split list.split)
qed

section \<open>A machine with systemd\<close>

definition known_tokens :: "machine \<Rightarrow> string" where
  "known_tokens m = concat (map (\<lambda>(s, _). rs_ControlToken s) (mc_servers m))
     @ concat (map (\<lambda>(_, r). case r of Inl _ \<Rightarrow> [] | Inr st \<Rightarrow> rs_ControlToken st) (mc_state m))"

definition sample_next :: "machine \<Rightarrow> process" where
  "sample_next m = \<lparr>pr_PID = 7, pr_Token = CHR ''t'' # known_tokens m, pr_Now = 0, pr_StartedAt = [], pr_Dial = \<lambda>_. False, pr_Get = \<lambda>_. None\<rparr>"

definition sample_ctl :: ctl_env where
  "sample_ctl = \<lparr>ce_goos = ''linux'', ce_goarch = ''amd64'', ce_getenv = \<lambda>_. [], ce_home = ''/root'', ce_exe = ''/opt/x'', ce_version = ''1'',
     ce_PID = 5, ce_example = None, ce_yaml = \<lparr>yc_unmarshal = \<lambda>_. Some [], yc_marshal = \<lambda>_. Some []\<rparr>, ce_remote = \<lambda>_. ''127.0.0.1:9'',
     ce_next = sample_next, ce_stops = \<lambda>_. True, ce_frozen = \<lambda>_. False, ce_query = \<lambda>_ _. True,
     ce_run = \<lambda>args m. (Inr (), if args = [''systemctl'', ''stop'', systemdServiceName] then fold (\<lambda>(s, _). serve_killed s) (mc_servers m) m else m),
     ce_latest = Inr ''v1'', ce_download = \<lambda>_. Inr ''/tmp/x'', ce_script = \<lambda>_. Inr (), ce_stamp = ''20260101'', ce_now = 0, ce_hash = \<lambda>p. p,
     ce_userToken = ''u''\<rparr>"

definition sample_machine :: machine where
  "sample_machine = \<lparr>mc_config = [], mc_state = [], mc_pid = [], mc_store = \<lambda>_. sample_config, mc_files = [], mc_servers = []\<rparr>"

lemma in_concat_length: "x \<in> set xs \<Longrightarrow> length x \<le> length (concat xs)"
  by (induction xs) auto

lemma sample_fresh: "fresh_token (pr_Token (sample_next m)) m"
proof -
  have "length (rs_ControlToken s) \<le> length (known_tokens m)" if "s \<in> set (map fst (mc_servers m))" for s
  proof -
    from that have "rs_ControlToken s \<in> set (map (\<lambda>(s, _). rs_ControlToken s) (mc_servers m))" by force
    from in_concat_length [OF this] show ?thesis by (simp add: known_tokens_def)
  qed
  moreover have "length (rs_ControlToken st) \<le> length (known_tokens m)" if "map_of (mc_state m) d = Some (Inr st)" for d st
  proof -
    from map_of_SomeD [OF that] have "rs_ControlToken st \<in> set (map (\<lambda>(_, r). case r of Inl _ \<Rightarrow> [] | Inr st \<Rightarrow> rs_ControlToken st) (mc_state m))"
      by force
    from in_concat_length [OF this] show ?thesis by (simp add: known_tokens_def)
  qed
  ultimately show ?thesis unfolding fresh_token_def sample_next_def by fastforce
qed

lemma sample_manager: "manager_ok sample_ctl"
proof -
  have "servers_ok m \<Longrightarrow> servers_ok (fold (\<lambda>(s, _). serve_killed s) ss m)" for ss :: "(runtime_state \<times> (int \<times> server_file) list) list" and m
    by (induction ss arbitrary: m) (auto intro: killed_ok)
  then show ?thesis using sample_fresh by (simp add: manager_ok_def sample_ctl_def)
qed

lemma sample_servers_ok: "servers_ok sample_machine"
  by (simp add: servers_ok_def control_ok_def sample_machine_def)


lemma stop_ends_own_server_witness:
  "map fst (mc_servers (snd (runStop sample_ctl [''-data'', ''/d''] (snd (runStart sample_ctl [''-data'', ''/d'', ''-addr'', '':80''] sample_machine))))) = []"
proof -
  let ?m = "snd (runStart sample_ctl [''-data'', ''/d'', ''-addr'', '':80''] sample_machine)"
  have ok: "servers_ok ?m" using keeps_commands(1) [OF sample_manager sample_servers_ok] .
  have "is_ok (fst (runStop sample_ctl [''-data'', ''/d''] ?m))" by code_simp
  then obtain out where out: "runStop sample_ctl [''-data'', ''/d''] ?m = (Inr out, snd (runStop sample_ctl [''-data'', ''/d''] ?m))"
    using ok_pair by blast
  have facts: "parse_flags data_flags [''-data'', ''/d''] = Inr ([(''data'', ''/d'')], [])"
    "data_dir sample_ctl ([(''data'', ''/d'')], []) = ''/d''" "enabled_backend sample_ctl ''/d'' ?m = None"
    "map (rs_DataDir \<circ> fst) (mc_servers ?m) = [''/d'']" by code_simp+
  from facts(4) have "map fst (mc_servers ?m) = [fst (hd (mc_servers ?m))] \<and> rs_DataDir (fst (hd (mc_servers ?m))) = ''/d''"
    by (cases "mc_servers ?m") auto
  with stop_ends_own_server [OF out facts(1) ok] facts(2,3) show ?thesis by simp
qed



end
