(* ===== verification/ClientCommands.thy ===== *)
theory ClientCommands
  imports Agent HookSpec Flags
begin

text \<open>
  The command line client (\<open>cmd/express233-cli/main.go\<close>, \<open>internal/cli\<close>): pulling a bundle, in one go or for a list of
  servers, rolling back, the checks of \<open>doctor\<close>, the listings, the configuration file and the update of the client itself.
  HTTP is a function of the request and the state of the other side; a URL is what \<open>net/url\<close> parses it to, scheme and host
  and query.  The decoders of archives, JSON and YAML and the processes that are started are parameters.
\<close>

section \<open>The client's world\<close>

type_synonym url_query = "(string \<times> string list) list"

record http_request =
  hq_Host :: string
  hq_Path :: string
  hq_Query :: url_query
  hq_Auth :: "(string \<times> string) option"

record 'w client =
  ct_config :: "user_config res"
  ct_fs :: client_fs
  ct_server :: 'w

record 'w client_env =
  cl_goos :: string
  cl_goarch :: string
  cl_getenv :: "string \<Rightarrow> string"
  cl_environ :: "(string \<times> string) list"
  cl_exe :: string
  cl_version :: string
  cl_url :: "string \<Rightarrow> (string \<times> url_query) option"
  cl_http :: "http_request \<Rightarrow> 'w \<Rightarrow> (int \<times> string) option \<times> 'w"
  cl_unpack :: "string \<Rightarrow> archive_entry list option"
  cl_manifest :: "string \<Rightarrow> manifest res"
  cl_steps :: "string \<Rightarrow> step list res"
  cl_exec :: "string list \<Rightarrow> string \<Rightarrow> (string \<times> string) list \<Rightarrow> client_fs \<Rightarrow> unit res \<times> client_fs"
  cl_versions :: "string \<Rightarrow> string list option"
  cl_ids :: "string \<Rightarrow> string list option"
  cl_tag :: "string \<Rightarrow> string option"

text \<open>\<open>url.Values\<close>: \<open>Set\<close> replaces, \<open>Add\<close> appends.\<close>

definition query_set :: "string \<Rightarrow> string \<Rightarrow> url_query \<Rightarrow> url_query" where
  "query_set k v q = al_put k [v] q"

definition query_add :: "string \<Rightarrow> string \<Rightarrow> url_query \<Rightarrow> url_query" where
  "query_add k v q = al_put k ((case map_of q k of None \<Rightarrow> [] | Some vs \<Rightarrow> vs) @ [v]) q"

definition on_server :: "('w \<Rightarrow> 'a res \<times> 'w) \<Rightarrow> 'w client \<Rightarrow> 'a res \<times> 'w client" where
  "on_server f c = (case f (ct_server c) of (r, w) \<Rightarrow> (r, c\<lparr>ct_server := w\<rparr>))"

text \<open>\<open>buildAPIURL\<close> and \<open>getJSON\<close>: the body of an answer with status 200.\<close>

definition buildAPIURL :: "'w client_env \<Rightarrow> string \<Rightarrow> string \<Rightarrow> (string \<times> string) list \<Rightarrow> http_request res" where
  "buildAPIURL env serverURL path query =
     (case cl_url env serverURL of
        None \<Rightarrow> Inl (ErrMsg ''parse url'')
      | Some (host, q) \<Rightarrow> Inr \<lparr>hq_Host = host, hq_Path = path, hq_Query = fold (\<lambda>(k, v). query_set k v) query q, hq_Auth = None\<rparr>)"

definition http_get :: "'w client_env \<Rightarrow> http_request res \<Rightarrow> 'w \<Rightarrow> string res \<times> 'w" where
  "http_get env req w =
     (case req of
        Inl e \<Rightarrow> (Inl e, w)
      | Inr r \<Rightarrow>
          (case cl_http env r w of
             (None, w1) \<Rightarrow> (Inl (ErrMsg ''http''), w1)
           | (Some (status, body), w1) \<Rightarrow>
               if status = 200 then (Inr body, w1) else (Inl (ErrMsg (''HTTP '' @ show_int status @ '': '' @ body)), w1)))"

definition getJSON :: "'w client_env \<Rightarrow> (string \<Rightarrow> 'a option) \<Rightarrow> http_request res \<Rightarrow> 'w \<Rightarrow> 'a res \<times> 'w" where
  "getJSON env decode req w =
     (case http_get env req w of
        (Inl e, w1) \<Rightarrow> (Inl e, w1)
      | (Inr body, w1) \<Rightarrow> (case decode body of None \<Rightarrow> (Inl (ErrMsg ''json''), w1) | Some x \<Rightarrow> (Inr x, w1)))"

section \<open>Pulling\<close>

definition downloadBundle :: "'w client_env \<Rightarrow> http_request \<Rightarrow> string \<Rightarrow> string \<Rightarrow> 'w \<Rightarrow> string res \<times> 'w" where
  "downloadBundle env req username password =
     http_get env (Inr (req\<lparr>hq_Auth := if username \<noteq> [] \<or> password \<noteq> [] then Some (username, password) else None\<rparr>))"

text \<open>\<open>last\<close> is the error of the attempt before.\<close>

fun download_loop :: "('w \<Rightarrow> string res \<times> 'w) \<Rightarrow> nat \<Rightarrow> go_error \<Rightarrow> 'w \<Rightarrow> string res \<times> 'w" where
  "download_loop attempt 0 last_error w = (Inl last_error, w)"
| "download_loop attempt (Suc n) last_error w =
     (case attempt w of (Inr body, w1) \<Rightarrow> (Inr body, w1) | (Inl e, w1) \<Rightarrow> download_loop attempt n e w1)"

definition downloadBundleWithRetry :: "'w client_env \<Rightarrow> http_request \<Rightarrow> int \<Rightarrow> string \<Rightarrow> string \<Rightarrow> 'w \<Rightarrow> string res \<times> 'w" where
  "downloadBundleWithRetry env req retries username password =
     download_loop (downloadBundle env req username password) (nat retries) (ErrMsg ''no attempt'')"

text \<open>The variables of a manifest, as \<open>hookEnvMap\<close> collects them and as \<open>runPostHook\<close> appends them.\<close>

definition identity_env :: "manifest \<Rightarrow> (string \<times> string) list" where
  "identity_env m =
     [(''EXPRESS233_PROJECT'', mf_Project m), (''EXPRESS233_VERSION'', mf_Version m), (''EXPRESS233_SERVER_ID'', mf_ServerID m)]
     @ (if mf_OS m \<noteq> [] then [(''EXPRESS233_OS'', mf_OS m)] else []) @ (if mf_Arch m \<noteq> [] then [(''EXPRESS233_ARCH'', mf_Arch m)] else [])"

definition hookEnvMap :: "manifest \<Rightarrow> (string \<times> string) list" where
  "hookEnvMap m = fold (\<lambda>(k, v). al_put k v) (identity_env m) (mf_PostHookEnv m)"

definition post_hook_env :: "(string \<times> string) list \<Rightarrow> manifest \<Rightarrow> (string \<times> string) list" where
  "post_hook_env environ m = environ @ mf_PostHookEnv m @ identity_env m"

definition present_in :: "client_fs \<Rightarrow> string \<Rightarrow> bool" where
  "present_in fs path = list_ex (\<lambda>(f, _). f = path \<or> has_prefix f (path @ ''/'')) fs"

definition runPostHook :: "'w client_env \<Rightarrow> string \<Rightarrow> manifest \<Rightarrow> client_fs \<Rightarrow> unit res \<times> client_fs" where
  "runPostHook env dest m fs =
     (let script = path_join dest (mf_PostHook m)
      in if \<not> present_in fs script then (Inl (ErrMsg ''post_hook not found''), fs)
         else (let command = (if cl_goos env = ''windows'' \<and> has_suffix (lower script) ''.sh'' then [''bash'', script] else [script]);
                   fs1 = (if cl_goos env \<noteq> ''windows'' then map (\<lambda>(f, d, mode). (f, d, if f = script then 493 else mode)) fs else fs)
               in cl_exec env command dest (post_hook_env (cl_environ env) m) fs1))"

text \<open>\<open>hookspec.Execute\<close> on the files that were extracted.\<close>

definition run_spec :: "'w client_env \<Rightarrow> string \<Rightarrow> manifest \<Rightarrow> client_fs \<Rightarrow> unit res \<times> client_fs" where
  "run_spec env dest m fs =
     (case map_of fs (path_join dest DefaultPath) of
        None \<Rightarrow> (Inr (), fs)
      | Some (data, _) \<Rightarrow>
          (case cl_steps env data of
             Inl e \<Rightarrow> (Inl e, fs)
           | Inr steps \<Rightarrow>
               (case Execute (cl_goos env) (present_in fs) dest steps of
                  Inl e \<Rightarrow> (Inl e, fs)
                | Inr None \<Rightarrow> (Inr (), fs)
                | Inr (Some command) \<Rightarrow>
                    (let script = last command;
                         fs1 = (if cl_goos env \<noteq> ''windows'' then map (\<lambda>(f, d, mode). (f, d, if f = script then 493 else mode)) fs else fs)
                     in cl_exec env command dest (cl_environ env @ hookEnvMap m) fs1))))"

definition pull_defaults :: "'w client_env \<Rightarrow> pull_opts \<Rightarrow> pull_opts" where
  "pull_defaults env o1 =
     o1\<lparr>po_DestDir := or_else (po_DestDir o1) ''.'', po_OS := or_else (po_OS o1) (cl_goos env),
        po_Arch := or_else (po_Arch o1) (cl_goarch env), po_Retries := if po_Retries o1 \<le> 0 then 3 else po_Retries o1\<rparr>"

definition pull_request :: "string \<Rightarrow> url_query \<Rightarrow> pull_opts \<Rightarrow> http_request" where
  "pull_request host q o1 =
     (let q1 = (if po_Token o1 \<noteq> [] then query_set ''token'' (po_Token o1) q else q);
          q2 = query_set ''server_id'' (po_ServerID o1) (query_set ''project'' (po_Project o1) q1);
          q3 = (if po_Version o1 \<noteq> [] then query_set ''version'' (po_Version o1) q2 else q2);
          q4 = (if po_OS o1 \<noteq> [] then query_set ''os'' (po_OS o1) q3 else q3);
          q5 = (if po_Arch o1 \<noteq> [] then query_set ''arch'' (po_Arch o1) q4 else q4)
      in \<lparr>hq_Host = host, hq_Path = ''/api/pull'', hq_Query = fold (query_add ''tags'') (po_Tags o1) q5, hq_Auth = None\<rparr>)"

definition run_hooks :: "'w client_env \<Rightarrow> pull_opts \<Rightarrow> manifest \<Rightarrow> client_fs \<Rightarrow> unit res \<times> client_fs" where
  "run_hooks env o1 m fs =
     (if po_SkipHook o1 then (Inr (), fs)
      else if mf_PostHookSpec m \<noteq> [] then run_spec env (po_DestDir o1) m fs
      else if mf_PostHook m = [] then (Inr (), fs)
      else runPostHook env (po_DestDir o1) m fs)"

definition config_option :: "user_config res \<Rightarrow> user_config option" where
  "config_option r = (case r of Inl _ \<Rightarrow> None | Inr c \<Rightarrow> Some c)"

text \<open>\<open>RunPull\<close>; the manifest of a bundle that was extracted is what the command prints.\<close>

definition RunPull :: "'w client_env \<Rightarrow> pull_opts \<Rightarrow> 'w client \<Rightarrow> manifest res \<times> 'w client" where
  "RunPull env opts c =
     (let o1 = pull_defaults env (MergePullOptions (config_option (ct_config c)) opts)
      in case cl_url env (po_ServerURL o1) of
           None \<Rightarrow> (Inl (ErrMsg ''parse url''), c)
         | Some (host, q) \<Rightarrow>
             (case downloadBundleWithRetry env (pull_request host q o1) (po_Retries o1) (po_Username o1) (po_Password o1) (ct_server c) of
                (Inl e, w1) \<Rightarrow> (Inl e, c\<lparr>ct_server := w1\<rparr>)
              | (Inr body, w1) \<Rightarrow>
                  (case cl_unpack env body of
                     None \<Rightarrow> (Inl (ErrMsg ''gzip''), c\<lparr>ct_server := w1\<rparr>)
                   | Some entries \<Rightarrow>
                       (case ExtractBundle (cl_manifest env) (po_DestDir o1) entries (ct_fs c) of
                          (Inl e, fs1) \<Rightarrow> (Inl e, c\<lparr>ct_server := w1, ct_fs := fs1\<rparr>)
                        | (Inr m, fs1) \<Rightarrow>
                            (case run_hooks env o1 m fs1 of
                               (Inl e, fs2) \<Rightarrow> (Inl e, c\<lparr>ct_server := w1, ct_fs := fs2\<rparr>)
                             | (Inr _, fs2) \<Rightarrow> (Inr m, c\<lparr>ct_server := w1, ct_fs := fs2\<rparr>))))))"

section \<open>Lists of servers\<close>

text \<open>
  The lines of a text as \<open>bufio.Scanner\<close> gives them, with a final line break ignored; the flag tells that a line was too
  long, which ends the scan.
\<close>

definition text_rows :: "string \<Rightarrow> string list" where
  "text_rows s = (let ls = split_on (CHR 0x0A) s in if last ls = [] then butlast ls else ls)"

definition scan_lines :: "string \<Rightarrow> string list \<times> bool" where
  "scan_lines s =
     (let ok = takeWhile (\<lambda>l. length l < 65536) (text_rows s) in (ok, length ok < length (text_rows s)))"

definition batch_row :: "pull_opts \<Rightarrow> string \<Rightarrow> pull_opts option" where
  "batch_row opts raw =
     (let line = trim_space raw
      in if line = [] \<or> has_prefix line ''#'' then None
         else (let parts = split_on (CHR '','') line; sid = trim_space (hd parts);
                   dest = (case tl parts of d # _ \<Rightarrow> if trim_space d \<noteq> [] then trim_space d else po_DestDir opts | [] \<Rightarrow> po_DestDir opts)
               in Some (opts\<lparr>po_ServerID := sid, po_DestDir := dest\<rparr>)))"

text \<open>Every row is attempted; the first error is kept, with the numbers of successes and failures.\<close>

fun pull_rows :: "'w client_env \<Rightarrow> pull_opts list \<Rightarrow> (go_error option \<times> nat \<times> nat) \<Rightarrow> 'w client \<Rightarrow> (go_error option \<times> nat \<times> nat) \<times> 'w client" where
  "pull_rows env [] acc c = (acc, c)"
| "pull_rows env (row # rows) (first, ok, fail) c =
     (case RunPull env row c of
        (Inl e, c1) \<Rightarrow> pull_rows env rows (case first of None \<Rightarrow> Some e | Some f \<Rightarrow> Some f, ok, fail + 1) c1
      | (Inr _, c1) \<Rightarrow> pull_rows env rows (first, ok + 1, fail) c1)"

definition RunPullBatch :: "'w client_env \<Rightarrow> pull_opts \<Rightarrow> string option \<Rightarrow> 'w client \<Rightarrow> (nat \<times> nat) res \<times> 'w client" where
  "RunPullBatch env opts list_file c =
     (case list_file of
        None \<Rightarrow> (Inl ErrNotExist, c)
      | Some content \<Rightarrow>
          (let opts1 = MergePullOptions (config_option (ct_config c)) opts; (ls, too_long) = scan_lines content
           in case pull_rows env (List.map_filter (batch_row opts1) ls) (None, 0, 0) c of
                ((first, ok, fail), c1) \<Rightarrow>
                  if too_long then (Inl (ErrMsg ''bufio.Scanner: token too long''), c1)
                  else (case first of Some e \<Rightarrow> (Inl e, c1) | None \<Rightarrow> (Inr (ok, fail), c1))))"

section \<open>Rolling back\<close>

definition fetchPublishedVersions :: "'w client_env \<Rightarrow> string \<Rightarrow> string \<Rightarrow> string \<Rightarrow> 'w \<Rightarrow> string list res \<times> 'w" where
  "fetchPublishedVersions env serverURL project token =
     getJSON env (cl_versions env) (buildAPIURL env serverURL ''/api/pull/versions'' [(''token'', token), (''project'', project)])"

text \<open>A negative offset would be out of range; the caller passes a positive one.\<close>

definition publishedVersionByOffset :: "'w client_env \<Rightarrow> string \<Rightarrow> string \<Rightarrow> string \<Rightarrow> int \<Rightarrow> 'w \<Rightarrow> string res \<times> 'w" where
  "publishedVersionByOffset env serverURL project token offset w =
     (case fetchPublishedVersions env serverURL project token w of
        (Inl e, w1) \<Rightarrow> (Inl e, w1)
      | (Inr vers, w1) \<Rightarrow>
          if offset \<ge> int (length vers) then (Inl (ErrMsg ''not enough published versions to roll back''), w1)
          else (Inr (vers ! nat offset), w1))"

definition RunRollback :: "'w client_env \<Rightarrow> pull_opts \<Rightarrow> string \<Rightarrow> int \<Rightarrow> 'w client \<Rightarrow> manifest res \<times> 'w client" where
  "RunRollback env opts toVersion stepsBack c =
     (let o1 = MergePullOptions (config_option (ct_config c)) opts
      in if po_ServerURL o1 = [] \<or> po_Project o1 = [] \<or> po_ServerID o1 = [] \<or> po_Token o1 = []
         then (Inl (ErrMsg ''rollback requires server, project, server-id, token''), c)
         else if toVersion \<noteq> [] then RunPull env (o1\<lparr>po_Version := toVersion\<rparr>) c
         else (case on_server (publishedVersionByOffset env (po_ServerURL o1) (po_Project o1) (po_Token o1)
                        (if stepsBack \<le> 0 then 1 else stepsBack)) c of
                 (Inl e, c1) \<Rightarrow> (Inl e, c1)
               | (Inr target, c1) \<Rightarrow> RunPull env (o1\<lparr>po_Version := target\<rparr>) c1))"

section \<open>Listings and checks\<close>

definition RunListVersions :: "'w client_env \<Rightarrow> string \<Rightarrow> string \<Rightarrow> string \<Rightarrow> 'w \<Rightarrow> string list res \<times> 'w" where
  "RunListVersions env serverURL project token =
     getJSON env (cl_versions env) (buildAPIURL env serverURL ''/api/pull/versions'' [(''token'', token), (''project'', project)])"

definition RunListServers :: "'w client_env \<Rightarrow> string \<Rightarrow> string \<Rightarrow> 'w \<Rightarrow> string list res \<times> 'w" where
  "RunListServers env serverURL token =
     getJSON env (cl_ids env) (buildAPIURL env serverURL ''/api/pull/server-ids'' [(''token'', token)])"

definition preview_request :: "'w client_env \<Rightarrow> user_config \<Rightarrow> string \<Rightarrow> string \<Rightarrow> string \<Rightarrow> string \<Rightarrow> string \<Rightarrow> http_request res" where
  "preview_request env cfg serverURL project version serverID token =
     buildAPIURL env (or_else serverURL (uc_Server cfg)) ''/api/pull/preview''
       ([(''token'', or_else token (uc_Token cfg)), (''project'', or_else project (uc_Project cfg)), (''server_id'', serverID)]
        @ (if version \<noteq> [] then [(''version'', version)] else []))"

definition diff_request :: "'w client_env \<Rightarrow> user_config res \<Rightarrow> string \<Rightarrow> string \<Rightarrow> string \<Rightarrow> string \<Rightarrow> string \<Rightarrow> string \<Rightarrow> http_request res" where
  "diff_request env cfg serverURL project fromVer toVer serverID token =
     (let o1 = MergePullOptions (config_option cfg) (empty_pull_opts\<lparr>po_ServerURL := serverURL, po_Token := token, po_Project := project\<rparr>)
      in buildAPIURL env (po_ServerURL o1) ''/api/pull/diff''
           [(''token'', po_Token o1), (''project'', project), (''from'', fromVer), (''to'', toVer), (''server_id'', serverID)])"

text \<open>Both commands print the report that the server answers with.\<close>

definition RunDiff ::
  "'w client_env \<Rightarrow> string \<Rightarrow> string \<Rightarrow> string \<Rightarrow> string \<Rightarrow> string \<Rightarrow> string \<Rightarrow> 'w client \<Rightarrow> string res \<times> 'w client" where
  "RunDiff env serverURL project fromVer toVer serverID token c =
     on_server (http_get env (diff_request env (ct_config c) serverURL project fromVer toVer serverID token)) c"

definition RunPreview ::
  "'w client_env \<Rightarrow> string \<Rightarrow> string \<Rightarrow> string \<Rightarrow> string \<Rightarrow> string \<Rightarrow> 'w client \<Rightarrow> string res \<times> 'w client" where
  "RunPreview env serverURL project version serverID token c =
     (let cfg = (case ct_config c of Inr u \<Rightarrow> u
                 | Inl _ \<Rightarrow> \<lparr>uc_Server = [], uc_Token = [], uc_Username = [], uc_Password = [], uc_Project = [], uc_Dest = []\<rparr>)
      in on_server (http_get env (preview_request env cfg serverURL project version serverID token)) c)"

definition pingHealth :: "'w client_env \<Rightarrow> string \<Rightarrow> 'w \<Rightarrow> unit res \<times> 'w" where
  "pingHealth env serverURL w =
     (case cl_url env serverURL of
        None \<Rightarrow> (Inl (ErrMsg ''parse url''), w)
      | Some (host, q) \<Rightarrow>
          (case cl_http env \<lparr>hq_Host = host, hq_Path = ''/healthz'', hq_Query = q, hq_Auth = None\<rparr> w of
             (None, w1) \<Rightarrow> (Inl (ErrMsg ''http''), w1)
           | (Some (status, body), w1) \<Rightarrow>
               if status \<noteq> 200 \<or> body \<noteq> ''ok'' then (Inl (ErrMsg (''status '' @ show_int status)), w1) else (Inr (), w1)))"

text \<open>The checks of \<open>doctor\<close>: each with its name and whether it passed.\<close>

type_synonym checks = "(string \<times> bool) list"

definition check_health :: "'w client_env \<Rightarrow> pull_opts \<Rightarrow> 'w \<Rightarrow> checks \<times> 'w" where
  "check_health env o1 w =
     (if po_ServerURL o1 = [] then ([(''server URL'', False)], w)
      else case pingHealth env (po_ServerURL o1) w of (r, w1) \<Rightarrow> ([(''healthz'', is_ok r)], w1))"

definition check_token :: "'w client_env \<Rightarrow> pull_opts \<Rightarrow> 'w \<Rightarrow> checks \<times> 'w" where
  "check_token env o1 w =
     (if po_Token o1 = [] then ([(''token'', False)], w)
      else if po_ServerURL o1 = [] then ([], w)
      else case RunListServers env (po_ServerURL o1) (po_Token o1) w of
          (Inl e, w1) \<Rightarrow> ([(''pull token'', False)], w1)
        | (Inr ids, w1) \<Rightarrow> ((''pull token'', True) # (if po_ServerID o1 \<noteq> [] then [(''server_id'', po_ServerID o1 \<in> set ids)] else []), w1))"

definition check_versions :: "'w client_env \<Rightarrow> pull_opts \<Rightarrow> 'w \<Rightarrow> checks \<times> 'w" where
  "check_versions env o1 w =
     (if po_Project o1 \<noteq> [] \<and> po_Token o1 \<noteq> [] \<and> po_ServerURL o1 \<noteq> [] then
        (case RunListVersions env (po_ServerURL o1) (po_Project o1) (po_Token o1) w of
           (Inl e, w1) \<Rightarrow> ([(''published versions'', False)], w1)
         | (Inr vs, w1) \<Rightarrow> ([(''published versions'', vs \<noteq> [])], w1))
      else ([], w))"

definition RunDoctor :: "'w client_env \<Rightarrow> string \<Rightarrow> string \<Rightarrow> string \<Rightarrow> string \<Rightarrow> 'w client \<Rightarrow> (unit res \<times> checks) \<times> 'w client" where
  "RunDoctor env serverURL token project serverID c =
     (let o1 = MergePullOptions (config_option (ct_config c))
                 (empty_pull_opts\<lparr>po_ServerURL := serverURL, po_Token := token, po_Project := project, po_ServerID := serverID\<rparr>);
          (c1, w1) = check_health env o1 (ct_server c); (c2, w2) = check_token env o1 w1; (c3, w3) = check_versions env o1 w2;
          all = c1 @ c2 @ c3; fails = length (filter (\<lambda>(_, ok). \<not> ok) all)
      in ((if fails > 0 then Inl (ErrMsg (show_nat fails @ '' check(s) failed'')) else Inr (), all), c\<lparr>ct_server := w3\<rparr>))"

section \<open>Configuration and self-update\<close>

definition SaveUserConfig :: "user_config \<Rightarrow> 'w client \<Rightarrow> 'w client" where
  "SaveUserConfig cfg c = c\<lparr>ct_config := Inr cfg\<rparr>"

definition set_config :: "string \<Rightarrow> string \<Rightarrow> user_config \<Rightarrow> user_config res" where
  "set_config key v cfg =
     (if key = ''server'' then Inr (cfg\<lparr>uc_Server := v\<rparr>)
      else if key = ''token'' then Inr (cfg\<lparr>uc_Token := v\<rparr>)
      else if key = ''username'' then Inr (cfg\<lparr>uc_Username := v\<rparr>)
      else if key = ''password'' then Inr (cfg\<lparr>uc_Password := v\<rparr>)
      else if key = ''project'' then Inr (cfg\<lparr>uc_Project := v\<rparr>)
      else if key = ''dest'' then Inr (cfg\<lparr>uc_Dest := v\<rparr>)
      else Inl (ErrMsg ''unknown key''))"

definition trim_prefix :: "string \<Rightarrow> string \<Rightarrow> string" where
  "trim_prefix s p = (if has_prefix s p then drop (length p) s else s)"

definition installPath :: "'w client_env \<Rightarrow> string" where
  "installPath env =
     (let p = cl_getenv env ''EXPRESS233_INSTALL_DIR''
      in if p \<noteq> [] then path_join p (''express233-cli'' @ (if cl_goos env = ''windows'' then ''.exe'' else [])) else cl_exe env)"

definition asset_request :: "'w client_env \<Rightarrow> string \<Rightarrow> http_request" where
  "asset_request env ver =
     \<lparr>hq_Host = ''https://github.com'',
      hq_Path = ''/neko233-com/express233/releases/download/v'' @ ver @ ''/express233-cli-'' @ cl_goos env @ ''-'' @ cl_goarch env
        @ (if cl_goos env = ''windows'' then ''.exe'' else []),
      hq_Query = [], hq_Auth = None\<rparr>"

definition latestRelease :: "'w client_env \<Rightarrow> 'w \<Rightarrow> string res \<times> 'w" where
  "latestRelease env w =
     (case cl_http env \<lparr>hq_Host = ''https://api.github.com'', hq_Path = ''/repos/neko233-com/express233/releases/latest'',
             hq_Query = [], hq_Auth = None\<rparr> w of
        (None, w1) \<Rightarrow> (Inl (ErrMsg ''http''), w1)
      | (Some (_, body), w1) \<Rightarrow>
          (case cl_tag env body of None \<Rightarrow> (Inl (ErrMsg ''json''), w1) | Some tag \<Rightarrow> (Inr (trim_prefix tag ''v''), w1)))"

text \<open>The download is written beside the program and then renamed over it.\<close>

definition InstallOrSwitch :: "'w client_env \<Rightarrow> string \<Rightarrow> 'w client \<Rightarrow> string res \<times> 'w client" where
  "InstallOrSwitch env targetVersion c =
     (case (if targetVersion = [] \<or> targetVersion = ''latest'' then on_server (latestRelease env) c else (Inr targetVersion, c)) of
        (Inl e, c1) \<Rightarrow> (Inl e, c1)
      | (Inr ver0, c1) \<Rightarrow>
          (let ver = trim_prefix (trim_prefix ver0 ''v'') ''V''
           in case on_server (http_get env (Inr (asset_request env ver))) c1 of
                (Inl e, c2) \<Rightarrow> (Inl e, c2)
              | (Inr body, c2) \<Rightarrow>
                  (let dest = installPath env; tmp = dest @ ''.new'';
                       fs = write_client tmp body 493 (ct_fs c2);
                       f = (case map_of fs tmp of None \<Rightarrow> (body, 493) | Some f \<Rightarrow> f)
                   in (Inr ver, c2\<lparr>ct_fs := al_put dest f (al_del tmp fs)\<rparr>))))"

section \<open>The command line\<close>

definition pull_flags :: flag_spec where
  "pull_flags = [(''server'', StringFlag), (''project'', StringFlag), (''server-id'', StringFlag), (''token'', StringFlag),
     (''username'', StringFlag), (''password'', StringFlag), (''version'', StringFlag), (''dest'', StringFlag), (''os'', StringFlag),
     (''arch'', StringFlag), (''tag'', StringFlag), (''retries'', IntFlag), (''skip-hook'', BoolFlag)]"

definition env_flag :: "'w client_env \<Rightarrow> flag_args \<Rightarrow> string \<Rightarrow> string \<Rightarrow> string" where
  "env_flag env fa name var = flag_string fa name (cl_getenv env var)"

text \<open>The options of \<open>pull\<close>, \<open>pull-batch\<close> and \<open>rollback\<close>: a flag wins over the environment.\<close>

definition flag_opts :: "'w client_env \<Rightarrow> flag_args \<Rightarrow> pull_opts" where
  "flag_opts env fa =
     \<lparr>po_ServerURL = env_flag env fa ''server'' ''EXPRESS233_SERVER'', po_Project = env_flag env fa ''project'' ''EXPRESS233_PROJECT'',
      po_ServerID = env_flag env fa ''server-id'' ''EXPRESS233_SERVER_ID'', po_Token = env_flag env fa ''token'' ''EXPRESS233_TOKEN'',
      po_Username = env_flag env fa ''username'' ''EXPRESS233_USERNAME'', po_Password = env_flag env fa ''password'' ''EXPRESS233_PASSWORD'',
      po_Version = flag_string fa ''version'' [], po_DestDir = flag_string fa ''dest'' ''.'', po_OS = flag_string fa ''os'' [],
      po_Arch = flag_string fa ''arch'' [], po_Tags = flag_all fa ''tag'', po_Retries = flag_int fa ''retries'' 3,
      po_SkipHook = flag_bool fa ''skip-hook'' False\<rparr>"

definition no_credentials :: "pull_opts \<Rightarrow> bool" where
  "no_credentials o1 \<longleftrightarrow> po_Token o1 = [] \<and> (po_Username o1 = [] \<or> po_Password o1 = [])"

definition runPull :: "'w client_env \<Rightarrow> string list \<Rightarrow> 'w client \<Rightarrow> manifest res \<times> 'w client" where
  "runPull env args c =
     (case parse_flags pull_flags args of
        Inl e \<Rightarrow> (Inl e, c)
      | Inr fa \<Rightarrow>
          (let o1 = MergePullOptions (config_option (ct_config c)) (flag_opts env fa)
           in if po_ServerURL o1 = [] \<or> po_Project o1 = [] \<or> po_ServerID o1 = [] \<or> no_credentials o1
              then (Inl (ErrMsg ''requires: --server --project --server-id and either --token or --username/--password''), c)
              else RunPull env o1 c))"

definition batch_flags :: flag_spec where
  "batch_flags = (''file'', StringFlag) # filter (\<lambda>(n, _). n \<noteq> ''server-id'') pull_flags"

definition runPullBatch :: "'w client_env \<Rightarrow> (string \<Rightarrow> string option) \<Rightarrow> string list \<Rightarrow> 'w client \<Rightarrow> (nat \<times> nat) res \<times> 'w client" where
  "runPullBatch env read_file args c =
     (case parse_flags batch_flags args of
        Inl e \<Rightarrow> (Inl e, c)
      | Inr fa \<Rightarrow>
          (let o1 = (flag_opts env fa)\<lparr>po_ServerID := []\<rparr>; list_path = flag_string fa ''file'' []
           in if list_path = [] \<or> po_ServerURL o1 = [] \<or> po_Project o1 = [] \<or> no_credentials o1
              then (Inl (ErrMsg ''pull-batch requires: --file --server --project and either --token or --username/--password''), c)
              else RunPullBatch env o1 (read_file list_path) c))"

definition rollback_flags :: flag_spec where
  "rollback_flags = [(''to'', StringFlag), (''steps'', IntFlag), (''server'', StringFlag), (''project'', StringFlag), (''server-id'', StringFlag),
     (''token'', StringFlag), (''username'', StringFlag), (''password'', StringFlag), (''dest'', StringFlag), (''skip-hook'', BoolFlag)]"

definition runRollback :: "'w client_env \<Rightarrow> string list \<Rightarrow> 'w client \<Rightarrow> manifest res \<times> 'w client" where
  "runRollback env args c =
     (case parse_flags rollback_flags args of
        Inl e \<Rightarrow> (Inl e, c)
      | Inr fa \<Rightarrow> RunRollback env ((flag_opts env fa)\<lparr>po_Retries := 0\<rparr>) (flag_string fa ''to'' []) (flag_int fa ''steps'' 1) c)"

definition runVersions :: "'w client_env \<Rightarrow> string list \<Rightarrow> 'w client \<Rightarrow> string list res \<times> 'w client" where
  "runVersions env args c =
     (case parse_flags [(''server'', StringFlag), (''project'', StringFlag), (''token'', StringFlag)] args of
        Inl e \<Rightarrow> (Inl e, c)
      | Inr fa \<Rightarrow>
          (let o1 = flag_opts env fa; fill = (\<lambda>s f. case ct_config c of Inl _ \<Rightarrow> s | Inr cfg \<Rightarrow> or_else s (f cfg));
               server = fill (po_ServerURL o1) uc_Server; project = fill (po_Project o1) uc_Project; token = fill (po_Token o1) uc_Token
           in if server = [] \<or> project = [] \<or> token = [] then (Inl (ErrMsg ''versions requires: --server --project --token''), c)
              else on_server (RunListVersions env server project token) c))"

definition runServers :: "'w client_env \<Rightarrow> string list \<Rightarrow> 'w client \<Rightarrow> string list res \<times> 'w client" where
  "runServers env args c =
     (case parse_flags [(''server'', StringFlag), (''token'', StringFlag)] args of
        Inl e \<Rightarrow> (Inl e, c)
      | Inr fa \<Rightarrow>
          (let o1 = flag_opts env fa
           in if po_ServerURL o1 = [] \<or> po_Token o1 = [] then (Inl (ErrMsg ''servers requires: --server --token''), c)
              else on_server (RunListServers env (po_ServerURL o1) (po_Token o1)) c))"

definition runDiff :: "'w client_env \<Rightarrow> string list \<Rightarrow> 'w client \<Rightarrow> string res \<times> 'w client" where
  "runDiff env args c =
     (case parse_flags [(''server'', StringFlag), (''project'', StringFlag), (''from'', StringFlag), (''to'', StringFlag),
          (''server-id'', StringFlag), (''token'', StringFlag)] args of
        Inl e \<Rightarrow> (Inl e, c)
      | Inr fa \<Rightarrow>
          (let o1 = flag_opts env fa; fromVer = flag_string fa ''from'' []; toVer = flag_string fa ''to'' []
           in if po_ServerURL o1 = [] \<or> po_Project o1 = [] \<or> fromVer = [] \<or> toVer = [] \<or> po_ServerID o1 = [] \<or> po_Token o1 = []
              then (Inl (ErrMsg ''diff requires: --server --project --from --to --server-id --token''), c)
              else RunDiff env (po_ServerURL o1) (po_Project o1) fromVer toVer (po_ServerID o1) (po_Token o1) c))"

definition runPreview :: "'w client_env \<Rightarrow> string list \<Rightarrow> 'w client \<Rightarrow> string res \<times> 'w client" where
  "runPreview env args c =
     (case parse_flags [(''server'', StringFlag), (''project'', StringFlag), (''version'', StringFlag), (''server-id'', StringFlag),
          (''token'', StringFlag)] args of
        Inl e \<Rightarrow> (Inl e, c)
      | Inr fa \<Rightarrow>
          (let o1 = flag_opts env fa; project = flag_string fa ''project'' []; serverID = flag_string fa ''server-id'' []
           in if po_ServerURL o1 = [] \<or> project = [] \<or> serverID = [] \<or> po_Token o1 = []
              then (Inl (ErrMsg ''preview requires: --server --project --server-id --token''), c)
              else RunPreview env (po_ServerURL o1) project (flag_string fa ''version'' []) serverID (po_Token o1) c))"

definition runDoctor :: "'w client_env \<Rightarrow> string list \<Rightarrow> 'w client \<Rightarrow> (unit res \<times> checks) \<times> 'w client" where
  "runDoctor env args c =
     (case parse_flags [(''server'', StringFlag), (''token'', StringFlag), (''project'', StringFlag), (''server-id'', StringFlag)] args of
        Inl e \<Rightarrow> ((Inl e, []), c)
      | Inr fa \<Rightarrow> (let o1 = flag_opts env fa in RunDoctor env (po_ServerURL o1) (po_Token o1) (po_Project o1) (po_ServerID o1) c))"

text \<open>\<open>config show | init | set\<close>; what is shown is the configuration itself.\<close>

definition runConfig :: "'w client_env \<Rightarrow> string list \<Rightarrow> 'w client \<Rightarrow> user_config res \<times> 'w client" where
  "runConfig env args c =
     (case args of
        [] \<Rightarrow> (Inl (ErrMsg ''usage: express233-cli config show|set|init''), c)
      | sub # rest \<Rightarrow>
          if sub = ''show'' then (ct_config c, c)
          else if sub = ''init'' then
            (let cfg = \<lparr>uc_Server = cl_getenv env ''EXPRESS233_SERVER'', uc_Token = cl_getenv env ''EXPRESS233_TOKEN'',
                        uc_Username = cl_getenv env ''EXPRESS233_USERNAME'', uc_Password = cl_getenv env ''EXPRESS233_PASSWORD'',
                        uc_Project = cl_getenv env ''EXPRESS233_PROJECT'', uc_Dest = []\<rparr>
             in (Inr cfg, SaveUserConfig cfg c))
          else if sub = ''set'' then
            (case rest of
               [key, v] \<Rightarrow>
                 (case ct_config c of
                    Inl e \<Rightarrow> (Inl e, c)
                  | Inr cfg \<Rightarrow> (case set_config key v cfg of Inl e \<Rightarrow> (Inl e, c) | Inr cfg1 \<Rightarrow> (Inr cfg1, SaveUserConfig cfg1 c)))
             | _ \<Rightarrow> (Inl (ErrMsg ''usage: express233-cli config set <server|token|username|password|project|dest> <value>''), c))
          else (Inl (ErrMsg ''unknown config subcommand''), c))"

section \<open>Downloads are bounded\<close>

text \<open>The state of the other side after a number of attempts.\<close>

definition after_attempts :: "('w \<Rightarrow> string res \<times> 'w) \<Rightarrow> nat \<Rightarrow> 'w \<Rightarrow> 'w" where
  "after_attempts attempt n w = ((snd \<circ> attempt) ^^ n) w"

lemma after_attempts_simps [simp]:
  "after_attempts attempt 0 w = w" "after_attempts attempt n (snd (attempt w)) = after_attempts attempt (Suc n) w"
  by (simp_all add: after_attempts_def funpow_swap1)

lemma download_loop_spec:
  assumes "download_loop attempt n e0 w = (r, w')"
  shows "(\<exists>k<n. (\<forall>j<k. \<not> is_ok (fst (attempt (after_attempts attempt j w)))) \<and> is_ok r
       \<and> attempt (after_attempts attempt k w) = (r, w'))
    \<or> ((\<forall>j<n. \<not> is_ok (fst (attempt (after_attempts attempt j w)))) \<and> w' = after_attempts attempt n w
       \<and> (r = (if n = 0 then Inl e0 else fst (attempt (after_attempts attempt (n - 1) w)))))"
  using assms
proof (induction n arbitrary: e0 w)
  case (Suc n)
  obtain a w1 where a: "attempt w = (a, w1)" by fastforce
  show ?case
  proof (cases a)
    case (Inr body)
    with Suc.prems a have "r = Inr body" "w' = w1" by simp_all
    with Inr a show ?thesis by (intro disjI1 exI [of _ 0]) simp
  next
    case (Inl e)
    with Suc.prems a have "download_loop attempt n e w1 = (r, w')" by simp
    note ih = Suc.IH [OF this]
    have w1: "w1 = snd (attempt w)" and first: "fst (attempt w) = Inl e" by (simp_all add: a Inl)
    then have failed: "\<not> is_ok (fst (attempt w))" by simp
    have shift: "(\<forall>j<Suc m. \<not> is_ok (fst (attempt (after_attempts attempt j w))))"
      if "\<forall>j<m. \<not> is_ok (fst (attempt (after_attempts attempt j w1)))" for m
      using that failed unfolding w1 by (auto simp: less_Suc_eq_0_disj)
    from ih show ?thesis
    proof (elim disjE exE conjE)
      fix k
      assume "k < n" "\<forall>j<k. \<not> is_ok (fst (attempt (after_attempts attempt j w1)))" "is_ok r"
        "attempt (after_attempts attempt k w1) = (r, w')"
      then show ?thesis using shift [of k] unfolding w1 by (intro disjI1 exI [of _ "Suc k"]) simp
    next
      assume h: "\<forall>j<n. \<not> is_ok (fst (attempt (after_attempts attempt j w1)))" "w' = after_attempts attempt n w1"
        "r = (if n = 0 then Inl e else fst (attempt (after_attempts attempt (n - 1) w1)))"
      have "r = fst (attempt (after_attempts attempt n w))"
        using h(3) first unfolding w1 by (cases n) simp_all
      then show ?thesis using shift [OF h(1)] h(2) unfolding w1 by (intro disjI2) simp
    qed
  qed
qed simp

text \<open>
  C20: a bundle is requested again only after a failed request and at most as often as there are retries: the download ends with
  the first request that succeeds, and the other side has then seen the failed requests before it and no other; when every
  request fails, exactly that many were made, and the error of the last one is reported.
\<close>

theorem download_ends:
  assumes "downloadBundleWithRetry env req retries username password w = (r, w')" "0 < retries"
    and "attempt = downloadBundle env req username password"
  shows "(\<exists>k<nat retries. (\<forall>j<k. \<not> is_ok (fst (attempt (after_attempts attempt j w)))) \<and> is_ok r
       \<and> attempt (after_attempts attempt k w) = (r, w'))
    \<or> ((\<forall>j<nat retries. \<not> is_ok (fst (attempt (after_attempts attempt j w)))) \<and> w' = after_attempts attempt (nat retries) w
       \<and> r = fst (attempt (after_attempts attempt (nat retries - 1) w)))"
  using download_loop_spec [of attempt "nat retries" "ErrMsg ''no attempt''" w r w'] assms
  by (simp add: downloadBundleWithRetry_def)

text \<open>A client whose other side answers by the given function.\<close>

definition sample_client_env :: "(http_request \<Rightarrow> 'w \<Rightarrow> (int \<times> string) option \<times> 'w) \<Rightarrow> (string \<Rightarrow> string list option) \<Rightarrow> 'w client_env" where
  "sample_client_env http versions =
     \<lparr>cl_goos = ''linux'', cl_goarch = ''amd64'', cl_getenv = (\<lambda>_. []), cl_environ = [(''EXPRESS233_PROJECT'', ''other''), (''HOME'', ''/r'')],
      cl_exe = ''/usr/bin/express233-cli'', cl_version = ''1.0.0'', cl_url = (\<lambda>s. Some (s, [])), cl_http = http,
      cl_unpack = (\<lambda>_. None), cl_manifest = (\<lambda>_. Inl ErrNotExist), cl_steps = (\<lambda>_. Inr []),
      cl_exec = (\<lambda>_ _ _ fs. (Inr (), fs)), cl_versions = versions, cl_ids = (\<lambda>_. None), cl_tag = (\<lambda>_. None)\<rparr>"

text \<open>A server that refuses two requests and answers the third.\<close>

definition busy_env :: "nat client_env" where
  "busy_env = sample_client_env (\<lambda>_ n. (if n < 2 then None else Some (200, ''b''), Suc n)) (\<lambda>_. None)"

definition sample_request_to :: http_request where
  "sample_request_to = \<lparr>hq_Host = ''http://h'', hq_Path = ''/api/pull'', hq_Query = [], hq_Auth = None\<rparr>"

lemma download_ends_witness:
  "\<exists>k<nat 3. downloadBundle busy_env sample_request_to [] [] (after_attempts (downloadBundle busy_env sample_request_to [] []) k 0) = (Inr ''b'', 3)"
proof -
  let ?a = "downloadBundle busy_env sample_request_to [] []"
  have run: "downloadBundleWithRetry busy_env sample_request_to 3 [] [] 0 = (Inr ''b'', 3)"
    by (simp add: downloadBundleWithRetry_def numeral_3_eq_3 downloadBundle_def http_get_def busy_env_def sample_client_env_def)
  have pos: "(0::int) < 3" by simp
  from download_ends [OF run pos refl] show ?thesis
  proof (elim disjE exE conjE)
    fix k assume "k < nat 3" "?a (after_attempts ?a k 0) = (Inr ''b'', 3)"
    then show ?thesis by blast
  next
    assume failed: "\<forall>j<nat 3. \<not> is_ok (fst (?a (after_attempts ?a j 0)))"
      and r: "Inr ''b'' = fst (?a (after_attempts ?a (nat 3 - 1) 0))"
    have "nat 3 - 1 < nat 3" by simp
    with failed have "\<not> is_ok (fst (?a (after_attempts ?a (nat 3 - 1) 0)))" by blast
    then have "\<not> is_ok (Inr ''b'' :: string res)" by (simp only: r not_False_eq_True)
    then show ?thesis by simp
  qed
qed

section \<open>The environment of a hook\<close>

text \<open>A process sees the last assignment of a variable.\<close>

definition variable :: "(string \<times> string) list \<Rightarrow> string \<Rightarrow> string option" where
  "variable assigns k = map_of (rev assigns) k"

lemma fold_put: "map_of (fold (\<lambda>(k, v). al_put k v) ps m) = (\<lambda>k. case map_of (rev ps) k of None \<Rightarrow> map_of m k | Some v \<Rightarrow> Some v)"
proof (induction ps arbitrary: m)
  case (Cons p ps)
  obtain k v where p: "p = (k, v)" by fastforce
  show ?case by (rule ext) (simp add: p Cons map_add_def split: option.split)
qed simp

lemma map_of_rev_wf:
  assumes "al_wf m"
  shows "map_of (rev m) = map_of m"
proof -
  have d: "distinct (map fst m)" "distinct (map fst (rev m))"
    using assms by (simp_all add: rev_map [symmetric])
  show ?thesis using map_of_inject_set [OF d(2) d(1)] by simp
qed

text \<open>
  A hook sees the same environment whether a version declares it in its manifest or in its hook file, and no version can
  forge who it is: the variables that name project, version and server are those of the manifest, whatever the version's
  own variables are; those come next, and the client's environment fills the rest.
\<close>

theorem hook_environments_agree:
  assumes "al_wf (mf_PostHookEnv m)"
  shows "variable (post_hook_env environ m) k = variable (environ @ hookEnvMap m) k
    \<and> variable (environ @ hookEnvMap m) k = (case map_of (identity_env m) k of Some v \<Rightarrow> Some v
        | None \<Rightarrow> (case map_of (mf_PostHookEnv m) k of Some v \<Rightarrow> Some v | None \<Rightarrow> variable environ k))"
proof -
  have id: "al_wf (identity_env m)" by (simp add: identity_env_def)
  have hook: "map_of (hookEnvMap m) k = (case map_of (identity_env m) k of None \<Rightarrow> map_of (mf_PostHookEnv m) k | Some v \<Rightarrow> Some v)"
    by (simp add: hookEnvMap_def fold_put map_of_rev_wf [OF id])
  have wf: "al_wf (hookEnvMap m)"
  proof -
    have "al_wf (fold (\<lambda>(k, v). al_put k v) ps e)" if "al_wf e" for ps and e :: "(string \<times> string) list"
      using that by (induction ps arbitrary: e) (auto simp: al_wf_put)
    then show ?thesis using assms by (simp add: hookEnvMap_def)
  qed
  have "variable (environ @ hookEnvMap m) k = (case map_of (hookEnvMap m) k of Some v \<Rightarrow> Some v | None \<Rightarrow> variable environ k)"
    by (simp add: variable_def map_add_def map_of_rev_wf [OF wf] split: option.split)
  moreover have "variable (post_hook_env environ m) k = (case map_of (identity_env m) k of Some v \<Rightarrow> Some v
        | None \<Rightarrow> (case map_of (mf_PostHookEnv m) k of Some v \<Rightarrow> Some v | None \<Rightarrow> variable environ k))"
    by (simp add: variable_def post_hook_env_def map_add_def map_of_rev_wf [OF id] map_of_rev_wf [OF assms]
        cong: option.case_cong split: option.split)
  ultimately show ?thesis by (simp add: hook split: option.split)
qed

definition forging_manifest :: manifest where
  "forging_manifest = \<lparr>mf_Project = ''game'', mf_Version = ''1.0.0'', mf_ServerID = ''s1'', mf_OS = ''linux'', mf_Arch = ''amd64'', mf_Tags = [],
     mf_PostHook = ''hook.sh'', mf_PostHookEnv = [(''EXPRESS233_SERVER_ID'', ''s9''), (''MODE'', ''prod'')], mf_PostHookSpec = [],
     mf_PostHookPlan = []\<rparr>"

lemma hook_environments_agree_witness:
  "variable ([(''MODE'', ''dev'')] @ hookEnvMap forging_manifest) ''EXPRESS233_SERVER_ID'' = Some ''s1''
   \<and> variable (post_hook_env [(''MODE'', ''dev'')] forging_manifest) ''MODE'' = Some ''prod''"
proof -
  have wf: "al_wf (mf_PostHookEnv forging_manifest)" by (simp add: forging_manifest_def)
  show ?thesis
    using hook_environments_agree [OF wf, of "[(''MODE'', ''dev'')]" "''EXPRESS233_SERVER_ID''"]
      hook_environments_agree [OF wf, of "[(''MODE'', ''dev'')]" "''MODE''"]
    by (simp add: identity_env_def forging_manifest_def)
qed

section \<open>Rolling back asks the server\<close>

text \<open>\<open>handlers_pull_versions.go\<close> behind the connection: the status and the body, which the JSON codec of both sides makes.\<close>

definition query_get :: "string \<Rightarrow> url_query \<Rightarrow> string" where
  "query_get k q = (case map_of q k of Some (v # _) \<Rightarrow> v | _ \<Rightarrow> [])"

definition versions_status :: "go_error \<Rightarrow> int" where
  "versions_status e =
     (if e = ErrMsg ''token, project required'' then 400 else if e = ErrMsg ''invalid token'' then 401
      else if e = ErrMsg ''project not found'' then 404 else 403)"

definition versions_reply :: "(string list res \<Rightarrow> string) \<Rightarrow> store \<Rightarrow> http_request \<Rightarrow> int \<times> string" where
  "versions_reply enc s req =
     (case handlePullVersions s (query_get ''token'' (hq_Query req)) (query_get ''project'' (hq_Query req)) of
        Inl e \<Rightarrow> (versions_status e, enc (Inl e))
      | Inr (_, vs) \<Rightarrow> (200, enc (Inr (map v_Version vs))))"

definition serves_versions :: "(string list res \<Rightarrow> string) \<Rightarrow> store client_env \<Rightarrow> bool" where
  "serves_versions enc env \<longleftrightarrow>
     (\<forall>req s. hq_Path req = ''/api/pull/versions'' \<longrightarrow> cl_http env req s = (Some (versions_reply enc s req), s))
     \<and> (\<forall>vs. cl_versions env (enc (Inr vs)) = Some vs)"

lemma fetch_versions:
  assumes "serves_versions enc env" "cl_url env url = Some (host, q)" "token \<noteq> []" "project \<noteq> []"
    and "pullUserID s token = Some (uid, tid)" "GetProjectByName s tid project = Inr p" "can_pull s uid (p_ID p)"
  shows "fetchPublishedVersions env url project token s = (Inr (map v_Version (ListPublishedVersions s (p_ID p))), s)"
  using assms
  by (simp add: fetchPublishedVersions_def getJSON_def http_get_def buildAPIURL_def serves_versions_def versions_reply_def
      handlePullVersions_def query_get_def query_set_def)

lemma offset_agrees:
  assumes "serves_versions enc env" "cl_url env url = Some (host, q)" "token \<noteq> []" "project \<noteq> []"
    and "pullUserID s token = Some (uid, tid)" "GetProjectByName s tid project = Inr p" "can_pull s uid (p_ID p)" "0 < n"
  shows "publishedVersionByOffset env url project token n s
    = (case PublishedVersionByOffset s (p_ID p) n of
         Inl _ \<Rightarrow> Inl (ErrMsg ''not enough published versions to roll back'') | Inr v \<Rightarrow> Inr v, s)"
proof (cases "n < int (length (ListPublishedVersions s (p_ID p)))")
  case True
  with assms(8) have "nat n < length (ListPublishedVersions s (p_ID p))" by linarith
  then have "drop (nat n) (ListPublishedVersions s (p_ID p))
      = ListPublishedVersions s (p_ID p) ! nat n # drop (Suc (nat n)) (ListPublishedVersions s (p_ID p))"
    by (rule Cons_nth_drop_Suc [symmetric])
  with True assms(8) show ?thesis
    by (simp add: publishedVersionByOffset_def fetch_versions [OF assms(1-7)] PublishedVersionByOffset_def)
next
  case False
  then show ?thesis
    by (simp add: publishedVersionByOffset_def fetch_versions [OF assms(1-7)] PublishedVersionByOffset_def)
qed

text \<open>
  C16: a rollback by n steps pulls exactly the version that the server's store holds as the n-th published before the latest;
  when there are not that many, it reports so and neither asks for a bundle nor touches a file.
\<close>

theorem rollback_pulls_published:
  assumes "serves_versions enc env" "o1 = MergePullOptions (config_option (ct_config c)) opts" "cl_url env (po_ServerURL o1) = Some (host, q)"
    and "po_ServerURL o1 \<noteq> []" "po_Project o1 \<noteq> []" "po_ServerID o1 \<noteq> []" "po_Token o1 \<noteq> []"
    and "pullUserID (ct_server c) (po_Token o1) = Some (uid, tid)" "GetProjectByName (ct_server c) tid (po_Project o1) = Inr p"
    and "can_pull (ct_server c) uid (p_ID p)" "0 < n"
  shows "RunRollback env opts [] n c
    = (case PublishedVersionByOffset (ct_server c) (p_ID p) n of
         Inl _ \<Rightarrow> (Inl (ErrMsg ''not enough published versions to roll back''), c)
       | Inr v \<Rightarrow> RunPull env (o1\<lparr>po_Version := v\<rparr>) c)"
  using assms(4-7,11) offset_agrees [OF assms(1,3,7,5,8-11)]
  by (simp add: RunRollback_def on_server_def assms(2) [symmetric] split: sum.split)

text \<open>A codec for lists of names, and a store with two published versions.\<close>

definition encode_names :: "string list res \<Rightarrow> string" where
  "encode_names r = (case r of Inl _ \<Rightarrow> [] | Inr vs \<Rightarrow> concat (map (\<lambda>v. concat (map (\<lambda>c. [CHR ''x'', c]) v) @ ''y'') vs))"

fun decode_names :: "string \<Rightarrow> string \<Rightarrow> string list" where
  "decode_names acc [] = []"
| "decode_names acc (c # s) = (if c = CHR ''y'' then acc # decode_names [] s else case s of [] \<Rightarrow> [] | d # s' \<Rightarrow> decode_names (acc @ [d]) s')"

lemma decode_name: "decode_names acc (concat (map (\<lambda>c. [CHR ''x'', c]) v) @ CHR ''y'' # s) = (acc @ v) # decode_names [] s"
  by (induction v arbitrary: acc) simp_all

lemma decode_encode: "decode_names [] (encode_names (Inr vs)) = vs"
  unfolding encode_names_def by (induction vs) (simp_all add: decode_name)

definition versions_env :: "store client_env" where
  "versions_env = sample_client_env (\<lambda>req s. (Some (versions_reply encode_names s req), s)) (\<lambda>b. Some (decode_names [] b))"

definition two_versions :: store where
  "two_versions = sample_pull_store\<lparr>st_versions := \<lparr>trows = [sample_version\<lparr>v_Status := ''published''\<rparr>,
     sample_version\<lparr>v_ID := 2, v_Version := ''1.0.1'', v_Status := ''published''\<rparr>], tnext = 3\<rparr>\<rparr>"

definition rollback_opts :: pull_opts where
  "rollback_opts = empty_pull_opts\<lparr>po_ServerURL := ''http://h'', po_Token := ''t3'', po_Project := ''game'', po_ServerID := ''s1''\<rparr>"

definition rollback_client :: "store client" where
  "rollback_client = \<lparr>ct_config = Inl ErrNotExist, ct_fs = [], ct_server = two_versions\<rparr>"

lemma rollback_pulls_published_witness:
  "RunRollback versions_env rollback_opts [] 1 rollback_client
   = RunPull versions_env (rollback_opts\<lparr>po_Version := ''1.0.0''\<rparr>) rollback_client"
proof -
  have serves: "serves_versions encode_names versions_env"
    by (simp add: serves_versions_def versions_env_def sample_client_env_def decode_encode)
  have opts: "rollback_opts = MergePullOptions (config_option (ct_config rollback_client)) rollback_opts"
    by (simp add: rollback_client_def config_option_def MergePullOptions_def)
  have url: "cl_url versions_env (po_ServerURL rollback_opts) = Some (''http://h'', [])"
    by (simp add: versions_env_def sample_client_env_def rollback_opts_def)
  have given: "po_ServerURL rollback_opts \<noteq> []" "po_Project rollback_opts \<noteq> []" "po_ServerID rollback_opts \<noteq> []"
    "po_Token rollback_opts \<noteq> []" by (simp_all add: rollback_opts_def)
  have user: "pullUserID (ct_server rollback_client) (po_Token rollback_opts) = Some (3, 7)" by code_simp
  have project: "GetProjectByName (ct_server rollback_client) 7 (po_Project rollback_opts) = Inr (hd (trows (st_projects two_versions)))"
    by code_simp
  have access: "can_pull (ct_server rollback_client) 3 (p_ID (hd (trows (st_projects two_versions))))" by code_simp
  have target: "PublishedVersionByOffset (ct_server rollback_client) (p_ID (hd (trows (st_projects two_versions)))) 1 = Inr ''1.0.0''"
    by code_simp
  have one: "(0::int) < 1" by simp
  show ?thesis
    by (subst rollback_pulls_published [OF serves opts url given user project access one]) (simp add: target)
qed

section \<open>Where a hook is started\<close>

text \<open>
  \<open>os/exec\<close>: a name without a separator is looked up in the search path, a relative path is taken from the directory the
  process starts in.
\<close>

definition program_path :: "string \<Rightarrow> string \<Rightarrow> string option" where
  "program_path dir name = (if CHR ''/'' \<notin> set name then None else Some (if is_abs name then name else path_join dir name))"

text \<open>
  The client starts a hook in the destination, by a path that already contains it: with a relative destination the path is
  taken twice, and with the default one a hook beside the files is looked up in the search path.
\<close>

lemma relative_destination_doubled:
  "program_path ''out'' (path_join ''out'' ''hook.sh'') = Some ''out/out/hook.sh''
   \<and> program_path ''.'' (path_join ''.'' ''hook.sh'') = None
   \<and> program_path ''/srv/game'' (path_join ''/srv/game'' ''hook.sh'') = Some ''/srv/game/hook.sh''"
  by code_simp

end
