(* ===== verification/Dashboard.thy ===== *)
theory Dashboard
  imports Complex_Main DeliveryApi Flags
begin

text \<open>
  The dashboard (\<open>internal/store/dashboard.go\<close>, \<open>internal/api/handlers_dashboard.go\<close>): the daily series, their totals, the
  state of the nodes and hooks, and the latest records of the projects a user has access to.  A stored time is a number of
  seconds of the server's clock, so the date that \<open>substr(at,1,10)\<close> cuts out of it is the number of its day; days have
  86400 seconds, as in a zone without daylight saving.  Rates are fractions where the code rounds to \<open>float64\<close>.
\<close>

section \<open>Snapshots\<close>

record dashboard_day =
  dd_Date :: int
  dd_Uploads :: int
  dd_UploadFailures :: int
  dd_UploadBytes :: int
  dd_UploadedFiles :: int
  dd_Publishes :: int
  dd_Pulls :: int
  dd_PullFailures :: int
  dd_Deployments :: int
  dd_DeploymentSuccesses :: int
  dd_DeploymentFailures :: int
  dd_Targets :: int
  dd_TargetFailures :: int
  dd_DeploymentMillis :: int
  dd_CompletedDeploys :: int

record dashboard_summary =
  du_Uploads :: int
  du_UploadFailures :: int
  du_UploadBytes :: int
  du_UploadedFiles :: int
  du_Publishes :: int
  du_Pulls :: int
  du_PullFailures :: int
  du_PullSuccessRate :: rat
  du_Deployments :: int
  du_DeploymentSuccesses :: int
  du_DeploymentFailures :: int
  du_DeploymentSuccessRate :: rat
  du_Targets :: int
  du_TargetFailures :: int
  du_AverageDeploymentMillis :: int

record dashboard_health =
  dh_PullNodes :: int
  dh_PullOnline :: int
  dh_PullDrift :: int
  dh_SSHHosts :: int
  dh_SSHHealthy :: int
  dh_SSHFailing :: int
  dh_SSHUnknown :: int
  dh_HooksEnabled :: int
  dh_HooksPending :: int
  dh_HookFailures :: int
  dh_LatestEventAt :: stamp

record dashboard_record =
  dr_At :: stamp
  dr_Kind :: string
  dr_ProjectID :: int
  dr_Project :: string
  dr_Version :: string
  dr_Status :: string
  dr_Actor :: string
  dr_ServerID :: string
  dr_Bytes :: int
  dr_Files :: int
  dr_Detail :: string

record dashboard_snapshot =
  ds_GeneratedAt :: go_time
  ds_Days :: int
  ds_Summary :: dashboard_summary
  ds_Health :: dashboard_health
  ds_Series :: "dashboard_day list"
  ds_Recent :: "dashboard_record list"

definition zero_day :: "int \<Rightarrow> dashboard_day" where
  "zero_day date =
     \<lparr>dd_Date = date, dd_Uploads = 0, dd_UploadFailures = 0, dd_UploadBytes = 0, dd_UploadedFiles = 0, dd_Publishes = 0,
      dd_Pulls = 0, dd_PullFailures = 0, dd_Deployments = 0, dd_DeploymentSuccesses = 0, dd_DeploymentFailures = 0,
      dd_Targets = 0, dd_TargetFailures = 0, dd_DeploymentMillis = 0, dd_CompletedDeploys = 0\<rparr>"

definition zero_health :: dashboard_health where
  "zero_health =
     \<lparr>dh_PullNodes = 0, dh_PullOnline = 0, dh_PullDrift = 0, dh_SSHHosts = 0, dh_SSHHealthy = 0, dh_SSHFailing = 0,
      dh_SSHUnknown = 0, dh_HooksEnabled = 0, dh_HooksPending = 0, dh_HookFailures = 0, dh_LatestEventAt = None\<rparr>"

section \<open>The daily series\<close>

definition stamp_day :: "stamp \<Rightarrow> int option" where
  "stamp_day stamp_of = map_option (\<lambda>sec. sec div 86400) stamp_of"

definition count_rows :: "('r \<Rightarrow> bool) \<Rightarrow> 'r list \<Rightarrow> int" where
  "count_rows P rs = int (length (filter P rs))"

text \<open>\<open>GROUP BY substr(at,1,10)\<close>, and \<open>queryDaily\<close>, which sets the day of each group that is in the series.\<close>

definition group_days :: "('r \<Rightarrow> stamp) \<Rightarrow> 'r list \<Rightarrow> (int option \<times> 'r list) list" where
  "group_days stamp_of rows = map (\<lambda>d. (d, filter (\<lambda>r. stamp_day (stamp_of r) = d) rows)) (remdups (map (stamp_day \<circ> stamp_of) rows))"

definition queryDaily ::
  "('r \<Rightarrow> stamp) \<Rightarrow> 'r list \<Rightarrow> ('r list \<Rightarrow> dashboard_day \<Rightarrow> dashboard_day) \<Rightarrow> dashboard_day list \<Rightarrow> dashboard_day list" where
  "queryDaily stamp_of rows scan series =
     fold (\<lambda>(d, rs). map (\<lambda>day. if Some (dd_Date day) = d then scan rs day else day)) (group_days stamp_of rows) series"

text \<open>The rows of the five queries: those of the projects since the start.\<close>

definition upload_rows_since :: "ops_logs \<Rightarrow> stamp \<Rightarrow> int list \<Rightarrow> upload_event list" where
  "upload_rows_since l start ids = tbl_select (\<lambda>e. ue_At e \<ge> start \<and> ue_ProjectID e \<in> set ids) (ol_uploads l)"

definition publish_rows_since :: "store \<Rightarrow> stamp \<Rightarrow> int list \<Rightarrow> version list" where
  "publish_rows_since s start ids = tbl_select (\<lambda>v. v_PublishedAt v \<ge> start \<and> v_ProjectID v \<in> set ids) (st_versions s)"

definition pull_rows_since :: "ops_logs \<Rightarrow> stamp \<Rightarrow> int list \<Rightarrow> project_log list" where
  "pull_rows_since l start ids =
     tbl_select (\<lambda>r. lg_At r \<ge> start \<and> lg_Action r = ''pull'' \<and> lg_ProjectID r \<in> set ids) (ol_projects l)"

definition deploy_rows_since :: "store \<Rightarrow> stamp \<Rightarrow> int list \<Rightarrow> push_deployment list" where
  "deploy_rows_since s start ids = tbl_select (\<lambda>d. pd_CreatedAt d \<ge> start \<and> pd_ProjectID d \<in> set ids) (st_deployments s)"

definition target_rows_since :: "store \<Rightarrow> stamp \<Rightarrow> int list \<Rightarrow> push_target list" where
  "target_rows_since s start ids =
     concat (map (\<lambda>t. map (\<lambda>_. t) (tbl_select (\<lambda>d. pd_ID d = pt_DeploymentID t \<and> pd_ProjectID d \<in> set ids) (st_deployments s)))
       (tbl_select (\<lambda>t. pt_CreatedAt t \<ge> start) (st_targets s)))"

definition deploy_millis :: "push_deployment \<Rightarrow> int" where
  "deploy_millis d = (case (pd_StartedAt d, pd_CompletedAt d) of (Some a, Some b) \<Rightarrow> (b - a) * 1000 | _ \<Rightarrow> 0)"

definition scan_uploads :: "upload_event list \<Rightarrow> dashboard_day \<Rightarrow> dashboard_day" where
  "scan_uploads rs day =
     day\<lparr>dd_Uploads := int (length rs), dd_UploadFailures := count_rows (\<lambda>e. ue_Status e \<noteq> ''success'') rs,
         dd_UploadBytes := sum_list (map ue_Bytes rs), dd_UploadedFiles := sum_list (map ue_FileCount rs)\<rparr>"

definition scan_pulls :: "project_log list \<Rightarrow> dashboard_day \<Rightarrow> dashboard_day" where
  "scan_pulls rs day =
     day\<lparr>dd_Pulls := int (length rs), dd_PullFailures := count_rows (\<lambda>r. lg_Status r \<notin> {''ok'', ''success''}) rs\<rparr>"

definition scan_deploys :: "push_deployment list \<Rightarrow> dashboard_day \<Rightarrow> dashboard_day" where
  "scan_deploys rs day =
     day\<lparr>dd_Deployments := int (length rs), dd_DeploymentSuccesses := count_rows (\<lambda>d. pd_Status d = ''success'') rs,
         dd_DeploymentFailures := count_rows (\<lambda>d. pd_Status d = ''failed'') rs, dd_DeploymentMillis := sum_list (map deploy_millis rs),
         dd_CompletedDeploys := count_rows (\<lambda>d. pd_StartedAt d \<noteq> None \<and> pd_CompletedAt d \<noteq> None) rs\<rparr>"

definition scan_targets :: "push_target list \<Rightarrow> dashboard_day \<Rightarrow> dashboard_day" where
  "scan_targets rs day = day\<lparr>dd_Targets := int (length rs), dd_TargetFailures := count_rows (\<lambda>t. pt_Status t = ''failed'') rs\<rparr>"

definition daily_series :: "store \<Rightarrow> ops_logs \<Rightarrow> stamp \<Rightarrow> int list \<Rightarrow> dashboard_day list \<Rightarrow> dashboard_day list" where
  "daily_series s l start ids series0 =
     (let d1 = queryDaily ue_At (upload_rows_since l start ids) scan_uploads series0;
          d2 = queryDaily v_PublishedAt (publish_rows_since s start ids) (\<lambda>rs day. day\<lparr>dd_Publishes := int (length rs)\<rparr>) d1;
          d3 = queryDaily lg_At (pull_rows_since l start ids) scan_pulls d2;
          d4 = queryDaily pd_CreatedAt (deploy_rows_since s start ids) scan_deploys d3
      in queryDaily pt_CreatedAt (target_rows_since s start ids) scan_targets d4)"

text \<open>Go divides towards zero.\<close>

definition go_div :: "int \<Rightarrow> int \<Rightarrow> int" where
  "go_div a b = (if 0 \<le> a then a div b else - ((- a) div b))"

definition summarize :: "dashboard_day list \<Rightarrow> dashboard_summary" where
  "summarize series =
     (let total = (\<lambda>f. sum_list (map f series)); pulls = total dd_Pulls; failures = total dd_PullFailures;
          good = total dd_DeploymentSuccesses; bad = total dd_DeploymentFailures; completed = total dd_CompletedDeploys
      in \<lparr>du_Uploads = total dd_Uploads, du_UploadFailures = total dd_UploadFailures, du_UploadBytes = total dd_UploadBytes,
          du_UploadedFiles = total dd_UploadedFiles, du_Publishes = total dd_Publishes, du_Pulls = pulls, du_PullFailures = failures,
          du_PullSuccessRate = (if pulls > 0 then of_int (pulls - failures) * 100 / of_int pulls else 0),
          du_Deployments = total dd_Deployments, du_DeploymentSuccesses = good, du_DeploymentFailures = bad,
          du_DeploymentSuccessRate = (if good + bad > 0 then of_int good * 100 / of_int (good + bad) else 0),
          du_Targets = total dd_Targets, du_TargetFailures = total dd_TargetFailures,
          du_AverageDeploymentMillis = (if completed > 0 then go_div (total dd_DeploymentMillis) completed else 0)\<rparr>)"

section \<open>Health and recent records\<close>

definition populateDashboardHealth :: "go_time \<Rightarrow> store \<Rightarrow> ops_logs \<Rightarrow> int \<Rightarrow> int list \<Rightarrow> dashboard_health" where
  "populateDashboardHealth now s l tenantID ids =
     (let nodes = tbl_select (\<lambda>n. dn_TenantID n = tenantID \<and> dn_ProjectID n \<in> set ids \<and> dn_DeliveryMode n = ''pull'') (st_nodes s);
          hosts = tbl_select (\<lambda>h. ph_TenantID h = tenantID) (st_hosts s);
          hooks = tbl_select (\<lambda>h. rh_TenantID h = tenantID \<and> rh_ProjectID h \<in> set ids) (st_hooks s);
          events = map ue_At (tbl_select (\<lambda>e. ue_TenantID e = tenantID \<and> ue_ProjectID e \<in> set ids) (ol_uploads l))
            @ map lg_At (tbl_select (\<lambda>r. lg_TenantID r = tenantID \<and> lg_ProjectID r \<in> set ids) (ol_projects l))
            @ map pd_CreatedAt (tbl_select (\<lambda>d. pd_TenantID d = tenantID \<and> pd_ProjectID d \<in> set ids) (st_deployments s))
      in \<lparr>dh_PullNodes = int (length nodes), dh_PullOnline = count_rows (node_online now) nodes, dh_PullDrift = count_rows needs_deploy nodes,
          dh_SSHHosts = int (length hosts), dh_SSHHealthy = count_rows (\<lambda>h. ph_LastCheckStatus h = ''ok'') hosts,
          dh_SSHFailing = count_rows (\<lambda>h. ph_LastCheckStatus h = ''failed'') hosts,
          dh_SSHUnknown = count_rows (\<lambda>h. ph_LastCheckStatus h = [] \<or> ph_LastCheckStatus h = ''unknown'') hosts,
          dh_HooksEnabled = count_rows rh_Enabled hooks, dh_HooksPending = count_rows (\<lambda>h. rh_PendingEvents h > 0) hooks,
          dh_HookFailures = count_rows (\<lambda>h. rh_LastStatus h = ''failed'') hooks, dh_LatestEventAt = fold max events None\<rparr>)"

text \<open>\<open>JOIN projects\<close>, and the four kinds of records.\<close>

definition with_name :: "store \<Rightarrow> int \<Rightarrow> (string \<Rightarrow> dashboard_record) \<Rightarrow> dashboard_record list" where
  "with_name s pid f = map (\<lambda>p. f (p_Name p)) (tbl_select (\<lambda>p. p_ID p = pid) (st_projects s))"

definition recent_rows :: "store \<Rightarrow> ops_logs \<Rightarrow> stamp \<Rightarrow> int list \<Rightarrow> dashboard_record list" where
  "recent_rows s l start ids =
     concat (map (\<lambda>u. with_name s (ue_ProjectID u) (\<lambda>name.
       \<lparr>dr_At = ue_At u, dr_Kind = ''upload'', dr_ProjectID = ue_ProjectID u, dr_Project = name, dr_Version = ue_Version u,
        dr_Status = ue_Status u, dr_Actor = ue_Username u, dr_ServerID = [], dr_Bytes = ue_Bytes u, dr_Files = ue_FileCount u,
        dr_Detail = (if ue_Error u \<noteq> [] then ue_Error u else ue_Detail u)\<rparr>)) (upload_rows_since l start ids))
     @ concat (map (\<lambda>v. with_name s (v_ProjectID v) (\<lambda>name.
       \<lparr>dr_At = v_PublishedAt v, dr_Kind = ''publish'', dr_ProjectID = v_ProjectID v, dr_Project = name, dr_Version = v_Version v,
        dr_Status = ''success'', dr_Actor = [], dr_ServerID = [], dr_Bytes = 0, dr_Files = 0,
        dr_Detail = ''version published''\<rparr>)) (publish_rows_since s start ids))
     @ concat (map (\<lambda>r. with_name s (lg_ProjectID r) (\<lambda>name.
       \<lparr>dr_At = lg_At r, dr_Kind = ''pull'', dr_ProjectID = lg_ProjectID r, dr_Project = name, dr_Version = lg_Version r,
        dr_Status = (if lg_Status r = ''ok'' then ''success'' else lg_Status r), dr_Actor = lg_Username r, dr_ServerID = lg_ServerID r,
        dr_Bytes = 0, dr_Files = 0,
        dr_Detail = (if lg_Error r \<noteq> [] then lg_Error r else lg_OS r @ ''/'' @ lg_Arch r)\<rparr>)) (pull_rows_since l start ids))
     @ concat (map (\<lambda>d. with_name s (pd_ProjectID d) (\<lambda>name.
       \<lparr>dr_At = pd_CreatedAt d, dr_Kind = ''deploy'', dr_ProjectID = pd_ProjectID d, dr_Project = name, dr_Version = pd_Version d,
        dr_Status = pd_Status d, dr_Actor = pd_RequestedBy d, dr_ServerID = [], dr_Bytes = 0,
        dr_Files = count_rows (\<lambda>t. pt_DeploymentID t = pd_ID d) (trows (st_targets s)),
        dr_Detail = pd_Selector d\<rparr>)) (deploy_rows_since s start ids))"

text \<open>Stable, the newest first.\<close>

definition newest_first :: "dashboard_record list \<Rightarrow> dashboard_record list" where
  "newest_first rs = rev (sort_key dr_At (rev rs))"

definition start_day :: "go_time \<Rightarrow> int \<Rightarrow> int" where
  "start_day now days = now div Second div 86400 - (days - 1)"

definition Dashboard :: "go_time \<Rightarrow> store \<Rightarrow> ops_logs \<Rightarrow> int \<Rightarrow> int list \<Rightarrow> int \<Rightarrow> dashboard_snapshot" where
  "Dashboard now s l tenantID ids days0 =
     (let days = (if days0 < 1 \<or> days0 > 30 then 30 else days0);
          start = Some (start_day now days * 86400);
          series0 = map (\<lambda>i. zero_day (start_day now days + int i)) [0..<nat days];
          empty = \<lparr>ds_GeneratedAt = now, ds_Days = days, ds_Summary = summarize [], ds_Health = zero_health,
                   ds_Series = series0, ds_Recent = []\<rparr>
      in if ids = [] then empty
         else (let series = daily_series s l start ids series0
               in empty\<lparr>ds_Health := populateDashboardHealth now s l tenantID ids, ds_Series := series,
                        ds_Summary := summarize series,
                        ds_Recent := newest_first (take 100 (newest_first (recent_rows s l start ids)))\<rparr>))"

section \<open>The handler\<close>

text \<open>\<open>strconv.Atoi\<close> with the error ignored: zero, or the nearest \<open>int\<close> when the number is out of range.\<close>

definition atoi_value :: "string \<Rightarrow> int" where
  "atoi_value w =
     (case atoi w of
        Some n \<Rightarrow> n
      | None \<Rightarrow>
          (let neg = has_prefix w ''-''; ds = (if neg \<or> has_prefix w ''+'' then drop 1 w else w)
           in if ds \<noteq> [] \<and> list_all is_digit ds then (if neg then - max_int64 - 1 else max_int64) else 0))"

definition dashboard_ids :: "string \<Rightarrow> int list \<Rightarrow> int list res" where
  "dashboard_ids raw0 ids =
     (let raw = trim_space raw0
      in if raw = [] then Inr ids
         else case atoi raw of
             None \<Rightarrow> Inl (ErrMsg ''invalid project_id'')
           | Some i \<Rightarrow> if i \<in> set ids then Inr [i] else Inl (ErrMsg ''project not found''))"

definition handleDashboard ::
  "auth_env \<Rightarrow> go_time \<Rightarrow> auth_request \<Rightarrow> string \<Rightarrow> string \<Rightarrow> ops_logs \<Rightarrow> api_state \<Rightarrow> dashboard_snapshot res \<times> api_state" where
  "handleDashboard env now r project_id days_text l st =
     (case tenantFromSession env now r st of
        (None, st1) \<Rightarrow> (Inl (ErrMsg ''login required''), st1)
      | (Some tid, st1) \<Rightarrow>
          (case currentSession env now r st1 of
             (sess, st2) \<Rightarrow>
               (let s = ap_store st2; uid = session_user sess
                in case dashboard_ids project_id (map (\<lambda>(p, _). p_ID p) (ListProjects s tid uid (api_role s uid))) of
                     Inl e \<Rightarrow> (Inl e, st2)
                   | Inr ids \<Rightarrow>
                       (let days = (if atoi_value days_text = 0 then 30 else atoi_value days_text)
                        in if days < 1 \<or> days > 30
                           then (Inl (ErrMsg ''days must be between 1 and 30''), st2)
                           else (Inr (Dashboard now s l tid ids days), st2)))))"

section \<open>The totals are the counts of the window\<close>

lemma fold_days:
  assumes "\<And>rs day. dd_Date (scan rs day) = dd_Date day" "distinct ks"
  shows "fold (\<lambda>(d, rs). map (\<lambda>day. if Some (dd_Date day) = d then scan rs day else day)) (map (\<lambda>d. (d, g d)) ks) series
    = map (\<lambda>day. if Some (dd_Date day) \<in> set ks then scan (g (Some (dd_Date day))) day else day) series"
  using assms(2)
proof (induction ks arbitrary: series)
  case (Cons k ks)
  have "(if Some (dd_Date d') \<in> set ks then scan (g (Some (dd_Date d'))) d' else d')
      = (if Some (dd_Date day) \<in> set (k # ks) then scan (g (Some (dd_Date day))) day else day)"
    if "d' = (if Some (dd_Date day) = k then scan (g k) day else day)" for d' day
    using that Cons.prems by (auto simp: assms(1))
  then show ?case using Cons by (simp add: comp_def)
qed simp

lemma queryDaily_eq:
  assumes "\<And>rs day. dd_Date (scan rs day) = dd_Date day"
    and "\<And>day. day \<in> set series \<Longrightarrow> scan [] day = day"
  shows "queryDaily stamp_of rows scan series
    = map (\<lambda>day. scan (filter (\<lambda>r. stamp_day (stamp_of r) = Some (dd_Date day)) rows) day) series"
proof -
  have "scan (filter (\<lambda>r. stamp_day (stamp_of r) = Some (dd_Date day)) rows) day = day"
    if "day \<in> set series" "Some (dd_Date day) \<notin> set (remdups (map (stamp_day \<circ> stamp_of) rows))" for day
  proof -
    from that(2) have "filter (\<lambda>r. stamp_day (stamp_of r) = Some (dd_Date day)) rows = []"
      by (auto simp: filter_empty_conv image_iff)
    with assms(2) [OF that(1)] show ?thesis by simp
  qed
  then show ?thesis unfolding queryDaily_def group_days_def
    by (subst fold_days [OF assms(1) distinct_remdups]) (auto intro!: map_cong)
qed

text \<open>A day as the five queries fill it.\<close>

definition filled_day :: "store \<Rightarrow> ops_logs \<Rightarrow> stamp \<Rightarrow> int list \<Rightarrow> int \<Rightarrow> dashboard_day" where
  "filled_day s l start ids d =
     scan_targets (filter (\<lambda>t. stamp_day (pt_CreatedAt t) = Some d) (target_rows_since s start ids))
       (scan_deploys (filter (\<lambda>x. stamp_day (pd_CreatedAt x) = Some d) (deploy_rows_since s start ids))
         (scan_pulls (filter (\<lambda>r. stamp_day (lg_At r) = Some d) (pull_rows_since l start ids))
           ((\<lambda>rs day. day\<lparr>dd_Publishes := int (length rs)\<rparr>)
              (filter (\<lambda>v. stamp_day (v_PublishedAt v) = Some d) (publish_rows_since s start ids))
             (scan_uploads (filter (\<lambda>e. stamp_day (ue_At e) = Some d) (upload_rows_since l start ids)) (zero_day d)))))"

lemmas scan_defs = scan_uploads_def scan_pulls_def scan_deploys_def scan_targets_def

lemma scan_dates [simp]:
  "dd_Date (zero_day d) = d" "dd_Date (scan_uploads a day) = dd_Date day" "dd_Date (scan_pulls b day) = dd_Date day"
  "dd_Date (scan_deploys c day) = dd_Date day" "dd_Date (scan_targets t day) = dd_Date day"
  by (simp_all add: zero_day_def scan_defs)

lemma scan_nothing:
  "scan_uploads [] (zero_day d) = zero_day d"
  "(scan_uploads us (zero_day d))\<lparr>dd_Publishes := 0\<rparr> = scan_uploads us (zero_day d)"
  "scan_pulls [] ((scan_uploads us (zero_day d))\<lparr>dd_Publishes := n\<rparr>) = (scan_uploads us (zero_day d))\<lparr>dd_Publishes := n\<rparr>"
  "scan_deploys [] (scan_pulls ps ((scan_uploads us (zero_day d))\<lparr>dd_Publishes := n\<rparr>))
     = scan_pulls ps ((scan_uploads us (zero_day d))\<lparr>dd_Publishes := n\<rparr>)"
  "scan_targets [] (scan_deploys ds (scan_pulls ps ((scan_uploads us (zero_day d))\<lparr>dd_Publishes := n\<rparr>)))
     = scan_deploys ds (scan_pulls ps ((scan_uploads us (zero_day d))\<lparr>dd_Publishes := n\<rparr>))"
  by (simp_all add: scan_defs zero_day_def count_rows_def)

lemma queryDaily_map:
  assumes "\<And>rs day. dd_Date (scan rs day) = dd_Date day" "\<And>d. dd_Date (f d) = d" "\<And>d. scan [] (f d) = f d"
  shows "queryDaily stamp_of rows scan (map f ds)
    = map (\<lambda>d. scan (filter (\<lambda>r. stamp_day (stamp_of r) = Some d) rows) (f d)) ds"
proof -
  have "scan [] day = day" if "day \<in> set (map f ds)" for day using that assms(3) by auto
  with queryDaily_eq [where scan = scan and series = "map f ds", OF assms(1)] show ?thesis by (simp add: assms(2) comp_def)
qed

lemma daily_series_eq: "daily_series s l start ids (map zero_day ds) = map (filled_day s l start ids) ds"
  unfolding daily_series_def Let_def filled_day_def
  by (subst queryDaily_map, simp, simp, simp add: scan_nothing)+ (rule refl)

lemma count_rows_sum: "count_rows P xs = sum_list (map (\<lambda>x. if P x then 1 else 0) xs)"
  by (induction xs) (simp_all add: count_rows_def)

lemma length_count: "int (length xs) = count_rows (\<lambda>_. True) xs"
  by (simp add: count_rows_def)

lemma sum_by_day:
  fixes w :: "'r \<Rightarrow> int"
  assumes "distinct ds"
  shows "sum_list (map (\<lambda>d. sum_list (map w (filter (\<lambda>r. stamp_day (at_of r) = Some d) rows))) ds)
    = sum_list (map w (filter (\<lambda>r. stamp_day (at_of r) \<in> Some ` set ds) rows))"
proof (induction rows)
  case (Cons r rows)
  have one: "sum_list (map (\<lambda>d. if stamp_day (at_of r) = Some d then w r else 0) ds)
      = (if stamp_day (at_of r) \<in> Some ` set ds then w r else 0)"
    using assms by (induction ds) auto
  have "sum_list (map (\<lambda>d. sum_list (map w (filter (\<lambda>r. stamp_day (at_of r) = Some d) (r # rows)))) ds)
      = sum_list (map (\<lambda>d. (if stamp_day (at_of r) = Some d then w r else 0)
          + sum_list (map w (filter (\<lambda>r. stamp_day (at_of r) = Some d) rows))) ds)"
    by (intro arg_cong [where f = sum_list] map_cong) simp_all
  then show ?case using Cons.IH one by (simp add: sum_list_addf)
qed simp

lemma count_by_day:
  "distinct ds \<Longrightarrow> sum_list (map (\<lambda>d. count_rows P (filter (\<lambda>r. stamp_day (at_of r) = Some d) rows)) ds)
    = count_rows P (filter (\<lambda>r. stamp_day (at_of r) \<in> Some ` set ds) rows)"
  unfolding count_rows_sum by (rule sum_by_day)

lemma filled_day_fields:
  "dd_Uploads (filled_day s l a ids d) = count_rows (\<lambda>_. True) (filter (\<lambda>e. stamp_day (ue_At e) = Some d) (upload_rows_since l a ids))"
  "dd_UploadFailures (filled_day s l a ids d)
     = count_rows (\<lambda>e. ue_Status e \<noteq> ''success'') (filter (\<lambda>e. stamp_day (ue_At e) = Some d) (upload_rows_since l a ids))"
  "dd_UploadBytes (filled_day s l a ids d)
     = sum_list (map ue_Bytes (filter (\<lambda>e. stamp_day (ue_At e) = Some d) (upload_rows_since l a ids)))"
  "dd_Publishes (filled_day s l a ids d)
     = count_rows (\<lambda>_. True) (filter (\<lambda>v. stamp_day (v_PublishedAt v) = Some d) (publish_rows_since s a ids))"
  "dd_Pulls (filled_day s l a ids d) = count_rows (\<lambda>_. True) (filter (\<lambda>r. stamp_day (lg_At r) = Some d) (pull_rows_since l a ids))"
  "dd_PullFailures (filled_day s l a ids d)
     = count_rows (\<lambda>r. lg_Status r \<notin> {''ok'', ''success''}) (filter (\<lambda>r. stamp_day (lg_At r) = Some d) (pull_rows_since l a ids))"
  "dd_Deployments (filled_day s l a ids d)
     = count_rows (\<lambda>_. True) (filter (\<lambda>x. stamp_day (pd_CreatedAt x) = Some d) (deploy_rows_since s a ids))"
  "dd_DeploymentSuccesses (filled_day s l a ids d)
     = count_rows (\<lambda>x. pd_Status x = ''success'') (filter (\<lambda>x. stamp_day (pd_CreatedAt x) = Some d) (deploy_rows_since s a ids))"
  "dd_DeploymentFailures (filled_day s l a ids d)
     = count_rows (\<lambda>x. pd_Status x = ''failed'') (filter (\<lambda>x. stamp_day (pd_CreatedAt x) = Some d) (deploy_rows_since s a ids))"
  by (simp_all add: filled_day_def scan_defs zero_day_def length_count)

text \<open>The window: from the first second of the first day to the last second of today.\<close>

definition in_window :: "go_time \<Rightarrow> int \<Rightarrow> stamp \<Rightarrow> bool" where
  "in_window now days stamp \<longleftrightarrow>
     Some (start_day now days * 86400) \<le> stamp \<and> stamp < Some ((now div Second div 86400 + 1) * 86400)"

definition window_days :: "go_time \<Rightarrow> int \<Rightarrow> int list" where
  "window_days now days = map (\<lambda>i. start_day now days + int i) [0..<nat days]"

lemma window_days_distinct: "distinct (window_days now days)"
  by (simp add: window_days_def distinct_map inj_on_def)

lemma set_window_days: "1 \<le> days \<Longrightarrow> set (window_days now days) = {start_day now days..now div Second div 86400}"
proof -
  assume days: "1 \<le> days"
  have "d \<in> set (window_days now days)" if "start_day now days \<le> d" "d \<le> now div Second div 86400" for d
  proof -
    have "d = start_day now days + int (nat (d - start_day now days))" "nat (d - start_day now days) < nat days"
      using that days by (auto simp: start_day_def)
    then have "d \<in> (\<lambda>i. start_day now days + int i) ` {0..<nat days}"
      by (intro rev_image_eqI [of "nat (d - start_day now days)"]) simp_all
    then show ?thesis by (simp add: window_days_def)
  qed
  moreover have "set (window_days now days) \<subseteq> {start_day now days..now div Second div 86400}"
    using days by (auto simp: window_days_def start_day_def)
  ultimately show ?thesis by auto
qed

lemma day_bound: "(x::int) = 86400 * q + r \<Longrightarrow> 0 \<le> r \<Longrightarrow> r < 86400 \<Longrightarrow> q \<le> e \<longleftrightarrow> x < (e + 1) * 86400"
  unfolding distrib_right by (intro iffI) linarith+

lemma day_in_window:
  assumes "1 \<le> days"
  shows "Some (start_day now days * 86400) \<le> stamp \<and> stamp_day stamp \<in> Some ` set (window_days now days) \<longleftrightarrow> in_window now days stamp"
proof (cases stamp)
  case None
  then show ?thesis by (simp add: in_window_def)
next
  case (Some sec)
  let ?d = "start_day now days" and ?e = "now div Second div 86400"
  have "stamp_day stamp \<in> Some ` set (window_days now days) \<longleftrightarrow> ?d \<le> sec div 86400 \<and> sec div 86400 \<le> ?e"
    using Some by (auto simp: stamp_day_def set_window_days [OF assms])
  moreover have "?d \<le> sec div 86400" if "?d * 86400 \<le> sec" using that by linarith
  moreover have "sec div 86400 \<le> e \<longleftrightarrow> sec < (e + 1) * 86400" for e
    by (rule day_bound [of sec "sec div 86400" "sec mod 86400"]) simp_all
  ultimately show ?thesis using Some by (auto simp: in_window_def)
qed

lemma filter_window:
  assumes "1 \<le> days"
  shows "filter (\<lambda>r. stamp_day (at_of r) \<in> Some ` set (window_days now days))
      (filter (\<lambda>r. Some (start_day now days * 86400) \<le> at_of r \<and> P r) rows)
    = filter (\<lambda>r. in_window now days (at_of r) \<and> P r) rows"
  unfolding filter_filter by (rule filter_cong [OF refl]) (use day_in_window [OF assms] in blast)

lemma Dashboard_summary:
  assumes "1 \<le> days" "days \<le> 30" "ids \<noteq> []"
  shows "ds_Summary (Dashboard now s l tid ids days)
    = summarize (map (filled_day s l (Some (start_day now days * 86400)) ids) (window_days now days))"
proof -
  have "map (\<lambda>i. zero_day (start_day now days + int i)) [0..<nat days] = map zero_day (window_days now days)"
    by (simp add: window_days_def)
  with assms show ?thesis by (simp add: Dashboard_def Let_def daily_series_eq)
qed

lemma sum_filled:
  "sum_list (map (\<lambda>d. f (filled_day s l a ids d)) ds) = sum_list (map f (map (filled_day s l a ids) ds))"
  by (simp add: comp_def)

text \<open>
  C22: the totals of the dashboard are the numbers one would count in the tables: uploads with their failures and bytes,
  publishes, pulls with their failures and deployments with their outcomes, of the projects shown and from the first second of
  the first day to the last second of today; the detour through a series of days neither drops nor repeats a row.
\<close>

theorem dashboard_counts_window:
  assumes "1 \<le> days" "days \<le> 30" "u = ds_Summary (Dashboard now s l tid ids days)"
  shows "du_Uploads u = count_rows (\<lambda>_. True) (filter (\<lambda>e. in_window now days (ue_At e) \<and> ue_ProjectID e \<in> set ids) (trows (ol_uploads l)))
    \<and> du_UploadFailures u = count_rows (\<lambda>e. ue_Status e \<noteq> ''success'')
        (filter (\<lambda>e. in_window now days (ue_At e) \<and> ue_ProjectID e \<in> set ids) (trows (ol_uploads l)))
    \<and> du_UploadBytes u = sum_list (map ue_Bytes
        (filter (\<lambda>e. in_window now days (ue_At e) \<and> ue_ProjectID e \<in> set ids) (trows (ol_uploads l))))
    \<and> du_Publishes u = count_rows (\<lambda>_. True)
        (filter (\<lambda>v. in_window now days (v_PublishedAt v) \<and> v_ProjectID v \<in> set ids) (trows (st_versions s)))
    \<and> du_Pulls u = count_rows (\<lambda>_. True)
        (filter (\<lambda>r. in_window now days (lg_At r) \<and> lg_Action r = ''pull'' \<and> lg_ProjectID r \<in> set ids) (trows (ol_projects l)))
    \<and> du_PullFailures u = count_rows (\<lambda>r. lg_Status r \<notin> {''ok'', ''success''})
        (filter (\<lambda>r. in_window now days (lg_At r) \<and> lg_Action r = ''pull'' \<and> lg_ProjectID r \<in> set ids) (trows (ol_projects l)))
    \<and> du_Deployments u = count_rows (\<lambda>_. True)
        (filter (\<lambda>d. in_window now days (pd_CreatedAt d) \<and> pd_ProjectID d \<in> set ids) (trows (st_deployments s)))
    \<and> du_DeploymentSuccesses u = count_rows (\<lambda>d. pd_Status d = ''success'')
        (filter (\<lambda>d. in_window now days (pd_CreatedAt d) \<and> pd_ProjectID d \<in> set ids) (trows (st_deployments s)))
    \<and> du_DeploymentFailures u = count_rows (\<lambda>d. pd_Status d = ''failed'')
        (filter (\<lambda>d. in_window now days (pd_CreatedAt d) \<and> pd_ProjectID d \<in> set ids) (trows (st_deployments s)))"
proof (cases "ids = []")
  case True
  have "u = summarize []" using assms(3) True by (simp add: Dashboard_def Let_def)
  with True show ?thesis by (simp add: summarize_def Let_def count_rows_def)
next
  case False
  note u = assms(3) [unfolded Dashboard_summary [OF assms(1,2) False]]
  note by_day = count_by_day [OF window_days_distinct] sum_by_day [OF window_days_distinct]
  show ?thesis
    unfolding u summarize_def Let_def
    by (simp only: dashboard_summary.simps map_map comp_def filled_day_fields by_day upload_rows_since_def publish_rows_since_def
        pull_rows_since_def deploy_rows_since_def tbl_select_def filter_window [OF assms(1)] simp_thms)
qed

definition sample_upload :: upload_event where
  "sample_upload = \<lparr>ue_ID = 1, ue_At = Some 190000, ue_TenantID = 7, ue_ProjectID = 1, ue_Version = ''1.0.0'', ue_Kind = ''file'',
     ue_Bytes = 5, ue_FileCount = 1, ue_Status = ''success'', ue_Username = ''ann'', ue_Detail = [], ue_Error = [], ue_IP = []\<rparr>"

definition sample_ops_logs :: ops_logs where
  "sample_ops_logs = \<lparr>ol_projects = empty_table,
     ol_uploads = \<lparr>trows = [sample_upload\<lparr>ue_At := Some 100\<rparr>, sample_upload, sample_upload\<lparr>ue_ID := 2, ue_Status := ''failed''\<rparr>], tnext = 3\<rparr>\<rparr>"

lemma dashboard_counts_window_witness:
  "du_Uploads (ds_Summary (Dashboard 200000000000000 sample_pull_store sample_ops_logs 7 [1] 2)) = 2
   \<and> du_UploadFailures (ds_Summary (Dashboard 200000000000000 sample_pull_store sample_ops_logs 7 [1] 2)) = 1"
proof -
  have one: "(1::int) \<le> 2" and thirty: "(2::int) \<le> 30" by simp_all
  have "count_rows (\<lambda>_. True) (filter (\<lambda>e. in_window 200000000000000 2 (ue_At e) \<and> ue_ProjectID e \<in> set [1]) (trows (ol_uploads sample_ops_logs))) = 2"
    "count_rows (\<lambda>e. ue_Status e \<noteq> ''success'')
       (filter (\<lambda>e. in_window 200000000000000 2 (ue_At e) \<and> ue_ProjectID e \<in> set [1]) (trows (ol_uploads sample_ops_logs))) = 1"
    by (simp_all add: count_rows_def in_window_def start_day_def Second_def sample_ops_logs_def sample_upload_def)
  with dashboard_counts_window [OF one thirty refl, of 200000000000000 sample_pull_store sample_ops_logs 7 "[1]"] show ?thesis by simp
qed

section \<open>Whose projects a dashboard shows\<close>

lemma set_newest_first [simp]: "set (newest_first rs) = set rs"
  by (simp add: newest_first_def)

lemma recent_in_ids: "x \<in> set (recent_rows s l start ids) \<Longrightarrow> dr_ProjectID x \<in> set ids"
  by (auto simp: recent_rows_def with_name_def upload_rows_since_def publish_rows_since_def pull_rows_since_def deploy_rows_since_def
      tbl_select_def)

lemma Dashboard_recent: "x \<in> set (ds_Recent (Dashboard now s l tid ids days)) \<Longrightarrow> dr_ProjectID x \<in> set ids"
  by (auto simp: Dashboard_def Let_def split: if_splits dest!: in_set_takeD recent_in_ids)

lemma dashboard_ids_subset: "dashboard_ids raw ids = Inr ids' \<Longrightarrow> set ids' \<subseteq> set ids"
  by (auto simp: dashboard_ids_def Let_def split: if_splits option.splits)

lemma ListProjects_access:
  assumes "i \<in> set (map (\<lambda>(p, _). p_ID p) (ListProjects s tid uid role))"
  shows "\<exists>p\<in>set (trows (st_projects s)). p_ID p = i \<and> p_TenantID p = tid
    \<and> (role = RoleAdmin \<or> (\<exists>m\<in>set (st_members s). is_member i uid m))"
  using assms by (auto simp: ListProjects_def tbl_select_def split: if_splits)

text \<open>
  The records a dashboard shows belong to projects of the caller's tenant, and the caller is an administrator of the tenant
  or a member of the project; asking for a project by its number shows no other one.
\<close>

theorem dashboard_shows_own_projects:
  assumes "handleDashboard env now r project_id days l st = (Inr d, st')" "x \<in> set (ds_Recent d)"
    and "uid = session_user (fst (currentSession env now r (snd (tenantFromSession env now r st))))"
  shows "\<exists>tid. fst (tenantFromSession env now r st) = Some tid
    \<and> (\<exists>p\<in>set (trows (st_projects (ap_store st'))). p_ID p = dr_ProjectID x \<and> p_TenantID p = tid
        \<and> (api_role (ap_store st') uid = RoleAdmin \<or> (\<exists>m\<in>set (st_members (ap_store st')). is_member (p_ID p) uid m)))"
proof -
  obtain tid st1 where t: "tenantFromSession env now r st = (Some tid, st1)"
    using assms(1) by (auto simp: handleDashboard_def split: prod.splits option.splits)
  obtain sess st2 where c: "currentSession env now r st1 = (sess, st2)" by fastforce
  let ?own = "map (\<lambda>(p, _). p_ID p) (ListProjects (ap_store st2) tid (session_user sess) (api_role (ap_store st2) (session_user sess)))"
  let ?n = "if atoi_value days = 0 then 30 else atoi_value days"
  have run: "(case dashboard_ids project_id ?own of Inl e \<Rightarrow> (Inl e, st2)
      | Inr ids \<Rightarrow> if ?n < 1 \<or> ?n > 30 then (Inl (ErrMsg ''days must be between 1 and 30''), st2)
               else (Inr (Dashboard now (ap_store st2) l tid ids ?n), st2)) = (Inr d, st')"
    using assms(1) unfolding handleDashboard_def t c Let_def prod.case option.case .
  then obtain ids where ids: "dashboard_ids project_id ?own = Inr ids" by (cases "dashboard_ids project_id ?own") simp_all
  have range: "\<not> (?n < 1 \<or> ?n > 30)" using run unfolding ids sum.case by (rule contrapos_pn) simp
  have "Dashboard now (ap_store st2) l tid ids ?n = d \<and> st2 = st'"
    using run unfolding ids sum.case if_not_P [OF range] prod.inject sum.inject .
  then have d: "d = Dashboard now (ap_store st2) l tid ids ?n" and st': "st' = st2" by (blast, blast)
  have "dr_ProjectID x \<in> set ?own" using Dashboard_recent assms(2) d dashboard_ids_subset [OF ids] by blast
  from ListProjects_access [OF this] obtain p where p: "p \<in> set (trows (st_projects (ap_store st')))" "p_ID p = dr_ProjectID x"
    "p_TenantID p = tid" and access: "api_role (ap_store st') (session_user sess) = RoleAdmin
      \<or> (\<exists>m\<in>set (st_members (ap_store st')). is_member (p_ID p) (session_user sess) m)"
    unfolding st' by auto
  have uid: "uid = session_user sess" by (simp add: assms(3) t c)
  show ?thesis unfolding t fst_conv uid using p access by blast
qed

definition sample_dashboard_state :: api_state where
  "sample_dashboard_state = sample_accounts\<lparr>ap_store := sample_pull_store\<rparr>"

lemma dashboard_shows_own_projects_witness:
  "\<exists>d st'. handleDashboard sample_auth_env 0 sample_request [] ''2'' sample_ops_logs sample_dashboard_state = (Inr d, st')
     \<and> length (ds_Recent d) = 3
     \<and> (\<exists>p\<in>set (trows (st_projects (ap_store st'))). p_ID p = dr_ProjectID (hd (ds_Recent d)) \<and> p_TenantID p = 7)"
proof -
  let ?p = "handleDashboard sample_auth_env 0 sample_request [] ''2'' sample_ops_logs sample_dashboard_state"
  have "is_ok (fst ?p)" by code_simp
  then obtain d where f: "fst ?p = Inr d" by (auto simp: is_ok_iff)
  then have p: "?p = (Inr d, snd ?p)" by (simp add: prod_eq_iff)
  have "(case fst ?p of Inr x \<Rightarrow> length (ds_Recent x) = 3 | Inl _ \<Rightarrow> False)" by code_simp
  then have n: "length (ds_Recent d) = 3" by (simp only: f sum.case)
  then have first: "hd (ds_Recent d) \<in> set (ds_Recent d)" by (cases "ds_Recent d") simp_all
  have tid: "fst (tenantFromSession sample_auth_env 0 sample_request sample_dashboard_state) = Some 7" by code_simp
  from dashboard_shows_own_projects [OF p first refl] tid p n show ?thesis by auto
qed

end
