(* ===== verification/AdminApi.thy ===== *)
theory AdminApi
  imports Router
begin

text \<open>
  The routes for administrators (\<open>Router\<close> of \<open>internal/api/server.go\<close>): the handlers of the login protection
  (\<open>login_protection.go\<close>) and of the server's own update (\<open>handlers_system_update.go\<close>), and the gates in front of
  these, of the server entries, the hosts with their bindings, the tenants and the accounts.  The process that performs
  an update is an argument; its goroutine is a pending run that finishes at some later step.
\<close>

section \<open>Login protection\<close>

record protection_settings =
  pt_Enabled :: bool
  pt_FailureLimit :: int
  pt_BanSeconds :: int

definition loginProtectionSettingsPayload :: "login_env \<Rightarrow> bool \<Rightarrow> protection_settings" where
  "loginProtectionSettingsPayload env enabled =
     (let policy = loginIPPolicy env
      in \<lparr>pt_Enabled = enabled, pt_FailureLimit = lp_FailureLimit policy, pt_BanSeconds = max 1 (lp_BaseBan policy div Second)\<rparr>)"

definition handleGetLoginProtection :: "auth_env \<Rightarrow> api_state \<Rightarrow> protection_settings res" where
  "handleGetLoginProtection env st =
     Inr (loginProtectionSettingsPayload (ae_Login env) (LoginProtectionEnabled (ap_store st)))"

text \<open>The body is the switch, none when it does not decode.\<close>

definition handlePutLoginProtection ::
  "auth_env \<Rightarrow> go_time \<Rightarrow> auth_request \<Rightarrow> bool option \<Rightarrow> api_state \<Rightarrow> protection_settings res \<times> api_state" where
  "handlePutLoginProtection env now r body st =
     (case body of
        None \<Rightarrow> (Inl (ErrMsg ''invalid body''), st)
      | Some enabled \<Rightarrow>
          (case SetLoginProtectionEnabled enabled (ap_store st) of
             (Inl e, s1) \<Rightarrow> (Inl e, st\<lparr>ap_store := s1\<rparr>)
           | (Inr _, s1) \<Rightarrow>
               (Inr (loginProtectionSettingsPayload (ae_Login env) enabled),
                audit_request env now r ''login_protection.update'' (''enabled='' @ (if enabled then ''true'' else ''false''))
                  (st\<lparr>ap_store := s1\<rparr>))))"

definition handleListLoginIPBans :: "go_time \<Rightarrow> api_state \<Rightarrow> login_ban list res" where
  "handleListLoginIPBans now st = Inr (ListLoginIPBans now 200 (ap_store st))"

definition handleDeleteLoginIPBan :: "auth_env \<Rightarrow> go_time \<Rightarrow> auth_request \<Rightarrow> string \<Rightarrow> api_state \<Rightarrow> unit res \<times> api_state" where
  "handleDeleteLoginIPBan env now r ip st =
     (if le_ParseIP (ae_Login env) ip = None then (Inl (ErrMsg ''invalid IP address''), st)
      else case DeleteLoginIPHistory ip (ap_store st) of
          (Inl e, s1) \<Rightarrow> (Inl e, st\<lparr>ap_store := s1\<rparr>)
        | (Inr _, s1) \<Rightarrow> (Inr (), audit_request env now r ''login_ban.clear'' (''ip='' @ ip) (st\<lparr>ap_store := s1\<rparr>)))"

section \<open>Update of the server\<close>

record update_status =
  us_Running :: bool
  us_StartedAt :: stamp
  us_FinishedAt :: stamp
  us_RequestedBy :: string
  us_TargetVersion :: string
  us_CurrentVersion :: string
  us_CurrentCommit :: string
  us_OK :: bool
  us_Error :: string
  us_Output :: string

definition no_update :: update_status where
  "no_update = \<lparr>us_Running = False, us_StartedAt = None, us_FinishedAt = None, us_RequestedBy = [], us_TargetVersion = [],
     us_CurrentVersion = [], us_CurrentCommit = [], us_OK = False, us_Error = [], us_Output = []\<rparr>"

text \<open>A run in flight: the target, the data directory and who asked for it.\<close>

record update_run =
  ur_Target :: string
  ur_DataDir :: string
  ur_By :: string

record admin_state =
  ad_api :: api_state
  ad_update :: update_status
  ad_runs :: "update_run list"

text \<open>\<open>build\<close> is the version and the commit the binary was built from.\<close>

definition currentUpdateStatus :: "string \<times> string \<Rightarrow> update_status \<Rightarrow> update_status" where
  "currentUpdateStatus build st = st\<lparr>us_CurrentVersion := fst build, us_CurrentCommit := snd build\<rparr>"

definition requireSystemRoot :: "auth_env \<Rightarrow> go_time \<Rightarrow> auth_request \<Rightarrow> api_state \<Rightarrow> unit res \<times> api_state" where
  "requireSystemRoot env now r st =
     (case currentSession env now r st of
        (None, st1) \<Rightarrow> (Inl (ErrMsg ''login required''), st1)
      | (Some sess, st1) \<Rightarrow> (if ss_Username sess \<noteq> ''root'' then Inl (ErrMsg ''system root required'') else Inr (), st1))"

definition handleSystemUpdateStatus ::
  "auth_env \<Rightarrow> string \<times> string \<Rightarrow> go_time \<Rightarrow> auth_request \<Rightarrow> admin_state \<Rightarrow> update_status res \<times> admin_state" where
  "handleSystemUpdateStatus env build now r w =
     (case requireSystemRoot env now r (ad_api w) of
        (Inl e, st1) \<Rightarrow> (Inl e, w\<lparr>ad_api := st1\<rparr>)
      | (Inr _, st1) \<Rightarrow> (Inr (currentUpdateStatus build (ad_update w)), w\<lparr>ad_api := st1\<rparr>))"

text \<open>The answer is the status before the run has come to its end.\<close>

definition handleSystemUpdate ::
  "auth_env \<Rightarrow> string \<times> string \<Rightarrow> go_time \<Rightarrow> auth_request \<Rightarrow> string \<Rightarrow> admin_state \<Rightarrow> update_status res \<times> admin_state" where
  "handleSystemUpdate env build now r version w =
     (case currentSession env now r (ad_api w) of
        (None, st1) \<Rightarrow> (Inl (ErrMsg ''system root required''), w\<lparr>ad_api := st1\<rparr>)
      | (Some sess, st1) \<Rightarrow>
          if ss_Username sess \<noteq> ''root'' then (Inl (ErrMsg ''system root required''), w\<lparr>ad_api := st1\<rparr>)
          else
            (let target = (if version = [] then ''latest'' else version)
             in if us_Running (ad_update w) then (Inl (ErrMsg ''system update already running''), w\<lparr>ad_api := st1\<rparr>)
                else
                  (let status = no_update\<lparr>us_Running := True, us_StartedAt := format_time now, us_RequestedBy := ss_Username sess,
                         us_TargetVersion := target, us_CurrentVersion := fst build, us_CurrentCommit := snd build\<rparr>;
                       st2 = audit_request env now r ''system.update.start'' (''version='' @ target) st1
                   in (Inr (currentUpdateStatus build status),
                       w\<lparr>ad_api := st2, ad_update := status,
                         ad_runs := ad_runs w @ [\<lparr>ur_Target = target, ur_DataDir = st_dataDir (ap_store st1), ur_By = ss_Username sess\<rparr>]\<rparr>))))"

definition finishSystemUpdate ::
  "string \<times> string \<Rightarrow> go_time \<Rightarrow> bool \<Rightarrow> string \<Rightarrow> string \<Rightarrow> string \<Rightarrow> go_error option \<Rightarrow> update_status \<Rightarrow> update_status" where
  "finishSystemUpdate build now ok requestedBy target output err st =
     (let st1 = st\<lparr>us_Running := False, us_FinishedAt := format_time now, us_RequestedBy := requestedBy, us_TargetVersion := target,
                   us_CurrentVersion := fst build, us_CurrentCommit := snd build, us_OK := ok, us_Output := trim_space output\<rparr>
      in case err of None \<Rightarrow> st1 | Some e \<Rightarrow> st1\<lparr>us_Error := error_text e\<rparr>)"

text \<open>\<open>exe\<close> is the path of the running binary and \<open>command\<close> what running a command prints and returns.\<close>

definition self_update_args :: "string \<Rightarrow> string \<Rightarrow> string list" where
  "self_update_args target dataDir = [''update'', ''--version'', target, ''--data'', dataDir]"

definition runSelfUpdate ::
  "string res \<Rightarrow> (string list \<Rightarrow> string \<times> go_error option) \<Rightarrow> string \<Rightarrow> string \<Rightarrow> string \<times> go_error option" where
  "runSelfUpdate exe command target dataDir =
     (case exe of
        Inl e \<Rightarrow> ([], Some e)
      | Inr path \<Rightarrow> command (path # self_update_args target dataDir))"

definition runSystemUpdate ::
  "string \<times> string \<Rightarrow> (string \<Rightarrow> string \<Rightarrow> string \<times> go_error option) \<Rightarrow> go_time \<Rightarrow> update_run \<Rightarrow> update_status \<Rightarrow> update_status" where
  "runSystemUpdate build runner now run st =
     (case runner (ur_Target run) (ur_DataDir run) of
        (output, err) \<Rightarrow> finishSystemUpdate build now (err = None) (ur_By run) (ur_Target run) output err st)"

section \<open>Routes\<close>

text \<open>
  \<open>an_frozen\<close>: a deployment holds the lock of the server configuration; \<open>an_hash\<close> and \<open>an_token\<close> are the hash of the
  password in the body and the random token of an account; \<open>an_latency\<close> is what the clock measured.
\<close>

record admin_env =
  an_delivery :: delivery_env
  an_ssh :: ssh_world
  an_build :: "string \<times> string"
  an_frozen :: bool
  an_latency :: int
  an_hash :: string
  an_token :: string

abbreviation an_auth :: "admin_env \<Rightarrow> auth_env" where
  "an_auth env \<equiv> we_auth (dl_web (an_delivery env))"

datatype admin_route =
  ListAuditRoute
| GetProtectionRoute
| PutProtectionRoute "bool option"
| ListBansRoute
| DeleteBanRoute string
| ListTenantsRoute
| CreateTenantRoute "(string \<times> string) option"
| UpdateStatusRoute
| StartUpdateRoute string
| ListServersRoute
| GetServerRoute string
| PutServerRoute string "server_entry option"
| DeleteServerRoute string
| ListHostsRoute
| CreateHostRoute "host_request option"
| GetHostRoute int
| UpdateHostRoute int "host_request option"
| DeleteHostRoute int
| CheckHostRoute int
| ListChecksRoute int int
| ListBindingsRoute int
| CreateBindingRoute int "binding_request option"
| UpdateBindingRoute int int "binding_request option"
| DeleteBindingRoute int int
| PutServerYAMLRoute "string option"
| ListUsersRoute
| CreateUserRoute "create_user_req option"
| DeleteUserRoute string int
| RefreshTokenRoute string int
| SetPasswordRoute string int "string option"

definition admin_method :: "admin_route \<Rightarrow> string" where
  "admin_method route =
     (case route of
        PutProtectionRoute _ \<Rightarrow> ''PUT'' | PutServerRoute _ _ \<Rightarrow> ''PUT'' | UpdateHostRoute _ _ \<Rightarrow> ''PUT'' | UpdateBindingRoute _ _ _ \<Rightarrow> ''PUT''
      | PutServerYAMLRoute _ \<Rightarrow> ''PUT'' | SetPasswordRoute _ _ _ \<Rightarrow> ''PUT''
      | DeleteBanRoute _ \<Rightarrow> ''DELETE'' | DeleteServerRoute _ \<Rightarrow> ''DELETE'' | DeleteHostRoute _ \<Rightarrow> ''DELETE''
      | DeleteBindingRoute _ _ \<Rightarrow> ''DELETE'' | DeleteUserRoute _ _ \<Rightarrow> ''DELETE''
      | CreateTenantRoute _ \<Rightarrow> ''POST'' | StartUpdateRoute _ \<Rightarrow> ''POST'' | CreateHostRoute _ \<Rightarrow> ''POST'' | CheckHostRoute _ \<Rightarrow> ''POST''
      | CreateBindingRoute _ _ \<Rightarrow> ''POST'' | CreateUserRoute _ \<Rightarrow> ''POST'' | RefreshTokenRoute _ _ \<Rightarrow> ''POST''
      | _ \<Rightarrow> ''GET'')"

text \<open>The routes of the system root.\<close>

fun root_route :: "admin_route \<Rightarrow> bool" where
  "root_route ListTenantsRoute = True"
| "root_route (CreateTenantRoute _) = True"
| "root_route UpdateStatusRoute = True"
| "root_route (StartUpdateRoute _) = True"
| "root_route _ = False"

text \<open>The account of a request as the handlers of the server entries read it: its tenant, then its session.\<close>

definition api_caller :: "auth_env \<Rightarrow> go_time \<Rightarrow> auth_request \<Rightarrow> api_state \<Rightarrow> api_session option \<times> api_state" where
  "api_caller env now r st =
     (case tenantFromSession env now r st of
        (None, st1) \<Rightarrow> (None, st1)
      | (Some tid, st1) \<Rightarrow>
          (case currentSession env now r st1 of
             (None, st2) \<Rightarrow> (None, st2)
           | (Some sess, st2) \<Rightarrow>
               (Some \<lparr>as_UserID = ss_UserID sess, as_Username = ss_Username sess, as_TenantID = tid\<rparr>, st2)))"

definition with_caller ::
  "auth_env \<Rightarrow> go_time \<Rightarrow> auth_request \<Rightarrow> (api_session option \<Rightarrow> api_state \<Rightarrow> 'a res \<times> api_state) \<Rightarrow> api_state \<Rightarrow> 'a res \<times> api_state" where
  "with_caller env now r f st = (case api_caller env now r st of (sess, st1) \<Rightarrow> f sess st1)"

definition admin_answer :: "'a res \<times> api_state \<Rightarrow> admin_state \<Rightarrow> go_error option \<times> admin_state" where
  "admin_answer x w = (case x of (Inl e, st) \<Rightarrow> (Some e, w\<lparr>ad_api := st\<rparr>) | (Inr _, st) \<Rightarrow> (None, w\<lparr>ad_api := st\<rparr>))"

definition update_answer :: "update_status res \<times> admin_state \<Rightarrow> go_error option \<times> admin_state" where
  "update_answer x = (case x of (Inl e, w) \<Rightarrow> (Some e, w) | (Inr _, w) \<Rightarrow> (None, w))"

definition caller_ip :: "admin_env \<Rightarrow> auth_request \<Rightarrow> string" where
  "caller_ip env r = clientIP (ae_Login (an_auth env)) (ar_Peer r)"

fun admin_handler :: "admin_env \<Rightarrow> go_time \<Rightarrow> auth_request \<Rightarrow> admin_state \<Rightarrow> admin_route \<Rightarrow> go_error option \<times> admin_state" where
  "admin_handler env now r w ListAuditRoute = admin_answer (Inr (ListAuditLogs now (ap_store (ad_api w)) 200), ad_api w) w"
| "admin_handler env now r w GetProtectionRoute = admin_answer (handleGetLoginProtection (an_auth env) (ad_api w), ad_api w) w"
| "admin_handler env now r w (PutProtectionRoute body) = admin_answer (handlePutLoginProtection (an_auth env) now r body (ad_api w)) w"
| "admin_handler env now r w ListBansRoute = admin_answer (handleListLoginIPBans now (ad_api w), ad_api w) w"
| "admin_handler env now r w (DeleteBanRoute ip) = admin_answer (handleDeleteLoginIPBan (an_auth env) now r ip (ad_api w)) w"
| "admin_handler env now r w ListTenantsRoute = admin_answer (handleListTenants (an_auth env) now r (ad_api w)) w"
| "admin_handler env now r w (CreateTenantRoute body) = admin_answer (handleCreateTenant (an_auth env) now r body (ad_api w)) w"
| "admin_handler env now r w UpdateStatusRoute = update_answer (handleSystemUpdateStatus (an_auth env) (an_build env) now r w)"
| "admin_handler env now r w (StartUpdateRoute version) =
     update_answer (handleSystemUpdate (an_auth env) (an_build env) now r version w)"
| "admin_handler env now r w ListServersRoute =
     admin_answer (with_caller (an_auth env) now r (\<lambda>sess. on_store_res (handleListServerEntries (ae_Yaml (an_auth env)) sess)) (ad_api w)) w"
| "admin_handler env now r w (GetServerRoute sid) =
     admin_answer (with_caller (an_auth env) now r (\<lambda>sess. on_store_res (handleGetServerEntry (ae_Yaml (an_auth env)) sess sid)) (ad_api w)) w"
| "admin_handler env now r w (PutServerRoute sid body) =
     admin_answer (with_caller (an_auth env) now r (\<lambda>sess.
       handlePutServerEntry (ae_Yaml (an_auth env)) (an_frozen env) now (caller_ip env r) sess sid body) (ad_api w)) w"
| "admin_handler env now r w (DeleteServerRoute sid) =
     admin_answer (with_caller (an_auth env) now r (\<lambda>sess.
       handleDeleteServerEntry (ae_Yaml (an_auth env)) (an_frozen env) now (caller_ip env r) sess sid) (ad_api w)) w"
| "admin_handler env now r w ListHostsRoute = admin_answer (handleListPushHosts (an_delivery env) now r (ad_api w)) w"
| "admin_handler env now r w (CreateHostRoute body) = admin_answer (handleCreatePushHost (an_delivery env) now r body (ad_api w)) w"
| "admin_handler env now r w (GetHostRoute h) = admin_answer (handleGetPushHost (an_delivery env) now r h (ad_api w)) w"
| "admin_handler env now r w (UpdateHostRoute h body) = admin_answer (handleUpdatePushHost (an_delivery env) now r h body (ad_api w)) w"
| "admin_handler env now r w (DeleteHostRoute h) = admin_answer (handleDeletePushHost (an_delivery env) now r h (ad_api w)) w"
| "admin_handler env now r w (CheckHostRoute h) =
     admin_answer (handleCheckPushHost (an_delivery env) (an_ssh env) now (an_latency env) r h (ad_api w)) w"
| "admin_handler env now r w (ListChecksRoute h limit) =
     admin_answer (handleListPushHostChecks (an_delivery env) now r h limit (ad_api w)) w"
| "admin_handler env now r w (ListBindingsRoute h) = admin_answer (handleListPushBindings (an_delivery env) now r h (ad_api w)) w"
| "admin_handler env now r w (CreateBindingRoute h body) =
     admin_answer (handleCreatePushBinding (an_delivery env) now r h body (ad_api w)) w"
| "admin_handler env now r w (UpdateBindingRoute h i body) =
     admin_answer (handleUpdatePushBinding (an_delivery env) now r h i body (ad_api w)) w"
| "admin_handler env now r w (DeleteBindingRoute h i) = admin_answer (handleDeletePushBinding (an_delivery env) now r h i (ad_api w)) w"
| "admin_handler env now r w (PutServerYAMLRoute body) =
     admin_answer (with_caller (an_auth env) now r (\<lambda>sess.
       handlePutServerYAML (ae_Yaml (an_auth env)) (an_frozen env) now (caller_ip env r) sess body) (ad_api w)) w"
| "admin_handler env now r w ListUsersRoute = admin_answer (handleListUsers (an_auth env) now r (ad_api w)) w"
| "admin_handler env now r w (CreateUserRoute body) =
     admin_answer (handleCreateUser (an_auth env) now (an_hash env) (an_token env) r body (ad_api w)) w"
| "admin_handler env now r w (DeleteUserRoute param i) = admin_answer (handleDeleteUser (an_auth env) now r param i (ad_api w)) w"
| "admin_handler env now r w (RefreshTokenRoute param i) =
     admin_answer (handleRefreshToken (an_auth env) now (an_token env) r param i (ad_api w)) w"
| "admin_handler env now r w (SetPasswordRoute param i body) =
     admin_answer (handleAdminChangePassword (an_auth env) now (an_hash env) r param i body (ad_api w)) w"

text \<open>The definitions of the account handlers start with the gate of their route group; the other handlers do not.\<close>

fun gated_handler :: "admin_route \<Rightarrow> bool" where
  "gated_handler ListUsersRoute = True"
| "gated_handler (CreateUserRoute _) = True"
| "gated_handler (DeleteUserRoute _ _) = True"
| "gated_handler (RefreshTokenRoute _ _) = True"
| "gated_handler (SetPasswordRoute _ _ _) = True"
| "gated_handler _ = False"

definition admin_gate :: "admin_env \<Rightarrow> go_time \<Rightarrow> auth_request \<Rightarrow> admin_route \<Rightarrow> admin_state \<Rightarrow> go_error option \<times> admin_state" where
  "admin_gate env now r route w =
     (if gated_handler route then admin_handler env now r w route
      else case requireAdmin (an_auth env) now r (ad_api w) of
          (Passed _, st1) \<Rightarrow> admin_handler env now r (w\<lparr>ad_api := st1\<rparr>) route
        | (AdminRequired, st1) \<Rightarrow> (Some (ErrMsg ''admin required''), w\<lparr>ad_api := st1\<rparr>)
        | (_, st1) \<Rightarrow> (Some (ErrMsg ''login required''), w\<lparr>ad_api := st1\<rparr>))"

definition serve_admin :: "admin_env \<Rightarrow> go_time \<Rightarrow> auth_request \<Rightarrow> admin_route \<Rightarrow> admin_state \<Rightarrow> go_error option \<times> admin_state" where
  "serve_admin env now r route w =
     (case requireLogin (an_auth env) now r (ad_api w) of
        (Passed _, st1) \<Rightarrow>
          (case mutator_gate (dl_web (an_delivery env)) now r (admin_method route) st1 of
             (Allowed, st2) \<Rightarrow> admin_gate env now r route (w\<lparr>ad_api := st2\<rparr>)
           | (Unauthorized, st2) \<Rightarrow> (Some (ErrMsg ''login required''), w\<lparr>ad_api := st2\<rparr>)
           | (_, st2) \<Rightarrow> (Some (ErrMsg ''viewer cannot modify''), w\<lparr>ad_api := st2\<rparr>))
      | (LoginBlocked _, st1) \<Rightarrow> (Some (ErrMsg ''too many login attempts''), w\<lparr>ad_api := st1\<rparr>)
      | (_, st1) \<Rightarrow> (Some (ErrMsg ''login required''), w\<lparr>ad_api := st1\<rparr>))"

section \<open>Who may administrate\<close>

text \<open>What a request may change before it passes the gates: the login counters and the audit log.\<close>

definition api_kept :: "api_state \<Rightarrow> api_state \<Rightarrow> bool" where
  "api_kept st st' = (core (ap_store st') = core (ap_store st) \<and> ap_servers st' = ap_servers st \<and> ap_sessions st' = ap_sessions st)"

definition admin_kept :: "admin_state \<Rightarrow> admin_state \<Rightarrow> bool" where
  "admin_kept w w' = (api_kept (ad_api w) (ad_api w') \<and> ad_update w' = ad_update w \<and> ad_runs w' = ad_runs w)"

lemma api_kept_refl [simp]: "api_kept st st"
  by (simp add: api_kept_def)

lemma api_kept_trans: "api_kept st st1 \<Longrightarrow> api_kept st1 st2 \<Longrightarrow> api_kept st st2"
  by (simp add: api_kept_def)

lemma kept_session: "api_kept st (snd (currentSession env now r st))"
proof -
  have "ap_servers (snd (currentSession env now r st)) = ap_servers st \<and> ap_sessions (snd (currentSession env now r st)) = ap_sessions st"
    by (auto simp: currentSession_def sessionFromRequest_def split: option.split prod.split)
  then show ?thesis by (simp add: api_kept_def)
qed

lemma kept_login: "api_kept st (snd (requireLogin env now r st))"
  using kept_session [of st env now r] by (cases "currentSession env now r st") (auto simp: requireLogin_def split: option.split)

lemma kept_mutator: "api_kept st (snd (mutator_gate env now r m st))"
  using kept_session [of st "we_auth env" now r] by (cases "web_session env now r st") (auto simp: mutator_gate_def)

lemma kept_admin: "api_kept st (snd (requireAdmin env now r st))"
  using kept_session [of st env now r] by (cases "currentSession env now r st") (auto simp: requireAdmin_def split: option.split)

lemma admin_session:
  assumes "requireAdmin env now r st = (g, st1)"
  shows "g = Passed sess \<longleftrightarrow> fst (currentSession env now r st) = Some sess \<and> ss_IsAdmin sess"
  using assms by (cases "currentSession env now r st") (auto simp: requireAdmin_def split: option.splits if_splits)

text \<open>The routes of the system root turn everybody else away and change nothing for them.\<close>

lemma root_turned_away:
  assumes "root_route route" "admin_handler env now r w route = (reply, w')"
    and "\<not> (\<exists>sess. fst (currentSession (an_auth env) now r (ad_api w)) = Some sess \<and> ss_Username sess = ''root'')"
  shows "reply \<noteq> None \<and> admin_kept w w'"
proof -
  obtain x st1 where c: "currentSession (an_auth env) now r (ad_api w) = (x, st1)" by fastforce
  have kept: "api_kept (ad_api w) st1" using kept_session [of "ad_api w" "an_auth env" now r] c by simp
  have user: "ss_Username sess \<noteq> ''root''" if "x = Some sess" for sess using assms(3) c that by auto
  show ?thesis using assms(1)
  proof (cases route rule: root_route.cases)
    case 1
    with assms(2) c user kept show ?thesis
      by (cases x) (auto simp: handleListTenants_def admin_answer_def admin_kept_def)
  next
    case (2 body)
    with assms(2) c user kept show ?thesis
      by (cases x) (auto simp: handleCreateTenant_def admin_answer_def admin_kept_def)
  next
    case 3
    with assms(2) c user kept show ?thesis
      by (cases x) (auto simp: handleSystemUpdateStatus_def requireSystemRoot_def update_answer_def admin_kept_def)
  next
    case (4 version)
    with assms(2) c user kept show ?thesis
      by (cases x) (auto simp: handleSystemUpdate_def update_answer_def admin_kept_def)
  qed simp_all
qed

text \<open>The handlers of accounts turn away whoever is not an administrator.\<close>

lemma accounts_turned_away:
  assumes "gated_handler route" "admin_handler env now r w route = (reply, w')" "requireAdmin (an_auth env) now r (ad_api w) = (g, st1)"
    and "\<And>sess. g \<noteq> Passed sess"
  shows "reply \<noteq> None \<and> admin_kept w w'"
proof -
  have kept: "api_kept (ad_api w) st1" using kept_admin [of "ad_api w" "an_auth env" now r] assms(3) by simp
  show ?thesis using assms(1)
  proof (cases route rule: gated_handler.cases)
    case 1
    with assms kept show ?thesis by (cases g) (auto simp: handleListUsers_def admin_answer_def admin_kept_def)
  next
    case (2 body)
    with assms kept show ?thesis by (cases g) (auto simp: handleCreateUser_def admin_answer_def admin_kept_def)
  next
    case (3 param i)
    with assms kept show ?thesis by (cases g) (auto simp: handleDeleteUser_def account_change_def admin_answer_def admin_kept_def)
  next
    case (4 param i)
    with assms kept show ?thesis by (cases g) (auto simp: handleRefreshToken_def account_change_def admin_answer_def admin_kept_def)
  next
    case (5 param i body)
    with assms kept show ?thesis
      by (cases g) (auto simp: handleAdminChangePassword_def account_change_def admin_answer_def admin_kept_def split: if_splits)
  qed simp_all
qed

text \<open>So the gates of the two groups let nothing through for anybody else.\<close>

lemma admin_kept_from: "api_kept (ad_api w) st \<Longrightarrow> admin_kept (w\<lparr>ad_api := st\<rparr>) w' \<Longrightarrow> admin_kept w w'"
  using api_kept_trans by (auto simp: admin_kept_def)

lemma gate_needs_admin:
  assumes "admin_gate env now r route w = (reply, w')" "reply = None \<or> \<not> admin_kept w w'"
    and "fst (currentSession (an_auth env) now r (ad_api w)) = Some sess"
  shows "ss_IsAdmin sess"
proof (rule ccontr)
  assume no: "\<not> ss_IsAdmin sess"
  obtain a st where a: "requireAdmin (an_auth env) now r (ad_api w) = (a, st)" by fastforce
  then have none: "a \<noteq> Passed x" for x using assms(3) no admin_session [OF a] by auto
  have kept: "api_kept (ad_api w) st" using kept_admin [of "ad_api w" "an_auth env" now r] a by simp
  show False
  proof (cases "gated_handler route")
    case True
    then have "reply \<noteq> None \<and> admin_kept w w'" using assms(1) a none by (intro accounts_turned_away) (auto simp: admin_gate_def)
    with assms(2) show False by blast
  next
    case False
    with assms(1) a none have "reply \<noteq> None \<and> w' = w\<lparr>ad_api := st\<rparr>" by (cases a) (auto simp: admin_gate_def)
    with assms(2) kept show False by (auto simp: admin_kept_def)
  qed
qed

lemma gate_needs_root:
  assumes "admin_gate env now r route w = (reply, w')" "reply = None \<or> \<not> admin_kept w w'"
    and "fst (currentSession (an_auth env) now r (ad_api w)) = Some sess" "root_route route"
  shows "ss_Username sess = ''root''"
proof (rule ccontr)
  assume no: "ss_Username sess \<noteq> ''root''"
  obtain st where c: "currentSession (an_auth env) now r (ad_api w) = (Some sess, st)"
    using assms(3) by (cases "currentSession (an_auth env) now r (ad_api w)") auto
  then have a: "requireAdmin (an_auth env) now r (ad_api w) = (Passed sess, st)"
    using gate_needs_admin [OF assms(1-3)] by (simp add: requireAdmin_def)
  have "\<not> gated_handler route" using assms(4) by (cases route) simp_all
  then have h: "admin_handler env now r (w\<lparr>ad_api := st\<rparr>) route = (reply, w')" using assms(1) a by (simp add: admin_gate_def)
  have "fst (currentSession (an_auth env) now r st) = Some sess" using session_stable [of "an_auth env" now r "ad_api w"] c by simp
  then have "reply \<noteq> None \<and> admin_kept (w\<lparr>ad_api := st\<rparr>) w'" using root_turned_away [OF assms(4) h] no by auto
  moreover have "api_kept (ad_api w) st" using kept_session [of "ad_api w" "an_auth env" now r] c by simp
  ultimately show False using assms(2) admin_kept_from by blast
qed

lemma mutator_allowed:
  assumes "mutator_gate env now r m st = (Allowed, st')" "fst (currentSession (we_auth env) now r st) = Some sess"
  shows "fst (currentSession (we_auth env) now r st') = Some sess"
    and "m \<noteq> ''GET'' \<Longrightarrow> m \<noteq> ''HEAD'' \<Longrightarrow> sessionRole (ap_store st) (Some (ss_UserID sess)) \<noteq> Some RoleViewer"
proof -
  show "fst (currentSession (we_auth env) now r st') = Some sess"
    using assms session_stable [of "we_auth env" now r st] by (auto simp: mutator_gate_def split: prod.splits if_splits)
  show "sessionRole (ap_store st) (Some (ss_UserID sess)) \<noteq> Some RoleViewer" if "m \<noteq> ''GET''" "m \<noteq> ''HEAD''"
    using that assms accounts_core(5) [of "ap_store (snd (currentSession (we_auth env) now r st))" "ap_store st"]
    by (auto simp: mutator_gate_def requireMutator_def sessionRole_def split: prod.splits if_splits option.splits sum.splits)
qed


text \<open>
  C10: a request to an administrator's route that succeeds, or that changes anything but the login counters and the audit log,
  is made under a live session of an administrator who, unless it only reads, is not a viewer; for tenants and updates of the
  server the session is the system root's.
\<close>

theorem admin_routes_need_admin:
  assumes "serve_admin env now r route w = (reply, w')" "reply = None \<or> \<not> admin_kept w w'"
  shows "\<exists>sess. fst (currentSession (an_auth env) now r (ad_api w)) = Some sess \<and> session_live (ap_store (ad_api w)) sess
    \<and> ss_IsAdmin sess \<and> (root_route route \<longrightarrow> ss_Username sess = ''root'')
    \<and> (admin_method route \<noteq> ''GET'' \<longrightarrow> sessionRole (ap_store (ad_api w)) (Some (ss_UserID sess)) \<noteq> Some RoleViewer)"
proof -
  let ?ae = "an_auth env" and ?st = "ad_api w"
  obtain g st1 where g: "requireLogin ?ae now r ?st = (g, st1)" by fastforce
  obtain m st2 where m: "mutator_gate (dl_web (an_delivery env)) now r (admin_method route) st1 = (m, st2)" by fastforce
  have k1: "api_kept ?st st1" and k2: "api_kept ?st st2"
    using kept_login [of ?st ?ae now r] kept_mutator [of st1 "dl_web (an_delivery env)" now r "admin_method route"] g m api_kept_trans
    by (simp, metis snd_conv)
  have "\<exists>sess. g = Passed sess" using assms g k1 by (cases g) (auto simp: serve_admin_def admin_kept_def)
  then obtain sess where pass: "g = Passed sess" ..
  have allowed: "m = Allowed" using assms g pass m k2 by (cases m) (auto simp: serve_admin_def admin_kept_def)
  have served: "admin_gate env now r route (w\<lparr>ad_api := st2\<rparr>) = (reply, w')" using assms(1) g pass m allowed by (simp add: serve_admin_def)
  have changed: "reply = None \<or> \<not> admin_kept (w\<lparr>ad_api := st2\<rparr>) w'" using assms(2) admin_kept_from [OF k2] by blast
  have s: "currentSession ?ae now r ?st = (Some sess, st1)"
    using g pass by (auto simp: requireLogin_def split: option.splits prod.splits)
  then have s1: "fst (currentSession ?ae now r st1) = Some sess" using session_stable [of ?ae now r ?st] by simp
  note gated = mutator_allowed [OF m [unfolded allowed] s1]
  have s2: "fst (currentSession ?ae now r (ad_api (w\<lparr>ad_api := st2\<rparr>))) = Some sess" using gated(1) by simp
  have "admin_method route \<noteq> ''HEAD''" by (cases route) (simp_all add: admin_method_def)
  moreover have "core (ap_store st1) = core (ap_store ?st)" using k1 by (simp add: api_kept_def)
  then have "UserRole (ap_store st1) = UserRole (ap_store ?st)" by (rule accounts_core(5))
  then have "sessionRole (ap_store st1) x = sessionRole (ap_store ?st) x" for x by (cases x) (simp_all add: sessionRole_def)
  ultimately show ?thesis
    using s currentSession_live [of ?ae now r ?st sess] gated(2) gate_needs_admin [OF served changed s2]
      gate_needs_root [OF served changed s2] by auto
qed

section \<open>One update at a time\<close>

text \<open>Requests, a run that comes to its end with whatever it answers, and everything else that happens to the API.\<close>

inductive admin_step :: "admin_state \<Rightarrow> admin_state \<Rightarrow> bool" where
  as_serve: "serve_admin env now r route w = (reply, w') \<Longrightarrow> admin_step w w'"
| as_finish: "ad_runs w = before @ run # after \<Longrightarrow>
    admin_step w (w\<lparr>ad_update := runSystemUpdate build runner now run (ad_update w), ad_runs := before @ after\<rparr>)"
| as_other: "admin_step w (w\<lparr>ad_api := st\<rparr>)"

definition update_ok :: "admin_state \<Rightarrow> bool" where
  "update_ok w =
     (if us_Running (ad_update w)
      then \<exists>run. ad_runs w = [run] \<and> ur_By run = ''root'' \<and> us_RequestedBy (ad_update w) = ''root''
        \<and> us_TargetVersion (ad_update w) = ur_Target run
      else ad_runs w = [])"

lemma admin_answer_update [simp]: "snd (admin_answer x w) = w\<lparr>ad_api := snd x\<rparr>"
  by (cases x; cases "fst x") (auto simp: admin_answer_def)

lemma handler_update:
  assumes "update_ok w"
  shows "update_ok (snd (admin_handler env now r w route))"
proof -
  have same: "update_ok (snd (admin_answer x w))" for x :: "'a res \<times> api_state" using assms by (simp add: update_ok_def)
  show ?thesis
  proof (cases route)
    case UpdateStatusRoute
    obtain x st1 where "requireSystemRoot (an_auth env) now r (ad_api w) = (x, st1)" by fastforce
    with UpdateStatusRoute assms show ?thesis
      by (cases x) (auto simp: handleSystemUpdateStatus_def update_answer_def update_ok_def)
  next
    case (StartUpdateRoute version)
    obtain x st1 where "currentSession (an_auth env) now r (ad_api w) = (x, st1)" by fastforce
    with StartUpdateRoute assms show ?thesis
      by (cases x) (auto simp: handleSystemUpdate_def update_answer_def update_ok_def Let_def no_update_def)
  qed (simp_all only: admin_handler.simps same)
qed

lemma gate_update: "update_ok w \<Longrightarrow> update_ok (snd (admin_gate env now r route w))"
  using handler_update [of "w\<lparr>ad_api := x\<rparr>" env now r route for x] handler_update [of w env now r route]
  by (auto simp: admin_gate_def update_ok_def split: gate.split prod.split)

lemma serve_update: "update_ok w \<Longrightarrow> update_ok (snd (serve_admin env now r route w))"
  using gate_update [of "w\<lparr>ad_api := x\<rparr>" env now r route for x]
  by (auto simp: serve_admin_def update_ok_def split: gate.split prod.split access.split)

lemma update_ok_step: "admin_step w w' \<Longrightarrow> update_ok w \<Longrightarrow> update_ok w'"
proof (induction rule: admin_step.induct)
  case (as_serve env now r route w reply w')
  then show ?case using serve_update [of w env now r route] by simp
next
  case (as_finish w before run "after" build runner now)
  then have "before @ after = []" by (cases before) (auto simp: update_ok_def split: if_splits)
  moreover have "\<not> us_Running (runSystemUpdate build runner now run (ad_update w))"
    by (auto simp: runSystemUpdate_def finishSystemUpdate_def Let_def split: prod.split option.split)
  ultimately show ?case by (simp add: update_ok_def)
next
  case (as_other w st)
  then show ?case by (simp add: update_ok_def)
qed

text \<open>
  C28: however requests and runs interleave, at most one update of the server is in flight, it was asked for by the system root,
  and the status shows its target until it has come to its end.
\<close>

theorem one_update_at_a_time:
  assumes "admin_step\<^sup>*\<^sup>* w w'" "\<not> us_Running (ad_update w)" "ad_runs w = []"
  shows "ad_runs w' = [] \<and> \<not> us_Running (ad_update w')
    \<or> (\<exists>run. ad_runs w' = [run] \<and> us_Running (ad_update w') \<and> ur_By run = ''root'' \<and> us_TargetVersion (ad_update w') = ur_Target run)"
proof -
  have "update_ok w" using assms(2,3) by (simp add: update_ok_def)
  with assms(1) have "update_ok w'" by (induction rule: rtranclp_induct) (auto intro: update_ok_step)
  then show ?thesis by (auto simp: update_ok_def split: if_splits)
qed

section \<open>Agents and logins share their counters\<close>

lemma server_file_bans [simp]:
  "st_bans (ap_store (snd (getServerFile yaml tid st))) = st_bans (ap_store st)"
  "st_loginProtection (ap_store (snd (getServerFile yaml tid st))) = st_loginProtection (ap_store st)"
  by (auto simp: getServerFile_def loadServerFile_def ServerYAMLPath_def mkdir_all_def Let_def split: option.split sum.split prod.split)

lemma heartbeat_node_bans [simp]:
  "st_bans (snd (HeartbeatDeliveryNode h now s)) = st_bans s"
  "st_loginProtection (snd (HeartbeatDeliveryNode h now s)) = st_loginProtection s"
  by (auto simp: HeartbeatDeliveryNode_def Let_def split: sum.split)

text \<open>What a heartbeat with a valid token leaves of the counters, whatever becomes of it.\<close>

lemma valid_heartbeat_bans:
  assumes "trim_space header \<noteq> []" "pullUserID (ap_store st) (trim_space header) = Some ids"
    and "handleDeliveryNodeHeartbeat env now r header (Some req) st = (reply, st')"
  shows "st_bans (ap_store st') = st_bans (clearLoginFailures (ae_Login env) (ar_Peer r) (ap_store st))
    \<and> (\<forall>n. reply \<noteq> HeartbeatRetryAfter n) \<and> (\<forall>n. reply \<noteq> HeartbeatDenied n)"
proof -
  obtain uid tid where ids: "ids = (uid, tid)" by fastforce
  have who: "pullIdentity env now r (trim_space header) st = (Some (uid, tid, user_name (ap_store st) uid), st)"
    using assms(1,2) ids by (simp add: pullIdentity_def)
  let ?st2 = "on_store (clearLoginFailures (ae_Login env) (ar_Peer r)) st"
  obtain sf st3 where sf: "getServerFile (ae_Yaml env) tid ?st2 = (sf, st3)" by fastforce
  have b3: "st_bans (ap_store st3) = st_bans (ap_store ?st2)" using server_file_bans(1) [of "ae_Yaml env" tid ?st2] sf by simp
  have b4: "st_bans s4 = st_bans (ap_store ?st2)" if "HeartbeatDeliveryNode h now (ap_store st3) = (x, s4)" for h x s4
    using heartbeat_node_bans(1) [of h now "ap_store st3"] that b3 by simp
  have b2: "st_bans (ap_store ?st2) = st_bans (clearLoginFailures (ae_Login env) (ar_Peer r) (ap_store st))" by (simp add: on_store_def)
  show ?thesis
    using assms(1,3) b2 b3 b4
    by (simp add: handleDeliveryNodeHeartbeat_def Let_def who sf split: sum.splits prod.splits if_splits) auto
qed

lemma blocked_bans: "st_bans s = st_bans s' \<Longrightarrow> LoginIPBlocked ip now at s = LoginIPBlocked ip now at s'"
  by (simp add: LoginIPBlocked_def ban_row_def)

lemma recorded_row:
  assumes "RecordLoginIPFailure ip u now policy s = (ban, s')"
  shows "ban_row s' ip = Some ban"
proof (cases "ban_row s ip")
  case None
  let ?out = "applied_ban now policy (counted_failure u now policy (new_ban_row ip u now))"
  have "lb_IP ?out = ip" by (simp add: applied_ban_def counted_failure_def new_ban_row_def Let_def)
  moreover have "ban = ?out" "st_bans s' = st_bans s @ [?out]" using assms None by (auto simp: RecordLoginIPFailure_def Let_def)
  moreover have "find (\<lambda>b. lb_IP b = ip) (xs @ [?out]) = Some ?out" if "find (\<lambda>b. lb_IP b = ip) xs = None" "lb_IP ?out = ip" for xs
    using that by (induction xs) (auto split: if_splits)
  ultimately show ?thesis using None by (simp add: ban_row_def)
next
  case (Some b)
  have "ban = applied_ban now policy (counted_failure u now policy b)" using assms Some by (auto simp: RecordLoginIPFailure_def Let_def)
  with record_row [OF Some, of u now policy] assms show ?thesis by simp
qed

text \<open>
  A heartbeat with a valid token is answered also while its address is banned, and it lifts the ban and resets the counter of
  logins from that address: whoever owns a token guesses passwords without ever being locked out.
\<close>

theorem heartbeat_lifts_login_ban:
  assumes "trim_space header \<noteq> []" "pullUserID (ap_store st) (trim_space header) = Some ids"
    and "handleDeliveryNodeHeartbeat env now r header (Some req) st = (reply, st')"
  shows "(\<forall>n. reply \<noteq> HeartbeatRetryAfter n) \<and> rejectBlockedLogin (ae_Login env) (ar_Peer r) at (ap_store st') = None
    \<and> (\<forall>ip. \<forall>b\<in>set (st_bans (ap_store st')).
         loginProtectionIP (ae_Login env) (ar_Peer r) = (ip, True) \<and> lb_IP b = ip \<longrightarrow> lb_Failures b = 0)"
proof -
  note kept = valid_heartbeat_bans [OF assms]
  obtain ip reliable where ip: "loginProtectionIP (ae_Login env) (ar_Peer r) = (ip, reliable)" by fastforce
  have bans: "st_bans (ap_store st') = st_bans (snd (ClearLoginIPFailures ip (ap_store st)))" if reliable
    using kept ip that by (simp add: clearLoginFailures_def)
  have "\<not> snd (LoginIPBlocked ip at at (ap_store st'))" if reliable
    unfolding blocked_bans [OF bans [OF that]] by (rule cleared_not_blocked)
  then have "rejectBlockedLogin (ae_Login env) (ar_Peer r) at (ap_store st') = None"
    by (cases reliable) (auto simp: rejectBlockedLogin_def ip split: prod.split)
  moreover have "\<forall>b\<in>set (st_bans (ap_store st')). lb_IP b = ip \<longrightarrow> lb_Failures b = 0" if reliable
    unfolding bans [OF that] by (simp add: ClearLoginIPFailures_def ball_Un)
  ultimately show ?thesis using kept by (simp add: ip)
qed

text \<open>
  In the other direction, the failures of an agent lock out the logins from its address: after the heartbeat that is told to
  retry later, the login page refuses everybody there, although the two protections are meant to be independent.
\<close>

theorem agent_failures_block_logins:
  assumes "handleDeliveryNodeHeartbeat env now r header (Some req) st = (HeartbeatRetryAfter n, st')"
    and "LoginProtectionEnabled (ap_store st)"
  shows "rejectBlockedLogin (ae_Login env) (ar_Peer r) now (ap_store st') \<noteq> None"
proof -
  let ?token = "trim_space header" and ?le = "ae_Login env"
  obtain who st1 where w: "pullIdentity env now r ?token st = (who, st1)" by fastforce
  obtain banned retry remaining s2 where f: "recordAgentTokenFailure ?le (ar_Peer r) now (ap_store st1) = ((banned, retry, remaining), s2)"
    by (metis prod.exhaust)
  have no: "who = None \<and> ?token \<noteq> [] \<and> banned \<and> st' = st1\<lparr>ap_store := s2\<rparr>"
    using assms(1) w f
    by (cases who) (auto simp: handleDeliveryNodeHeartbeat_def Let_def split: if_splits sum.splits prod.splits)
  then have st1: "st1 = st" using w by (auto simp: pullIdentity_def split: if_splits option.splits)
  obtain ip reliable where ip: "loginProtectionIP ?le (ar_Peer r) = (ip, reliable)" by fastforce
  obtain ban s3 where b: "RecordLoginIPFailure ip ''agent-token'' now (loginIPPolicy ?le) (ap_store st) = (ban, s3)" by fastforce
  have rel: "reliable" "s2 = s3" "\<exists>t. lb_BannedUntil ban = Some t \<and> t > now"
    using f no st1 ip b by (auto simp: recordAgentTokenFailure_def Let_def split: if_splits option.splits)
  then obtain t where t: "lb_BannedUntil ban = Some t" "t > now" by blast
  have "ban_row s3 ip = Some ban"
    using b by (rule recorded_row)
  moreover have "st_loginProtection s3 = st_loginProtection (ap_store st)"
    using b by (auto simp: RecordLoginIPFailure_def Let_def)
  ultimately show ?thesis using assms(2) no rel t ip
    by (simp add: rejectBlockedLogin_def LoginIPBlocked_def LoginProtectionEnabled_def)
qed

section \<open>Witnesses\<close>

definition sample_admin_env :: admin_env where
  "sample_admin_env = \<lparr>an_delivery = sample_delivery_env, an_ssh = run_world, an_build = (''0.3.0'', ''abc''), an_frozen = False,
     an_latency = 0, an_hash = [], an_token = []\<rparr>"

definition sample_admin :: admin_state where
  "sample_admin = \<lparr>ad_api = sample_accounts\<lparr>ap_sessions := [(''sid'',
       sample_login\<lparr>ss_UserID := 1, ss_Username := ''root'', ss_TenantID := 1, ss_Expires := 9\<rparr>)]\<rparr>,
     ad_update = no_update, ad_runs = []\<rparr>"

lemma admin_routes_need_admin_witness:
  "\<exists>w'. serve_admin sample_admin_env 0 sample_request (StartUpdateRoute []) sample_admin = (None, w')
     \<and> (\<exists>sess. fst (currentSession sample_auth_env 0 sample_request (ad_api sample_admin)) = Some sess \<and> ss_Username sess = ''root'')"
proof -
  let ?p = "serve_admin sample_admin_env 0 sample_request (StartUpdateRoute []) sample_admin"
  have "fst ?p = None" by code_simp
  then obtain w' where p: "?p = (None, w')" by (metis prod.collapse)
  have "an_auth sample_admin_env = sample_auth_env" by (simp add: sample_admin_env_def sample_delivery_env_def sample_web_env_def)
  with admin_routes_need_admin [OF p] p show ?thesis by auto
qed

lemma one_update_at_a_time_witness:
  "\<exists>run. ad_runs (snd (serve_admin sample_admin_env 0 sample_request (StartUpdateRoute []) sample_admin)) = [run]
     \<and> ur_By run = ''root'' \<and> ur_Target run = ''latest''"
proof -
  let ?w = "snd (serve_admin sample_admin_env 0 sample_request (StartUpdateRoute []) sample_admin)"
  have "admin_step\<^sup>*\<^sup>* sample_admin ?w" by (intro r_into_rtranclp as_serve [of sample_admin_env]) (rule surjective_pairing)
  moreover have "\<not> us_Running (ad_update sample_admin)" "ad_runs sample_admin = []"
    by (simp_all add: sample_admin_def no_update_def)
  moreover have "us_Running (ad_update ?w) \<and> us_TargetVersion (ad_update ?w) = ''latest''" by code_simp
  ultimately show ?thesis using one_update_at_a_time [of sample_admin ?w] by auto
qed

text \<open>An address that is banned for another 90 seconds, and a heartbeat from it that names no project.\<close>

definition banned_pull :: api_state where
  "banned_pull = (ps_api sample_pull)\<lparr>ap_store := sample_pull_store\<lparr>st_loginProtection := True, st_bans :=
     [(new_ban_row ''10.0.0.1'' ''agent-token'' 0)\<lparr>lb_Failures := 4, lb_BannedUntil := Some (90 * Second)\<rparr>]\<rparr>\<rparr>"

definition empty_heartbeat :: heartbeat_request where
  "empty_heartbeat = \<lparr>hr_Project = [], hr_ServerID = [], hr_Role = [], hr_Environment = [], hr_Labels = [], hr_OS = [], hr_Arch = [],
     hr_CurrentVersion = [], hr_AppliedGeneration = 0, hr_Status = [], hr_ErrorCode = [], hr_HeartbeatIntervalSeconds = 0\<rparr>"

lemma heartbeat_lifts_login_ban_witness:
  "rejectBlockedLogin (ae_Login sample_auth_env) (ar_Peer sample_request) 0 (ap_store banned_pull) \<noteq> None
   \<and> rejectBlockedLogin (ae_Login sample_auth_env) (ar_Peer sample_request) 0
       (ap_store (snd (handleDeliveryNodeHeartbeat sample_auth_env 0 sample_request ''t3'' (Some empty_heartbeat) banned_pull))) = None"
proof -
  have "trim_space ''t3'' \<noteq> []" by code_simp
  moreover have "pullUserID (ap_store banned_pull) (trim_space ''t3'') = Some (3, 7)" by code_simp
  ultimately have "rejectBlockedLogin (ae_Login sample_auth_env) (ar_Peer sample_request) 0
       (ap_store (snd (handleDeliveryNodeHeartbeat sample_auth_env 0 sample_request ''t3'' (Some empty_heartbeat) banned_pull))) = None"
    using heartbeat_lifts_login_ban [OF _ _ surjective_pairing] by blast
  moreover have "rejectBlockedLogin (ae_Login sample_auth_env) (ar_Peer sample_request) 0 (ap_store banned_pull) \<noteq> None" by code_simp
  ultimately show ?thesis by blast
qed

lemma agent_failures_block_logins_witness:
  "\<exists>n. fst (handleDeliveryNodeHeartbeat sample_auth_env 0 sample_request ''bad'' (Some empty_heartbeat) banned_pull) = HeartbeatRetryAfter n
   \<and> rejectBlockedLogin (ae_Login sample_auth_env) (ar_Peer sample_request) 0
       (ap_store (snd (handleDeliveryNodeHeartbeat sample_auth_env 0 sample_request ''bad'' (Some empty_heartbeat) banned_pull))) \<noteq> None"
proof -
  let ?p = "handleDeliveryNodeHeartbeat sample_auth_env 0 sample_request ''bad'' (Some empty_heartbeat) banned_pull"
  have "case fst ?p of HeartbeatRetryAfter n \<Rightarrow> True | _ \<Rightarrow> False" by code_simp
  then obtain n where n: "fst ?p = HeartbeatRetryAfter n" by (auto split: heartbeat_reply.splits)
  then have p: "?p = (HeartbeatRetryAfter n, snd ?p)" by (metis prod.collapse)
  have "LoginProtectionEnabled (ap_store banned_pull)" by code_simp
  from agent_failures_block_logins [OF p this] n show ?thesis by blast
qed

end
