(* ===== verification/Bootstrap.thy ===== *)
theory Bootstrap
  imports Router Storage
begin

text \<open>
  Opening a data directory (\<open>Open\<close> of \<open>internal/store/store.go\<close> with \<open>migrate_extra.go\<close>, \<open>migrate_tenant.go\<close>,
  \<open>tenants.go\<close>, \<open>project_members.go\<close>, \<open>migrate_blobs.go\<close>, \<open>blobs.go\<close>, \<open>dashboard.go\<close>): what every start does to a
  database of the current schema and to the files beside it.  The statements that create tables, columns and indexes leave
  the rows alone and are not modelled, nor is the one-off rebuilding of a bindings table of an old schema, which copies the
  rows.  The column \<open>source_audit_id\<close> of \<open>upload_events\<close> is the list \<open>db_sources\<close> of pairs of an event and an audit entry.
\<close>

record database =
  db_store :: store
  db_logs :: ops_logs
  db_sources :: "(int \<times> int) list"
  db_blobsMigrated :: bool

text \<open>
  \<open>oe_hash\<close> is the bcrypt hash of the initial password, \<open>oe_token\<close> the random token, \<open>oe_linked\<close> says which files share their
  inode with their blob.
\<close>

record open_env =
  oe_now :: go_time
  oe_sha :: "string \<Rightarrow> string"
  oe_hash :: string
  oe_token :: "string option"
  oe_linked :: "store \<Rightarrow> string \<Rightarrow> bool"

section \<open>Accounts and tenants\<close>

definition migrateExtra :: "store \<Rightarrow> store" where
  "migrateExtra s = s\<lparr>st_users := snd (tbl_update (\<lambda>u. u_IsAdmin u = 1) (\<lambda>u. u\<lparr>u_Role := RoleAdmin\<rparr>) (st_users s))\<rparr>"

text \<open>
  The table of projects is created anew and filled at every start (the name it is created under is gone again after the
  renaming that ends the step), so that the next id follows the highest one in use.
\<close>

definition rebuild_projects :: "store \<Rightarrow> store" where
  "rebuild_projects s =
     s\<lparr>st_projects := \<lparr>trows = trows (st_projects s), tnext = foldr (\<lambda>p n. max (p_ID p + 1) n) (trows (st_projects s)) 1\<rparr>\<rparr>"

definition defaultTenantSlug :: string where
  "defaultTenantSlug = ''default''"

text \<open>\<open>os.Rename\<close> of a file or a directory with everything below it.\<close>

definition moved :: "string \<Rightarrow> string \<Rightarrow> string \<Rightarrow> string" where
  "moved old new f = (if f = old \<or> under old f then new @ drop (length old) f else f)"

definition rename :: "string \<Rightarrow> string \<Rightarrow> store \<Rightarrow> store" where
  "rename old new s = s\<lparr>st_files := map (\<lambda>(f, c). (moved old new f, c)) (st_files s), st_dirs := map (moved old new) (st_dirs s)\<rparr>"

definition rename_if_free :: "string \<Rightarrow> string \<Rightarrow> store \<Rightarrow> store" where
  "rename_if_free old new s = (if file_exists s old \<and> \<not> file_exists s new then rename old new s else s)"

definition legacy_entries :: "string \<Rightarrow> string \<Rightarrow> store \<Rightarrow> store" where
  "legacy_entries old new s =
     fold (\<lambda>e. rename_if_free (path_join old e) (path_join new e)) (read_dir s old) s"

definition migrateLegacyDataLayout :: "string \<Rightarrow> store \<Rightarrow> store" where
  "migrateLegacyDataLayout slug s0 =
     (let d = st_dataDir s0; root = path_join d (''userdata/'' @ slug); new = path_join root ''projects'';
          s1 = rename_if_free (path_join d ''projects'') new (mkdir_all root s0);
          old = path_join d (''tenants/'' @ slug @ ''/projects'');
          s2 = (if \<not> file_exists s1 old then s1
                else if \<not> file_exists s1 new then rename old new s1
                else legacy_entries old new s1);
          yaml = path_join root ''server.yaml''
      in rename_if_free (path_join d (''tenants/'' @ slug @ ''/server.yaml'')) yaml
           (rename_if_free (path_join d ''server.yaml'') yaml s2))"

definition default_tenant :: "go_time \<Rightarrow> store \<Rightarrow> int res \<times> store" where
  "default_tenant now s =
     (case tbl_row (\<lambda>t. tn_Slug t = defaultTenantSlug) (st_tenants s) of
        Inr t \<Rightarrow> (Inr (tn_ID t), s)
      | Inl _ \<Rightarrow>
          (case tbl_insert tenant_conflict (\<lambda>i r. set_tn_ID i r) ''tenants''
                  \<lparr>tn_ID = 0, tn_Slug = defaultTenantSlug, tn_Name = ''Default'', tn_CreatedAt = format_time now\<rparr> (st_tenants s) of
             (Inl e, _) \<Rightarrow> (Inl e, s)
           | (Inr i, t) \<Rightarrow> (Inr i, s\<lparr>st_tenants := t\<rparr>)))"

text \<open>Rows of a time before tenants; that the update of the projects may fail is ignored.\<close>

definition assign_tenant :: "int \<Rightarrow> store \<Rightarrow> store" where
  "assign_tenant i s =
     s\<lparr>st_users := snd (tbl_update (\<lambda>u. u_TenantID u = 0) (\<lambda>u. u\<lparr>u_TenantID := i\<rparr>) (st_users s)),
       st_projects := snd (tbl_update_checked project_conflict ''projects'' (\<lambda>p. p_TenantID p = 0)
                             (\<lambda>p. p\<lparr>p_TenantID := i\<rparr>) (st_projects s))\<rparr>"

definition EnsureDefaultTenant :: "go_time \<Rightarrow> store \<Rightarrow> unit res \<times> store" where
  "EnsureDefaultTenant now s =
     (case default_tenant now s of
        (Inl e, s1) \<Rightarrow> (Inl e, s1)
      | (Inr i, s1) \<Rightarrow> (Inr (), assign_tenant i (migrateLegacyDataLayout defaultTenantSlug s1)))"

definition migrateTenant :: "go_time \<Rightarrow> store \<Rightarrow> unit res \<times> store" where
  "migrateTenant now s = EnsureDefaultTenant now (rebuild_projects s)"

section \<open>Members\<close>

definition without_members :: "store \<Rightarrow> project list" where
  "without_members s = filter (\<lambda>p. \<not> list_ex (\<lambda>m. pm_ProjectID m = p_ID p) (st_members s)) (trows (st_projects s))"

definition seeded_member :: "project \<Rightarrow> user \<Rightarrow> project_member" where
  "seeded_member p u = \<lparr>pm_ProjectID = p_ID p, pm_UserID = u_ID u, pm_Role = ''admin'', pm_JoinedAt = p_CreatedAt p\<rparr>"

text \<open>A project without members gets the administrators of its tenant, or else the tenant's first account.\<close>

definition seed_admins :: "store \<Rightarrow> store" where
  "seed_admins s =
     s\<lparr>st_members := st_members s @ concat (map (\<lambda>p. map (seeded_member p)
         (filter (\<lambda>u. u_TenantID u = p_TenantID p \<and> u_IsAdmin u = 1) (trows (st_users s)))) (without_members s))\<rparr>"

definition seed_first :: "store \<Rightarrow> store" where
  "seed_first s =
     s\<lparr>st_members := st_members s @ concat (map (\<lambda>p.
         case sort_key u_ID (filter (\<lambda>u. u_TenantID u = p_TenantID p) (trows (st_users s))) of [] \<Rightarrow> [] | u # _ \<Rightarrow> [seeded_member p u])
       (without_members s))\<rparr>"

definition migrateProjectMembers :: "store \<Rightarrow> store" where
  "migrateProjectMembers s = seed_first (seed_admins s)"

section \<open>Blobs\<close>

definition isVersionDataFile :: "string \<Rightarrow> string \<Rightarrow> bool" where
  "isVersionDataFile userdata path =
     (under userdata path \<and> (let parts = split_on slash (rel_path userdata path) in 5 \<le> length parts \<and> parts ! 1 = ''projects''))"

definition adoptFileToBlob :: "open_env \<Rightarrow> string \<Rightarrow> store \<Rightarrow> unit res \<times> store" where
  "adoptFileToBlob env path s =
     (if oe_linked env s path then (Inr (), s)
      else case map_of (st_files s) path of
          None \<Rightarrow> (Inl ErrNotExist, s)
        | Some data \<Rightarrow>
            (case ingestBlob (oe_sha env) (oe_now env) data s of
               (Inl e, s1) \<Rightarrow> (Inl e, s1)
             | (Inr hash, s1) \<Rightarrow> linkBlobToVersion hash path (s1\<lparr>st_files := al_del path (st_files s1)\<rparr>)))"

fun adopt_all :: "open_env \<Rightarrow> string list \<Rightarrow> store \<Rightarrow> unit res \<times> store" where
  "adopt_all env [] s = (Inr (), s)"
| "adopt_all env (f # fs) s =
     (case adoptFileToBlob env f s of (Inl e, s1) \<Rightarrow> (Inl e, s1) | (Inr _, s1) \<Rightarrow> adopt_all env fs s1)"

definition userdata_root :: "store \<Rightarrow> string" where
  "userdata_root s = path_join (st_dataDir s) ''userdata''"

definition migrateExistingFilesToBlobs :: "open_env \<Rightarrow> bool \<Rightarrow> store \<Rightarrow> unit res \<times> bool \<times> store" where
  "migrateExistingFilesToBlobs env migrated s =
     (if migrated then (Inr (), True, s)
      else if \<not> file_exists s (userdata_root s) then (Inr (), True, s)
      else case adopt_all env (filter (isVersionDataFile (userdata_root s)) (walk_paths s (userdata_root s))) s of
          (Inl e, s1) \<Rightarrow> (Inl e, False, s1)
        | (Inr _, s1) \<Rightarrow> (Inr (), True, s1))"

definition migrateBlobs :: "open_env \<Rightarrow> database \<Rightarrow> unit res \<times> database" where
  "migrateBlobs env db =
     (case migrateExistingFilesToBlobs env (db_blobsMigrated db) (mkdir_all (blobsRoot (db_store db)) (db_store db)) of
        (r, b, s) \<Rightarrow> (r, db\<lparr>db_store := s, db_blobsMigrated := b\<rparr>))"

section \<open>Upload events of older versions\<close>

text \<open>\<open>strings.Fields\<close>: the words between white space; \<open>skip\<close> bytes of a white space character remain to be passed over.\<close>

definition space_length :: "string \<Rightarrow> nat" where
  "space_length s = (case find (\<lambda>p. has_prefix s p) space_runes of None \<Rightarrow> 0 | Some p \<Rightarrow> length p)"

fun words_from :: "nat \<Rightarrow> string \<Rightarrow> string \<Rightarrow> string list" where
  "words_from skip word [] = [rev word]"
| "words_from (Suc n) word (c # s) = words_from n word s"
| "words_from 0 word (c # s) =
     (if space_length (c # s) = 0 then words_from 0 (c # word) s
      else rev word # words_from (space_length (c # s) - 1) [] s)"

definition Fields :: "string \<Rightarrow> string list" where
  "Fields s = filter (\<lambda>w. w \<noteq> []) (words_from 0 [] s)"

definition auditDetailValue :: "string \<Rightarrow> string \<Rightarrow> string" where
  "auditDetailValue detail key =
     (case find (\<lambda>part. has_prefix part (key @ ''='')) (Fields detail) of None \<Rightarrow> [] | Some part \<Rightarrow> drop (length key + 1) part)"

text \<open>The uploads of the audit log that no event refers to, in the order of their ids.\<close>

definition audited_upload :: "audit_entry \<Rightarrow> bool" where
  "audited_upload e = has_prefix (map lower_char (al_Action e)) ''version.upload''"

definition has_event :: "database \<Rightarrow> audit_entry \<Rightarrow> bool" where
  "has_event db e = list_ex (\<lambda>(ev, a). a = al_ID e \<and> list_ex (\<lambda>u. ue_ID u = ev) (trows (ol_uploads (db_logs db)))) (db_sources db)"

definition legacy_uploads :: "database \<Rightarrow> audit_entry list" where
  "legacy_uploads db =
     sort_key al_ID (filter (\<lambda>e. audited_upload e \<and> \<not> has_event db e) (trows (st_audit (db_store db))))"

definition upload_kind_of :: "string \<Rightarrow> string" where
  "upload_kind_of action =
     (if has_prefix action ''version.upload.'' then drop (length ''version.upload.'') action else ''file'')"

definition backfill_one :: "int \<Rightarrow> audit_entry \<Rightarrow> database \<Rightarrow> database" where
  "backfill_one tenantID e db =
     (let project = auditDetailValue (al_Detail e) ''project''; s = db_store db
      in case (if project = [] then Inl ErrNoRows else GetProjectByName s tenantID project) of
           Inl _ \<Rightarrow> db
         | Inr p \<Rightarrow>
             if list_ex (\<lambda>(_, a). a = al_ID e) (filter (\<lambda>(ev, _). list_ex (\<lambda>u. ue_ID u = ev) (trows (ol_uploads (db_logs db)))) (db_sources db))
             then db
             else
               (let event = \<lparr>ue_ID = 0, ue_At = al_At e, ue_TenantID = tenantID, ue_ProjectID = p_ID p,
                      ue_Version = auditDetailValue (al_Detail e) ''version'', ue_Kind = upload_kind_of (al_Action e), ue_Bytes = 0,
                      ue_FileCount = 0, ue_Status = ''success'', ue_Username = al_Username e, ue_Detail = al_Detail e, ue_Error = [],
                      ue_IP = al_IP e\<rparr>;
                    uploads = ol_uploads (db_logs db)
                in db\<lparr>db_logs := (db_logs db)\<lparr>ol_uploads := snd (tbl_insert no_conflict (\<lambda>i r. set_ue_ID i r) ''upload_events'' event uploads)\<rparr>,
                      db_sources := db_sources db @ [(tnext uploads, al_ID e)]\<rparr>))"

definition backfillLegacyUploads :: "database \<Rightarrow> database" where
  "backfillLegacyUploads db =
     (case trows (st_tenants (db_store db)) of
        [t] \<Rightarrow> fold (backfill_one (tn_ID t)) (legacy_uploads db) db
      | _ \<Rightarrow> db)"

definition migrateDashboard :: "go_time \<Rightarrow> database \<Rightarrow> database" where
  "migrateDashboard now db =
     (let l = db_logs db
      in backfillLegacyUploads (db\<lparr>db_logs := l\<lparr>ol_uploads :=
           snd (tbl_delete (\<lambda>u. ue_At u < format_time (now - dashboardRetention)) (ol_uploads l))\<rparr>\<rparr>))"

section \<open>Opening\<close>

text \<open>Hosts whose check was never scheduled are scheduled now.\<close>

definition schedule_checks :: "go_time \<Rightarrow> store \<Rightarrow> store" where
  "schedule_checks now s =
     s\<lparr>st_hosts := snd (tbl_update (\<lambda>h. ph_HealthCheckEnabled h \<and> ph_NextCheckAt h = None)
                       (\<lambda>h. h\<lparr>ph_NextCheckAt := format_time now\<rparr>) (st_hosts s))\<rparr>"

definition ensureDefaultAdmin :: "open_env \<Rightarrow> store \<Rightarrow> unit res \<times> store" where
  "ensureDefaultAdmin env s =
     (if trows (st_users s) \<noteq> [] then (Inr (), s)
      else case tbl_row (\<lambda>t. tn_Slug t = defaultTenantSlug) (st_tenants s) of
          Inl e \<Rightarrow> (Inl e, s)
        | Inr t \<Rightarrow>
            (case oe_token env of
               None \<Rightarrow> (Inl (ErrMsg ''rand''), s)
             | Some token \<Rightarrow>
                 (case tbl_insert user_conflict (\<lambda>i r. set_u_ID i r) ''users''
                        \<lparr>u_ID = 0, u_Username = ''root'', u_PasswordHash = oe_hash env, u_Role = RoleAdmin, u_IsAdmin = 1,
                         u_TenantID = tn_ID t, u_Token = token, u_AuthVersion = 1, u_CreatedAt = format_time (oe_now env)\<rparr> (st_users s) of
                    (Inl e, _) \<Rightarrow> (Inl e, s)
                  | (Inr _, us) \<Rightarrow> (Inr (), s\<lparr>st_users := us\<rparr>))))"

definition migrate :: "open_env \<Rightarrow> database \<Rightarrow> unit res \<times> database" where
  "migrate env db =
     (case migrateTenant (oe_now env) (migrateExtra (db_store db)) of
        (Inl e, s1) \<Rightarrow> (Inl e, db\<lparr>db_store := s1\<rparr>)
      | (Inr _, s1) \<Rightarrow>
          (case migrateBlobs env (db\<lparr>db_store := migrateProjectMembers s1\<rparr>) of
             (Inl e, db1) \<Rightarrow> (Inl e, db1)
           | (Inr _, db1) \<Rightarrow>
               (let db2 = migrateDashboard (oe_now env) (db1\<lparr>db_store := schedule_checks (oe_now env) (db_store db1)\<rparr>)
                in case PruneLogs (oe_now env) (db_store db2, db_logs db2) of
                     (_, s, l) \<Rightarrow> (Inr (), db2\<lparr>db_store := s, db_logs := l\<rparr>))))"

definition Open :: "open_env \<Rightarrow> database \<Rightarrow> unit res \<times> database" where
  "Open env db =
     (case migrate env (db\<lparr>db_store := mkdir_all (st_dataDir (db_store db)) (db_store db)\<rparr>) of
        (Inl e, db1) \<Rightarrow> (Inl e, db1)
      | (Inr _, db1) \<Rightarrow>
          (case ensureDefaultAdmin env (db_store db1) of (r, s) \<Rightarrow> (r, db1\<lparr>db_store := s\<rparr>)))"

section \<open>What opening leaves alone\<close>

definition project_tables :: "store \<Rightarrow> project table \<times> project_member list \<times> version table \<times> tenant table" where
  "project_tables s = (st_projects s, st_members s, st_versions s, st_tenants s)"

lemma rename_tables [simp]:
  "project_tables (rename old new s) = project_tables s" "project_tables (rename_if_free old new s) = project_tables s"
  by (simp_all add: project_tables_def rename_if_free_def rename_def)

lemma legacy_entries_tables [simp]: "project_tables (legacy_entries old new s) = project_tables s"
proof -
  have "project_tables (fold (\<lambda>e. rename_if_free (path_join old e) (path_join new e)) es s) = project_tables s" for es
    by (induction es arbitrary: s) simp_all
  then show ?thesis by (simp add: legacy_entries_def)
qed

lemma mkdir_tables [simp]: "project_tables (mkdir_all d s) = project_tables s"
  by (simp add: project_tables_def mkdir_all_def)

lemma layout_tables [simp]: "project_tables (migrateLegacyDataLayout slug s) = project_tables s"
  by (simp add: migrateLegacyDataLayout_def Let_def)

lemma adopt_tables: "adoptFileToBlob env f s = (r, s') \<Longrightarrow> project_tables s' = project_tables s"
  by (auto simp: adoptFileToBlob_def ingestBlob_def linkBlobToVersion_def writeBlobFile_def project_tables_def Let_def
      split: if_splits option.splits)

lemma adopt_all_tables: "adopt_all env fs s = (r, s') \<Longrightarrow> project_tables s' = project_tables s"
proof (induction fs arbitrary: s)
  case (Cons f fs)
  obtain x s1 where a: "adoptFileToBlob env f s = (x, s1)" by fastforce
  with Cons adopt_tables [OF a] show ?case by (cases x) auto
qed simp

lemma migrateBlobs_tables:
  assumes "migrateBlobs env db = (r, db')"
  shows "project_tables (db_store db') = project_tables (db_store db)"
proof -
  let ?s = "mkdir_all (blobsRoot (db_store db)) (db_store db)"
  obtain x b s1 where m: "migrateExistingFilesToBlobs env (db_blobsMigrated db) ?s = (x, b, s1)" by (metis prod.exhaust)
  then have "project_tables s1 = project_tables ?s"
    by (auto simp: migrateExistingFilesToBlobs_def dest: adopt_all_tables split: if_splits prod.splits sum.splits)
  with m assms show ?thesis by (auto simp: migrateBlobs_def)
qed

lemma backfill_store [simp]: "db_store (backfillLegacyUploads db) = db_store db"
proof -
  have one: "db_store (backfill_one i e db) = db_store db" for i e db
    by (auto simp: backfill_one_def Let_def split: sum.split)
  have "db_store (fold (backfill_one i) es db) = db_store db" for i es
    by (induction es arbitrary: db) (simp_all add: one)
  then show ?thesis by (simp add: backfillLegacyUploads_def split: list.split)
qed

lemma prune_project_tables: "PruneLogs now (s, l) = (x, s', l') \<Longrightarrow> project_tables s' = project_tables s"
  by (auto simp: PruneLogs_def Let_def project_tables_def split: prod.splits)

lemma admin_tables: "ensureDefaultAdmin env s = (r, s') \<Longrightarrow> project_tables s' = project_tables s"
  by (auto simp: ensureDefaultAdmin_def project_tables_def split: if_splits sum.splits option.splits prod.splits)

text \<open>The projects keep their ids, and the next id follows the highest.\<close>

definition next_project :: "store \<Rightarrow> int" where
  "next_project s = foldr (\<lambda>p n. max (p_ID p + 1) n) (trows (st_projects s)) 1"

lemma default_tenant_tables:
  assumes "EnsureDefaultTenant now s = (Inr u, s')"
  shows "map p_ID (trows (st_projects s')) = map p_ID (trows (st_projects s)) \<and> tnext (st_projects s') = tnext (st_projects s)
    \<and> st_members s' = st_members s \<and> st_versions s' = st_versions s
    \<and> (\<forall>i t. TenantByID s i = Inr t \<longrightarrow> TenantByID s' i = Inr t)"
proof -
  have keep: "map p_ID (trows (snd (tbl_update_checked c n P (\<lambda>p. p\<lparr>p_TenantID := i\<rparr>) t))) = map p_ID (trows t)
      \<and> tnext (snd (tbl_update_checked c n P (\<lambda>p. p\<lparr>p_TenantID := i\<rparr>) t)) = tnext t" for c n P i and t :: "project table"
    by (auto simp: tbl_update_checked_def tbl_update_def)
  obtain i s1 where d: "default_tenant now s = (Inr i, s1)" "s' = assign_tenant i (migrateLegacyDataLayout defaultTenantSlug s1)"
    using assms by (auto simp: EnsureDefaultTenant_def split: sum.splits prod.splits)
  have same: "st_projects s1 = st_projects s" "st_members s1 = st_members s" "st_versions s1 = st_versions s"
    using d(1) by (auto simp: default_tenant_def split: sum.splits prod.splits)
  have find: "find P xs = Some x \<Longrightarrow> find P (xs @ ys) = Some x" for P and xs ys :: "tenant list" and x
    by (induction xs) auto
  have tenants: "TenantByID s1 j = Inr t" if "TenantByID s j = Inr t" for j t
    using d(1) that find
    by (auto simp: default_tenant_def TenantByID_def tbl_row_def tbl_insert_def split: sum.splits prod.splits option.splits if_splits)
  have "project_tables (migrateLegacyDataLayout defaultTenantSlug s1) = project_tables s1" by simp
  then show ?thesis using keep d(2) same tenants by (simp add: project_tables_def assign_tenant_def TenantByID_def)
qed

lemma seeded_other:
  assumes "k \<notin> p_ID ` set (trows (st_projects s))"
  shows "ProjectMemberRole (migrateProjectMembers s) k u = ProjectMemberRole s k u"
proof -
  have no: "find (is_member k u) (xs @ concat (map f (without_members s'))) = find (is_member k u) xs"
    if "\<And>p m. m \<in> set (f p) \<Longrightarrow> pm_ProjectID m = p_ID p" "st_projects s' = st_projects s" for xs f s'
  proof -
    have "\<not> is_member k u m" if "m \<in> set (concat (map f (without_members s')))" for m
      using that assms \<open>\<And>p m. m \<in> set (f p) \<Longrightarrow> pm_ProjectID m = p_ID p\<close> \<open>st_projects s' = st_projects s\<close>
      by (fastforce simp: without_members_def is_member_def)
    then have "find (is_member k u) (concat (map f (without_members s'))) = None" by (auto simp: find_None_iff)
    then show ?thesis by (induction xs) auto
  qed
  have "find (is_member k u) (st_members (seed_admins s)) = find (is_member k u) (st_members s)"
    unfolding seed_admins_def by simp (rule no, auto simp: seeded_member_def)
  moreover have "find (is_member k u) (st_members (seed_first (seed_admins s))) = find (is_member k u) (st_members (seed_admins s))"
    unfolding seed_first_def
    by simp (rule no, auto simp: seeded_member_def seed_admins_def split: list.splits)
  ultimately show ?thesis by (simp add: ProjectMemberRole_def migrateProjectMembers_def)
qed

lemma open_tables:
  assumes "Open env db = (Inr u, db')"
  shows "map p_ID (trows (st_projects (db_store db'))) = map p_ID (trows (st_projects (db_store db)))
    \<and> tnext (st_projects (db_store db')) = next_project (db_store db) \<and> st_versions (db_store db') = st_versions (db_store db)
    \<and> (\<forall>k v. k \<notin> p_ID ` set (trows (st_projects (db_store db))) \<longrightarrow>
        ProjectMemberRole (db_store db') k v = ProjectMemberRole (db_store db) k v)
    \<and> (\<forall>i t. TenantByID (db_store db) i = Inr t \<longrightarrow> TenantByID (db_store db') i = Inr t)"
proof -
  let ?s = "rebuild_projects (migrateExtra (mkdir_all (st_dataDir (db_store db)) (db_store db)))"
  let ?db = "db\<lparr>db_store := mkdir_all (st_dataDir (db_store db)) (db_store db)\<rparr>"
  obtain u1 db1 where m: "migrate env ?db = (Inr u1, db1)" and a: "ensureDefaultAdmin env (db_store db1) = (Inr u, db_store db')"
    using assms by (auto simp: Open_def split: sum.splits prod.splits)
  from m obtain s1 u2 db2 u3 where t: "EnsureDefaultTenant (oe_now env) ?s = (Inr u2, s1)"
    and b: "migrateBlobs env (?db\<lparr>db_store := migrateProjectMembers s1\<rparr>) = (Inr u3, db2)"
    and d: "project_tables (db_store db1) = project_tables (schedule_checks (oe_now env) (db_store db2))"
    by (auto simp: migrate_def migrateTenant_def migrateDashboard_def Let_def dest: prune_project_tables split: sum.splits prod.splits)
  have "project_tables (db_store db') = project_tables (db_store db1)" using admin_tables [OF a] .
  also have "\<dots> = project_tables (db_store db2)" using d by (simp add: project_tables_def schedule_checks_def)
  also have "\<dots> = project_tables (migrateProjectMembers s1)" using migrateBlobs_tables [OF b] by simp
  finally have final: "project_tables (db_store db') = project_tables (migrateProjectMembers s1)" .
  have seed: "st_projects (migrateProjectMembers s1) = st_projects s1" "st_versions (migrateProjectMembers s1) = st_versions s1"
    "st_tenants (migrateProjectMembers s1) = st_tenants s1"
    by (simp_all add: migrateProjectMembers_def seed_first_def seed_admins_def)
  have start: "trows (st_projects ?s) = trows (st_projects (db_store db))" "tnext (st_projects ?s) = next_project (db_store db)"
    "st_members ?s = st_members (db_store db)" "st_versions ?s = st_versions (db_store db)" "st_tenants ?s = st_tenants (db_store db)"
    by (simp_all add: rebuild_projects_def migrateExtra_def mkdir_all_def next_project_def)
  note e = default_tenant_tables [OF t]
  have ids: "p_ID ` set (trows (st_projects s1)) = p_ID ` set (trows (st_projects (db_store db)))"
    using e start(1) by (metis list.set_map)
  have "ProjectMemberRole (db_store db') k v = ProjectMemberRole (db_store db) k v"
    if "k \<notin> p_ID ` set (trows (st_projects (db_store db)))" for k v
  proof -
    have "ProjectMemberRole (db_store db') k v = ProjectMemberRole (migrateProjectMembers s1) k v"
      using final by (simp add: ProjectMemberRole_def project_tables_def)
    also have "\<dots> = ProjectMemberRole s1 k v" by (rule seeded_other) (simp only: ids that not_False_eq_True)
    finally show ?thesis using e start(3) by (simp add: ProjectMemberRole_def)
  qed
  moreover have "TenantByID (db_store db') i = Inr t" if "TenantByID (db_store db) i = Inr t" for i t
  proof -
    have "TenantByID ?s i = Inr t" using that start(5) by (simp add: TenantByID_def)
    then have "TenantByID s1 i = Inr t" using e by blast
    then show ?thesis using final seed(3) by (simp add: TenantByID_def project_tables_def)
  qed
  ultimately show ?thesis using final seed e start by (simp add: project_tables_def)
qed

text \<open>Opening succeeds where there are accounts and the blobs have been migrated.\<close>

lemma layout_users [simp]: "st_users (migrateLegacyDataLayout slug s) = st_users s"
proof -
  have rn: "st_users (rename_if_free old new s) = st_users s" for old new s by (simp add: rename_if_free_def rename_def)
  have "st_users (fold (\<lambda>e. rename_if_free (path_join old e) (path_join new e)) es s) = st_users s" for old new es s
    by (induction es arbitrary: s) (simp_all add: rn)
  then show ?thesis by (simp add: migrateLegacyDataLayout_def Let_def rn legacy_entries_def rename_def mkdir_all_def)
qed

lemma default_tenant_ok: "\<exists>i s'. default_tenant now s = (Inr i, s') \<and> st_users s' = st_users s"
proof (cases "tbl_row (\<lambda>t. tn_Slug t = defaultTenantSlug) (st_tenants s)")
  case (Inl e)
  have "\<not> list_ex (tenant_conflict \<lparr>tn_ID = 0, tn_Slug = defaultTenantSlug, tn_Name = ''Default'', tn_CreatedAt = format_time now\<rparr>) (trows (st_tenants s))"
    using tbl_row_Inl [OF Inl] by (auto simp: list_ex_iff tenant_conflict_def)
  then show ?thesis by (simp add: default_tenant_def Inl tbl_insert_def)
qed (simp add: default_tenant_def)

lemma open_ok:
  assumes "db_blobsMigrated db" "trows (st_users (db_store db)) \<noteq> []"
  shows "is_ok (fst (Open env db))"
proof -
  let ?s = "mkdir_all (st_dataDir (db_store db)) (db_store db)"
  obtain i s1 where d: "default_tenant (oe_now env) (rebuild_projects (migrateExtra ?s)) = (Inr i, s1)"
    "st_users s1 = st_users (rebuild_projects (migrateExtra ?s))" using default_tenant_ok by blast
  let ?s2 = "migrateProjectMembers (assign_tenant i (migrateLegacyDataLayout defaultTenantSlug s1))"
  have "trows (st_users ?s2) \<noteq> []"
    using assms(2) d(2) by (simp add: migrateProjectMembers_def seed_first_def seed_admins_def assign_tenant_def rebuild_projects_def
        migrateExtra_def mkdir_all_def)
  moreover have t: "migrateTenant (oe_now env) (migrateExtra ?s) = (Inr (), assign_tenant i (migrateLegacyDataLayout defaultTenantSlug s1))"
    using d(1) by (simp add: migrateTenant_def EnsureDefaultTenant_def)
  moreover obtain db1 where b: "migrateBlobs env (db\<lparr>db_store := ?s2\<rparr>) = (Inr (), db1)" "st_users (db_store db1) = st_users ?s2"
    using assms(1) by (simp add: migrateBlobs_def migrateExistingFilesToBlobs_def mkdir_all_def)
  moreover obtain db2 where p: "migrateDashboard (oe_now env) (db1\<lparr>db_store := schedule_checks (oe_now env) (db_store db1)\<rparr>) = db2"
    "st_users (db_store db2) = st_users ?s2" using b(2) by (simp add: migrateDashboard_def Let_def schedule_checks_def)
  moreover obtain x s l where l: "PruneLogs (oe_now env) (db_store db2, db_logs db2) = (x, s, l)" by (metis prod.exhaust)
  moreover from l have "st_users s = st_users (db_store db2)" by (auto simp: PruneLogs_def Let_def split: prod.splits)
  ultimately show ?thesis by (simp add: Open_def migrate_def ensureDefaultAdmin_def Let_def)
qed

section \<open>Ids of projects after a restart\<close>

lemma next_project_above: "p \<in> set (trows (st_projects s)) \<Longrightarrow> p_ID p < next_project s"
proof -
  have "p \<in> set ps \<Longrightarrow> p_ID p < foldr (\<lambda>p n. max (p_ID p + 1) n) ps 1" for ps by (induction ps) auto
  then show "p \<in> set (trows (st_projects s)) \<Longrightarrow> ?thesis" by (simp add: next_project_def)
qed

lemma next_project_least:
  assumes "\<And>p. p \<in> set (trows (st_projects s)) \<Longrightarrow> p_ID p < k" "1 \<le> k"
  shows "next_project s \<le> k"
proof -
  have "(\<And>p. p \<in> set ps \<Longrightarrow> p_ID p < k) \<Longrightarrow> foldr (\<lambda>p n. max (p_ID p + 1) n) ps 1 \<le> k" for ps
    using assms(2) by (induction ps) (auto simp: add1_zle_eq)
  then show ?thesis unfolding next_project_def using assms(1) by blast
qed

lemma release_all_tables: "project_tables (snd (release_all sha fs s)) = project_tables s"
proof (induction fs arbitrary: s)
  case (Cons f fs)
  have one: "project_tables (snd (releaseBlobLink sha f s)) = project_tables s"
    by (auto simp: releaseBlobLink_def decrementBlobRef_def project_tables_def find_blob_def split: option.split)
  obtain x s1 where "releaseBlobLink sha f s = (x, s1)" by fastforce
  with one Cons.IH show ?case by (cases x) simp_all
qed simp

lemma delete_project_leaves:
  assumes "DeleteProject sha tid i s = (Inr u, s')"
  shows "trows (st_projects s') = filter (\<lambda>p. \<not> is_project tid i p) (trows (st_projects s)) \<and> st_members s' = st_members s
    \<and> st_versions s' = st_versions s"
proof -
  let ?s1 = "s\<lparr>st_projects := snd (tbl_delete (is_project tid i) (st_projects s))\<rparr>"
  obtain p where p: "tbl_row (is_project tid i) (st_projects s) = Inr p"
    using assms by (cases "tbl_row (is_project tid i) (st_projects s)") (auto simp: DeleteProject_def)
  obtain root where "ProjectsRoot (deleteProjectFileModes tid (p_Name p) ?s1) tid = Inr root"
    using assms p by (cases "ProjectsRoot (deleteProjectFileModes tid (p_Name p) ?s1) tid") (auto simp: DeleteProject_def Let_def)
  then have s': "s' = remove_all (path_join root (p_Name p))
      (snd (releaseProjectDir sha (path_join root (p_Name p)) (deleteProjectFileModes tid (p_Name p) ?s1)))"
    using assms p by (simp add: DeleteProject_def Let_def)
  have "project_tables s' = project_tables (deleteProjectFileModes tid (p_Name p) ?s1)"
    using release_all_tables by (simp add: s' remove_all_def project_tables_def releaseProjectDir_def releaseVersionDir_def)
  also have "\<dots> = project_tables ?s1" by (simp add: deleteProjectFileModes_def project_tables_def)
  finally show ?thesis by (simp add: project_tables_def)
qed

lemma other_member:
  assumes "AddProjectMember now k owner role s = (r, s')" "v \<noteq> owner"
  shows "ProjectMemberRole s' k v = ProjectMemberRole s k v"
proof -
  have "find (is_member k v) (map (\<lambda>m. if is_member k owner m then m\<lparr>pm_Role := role\<rparr> else m) ms) = find (is_member k v) ms" for ms
    using assms(2) by (induction ms) (auto simp: is_member_def)
  moreover have "find (is_member k v) (ms @ [m]) = find (is_member k v) ms" if "pm_UserID m = owner" for ms m
    using assms(2) that by (induction ms) (auto simp: is_member_def)
  ultimately show ?thesis using assms(1) by (auto simp: AddProjectMember_def ProjectMemberRole_def split: if_splits)
qed


section \<open>The migrations of the files keep every file\<close>

lemma file_exists_path: "f \<in> fst ` set (st_files s) \<Longrightarrow> f = d \<or> under d f \<Longrightarrow> file_exists s d"
  by (auto simp: file_exists_def dir_exists_def list_ex_iff map_of_eq_None_iff)

lemma moved_inject:
  assumes free: "\<not> file_exists s new" and f: "f \<in> fst ` set (st_files s)" and g: "g \<in> fst ` set (st_files s)"
    and same: "moved old new f = moved old new g"
  shows "f = g"
proof -
  let ?in = "\<lambda>x. x = old \<or> under old x"
  have tail: "\<exists>t. x = old @ t \<and> (t = [] \<or> has_prefix t ''/'')" if "?in x" for x
    using that by (auto simp: under_def has_prefix_iff)
  have clash: False if "?in x" "y \<in> fst ` set (st_files s)" "moved old new x = y" for x y
  proof -
    from tail [OF that(1)] have "y = new \<or> under new y" using that(1,3) by (auto simp: moved_def under_def has_prefix_iff)
    with file_exists_path [OF that(2)] free show False by blast
  qed
  show ?thesis
  proof (cases "?in f"; cases "?in g")
    assume "?in f" "?in g"
    with same tail [of f] tail [of g] show ?thesis by (auto simp: moved_def)
  next
    assume "?in f" "\<not> ?in g"
    with same have "moved old new f = g" by (simp add: moved_def)
    with clash [OF \<open>?in f\<close> g] show ?thesis by blast
  next
    assume "\<not> ?in f" "?in g"
    with same have "moved old new g = f" by (simp add: moved_def)
    with clash [OF \<open>?in g\<close> f] show ?thesis by blast
  qed (use same in \<open>simp add: moved_def\<close>)
qed

definition files_kept :: "store \<Rightarrow> store \<Rightarrow> bool" where
  "files_kept s s' = (map snd (st_files s') = map snd (st_files s) \<and> (al_wf (st_files s) \<longrightarrow> al_wf (st_files s')))"

lemma files_kept_refl [simp]: "files_kept s s"
  by (simp add: files_kept_def)

lemma files_kept_trans: "files_kept s s1 \<Longrightarrow> files_kept s1 s2 \<Longrightarrow> files_kept s s2"
  by (simp add: files_kept_def)

lemma rename_kept:
  assumes "\<not> file_exists s new"
  shows "files_kept s (rename old new s)"
proof -
  have "distinct (map (\<lambda>x. moved old new (fst x)) (st_files s))" if "al_wf (st_files s)"
  proof -
    have "inj_on (moved old new) (set (map fst (st_files s)))"
      using moved_inject [OF assms] by (auto simp: inj_on_def)
    with that have "distinct (map (moved old new) (map fst (st_files s)))" by (simp add: distinct_map comp_inj_on)
    then show ?thesis by (simp add: comp_def)
  qed
  then show ?thesis by (auto simp: files_kept_def rename_def case_prod_beta comp_def)
qed

lemma rename_if_free_kept: "files_kept s (rename_if_free old new s)"
  by (simp add: rename_if_free_def rename_kept)

lemma legacy_entries_kept: "files_kept s (legacy_entries old new s)"
proof -
  have "files_kept s (fold (\<lambda>e. rename_if_free (path_join old e) (path_join new e)) es s)" for es
    by (induction es arbitrary: s) (auto intro: files_kept_trans rename_if_free_kept)
  then show ?thesis by (simp add: legacy_entries_def)
qed

text \<open>
  Moving the files of older layouts loses nothing: every file is there with its content, under its old path or a new one, and
  no two files end up under the same path.
\<close>

theorem layout_keeps_files:
  assumes "al_wf (st_files s)"
  shows "map snd (st_files (migrateLegacyDataLayout slug s)) = map snd (st_files s) \<and> al_wf (st_files (migrateLegacyDataLayout slug s))"
proof -
  let ?d = "st_dataDir s"
  let ?root = "path_join ?d (''userdata/'' @ slug)"
  let ?new = "path_join ?root ''projects''" and ?old = "path_join ?d (''tenants/'' @ slug @ ''/projects'')"
  let ?s1 = "rename_if_free (path_join ?d ''projects'') ?new (mkdir_all ?root s)"
  let ?s2 = "if \<not> file_exists ?s1 ?old then ?s1 else if \<not> file_exists ?s1 ?new then rename ?old ?new ?s1 else legacy_entries ?old ?new ?s1"
  have "files_kept s (mkdir_all ?root s)" by (simp add: files_kept_def mkdir_all_def)
  then have k1: "files_kept s ?s1" using files_kept_trans rename_if_free_kept by blast
  have "files_kept ?s1 ?s2" by (auto intro: rename_kept legacy_entries_kept)
  then have "files_kept s ?s2" using k1 files_kept_trans by blast
  then have "files_kept s (migrateLegacyDataLayout slug s)"
    unfolding migrateLegacyDataLayout_def Let_def by (intro files_kept_trans [OF _ rename_if_free_kept])
  with assms show ?thesis by (simp add: files_kept_def)
qed

text \<open>The files of the blobs have the content their names say; then adopting a file keeps what every other path holds.\<close>

definition blobs_named :: "(string \<Rightarrow> string) \<Rightarrow> store \<Rightarrow> bool" where
  "blobs_named sha s = (is_abs (st_dataDir s) \<and> (\<forall>h c. hex_hash h \<and> map_of (st_files s) (blobPath s h) = Some c \<longrightarrow> sha c = h))"

definition same_hash :: "(string \<Rightarrow> string) \<Rightarrow> store \<Rightarrow> store \<Rightarrow> bool" where
  "same_hash sha s s' = (\<forall>f. \<not> under (blobsRoot s) f \<longrightarrow> map_option sha (map_of (st_files s') f) = map_option sha (map_of (st_files s) f))"

lemma adopt_keeps:
  assumes named: "blobs_named (oe_sha env) s" and hex: "\<And>c. hex_hash (oe_sha env c)"
    and path: "\<not> under (blobsRoot s) path" "map_of (st_files s) path = Some data"
    and run: "adoptFileToBlob env path s = (r, s')"
  shows "r = Inr () \<and> blobs_named (oe_sha env) s' \<and> same_hash (oe_sha env) s s' \<and> st_dataDir s' = st_dataDir s"
proof (cases "oe_linked env s path")
  case True
  with run named show ?thesis by (auto simp: adoptFileToBlob_def same_hash_def)
next
  case False
  let ?sha = "oe_sha env"
  let ?h = "?sha data"
  let ?bp = "blobPath s ?h"
  have abs: "is_abs (st_dataDir s)" and cont: "\<And>h c. hex_hash h \<Longrightarrow> map_of (st_files s) (blobPath s h) = Some c \<Longrightarrow> ?sha c = h"
    using named by (auto simp: blobs_named_def)
  have bpu: "under (blobsRoot s) ?bp" by (rule under_blobsRoot [OF abs hex])
  then have ne: "path \<noteq> ?bp" using path(1) by auto
  obtain x s1 where i: "ingestBlob ?sha (oe_now env) data s = (x, s1)" by fastforce
  then have ing: "ingestBlob ?sha (oe_now env) data s = (Inr ?h, s1)" and files: "st_files s1 = st_files (writeBlobFile ?bp data s)"
    and dir': "st_dataDir s1 = st_dataDir (writeBlobFile ?bp data s)"
    by (auto simp: ingestBlob_def Let_def split: option.splits)
  have dir: "st_dataDir s1 = st_dataDir s" using dir' by (simp add: writeBlobFile_def split: option.split)
  let ?F = "map_of (st_files s1)"
  have F: "?F f = (if f = ?bp \<and> map_of (st_files s) ?bp = None then Some data else map_of (st_files s) f)" for f
    by (auto simp: files writeBlobFile_def split: option.split)
  obtain c where c: "?F ?bp = Some c" "?sha c = ?h"
    using cont [OF hex, of data] F [of ?bp] by (cases "map_of (st_files s) ?bp") auto
  have roots: "blobPath s1 x = blobPath s x" for x by (simp add: blobPath_def blobsRoot_def dir)
  have "linkBlobToVersion ?h path (s1\<lparr>st_files := al_del path (st_files s1)\<rparr>) = (r, s')"
    using run False path(2) ing by (simp add: adoptFileToBlob_def)
  then have r: "r = Inr ()" and s': "st_dataDir s' = st_dataDir s" "map_of (st_files s') = ?F(path \<mapsto> c)"
    using c(1) ne by (auto simp: linkBlobToVersion_def Let_def roots map_of_al_del dir fun_eq_iff)
  have bps: "blobPath s' x = blobPath s x" for x by (simp add: blobPath_def blobsRoot_def s'(1))
  have "?sha d = h" if "hex_hash h" "map_of (st_files s') (blobPath s' h) = Some d" for h d
  proof -
    have "blobPath s h \<noteq> path" using under_blobsRoot [OF abs that(1)] path(1) by auto
    then have "?F (blobPath s h) = Some d" using that(2) by (simp add: s'(2) bps)
    then show ?thesis
      using cont [OF that(1)] F [of "blobPath s h"] blobPath_inject [OF abs that(1) hex [of data]] by (auto split: if_splits)
  qed
  moreover have "map_option ?sha (map_of (st_files s') f) = map_option ?sha (map_of (st_files s) f)" if "\<not> under (blobsRoot s) f" for f
    using that bpu path(2) c(2) F [of f] by (auto simp: s'(2))
  ultimately show ?thesis using r s'(1) abs by (simp add: blobs_named_def same_hash_def)
qed

lemma adopt_all_keeps:
  assumes "blobs_named (oe_sha env) s" "\<And>c. hex_hash (oe_sha env c)"
    and "\<And>f. f \<in> set fs \<Longrightarrow> \<not> under (blobsRoot s) f \<and> map_of (st_files s) f \<noteq> None"
    and "adopt_all env fs s = (r, s')"
  shows "r = Inr () \<and> same_hash (oe_sha env) s s'"
  using assms
proof (induction fs arbitrary: s)
  case (Cons f fs)
  obtain data where f: "\<not> under (blobsRoot s) f" "map_of (st_files s) f = Some data" using Cons.prems(3) [of f] by auto
  obtain x s1 where a: "adoptFileToBlob env f s = (x, s1)" by fastforce
  note one = adopt_keeps [OF Cons.prems(1,2) f a]
  have root: "blobsRoot s1 = blobsRoot s" using one by (simp add: blobsRoot_def)
  have "map_of (st_files s1) g \<noteq> None" if "g \<in> set fs" for g
  proof -
    have g: "\<not> under (blobsRoot s) g" "map_of (st_files s) g \<noteq> None" using Cons.prems(3) [of g] that by auto
    with one have "map_option (oe_sha env) (map_of (st_files s1) g) = map_option (oe_sha env) (map_of (st_files s) g)"
      by (simp add: same_hash_def)
    with g(2) show ?thesis by (metis map_option_is_None)
  qed
  then have "r = Inr () \<and> same_hash (oe_sha env) s1 s'"
    using Cons.IH [of s1] one Cons.prems a root by auto
  with one root show ?case by (simp add: same_hash_def)
qed (simp add: same_hash_def)

lemma userdata_apart:
  assumes "is_abs (st_dataDir s)" "f = userdata_root s \<or> under (userdata_root s) f"
  shows "\<not> under (blobsRoot s) f"
proof
  assume b: "under (blobsRoot s) f"
  have one: "raw_comps ''userdata'' = [''userdata'']" "raw_comps ''blobs'' = [''blobs'']" by code_simp+
  have "userdata_root s = render True (path_comps (st_dataDir s) @ [''userdata''])"
    using assms(1) one by (simp add: userdata_root_def path_join_plain)
  moreover have "blobsRoot s = render True (path_comps (st_dataDir s) @ [''blobs''])" by (rule blobsRoot_render [OF assms(1)])
  moreover have "\<exists>d. \<forall>w. render True (path_comps (st_dataDir s) @ [w]) = d @ w"
  proof (cases "path_comps (st_dataDir s) = []")
    case False
    have "render True (path_comps (st_dataDir s) @ [w]) = (render True (path_comps (st_dataDir s)) @ ''/'') @ w" for w
      using render_append [OF False, of "[w]" True] by simp
    then show ?thesis by blast
  qed (auto simp: render_def)
  ultimately obtain d where d: "userdata_root s = d @ ''userdata''" "blobsRoot s = d @ ''blobs''" by auto
  from b obtain t where "f = d @ ''blobs/'' @ t" by (auto simp: under_def has_prefix_iff d)
  with assms(2) show False by (auto simp: under_def has_prefix_iff d)
qed

text \<open>
  Adopting the files of an existing data directory into the blob store always comes to its end, and afterwards every file
  outside that store still has a content of the same hash.
\<close>

theorem blob_migration_keeps_files:
  assumes "blobs_named (oe_sha env) s" "\<forall>c. hex_hash (oe_sha env c)"
    and "migrateExistingFilesToBlobs env b s = (r, b', s')"
  shows "r = Inr () \<and> b' \<and> same_hash (oe_sha env) s s'"
proof -
  let ?fs = "filter (isVersionDataFile (userdata_root s)) (walk_paths s (userdata_root s))"
  have abs: "is_abs (st_dataDir s)" using assms(1) by (simp add: blobs_named_def)
  have fs: "\<not> under (blobsRoot s) f \<and> map_of (st_files s) f \<noteq> None" if "f \<in> set ?fs" for f
  proof -
    have "f = userdata_root s \<or> under (userdata_root s) f" "f \<in> fst ` set (st_files s)"
      using that by (auto simp: walk_paths_def)
    then show ?thesis using userdata_apart [OF abs] by (auto simp: map_of_eq_None_iff)
  qed
  obtain x s1 where a: "adopt_all env ?fs s = (x, s1)" by fastforce
  have "x = Inr () \<and> same_hash (oe_sha env) s s1" using adopt_all_keeps [OF assms(1) _ fs a] assms(2) by blast
  with a assms(3) show ?thesis by (auto simp: migrateExistingFilesToBlobs_def same_hash_def split: if_splits)
qed

section \<open>Uploads after a restart\<close>

definition plain_event :: "upload_event \<Rightarrow> upload_event" where
  "plain_event u = u\<lparr>ue_ID := 0\<rparr>"

text \<open>The event that stands for an audited upload.\<close>

definition audit_event :: "int \<Rightarrow> project \<Rightarrow> audit_entry \<Rightarrow> upload_event" where
  "audit_event tenantID p e =
     \<lparr>ue_ID = 0, ue_At = al_At e, ue_TenantID = tenantID, ue_ProjectID = p_ID p, ue_Version = auditDetailValue (al_Detail e) ''version'',
      ue_Kind = upload_kind_of (al_Action e), ue_Bytes = 0, ue_FileCount = 0, ue_Status = ''success'', ue_Username = al_Username e,
      ue_Detail = al_Detail e, ue_Error = [], ue_IP = al_IP e\<rparr>"

definition audited_project :: "int \<Rightarrow> store \<Rightarrow> audit_entry \<Rightarrow> project option" where
  "audited_project tenantID s e =
     (let name = auditDetailValue (al_Detail e) ''project''
      in if name = [] then None else case GetProjectByName s tenantID name of Inl _ \<Rightarrow> None | Inr p \<Rightarrow> Some p)"

text \<open>The pairs of events and audit entries refer to events that were written.\<close>

definition sources_ok :: "database \<Rightarrow> bool" where
  "sources_ok db = (\<forall>(ev, a)\<in>set (db_sources db). ev < tnext (ol_uploads (db_logs db)))"

lemma backfill_one_effect:
  assumes "sources_ok db" "\<not> has_event db e"
  shows "db_store (backfill_one i e db) = db_store db \<and> sources_ok (backfill_one i e db)
    \<and> map plain_event (trows (ol_uploads (db_logs (backfill_one i e db)))) = map plain_event (trows (ol_uploads (db_logs db)))
        @ (case audited_project i (db_store db) e of None \<Rightarrow> [] | Some p \<Rightarrow> [audit_event i p e])
    \<and> (\<forall>e'. al_ID e' \<noteq> al_ID e \<longrightarrow> has_event (backfill_one i e db) e' = has_event db e')"
proof (cases "audited_project i (db_store db) e")
  case None
  then have "backfill_one i e db = db"
    by (auto simp: audited_project_def backfill_one_def Let_def split: sum.splits if_splits)
  with None assms show ?thesis by simp
next
  case (Some p)
  let ?t = "ol_uploads (db_logs db)" and ?name = "auditDetailValue (al_Detail e) ''project''"
  let ?row = "(audit_event i p e)\<lparr>ue_ID := tnext ?t\<rparr>"
  from Some have name: "?name \<noteq> []" "GetProjectByName (db_store db) i ?name = Inr p"
    by (auto simp: audited_project_def Let_def split: if_splits sum.splits)
  have new: "\<not> list_ex (\<lambda>(_, a). a = al_ID e) (filter (\<lambda>(ev, _). list_ex (\<lambda>u. ue_ID u = ev) (trows ?t)) (db_sources db))"
    using assms(2) by (auto simp: has_event_def list_ex_iff)
  have b: "backfill_one i e db = db\<lparr>db_logs := (db_logs db)\<lparr>ol_uploads := \<lparr>trows = trows ?t @ [?row], tnext = tnext ?t + 1\<rparr>\<rparr>,
      db_sources := db_sources db @ [(tnext ?t, al_ID e)]\<rparr>"
    using name new by (simp add: backfill_one_def Let_def tbl_insert_def no_conflict_def audit_event_def list_ex_iff)
  have "sources_ok (backfill_one i e db)" using assms(1) by (fastforce simp: b sources_ok_def)
  moreover have "has_event (backfill_one i e db) e' = has_event db e'" if "al_ID e' \<noteq> al_ID e" for e'
  proof -
    have "ev \<noteq> tnext ?t" if "(ev, a) \<in> set (db_sources db)" for ev a using assms(1) that by (fastforce simp: sources_ok_def)
    with that show ?thesis by (fastforce simp: b has_event_def list_ex_iff)
  qed
  ultimately show ?thesis using Some by (simp add: b plain_event_def audit_event_def)
qed

lemma backfill_fold:
  assumes "sources_ok db" "\<forall>e\<in>set es. \<not> has_event db e" "distinct (map al_ID es)"
  shows "map plain_event (trows (ol_uploads (db_logs (fold (backfill_one i) es db)))) = map plain_event (trows (ol_uploads (db_logs db)))
    @ concat (map (\<lambda>e. case audited_project i (db_store db) e of None \<Rightarrow> [] | Some p \<Rightarrow> [audit_event i p e]) es)"
  using assms
proof (induction es arbitrary: db)
  case (Cons e es)
  let ?db = "backfill_one i e db"
  have "\<not> has_event db e" using Cons.prems(2) by simp
  note one = backfill_one_effect [OF Cons.prems(1) this, of i]
  have "\<forall>e'\<in>set es. \<not> has_event ?db e'" using one Cons.prems(2,3) by (metis image_eqI list.set_map list.simps(15) distinct.simps(2) insertCI list.map(2))
  with Cons.IH [of ?db] one Cons.prems(3) show ?case by simp
qed simp

text \<open>
  In a database of one tenant, a restart adds an event of zero bytes for every audited upload that has no event of its own
  recorded as coming from it.  The uploads the server takes are audited and recorded, and never record where they come from:
  each of them is counted twice after the next start.
\<close>

theorem restart_duplicates_uploads:
  assumes "trows (st_tenants (db_store db)) = [t]" "tbl_ok al_ID (st_audit (db_store db))" "sources_ok db"
    and "e \<in> set (trows (st_audit (db_store db)))" "audited_upload e" "\<not> has_event db e"
    and "audited_project (tn_ID t) (db_store db) e = Some p"
  shows "\<exists>new. map plain_event (trows (ol_uploads (db_logs (backfillLegacyUploads db)))) = map plain_event (trows (ol_uploads (db_logs db))) @ new
    \<and> audit_event (tn_ID t) p e \<in> set new"
proof -
  let ?es = "legacy_uploads db"
  have "distinct (map al_ID (filter P (trows (st_audit (db_store db)))))" for P
    using audit_rows.ids_distinct [OF assms(2)] by (simp add: distinct_map_filter)
  then have "distinct (map al_ID ?es)"
    by (simp add: legacy_uploads_def distinct_map)
  moreover have "\<forall>e\<in>set ?es. \<not> has_event db e" by (simp add: legacy_uploads_def)
  ultimately have "map plain_event (trows (ol_uploads (db_logs (backfillLegacyUploads db)))) = map plain_event (trows (ol_uploads (db_logs db)))
    @ concat (map (\<lambda>e. case audited_project (tn_ID t) (db_store db) e of None \<Rightarrow> [] | Some p \<Rightarrow> [audit_event (tn_ID t) p e]) ?es)"
    using backfill_fold [OF assms(3)] by (simp add: backfillLegacyUploads_def assms(1))
  moreover have "e \<in> set ?es" using assms(4-6) by (simp add: legacy_uploads_def)
  ultimately show ?thesis using assms(7) by (intro exI conjI) (assumption, force)
qed

section \<open>Witnesses\<close>

definition sample_open :: open_env where
  "sample_open = \<lparr>oe_now = 0, oe_sha = (\<lambda>_. replicate 64 (CHR ''a'')), oe_hash = ''root'', oe_token = Some ''t0'', oe_linked = (\<lambda>_ _. False)\<rparr>"

definition sample_db :: "store \<Rightarrow> database" where
  "sample_db s = \<lparr>db_store = s, db_logs = \<lparr>ol_projects = empty_table, ol_uploads = empty_table\<rparr>, db_sources = [], db_blobsMigrated = True\<rparr>"


definition sample_legacy :: store where
  "sample_legacy = (empty_store ''/d'')\<lparr>st_files := [(''/d/projects/game/1.0.0/a.txt'', ''A''), (''/d/server.yaml'', ''Y'')]\<rparr>"

lemma layout_keeps_files_witness:
  "st_files (migrateLegacyDataLayout ''default'' sample_legacy)
     = [(''/d/userdata/default/projects/game/1.0.0/a.txt'', ''A''), (''/d/userdata/default/server.yaml'', ''Y'')]
   \<and> al_wf (st_files (migrateLegacyDataLayout ''default'' sample_legacy))"
proof -
  have "al_wf (st_files sample_legacy)" by code_simp
  from layout_keeps_files [OF this] show ?thesis by (intro conjI) (code_simp, blast)
qed

lemma blob_migration_keeps_files_witness:
  "\<exists>s'. migrateExistingFilesToBlobs sample_open False sample_pull_store = (Inr (), True, s')
     \<and> same_hash (oe_sha sample_open) sample_pull_store s'"
proof -
  obtain r b s' where m: "migrateExistingFilesToBlobs sample_open False sample_pull_store = (r, b, s')" by (metis prod.exhaust)
  have abs: "is_abs (st_dataDir sample_pull_store)" by code_simp
  have "under (userdata_root sample_pull_store) f" if "map_of (st_files sample_pull_store) f = Some c" for f c
  proof -
    have "list_all (\<lambda>(f, c). under (userdata_root sample_pull_store) f) (st_files sample_pull_store)" by code_simp
    with map_of_SomeD [OF that] show ?thesis by (auto simp: list_all_iff)
  qed
  then have "map_of (st_files sample_pull_store) (blobPath sample_pull_store h) \<noteq> Some c" if "hex_hash h" for h c
    using userdata_apart [OF abs] under_blobsRoot [OF abs that] by blast
  then have "blobs_named (oe_sha sample_open) sample_pull_store" using abs by (auto simp: blobs_named_def)
  moreover have "\<forall>c. hex_hash (oe_sha sample_open c)"
  proof -
    have "hex_hash (replicate 64 (CHR ''a''))" by code_simp
    then show ?thesis by (simp add: sample_open_def)
  qed
  ultimately show ?thesis using blob_migration_keeps_files [OF _ _ m] m by auto
qed

text \<open>A database after one upload: its audit entry, and its event.\<close>

definition first_upload :: audit_entry where
  "first_upload = \<lparr>al_ID = 1, al_At = Some 0, al_Username = ''ann'', al_Action = ''version.upload'',
     al_Detail = ''project=game version=1.0.0 file=a.txt'', al_IP = ''10.0.0.1''\<rparr>"

definition uploaded_db :: database where
  "uploaded_db = \<lparr>db_store = sample_release_store\<lparr>st_audit := \<lparr>trows = [first_upload], tnext = 2\<rparr>\<rparr>,
     db_logs = \<lparr>ol_projects = empty_table, ol_uploads = \<lparr>trows = [\<lparr>ue_ID = 1, ue_At = Some 0, ue_TenantID = 7, ue_ProjectID = 1,
       ue_Version = ''1.0.0'', ue_Kind = ''file'', ue_Bytes = 1, ue_FileCount = 1, ue_Status = ''success'', ue_Username = ''ann'',
       ue_Detail = ''project=game version=1.0.0 file=a.txt'', ue_Error = [], ue_IP = ''10.0.0.1''\<rparr>], tnext = 2\<rparr>\<rparr>,
     db_sources = [], db_blobsMigrated = True\<rparr>"

lemma restart_duplicates_uploads_witness:
  "length (trows (ol_uploads (db_logs uploaded_db))) = 1 \<and> 2 \<le> length (trows (ol_uploads (db_logs (backfillLegacyUploads uploaded_db))))"
proof -
  let ?s = "db_store uploaded_db"
  have one: "length (trows (st_tenants ?s)) = 1" and up: "audited_upload first_upload" by code_simp+
  obtain t where t: "trows (st_tenants ?s) = [t]" using one by (auto simp: length_Suc_conv)
  have "map tn_ID (trows (st_tenants ?s)) = [7]" by code_simp
  then have tid: "tn_ID t = 7" by (simp add: t)
  have "audited_project 7 ?s first_upload \<noteq> None" by code_simp
  then obtain p where p: "audited_project (tn_ID t) ?s first_upload = Some p" using tid by auto
  have audit: "st_audit ?s = \<lparr>trows = [first_upload], tnext = 2\<rparr>" by (simp add: uploaded_db_def)
  then have ok: "tbl_ok al_ID (st_audit ?s)" "first_upload \<in> set (trows (st_audit ?s))"
    by (simp_all add: tbl_ok_def first_upload_def)
  have src: "sources_ok uploaded_db" "\<not> has_event uploaded_db first_upload" by (simp_all add: uploaded_db_def sources_ok_def has_event_def)
  obtain new where new: "map plain_event (trows (ol_uploads (db_logs (backfillLegacyUploads uploaded_db))))
      = map plain_event (trows (ol_uploads (db_logs uploaded_db))) @ new" "audit_event (tn_ID t) p first_upload \<in> set new"
    using restart_duplicates_uploads [OF t ok(1) src(1) ok(2) up src(2) p] by blast
  have "length (trows (ol_uploads (db_logs (backfillLegacyUploads uploaded_db)))) = length (trows (ol_uploads (db_logs uploaded_db))) + length new"
    using arg_cong [OF new(1), of length] by simp
  moreover have "1 \<le> length new" using new(2) by (cases new) auto
  moreover have "length (trows (ol_uploads (db_logs uploaded_db))) = 1" by (simp add: uploaded_db_def)
  ultimately show ?thesis by linarith
qed

end
