(* ===== verification/SystemUpdate.thy ===== *)
theory SystemUpdate
  imports AdminApi ServerCommands
begin

text \<open>
  The update of a server that its API starts (\<open>runSelfUpdate\<close> of \<open>internal/api/handlers_system_update.go\<close>), composed with the
  command it runs (\<open>update\<close> of \<open>cmd/express233-server\<close>): the child process is the dispatcher of the command line on the
  machine of the server.
\<close>

text \<open>What the child prints and returns; the first word is the binary itself.\<close>

definition child_command :: "ctl_env \<Rightarrow> string \<Rightarrow> machine \<Rightarrow> string list \<Rightarrow> string \<times> go_error option" where
  "child_command env usage m words =
     (case fst (run env usage (drop 1 words) m) of Inl e \<Rightarrow> ([], Some e) | Inr output \<Rightarrow> (output, None))"

text \<open>The words after \<open>update\<close> parse to the target and the data directory, whatever these texts are.\<close>

lemma self_update_flags:
  "parse_flags [(''version'', StringFlag), (''restart'', BoolFlag), (''data'', StringFlag)] [''--version'', target, ''--data'', d]
     = Inr ([(''version'', target), (''data'', d)], [])"
proof -
  have names: "flag_name ''--version'' = Some (''version'', None)" "flag_name ''--data'' = Some (''data'', None)" by code_simp+
  have dashes: "has_prefix ''--version'' ''-''" "has_prefix ''--data'' ''-''" by code_simp+
  show ?thesis by (simp add: names dashes flag_value_def)
qed

text \<open>
  An update asked for over the API is the update of exactly the target that was asked for and of the server's own data
  directory, followed by a restart: no target, not even one that looks like a flag, is read as anything else.
\<close>

theorem api_update_runs_target:
  "runSelfUpdate (Inr exe) (child_command env usage m) target d
     = (case fst (runUpdate env [''--version'', target, ''--data'', d] m) of Inl e \<Rightarrow> ([], Some e) | Inr output \<Rightarrow> (output, None))
   \<and> (\<exists>fa. parse_flags [(''version'', StringFlag), (''restart'', BoolFlag), (''data'', StringFlag)] [''--version'', target, ''--data'', d] = Inr fa
       \<and> flag_string fa ''version'' ''latest'' = target \<and> data_dir env fa = resolveDataDir env d True \<and> flag_bool fa ''restart'' True)"
proof -
  have "run env usage (''update'' # words) m = runUpdate env words m" for words
  proof -
    have "\<not> has_prefix ''update'' ''-''" by code_simp
    then show ?thesis by (simp add: run_def)
  qed
  moreover have "flag_string ([(''version'', target), (''data'', d)], []) ''version'' ''latest'' = target"
    "data_dir env ([(''version'', target), (''data'', d)], []) = resolveDataDir env d True"
    "flag_bool ([(''version'', target), (''data'', d)], []) ''restart'' True"
    by (simp_all add: flag_string_def data_dir_def flag_given_def flag_bool_def)
  ultimately show ?thesis
    by (simp add: runSelfUpdate_def self_update_args_def child_command_def self_update_flags del: parse_flags.simps)
qed

end
