(* ===== verification/Spec2Isabelle.thy ===== *)
theory Spec2Isabelle
  imports FileTags Deployments Overrides HookSpec Projects Bundle Compare Shell PushRun ReleaseHooks HookWorker
    AuditLog LoginGuard Logs DeliveryNodes VersionTypes
    Storage StorageIndex ServerConfig Tokens Sessions PullApi Agent ControlPlane ProjectApi DeliveryApi Router Isolation
    LogFiles Flags ServerText ConfigBackup ServerControl ServerCommands ClientCommands Dashboard AdminApi Bootstrap SystemUpdate
begin

text \<open>
  A verification development for express233, a server that stores configuration releases of projects and delivers them to
  machines, over SSH (push) or to agents that ask for them (pull).  The Go sources are under \<open>src/internal\<close> and \<open>src/cmd\<close>;
  file names below are relative to \<open>src\<close>.  Definitions keep the source's names; record fields carry a two letter prefix.

  \<^bold>\<open>The program and its parts.\<close>  A tenant owns projects; a project has versions, directories of files whose contents are kept
  once each in a content-addressed blob store.  A version is a draft, may be reviewed, and is published; publishing freezes
  it, triggers the release hooks of the project and moves the pull nodes that follow it.  A hook waits for its debounce
  time, merges the triggers of that time into one, and runs a release task: it creates a push deployment, which freezes a
  plan (host, path, hook, digest of what will be sent for each target) and then executes exactly this plan, one target
  after the other.  A pull node reports its state with every heartbeat and is told what it should run.  The client builds
  nothing itself: the server renders the bundle of a version for a server id by merging the overrides of the tenant's
  \<open>server.yaml\<close> into the configuration files.  The HTTP layer finds the caller (cookie, signed token, Basic login or pull
  token), checks roles, and calls the store.

  \<^bold>\<open>Theories, from the bottom.\<close>
  \<^item> \<open>Prelude\<close>, \<open>GoStrings\<close>, \<open>Paths\<close>: error values and the result type of Go's pairs \<open>(value, error)\<close>, association lists,
    package \<open>strings\<close> on byte strings, \<open>path/filepath\<close> on a POSIX system.
  \<^item> \<open>Tables\<close>: the four SQL statements the store uses, on lists of rows with an AUTOINCREMENT counter, and the locales
    \<open>autoinc\<close> and \<open>unique_index\<close> with what every such table promises; \<open>Store\<close>: the rows of every table, the record of all
    tables, files and directories (\<open>internal/store/store.go\<close> and the migrations), with an interpretation of the locales for
    each table.
  \<^item> \<open>FileTags\<close> (\<open>filetags/\<close>), \<open>ConfigTree\<close> and \<open>ConfigFiles\<close> (\<open>template/\<close>), \<open>Overrides\<close> (\<open>config/\<close>), \<open>HookSpec\<close> (\<open>hookspec/\<close>),
    \<open>Compare\<close> (\<open>compare/\<close>), \<open>Bundle\<close> (\<open>pull/bundle.go\<close>): the pure core of rendering a bundle.
  \<^item> \<open>Members\<close>, \<open>Hosts\<close>, \<open>Blobs\<close>, \<open>Files\<close>, \<open>Projects\<close>, \<open>VersionTypes\<close>, \<open>Deployments\<close>, \<open>ReleaseHooks\<close>, \<open>DeliveryNodes\<close>,
    \<open>LoginGuard\<close>, \<open>AuditLog\<close>, \<open>Logs\<close>, \<open>Storage\<close>, \<open>StorageIndex\<close> (\<open>store/\<close>): one theory per group of tables, one definition per
    store operation.
  \<^item> \<open>Shell\<close> and \<open>PushRun\<close> (\<open>api/push_executor.go\<close>, \<open>push_plan.go\<close>, \<open>handlers_push.go\<close>): the remote command line, the plan and
    the run of a deployment, against the interface \<open>executor\<close> of what an SSH connection may do; \<open>HookWorker\<close>
    (\<open>api/release_hook_worker.go\<close>): the worker between hooks and deployments.
  \<^item> \<open>ServerConfig\<close>, \<open>Tokens\<close>, \<open>Sessions\<close>, \<open>PullApi\<close>, \<open>ProjectApi\<close>, \<open>DeliveryApi\<close> (\<open>api/\<close>): the state of the server beside the
    store, who calls, and the handlers; \<open>Router\<close> (\<open>api/server.go\<close>): the middleware and the routes of a project; \<open>Isolation\<close>:
    what such a request leaves alone.
  \<^item> \<open>Agent\<close> (\<open>cli/agent.go\<close>): the agent of a node against the interface \<open>control_plane\<close>; \<open>ControlPlane\<close> interprets it with
    the server's own heartbeat handler.
  \<^item> \<open>Dashboard\<close> (\<open>store/dashboard.go\<close>, \<open>api/handlers_dashboard.go\<close>): the daily series, their totals, the health of nodes
    and hooks and the latest records of the caller's projects.
  \<^item> \<open>Flags\<close>: packages \<open>flag\<close> and \<open>strconv\<close> as the commands use them; \<open>LogFiles\<close> (\<open>cmd/express233-server/control.go\<close>): the
    server's own log, rotated by size and day; \<open>ServerText\<close> (\<open>control.go\<close>, \<open>service.go\<close>): addresses, release names, the texts
    of service files and of the script that installs an update, with a lexer of the shell for the latter.
  \<^item> \<open>ConfigBackup\<close>, \<open>ServerControl\<close>, \<open>ServerCommands\<close> (\<open>cmd/express233-server/\<close>, \<open>internal/instancelock\<close>): the server command
    on a \<open>machine\<close>, the data directories with their runtime files, the service files and the servers that run; a record
    \<open>ctl_env\<close> holds what the operating system, the service manager and the release host answer, and how the process fares
    that is started next.  Commands are steps of \<open>ctl_step\<close>, beside servers that exit or are killed.
  \<^item> \<open>ClientCommands\<close> (\<open>cmd/express233-cli/main.go\<close>, \<open>internal/cli\<close>): the other commands of the client, on its files, its
    configuration and the state of the other side; a record \<open>client_env\<close> holds the HTTP exchange, the decoders and the
    processes.  For the list of published versions the other side is the server's own handler.
  \<^item> \<open>AdminApi\<close> (\<open>api/login_protection.go\<close>, \<open>api/handlers_system_update.go\<close>, \<open>Router\<close> of \<open>api/server.go\<close>): the routes for
    administrators with their gates, the settings and bans of the login protection, and the update of the server, whose
    goroutine is a pending run; requests and runs are steps of \<open>admin_step\<close>.  \<open>SystemUpdate\<close>: the command such a run
    starts is the server command of \<open>ServerCommands\<close>.
  \<^item> \<open>Bootstrap\<close> (\<open>store/store.go\<close>, \<open>migrate_extra.go\<close>, \<open>migrate_tenant.go\<close>, \<open>tenants.go\<close>, \<open>project_members.go\<close>,
    \<open>migrate_blobs.go\<close>, \<open>blobs.go\<close>, \<open>dashboard.go\<close>): what every start does to an existing data directory, on a
    \<open>database\<close>, the store with its logs, the audit entries upload events come from and the mark of adopted files.

  \<^bold>\<open>How code is rendered.\<close>  A store operation takes the store and returns its result and the new store, \<open>'a res \<times> store\<close> with
  \<open>'a res = go_error + 'a\<close>; \<open>Inl\<close> is a returned error.  An operation in one transaction returns the old store when it
  fails; one without a transaction returns what was written so far.  Handlers thread \<open>api_state\<close> (store, copies of
  \<open>server.yaml\<close>, sessions) and, where they write operational logs, \<open>pull_state\<close>; the answer is a result, an HTTP error being
  \<open>Inl\<close>.  A request comes with what its path, query and body decode to; a body that does not decode is \<open>None\<close>.  Time is an
  argument in nanoseconds (\<open>go_time\<close>), and a stamp as the database keeps it is a number of seconds or none; operations that
  read the clock several times take a clock.  Integers of the database are \<open>int\<close>; where the code can overflow its 64 bits the
  wrap-around is written out (\<open>wrap64\<close>: patch numbers, durations, the jitter of the agent).  Maps are association lists with
  the order the code gives them, where it iterates, and functions of the key where it does not.  Locks are not modelled: an
  operation is one step, and interleavings are sequences of steps (\<open>dep_run\<close>, \<open>worker_trace\<close>, \<open>hook_step\<close>, \<open>node_step\<close>,
  \<open>ver_step\<close>).

  \<^bold>\<open>Parameters.\<close>  What is not under \<open>src\<close> is an argument of the definitions that use it: SHA-256, bcrypt, HMAC and AES-GCM,
  base64, JSON and YAML codecs, gzip and the decoders of zip and tar (archives are lists of entries), \<open>net.ParseIP\<close>, the
  SSH connection, a hook's process, random sources, HTTP transport.  A theorem that needs a law of one of them states it
  as a hypothesis, and its witness instantiates the parameter.

  \<^bold>\<open>Termination and bounds.\<close>  Every function is total: recursion is structural, or on a measure given with the function
  (the size of the text or tree that is left, the depth of the directories, the retries that are left), or on the number of attempts, cycles or retries the
  source bounds, which are then arguments.  The only unbounded loops of the program, the tickers and the agent's loop, are
  iterated a given number of times (\<open>agent_cycles\<close>), and what is shown of them holds for each cycle.

  \<^bold>\<open>What is shown.\<close>
  \<^item> Deployments: only what was frozen in the plan is executed, once, by one worker; the first failure stops the rest; every
    run, and every deployment found running at start-up, ends in a final state; an idempotency key names one deployment.
  \<^item> Hooks: every trigger is accounted for by a run, a cancellation or the pending counter; triggers within the debounce time
    become one run; a run is executed at most once and settles its event.
  \<^item> Versions: rows are well formed; what is published is frozen, and retention never removes the newest; what a publication
    queues and moves; uploads and bundles never write outside their directory; a bundle extracts to what was built.
  \<^item> Nodes: generations never decrease, nodes are only steered to published versions, an agent converges in one cycle.
  \<^item> Access: changes of a project need its administrator, a bundle is only served from a project the caller may read, a
    change of password revokes sessions, lock-outs hold, an administrator's route is served to administrators only, requests for
    one project leave every other one alone, and a dashboard counts exactly the rows of the projects it shows.
  \<^item> The server command: one server per data directory, found by its runtime files; a start serves the address it reports,
    a stop ends no other server, an update never takes a server down without its replacement, over the API
    one update is in flight at a time, a backup is what is restored.
  \<^item> The client: a download is retried a bounded number of times, a rollback pulls the version the server's store names, a
    hook cannot be told another identity than the manifest's.
  \<^item> Pure parts: merging does not depend on the order of disjoint overrides, property files read back what was replaced, signed
    sessions and credentials round-trip, search is literal, \<open>server.yaml\<close> refines a map.
  \<^item> Where the code does not do what it means to, the theorem states what it does: the quoting of \<open>shellQuote\<close>, invitations
    that demote the last administrator, deletion outside the blob directory, the line that restarts an updated
    server, agents that lift the bans of logins, and the ids that are given out again after a restart.

  \<^bold>\<open>Not modelled.\<close>  Faults of the database engine and the disk; foreign keys, which the program never switches on; the
  statements that create or rebuild tables of older schemas; JSON rendering and HTTP status codes; cookies' attributes; TLS, signals,
  the goroutines of the tickers and the drain at shutdown; disk statistics, metrics, static documents, usage texts and request
  logging; the web console, scripts and deployment files, which are not Go.  In \<open>template/\<close> the legacy string maps of
  \<open>replace.go\<close> and \<open>transform.go\<close>.
\<close>

end
